(* ===== verification/Prelude.thy ===== *)
theory Prelude
  imports "HOL-Library.Word"
begin

text \<open>
  Shared ground of the development: names for the machine types of the C code, the outcome type
  of a C function that may abort or leave defined behaviour, memory blocks as byte lists, the
  big-endian byte order of the wire formats, and the collections of facts the component theories
  hand to the simplifier.

  A C function of the model returns \<open>'a res\<close>.  \<open>Ok x\<close> is a normal return with the
  result and the updated state; \<open>Fault f\<close> says that the C program has no further defined
  behaviour: a live \<open>assert\<close> fails, memory outside a block is read or written, a variable is
  read before it was set.  \<open>OutOfFuel\<close> is no behaviour of the program: it marks a loop whose
  bound in the model was too small, and theorems show that it is never the result.
\<close>

unbundle bit_operations_syntax

section \<open>Machine types\<close>

type_synonym u8 = "8 word"
type_synonym u16 = "16 word"
type_synonym u32 = "32 word"
type_synonym u64 = "64 word"
type_synonym i32 = "32 word"
type_synonym i64 = "64 word"
type_synonym bytes = "u8 list"

text \<open>A pointer to a heap block the object owns: \<open>None\<close> is NULL, \<open>Some b\<close> a block
  holding the bytes \<open>b\<close>.\<close>
type_synonym block_ptr = "u8 list option"

named_theorems res_simps "evaluation of outcomes"
named_theorems wire_simps "bytes of the wire format"
named_theorems codec_simps "unfolding of one message codec"

section \<open>Outcomes\<close>

datatype fault = AssertFailed | OutOfBounds | Uninitialised | OutOfFuel

datatype 'a res = Fault fault | Ok 'a

fun bindR :: "'a res \<Rightarrow> ('a \<Rightarrow> 'b res) \<Rightarrow> 'b res" where
  "bindR (Fault f) k = Fault f"
| "bindR (Ok x) k = k x"

definition assertR :: "bool \<Rightarrow> 'a res \<Rightarrow> 'a res" where
  "assertR b k = (if b then k else Fault AssertFailed)"

text \<open>The pattern \<open>err = f(..); if(err) return err;\<close>: a call gives an error number and the new
  state, and a number other than 0 ends the caller at once.\<close>
definition checkR :: "(nat \<times> 's) res \<Rightarrow> ('s \<Rightarrow> (nat \<times> 's) res) \<Rightarrow> (nat \<times> 's) res" where
  "checkR m k = bindR m (\<lambda>(err, s). if err \<noteq> 0 then Ok (err, s) else k s)"

lemma assertR_simps [simp, res_simps]:
  "assertR True k = k" "assertR False k = Fault AssertFailed"
  by (simp_all add: assertR_def)

lemma checkR_simps [simp, res_simps]:
  "checkR (Fault f) k = Fault f"
  "checkR (Ok (0, s)) k = k s"
  "e \<noteq> 0 \<Longrightarrow> checkR (Ok (e, s)) k = Ok (e, s)"
  by (simp_all add: checkR_def)

lemma bindR_eq_Ok: "bindR m k = Ok y \<longleftrightarrow> (\<exists>x. m = Ok x \<and> k x = Ok y)"
  by (cases m) auto

lemma bindR_eq_Fault:
  "bindR m k = Fault f \<longleftrightarrow> m = Fault f \<or> (\<exists>x. m = Ok x \<and> k x = Fault f)"
  by (cases m) auto

lemma bindR_assoc: "bindR (bindR m k) h = bindR m (\<lambda>x. bindR (k x) h)"
  by (cases m) auto

lemma bindR_cong [fundef_cong]:
  "m = m' \<Longrightarrow> (\<And>x. m' = Ok x \<Longrightarrow> k x = k' x) \<Longrightarrow> bindR m k = bindR m' k'"
  by (cases m') auto

lemma assertR_eq_Ok: "assertR b k = Ok y \<longleftrightarrow> b \<and> k = Ok y"
  by (simp add: assertR_def)

text \<open>\<open>safe P m\<close>: the call stays inside memory and inside its loop bounds, and a normal return
  satisfies \<open>P\<close>; a failing assert is the only way to stop.\<close>
definition safe :: "('a \<Rightarrow> bool) \<Rightarrow> 'a res \<Rightarrow> bool" where
  "safe P m \<longleftrightarrow> (case m of Fault f \<Rightarrow> f = AssertFailed | Ok x \<Rightarrow> P x)"

lemma safe_simps [simp]: "safe P (Ok x) = P x" "safe P (Fault f) = (f = AssertFailed)"
  by (simp_all add: safe_def)

lemma safe_bind:
  assumes "safe P m" "\<And>x. P x \<Longrightarrow> safe Q (k x)"
  shows "safe Q (bindR m k)"
  using assms by (cases m) auto

lemma safe_assert: "(b \<Longrightarrow> safe P k) \<Longrightarrow> safe P (assertR b k)"
  by (simp add: assertR_def)

lemma safe_mono: "safe P m \<Longrightarrow> (\<And>x. P x \<Longrightarrow> Q x) \<Longrightarrow> safe Q m"
  by (cases m) auto

lemma safe_conj: "safe P m \<Longrightarrow> safe Q m \<Longrightarrow> safe (\<lambda>x. P x \<and> Q x) m"
  by (cases m) auto

section \<open>Memory blocks\<close>

definition mem_byte :: "bytes \<Rightarrow> nat \<Rightarrow> u8 res" where
  "mem_byte m i = (if i < length m then Ok (m ! i) else Fault OutOfBounds)"

definition mem_slice :: "bytes \<Rightarrow> nat \<Rightarrow> nat \<Rightarrow> bytes res" where
  "mem_slice m i n = (if i + n \<le> length m then Ok (take n (drop i m)) else Fault OutOfBounds)"

definition mem_write :: "bytes \<Rightarrow> nat \<Rightarrow> bytes \<Rightarrow> bytes res" where
  "mem_write m i d =
     (if i + length d \<le> length m then Ok (take i m @ d @ drop (i + length d) m)
      else Fault OutOfBounds)"

text \<open>Reading \<open>n\<close> bytes behind a pointer; reading none is harmless even through NULL.\<close>
definition block_read :: "block_ptr \<Rightarrow> nat \<Rightarrow> bytes res" where
  "block_read p n = (case p of
       None \<Rightarrow> (if n = 0 then Ok [] else Fault OutOfBounds)
     | Some b \<Rightarrow> mem_slice b 0 n)"

lemma mem_byte_Ok [res_simps]: "i < length m \<Longrightarrow> mem_byte m i = Ok (m ! i)"
  by (simp add: mem_byte_def)

lemma safe_mem_byte: "i < length m \<Longrightarrow> safe (\<lambda>b. b = m ! i) (mem_byte m i)"
  by (simp add: mem_byte_def)

lemma safe_mem_slice: "i + n \<le> length m \<Longrightarrow> safe (\<lambda>d. length d = n) (mem_slice m i n)"
  by (simp add: mem_slice_def)

lemma mem_byte_append_mid [simp]: "mem_byte (pre @ b # rest) (length pre) = Ok b"
  by (simp add: mem_byte_def)

lemma mem_slice_append_mid [simp]:
  "n = length xs \<Longrightarrow> mem_slice (pre @ xs @ rest) (length pre) n = Ok xs"
  by (simp add: mem_slice_def)

lemma mem_slice_Ok_length: "mem_slice m i n = Ok d \<Longrightarrow> length d = n"
  by (auto simp: mem_slice_def split: if_splits)

lemma mem_write_length: "mem_write m i d = Ok m' \<Longrightarrow> length m' = length m"
  by (auto simp: mem_write_def split: if_splits)

lemma mem_write_take:
  "mem_write m i d = Ok m' \<Longrightarrow> take (i + length d) m' = take i m @ d"
  by (auto simp: mem_write_def split: if_splits)

lemma block_read_Some [simp]: "n = length b \<Longrightarrow> block_read (Some b) n = Ok b"
  by (simp add: block_read_def mem_slice_def)

lemma block_read_length: "block_read p n = Ok d \<Longrightarrow> length d = n"
  by (auto simp: block_read_def mem_slice_def split: option.splits if_splits)

section \<open>Big-endian numbers\<close>

text \<open>\<open>be_put n x\<close> writes the low \<open>n\<close> bytes of \<open>x\<close>, most significant first (network byte order,
  what \<open>htonl\<close> followed by \<open>memcpy\<close> leaves in memory); \<open>be_get\<close> reads them back.\<close>

fun be_put :: "nat \<Rightarrow> nat \<Rightarrow> bytes" where
  "be_put 0 x = []"
| "be_put (Suc n) x = be_put n (x div 256) @ [word_of_nat x]"

definition be_get :: "bytes \<Rightarrow> nat" where
  "be_get bs = foldl (\<lambda>a b. a * 256 + unat b) 0 bs"

lemma be_put_length [simp, wire_simps]: "length (be_put n x) = n"
  by (induction n arbitrary: x) auto

lemma be_get_snoc [simp]: "be_get (bs @ [b]) = be_get bs * 256 + unat b"
  by (simp add: be_get_def)

lemma be_get_Nil [simp]: "be_get [] = 0"
  by (simp add: be_get_def)

lemma be_get_put_mod: "be_get (be_put n x) = x mod 256 ^ n"
proof (induction n arbitrary: x)
  case (Suc n)
  have "be_get (be_put (Suc n) x) = (x div 256) mod 256 ^ n * 256 + x mod 256"
    using Suc by (simp add: unat_of_nat)
  also have "\<dots> = x mod 256 ^ Suc n"
    by (simp add: mod_mult2_eq)
  finally show ?case .
qed simp

lemma be_get_put [simp, wire_simps]: "x < 256 ^ n \<Longrightarrow> be_get (be_put n x) = x"
  by (simp add: be_get_put_mod)

lemma be_get_bound: "be_get bs < 256 ^ length bs"
proof (induction bs rule: rev_induct)
  case (snoc b bs)
  have "unat b < 256" using unsigned_less [of b] by simp
  with snoc show ?case by simp
qed simp

lemma be_put_get [simp]: "n = length bs \<Longrightarrow> be_put n (be_get bs) = bs"
proof (induction bs arbitrary: n rule: rev_induct)
  case (snoc b bs)
  have b: "unat b < 256" using unsigned_less [of b] by simp
  have "(be_get bs * 256 + unat b) div 256 = be_get bs" using b by simp
  moreover have "(word_of_nat (be_get bs * 256 + unat b) :: u8) = b"
    using b by (simp add: word_unat_eq_iff unat_of_nat del: of_nat_add)
  ultimately show ?case using snoc by simp
qed simp

declare be_put.simps [simp del]

section \<open>Words\<close>

lemma unat_small_words [simp]:
  "unat (2 :: u8) = 2" "unat (3 :: u8) = 3" "unat (4 :: u8) = 4"
  by simp_all

lemma unat_ucast_take_bit:
  "unat (ucast (v :: 'a::len word) :: 'b::len word) = take_bit LENGTH('b) (unat v)"
  by (simp add: unsigned_ucast_eq)

text \<open>An \<open>int\<close> that holds a small number.\<close>
lemma small_int_word:
  assumes "n < 2 ^ 31"
  shows "sint (word_of_nat n :: 32 word) = int n" "unat (word_of_nat n :: 32 word) = n"
proof -
  show u: "unat (word_of_nat n :: 32 word) = n"
    using assms by (simp add: unat_of_nat take_bit_nat_eq_self)
  have "uint (word_of_nat n :: 32 word) = int n" by (simp only: uint_nat u)
  then show "sint (word_of_nat n :: 32 word) = int n"
    using assms by (simp add: sint_uint signed_take_bit_int_eq_self)
qed

lemma small_word_ext: "n < 2 ^ 31 \<Longrightarrow> unat (scast (word_of_nat n :: i32) :: u64) = n"
proof -
  assume n: "n < 2 ^ 31"
  have "(scast (word_of_nat n :: i32) :: u64) = word_of_nat n"
    using small_int_word [OF n] by (simp only: scast_eq) simp
  then show ?thesis using n by (simp add: unat_of_nat take_bit_nat_eq_self)
qed

section \<open>Lists\<close>

lemma take_append_length [simp]: "take (length xs) (xs @ ys) = xs"
  by simp

lemma drop_take_split: "i + n \<le> length m \<Longrightarrow> m = take i m @ take n (drop i m) @ drop (i + n) m"
  by (metis append_take_drop_id drop_drop add.commute)

end
