(* ===== verification/Cbor_Encoder.thy ===== *)
theory Cbor_Encoder
  imports Prelude
begin

text \<open>
  The CBOR encoder \<open>lock/external/cbor/cborencoder.c\<close> every message of the lock protocol is
  written with.  The output block and the \<open>CborEncoder\<close> struct are passed explicitly: a function
  takes and returns the pair of both.  \<open>data.ptr\<close> is the offset into the block (or, once the end
  pointer is NULL, the count of missing bytes, as in the C union).
\<close>

section \<open>Constants\<close>

abbreviation (input) CborNoError :: nat where "CborNoError \<equiv> 0"
abbreviation (input) CborErrorUnknownLength :: nat where "CborErrorUnknownLength \<equiv> 2"
abbreviation (input) CborErrorAdvancePastEOF :: nat where "CborErrorAdvancePastEOF \<equiv> 3"
abbreviation (input) CborErrorUnexpectedEOF :: nat where "CborErrorUnexpectedEOF \<equiv> 257"
abbreviation (input) CborErrorUnexpectedBreak :: nat where "CborErrorUnexpectedBreak \<equiv> 258"
abbreviation (input) CborErrorUnknownType :: nat where "CborErrorUnknownType \<equiv> 259"
abbreviation (input) CborErrorIllegalType :: nat where "CborErrorIllegalType \<equiv> 260"
abbreviation (input) CborErrorIllegalNumber :: nat where "CborErrorIllegalNumber \<equiv> 261"
abbreviation (input) CborErrorIllegalSimpleType :: nat where "CborErrorIllegalSimpleType \<equiv> 262"
abbreviation (input) CborErrorDataTooLarge :: nat where "CborErrorDataTooLarge \<equiv> 1024"
abbreviation (input) CborErrorNestingTooDeep :: nat where "CborErrorNestingTooDeep \<equiv> 1025"
abbreviation (input) CborErrorOutOfMemory :: nat where "CborErrorOutOfMemory \<equiv> 8000"

text \<open>\<open>CborMajorTypes\<close>, already shifted by \<open>MajorTypeShift\<close>, and the flag bits.\<close>
abbreviation (input) MtUnsigned :: u8 where "MtUnsigned \<equiv> 0x00"
abbreviation (input) MtNegative :: u8 where "MtNegative \<equiv> 0x20"
abbreviation (input) MtBytes :: u8 where "MtBytes \<equiv> 0x40"
abbreviation (input) MtText :: u8 where "MtText \<equiv> 0x60"
abbreviation (input) MtArray :: u8 where "MtArray \<equiv> 0x80"
abbreviation (input) MtMap :: u8 where "MtMap \<equiv> 0xa0"
abbreviation (input) MtTag :: u8 where "MtTag \<equiv> 0xc0"
abbreviation (input) MtSimple :: u8 where "MtSimple \<equiv> 0xe0"

section \<open>The encoder state\<close>

record cbor_encoder =
  e_ptr :: nat
  e_end :: "nat option"
  e_added :: u64
  e_flags :: u8

type_synonym enc_state = "bytes \<times> cbor_encoder"

definition cbor_encoder_init :: "nat \<Rightarrow> nat \<Rightarrow> cbor_encoder" where
  "cbor_encoder_init buffer sz =
     \<lparr>e_ptr = buffer, e_end = Some (buffer + sz), e_added = 0, e_flags = 0\<rparr>"

definition would_overflow :: "cbor_encoder \<Rightarrow> nat \<Rightarrow> bool" where
  "would_overflow e len =
     (let remaining = (case e_end e of Some en \<Rightarrow> int en | None \<Rightarrow> 0);
          remaining = remaining - int (e_ptr e);
          remaining = remaining - int len
      in remaining < 0)"

definition advance_ptr :: "cbor_encoder \<Rightarrow> nat \<Rightarrow> cbor_encoder" where
  "advance_ptr e n = e\<lparr>e_ptr := e_ptr e + n\<rparr>"

definition append_to_buffer :: "bytes \<Rightarrow> enc_state \<Rightarrow> (nat \<times> enc_state) res" where
  "append_to_buffer d s = (let (buf, e) = s; len = length d in
     if would_overflow e len then
       (case e_end e of
          Some en \<Rightarrow>
            Ok (CborErrorOutOfMemory, buf,
                advance_ptr (e\<lparr>e_end := None, e_ptr := 0\<rparr>) (len - (en - e_ptr e)))
        | None \<Rightarrow> Ok (CborErrorOutOfMemory, buf, advance_ptr e len))
     else if len = 0 then Ok (CborNoError, buf, e)
     else bindR (mem_write buf (e_ptr e) d) (\<lambda>buf.
       Ok (CborNoError, buf, e\<lparr>e_ptr := e_ptr e + len\<rparr>)))"

section \<open>Numbers\<close>

text \<open>The bytes between \<open>bufstart\<close> and \<open>bufend\<close>: the tail of the 8 big-endian bytes of \<open>ui\<close>,
  its first byte (or a byte before it) carrying the major type.\<close>
definition number_bytes :: "u64 \<Rightarrow> u8 \<Rightarrow> bytes" where
  "number_bytes ui shiftedMajorType =
     (if ui < 24 then [ucast ui + shiftedMajorType]
      else
        let more = (0 :: nat);
            more = (if ui > 0xff then more + 1 else more);
            more = (if ui > 0xffff then more + 1 else more);
            more = (if ui > 0xffffffff then more + 1 else more)
        in (shiftedMajorType + 24 + word_of_nat more) # be_put (2 ^ more) (unat ui))"

definition encode_number_no_update :: "u64 \<Rightarrow> u8 \<Rightarrow> enc_state \<Rightarrow> (nat \<times> enc_state) res" where
  "encode_number_no_update ui shiftedMajorType s =
     append_to_buffer (number_bytes ui shiftedMajorType) s"

definition count_added :: "enc_state \<Rightarrow> enc_state" where
  "count_added s = (fst s, (snd s)\<lparr>e_added := e_added (snd s) + 1\<rparr>)"

definition encode_number :: "u64 \<Rightarrow> u8 \<Rightarrow> enc_state \<Rightarrow> (nat \<times> enc_state) res" where
  "encode_number ui shiftedMajorType s =
     encode_number_no_update ui shiftedMajorType (count_added s)"

definition cbor_encode_uint :: "u64 \<Rightarrow> enc_state \<Rightarrow> (nat \<times> enc_state) res" where
  "cbor_encode_uint v = encode_number v MtUnsigned"

definition cbor_encode_negative_int :: "u64 \<Rightarrow> enc_state \<Rightarrow> (nat \<times> enc_state) res" where
  "cbor_encode_negative_int v = encode_number v MtNegative"

definition cbor_encode_int :: "i64 \<Rightarrow> enc_state \<Rightarrow> (nat \<times> enc_state) res" where
  "cbor_encode_int v =
     (let ui = signed_drop_bit 63 v;
          majorType = ucast ui AND (0x20 :: u8);
          ui = ui XOR v
      in encode_number ui majorType)"

definition cbor_encode_simple_value :: "u8 \<Rightarrow> enc_state \<Rightarrow> (nat \<times> enc_state) res" where
  "cbor_encode_simple_value v s =
     (if 25 \<le> v \<and> v \<le> 31 then Ok (CborErrorIllegalSimpleType, s)
      else encode_number (ucast v) MtSimple s)"

definition cbor_encode_boolean :: "bool \<Rightarrow> enc_state \<Rightarrow> (nat \<times> enc_state) res" where
  "cbor_encode_boolean b = cbor_encode_simple_value (of_bool b - 1 + (0xf5 AND 0x1f))"

definition cbor_encode_tag :: "u64 \<Rightarrow> enc_state \<Rightarrow> (nat \<times> enc_state) res" where
  "cbor_encode_tag tag = encode_number_no_update tag MtTag"

section \<open>Strings and containers\<close>

text \<open>The string is copied even when the number before it ran out of room (\<open>isOomError\<close> is always
  true), so the missing bytes are counted to the end.\<close>
definition encode_string :: "nat \<Rightarrow> u8 \<Rightarrow> block_ptr \<Rightarrow> enc_state \<Rightarrow> (nat \<times> enc_state) res" where
  "encode_string len shiftedMajorType string s =
     bindR (encode_number (word_of_nat len) shiftedMajorType s) (\<lambda>(_, s).
     bindR (block_read string len) (\<lambda>d.
     append_to_buffer d s))"

definition cbor_encode_byte_string :: "block_ptr \<Rightarrow> nat \<Rightarrow> enc_state \<Rightarrow> (nat \<times> enc_state) res" where
  "cbor_encode_byte_string string len = encode_string len MtBytes string"

definition cbor_encode_text_string :: "block_ptr \<Rightarrow> nat \<Rightarrow> enc_state \<Rightarrow> (nat \<times> enc_state) res" where
  "cbor_encode_text_string string len = encode_string len MtText string"

text \<open>The container encoder is a second struct over the same block; its address is the last
  component.\<close>
definition create_container ::
  "u64 \<Rightarrow> u8 \<Rightarrow> enc_state \<Rightarrow> (nat \<times> enc_state \<times> cbor_encoder) res" where
  "create_container len shiftedMajorType s = (let (buf, e) = s;
       container = \<lparr>e_ptr = e_ptr e, e_end = e_end e, e_added = 0,
                    e_flags = shiftedMajorType AND 0x20\<rparr>;
       e = e\<lparr>e_added := e_added e + 1\<rparr>
     in if len = -1
        then bindR (append_to_buffer [shiftedMajorType + 31]
                      (buf, container\<lparr>e_flags := e_flags container OR 0x04\<rparr>))
               (\<lambda>(err, buf, container). Ok (err, (buf, e), container))
        else bindR (encode_number_no_update len shiftedMajorType (buf, container))
               (\<lambda>(err, buf, container). Ok (err, (buf, e), container)))"

definition cbor_encoder_create_array ::
  "u64 \<Rightarrow> enc_state \<Rightarrow> (nat \<times> enc_state \<times> cbor_encoder) res" where
  "cbor_encoder_create_array len s = create_container len MtArray s"

definition cbor_encoder_create_map ::
  "u64 \<Rightarrow> enc_state \<Rightarrow> (nat \<times> enc_state \<times> cbor_encoder option) res" where
  "cbor_encoder_create_map len s =
     (if len \<noteq> -1 \<and> len > 0x7fffffffffffffff then Ok (CborErrorDataTooLarge, s, None)
      else bindR (create_container len MtMap s) (\<lambda>(err, s, c). Ok (err, s, Some c)))"

definition cbor_encoder_close_container ::
  "cbor_encoder \<Rightarrow> enc_state \<Rightarrow> (nat \<times> enc_state) res" where
  "cbor_encoder_close_container container s = (let (buf, e) = s;
       e = e\<lparr>e_ptr := e_ptr container, e_end := e_end container\<rparr>
     in if e_flags container AND 0x04 \<noteq> 0 then append_to_buffer [0xff] (buf, e)
        else Ok (CborNoError, buf, e))"

definition cbor_encoder_get_buffer_size :: "cbor_encoder \<Rightarrow> nat \<Rightarrow> nat" where
  "cbor_encoder_get_buffer_size e buffer = e_ptr e - buffer"

definition cbor_encoder_get_extra_bytes_needed :: "cbor_encoder \<Rightarrow> nat" where
  "cbor_encoder_get_extra_bytes_needed e = (case e_end e of Some _ \<Rightarrow> 0 | None \<Rightarrow> e_ptr e)"

section \<open>What the encoder writes\<close>

text \<open>\<open>enc_st b0 n out a f\<close> is the encoder after the bytes \<open>out\<close> went into the first \<open>n\<close> bytes of the
  block \<open>b0\<close>: they stand at its start, the rest of the block is untouched.  \<open>enc_full\<close> is the
  encoder that ran out of room.\<close>
definition enc_st :: "bytes \<Rightarrow> nat \<Rightarrow> bytes \<Rightarrow> u64 \<Rightarrow> u8 \<Rightarrow> enc_state" where
  "enc_st b0 n out a f = (out @ drop (length out) b0,
     \<lparr>e_ptr = length out, e_end = Some n, e_added = a, e_flags = f\<rparr>)"

definition enc_full :: "enc_state \<Rightarrow> bool" where
  "enc_full s \<longleftrightarrow> e_end (snd s) = None \<and> 0 < e_ptr (snd s)"

lemma enc_st_init: "cbor_encoder_init 0 n = snd (enc_st b0 n [] 0 0)"
  by (simp add: cbor_encoder_init_def enc_st_def)

lemma count_added_enc_st [simp]: "count_added (enc_st b0 n out a f) = enc_st b0 n out (a + 1) f"
  by (simp add: count_added_def enc_st_def)

lemma count_added_full [simp]: "enc_full (count_added s) = enc_full s"
  by (simp add: count_added_def enc_full_def)

lemma append_fits:
  assumes "length out + length d \<le> n" "n \<le> length b0"
  shows "append_to_buffer d (enc_st b0 n out a f) = Ok (0, enc_st b0 n (out @ d) a f)"
  using assms
  by (auto simp: append_to_buffer_def enc_st_def would_overflow_def mem_write_def Let_def
      add.commute)

lemma append_overflows:
  assumes "length out \<le> n" "n < length out + length d"
  shows "\<exists>s. append_to_buffer d (enc_st b0 n out a f) = Ok (8000, s) \<and> enc_full s"
  using assms
  by (auto simp: append_to_buffer_def enc_st_def would_overflow_def advance_ptr_def enc_full_def
      Let_def)

lemma append_full:
  assumes "enc_full s"
  shows "\<exists>s'. append_to_buffer d s = Ok (8000, s') \<and> enc_full s'"
  using assms
  by (cases s)
     (auto simp: append_to_buffer_def would_overflow_def advance_ptr_def enc_full_def Let_def)

lemma encode_number_fits:
  assumes "length out + length (number_bytes v m) \<le> n" "n \<le> length b0"
  shows "encode_number v m (enc_st b0 n out a f) =
    Ok (0, enc_st b0 n (out @ number_bytes v m) (a + 1) f)"
  using assms by (simp add: encode_number_def encode_number_no_update_def append_fits)

lemma encode_number_overflows:
  assumes "length out \<le> n" "n < length out + length (number_bytes v m)"
  shows "\<exists>s. encode_number v m (enc_st b0 n out a f) = Ok (8000, s) \<and> enc_full s"
  using assms by (simp add: encode_number_def encode_number_no_update_def append_overflows
      del: split_paired_Ex)

lemma encode_number_full:
  "enc_full s \<Longrightarrow> \<exists>s'. encode_number v m s = Ok (8000, s') \<and> enc_full s'"
  by (simp add: encode_number_def encode_number_no_update_def append_full del: split_paired_Ex)

lemma encode_string_fits:
  assumes "block_read p len = Ok d"
    and "length out + length (number_bytes (word_of_nat len) m) + length d \<le> n" "n \<le> length b0"
  shows "encode_string len m p (enc_st b0 n out a f) =
    Ok (0, enc_st b0 n (out @ number_bytes (word_of_nat len) m @ d) (a + 1) f)"
  using assms by (simp add: encode_string_def encode_number_fits append_fits)

lemma encode_string_overflows:
  assumes "block_read p len = Ok d" "length out \<le> n" "n \<le> length b0"
    and "n < length out + length (number_bytes (word_of_nat len) m) + length d"
  shows "\<exists>s. encode_string len m p (enc_st b0 n out a f) = Ok (8000, s) \<and> enc_full s"
proof (cases "length out + length (number_bytes (word_of_nat len) m) \<le> n")
  case True
  then show ?thesis
    using assms append_overflows [of "out @ number_bytes (word_of_nat len) m" n d b0 "a + 1" f]
    by (simp add: encode_string_def encode_number_fits)
next
  case False
  then obtain s where s: "encode_number (word_of_nat len) m (enc_st b0 n out a f) = Ok (8000, s)"
      "enc_full s"
    using encode_number_overflows [of out n "word_of_nat len" m b0 a f] assms by auto
  then show ?thesis using append_full [of s d] assms by (simp add: encode_string_def)
qed

lemma number_bytes_length:
  "length (number_bytes v m) =
     (if v < 24 then 1 else if v \<le> 0xff then 2 else if v \<le> 0xffff then 3
      else if v \<le> 0xffffffff then 5 else 9)"
  by (auto simp: number_bytes_def Let_def word_less_nat_alt word_le_nat_alt)

lemma number_bytes_length_bounds: "1 \<le> length (number_bytes v m)" "length (number_bytes v m) \<le> 9"
  by (simp_all add: number_bytes_length)

end
