(* ===== verification/Cbor_Parser.thy ===== *)
theory Cbor_Parser
  imports Cbor_Encoder
begin

text \<open>
  The CBOR parser \<open>lock/external/cbor/cborparser.c\<close> (with \<open>extract_number_p.h\<close> and the inline
  accessors of \<open>cbor.h\<close>), as far as the message decoders use it.  The buffer is the byte list
  \<open>bs\<close>, \<open>parser->end\<close> is its length and \<open>CborValue.ptr\<close> an offset into it.  The asserts of the
  source are live (the project builds in Debug mode): a failing one is the outcome
  \<open>Fault AssertFailed\<close>; reading at or behind the end is \<open>Fault OutOfBounds\<close>.
  \<open>size_t\<close> has 64 bits.
\<close>

section \<open>Types and constants\<close>

abbreviation (input) CborIntegerType :: u8 where "CborIntegerType \<equiv> 0x00"
abbreviation (input) CborByteStringType :: u8 where "CborByteStringType \<equiv> 0x40"
abbreviation (input) CborTextStringType :: u8 where "CborTextStringType \<equiv> 0x60"
abbreviation (input) CborArrayType :: u8 where "CborArrayType \<equiv> 0x80"
abbreviation (input) CborMapType :: u8 where "CborMapType \<equiv> 0xa0"
abbreviation (input) CborTagType :: u8 where "CborTagType \<equiv> 0xc0"
abbreviation (input) CborSimpleType :: u8 where "CborSimpleType \<equiv> 0xe0"
abbreviation (input) CborBooleanType :: u8 where "CborBooleanType \<equiv> 0xf5"
abbreviation (input) CborFloatType :: u8 where "CborFloatType \<equiv> 0xfa"
abbreviation (input) CborDoubleType :: u8 where "CborDoubleType \<equiv> 0xfb"
abbreviation (input) CborInvalidType :: u8 where "CborInvalidType \<equiv> 0xff"
abbreviation (input) FlagTooLarge :: u8 where "FlagTooLarge \<equiv> 0x01"
abbreviation (input) FlagNegative :: u8 where "FlagNegative \<equiv> 0x02"
abbreviation (input) FlagUnknownLength :: u8 where "FlagUnknownLength \<equiv> 0x04"
abbreviation (input) UINT32_MAX :: u32 where "UINT32_MAX \<equiv> -1"
abbreviation (input) SIZE_MAX :: nat where "SIZE_MAX \<equiv> 18446744073709551615"
abbreviation (input) BreakByte :: u8 where "BreakByte \<equiv> 0xff"
abbreviation (input) CBOR_PARSER_MAX_RECURSIONS :: nat where "CBOR_PARSER_MAX_RECURSIONS \<equiv> 1024"

record cbor_value =
  v_ptr :: nat
  v_remaining :: u32
  v_extra :: u16
  v_type :: u8
  v_flags :: u8

section \<open>Reading numbers\<close>

definition get_be :: "bytes \<Rightarrow> nat \<Rightarrow> nat \<Rightarrow> nat res" where
  "get_be bs p n = bindR (mem_slice bs p n) (\<lambda>d. Ok (be_get d))"

definition extract_number :: "bytes \<Rightarrow> nat \<Rightarrow> (nat \<times> nat \<times> u64) res" where
  "extract_number bs ptr = bindR (mem_byte bs ptr) (\<lambda>b.
     let additional_information = b AND 0x1f; ptr = ptr + 1 in
     if additional_information < 24 then Ok (CborNoError, ptr, ucast additional_information)
     else if additional_information > 27 then Ok (CborErrorIllegalNumber, ptr, 0)
     else let bytesNeeded = 2 ^ unat (additional_information - 24) in
       if bytesNeeded > length bs - ptr then Ok (CborErrorUnexpectedEOF, ptr, 0)
       else bindR (get_be bs ptr bytesNeeded) (\<lambda>v.
         Ok (CborNoError, ptr + bytesNeeded, word_of_nat v)))"

text \<open>On a 64-bit \<open>size_t\<close> the check that the length fits cannot fail.\<close>
definition extract_length :: "bytes \<Rightarrow> nat \<Rightarrow> (nat \<times> nat \<times> nat) res" where
  "extract_length bs ptr = bindR (extract_number bs ptr) (\<lambda>(err, ptr, v).
     if err \<noteq> 0 then Ok (err, ptr, 0) else Ok (CborNoError, ptr, unat v))"

definition is_fixed_type :: "u8 \<Rightarrow> bool" where
  "is_fixed_type type \<longleftrightarrow> type \<noteq> CborTextStringType \<and> type \<noteq> CborByteStringType \<and>
     type \<noteq> CborArrayType \<and> type \<noteq> CborMapType"

section \<open>Looking at the next item\<close>

definition preparse_simple :: "bytes \<Rightarrow> u8 \<Rightarrow> cbor_value \<Rightarrow> (nat \<times> cbor_value) res" where
  "preparse_simple bs descriptor it =
     (if descriptor = 20 then Ok (CborNoError, it\<lparr>v_extra := 0, v_type := CborBooleanType\<rparr>)
      else if descriptor = 26 \<or> descriptor = 27 then
        bindR (mem_byte bs (v_ptr it)) (\<lambda>b.
          Ok (CborNoError, it\<lparr>v_flags := v_flags it OR FlagTooLarge, v_type := b\<rparr>))
      else if descriptor = 21 \<or> descriptor = 22 \<or> descriptor = 23 \<or> descriptor = 25 then
        bindR (mem_byte bs (v_ptr it)) (\<lambda>b. Ok (CborNoError, it\<lparr>v_type := b\<rparr>))
      else if descriptor = 24 then
        bindR (mem_byte bs (v_ptr it + 1)) (\<lambda>b.
          let it = it\<lparr>v_extra := ucast b\<rparr> in
          if v_extra it < 32 then Ok (CborErrorIllegalSimpleType, it\<lparr>v_type := CborInvalidType\<rparr>)
          else Ok (CborNoError, it))
      else assertR (descriptor \<notin> {28, 29, 30, 31}) (Ok (CborNoError, it)))"

definition preparse_value :: "bytes \<Rightarrow> cbor_value \<Rightarrow> (nat \<times> cbor_value) res" where
  "preparse_value bs it = (let it = it\<lparr>v_type := CborInvalidType\<rparr> in
     if v_ptr it = length bs then Ok (CborErrorUnexpectedEOF, it)
     else bindR (mem_byte bs (v_ptr it)) (\<lambda>b.
       let type = b AND 0xe0;
           descriptor = b AND 0x1f;
           it = it\<lparr>v_type := type, v_flags := 0, v_extra := ucast descriptor\<rparr> in
       if descriptor > 27 then
         (if descriptor \<noteq> 31 then
            Ok (if type = CborSimpleType then CborErrorUnknownType else CborErrorIllegalNumber, it)
          else if \<not> is_fixed_type type then
            Ok (CborNoError, it\<lparr>v_flags := v_flags it OR FlagUnknownLength, v_type := type\<rparr>)
          else
            Ok (if type = CborSimpleType then CborErrorUnexpectedBreak else CborErrorIllegalNumber,
                it))
       else
         let bytesNeeded = (if descriptor < 24 then 0 else 2 ^ unat (descriptor - 24)) in
         if bytesNeeded + 1 > length bs - v_ptr it then Ok (CborErrorUnexpectedEOF, it)
         else if type = MtSimple then preparse_simple bs descriptor it
         else
           let it = (if type = MtNegative
                     then it\<lparr>v_flags := v_flags it OR FlagNegative, v_type := CborIntegerType\<rparr>
                     else it) in
           if descriptor < 24 then Ok (CborNoError, it)
           else if descriptor = 24 then
             bindR (mem_byte bs (v_ptr it + 1)) (\<lambda>b. Ok (CborNoError, it\<lparr>v_extra := ucast b\<rparr>))
           else if descriptor = 25 then
             bindR (get_be bs (v_ptr it + 1) 2) (\<lambda>v.
               Ok (CborNoError, it\<lparr>v_extra := word_of_nat v\<rparr>))
           else Ok (CborNoError, it\<lparr>v_flags := v_flags it OR FlagTooLarge\<rparr>)))"

definition preparse_next_value :: "bytes \<Rightarrow> cbor_value \<Rightarrow> (nat \<times> cbor_value) res" where
  "preparse_next_value bs it =
     (if v_remaining it \<noteq> UINT32_MAX then
        (if v_type it \<noteq> CborTagType then
           let it = it\<lparr>v_remaining := v_remaining it - 1\<rparr> in
           if v_remaining it = 0 then Ok (CborNoError, it\<lparr>v_type := CborInvalidType\<rparr>)
           else preparse_value bs it
         else preparse_value bs it)
      else if v_ptr it \<noteq> length bs then
        bindR (mem_byte bs (v_ptr it)) (\<lambda>b.
          if b = BreakByte then
            Ok (CborNoError,
                it\<lparr>v_ptr := v_ptr it + 1, v_type := CborInvalidType, v_remaining := 0\<rparr>)
          else preparse_value bs it)
      else preparse_value bs it)"

definition advance_internal :: "bytes \<Rightarrow> cbor_value \<Rightarrow> (nat \<times> cbor_value) res" where
  "advance_internal bs it = bindR (extract_number bs (v_ptr it)) (\<lambda>(err, ptr, len).
     assertR (err = CborNoError)
     (let it = it\<lparr>v_ptr := ptr\<rparr> in
      if v_type it = CborByteStringType \<or> v_type it = CborTextStringType then
        assertR (v_flags it AND FlagUnknownLength = 0)
        (preparse_next_value bs (it\<lparr>v_ptr := v_ptr it + unat len\<rparr>))
      else preparse_next_value bs it))"

definition cbor_value_decode_int64_internal :: "bytes \<Rightarrow> cbor_value \<Rightarrow> u64 res" where
  "cbor_value_decode_int64_internal bs it =
     assertR (v_flags it AND FlagTooLarge \<noteq> 0 \<or> v_type it = CborFloatType \<or>
              v_type it = CborDoubleType)
     (bindR (mem_byte bs (v_ptr it)) (\<lambda>b.
      assertR (b AND 0x1f = 26 \<or> b AND 0x1f = 27)
      (if b AND 1 = 0 then bindR (get_be bs (v_ptr it + 1) 4) (\<lambda>v. Ok (word_of_nat v))
       else assertR (b AND 0x1f = 27)
         (bindR (get_be bs (v_ptr it + 1) 8) (\<lambda>v. Ok (word_of_nat v))))))"

text \<open>The iterator starts with its unset fields at 0: \<open>preparse_value\<close> sets every one the callers
  read.\<close>
definition cbor_parser_init :: "bytes \<Rightarrow> (nat \<times> cbor_value) res" where
  "cbor_parser_init bs = preparse_value bs
     \<lparr>v_ptr = 0, v_remaining = 1, v_extra = 0, v_type = 0, v_flags = 0\<rparr>"

section \<open>Accessors\<close>

definition cbor_value_at_end :: "cbor_value \<Rightarrow> bool" where
  "cbor_value_at_end it \<longleftrightarrow> v_remaining it = 0"

definition cbor_value_is_container :: "cbor_value \<Rightarrow> bool" where
  "cbor_value_is_container it \<longleftrightarrow> v_type it = CborArrayType \<or> v_type it = CborMapType"

definition cbor_value_is_unsigned_integer :: "cbor_value \<Rightarrow> bool" where
  "cbor_value_is_unsigned_integer it \<longleftrightarrow>
     v_type it = CborIntegerType \<and> v_flags it AND FlagNegative = 0"

definition cbor_value_is_string :: "cbor_value \<Rightarrow> bool" where
  "cbor_value_is_string it \<longleftrightarrow> v_type it = CborByteStringType \<or> v_type it = CborTextStringType"

definition cbor_value_is_length_known :: "cbor_value \<Rightarrow> bool" where
  "cbor_value_is_length_known it \<longleftrightarrow> v_flags it AND FlagUnknownLength = 0"

definition cbor_value_extract_int64_helper :: "bytes \<Rightarrow> cbor_value \<Rightarrow> u64 res" where
  "cbor_value_extract_int64_helper bs it =
     (if v_flags it AND FlagTooLarge \<noteq> 0 then cbor_value_decode_int64_internal bs it
      else Ok (ucast (v_extra it)))"

definition cbor_value_get_uint64 :: "bytes \<Rightarrow> cbor_value \<Rightarrow> u64 res" where
  "cbor_value_get_uint64 bs it =
     assertR (cbor_value_is_unsigned_integer it) (cbor_value_extract_int64_helper bs it)"

definition cbor_value_get_int64 :: "bytes \<Rightarrow> cbor_value \<Rightarrow> i64 res" where
  "cbor_value_get_int64 bs it =
     assertR (v_type it = CborIntegerType)
     (bindR (cbor_value_extract_int64_helper bs it) (\<lambda>v.
       Ok (if v_flags it AND FlagNegative \<noteq> 0 then - v - 1 else v)))"

definition cbor_value_get_boolean :: "cbor_value \<Rightarrow> bool res" where
  "cbor_value_get_boolean it = assertR (v_type it = CborBooleanType) (Ok (v_extra it \<noteq> 0))"

definition cbor_value_get_string_length :: "bytes \<Rightarrow> cbor_value \<Rightarrow> (nat \<times> nat) res" where
  "cbor_value_get_string_length bs it =
     assertR (cbor_value_is_string it)
     (if \<not> cbor_value_is_length_known it then Ok (CborErrorUnknownLength, 0)
      else bindR (cbor_value_extract_int64_helper bs it) (\<lambda>v. Ok (CborNoError, unat v)))"

section \<open>Every number read consumes input\<close>

lemma extract_number_consumes:
  assumes "extract_number bs p = Ok (e, q, v)"
  shows "p < q" "q \<le> length bs"
  using assms
  by (auto simp: extract_number_def mem_byte_def get_be_def mem_slice_def Let_def
      split: if_splits)

lemma extract_length_consumes:
  assumes "extract_length bs p = Ok (e, q, n)"
  shows "p < q" "q \<le> length bs"
  using assms extract_number_consumes
  by (auto simp: extract_length_def bindR_eq_Ok split: if_splits)

section \<open>Strings\<close>

text \<open>The chunk loop of \<open>iterate_string_chunks\<close>: the bytes copied so far, whether all of them
  fitted into the \<open>cap\<close> bytes of the destination, and their total.\<close>
function string_chunks ::
  "bytes \<Rightarrow> u8 \<Rightarrow> nat \<Rightarrow> nat \<Rightarrow> nat \<Rightarrow> bool \<Rightarrow> bytes \<Rightarrow> (nat \<times> nat \<times> nat \<times> bool \<times> bytes) res"
where
  "string_chunks bs type cap ptr tot result copied =
     (if ptr = length bs then Ok (CborErrorUnexpectedEOF, ptr, tot, result, copied)
      else bindR (mem_byte bs ptr) (\<lambda>b.
        if b = BreakByte then Ok (CborNoError, ptr + 1, tot, result, copied)
        else if b AND 0xe0 \<noteq> type then Ok (CborErrorIllegalType, ptr, tot, result, copied)
        else bindR (extract_length bs ptr) (\<lambda>(err, ptr', chunkLen).
          if err \<noteq> 0 then Ok (err, ptr', tot, result, copied)
          else let newTotal = tot + chunkLen in
          if newTotal > SIZE_MAX then Ok (CborErrorDataTooLarge, ptr', tot, result, copied)
          else if chunkLen > length bs - ptr' then
            Ok (CborErrorUnexpectedEOF, ptr', tot, result, copied)
          else bindR (mem_slice bs ptr' chunkLen) (\<lambda>d.
            let fits = (result \<and> newTotal \<le> cap) in
            string_chunks bs type cap (ptr' + chunkLen) newTotal fits
              (if fits then copied @ d else copied)))))"
  by pat_completeness auto

lemma extract_length_progress:
  "extract_length bs p = Ok (e, q, n) \<Longrightarrow> p < length bs \<and> p < q"
  using extract_length_consumes [of bs p e q n] by linarith

termination string_chunks
proof (relation "measure (\<lambda>(bs, type, cap, ptr, tot, result, copied). length bs - ptr)",
    goal_cases)
  case 1
  show ?case by simp
next
  case (2 bs type cap ptr tot result copied b x err y ptr' chunkLen)
  then show ?case
    using extract_length_progress [of bs ptr err ptr' chunkLen] by auto
qed

declare string_chunks.simps [simp del]

text \<open>\<open>next\<close> is whether the caller passed a place for the iterator behind the string.\<close>
definition iterate_string_chunks ::
  "bytes \<Rightarrow> cbor_value \<Rightarrow> nat \<Rightarrow> bool \<Rightarrow> (nat \<times> cbor_value \<times> nat \<times> bool \<times> bytes) res" where
  "iterate_string_chunks bs it cap next =
     assertR (cbor_value_is_string it)
     (bindR
       (if cbor_value_is_length_known it then
          bindR (extract_length bs (v_ptr it)) (\<lambda>(err, ptr, total).
            if err \<noteq> 0 then Ok (err, ptr, 0, False, [])
            else if total > length bs - ptr then Ok (CborErrorUnexpectedEOF, ptr, 0, False, [])
            else bindR (mem_slice bs ptr total) (\<lambda>d.
              Ok (CborNoError, ptr + total, total, total \<le> cap,
                  if total \<le> cap then d else [])))
        else string_chunks bs (v_type it) cap (v_ptr it + 1) 0 True [])
       (\<lambda>(err, ptr, total, result, copied).
         if err \<noteq> 0 then Ok (err, it, total, result, copied)
         else
           let copied = (if result \<and> total < cap then copied @ [0] else copied) in
           if next then
             bindR (preparse_next_value bs (it\<lparr>v_ptr := ptr\<rparr>)) (\<lambda>(err, nxt).
               Ok (err, nxt, total, result, copied))
           else Ok (CborNoError, it, total, result, copied)))"

definition cbor_value_copy_string ::
  "bytes \<Rightarrow> cbor_value \<Rightarrow> nat \<Rightarrow> bool \<Rightarrow> (nat \<times> cbor_value \<times> nat \<times> bytes) res" where
  "cbor_value_copy_string bs it cap next =
     bindR (iterate_string_chunks bs it cap next) (\<lambda>(err, nxt, total, copied_all, copied).
       Ok (if err \<noteq> 0 then err else if copied_all then CborNoError else CborErrorOutOfMemory,
           nxt, total, copied))"

definition cbor_value_calculate_string_length :: "bytes \<Rightarrow> cbor_value \<Rightarrow> (nat \<times> nat) res" where
  "cbor_value_calculate_string_length bs it =
     bindR (cbor_value_copy_string bs it SIZE_MAX False) (\<lambda>(err, _, total, _). Ok (err, total))"

definition cbor_value_copy_byte_string ::
  "bytes \<Rightarrow> cbor_value \<Rightarrow> nat \<Rightarrow> (nat \<times> cbor_value \<times> nat \<times> bytes) res" where
  "cbor_value_copy_byte_string bs it cap =
     assertR (v_type it = CborByteStringType) (cbor_value_copy_string bs it cap True)"

definition cbor_value_copy_text_string ::
  "bytes \<Rightarrow> cbor_value \<Rightarrow> nat \<Rightarrow> (nat \<times> cbor_value \<times> nat \<times> bytes) res" where
  "cbor_value_copy_text_string bs it cap =
     assertR (v_type it = CborTextStringType) (cbor_value_copy_string bs it cap True)"

section \<open>Advancing and containers\<close>

definition cbor_value_advance_fixed :: "bytes \<Rightarrow> cbor_value \<Rightarrow> (nat \<times> cbor_value) res" where
  "cbor_value_advance_fixed bs it =
     assertR (v_type it \<noteq> CborInvalidType)
     (assertR (is_fixed_type (v_type it))
      (if v_remaining it = 0 then Ok (CborErrorAdvancePastEOF, it) else advance_internal bs it))"

definition cbor_value_enter_container :: "bytes \<Rightarrow> cbor_value \<Rightarrow> (nat \<times> cbor_value) res" where
  "cbor_value_enter_container bs it =
     assertR (cbor_value_is_container it)
     (let empty = (\<lambda>r. Ok (CborNoError, r\<lparr>v_type := CborInvalidType, v_remaining := 0\<rparr>)) in
      if v_flags it AND FlagUnknownLength \<noteq> 0 then
        bindR (preparse_value bs (it\<lparr>v_remaining := UINT32_MAX, v_ptr := v_ptr it + 1\<rparr>))
          (\<lambda>(err, r). if err \<noteq> CborErrorUnexpectedBreak then Ok (err, r)
                      else empty (r\<lparr>v_ptr := v_ptr r + 1\<rparr>))
      else
        bindR (extract_number bs (v_ptr it)) (\<lambda>(err, ptr, len).
          assertR (err = CborNoError)
          (let r = it\<lparr>v_ptr := ptr, v_remaining := ucast len\<rparr> in
           if ucast (v_remaining r) \<noteq> len \<or> len = 0xffffffff then
             Ok (CborErrorDataTooLarge, r\<lparr>v_ptr := v_ptr it\<rparr>)
           else if v_type r = CborMapType \<and> v_remaining r > 0x7fffffff then
             Ok (CborErrorDataTooLarge, r\<lparr>v_ptr := v_ptr it\<rparr>)
           else
             let r = (if v_type r = CborMapType then r\<lparr>v_remaining := v_remaining r * 2\<rparr> else r) in
             if len \<noteq> 0 then preparse_value bs r else empty r)))"

definition cbor_value_leave_container ::
  "bytes \<Rightarrow> cbor_value \<Rightarrow> cbor_value \<Rightarrow> (nat \<times> cbor_value) res" where
  "cbor_value_leave_container bs it recursed =
     assertR (cbor_value_is_container it)
     (assertR (v_type recursed = CborInvalidType)
      (preparse_next_value bs (it\<lparr>v_ptr := v_ptr recursed\<rparr>)))"

text \<open>\<open>advance_recursive\<close> and, as a function of its own, the \<open>while\<close> loop inside it.  The first
  argument bounds the number of nested calls; \<open>advance_fuel\<close> is enough for every buffer.\<close>
fun advance_recursive :: "nat \<Rightarrow> bytes \<Rightarrow> nat \<Rightarrow> cbor_value \<Rightarrow> (nat \<times> cbor_value) res"
and advance_elements :: "nat \<Rightarrow> bytes \<Rightarrow> nat \<Rightarrow> cbor_value \<Rightarrow> (nat \<times> cbor_value) res"
where
  "advance_recursive 0 bs nestingLevel it = Fault OutOfFuel"
| "advance_recursive (Suc n) bs nestingLevel it =
     (if is_fixed_type (v_type it) then advance_internal bs it
      else if \<not> cbor_value_is_container it then
        bindR (cbor_value_copy_string bs it SIZE_MAX True) (\<lambda>(err, nxt, _, _). Ok (err, nxt))
      else if nestingLevel = CBOR_PARSER_MAX_RECURSIONS then Ok (CborErrorNestingTooDeep, it)
      else bindR (cbor_value_enter_container bs it) (\<lambda>(err, recursed).
        if err \<noteq> 0 then Ok (err, it)
        else bindR (advance_elements n bs nestingLevel recursed) (\<lambda>(err, recursed).
          if err \<noteq> 0 then Ok (err, it) else cbor_value_leave_container bs it recursed)))"
| "advance_elements 0 bs nestingLevel recursed = Fault OutOfFuel"
| "advance_elements (Suc n) bs nestingLevel recursed =
     (if cbor_value_at_end recursed then Ok (CborNoError, recursed)
      else bindR (advance_recursive n bs (nestingLevel + 1) recursed) (\<lambda>(err, recursed).
        if err \<noteq> 0 then Ok (err, recursed)
        else advance_elements n bs nestingLevel recursed))"

definition advance_fuel :: "bytes \<Rightarrow> nat" where
  "advance_fuel bs = 2 * length bs + 2"

definition cbor_value_advance :: "bytes \<Rightarrow> cbor_value \<Rightarrow> (nat \<times> cbor_value) res" where
  "cbor_value_advance bs it =
     assertR (v_type it \<noteq> CborInvalidType)
     (if v_remaining it = 0 then Ok (CborErrorAdvancePastEOF, it)
      else advance_recursive (advance_fuel bs) bs 0 it)"

end
