(* ===== verification/Cbor_Items.thy ===== *)
theory Cbor_Items
  imports Cbor_Parser
begin

text \<open>
  The meeting point of encoder and parser: the data items of the lock protocol as values of
  \<open>wire_item\<close>, the bytes the encoder writes for one (\<open>item_bytes\<close>) and the iterator
  state the parser is in when it stands on one (\<open>item_at\<close>).  The lemmas say that the encoder
  functions append exactly \<open>item_bytes\<close>, that \<open>preparse_value\<close> in front of an item gives
  \<open>item_at\<close>, that the accessors read the item back and that advancing moves to what follows.
\<close>

section \<open>Items and their bytes\<close>

datatype wire_item = WUint u64 | WInt i64 | WBytes bytes | WText bytes | WBool bool

fun item_major :: "wire_item \<Rightarrow> u8" where
  "item_major (WUint v) = MtUnsigned"
| "item_major (WInt v) = (if v <s 0 then MtNegative else MtUnsigned)"
| "item_major (WBytes d) = MtBytes"
| "item_major (WText d) = MtText"
| "item_major (WBool b) = MtSimple"

fun item_number :: "wire_item \<Rightarrow> u64" where
  "item_number (WUint v) = v"
| "item_number (WInt v) = (if v <s 0 then NOT v else v)"
| "item_number (WBytes d) = word_of_nat (length d)"
| "item_number (WText d) = word_of_nat (length d)"
| "item_number (WBool b) = (if b then 21 else 20)"

fun item_payload :: "wire_item \<Rightarrow> bytes" where
  "item_payload (WBytes d) = d"
| "item_payload (WText d) = d"
| "item_payload _ = []"

definition item_bytes :: "wire_item \<Rightarrow> bytes" where
  "item_bytes i = number_bytes (item_number i) (item_major i) @ item_payload i"

text \<open>The length of a string has to fit the length field.\<close>
definition item_ok :: "wire_item \<Rightarrow> bool" where
  "item_ok i \<longleftrightarrow> length (item_payload i) < 2 ^ 64"

definition item_head :: "wire_item \<Rightarrow> u64 \<times> u8" where
  "item_head i = (item_number i, item_major i)"

text \<open>The additional information of the head byte.\<close>
definition head_info :: "u64 \<Rightarrow> u8" where
  "head_info v = (if v < 24 then ucast v else if v \<le> 0xff then 24 else if v \<le> 0xffff then 25
     else if v \<le> 0xffffffff then 26 else 27)"

definition number_extra :: "u64 \<Rightarrow> u16" where
  "number_extra v = (if v \<le> 0xffff then ucast v else ucast (head_info v))"

definition item_type :: "wire_item \<Rightarrow> u8" where
  "item_type i = (case i of WUint _ \<Rightarrow> CborIntegerType | WInt _ \<Rightarrow> CborIntegerType
     | WBytes _ \<Rightarrow> CborByteStringType | WText _ \<Rightarrow> CborTextStringType | WBool _ \<Rightarrow> CborBooleanType)"

definition item_extra :: "wire_item \<Rightarrow> u16" where
  "item_extra i = (case i of WBool b \<Rightarrow> (if b then 21 else 0)
     | _ \<Rightarrow> number_extra (item_number i))"

definition item_flags :: "wire_item \<Rightarrow> u8" where
  "item_flags i = (if item_major i = MtNegative then FlagNegative else 0) OR
     (if item_number i > 0xffff then FlagTooLarge else 0)"

definition item_at :: "wire_item \<Rightarrow> nat \<Rightarrow> u32 \<Rightarrow> cbor_value" where
  "item_at i p r = \<lparr>v_ptr = p, v_remaining = r, v_extra = item_extra i, v_type = item_type i,
     v_flags = item_flags i\<rparr>"

section \<open>The head byte\<close>

text \<open>The five ranges a number is encoded in, with every comparison of the code decided.\<close>
lemma number_ranges [case_names tiny one two four eight]:
  fixes v :: u64
  assumes "\<lbrakk>v < 24; v \<le> 0xff; v \<le> 0xffff; v \<le> 0xffffffff; \<not> 0xff < v; \<not> 0xffff < v; \<not> 0xffffffff < v\<rbrakk> \<Longrightarrow> P"
    and "\<lbrakk>\<not> v < 24; v \<le> 0xff; v \<le> 0xffff; v \<le> 0xffffffff; \<not> 0xff < v; \<not> 0xffff < v; \<not> 0xffffffff < v\<rbrakk> \<Longrightarrow> P"
    and "\<lbrakk>\<not> v < 24; \<not> v \<le> 0xff; v \<le> 0xffff; v \<le> 0xffffffff; 0xff < v; \<not> 0xffff < v; \<not> 0xffffffff < v\<rbrakk> \<Longrightarrow> P"
    and "\<lbrakk>\<not> v < 24; \<not> v \<le> 0xff; \<not> v \<le> 0xffff; v \<le> 0xffffffff; 0xff < v; 0xffff < v; \<not> 0xffffffff < v\<rbrakk> \<Longrightarrow> P"
    and "\<lbrakk>\<not> v < 24; \<not> v \<le> 0xff; \<not> v \<le> 0xffff; \<not> v \<le> 0xffffffff; 0xff < v; 0xffff < v; 0xffffffff < v\<rbrakk> \<Longrightarrow> P"
  shows P
  using assms unfolding word_less_nat_alt word_le_nat_alt by simp linarith

lemma number_bytes_head:
  "number_bytes v m = (m + head_info v) #
     (if v < 24 then [] else be_put (2 ^ unat (head_info v - 24)) (unat v))"
proof (cases v rule: number_ranges)
  case tiny
  then show ?thesis by (simp add: number_bytes_def head_info_def add.commute)
qed (simp_all add: number_bytes_def head_info_def)

lemma head_info_le: "head_info v \<le> 27"
proof (cases v rule: number_ranges)
  case tiny
  then have "unat (ucast v :: u8) < 24"
    by (simp add: unat_ucast_take_bit word_less_nat_alt take_bit_nat_eq_self)
  then show ?thesis using tiny by (simp add: head_info_def word_le_nat_alt)
qed (simp_all add: head_info_def)

lemma head_info_tiny: "v < 24 \<Longrightarrow> head_info v < 24 \<and> ucast (head_info v) = v"
  by (auto simp: head_info_def word_less_nat_alt unat_ucast_take_bit take_bit_nat_eq_self word_unat_eq_iff)

lemma head_byte:
  fixes m i :: u8
  assumes m: "m AND 0x1f = 0" and i: "i \<le> 0x1f"
  shows "(m + i) AND 0x1f = i" "(m + i) AND 0xe0 = m"
proof -
  have i5: "i AND 0x1f = i"
  proof -
    have "take_bit 5 i = i"
      using i by (simp add: word_unat_eq_iff unsigned_take_bit_eq word_le_nat_alt take_bit_nat_eq_self)
    then show ?thesis by (simp add: take_bit_eq_mask mask_numeral)
  qed
  have d: "m AND i = 0" using m i5 by (metis and.left_commute and_zero_eq)
  then have or: "m + i = m OR i" by (simp add: disjunctive_add_eq_or)
  show "(m + i) AND 0x1f = i" using m i5 by (simp add: or bit.conj_disj_distrib2)
  have "m AND 0xe0 = m"
  proof -
    have "(0xe0 OR 0x1f :: u8) = - 1" by simp
    then have "m = m AND (0xe0 OR 0x1f)" by (simp only: and.right_neutral)
    also have "\<dots> = m AND 0xe0" using m by (simp only: bit.conj_disj_distrib) simp
    finally show ?thesis by simp
  qed
  moreover have "i AND 0xe0 = 0"
  proof -
    have "i AND 0xe0 = i AND (0x1f AND 0xe0)" using i5 by (metis and.assoc)
    then show ?thesis by simp
  qed
  ultimately show "(m + i) AND 0xe0 = m" by (simp add: or bit.conj_disj_distrib2)
qed

section \<open>Reading a head back\<close>

lemma mem_byte_mid [simp]:
  "mem_byte (pre @ b # rest) (length pre) = Ok b"
  "mem_byte (pre @ b # c # rest) (Suc (length pre)) = Ok c"
  using mem_byte_append_mid [of "pre @ [b]" c rest] by simp_all

lemma get_be_mid [simp]:
  assumes "x < 256 ^ n"
  shows "get_be (pre @ h # be_put n x @ rest) (Suc (length pre)) n = Ok x"
  using mem_slice_append_mid [of n "be_put n x" "pre @ [h]" rest] assms by (simp add: get_be_def)

lemma unat_64_bound: "unat (v :: u64) < 256 ^ 8"
  using unsigned_less [of v] by simp

lemma head_info_bits:
  assumes "m AND 0x1f = 0"
  shows "(m + head_info v) AND 0x1f = head_info v" "(m + head_info v) AND 0xe0 = m"
  using assms head_info_le [of v] head_byte [of m "head_info v"]
  by (auto simp: word_le_nat_alt)

text \<open>Per range: the additional information and the number of bytes behind the head.\<close>
lemma head_info_ranges:
  "\<not> v < 24 \<Longrightarrow> v \<le> 0xff \<Longrightarrow> head_info v = 24"
  "\<not> v < 24 \<Longrightarrow> \<not> v \<le> 0xff \<Longrightarrow> v \<le> 0xffff \<Longrightarrow> head_info v = 25"
  "\<not> v < 24 \<Longrightarrow> \<not> v \<le> 0xff \<Longrightarrow> \<not> v \<le> 0xffff \<Longrightarrow> v \<le> 0xffffffff \<Longrightarrow> head_info v = 26"
  "\<not> v < 24 \<Longrightarrow> \<not> v \<le> 0xff \<Longrightarrow> \<not> v \<le> 0xffff \<Longrightarrow> \<not> v \<le> 0xffffffff \<Longrightarrow> head_info v = 27"
  by (simp_all add: head_info_def)

lemma unat_ranges:
  fixes v :: u64
  shows "v \<le> 0xff \<Longrightarrow> unat v < 256" "v \<le> 0xffff \<Longrightarrow> unat v < 65536"
    "v \<le> 0xffffffff \<Longrightarrow> unat v < 4294967296" "unat v < 18446744073709551616"
  using unsigned_less [of v] by (simp_all add: word_le_nat_alt)

lemma extract_number_head:
  assumes m: "m AND 0x1f = 0"
  shows "extract_number (pre @ number_bytes v m @ rest) (length pre) =
    Ok (0, length pre + length (number_bytes v m), v)"
proof -
  note bits = head_info_bits [OF m, of v]
  show ?thesis
  proof (cases v rule: number_ranges)
    case tiny
    then show ?thesis using bits head_info_tiny [of v]
      by (simp add: extract_number_def number_bytes_head)
  qed (use bits unat_ranges [of v] in
      \<open>simp_all add: extract_number_def number_bytes_head head_info_ranges\<close>)
qed

lemma one_byte_back:
  assumes "v \<le> (0xff :: u64)"
  shows "ucast (ucast v :: u8) = (ucast v :: u16)" "ucast (ucast v :: u8) = v"
  using unat_ranges(1) [OF assms]
  by (simp_all add: word_unat_eq_iff unat_ucast_take_bit take_bit_nat_eq_self)

lemma preparse_number:
  assumes m: "m \<in> {MtUnsigned, MtNegative, MtBytes, MtText, MtArray, MtMap, MtTag}"
    and it: "v_ptr it = length pre"
  shows "preparse_value (pre @ number_bytes v m @ rest) it = Ok (0, it\<lparr>v_extra := number_extra v,
    v_type := (if m = MtNegative then CborIntegerType else m),
    v_flags := (if m = MtNegative then FlagNegative else 0) OR
               (if v > 0xffff then FlagTooLarge else 0)\<rparr>)"
proof -
  have m5: "m AND 0x1f = 0" using m by auto
  have ms: "m \<noteq> MtSimple" using m by auto
  note bits = head_info_bits [OF m5, of v]
  show ?thesis
  proof (cases v rule: number_ranges)
    case tiny
    then have "(ucast (head_info v) :: u16) = ucast v"
      using one_byte_back(1) [of v] by (simp add: head_info_def)
    then show ?thesis using bits ms tiny head_info_tiny [of v] head_info_le [of v]
      by (cases "m = MtNegative")
         (auto simp add: preparse_value_def number_bytes_head number_extra_def it Let_def
           linorder_not_less [symmetric])
  next
    case one
    then show ?thesis using bits ms unat_ranges [of v] one_byte_back(1) [of v]
      by (simp add: preparse_value_def number_bytes_head number_extra_def head_info_ranges it
          be_put.simps Let_def)
  qed (use bits ms unat_ranges [of v] in
      \<open>simp_all add: preparse_value_def number_bytes_head number_extra_def head_info_ranges it
        Let_def\<close>)
qed

section \<open>Standing on an item\<close>

lemma item_at_sel [simp]:
  "v_ptr (item_at i p r) = p" "v_remaining (item_at i p r) = r"
  "v_extra (item_at i p r) = item_extra i" "v_type (item_at i p r) = item_type i"
  "v_flags (item_at i p r) = item_flags i"
  "item_at i p r\<lparr>v_ptr := q\<rparr> = item_at i q r"
  by (simp_all add: item_at_def)

lemma item_type_simps [simp]:
  "item_type (WUint v) = CborIntegerType" "item_type (WInt v) = CborIntegerType"
  "item_type (WBytes d) = CborByteStringType" "item_type (WText d) = CborTextStringType"
  "item_type (WBool b) = CborBooleanType"
  by (simp_all add: item_type_def)

lemma item_type_not_tag [simp]: "item_type i \<noteq> CborTagType"
  by (cases i) simp_all

lemma item_major_cases: "item_major i \<in> {MtUnsigned, MtNegative, MtBytes, MtText, MtSimple}"
  by (cases i) auto

lemma item_major_low [simp]: "item_major i AND 0x1f = 0"
  by (cases i) simp_all

lemma item_bytes_bool: "item_bytes (WBool b) = [if b then 0xf5 else 0xf4]"
  by (simp add: item_bytes_def number_bytes_def)

lemma item_bytes_nonempty: "0 < length (item_bytes i)"
  using number_bytes_length_bounds(1) [of "item_number i" "item_major i"]
  by (auto simp: item_bytes_def)

lemma preparse_item:
  assumes it: "v_ptr it = length pre"
  shows "preparse_value (pre @ item_bytes i @ rest) it =
    Ok (0, item_at i (length pre) (v_remaining it))"
proof (cases "\<exists>b. i = WBool b")
  case True
  then obtain b where "i = WBool b" by blast
  then show ?thesis
    by (cases b) (simp_all add: item_bytes_bool preparse_value_def preparse_simple_def it
        item_at_def item_extra_def item_flags_def Let_def)
next
  case False
  then have "item_major i \<in> {MtUnsigned, MtNegative, MtBytes, MtText, MtArray, MtMap, MtTag}"
    and "item_type i = (if item_major i = MtNegative then CborIntegerType else item_major i)"
    and "item_extra i = number_extra (item_number i)"
    by (cases i; simp add: item_extra_def)+
  then show ?thesis
    using preparse_number [of "item_major i" it pre "item_number i" "item_payload i @ rest"]
    by (simp add: item_bytes_def it item_at_def item_flags_def)
qed

lemma preparse_next_item:
  assumes "v_ptr it = length pre" "v_type it \<noteq> CborTagType"
    and "v_remaining it \<noteq> UINT32_MAX" "v_remaining it \<noteq> 1"
  shows "preparse_next_value (pre @ item_bytes i @ rest) it =
    Ok (0, item_at i (length pre) (v_remaining it - 1))"
  using assms preparse_item [of "it\<lparr>v_remaining := v_remaining it - 1\<rparr>" pre i rest]
  by (simp add: preparse_next_value_def)

lemma preparse_next_end:
  assumes "v_type it \<noteq> CborTagType" "v_remaining it = 1"
  shows "preparse_next_value bs it = Ok (0, it\<lparr>v_remaining := 0, v_type := CborInvalidType\<rparr>)"
  using assms by (simp add: preparse_next_value_def)

lemma advance_fixed_item:
  assumes "is_fixed_type (item_type i)" "r \<noteq> 0"
  shows "cbor_value_advance_fixed (pre @ item_bytes i @ rest) (item_at i (length pre) r) =
    preparse_next_value (pre @ item_bytes i @ rest)
      (item_at i (length pre + length (item_bytes i)) r)"
proof -
  have "item_payload i = []" "item_type i \<noteq> CborInvalidType"
    "\<not> (item_type i = CborByteStringType \<or> item_type i = CborTextStringType)"
    using assms(1) by (cases i; simp add: is_fixed_type_def)+
  then show ?thesis
    using assms extract_number_head [of "item_major i" pre "item_number i" rest]
    by (simp add: cbor_value_advance_fixed_def advance_internal_def item_bytes_def)
qed

section \<open>Reading the item back\<close>

lemma number_value_back:
  assumes m: "m AND 0x1f = 0"
  assumes "v_ptr it = length pre" "v_extra it = number_extra v"
    and "v_flags it AND FlagTooLarge = (if v > 0xffff then FlagTooLarge else 0)"
  shows "cbor_value_extract_int64_helper (pre @ number_bytes v m @ rest) it = Ok v"
proof -
  note bits = head_info_bits [OF m, of v]
  have low: "b AND 1 = (b AND 0x1f) AND 1" for b :: u8
    by (simp add: and.assoc)
  have small: "v \<le> 0xffff \<Longrightarrow> (ucast (ucast v :: u16) :: u64) = v"
    using unat_ranges(2) [of v]
    by (simp add: word_unat_eq_iff unat_ucast_take_bit take_bit_nat_eq_self)
  show ?thesis
  proof (cases v rule: number_ranges)
    case four
    then show ?thesis using bits unat_ranges [of v] low [of "m + 26"] assms
      by (simp add: cbor_value_extract_int64_helper_def cbor_value_decode_int64_internal_def
          number_bytes_head head_info_ranges)
  next
    case eight
    then show ?thesis using bits unat_ranges [of v] low [of "m + 27"] assms
      by (simp add: cbor_value_extract_int64_helper_def cbor_value_decode_int64_internal_def
          number_bytes_head head_info_ranges)
  qed (use assms small in
      \<open>simp_all add: cbor_value_extract_int64_helper_def number_extra_def\<close>)
qed

lemma item_flags_large:
  "item_flags i AND FlagTooLarge = (if item_number i > 0xffff then FlagTooLarge else 0)"
  "item_flags i AND FlagNegative = (if item_major i = MtNegative then FlagNegative else 0)"
  "item_flags i AND FlagUnknownLength = 0"
  by (simp_all add: item_flags_def)

lemma extract_int64_item:
  assumes "\<nexists>b. i = WBool b"
  shows "cbor_value_extract_int64_helper (pre @ item_bytes i @ rest) (item_at i (length pre) r) =
    Ok (item_number i)"
proof -
  have "item_extra i = number_extra (item_number i)"
    using assms by (cases i) (auto simp: item_extra_def)
  then show ?thesis
    using number_value_back [of "item_major i" "item_at i (length pre) r" pre "item_number i"
        "item_payload i @ rest"]
    by (simp add: item_bytes_def item_flags_large)
qed

lemma get_uint64_item:
  "cbor_value_get_uint64 (pre @ item_bytes (WUint v) @ rest) (item_at (WUint v) (length pre) r) =
    Ok v"
  by (simp add: cbor_value_get_uint64_def cbor_value_is_unsigned_integer_def extract_int64_item
      item_flags_large)

lemma get_int64_uint_item:
  "cbor_value_get_int64 (pre @ item_bytes (WUint v) @ rest) (item_at (WUint v) (length pre) r) =
    Ok v"
  by (simp add: cbor_value_get_int64_def extract_int64_item item_flags_large)

lemma get_int64_item:
  "cbor_value_get_int64 (pre @ item_bytes (WInt v) @ rest) (item_at (WInt v) (length pre) r) =
    Ok v"
proof -
  have "- (NOT v) - 1 = v" by (simp only: not_eq_complement) simp
  then show ?thesis by (simp add: cbor_value_get_int64_def extract_int64_item item_flags_large)
qed

lemma get_boolean_item: "cbor_value_get_boolean (item_at (WBool b) p r) = Ok b"
  by (simp add: cbor_value_get_boolean_def item_extra_def)

lemma get_string_length_item:
  assumes "i = WBytes d \<or> i = WText d" "length d < 2 ^ 64"
  shows "cbor_value_get_string_length (pre @ item_bytes i @ rest) (item_at i (length pre) r) =
    Ok (0, length d)"
proof -
  have "item_number i = word_of_nat (length d)" "cbor_value_is_string (item_at i (length pre) r)"
    "\<nexists>b. i = WBool b"
    using assms(1) by (auto simp: cbor_value_is_string_def)
  then show ?thesis using assms(2)
    by (simp add: cbor_value_get_string_length_def cbor_value_is_length_known_def item_flags_large
        extract_int64_item unat_of_nat)
qed

lemma copy_string_item:
  assumes i: "i = WBytes d \<or> i = WText d" and len: "length d < 2 ^ 64" and cap: "length d \<le> cap"
  shows "cbor_value_copy_string (pre @ item_bytes i @ rest) (item_at i (length pre) r) cap next =
    (if next then
       bindR (preparse_next_value (pre @ item_bytes i @ rest)
               (item_at i (length pre + length (item_bytes i)) r))
         (\<lambda>(err, nxt). Ok (err, nxt, length d, if length d < cap then d @ [0] else d))
     else Ok (0, item_at i (length pre) r, length d, if length d < cap then d @ [0] else d))"
proof -
  let ?bs = "pre @ item_bytes i @ rest"
  have bytes: "item_bytes i = number_bytes (word_of_nat (length d)) (item_major i) @ d"
    using i by (auto simp: item_bytes_def)
  have ext: "extract_length ?bs (length pre) =
      Ok (0, length pre + length (number_bytes (word_of_nat (length d)) (item_major i)), length d)"
    using len extract_number_head [of "item_major i" pre "word_of_nat (length d)" "d @ rest"]
    by (simp add: extract_length_def bytes unat_of_nat)
  have sl: "mem_slice ?bs (length pre +
      length (number_bytes (word_of_nat (length d)) (item_major i))) (length d) = Ok d"
    using mem_slice_append_mid [of "length d" d
        "pre @ number_bytes (word_of_nat (length d)) (item_major i)" rest]
    by (simp add: bytes)
  have str: "cbor_value_is_string (item_at i (length pre) r)"
    using i by (auto simp: cbor_value_is_string_def)
  show ?thesis
    using cap
    by (simp add: cbor_value_copy_string_def iterate_string_chunks_def str ext sl Let_def
        cbor_value_is_length_known_def item_flags_large)
       (auto simp: bytes bindR_assoc add.assoc intro!: bindR_cong)
qed

end
