(* ===== verification/Ig_Message.thy ===== *)
theory Ig_Message
  imports Cbor_Items
begin

text \<open>
  The shape every file of \<open>lock/messages/\<close> has.  A message is a C struct with a \<open>has_\<close>
  flag per field; its encoder writes a CBOR map of integer keys (key 0 is the message number), its
  decoder opens the map and runs a \<open>while\<close> loop around a \<open>switch\<close> on the key.  This theory
  models the statements these functions are made of: the guarded key/value writes with their early
  returns, the kinds of \<open>case\<close> bodies, and the \<open>switch\<close> with C's fall-through, because a body
  whose type test fails has no \<open>break\<close> and runs on into the next case.  The messages themselves
  (theories \<open>Messages_1\<close> ff.) list their fields and cases over their own records and setters.
\<close>

section \<open>Encoding\<close>

abbreviation (input) IgSerializerErrorInvalidTypeTagId :: nat
  where "IgSerializerErrorInvalidTypeTagId \<equiv> 2002"
abbreviation (input) IgSerializerErrorInvalidMsgIdValue :: nat
  where "IgSerializerErrorInvalidMsgIdValue \<equiv> 2003"
abbreviation (input) IgSerializerErrorUnknownTagId :: nat
  where "IgSerializerErrorUnknownTagId \<equiv> 2006"
abbreviation (input) IgSerializerErrorInvalidPayload :: nat
  where "IgSerializerErrorInvalidPayload \<equiv> 2007"

text \<open>The encoder call for a value, with the arguments it passes.\<close>
datatype cbor_arg = AUint u64 | AInt i64 | ABytes block_ptr nat | AText block_ptr nat | ABool bool

fun cbor_encode_arg :: "cbor_arg \<Rightarrow> enc_state \<Rightarrow> (nat \<times> enc_state) res" where
  "cbor_encode_arg (AUint v) s = cbor_encode_uint v s"
| "cbor_encode_arg (AInt v) s = cbor_encode_int v s"
| "cbor_encode_arg (ABytes p n) s = cbor_encode_byte_string p n s"
| "cbor_encode_arg (AText p n) s = cbor_encode_text_string p n s"
| "cbor_encode_arg (ABool b) s = cbor_encode_boolean b s"

text \<open>A key/value write: the condition of the \<open>if\<close> around it (\<open>True\<close> for a required
  field, which has none), the key and the value call.\<close>
type_synonym enc_field = "bool \<times> u64 \<times> cbor_arg"

fun ig_encode_fields :: "enc_field list \<Rightarrow> enc_state \<Rightarrow> (nat \<times> enc_state) res" where
  "ig_encode_fields [] s = Ok (0, s)"
| "ig_encode_fields ((guard, key, arg) # fs) s =
     (if guard then
        checkR (cbor_encode_uint key s) (\<lambda>s.
        checkR (cbor_encode_arg arg s) (\<lambda>s.
        ig_encode_fields fs s))
      else ig_encode_fields fs s)"

text \<open>The result: the error number, the output block, and the value \<open>*written_length\<close> was set
  to, if it was.\<close>
definition ig_encode ::
  "u64 \<Rightarrow> u64 \<Rightarrow> enc_field list \<Rightarrow> bytes \<Rightarrow> u32 \<Rightarrow> (nat \<times> bytes \<times> nat option) res" where
  "ig_encode fields_size msg_id kvs retval len =
     bindR (cbor_encoder_create_map fields_size (retval, cbor_encoder_init 0 (unat len)))
       (\<lambda>(err, (buf, encoder), mapenc).
         case mapenc of
           None \<Rightarrow> Ok (err, buf, None)
         | Some mapenc \<Rightarrow>
             if err \<noteq> 0 then Ok (err, buf, None)
             else bindR (ig_encode_fields ((True, 0, AUint msg_id) # kvs) (buf, mapenc))
               (\<lambda>(err, buf, mapenc).
                 if err \<noteq> 0 then Ok (err, buf, None)
                 else bindR (cbor_encoder_close_container mapenc (buf, encoder))
                   (\<lambda>(err, buf, encoder).
                     if err \<noteq> 0 then Ok (err, buf, None)
                     else Ok (0, buf, Some (cbor_encoder_get_buffer_size mapenc 0)))))"

section \<open>Decoding\<close>

text \<open>The bodies of the \<open>case\<close> labels, with the setter each calls.  A setter of a string field
  takes the freshly allocated block and its size.  \<open>CBreak\<close> is a \<open>break\<close> that stands behind the
  body of the last case, for control that falls off its end.\<close>
datatype 'r case_body =
    CMsgId i64
  | CUint "u64 \<Rightarrow> 'r \<Rightarrow> 'r"
  | CInt "i64 \<Rightarrow> 'r \<Rightarrow> 'r"
  | CBool "bool \<Rightarrow> 'r \<Rightarrow> 'r"
  | CBytes "block_ptr \<Rightarrow> nat \<Rightarrow> 'r \<Rightarrow> 'r"
  | CText "block_ptr \<Rightarrow> nat \<Rightarrow> 'r \<Rightarrow> 'r"
  | CBreak

text \<open>How control leaves a body: by \<open>return\<close>, by \<open>break\<close>, or off its end into the next
  case.\<close>
datatype 'r ctl = Return nat 'r | Break nat cbor_value 'r | FallThrough

definition after_advance :: "(nat \<times> cbor_value) res \<Rightarrow> 'r \<Rightarrow> 'r ctl res" where
  "after_advance m obj = bindR m (\<lambda>(err, content).
     Ok (if err \<noteq> 0 then Return err obj else Break err content obj))"

definition copy_and_store ::
  "(nat \<times> cbor_value \<times> nat \<times> bytes) res \<Rightarrow> (block_ptr \<Rightarrow> nat \<Rightarrow> 'r \<Rightarrow> 'r) \<Rightarrow> 'r \<Rightarrow> 'r ctl res" where
  "copy_and_store m setter obj = bindR m (\<lambda>(err, content, n, data_arr).
     Ok (if err \<noteq> 0 then Return err obj else Break err content (setter (Some data_arr) n obj)))"

text \<open>\<open>malloc\<close> succeeds in the model.  In the message-number body the error of
  \<open>cbor_value_advance_fixed\<close> is assigned but not tested before the \<open>break\<close>.\<close>
fun run_body :: "'r case_body \<Rightarrow> bytes \<Rightarrow> cbor_value \<Rightarrow> 'r \<Rightarrow> 'r ctl res" where
  "run_body (CMsgId msg_id) bs content obj =
     (if v_type content = CborIntegerType then
        bindR (cbor_value_get_int64 bs content) (\<lambda>val.
          if val \<noteq> msg_id then Ok (Return IgSerializerErrorInvalidMsgIdValue obj)
          else bindR (cbor_value_advance_fixed bs content) (\<lambda>(err, content).
            Ok (Break err content obj)))
      else Ok FallThrough)"
| "run_body (CUint setter) bs content obj =
     (if v_type content = CborIntegerType then
        bindR (cbor_value_get_uint64 bs content) (\<lambda>val.
          after_advance (cbor_value_advance_fixed bs content) (setter val obj))
      else Ok FallThrough)"
| "run_body (CInt setter) bs content obj =
     (if v_type content = CborIntegerType then
        bindR (cbor_value_get_int64 bs content) (\<lambda>val.
          after_advance (cbor_value_advance_fixed bs content) (setter val obj))
      else Ok FallThrough)"
| "run_body (CBool setter) bs content obj =
     (if v_type content = CborBooleanType then
        bindR (cbor_value_get_boolean content) (\<lambda>val.
          after_advance (cbor_value_advance_fixed bs content) (setter val obj))
      else Ok FallThrough)"
| "run_body (CBytes setter) bs content obj =
     (if v_type content = CborByteStringType then
        bindR (cbor_value_get_string_length bs content) (\<lambda>(err, n).
          if err \<noteq> 0 then Ok (Return err obj)
          else copy_and_store (cbor_value_copy_byte_string bs content n) setter obj)
      else Ok FallThrough)"
| "run_body (CText setter) bs content obj =
     (if v_type content = CborTextStringType then
        bindR (cbor_value_calculate_string_length bs content) (\<lambda>(err, n).
          if err \<noteq> 0 then Ok (Return err obj)
          else copy_and_store (cbor_value_copy_text_string bs content n) setter obj)
      else Ok FallThrough)"
| "run_body CBreak bs content obj = Ok (Break 0 content obj)"

text \<open>The \<open>switch\<close>: control enters at the first case with the key and runs until a body leaves;
  behind the last case stands \<open>default\<close>.\<close>
fun run_cases :: "(i64 \<times> 'r case_body) list \<Rightarrow> bytes \<Rightarrow> cbor_value \<Rightarrow> 'r \<Rightarrow> 'r ctl res" where
  "run_cases [] bs content obj = Ok (Return IgSerializerErrorUnknownTagId obj)"
| "run_cases ((_, body) # cases) bs content obj =
     bindR (run_body body bs content obj) (\<lambda>c.
       case c of FallThrough \<Rightarrow> run_cases cases bs content obj | _ \<Rightarrow> Ok c)"

definition ig_switch ::
  "i64 \<Rightarrow> (i64 \<times> 'r case_body) list \<Rightarrow> bytes \<Rightarrow> cbor_value \<Rightarrow> 'r \<Rightarrow> 'r ctl res" where
  "ig_switch tag_id cases bs content obj =
     run_cases (dropWhile (\<lambda>(k, _). k \<noteq> tag_id) cases) bs content obj"

text \<open>The \<open>while\<close> loop; the first argument bounds its iterations.\<close>
fun ig_decode_loop ::
  "nat \<Rightarrow> (i64 \<times> 'r case_body) list \<Rightarrow> bytes \<Rightarrow> nat \<Rightarrow> cbor_value \<Rightarrow> 'r \<Rightarrow> (nat \<times> 'r) res" where
  "ig_decode_loop 0 cases bs err content obj = Fault OutOfFuel"
| "ig_decode_loop (Suc n) cases bs err content obj =
     (if cbor_value_at_end content then Ok (err, obj)
      else if v_type content \<noteq> CborIntegerType then Ok (IgSerializerErrorInvalidTypeTagId, obj)
      else bindR (cbor_value_get_int64 bs content) (\<lambda>tag_id.
        bindR (cbor_value_advance_fixed bs content) (\<lambda>(err, content).
          if err \<noteq> 0 then Ok (err, obj)
          else bindR (ig_switch tag_id cases bs content obj) (\<lambda>c.
            case c of
              Return err obj \<Rightarrow> Ok (err, obj)
            | Break err content obj \<Rightarrow> ig_decode_loop n cases bs err content obj
            | FallThrough \<Rightarrow> Ok (err, obj)))))"

text \<open>The \<open>for\<close> loop over the elements of a top-level array.\<close>
fun ig_index_loop ::
  "nat \<Rightarrow> bytes \<Rightarrow> cbor_value \<Rightarrow> cbor_value option \<Rightarrow> (nat \<times> cbor_value option) res" where
  "ig_index_loop 0 bs it content = Ok (0, content)"
| "ig_index_loop (Suc n) bs it content =
     bindR (cbor_value_enter_container bs it) (\<lambda>(err, content).
       if err \<noteq> 0 then Ok (err, Some content)
       else bindR (cbor_value_advance bs it) (\<lambda>(err, it).
         if err \<noteq> 0 then Ok (err, Some content) else ig_index_loop n bs it (Some content)))"

text \<open>From the buffer to the iterator \<open>content\<close>; \<open>None\<close> is the unset variable.\<close>
definition ig_open :: "bytes \<Rightarrow> nat \<Rightarrow> (nat \<times> cbor_value option) res" where
  "ig_open bs index =
     bindR (cbor_parser_init bs) (\<lambda>(err, it).
       if err \<noteq> 0 then Ok (err, None)
       else if v_type it = CborMapType then
         bindR (cbor_value_enter_container bs it) (\<lambda>(err, content). Ok (err, Some content))
       else if v_type it = CborArrayType then
         bindR (cbor_value_enter_container bs it) (\<lambda>(err, it).
           if err \<noteq> 0 then Ok (err, None) else ig_index_loop (index + 1) bs it None)
       else Ok (0, None))"

definition decode_fuel :: "bytes \<Rightarrow> nat" where
  "decode_fuel bs = length bs + 2"

definition ig_decode ::
  "(i64 \<times> 'r case_body) list \<Rightarrow> bytes \<Rightarrow> 'r \<Rightarrow> nat \<Rightarrow> (nat \<times> 'r) res" where
  "ig_decode cases bs obj index =
     bindR (ig_open bs index) (\<lambda>(err, content).
       if err \<noteq> 0 then Ok (err, obj)
       else case content of
         None \<Rightarrow> Fault Uninitialised
       | Some content \<Rightarrow> ig_decode_loop (decode_fuel bs) cases bs 0 content obj)"

end
