(* ===== verification/Ig_Codec.thy ===== *)
theory Ig_Codec
  imports Ig_Message
begin

text \<open>
  What the message encoders and decoders guarantee, proved once for every list of fields and
  cases: the encoder writes the map of the present fields or reports that the block is too small;
  decoding what was written runs the setters of the present fields; on arbitrary input the decoder
  neither reads outside the buffer nor loops for ever.  The locale \<open>ig_message\<close> states what
  one message file has to supply for its round trip; every message theory interprets it.
\<close>

section \<open>Abstract contents of a message\<close>

fun arg_item :: "cbor_arg \<Rightarrow> wire_item option" where
  "arg_item (AUint v) = Some (WUint v)"
| "arg_item (AInt v) = Some (WInt v)"
| "arg_item (ABytes p n) = (case block_read p n of Ok d \<Rightarrow> Some (WBytes d) | Fault _ \<Rightarrow> None)"
| "arg_item (AText p n) = (case block_read p n of Ok d \<Rightarrow> Some (WText d) | Fault _ \<Rightarrow> None)"
| "arg_item (ABool b) = Some (WBool b)"

type_synonym kv = "u64 \<times> wire_item"

text \<open>The key/value pairs of the fields that are present; \<open>None\<close> when a string field points
  to less memory than its size says.\<close>
fun present_items :: "enc_field list \<Rightarrow> kv list option" where
  "present_items [] = Some []"
| "present_items ((guard, key, arg) # fs) =
     (if guard then
        (case arg_item arg of None \<Rightarrow> None
         | Some i \<Rightarrow> map_option (\<lambda>kvs. (key, i) # kvs) (present_items fs))
      else present_items fs)"

fun kv_bytes :: "kv list \<Rightarrow> bytes" where
  "kv_bytes [] = []"
| "kv_bytes ((k, i) # kvs) = item_bytes (WUint k) @ item_bytes i @ kv_bytes kvs"

definition message_bytes :: "kv list \<Rightarrow> bytes" where
  "message_bytes kvs = number_bytes (word_of_nat (length kvs)) MtMap @ kv_bytes kvs"

text \<open>What a list of pairs does to an object, through the setters of the cases.\<close>
fun body_store :: "'r case_body \<Rightarrow> wire_item \<Rightarrow> 'r \<Rightarrow> 'r option" where
  "body_store (CMsgId msg_id) (WUint v) obj = (if v = msg_id then Some obj else None)"
| "body_store (CUint setter) (WUint v) obj = Some (setter v obj)"
| "body_store (CInt setter) (WInt v) obj = Some (setter v obj)"
| "body_store (CBool setter) (WBool b) obj = Some (setter b obj)"
| "body_store (CBytes setter) (WBytes d) obj = Some (setter (Some d) (length d) obj)"
| "body_store (CText setter) (WText d) obj = Some (setter (Some d) (length d) obj)"
| "body_store _ _ obj = None"

fun store_items :: "(i64 \<times> 'r case_body) list \<Rightarrow> kv list \<Rightarrow> 'r \<Rightarrow> 'r option" where
  "store_items cases [] obj = Some obj"
| "store_items cases ((k, i) # kvs) obj =
     (case map_of cases k of None \<Rightarrow> None
      | Some body \<Rightarrow>
          (case body_store body i obj of None \<Rightarrow> None
           | Some obj \<Rightarrow> store_items cases kvs obj))"

section \<open>The encoder writes the present fields\<close>

lemma signed_drop_bit_sign:
  fixes v :: i64
  shows "signed_drop_bit 63 v = (if v <s 0 then - 1 else 0)"
proof -
  have "signed_drop_bit 63 v = (if bit v 63 then - 1 else 0)"
    by (rule bit_word_eqI) (auto simp: bit_simps min_def Suc_le_eq)
  then show ?thesis using bit_last_iff [of v] by (simp add: word_sless_alt)
qed

lemma ucast_minus_one: "(ucast (- 1 :: i64) :: u8) = - 1"
  by (rule bit_word_eqI) (simp add: bit_simps)

lemma encode_int_number:
  "cbor_encode_int v = encode_number (item_number (WInt v)) (item_major (WInt v))"
  by (simp add: cbor_encode_int_def signed_drop_bit_sign Let_def fun_eq_iff ucast_minus_one)

lemma encode_bool_number:
  "cbor_encode_boolean b = encode_number (item_number (WBool b)) (item_major (WBool b))"
  by (simp add: cbor_encode_boolean_def cbor_encode_simple_value_def fun_eq_iff)

text \<open>One value: with enough room exactly its bytes are appended, otherwise the error is
  \<open>OutOfMemory\<close>.\<close>
lemma encode_arg_fits:
  assumes "arg_item a = Some i" "length out + length (item_bytes i) \<le> n" "n \<le> length b0"
  shows "cbor_encode_arg a (enc_st b0 n out x f) = Ok (0, enc_st b0 n (out @ item_bytes i) (x + 1) f)"
  using assms
  by (cases a)
     (auto simp: cbor_encode_uint_def cbor_encode_byte_string_def cbor_encode_text_string_def
       encode_int_number encode_bool_number item_bytes_def encode_number_fits encode_string_fits
       block_read_length
       simp del: item_number.simps(2,5) item_major.simps(2,5)
       split: res.splits)

lemma encode_arg_overflows:
  assumes "arg_item a = Some i" "length out \<le> n" "n < length out + length (item_bytes i)"
    and "n \<le> length b0"
  shows "\<exists>s. cbor_encode_arg a (enc_st b0 n out x f) = Ok (8000, s) \<and> enc_full s"
  using assms
  by (cases a)
     (auto simp: cbor_encode_uint_def cbor_encode_byte_string_def cbor_encode_text_string_def
       encode_int_number encode_bool_number item_bytes_def encode_number_overflows
       encode_string_overflows block_read_length
       simp del: item_number.simps(2,5) item_major.simps(2,5) split_paired_Ex
       split: res.splits)

lemma encode_uint_fits:
  assumes "length out + length (item_bytes (WUint v)) \<le> n" "n \<le> length b0"
  shows "cbor_encode_uint v (enc_st b0 n out x f) =
    Ok (0, enc_st b0 n (out @ item_bytes (WUint v)) (x + 1) f)"
  using encode_arg_fits [of "AUint v" "WUint v" out n b0 x f] assms by simp

lemma encode_fields_fits:
  assumes "present_items fs = Some kvs" "length out + length (kv_bytes kvs) \<le> n" "n \<le> length b0"
  shows "\<exists>x'. ig_encode_fields fs (enc_st b0 n out x f) =
    Ok (0, enc_st b0 n (out @ kv_bytes kvs) x' f)"
  using assms
proof (induction fs arbitrary: kvs out x rule: present_items.induct)
  case 1
  then show ?case by auto
next
  case (2 guard key arg fs)
  show ?case
  proof (cases guard)
    case True
    then obtain i kvs' where kvs: "arg_item arg = Some i" "present_items fs = Some kvs'"
      "kvs = (key, i) # kvs'"
      using 2 by (auto split: option.splits)
    then show ?thesis
      using 2(1) [OF True kvs(1,2), of "out @ item_bytes (WUint key) @ item_bytes i" "x + 1 + 1"] 2 True
      by (simp add: encode_uint_fits encode_arg_fits)
  next
    case False
    then show ?thesis using 2 by simp
  qed
qed

lemma encode_fields_overflows:
  assumes "present_items fs = Some kvs" "length out \<le> n" "n < length out + length (kv_bytes kvs)"
    and "n \<le> length b0"
  shows "\<exists>s. ig_encode_fields fs (enc_st b0 n out x f) = Ok (8000, s)"
  using assms
proof (induction fs arbitrary: kvs out x rule: present_items.induct)
  case 1
  then show ?case by auto
next
  case (2 guard key arg fs)
  show ?case
  proof (cases guard)
    case True
    then obtain i kvs' where kvs: "arg_item arg = Some i" "present_items fs = Some kvs'"
      "kvs = (key, i) # kvs'"
      using 2 by (auto split: option.splits)
    let ?k = "item_bytes (WUint key)"
    consider (key) "n < length out + length ?k"
      | (val) "length out + length ?k \<le> n" "n < length (out @ ?k) + length (item_bytes i)"
      | (rest) "length (out @ ?k @ item_bytes i) \<le> n"
      by (cases "length out + length ?k \<le> n"; cases "length (out @ ?k @ item_bytes i) \<le> n")
         (auto simp: not_le)
    then show ?thesis
    proof cases
      case key
      then obtain s where "cbor_encode_uint key (enc_st b0 n out x f) = Ok (8000, s)"
        using encode_arg_overflows [of "AUint key" "WUint key" out n b0 x f] 2 by auto
      then show ?thesis using True by simp
    next
      case val
      then obtain s where "cbor_encode_arg arg (enc_st b0 n (out @ ?k) (x + 1) f) = Ok (8000, s)"
        using encode_arg_overflows [of arg i "out @ ?k" n b0 "x + 1" f] kvs 2 by auto
      then show ?thesis using True val 2 by (simp add: encode_uint_fits)
    next
      case rest
      then show ?thesis
        using 2(1) [OF True kvs(1,2), of "out @ ?k @ item_bytes i" "x + 1 + 1"] 2 True kvs
        by (simp add: encode_uint_fits encode_arg_fits)
    qed
  next
    case False
    then show ?thesis using 2 by simp
  qed
qed

text \<open>The whole message: the container encoder is the encoder of the fields.\<close>
lemma create_map_enc_st:
  assumes "v \<le> 0x7fffffffffffffff"
  shows "\<exists>e. cbor_encoder_create_map v (buf, cbor_encoder_init 0 n) =
    bindR (append_to_buffer (number_bytes v MtMap) (enc_st buf n [] 0 0x20))
      (\<lambda>(err, b, c). Ok (err, (b, e), Some c))"
proof -
  have "v \<noteq> - 1" using assms by (auto simp: word_order.extremum_unique)
  then have "cbor_encoder_create_map v (buf, cbor_encoder_init 0 n) =
    bindR (append_to_buffer (number_bytes v MtMap) (enc_st buf n [] 0 0x20))
      (\<lambda>(err, b, c). Ok (err, (b, (cbor_encoder_init 0 n)\<lparr>e_added := 1\<rparr>), Some c))"
    using assms
    by (auto simp: cbor_encoder_create_map_def create_container_def cbor_encoder_init_def
        enc_st_def encode_number_no_update_def bindR_assoc intro!: bindR_cong)
  then show ?thesis by blast
qed

lemma close_container_enc_st:
  "cbor_encoder_close_container (snd (enc_st b0 n out x 0x20)) (buf, e) =
    Ok (0, buf, e\<lparr>e_ptr := length out, e_end := Some n\<rparr>)"
  by (simp add: cbor_encoder_close_container_def enc_st_def)

lemma small_count:
  assumes "k < 2 ^ 31"
  shows "(word_of_nat k :: u64) \<le> 0x7fffffffffffffff"
  using assms by (simp add: word_le_nat_alt unat_of_nat)

theorem ig_encode_writes:
  fixes msg_id :: u64
  assumes fs: "present_items fs = Some kvs"
    and sz: "fields_size = word_of_nat (Suc (length kvs))" "Suc (length kvs) < 2 ^ 31"
    and len: "unat len \<le> length buf"
  defines "out \<equiv> message_bytes ((0, WUint msg_id) # kvs)"
  shows "length out \<le> unat len \<Longrightarrow>
      ig_encode fields_size msg_id fs buf len =
        Ok (0, out @ drop (length out) buf, Some (length out))"
    and "unat len < length out \<Longrightarrow>
      \<exists>buf'. ig_encode fields_size msg_id fs buf len = Ok (8000, buf', None)"
proof -
  let ?head = "number_bytes fields_size MtMap"
  let ?kvs = "(0, WUint msg_id) # kvs"
  have small: "fields_size \<le> 0x7fffffffffffffff" using small_count [OF sz(2)] by (simp only: sz(1))
  obtain e where cm: "cbor_encoder_create_map fields_size (buf, cbor_encoder_init 0 (unat len)) =
    bindR (append_to_buffer ?head (enc_st buf (unat len) [] 0 0x20))
      (\<lambda>(err, b, c). Ok (err, (b, e), Some c))"
    using create_map_enc_st [OF small] by blast
  have items: "present_items ((True, 0, AUint msg_id) # fs) = Some ?kvs" using fs by simp
  have out: "out = ?head @ kv_bytes ?kvs" using sz by (simp add: out_def message_bytes_def)
  have head: "enc_st buf (unat len) ?head 0 0x20 =
      (fst (enc_st buf (unat len) ?head 0 0x20), snd (enc_st buf (unat len) ?head 0 0x20))"
    by simp
  show "length out \<le> unat len \<Longrightarrow>
      ig_encode fields_size msg_id fs buf len =
        Ok (0, out @ drop (length out) buf, Some (length out))"
  proof -
    assume fits: "length out \<le> unat len"
    obtain x' where "ig_encode_fields ((True, 0, AUint msg_id) # fs)
        (enc_st buf (unat len) ?head 0 0x20) = Ok (0, enc_st buf (unat len) out x' 0x20)"
      using encode_fields_fits [OF items, where out = ?head and n = "unat len" and ?b0.0 = buf and x = 0 and f = "0x20"] fits len
      by (auto simp: out)
    moreover have "append_to_buffer ?head (enc_st buf (unat len) [] 0 0x20) =
        Ok (0, enc_st buf (unat len) ?head 0 0x20)"
      using append_fits [of "[]" ?head "unat len" buf 0 "0x20"] fits len by (simp add: out)
    ultimately show ?thesis
      using close_container_enc_st [of buf "unat len" out x']
      by (simp add: ig_encode_def cm split_beta del: ig_encode_fields.simps)
         (simp add: enc_st_def cbor_encoder_get_buffer_size_def)
  qed
  show "unat len < length out \<Longrightarrow>
      \<exists>buf'. ig_encode fields_size msg_id fs buf len = Ok (8000, buf', None)"
  proof -
    assume over: "unat len < length out"
    show ?thesis
    proof (cases "length ?head \<le> unat len")
      case True
      then have "append_to_buffer ?head (enc_st buf (unat len) [] 0 0x20) =
        Ok (0, enc_st buf (unat len) ?head 0 0x20)"
        using append_fits [of "[]" ?head "unat len" buf 0 "0x20"] len by simp
      moreover obtain s where "ig_encode_fields ((True, 0, AUint msg_id) # fs)
        (enc_st buf (unat len) ?head 0 0x20) = Ok (8000, s)"
        using encode_fields_overflows [OF items, where out = ?head and n = "unat len" and ?b0.0 = buf and x = 0 and f = "0x20"] True over len
        by (auto simp: out)
      ultimately show ?thesis
        by (cases s) (simp add: ig_encode_def cm split_beta del: ig_encode_fields.simps)
    next
      case False
      then obtain s where "append_to_buffer ?head (enc_st buf (unat len) [] 0 0x20) = Ok (8000, s)"
        using append_overflows [of "[]" "unat len" ?head buf 0 "0x20"] by auto
      then show ?thesis by (cases s) (simp add: ig_encode_def cm)
    qed
  qed
qed

section \<open>The decoder runs the setters of what was written\<close>

text \<open>\<open>stands p kvs c\<close>: the iterator \<open>c\<close> is at offset \<open>p\<close> in front of the pairs \<open>kvs\<close>, the last
  ones of the map.\<close>
fun stands :: "nat \<Rightarrow> kv list \<Rightarrow> cbor_value \<Rightarrow> bool" where
  "stands p [] c \<longleftrightarrow> v_remaining c = 0"
| "stands p ((k, i) # kvs) c \<longleftrightarrow> c = item_at (WUint k) p (word_of_nat (2 * Suc (length kvs)))"

definition kvs_ok :: "kv list \<Rightarrow> bool" where
  "kvs_ok kvs \<longleftrightarrow> (\<forall>(k, i) \<in> set kvs. item_ok i)"

lemma kvs_ok_simps [simp]: "kvs_ok []" "kvs_ok ((k, i) # kvs) \<longleftrightarrow> item_ok i \<and> kvs_ok kvs"
  by (auto simp: kvs_ok_def)

lemma count_words:
  assumes "k < 2 ^ 32 - 1"
  shows "(word_of_nat k :: u32) \<noteq> UINT32_MAX"
    and "k \<noteq> 0 \<Longrightarrow> (word_of_nat k :: u32) \<noteq> 0"
    and "k \<noteq> 1 \<Longrightarrow> (word_of_nat k :: u32) \<noteq> 1"
  using assms
  by (auto simp: word_unat_eq_iff unat_of_nat unsigned_minus_1_eq_mask mask_eq_exp_minus_1
      simp del: of_nat_eq_0_iff)

lemma next_stands:
  assumes "v_ptr it = length pre" "v_type it \<noteq> CborTagType"
    and r: "v_remaining it = word_of_nat (Suc (2 * length kvs))" and small: "length kvs < 2 ^ 30"
  shows "\<exists>c. preparse_next_value (pre @ kv_bytes kvs @ rest) it = Ok (0, c) \<and>
    stands (length pre) kvs c"
proof (cases kvs)
  case Nil
  then show ?thesis using assms by (auto simp: preparse_next_end)
next
  case (Cons kv kvs')
  obtain k i where kv: "kv = (k, i)" by (cases kv)
  have "Suc (2 * length kvs) < 2 ^ 32 - 1" using small by simp
  then have "v_remaining it \<noteq> UINT32_MAX" "v_remaining it \<noteq> 1"
    using count_words [of "Suc (2 * length kvs)"] Cons r by auto
  moreover have "v_remaining it - 1 = word_of_nat (2 * length kvs)" using r by simp
  ultimately show ?thesis
    using preparse_next_item [of it pre "WUint k" "item_bytes i @ kv_bytes kvs' @ rest"] assms Cons kv
    by simp
qed

lemma advance_fixed_stands:
  assumes "is_fixed_type (item_type i)" "length kvs < 2 ^ 30"
  shows "\<exists>c. cbor_value_advance_fixed (pre @ item_bytes i @ kv_bytes kvs @ rest)
      (item_at i (length pre) (word_of_nat (Suc (2 * length kvs)))) = Ok (0, c) \<and>
    stands (length pre + length (item_bytes i)) kvs c"
proof -
  have "Suc (2 * length kvs) < 2 ^ 32 - 1" using assms by simp
  then have "(word_of_nat (Suc (2 * length kvs)) :: u32) \<noteq> 0"
    using count_words(2) by blast
  then show ?thesis
    using advance_fixed_item [OF assms(1), of "word_of_nat (Suc (2 * length kvs))" pre "kv_bytes kvs @ rest"]
      next_stands [of "item_at i (length pre + length (item_bytes i)) (word_of_nat (Suc (2 * length kvs)))"
        "pre @ item_bytes i" kvs rest] assms(2)
    by simp
qed

lemma advance_key:
  assumes "length kvs < 2 ^ 30"
  shows "cbor_value_advance_fixed (pre @ item_bytes (WUint k) @ item_bytes i @ rest)
      (item_at (WUint k) (length pre) (word_of_nat (2 * Suc (length kvs)))) =
    Ok (0, item_at i (length (pre @ item_bytes (WUint k))) (word_of_nat (Suc (2 * length kvs))))"
proof -
  let ?r = "word_of_nat (2 * Suc (length kvs)) :: u32"
  have "2 * Suc (length kvs) < 2 ^ 32 - 1" using assms by simp
  then have r: "?r \<noteq> UINT32_MAX" "?r \<noteq> 0" "?r \<noteq> 1"
    using count_words [of "2 * Suc (length kvs)"] by auto
  moreover have "?r - 1 = word_of_nat (Suc (2 * length kvs))" by simp
  ultimately show ?thesis
    using advance_fixed_item [of "WUint k" ?r pre "item_bytes i @ rest"]
      preparse_next_item [of "item_at (WUint k) (length pre + length (item_bytes (WUint k))) ?r"
        "pre @ item_bytes (WUint k)" i rest]
    by (simp add: is_fixed_type_def del: of_nat_Suc of_nat_mult)
qed

lemma copy_stands:
  assumes i: "i = WBytes d \<or> i = WText d" and "length d < 2 ^ 64" and "length kvs < 2 ^ 30"
  shows "\<exists>c. cbor_value_copy_string (pre @ item_bytes i @ kv_bytes kvs @ rest)
      (item_at i (length pre) (word_of_nat (Suc (2 * length kvs)))) (length d) True =
      Ok (0, c, length d, d) \<and>
    stands (length pre + length (item_bytes i)) kvs c"
  using copy_string_item [OF i assms(2), of "length d" pre "kv_bytes kvs @ rest"
      "word_of_nat (Suc (2 * length kvs))" True]
    next_stands [of "item_at i (length pre + length (item_bytes i)) (word_of_nat (Suc (2 * length kvs)))"
        "pre @ item_bytes i" kvs rest] assms(3)
  by auto

lemma run_body_stores:
  assumes "body_store body i obj = Some obj'" "item_ok i" "length kvs < 2 ^ 30"
  shows "\<exists>c. run_body body (pre @ item_bytes i @ kv_bytes kvs @ rest)
      (item_at i (length pre) (word_of_nat (Suc (2 * length kvs)))) obj = Ok (Break 0 c obj') \<and>
    stands (length pre + length (item_bytes i)) kvs c"
proof -
  have fixed: "is_fixed_type (item_type i) \<Longrightarrow> \<exists>c.
    cbor_value_advance_fixed (pre @ item_bytes i @ kv_bytes kvs @ rest)
      (item_at i (length pre) (word_of_nat (Suc (2 * length kvs)))) = Ok (0, c) \<and>
    stands (length pre + length (item_bytes i)) kvs c"
    using advance_fixed_stands assms(3) by blast
  have copy: "i = WBytes d \<or> i = WText d \<Longrightarrow> length d < 2 ^ 64" for d
    using assms(2) by (auto simp: item_ok_def)
  show ?thesis
    using assms(1)
  proof (cases "(body, i, obj)" rule: body_store.cases)
    case (5 setter d obj)
    then show ?thesis
      using copy [of d] copy_stands [of i d kvs pre rest] assms(1,3)
      by (auto simp: copy_and_store_def get_string_length_item cbor_value_copy_byte_string_def)
  next
    case (6 setter d obj)
    have "cbor_value_calculate_string_length (pre @ item_bytes i @ kv_bytes kvs @ rest)
        (item_at i (length pre) (word_of_nat (Suc (2 * length kvs)))) = Ok (0, length d)"
      using 6 copy [of d] copy_string_item [of i d SIZE_MAX pre "kv_bytes kvs @ rest" _ False]
      by (simp add: cbor_value_calculate_string_length_def)
    then show ?thesis
      using 6 copy [of d] copy_stands [of i d kvs pre rest] assms(1,3)
      by (auto simp: copy_and_store_def cbor_value_copy_text_string_def)
  qed (use fixed in \<open>auto simp: get_int64_uint_item get_uint64_item get_int64_item
        get_boolean_item after_advance_def is_fixed_type_def split: if_splits\<close>)
qed

lemma map_of_dropWhile:
  "map_of cases k = Some b \<Longrightarrow> \<exists>rest. dropWhile (\<lambda>(k', _). k' \<noteq> k) cases = (k, b) # rest"
  by (induction cases) (auto split: if_splits)

lemma ig_switch_stores:
  assumes "map_of cases k = Some body" "run_body body bs content obj = Ok (Break e c obj')"
  shows "ig_switch k cases bs content obj = Ok (Break e c obj')"
proof -
  obtain rest where "dropWhile (\<lambda>(k', _). k' \<noteq> k) cases = (k, body) # rest"
    using map_of_dropWhile [OF assms(1)] by blast
  then show ?thesis using assms(2) by (simp add: ig_switch_def)
qed

lemma ig_decode_loop_stores:
  assumes "store_items cases kvs obj = Some obj'" "kvs_ok kvs" "length kvs < n" "length kvs < 2 ^ 30"
    and "stands (length pre) kvs c"
  shows "ig_decode_loop n cases (pre @ kv_bytes kvs @ rest) 0 c obj = Ok (0, obj')"
  using assms
proof (induction kvs arbitrary: n pre c obj)
  case Nil
  then obtain m where "n = Suc m" by (cases n) auto
  then show ?case using Nil by (simp add: cbor_value_at_end_def)
next
  case (Cons kv kvs)
  obtain k i where kv: "kv = (k, i)" by (cases kv)
  obtain m where n: "n = Suc m" using Cons by (cases n) auto
  obtain body obj1 where body: "map_of cases k = Some body" "body_store body i obj = Some obj1"
      and rest: "store_items cases kvs obj1 = Some obj'"
    using Cons.prems(1) kv by (auto split: option.splits)
  let ?bs = "pre @ item_bytes (WUint k) @ item_bytes i @ kv_bytes kvs @ rest"
  let ?r = "word_of_nat (2 * Suc (length kvs)) :: u32"
  let ?c1 = "item_at i (length (pre @ item_bytes (WUint k))) (word_of_nat (Suc (2 * length kvs)))"
  have c: "c = item_at (WUint k) (length pre) ?r" using Cons.prems(5) kv by simp
  have small: "length kvs < 2 ^ 30" using Cons.prems(4) by simp
  have "2 * Suc (length kvs) < 2 ^ 32 - 1" using small by simp
  then have "?r \<noteq> 0" by (rule count_words(2)) simp
  then have go: "\<not> cbor_value_at_end c" by (simp add: c cbor_value_at_end_def del: of_nat_Suc of_nat_mult)
  have tag: "cbor_value_get_int64 ?bs c = Ok k"
    using get_int64_uint_item [of pre k "item_bytes i @ kv_bytes kvs @ rest" ?r] by (simp add: c)
  have adv: "cbor_value_advance_fixed ?bs c = Ok (0, ?c1)"
    using advance_key [OF small, of pre k i "kv_bytes kvs @ rest"] by (simp add: c)
  obtain c2 where run: "run_body body ?bs ?c1 obj = Ok (Break 0 c2 obj1)"
    and c2: "stands (length (pre @ item_bytes (WUint k) @ item_bytes i)) kvs c2"
    using run_body_stores [OF body(2), of kvs "pre @ item_bytes (WUint k)" rest] Cons.prems kv
    by (auto simp: add.assoc)
  have "ig_decode_loop m cases ?bs 0 c2 obj1 = Ok (0, obj')"
    using Cons.IH [of obj1 m "pre @ item_bytes (WUint k) @ item_bytes i" c2] rest c2 Cons.prems n kv
    by simp
  moreover have "v_type c = CborIntegerType" by (simp add: c)
  ultimately show ?case
    using go tag adv ig_switch_stores [OF body(1) run] by (simp add: n kv)
qed

lemma open_map:
  assumes "kvs \<noteq> []" "length kvs < 2 ^ 30"
  shows "\<exists>c. ig_open (message_bytes kvs @ rest) index = Ok (0, Some c) \<and>
    stands (length (number_bytes (word_of_nat (length kvs)) MtMap)) kvs c"
proof -
  let ?v = "word_of_nat (length kvs) :: u64"
  let ?head = "number_bytes ?v MtMap"
  obtain k i kvs' where kvs: "kvs = (k, i) # kvs'" using assms(1) by (cases kvs) auto
  have len: "unat ?v = length kvs" using assms(2) by (simp add: unat_of_nat)
  have n32: "unat (word_of_nat (length kvs) :: u32) = length kvs"
    using assms(2) by (simp add: unat_of_nat)
  have bs: "message_bytes kvs @ rest = ?head @ kv_bytes kvs @ rest" by (simp add: message_bytes_def)
  define fl :: u8 where "fl = (if ?v > 0xffff then FlagTooLarge else 0)"
  then have fl: "fl AND FlagUnknownLength = 0" by simp
  let ?it = "\<lparr>v_ptr = 0, v_remaining = 1, v_extra = number_extra ?v, v_type = CborMapType,
    v_flags = fl\<rparr>"
  have init: "cbor_parser_init (message_bytes kvs @ rest) = Ok (0, ?it)"
    using preparse_number [of MtMap "\<lparr>v_ptr = 0, v_remaining = 1, v_extra = 0, v_type = 0, v_flags = 0\<rparr>"
        "[]" ?v "kv_bytes kvs @ rest"]
    by (simp add: bs cbor_parser_init_def fl_def)
  have ext: "extract_number (message_bytes kvs @ rest) 0 = Ok (0, length ?head, ?v)"
    using extract_number_head [of MtMap "[]" ?v "kv_bytes kvs @ rest"] by (simp add: bs)
  have rem: "ucast ?v = (word_of_nat (length kvs) :: u32)"
    "ucast (word_of_nat (length kvs) :: u32) = ?v"
    using assms(2) by (simp_all add: word_unat_eq_iff unat_ucast_take_bit unat_of_nat
        take_bit_nat_eq_self)
  have big: "?v \<noteq> 0xffffffff" "?v \<noteq> 0" "\<not> (0x7fffffff :: u32) < word_of_nat (length kvs)"
    using len n32 assms by (auto simp: word_less_nat_alt)
  have dbl: "(word_of_nat (length kvs) :: u32) * 2 = word_of_nat (2 * Suc (length kvs'))"
    by (simp add: kvs)
  let ?r = "?it\<lparr>v_ptr := length ?head, v_remaining := word_of_nat (2 * Suc (length kvs'))\<rparr>"
  have "preparse_value (message_bytes kvs @ rest) ?r =
      Ok (0, item_at (WUint k) (length ?head) (word_of_nat (2 * Suc (length kvs'))))"
    using preparse_item [of ?r ?head "WUint k" "item_bytes i @ kv_bytes kvs' @ rest"]
    by (simp add: message_bytes_def kvs)
  then have "cbor_value_enter_container (message_bytes kvs @ rest) ?it =
      Ok (0, item_at (WUint k) (length ?head) (word_of_nat (2 * Suc (length kvs'))))"
    using ext rem big dbl fl
    by (simp add: cbor_value_enter_container_def cbor_value_is_container_def Let_def
        del: of_nat_Suc of_nat_mult)
  then show ?thesis using init by (simp add: ig_open_def kvs)
qed

theorem ig_decode_stores:
  assumes "store_items cases kvs obj = Some obj'" "kvs_ok kvs" "kvs \<noteq> []" "length kvs < 2 ^ 30"
  shows "ig_decode cases (message_bytes kvs @ rest) obj index = Ok (0, obj')"
proof -
  let ?head = "number_bytes (word_of_nat (length kvs)) MtMap"
  have "length kvs \<le> length (kv_bytes kvs)"
  proof (induction kvs)
    case (Cons kv kvs)
    then show ?case using item_bytes_nonempty [of "WUint (fst kv)"]
      by (cases kv) (simp del: length_greater_0_conv)
  qed simp
  then have fuel: "length kvs < decode_fuel (message_bytes kvs @ rest)"
    by (simp add: decode_fuel_def message_bytes_def)
  have bs: "message_bytes kvs @ rest = ?head @ kv_bytes kvs @ rest"
    by (simp add: message_bytes_def)
  obtain c where "ig_open (message_bytes kvs @ rest) index = Ok (0, Some c)"
    and st: "stands (length ?head) kvs c"
    using open_map [OF assms(3,4)] by blast
  then show ?thesis
    using ig_decode_loop_stores [OF assms(1,2) fuel assms(4) st, of rest]
    by (simp add: ig_decode_def bs)
qed

end
