(* ===== verification/Ig_Interface.thy ===== *)
theory Ig_Interface
  imports Ig_Codec
begin

text \<open>
  The interface between one message file and the rest of the program, as the locale
  \<open>ig_message\<close>: what a file supplies (its encoder, decoder, size bound, validity test, and the
  field and case lists they are made of) and the laws that make it a codec.  The client lemmas,
  proved once inside the locale, are the round trip, the size bound, the error reports and the
  injectivity of the encoding.
\<close>

section \<open>Canonical objects\<close>

text \<open>What \<open>init\<close> followed by setters leaves in a field: an absent number is 0, an absent string is
  NULL with size 0, a present string is a non-fresh block of its size.  (The bound on the size keeps
  the 32-bit sum of \<open>get_max_payload_in_bytes\<close> from wrapping.)\<close>

definition num_ok :: "bool \<Rightarrow> 'a::len word \<Rightarrow> bool" where
  "num_ok has v \<longleftrightarrow> has \<or> v = 0"

definition flag_ok :: "bool \<Rightarrow> bool \<Rightarrow> bool" where
  "flag_ok has b \<longleftrightarrow> has \<or> \<not> b"

definition str_ok :: "bool \<Rightarrow> block_ptr \<Rightarrow> nat \<Rightarrow> bool" where
  "str_ok has p n \<longleftrightarrow>
     (case p of None \<Rightarrow> \<not> has \<and> n = 0
      | Some d \<Rightarrow> has \<and> n = length d \<and> 0 < n \<and> n < 2 ^ 24)"

definition block_bytes :: "block_ptr \<Rightarrow> bytes" where
  "block_bytes p = (case p of None \<Rightarrow> [] | Some d \<Rightarrow> d)"

lemma str_ok_read: "str_ok has p n \<Longrightarrow> block_read p n = Ok (block_bytes p)"
  by (auto simp: str_ok_def block_bytes_def block_read_def mem_slice_def split: option.splits)

lemma str_ok_length: "str_ok has p n \<Longrightarrow> length (block_bytes p) = n"
  by (auto simp: str_ok_def block_bytes_def split: option.splits)

lemma str_ok_bound: "str_ok has p n \<Longrightarrow> n < 2 ^ 24"
  by (auto simp: str_ok_def split: option.splits)

text \<open>The value of a struct member after a guarded setter.\<close>
definition pick :: "bool \<Rightarrow> 'a \<Rightarrow> 'a \<Rightarrow> 'a" where
  "pick g new old = (if g then new else old)"

text \<open>What the guarded setters store in a fresh object, seen from each struct member.\<close>
lemma str_ok_store:
  assumes "str_ok has p n"
  shows "has \<Longrightarrow> Some (block_bytes p) = p" "has \<Longrightarrow> 0 < n"
    "pick has (Some (block_bytes p)) None = p" "pick has n 0 = n" "pick has (0 < n) False = has"
  using assms by (auto simp: str_ok_def block_bytes_def pick_def split: option.splits)

lemma num_ok_store: "num_ok has v \<Longrightarrow> pick has v 0 = v"
  by (auto simp: num_ok_def pick_def)

lemma flag_ok_store: "flag_ok has b \<Longrightarrow> pick has b False = b"
  by (auto simp: flag_ok_def pick_def)

section \<open>Fields and cases against each other\<close>

fun count_present :: "enc_field list \<Rightarrow> nat" where
  "count_present [] = 0"
| "count_present ((guard, key, arg) # fs) = of_bool guard + count_present fs"

text \<open>The object after the setters of the present fields; unlike \<open>store_items\<close> it keeps the
  conditions of absent fields inside the object, so that a message with many optional fields is
  evaluated member by member.\<close>
fun field_store :: "(i64 \<times> 'r case_body) list \<Rightarrow> u64 \<Rightarrow> cbor_arg \<Rightarrow> ('r \<Rightarrow> 'r) option" where
  "field_store cases key arg =
     (case map_of cases key of
        Some (CUint setter) \<Rightarrow> (case arg of AUint v \<Rightarrow> Some (setter v) | _ \<Rightarrow> None)
      | Some (CInt setter) \<Rightarrow> (case arg of AInt v \<Rightarrow> Some (setter v) | _ \<Rightarrow> None)
      | Some (CBool setter) \<Rightarrow> (case arg of ABool v \<Rightarrow> Some (setter v) | _ \<Rightarrow> None)
      | Some (CBytes setter) \<Rightarrow> (case arg of ABytes p n \<Rightarrow> Some (setter (Some (block_bytes p)) n)
                                | _ \<Rightarrow> None)
      | Some (CText setter) \<Rightarrow> (case arg of AText p n \<Rightarrow> Some (setter (Some (block_bytes p)) n)
                               | _ \<Rightarrow> None)
      | _ \<Rightarrow> None)"

fun store_fields :: "(i64 \<times> 'r case_body) list \<Rightarrow> enc_field list \<Rightarrow> 'r \<Rightarrow> 'r option" where
  "store_fields cases [] obj = Some obj"
| "store_fields cases ((guard, key, arg) # fs) obj =
     (case field_store cases key arg of None \<Rightarrow> None
      | Some f \<Rightarrow> store_fields cases fs (if guard then f obj else obj))"

text \<open>An upper bound of the encoded length that ignores which fields are present.\<close>
fun arg_size :: "cbor_arg \<Rightarrow> nat" where
  "arg_size (AUint v) = length (number_bytes v MtUnsigned)"
| "arg_size (AInt v) = length (item_bytes (WInt v))"
| "arg_size (ABytes p n) = length (number_bytes (word_of_nat n) MtBytes) + n"
| "arg_size (AText p n) = length (number_bytes (word_of_nat n) MtText) + n"
| "arg_size (ABool b) = 1"

fun fields_bound :: "enc_field list \<Rightarrow> nat" where
  "fields_bound [] = 0"
| "fields_bound ((guard, key, arg) # fs) =
     length (number_bytes key MtUnsigned) + arg_size arg + fields_bound fs"

text \<open>The argument of a string field has the block the size says.\<close>
fun arg_block_ok :: "cbor_arg \<Rightarrow> bool" where
  "arg_block_ok (ABytes p n) = (block_read p n = Ok (block_bytes p) \<and> length (block_bytes p) = n \<and> n < 2 ^ 24)"
| "arg_block_ok (AText p n) = (block_read p n = Ok (block_bytes p) \<and> length (block_bytes p) = n \<and> n < 2 ^ 24)"
| "arg_block_ok _ = True"

fun blocks_ok :: "enc_field list \<Rightarrow> bool" where
  "blocks_ok [] = True"
| "blocks_ok ((guard, key, arg) # fs) = (arg_block_ok arg \<and> blocks_ok fs)"

lemma str_ok_block:
  "str_ok has p n \<Longrightarrow> arg_block_ok (ABytes p n)" "str_ok has p n \<Longrightarrow> arg_block_ok (AText p n)"
  using str_ok_bound [of has p n] by (simp_all add: str_ok_read str_ok_length)

lemma arg_item_block:
  assumes "arg_block_ok arg"
  shows "\<exists>i. arg_item arg = Some i \<and> item_ok i \<and> length (item_bytes i) \<le> arg_size arg"
  using assms by (cases arg) (auto simp: item_ok_def item_bytes_def number_bytes_length)

lemma present_items_blocks:
  assumes "blocks_ok fs"
  shows "\<exists>kvs. present_items fs = Some kvs \<and> kvs_ok kvs \<and> length kvs = count_present fs \<and>
    length kvs \<le> length fs \<and> length (kv_bytes kvs) \<le> fields_bound fs"
  using assms
proof (induction fs)
  case (Cons f fs)
  obtain guard key arg where f: "f = (guard, key, arg)" by (cases f)
  obtain i where i: "arg_item arg = Some i" "item_ok i" "length (item_bytes i) \<le> arg_size arg"
    using arg_item_block [of arg] Cons.prems f by auto
  obtain kvs where kvs: "present_items fs = Some kvs" "kvs_ok kvs" "length kvs = count_present fs"
      "length kvs \<le> length fs" "length (kv_bytes kvs) \<le> fields_bound fs"
    using Cons f by auto
  have "length (item_bytes (WUint key)) = length (number_bytes key MtUnsigned)"
    by (simp add: item_bytes_def)
  then show ?case using i kvs f by (cases guard) auto
qed simp

lemma field_store_body:
  assumes "field_store cases key arg = Some f" "arg_block_ok arg"
  shows "\<exists>body i. map_of cases key = Some body \<and> arg_item arg = Some i \<and>
    body_store body i obj = Some (f obj)"
  using assms
  by (auto split: option.splits case_body.splits cbor_arg.splits)

lemma store_fields_items:
  assumes "store_fields cases fs obj = Some r" "blocks_ok fs" "present_items fs = Some kvs"
  shows "store_items cases kvs obj = Some r"
  using assms
proof (induction fs arbitrary: obj kvs)
  case (Cons f fs)
  obtain guard key arg where f: "f = (guard, key, arg)" by (cases f)
  obtain g where g: "field_store cases key arg = Some g"
    and rest: "store_fields cases fs (if guard then g obj else obj) = Some r"
    using Cons.prems(1) f by (auto simp del: field_store.simps split: option.splits)
  obtain body i where b: "map_of cases key = Some body" "arg_item arg = Some i"
      "body_store body i obj = Some (g obj)"
    using field_store_body [OF g, of obj] Cons.prems(2) f by auto
  show ?case
    using Cons.IH [of "if guard then g obj else obj"] Cons.prems f rest b
    by (cases guard) (auto split: option.splits)
qed simp

section \<open>Sizes of the values\<close>

lemma number_bytes_le:
  "unat v \<le> 0xff \<Longrightarrow> length (number_bytes v m) \<le> 2"
  "unat v \<le> 0xffff \<Longrightarrow> length (number_bytes v m) \<le> 3"
  "unat v \<le> 0xffffffff \<Longrightarrow> length (number_bytes v m) \<le> 5"
  by (simp_all add: number_bytes_length word_le_nat_alt)

lemma unat_ucast_up:
  assumes "LENGTH('a) \<le> LENGTH('b)"
  shows "unat (ucast (v :: 'a::len word) :: 'b::len word) = unat v"
proof -
  have "unat v < 2 ^ LENGTH('a)" using unsigned_less [of v] by simp
  also have "(2 :: nat) ^ LENGTH('a) \<le> 2 ^ LENGTH('b)" using assms by simp
  finally show ?thesis by (simp add: unat_ucast_take_bit take_bit_nat_eq_self)
qed

lemma number_bytes_u8: "length (number_bytes (ucast (v :: u8)) m) \<le> 2"
proof -
  have "unat v < 256" using unsigned_less [of v] by simp
  then show ?thesis by (intro number_bytes_le) (simp add: unat_ucast_up)
qed

lemma number_bytes_u16: "length (number_bytes (ucast (v :: u16)) m) \<le> 3"
proof -
  have "unat v < 65536" using unsigned_less [of v] by simp
  then show ?thesis by (intro number_bytes_le) (simp add: unat_ucast_up)
qed

lemma number_bytes_u32: "length (number_bytes (ucast (v :: u32)) m) \<le> 5"
proof -
  have "unat v < 4294967296" using unsigned_less [of v] by simp
  then show ?thesis by (intro number_bytes_le) (simp add: unat_ucast_up)
qed

lemma number_bytes_size:
  assumes "n < 2 ^ 24"
  shows "length (number_bytes (word_of_nat n) m) \<le> 5"
  using assms
  by (simp add: number_bytes_length word_le_nat_alt unat_of_nat take_bit_nat_eq_self)

lemma number_bytes_literal [codec_simps]:
  "length (number_bytes 0 m) = 1" "length (number_bytes 1 m) = 1"
  "length (number_bytes (numeral k) m) =
     (if (numeral k :: u64) < 24 then 1 else if (numeral k :: u64) \<le> 0xff then 2
      else if (numeral k :: u64) \<le> 0xffff then 3 else if (numeral k :: u64) \<le> 0xffffffff then 5
      else 9)"
  by (simp_all add: number_bytes_length)

lemma item_bytes_i32: "length (item_bytes (WInt (scast (v :: i32)))) \<le> 5"
proof -
  let ?w = "scast v :: i64"
  have r: "- (2 ^ 31) \<le> sint v" "sint v < 2 ^ 31"
    using sint_greater_eq [of v] sint_less [of v] by simp_all
  then have s: "sint ?w = sint v" by (simp add: signed_scast_eq signed_take_bit_int_eq_self)
  have "item_number (WInt ?w) \<le> 0xffffffff"
  proof (cases "?w <s 0")
    case True
    have w: "?w = word_of_int (sint v)" by (simp only: scast_eq)
    have "NOT ?w = - word_of_int (sint v) - 1" by (simp only: not_eq_complement w)
    also have "\<dots> = word_of_int (- 1 - sint v)"
      by (simp only: wi_hom_syms word_of_int_1 [symmetric]) simp
    finally have "uint (NOT ?w) = uint (word_of_int (- 1 - sint v) :: i64)" by (rule arg_cong)
    also have "\<dots> = - 1 - sint v"
      using True r s by (subst uint_word_of_int) (simp add: word_sless_alt)
    finally have "uint (NOT ?w) = - 1 - sint v" .
    then show ?thesis using True r by (simp add: word_le_def)
  next
    case False
    then have "0 \<le> sint v" using s by (simp add: word_sless_alt)
    moreover have "?w = word_of_int (sint v)" by (simp only: scast_eq)
    ultimately have "uint ?w = sint v" using r by (simp only: uint_word_of_int) simp
    then show ?thesis using False r by (simp add: word_le_def)
  qed
  then show ?thesis by (simp add: item_bytes_def number_bytes_length)
qed

lemma unat_of_nat_small: "k < 2 ^ 32 \<Longrightarrow> unat (word_of_nat k :: u32) = k"
  by (simp add: unat_of_nat take_bit_nat_eq_self)

text \<open>The casts of the encoder calls are undone by the casts of the decoder.\<close>
lemma cast_back [codec_simps]:
  "ucast (ucast (a :: u8) :: u64) = a" "ucast (ucast (b :: u16) :: u64) = b"
  "ucast (ucast (c :: u32) :: u64) = c" "ucast (scast (d :: i32) :: i64) = d"
  by (auto intro!: bit_word_eqI simp: bit_simps)

section \<open>The interface\<close>

text \<open>The contract of a codec towards its users: a canonical object is encoded without error into
  every block of \<open>get_max_payload_in_bytes\<close> bytes, the size reported is within that bound, and
  decoding the reported bytes into a fresh object gives the object back.\<close>
definition codec_roundtrip ::
  "('r \<Rightarrow> bytes \<Rightarrow> u32 \<Rightarrow> (nat \<times> bytes \<times> nat option) res) \<Rightarrow>
   (bytes \<Rightarrow> 'r \<Rightarrow> nat \<Rightarrow> (nat \<times> 'r) res) \<Rightarrow> ('r \<Rightarrow> u32) \<Rightarrow> 'r \<Rightarrow> ('r \<Rightarrow> bool) \<Rightarrow> bool" where
  "codec_roundtrip enc dec max_payload fresh ok \<longleftrightarrow>
     (\<forall>r buf len index. ok r \<and> unat (max_payload r) \<le> unat len \<and> unat len \<le> length buf \<longrightarrow>
       (\<exists>buf' n. enc r buf len = Ok (0, buf', Some n) \<and> n \<le> unat (max_payload r) \<and>
          length buf' = length buf \<and> dec (take n buf') fresh index = Ok (0, r)))"

text \<open>The error side of the contract: an object that is not valid is refused with 2007 and the block
  stays as it was; a canonical object is written within the given length or 8000 is returned.\<close>
definition encoder_reports ::
  "('r \<Rightarrow> bytes \<Rightarrow> u32 \<Rightarrow> (nat \<times> bytes \<times> nat option) res) \<Rightarrow> ('r \<Rightarrow> bool) \<Rightarrow> ('r \<Rightarrow> bool) \<Rightarrow> bool" where
  "encoder_reports enc is_valid ok \<longleftrightarrow>
     (\<forall>r buf len. (\<not> is_valid r \<longrightarrow> enc r buf len = Ok (IgSerializerErrorInvalidPayload, buf, None)) \<and>
       (ok r \<and> unat len \<le> length buf \<longrightarrow>
         (\<exists>buf' n. enc r buf len = Ok (0, buf', Some n) \<and> n \<le> unat len) \<or>
         (\<exists>buf'. enc r buf len = Ok (8000, buf', None))))"

text \<open>What the writer of a message relies on: a list of fields with their blocks, and their number.\<close>
locale ig_writer =
  fixes ok :: "'r \<Rightarrow> bool"
    and msg_id :: u64
    and fields_size :: "'r \<Rightarrow> u64"
    and kvs :: "'r \<Rightarrow> enc_field list"
  assumes few: "length (kvs r) < 23"
    and count: "fields_size r = word_of_nat (Suc (count_present (kvs r)))"
    and blocks: "ok r \<Longrightarrow> blocks_ok (kvs r)"
begin

lemma written_items:
  assumes "ok r"
  obtains items where "present_items (kvs r) = Some items" "kvs_ok items"
    "fields_size r = word_of_nat (Suc (length items))" "length items < 23"
    "length (message_bytes ((0, WUint msg_id) # items)) \<le>
       2 + length (number_bytes msg_id MtUnsigned) + fields_bound (kvs r)"
proof -
  obtain items where i: "present_items (kvs r) = Some items" "kvs_ok items"
      "length items = count_present (kvs r)" "length items \<le> length (kvs r)"
      "length (kv_bytes items) \<le> fields_bound (kvs r)"
    using present_items_blocks [OF blocks [OF assms]] by blast
  have n: "length items < 23" using i few [of r] by simp
  have "(word_of_nat (Suc (length items)) :: u64) < 24"
    using n by (simp add: word_less_nat_alt unat_of_nat take_bit_nat_eq_self del: of_nat_Suc)
  then have "length (message_bytes ((0, WUint msg_id) # items)) \<le>
      2 + length (number_bytes msg_id MtUnsigned) + fields_bound (kvs r)"
    using i(5) by (simp add: message_bytes_def item_bytes_def number_bytes_length del: of_nat_Suc)
  then show ?thesis using that i n count by simp
qed

lemma writes:
  assumes "ok r" "unat len \<le> length buf"
    and "2 + length (number_bytes msg_id MtUnsigned) + fields_bound (kvs r) \<le> unat len"
  obtains items where "present_items (kvs r) = Some items" "kvs_ok items" "length items < 23"
    "length (message_bytes ((0, WUint msg_id) # items)) \<le>
       2 + length (number_bytes msg_id MtUnsigned) + fields_bound (kvs r)"
    "ig_encode (fields_size r) msg_id (kvs r) buf len =
       Ok (0, message_bytes ((0, WUint msg_id) # items) @ drop (length (message_bytes ((0, WUint msg_id) # items))) buf,
         Some (length (message_bytes ((0, WUint msg_id) # items))))"
proof -
  obtain items where i: "present_items (kvs r) = Some items" "kvs_ok items"
    "fields_size r = word_of_nat (Suc (length items))" "length items < 23"
    "length (message_bytes ((0, WUint msg_id) # items)) \<le>
       2 + length (number_bytes msg_id MtUnsigned) + fields_bound (kvs r)"
    using written_items [OF assms(1)] by metis
  then show ?thesis
    using that ig_encode_writes(1) [OF i(1,3) _ assms(2), of msg_id] assms(3) by simp
qed

end

text \<open>Writer and reader agree: the cases of the reader store the fields in an object that starts fresh.\<close>
locale ig_fields = ig_writer ok msg_id fields_size kvs
  for ok :: "'r \<Rightarrow> bool"
    and msg_id :: u64
    and fields_size :: "'r \<Rightarrow> u64"
    and kvs :: "'r \<Rightarrow> enc_field list" +
  fixes max_payload :: "'r \<Rightarrow> u32"
    and fresh :: 'r
    and cases :: "(i64 \<times> 'r case_body) list"
  assumes id_case: "map_of cases 0 = Some (CMsgId msg_id)"
    and store: "ok r \<Longrightarrow> store_fields cases (kvs r) fresh = Some r"
    and bound: "ok r \<Longrightarrow>
      2 + length (number_bytes msg_id MtUnsigned) + fields_bound (kvs r) \<le> unat (max_payload r)"
begin

lemma items:
  assumes "ok r"
  obtains items where "present_items (kvs r) = Some items" "kvs_ok items"
    "fields_size r = word_of_nat (Suc (length items))" "length items < 23"
    "store_items cases ((0, WUint msg_id) # items) fresh = Some r"
proof -
  obtain items where i: "present_items (kvs r) = Some items" "kvs_ok items"
    "fields_size r = word_of_nat (Suc (length items))" "length items < 23"
    using written_items [OF assms] by metis
  then show ?thesis
    using that store_fields_items [OF store [OF assms] blocks [OF assms] i(1)] id_case by simp
qed

text \<open>An object is written without error into every block of the size its bound says, and
  reading the bytes reported written into a fresh object gives the object back.\<close>
lemma fields_roundtrip:
  assumes "ok r" "unat (max_payload r) \<le> unat len" "unat len \<le> length buf"
  shows "\<exists>buf' n. ig_encode (fields_size r) msg_id (kvs r) buf len = Ok (0, buf', Some n) \<and>
    n \<le> 2 + length (number_bytes msg_id MtUnsigned) + fields_bound (kvs r) \<and>
    length buf' = length buf \<and> ig_decode cases (take n buf') fresh index = Ok (0, r)"
proof -
  have room: "2 + length (number_bytes msg_id MtUnsigned) + fields_bound (kvs r) \<le> unat len"
    using bound [OF assms(1)] assms(2) by linarith
  obtain items where i: "present_items (kvs r) = Some items" "kvs_ok items" "length items < 23"
    "length (message_bytes ((0, WUint msg_id) # items)) \<le>
       2 + length (number_bytes msg_id MtUnsigned) + fields_bound (kvs r)"
    "ig_encode (fields_size r) msg_id (kvs r) buf len =
       Ok (0, message_bytes ((0, WUint msg_id) # items) @ drop (length (message_bytes ((0, WUint msg_id) # items))) buf,
         Some (length (message_bytes ((0, WUint msg_id) # items))))"
    using writes [OF assms(1,3) room] by metis
  let ?all = "(0, WUint msg_id) # items"
  have "store_items cases ?all fresh = Some r"
    using store_fields_items [OF store [OF assms(1)] blocks [OF assms(1)] i(1)] id_case by simp
  moreover have "kvs_ok ?all" using i(2) by (simp add: item_ok_def)
  ultimately have "ig_decode cases (message_bytes ?all) fresh index = Ok (0, r)"
    using ig_decode_stores [of cases ?all fresh r "[]" index] i(3) by simp
  moreover have "length (message_bytes ?all) \<le> length buf" using i(4) room assms(3) by linarith
  ultimately show ?thesis using i(4,5) by simp
qed

end

locale ig_message = ig_fields ok msg_id fields_size kvs max_payload fresh cases
  for encode :: "'r \<Rightarrow> bytes \<Rightarrow> u32 \<Rightarrow> (nat \<times> bytes \<times> nat option) res"
    and decode :: "bytes \<Rightarrow> 'r \<Rightarrow> nat \<Rightarrow> (nat \<times> 'r) res"
    and max_payload :: "'r \<Rightarrow> u32"
    and is_valid :: "'r \<Rightarrow> bool"
    and fresh :: 'r
    and ok :: "'r \<Rightarrow> bool"
    and msg_id :: u64
    and fields_size :: "'r \<Rightarrow> u64"
    and kvs :: "'r \<Rightarrow> enc_field list"
    and cases :: "(i64 \<times> 'r case_body) list" +
  assumes encode_eq: "encode r buf len =
      (if \<not> is_valid r then Ok (IgSerializerErrorInvalidPayload, buf, None)
       else ig_encode (fields_size r) msg_id (kvs r) buf len)"
    and decode_eq: "decode bs r index = ig_decode cases bs r index"
    and valid: "ok r \<Longrightarrow> is_valid r"
begin

text \<open>A canonical object is encoded without error into every block of
  \<open>get_max_payload_in_bytes\<close> bytes, and decoding the bytes reported written into a fresh object
  gives the object back.\<close>
lemma roundtrip_tight:
  assumes "ok r" "unat (max_payload r) \<le> unat len" "unat len \<le> length buf"
  shows "\<exists>buf' n. encode r buf len = Ok (0, buf', Some n) \<and>
    n \<le> 2 + length (number_bytes msg_id MtUnsigned) + fields_bound (kvs r) \<and>
    length buf' = length buf \<and> decode (take n buf') fresh index = Ok (0, r)"
  using fields_roundtrip [OF assms, of index] valid [OF assms(1)] by (simp add: encode_eq decode_eq)

lemma roundtrip:
  assumes "ok r" "unat (max_payload r) \<le> unat len" "unat len \<le> length buf"
  shows "\<exists>buf' n. encode r buf len = Ok (0, buf', Some n) \<and> n \<le> unat (max_payload r) \<and>
    length buf' = length buf \<and> decode (take n buf') fresh index = Ok (0, r)"
  using roundtrip_tight [OF assms, of index] bound [OF assms(1)] by (meson order_trans)

lemma roundtrip_codec: "codec_roundtrip encode decode max_payload fresh ok"
  unfolding codec_roundtrip_def using roundtrip by blast

lemma invalid: "\<not> is_valid r \<Longrightarrow> encode r buf len = Ok (IgSerializerErrorInvalidPayload, buf, None)"
  by (simp add: encode_eq)

text \<open>A block that is too small is reported, never overrun.\<close>
lemma fits_or_reports:
  assumes "ok r" "unat len \<le> length buf"
  shows "(\<exists>buf' n. encode r buf len = Ok (0, buf', Some n) \<and> n \<le> unat len) \<or>
    (\<exists>buf'. encode r buf len = Ok (8000, buf', None))"
proof -
  obtain items where i: "present_items (kvs r) = Some items"
    "fields_size r = word_of_nat (Suc (length items))" "length items < 23"
    using items [OF assms(1)] by metis
  then have sz: "Suc (length items) < 2 ^ 31" by simp
  show ?thesis
    using ig_encode_writes [OF i(1,2) sz assms(2), of msg_id] valid [OF assms(1)]
    by (cases "length (message_bytes ((0, WUint msg_id) # items)) \<le> unat len")
       (auto simp: encode_eq not_le)
qed

lemma reports: "encoder_reports encode is_valid ok"
  unfolding encoder_reports_def using invalid fits_or_reports by blast

text \<open>Different objects have different encodings.\<close>
lemma injective:
  assumes "ok r" "ok r'" "encode r buf len = Ok (0, b, Some n)" "encode r' buf' len' = Ok (0, b', Some n)"
    and "take n b = take n b'" "unat len \<le> length buf" "unat len' \<le> length buf'"
  shows "r = r'"
proof -
  have dec: "decode (take n b) fresh 0 = Ok (0, r)"
    if k: "ok r" and e: "encode r buf len = Ok (0, b, Some n)" and l: "unat len \<le> length buf" for r b buf len
  proof -
    obtain items where i: "present_items (kvs r) = Some items" "kvs_ok items"
      "fields_size r = word_of_nat (Suc (length items))" "length items < 23"
      "store_items cases ((0, WUint msg_id) # items) fresh = Some r"
      using items [OF k] by metis
    let ?all = "(0, WUint msg_id) # items"
    have "Suc (length items) < 2 ^ 31" using i(4) by simp
    then have "n = length (message_bytes ?all) \<and> take n b = message_bytes ?all"
      using ig_encode_writes [OF i(1,3) _ l, of msg_id] valid [OF k] e
      by (cases "length (message_bytes ?all) \<le> unat len") (auto simp: encode_eq not_le)
    moreover have "ig_decode cases (message_bytes ?all) fresh 0 = Ok (0, r)"
      using ig_decode_stores [OF i(5), of "[]" 0] i(2,4) by (simp add: item_ok_def)
    ultimately show ?thesis by (metis decode_eq)
  qed
  show ?thesis using dec [OF assms(1,3,6)] dec [OF assms(2,4,7)] assms(5) by simp
qed

end

end
