(* ===== verification/Messages_Handshake.thy ===== *)
theory Messages_Handshake
  imports Ig_Interface
begin

text \<open>
  The files of \<open>lock/messages/\<close> for the messages of pairing, of the admin and guest
    handshakes and of unpairing.  Per message \<open>X\<close>: the struct (\<open>IgX\<close>,
      members prefixed
  with the message name), \<open>ig_X_init\<close>, the setters, \<open>ig_X_deinit\<close>,
    \<open>ig_X_is_valid\<close>,
  \<open>ig_X_get_max_payload_in_bytes\<close>, the encoder with its list of key/value writes
  (\<open>ig_X_fields\<close>) and the decoder with its list of cases (\<open>ig_X_cases\<close>). 
    The argument
  \<open>same_ptr\<close> of a string setter is the pointer comparison it starts with; the decoders pass
  \<open>False\<close>, their block is fresh.  \<open>ig_X_ok\<close> describes the objects
    \<open>init\<close> and the setters
  build, and the interpretation of \<open>ig_message\<close> proves the file a codec.
\<close>

subsection \<open>PairingStep1\<close>

record IgPairingStep1 =
  PairingStep1_has_public_key :: bool
  PairingStep1_public_key :: block_ptr
  PairingStep1_public_key_size :: nat

definition ig_PairingStep1_init :: IgPairingStep1 where
  "ig_PairingStep1_init =
     \<lparr>PairingStep1_has_public_key = False,
      PairingStep1_public_key = None,
      PairingStep1_public_key_size = 0\<rparr>"

definition ig_PairingStep1_get_public_key_size :: "IgPairingStep1 \<Rightarrow> nat" where
  "ig_PairingStep1_get_public_key_size obj = PairingStep1_public_key_size obj"

definition ig_PairingStep1_set_public_key_nocopy ::
  "bool \<Rightarrow> block_ptr \<Rightarrow> nat \<Rightarrow> IgPairingStep1 \<Rightarrow>
    IgPairingStep1" where
  "ig_PairingStep1_set_public_key_nocopy same_ptr p n obj =
     (if same_ptr then obj
      else let obj = (if PairingStep1_has_public_key obj then obj\<lparr>PairingStep1_public_key :=
        None\<rparr> else obj)
        in obj\<lparr>PairingStep1_public_key := p, PairingStep1_public_key_size := n,
          PairingStep1_has_public_key := n > 0\<rparr>)"

definition ig_PairingStep1_set_public_key ::
  "bool \<Rightarrow> block_ptr \<Rightarrow> nat \<Rightarrow> IgPairingStep1 \<Rightarrow>
    IgPairingStep1 res" where
  "ig_PairingStep1_set_public_key same_ptr p n obj =
     (if same_ptr then Ok obj
      else let obj = (if PairingStep1_has_public_key obj then obj\<lparr>PairingStep1_public_key :=
        None\<rparr> else obj)
        in bindR (block_read p n) (\<lambda>d.
          Ok (obj\<lparr>PairingStep1_public_key := Some d, PairingStep1_public_key_size := n,
            PairingStep1_has_public_key := n > 0\<rparr>)))"

definition ig_PairingStep1_deinit :: "IgPairingStep1 \<Rightarrow> IgPairingStep1" where
  "ig_PairingStep1_deinit obj = (let
     obj = (if PairingStep1_has_public_key obj then obj\<lparr>PairingStep1_public_key :=
       None\<rparr> else obj)
   in obj)"

definition ig_PairingStep1_is_valid :: "IgPairingStep1 \<Rightarrow> bool" where
  "ig_PairingStep1_is_valid obj \<longleftrightarrow> PairingStep1_has_public_key obj"

definition ig_PairingStep1_get_max_payload_in_bytes :: "IgPairingStep1 \<Rightarrow> u32" where
  "ig_PairingStep1_get_max_payload_in_bytes obj = word_of_nat (20 + PairingStep1_public_key_size obj)"

definition ig_PairingStep1_fields_size :: "IgPairingStep1 \<Rightarrow> u64" where
  "ig_PairingStep1_fields_size obj = 1 + 1"

definition ig_PairingStep1_fields :: "IgPairingStep1 \<Rightarrow> enc_field list" where
  "ig_PairingStep1_fields obj =
    [(True, 11, ABytes (PairingStep1_public_key obj) (PairingStep1_public_key_size obj))]"

definition ig_PairingStep1_encode ::
  "IgPairingStep1 \<Rightarrow> bytes \<Rightarrow> u32 \<Rightarrow> (nat \<times> bytes \<times>
    nat option) res" where
  "ig_PairingStep1_encode obj retval len =
     (if \<not> ig_PairingStep1_is_valid obj then Ok (IgSerializerErrorInvalidPayload, retval, None)
      else ig_encode (ig_PairingStep1_fields_size obj) 1 (ig_PairingStep1_fields obj) retval len)"

definition ig_PairingStep1_cases :: "(i64 \<times> IgPairingStep1 case_body) list" where
  "ig_PairingStep1_cases =
    [(0, CMsgId 1),
     (11, CBytes (ig_PairingStep1_set_public_key_nocopy False))]"

definition ig_PairingStep1_decode :: "bytes \<Rightarrow> IgPairingStep1 \<Rightarrow> nat
  \<Rightarrow> (nat \<times> IgPairingStep1) res" where
  "ig_PairingStep1_decode buf obj index = ig_decode ig_PairingStep1_cases buf obj index"

definition ig_PairingStep1_ok :: "IgPairingStep1 \<Rightarrow> bool" where
  "ig_PairingStep1_ok obj \<longleftrightarrow> ig_PairingStep1_is_valid obj \<and>
     str_ok (PairingStep1_has_public_key obj) (PairingStep1_public_key obj)
       (PairingStep1_public_key_size obj)"

lemmas ig_PairingStep1_setters =
  ig_PairingStep1_set_public_key_nocopy_def

lemma ig_PairingStep1_store:
  assumes ok: "ig_PairingStep1_ok obj"
  shows "store_fields ig_PairingStep1_cases (ig_PairingStep1_fields obj) ig_PairingStep1_init = Some obj"
proof -
  have h: "str_ok (PairingStep1_has_public_key obj) (PairingStep1_public_key obj)
    (PairingStep1_public_key_size obj)"
    and valid: "ig_PairingStep1_is_valid obj"
    using ok by (simp_all add: ig_PairingStep1_ok_def)
  show ?thesis
    using valid
    by (simp add: ig_PairingStep1_fields_def ig_PairingStep1_cases_def ig_PairingStep1_init_def codec_simps
        ig_PairingStep1_setters split del: if_split)
       (simp add: ig_PairingStep1_is_valid_def
         str_ok_store [OF h(1)])
qed

lemma ig_PairingStep1_bound:
  assumes "ig_PairingStep1_ok obj"
  shows "2 + length (number_bytes 1 MtUnsigned) + fields_bound (ig_PairingStep1_fields obj)
    \<le> unat (ig_PairingStep1_get_max_payload_in_bytes obj)"
proof -
  have sizes: "PairingStep1_public_key_size obj < 2 ^ 24"
    using assms by (auto simp: ig_PairingStep1_ok_def dest!: str_ok_bound)
  show ?thesis
    using sizes number_bytes_size [of "PairingStep1_public_key_size obj" "0x40"]
    by (simp add: ig_PairingStep1_fields_def ig_PairingStep1_get_max_payload_in_bytes_def number_bytes_literal
        unat_of_nat_small del: of_nat_add)
qed

interpretation PairingStep1_codec: ig_message ig_PairingStep1_encode ig_PairingStep1_decode
  ig_PairingStep1_get_max_payload_in_bytes ig_PairingStep1_is_valid ig_PairingStep1_init ig_PairingStep1_ok 1
  ig_PairingStep1_fields_size ig_PairingStep1_fields ig_PairingStep1_cases
  by (unfold_locales;
      (rule ig_PairingStep1_encode_def ig_PairingStep1_decode_def | erule ig_PairingStep1_store
        ig_PairingStep1_bound |
       auto simp: ig_PairingStep1_cases_def ig_PairingStep1_fields_def
         ig_PairingStep1_fields_size_def ig_PairingStep1_ok_def
         simp del: arg_block_ok.simps(1,2) intro: str_ok_block))

subsection \<open>PairingStep2\<close>

record IgPairingStep2 =
  PairingStep2_has_public_key :: bool
  PairingStep2_public_key :: block_ptr
  PairingStep2_public_key_size :: nat
  PairingStep2_has_nonce :: bool
  PairingStep2_nonce :: block_ptr
  PairingStep2_nonce_size :: nat

definition ig_PairingStep2_init :: IgPairingStep2 where
  "ig_PairingStep2_init =
     \<lparr>PairingStep2_has_public_key = False,
      PairingStep2_public_key = None,
      PairingStep2_public_key_size = 0,
      PairingStep2_has_nonce = False,
      PairingStep2_nonce = None,
      PairingStep2_nonce_size = 0\<rparr>"

definition ig_PairingStep2_get_public_key_size :: "IgPairingStep2 \<Rightarrow> nat" where
  "ig_PairingStep2_get_public_key_size obj = PairingStep2_public_key_size obj"

definition ig_PairingStep2_set_public_key_nocopy ::
  "bool \<Rightarrow> block_ptr \<Rightarrow> nat \<Rightarrow> IgPairingStep2 \<Rightarrow>
    IgPairingStep2" where
  "ig_PairingStep2_set_public_key_nocopy same_ptr p n obj =
     (if same_ptr then obj
      else let obj = (if PairingStep2_has_public_key obj then obj\<lparr>PairingStep2_public_key :=
        None\<rparr> else obj)
        in obj\<lparr>PairingStep2_public_key := p, PairingStep2_public_key_size := n,
          PairingStep2_has_public_key := n > 0\<rparr>)"

definition ig_PairingStep2_set_public_key ::
  "bool \<Rightarrow> block_ptr \<Rightarrow> nat \<Rightarrow> IgPairingStep2 \<Rightarrow>
    IgPairingStep2 res" where
  "ig_PairingStep2_set_public_key same_ptr p n obj =
     (if same_ptr then Ok obj
      else let obj = (if PairingStep2_has_public_key obj then obj\<lparr>PairingStep2_public_key :=
        None\<rparr> else obj)
        in bindR (block_read p n) (\<lambda>d.
          Ok (obj\<lparr>PairingStep2_public_key := Some d, PairingStep2_public_key_size := n,
            PairingStep2_has_public_key := n > 0\<rparr>)))"

definition ig_PairingStep2_get_nonce_size :: "IgPairingStep2 \<Rightarrow> nat" where
  "ig_PairingStep2_get_nonce_size obj = PairingStep2_nonce_size obj"

definition ig_PairingStep2_set_nonce_nocopy ::
  "bool \<Rightarrow> block_ptr \<Rightarrow> nat \<Rightarrow> IgPairingStep2 \<Rightarrow>
    IgPairingStep2" where
  "ig_PairingStep2_set_nonce_nocopy same_ptr p n obj =
     (if same_ptr then obj
      else let obj = (if PairingStep2_has_nonce obj then obj\<lparr>PairingStep2_nonce :=
        None\<rparr> else obj)
        in obj\<lparr>PairingStep2_nonce := p, PairingStep2_nonce_size := n, PairingStep2_has_nonce
          := n > 0\<rparr>)"

definition ig_PairingStep2_set_nonce ::
  "bool \<Rightarrow> block_ptr \<Rightarrow> nat \<Rightarrow> IgPairingStep2 \<Rightarrow>
    IgPairingStep2 res" where
  "ig_PairingStep2_set_nonce same_ptr p n obj =
     (if same_ptr then Ok obj
      else let obj = (if PairingStep2_has_nonce obj then obj\<lparr>PairingStep2_nonce :=
        None\<rparr> else obj)
        in bindR (block_read p n) (\<lambda>d.
          Ok (obj\<lparr>PairingStep2_nonce := Some d, PairingStep2_nonce_size := n,
            PairingStep2_has_nonce := n > 0\<rparr>)))"

definition ig_PairingStep2_deinit :: "IgPairingStep2 \<Rightarrow> IgPairingStep2" where
  "ig_PairingStep2_deinit obj = (let
     obj = (if PairingStep2_has_public_key obj then obj\<lparr>PairingStep2_public_key :=
       None\<rparr> else obj);
     obj = (if PairingStep2_has_nonce obj then obj\<lparr>PairingStep2_nonce := None\<rparr> else obj)
   in obj)"

definition ig_PairingStep2_is_valid :: "IgPairingStep2 \<Rightarrow> bool" where
  "ig_PairingStep2_is_valid obj \<longleftrightarrow> PairingStep2_has_public_key obj \<and>
    PairingStep2_has_nonce obj"

definition ig_PairingStep2_get_max_payload_in_bytes :: "IgPairingStep2 \<Rightarrow> u32" where
  "ig_PairingStep2_get_max_payload_in_bytes obj = word_of_nat (27 + PairingStep2_public_key_size
    obj + PairingStep2_nonce_size obj)"

definition ig_PairingStep2_fields_size :: "IgPairingStep2 \<Rightarrow> u64" where
  "ig_PairingStep2_fields_size obj = 1 + 2"

definition ig_PairingStep2_fields :: "IgPairingStep2 \<Rightarrow> enc_field list" where
  "ig_PairingStep2_fields obj =
    [(True, 11, ABytes (PairingStep2_public_key obj) (PairingStep2_public_key_size obj)),
     (True, 12, ABytes (PairingStep2_nonce obj) (PairingStep2_nonce_size obj))]"

definition ig_PairingStep2_encode ::
  "IgPairingStep2 \<Rightarrow> bytes \<Rightarrow> u32 \<Rightarrow> (nat \<times> bytes \<times>
    nat option) res" where
  "ig_PairingStep2_encode obj retval len =
     (if \<not> ig_PairingStep2_is_valid obj then Ok (IgSerializerErrorInvalidPayload, retval, None)
      else ig_encode (ig_PairingStep2_fields_size obj) 2 (ig_PairingStep2_fields obj) retval len)"

definition ig_PairingStep2_cases :: "(i64 \<times> IgPairingStep2 case_body) list" where
  "ig_PairingStep2_cases =
    [(0, CMsgId 2),
     (11, CBytes (ig_PairingStep2_set_public_key_nocopy False)),
     (12, CBytes (ig_PairingStep2_set_nonce_nocopy False))]"

definition ig_PairingStep2_decode :: "bytes \<Rightarrow> IgPairingStep2 \<Rightarrow> nat
  \<Rightarrow> (nat \<times> IgPairingStep2) res" where
  "ig_PairingStep2_decode buf obj index = ig_decode ig_PairingStep2_cases buf obj index"

definition ig_PairingStep2_ok :: "IgPairingStep2 \<Rightarrow> bool" where
  "ig_PairingStep2_ok obj \<longleftrightarrow> ig_PairingStep2_is_valid obj \<and>
     str_ok (PairingStep2_has_public_key obj) (PairingStep2_public_key obj)
       (PairingStep2_public_key_size obj) \<and>
     str_ok (PairingStep2_has_nonce obj) (PairingStep2_nonce obj) (PairingStep2_nonce_size obj)"

lemmas ig_PairingStep2_setters =
  ig_PairingStep2_set_nonce_nocopy_def
  ig_PairingStep2_set_public_key_nocopy_def

lemma ig_PairingStep2_store:
  assumes ok: "ig_PairingStep2_ok obj"
  shows "store_fields ig_PairingStep2_cases (ig_PairingStep2_fields obj) ig_PairingStep2_init = Some obj"
proof -
  have h: "str_ok (PairingStep2_has_public_key obj) (PairingStep2_public_key obj)
    (PairingStep2_public_key_size obj)"
    "str_ok (PairingStep2_has_nonce obj) (PairingStep2_nonce obj) (PairingStep2_nonce_size obj)"
    and valid: "ig_PairingStep2_is_valid obj"
    using ok by (simp_all add: ig_PairingStep2_ok_def)
  show ?thesis
    using valid
    by (simp add: ig_PairingStep2_fields_def ig_PairingStep2_cases_def ig_PairingStep2_init_def codec_simps
        ig_PairingStep2_setters split del: if_split)
       (simp add: ig_PairingStep2_is_valid_def
         str_ok_store [OF h(1)]
         str_ok_store [OF h(2)])
qed

lemma ig_PairingStep2_bound:
  assumes "ig_PairingStep2_ok obj"
  shows "2 + length (number_bytes 2 MtUnsigned) + fields_bound (ig_PairingStep2_fields obj)
    \<le> unat (ig_PairingStep2_get_max_payload_in_bytes obj)"
proof -
  have sizes: "PairingStep2_public_key_size obj < 2 ^ 24" "PairingStep2_nonce_size obj < 2 ^ 24"
    using assms by (auto simp: ig_PairingStep2_ok_def dest!: str_ok_bound)
  show ?thesis
    using sizes number_bytes_size [of "PairingStep2_public_key_size obj" "0x40"]
      number_bytes_size [of "PairingStep2_nonce_size obj" "0x40"]
    by (simp add: ig_PairingStep2_fields_def ig_PairingStep2_get_max_payload_in_bytes_def number_bytes_literal
        unat_of_nat_small del: of_nat_add)
qed

interpretation PairingStep2_codec: ig_message ig_PairingStep2_encode ig_PairingStep2_decode
  ig_PairingStep2_get_max_payload_in_bytes ig_PairingStep2_is_valid ig_PairingStep2_init ig_PairingStep2_ok 2
  ig_PairingStep2_fields_size ig_PairingStep2_fields ig_PairingStep2_cases
  by (unfold_locales;
      (rule ig_PairingStep2_encode_def ig_PairingStep2_decode_def | erule ig_PairingStep2_store
        ig_PairingStep2_bound |
       auto simp: ig_PairingStep2_cases_def ig_PairingStep2_fields_def
         ig_PairingStep2_fields_size_def ig_PairingStep2_ok_def
         simp del: arg_block_ok.simps(1,2) intro: str_ok_block))

subsection \<open>PairingStep3\<close>

record IgPairingStep3 =
  PairingStep3_has_nonce :: bool
  PairingStep3_nonce :: block_ptr
  PairingStep3_nonce_size :: nat
  PairingStep3_has_master_pin :: bool
  PairingStep3_master_pin :: block_ptr
  PairingStep3_master_pin_size :: nat
  PairingStep3_has_pin_key :: bool
  PairingStep3_pin_key :: block_ptr
  PairingStep3_pin_key_size :: nat
  PairingStep3_has_gmt_offset :: bool
  PairingStep3_gmt_offset :: i32
  PairingStep3_has_dst_times :: bool
  PairingStep3_dst_times :: block_ptr
  PairingStep3_dst_times_size :: nat
  PairingStep3_has_password :: bool
  PairingStep3_password :: block_ptr
  PairingStep3_password_size :: nat

definition ig_PairingStep3_init :: IgPairingStep3 where
  "ig_PairingStep3_init =
     \<lparr>PairingStep3_has_nonce = False,
      PairingStep3_nonce = None,
      PairingStep3_nonce_size = 0,
      PairingStep3_has_master_pin = False,
      PairingStep3_master_pin = None,
      PairingStep3_master_pin_size = 0,
      PairingStep3_has_pin_key = False,
      PairingStep3_pin_key = None,
      PairingStep3_pin_key_size = 0,
      PairingStep3_has_gmt_offset = False,
      PairingStep3_gmt_offset = 0,
      PairingStep3_has_dst_times = False,
      PairingStep3_dst_times = None,
      PairingStep3_dst_times_size = 0,
      PairingStep3_has_password = False,
      PairingStep3_password = None,
      PairingStep3_password_size = 0\<rparr>"

definition ig_PairingStep3_get_nonce_size :: "IgPairingStep3 \<Rightarrow> nat" where
  "ig_PairingStep3_get_nonce_size obj = PairingStep3_nonce_size obj"

definition ig_PairingStep3_set_nonce_nocopy ::
  "bool \<Rightarrow> block_ptr \<Rightarrow> nat \<Rightarrow> IgPairingStep3 \<Rightarrow>
    IgPairingStep3" where
  "ig_PairingStep3_set_nonce_nocopy same_ptr p n obj =
     (if same_ptr then obj
      else let obj = (if PairingStep3_has_nonce obj then obj\<lparr>PairingStep3_nonce :=
        None\<rparr> else obj)
        in obj\<lparr>PairingStep3_nonce := p, PairingStep3_nonce_size := n, PairingStep3_has_nonce
          := n > 0\<rparr>)"

definition ig_PairingStep3_set_nonce ::
  "bool \<Rightarrow> block_ptr \<Rightarrow> nat \<Rightarrow> IgPairingStep3 \<Rightarrow>
    IgPairingStep3 res" where
  "ig_PairingStep3_set_nonce same_ptr p n obj =
     (if same_ptr then Ok obj
      else let obj = (if PairingStep3_has_nonce obj then obj\<lparr>PairingStep3_nonce :=
        None\<rparr> else obj)
        in bindR (block_read p n) (\<lambda>d.
          Ok (obj\<lparr>PairingStep3_nonce := Some d, PairingStep3_nonce_size := n,
            PairingStep3_has_nonce := n > 0\<rparr>)))"

definition ig_PairingStep3_get_master_pin_size :: "IgPairingStep3 \<Rightarrow> nat" where
  "ig_PairingStep3_get_master_pin_size obj = PairingStep3_master_pin_size obj"

definition ig_PairingStep3_set_master_pin_nocopy ::
  "bool \<Rightarrow> block_ptr \<Rightarrow> nat \<Rightarrow> IgPairingStep3 \<Rightarrow>
    IgPairingStep3" where
  "ig_PairingStep3_set_master_pin_nocopy same_ptr p n obj =
     (if same_ptr then obj
      else let obj = (if PairingStep3_has_master_pin obj then obj\<lparr>PairingStep3_master_pin :=
        None\<rparr> else obj)
        in obj\<lparr>PairingStep3_master_pin := p, PairingStep3_master_pin_size := n,
          PairingStep3_has_master_pin := n > 0\<rparr>)"

definition ig_PairingStep3_set_master_pin ::
  "bool \<Rightarrow> block_ptr \<Rightarrow> nat \<Rightarrow> IgPairingStep3 \<Rightarrow>
    IgPairingStep3 res" where
  "ig_PairingStep3_set_master_pin same_ptr p n obj =
     (if same_ptr then Ok obj
      else let obj = (if PairingStep3_has_master_pin obj then obj\<lparr>PairingStep3_master_pin :=
        None\<rparr> else obj)
        in bindR (block_read p n) (\<lambda>d.
          Ok (obj\<lparr>PairingStep3_master_pin := Some d, PairingStep3_master_pin_size := n,
            PairingStep3_has_master_pin := n > 0\<rparr>)))"

definition ig_PairingStep3_get_pin_key_size :: "IgPairingStep3 \<Rightarrow> nat" where
  "ig_PairingStep3_get_pin_key_size obj = PairingStep3_pin_key_size obj"

definition ig_PairingStep3_set_pin_key_nocopy ::
  "bool \<Rightarrow> block_ptr \<Rightarrow> nat \<Rightarrow> IgPairingStep3 \<Rightarrow>
    IgPairingStep3" where
  "ig_PairingStep3_set_pin_key_nocopy same_ptr p n obj =
     (if same_ptr then obj
      else let obj = (if PairingStep3_has_pin_key obj then obj\<lparr>PairingStep3_pin_key :=
        None\<rparr> else obj)
        in obj\<lparr>PairingStep3_pin_key := p, PairingStep3_pin_key_size := n,
          PairingStep3_has_pin_key := n > 0\<rparr>)"

definition ig_PairingStep3_set_pin_key ::
  "bool \<Rightarrow> block_ptr \<Rightarrow> nat \<Rightarrow> IgPairingStep3 \<Rightarrow>
    IgPairingStep3 res" where
  "ig_PairingStep3_set_pin_key same_ptr p n obj =
     (if same_ptr then Ok obj
      else let obj = (if PairingStep3_has_pin_key obj then obj\<lparr>PairingStep3_pin_key :=
        None\<rparr> else obj)
        in bindR (block_read p n) (\<lambda>d.
          Ok (obj\<lparr>PairingStep3_pin_key := Some d, PairingStep3_pin_key_size := n,
            PairingStep3_has_pin_key := n > 0\<rparr>)))"

definition ig_PairingStep3_set_gmt_offset :: "i32 \<Rightarrow> IgPairingStep3 \<Rightarrow>
  IgPairingStep3" where
  "ig_PairingStep3_set_gmt_offset v obj = obj\<lparr>PairingStep3_gmt_offset := v,
    PairingStep3_has_gmt_offset := True\<rparr>"

definition ig_PairingStep3_get_dst_times_size :: "IgPairingStep3 \<Rightarrow> nat" where
  "ig_PairingStep3_get_dst_times_size obj = PairingStep3_dst_times_size obj"

definition ig_PairingStep3_set_dst_times_nocopy ::
  "bool \<Rightarrow> block_ptr \<Rightarrow> nat \<Rightarrow> IgPairingStep3 \<Rightarrow>
    IgPairingStep3" where
  "ig_PairingStep3_set_dst_times_nocopy same_ptr p n obj =
     (if same_ptr then obj
      else let obj = (if PairingStep3_has_dst_times obj then obj\<lparr>PairingStep3_dst_times :=
        None\<rparr> else obj)
        in obj\<lparr>PairingStep3_dst_times := p, PairingStep3_dst_times_size := n,
          PairingStep3_has_dst_times := n > 0\<rparr>)"

definition ig_PairingStep3_set_dst_times ::
  "bool \<Rightarrow> block_ptr \<Rightarrow> nat \<Rightarrow> IgPairingStep3 \<Rightarrow>
    IgPairingStep3 res" where
  "ig_PairingStep3_set_dst_times same_ptr p n obj =
     (if same_ptr then Ok obj
      else let obj = (if PairingStep3_has_dst_times obj then obj\<lparr>PairingStep3_dst_times :=
        None\<rparr> else obj)
        in bindR (block_read p n) (\<lambda>d.
          Ok (obj\<lparr>PairingStep3_dst_times := Some d, PairingStep3_dst_times_size := n,
            PairingStep3_has_dst_times := n > 0\<rparr>)))"

definition ig_PairingStep3_get_password_size :: "IgPairingStep3 \<Rightarrow> nat" where
  "ig_PairingStep3_get_password_size obj = PairingStep3_password_size obj"

definition ig_PairingStep3_set_password_nocopy ::
  "bool \<Rightarrow> block_ptr \<Rightarrow> nat \<Rightarrow> IgPairingStep3 \<Rightarrow>
    IgPairingStep3" where
  "ig_PairingStep3_set_password_nocopy same_ptr p n obj =
     (if same_ptr then obj
      else let obj = (if PairingStep3_has_password obj then obj\<lparr>PairingStep3_password :=
        None\<rparr> else obj)
        in obj\<lparr>PairingStep3_password := p, PairingStep3_password_size := n,
          PairingStep3_has_password := n > 0\<rparr>)"

definition ig_PairingStep3_set_password ::
  "bool \<Rightarrow> block_ptr \<Rightarrow> nat \<Rightarrow> IgPairingStep3 \<Rightarrow>
    IgPairingStep3 res" where
  "ig_PairingStep3_set_password same_ptr p n obj =
     (if same_ptr then Ok obj
      else let obj = (if PairingStep3_has_password obj then obj\<lparr>PairingStep3_password :=
        None\<rparr> else obj)
        in bindR (block_read p n) (\<lambda>d.
          Ok (obj\<lparr>PairingStep3_password := Some d, PairingStep3_password_size := n,
            PairingStep3_has_password := n > 0\<rparr>)))"

definition ig_PairingStep3_deinit :: "IgPairingStep3 \<Rightarrow> IgPairingStep3" where
  "ig_PairingStep3_deinit obj = (let
     obj = (if PairingStep3_has_nonce obj then obj\<lparr>PairingStep3_nonce := None\<rparr> else obj);
     obj = (if PairingStep3_has_master_pin obj then obj\<lparr>PairingStep3_master_pin :=
       None\<rparr> else obj);
     obj = (if PairingStep3_has_pin_key obj then obj\<lparr>PairingStep3_pin_key := None\<rparr> else obj);
     obj = (if PairingStep3_has_dst_times obj then obj\<lparr>PairingStep3_dst_times :=
       None\<rparr> else obj);
     obj = (if PairingStep3_has_password obj then obj\<lparr>PairingStep3_password := None\<rparr> else obj)
   in obj)"

definition ig_PairingStep3_is_valid :: "IgPairingStep3 \<Rightarrow> bool" where
  "ig_PairingStep3_is_valid obj \<longleftrightarrow> PairingStep3_has_nonce obj"

definition ig_PairingStep3_get_max_payload_in_bytes :: "IgPairingStep3 \<Rightarrow> u32" where
  "ig_PairingStep3_get_max_payload_in_bytes obj = word_of_nat (54 + PairingStep3_nonce_size obj +
    PairingStep3_master_pin_size obj + PairingStep3_pin_key_size obj + PairingStep3_dst_times_size
      obj + PairingStep3_password_size obj)"

definition ig_PairingStep3_fields_size :: "IgPairingStep3 \<Rightarrow> u64" where
  "ig_PairingStep3_fields_size obj = 1 + 1 + of_bool (PairingStep3_has_master_pin obj) + of_bool
    (PairingStep3_has_pin_key obj) + of_bool (PairingStep3_has_gmt_offset obj) + of_bool
      (PairingStep3_has_dst_times obj) + of_bool (PairingStep3_has_password obj)"

definition ig_PairingStep3_fields :: "IgPairingStep3 \<Rightarrow> enc_field list" where
  "ig_PairingStep3_fields obj =
    [(True, 11, ABytes (PairingStep3_nonce obj) (PairingStep3_nonce_size obj)),
     (PairingStep3_has_master_pin obj, 13, ABytes (PairingStep3_master_pin obj)
       (PairingStep3_master_pin_size obj)),
     (PairingStep3_has_pin_key obj, 14, ABytes (PairingStep3_pin_key obj) (PairingStep3_pin_key_size obj)),
     (PairingStep3_has_gmt_offset obj, 15, AInt (scast (PairingStep3_gmt_offset obj))),
     (PairingStep3_has_dst_times obj, 16, ABytes (PairingStep3_dst_times obj)
       (PairingStep3_dst_times_size obj)),
     (PairingStep3_has_password obj, 17, ABytes (PairingStep3_password obj)
       (PairingStep3_password_size obj))]"

definition ig_PairingStep3_encode ::
  "IgPairingStep3 \<Rightarrow> bytes \<Rightarrow> u32 \<Rightarrow> (nat \<times> bytes \<times>
    nat option) res" where
  "ig_PairingStep3_encode obj retval len =
     (if \<not> ig_PairingStep3_is_valid obj then Ok (IgSerializerErrorInvalidPayload, retval, None)
      else ig_encode (ig_PairingStep3_fields_size obj) 3 (ig_PairingStep3_fields obj) retval len)"

definition ig_PairingStep3_cases :: "(i64 \<times> IgPairingStep3 case_body) list" where
  "ig_PairingStep3_cases =
    [(0, CMsgId 3),
     (11, CBytes (ig_PairingStep3_set_nonce_nocopy False)),
     (13, CBytes (ig_PairingStep3_set_master_pin_nocopy False)),
     (14, CBytes (ig_PairingStep3_set_pin_key_nocopy False)),
     (15, CInt (\<lambda>v. ig_PairingStep3_set_gmt_offset (ucast v))),
     (16, CBytes (ig_PairingStep3_set_dst_times_nocopy False)),
     (17, CBytes (ig_PairingStep3_set_password_nocopy False))]"

definition ig_PairingStep3_decode :: "bytes \<Rightarrow> IgPairingStep3 \<Rightarrow> nat
  \<Rightarrow> (nat \<times> IgPairingStep3) res" where
  "ig_PairingStep3_decode buf obj index = ig_decode ig_PairingStep3_cases buf obj index"

definition ig_PairingStep3_ok :: "IgPairingStep3 \<Rightarrow> bool" where
  "ig_PairingStep3_ok obj \<longleftrightarrow> ig_PairingStep3_is_valid obj \<and>
     str_ok (PairingStep3_has_nonce obj) (PairingStep3_nonce obj) (PairingStep3_nonce_size obj) \<and>
     str_ok (PairingStep3_has_master_pin obj) (PairingStep3_master_pin obj)
       (PairingStep3_master_pin_size obj) \<and>
     str_ok (PairingStep3_has_pin_key obj) (PairingStep3_pin_key obj) (PairingStep3_pin_key_size obj) \<and>
     num_ok (PairingStep3_has_gmt_offset obj) (PairingStep3_gmt_offset obj) \<and>
     str_ok (PairingStep3_has_dst_times obj) (PairingStep3_dst_times obj)
       (PairingStep3_dst_times_size obj) \<and>
     str_ok (PairingStep3_has_password obj) (PairingStep3_password obj) (PairingStep3_password_size obj)"

lemmas ig_PairingStep3_setters =
  ig_PairingStep3_set_dst_times_nocopy_def
  ig_PairingStep3_set_gmt_offset_def
  ig_PairingStep3_set_master_pin_nocopy_def
  ig_PairingStep3_set_nonce_nocopy_def
  ig_PairingStep3_set_password_nocopy_def
  ig_PairingStep3_set_pin_key_nocopy_def

text \<open>A guarded setter, member by member.\<close>
lemma ig_PairingStep3_set_if:
  "(if g then ig_PairingStep3_set_master_pin_nocopy False p n obj else obj) =
     obj\<lparr>PairingStep3_master_pin := pick g p (PairingStep3_master_pin obj),
       PairingStep3_master_pin_size := pick g n (PairingStep3_master_pin_size obj),
       PairingStep3_has_master_pin := pick g (n > 0) (PairingStep3_has_master_pin obj)\<rparr>"
  "(if g then ig_PairingStep3_set_pin_key_nocopy False p n obj else obj) =
     obj\<lparr>PairingStep3_pin_key := pick g p (PairingStep3_pin_key obj),
       PairingStep3_pin_key_size := pick g n (PairingStep3_pin_key_size obj),
       PairingStep3_has_pin_key := pick g (n > 0) (PairingStep3_has_pin_key obj)\<rparr>"
  "(if g then ig_PairingStep3_set_gmt_offset v2 obj else obj) =
     obj\<lparr>PairingStep3_gmt_offset := pick g v2 (PairingStep3_gmt_offset obj),
       PairingStep3_has_gmt_offset := g \<or> PairingStep3_has_gmt_offset obj\<rparr>"
  "(if g then ig_PairingStep3_set_dst_times_nocopy False p n obj else obj) =
     obj\<lparr>PairingStep3_dst_times := pick g p (PairingStep3_dst_times obj),
       PairingStep3_dst_times_size := pick g n (PairingStep3_dst_times_size obj),
       PairingStep3_has_dst_times := pick g (n > 0) (PairingStep3_has_dst_times obj)\<rparr>"
  "(if g then ig_PairingStep3_set_password_nocopy False p n obj else obj) =
     obj\<lparr>PairingStep3_password := pick g p (PairingStep3_password obj),
       PairingStep3_password_size := pick g n (PairingStep3_password_size obj),
       PairingStep3_has_password := pick g (n > 0) (PairingStep3_has_password obj)\<rparr>"
  by (simp_all add: ig_PairingStep3_setters pick_def)

lemma ig_PairingStep3_store:
  assumes ok: "ig_PairingStep3_ok obj"
  shows "store_fields ig_PairingStep3_cases (ig_PairingStep3_fields obj) ig_PairingStep3_init = Some obj"
proof -
  have h: "str_ok (PairingStep3_has_nonce obj) (PairingStep3_nonce obj) (PairingStep3_nonce_size obj)"
    "str_ok (PairingStep3_has_master_pin obj) (PairingStep3_master_pin obj)
      (PairingStep3_master_pin_size obj)"
    "str_ok (PairingStep3_has_pin_key obj) (PairingStep3_pin_key obj) (PairingStep3_pin_key_size obj)"
    "num_ok (PairingStep3_has_gmt_offset obj) (PairingStep3_gmt_offset obj)"
    "str_ok (PairingStep3_has_dst_times obj) (PairingStep3_dst_times obj) (PairingStep3_dst_times_size obj)"
    "str_ok (PairingStep3_has_password obj) (PairingStep3_password obj) (PairingStep3_password_size obj)"
    and valid: "ig_PairingStep3_is_valid obj"
    using ok by (simp_all add: ig_PairingStep3_ok_def)
  show ?thesis
    using valid
    by (simp add: ig_PairingStep3_fields_def ig_PairingStep3_cases_def ig_PairingStep3_init_def codec_simps
        ig_PairingStep3_set_if ig_PairingStep3_setters split del: if_split)
       (simp add: ig_PairingStep3_is_valid_def
         str_ok_store [OF h(1)]
         str_ok_store [OF h(2)]
         str_ok_store [OF h(3)]
         num_ok_store [OF h(4)]
         str_ok_store [OF h(5)]
         str_ok_store [OF h(6)])
qed

lemma ig_PairingStep3_bound:
  assumes "ig_PairingStep3_ok obj"
  shows "2 + length (number_bytes 3 MtUnsigned) + fields_bound (ig_PairingStep3_fields obj)
    \<le> unat (ig_PairingStep3_get_max_payload_in_bytes obj)"
proof -
  have sizes: "PairingStep3_nonce_size obj < 2 ^ 24" "PairingStep3_master_pin_size obj < 2 ^ 24"
    "PairingStep3_pin_key_size obj < 2 ^ 24" "PairingStep3_dst_times_size obj < 2 ^ 24"
      "PairingStep3_password_size obj < 2 ^ 24"
    using assms by (auto simp: ig_PairingStep3_ok_def dest!: str_ok_bound)
  show ?thesis
    using sizes number_bytes_size [of "PairingStep3_nonce_size obj" "0x40"]
      number_bytes_size [of "PairingStep3_master_pin_size obj" "0x40"]
      number_bytes_size [of "PairingStep3_pin_key_size obj" "0x40"]
      item_bytes_i32 [of "PairingStep3_gmt_offset obj"]
      number_bytes_size [of "PairingStep3_dst_times_size obj" "0x40"]
      number_bytes_size [of "PairingStep3_password_size obj" "0x40"]
    by (simp add: ig_PairingStep3_fields_def ig_PairingStep3_get_max_payload_in_bytes_def number_bytes_literal
        unat_of_nat_small del: of_nat_add)
qed

interpretation PairingStep3_codec: ig_message ig_PairingStep3_encode ig_PairingStep3_decode
  ig_PairingStep3_get_max_payload_in_bytes ig_PairingStep3_is_valid ig_PairingStep3_init ig_PairingStep3_ok 3
  ig_PairingStep3_fields_size ig_PairingStep3_fields ig_PairingStep3_cases
  by (unfold_locales;
      (rule ig_PairingStep3_encode_def ig_PairingStep3_decode_def | erule ig_PairingStep3_store
        ig_PairingStep3_bound |
       auto simp: ig_PairingStep3_cases_def ig_PairingStep3_fields_def
         ig_PairingStep3_fields_size_def ig_PairingStep3_ok_def
         simp del: arg_block_ok.simps(1,2) intro: str_ok_block))

subsection \<open>PairingStep4\<close>

record IgPairingStep4 =
  PairingStep4_has_success :: bool
  PairingStep4_success :: bool
  PairingStep4_has_master_pin :: bool
  PairingStep4_master_pin :: block_ptr
  PairingStep4_master_pin_size :: nat
  PairingStep4_has_pin_key :: bool
  PairingStep4_pin_key :: block_ptr
  PairingStep4_pin_key_size :: nat
  PairingStep4_has_gmt_offset :: bool
  PairingStep4_gmt_offset :: i32
  PairingStep4_has_password :: bool
  PairingStep4_password :: block_ptr
  PairingStep4_password_size :: nat

definition ig_PairingStep4_init :: IgPairingStep4 where
  "ig_PairingStep4_init =
     \<lparr>PairingStep4_has_success = False,
      PairingStep4_success = False,
      PairingStep4_has_master_pin = False,
      PairingStep4_master_pin = None,
      PairingStep4_master_pin_size = 0,
      PairingStep4_has_pin_key = False,
      PairingStep4_pin_key = None,
      PairingStep4_pin_key_size = 0,
      PairingStep4_has_gmt_offset = False,
      PairingStep4_gmt_offset = 0,
      PairingStep4_has_password = False,
      PairingStep4_password = None,
      PairingStep4_password_size = 0\<rparr>"

definition ig_PairingStep4_set_success :: "bool \<Rightarrow> IgPairingStep4 \<Rightarrow>
  IgPairingStep4" where
  "ig_PairingStep4_set_success v obj = obj\<lparr>PairingStep4_success := v,
    PairingStep4_has_success := True\<rparr>"

definition ig_PairingStep4_get_master_pin_size :: "IgPairingStep4 \<Rightarrow> nat" where
  "ig_PairingStep4_get_master_pin_size obj = PairingStep4_master_pin_size obj"

definition ig_PairingStep4_set_master_pin_nocopy ::
  "bool \<Rightarrow> block_ptr \<Rightarrow> nat \<Rightarrow> IgPairingStep4 \<Rightarrow>
    IgPairingStep4" where
  "ig_PairingStep4_set_master_pin_nocopy same_ptr p n obj =
     (if same_ptr then obj
      else let obj = (if PairingStep4_has_master_pin obj then obj\<lparr>PairingStep4_master_pin :=
        None\<rparr> else obj)
        in obj\<lparr>PairingStep4_master_pin := p, PairingStep4_master_pin_size := n,
          PairingStep4_has_master_pin := n > 0\<rparr>)"

definition ig_PairingStep4_set_master_pin ::
  "bool \<Rightarrow> block_ptr \<Rightarrow> nat \<Rightarrow> IgPairingStep4 \<Rightarrow>
    IgPairingStep4 res" where
  "ig_PairingStep4_set_master_pin same_ptr p n obj =
     (if same_ptr then Ok obj
      else let obj = (if PairingStep4_has_master_pin obj then obj\<lparr>PairingStep4_master_pin :=
        None\<rparr> else obj)
        in bindR (block_read p n) (\<lambda>d.
          Ok (obj\<lparr>PairingStep4_master_pin := Some d, PairingStep4_master_pin_size := n,
            PairingStep4_has_master_pin := n > 0\<rparr>)))"

definition ig_PairingStep4_get_pin_key_size :: "IgPairingStep4 \<Rightarrow> nat" where
  "ig_PairingStep4_get_pin_key_size obj = PairingStep4_pin_key_size obj"

definition ig_PairingStep4_set_pin_key_nocopy ::
  "bool \<Rightarrow> block_ptr \<Rightarrow> nat \<Rightarrow> IgPairingStep4 \<Rightarrow>
    IgPairingStep4" where
  "ig_PairingStep4_set_pin_key_nocopy same_ptr p n obj =
     (if same_ptr then obj
      else let obj = (if PairingStep4_has_pin_key obj then obj\<lparr>PairingStep4_pin_key :=
        None\<rparr> else obj)
        in obj\<lparr>PairingStep4_pin_key := p, PairingStep4_pin_key_size := n,
          PairingStep4_has_pin_key := n > 0\<rparr>)"

definition ig_PairingStep4_set_pin_key ::
  "bool \<Rightarrow> block_ptr \<Rightarrow> nat \<Rightarrow> IgPairingStep4 \<Rightarrow>
    IgPairingStep4 res" where
  "ig_PairingStep4_set_pin_key same_ptr p n obj =
     (if same_ptr then Ok obj
      else let obj = (if PairingStep4_has_pin_key obj then obj\<lparr>PairingStep4_pin_key :=
        None\<rparr> else obj)
        in bindR (block_read p n) (\<lambda>d.
          Ok (obj\<lparr>PairingStep4_pin_key := Some d, PairingStep4_pin_key_size := n,
            PairingStep4_has_pin_key := n > 0\<rparr>)))"

definition ig_PairingStep4_set_gmt_offset :: "i32 \<Rightarrow> IgPairingStep4 \<Rightarrow>
  IgPairingStep4" where
  "ig_PairingStep4_set_gmt_offset v obj = obj\<lparr>PairingStep4_gmt_offset := v,
    PairingStep4_has_gmt_offset := True\<rparr>"

definition ig_PairingStep4_get_password_size :: "IgPairingStep4 \<Rightarrow> nat" where
  "ig_PairingStep4_get_password_size obj = PairingStep4_password_size obj"

definition ig_PairingStep4_set_password_nocopy ::
  "bool \<Rightarrow> block_ptr \<Rightarrow> nat \<Rightarrow> IgPairingStep4 \<Rightarrow>
    IgPairingStep4" where
  "ig_PairingStep4_set_password_nocopy same_ptr p n obj =
     (if same_ptr then obj
      else let obj = (if PairingStep4_has_password obj then obj\<lparr>PairingStep4_password :=
        None\<rparr> else obj)
        in obj\<lparr>PairingStep4_password := p, PairingStep4_password_size := n,
          PairingStep4_has_password := n > 0\<rparr>)"

definition ig_PairingStep4_set_password ::
  "bool \<Rightarrow> block_ptr \<Rightarrow> nat \<Rightarrow> IgPairingStep4 \<Rightarrow>
    IgPairingStep4 res" where
  "ig_PairingStep4_set_password same_ptr p n obj =
     (if same_ptr then Ok obj
      else let obj = (if PairingStep4_has_password obj then obj\<lparr>PairingStep4_password :=
        None\<rparr> else obj)
        in bindR (block_read p n) (\<lambda>d.
          Ok (obj\<lparr>PairingStep4_password := Some d, PairingStep4_password_size := n,
            PairingStep4_has_password := n > 0\<rparr>)))"

definition ig_PairingStep4_deinit :: "IgPairingStep4 \<Rightarrow> IgPairingStep4" where
  "ig_PairingStep4_deinit obj = (let
     obj = (if PairingStep4_has_master_pin obj then obj\<lparr>PairingStep4_master_pin :=
       None\<rparr> else obj);
     obj = (if PairingStep4_has_pin_key obj then obj\<lparr>PairingStep4_pin_key := None\<rparr> else obj);
     obj = (if PairingStep4_has_password obj then obj\<lparr>PairingStep4_password := None\<rparr> else obj)
   in obj)"

definition ig_PairingStep4_is_valid :: "IgPairingStep4 \<Rightarrow> bool" where
  "ig_PairingStep4_is_valid obj \<longleftrightarrow> PairingStep4_has_success obj"

definition ig_PairingStep4_get_max_payload_in_bytes :: "IgPairingStep4 \<Rightarrow> u32" where
  "ig_PairingStep4_get_max_payload_in_bytes obj = word_of_nat (42 + PairingStep4_master_pin_size
    obj + PairingStep4_pin_key_size obj + PairingStep4_password_size obj)"

definition ig_PairingStep4_fields_size :: "IgPairingStep4 \<Rightarrow> u64" where
  "ig_PairingStep4_fields_size obj = 1 + 1 + of_bool (PairingStep4_has_master_pin obj) + of_bool
    (PairingStep4_has_pin_key obj) + of_bool (PairingStep4_has_gmt_offset obj) + of_bool
      (PairingStep4_has_password obj)"

definition ig_PairingStep4_fields :: "IgPairingStep4 \<Rightarrow> enc_field list" where
  "ig_PairingStep4_fields obj =
    [(True, 11, ABool (PairingStep4_success obj)),
     (PairingStep4_has_master_pin obj, 13, ABytes (PairingStep4_master_pin obj)
       (PairingStep4_master_pin_size obj)),
     (PairingStep4_has_pin_key obj, 14, ABytes (PairingStep4_pin_key obj) (PairingStep4_pin_key_size obj)),
     (PairingStep4_has_gmt_offset obj, 15, AInt (scast (PairingStep4_gmt_offset obj))),
     (PairingStep4_has_password obj, 17, ABytes (PairingStep4_password obj)
       (PairingStep4_password_size obj))]"

definition ig_PairingStep4_encode ::
  "IgPairingStep4 \<Rightarrow> bytes \<Rightarrow> u32 \<Rightarrow> (nat \<times> bytes \<times>
    nat option) res" where
  "ig_PairingStep4_encode obj retval len =
     (if \<not> ig_PairingStep4_is_valid obj then Ok (IgSerializerErrorInvalidPayload, retval, None)
      else ig_encode (ig_PairingStep4_fields_size obj) 4 (ig_PairingStep4_fields obj) retval len)"

definition ig_PairingStep4_cases :: "(i64 \<times> IgPairingStep4 case_body) list" where
  "ig_PairingStep4_cases =
    [(0, CMsgId 4),
     (11, CBool ig_PairingStep4_set_success),
     (13, CBytes (ig_PairingStep4_set_master_pin_nocopy False)),
     (14, CBytes (ig_PairingStep4_set_pin_key_nocopy False)),
     (15, CInt (\<lambda>v. ig_PairingStep4_set_gmt_offset (ucast v))),
     (17, CBytes (ig_PairingStep4_set_password_nocopy False))]"

definition ig_PairingStep4_decode :: "bytes \<Rightarrow> IgPairingStep4 \<Rightarrow> nat
  \<Rightarrow> (nat \<times> IgPairingStep4) res" where
  "ig_PairingStep4_decode buf obj index = ig_decode ig_PairingStep4_cases buf obj index"

definition ig_PairingStep4_ok :: "IgPairingStep4 \<Rightarrow> bool" where
  "ig_PairingStep4_ok obj \<longleftrightarrow> ig_PairingStep4_is_valid obj \<and>
     flag_ok (PairingStep4_has_success obj) (PairingStep4_success obj) \<and>
     str_ok (PairingStep4_has_master_pin obj) (PairingStep4_master_pin obj)
       (PairingStep4_master_pin_size obj) \<and>
     str_ok (PairingStep4_has_pin_key obj) (PairingStep4_pin_key obj) (PairingStep4_pin_key_size obj) \<and>
     num_ok (PairingStep4_has_gmt_offset obj) (PairingStep4_gmt_offset obj) \<and>
     str_ok (PairingStep4_has_password obj) (PairingStep4_password obj) (PairingStep4_password_size obj)"

lemmas ig_PairingStep4_setters =
  ig_PairingStep4_set_gmt_offset_def
  ig_PairingStep4_set_master_pin_nocopy_def
  ig_PairingStep4_set_password_nocopy_def
  ig_PairingStep4_set_pin_key_nocopy_def
  ig_PairingStep4_set_success_def

text \<open>A guarded setter, member by member.\<close>
lemma ig_PairingStep4_set_if:
  "(if g then ig_PairingStep4_set_master_pin_nocopy False p n obj else obj) =
     obj\<lparr>PairingStep4_master_pin := pick g p (PairingStep4_master_pin obj),
       PairingStep4_master_pin_size := pick g n (PairingStep4_master_pin_size obj),
       PairingStep4_has_master_pin := pick g (n > 0) (PairingStep4_has_master_pin obj)\<rparr>"
  "(if g then ig_PairingStep4_set_pin_key_nocopy False p n obj else obj) =
     obj\<lparr>PairingStep4_pin_key := pick g p (PairingStep4_pin_key obj),
       PairingStep4_pin_key_size := pick g n (PairingStep4_pin_key_size obj),
       PairingStep4_has_pin_key := pick g (n > 0) (PairingStep4_has_pin_key obj)\<rparr>"
  "(if g then ig_PairingStep4_set_gmt_offset v2 obj else obj) =
     obj\<lparr>PairingStep4_gmt_offset := pick g v2 (PairingStep4_gmt_offset obj),
       PairingStep4_has_gmt_offset := g \<or> PairingStep4_has_gmt_offset obj\<rparr>"
  "(if g then ig_PairingStep4_set_password_nocopy False p n obj else obj) =
     obj\<lparr>PairingStep4_password := pick g p (PairingStep4_password obj),
       PairingStep4_password_size := pick g n (PairingStep4_password_size obj),
       PairingStep4_has_password := pick g (n > 0) (PairingStep4_has_password obj)\<rparr>"
  by (simp_all add: ig_PairingStep4_setters pick_def)

lemma ig_PairingStep4_store:
  assumes ok: "ig_PairingStep4_ok obj"
  shows "store_fields ig_PairingStep4_cases (ig_PairingStep4_fields obj) ig_PairingStep4_init = Some obj"
proof -
  have h: "flag_ok (PairingStep4_has_success obj) (PairingStep4_success obj)"
    "str_ok (PairingStep4_has_master_pin obj) (PairingStep4_master_pin obj)
      (PairingStep4_master_pin_size obj)"
    "str_ok (PairingStep4_has_pin_key obj) (PairingStep4_pin_key obj) (PairingStep4_pin_key_size obj)"
    "num_ok (PairingStep4_has_gmt_offset obj) (PairingStep4_gmt_offset obj)"
    "str_ok (PairingStep4_has_password obj) (PairingStep4_password obj) (PairingStep4_password_size obj)"
    and valid: "ig_PairingStep4_is_valid obj"
    using ok by (simp_all add: ig_PairingStep4_ok_def)
  show ?thesis
    using valid
    by (simp add: ig_PairingStep4_fields_def ig_PairingStep4_cases_def ig_PairingStep4_init_def codec_simps
        ig_PairingStep4_set_if ig_PairingStep4_setters split del: if_split)
       (simp add: ig_PairingStep4_is_valid_def
         flag_ok_store [OF h(1)]
         str_ok_store [OF h(2)]
         str_ok_store [OF h(3)]
         num_ok_store [OF h(4)]
         str_ok_store [OF h(5)])
qed

lemma ig_PairingStep4_bound:
  assumes "ig_PairingStep4_ok obj"
  shows "2 + length (number_bytes 4 MtUnsigned) + fields_bound (ig_PairingStep4_fields obj)
    \<le> unat (ig_PairingStep4_get_max_payload_in_bytes obj)"
proof -
  have sizes: "PairingStep4_master_pin_size obj < 2 ^ 24" "PairingStep4_pin_key_size obj < 2 ^ 24"
    "PairingStep4_password_size obj < 2 ^ 24"
    using assms by (auto simp: ig_PairingStep4_ok_def dest!: str_ok_bound)
  show ?thesis
    using sizes number_bytes_size [of "PairingStep4_master_pin_size obj" "0x40"]
      number_bytes_size [of "PairingStep4_pin_key_size obj" "0x40"]
      item_bytes_i32 [of "PairingStep4_gmt_offset obj"]
      number_bytes_size [of "PairingStep4_password_size obj" "0x40"]
    by (simp add: ig_PairingStep4_fields_def ig_PairingStep4_get_max_payload_in_bytes_def number_bytes_literal
        unat_of_nat_small del: of_nat_add)
qed

interpretation PairingStep4_codec: ig_message ig_PairingStep4_encode ig_PairingStep4_decode
  ig_PairingStep4_get_max_payload_in_bytes ig_PairingStep4_is_valid ig_PairingStep4_init ig_PairingStep4_ok 4
  ig_PairingStep4_fields_size ig_PairingStep4_fields ig_PairingStep4_cases
  by (unfold_locales;
      (rule ig_PairingStep4_encode_def ig_PairingStep4_decode_def | erule ig_PairingStep4_store
        ig_PairingStep4_bound |
       auto simp: ig_PairingStep4_cases_def ig_PairingStep4_fields_def
         ig_PairingStep4_fields_size_def ig_PairingStep4_ok_def
         simp del: arg_block_ok.simps(1,2) intro: str_ok_block))

subsection \<open>PairingCommit\<close>

record IgPairingCommit =
  PairingCommit_has_current_time :: bool
  PairingCommit_current_time :: u32

definition ig_PairingCommit_init :: IgPairingCommit where
  "ig_PairingCommit_init =
     \<lparr>PairingCommit_has_current_time = False,
      PairingCommit_current_time = 0\<rparr>"

definition ig_PairingCommit_set_current_time :: "u32 \<Rightarrow> IgPairingCommit \<Rightarrow>
  IgPairingCommit" where
  "ig_PairingCommit_set_current_time v obj = obj\<lparr>PairingCommit_current_time := v,
    PairingCommit_has_current_time := True\<rparr>"

definition ig_PairingCommit_deinit :: "IgPairingCommit \<Rightarrow> IgPairingCommit" where
  "ig_PairingCommit_deinit obj = obj"

definition ig_PairingCommit_is_valid :: "IgPairingCommit \<Rightarrow> bool" where
  "ig_PairingCommit_is_valid obj \<longleftrightarrow> PairingCommit_has_current_time obj"

definition ig_PairingCommit_get_max_payload_in_bytes :: "IgPairingCommit \<Rightarrow> u32" where
  "ig_PairingCommit_get_max_payload_in_bytes obj = 19"

definition ig_PairingCommit_fields_size :: "IgPairingCommit \<Rightarrow> u64" where
  "ig_PairingCommit_fields_size obj = 1 + 1"

definition ig_PairingCommit_fields :: "IgPairingCommit \<Rightarrow> enc_field list" where
  "ig_PairingCommit_fields obj =
    [(True, 11, AUint (ucast (PairingCommit_current_time obj)))]"

definition ig_PairingCommit_encode ::
  "IgPairingCommit \<Rightarrow> bytes \<Rightarrow> u32 \<Rightarrow> (nat \<times> bytes \<times>
    nat option) res" where
  "ig_PairingCommit_encode obj retval len =
     (if \<not> ig_PairingCommit_is_valid obj then Ok (IgSerializerErrorInvalidPayload, retval, None)
      else ig_encode (ig_PairingCommit_fields_size obj) 5 (ig_PairingCommit_fields obj) retval len)"

definition ig_PairingCommit_cases :: "(i64 \<times> IgPairingCommit case_body) list" where
  "ig_PairingCommit_cases =
    [(0, CMsgId 5),
     (11, CUint (\<lambda>v. ig_PairingCommit_set_current_time (ucast v)))]"

definition ig_PairingCommit_decode :: "bytes \<Rightarrow> IgPairingCommit \<Rightarrow> nat
  \<Rightarrow> (nat \<times> IgPairingCommit) res" where
  "ig_PairingCommit_decode buf obj index = ig_decode ig_PairingCommit_cases buf obj index"

definition ig_PairingCommit_ok :: "IgPairingCommit \<Rightarrow> bool" where
  "ig_PairingCommit_ok obj \<longleftrightarrow> ig_PairingCommit_is_valid obj \<and>
     num_ok (PairingCommit_has_current_time obj) (PairingCommit_current_time obj)"

lemmas ig_PairingCommit_setters =
  ig_PairingCommit_set_current_time_def

lemma ig_PairingCommit_store:
  assumes ok: "ig_PairingCommit_ok obj"
  shows "store_fields ig_PairingCommit_cases (ig_PairingCommit_fields obj) ig_PairingCommit_init = Some obj"
proof -
  have h: "num_ok (PairingCommit_has_current_time obj) (PairingCommit_current_time obj)"
    and valid: "ig_PairingCommit_is_valid obj"
    using ok by (simp_all add: ig_PairingCommit_ok_def)
  show ?thesis
    using valid
    by (simp add: ig_PairingCommit_fields_def ig_PairingCommit_cases_def ig_PairingCommit_init_def codec_simps
        ig_PairingCommit_setters split del: if_split)
       (simp add: ig_PairingCommit_is_valid_def
         num_ok_store [OF h(1)])
qed

lemma ig_PairingCommit_bound:
  assumes "ig_PairingCommit_ok obj"
  shows "2 + length (number_bytes 5 MtUnsigned) + fields_bound (ig_PairingCommit_fields obj)
    \<le> unat (ig_PairingCommit_get_max_payload_in_bytes obj)"
  using number_bytes_u32 [of "PairingCommit_current_time obj" 0]
  by (simp add: ig_PairingCommit_fields_def ig_PairingCommit_get_max_payload_in_bytes_def
    number_bytes_literal)

interpretation PairingCommit_codec: ig_message ig_PairingCommit_encode ig_PairingCommit_decode
  ig_PairingCommit_get_max_payload_in_bytes ig_PairingCommit_is_valid ig_PairingCommit_init
    ig_PairingCommit_ok 5
  ig_PairingCommit_fields_size ig_PairingCommit_fields ig_PairingCommit_cases
  by (unfold_locales;
      (rule ig_PairingCommit_encode_def ig_PairingCommit_decode_def | erule ig_PairingCommit_store
        ig_PairingCommit_bound |
       auto simp: ig_PairingCommit_cases_def ig_PairingCommit_fields_def
         ig_PairingCommit_fields_size_def ig_PairingCommit_ok_def
         simp del: arg_block_ok.simps(1,2) intro: str_ok_block))

subsection \<open>AdminConnectionStep1\<close>

record IgAdminConnectionStep1 =
  AdminConnectionStep1_has_nonce :: bool
  AdminConnectionStep1_nonce :: block_ptr
  AdminConnectionStep1_nonce_size :: nat

definition ig_AdminConnectionStep1_init :: IgAdminConnectionStep1 where
  "ig_AdminConnectionStep1_init =
     \<lparr>AdminConnectionStep1_has_nonce = False,
      AdminConnectionStep1_nonce = None,
      AdminConnectionStep1_nonce_size = 0\<rparr>"

definition ig_AdminConnectionStep1_get_nonce_size :: "IgAdminConnectionStep1 \<Rightarrow> nat" where
  "ig_AdminConnectionStep1_get_nonce_size obj = AdminConnectionStep1_nonce_size obj"

definition ig_AdminConnectionStep1_set_nonce_nocopy ::
  "bool \<Rightarrow> block_ptr \<Rightarrow> nat \<Rightarrow> IgAdminConnectionStep1
    \<Rightarrow> IgAdminConnectionStep1" where
  "ig_AdminConnectionStep1_set_nonce_nocopy same_ptr p n obj =
     (if same_ptr then obj
      else let obj = (if AdminConnectionStep1_has_nonce obj then
        obj\<lparr>AdminConnectionStep1_nonce := None\<rparr> else obj)
        in obj\<lparr>AdminConnectionStep1_nonce := p, AdminConnectionStep1_nonce_size := n,
          AdminConnectionStep1_has_nonce := n > 0\<rparr>)"

definition ig_AdminConnectionStep1_set_nonce ::
  "bool \<Rightarrow> block_ptr \<Rightarrow> nat \<Rightarrow> IgAdminConnectionStep1
    \<Rightarrow> IgAdminConnectionStep1 res" where
  "ig_AdminConnectionStep1_set_nonce same_ptr p n obj =
     (if same_ptr then Ok obj
      else let obj = (if AdminConnectionStep1_has_nonce obj then
        obj\<lparr>AdminConnectionStep1_nonce := None\<rparr> else obj)
        in bindR (block_read p n) (\<lambda>d.
          Ok (obj\<lparr>AdminConnectionStep1_nonce := Some d, AdminConnectionStep1_nonce_size :=
            n, AdminConnectionStep1_has_nonce := n > 0\<rparr>)))"

definition ig_AdminConnectionStep1_deinit :: "IgAdminConnectionStep1 \<Rightarrow>
  IgAdminConnectionStep1" where
  "ig_AdminConnectionStep1_deinit obj = (let
     obj = (if AdminConnectionStep1_has_nonce obj then obj\<lparr>AdminConnectionStep1_nonce :=
       None\<rparr> else obj)
   in obj)"

definition ig_AdminConnectionStep1_is_valid :: "IgAdminConnectionStep1 \<Rightarrow> bool" where
  "ig_AdminConnectionStep1_is_valid obj \<longleftrightarrow> AdminConnectionStep1_has_nonce obj"

definition ig_AdminConnectionStep1_get_max_payload_in_bytes :: "IgAdminConnectionStep1
  \<Rightarrow> u32" where
  "ig_AdminConnectionStep1_get_max_payload_in_bytes obj = word_of_nat (20 +
    AdminConnectionStep1_nonce_size obj)"

definition ig_AdminConnectionStep1_fields_size :: "IgAdminConnectionStep1 \<Rightarrow> u64" where
  "ig_AdminConnectionStep1_fields_size obj = 1 + 1"

definition ig_AdminConnectionStep1_fields :: "IgAdminConnectionStep1 \<Rightarrow> enc_field list" where
  "ig_AdminConnectionStep1_fields obj =
    [(True, 11, ABytes (AdminConnectionStep1_nonce obj) (AdminConnectionStep1_nonce_size obj))]"

definition ig_AdminConnectionStep1_encode ::
  "IgAdminConnectionStep1 \<Rightarrow> bytes \<Rightarrow> u32 \<Rightarrow> (nat \<times> bytes
    \<times> nat option) res" where
  "ig_AdminConnectionStep1_encode obj retval len =
     (if \<not> ig_AdminConnectionStep1_is_valid obj then Ok (IgSerializerErrorInvalidPayload, retval, None)
      else ig_encode (ig_AdminConnectionStep1_fields_size obj) 6 (ig_AdminConnectionStep1_fields
        obj) retval len)"

definition ig_AdminConnectionStep1_cases :: "(i64 \<times> IgAdminConnectionStep1 case_body) list" where
  "ig_AdminConnectionStep1_cases =
    [(0, CMsgId 6),
     (11, CBytes (ig_AdminConnectionStep1_set_nonce_nocopy False))]"

definition ig_AdminConnectionStep1_decode :: "bytes \<Rightarrow> IgAdminConnectionStep1
  \<Rightarrow> nat \<Rightarrow> (nat \<times> IgAdminConnectionStep1) res" where
  "ig_AdminConnectionStep1_decode buf obj index = ig_decode ig_AdminConnectionStep1_cases buf obj index"

definition ig_AdminConnectionStep1_ok :: "IgAdminConnectionStep1 \<Rightarrow> bool" where
  "ig_AdminConnectionStep1_ok obj \<longleftrightarrow> ig_AdminConnectionStep1_is_valid obj \<and>
     str_ok (AdminConnectionStep1_has_nonce obj) (AdminConnectionStep1_nonce obj)
       (AdminConnectionStep1_nonce_size obj)"

lemmas ig_AdminConnectionStep1_setters =
  ig_AdminConnectionStep1_set_nonce_nocopy_def

lemma ig_AdminConnectionStep1_store:
  assumes ok: "ig_AdminConnectionStep1_ok obj"
  shows "store_fields ig_AdminConnectionStep1_cases (ig_AdminConnectionStep1_fields obj)
    ig_AdminConnectionStep1_init = Some obj"
proof -
  have h: "str_ok (AdminConnectionStep1_has_nonce obj) (AdminConnectionStep1_nonce obj)
    (AdminConnectionStep1_nonce_size obj)"
    and valid: "ig_AdminConnectionStep1_is_valid obj"
    using ok by (simp_all add: ig_AdminConnectionStep1_ok_def)
  show ?thesis
    using valid
    by (simp add: ig_AdminConnectionStep1_fields_def ig_AdminConnectionStep1_cases_def
      ig_AdminConnectionStep1_init_def codec_simps
        ig_AdminConnectionStep1_setters split del: if_split)
       (simp add: ig_AdminConnectionStep1_is_valid_def
         str_ok_store [OF h(1)])
qed

lemma ig_AdminConnectionStep1_bound:
  assumes "ig_AdminConnectionStep1_ok obj"
  shows "2 + length (number_bytes 6 MtUnsigned) + fields_bound (ig_AdminConnectionStep1_fields obj)
    \<le> unat (ig_AdminConnectionStep1_get_max_payload_in_bytes obj)"
proof -
  have sizes: "AdminConnectionStep1_nonce_size obj < 2 ^ 24"
    using assms by (auto simp: ig_AdminConnectionStep1_ok_def dest!: str_ok_bound)
  show ?thesis
    using sizes number_bytes_size [of "AdminConnectionStep1_nonce_size obj" "0x40"]
    by (simp add: ig_AdminConnectionStep1_fields_def
      ig_AdminConnectionStep1_get_max_payload_in_bytes_def number_bytes_literal
        unat_of_nat_small del: of_nat_add)
qed

interpretation AdminConnectionStep1_codec: ig_message ig_AdminConnectionStep1_encode
  ig_AdminConnectionStep1_decode
  ig_AdminConnectionStep1_get_max_payload_in_bytes ig_AdminConnectionStep1_is_valid
    ig_AdminConnectionStep1_init ig_AdminConnectionStep1_ok 6
  ig_AdminConnectionStep1_fields_size ig_AdminConnectionStep1_fields ig_AdminConnectionStep1_cases
  by (unfold_locales;
      (rule ig_AdminConnectionStep1_encode_def ig_AdminConnectionStep1_decode_def | erule
        ig_AdminConnectionStep1_store ig_AdminConnectionStep1_bound |
       auto simp: ig_AdminConnectionStep1_cases_def ig_AdminConnectionStep1_fields_def
         ig_AdminConnectionStep1_fields_size_def ig_AdminConnectionStep1_ok_def
         simp del: arg_block_ok.simps(1,2) intro: str_ok_block))

subsection \<open>AdminConnectionStep2\<close>

record IgAdminConnectionStep2 =
  AdminConnectionStep2_has_nonce :: bool
  AdminConnectionStep2_nonce :: block_ptr
  AdminConnectionStep2_nonce_size :: nat

definition ig_AdminConnectionStep2_init :: IgAdminConnectionStep2 where
  "ig_AdminConnectionStep2_init =
     \<lparr>AdminConnectionStep2_has_nonce = False,
      AdminConnectionStep2_nonce = None,
      AdminConnectionStep2_nonce_size = 0\<rparr>"

definition ig_AdminConnectionStep2_get_nonce_size :: "IgAdminConnectionStep2 \<Rightarrow> nat" where
  "ig_AdminConnectionStep2_get_nonce_size obj = AdminConnectionStep2_nonce_size obj"

definition ig_AdminConnectionStep2_set_nonce_nocopy ::
  "bool \<Rightarrow> block_ptr \<Rightarrow> nat \<Rightarrow> IgAdminConnectionStep2
    \<Rightarrow> IgAdminConnectionStep2" where
  "ig_AdminConnectionStep2_set_nonce_nocopy same_ptr p n obj =
     (if same_ptr then obj
      else let obj = (if AdminConnectionStep2_has_nonce obj then
        obj\<lparr>AdminConnectionStep2_nonce := None\<rparr> else obj)
        in obj\<lparr>AdminConnectionStep2_nonce := p, AdminConnectionStep2_nonce_size := n,
          AdminConnectionStep2_has_nonce := n > 0\<rparr>)"

definition ig_AdminConnectionStep2_set_nonce ::
  "bool \<Rightarrow> block_ptr \<Rightarrow> nat \<Rightarrow> IgAdminConnectionStep2
    \<Rightarrow> IgAdminConnectionStep2 res" where
  "ig_AdminConnectionStep2_set_nonce same_ptr p n obj =
     (if same_ptr then Ok obj
      else let obj = (if AdminConnectionStep2_has_nonce obj then
        obj\<lparr>AdminConnectionStep2_nonce := None\<rparr> else obj)
        in bindR (block_read p n) (\<lambda>d.
          Ok (obj\<lparr>AdminConnectionStep2_nonce := Some d, AdminConnectionStep2_nonce_size :=
            n, AdminConnectionStep2_has_nonce := n > 0\<rparr>)))"

definition ig_AdminConnectionStep2_deinit :: "IgAdminConnectionStep2 \<Rightarrow>
  IgAdminConnectionStep2" where
  "ig_AdminConnectionStep2_deinit obj = (let
     obj = (if AdminConnectionStep2_has_nonce obj then obj\<lparr>AdminConnectionStep2_nonce :=
       None\<rparr> else obj)
   in obj)"

definition ig_AdminConnectionStep2_is_valid :: "IgAdminConnectionStep2 \<Rightarrow> bool" where
  "ig_AdminConnectionStep2_is_valid obj \<longleftrightarrow> AdminConnectionStep2_has_nonce obj"

definition ig_AdminConnectionStep2_get_max_payload_in_bytes :: "IgAdminConnectionStep2
  \<Rightarrow> u32" where
  "ig_AdminConnectionStep2_get_max_payload_in_bytes obj = word_of_nat (20 +
    AdminConnectionStep2_nonce_size obj)"

definition ig_AdminConnectionStep2_fields_size :: "IgAdminConnectionStep2 \<Rightarrow> u64" where
  "ig_AdminConnectionStep2_fields_size obj = 1 + 1"

definition ig_AdminConnectionStep2_fields :: "IgAdminConnectionStep2 \<Rightarrow> enc_field list" where
  "ig_AdminConnectionStep2_fields obj =
    [(True, 11, ABytes (AdminConnectionStep2_nonce obj) (AdminConnectionStep2_nonce_size obj))]"

definition ig_AdminConnectionStep2_encode ::
  "IgAdminConnectionStep2 \<Rightarrow> bytes \<Rightarrow> u32 \<Rightarrow> (nat \<times> bytes
    \<times> nat option) res" where
  "ig_AdminConnectionStep2_encode obj retval len =
     (if \<not> ig_AdminConnectionStep2_is_valid obj then Ok (IgSerializerErrorInvalidPayload, retval, None)
      else ig_encode (ig_AdminConnectionStep2_fields_size obj) 7 (ig_AdminConnectionStep2_fields
        obj) retval len)"

definition ig_AdminConnectionStep2_cases :: "(i64 \<times> IgAdminConnectionStep2 case_body) list" where
  "ig_AdminConnectionStep2_cases =
    [(0, CMsgId 7),
     (11, CBytes (ig_AdminConnectionStep2_set_nonce_nocopy False))]"

definition ig_AdminConnectionStep2_decode :: "bytes \<Rightarrow> IgAdminConnectionStep2
  \<Rightarrow> nat \<Rightarrow> (nat \<times> IgAdminConnectionStep2) res" where
  "ig_AdminConnectionStep2_decode buf obj index = ig_decode ig_AdminConnectionStep2_cases buf obj index"

definition ig_AdminConnectionStep2_ok :: "IgAdminConnectionStep2 \<Rightarrow> bool" where
  "ig_AdminConnectionStep2_ok obj \<longleftrightarrow> ig_AdminConnectionStep2_is_valid obj \<and>
     str_ok (AdminConnectionStep2_has_nonce obj) (AdminConnectionStep2_nonce obj)
       (AdminConnectionStep2_nonce_size obj)"

lemmas ig_AdminConnectionStep2_setters =
  ig_AdminConnectionStep2_set_nonce_nocopy_def

lemma ig_AdminConnectionStep2_store:
  assumes ok: "ig_AdminConnectionStep2_ok obj"
  shows "store_fields ig_AdminConnectionStep2_cases (ig_AdminConnectionStep2_fields obj)
    ig_AdminConnectionStep2_init = Some obj"
proof -
  have h: "str_ok (AdminConnectionStep2_has_nonce obj) (AdminConnectionStep2_nonce obj)
    (AdminConnectionStep2_nonce_size obj)"
    and valid: "ig_AdminConnectionStep2_is_valid obj"
    using ok by (simp_all add: ig_AdminConnectionStep2_ok_def)
  show ?thesis
    using valid
    by (simp add: ig_AdminConnectionStep2_fields_def ig_AdminConnectionStep2_cases_def
      ig_AdminConnectionStep2_init_def codec_simps
        ig_AdminConnectionStep2_setters split del: if_split)
       (simp add: ig_AdminConnectionStep2_is_valid_def
         str_ok_store [OF h(1)])
qed

lemma ig_AdminConnectionStep2_bound:
  assumes "ig_AdminConnectionStep2_ok obj"
  shows "2 + length (number_bytes 7 MtUnsigned) + fields_bound (ig_AdminConnectionStep2_fields obj)
    \<le> unat (ig_AdminConnectionStep2_get_max_payload_in_bytes obj)"
proof -
  have sizes: "AdminConnectionStep2_nonce_size obj < 2 ^ 24"
    using assms by (auto simp: ig_AdminConnectionStep2_ok_def dest!: str_ok_bound)
  show ?thesis
    using sizes number_bytes_size [of "AdminConnectionStep2_nonce_size obj" "0x40"]
    by (simp add: ig_AdminConnectionStep2_fields_def
      ig_AdminConnectionStep2_get_max_payload_in_bytes_def number_bytes_literal
        unat_of_nat_small del: of_nat_add)
qed

interpretation AdminConnectionStep2_codec: ig_message ig_AdminConnectionStep2_encode
  ig_AdminConnectionStep2_decode
  ig_AdminConnectionStep2_get_max_payload_in_bytes ig_AdminConnectionStep2_is_valid
    ig_AdminConnectionStep2_init ig_AdminConnectionStep2_ok 7
  ig_AdminConnectionStep2_fields_size ig_AdminConnectionStep2_fields ig_AdminConnectionStep2_cases
  by (unfold_locales;
      (rule ig_AdminConnectionStep2_encode_def ig_AdminConnectionStep2_decode_def | erule
        ig_AdminConnectionStep2_store ig_AdminConnectionStep2_bound |
       auto simp: ig_AdminConnectionStep2_cases_def ig_AdminConnectionStep2_fields_def
         ig_AdminConnectionStep2_fields_size_def ig_AdminConnectionStep2_ok_def
         simp del: arg_block_ok.simps(1,2) intro: str_ok_block))

subsection \<open>AdminConnectionStep3\<close>

record IgAdminConnectionStep3 =
  AdminConnectionStep3_has_success :: bool
  AdminConnectionStep3_success :: bool

definition ig_AdminConnectionStep3_init :: IgAdminConnectionStep3 where
  "ig_AdminConnectionStep3_init =
     \<lparr>AdminConnectionStep3_has_success = False,
      AdminConnectionStep3_success = False\<rparr>"

definition ig_AdminConnectionStep3_set_success :: "bool \<Rightarrow> IgAdminConnectionStep3
  \<Rightarrow> IgAdminConnectionStep3" where
  "ig_AdminConnectionStep3_set_success v obj = obj\<lparr>AdminConnectionStep3_success := v,
    AdminConnectionStep3_has_success := True\<rparr>"

definition ig_AdminConnectionStep3_deinit :: "IgAdminConnectionStep3 \<Rightarrow>
  IgAdminConnectionStep3" where
  "ig_AdminConnectionStep3_deinit obj = obj"

definition ig_AdminConnectionStep3_is_valid :: "IgAdminConnectionStep3 \<Rightarrow> bool" where
  "ig_AdminConnectionStep3_is_valid obj \<longleftrightarrow> AdminConnectionStep3_has_success obj"

definition ig_AdminConnectionStep3_get_max_payload_in_bytes :: "IgAdminConnectionStep3
  \<Rightarrow> u32" where
  "ig_AdminConnectionStep3_get_max_payload_in_bytes obj = 15"

definition ig_AdminConnectionStep3_fields_size :: "IgAdminConnectionStep3 \<Rightarrow> u64" where
  "ig_AdminConnectionStep3_fields_size obj = 1 + 1"

definition ig_AdminConnectionStep3_fields :: "IgAdminConnectionStep3 \<Rightarrow> enc_field list" where
  "ig_AdminConnectionStep3_fields obj =
    [(True, 11, ABool (AdminConnectionStep3_success obj))]"

definition ig_AdminConnectionStep3_encode ::
  "IgAdminConnectionStep3 \<Rightarrow> bytes \<Rightarrow> u32 \<Rightarrow> (nat \<times> bytes
    \<times> nat option) res" where
  "ig_AdminConnectionStep3_encode obj retval len =
     (if \<not> ig_AdminConnectionStep3_is_valid obj then Ok (IgSerializerErrorInvalidPayload, retval, None)
      else ig_encode (ig_AdminConnectionStep3_fields_size obj) 8 (ig_AdminConnectionStep3_fields
        obj) retval len)"

definition ig_AdminConnectionStep3_cases :: "(i64 \<times> IgAdminConnectionStep3 case_body) list" where
  "ig_AdminConnectionStep3_cases =
    [(0, CMsgId 8),
     (11, CBool ig_AdminConnectionStep3_set_success)]"

definition ig_AdminConnectionStep3_decode :: "bytes \<Rightarrow> IgAdminConnectionStep3
  \<Rightarrow> nat \<Rightarrow> (nat \<times> IgAdminConnectionStep3) res" where
  "ig_AdminConnectionStep3_decode buf obj index = ig_decode ig_AdminConnectionStep3_cases buf obj index"

definition ig_AdminConnectionStep3_ok :: "IgAdminConnectionStep3 \<Rightarrow> bool" where
  "ig_AdminConnectionStep3_ok obj \<longleftrightarrow> ig_AdminConnectionStep3_is_valid obj \<and>
     flag_ok (AdminConnectionStep3_has_success obj) (AdminConnectionStep3_success obj)"

lemmas ig_AdminConnectionStep3_setters =
  ig_AdminConnectionStep3_set_success_def

lemma ig_AdminConnectionStep3_store:
  assumes ok: "ig_AdminConnectionStep3_ok obj"
  shows "store_fields ig_AdminConnectionStep3_cases (ig_AdminConnectionStep3_fields obj)
    ig_AdminConnectionStep3_init = Some obj"
proof -
  have h: "flag_ok (AdminConnectionStep3_has_success obj) (AdminConnectionStep3_success obj)"
    and valid: "ig_AdminConnectionStep3_is_valid obj"
    using ok by (simp_all add: ig_AdminConnectionStep3_ok_def)
  show ?thesis
    using valid
    by (simp add: ig_AdminConnectionStep3_fields_def ig_AdminConnectionStep3_cases_def
      ig_AdminConnectionStep3_init_def codec_simps
        ig_AdminConnectionStep3_setters split del: if_split)
       (simp add: ig_AdminConnectionStep3_is_valid_def
         flag_ok_store [OF h(1)])
qed

lemma ig_AdminConnectionStep3_bound:
  assumes "ig_AdminConnectionStep3_ok obj"
  shows "2 + length (number_bytes 8 MtUnsigned) + fields_bound (ig_AdminConnectionStep3_fields obj)
    \<le> unat (ig_AdminConnectionStep3_get_max_payload_in_bytes obj)"
  using assms
  by (simp add: ig_AdminConnectionStep3_fields_def
    ig_AdminConnectionStep3_get_max_payload_in_bytes_def number_bytes_literal)

interpretation AdminConnectionStep3_codec: ig_message ig_AdminConnectionStep3_encode
  ig_AdminConnectionStep3_decode
  ig_AdminConnectionStep3_get_max_payload_in_bytes ig_AdminConnectionStep3_is_valid
    ig_AdminConnectionStep3_init ig_AdminConnectionStep3_ok 8
  ig_AdminConnectionStep3_fields_size ig_AdminConnectionStep3_fields ig_AdminConnectionStep3_cases
  by (unfold_locales;
      (rule ig_AdminConnectionStep3_encode_def ig_AdminConnectionStep3_decode_def | erule
        ig_AdminConnectionStep3_store ig_AdminConnectionStep3_bound |
       auto simp: ig_AdminConnectionStep3_cases_def ig_AdminConnectionStep3_fields_def
         ig_AdminConnectionStep3_fields_size_def ig_AdminConnectionStep3_ok_def
         simp del: arg_block_ok.simps(1,2) intro: str_ok_block))

subsection \<open>GuestConnectionStep1\<close>

record IgGuestConnectionStep1 =
  GuestConnectionStep1_has_token :: bool
  GuestConnectionStep1_token :: block_ptr
  GuestConnectionStep1_token_size :: nat

definition ig_GuestConnectionStep1_init :: IgGuestConnectionStep1 where
  "ig_GuestConnectionStep1_init =
     \<lparr>GuestConnectionStep1_has_token = False,
      GuestConnectionStep1_token = None,
      GuestConnectionStep1_token_size = 0\<rparr>"

definition ig_GuestConnectionStep1_get_token_size :: "IgGuestConnectionStep1 \<Rightarrow> nat" where
  "ig_GuestConnectionStep1_get_token_size obj = GuestConnectionStep1_token_size obj"

definition ig_GuestConnectionStep1_set_token_nocopy ::
  "bool \<Rightarrow> block_ptr \<Rightarrow> nat \<Rightarrow> IgGuestConnectionStep1
    \<Rightarrow> IgGuestConnectionStep1" where
  "ig_GuestConnectionStep1_set_token_nocopy same_ptr p n obj =
     (if same_ptr then obj
      else let obj = (if GuestConnectionStep1_has_token obj then
        obj\<lparr>GuestConnectionStep1_token := None\<rparr> else obj)
        in obj\<lparr>GuestConnectionStep1_token := p, GuestConnectionStep1_token_size := n,
          GuestConnectionStep1_has_token := n > 0\<rparr>)"

definition ig_GuestConnectionStep1_set_token ::
  "bool \<Rightarrow> block_ptr \<Rightarrow> nat \<Rightarrow> IgGuestConnectionStep1
    \<Rightarrow> IgGuestConnectionStep1 res" where
  "ig_GuestConnectionStep1_set_token same_ptr p n obj =
     (if same_ptr then Ok obj
      else let obj = (if GuestConnectionStep1_has_token obj then
        obj\<lparr>GuestConnectionStep1_token := None\<rparr> else obj)
        in bindR (block_read p n) (\<lambda>d.
          Ok (obj\<lparr>GuestConnectionStep1_token := Some d, GuestConnectionStep1_token_size :=
            n, GuestConnectionStep1_has_token := n > 0\<rparr>)))"

definition ig_GuestConnectionStep1_deinit :: "IgGuestConnectionStep1 \<Rightarrow>
  IgGuestConnectionStep1" where
  "ig_GuestConnectionStep1_deinit obj = (let
     obj = (if GuestConnectionStep1_has_token obj then obj\<lparr>GuestConnectionStep1_token :=
       None\<rparr> else obj)
   in obj)"

definition ig_GuestConnectionStep1_is_valid :: "IgGuestConnectionStep1 \<Rightarrow> bool" where
  "ig_GuestConnectionStep1_is_valid obj \<longleftrightarrow> GuestConnectionStep1_has_token obj"

definition ig_GuestConnectionStep1_get_max_payload_in_bytes :: "IgGuestConnectionStep1
  \<Rightarrow> u32" where
  "ig_GuestConnectionStep1_get_max_payload_in_bytes obj = word_of_nat (20 +
    GuestConnectionStep1_token_size obj)"

definition ig_GuestConnectionStep1_fields_size :: "IgGuestConnectionStep1 \<Rightarrow> u64" where
  "ig_GuestConnectionStep1_fields_size obj = 1 + 1"

definition ig_GuestConnectionStep1_fields :: "IgGuestConnectionStep1 \<Rightarrow> enc_field list" where
  "ig_GuestConnectionStep1_fields obj =
    [(True, 11, ABytes (GuestConnectionStep1_token obj) (GuestConnectionStep1_token_size obj))]"

definition ig_GuestConnectionStep1_encode ::
  "IgGuestConnectionStep1 \<Rightarrow> bytes \<Rightarrow> u32 \<Rightarrow> (nat \<times> bytes
    \<times> nat option) res" where
  "ig_GuestConnectionStep1_encode obj retval len =
     (if \<not> ig_GuestConnectionStep1_is_valid obj then Ok (IgSerializerErrorInvalidPayload, retval, None)
      else ig_encode (ig_GuestConnectionStep1_fields_size obj) 9 (ig_GuestConnectionStep1_fields
        obj) retval len)"

definition ig_GuestConnectionStep1_cases :: "(i64 \<times> IgGuestConnectionStep1 case_body) list" where
  "ig_GuestConnectionStep1_cases =
    [(0, CMsgId 9),
     (11, CBytes (ig_GuestConnectionStep1_set_token_nocopy False))]"

definition ig_GuestConnectionStep1_decode :: "bytes \<Rightarrow> IgGuestConnectionStep1
  \<Rightarrow> nat \<Rightarrow> (nat \<times> IgGuestConnectionStep1) res" where
  "ig_GuestConnectionStep1_decode buf obj index = ig_decode ig_GuestConnectionStep1_cases buf obj index"

definition ig_GuestConnectionStep1_ok :: "IgGuestConnectionStep1 \<Rightarrow> bool" where
  "ig_GuestConnectionStep1_ok obj \<longleftrightarrow> ig_GuestConnectionStep1_is_valid obj \<and>
     str_ok (GuestConnectionStep1_has_token obj) (GuestConnectionStep1_token obj)
       (GuestConnectionStep1_token_size obj)"

lemmas ig_GuestConnectionStep1_setters =
  ig_GuestConnectionStep1_set_token_nocopy_def

lemma ig_GuestConnectionStep1_store:
  assumes ok: "ig_GuestConnectionStep1_ok obj"
  shows "store_fields ig_GuestConnectionStep1_cases (ig_GuestConnectionStep1_fields obj)
    ig_GuestConnectionStep1_init = Some obj"
proof -
  have h: "str_ok (GuestConnectionStep1_has_token obj) (GuestConnectionStep1_token obj)
    (GuestConnectionStep1_token_size obj)"
    and valid: "ig_GuestConnectionStep1_is_valid obj"
    using ok by (simp_all add: ig_GuestConnectionStep1_ok_def)
  show ?thesis
    using valid
    by (simp add: ig_GuestConnectionStep1_fields_def ig_GuestConnectionStep1_cases_def
      ig_GuestConnectionStep1_init_def codec_simps
        ig_GuestConnectionStep1_setters split del: if_split)
       (simp add: ig_GuestConnectionStep1_is_valid_def
         str_ok_store [OF h(1)])
qed

lemma ig_GuestConnectionStep1_bound:
  assumes "ig_GuestConnectionStep1_ok obj"
  shows "2 + length (number_bytes 9 MtUnsigned) + fields_bound (ig_GuestConnectionStep1_fields obj)
    \<le> unat (ig_GuestConnectionStep1_get_max_payload_in_bytes obj)"
proof -
  have sizes: "GuestConnectionStep1_token_size obj < 2 ^ 24"
    using assms by (auto simp: ig_GuestConnectionStep1_ok_def dest!: str_ok_bound)
  show ?thesis
    using sizes number_bytes_size [of "GuestConnectionStep1_token_size obj" "0x40"]
    by (simp add: ig_GuestConnectionStep1_fields_def
      ig_GuestConnectionStep1_get_max_payload_in_bytes_def number_bytes_literal
        unat_of_nat_small del: of_nat_add)
qed

interpretation GuestConnectionStep1_codec: ig_message ig_GuestConnectionStep1_encode
  ig_GuestConnectionStep1_decode
  ig_GuestConnectionStep1_get_max_payload_in_bytes ig_GuestConnectionStep1_is_valid
    ig_GuestConnectionStep1_init ig_GuestConnectionStep1_ok 9
  ig_GuestConnectionStep1_fields_size ig_GuestConnectionStep1_fields ig_GuestConnectionStep1_cases
  by (unfold_locales;
      (rule ig_GuestConnectionStep1_encode_def ig_GuestConnectionStep1_decode_def | erule
        ig_GuestConnectionStep1_store ig_GuestConnectionStep1_bound |
       auto simp: ig_GuestConnectionStep1_cases_def ig_GuestConnectionStep1_fields_def
         ig_GuestConnectionStep1_fields_size_def ig_GuestConnectionStep1_ok_def
         simp del: arg_block_ok.simps(1,2) intro: str_ok_block))

subsection \<open>GuestConnectionStep2\<close>

record IgGuestConnectionStep2 =
  GuestConnectionStep2_has_nonce :: bool
  GuestConnectionStep2_nonce :: block_ptr
  GuestConnectionStep2_nonce_size :: nat

definition ig_GuestConnectionStep2_init :: IgGuestConnectionStep2 where
  "ig_GuestConnectionStep2_init =
     \<lparr>GuestConnectionStep2_has_nonce = False,
      GuestConnectionStep2_nonce = None,
      GuestConnectionStep2_nonce_size = 0\<rparr>"

definition ig_GuestConnectionStep2_get_nonce_size :: "IgGuestConnectionStep2 \<Rightarrow> nat" where
  "ig_GuestConnectionStep2_get_nonce_size obj = GuestConnectionStep2_nonce_size obj"

definition ig_GuestConnectionStep2_set_nonce_nocopy ::
  "bool \<Rightarrow> block_ptr \<Rightarrow> nat \<Rightarrow> IgGuestConnectionStep2
    \<Rightarrow> IgGuestConnectionStep2" where
  "ig_GuestConnectionStep2_set_nonce_nocopy same_ptr p n obj =
     (if same_ptr then obj
      else let obj = (if GuestConnectionStep2_has_nonce obj then
        obj\<lparr>GuestConnectionStep2_nonce := None\<rparr> else obj)
        in obj\<lparr>GuestConnectionStep2_nonce := p, GuestConnectionStep2_nonce_size := n,
          GuestConnectionStep2_has_nonce := n > 0\<rparr>)"

definition ig_GuestConnectionStep2_set_nonce ::
  "bool \<Rightarrow> block_ptr \<Rightarrow> nat \<Rightarrow> IgGuestConnectionStep2
    \<Rightarrow> IgGuestConnectionStep2 res" where
  "ig_GuestConnectionStep2_set_nonce same_ptr p n obj =
     (if same_ptr then Ok obj
      else let obj = (if GuestConnectionStep2_has_nonce obj then
        obj\<lparr>GuestConnectionStep2_nonce := None\<rparr> else obj)
        in bindR (block_read p n) (\<lambda>d.
          Ok (obj\<lparr>GuestConnectionStep2_nonce := Some d, GuestConnectionStep2_nonce_size :=
            n, GuestConnectionStep2_has_nonce := n > 0\<rparr>)))"

definition ig_GuestConnectionStep2_deinit :: "IgGuestConnectionStep2 \<Rightarrow>
  IgGuestConnectionStep2" where
  "ig_GuestConnectionStep2_deinit obj = (let
     obj = (if GuestConnectionStep2_has_nonce obj then obj\<lparr>GuestConnectionStep2_nonce :=
       None\<rparr> else obj)
   in obj)"

definition ig_GuestConnectionStep2_is_valid :: "IgGuestConnectionStep2 \<Rightarrow> bool" where
  "ig_GuestConnectionStep2_is_valid obj \<longleftrightarrow> GuestConnectionStep2_has_nonce obj"

definition ig_GuestConnectionStep2_get_max_payload_in_bytes :: "IgGuestConnectionStep2
  \<Rightarrow> u32" where
  "ig_GuestConnectionStep2_get_max_payload_in_bytes obj = word_of_nat (20 +
    GuestConnectionStep2_nonce_size obj)"

definition ig_GuestConnectionStep2_fields_size :: "IgGuestConnectionStep2 \<Rightarrow> u64" where
  "ig_GuestConnectionStep2_fields_size obj = 1 + 1"

definition ig_GuestConnectionStep2_fields :: "IgGuestConnectionStep2 \<Rightarrow> enc_field list" where
  "ig_GuestConnectionStep2_fields obj =
    [(True, 11, ABytes (GuestConnectionStep2_nonce obj) (GuestConnectionStep2_nonce_size obj))]"

definition ig_GuestConnectionStep2_encode ::
  "IgGuestConnectionStep2 \<Rightarrow> bytes \<Rightarrow> u32 \<Rightarrow> (nat \<times> bytes
    \<times> nat option) res" where
  "ig_GuestConnectionStep2_encode obj retval len =
     (if \<not> ig_GuestConnectionStep2_is_valid obj then Ok (IgSerializerErrorInvalidPayload, retval, None)
      else ig_encode (ig_GuestConnectionStep2_fields_size obj) 10 (ig_GuestConnectionStep2_fields
        obj) retval len)"

definition ig_GuestConnectionStep2_cases :: "(i64 \<times> IgGuestConnectionStep2 case_body) list" where
  "ig_GuestConnectionStep2_cases =
    [(0, CMsgId 10),
     (11, CBytes (ig_GuestConnectionStep2_set_nonce_nocopy False))]"

definition ig_GuestConnectionStep2_decode :: "bytes \<Rightarrow> IgGuestConnectionStep2
  \<Rightarrow> nat \<Rightarrow> (nat \<times> IgGuestConnectionStep2) res" where
  "ig_GuestConnectionStep2_decode buf obj index = ig_decode ig_GuestConnectionStep2_cases buf obj index"

definition ig_GuestConnectionStep2_ok :: "IgGuestConnectionStep2 \<Rightarrow> bool" where
  "ig_GuestConnectionStep2_ok obj \<longleftrightarrow> ig_GuestConnectionStep2_is_valid obj \<and>
     str_ok (GuestConnectionStep2_has_nonce obj) (GuestConnectionStep2_nonce obj)
       (GuestConnectionStep2_nonce_size obj)"

lemmas ig_GuestConnectionStep2_setters =
  ig_GuestConnectionStep2_set_nonce_nocopy_def

lemma ig_GuestConnectionStep2_store:
  assumes ok: "ig_GuestConnectionStep2_ok obj"
  shows "store_fields ig_GuestConnectionStep2_cases (ig_GuestConnectionStep2_fields obj)
    ig_GuestConnectionStep2_init = Some obj"
proof -
  have h: "str_ok (GuestConnectionStep2_has_nonce obj) (GuestConnectionStep2_nonce obj)
    (GuestConnectionStep2_nonce_size obj)"
    and valid: "ig_GuestConnectionStep2_is_valid obj"
    using ok by (simp_all add: ig_GuestConnectionStep2_ok_def)
  show ?thesis
    using valid
    by (simp add: ig_GuestConnectionStep2_fields_def ig_GuestConnectionStep2_cases_def
      ig_GuestConnectionStep2_init_def codec_simps
        ig_GuestConnectionStep2_setters split del: if_split)
       (simp add: ig_GuestConnectionStep2_is_valid_def
         str_ok_store [OF h(1)])
qed

lemma ig_GuestConnectionStep2_bound:
  assumes "ig_GuestConnectionStep2_ok obj"
  shows "2 + length (number_bytes 10 MtUnsigned) + fields_bound (ig_GuestConnectionStep2_fields obj)
    \<le> unat (ig_GuestConnectionStep2_get_max_payload_in_bytes obj)"
proof -
  have sizes: "GuestConnectionStep2_nonce_size obj < 2 ^ 24"
    using assms by (auto simp: ig_GuestConnectionStep2_ok_def dest!: str_ok_bound)
  show ?thesis
    using sizes number_bytes_size [of "GuestConnectionStep2_nonce_size obj" "0x40"]
    by (simp add: ig_GuestConnectionStep2_fields_def
      ig_GuestConnectionStep2_get_max_payload_in_bytes_def number_bytes_literal
        unat_of_nat_small del: of_nat_add)
qed

interpretation GuestConnectionStep2_codec: ig_message ig_GuestConnectionStep2_encode
  ig_GuestConnectionStep2_decode
  ig_GuestConnectionStep2_get_max_payload_in_bytes ig_GuestConnectionStep2_is_valid
    ig_GuestConnectionStep2_init ig_GuestConnectionStep2_ok 10
  ig_GuestConnectionStep2_fields_size ig_GuestConnectionStep2_fields ig_GuestConnectionStep2_cases
  by (unfold_locales;
      (rule ig_GuestConnectionStep2_encode_def ig_GuestConnectionStep2_decode_def | erule
        ig_GuestConnectionStep2_store ig_GuestConnectionStep2_bound |
       auto simp: ig_GuestConnectionStep2_cases_def ig_GuestConnectionStep2_fields_def
         ig_GuestConnectionStep2_fields_size_def ig_GuestConnectionStep2_ok_def
         simp del: arg_block_ok.simps(1,2) intro: str_ok_block))

subsection \<open>GuestConnectionStep3\<close>

record IgGuestConnectionStep3 =
  GuestConnectionStep3_has_nonce :: bool
  GuestConnectionStep3_nonce :: block_ptr
  GuestConnectionStep3_nonce_size :: nat

definition ig_GuestConnectionStep3_init :: IgGuestConnectionStep3 where
  "ig_GuestConnectionStep3_init =
     \<lparr>GuestConnectionStep3_has_nonce = False,
      GuestConnectionStep3_nonce = None,
      GuestConnectionStep3_nonce_size = 0\<rparr>"

definition ig_GuestConnectionStep3_get_nonce_size :: "IgGuestConnectionStep3 \<Rightarrow> nat" where
  "ig_GuestConnectionStep3_get_nonce_size obj = GuestConnectionStep3_nonce_size obj"

definition ig_GuestConnectionStep3_set_nonce_nocopy ::
  "bool \<Rightarrow> block_ptr \<Rightarrow> nat \<Rightarrow> IgGuestConnectionStep3
    \<Rightarrow> IgGuestConnectionStep3" where
  "ig_GuestConnectionStep3_set_nonce_nocopy same_ptr p n obj =
     (if same_ptr then obj
      else let obj = (if GuestConnectionStep3_has_nonce obj then
        obj\<lparr>GuestConnectionStep3_nonce := None\<rparr> else obj)
        in obj\<lparr>GuestConnectionStep3_nonce := p, GuestConnectionStep3_nonce_size := n,
          GuestConnectionStep3_has_nonce := n > 0\<rparr>)"

definition ig_GuestConnectionStep3_set_nonce ::
  "bool \<Rightarrow> block_ptr \<Rightarrow> nat \<Rightarrow> IgGuestConnectionStep3
    \<Rightarrow> IgGuestConnectionStep3 res" where
  "ig_GuestConnectionStep3_set_nonce same_ptr p n obj =
     (if same_ptr then Ok obj
      else let obj = (if GuestConnectionStep3_has_nonce obj then
        obj\<lparr>GuestConnectionStep3_nonce := None\<rparr> else obj)
        in bindR (block_read p n) (\<lambda>d.
          Ok (obj\<lparr>GuestConnectionStep3_nonce := Some d, GuestConnectionStep3_nonce_size :=
            n, GuestConnectionStep3_has_nonce := n > 0\<rparr>)))"

definition ig_GuestConnectionStep3_deinit :: "IgGuestConnectionStep3 \<Rightarrow>
  IgGuestConnectionStep3" where
  "ig_GuestConnectionStep3_deinit obj = (let
     obj = (if GuestConnectionStep3_has_nonce obj then obj\<lparr>GuestConnectionStep3_nonce :=
       None\<rparr> else obj)
   in obj)"

definition ig_GuestConnectionStep3_is_valid :: "IgGuestConnectionStep3 \<Rightarrow> bool" where
  "ig_GuestConnectionStep3_is_valid obj \<longleftrightarrow> GuestConnectionStep3_has_nonce obj"

definition ig_GuestConnectionStep3_get_max_payload_in_bytes :: "IgGuestConnectionStep3
  \<Rightarrow> u32" where
  "ig_GuestConnectionStep3_get_max_payload_in_bytes obj = word_of_nat (20 +
    GuestConnectionStep3_nonce_size obj)"

definition ig_GuestConnectionStep3_fields_size :: "IgGuestConnectionStep3 \<Rightarrow> u64" where
  "ig_GuestConnectionStep3_fields_size obj = 1 + 1"

definition ig_GuestConnectionStep3_fields :: "IgGuestConnectionStep3 \<Rightarrow> enc_field list" where
  "ig_GuestConnectionStep3_fields obj =
    [(True, 11, ABytes (GuestConnectionStep3_nonce obj) (GuestConnectionStep3_nonce_size obj))]"

definition ig_GuestConnectionStep3_encode ::
  "IgGuestConnectionStep3 \<Rightarrow> bytes \<Rightarrow> u32 \<Rightarrow> (nat \<times> bytes
    \<times> nat option) res" where
  "ig_GuestConnectionStep3_encode obj retval len =
     (if \<not> ig_GuestConnectionStep3_is_valid obj then Ok (IgSerializerErrorInvalidPayload, retval, None)
      else ig_encode (ig_GuestConnectionStep3_fields_size obj) 11 (ig_GuestConnectionStep3_fields
        obj) retval len)"

definition ig_GuestConnectionStep3_cases :: "(i64 \<times> IgGuestConnectionStep3 case_body) list" where
  "ig_GuestConnectionStep3_cases =
    [(0, CMsgId 11),
     (11, CBytes (ig_GuestConnectionStep3_set_nonce_nocopy False))]"

definition ig_GuestConnectionStep3_decode :: "bytes \<Rightarrow> IgGuestConnectionStep3
  \<Rightarrow> nat \<Rightarrow> (nat \<times> IgGuestConnectionStep3) res" where
  "ig_GuestConnectionStep3_decode buf obj index = ig_decode ig_GuestConnectionStep3_cases buf obj index"

definition ig_GuestConnectionStep3_ok :: "IgGuestConnectionStep3 \<Rightarrow> bool" where
  "ig_GuestConnectionStep3_ok obj \<longleftrightarrow> ig_GuestConnectionStep3_is_valid obj \<and>
     str_ok (GuestConnectionStep3_has_nonce obj) (GuestConnectionStep3_nonce obj)
       (GuestConnectionStep3_nonce_size obj)"

lemmas ig_GuestConnectionStep3_setters =
  ig_GuestConnectionStep3_set_nonce_nocopy_def

lemma ig_GuestConnectionStep3_store:
  assumes ok: "ig_GuestConnectionStep3_ok obj"
  shows "store_fields ig_GuestConnectionStep3_cases (ig_GuestConnectionStep3_fields obj)
    ig_GuestConnectionStep3_init = Some obj"
proof -
  have h: "str_ok (GuestConnectionStep3_has_nonce obj) (GuestConnectionStep3_nonce obj)
    (GuestConnectionStep3_nonce_size obj)"
    and valid: "ig_GuestConnectionStep3_is_valid obj"
    using ok by (simp_all add: ig_GuestConnectionStep3_ok_def)
  show ?thesis
    using valid
    by (simp add: ig_GuestConnectionStep3_fields_def ig_GuestConnectionStep3_cases_def
      ig_GuestConnectionStep3_init_def codec_simps
        ig_GuestConnectionStep3_setters split del: if_split)
       (simp add: ig_GuestConnectionStep3_is_valid_def
         str_ok_store [OF h(1)])
qed

lemma ig_GuestConnectionStep3_bound:
  assumes "ig_GuestConnectionStep3_ok obj"
  shows "2 + length (number_bytes 11 MtUnsigned) + fields_bound (ig_GuestConnectionStep3_fields obj)
    \<le> unat (ig_GuestConnectionStep3_get_max_payload_in_bytes obj)"
proof -
  have sizes: "GuestConnectionStep3_nonce_size obj < 2 ^ 24"
    using assms by (auto simp: ig_GuestConnectionStep3_ok_def dest!: str_ok_bound)
  show ?thesis
    using sizes number_bytes_size [of "GuestConnectionStep3_nonce_size obj" "0x40"]
    by (simp add: ig_GuestConnectionStep3_fields_def
      ig_GuestConnectionStep3_get_max_payload_in_bytes_def number_bytes_literal
        unat_of_nat_small del: of_nat_add)
qed

interpretation GuestConnectionStep3_codec: ig_message ig_GuestConnectionStep3_encode
  ig_GuestConnectionStep3_decode
  ig_GuestConnectionStep3_get_max_payload_in_bytes ig_GuestConnectionStep3_is_valid
    ig_GuestConnectionStep3_init ig_GuestConnectionStep3_ok 11
  ig_GuestConnectionStep3_fields_size ig_GuestConnectionStep3_fields ig_GuestConnectionStep3_cases
  by (unfold_locales;
      (rule ig_GuestConnectionStep3_encode_def ig_GuestConnectionStep3_decode_def | erule
        ig_GuestConnectionStep3_store ig_GuestConnectionStep3_bound |
       auto simp: ig_GuestConnectionStep3_cases_def ig_GuestConnectionStep3_fields_def
         ig_GuestConnectionStep3_fields_size_def ig_GuestConnectionStep3_ok_def
         simp del: arg_block_ok.simps(1,2) intro: str_ok_block))

subsection \<open>GuestConnectionStep4\<close>

record IgGuestConnectionStep4 =
  GuestConnectionStep4_has_success :: bool
  GuestConnectionStep4_success :: bool

definition ig_GuestConnectionStep4_init :: IgGuestConnectionStep4 where
  "ig_GuestConnectionStep4_init =
     \<lparr>GuestConnectionStep4_has_success = False,
      GuestConnectionStep4_success = False\<rparr>"

definition ig_GuestConnectionStep4_set_success :: "bool \<Rightarrow> IgGuestConnectionStep4
  \<Rightarrow> IgGuestConnectionStep4" where
  "ig_GuestConnectionStep4_set_success v obj = obj\<lparr>GuestConnectionStep4_success := v,
    GuestConnectionStep4_has_success := True\<rparr>"

definition ig_GuestConnectionStep4_deinit :: "IgGuestConnectionStep4 \<Rightarrow>
  IgGuestConnectionStep4" where
  "ig_GuestConnectionStep4_deinit obj = obj"

definition ig_GuestConnectionStep4_is_valid :: "IgGuestConnectionStep4 \<Rightarrow> bool" where
  "ig_GuestConnectionStep4_is_valid obj \<longleftrightarrow> GuestConnectionStep4_has_success obj"

definition ig_GuestConnectionStep4_get_max_payload_in_bytes :: "IgGuestConnectionStep4
  \<Rightarrow> u32" where
  "ig_GuestConnectionStep4_get_max_payload_in_bytes obj = 15"

definition ig_GuestConnectionStep4_fields_size :: "IgGuestConnectionStep4 \<Rightarrow> u64" where
  "ig_GuestConnectionStep4_fields_size obj = 1 + 1"

definition ig_GuestConnectionStep4_fields :: "IgGuestConnectionStep4 \<Rightarrow> enc_field list" where
  "ig_GuestConnectionStep4_fields obj =
    [(True, 11, ABool (GuestConnectionStep4_success obj))]"

definition ig_GuestConnectionStep4_encode ::
  "IgGuestConnectionStep4 \<Rightarrow> bytes \<Rightarrow> u32 \<Rightarrow> (nat \<times> bytes
    \<times> nat option) res" where
  "ig_GuestConnectionStep4_encode obj retval len =
     (if \<not> ig_GuestConnectionStep4_is_valid obj then Ok (IgSerializerErrorInvalidPayload, retval, None)
      else ig_encode (ig_GuestConnectionStep4_fields_size obj) 12 (ig_GuestConnectionStep4_fields
        obj) retval len)"

definition ig_GuestConnectionStep4_cases :: "(i64 \<times> IgGuestConnectionStep4 case_body) list" where
  "ig_GuestConnectionStep4_cases =
    [(0, CMsgId 12),
     (11, CBool ig_GuestConnectionStep4_set_success)]"

definition ig_GuestConnectionStep4_decode :: "bytes \<Rightarrow> IgGuestConnectionStep4
  \<Rightarrow> nat \<Rightarrow> (nat \<times> IgGuestConnectionStep4) res" where
  "ig_GuestConnectionStep4_decode buf obj index = ig_decode ig_GuestConnectionStep4_cases buf obj index"

definition ig_GuestConnectionStep4_ok :: "IgGuestConnectionStep4 \<Rightarrow> bool" where
  "ig_GuestConnectionStep4_ok obj \<longleftrightarrow> ig_GuestConnectionStep4_is_valid obj \<and>
     flag_ok (GuestConnectionStep4_has_success obj) (GuestConnectionStep4_success obj)"

lemmas ig_GuestConnectionStep4_setters =
  ig_GuestConnectionStep4_set_success_def

lemma ig_GuestConnectionStep4_store:
  assumes ok: "ig_GuestConnectionStep4_ok obj"
  shows "store_fields ig_GuestConnectionStep4_cases (ig_GuestConnectionStep4_fields obj)
    ig_GuestConnectionStep4_init = Some obj"
proof -
  have h: "flag_ok (GuestConnectionStep4_has_success obj) (GuestConnectionStep4_success obj)"
    and valid: "ig_GuestConnectionStep4_is_valid obj"
    using ok by (simp_all add: ig_GuestConnectionStep4_ok_def)
  show ?thesis
    using valid
    by (simp add: ig_GuestConnectionStep4_fields_def ig_GuestConnectionStep4_cases_def
      ig_GuestConnectionStep4_init_def codec_simps
        ig_GuestConnectionStep4_setters split del: if_split)
       (simp add: ig_GuestConnectionStep4_is_valid_def
         flag_ok_store [OF h(1)])
qed

lemma ig_GuestConnectionStep4_bound:
  assumes "ig_GuestConnectionStep4_ok obj"
  shows "2 + length (number_bytes 12 MtUnsigned) + fields_bound (ig_GuestConnectionStep4_fields obj)
    \<le> unat (ig_GuestConnectionStep4_get_max_payload_in_bytes obj)"
  using assms
  by (simp add: ig_GuestConnectionStep4_fields_def
    ig_GuestConnectionStep4_get_max_payload_in_bytes_def number_bytes_literal)

interpretation GuestConnectionStep4_codec: ig_message ig_GuestConnectionStep4_encode
  ig_GuestConnectionStep4_decode
  ig_GuestConnectionStep4_get_max_payload_in_bytes ig_GuestConnectionStep4_is_valid
    ig_GuestConnectionStep4_init ig_GuestConnectionStep4_ok 12
  ig_GuestConnectionStep4_fields_size ig_GuestConnectionStep4_fields ig_GuestConnectionStep4_cases
  by (unfold_locales;
      (rule ig_GuestConnectionStep4_encode_def ig_GuestConnectionStep4_decode_def | erule
        ig_GuestConnectionStep4_store ig_GuestConnectionStep4_bound |
       auto simp: ig_GuestConnectionStep4_cases_def ig_GuestConnectionStep4_fields_def
         ig_GuestConnectionStep4_fields_size_def ig_GuestConnectionStep4_ok_def
         simp del: arg_block_ok.simps(1,2) intro: str_ok_block))

subsection \<open>GuestToken\<close>

record IgGuestToken =
  GuestToken_has_key_id :: bool
  GuestToken_key_id :: u32
  GuestToken_has_start_date :: bool
  GuestToken_start_date :: u32
  GuestToken_has_end_date :: bool
  GuestToken_end_date :: u32
  GuestToken_has_aes_key :: bool
  GuestToken_aes_key :: block_ptr
  GuestToken_aes_key_size :: nat
  GuestToken_has_access_rights :: bool
  GuestToken_access_rights :: block_ptr
  GuestToken_access_rights_size :: nat

definition ig_GuestToken_init :: IgGuestToken where
  "ig_GuestToken_init =
     \<lparr>GuestToken_has_key_id = False,
      GuestToken_key_id = 0,
      GuestToken_has_start_date = False,
      GuestToken_start_date = 0,
      GuestToken_has_end_date = False,
      GuestToken_end_date = 0,
      GuestToken_has_aes_key = False,
      GuestToken_aes_key = None,
      GuestToken_aes_key_size = 0,
      GuestToken_has_access_rights = False,
      GuestToken_access_rights = None,
      GuestToken_access_rights_size = 0\<rparr>"

definition ig_GuestToken_set_key_id :: "u32 \<Rightarrow> IgGuestToken \<Rightarrow> IgGuestToken" where
  "ig_GuestToken_set_key_id v obj = obj\<lparr>GuestToken_key_id := v, GuestToken_has_key_id := True\<rparr>"

definition ig_GuestToken_set_start_date :: "u32 \<Rightarrow> IgGuestToken \<Rightarrow> IgGuestToken" where
  "ig_GuestToken_set_start_date v obj = obj\<lparr>GuestToken_start_date := v,
    GuestToken_has_start_date := True\<rparr>"

definition ig_GuestToken_set_end_date :: "u32 \<Rightarrow> IgGuestToken \<Rightarrow> IgGuestToken" where
  "ig_GuestToken_set_end_date v obj = obj\<lparr>GuestToken_end_date := v, GuestToken_has_end_date
    := True\<rparr>"

definition ig_GuestToken_get_aes_key_size :: "IgGuestToken \<Rightarrow> nat" where
  "ig_GuestToken_get_aes_key_size obj = GuestToken_aes_key_size obj"

definition ig_GuestToken_set_aes_key_nocopy ::
  "bool \<Rightarrow> block_ptr \<Rightarrow> nat \<Rightarrow> IgGuestToken \<Rightarrow> IgGuestToken" where
  "ig_GuestToken_set_aes_key_nocopy same_ptr p n obj =
     (if same_ptr then obj
      else let obj = (if GuestToken_has_aes_key obj then obj\<lparr>GuestToken_aes_key :=
        None\<rparr> else obj)
        in obj\<lparr>GuestToken_aes_key := p, GuestToken_aes_key_size := n, GuestToken_has_aes_key
          := n > 0\<rparr>)"

definition ig_GuestToken_set_aes_key ::
  "bool \<Rightarrow> block_ptr \<Rightarrow> nat \<Rightarrow> IgGuestToken \<Rightarrow>
    IgGuestToken res" where
  "ig_GuestToken_set_aes_key same_ptr p n obj =
     (if same_ptr then Ok obj
      else let obj = (if GuestToken_has_aes_key obj then obj\<lparr>GuestToken_aes_key :=
        None\<rparr> else obj)
        in bindR (block_read p n) (\<lambda>d.
          Ok (obj\<lparr>GuestToken_aes_key := Some d, GuestToken_aes_key_size := n,
            GuestToken_has_aes_key := n > 0\<rparr>)))"

definition ig_GuestToken_get_access_rights_size :: "IgGuestToken \<Rightarrow> nat" where
  "ig_GuestToken_get_access_rights_size obj = GuestToken_access_rights_size obj"

definition ig_GuestToken_set_access_rights_nocopy ::
  "bool \<Rightarrow> block_ptr \<Rightarrow> nat \<Rightarrow> IgGuestToken \<Rightarrow> IgGuestToken" where
  "ig_GuestToken_set_access_rights_nocopy same_ptr p n obj =
     (if same_ptr then obj
      else let obj = (if GuestToken_has_access_rights obj then obj\<lparr>GuestToken_access_rights
        := None\<rparr> else obj)
        in obj\<lparr>GuestToken_access_rights := p, GuestToken_access_rights_size := n,
          GuestToken_has_access_rights := n > 0\<rparr>)"

definition ig_GuestToken_set_access_rights ::
  "bool \<Rightarrow> block_ptr \<Rightarrow> nat \<Rightarrow> IgGuestToken \<Rightarrow>
    IgGuestToken res" where
  "ig_GuestToken_set_access_rights same_ptr p n obj =
     (if same_ptr then Ok obj
      else let obj = (if GuestToken_has_access_rights obj then obj\<lparr>GuestToken_access_rights
        := None\<rparr> else obj)
        in bindR (block_read p n) (\<lambda>d.
          Ok (obj\<lparr>GuestToken_access_rights := Some d, GuestToken_access_rights_size := n,
            GuestToken_has_access_rights := n > 0\<rparr>)))"

definition ig_GuestToken_deinit :: "IgGuestToken \<Rightarrow> IgGuestToken" where
  "ig_GuestToken_deinit obj = (let
     obj = (if GuestToken_has_aes_key obj then obj\<lparr>GuestToken_aes_key := None\<rparr> else obj);
     obj = (if GuestToken_has_access_rights obj then obj\<lparr>GuestToken_access_rights :=
       None\<rparr> else obj)
   in obj)"

definition ig_GuestToken_is_valid :: "IgGuestToken \<Rightarrow> bool" where
  "ig_GuestToken_is_valid obj \<longleftrightarrow> GuestToken_has_key_id obj"

definition ig_GuestToken_get_max_payload_in_bytes :: "IgGuestToken \<Rightarrow> u32" where
  "ig_GuestToken_get_max_payload_in_bytes obj = word_of_nat (45 + GuestToken_aes_key_size obj +
    GuestToken_access_rights_size obj)"

definition ig_GuestToken_fields_size :: "IgGuestToken \<Rightarrow> u64" where
  "ig_GuestToken_fields_size obj = 1 + 1 + of_bool (GuestToken_has_start_date obj) + of_bool
    (GuestToken_has_end_date obj) + of_bool (GuestToken_has_aes_key obj) + of_bool
      (GuestToken_has_access_rights obj)"

definition ig_GuestToken_fields :: "IgGuestToken \<Rightarrow> enc_field list" where
  "ig_GuestToken_fields obj =
    [(True, 11, AUint (ucast (GuestToken_key_id obj))),
     (GuestToken_has_start_date obj, 12, AUint (ucast (GuestToken_start_date obj))),
     (GuestToken_has_end_date obj, 13, AUint (ucast (GuestToken_end_date obj))),
     (GuestToken_has_aes_key obj, 14, ABytes (GuestToken_aes_key obj) (GuestToken_aes_key_size obj)),
     (GuestToken_has_access_rights obj, 15, ABytes (GuestToken_access_rights obj)
       (GuestToken_access_rights_size obj))]"

definition ig_GuestToken_encode ::
  "IgGuestToken \<Rightarrow> bytes \<Rightarrow> u32 \<Rightarrow> (nat \<times> bytes \<times>
    nat option) res" where
  "ig_GuestToken_encode obj retval len =
     (if \<not> ig_GuestToken_is_valid obj then Ok (IgSerializerErrorInvalidPayload, retval, None)
      else ig_encode (ig_GuestToken_fields_size obj) 202 (ig_GuestToken_fields obj) retval len)"

definition ig_GuestToken_cases :: "(i64 \<times> IgGuestToken case_body) list" where
  "ig_GuestToken_cases =
    [(0, CMsgId 202),
     (11, CUint (\<lambda>v. ig_GuestToken_set_key_id (ucast v))),
     (12, CUint (\<lambda>v. ig_GuestToken_set_start_date (ucast v))),
     (13, CUint (\<lambda>v. ig_GuestToken_set_end_date (ucast v))),
     (14, CBytes (ig_GuestToken_set_aes_key_nocopy False)),
     (15, CBytes (ig_GuestToken_set_access_rights_nocopy False))]"

definition ig_GuestToken_decode :: "bytes \<Rightarrow> IgGuestToken \<Rightarrow> nat
  \<Rightarrow> (nat \<times> IgGuestToken) res" where
  "ig_GuestToken_decode buf obj index = ig_decode ig_GuestToken_cases buf obj index"

definition ig_GuestToken_ok :: "IgGuestToken \<Rightarrow> bool" where
  "ig_GuestToken_ok obj \<longleftrightarrow> ig_GuestToken_is_valid obj \<and>
     num_ok (GuestToken_has_key_id obj) (GuestToken_key_id obj) \<and>
     num_ok (GuestToken_has_start_date obj) (GuestToken_start_date obj) \<and>
     num_ok (GuestToken_has_end_date obj) (GuestToken_end_date obj) \<and>
     str_ok (GuestToken_has_aes_key obj) (GuestToken_aes_key obj) (GuestToken_aes_key_size obj) \<and>
     str_ok (GuestToken_has_access_rights obj) (GuestToken_access_rights obj)
       (GuestToken_access_rights_size obj)"

lemmas ig_GuestToken_setters =
  ig_GuestToken_set_access_rights_nocopy_def
  ig_GuestToken_set_aes_key_nocopy_def
  ig_GuestToken_set_end_date_def
  ig_GuestToken_set_key_id_def
  ig_GuestToken_set_start_date_def

text \<open>A guarded setter, member by member.\<close>
lemma ig_GuestToken_set_if:
  "(if g then ig_GuestToken_set_start_date v0 obj else obj) =
     obj\<lparr>GuestToken_start_date := pick g v0 (GuestToken_start_date obj),
       GuestToken_has_start_date := g \<or> GuestToken_has_start_date obj\<rparr>"
  "(if g then ig_GuestToken_set_end_date v1 obj else obj) =
     obj\<lparr>GuestToken_end_date := pick g v1 (GuestToken_end_date obj),
       GuestToken_has_end_date := g \<or> GuestToken_has_end_date obj\<rparr>"
  "(if g then ig_GuestToken_set_aes_key_nocopy False p n obj else obj) =
     obj\<lparr>GuestToken_aes_key := pick g p (GuestToken_aes_key obj),
       GuestToken_aes_key_size := pick g n (GuestToken_aes_key_size obj),
       GuestToken_has_aes_key := pick g (n > 0) (GuestToken_has_aes_key obj)\<rparr>"
  "(if g then ig_GuestToken_set_access_rights_nocopy False p n obj else obj) =
     obj\<lparr>GuestToken_access_rights := pick g p (GuestToken_access_rights obj),
       GuestToken_access_rights_size := pick g n (GuestToken_access_rights_size obj),
       GuestToken_has_access_rights := pick g (n > 0) (GuestToken_has_access_rights obj)\<rparr>"
  by (simp_all add: ig_GuestToken_setters pick_def)

lemma ig_GuestToken_store:
  assumes ok: "ig_GuestToken_ok obj"
  shows "store_fields ig_GuestToken_cases (ig_GuestToken_fields obj) ig_GuestToken_init = Some obj"
proof -
  have h: "num_ok (GuestToken_has_key_id obj) (GuestToken_key_id obj)"
    "num_ok (GuestToken_has_start_date obj) (GuestToken_start_date obj)"
    "num_ok (GuestToken_has_end_date obj) (GuestToken_end_date obj)"
    "str_ok (GuestToken_has_aes_key obj) (GuestToken_aes_key obj) (GuestToken_aes_key_size obj)"
    "str_ok (GuestToken_has_access_rights obj) (GuestToken_access_rights obj)
      (GuestToken_access_rights_size obj)"
    and valid: "ig_GuestToken_is_valid obj"
    using ok by (simp_all add: ig_GuestToken_ok_def)
  show ?thesis
    using valid
    by (simp add: ig_GuestToken_fields_def ig_GuestToken_cases_def ig_GuestToken_init_def codec_simps
        ig_GuestToken_set_if ig_GuestToken_setters split del: if_split)
       (simp add: ig_GuestToken_is_valid_def
         num_ok_store [OF h(1)]
         num_ok_store [OF h(2)]
         num_ok_store [OF h(3)]
         str_ok_store [OF h(4)]
         str_ok_store [OF h(5)])
qed

lemma ig_GuestToken_bound:
  assumes "ig_GuestToken_ok obj"
  shows "2 + length (number_bytes 202 MtUnsigned) + fields_bound (ig_GuestToken_fields obj)
    \<le> unat (ig_GuestToken_get_max_payload_in_bytes obj)"
proof -
  have sizes: "GuestToken_aes_key_size obj < 2 ^ 24" "GuestToken_access_rights_size obj < 2 ^ 24"
    using assms by (auto simp: ig_GuestToken_ok_def dest!: str_ok_bound)
  show ?thesis
    using sizes number_bytes_u32 [of "GuestToken_key_id obj" 0]
      number_bytes_u32 [of "GuestToken_start_date obj" 0]
      number_bytes_u32 [of "GuestToken_end_date obj" 0]
      number_bytes_size [of "GuestToken_aes_key_size obj" "0x40"]
      number_bytes_size [of "GuestToken_access_rights_size obj" "0x40"]
    by (simp add: ig_GuestToken_fields_def ig_GuestToken_get_max_payload_in_bytes_def number_bytes_literal
        unat_of_nat_small del: of_nat_add)
qed

interpretation GuestToken_codec: ig_message ig_GuestToken_encode ig_GuestToken_decode
  ig_GuestToken_get_max_payload_in_bytes ig_GuestToken_is_valid ig_GuestToken_init ig_GuestToken_ok 202
  ig_GuestToken_fields_size ig_GuestToken_fields ig_GuestToken_cases
  by (unfold_locales;
      (rule ig_GuestToken_encode_def ig_GuestToken_decode_def | erule ig_GuestToken_store
        ig_GuestToken_bound |
       auto simp: ig_GuestToken_cases_def ig_GuestToken_fields_def ig_GuestToken_fields_size_def
         ig_GuestToken_ok_def
         simp del: arg_block_ok.simps(1,2) intro: str_ok_block))

subsection \<open>UnpairRequest\<close>

record IgUnpairRequest =
  UnpairRequest_has_password :: bool
  UnpairRequest_password :: block_ptr
  UnpairRequest_password_size :: nat
  UnpairRequest_has_force :: bool
  UnpairRequest_force :: bool
  UnpairRequest_has_operation_id :: bool
  UnpairRequest_operation_id :: u32

definition ig_UnpairRequest_init :: IgUnpairRequest where
  "ig_UnpairRequest_init =
     \<lparr>UnpairRequest_has_password = False,
      UnpairRequest_password = None,
      UnpairRequest_password_size = 0,
      UnpairRequest_has_force = False,
      UnpairRequest_force = False,
      UnpairRequest_has_operation_id = False,
      UnpairRequest_operation_id = 0\<rparr>"

definition ig_UnpairRequest_get_password_size :: "IgUnpairRequest \<Rightarrow> nat" where
  "ig_UnpairRequest_get_password_size obj = UnpairRequest_password_size obj"

definition ig_UnpairRequest_set_password_nocopy ::
  "bool \<Rightarrow> block_ptr \<Rightarrow> nat \<Rightarrow> IgUnpairRequest \<Rightarrow>
    IgUnpairRequest" where
  "ig_UnpairRequest_set_password_nocopy same_ptr p n obj =
     (if same_ptr then obj
      else let obj = (if UnpairRequest_has_password obj then obj\<lparr>UnpairRequest_password :=
        None\<rparr> else obj)
        in obj\<lparr>UnpairRequest_password := p, UnpairRequest_password_size := n,
          UnpairRequest_has_password := n > 0\<rparr>)"

definition ig_UnpairRequest_set_password ::
  "bool \<Rightarrow> block_ptr \<Rightarrow> nat \<Rightarrow> IgUnpairRequest \<Rightarrow>
    IgUnpairRequest res" where
  "ig_UnpairRequest_set_password same_ptr p n obj =
     (if same_ptr then Ok obj
      else let obj = (if UnpairRequest_has_password obj then obj\<lparr>UnpairRequest_password :=
        None\<rparr> else obj)
        in bindR (block_read p n) (\<lambda>d.
          Ok (obj\<lparr>UnpairRequest_password := Some d, UnpairRequest_password_size := n,
            UnpairRequest_has_password := n > 0\<rparr>)))"

definition ig_UnpairRequest_set_force :: "bool \<Rightarrow> IgUnpairRequest \<Rightarrow>
  IgUnpairRequest" where
  "ig_UnpairRequest_set_force v obj = obj\<lparr>UnpairRequest_force := v, UnpairRequest_has_force
    := True\<rparr>"

definition ig_UnpairRequest_set_operation_id :: "u32 \<Rightarrow> IgUnpairRequest \<Rightarrow>
  IgUnpairRequest" where
  "ig_UnpairRequest_set_operation_id v obj = obj\<lparr>UnpairRequest_operation_id := v,
    UnpairRequest_has_operation_id := True\<rparr>"

definition ig_UnpairRequest_deinit :: "IgUnpairRequest \<Rightarrow> IgUnpairRequest" where
  "ig_UnpairRequest_deinit obj = (let
     obj = (if UnpairRequest_has_password obj then obj\<lparr>UnpairRequest_password := None\<rparr> else obj)
   in obj)"

definition ig_UnpairRequest_is_valid :: "IgUnpairRequest \<Rightarrow> bool" where
  "ig_UnpairRequest_is_valid obj \<longleftrightarrow> UnpairRequest_has_password obj"

definition ig_UnpairRequest_get_max_payload_in_bytes :: "IgUnpairRequest \<Rightarrow> u32" where
  "ig_UnpairRequest_get_max_payload_in_bytes obj = word_of_nat (28 + UnpairRequest_password_size obj)"

definition ig_UnpairRequest_fields_size :: "IgUnpairRequest \<Rightarrow> u64" where
  "ig_UnpairRequest_fields_size obj = 1 + 1 + of_bool (UnpairRequest_has_force obj) + of_bool
    (UnpairRequest_has_operation_id obj)"

definition ig_UnpairRequest_fields :: "IgUnpairRequest \<Rightarrow> enc_field list" where
  "ig_UnpairRequest_fields obj =
    [(True, 11, ABytes (UnpairRequest_password obj) (UnpairRequest_password_size obj)),
     (UnpairRequest_has_force obj, 12, ABool (UnpairRequest_force obj)),
     (UnpairRequest_has_operation_id obj, 100, AUint (ucast (UnpairRequest_operation_id obj)))]"

definition ig_UnpairRequest_encode ::
  "IgUnpairRequest \<Rightarrow> bytes \<Rightarrow> u32 \<Rightarrow> (nat \<times> bytes \<times>
    nat option) res" where
  "ig_UnpairRequest_encode obj retval len =
     (if \<not> ig_UnpairRequest_is_valid obj then Ok (IgSerializerErrorInvalidPayload, retval, None)
      else ig_encode (ig_UnpairRequest_fields_size obj) 15 (ig_UnpairRequest_fields obj) retval len)"

definition ig_UnpairRequest_cases :: "(i64 \<times> IgUnpairRequest case_body) list" where
  "ig_UnpairRequest_cases =
    [(0, CMsgId 15),
     (11, CBytes (ig_UnpairRequest_set_password_nocopy False)),
     (12, CBool ig_UnpairRequest_set_force),
     (100, CUint (\<lambda>v. ig_UnpairRequest_set_operation_id (ucast v)))]"

definition ig_UnpairRequest_decode :: "bytes \<Rightarrow> IgUnpairRequest \<Rightarrow> nat
  \<Rightarrow> (nat \<times> IgUnpairRequest) res" where
  "ig_UnpairRequest_decode buf obj index = ig_decode ig_UnpairRequest_cases buf obj index"

definition ig_UnpairRequest_ok :: "IgUnpairRequest \<Rightarrow> bool" where
  "ig_UnpairRequest_ok obj \<longleftrightarrow> ig_UnpairRequest_is_valid obj \<and>
     str_ok (UnpairRequest_has_password obj) (UnpairRequest_password obj)
       (UnpairRequest_password_size obj) \<and>
     flag_ok (UnpairRequest_has_force obj) (UnpairRequest_force obj) \<and>
     num_ok (UnpairRequest_has_operation_id obj) (UnpairRequest_operation_id obj)"

lemmas ig_UnpairRequest_setters =
  ig_UnpairRequest_set_force_def
  ig_UnpairRequest_set_operation_id_def
  ig_UnpairRequest_set_password_nocopy_def

text \<open>A guarded setter, member by member.\<close>
lemma ig_UnpairRequest_set_if:
  "(if g then ig_UnpairRequest_set_force b obj else obj) =
     obj\<lparr>UnpairRequest_force := pick g b (UnpairRequest_force obj),
       UnpairRequest_has_force := g \<or> UnpairRequest_has_force obj\<rparr>"
  "(if g then ig_UnpairRequest_set_operation_id v1 obj else obj) =
     obj\<lparr>UnpairRequest_operation_id := pick g v1 (UnpairRequest_operation_id obj),
       UnpairRequest_has_operation_id := g \<or> UnpairRequest_has_operation_id obj\<rparr>"
  by (simp_all add: ig_UnpairRequest_setters pick_def)

lemma ig_UnpairRequest_store:
  assumes ok: "ig_UnpairRequest_ok obj"
  shows "store_fields ig_UnpairRequest_cases (ig_UnpairRequest_fields obj) ig_UnpairRequest_init = Some obj"
proof -
  have h: "str_ok (UnpairRequest_has_password obj) (UnpairRequest_password obj)
    (UnpairRequest_password_size obj)"
    "flag_ok (UnpairRequest_has_force obj) (UnpairRequest_force obj)"
    "num_ok (UnpairRequest_has_operation_id obj) (UnpairRequest_operation_id obj)"
    and valid: "ig_UnpairRequest_is_valid obj"
    using ok by (simp_all add: ig_UnpairRequest_ok_def)
  show ?thesis
    using valid
    by (simp add: ig_UnpairRequest_fields_def ig_UnpairRequest_cases_def ig_UnpairRequest_init_def codec_simps
        ig_UnpairRequest_set_if ig_UnpairRequest_setters split del: if_split)
       (simp add: ig_UnpairRequest_is_valid_def
         str_ok_store [OF h(1)]
         flag_ok_store [OF h(2)]
         num_ok_store [OF h(3)])
qed

lemma ig_UnpairRequest_bound:
  assumes "ig_UnpairRequest_ok obj"
  shows "2 + length (number_bytes 15 MtUnsigned) + fields_bound (ig_UnpairRequest_fields obj)
    \<le> unat (ig_UnpairRequest_get_max_payload_in_bytes obj)"
proof -
  have sizes: "UnpairRequest_password_size obj < 2 ^ 24"
    using assms by (auto simp: ig_UnpairRequest_ok_def dest!: str_ok_bound)
  show ?thesis
    using sizes number_bytes_size [of "UnpairRequest_password_size obj" "0x40"]
      number_bytes_u32 [of "UnpairRequest_operation_id obj" 0]
    by (simp add: ig_UnpairRequest_fields_def ig_UnpairRequest_get_max_payload_in_bytes_def
      number_bytes_literal
        unat_of_nat_small del: of_nat_add)
qed

interpretation UnpairRequest_codec: ig_message ig_UnpairRequest_encode ig_UnpairRequest_decode
  ig_UnpairRequest_get_max_payload_in_bytes ig_UnpairRequest_is_valid ig_UnpairRequest_init
    ig_UnpairRequest_ok 15
  ig_UnpairRequest_fields_size ig_UnpairRequest_fields ig_UnpairRequest_cases
  by (unfold_locales;
      (rule ig_UnpairRequest_encode_def ig_UnpairRequest_decode_def | erule ig_UnpairRequest_store
        ig_UnpairRequest_bound |
       auto simp: ig_UnpairRequest_cases_def ig_UnpairRequest_fields_def
         ig_UnpairRequest_fields_size_def ig_UnpairRequest_ok_def
         simp del: arg_block_ok.simps(1,2) intro: str_ok_block))

subsection \<open>UnpairResponse\<close>

record IgUnpairResponse =
  UnpairResponse_has_result :: bool
  UnpairResponse_result :: u8
  UnpairResponse_has_operation_id :: bool
  UnpairResponse_operation_id :: u32

definition ig_UnpairResponse_init :: IgUnpairResponse where
  "ig_UnpairResponse_init =
     \<lparr>UnpairResponse_has_result = False,
      UnpairResponse_result = 0,
      UnpairResponse_has_operation_id = False,
      UnpairResponse_operation_id = 0\<rparr>"

definition ig_UnpairResponse_set_result :: "u8 \<Rightarrow> IgUnpairResponse \<Rightarrow>
  IgUnpairResponse" where
  "ig_UnpairResponse_set_result v obj = obj\<lparr>UnpairResponse_result := v,
    UnpairResponse_has_result := True\<rparr>"

definition ig_UnpairResponse_set_operation_id :: "u32 \<Rightarrow> IgUnpairResponse \<Rightarrow>
  IgUnpairResponse" where
  "ig_UnpairResponse_set_operation_id v obj = obj\<lparr>UnpairResponse_operation_id := v,
    UnpairResponse_has_operation_id := True\<rparr>"

definition ig_UnpairResponse_deinit :: "IgUnpairResponse \<Rightarrow> IgUnpairResponse" where
  "ig_UnpairResponse_deinit obj = obj"

definition ig_UnpairResponse_is_valid :: "IgUnpairResponse \<Rightarrow> bool" where
  "ig_UnpairResponse_is_valid obj \<longleftrightarrow> UnpairResponse_has_result obj"

definition ig_UnpairResponse_get_max_payload_in_bytes :: "IgUnpairResponse \<Rightarrow> u32" where
  "ig_UnpairResponse_get_max_payload_in_bytes obj = 22"

definition ig_UnpairResponse_fields_size :: "IgUnpairResponse \<Rightarrow> u64" where
  "ig_UnpairResponse_fields_size obj = 1 + 1 + of_bool (UnpairResponse_has_operation_id obj)"

definition ig_UnpairResponse_fields :: "IgUnpairResponse \<Rightarrow> enc_field list" where
  "ig_UnpairResponse_fields obj =
    [(True, 11, AUint (ucast (UnpairResponse_result obj))),
     (UnpairResponse_has_operation_id obj, 100, AUint (ucast (UnpairResponse_operation_id obj)))]"

definition ig_UnpairResponse_encode ::
  "IgUnpairResponse \<Rightarrow> bytes \<Rightarrow> u32 \<Rightarrow> (nat \<times> bytes
    \<times> nat option) res" where
  "ig_UnpairResponse_encode obj retval len =
     (if \<not> ig_UnpairResponse_is_valid obj then Ok (IgSerializerErrorInvalidPayload, retval, None)
      else ig_encode (ig_UnpairResponse_fields_size obj) 16 (ig_UnpairResponse_fields obj) retval len)"

definition ig_UnpairResponse_cases :: "(i64 \<times> IgUnpairResponse case_body) list" where
  "ig_UnpairResponse_cases =
    [(0, CMsgId 16),
     (11, CUint (\<lambda>v. ig_UnpairResponse_set_result (ucast v))),
     (100, CUint (\<lambda>v. ig_UnpairResponse_set_operation_id (ucast v)))]"

definition ig_UnpairResponse_decode :: "bytes \<Rightarrow> IgUnpairResponse \<Rightarrow> nat
  \<Rightarrow> (nat \<times> IgUnpairResponse) res" where
  "ig_UnpairResponse_decode buf obj index = ig_decode ig_UnpairResponse_cases buf obj index"

definition ig_UnpairResponse_ok :: "IgUnpairResponse \<Rightarrow> bool" where
  "ig_UnpairResponse_ok obj \<longleftrightarrow> ig_UnpairResponse_is_valid obj \<and>
     num_ok (UnpairResponse_has_result obj) (UnpairResponse_result obj) \<and>
     num_ok (UnpairResponse_has_operation_id obj) (UnpairResponse_operation_id obj)"

lemmas ig_UnpairResponse_setters =
  ig_UnpairResponse_set_operation_id_def
  ig_UnpairResponse_set_result_def

text \<open>A guarded setter, member by member.\<close>
lemma ig_UnpairResponse_set_if:
  "(if g then ig_UnpairResponse_set_operation_id v0 obj else obj) =
     obj\<lparr>UnpairResponse_operation_id := pick g v0 (UnpairResponse_operation_id obj),
       UnpairResponse_has_operation_id := g \<or> UnpairResponse_has_operation_id obj\<rparr>"
  by (simp_all add: ig_UnpairResponse_setters pick_def)

lemma ig_UnpairResponse_store:
  assumes ok: "ig_UnpairResponse_ok obj"
  shows "store_fields ig_UnpairResponse_cases (ig_UnpairResponse_fields obj) ig_UnpairResponse_init
    = Some obj"
proof -
  have h: "num_ok (UnpairResponse_has_result obj) (UnpairResponse_result obj)"
    "num_ok (UnpairResponse_has_operation_id obj) (UnpairResponse_operation_id obj)"
    and valid: "ig_UnpairResponse_is_valid obj"
    using ok by (simp_all add: ig_UnpairResponse_ok_def)
  show ?thesis
    using valid
    by (simp add: ig_UnpairResponse_fields_def ig_UnpairResponse_cases_def
      ig_UnpairResponse_init_def codec_simps
        ig_UnpairResponse_set_if ig_UnpairResponse_setters split del: if_split)
       (simp add: ig_UnpairResponse_is_valid_def
         num_ok_store [OF h(1)]
         num_ok_store [OF h(2)])
qed

lemma ig_UnpairResponse_bound:
  assumes "ig_UnpairResponse_ok obj"
  shows "2 + length (number_bytes 16 MtUnsigned) + fields_bound (ig_UnpairResponse_fields obj)
    \<le> unat (ig_UnpairResponse_get_max_payload_in_bytes obj)"
  using number_bytes_u8 [of "UnpairResponse_result obj" 0]
    number_bytes_u32 [of "UnpairResponse_operation_id obj" 0]
  by (simp add: ig_UnpairResponse_fields_def ig_UnpairResponse_get_max_payload_in_bytes_def
    number_bytes_literal)

interpretation UnpairResponse_codec: ig_message ig_UnpairResponse_encode ig_UnpairResponse_decode
  ig_UnpairResponse_get_max_payload_in_bytes ig_UnpairResponse_is_valid ig_UnpairResponse_init
    ig_UnpairResponse_ok 16
  ig_UnpairResponse_fields_size ig_UnpairResponse_fields ig_UnpairResponse_cases
  by (unfold_locales;
      (rule ig_UnpairResponse_encode_def ig_UnpairResponse_decode_def | erule
        ig_UnpairResponse_store ig_UnpairResponse_bound |
       auto simp: ig_UnpairResponse_cases_def ig_UnpairResponse_fields_def
         ig_UnpairResponse_fields_size_def ig_UnpairResponse_ok_def
         simp del: arg_block_ok.simps(1,2) intro: str_ok_block))

end
