(* ===== verification/Messages_Lock.thy ===== *)
theory Messages_Lock
  imports Ig_Interface
begin

text \<open>
  The files of \<open>lock/messages/\<close> for lock, unlock, status and relock messages.  Per
    message \<open>X\<close>: the struct (\<open>IgX\<close>, members prefixed
  with the message name), \<open>ig_X_init\<close>, the setters, \<open>ig_X_deinit\<close>,
    \<open>ig_X_is_valid\<close>,
  \<open>ig_X_get_max_payload_in_bytes\<close>, the encoder with its list of key/value writes
  (\<open>ig_X_fields\<close>) and the decoder with its list of cases (\<open>ig_X_cases\<close>). 
    The argument
  \<open>same_ptr\<close> of a string setter is the pointer comparison it starts with; the decoders pass
  \<open>False\<close>, their block is fresh.  \<open>ig_X_ok\<close> describes the objects
    \<open>init\<close> and the setters
  build, and the interpretation of \<open>ig_message\<close> proves the file a codec.
\<close>

subsection \<open>LockRequest\<close>

record IgLockRequest =
  LockRequest_has_password :: bool
  LockRequest_password :: block_ptr
  LockRequest_password_size :: nat
  LockRequest_has_timestamp :: bool
  LockRequest_timestamp :: u32
  LockRequest_has_operation_id :: bool
  LockRequest_operation_id :: u32

definition ig_LockRequest_init :: IgLockRequest where
  "ig_LockRequest_init =
     \<lparr>LockRequest_has_password = False,
      LockRequest_password = None,
      LockRequest_password_size = 0,
      LockRequest_has_timestamp = False,
      LockRequest_timestamp = 0,
      LockRequest_has_operation_id = False,
      LockRequest_operation_id = 0\<rparr>"

definition ig_LockRequest_get_password_size :: "IgLockRequest \<Rightarrow> nat" where
  "ig_LockRequest_get_password_size obj = LockRequest_password_size obj"

definition ig_LockRequest_set_password_nocopy ::
  "bool \<Rightarrow> block_ptr \<Rightarrow> nat \<Rightarrow> IgLockRequest \<Rightarrow>
    IgLockRequest" where
  "ig_LockRequest_set_password_nocopy same_ptr p n obj =
     (if same_ptr then obj
      else let obj = (if LockRequest_has_password obj then obj\<lparr>LockRequest_password :=
        None\<rparr> else obj)
        in obj\<lparr>LockRequest_password := p, LockRequest_password_size := n,
          LockRequest_has_password := n > 0\<rparr>)"

definition ig_LockRequest_set_password ::
  "bool \<Rightarrow> block_ptr \<Rightarrow> nat \<Rightarrow> IgLockRequest \<Rightarrow>
    IgLockRequest res" where
  "ig_LockRequest_set_password same_ptr p n obj =
     (if same_ptr then Ok obj
      else let obj = (if LockRequest_has_password obj then obj\<lparr>LockRequest_password :=
        None\<rparr> else obj)
        in bindR (block_read p n) (\<lambda>d.
          Ok (obj\<lparr>LockRequest_password := Some d, LockRequest_password_size := n,
            LockRequest_has_password := n > 0\<rparr>)))"

definition ig_LockRequest_set_timestamp :: "u32 \<Rightarrow> IgLockRequest \<Rightarrow> IgLockRequest" where
  "ig_LockRequest_set_timestamp v obj = obj\<lparr>LockRequest_timestamp := v,
    LockRequest_has_timestamp := True\<rparr>"

definition ig_LockRequest_set_operation_id :: "u32 \<Rightarrow> IgLockRequest \<Rightarrow>
  IgLockRequest" where
  "ig_LockRequest_set_operation_id v obj = obj\<lparr>LockRequest_operation_id := v,
    LockRequest_has_operation_id := True\<rparr>"

definition ig_LockRequest_deinit :: "IgLockRequest \<Rightarrow> IgLockRequest" where
  "ig_LockRequest_deinit obj = (let
     obj = (if LockRequest_has_password obj then obj\<lparr>LockRequest_password := None\<rparr> else obj)
   in obj)"

definition ig_LockRequest_is_valid :: "IgLockRequest \<Rightarrow> bool" where
  "ig_LockRequest_is_valid obj \<longleftrightarrow> LockRequest_has_password obj"

definition ig_LockRequest_get_max_payload_in_bytes :: "IgLockRequest \<Rightarrow> u32" where
  "ig_LockRequest_get_max_payload_in_bytes obj = word_of_nat (32 + LockRequest_password_size obj)"

definition ig_LockRequest_fields_size :: "IgLockRequest \<Rightarrow> u64" where
  "ig_LockRequest_fields_size obj = 1 + 1 + of_bool (LockRequest_has_timestamp obj) + of_bool
    (LockRequest_has_operation_id obj)"

definition ig_LockRequest_fields :: "IgLockRequest \<Rightarrow> enc_field list" where
  "ig_LockRequest_fields obj =
    [(True, 11, ABytes (LockRequest_password obj) (LockRequest_password_size obj)),
     (LockRequest_has_timestamp obj, 12, AUint (ucast (LockRequest_timestamp obj))),
     (LockRequest_has_operation_id obj, 100, AUint (ucast (LockRequest_operation_id obj)))]"

definition ig_LockRequest_encode ::
  "IgLockRequest \<Rightarrow> bytes \<Rightarrow> u32 \<Rightarrow> (nat \<times> bytes \<times>
    nat option) res" where
  "ig_LockRequest_encode obj retval len =
     (if \<not> ig_LockRequest_is_valid obj then Ok (IgSerializerErrorInvalidPayload, retval, None)
      else ig_encode (ig_LockRequest_fields_size obj) 51 (ig_LockRequest_fields obj) retval len)"

definition ig_LockRequest_cases :: "(i64 \<times> IgLockRequest case_body) list" where
  "ig_LockRequest_cases =
    [(0, CMsgId 51),
     (11, CBytes (ig_LockRequest_set_password_nocopy False)),
     (12, CUint (\<lambda>v. ig_LockRequest_set_timestamp (ucast v))),
     (100, CUint (\<lambda>v. ig_LockRequest_set_operation_id (ucast v)))]"

definition ig_LockRequest_decode :: "bytes \<Rightarrow> IgLockRequest \<Rightarrow> nat
  \<Rightarrow> (nat \<times> IgLockRequest) res" where
  "ig_LockRequest_decode buf obj index = ig_decode ig_LockRequest_cases buf obj index"

definition ig_LockRequest_ok :: "IgLockRequest \<Rightarrow> bool" where
  "ig_LockRequest_ok obj \<longleftrightarrow> ig_LockRequest_is_valid obj \<and>
     str_ok (LockRequest_has_password obj) (LockRequest_password obj) (LockRequest_password_size obj) \<and>
     num_ok (LockRequest_has_timestamp obj) (LockRequest_timestamp obj) \<and>
     num_ok (LockRequest_has_operation_id obj) (LockRequest_operation_id obj)"

lemmas ig_LockRequest_setters =
  ig_LockRequest_set_operation_id_def
  ig_LockRequest_set_password_nocopy_def
  ig_LockRequest_set_timestamp_def

text \<open>A guarded setter, member by member.\<close>
lemma ig_LockRequest_set_if:
  "(if g then ig_LockRequest_set_timestamp v0 obj else obj) =
     obj\<lparr>LockRequest_timestamp := pick g v0 (LockRequest_timestamp obj),
       LockRequest_has_timestamp := g \<or> LockRequest_has_timestamp obj\<rparr>"
  "(if g then ig_LockRequest_set_operation_id v1 obj else obj) =
     obj\<lparr>LockRequest_operation_id := pick g v1 (LockRequest_operation_id obj),
       LockRequest_has_operation_id := g \<or> LockRequest_has_operation_id obj\<rparr>"
  by (simp_all add: ig_LockRequest_setters pick_def)

lemma ig_LockRequest_store:
  assumes ok: "ig_LockRequest_ok obj"
  shows "store_fields ig_LockRequest_cases (ig_LockRequest_fields obj) ig_LockRequest_init = Some obj"
proof -
  have h: "str_ok (LockRequest_has_password obj) (LockRequest_password obj) (LockRequest_password_size obj)"
    "num_ok (LockRequest_has_timestamp obj) (LockRequest_timestamp obj)"
    "num_ok (LockRequest_has_operation_id obj) (LockRequest_operation_id obj)"
    and valid: "ig_LockRequest_is_valid obj"
    using ok by (simp_all add: ig_LockRequest_ok_def)
  show ?thesis
    using valid
    by (simp add: ig_LockRequest_fields_def ig_LockRequest_cases_def ig_LockRequest_init_def codec_simps
        ig_LockRequest_set_if ig_LockRequest_setters split del: if_split)
       (simp add: ig_LockRequest_is_valid_def
         str_ok_store [OF h(1)]
         num_ok_store [OF h(2)]
         num_ok_store [OF h(3)])
qed

lemma ig_LockRequest_bound:
  assumes "ig_LockRequest_ok obj"
  shows "2 + length (number_bytes 51 MtUnsigned) + fields_bound (ig_LockRequest_fields obj)
    \<le> unat (ig_LockRequest_get_max_payload_in_bytes obj)"
proof -
  have sizes: "LockRequest_password_size obj < 2 ^ 24"
    using assms by (auto simp: ig_LockRequest_ok_def dest!: str_ok_bound)
  show ?thesis
    using sizes number_bytes_size [of "LockRequest_password_size obj" "0x40"]
      number_bytes_u32 [of "LockRequest_timestamp obj" 0]
      number_bytes_u32 [of "LockRequest_operation_id obj" 0]
    by (simp add: ig_LockRequest_fields_def ig_LockRequest_get_max_payload_in_bytes_def number_bytes_literal
        unat_of_nat_small del: of_nat_add)
qed

interpretation LockRequest_codec: ig_message ig_LockRequest_encode ig_LockRequest_decode
  ig_LockRequest_get_max_payload_in_bytes ig_LockRequest_is_valid ig_LockRequest_init ig_LockRequest_ok 51
  ig_LockRequest_fields_size ig_LockRequest_fields ig_LockRequest_cases
  by (unfold_locales;
      (rule ig_LockRequest_encode_def ig_LockRequest_decode_def | erule ig_LockRequest_store
        ig_LockRequest_bound |
       auto simp: ig_LockRequest_cases_def ig_LockRequest_fields_def ig_LockRequest_fields_size_def
         ig_LockRequest_ok_def
         simp del: arg_block_ok.simps(1,2) intro: str_ok_block))

subsection \<open>LockResponse\<close>

record IgLockResponse =
  LockResponse_has_result :: bool
  LockResponse_result :: u8
  LockResponse_has_operation_id :: bool
  LockResponse_operation_id :: u32

definition ig_LockResponse_init :: IgLockResponse where
  "ig_LockResponse_init =
     \<lparr>LockResponse_has_result = False,
      LockResponse_result = 0,
      LockResponse_has_operation_id = False,
      LockResponse_operation_id = 0\<rparr>"

definition ig_LockResponse_set_result :: "u8 \<Rightarrow> IgLockResponse \<Rightarrow> IgLockResponse" where
  "ig_LockResponse_set_result v obj = obj\<lparr>LockResponse_result := v, LockResponse_has_result
    := True\<rparr>"

definition ig_LockResponse_set_operation_id :: "u32 \<Rightarrow> IgLockResponse \<Rightarrow>
  IgLockResponse" where
  "ig_LockResponse_set_operation_id v obj = obj\<lparr>LockResponse_operation_id := v,
    LockResponse_has_operation_id := True\<rparr>"

definition ig_LockResponse_deinit :: "IgLockResponse \<Rightarrow> IgLockResponse" where
  "ig_LockResponse_deinit obj = obj"

definition ig_LockResponse_is_valid :: "IgLockResponse \<Rightarrow> bool" where
  "ig_LockResponse_is_valid obj \<longleftrightarrow> LockResponse_has_result obj"

definition ig_LockResponse_get_max_payload_in_bytes :: "IgLockResponse \<Rightarrow> u32" where
  "ig_LockResponse_get_max_payload_in_bytes obj = 22"

definition ig_LockResponse_fields_size :: "IgLockResponse \<Rightarrow> u64" where
  "ig_LockResponse_fields_size obj = 1 + 1 + of_bool (LockResponse_has_operation_id obj)"

definition ig_LockResponse_fields :: "IgLockResponse \<Rightarrow> enc_field list" where
  "ig_LockResponse_fields obj =
    [(True, 11, AUint (ucast (LockResponse_result obj))),
     (LockResponse_has_operation_id obj, 100, AUint (ucast (LockResponse_operation_id obj)))]"

definition ig_LockResponse_encode ::
  "IgLockResponse \<Rightarrow> bytes \<Rightarrow> u32 \<Rightarrow> (nat \<times> bytes \<times>
    nat option) res" where
  "ig_LockResponse_encode obj retval len =
     (if \<not> ig_LockResponse_is_valid obj then Ok (IgSerializerErrorInvalidPayload, retval, None)
      else ig_encode (ig_LockResponse_fields_size obj) 52 (ig_LockResponse_fields obj) retval len)"

definition ig_LockResponse_cases :: "(i64 \<times> IgLockResponse case_body) list" where
  "ig_LockResponse_cases =
    [(0, CMsgId 52),
     (11, CUint (\<lambda>v. ig_LockResponse_set_result (ucast v))),
     (100, CUint (\<lambda>v. ig_LockResponse_set_operation_id (ucast v)))]"

definition ig_LockResponse_decode :: "bytes \<Rightarrow> IgLockResponse \<Rightarrow> nat
  \<Rightarrow> (nat \<times> IgLockResponse) res" where
  "ig_LockResponse_decode buf obj index = ig_decode ig_LockResponse_cases buf obj index"

definition ig_LockResponse_ok :: "IgLockResponse \<Rightarrow> bool" where
  "ig_LockResponse_ok obj \<longleftrightarrow> ig_LockResponse_is_valid obj \<and>
     num_ok (LockResponse_has_result obj) (LockResponse_result obj) \<and>
     num_ok (LockResponse_has_operation_id obj) (LockResponse_operation_id obj)"

lemmas ig_LockResponse_setters =
  ig_LockResponse_set_operation_id_def
  ig_LockResponse_set_result_def

text \<open>A guarded setter, member by member.\<close>
lemma ig_LockResponse_set_if:
  "(if g then ig_LockResponse_set_operation_id v0 obj else obj) =
     obj\<lparr>LockResponse_operation_id := pick g v0 (LockResponse_operation_id obj),
       LockResponse_has_operation_id := g \<or> LockResponse_has_operation_id obj\<rparr>"
  by (simp_all add: ig_LockResponse_setters pick_def)

lemma ig_LockResponse_store:
  assumes ok: "ig_LockResponse_ok obj"
  shows "store_fields ig_LockResponse_cases (ig_LockResponse_fields obj) ig_LockResponse_init = Some obj"
proof -
  have h: "num_ok (LockResponse_has_result obj) (LockResponse_result obj)"
    "num_ok (LockResponse_has_operation_id obj) (LockResponse_operation_id obj)"
    and valid: "ig_LockResponse_is_valid obj"
    using ok by (simp_all add: ig_LockResponse_ok_def)
  show ?thesis
    using valid
    by (simp add: ig_LockResponse_fields_def ig_LockResponse_cases_def ig_LockResponse_init_def codec_simps
        ig_LockResponse_set_if ig_LockResponse_setters split del: if_split)
       (simp add: ig_LockResponse_is_valid_def
         num_ok_store [OF h(1)]
         num_ok_store [OF h(2)])
qed

lemma ig_LockResponse_bound:
  assumes "ig_LockResponse_ok obj"
  shows "2 + length (number_bytes 52 MtUnsigned) + fields_bound (ig_LockResponse_fields obj)
    \<le> unat (ig_LockResponse_get_max_payload_in_bytes obj)"
  using number_bytes_u8 [of "LockResponse_result obj" 0]
    number_bytes_u32 [of "LockResponse_operation_id obj" 0]
  by (simp add: ig_LockResponse_fields_def ig_LockResponse_get_max_payload_in_bytes_def number_bytes_literal)

interpretation LockResponse_codec: ig_message ig_LockResponse_encode ig_LockResponse_decode
  ig_LockResponse_get_max_payload_in_bytes ig_LockResponse_is_valid ig_LockResponse_init ig_LockResponse_ok 52
  ig_LockResponse_fields_size ig_LockResponse_fields ig_LockResponse_cases
  by (unfold_locales;
      (rule ig_LockResponse_encode_def ig_LockResponse_decode_def | erule ig_LockResponse_store
        ig_LockResponse_bound |
       auto simp: ig_LockResponse_cases_def ig_LockResponse_fields_def
         ig_LockResponse_fields_size_def ig_LockResponse_ok_def
         simp del: arg_block_ok.simps(1,2) intro: str_ok_block))

subsection \<open>UnlockRequest\<close>

record IgUnlockRequest =
  UnlockRequest_has_password :: bool
  UnlockRequest_password :: block_ptr
  UnlockRequest_password_size :: nat
  UnlockRequest_has_timestamp :: bool
  UnlockRequest_timestamp :: u32
  UnlockRequest_has_operation_id :: bool
  UnlockRequest_operation_id :: u32

definition ig_UnlockRequest_init :: IgUnlockRequest where
  "ig_UnlockRequest_init =
     \<lparr>UnlockRequest_has_password = False,
      UnlockRequest_password = None,
      UnlockRequest_password_size = 0,
      UnlockRequest_has_timestamp = False,
      UnlockRequest_timestamp = 0,
      UnlockRequest_has_operation_id = False,
      UnlockRequest_operation_id = 0\<rparr>"

definition ig_UnlockRequest_get_password_size :: "IgUnlockRequest \<Rightarrow> nat" where
  "ig_UnlockRequest_get_password_size obj = UnlockRequest_password_size obj"

definition ig_UnlockRequest_set_password_nocopy ::
  "bool \<Rightarrow> block_ptr \<Rightarrow> nat \<Rightarrow> IgUnlockRequest \<Rightarrow>
    IgUnlockRequest" where
  "ig_UnlockRequest_set_password_nocopy same_ptr p n obj =
     (if same_ptr then obj
      else let obj = (if UnlockRequest_has_password obj then obj\<lparr>UnlockRequest_password :=
        None\<rparr> else obj)
        in obj\<lparr>UnlockRequest_password := p, UnlockRequest_password_size := n,
          UnlockRequest_has_password := n > 0\<rparr>)"

definition ig_UnlockRequest_set_password ::
  "bool \<Rightarrow> block_ptr \<Rightarrow> nat \<Rightarrow> IgUnlockRequest \<Rightarrow>
    IgUnlockRequest res" where
  "ig_UnlockRequest_set_password same_ptr p n obj =
     (if same_ptr then Ok obj
      else let obj = (if UnlockRequest_has_password obj then obj\<lparr>UnlockRequest_password :=
        None\<rparr> else obj)
        in bindR (block_read p n) (\<lambda>d.
          Ok (obj\<lparr>UnlockRequest_password := Some d, UnlockRequest_password_size := n,
            UnlockRequest_has_password := n > 0\<rparr>)))"

definition ig_UnlockRequest_set_timestamp :: "u32 \<Rightarrow> IgUnlockRequest \<Rightarrow>
  IgUnlockRequest" where
  "ig_UnlockRequest_set_timestamp v obj = obj\<lparr>UnlockRequest_timestamp := v,
    UnlockRequest_has_timestamp := True\<rparr>"

definition ig_UnlockRequest_set_operation_id :: "u32 \<Rightarrow> IgUnlockRequest \<Rightarrow>
  IgUnlockRequest" where
  "ig_UnlockRequest_set_operation_id v obj = obj\<lparr>UnlockRequest_operation_id := v,
    UnlockRequest_has_operation_id := True\<rparr>"

definition ig_UnlockRequest_deinit :: "IgUnlockRequest \<Rightarrow> IgUnlockRequest" where
  "ig_UnlockRequest_deinit obj = (let
     obj = (if UnlockRequest_has_password obj then obj\<lparr>UnlockRequest_password := None\<rparr> else obj)
   in obj)"

definition ig_UnlockRequest_is_valid :: "IgUnlockRequest \<Rightarrow> bool" where
  "ig_UnlockRequest_is_valid obj \<longleftrightarrow> UnlockRequest_has_password obj"

definition ig_UnlockRequest_get_max_payload_in_bytes :: "IgUnlockRequest \<Rightarrow> u32" where
  "ig_UnlockRequest_get_max_payload_in_bytes obj = word_of_nat (32 + UnlockRequest_password_size obj)"

definition ig_UnlockRequest_fields_size :: "IgUnlockRequest \<Rightarrow> u64" where
  "ig_UnlockRequest_fields_size obj = 1 + 1 + of_bool (UnlockRequest_has_timestamp obj) + of_bool
    (UnlockRequest_has_operation_id obj)"

definition ig_UnlockRequest_fields :: "IgUnlockRequest \<Rightarrow> enc_field list" where
  "ig_UnlockRequest_fields obj =
    [(True, 11, ABytes (UnlockRequest_password obj) (UnlockRequest_password_size obj)),
     (UnlockRequest_has_timestamp obj, 12, AUint (ucast (UnlockRequest_timestamp obj))),
     (UnlockRequest_has_operation_id obj, 100, AUint (ucast (UnlockRequest_operation_id obj)))]"

definition ig_UnlockRequest_encode ::
  "IgUnlockRequest \<Rightarrow> bytes \<Rightarrow> u32 \<Rightarrow> (nat \<times> bytes \<times>
    nat option) res" where
  "ig_UnlockRequest_encode obj retval len =
     (if \<not> ig_UnlockRequest_is_valid obj then Ok (IgSerializerErrorInvalidPayload, retval, None)
      else ig_encode (ig_UnlockRequest_fields_size obj) 21 (ig_UnlockRequest_fields obj) retval len)"

definition ig_UnlockRequest_cases :: "(i64 \<times> IgUnlockRequest case_body) list" where
  "ig_UnlockRequest_cases =
    [(0, CMsgId 21),
     (11, CBytes (ig_UnlockRequest_set_password_nocopy False)),
     (12, CUint (\<lambda>v. ig_UnlockRequest_set_timestamp (ucast v))),
     (100, CUint (\<lambda>v. ig_UnlockRequest_set_operation_id (ucast v)))]"

definition ig_UnlockRequest_decode :: "bytes \<Rightarrow> IgUnlockRequest \<Rightarrow> nat
  \<Rightarrow> (nat \<times> IgUnlockRequest) res" where
  "ig_UnlockRequest_decode buf obj index = ig_decode ig_UnlockRequest_cases buf obj index"

definition ig_UnlockRequest_ok :: "IgUnlockRequest \<Rightarrow> bool" where
  "ig_UnlockRequest_ok obj \<longleftrightarrow> ig_UnlockRequest_is_valid obj \<and>
     str_ok (UnlockRequest_has_password obj) (UnlockRequest_password obj)
       (UnlockRequest_password_size obj) \<and>
     num_ok (UnlockRequest_has_timestamp obj) (UnlockRequest_timestamp obj) \<and>
     num_ok (UnlockRequest_has_operation_id obj) (UnlockRequest_operation_id obj)"

lemmas ig_UnlockRequest_setters =
  ig_UnlockRequest_set_operation_id_def
  ig_UnlockRequest_set_password_nocopy_def
  ig_UnlockRequest_set_timestamp_def

text \<open>A guarded setter, member by member.\<close>
lemma ig_UnlockRequest_set_if:
  "(if g then ig_UnlockRequest_set_timestamp v0 obj else obj) =
     obj\<lparr>UnlockRequest_timestamp := pick g v0 (UnlockRequest_timestamp obj),
       UnlockRequest_has_timestamp := g \<or> UnlockRequest_has_timestamp obj\<rparr>"
  "(if g then ig_UnlockRequest_set_operation_id v1 obj else obj) =
     obj\<lparr>UnlockRequest_operation_id := pick g v1 (UnlockRequest_operation_id obj),
       UnlockRequest_has_operation_id := g \<or> UnlockRequest_has_operation_id obj\<rparr>"
  by (simp_all add: ig_UnlockRequest_setters pick_def)

lemma ig_UnlockRequest_store:
  assumes ok: "ig_UnlockRequest_ok obj"
  shows "store_fields ig_UnlockRequest_cases (ig_UnlockRequest_fields obj) ig_UnlockRequest_init = Some obj"
proof -
  have h: "str_ok (UnlockRequest_has_password obj) (UnlockRequest_password obj)
    (UnlockRequest_password_size obj)"
    "num_ok (UnlockRequest_has_timestamp obj) (UnlockRequest_timestamp obj)"
    "num_ok (UnlockRequest_has_operation_id obj) (UnlockRequest_operation_id obj)"
    and valid: "ig_UnlockRequest_is_valid obj"
    using ok by (simp_all add: ig_UnlockRequest_ok_def)
  show ?thesis
    using valid
    by (simp add: ig_UnlockRequest_fields_def ig_UnlockRequest_cases_def ig_UnlockRequest_init_def codec_simps
        ig_UnlockRequest_set_if ig_UnlockRequest_setters split del: if_split)
       (simp add: ig_UnlockRequest_is_valid_def
         str_ok_store [OF h(1)]
         num_ok_store [OF h(2)]
         num_ok_store [OF h(3)])
qed

lemma ig_UnlockRequest_bound:
  assumes "ig_UnlockRequest_ok obj"
  shows "2 + length (number_bytes 21 MtUnsigned) + fields_bound (ig_UnlockRequest_fields obj)
    \<le> unat (ig_UnlockRequest_get_max_payload_in_bytes obj)"
proof -
  have sizes: "UnlockRequest_password_size obj < 2 ^ 24"
    using assms by (auto simp: ig_UnlockRequest_ok_def dest!: str_ok_bound)
  show ?thesis
    using sizes number_bytes_size [of "UnlockRequest_password_size obj" "0x40"]
      number_bytes_u32 [of "UnlockRequest_timestamp obj" 0]
      number_bytes_u32 [of "UnlockRequest_operation_id obj" 0]
    by (simp add: ig_UnlockRequest_fields_def ig_UnlockRequest_get_max_payload_in_bytes_def
      number_bytes_literal
        unat_of_nat_small del: of_nat_add)
qed

interpretation UnlockRequest_codec: ig_message ig_UnlockRequest_encode ig_UnlockRequest_decode
  ig_UnlockRequest_get_max_payload_in_bytes ig_UnlockRequest_is_valid ig_UnlockRequest_init
    ig_UnlockRequest_ok 21
  ig_UnlockRequest_fields_size ig_UnlockRequest_fields ig_UnlockRequest_cases
  by (unfold_locales;
      (rule ig_UnlockRequest_encode_def ig_UnlockRequest_decode_def | erule ig_UnlockRequest_store
        ig_UnlockRequest_bound |
       auto simp: ig_UnlockRequest_cases_def ig_UnlockRequest_fields_def
         ig_UnlockRequest_fields_size_def ig_UnlockRequest_ok_def
         simp del: arg_block_ok.simps(1,2) intro: str_ok_block))

subsection \<open>UnlockResponse\<close>

record IgUnlockResponse =
  UnlockResponse_has_result :: bool
  UnlockResponse_result :: u8
  UnlockResponse_has_operation_id :: bool
  UnlockResponse_operation_id :: u32

definition ig_UnlockResponse_init :: IgUnlockResponse where
  "ig_UnlockResponse_init =
     \<lparr>UnlockResponse_has_result = False,
      UnlockResponse_result = 0,
      UnlockResponse_has_operation_id = False,
      UnlockResponse_operation_id = 0\<rparr>"

definition ig_UnlockResponse_set_result :: "u8 \<Rightarrow> IgUnlockResponse \<Rightarrow>
  IgUnlockResponse" where
  "ig_UnlockResponse_set_result v obj = obj\<lparr>UnlockResponse_result := v,
    UnlockResponse_has_result := True\<rparr>"

definition ig_UnlockResponse_set_operation_id :: "u32 \<Rightarrow> IgUnlockResponse \<Rightarrow>
  IgUnlockResponse" where
  "ig_UnlockResponse_set_operation_id v obj = obj\<lparr>UnlockResponse_operation_id := v,
    UnlockResponse_has_operation_id := True\<rparr>"

definition ig_UnlockResponse_deinit :: "IgUnlockResponse \<Rightarrow> IgUnlockResponse" where
  "ig_UnlockResponse_deinit obj = obj"

definition ig_UnlockResponse_is_valid :: "IgUnlockResponse \<Rightarrow> bool" where
  "ig_UnlockResponse_is_valid obj \<longleftrightarrow> UnlockResponse_has_result obj"

definition ig_UnlockResponse_get_max_payload_in_bytes :: "IgUnlockResponse \<Rightarrow> u32" where
  "ig_UnlockResponse_get_max_payload_in_bytes obj = 22"

definition ig_UnlockResponse_fields_size :: "IgUnlockResponse \<Rightarrow> u64" where
  "ig_UnlockResponse_fields_size obj = 1 + 1 + of_bool (UnlockResponse_has_operation_id obj)"

definition ig_UnlockResponse_fields :: "IgUnlockResponse \<Rightarrow> enc_field list" where
  "ig_UnlockResponse_fields obj =
    [(True, 11, AUint (ucast (UnlockResponse_result obj))),
     (UnlockResponse_has_operation_id obj, 100, AUint (ucast (UnlockResponse_operation_id obj)))]"

definition ig_UnlockResponse_encode ::
  "IgUnlockResponse \<Rightarrow> bytes \<Rightarrow> u32 \<Rightarrow> (nat \<times> bytes
    \<times> nat option) res" where
  "ig_UnlockResponse_encode obj retval len =
     (if \<not> ig_UnlockResponse_is_valid obj then Ok (IgSerializerErrorInvalidPayload, retval, None)
      else ig_encode (ig_UnlockResponse_fields_size obj) 22 (ig_UnlockResponse_fields obj) retval len)"

definition ig_UnlockResponse_cases :: "(i64 \<times> IgUnlockResponse case_body) list" where
  "ig_UnlockResponse_cases =
    [(0, CMsgId 22),
     (11, CUint (\<lambda>v. ig_UnlockResponse_set_result (ucast v))),
     (100, CUint (\<lambda>v. ig_UnlockResponse_set_operation_id (ucast v)))]"

definition ig_UnlockResponse_decode :: "bytes \<Rightarrow> IgUnlockResponse \<Rightarrow> nat
  \<Rightarrow> (nat \<times> IgUnlockResponse) res" where
  "ig_UnlockResponse_decode buf obj index = ig_decode ig_UnlockResponse_cases buf obj index"

definition ig_UnlockResponse_ok :: "IgUnlockResponse \<Rightarrow> bool" where
  "ig_UnlockResponse_ok obj \<longleftrightarrow> ig_UnlockResponse_is_valid obj \<and>
     num_ok (UnlockResponse_has_result obj) (UnlockResponse_result obj) \<and>
     num_ok (UnlockResponse_has_operation_id obj) (UnlockResponse_operation_id obj)"

lemmas ig_UnlockResponse_setters =
  ig_UnlockResponse_set_operation_id_def
  ig_UnlockResponse_set_result_def

text \<open>A guarded setter, member by member.\<close>
lemma ig_UnlockResponse_set_if:
  "(if g then ig_UnlockResponse_set_operation_id v0 obj else obj) =
     obj\<lparr>UnlockResponse_operation_id := pick g v0 (UnlockResponse_operation_id obj),
       UnlockResponse_has_operation_id := g \<or> UnlockResponse_has_operation_id obj\<rparr>"
  by (simp_all add: ig_UnlockResponse_setters pick_def)

lemma ig_UnlockResponse_store:
  assumes ok: "ig_UnlockResponse_ok obj"
  shows "store_fields ig_UnlockResponse_cases (ig_UnlockResponse_fields obj) ig_UnlockResponse_init
    = Some obj"
proof -
  have h: "num_ok (UnlockResponse_has_result obj) (UnlockResponse_result obj)"
    "num_ok (UnlockResponse_has_operation_id obj) (UnlockResponse_operation_id obj)"
    and valid: "ig_UnlockResponse_is_valid obj"
    using ok by (simp_all add: ig_UnlockResponse_ok_def)
  show ?thesis
    using valid
    by (simp add: ig_UnlockResponse_fields_def ig_UnlockResponse_cases_def
      ig_UnlockResponse_init_def codec_simps
        ig_UnlockResponse_set_if ig_UnlockResponse_setters split del: if_split)
       (simp add: ig_UnlockResponse_is_valid_def
         num_ok_store [OF h(1)]
         num_ok_store [OF h(2)])
qed

lemma ig_UnlockResponse_bound:
  assumes "ig_UnlockResponse_ok obj"
  shows "2 + length (number_bytes 22 MtUnsigned) + fields_bound (ig_UnlockResponse_fields obj)
    \<le> unat (ig_UnlockResponse_get_max_payload_in_bytes obj)"
  using number_bytes_u8 [of "UnlockResponse_result obj" 0]
    number_bytes_u32 [of "UnlockResponse_operation_id obj" 0]
  by (simp add: ig_UnlockResponse_fields_def ig_UnlockResponse_get_max_payload_in_bytes_def
    number_bytes_literal)

interpretation UnlockResponse_codec: ig_message ig_UnlockResponse_encode ig_UnlockResponse_decode
  ig_UnlockResponse_get_max_payload_in_bytes ig_UnlockResponse_is_valid ig_UnlockResponse_init
    ig_UnlockResponse_ok 22
  ig_UnlockResponse_fields_size ig_UnlockResponse_fields ig_UnlockResponse_cases
  by (unfold_locales;
      (rule ig_UnlockResponse_encode_def ig_UnlockResponse_decode_def | erule
        ig_UnlockResponse_store ig_UnlockResponse_bound |
       auto simp: ig_UnlockResponse_cases_def ig_UnlockResponse_fields_def
         ig_UnlockResponse_fields_size_def ig_UnlockResponse_ok_def
         simp del: arg_block_ok.simps(1,2) intro: str_ok_block))

subsection \<open>GetLockStatusRequest\<close>

record IgGetLockStatusRequest =
  GetLockStatusRequest_has_password :: bool
  GetLockStatusRequest_password :: block_ptr
  GetLockStatusRequest_password_size :: nat
  GetLockStatusRequest_has_operation_id :: bool
  GetLockStatusRequest_operation_id :: u32

definition ig_GetLockStatusRequest_init :: IgGetLockStatusRequest where
  "ig_GetLockStatusRequest_init =
     \<lparr>GetLockStatusRequest_has_password = False,
      GetLockStatusRequest_password = None,
      GetLockStatusRequest_password_size = 0,
      GetLockStatusRequest_has_operation_id = False,
      GetLockStatusRequest_operation_id = 0\<rparr>"

definition ig_GetLockStatusRequest_get_password_size :: "IgGetLockStatusRequest \<Rightarrow> nat" where
  "ig_GetLockStatusRequest_get_password_size obj = GetLockStatusRequest_password_size obj"

definition ig_GetLockStatusRequest_set_password_nocopy ::
  "bool \<Rightarrow> block_ptr \<Rightarrow> nat \<Rightarrow> IgGetLockStatusRequest
    \<Rightarrow> IgGetLockStatusRequest" where
  "ig_GetLockStatusRequest_set_password_nocopy same_ptr p n obj =
     (if same_ptr then obj
      else let obj = (if GetLockStatusRequest_has_password obj then
        obj\<lparr>GetLockStatusRequest_password := None\<rparr> else obj)
        in obj\<lparr>GetLockStatusRequest_password := p, GetLockStatusRequest_password_size := n,
          GetLockStatusRequest_has_password := n > 0\<rparr>)"

definition ig_GetLockStatusRequest_set_password ::
  "bool \<Rightarrow> block_ptr \<Rightarrow> nat \<Rightarrow> IgGetLockStatusRequest
    \<Rightarrow> IgGetLockStatusRequest res" where
  "ig_GetLockStatusRequest_set_password same_ptr p n obj =
     (if same_ptr then Ok obj
      else let obj = (if GetLockStatusRequest_has_password obj then
        obj\<lparr>GetLockStatusRequest_password := None\<rparr> else obj)
        in bindR (block_read p n) (\<lambda>d.
          Ok (obj\<lparr>GetLockStatusRequest_password := Some d,
            GetLockStatusRequest_password_size := n, GetLockStatusRequest_has_password := n > 0\<rparr>)))"

definition ig_GetLockStatusRequest_set_operation_id :: "u32 \<Rightarrow> IgGetLockStatusRequest
  \<Rightarrow> IgGetLockStatusRequest" where
  "ig_GetLockStatusRequest_set_operation_id v obj = obj\<lparr>GetLockStatusRequest_operation_id :=
    v, GetLockStatusRequest_has_operation_id := True\<rparr>"

definition ig_GetLockStatusRequest_deinit :: "IgGetLockStatusRequest \<Rightarrow>
  IgGetLockStatusRequest" where
  "ig_GetLockStatusRequest_deinit obj = (let
     obj = (if GetLockStatusRequest_has_password obj then obj\<lparr>GetLockStatusRequest_password
       := None\<rparr> else obj)
   in obj)"

definition ig_GetLockStatusRequest_is_valid :: "IgGetLockStatusRequest \<Rightarrow> bool" where
  "ig_GetLockStatusRequest_is_valid obj \<longleftrightarrow> GetLockStatusRequest_has_password obj"

definition ig_GetLockStatusRequest_get_max_payload_in_bytes :: "IgGetLockStatusRequest
  \<Rightarrow> u32" where
  "ig_GetLockStatusRequest_get_max_payload_in_bytes obj = word_of_nat (26 +
    GetLockStatusRequest_password_size obj)"

definition ig_GetLockStatusRequest_fields_size :: "IgGetLockStatusRequest \<Rightarrow> u64" where
  "ig_GetLockStatusRequest_fields_size obj = 1 + 1 + of_bool (GetLockStatusRequest_has_operation_id obj)"

definition ig_GetLockStatusRequest_fields :: "IgGetLockStatusRequest \<Rightarrow> enc_field list" where
  "ig_GetLockStatusRequest_fields obj =
    [(True, 11, ABytes (GetLockStatusRequest_password obj) (GetLockStatusRequest_password_size obj)),
     (GetLockStatusRequest_has_operation_id obj, 100, AUint (ucast (GetLockStatusRequest_operation_id obj)))]"

definition ig_GetLockStatusRequest_encode ::
  "IgGetLockStatusRequest \<Rightarrow> bytes \<Rightarrow> u32 \<Rightarrow> (nat \<times> bytes
    \<times> nat option) res" where
  "ig_GetLockStatusRequest_encode obj retval len =
     (if \<not> ig_GetLockStatusRequest_is_valid obj then Ok (IgSerializerErrorInvalidPayload, retval, None)
      else ig_encode (ig_GetLockStatusRequest_fields_size obj) 31 (ig_GetLockStatusRequest_fields
        obj) retval len)"

definition ig_GetLockStatusRequest_cases :: "(i64 \<times> IgGetLockStatusRequest case_body) list" where
  "ig_GetLockStatusRequest_cases =
    [(0, CMsgId 31),
     (11, CBytes (ig_GetLockStatusRequest_set_password_nocopy False)),
     (100, CUint (\<lambda>v. ig_GetLockStatusRequest_set_operation_id (ucast v)))]"

definition ig_GetLockStatusRequest_decode :: "bytes \<Rightarrow> IgGetLockStatusRequest
  \<Rightarrow> nat \<Rightarrow> (nat \<times> IgGetLockStatusRequest) res" where
  "ig_GetLockStatusRequest_decode buf obj index = ig_decode ig_GetLockStatusRequest_cases buf obj index"

definition ig_GetLockStatusRequest_ok :: "IgGetLockStatusRequest \<Rightarrow> bool" where
  "ig_GetLockStatusRequest_ok obj \<longleftrightarrow> ig_GetLockStatusRequest_is_valid obj \<and>
     str_ok (GetLockStatusRequest_has_password obj) (GetLockStatusRequest_password obj)
       (GetLockStatusRequest_password_size obj) \<and>
     num_ok (GetLockStatusRequest_has_operation_id obj) (GetLockStatusRequest_operation_id obj)"

lemmas ig_GetLockStatusRequest_setters =
  ig_GetLockStatusRequest_set_operation_id_def
  ig_GetLockStatusRequest_set_password_nocopy_def

text \<open>A guarded setter, member by member.\<close>
lemma ig_GetLockStatusRequest_set_if:
  "(if g then ig_GetLockStatusRequest_set_operation_id v0 obj else obj) =
     obj\<lparr>GetLockStatusRequest_operation_id := pick g v0 (GetLockStatusRequest_operation_id obj),
       GetLockStatusRequest_has_operation_id := g \<or> GetLockStatusRequest_has_operation_id obj\<rparr>"
  by (simp_all add: ig_GetLockStatusRequest_setters pick_def)

lemma ig_GetLockStatusRequest_store:
  assumes ok: "ig_GetLockStatusRequest_ok obj"
  shows "store_fields ig_GetLockStatusRequest_cases (ig_GetLockStatusRequest_fields obj)
    ig_GetLockStatusRequest_init = Some obj"
proof -
  have h: "str_ok (GetLockStatusRequest_has_password obj) (GetLockStatusRequest_password obj)
    (GetLockStatusRequest_password_size obj)"
    "num_ok (GetLockStatusRequest_has_operation_id obj) (GetLockStatusRequest_operation_id obj)"
    and valid: "ig_GetLockStatusRequest_is_valid obj"
    using ok by (simp_all add: ig_GetLockStatusRequest_ok_def)
  show ?thesis
    using valid
    by (simp add: ig_GetLockStatusRequest_fields_def ig_GetLockStatusRequest_cases_def
      ig_GetLockStatusRequest_init_def codec_simps
        ig_GetLockStatusRequest_set_if ig_GetLockStatusRequest_setters split del: if_split)
       (simp add: ig_GetLockStatusRequest_is_valid_def
         str_ok_store [OF h(1)]
         num_ok_store [OF h(2)])
qed

lemma ig_GetLockStatusRequest_bound:
  assumes "ig_GetLockStatusRequest_ok obj"
  shows "2 + length (number_bytes 31 MtUnsigned) + fields_bound (ig_GetLockStatusRequest_fields obj)
    \<le> unat (ig_GetLockStatusRequest_get_max_payload_in_bytes obj)"
proof -
  have sizes: "GetLockStatusRequest_password_size obj < 2 ^ 24"
    using assms by (auto simp: ig_GetLockStatusRequest_ok_def dest!: str_ok_bound)
  show ?thesis
    using sizes number_bytes_size [of "GetLockStatusRequest_password_size obj" "0x40"]
      number_bytes_u32 [of "GetLockStatusRequest_operation_id obj" 0]
    by (simp add: ig_GetLockStatusRequest_fields_def
      ig_GetLockStatusRequest_get_max_payload_in_bytes_def number_bytes_literal
        unat_of_nat_small del: of_nat_add)
qed

interpretation GetLockStatusRequest_codec: ig_message ig_GetLockStatusRequest_encode
  ig_GetLockStatusRequest_decode
  ig_GetLockStatusRequest_get_max_payload_in_bytes ig_GetLockStatusRequest_is_valid
    ig_GetLockStatusRequest_init ig_GetLockStatusRequest_ok 31
  ig_GetLockStatusRequest_fields_size ig_GetLockStatusRequest_fields ig_GetLockStatusRequest_cases
  by (unfold_locales;
      (rule ig_GetLockStatusRequest_encode_def ig_GetLockStatusRequest_decode_def | erule
        ig_GetLockStatusRequest_store ig_GetLockStatusRequest_bound |
       auto simp: ig_GetLockStatusRequest_cases_def ig_GetLockStatusRequest_fields_def
         ig_GetLockStatusRequest_fields_size_def ig_GetLockStatusRequest_ok_def
         simp del: arg_block_ok.simps(1,2) intro: str_ok_block))

subsection \<open>GetLockStatusResponse\<close>

record IgGetLockStatusResponse =
  GetLockStatusResponse_has_result :: bool
  GetLockStatusResponse_result :: u8
  GetLockStatusResponse_has_lock_open :: bool
  GetLockStatusResponse_lock_open :: bool
  GetLockStatusResponse_has_cell_network_status :: bool
  GetLockStatusResponse_cell_network_status :: u8
  GetLockStatusResponse_has_door_open :: bool
  GetLockStatusResponse_door_open :: u8
  GetLockStatusResponse_has_operation_id :: bool
  GetLockStatusResponse_operation_id :: u32

definition ig_GetLockStatusResponse_init :: IgGetLockStatusResponse where
  "ig_GetLockStatusResponse_init =
     \<lparr>GetLockStatusResponse_has_result = False,
      GetLockStatusResponse_result = 0,
      GetLockStatusResponse_has_lock_open = False,
      GetLockStatusResponse_lock_open = False,
      GetLockStatusResponse_has_cell_network_status = False,
      GetLockStatusResponse_cell_network_status = 0,
      GetLockStatusResponse_has_door_open = False,
      GetLockStatusResponse_door_open = 0,
      GetLockStatusResponse_has_operation_id = False,
      GetLockStatusResponse_operation_id = 0\<rparr>"

definition ig_GetLockStatusResponse_set_result :: "u8 \<Rightarrow> IgGetLockStatusResponse
  \<Rightarrow> IgGetLockStatusResponse" where
  "ig_GetLockStatusResponse_set_result v obj = obj\<lparr>GetLockStatusResponse_result := v,
    GetLockStatusResponse_has_result := True\<rparr>"

definition ig_GetLockStatusResponse_set_lock_open :: "bool \<Rightarrow> IgGetLockStatusResponse
  \<Rightarrow> IgGetLockStatusResponse" where
  "ig_GetLockStatusResponse_set_lock_open v obj = obj\<lparr>GetLockStatusResponse_lock_open := v,
    GetLockStatusResponse_has_lock_open := True\<rparr>"

definition ig_GetLockStatusResponse_set_cell_network_status :: "u8 \<Rightarrow>
  IgGetLockStatusResponse \<Rightarrow> IgGetLockStatusResponse" where
  "ig_GetLockStatusResponse_set_cell_network_status v obj =
    obj\<lparr>GetLockStatusResponse_cell_network_status := v,
      GetLockStatusResponse_has_cell_network_status := True\<rparr>"

definition ig_GetLockStatusResponse_set_door_open :: "u8 \<Rightarrow> IgGetLockStatusResponse
  \<Rightarrow> IgGetLockStatusResponse" where
  "ig_GetLockStatusResponse_set_door_open v obj = obj\<lparr>GetLockStatusResponse_door_open := v,
    GetLockStatusResponse_has_door_open := True\<rparr>"

definition ig_GetLockStatusResponse_set_operation_id :: "u32 \<Rightarrow> IgGetLockStatusResponse
  \<Rightarrow> IgGetLockStatusResponse" where
  "ig_GetLockStatusResponse_set_operation_id v obj = obj\<lparr>GetLockStatusResponse_operation_id
    := v, GetLockStatusResponse_has_operation_id := True\<rparr>"

definition ig_GetLockStatusResponse_deinit :: "IgGetLockStatusResponse \<Rightarrow>
  IgGetLockStatusResponse" where
  "ig_GetLockStatusResponse_deinit obj = obj"

definition ig_GetLockStatusResponse_is_valid :: "IgGetLockStatusResponse \<Rightarrow> bool" where
  "ig_GetLockStatusResponse_is_valid obj \<longleftrightarrow> GetLockStatusResponse_has_result obj"

definition ig_GetLockStatusResponse_get_max_payload_in_bytes :: "IgGetLockStatusResponse
  \<Rightarrow> u32" where
  "ig_GetLockStatusResponse_get_max_payload_in_bytes obj = 30"

definition ig_GetLockStatusResponse_fields_size :: "IgGetLockStatusResponse \<Rightarrow> u64" where
  "ig_GetLockStatusResponse_fields_size obj = 1 + 1 + of_bool (GetLockStatusResponse_has_lock_open
    obj) + of_bool (GetLockStatusResponse_has_cell_network_status obj) + of_bool
      (GetLockStatusResponse_has_door_open obj) + of_bool (GetLockStatusResponse_has_operation_id obj)"

definition ig_GetLockStatusResponse_fields :: "IgGetLockStatusResponse \<Rightarrow> enc_field list" where
  "ig_GetLockStatusResponse_fields obj =
    [(True, 11, AUint (ucast (GetLockStatusResponse_result obj))),
     (GetLockStatusResponse_has_lock_open obj, 12, ABool (GetLockStatusResponse_lock_open obj)),
     (GetLockStatusResponse_has_cell_network_status obj, 13, AUint (ucast
       (GetLockStatusResponse_cell_network_status obj))),
     (GetLockStatusResponse_has_door_open obj, 14, AUint (ucast (GetLockStatusResponse_door_open obj))),
     (GetLockStatusResponse_has_operation_id obj, 100, AUint (ucast
       (GetLockStatusResponse_operation_id obj)))]"

definition ig_GetLockStatusResponse_encode ::
  "IgGetLockStatusResponse \<Rightarrow> bytes \<Rightarrow> u32 \<Rightarrow> (nat \<times> bytes
    \<times> nat option) res" where
  "ig_GetLockStatusResponse_encode obj retval len =
     (if \<not> ig_GetLockStatusResponse_is_valid obj then Ok (IgSerializerErrorInvalidPayload, retval, None)
      else ig_encode (ig_GetLockStatusResponse_fields_size obj) 32 (ig_GetLockStatusResponse_fields
        obj) retval len)"

definition ig_GetLockStatusResponse_cases :: "(i64 \<times> IgGetLockStatusResponse case_body) list" where
  "ig_GetLockStatusResponse_cases =
    [(0, CMsgId 32),
     (11, CUint (\<lambda>v. ig_GetLockStatusResponse_set_result (ucast v))),
     (12, CBool ig_GetLockStatusResponse_set_lock_open),
     (13, CUint (\<lambda>v. ig_GetLockStatusResponse_set_cell_network_status (ucast v))),
     (14, CUint (\<lambda>v. ig_GetLockStatusResponse_set_door_open (ucast v))),
     (100, CUint (\<lambda>v. ig_GetLockStatusResponse_set_operation_id (ucast v)))]"

definition ig_GetLockStatusResponse_decode :: "bytes \<Rightarrow> IgGetLockStatusResponse
  \<Rightarrow> nat \<Rightarrow> (nat \<times> IgGetLockStatusResponse) res" where
  "ig_GetLockStatusResponse_decode buf obj index = ig_decode ig_GetLockStatusResponse_cases buf obj index"

definition ig_GetLockStatusResponse_ok :: "IgGetLockStatusResponse \<Rightarrow> bool" where
  "ig_GetLockStatusResponse_ok obj \<longleftrightarrow> ig_GetLockStatusResponse_is_valid obj \<and>
     num_ok (GetLockStatusResponse_has_result obj) (GetLockStatusResponse_result obj) \<and>
     flag_ok (GetLockStatusResponse_has_lock_open obj) (GetLockStatusResponse_lock_open obj) \<and>
     num_ok (GetLockStatusResponse_has_cell_network_status obj)
       (GetLockStatusResponse_cell_network_status obj) \<and>
     num_ok (GetLockStatusResponse_has_door_open obj) (GetLockStatusResponse_door_open obj) \<and>
     num_ok (GetLockStatusResponse_has_operation_id obj) (GetLockStatusResponse_operation_id obj)"

lemmas ig_GetLockStatusResponse_setters =
  ig_GetLockStatusResponse_set_cell_network_status_def
  ig_GetLockStatusResponse_set_door_open_def
  ig_GetLockStatusResponse_set_lock_open_def
  ig_GetLockStatusResponse_set_operation_id_def
  ig_GetLockStatusResponse_set_result_def

text \<open>A guarded setter, member by member.\<close>
lemma ig_GetLockStatusResponse_set_if:
  "(if g then ig_GetLockStatusResponse_set_lock_open b obj else obj) =
     obj\<lparr>GetLockStatusResponse_lock_open := pick g b (GetLockStatusResponse_lock_open obj),
       GetLockStatusResponse_has_lock_open := g \<or> GetLockStatusResponse_has_lock_open obj\<rparr>"
  "(if g then ig_GetLockStatusResponse_set_cell_network_status v1 obj else obj) =
     obj\<lparr>GetLockStatusResponse_cell_network_status := pick g v1
       (GetLockStatusResponse_cell_network_status obj),
       GetLockStatusResponse_has_cell_network_status := g \<or>
         GetLockStatusResponse_has_cell_network_status obj\<rparr>"
  "(if g then ig_GetLockStatusResponse_set_door_open v2 obj else obj) =
     obj\<lparr>GetLockStatusResponse_door_open := pick g v2 (GetLockStatusResponse_door_open obj),
       GetLockStatusResponse_has_door_open := g \<or> GetLockStatusResponse_has_door_open obj\<rparr>"
  "(if g then ig_GetLockStatusResponse_set_operation_id v3 obj else obj) =
     obj\<lparr>GetLockStatusResponse_operation_id := pick g v3 (GetLockStatusResponse_operation_id obj),
       GetLockStatusResponse_has_operation_id := g \<or> GetLockStatusResponse_has_operation_id obj\<rparr>"
  by (simp_all add: ig_GetLockStatusResponse_setters pick_def)

lemma ig_GetLockStatusResponse_store:
  assumes ok: "ig_GetLockStatusResponse_ok obj"
  shows "store_fields ig_GetLockStatusResponse_cases (ig_GetLockStatusResponse_fields obj)
    ig_GetLockStatusResponse_init = Some obj"
proof -
  have h: "num_ok (GetLockStatusResponse_has_result obj) (GetLockStatusResponse_result obj)"
    "flag_ok (GetLockStatusResponse_has_lock_open obj) (GetLockStatusResponse_lock_open obj)"
    "num_ok (GetLockStatusResponse_has_cell_network_status obj)
      (GetLockStatusResponse_cell_network_status obj)"
    "num_ok (GetLockStatusResponse_has_door_open obj) (GetLockStatusResponse_door_open obj)"
    "num_ok (GetLockStatusResponse_has_operation_id obj) (GetLockStatusResponse_operation_id obj)"
    and valid: "ig_GetLockStatusResponse_is_valid obj"
    using ok by (simp_all add: ig_GetLockStatusResponse_ok_def)
  show ?thesis
    using valid
    by (simp add: ig_GetLockStatusResponse_fields_def ig_GetLockStatusResponse_cases_def
      ig_GetLockStatusResponse_init_def codec_simps
        ig_GetLockStatusResponse_set_if ig_GetLockStatusResponse_setters split del: if_split)
       (simp add: ig_GetLockStatusResponse_is_valid_def
         num_ok_store [OF h(1)]
         flag_ok_store [OF h(2)]
         num_ok_store [OF h(3)]
         num_ok_store [OF h(4)]
         num_ok_store [OF h(5)])
qed

lemma ig_GetLockStatusResponse_bound:
  assumes "ig_GetLockStatusResponse_ok obj"
  shows "2 + length (number_bytes 32 MtUnsigned) + fields_bound (ig_GetLockStatusResponse_fields obj)
    \<le> unat (ig_GetLockStatusResponse_get_max_payload_in_bytes obj)"
  using number_bytes_u8 [of "GetLockStatusResponse_result obj" 0]
    number_bytes_u8 [of "GetLockStatusResponse_cell_network_status obj" 0]
    number_bytes_u8 [of "GetLockStatusResponse_door_open obj" 0]
    number_bytes_u32 [of "GetLockStatusResponse_operation_id obj" 0]
  by (simp add: ig_GetLockStatusResponse_fields_def
    ig_GetLockStatusResponse_get_max_payload_in_bytes_def number_bytes_literal)

interpretation GetLockStatusResponse_codec: ig_message ig_GetLockStatusResponse_encode
  ig_GetLockStatusResponse_decode
  ig_GetLockStatusResponse_get_max_payload_in_bytes ig_GetLockStatusResponse_is_valid
    ig_GetLockStatusResponse_init ig_GetLockStatusResponse_ok 32
  ig_GetLockStatusResponse_fields_size ig_GetLockStatusResponse_fields ig_GetLockStatusResponse_cases
  by (unfold_locales;
      (rule ig_GetLockStatusResponse_encode_def ig_GetLockStatusResponse_decode_def | erule
        ig_GetLockStatusResponse_store ig_GetLockStatusResponse_bound |
       auto simp: ig_GetLockStatusResponse_cases_def ig_GetLockStatusResponse_fields_def
         ig_GetLockStatusResponse_fields_size_def ig_GetLockStatusResponse_ok_def
         simp del: arg_block_ok.simps(1,2) intro: str_ok_block))

subsection \<open>GetStatusRequest\<close>

record IgGetStatusRequest =
  GetStatusRequest_has_password :: bool
  GetStatusRequest_password :: block_ptr
  GetStatusRequest_password_size :: nat
  GetStatusRequest_has_operation_id :: bool
  GetStatusRequest_operation_id :: u32

definition ig_GetStatusRequest_init :: IgGetStatusRequest where
  "ig_GetStatusRequest_init =
     \<lparr>GetStatusRequest_has_password = False,
      GetStatusRequest_password = None,
      GetStatusRequest_password_size = 0,
      GetStatusRequest_has_operation_id = False,
      GetStatusRequest_operation_id = 0\<rparr>"

definition ig_GetStatusRequest_get_password_size :: "IgGetStatusRequest \<Rightarrow> nat" where
  "ig_GetStatusRequest_get_password_size obj = GetStatusRequest_password_size obj"

definition ig_GetStatusRequest_set_password_nocopy ::
  "bool \<Rightarrow> block_ptr \<Rightarrow> nat \<Rightarrow> IgGetStatusRequest \<Rightarrow>
    IgGetStatusRequest" where
  "ig_GetStatusRequest_set_password_nocopy same_ptr p n obj =
     (if same_ptr then obj
      else let obj = (if GetStatusRequest_has_password obj then
        obj\<lparr>GetStatusRequest_password := None\<rparr> else obj)
        in obj\<lparr>GetStatusRequest_password := p, GetStatusRequest_password_size := n,
          GetStatusRequest_has_password := n > 0\<rparr>)"

definition ig_GetStatusRequest_set_password ::
  "bool \<Rightarrow> block_ptr \<Rightarrow> nat \<Rightarrow> IgGetStatusRequest \<Rightarrow>
    IgGetStatusRequest res" where
  "ig_GetStatusRequest_set_password same_ptr p n obj =
     (if same_ptr then Ok obj
      else let obj = (if GetStatusRequest_has_password obj then
        obj\<lparr>GetStatusRequest_password := None\<rparr> else obj)
        in bindR (block_read p n) (\<lambda>d.
          Ok (obj\<lparr>GetStatusRequest_password := Some d, GetStatusRequest_password_size := n,
            GetStatusRequest_has_password := n > 0\<rparr>)))"

definition ig_GetStatusRequest_set_operation_id :: "u32 \<Rightarrow> IgGetStatusRequest
  \<Rightarrow> IgGetStatusRequest" where
  "ig_GetStatusRequest_set_operation_id v obj = obj\<lparr>GetStatusRequest_operation_id := v,
    GetStatusRequest_has_operation_id := True\<rparr>"

definition ig_GetStatusRequest_deinit :: "IgGetStatusRequest \<Rightarrow> IgGetStatusRequest" where
  "ig_GetStatusRequest_deinit obj = (let
     obj = (if GetStatusRequest_has_password obj then obj\<lparr>GetStatusRequest_password :=
       None\<rparr> else obj)
   in obj)"

definition ig_GetStatusRequest_is_valid :: "IgGetStatusRequest \<Rightarrow> bool" where
  "ig_GetStatusRequest_is_valid obj \<longleftrightarrow> GetStatusRequest_has_password obj"

definition ig_GetStatusRequest_get_max_payload_in_bytes :: "IgGetStatusRequest \<Rightarrow> u32" where
  "ig_GetStatusRequest_get_max_payload_in_bytes obj = word_of_nat (26 + GetStatusRequest_password_size obj)"

definition ig_GetStatusRequest_fields_size :: "IgGetStatusRequest \<Rightarrow> u64" where
  "ig_GetStatusRequest_fields_size obj = 1 + 1 + of_bool (GetStatusRequest_has_operation_id obj)"

definition ig_GetStatusRequest_fields :: "IgGetStatusRequest \<Rightarrow> enc_field list" where
  "ig_GetStatusRequest_fields obj =
    [(True, 11, ABytes (GetStatusRequest_password obj) (GetStatusRequest_password_size obj)),
     (GetStatusRequest_has_operation_id obj, 100, AUint (ucast (GetStatusRequest_operation_id obj)))]"

definition ig_GetStatusRequest_encode ::
  "IgGetStatusRequest \<Rightarrow> bytes \<Rightarrow> u32 \<Rightarrow> (nat \<times> bytes
    \<times> nat option) res" where
  "ig_GetStatusRequest_encode obj retval len =
     (if \<not> ig_GetStatusRequest_is_valid obj then Ok (IgSerializerErrorInvalidPayload, retval, None)
      else ig_encode (ig_GetStatusRequest_fields_size obj) 31 (ig_GetStatusRequest_fields obj) retval len)"

definition ig_GetStatusRequest_cases :: "(i64 \<times> IgGetStatusRequest case_body) list" where
  "ig_GetStatusRequest_cases =
    [(0, CMsgId 31),
     (11, CBytes (ig_GetStatusRequest_set_password_nocopy False)),
     (100, CUint (\<lambda>v. ig_GetStatusRequest_set_operation_id (ucast v)))]"

definition ig_GetStatusRequest_decode :: "bytes \<Rightarrow> IgGetStatusRequest \<Rightarrow> nat
  \<Rightarrow> (nat \<times> IgGetStatusRequest) res" where
  "ig_GetStatusRequest_decode buf obj index = ig_decode ig_GetStatusRequest_cases buf obj index"

definition ig_GetStatusRequest_ok :: "IgGetStatusRequest \<Rightarrow> bool" where
  "ig_GetStatusRequest_ok obj \<longleftrightarrow> ig_GetStatusRequest_is_valid obj \<and>
     str_ok (GetStatusRequest_has_password obj) (GetStatusRequest_password obj)
       (GetStatusRequest_password_size obj) \<and>
     num_ok (GetStatusRequest_has_operation_id obj) (GetStatusRequest_operation_id obj)"

lemmas ig_GetStatusRequest_setters =
  ig_GetStatusRequest_set_operation_id_def
  ig_GetStatusRequest_set_password_nocopy_def

text \<open>A guarded setter, member by member.\<close>
lemma ig_GetStatusRequest_set_if:
  "(if g then ig_GetStatusRequest_set_operation_id v0 obj else obj) =
     obj\<lparr>GetStatusRequest_operation_id := pick g v0 (GetStatusRequest_operation_id obj),
       GetStatusRequest_has_operation_id := g \<or> GetStatusRequest_has_operation_id obj\<rparr>"
  by (simp_all add: ig_GetStatusRequest_setters pick_def)

lemma ig_GetStatusRequest_store:
  assumes ok: "ig_GetStatusRequest_ok obj"
  shows "store_fields ig_GetStatusRequest_cases (ig_GetStatusRequest_fields obj)
    ig_GetStatusRequest_init = Some obj"
proof -
  have h: "str_ok (GetStatusRequest_has_password obj) (GetStatusRequest_password obj)
    (GetStatusRequest_password_size obj)"
    "num_ok (GetStatusRequest_has_operation_id obj) (GetStatusRequest_operation_id obj)"
    and valid: "ig_GetStatusRequest_is_valid obj"
    using ok by (simp_all add: ig_GetStatusRequest_ok_def)
  show ?thesis
    using valid
    by (simp add: ig_GetStatusRequest_fields_def ig_GetStatusRequest_cases_def
      ig_GetStatusRequest_init_def codec_simps
        ig_GetStatusRequest_set_if ig_GetStatusRequest_setters split del: if_split)
       (simp add: ig_GetStatusRequest_is_valid_def
         str_ok_store [OF h(1)]
         num_ok_store [OF h(2)])
qed

lemma ig_GetStatusRequest_bound:
  assumes "ig_GetStatusRequest_ok obj"
  shows "2 + length (number_bytes 31 MtUnsigned) + fields_bound (ig_GetStatusRequest_fields obj)
    \<le> unat (ig_GetStatusRequest_get_max_payload_in_bytes obj)"
proof -
  have sizes: "GetStatusRequest_password_size obj < 2 ^ 24"
    using assms by (auto simp: ig_GetStatusRequest_ok_def dest!: str_ok_bound)
  show ?thesis
    using sizes number_bytes_size [of "GetStatusRequest_password_size obj" "0x40"]
      number_bytes_u32 [of "GetStatusRequest_operation_id obj" 0]
    by (simp add: ig_GetStatusRequest_fields_def ig_GetStatusRequest_get_max_payload_in_bytes_def
      number_bytes_literal
        unat_of_nat_small del: of_nat_add)
qed

interpretation GetStatusRequest_codec: ig_message ig_GetStatusRequest_encode ig_GetStatusRequest_decode
  ig_GetStatusRequest_get_max_payload_in_bytes ig_GetStatusRequest_is_valid
    ig_GetStatusRequest_init ig_GetStatusRequest_ok 31
  ig_GetStatusRequest_fields_size ig_GetStatusRequest_fields ig_GetStatusRequest_cases
  by (unfold_locales;
      (rule ig_GetStatusRequest_encode_def ig_GetStatusRequest_decode_def | erule
        ig_GetStatusRequest_store ig_GetStatusRequest_bound |
       auto simp: ig_GetStatusRequest_cases_def ig_GetStatusRequest_fields_def
         ig_GetStatusRequest_fields_size_def ig_GetStatusRequest_ok_def
         simp del: arg_block_ok.simps(1,2) intro: str_ok_block))

subsection \<open>GetStatusResponse\<close>

record IgGetStatusResponse =
  GetStatusResponse_has_result :: bool
  GetStatusResponse_result :: u8
  GetStatusResponse_has_lock_open :: bool
  GetStatusResponse_lock_open :: bool
  GetStatusResponse_has_nb_network_status :: bool
  GetStatusResponse_nb_network_status :: u8
  GetStatusResponse_has_door_open :: bool
  GetStatusResponse_door_open :: u8
  GetStatusResponse_has_wifi_network_status :: bool
  GetStatusResponse_wifi_network_status :: u8
  GetStatusResponse_has_operation_id :: bool
  GetStatusResponse_operation_id :: u32

definition ig_GetStatusResponse_init :: IgGetStatusResponse where
  "ig_GetStatusResponse_init =
     \<lparr>GetStatusResponse_has_result = False,
      GetStatusResponse_result = 0,
      GetStatusResponse_has_lock_open = False,
      GetStatusResponse_lock_open = False,
      GetStatusResponse_has_nb_network_status = False,
      GetStatusResponse_nb_network_status = 0,
      GetStatusResponse_has_door_open = False,
      GetStatusResponse_door_open = 0,
      GetStatusResponse_has_wifi_network_status = False,
      GetStatusResponse_wifi_network_status = 0,
      GetStatusResponse_has_operation_id = False,
      GetStatusResponse_operation_id = 0\<rparr>"

definition ig_GetStatusResponse_set_result :: "u8 \<Rightarrow> IgGetStatusResponse \<Rightarrow>
  IgGetStatusResponse" where
  "ig_GetStatusResponse_set_result v obj = obj\<lparr>GetStatusResponse_result := v,
    GetStatusResponse_has_result := True\<rparr>"

definition ig_GetStatusResponse_set_lock_open :: "bool \<Rightarrow> IgGetStatusResponse
  \<Rightarrow> IgGetStatusResponse" where
  "ig_GetStatusResponse_set_lock_open v obj = obj\<lparr>GetStatusResponse_lock_open := v,
    GetStatusResponse_has_lock_open := True\<rparr>"

definition ig_GetStatusResponse_set_nb_network_status :: "u8 \<Rightarrow> IgGetStatusResponse
  \<Rightarrow> IgGetStatusResponse" where
  "ig_GetStatusResponse_set_nb_network_status v obj =
    obj\<lparr>GetStatusResponse_nb_network_status := v, GetStatusResponse_has_nb_network_status :=
      True\<rparr>"

definition ig_GetStatusResponse_set_door_open :: "u8 \<Rightarrow> IgGetStatusResponse
  \<Rightarrow> IgGetStatusResponse" where
  "ig_GetStatusResponse_set_door_open v obj = obj\<lparr>GetStatusResponse_door_open := v,
    GetStatusResponse_has_door_open := True\<rparr>"

definition ig_GetStatusResponse_set_wifi_network_status :: "u8 \<Rightarrow> IgGetStatusResponse
  \<Rightarrow> IgGetStatusResponse" where
  "ig_GetStatusResponse_set_wifi_network_status v obj =
    obj\<lparr>GetStatusResponse_wifi_network_status := v,
      GetStatusResponse_has_wifi_network_status := True\<rparr>"

definition ig_GetStatusResponse_set_operation_id :: "u32 \<Rightarrow> IgGetStatusResponse
  \<Rightarrow> IgGetStatusResponse" where
  "ig_GetStatusResponse_set_operation_id v obj = obj\<lparr>GetStatusResponse_operation_id := v,
    GetStatusResponse_has_operation_id := True\<rparr>"

definition ig_GetStatusResponse_deinit :: "IgGetStatusResponse \<Rightarrow> IgGetStatusResponse" where
  "ig_GetStatusResponse_deinit obj = obj"

definition ig_GetStatusResponse_is_valid :: "IgGetStatusResponse \<Rightarrow> bool" where
  "ig_GetStatusResponse_is_valid obj \<longleftrightarrow> GetStatusResponse_has_result obj"

definition ig_GetStatusResponse_get_max_payload_in_bytes :: "IgGetStatusResponse \<Rightarrow> u32" where
  "ig_GetStatusResponse_get_max_payload_in_bytes obj = 33"

definition ig_GetStatusResponse_fields_size :: "IgGetStatusResponse \<Rightarrow> u64" where
  "ig_GetStatusResponse_fields_size obj = 1 + 1 + of_bool (GetStatusResponse_has_lock_open obj) +
    of_bool (GetStatusResponse_has_nb_network_status obj) + of_bool
      (GetStatusResponse_has_door_open obj) + of_bool (GetStatusResponse_has_wifi_network_status
        obj) + of_bool (GetStatusResponse_has_operation_id obj)"

definition ig_GetStatusResponse_fields :: "IgGetStatusResponse \<Rightarrow> enc_field list" where
  "ig_GetStatusResponse_fields obj =
    [(True, 11, AUint (ucast (GetStatusResponse_result obj))),
     (GetStatusResponse_has_lock_open obj, 12, ABool (GetStatusResponse_lock_open obj)),
     (GetStatusResponse_has_nb_network_status obj, 13, AUint (ucast
       (GetStatusResponse_nb_network_status obj))),
     (GetStatusResponse_has_door_open obj, 14, AUint (ucast (GetStatusResponse_door_open obj))),
     (GetStatusResponse_has_wifi_network_status obj, 15, AUint (ucast
       (GetStatusResponse_wifi_network_status obj))),
     (GetStatusResponse_has_operation_id obj, 100, AUint (ucast (GetStatusResponse_operation_id obj)))]"

definition ig_GetStatusResponse_encode ::
  "IgGetStatusResponse \<Rightarrow> bytes \<Rightarrow> u32 \<Rightarrow> (nat \<times> bytes
    \<times> nat option) res" where
  "ig_GetStatusResponse_encode obj retval len =
     (if \<not> ig_GetStatusResponse_is_valid obj then Ok (IgSerializerErrorInvalidPayload, retval, None)
      else ig_encode (ig_GetStatusResponse_fields_size obj) 32 (ig_GetStatusResponse_fields obj) retval len)"

definition ig_GetStatusResponse_cases :: "(i64 \<times> IgGetStatusResponse case_body) list" where
  "ig_GetStatusResponse_cases =
    [(0, CMsgId 32),
     (11, CUint (\<lambda>v. ig_GetStatusResponse_set_result (ucast v))),
     (12, CBool ig_GetStatusResponse_set_lock_open),
     (13, CUint (\<lambda>v. ig_GetStatusResponse_set_nb_network_status (ucast v))),
     (14, CUint (\<lambda>v. ig_GetStatusResponse_set_door_open (ucast v))),
     (15, CUint (\<lambda>v. ig_GetStatusResponse_set_wifi_network_status (ucast v))),
     (100, CUint (\<lambda>v. ig_GetStatusResponse_set_operation_id (ucast v)))]"

definition ig_GetStatusResponse_decode :: "bytes \<Rightarrow> IgGetStatusResponse \<Rightarrow>
  nat \<Rightarrow> (nat \<times> IgGetStatusResponse) res" where
  "ig_GetStatusResponse_decode buf obj index = ig_decode ig_GetStatusResponse_cases buf obj index"

definition ig_GetStatusResponse_ok :: "IgGetStatusResponse \<Rightarrow> bool" where
  "ig_GetStatusResponse_ok obj \<longleftrightarrow> ig_GetStatusResponse_is_valid obj \<and>
     num_ok (GetStatusResponse_has_result obj) (GetStatusResponse_result obj) \<and>
     flag_ok (GetStatusResponse_has_lock_open obj) (GetStatusResponse_lock_open obj) \<and>
     num_ok (GetStatusResponse_has_nb_network_status obj) (GetStatusResponse_nb_network_status obj) \<and>
     num_ok (GetStatusResponse_has_door_open obj) (GetStatusResponse_door_open obj) \<and>
     num_ok (GetStatusResponse_has_wifi_network_status obj) (GetStatusResponse_wifi_network_status obj) \<and>
     num_ok (GetStatusResponse_has_operation_id obj) (GetStatusResponse_operation_id obj)"

lemmas ig_GetStatusResponse_setters =
  ig_GetStatusResponse_set_door_open_def
  ig_GetStatusResponse_set_lock_open_def
  ig_GetStatusResponse_set_nb_network_status_def
  ig_GetStatusResponse_set_operation_id_def
  ig_GetStatusResponse_set_result_def
  ig_GetStatusResponse_set_wifi_network_status_def

text \<open>A guarded setter, member by member.\<close>
lemma ig_GetStatusResponse_set_if:
  "(if g then ig_GetStatusResponse_set_lock_open b obj else obj) =
     obj\<lparr>GetStatusResponse_lock_open := pick g b (GetStatusResponse_lock_open obj),
       GetStatusResponse_has_lock_open := g \<or> GetStatusResponse_has_lock_open obj\<rparr>"
  "(if g then ig_GetStatusResponse_set_nb_network_status v1 obj else obj) =
     obj\<lparr>GetStatusResponse_nb_network_status := pick g v1 (GetStatusResponse_nb_network_status obj),
       GetStatusResponse_has_nb_network_status := g \<or> GetStatusResponse_has_nb_network_status obj\<rparr>"
  "(if g then ig_GetStatusResponse_set_door_open v2 obj else obj) =
     obj\<lparr>GetStatusResponse_door_open := pick g v2 (GetStatusResponse_door_open obj),
       GetStatusResponse_has_door_open := g \<or> GetStatusResponse_has_door_open obj\<rparr>"
  "(if g then ig_GetStatusResponse_set_wifi_network_status v3 obj else obj) =
     obj\<lparr>GetStatusResponse_wifi_network_status := pick g v3
       (GetStatusResponse_wifi_network_status obj),
       GetStatusResponse_has_wifi_network_status := g \<or>
         GetStatusResponse_has_wifi_network_status obj\<rparr>"
  "(if g then ig_GetStatusResponse_set_operation_id v4 obj else obj) =
     obj\<lparr>GetStatusResponse_operation_id := pick g v4 (GetStatusResponse_operation_id obj),
       GetStatusResponse_has_operation_id := g \<or> GetStatusResponse_has_operation_id obj\<rparr>"
  by (simp_all add: ig_GetStatusResponse_setters pick_def)

lemma ig_GetStatusResponse_store:
  assumes ok: "ig_GetStatusResponse_ok obj"
  shows "store_fields ig_GetStatusResponse_cases (ig_GetStatusResponse_fields obj)
    ig_GetStatusResponse_init = Some obj"
proof -
  have h: "num_ok (GetStatusResponse_has_result obj) (GetStatusResponse_result obj)"
    "flag_ok (GetStatusResponse_has_lock_open obj) (GetStatusResponse_lock_open obj)"
    "num_ok (GetStatusResponse_has_nb_network_status obj) (GetStatusResponse_nb_network_status obj)"
    "num_ok (GetStatusResponse_has_door_open obj) (GetStatusResponse_door_open obj)"
    "num_ok (GetStatusResponse_has_wifi_network_status obj) (GetStatusResponse_wifi_network_status obj)"
    "num_ok (GetStatusResponse_has_operation_id obj) (GetStatusResponse_operation_id obj)"
    and valid: "ig_GetStatusResponse_is_valid obj"
    using ok by (simp_all add: ig_GetStatusResponse_ok_def)
  show ?thesis
    using valid
    by (simp add: ig_GetStatusResponse_fields_def ig_GetStatusResponse_cases_def
      ig_GetStatusResponse_init_def codec_simps
        ig_GetStatusResponse_set_if ig_GetStatusResponse_setters split del: if_split)
       (simp add: ig_GetStatusResponse_is_valid_def
         num_ok_store [OF h(1)]
         flag_ok_store [OF h(2)]
         num_ok_store [OF h(3)]
         num_ok_store [OF h(4)]
         num_ok_store [OF h(5)]
         num_ok_store [OF h(6)])
qed

lemma ig_GetStatusResponse_bound:
  assumes "ig_GetStatusResponse_ok obj"
  shows "2 + length (number_bytes 32 MtUnsigned) + fields_bound (ig_GetStatusResponse_fields obj)
    \<le> unat (ig_GetStatusResponse_get_max_payload_in_bytes obj)"
  using number_bytes_u8 [of "GetStatusResponse_result obj" 0]
    number_bytes_u8 [of "GetStatusResponse_nb_network_status obj" 0]
    number_bytes_u8 [of "GetStatusResponse_door_open obj" 0]
    number_bytes_u8 [of "GetStatusResponse_wifi_network_status obj" 0]
    number_bytes_u32 [of "GetStatusResponse_operation_id obj" 0]
  by (simp add: ig_GetStatusResponse_fields_def ig_GetStatusResponse_get_max_payload_in_bytes_def
    number_bytes_literal)

interpretation GetStatusResponse_codec: ig_message ig_GetStatusResponse_encode ig_GetStatusResponse_decode
  ig_GetStatusResponse_get_max_payload_in_bytes ig_GetStatusResponse_is_valid
    ig_GetStatusResponse_init ig_GetStatusResponse_ok 32
  ig_GetStatusResponse_fields_size ig_GetStatusResponse_fields ig_GetStatusResponse_cases
  by (unfold_locales;
      (rule ig_GetStatusResponse_encode_def ig_GetStatusResponse_decode_def | erule
        ig_GetStatusResponse_store ig_GetStatusResponse_bound |
       auto simp: ig_GetStatusResponse_cases_def ig_GetStatusResponse_fields_def
         ig_GetStatusResponse_fields_size_def ig_GetStatusResponse_ok_def
         simp del: arg_block_ok.simps(1,2) intro: str_ok_block))

subsection \<open>StatusNotification\<close>

record IgStatusNotification =
  StatusNotification_has_woken :: bool
  StatusNotification_woken :: u8
  StatusNotification_has_lock_open :: bool
  StatusNotification_lock_open :: u8
  StatusNotification_has_has_logs :: bool
  StatusNotification_has_logs :: u8
  StatusNotification_has_door_open :: bool
  StatusNotification_door_open :: u8

definition ig_StatusNotification_init :: IgStatusNotification where
  "ig_StatusNotification_init =
     \<lparr>StatusNotification_has_woken = False,
      StatusNotification_woken = 0,
      StatusNotification_has_lock_open = False,
      StatusNotification_lock_open = 0,
      StatusNotification_has_has_logs = False,
      StatusNotification_has_logs = 0,
      StatusNotification_has_door_open = False,
      StatusNotification_door_open = 0\<rparr>"

definition ig_StatusNotification_set_woken :: "u8 \<Rightarrow> IgStatusNotification \<Rightarrow>
  IgStatusNotification" where
  "ig_StatusNotification_set_woken v obj = obj\<lparr>StatusNotification_woken := v,
    StatusNotification_has_woken := True\<rparr>"

definition ig_StatusNotification_set_lock_open :: "u8 \<Rightarrow> IgStatusNotification
  \<Rightarrow> IgStatusNotification" where
  "ig_StatusNotification_set_lock_open v obj = obj\<lparr>StatusNotification_lock_open := v,
    StatusNotification_has_lock_open := True\<rparr>"

definition ig_StatusNotification_set_has_logs :: "u8 \<Rightarrow> IgStatusNotification
  \<Rightarrow> IgStatusNotification" where
  "ig_StatusNotification_set_has_logs v obj = obj\<lparr>StatusNotification_has_logs := v,
    StatusNotification_has_has_logs := True\<rparr>"

definition ig_StatusNotification_set_door_open :: "u8 \<Rightarrow> IgStatusNotification
  \<Rightarrow> IgStatusNotification" where
  "ig_StatusNotification_set_door_open v obj = obj\<lparr>StatusNotification_door_open := v,
    StatusNotification_has_door_open := True\<rparr>"

definition ig_StatusNotification_deinit :: "IgStatusNotification \<Rightarrow> IgStatusNotification" where
  "ig_StatusNotification_deinit obj = obj"

definition ig_StatusNotification_is_valid :: "IgStatusNotification \<Rightarrow> bool" where
  "ig_StatusNotification_is_valid obj \<longleftrightarrow> True"

definition ig_StatusNotification_get_max_payload_in_bytes :: "IgStatusNotification \<Rightarrow> u32" where
  "ig_StatusNotification_get_max_payload_in_bytes obj = 25"

definition ig_StatusNotification_fields_size :: "IgStatusNotification \<Rightarrow> u64" where
  "ig_StatusNotification_fields_size obj = 1 + 0 + of_bool (StatusNotification_has_woken obj) +
    of_bool (StatusNotification_has_lock_open obj) + of_bool (StatusNotification_has_has_logs obj)
      + of_bool (StatusNotification_has_door_open obj)"

definition ig_StatusNotification_fields :: "IgStatusNotification \<Rightarrow> enc_field list" where
  "ig_StatusNotification_fields obj =
    [(StatusNotification_has_woken obj, 11, AUint (ucast (StatusNotification_woken obj))),
     (StatusNotification_has_lock_open obj, 12, AUint (ucast (StatusNotification_lock_open obj))),
     (StatusNotification_has_has_logs obj, 13, AUint (ucast (StatusNotification_has_logs obj))),
     (StatusNotification_has_door_open obj, 15, AUint (ucast (StatusNotification_door_open obj)))]"

definition ig_StatusNotification_encode ::
  "IgStatusNotification \<Rightarrow> bytes \<Rightarrow> u32 \<Rightarrow> (nat \<times> bytes
    \<times> nat option) res" where
  "ig_StatusNotification_encode obj retval len =
     (if \<not> ig_StatusNotification_is_valid obj then Ok (IgSerializerErrorInvalidPayload, retval, None)
      else ig_encode (ig_StatusNotification_fields_size obj) 100 (ig_StatusNotification_fields obj)
        retval len)"

definition ig_StatusNotification_cases :: "(i64 \<times> IgStatusNotification case_body) list" where
  "ig_StatusNotification_cases =
    [(0, CMsgId 100),
     (11, CUint (\<lambda>v. ig_StatusNotification_set_woken (ucast v))),
     (12, CUint (\<lambda>v. ig_StatusNotification_set_lock_open (ucast v))),
     (13, CUint (\<lambda>v. ig_StatusNotification_set_has_logs (ucast v))),
     (15, CUint (\<lambda>v. ig_StatusNotification_set_door_open (ucast v)))]"

definition ig_StatusNotification_decode :: "bytes \<Rightarrow> IgStatusNotification \<Rightarrow>
  nat \<Rightarrow> (nat \<times> IgStatusNotification) res" where
  "ig_StatusNotification_decode buf obj index = ig_decode ig_StatusNotification_cases buf obj index"

definition ig_StatusNotification_ok :: "IgStatusNotification \<Rightarrow> bool" where
  "ig_StatusNotification_ok obj \<longleftrightarrow> ig_StatusNotification_is_valid obj \<and>
     num_ok (StatusNotification_has_woken obj) (StatusNotification_woken obj) \<and>
     num_ok (StatusNotification_has_lock_open obj) (StatusNotification_lock_open obj) \<and>
     num_ok (StatusNotification_has_has_logs obj) (StatusNotification_has_logs obj) \<and>
     num_ok (StatusNotification_has_door_open obj) (StatusNotification_door_open obj)"

lemmas ig_StatusNotification_setters =
  ig_StatusNotification_set_door_open_def
  ig_StatusNotification_set_has_logs_def
  ig_StatusNotification_set_lock_open_def
  ig_StatusNotification_set_woken_def

text \<open>A guarded setter, member by member.\<close>
lemma ig_StatusNotification_set_if:
  "(if g then ig_StatusNotification_set_woken v0 obj else obj) =
     obj\<lparr>StatusNotification_woken := pick g v0 (StatusNotification_woken obj),
       StatusNotification_has_woken := g \<or> StatusNotification_has_woken obj\<rparr>"
  "(if g then ig_StatusNotification_set_lock_open v1 obj else obj) =
     obj\<lparr>StatusNotification_lock_open := pick g v1 (StatusNotification_lock_open obj),
       StatusNotification_has_lock_open := g \<or> StatusNotification_has_lock_open obj\<rparr>"
  "(if g then ig_StatusNotification_set_has_logs v2 obj else obj) =
     obj\<lparr>StatusNotification_has_logs := pick g v2 (StatusNotification_has_logs obj),
       StatusNotification_has_has_logs := g \<or> StatusNotification_has_has_logs obj\<rparr>"
  "(if g then ig_StatusNotification_set_door_open v3 obj else obj) =
     obj\<lparr>StatusNotification_door_open := pick g v3 (StatusNotification_door_open obj),
       StatusNotification_has_door_open := g \<or> StatusNotification_has_door_open obj\<rparr>"
  by (simp_all add: ig_StatusNotification_setters pick_def)

lemma ig_StatusNotification_store:
  assumes ok: "ig_StatusNotification_ok obj"
  shows "store_fields ig_StatusNotification_cases (ig_StatusNotification_fields obj)
    ig_StatusNotification_init = Some obj"
proof -
  have h: "num_ok (StatusNotification_has_woken obj) (StatusNotification_woken obj)"
    "num_ok (StatusNotification_has_lock_open obj) (StatusNotification_lock_open obj)"
    "num_ok (StatusNotification_has_has_logs obj) (StatusNotification_has_logs obj)"
    "num_ok (StatusNotification_has_door_open obj) (StatusNotification_door_open obj)"
    and valid: "ig_StatusNotification_is_valid obj"
    using ok by (simp_all add: ig_StatusNotification_ok_def)
  show ?thesis
    using valid
    by (simp add: ig_StatusNotification_fields_def ig_StatusNotification_cases_def
      ig_StatusNotification_init_def codec_simps
        ig_StatusNotification_set_if ig_StatusNotification_setters split del: if_split)
       (simp add: ig_StatusNotification_is_valid_def
         num_ok_store [OF h(1)]
         num_ok_store [OF h(2)]
         num_ok_store [OF h(3)]
         num_ok_store [OF h(4)])
qed

lemma ig_StatusNotification_bound:
  assumes "ig_StatusNotification_ok obj"
  shows "2 + length (number_bytes 100 MtUnsigned) + fields_bound (ig_StatusNotification_fields obj)
    \<le> unat (ig_StatusNotification_get_max_payload_in_bytes obj)"
  using number_bytes_u8 [of "StatusNotification_woken obj" 0]
    number_bytes_u8 [of "StatusNotification_lock_open obj" 0]
    number_bytes_u8 [of "StatusNotification_has_logs obj" 0]
    number_bytes_u8 [of "StatusNotification_door_open obj" 0]
  by (simp add: ig_StatusNotification_fields_def ig_StatusNotification_get_max_payload_in_bytes_def
    number_bytes_literal)

interpretation StatusNotification_codec: ig_message ig_StatusNotification_encode ig_StatusNotification_decode
  ig_StatusNotification_get_max_payload_in_bytes ig_StatusNotification_is_valid
    ig_StatusNotification_init ig_StatusNotification_ok 100
  ig_StatusNotification_fields_size ig_StatusNotification_fields ig_StatusNotification_cases
  by (unfold_locales;
      (rule ig_StatusNotification_encode_def ig_StatusNotification_decode_def | erule
        ig_StatusNotification_store ig_StatusNotification_bound |
       auto simp: ig_StatusNotification_cases_def ig_StatusNotification_fields_def
         ig_StatusNotification_fields_size_def ig_StatusNotification_ok_def
         simp del: arg_block_ok.simps(1,2) intro: str_ok_block))

subsection \<open>EnableAutoUnlockRequest\<close>

record IgEnableAutoUnlockRequest =
  EnableAutoUnlockRequest_has_password :: bool
  EnableAutoUnlockRequest_password :: block_ptr
  EnableAutoUnlockRequest_password_size :: nat
  EnableAutoUnlockRequest_has_enable :: bool
  EnableAutoUnlockRequest_enable :: bool
  EnableAutoUnlockRequest_has_rssi_min :: bool
  EnableAutoUnlockRequest_rssi_min :: i32
  EnableAutoUnlockRequest_has_operation_id :: bool
  EnableAutoUnlockRequest_operation_id :: u32

definition ig_EnableAutoUnlockRequest_init :: IgEnableAutoUnlockRequest where
  "ig_EnableAutoUnlockRequest_init =
     \<lparr>EnableAutoUnlockRequest_has_password = False,
      EnableAutoUnlockRequest_password = None,
      EnableAutoUnlockRequest_password_size = 0,
      EnableAutoUnlockRequest_has_enable = False,
      EnableAutoUnlockRequest_enable = False,
      EnableAutoUnlockRequest_has_rssi_min = False,
      EnableAutoUnlockRequest_rssi_min = 0,
      EnableAutoUnlockRequest_has_operation_id = False,
      EnableAutoUnlockRequest_operation_id = 0\<rparr>"

definition ig_EnableAutoUnlockRequest_get_password_size :: "IgEnableAutoUnlockRequest \<Rightarrow> nat" where
  "ig_EnableAutoUnlockRequest_get_password_size obj = EnableAutoUnlockRequest_password_size obj"

definition ig_EnableAutoUnlockRequest_set_password_nocopy ::
  "bool \<Rightarrow> block_ptr \<Rightarrow> nat \<Rightarrow> IgEnableAutoUnlockRequest
    \<Rightarrow> IgEnableAutoUnlockRequest" where
  "ig_EnableAutoUnlockRequest_set_password_nocopy same_ptr p n obj =
     (if same_ptr then obj
      else let obj = (if EnableAutoUnlockRequest_has_password obj then
        obj\<lparr>EnableAutoUnlockRequest_password := None\<rparr> else obj)
        in obj\<lparr>EnableAutoUnlockRequest_password := p, EnableAutoUnlockRequest_password_size
          := n, EnableAutoUnlockRequest_has_password := n > 0\<rparr>)"

definition ig_EnableAutoUnlockRequest_set_password ::
  "bool \<Rightarrow> block_ptr \<Rightarrow> nat \<Rightarrow> IgEnableAutoUnlockRequest
    \<Rightarrow> IgEnableAutoUnlockRequest res" where
  "ig_EnableAutoUnlockRequest_set_password same_ptr p n obj =
     (if same_ptr then Ok obj
      else let obj = (if EnableAutoUnlockRequest_has_password obj then
        obj\<lparr>EnableAutoUnlockRequest_password := None\<rparr> else obj)
        in bindR (block_read p n) (\<lambda>d.
          Ok (obj\<lparr>EnableAutoUnlockRequest_password := Some d,
            EnableAutoUnlockRequest_password_size := n, EnableAutoUnlockRequest_has_password := n >
              0\<rparr>)))"

definition ig_EnableAutoUnlockRequest_set_enable :: "bool \<Rightarrow> IgEnableAutoUnlockRequest
  \<Rightarrow> IgEnableAutoUnlockRequest" where
  "ig_EnableAutoUnlockRequest_set_enable v obj = obj\<lparr>EnableAutoUnlockRequest_enable := v,
    EnableAutoUnlockRequest_has_enable := True\<rparr>"

definition ig_EnableAutoUnlockRequest_set_rssi_min :: "i32 \<Rightarrow> IgEnableAutoUnlockRequest
  \<Rightarrow> IgEnableAutoUnlockRequest" where
  "ig_EnableAutoUnlockRequest_set_rssi_min v obj = obj\<lparr>EnableAutoUnlockRequest_rssi_min :=
    v, EnableAutoUnlockRequest_has_rssi_min := True\<rparr>"

definition ig_EnableAutoUnlockRequest_set_operation_id :: "u32 \<Rightarrow>
  IgEnableAutoUnlockRequest \<Rightarrow> IgEnableAutoUnlockRequest" where
  "ig_EnableAutoUnlockRequest_set_operation_id v obj =
    obj\<lparr>EnableAutoUnlockRequest_operation_id := v, EnableAutoUnlockRequest_has_operation_id
      := True\<rparr>"

definition ig_EnableAutoUnlockRequest_deinit :: "IgEnableAutoUnlockRequest \<Rightarrow>
  IgEnableAutoUnlockRequest" where
  "ig_EnableAutoUnlockRequest_deinit obj = (let
     obj = (if EnableAutoUnlockRequest_has_password obj then
       obj\<lparr>EnableAutoUnlockRequest_password := None\<rparr> else obj)
   in obj)"

definition ig_EnableAutoUnlockRequest_is_valid :: "IgEnableAutoUnlockRequest \<Rightarrow> bool" where
  "ig_EnableAutoUnlockRequest_is_valid obj \<longleftrightarrow> EnableAutoUnlockRequest_has_password obj"

definition ig_EnableAutoUnlockRequest_get_max_payload_in_bytes :: "IgEnableAutoUnlockRequest
  \<Rightarrow> u32" where
  "ig_EnableAutoUnlockRequest_get_max_payload_in_bytes obj = word_of_nat (34 +
    EnableAutoUnlockRequest_password_size obj)"

definition ig_EnableAutoUnlockRequest_fields_size :: "IgEnableAutoUnlockRequest \<Rightarrow> u64" where
  "ig_EnableAutoUnlockRequest_fields_size obj = 1 + 1 + of_bool (EnableAutoUnlockRequest_has_enable
    obj) + of_bool (EnableAutoUnlockRequest_has_rssi_min obj) + of_bool
      (EnableAutoUnlockRequest_has_operation_id obj)"

definition ig_EnableAutoUnlockRequest_fields :: "IgEnableAutoUnlockRequest \<Rightarrow> enc_field list" where
  "ig_EnableAutoUnlockRequest_fields obj =
    [(True, 11, ABytes (EnableAutoUnlockRequest_password obj) (EnableAutoUnlockRequest_password_size obj)),
     (EnableAutoUnlockRequest_has_enable obj, 12, ABool (EnableAutoUnlockRequest_enable obj)),
     (EnableAutoUnlockRequest_has_rssi_min obj, 13, AInt (scast (EnableAutoUnlockRequest_rssi_min obj))),
     (EnableAutoUnlockRequest_has_operation_id obj, 100, AUint (ucast
       (EnableAutoUnlockRequest_operation_id obj)))]"

definition ig_EnableAutoUnlockRequest_encode ::
  "IgEnableAutoUnlockRequest \<Rightarrow> bytes \<Rightarrow> u32 \<Rightarrow> (nat \<times>
    bytes \<times> nat option) res" where
  "ig_EnableAutoUnlockRequest_encode obj retval len =
     (if \<not> ig_EnableAutoUnlockRequest_is_valid obj then Ok (IgSerializerErrorInvalidPayload,
       retval, None)
      else ig_encode (ig_EnableAutoUnlockRequest_fields_size obj) 55
        (ig_EnableAutoUnlockRequest_fields obj) retval len)"

definition ig_EnableAutoUnlockRequest_cases :: "(i64 \<times> IgEnableAutoUnlockRequest case_body) list" where
  "ig_EnableAutoUnlockRequest_cases =
    [(0, CMsgId 55),
     (11, CBytes (ig_EnableAutoUnlockRequest_set_password_nocopy False)),
     (12, CBool ig_EnableAutoUnlockRequest_set_enable),
     (13, CInt (\<lambda>v. ig_EnableAutoUnlockRequest_set_rssi_min (ucast v))),
     (100, CUint (\<lambda>v. ig_EnableAutoUnlockRequest_set_operation_id (ucast v)))]"

definition ig_EnableAutoUnlockRequest_decode :: "bytes \<Rightarrow> IgEnableAutoUnlockRequest
  \<Rightarrow> nat \<Rightarrow> (nat \<times> IgEnableAutoUnlockRequest) res" where
  "ig_EnableAutoUnlockRequest_decode buf obj index = ig_decode ig_EnableAutoUnlockRequest_cases buf obj index"

definition ig_EnableAutoUnlockRequest_ok :: "IgEnableAutoUnlockRequest \<Rightarrow> bool" where
  "ig_EnableAutoUnlockRequest_ok obj \<longleftrightarrow> ig_EnableAutoUnlockRequest_is_valid obj \<and>
     str_ok (EnableAutoUnlockRequest_has_password obj) (EnableAutoUnlockRequest_password obj)
       (EnableAutoUnlockRequest_password_size obj) \<and>
     flag_ok (EnableAutoUnlockRequest_has_enable obj) (EnableAutoUnlockRequest_enable obj) \<and>
     num_ok (EnableAutoUnlockRequest_has_rssi_min obj) (EnableAutoUnlockRequest_rssi_min obj) \<and>
     num_ok (EnableAutoUnlockRequest_has_operation_id obj) (EnableAutoUnlockRequest_operation_id obj)"

lemmas ig_EnableAutoUnlockRequest_setters =
  ig_EnableAutoUnlockRequest_set_enable_def
  ig_EnableAutoUnlockRequest_set_operation_id_def
  ig_EnableAutoUnlockRequest_set_password_nocopy_def
  ig_EnableAutoUnlockRequest_set_rssi_min_def

text \<open>A guarded setter, member by member.\<close>
lemma ig_EnableAutoUnlockRequest_set_if:
  "(if g then ig_EnableAutoUnlockRequest_set_enable b obj else obj) =
     obj\<lparr>EnableAutoUnlockRequest_enable := pick g b (EnableAutoUnlockRequest_enable obj),
       EnableAutoUnlockRequest_has_enable := g \<or> EnableAutoUnlockRequest_has_enable obj\<rparr>"
  "(if g then ig_EnableAutoUnlockRequest_set_rssi_min v1 obj else obj) =
     obj\<lparr>EnableAutoUnlockRequest_rssi_min := pick g v1 (EnableAutoUnlockRequest_rssi_min obj),
       EnableAutoUnlockRequest_has_rssi_min := g \<or> EnableAutoUnlockRequest_has_rssi_min obj\<rparr>"
  "(if g then ig_EnableAutoUnlockRequest_set_operation_id v2 obj else obj) =
     obj\<lparr>EnableAutoUnlockRequest_operation_id := pick g v2 (EnableAutoUnlockRequest_operation_id obj),
       EnableAutoUnlockRequest_has_operation_id := g \<or> EnableAutoUnlockRequest_has_operation_id
         obj\<rparr>"
  by (simp_all add: ig_EnableAutoUnlockRequest_setters pick_def)

lemma ig_EnableAutoUnlockRequest_store:
  assumes ok: "ig_EnableAutoUnlockRequest_ok obj"
  shows "store_fields ig_EnableAutoUnlockRequest_cases (ig_EnableAutoUnlockRequest_fields obj)
    ig_EnableAutoUnlockRequest_init = Some obj"
proof -
  have h: "str_ok (EnableAutoUnlockRequest_has_password obj) (EnableAutoUnlockRequest_password obj)
    (EnableAutoUnlockRequest_password_size obj)"
    "flag_ok (EnableAutoUnlockRequest_has_enable obj) (EnableAutoUnlockRequest_enable obj)"
    "num_ok (EnableAutoUnlockRequest_has_rssi_min obj) (EnableAutoUnlockRequest_rssi_min obj)"
    "num_ok (EnableAutoUnlockRequest_has_operation_id obj) (EnableAutoUnlockRequest_operation_id obj)"
    and valid: "ig_EnableAutoUnlockRequest_is_valid obj"
    using ok by (simp_all add: ig_EnableAutoUnlockRequest_ok_def)
  show ?thesis
    using valid
    by (simp add: ig_EnableAutoUnlockRequest_fields_def ig_EnableAutoUnlockRequest_cases_def
      ig_EnableAutoUnlockRequest_init_def codec_simps
        ig_EnableAutoUnlockRequest_set_if ig_EnableAutoUnlockRequest_setters split del: if_split)
       (simp add: ig_EnableAutoUnlockRequest_is_valid_def
         str_ok_store [OF h(1)]
         flag_ok_store [OF h(2)]
         num_ok_store [OF h(3)]
         num_ok_store [OF h(4)])
qed

lemma ig_EnableAutoUnlockRequest_bound:
  assumes "ig_EnableAutoUnlockRequest_ok obj"
  shows "2 + length (number_bytes 55 MtUnsigned) + fields_bound (ig_EnableAutoUnlockRequest_fields obj)
    \<le> unat (ig_EnableAutoUnlockRequest_get_max_payload_in_bytes obj)"
proof -
  have sizes: "EnableAutoUnlockRequest_password_size obj < 2 ^ 24"
    using assms by (auto simp: ig_EnableAutoUnlockRequest_ok_def dest!: str_ok_bound)
  show ?thesis
    using sizes number_bytes_size [of "EnableAutoUnlockRequest_password_size obj" "0x40"]
      item_bytes_i32 [of "EnableAutoUnlockRequest_rssi_min obj"]
      number_bytes_u32 [of "EnableAutoUnlockRequest_operation_id obj" 0]
    by (simp add: ig_EnableAutoUnlockRequest_fields_def
      ig_EnableAutoUnlockRequest_get_max_payload_in_bytes_def number_bytes_literal
        unat_of_nat_small del: of_nat_add)
qed

interpretation EnableAutoUnlockRequest_codec: ig_message ig_EnableAutoUnlockRequest_encode
  ig_EnableAutoUnlockRequest_decode
  ig_EnableAutoUnlockRequest_get_max_payload_in_bytes ig_EnableAutoUnlockRequest_is_valid
    ig_EnableAutoUnlockRequest_init ig_EnableAutoUnlockRequest_ok 55
  ig_EnableAutoUnlockRequest_fields_size ig_EnableAutoUnlockRequest_fields ig_EnableAutoUnlockRequest_cases
  by (unfold_locales;
      (rule ig_EnableAutoUnlockRequest_encode_def ig_EnableAutoUnlockRequest_decode_def | erule
        ig_EnableAutoUnlockRequest_store ig_EnableAutoUnlockRequest_bound |
       auto simp: ig_EnableAutoUnlockRequest_cases_def ig_EnableAutoUnlockRequest_fields_def
         ig_EnableAutoUnlockRequest_fields_size_def ig_EnableAutoUnlockRequest_ok_def
         simp del: arg_block_ok.simps(1,2) intro: str_ok_block))

subsection \<open>EnableAutoUnlockResponse\<close>

record IgEnableAutoUnlockResponse =
  EnableAutoUnlockResponse_has_result :: bool
  EnableAutoUnlockResponse_result :: u8
  EnableAutoUnlockResponse_has_operation_id :: bool
  EnableAutoUnlockResponse_operation_id :: u32

definition ig_EnableAutoUnlockResponse_init :: IgEnableAutoUnlockResponse where
  "ig_EnableAutoUnlockResponse_init =
     \<lparr>EnableAutoUnlockResponse_has_result = False,
      EnableAutoUnlockResponse_result = 0,
      EnableAutoUnlockResponse_has_operation_id = False,
      EnableAutoUnlockResponse_operation_id = 0\<rparr>"

definition ig_EnableAutoUnlockResponse_set_result :: "u8 \<Rightarrow> IgEnableAutoUnlockResponse
  \<Rightarrow> IgEnableAutoUnlockResponse" where
  "ig_EnableAutoUnlockResponse_set_result v obj = obj\<lparr>EnableAutoUnlockResponse_result := v,
    EnableAutoUnlockResponse_has_result := True\<rparr>"

definition ig_EnableAutoUnlockResponse_set_operation_id :: "u32 \<Rightarrow>
  IgEnableAutoUnlockResponse \<Rightarrow> IgEnableAutoUnlockResponse" where
  "ig_EnableAutoUnlockResponse_set_operation_id v obj =
    obj\<lparr>EnableAutoUnlockResponse_operation_id := v,
      EnableAutoUnlockResponse_has_operation_id := True\<rparr>"

definition ig_EnableAutoUnlockResponse_deinit :: "IgEnableAutoUnlockResponse \<Rightarrow>
  IgEnableAutoUnlockResponse" where
  "ig_EnableAutoUnlockResponse_deinit obj = obj"

definition ig_EnableAutoUnlockResponse_is_valid :: "IgEnableAutoUnlockResponse \<Rightarrow> bool" where
  "ig_EnableAutoUnlockResponse_is_valid obj \<longleftrightarrow> EnableAutoUnlockResponse_has_result obj"

definition ig_EnableAutoUnlockResponse_get_max_payload_in_bytes :: "IgEnableAutoUnlockResponse
  \<Rightarrow> u32" where
  "ig_EnableAutoUnlockResponse_get_max_payload_in_bytes obj = 22"

definition ig_EnableAutoUnlockResponse_fields_size :: "IgEnableAutoUnlockResponse \<Rightarrow> u64" where
  "ig_EnableAutoUnlockResponse_fields_size obj = 1 + 1 + of_bool
    (EnableAutoUnlockResponse_has_operation_id obj)"

definition ig_EnableAutoUnlockResponse_fields :: "IgEnableAutoUnlockResponse \<Rightarrow>
  enc_field list" where
  "ig_EnableAutoUnlockResponse_fields obj =
    [(True, 11, AUint (ucast (EnableAutoUnlockResponse_result obj))),
     (EnableAutoUnlockResponse_has_operation_id obj, 100, AUint (ucast
       (EnableAutoUnlockResponse_operation_id obj)))]"

definition ig_EnableAutoUnlockResponse_encode ::
  "IgEnableAutoUnlockResponse \<Rightarrow> bytes \<Rightarrow> u32 \<Rightarrow> (nat \<times>
    bytes \<times> nat option) res" where
  "ig_EnableAutoUnlockResponse_encode obj retval len =
     (if \<not> ig_EnableAutoUnlockResponse_is_valid obj then Ok (IgSerializerErrorInvalidPayload,
       retval, None)
      else ig_encode (ig_EnableAutoUnlockResponse_fields_size obj) 56
        (ig_EnableAutoUnlockResponse_fields obj) retval len)"

definition ig_EnableAutoUnlockResponse_cases :: "(i64 \<times> IgEnableAutoUnlockResponse
  case_body) list" where
  "ig_EnableAutoUnlockResponse_cases =
    [(0, CMsgId 56),
     (11, CUint (\<lambda>v. ig_EnableAutoUnlockResponse_set_result (ucast v))),
     (100, CUint (\<lambda>v. ig_EnableAutoUnlockResponse_set_operation_id (ucast v)))]"

definition ig_EnableAutoUnlockResponse_decode :: "bytes \<Rightarrow> IgEnableAutoUnlockResponse
  \<Rightarrow> nat \<Rightarrow> (nat \<times> IgEnableAutoUnlockResponse) res" where
  "ig_EnableAutoUnlockResponse_decode buf obj index = ig_decode ig_EnableAutoUnlockResponse_cases
    buf obj index"

definition ig_EnableAutoUnlockResponse_ok :: "IgEnableAutoUnlockResponse \<Rightarrow> bool" where
  "ig_EnableAutoUnlockResponse_ok obj \<longleftrightarrow> ig_EnableAutoUnlockResponse_is_valid obj \<and>
     num_ok (EnableAutoUnlockResponse_has_result obj) (EnableAutoUnlockResponse_result obj) \<and>
     num_ok (EnableAutoUnlockResponse_has_operation_id obj) (EnableAutoUnlockResponse_operation_id obj)"

lemmas ig_EnableAutoUnlockResponse_setters =
  ig_EnableAutoUnlockResponse_set_operation_id_def
  ig_EnableAutoUnlockResponse_set_result_def

text \<open>A guarded setter, member by member.\<close>
lemma ig_EnableAutoUnlockResponse_set_if:
  "(if g then ig_EnableAutoUnlockResponse_set_operation_id v0 obj else obj) =
     obj\<lparr>EnableAutoUnlockResponse_operation_id := pick g v0
       (EnableAutoUnlockResponse_operation_id obj),
       EnableAutoUnlockResponse_has_operation_id := g \<or>
         EnableAutoUnlockResponse_has_operation_id obj\<rparr>"
  by (simp_all add: ig_EnableAutoUnlockResponse_setters pick_def)

lemma ig_EnableAutoUnlockResponse_store:
  assumes ok: "ig_EnableAutoUnlockResponse_ok obj"
  shows "store_fields ig_EnableAutoUnlockResponse_cases (ig_EnableAutoUnlockResponse_fields obj)
    ig_EnableAutoUnlockResponse_init = Some obj"
proof -
  have h: "num_ok (EnableAutoUnlockResponse_has_result obj) (EnableAutoUnlockResponse_result obj)"
    "num_ok (EnableAutoUnlockResponse_has_operation_id obj) (EnableAutoUnlockResponse_operation_id obj)"
    and valid: "ig_EnableAutoUnlockResponse_is_valid obj"
    using ok by (simp_all add: ig_EnableAutoUnlockResponse_ok_def)
  show ?thesis
    using valid
    by (simp add: ig_EnableAutoUnlockResponse_fields_def ig_EnableAutoUnlockResponse_cases_def
      ig_EnableAutoUnlockResponse_init_def codec_simps
        ig_EnableAutoUnlockResponse_set_if ig_EnableAutoUnlockResponse_setters split del: if_split)
       (simp add: ig_EnableAutoUnlockResponse_is_valid_def
         num_ok_store [OF h(1)]
         num_ok_store [OF h(2)])
qed

lemma ig_EnableAutoUnlockResponse_bound:
  assumes "ig_EnableAutoUnlockResponse_ok obj"
  shows "2 + length (number_bytes 56 MtUnsigned) + fields_bound (ig_EnableAutoUnlockResponse_fields obj)
    \<le> unat (ig_EnableAutoUnlockResponse_get_max_payload_in_bytes obj)"
  using number_bytes_u8 [of "EnableAutoUnlockResponse_result obj" 0]
    number_bytes_u32 [of "EnableAutoUnlockResponse_operation_id obj" 0]
  by (simp add: ig_EnableAutoUnlockResponse_fields_def
    ig_EnableAutoUnlockResponse_get_max_payload_in_bytes_def number_bytes_literal)

interpretation EnableAutoUnlockResponse_codec: ig_message ig_EnableAutoUnlockResponse_encode
  ig_EnableAutoUnlockResponse_decode
  ig_EnableAutoUnlockResponse_get_max_payload_in_bytes ig_EnableAutoUnlockResponse_is_valid
    ig_EnableAutoUnlockResponse_init ig_EnableAutoUnlockResponse_ok 56
  ig_EnableAutoUnlockResponse_fields_size ig_EnableAutoUnlockResponse_fields ig_EnableAutoUnlockResponse_cases
  by (unfold_locales;
      (rule ig_EnableAutoUnlockResponse_encode_def ig_EnableAutoUnlockResponse_decode_def | erule
        ig_EnableAutoUnlockResponse_store ig_EnableAutoUnlockResponse_bound |
       auto simp: ig_EnableAutoUnlockResponse_cases_def ig_EnableAutoUnlockResponse_fields_def
         ig_EnableAutoUnlockResponse_fields_size_def ig_EnableAutoUnlockResponse_ok_def
         simp del: arg_block_ok.simps(1,2) intro: str_ok_block))

subsection \<open>SetAutorelockRequest\<close>

record IgSetAutorelockRequest =
  SetAutorelockRequest_has_password :: bool
  SetAutorelockRequest_password :: block_ptr
  SetAutorelockRequest_password_size :: nat
  SetAutorelockRequest_has_sensor_autorelock_seconds :: bool
  SetAutorelockRequest_sensor_autorelock_seconds :: u32
  SetAutorelockRequest_has_enable :: bool
  SetAutorelockRequest_enable :: bool
  SetAutorelockRequest_has_operation_id :: bool
  SetAutorelockRequest_operation_id :: u32

definition ig_SetAutorelockRequest_init :: IgSetAutorelockRequest where
  "ig_SetAutorelockRequest_init =
     \<lparr>SetAutorelockRequest_has_password = False,
      SetAutorelockRequest_password = None,
      SetAutorelockRequest_password_size = 0,
      SetAutorelockRequest_has_sensor_autorelock_seconds = False,
      SetAutorelockRequest_sensor_autorelock_seconds = 0,
      SetAutorelockRequest_has_enable = False,
      SetAutorelockRequest_enable = False,
      SetAutorelockRequest_has_operation_id = False,
      SetAutorelockRequest_operation_id = 0\<rparr>"

definition ig_SetAutorelockRequest_get_password_size :: "IgSetAutorelockRequest \<Rightarrow> nat" where
  "ig_SetAutorelockRequest_get_password_size obj = SetAutorelockRequest_password_size obj"

definition ig_SetAutorelockRequest_set_password_nocopy ::
  "bool \<Rightarrow> block_ptr \<Rightarrow> nat \<Rightarrow> IgSetAutorelockRequest
    \<Rightarrow> IgSetAutorelockRequest" where
  "ig_SetAutorelockRequest_set_password_nocopy same_ptr p n obj =
     (if same_ptr then obj
      else let obj = (if SetAutorelockRequest_has_password obj then
        obj\<lparr>SetAutorelockRequest_password := None\<rparr> else obj)
        in obj\<lparr>SetAutorelockRequest_password := p, SetAutorelockRequest_password_size := n,
          SetAutorelockRequest_has_password := n > 0\<rparr>)"

definition ig_SetAutorelockRequest_set_password ::
  "bool \<Rightarrow> block_ptr \<Rightarrow> nat \<Rightarrow> IgSetAutorelockRequest
    \<Rightarrow> IgSetAutorelockRequest res" where
  "ig_SetAutorelockRequest_set_password same_ptr p n obj =
     (if same_ptr then Ok obj
      else let obj = (if SetAutorelockRequest_has_password obj then
        obj\<lparr>SetAutorelockRequest_password := None\<rparr> else obj)
        in bindR (block_read p n) (\<lambda>d.
          Ok (obj\<lparr>SetAutorelockRequest_password := Some d,
            SetAutorelockRequest_password_size := n, SetAutorelockRequest_has_password := n > 0\<rparr>)))"

definition ig_SetAutorelockRequest_set_sensor_autorelock_seconds :: "u32 \<Rightarrow>
  IgSetAutorelockRequest \<Rightarrow> IgSetAutorelockRequest" where
  "ig_SetAutorelockRequest_set_sensor_autorelock_seconds v obj =
    obj\<lparr>SetAutorelockRequest_sensor_autorelock_seconds := v,
      SetAutorelockRequest_has_sensor_autorelock_seconds := True\<rparr>"

definition ig_SetAutorelockRequest_set_enable :: "bool \<Rightarrow> IgSetAutorelockRequest
  \<Rightarrow> IgSetAutorelockRequest" where
  "ig_SetAutorelockRequest_set_enable v obj = obj\<lparr>SetAutorelockRequest_enable := v,
    SetAutorelockRequest_has_enable := True\<rparr>"

definition ig_SetAutorelockRequest_set_operation_id :: "u32 \<Rightarrow> IgSetAutorelockRequest
  \<Rightarrow> IgSetAutorelockRequest" where
  "ig_SetAutorelockRequest_set_operation_id v obj = obj\<lparr>SetAutorelockRequest_operation_id :=
    v, SetAutorelockRequest_has_operation_id := True\<rparr>"

definition ig_SetAutorelockRequest_deinit :: "IgSetAutorelockRequest \<Rightarrow>
  IgSetAutorelockRequest" where
  "ig_SetAutorelockRequest_deinit obj = (let
     obj = (if SetAutorelockRequest_has_password obj then obj\<lparr>SetAutorelockRequest_password
       := None\<rparr> else obj)
   in obj)"

definition ig_SetAutorelockRequest_is_valid :: "IgSetAutorelockRequest \<Rightarrow> bool" where
  "ig_SetAutorelockRequest_is_valid obj \<longleftrightarrow> SetAutorelockRequest_has_password obj"

definition ig_SetAutorelockRequest_get_max_payload_in_bytes :: "IgSetAutorelockRequest
  \<Rightarrow> u32" where
  "ig_SetAutorelockRequest_get_max_payload_in_bytes obj = word_of_nat (34 +
    SetAutorelockRequest_password_size obj)"

definition ig_SetAutorelockRequest_fields_size :: "IgSetAutorelockRequest \<Rightarrow> u64" where
  "ig_SetAutorelockRequest_fields_size obj = 1 + 1 + of_bool
    (SetAutorelockRequest_has_sensor_autorelock_seconds obj) + of_bool
      (SetAutorelockRequest_has_enable obj) + of_bool (SetAutorelockRequest_has_operation_id obj)"

definition ig_SetAutorelockRequest_fields :: "IgSetAutorelockRequest \<Rightarrow> enc_field list" where
  "ig_SetAutorelockRequest_fields obj =
    [(True, 11, ABytes (SetAutorelockRequest_password obj) (SetAutorelockRequest_password_size obj)),
     (SetAutorelockRequest_has_sensor_autorelock_seconds obj, 12, AUint (ucast
       (SetAutorelockRequest_sensor_autorelock_seconds obj))),
     (SetAutorelockRequest_has_enable obj, 13, ABool (SetAutorelockRequest_enable obj)),
     (SetAutorelockRequest_has_operation_id obj, 100, AUint (ucast (SetAutorelockRequest_operation_id obj)))]"

definition ig_SetAutorelockRequest_encode ::
  "IgSetAutorelockRequest \<Rightarrow> bytes \<Rightarrow> u32 \<Rightarrow> (nat \<times> bytes
    \<times> nat option) res" where
  "ig_SetAutorelockRequest_encode obj retval len =
     (if \<not> ig_SetAutorelockRequest_is_valid obj then Ok (IgSerializerErrorInvalidPayload, retval, None)
      else ig_encode (ig_SetAutorelockRequest_fields_size obj) 37 (ig_SetAutorelockRequest_fields
        obj) retval len)"

definition ig_SetAutorelockRequest_cases :: "(i64 \<times> IgSetAutorelockRequest case_body) list" where
  "ig_SetAutorelockRequest_cases =
    [(0, CMsgId 37),
     (11, CBytes (ig_SetAutorelockRequest_set_password_nocopy False)),
     (12, CUint (\<lambda>v. ig_SetAutorelockRequest_set_sensor_autorelock_seconds (ucast v))),
     (13, CBool ig_SetAutorelockRequest_set_enable),
     (100, CUint (\<lambda>v. ig_SetAutorelockRequest_set_operation_id (ucast v)))]"

definition ig_SetAutorelockRequest_decode :: "bytes \<Rightarrow> IgSetAutorelockRequest
  \<Rightarrow> nat \<Rightarrow> (nat \<times> IgSetAutorelockRequest) res" where
  "ig_SetAutorelockRequest_decode buf obj index = ig_decode ig_SetAutorelockRequest_cases buf obj index"

definition ig_SetAutorelockRequest_ok :: "IgSetAutorelockRequest \<Rightarrow> bool" where
  "ig_SetAutorelockRequest_ok obj \<longleftrightarrow> ig_SetAutorelockRequest_is_valid obj \<and>
     str_ok (SetAutorelockRequest_has_password obj) (SetAutorelockRequest_password obj)
       (SetAutorelockRequest_password_size obj) \<and>
     num_ok (SetAutorelockRequest_has_sensor_autorelock_seconds obj)
       (SetAutorelockRequest_sensor_autorelock_seconds obj) \<and>
     flag_ok (SetAutorelockRequest_has_enable obj) (SetAutorelockRequest_enable obj) \<and>
     num_ok (SetAutorelockRequest_has_operation_id obj) (SetAutorelockRequest_operation_id obj)"

lemmas ig_SetAutorelockRequest_setters =
  ig_SetAutorelockRequest_set_enable_def
  ig_SetAutorelockRequest_set_operation_id_def
  ig_SetAutorelockRequest_set_password_nocopy_def
  ig_SetAutorelockRequest_set_sensor_autorelock_seconds_def

text \<open>A guarded setter, member by member.\<close>
lemma ig_SetAutorelockRequest_set_if:
  "(if g then ig_SetAutorelockRequest_set_sensor_autorelock_seconds v0 obj else obj) =
     obj\<lparr>SetAutorelockRequest_sensor_autorelock_seconds := pick g v0
       (SetAutorelockRequest_sensor_autorelock_seconds obj),
       SetAutorelockRequest_has_sensor_autorelock_seconds := g \<or>
         SetAutorelockRequest_has_sensor_autorelock_seconds obj\<rparr>"
  "(if g then ig_SetAutorelockRequest_set_enable b obj else obj) =
     obj\<lparr>SetAutorelockRequest_enable := pick g b (SetAutorelockRequest_enable obj),
       SetAutorelockRequest_has_enable := g \<or> SetAutorelockRequest_has_enable obj\<rparr>"
  "(if g then ig_SetAutorelockRequest_set_operation_id v2 obj else obj) =
     obj\<lparr>SetAutorelockRequest_operation_id := pick g v2 (SetAutorelockRequest_operation_id obj),
       SetAutorelockRequest_has_operation_id := g \<or> SetAutorelockRequest_has_operation_id obj\<rparr>"
  by (simp_all add: ig_SetAutorelockRequest_setters pick_def)

lemma ig_SetAutorelockRequest_store:
  assumes ok: "ig_SetAutorelockRequest_ok obj"
  shows "store_fields ig_SetAutorelockRequest_cases (ig_SetAutorelockRequest_fields obj)
    ig_SetAutorelockRequest_init = Some obj"
proof -
  have h: "str_ok (SetAutorelockRequest_has_password obj) (SetAutorelockRequest_password obj)
    (SetAutorelockRequest_password_size obj)"
    "num_ok (SetAutorelockRequest_has_sensor_autorelock_seconds obj)
      (SetAutorelockRequest_sensor_autorelock_seconds obj)"
    "flag_ok (SetAutorelockRequest_has_enable obj) (SetAutorelockRequest_enable obj)"
    "num_ok (SetAutorelockRequest_has_operation_id obj) (SetAutorelockRequest_operation_id obj)"
    and valid: "ig_SetAutorelockRequest_is_valid obj"
    using ok by (simp_all add: ig_SetAutorelockRequest_ok_def)
  show ?thesis
    using valid
    by (simp add: ig_SetAutorelockRequest_fields_def ig_SetAutorelockRequest_cases_def
      ig_SetAutorelockRequest_init_def codec_simps
        ig_SetAutorelockRequest_set_if ig_SetAutorelockRequest_setters split del: if_split)
       (simp add: ig_SetAutorelockRequest_is_valid_def
         str_ok_store [OF h(1)]
         num_ok_store [OF h(2)]
         flag_ok_store [OF h(3)]
         num_ok_store [OF h(4)])
qed

lemma ig_SetAutorelockRequest_bound:
  assumes "ig_SetAutorelockRequest_ok obj"
  shows "2 + length (number_bytes 37 MtUnsigned) + fields_bound (ig_SetAutorelockRequest_fields obj)
    \<le> unat (ig_SetAutorelockRequest_get_max_payload_in_bytes obj)"
proof -
  have sizes: "SetAutorelockRequest_password_size obj < 2 ^ 24"
    using assms by (auto simp: ig_SetAutorelockRequest_ok_def dest!: str_ok_bound)
  show ?thesis
    using sizes number_bytes_size [of "SetAutorelockRequest_password_size obj" "0x40"]
      number_bytes_u32 [of "SetAutorelockRequest_sensor_autorelock_seconds obj" 0]
      number_bytes_u32 [of "SetAutorelockRequest_operation_id obj" 0]
    by (simp add: ig_SetAutorelockRequest_fields_def
      ig_SetAutorelockRequest_get_max_payload_in_bytes_def number_bytes_literal
        unat_of_nat_small del: of_nat_add)
qed

interpretation SetAutorelockRequest_codec: ig_message ig_SetAutorelockRequest_encode
  ig_SetAutorelockRequest_decode
  ig_SetAutorelockRequest_get_max_payload_in_bytes ig_SetAutorelockRequest_is_valid
    ig_SetAutorelockRequest_init ig_SetAutorelockRequest_ok 37
  ig_SetAutorelockRequest_fields_size ig_SetAutorelockRequest_fields ig_SetAutorelockRequest_cases
  by (unfold_locales;
      (rule ig_SetAutorelockRequest_encode_def ig_SetAutorelockRequest_decode_def | erule
        ig_SetAutorelockRequest_store ig_SetAutorelockRequest_bound |
       auto simp: ig_SetAutorelockRequest_cases_def ig_SetAutorelockRequest_fields_def
         ig_SetAutorelockRequest_fields_size_def ig_SetAutorelockRequest_ok_def
         simp del: arg_block_ok.simps(1,2) intro: str_ok_block))

subsection \<open>SetAutorelockResponse\<close>

record IgSetAutorelockResponse =
  SetAutorelockResponse_has_result :: bool
  SetAutorelockResponse_result :: u8
  SetAutorelockResponse_has_operation_id :: bool
  SetAutorelockResponse_operation_id :: u32

definition ig_SetAutorelockResponse_init :: IgSetAutorelockResponse where
  "ig_SetAutorelockResponse_init =
     \<lparr>SetAutorelockResponse_has_result = False,
      SetAutorelockResponse_result = 0,
      SetAutorelockResponse_has_operation_id = False,
      SetAutorelockResponse_operation_id = 0\<rparr>"

definition ig_SetAutorelockResponse_set_result :: "u8 \<Rightarrow> IgSetAutorelockResponse
  \<Rightarrow> IgSetAutorelockResponse" where
  "ig_SetAutorelockResponse_set_result v obj = obj\<lparr>SetAutorelockResponse_result := v,
    SetAutorelockResponse_has_result := True\<rparr>"

definition ig_SetAutorelockResponse_set_operation_id :: "u32 \<Rightarrow> IgSetAutorelockResponse
  \<Rightarrow> IgSetAutorelockResponse" where
  "ig_SetAutorelockResponse_set_operation_id v obj = obj\<lparr>SetAutorelockResponse_operation_id
    := v, SetAutorelockResponse_has_operation_id := True\<rparr>"

definition ig_SetAutorelockResponse_deinit :: "IgSetAutorelockResponse \<Rightarrow>
  IgSetAutorelockResponse" where
  "ig_SetAutorelockResponse_deinit obj = obj"

definition ig_SetAutorelockResponse_is_valid :: "IgSetAutorelockResponse \<Rightarrow> bool" where
  "ig_SetAutorelockResponse_is_valid obj \<longleftrightarrow> SetAutorelockResponse_has_result obj"

definition ig_SetAutorelockResponse_get_max_payload_in_bytes :: "IgSetAutorelockResponse
  \<Rightarrow> u32" where
  "ig_SetAutorelockResponse_get_max_payload_in_bytes obj = 22"

definition ig_SetAutorelockResponse_fields_size :: "IgSetAutorelockResponse \<Rightarrow> u64" where
  "ig_SetAutorelockResponse_fields_size obj = 1 + 1 + of_bool (SetAutorelockResponse_has_operation_id obj)"

definition ig_SetAutorelockResponse_fields :: "IgSetAutorelockResponse \<Rightarrow> enc_field list" where
  "ig_SetAutorelockResponse_fields obj =
    [(True, 11, AUint (ucast (SetAutorelockResponse_result obj))),
     (SetAutorelockResponse_has_operation_id obj, 100, AUint (ucast
       (SetAutorelockResponse_operation_id obj)))]"

definition ig_SetAutorelockResponse_encode ::
  "IgSetAutorelockResponse \<Rightarrow> bytes \<Rightarrow> u32 \<Rightarrow> (nat \<times> bytes
    \<times> nat option) res" where
  "ig_SetAutorelockResponse_encode obj retval len =
     (if \<not> ig_SetAutorelockResponse_is_valid obj then Ok (IgSerializerErrorInvalidPayload, retval, None)
      else ig_encode (ig_SetAutorelockResponse_fields_size obj) 38 (ig_SetAutorelockResponse_fields
        obj) retval len)"

definition ig_SetAutorelockResponse_cases :: "(i64 \<times> IgSetAutorelockResponse case_body) list" where
  "ig_SetAutorelockResponse_cases =
    [(0, CMsgId 38),
     (11, CUint (\<lambda>v. ig_SetAutorelockResponse_set_result (ucast v))),
     (100, CUint (\<lambda>v. ig_SetAutorelockResponse_set_operation_id (ucast v)))]"

definition ig_SetAutorelockResponse_decode :: "bytes \<Rightarrow> IgSetAutorelockResponse
  \<Rightarrow> nat \<Rightarrow> (nat \<times> IgSetAutorelockResponse) res" where
  "ig_SetAutorelockResponse_decode buf obj index = ig_decode ig_SetAutorelockResponse_cases buf obj index"

definition ig_SetAutorelockResponse_ok :: "IgSetAutorelockResponse \<Rightarrow> bool" where
  "ig_SetAutorelockResponse_ok obj \<longleftrightarrow> ig_SetAutorelockResponse_is_valid obj \<and>
     num_ok (SetAutorelockResponse_has_result obj) (SetAutorelockResponse_result obj) \<and>
     num_ok (SetAutorelockResponse_has_operation_id obj) (SetAutorelockResponse_operation_id obj)"

lemmas ig_SetAutorelockResponse_setters =
  ig_SetAutorelockResponse_set_operation_id_def
  ig_SetAutorelockResponse_set_result_def

text \<open>A guarded setter, member by member.\<close>
lemma ig_SetAutorelockResponse_set_if:
  "(if g then ig_SetAutorelockResponse_set_operation_id v0 obj else obj) =
     obj\<lparr>SetAutorelockResponse_operation_id := pick g v0 (SetAutorelockResponse_operation_id obj),
       SetAutorelockResponse_has_operation_id := g \<or> SetAutorelockResponse_has_operation_id obj\<rparr>"
  by (simp_all add: ig_SetAutorelockResponse_setters pick_def)

lemma ig_SetAutorelockResponse_store:
  assumes ok: "ig_SetAutorelockResponse_ok obj"
  shows "store_fields ig_SetAutorelockResponse_cases (ig_SetAutorelockResponse_fields obj)
    ig_SetAutorelockResponse_init = Some obj"
proof -
  have h: "num_ok (SetAutorelockResponse_has_result obj) (SetAutorelockResponse_result obj)"
    "num_ok (SetAutorelockResponse_has_operation_id obj) (SetAutorelockResponse_operation_id obj)"
    and valid: "ig_SetAutorelockResponse_is_valid obj"
    using ok by (simp_all add: ig_SetAutorelockResponse_ok_def)
  show ?thesis
    using valid
    by (simp add: ig_SetAutorelockResponse_fields_def ig_SetAutorelockResponse_cases_def
      ig_SetAutorelockResponse_init_def codec_simps
        ig_SetAutorelockResponse_set_if ig_SetAutorelockResponse_setters split del: if_split)
       (simp add: ig_SetAutorelockResponse_is_valid_def
         num_ok_store [OF h(1)]
         num_ok_store [OF h(2)])
qed

lemma ig_SetAutorelockResponse_bound:
  assumes "ig_SetAutorelockResponse_ok obj"
  shows "2 + length (number_bytes 38 MtUnsigned) + fields_bound (ig_SetAutorelockResponse_fields obj)
    \<le> unat (ig_SetAutorelockResponse_get_max_payload_in_bytes obj)"
  using number_bytes_u8 [of "SetAutorelockResponse_result obj" 0]
    number_bytes_u32 [of "SetAutorelockResponse_operation_id obj" 0]
  by (simp add: ig_SetAutorelockResponse_fields_def
    ig_SetAutorelockResponse_get_max_payload_in_bytes_def number_bytes_literal)

interpretation SetAutorelockResponse_codec: ig_message ig_SetAutorelockResponse_encode
  ig_SetAutorelockResponse_decode
  ig_SetAutorelockResponse_get_max_payload_in_bytes ig_SetAutorelockResponse_is_valid
    ig_SetAutorelockResponse_init ig_SetAutorelockResponse_ok 38
  ig_SetAutorelockResponse_fields_size ig_SetAutorelockResponse_fields ig_SetAutorelockResponse_cases
  by (unfold_locales;
      (rule ig_SetAutorelockResponse_encode_def ig_SetAutorelockResponse_decode_def | erule
        ig_SetAutorelockResponse_store ig_SetAutorelockResponse_bound |
       auto simp: ig_SetAutorelockResponse_cases_def ig_SetAutorelockResponse_fields_def
         ig_SetAutorelockResponse_fields_size_def ig_SetAutorelockResponse_ok_def
         simp del: arg_block_ok.simps(1,2) intro: str_ok_block))

subsection \<open>SetRelockAlarmRequest\<close>

record IgSetRelockAlarmRequest =
  SetRelockAlarmRequest_has_password :: bool
  SetRelockAlarmRequest_password :: block_ptr
  SetRelockAlarmRequest_password_size :: nat
  SetRelockAlarmRequest_has_relock_alarm_seconds :: bool
  SetRelockAlarmRequest_relock_alarm_seconds :: u32
  SetRelockAlarmRequest_has_enable :: bool
  SetRelockAlarmRequest_enable :: bool
  SetRelockAlarmRequest_has_operation_id :: bool
  SetRelockAlarmRequest_operation_id :: u32

definition ig_SetRelockAlarmRequest_init :: IgSetRelockAlarmRequest where
  "ig_SetRelockAlarmRequest_init =
     \<lparr>SetRelockAlarmRequest_has_password = False,
      SetRelockAlarmRequest_password = None,
      SetRelockAlarmRequest_password_size = 0,
      SetRelockAlarmRequest_has_relock_alarm_seconds = False,
      SetRelockAlarmRequest_relock_alarm_seconds = 0,
      SetRelockAlarmRequest_has_enable = False,
      SetRelockAlarmRequest_enable = False,
      SetRelockAlarmRequest_has_operation_id = False,
      SetRelockAlarmRequest_operation_id = 0\<rparr>"

definition ig_SetRelockAlarmRequest_get_password_size :: "IgSetRelockAlarmRequest \<Rightarrow> nat" where
  "ig_SetRelockAlarmRequest_get_password_size obj = SetRelockAlarmRequest_password_size obj"

definition ig_SetRelockAlarmRequest_set_password_nocopy ::
  "bool \<Rightarrow> block_ptr \<Rightarrow> nat \<Rightarrow> IgSetRelockAlarmRequest
    \<Rightarrow> IgSetRelockAlarmRequest" where
  "ig_SetRelockAlarmRequest_set_password_nocopy same_ptr p n obj =
     (if same_ptr then obj
      else let obj = (if SetRelockAlarmRequest_has_password obj then
        obj\<lparr>SetRelockAlarmRequest_password := None\<rparr> else obj)
        in obj\<lparr>SetRelockAlarmRequest_password := p, SetRelockAlarmRequest_password_size :=
          n, SetRelockAlarmRequest_has_password := n > 0\<rparr>)"

definition ig_SetRelockAlarmRequest_set_password ::
  "bool \<Rightarrow> block_ptr \<Rightarrow> nat \<Rightarrow> IgSetRelockAlarmRequest
    \<Rightarrow> IgSetRelockAlarmRequest res" where
  "ig_SetRelockAlarmRequest_set_password same_ptr p n obj =
     (if same_ptr then Ok obj
      else let obj = (if SetRelockAlarmRequest_has_password obj then
        obj\<lparr>SetRelockAlarmRequest_password := None\<rparr> else obj)
        in bindR (block_read p n) (\<lambda>d.
          Ok (obj\<lparr>SetRelockAlarmRequest_password := Some d,
            SetRelockAlarmRequest_password_size := n, SetRelockAlarmRequest_has_password := n > 0\<rparr>)))"

definition ig_SetRelockAlarmRequest_set_relock_alarm_seconds :: "u32 \<Rightarrow>
  IgSetRelockAlarmRequest \<Rightarrow> IgSetRelockAlarmRequest" where
  "ig_SetRelockAlarmRequest_set_relock_alarm_seconds v obj =
    obj\<lparr>SetRelockAlarmRequest_relock_alarm_seconds := v,
      SetRelockAlarmRequest_has_relock_alarm_seconds := True\<rparr>"

definition ig_SetRelockAlarmRequest_set_enable :: "bool \<Rightarrow> IgSetRelockAlarmRequest
  \<Rightarrow> IgSetRelockAlarmRequest" where
  "ig_SetRelockAlarmRequest_set_enable v obj = obj\<lparr>SetRelockAlarmRequest_enable := v,
    SetRelockAlarmRequest_has_enable := True\<rparr>"

definition ig_SetRelockAlarmRequest_set_operation_id :: "u32 \<Rightarrow> IgSetRelockAlarmRequest
  \<Rightarrow> IgSetRelockAlarmRequest" where
  "ig_SetRelockAlarmRequest_set_operation_id v obj = obj\<lparr>SetRelockAlarmRequest_operation_id
    := v, SetRelockAlarmRequest_has_operation_id := True\<rparr>"

definition ig_SetRelockAlarmRequest_deinit :: "IgSetRelockAlarmRequest \<Rightarrow>
  IgSetRelockAlarmRequest" where
  "ig_SetRelockAlarmRequest_deinit obj = (let
     obj = (if SetRelockAlarmRequest_has_password obj then
       obj\<lparr>SetRelockAlarmRequest_password := None\<rparr> else obj)
   in obj)"

definition ig_SetRelockAlarmRequest_is_valid :: "IgSetRelockAlarmRequest \<Rightarrow> bool" where
  "ig_SetRelockAlarmRequest_is_valid obj \<longleftrightarrow> SetRelockAlarmRequest_has_password obj"

definition ig_SetRelockAlarmRequest_get_max_payload_in_bytes :: "IgSetRelockAlarmRequest
  \<Rightarrow> u32" where
  "ig_SetRelockAlarmRequest_get_max_payload_in_bytes obj = word_of_nat (34 +
    SetRelockAlarmRequest_password_size obj)"

definition ig_SetRelockAlarmRequest_fields_size :: "IgSetRelockAlarmRequest \<Rightarrow> u64" where
  "ig_SetRelockAlarmRequest_fields_size obj = 1 + 1 + of_bool
    (SetRelockAlarmRequest_has_relock_alarm_seconds obj) + of_bool
      (SetRelockAlarmRequest_has_enable obj) + of_bool (SetRelockAlarmRequest_has_operation_id obj)"

definition ig_SetRelockAlarmRequest_fields :: "IgSetRelockAlarmRequest \<Rightarrow> enc_field list" where
  "ig_SetRelockAlarmRequest_fields obj =
    [(True, 11, ABytes (SetRelockAlarmRequest_password obj) (SetRelockAlarmRequest_password_size obj)),
     (SetRelockAlarmRequest_has_relock_alarm_seconds obj, 12, AUint (ucast
       (SetRelockAlarmRequest_relock_alarm_seconds obj))),
     (SetRelockAlarmRequest_has_enable obj, 13, ABool (SetRelockAlarmRequest_enable obj)),
     (SetRelockAlarmRequest_has_operation_id obj, 100, AUint (ucast
       (SetRelockAlarmRequest_operation_id obj)))]"

definition ig_SetRelockAlarmRequest_encode ::
  "IgSetRelockAlarmRequest \<Rightarrow> bytes \<Rightarrow> u32 \<Rightarrow> (nat \<times> bytes
    \<times> nat option) res" where
  "ig_SetRelockAlarmRequest_encode obj retval len =
     (if \<not> ig_SetRelockAlarmRequest_is_valid obj then Ok (IgSerializerErrorInvalidPayload, retval, None)
      else ig_encode (ig_SetRelockAlarmRequest_fields_size obj) 73 (ig_SetRelockAlarmRequest_fields
        obj) retval len)"

definition ig_SetRelockAlarmRequest_cases :: "(i64 \<times> IgSetRelockAlarmRequest case_body) list" where
  "ig_SetRelockAlarmRequest_cases =
    [(0, CMsgId 73),
     (11, CBytes (ig_SetRelockAlarmRequest_set_password_nocopy False)),
     (12, CUint (\<lambda>v. ig_SetRelockAlarmRequest_set_relock_alarm_seconds (ucast v))),
     (13, CBool ig_SetRelockAlarmRequest_set_enable),
     (100, CUint (\<lambda>v. ig_SetRelockAlarmRequest_set_operation_id (ucast v)))]"

definition ig_SetRelockAlarmRequest_decode :: "bytes \<Rightarrow> IgSetRelockAlarmRequest
  \<Rightarrow> nat \<Rightarrow> (nat \<times> IgSetRelockAlarmRequest) res" where
  "ig_SetRelockAlarmRequest_decode buf obj index = ig_decode ig_SetRelockAlarmRequest_cases buf obj index"

definition ig_SetRelockAlarmRequest_ok :: "IgSetRelockAlarmRequest \<Rightarrow> bool" where
  "ig_SetRelockAlarmRequest_ok obj \<longleftrightarrow> ig_SetRelockAlarmRequest_is_valid obj \<and>
     str_ok (SetRelockAlarmRequest_has_password obj) (SetRelockAlarmRequest_password obj)
       (SetRelockAlarmRequest_password_size obj) \<and>
     num_ok (SetRelockAlarmRequest_has_relock_alarm_seconds obj)
       (SetRelockAlarmRequest_relock_alarm_seconds obj) \<and>
     flag_ok (SetRelockAlarmRequest_has_enable obj) (SetRelockAlarmRequest_enable obj) \<and>
     num_ok (SetRelockAlarmRequest_has_operation_id obj) (SetRelockAlarmRequest_operation_id obj)"

lemmas ig_SetRelockAlarmRequest_setters =
  ig_SetRelockAlarmRequest_set_enable_def
  ig_SetRelockAlarmRequest_set_operation_id_def
  ig_SetRelockAlarmRequest_set_password_nocopy_def
  ig_SetRelockAlarmRequest_set_relock_alarm_seconds_def

text \<open>A guarded setter, member by member.\<close>
lemma ig_SetRelockAlarmRequest_set_if:
  "(if g then ig_SetRelockAlarmRequest_set_relock_alarm_seconds v0 obj else obj) =
     obj\<lparr>SetRelockAlarmRequest_relock_alarm_seconds := pick g v0
       (SetRelockAlarmRequest_relock_alarm_seconds obj),
       SetRelockAlarmRequest_has_relock_alarm_seconds := g \<or>
         SetRelockAlarmRequest_has_relock_alarm_seconds obj\<rparr>"
  "(if g then ig_SetRelockAlarmRequest_set_enable b obj else obj) =
     obj\<lparr>SetRelockAlarmRequest_enable := pick g b (SetRelockAlarmRequest_enable obj),
       SetRelockAlarmRequest_has_enable := g \<or> SetRelockAlarmRequest_has_enable obj\<rparr>"
  "(if g then ig_SetRelockAlarmRequest_set_operation_id v2 obj else obj) =
     obj\<lparr>SetRelockAlarmRequest_operation_id := pick g v2 (SetRelockAlarmRequest_operation_id obj),
       SetRelockAlarmRequest_has_operation_id := g \<or> SetRelockAlarmRequest_has_operation_id obj\<rparr>"
  by (simp_all add: ig_SetRelockAlarmRequest_setters pick_def)

lemma ig_SetRelockAlarmRequest_store:
  assumes ok: "ig_SetRelockAlarmRequest_ok obj"
  shows "store_fields ig_SetRelockAlarmRequest_cases (ig_SetRelockAlarmRequest_fields obj)
    ig_SetRelockAlarmRequest_init = Some obj"
proof -
  have h: "str_ok (SetRelockAlarmRequest_has_password obj) (SetRelockAlarmRequest_password obj)
    (SetRelockAlarmRequest_password_size obj)"
    "num_ok (SetRelockAlarmRequest_has_relock_alarm_seconds obj)
      (SetRelockAlarmRequest_relock_alarm_seconds obj)"
    "flag_ok (SetRelockAlarmRequest_has_enable obj) (SetRelockAlarmRequest_enable obj)"
    "num_ok (SetRelockAlarmRequest_has_operation_id obj) (SetRelockAlarmRequest_operation_id obj)"
    and valid: "ig_SetRelockAlarmRequest_is_valid obj"
    using ok by (simp_all add: ig_SetRelockAlarmRequest_ok_def)
  show ?thesis
    using valid
    by (simp add: ig_SetRelockAlarmRequest_fields_def ig_SetRelockAlarmRequest_cases_def
      ig_SetRelockAlarmRequest_init_def codec_simps
        ig_SetRelockAlarmRequest_set_if ig_SetRelockAlarmRequest_setters split del: if_split)
       (simp add: ig_SetRelockAlarmRequest_is_valid_def
         str_ok_store [OF h(1)]
         num_ok_store [OF h(2)]
         flag_ok_store [OF h(3)]
         num_ok_store [OF h(4)])
qed

lemma ig_SetRelockAlarmRequest_bound:
  assumes "ig_SetRelockAlarmRequest_ok obj"
  shows "2 + length (number_bytes 73 MtUnsigned) + fields_bound (ig_SetRelockAlarmRequest_fields obj)
    \<le> unat (ig_SetRelockAlarmRequest_get_max_payload_in_bytes obj)"
proof -
  have sizes: "SetRelockAlarmRequest_password_size obj < 2 ^ 24"
    using assms by (auto simp: ig_SetRelockAlarmRequest_ok_def dest!: str_ok_bound)
  show ?thesis
    using sizes number_bytes_size [of "SetRelockAlarmRequest_password_size obj" "0x40"]
      number_bytes_u32 [of "SetRelockAlarmRequest_relock_alarm_seconds obj" 0]
      number_bytes_u32 [of "SetRelockAlarmRequest_operation_id obj" 0]
    by (simp add: ig_SetRelockAlarmRequest_fields_def
      ig_SetRelockAlarmRequest_get_max_payload_in_bytes_def number_bytes_literal
        unat_of_nat_small del: of_nat_add)
qed

interpretation SetRelockAlarmRequest_codec: ig_message ig_SetRelockAlarmRequest_encode
  ig_SetRelockAlarmRequest_decode
  ig_SetRelockAlarmRequest_get_max_payload_in_bytes ig_SetRelockAlarmRequest_is_valid
    ig_SetRelockAlarmRequest_init ig_SetRelockAlarmRequest_ok 73
  ig_SetRelockAlarmRequest_fields_size ig_SetRelockAlarmRequest_fields ig_SetRelockAlarmRequest_cases
  by (unfold_locales;
      (rule ig_SetRelockAlarmRequest_encode_def ig_SetRelockAlarmRequest_decode_def | erule
        ig_SetRelockAlarmRequest_store ig_SetRelockAlarmRequest_bound |
       auto simp: ig_SetRelockAlarmRequest_cases_def ig_SetRelockAlarmRequest_fields_def
         ig_SetRelockAlarmRequest_fields_size_def ig_SetRelockAlarmRequest_ok_def
         simp del: arg_block_ok.simps(1,2) intro: str_ok_block))

subsection \<open>SetRelockAlarmResponse\<close>

record IgSetRelockAlarmResponse =
  SetRelockAlarmResponse_has_result :: bool
  SetRelockAlarmResponse_result :: u8
  SetRelockAlarmResponse_has_operation_id :: bool
  SetRelockAlarmResponse_operation_id :: u32

definition ig_SetRelockAlarmResponse_init :: IgSetRelockAlarmResponse where
  "ig_SetRelockAlarmResponse_init =
     \<lparr>SetRelockAlarmResponse_has_result = False,
      SetRelockAlarmResponse_result = 0,
      SetRelockAlarmResponse_has_operation_id = False,
      SetRelockAlarmResponse_operation_id = 0\<rparr>"

definition ig_SetRelockAlarmResponse_set_result :: "u8 \<Rightarrow> IgSetRelockAlarmResponse
  \<Rightarrow> IgSetRelockAlarmResponse" where
  "ig_SetRelockAlarmResponse_set_result v obj = obj\<lparr>SetRelockAlarmResponse_result := v,
    SetRelockAlarmResponse_has_result := True\<rparr>"

definition ig_SetRelockAlarmResponse_set_operation_id :: "u32 \<Rightarrow>
  IgSetRelockAlarmResponse \<Rightarrow> IgSetRelockAlarmResponse" where
  "ig_SetRelockAlarmResponse_set_operation_id v obj =
    obj\<lparr>SetRelockAlarmResponse_operation_id := v, SetRelockAlarmResponse_has_operation_id :=
      True\<rparr>"

definition ig_SetRelockAlarmResponse_deinit :: "IgSetRelockAlarmResponse \<Rightarrow>
  IgSetRelockAlarmResponse" where
  "ig_SetRelockAlarmResponse_deinit obj = obj"

definition ig_SetRelockAlarmResponse_is_valid :: "IgSetRelockAlarmResponse \<Rightarrow> bool" where
  "ig_SetRelockAlarmResponse_is_valid obj \<longleftrightarrow> SetRelockAlarmResponse_has_result obj"

definition ig_SetRelockAlarmResponse_get_max_payload_in_bytes :: "IgSetRelockAlarmResponse
  \<Rightarrow> u32" where
  "ig_SetRelockAlarmResponse_get_max_payload_in_bytes obj = 22"

definition ig_SetRelockAlarmResponse_fields_size :: "IgSetRelockAlarmResponse \<Rightarrow> u64" where
  "ig_SetRelockAlarmResponse_fields_size obj = 1 + 1 + of_bool (SetRelockAlarmResponse_has_operation_id obj)"

definition ig_SetRelockAlarmResponse_fields :: "IgSetRelockAlarmResponse \<Rightarrow> enc_field list" where
  "ig_SetRelockAlarmResponse_fields obj =
    [(True, 11, AUint (ucast (SetRelockAlarmResponse_result obj))),
     (SetRelockAlarmResponse_has_operation_id obj, 100, AUint (ucast
       (SetRelockAlarmResponse_operation_id obj)))]"

definition ig_SetRelockAlarmResponse_encode ::
  "IgSetRelockAlarmResponse \<Rightarrow> bytes \<Rightarrow> u32 \<Rightarrow> (nat \<times> bytes
    \<times> nat option) res" where
  "ig_SetRelockAlarmResponse_encode obj retval len =
     (if \<not> ig_SetRelockAlarmResponse_is_valid obj then Ok (IgSerializerErrorInvalidPayload, retval, None)
      else ig_encode (ig_SetRelockAlarmResponse_fields_size obj) 74
        (ig_SetRelockAlarmResponse_fields obj) retval len)"

definition ig_SetRelockAlarmResponse_cases :: "(i64 \<times> IgSetRelockAlarmResponse case_body) list" where
  "ig_SetRelockAlarmResponse_cases =
    [(0, CMsgId 74),
     (11, CUint (\<lambda>v. ig_SetRelockAlarmResponse_set_result (ucast v))),
     (100, CUint (\<lambda>v. ig_SetRelockAlarmResponse_set_operation_id (ucast v)))]"

definition ig_SetRelockAlarmResponse_decode :: "bytes \<Rightarrow> IgSetRelockAlarmResponse
  \<Rightarrow> nat \<Rightarrow> (nat \<times> IgSetRelockAlarmResponse) res" where
  "ig_SetRelockAlarmResponse_decode buf obj index = ig_decode ig_SetRelockAlarmResponse_cases buf obj index"

definition ig_SetRelockAlarmResponse_ok :: "IgSetRelockAlarmResponse \<Rightarrow> bool" where
  "ig_SetRelockAlarmResponse_ok obj \<longleftrightarrow> ig_SetRelockAlarmResponse_is_valid obj \<and>
     num_ok (SetRelockAlarmResponse_has_result obj) (SetRelockAlarmResponse_result obj) \<and>
     num_ok (SetRelockAlarmResponse_has_operation_id obj) (SetRelockAlarmResponse_operation_id obj)"

lemmas ig_SetRelockAlarmResponse_setters =
  ig_SetRelockAlarmResponse_set_operation_id_def
  ig_SetRelockAlarmResponse_set_result_def

text \<open>A guarded setter, member by member.\<close>
lemma ig_SetRelockAlarmResponse_set_if:
  "(if g then ig_SetRelockAlarmResponse_set_operation_id v0 obj else obj) =
     obj\<lparr>SetRelockAlarmResponse_operation_id := pick g v0 (SetRelockAlarmResponse_operation_id obj),
       SetRelockAlarmResponse_has_operation_id := g \<or> SetRelockAlarmResponse_has_operation_id obj\<rparr>"
  by (simp_all add: ig_SetRelockAlarmResponse_setters pick_def)

lemma ig_SetRelockAlarmResponse_store:
  assumes ok: "ig_SetRelockAlarmResponse_ok obj"
  shows "store_fields ig_SetRelockAlarmResponse_cases (ig_SetRelockAlarmResponse_fields obj)
    ig_SetRelockAlarmResponse_init = Some obj"
proof -
  have h: "num_ok (SetRelockAlarmResponse_has_result obj) (SetRelockAlarmResponse_result obj)"
    "num_ok (SetRelockAlarmResponse_has_operation_id obj) (SetRelockAlarmResponse_operation_id obj)"
    and valid: "ig_SetRelockAlarmResponse_is_valid obj"
    using ok by (simp_all add: ig_SetRelockAlarmResponse_ok_def)
  show ?thesis
    using valid
    by (simp add: ig_SetRelockAlarmResponse_fields_def ig_SetRelockAlarmResponse_cases_def
      ig_SetRelockAlarmResponse_init_def codec_simps
        ig_SetRelockAlarmResponse_set_if ig_SetRelockAlarmResponse_setters split del: if_split)
       (simp add: ig_SetRelockAlarmResponse_is_valid_def
         num_ok_store [OF h(1)]
         num_ok_store [OF h(2)])
qed

lemma ig_SetRelockAlarmResponse_bound:
  assumes "ig_SetRelockAlarmResponse_ok obj"
  shows "2 + length (number_bytes 74 MtUnsigned) + fields_bound (ig_SetRelockAlarmResponse_fields obj)
    \<le> unat (ig_SetRelockAlarmResponse_get_max_payload_in_bytes obj)"
  using number_bytes_u8 [of "SetRelockAlarmResponse_result obj" 0]
    number_bytes_u32 [of "SetRelockAlarmResponse_operation_id obj" 0]
  by (simp add: ig_SetRelockAlarmResponse_fields_def
    ig_SetRelockAlarmResponse_get_max_payload_in_bytes_def number_bytes_literal)

interpretation SetRelockAlarmResponse_codec: ig_message ig_SetRelockAlarmResponse_encode
  ig_SetRelockAlarmResponse_decode
  ig_SetRelockAlarmResponse_get_max_payload_in_bytes ig_SetRelockAlarmResponse_is_valid
    ig_SetRelockAlarmResponse_init ig_SetRelockAlarmResponse_ok 74
  ig_SetRelockAlarmResponse_fields_size ig_SetRelockAlarmResponse_fields ig_SetRelockAlarmResponse_cases
  by (unfold_locales;
      (rule ig_SetRelockAlarmResponse_encode_def ig_SetRelockAlarmResponse_decode_def | erule
        ig_SetRelockAlarmResponse_store ig_SetRelockAlarmResponse_bound |
       auto simp: ig_SetRelockAlarmResponse_cases_def ig_SetRelockAlarmResponse_fields_def
         ig_SetRelockAlarmResponse_fields_size_def ig_SetRelockAlarmResponse_ok_def
         simp del: arg_block_ok.simps(1,2) intro: str_ok_block))

end
