(* ===== verification/Messages_Pin.thy ===== *)
theory Messages_Pin
  imports Ig_Interface
begin

text \<open>
  The files of \<open>lock/messages/\<close> for messages that manage PIN codes.  Per message
    \<open>X\<close>: the struct (\<open>IgX\<close>, members prefixed
  with the message name), \<open>ig_X_init\<close>, the setters, \<open>ig_X_deinit\<close>,
    \<open>ig_X_is_valid\<close>,
  \<open>ig_X_get_max_payload_in_bytes\<close>, the encoder with its list of key/value writes
  (\<open>ig_X_fields\<close>) and the decoder with its list of cases (\<open>ig_X_cases\<close>). 
    The argument
  \<open>same_ptr\<close> of a string setter is the pointer comparison it starts with; the decoders pass
  \<open>False\<close>, their block is fresh.  \<open>ig_X_ok\<close> describes the objects
    \<open>init\<close> and the setters
  build, and the interpretation of \<open>ig_message\<close> proves the file a codec.
\<close>

subsection \<open>CreatePinRequest\<close>

record IgCreatePinRequest =
  CreatePinRequest_has_password :: bool
  CreatePinRequest_password :: block_ptr
  CreatePinRequest_password_size :: nat
  CreatePinRequest_has_new_pin :: bool
  CreatePinRequest_new_pin :: block_ptr
  CreatePinRequest_new_pin_size :: nat
  CreatePinRequest_has_start_date :: bool
  CreatePinRequest_start_date :: u32
  CreatePinRequest_has_end_date :: bool
  CreatePinRequest_end_date :: u32
  CreatePinRequest_has_pin_type :: bool
  CreatePinRequest_pin_type :: u8
  CreatePinRequest_has_operation_id :: bool
  CreatePinRequest_operation_id :: u32

definition ig_CreatePinRequest_init :: IgCreatePinRequest where
  "ig_CreatePinRequest_init =
     \<lparr>CreatePinRequest_has_password = False,
      CreatePinRequest_password = None,
      CreatePinRequest_password_size = 0,
      CreatePinRequest_has_new_pin = False,
      CreatePinRequest_new_pin = None,
      CreatePinRequest_new_pin_size = 0,
      CreatePinRequest_has_start_date = False,
      CreatePinRequest_start_date = 0,
      CreatePinRequest_has_end_date = False,
      CreatePinRequest_end_date = 0,
      CreatePinRequest_has_pin_type = False,
      CreatePinRequest_pin_type = 0,
      CreatePinRequest_has_operation_id = False,
      CreatePinRequest_operation_id = 0\<rparr>"

definition ig_CreatePinRequest_get_password_size :: "IgCreatePinRequest \<Rightarrow> nat" where
  "ig_CreatePinRequest_get_password_size obj = CreatePinRequest_password_size obj"

definition ig_CreatePinRequest_set_password_nocopy ::
  "bool \<Rightarrow> block_ptr \<Rightarrow> nat \<Rightarrow> IgCreatePinRequest \<Rightarrow>
    IgCreatePinRequest" where
  "ig_CreatePinRequest_set_password_nocopy same_ptr p n obj =
     (if same_ptr then obj
      else let obj = (if CreatePinRequest_has_password obj then
        obj\<lparr>CreatePinRequest_password := None\<rparr> else obj)
        in obj\<lparr>CreatePinRequest_password := p, CreatePinRequest_password_size := n,
          CreatePinRequest_has_password := n > 0\<rparr>)"

definition ig_CreatePinRequest_set_password ::
  "bool \<Rightarrow> block_ptr \<Rightarrow> nat \<Rightarrow> IgCreatePinRequest \<Rightarrow>
    IgCreatePinRequest res" where
  "ig_CreatePinRequest_set_password same_ptr p n obj =
     (if same_ptr then Ok obj
      else let obj = (if CreatePinRequest_has_password obj then
        obj\<lparr>CreatePinRequest_password := None\<rparr> else obj)
        in bindR (block_read p n) (\<lambda>d.
          Ok (obj\<lparr>CreatePinRequest_password := Some d, CreatePinRequest_password_size := n,
            CreatePinRequest_has_password := n > 0\<rparr>)))"

definition ig_CreatePinRequest_get_new_pin_size :: "IgCreatePinRequest \<Rightarrow> nat" where
  "ig_CreatePinRequest_get_new_pin_size obj = CreatePinRequest_new_pin_size obj"

definition ig_CreatePinRequest_set_new_pin_nocopy ::
  "bool \<Rightarrow> block_ptr \<Rightarrow> nat \<Rightarrow> IgCreatePinRequest \<Rightarrow>
    IgCreatePinRequest" where
  "ig_CreatePinRequest_set_new_pin_nocopy same_ptr p n obj =
     (if same_ptr then obj
      else let obj = (if CreatePinRequest_has_new_pin obj then obj\<lparr>CreatePinRequest_new_pin
        := None\<rparr> else obj)
        in obj\<lparr>CreatePinRequest_new_pin := p, CreatePinRequest_new_pin_size := n,
          CreatePinRequest_has_new_pin := n > 0\<rparr>)"

definition ig_CreatePinRequest_set_new_pin ::
  "bool \<Rightarrow> block_ptr \<Rightarrow> nat \<Rightarrow> IgCreatePinRequest \<Rightarrow>
    IgCreatePinRequest res" where
  "ig_CreatePinRequest_set_new_pin same_ptr p n obj =
     (if same_ptr then Ok obj
      else let obj = (if CreatePinRequest_has_new_pin obj then obj\<lparr>CreatePinRequest_new_pin
        := None\<rparr> else obj)
        in bindR (block_read p n) (\<lambda>d.
          Ok (obj\<lparr>CreatePinRequest_new_pin := Some d, CreatePinRequest_new_pin_size := n,
            CreatePinRequest_has_new_pin := n > 0\<rparr>)))"

definition ig_CreatePinRequest_set_start_date :: "u32 \<Rightarrow> IgCreatePinRequest
  \<Rightarrow> IgCreatePinRequest" where
  "ig_CreatePinRequest_set_start_date v obj = obj\<lparr>CreatePinRequest_start_date := v,
    CreatePinRequest_has_start_date := True\<rparr>"

definition ig_CreatePinRequest_set_end_date :: "u32 \<Rightarrow> IgCreatePinRequest \<Rightarrow>
  IgCreatePinRequest" where
  "ig_CreatePinRequest_set_end_date v obj = obj\<lparr>CreatePinRequest_end_date := v,
    CreatePinRequest_has_end_date := True\<rparr>"

definition ig_CreatePinRequest_set_pin_type :: "u8 \<Rightarrow> IgCreatePinRequest \<Rightarrow>
  IgCreatePinRequest" where
  "ig_CreatePinRequest_set_pin_type v obj = obj\<lparr>CreatePinRequest_pin_type := v,
    CreatePinRequest_has_pin_type := True\<rparr>"

definition ig_CreatePinRequest_set_operation_id :: "u32 \<Rightarrow> IgCreatePinRequest
  \<Rightarrow> IgCreatePinRequest" where
  "ig_CreatePinRequest_set_operation_id v obj = obj\<lparr>CreatePinRequest_operation_id := v,
    CreatePinRequest_has_operation_id := True\<rparr>"

definition ig_CreatePinRequest_deinit :: "IgCreatePinRequest \<Rightarrow> IgCreatePinRequest" where
  "ig_CreatePinRequest_deinit obj = (let
     obj = (if CreatePinRequest_has_password obj then obj\<lparr>CreatePinRequest_password :=
       None\<rparr> else obj);
     obj = (if CreatePinRequest_has_new_pin obj then obj\<lparr>CreatePinRequest_new_pin :=
       None\<rparr> else obj)
   in obj)"

definition ig_CreatePinRequest_is_valid :: "IgCreatePinRequest \<Rightarrow> bool" where
  "ig_CreatePinRequest_is_valid obj \<longleftrightarrow> CreatePinRequest_has_password obj \<and>
    CreatePinRequest_has_new_pin obj"

definition ig_CreatePinRequest_get_max_payload_in_bytes :: "IgCreatePinRequest \<Rightarrow> u32" where
  "ig_CreatePinRequest_get_max_payload_in_bytes obj = word_of_nat (48 +
    CreatePinRequest_password_size obj + CreatePinRequest_new_pin_size obj)"

definition ig_CreatePinRequest_fields_size :: "IgCreatePinRequest \<Rightarrow> u64" where
  "ig_CreatePinRequest_fields_size obj = 1 + 2 + of_bool (CreatePinRequest_has_start_date obj) +
    of_bool (CreatePinRequest_has_end_date obj) + of_bool (CreatePinRequest_has_pin_type obj) +
      of_bool (CreatePinRequest_has_operation_id obj)"

definition ig_CreatePinRequest_fields :: "IgCreatePinRequest \<Rightarrow> enc_field list" where
  "ig_CreatePinRequest_fields obj =
    [(True, 11, ABytes (CreatePinRequest_password obj) (CreatePinRequest_password_size obj)),
     (True, 12, ABytes (CreatePinRequest_new_pin obj) (CreatePinRequest_new_pin_size obj)),
     (CreatePinRequest_has_start_date obj, 13, AUint (ucast (CreatePinRequest_start_date obj))),
     (CreatePinRequest_has_end_date obj, 14, AUint (ucast (CreatePinRequest_end_date obj))),
     (CreatePinRequest_has_pin_type obj, 15, AUint (ucast (CreatePinRequest_pin_type obj))),
     (CreatePinRequest_has_operation_id obj, 100, AUint (ucast (CreatePinRequest_operation_id obj)))]"

definition ig_CreatePinRequest_encode ::
  "IgCreatePinRequest \<Rightarrow> bytes \<Rightarrow> u32 \<Rightarrow> (nat \<times> bytes
    \<times> nat option) res" where
  "ig_CreatePinRequest_encode obj retval len =
     (if \<not> ig_CreatePinRequest_is_valid obj then Ok (IgSerializerErrorInvalidPayload, retval, None)
      else ig_encode (ig_CreatePinRequest_fields_size obj) 43 (ig_CreatePinRequest_fields obj) retval len)"

definition ig_CreatePinRequest_cases :: "(i64 \<times> IgCreatePinRequest case_body) list" where
  "ig_CreatePinRequest_cases =
    [(0, CMsgId 43),
     (11, CBytes (ig_CreatePinRequest_set_password_nocopy False)),
     (12, CBytes (ig_CreatePinRequest_set_new_pin_nocopy False)),
     (13, CUint (\<lambda>v. ig_CreatePinRequest_set_start_date (ucast v))),
     (14, CUint (\<lambda>v. ig_CreatePinRequest_set_end_date (ucast v))),
     (15, CUint (\<lambda>v. ig_CreatePinRequest_set_pin_type (ucast v))),
     (100, CUint (\<lambda>v. ig_CreatePinRequest_set_operation_id (ucast v)))]"

definition ig_CreatePinRequest_decode :: "bytes \<Rightarrow> IgCreatePinRequest \<Rightarrow> nat
  \<Rightarrow> (nat \<times> IgCreatePinRequest) res" where
  "ig_CreatePinRequest_decode buf obj index = ig_decode ig_CreatePinRequest_cases buf obj index"

definition ig_CreatePinRequest_ok :: "IgCreatePinRequest \<Rightarrow> bool" where
  "ig_CreatePinRequest_ok obj \<longleftrightarrow> ig_CreatePinRequest_is_valid obj \<and>
     str_ok (CreatePinRequest_has_password obj) (CreatePinRequest_password obj)
       (CreatePinRequest_password_size obj) \<and>
     str_ok (CreatePinRequest_has_new_pin obj) (CreatePinRequest_new_pin obj)
       (CreatePinRequest_new_pin_size obj) \<and>
     num_ok (CreatePinRequest_has_start_date obj) (CreatePinRequest_start_date obj) \<and>
     num_ok (CreatePinRequest_has_end_date obj) (CreatePinRequest_end_date obj) \<and>
     num_ok (CreatePinRequest_has_pin_type obj) (CreatePinRequest_pin_type obj) \<and>
     num_ok (CreatePinRequest_has_operation_id obj) (CreatePinRequest_operation_id obj)"

lemmas ig_CreatePinRequest_setters =
  ig_CreatePinRequest_set_end_date_def
  ig_CreatePinRequest_set_new_pin_nocopy_def
  ig_CreatePinRequest_set_operation_id_def
  ig_CreatePinRequest_set_password_nocopy_def
  ig_CreatePinRequest_set_pin_type_def
  ig_CreatePinRequest_set_start_date_def

text \<open>A guarded setter, member by member.\<close>
lemma ig_CreatePinRequest_set_if:
  "(if g then ig_CreatePinRequest_set_start_date v0 obj else obj) =
     obj\<lparr>CreatePinRequest_start_date := pick g v0 (CreatePinRequest_start_date obj),
       CreatePinRequest_has_start_date := g \<or> CreatePinRequest_has_start_date obj\<rparr>"
  "(if g then ig_CreatePinRequest_set_end_date v1 obj else obj) =
     obj\<lparr>CreatePinRequest_end_date := pick g v1 (CreatePinRequest_end_date obj),
       CreatePinRequest_has_end_date := g \<or> CreatePinRequest_has_end_date obj\<rparr>"
  "(if g then ig_CreatePinRequest_set_pin_type v2 obj else obj) =
     obj\<lparr>CreatePinRequest_pin_type := pick g v2 (CreatePinRequest_pin_type obj),
       CreatePinRequest_has_pin_type := g \<or> CreatePinRequest_has_pin_type obj\<rparr>"
  "(if g then ig_CreatePinRequest_set_operation_id v3 obj else obj) =
     obj\<lparr>CreatePinRequest_operation_id := pick g v3 (CreatePinRequest_operation_id obj),
       CreatePinRequest_has_operation_id := g \<or> CreatePinRequest_has_operation_id obj\<rparr>"
  by (simp_all add: ig_CreatePinRequest_setters pick_def)

lemma ig_CreatePinRequest_store:
  assumes ok: "ig_CreatePinRequest_ok obj"
  shows "store_fields ig_CreatePinRequest_cases (ig_CreatePinRequest_fields obj)
    ig_CreatePinRequest_init = Some obj"
proof -
  have h: "str_ok (CreatePinRequest_has_password obj) (CreatePinRequest_password obj)
    (CreatePinRequest_password_size obj)"
    "str_ok (CreatePinRequest_has_new_pin obj) (CreatePinRequest_new_pin obj)
      (CreatePinRequest_new_pin_size obj)"
    "num_ok (CreatePinRequest_has_start_date obj) (CreatePinRequest_start_date obj)"
    "num_ok (CreatePinRequest_has_end_date obj) (CreatePinRequest_end_date obj)"
    "num_ok (CreatePinRequest_has_pin_type obj) (CreatePinRequest_pin_type obj)"
    "num_ok (CreatePinRequest_has_operation_id obj) (CreatePinRequest_operation_id obj)"
    and valid: "ig_CreatePinRequest_is_valid obj"
    using ok by (simp_all add: ig_CreatePinRequest_ok_def)
  show ?thesis
    using valid
    by (simp add: ig_CreatePinRequest_fields_def ig_CreatePinRequest_cases_def
      ig_CreatePinRequest_init_def codec_simps
        ig_CreatePinRequest_set_if ig_CreatePinRequest_setters split del: if_split)
       (simp add: ig_CreatePinRequest_is_valid_def
         str_ok_store [OF h(1)]
         str_ok_store [OF h(2)]
         num_ok_store [OF h(3)]
         num_ok_store [OF h(4)]
         num_ok_store [OF h(5)]
         num_ok_store [OF h(6)])
qed

lemma ig_CreatePinRequest_bound:
  assumes "ig_CreatePinRequest_ok obj"
  shows "2 + length (number_bytes 43 MtUnsigned) + fields_bound (ig_CreatePinRequest_fields obj)
    \<le> unat (ig_CreatePinRequest_get_max_payload_in_bytes obj)"
proof -
  have sizes: "CreatePinRequest_password_size obj < 2 ^ 24" "CreatePinRequest_new_pin_size obj < 2 ^ 24"
    using assms by (auto simp: ig_CreatePinRequest_ok_def dest!: str_ok_bound)
  show ?thesis
    using sizes number_bytes_size [of "CreatePinRequest_password_size obj" "0x40"]
      number_bytes_size [of "CreatePinRequest_new_pin_size obj" "0x40"]
      number_bytes_u32 [of "CreatePinRequest_start_date obj" 0]
      number_bytes_u32 [of "CreatePinRequest_end_date obj" 0]
      number_bytes_u8 [of "CreatePinRequest_pin_type obj" 0]
      number_bytes_u32 [of "CreatePinRequest_operation_id obj" 0]
    by (simp add: ig_CreatePinRequest_fields_def ig_CreatePinRequest_get_max_payload_in_bytes_def
      number_bytes_literal
        unat_of_nat_small del: of_nat_add)
qed

interpretation CreatePinRequest_codec: ig_message ig_CreatePinRequest_encode ig_CreatePinRequest_decode
  ig_CreatePinRequest_get_max_payload_in_bytes ig_CreatePinRequest_is_valid
    ig_CreatePinRequest_init ig_CreatePinRequest_ok 43
  ig_CreatePinRequest_fields_size ig_CreatePinRequest_fields ig_CreatePinRequest_cases
  by (unfold_locales;
      (rule ig_CreatePinRequest_encode_def ig_CreatePinRequest_decode_def | erule
        ig_CreatePinRequest_store ig_CreatePinRequest_bound |
       auto simp: ig_CreatePinRequest_cases_def ig_CreatePinRequest_fields_def
         ig_CreatePinRequest_fields_size_def ig_CreatePinRequest_ok_def
         simp del: arg_block_ok.simps(1,2) intro: str_ok_block))

subsection \<open>CreatePinResponse\<close>

record IgCreatePinResponse =
  CreatePinResponse_has_result :: bool
  CreatePinResponse_result :: u8
  CreatePinResponse_has_operation_id :: bool
  CreatePinResponse_operation_id :: u32

definition ig_CreatePinResponse_init :: IgCreatePinResponse where
  "ig_CreatePinResponse_init =
     \<lparr>CreatePinResponse_has_result = False,
      CreatePinResponse_result = 0,
      CreatePinResponse_has_operation_id = False,
      CreatePinResponse_operation_id = 0\<rparr>"

definition ig_CreatePinResponse_set_result :: "u8 \<Rightarrow> IgCreatePinResponse \<Rightarrow>
  IgCreatePinResponse" where
  "ig_CreatePinResponse_set_result v obj = obj\<lparr>CreatePinResponse_result := v,
    CreatePinResponse_has_result := True\<rparr>"

definition ig_CreatePinResponse_set_operation_id :: "u32 \<Rightarrow> IgCreatePinResponse
  \<Rightarrow> IgCreatePinResponse" where
  "ig_CreatePinResponse_set_operation_id v obj = obj\<lparr>CreatePinResponse_operation_id := v,
    CreatePinResponse_has_operation_id := True\<rparr>"

definition ig_CreatePinResponse_deinit :: "IgCreatePinResponse \<Rightarrow> IgCreatePinResponse" where
  "ig_CreatePinResponse_deinit obj = obj"

definition ig_CreatePinResponse_is_valid :: "IgCreatePinResponse \<Rightarrow> bool" where
  "ig_CreatePinResponse_is_valid obj \<longleftrightarrow> CreatePinResponse_has_result obj"

definition ig_CreatePinResponse_get_max_payload_in_bytes :: "IgCreatePinResponse \<Rightarrow> u32" where
  "ig_CreatePinResponse_get_max_payload_in_bytes obj = 22"

definition ig_CreatePinResponse_fields_size :: "IgCreatePinResponse \<Rightarrow> u64" where
  "ig_CreatePinResponse_fields_size obj = 1 + 1 + of_bool (CreatePinResponse_has_operation_id obj)"

definition ig_CreatePinResponse_fields :: "IgCreatePinResponse \<Rightarrow> enc_field list" where
  "ig_CreatePinResponse_fields obj =
    [(True, 11, AUint (ucast (CreatePinResponse_result obj))),
     (CreatePinResponse_has_operation_id obj, 100, AUint (ucast (CreatePinResponse_operation_id obj)))]"

definition ig_CreatePinResponse_encode ::
  "IgCreatePinResponse \<Rightarrow> bytes \<Rightarrow> u32 \<Rightarrow> (nat \<times> bytes
    \<times> nat option) res" where
  "ig_CreatePinResponse_encode obj retval len =
     (if \<not> ig_CreatePinResponse_is_valid obj then Ok (IgSerializerErrorInvalidPayload, retval, None)
      else ig_encode (ig_CreatePinResponse_fields_size obj) 44 (ig_CreatePinResponse_fields obj) retval len)"

definition ig_CreatePinResponse_cases :: "(i64 \<times> IgCreatePinResponse case_body) list" where
  "ig_CreatePinResponse_cases =
    [(0, CMsgId 44),
     (11, CUint (\<lambda>v. ig_CreatePinResponse_set_result (ucast v))),
     (100, CUint (\<lambda>v. ig_CreatePinResponse_set_operation_id (ucast v)))]"

definition ig_CreatePinResponse_decode :: "bytes \<Rightarrow> IgCreatePinResponse \<Rightarrow>
  nat \<Rightarrow> (nat \<times> IgCreatePinResponse) res" where
  "ig_CreatePinResponse_decode buf obj index = ig_decode ig_CreatePinResponse_cases buf obj index"

definition ig_CreatePinResponse_ok :: "IgCreatePinResponse \<Rightarrow> bool" where
  "ig_CreatePinResponse_ok obj \<longleftrightarrow> ig_CreatePinResponse_is_valid obj \<and>
     num_ok (CreatePinResponse_has_result obj) (CreatePinResponse_result obj) \<and>
     num_ok (CreatePinResponse_has_operation_id obj) (CreatePinResponse_operation_id obj)"

lemmas ig_CreatePinResponse_setters =
  ig_CreatePinResponse_set_operation_id_def
  ig_CreatePinResponse_set_result_def

text \<open>A guarded setter, member by member.\<close>
lemma ig_CreatePinResponse_set_if:
  "(if g then ig_CreatePinResponse_set_operation_id v0 obj else obj) =
     obj\<lparr>CreatePinResponse_operation_id := pick g v0 (CreatePinResponse_operation_id obj),
       CreatePinResponse_has_operation_id := g \<or> CreatePinResponse_has_operation_id obj\<rparr>"
  by (simp_all add: ig_CreatePinResponse_setters pick_def)

lemma ig_CreatePinResponse_store:
  assumes ok: "ig_CreatePinResponse_ok obj"
  shows "store_fields ig_CreatePinResponse_cases (ig_CreatePinResponse_fields obj)
    ig_CreatePinResponse_init = Some obj"
proof -
  have h: "num_ok (CreatePinResponse_has_result obj) (CreatePinResponse_result obj)"
    "num_ok (CreatePinResponse_has_operation_id obj) (CreatePinResponse_operation_id obj)"
    and valid: "ig_CreatePinResponse_is_valid obj"
    using ok by (simp_all add: ig_CreatePinResponse_ok_def)
  show ?thesis
    using valid
    by (simp add: ig_CreatePinResponse_fields_def ig_CreatePinResponse_cases_def
      ig_CreatePinResponse_init_def codec_simps
        ig_CreatePinResponse_set_if ig_CreatePinResponse_setters split del: if_split)
       (simp add: ig_CreatePinResponse_is_valid_def
         num_ok_store [OF h(1)]
         num_ok_store [OF h(2)])
qed

lemma ig_CreatePinResponse_bound:
  assumes "ig_CreatePinResponse_ok obj"
  shows "2 + length (number_bytes 44 MtUnsigned) + fields_bound (ig_CreatePinResponse_fields obj)
    \<le> unat (ig_CreatePinResponse_get_max_payload_in_bytes obj)"
  using number_bytes_u8 [of "CreatePinResponse_result obj" 0]
    number_bytes_u32 [of "CreatePinResponse_operation_id obj" 0]
  by (simp add: ig_CreatePinResponse_fields_def ig_CreatePinResponse_get_max_payload_in_bytes_def
    number_bytes_literal)

interpretation CreatePinResponse_codec: ig_message ig_CreatePinResponse_encode ig_CreatePinResponse_decode
  ig_CreatePinResponse_get_max_payload_in_bytes ig_CreatePinResponse_is_valid
    ig_CreatePinResponse_init ig_CreatePinResponse_ok 44
  ig_CreatePinResponse_fields_size ig_CreatePinResponse_fields ig_CreatePinResponse_cases
  by (unfold_locales;
      (rule ig_CreatePinResponse_encode_def ig_CreatePinResponse_decode_def | erule
        ig_CreatePinResponse_store ig_CreatePinResponse_bound |
       auto simp: ig_CreatePinResponse_cases_def ig_CreatePinResponse_fields_def
         ig_CreatePinResponse_fields_size_def ig_CreatePinResponse_ok_def
         simp del: arg_block_ok.simps(1,2) intro: str_ok_block))

subsection \<open>DeletePinRequest\<close>

record IgDeletePinRequest =
  DeletePinRequest_has_password :: bool
  DeletePinRequest_password :: block_ptr
  DeletePinRequest_password_size :: nat
  DeletePinRequest_has_old_pin :: bool
  DeletePinRequest_old_pin :: block_ptr
  DeletePinRequest_old_pin_size :: nat
  DeletePinRequest_has_operation_id :: bool
  DeletePinRequest_operation_id :: u32

definition ig_DeletePinRequest_init :: IgDeletePinRequest where
  "ig_DeletePinRequest_init =
     \<lparr>DeletePinRequest_has_password = False,
      DeletePinRequest_password = None,
      DeletePinRequest_password_size = 0,
      DeletePinRequest_has_old_pin = False,
      DeletePinRequest_old_pin = None,
      DeletePinRequest_old_pin_size = 0,
      DeletePinRequest_has_operation_id = False,
      DeletePinRequest_operation_id = 0\<rparr>"

definition ig_DeletePinRequest_get_password_size :: "IgDeletePinRequest \<Rightarrow> nat" where
  "ig_DeletePinRequest_get_password_size obj = DeletePinRequest_password_size obj"

definition ig_DeletePinRequest_set_password_nocopy ::
  "bool \<Rightarrow> block_ptr \<Rightarrow> nat \<Rightarrow> IgDeletePinRequest \<Rightarrow>
    IgDeletePinRequest" where
  "ig_DeletePinRequest_set_password_nocopy same_ptr p n obj =
     (if same_ptr then obj
      else let obj = (if DeletePinRequest_has_password obj then
        obj\<lparr>DeletePinRequest_password := None\<rparr> else obj)
        in obj\<lparr>DeletePinRequest_password := p, DeletePinRequest_password_size := n,
          DeletePinRequest_has_password := n > 0\<rparr>)"

definition ig_DeletePinRequest_set_password ::
  "bool \<Rightarrow> block_ptr \<Rightarrow> nat \<Rightarrow> IgDeletePinRequest \<Rightarrow>
    IgDeletePinRequest res" where
  "ig_DeletePinRequest_set_password same_ptr p n obj =
     (if same_ptr then Ok obj
      else let obj = (if DeletePinRequest_has_password obj then
        obj\<lparr>DeletePinRequest_password := None\<rparr> else obj)
        in bindR (block_read p n) (\<lambda>d.
          Ok (obj\<lparr>DeletePinRequest_password := Some d, DeletePinRequest_password_size := n,
            DeletePinRequest_has_password := n > 0\<rparr>)))"

definition ig_DeletePinRequest_get_old_pin_size :: "IgDeletePinRequest \<Rightarrow> nat" where
  "ig_DeletePinRequest_get_old_pin_size obj = DeletePinRequest_old_pin_size obj"

definition ig_DeletePinRequest_set_old_pin_nocopy ::
  "bool \<Rightarrow> block_ptr \<Rightarrow> nat \<Rightarrow> IgDeletePinRequest \<Rightarrow>
    IgDeletePinRequest" where
  "ig_DeletePinRequest_set_old_pin_nocopy same_ptr p n obj =
     (if same_ptr then obj
      else let obj = (if DeletePinRequest_has_old_pin obj then obj\<lparr>DeletePinRequest_old_pin
        := None\<rparr> else obj)
        in obj\<lparr>DeletePinRequest_old_pin := p, DeletePinRequest_old_pin_size := n,
          DeletePinRequest_has_old_pin := n > 0\<rparr>)"

definition ig_DeletePinRequest_set_old_pin ::
  "bool \<Rightarrow> block_ptr \<Rightarrow> nat \<Rightarrow> IgDeletePinRequest \<Rightarrow>
    IgDeletePinRequest res" where
  "ig_DeletePinRequest_set_old_pin same_ptr p n obj =
     (if same_ptr then Ok obj
      else let obj = (if DeletePinRequest_has_old_pin obj then obj\<lparr>DeletePinRequest_old_pin
        := None\<rparr> else obj)
        in bindR (block_read p n) (\<lambda>d.
          Ok (obj\<lparr>DeletePinRequest_old_pin := Some d, DeletePinRequest_old_pin_size := n,
            DeletePinRequest_has_old_pin := n > 0\<rparr>)))"

definition ig_DeletePinRequest_set_operation_id :: "u32 \<Rightarrow> IgDeletePinRequest
  \<Rightarrow> IgDeletePinRequest" where
  "ig_DeletePinRequest_set_operation_id v obj = obj\<lparr>DeletePinRequest_operation_id := v,
    DeletePinRequest_has_operation_id := True\<rparr>"

definition ig_DeletePinRequest_deinit :: "IgDeletePinRequest \<Rightarrow> IgDeletePinRequest" where
  "ig_DeletePinRequest_deinit obj = (let
     obj = (if DeletePinRequest_has_password obj then obj\<lparr>DeletePinRequest_password :=
       None\<rparr> else obj);
     obj = (if DeletePinRequest_has_old_pin obj then obj\<lparr>DeletePinRequest_old_pin :=
       None\<rparr> else obj)
   in obj)"

definition ig_DeletePinRequest_is_valid :: "IgDeletePinRequest \<Rightarrow> bool" where
  "ig_DeletePinRequest_is_valid obj \<longleftrightarrow> DeletePinRequest_has_password obj \<and>
    DeletePinRequest_has_old_pin obj"

definition ig_DeletePinRequest_get_max_payload_in_bytes :: "IgDeletePinRequest \<Rightarrow> u32" where
  "ig_DeletePinRequest_get_max_payload_in_bytes obj = word_of_nat (33 +
    DeletePinRequest_password_size obj + DeletePinRequest_old_pin_size obj)"

definition ig_DeletePinRequest_fields_size :: "IgDeletePinRequest \<Rightarrow> u64" where
  "ig_DeletePinRequest_fields_size obj = 1 + 2 + of_bool (DeletePinRequest_has_operation_id obj)"

definition ig_DeletePinRequest_fields :: "IgDeletePinRequest \<Rightarrow> enc_field list" where
  "ig_DeletePinRequest_fields obj =
    [(True, 11, ABytes (DeletePinRequest_password obj) (DeletePinRequest_password_size obj)),
     (True, 12, ABytes (DeletePinRequest_old_pin obj) (DeletePinRequest_old_pin_size obj)),
     (DeletePinRequest_has_operation_id obj, 100, AUint (ucast (DeletePinRequest_operation_id obj)))]"

definition ig_DeletePinRequest_encode ::
  "IgDeletePinRequest \<Rightarrow> bytes \<Rightarrow> u32 \<Rightarrow> (nat \<times> bytes
    \<times> nat option) res" where
  "ig_DeletePinRequest_encode obj retval len =
     (if \<not> ig_DeletePinRequest_is_valid obj then Ok (IgSerializerErrorInvalidPayload, retval, None)
      else ig_encode (ig_DeletePinRequest_fields_size obj) 47 (ig_DeletePinRequest_fields obj) retval len)"

definition ig_DeletePinRequest_cases :: "(i64 \<times> IgDeletePinRequest case_body) list" where
  "ig_DeletePinRequest_cases =
    [(0, CMsgId 47),
     (11, CBytes (ig_DeletePinRequest_set_password_nocopy False)),
     (12, CBytes (ig_DeletePinRequest_set_old_pin_nocopy False)),
     (100, CUint (\<lambda>v. ig_DeletePinRequest_set_operation_id (ucast v)))]"

definition ig_DeletePinRequest_decode :: "bytes \<Rightarrow> IgDeletePinRequest \<Rightarrow> nat
  \<Rightarrow> (nat \<times> IgDeletePinRequest) res" where
  "ig_DeletePinRequest_decode buf obj index = ig_decode ig_DeletePinRequest_cases buf obj index"

definition ig_DeletePinRequest_ok :: "IgDeletePinRequest \<Rightarrow> bool" where
  "ig_DeletePinRequest_ok obj \<longleftrightarrow> ig_DeletePinRequest_is_valid obj \<and>
     str_ok (DeletePinRequest_has_password obj) (DeletePinRequest_password obj)
       (DeletePinRequest_password_size obj) \<and>
     str_ok (DeletePinRequest_has_old_pin obj) (DeletePinRequest_old_pin obj)
       (DeletePinRequest_old_pin_size obj) \<and>
     num_ok (DeletePinRequest_has_operation_id obj) (DeletePinRequest_operation_id obj)"

lemmas ig_DeletePinRequest_setters =
  ig_DeletePinRequest_set_old_pin_nocopy_def
  ig_DeletePinRequest_set_operation_id_def
  ig_DeletePinRequest_set_password_nocopy_def

text \<open>A guarded setter, member by member.\<close>
lemma ig_DeletePinRequest_set_if:
  "(if g then ig_DeletePinRequest_set_operation_id v0 obj else obj) =
     obj\<lparr>DeletePinRequest_operation_id := pick g v0 (DeletePinRequest_operation_id obj),
       DeletePinRequest_has_operation_id := g \<or> DeletePinRequest_has_operation_id obj\<rparr>"
  by (simp_all add: ig_DeletePinRequest_setters pick_def)

lemma ig_DeletePinRequest_store:
  assumes ok: "ig_DeletePinRequest_ok obj"
  shows "store_fields ig_DeletePinRequest_cases (ig_DeletePinRequest_fields obj)
    ig_DeletePinRequest_init = Some obj"
proof -
  have h: "str_ok (DeletePinRequest_has_password obj) (DeletePinRequest_password obj)
    (DeletePinRequest_password_size obj)"
    "str_ok (DeletePinRequest_has_old_pin obj) (DeletePinRequest_old_pin obj)
      (DeletePinRequest_old_pin_size obj)"
    "num_ok (DeletePinRequest_has_operation_id obj) (DeletePinRequest_operation_id obj)"
    and valid: "ig_DeletePinRequest_is_valid obj"
    using ok by (simp_all add: ig_DeletePinRequest_ok_def)
  show ?thesis
    using valid
    by (simp add: ig_DeletePinRequest_fields_def ig_DeletePinRequest_cases_def
      ig_DeletePinRequest_init_def codec_simps
        ig_DeletePinRequest_set_if ig_DeletePinRequest_setters split del: if_split)
       (simp add: ig_DeletePinRequest_is_valid_def
         str_ok_store [OF h(1)]
         str_ok_store [OF h(2)]
         num_ok_store [OF h(3)])
qed

lemma ig_DeletePinRequest_bound:
  assumes "ig_DeletePinRequest_ok obj"
  shows "2 + length (number_bytes 47 MtUnsigned) + fields_bound (ig_DeletePinRequest_fields obj)
    \<le> unat (ig_DeletePinRequest_get_max_payload_in_bytes obj)"
proof -
  have sizes: "DeletePinRequest_password_size obj < 2 ^ 24" "DeletePinRequest_old_pin_size obj < 2 ^ 24"
    using assms by (auto simp: ig_DeletePinRequest_ok_def dest!: str_ok_bound)
  show ?thesis
    using sizes number_bytes_size [of "DeletePinRequest_password_size obj" "0x40"]
      number_bytes_size [of "DeletePinRequest_old_pin_size obj" "0x40"]
      number_bytes_u32 [of "DeletePinRequest_operation_id obj" 0]
    by (simp add: ig_DeletePinRequest_fields_def ig_DeletePinRequest_get_max_payload_in_bytes_def
      number_bytes_literal
        unat_of_nat_small del: of_nat_add)
qed

interpretation DeletePinRequest_codec: ig_message ig_DeletePinRequest_encode ig_DeletePinRequest_decode
  ig_DeletePinRequest_get_max_payload_in_bytes ig_DeletePinRequest_is_valid
    ig_DeletePinRequest_init ig_DeletePinRequest_ok 47
  ig_DeletePinRequest_fields_size ig_DeletePinRequest_fields ig_DeletePinRequest_cases
  by (unfold_locales;
      (rule ig_DeletePinRequest_encode_def ig_DeletePinRequest_decode_def | erule
        ig_DeletePinRequest_store ig_DeletePinRequest_bound |
       auto simp: ig_DeletePinRequest_cases_def ig_DeletePinRequest_fields_def
         ig_DeletePinRequest_fields_size_def ig_DeletePinRequest_ok_def
         simp del: arg_block_ok.simps(1,2) intro: str_ok_block))

subsection \<open>DeletePinResponse\<close>

record IgDeletePinResponse =
  DeletePinResponse_has_result :: bool
  DeletePinResponse_result :: u8
  DeletePinResponse_has_operation_id :: bool
  DeletePinResponse_operation_id :: u32

definition ig_DeletePinResponse_init :: IgDeletePinResponse where
  "ig_DeletePinResponse_init =
     \<lparr>DeletePinResponse_has_result = False,
      DeletePinResponse_result = 0,
      DeletePinResponse_has_operation_id = False,
      DeletePinResponse_operation_id = 0\<rparr>"

definition ig_DeletePinResponse_set_result :: "u8 \<Rightarrow> IgDeletePinResponse \<Rightarrow>
  IgDeletePinResponse" where
  "ig_DeletePinResponse_set_result v obj = obj\<lparr>DeletePinResponse_result := v,
    DeletePinResponse_has_result := True\<rparr>"

definition ig_DeletePinResponse_set_operation_id :: "u32 \<Rightarrow> IgDeletePinResponse
  \<Rightarrow> IgDeletePinResponse" where
  "ig_DeletePinResponse_set_operation_id v obj = obj\<lparr>DeletePinResponse_operation_id := v,
    DeletePinResponse_has_operation_id := True\<rparr>"

definition ig_DeletePinResponse_deinit :: "IgDeletePinResponse \<Rightarrow> IgDeletePinResponse" where
  "ig_DeletePinResponse_deinit obj = obj"

definition ig_DeletePinResponse_is_valid :: "IgDeletePinResponse \<Rightarrow> bool" where
  "ig_DeletePinResponse_is_valid obj \<longleftrightarrow> DeletePinResponse_has_result obj"

definition ig_DeletePinResponse_get_max_payload_in_bytes :: "IgDeletePinResponse \<Rightarrow> u32" where
  "ig_DeletePinResponse_get_max_payload_in_bytes obj = 22"

definition ig_DeletePinResponse_fields_size :: "IgDeletePinResponse \<Rightarrow> u64" where
  "ig_DeletePinResponse_fields_size obj = 1 + 1 + of_bool (DeletePinResponse_has_operation_id obj)"

definition ig_DeletePinResponse_fields :: "IgDeletePinResponse \<Rightarrow> enc_field list" where
  "ig_DeletePinResponse_fields obj =
    [(True, 11, AUint (ucast (DeletePinResponse_result obj))),
     (DeletePinResponse_has_operation_id obj, 100, AUint (ucast (DeletePinResponse_operation_id obj)))]"

definition ig_DeletePinResponse_encode ::
  "IgDeletePinResponse \<Rightarrow> bytes \<Rightarrow> u32 \<Rightarrow> (nat \<times> bytes
    \<times> nat option) res" where
  "ig_DeletePinResponse_encode obj retval len =
     (if \<not> ig_DeletePinResponse_is_valid obj then Ok (IgSerializerErrorInvalidPayload, retval, None)
      else ig_encode (ig_DeletePinResponse_fields_size obj) 48 (ig_DeletePinResponse_fields obj) retval len)"

definition ig_DeletePinResponse_cases :: "(i64 \<times> IgDeletePinResponse case_body) list" where
  "ig_DeletePinResponse_cases =
    [(0, CMsgId 48),
     (11, CUint (\<lambda>v. ig_DeletePinResponse_set_result (ucast v))),
     (100, CUint (\<lambda>v. ig_DeletePinResponse_set_operation_id (ucast v)))]"

definition ig_DeletePinResponse_decode :: "bytes \<Rightarrow> IgDeletePinResponse \<Rightarrow>
  nat \<Rightarrow> (nat \<times> IgDeletePinResponse) res" where
  "ig_DeletePinResponse_decode buf obj index = ig_decode ig_DeletePinResponse_cases buf obj index"

definition ig_DeletePinResponse_ok :: "IgDeletePinResponse \<Rightarrow> bool" where
  "ig_DeletePinResponse_ok obj \<longleftrightarrow> ig_DeletePinResponse_is_valid obj \<and>
     num_ok (DeletePinResponse_has_result obj) (DeletePinResponse_result obj) \<and>
     num_ok (DeletePinResponse_has_operation_id obj) (DeletePinResponse_operation_id obj)"

lemmas ig_DeletePinResponse_setters =
  ig_DeletePinResponse_set_operation_id_def
  ig_DeletePinResponse_set_result_def

text \<open>A guarded setter, member by member.\<close>
lemma ig_DeletePinResponse_set_if:
  "(if g then ig_DeletePinResponse_set_operation_id v0 obj else obj) =
     obj\<lparr>DeletePinResponse_operation_id := pick g v0 (DeletePinResponse_operation_id obj),
       DeletePinResponse_has_operation_id := g \<or> DeletePinResponse_has_operation_id obj\<rparr>"
  by (simp_all add: ig_DeletePinResponse_setters pick_def)

lemma ig_DeletePinResponse_store:
  assumes ok: "ig_DeletePinResponse_ok obj"
  shows "store_fields ig_DeletePinResponse_cases (ig_DeletePinResponse_fields obj)
    ig_DeletePinResponse_init = Some obj"
proof -
  have h: "num_ok (DeletePinResponse_has_result obj) (DeletePinResponse_result obj)"
    "num_ok (DeletePinResponse_has_operation_id obj) (DeletePinResponse_operation_id obj)"
    and valid: "ig_DeletePinResponse_is_valid obj"
    using ok by (simp_all add: ig_DeletePinResponse_ok_def)
  show ?thesis
    using valid
    by (simp add: ig_DeletePinResponse_fields_def ig_DeletePinResponse_cases_def
      ig_DeletePinResponse_init_def codec_simps
        ig_DeletePinResponse_set_if ig_DeletePinResponse_setters split del: if_split)
       (simp add: ig_DeletePinResponse_is_valid_def
         num_ok_store [OF h(1)]
         num_ok_store [OF h(2)])
qed

lemma ig_DeletePinResponse_bound:
  assumes "ig_DeletePinResponse_ok obj"
  shows "2 + length (number_bytes 48 MtUnsigned) + fields_bound (ig_DeletePinResponse_fields obj)
    \<le> unat (ig_DeletePinResponse_get_max_payload_in_bytes obj)"
  using number_bytes_u8 [of "DeletePinResponse_result obj" 0]
    number_bytes_u32 [of "DeletePinResponse_operation_id obj" 0]
  by (simp add: ig_DeletePinResponse_fields_def ig_DeletePinResponse_get_max_payload_in_bytes_def
    number_bytes_literal)

interpretation DeletePinResponse_codec: ig_message ig_DeletePinResponse_encode ig_DeletePinResponse_decode
  ig_DeletePinResponse_get_max_payload_in_bytes ig_DeletePinResponse_is_valid
    ig_DeletePinResponse_init ig_DeletePinResponse_ok 48
  ig_DeletePinResponse_fields_size ig_DeletePinResponse_fields ig_DeletePinResponse_cases
  by (unfold_locales;
      (rule ig_DeletePinResponse_encode_def ig_DeletePinResponse_decode_def | erule
        ig_DeletePinResponse_store ig_DeletePinResponse_bound |
       auto simp: ig_DeletePinResponse_cases_def ig_DeletePinResponse_fields_def
         ig_DeletePinResponse_fields_size_def ig_DeletePinResponse_ok_def
         simp del: arg_block_ok.simps(1,2) intro: str_ok_block))

subsection \<open>EditPinRequest\<close>

record IgEditPinRequest =
  EditPinRequest_has_password :: bool
  EditPinRequest_password :: block_ptr
  EditPinRequest_password_size :: nat
  EditPinRequest_has_old_pin :: bool
  EditPinRequest_old_pin :: block_ptr
  EditPinRequest_old_pin_size :: nat
  EditPinRequest_has_new_pin :: bool
  EditPinRequest_new_pin :: block_ptr
  EditPinRequest_new_pin_size :: nat
  EditPinRequest_has_start_date :: bool
  EditPinRequest_start_date :: u32
  EditPinRequest_has_end_date :: bool
  EditPinRequest_end_date :: u32
  EditPinRequest_has_pin_type :: bool
  EditPinRequest_pin_type :: u8
  EditPinRequest_has_operation_id :: bool
  EditPinRequest_operation_id :: u32

definition ig_EditPinRequest_init :: IgEditPinRequest where
  "ig_EditPinRequest_init =
     \<lparr>EditPinRequest_has_password = False,
      EditPinRequest_password = None,
      EditPinRequest_password_size = 0,
      EditPinRequest_has_old_pin = False,
      EditPinRequest_old_pin = None,
      EditPinRequest_old_pin_size = 0,
      EditPinRequest_has_new_pin = False,
      EditPinRequest_new_pin = None,
      EditPinRequest_new_pin_size = 0,
      EditPinRequest_has_start_date = False,
      EditPinRequest_start_date = 0,
      EditPinRequest_has_end_date = False,
      EditPinRequest_end_date = 0,
      EditPinRequest_has_pin_type = False,
      EditPinRequest_pin_type = 0,
      EditPinRequest_has_operation_id = False,
      EditPinRequest_operation_id = 0\<rparr>"

definition ig_EditPinRequest_get_password_size :: "IgEditPinRequest \<Rightarrow> nat" where
  "ig_EditPinRequest_get_password_size obj = EditPinRequest_password_size obj"

definition ig_EditPinRequest_set_password_nocopy ::
  "bool \<Rightarrow> block_ptr \<Rightarrow> nat \<Rightarrow> IgEditPinRequest \<Rightarrow>
    IgEditPinRequest" where
  "ig_EditPinRequest_set_password_nocopy same_ptr p n obj =
     (if same_ptr then obj
      else let obj = (if EditPinRequest_has_password obj then obj\<lparr>EditPinRequest_password :=
        None\<rparr> else obj)
        in obj\<lparr>EditPinRequest_password := p, EditPinRequest_password_size := n,
          EditPinRequest_has_password := n > 0\<rparr>)"

definition ig_EditPinRequest_set_password ::
  "bool \<Rightarrow> block_ptr \<Rightarrow> nat \<Rightarrow> IgEditPinRequest \<Rightarrow>
    IgEditPinRequest res" where
  "ig_EditPinRequest_set_password same_ptr p n obj =
     (if same_ptr then Ok obj
      else let obj = (if EditPinRequest_has_password obj then obj\<lparr>EditPinRequest_password :=
        None\<rparr> else obj)
        in bindR (block_read p n) (\<lambda>d.
          Ok (obj\<lparr>EditPinRequest_password := Some d, EditPinRequest_password_size := n,
            EditPinRequest_has_password := n > 0\<rparr>)))"

definition ig_EditPinRequest_get_old_pin_size :: "IgEditPinRequest \<Rightarrow> nat" where
  "ig_EditPinRequest_get_old_pin_size obj = EditPinRequest_old_pin_size obj"

definition ig_EditPinRequest_set_old_pin_nocopy ::
  "bool \<Rightarrow> block_ptr \<Rightarrow> nat \<Rightarrow> IgEditPinRequest \<Rightarrow>
    IgEditPinRequest" where
  "ig_EditPinRequest_set_old_pin_nocopy same_ptr p n obj =
     (if same_ptr then obj
      else let obj = (if EditPinRequest_has_old_pin obj then obj\<lparr>EditPinRequest_old_pin :=
        None\<rparr> else obj)
        in obj\<lparr>EditPinRequest_old_pin := p, EditPinRequest_old_pin_size := n,
          EditPinRequest_has_old_pin := n > 0\<rparr>)"

definition ig_EditPinRequest_set_old_pin ::
  "bool \<Rightarrow> block_ptr \<Rightarrow> nat \<Rightarrow> IgEditPinRequest \<Rightarrow>
    IgEditPinRequest res" where
  "ig_EditPinRequest_set_old_pin same_ptr p n obj =
     (if same_ptr then Ok obj
      else let obj = (if EditPinRequest_has_old_pin obj then obj\<lparr>EditPinRequest_old_pin :=
        None\<rparr> else obj)
        in bindR (block_read p n) (\<lambda>d.
          Ok (obj\<lparr>EditPinRequest_old_pin := Some d, EditPinRequest_old_pin_size := n,
            EditPinRequest_has_old_pin := n > 0\<rparr>)))"

definition ig_EditPinRequest_get_new_pin_size :: "IgEditPinRequest \<Rightarrow> nat" where
  "ig_EditPinRequest_get_new_pin_size obj = EditPinRequest_new_pin_size obj"

definition ig_EditPinRequest_set_new_pin_nocopy ::
  "bool \<Rightarrow> block_ptr \<Rightarrow> nat \<Rightarrow> IgEditPinRequest \<Rightarrow>
    IgEditPinRequest" where
  "ig_EditPinRequest_set_new_pin_nocopy same_ptr p n obj =
     (if same_ptr then obj
      else let obj = (if EditPinRequest_has_new_pin obj then obj\<lparr>EditPinRequest_new_pin :=
        None\<rparr> else obj)
        in obj\<lparr>EditPinRequest_new_pin := p, EditPinRequest_new_pin_size := n,
          EditPinRequest_has_new_pin := n > 0\<rparr>)"

definition ig_EditPinRequest_set_new_pin ::
  "bool \<Rightarrow> block_ptr \<Rightarrow> nat \<Rightarrow> IgEditPinRequest \<Rightarrow>
    IgEditPinRequest res" where
  "ig_EditPinRequest_set_new_pin same_ptr p n obj =
     (if same_ptr then Ok obj
      else let obj = (if EditPinRequest_has_new_pin obj then obj\<lparr>EditPinRequest_new_pin :=
        None\<rparr> else obj)
        in bindR (block_read p n) (\<lambda>d.
          Ok (obj\<lparr>EditPinRequest_new_pin := Some d, EditPinRequest_new_pin_size := n,
            EditPinRequest_has_new_pin := n > 0\<rparr>)))"

definition ig_EditPinRequest_set_start_date :: "u32 \<Rightarrow> IgEditPinRequest \<Rightarrow>
  IgEditPinRequest" where
  "ig_EditPinRequest_set_start_date v obj = obj\<lparr>EditPinRequest_start_date := v,
    EditPinRequest_has_start_date := True\<rparr>"

definition ig_EditPinRequest_set_end_date :: "u32 \<Rightarrow> IgEditPinRequest \<Rightarrow>
  IgEditPinRequest" where
  "ig_EditPinRequest_set_end_date v obj = obj\<lparr>EditPinRequest_end_date := v,
    EditPinRequest_has_end_date := True\<rparr>"

definition ig_EditPinRequest_set_pin_type :: "u8 \<Rightarrow> IgEditPinRequest \<Rightarrow>
  IgEditPinRequest" where
  "ig_EditPinRequest_set_pin_type v obj = obj\<lparr>EditPinRequest_pin_type := v,
    EditPinRequest_has_pin_type := True\<rparr>"

definition ig_EditPinRequest_set_operation_id :: "u32 \<Rightarrow> IgEditPinRequest \<Rightarrow>
  IgEditPinRequest" where
  "ig_EditPinRequest_set_operation_id v obj = obj\<lparr>EditPinRequest_operation_id := v,
    EditPinRequest_has_operation_id := True\<rparr>"

definition ig_EditPinRequest_deinit :: "IgEditPinRequest \<Rightarrow> IgEditPinRequest" where
  "ig_EditPinRequest_deinit obj = (let
     obj = (if EditPinRequest_has_password obj then obj\<lparr>EditPinRequest_password :=
       None\<rparr> else obj);
     obj = (if EditPinRequest_has_old_pin obj then obj\<lparr>EditPinRequest_old_pin :=
       None\<rparr> else obj);
     obj = (if EditPinRequest_has_new_pin obj then obj\<lparr>EditPinRequest_new_pin := None\<rparr> else obj)
   in obj)"

definition ig_EditPinRequest_is_valid :: "IgEditPinRequest \<Rightarrow> bool" where
  "ig_EditPinRequest_is_valid obj \<longleftrightarrow> EditPinRequest_has_password obj \<and>
    EditPinRequest_has_old_pin obj"

definition ig_EditPinRequest_get_max_payload_in_bytes :: "IgEditPinRequest \<Rightarrow> u32" where
  "ig_EditPinRequest_get_max_payload_in_bytes obj = word_of_nat (55 + EditPinRequest_password_size
    obj + EditPinRequest_old_pin_size obj + EditPinRequest_new_pin_size obj)"

definition ig_EditPinRequest_fields_size :: "IgEditPinRequest \<Rightarrow> u64" where
  "ig_EditPinRequest_fields_size obj = 1 + 2 + of_bool (EditPinRequest_has_new_pin obj) + of_bool
    (EditPinRequest_has_start_date obj) + of_bool (EditPinRequest_has_end_date obj) + of_bool
      (EditPinRequest_has_pin_type obj) + of_bool (EditPinRequest_has_operation_id obj)"

definition ig_EditPinRequest_fields :: "IgEditPinRequest \<Rightarrow> enc_field list" where
  "ig_EditPinRequest_fields obj =
    [(True, 11, ABytes (EditPinRequest_password obj) (EditPinRequest_password_size obj)),
     (True, 12, ABytes (EditPinRequest_old_pin obj) (EditPinRequest_old_pin_size obj)),
     (EditPinRequest_has_new_pin obj, 13, ABytes (EditPinRequest_new_pin obj)
       (EditPinRequest_new_pin_size obj)),
     (EditPinRequest_has_start_date obj, 14, AUint (ucast (EditPinRequest_start_date obj))),
     (EditPinRequest_has_end_date obj, 15, AUint (ucast (EditPinRequest_end_date obj))),
     (EditPinRequest_has_pin_type obj, 16, AUint (ucast (EditPinRequest_pin_type obj))),
     (EditPinRequest_has_operation_id obj, 100, AUint (ucast (EditPinRequest_operation_id obj)))]"

definition ig_EditPinRequest_encode ::
  "IgEditPinRequest \<Rightarrow> bytes \<Rightarrow> u32 \<Rightarrow> (nat \<times> bytes
    \<times> nat option) res" where
  "ig_EditPinRequest_encode obj retval len =
     (if \<not> ig_EditPinRequest_is_valid obj then Ok (IgSerializerErrorInvalidPayload, retval, None)
      else ig_encode (ig_EditPinRequest_fields_size obj) 45 (ig_EditPinRequest_fields obj) retval len)"

definition ig_EditPinRequest_cases :: "(i64 \<times> IgEditPinRequest case_body) list" where
  "ig_EditPinRequest_cases =
    [(0, CMsgId 45),
     (11, CBytes (ig_EditPinRequest_set_password_nocopy False)),
     (12, CBytes (ig_EditPinRequest_set_old_pin_nocopy False)),
     (13, CBytes (ig_EditPinRequest_set_new_pin_nocopy False)),
     (14, CUint (\<lambda>v. ig_EditPinRequest_set_start_date (ucast v))),
     (15, CUint (\<lambda>v. ig_EditPinRequest_set_end_date (ucast v))),
     (16, CUint (\<lambda>v. ig_EditPinRequest_set_pin_type (ucast v))),
     (100, CUint (\<lambda>v. ig_EditPinRequest_set_operation_id (ucast v)))]"

definition ig_EditPinRequest_decode :: "bytes \<Rightarrow> IgEditPinRequest \<Rightarrow> nat
  \<Rightarrow> (nat \<times> IgEditPinRequest) res" where
  "ig_EditPinRequest_decode buf obj index = ig_decode ig_EditPinRequest_cases buf obj index"

definition ig_EditPinRequest_ok :: "IgEditPinRequest \<Rightarrow> bool" where
  "ig_EditPinRequest_ok obj \<longleftrightarrow> ig_EditPinRequest_is_valid obj \<and>
     str_ok (EditPinRequest_has_password obj) (EditPinRequest_password obj)
       (EditPinRequest_password_size obj) \<and>
     str_ok (EditPinRequest_has_old_pin obj) (EditPinRequest_old_pin obj)
       (EditPinRequest_old_pin_size obj) \<and>
     str_ok (EditPinRequest_has_new_pin obj) (EditPinRequest_new_pin obj)
       (EditPinRequest_new_pin_size obj) \<and>
     num_ok (EditPinRequest_has_start_date obj) (EditPinRequest_start_date obj) \<and>
     num_ok (EditPinRequest_has_end_date obj) (EditPinRequest_end_date obj) \<and>
     num_ok (EditPinRequest_has_pin_type obj) (EditPinRequest_pin_type obj) \<and>
     num_ok (EditPinRequest_has_operation_id obj) (EditPinRequest_operation_id obj)"

lemmas ig_EditPinRequest_setters =
  ig_EditPinRequest_set_end_date_def
  ig_EditPinRequest_set_new_pin_nocopy_def
  ig_EditPinRequest_set_old_pin_nocopy_def
  ig_EditPinRequest_set_operation_id_def
  ig_EditPinRequest_set_password_nocopy_def
  ig_EditPinRequest_set_pin_type_def
  ig_EditPinRequest_set_start_date_def

text \<open>A guarded setter, member by member.\<close>
lemma ig_EditPinRequest_set_if:
  "(if g then ig_EditPinRequest_set_new_pin_nocopy False p n obj else obj) =
     obj\<lparr>EditPinRequest_new_pin := pick g p (EditPinRequest_new_pin obj),
       EditPinRequest_new_pin_size := pick g n (EditPinRequest_new_pin_size obj),
       EditPinRequest_has_new_pin := pick g (n > 0) (EditPinRequest_has_new_pin obj)\<rparr>"
  "(if g then ig_EditPinRequest_set_start_date v1 obj else obj) =
     obj\<lparr>EditPinRequest_start_date := pick g v1 (EditPinRequest_start_date obj),
       EditPinRequest_has_start_date := g \<or> EditPinRequest_has_start_date obj\<rparr>"
  "(if g then ig_EditPinRequest_set_end_date v2 obj else obj) =
     obj\<lparr>EditPinRequest_end_date := pick g v2 (EditPinRequest_end_date obj),
       EditPinRequest_has_end_date := g \<or> EditPinRequest_has_end_date obj\<rparr>"
  "(if g then ig_EditPinRequest_set_pin_type v3 obj else obj) =
     obj\<lparr>EditPinRequest_pin_type := pick g v3 (EditPinRequest_pin_type obj),
       EditPinRequest_has_pin_type := g \<or> EditPinRequest_has_pin_type obj\<rparr>"
  "(if g then ig_EditPinRequest_set_operation_id v4 obj else obj) =
     obj\<lparr>EditPinRequest_operation_id := pick g v4 (EditPinRequest_operation_id obj),
       EditPinRequest_has_operation_id := g \<or> EditPinRequest_has_operation_id obj\<rparr>"
  by (simp_all add: ig_EditPinRequest_setters pick_def)

lemma ig_EditPinRequest_store:
  assumes ok: "ig_EditPinRequest_ok obj"
  shows "store_fields ig_EditPinRequest_cases (ig_EditPinRequest_fields obj) ig_EditPinRequest_init
    = Some obj"
proof -
  have h: "str_ok (EditPinRequest_has_password obj) (EditPinRequest_password obj)
    (EditPinRequest_password_size obj)"
    "str_ok (EditPinRequest_has_old_pin obj) (EditPinRequest_old_pin obj) (EditPinRequest_old_pin_size obj)"
    "str_ok (EditPinRequest_has_new_pin obj) (EditPinRequest_new_pin obj) (EditPinRequest_new_pin_size obj)"
    "num_ok (EditPinRequest_has_start_date obj) (EditPinRequest_start_date obj)"
    "num_ok (EditPinRequest_has_end_date obj) (EditPinRequest_end_date obj)"
    "num_ok (EditPinRequest_has_pin_type obj) (EditPinRequest_pin_type obj)"
    "num_ok (EditPinRequest_has_operation_id obj) (EditPinRequest_operation_id obj)"
    and valid: "ig_EditPinRequest_is_valid obj"
    using ok by (simp_all add: ig_EditPinRequest_ok_def)
  show ?thesis
    using valid
    by (simp add: ig_EditPinRequest_fields_def ig_EditPinRequest_cases_def
      ig_EditPinRequest_init_def codec_simps
        ig_EditPinRequest_set_if ig_EditPinRequest_setters split del: if_split)
       (simp add: ig_EditPinRequest_is_valid_def
         str_ok_store [OF h(1)]
         str_ok_store [OF h(2)]
         str_ok_store [OF h(3)]
         num_ok_store [OF h(4)]
         num_ok_store [OF h(5)]
         num_ok_store [OF h(6)]
         num_ok_store [OF h(7)])
qed

lemma ig_EditPinRequest_bound:
  assumes "ig_EditPinRequest_ok obj"
  shows "2 + length (number_bytes 45 MtUnsigned) + fields_bound (ig_EditPinRequest_fields obj)
    \<le> unat (ig_EditPinRequest_get_max_payload_in_bytes obj)"
proof -
  have sizes: "EditPinRequest_password_size obj < 2 ^ 24" "EditPinRequest_old_pin_size obj < 2 ^
    24" "EditPinRequest_new_pin_size obj < 2 ^ 24"
    using assms by (auto simp: ig_EditPinRequest_ok_def dest!: str_ok_bound)
  show ?thesis
    using sizes number_bytes_size [of "EditPinRequest_password_size obj" "0x40"]
      number_bytes_size [of "EditPinRequest_old_pin_size obj" "0x40"]
      number_bytes_size [of "EditPinRequest_new_pin_size obj" "0x40"]
      number_bytes_u32 [of "EditPinRequest_start_date obj" 0]
      number_bytes_u32 [of "EditPinRequest_end_date obj" 0]
      number_bytes_u8 [of "EditPinRequest_pin_type obj" 0]
      number_bytes_u32 [of "EditPinRequest_operation_id obj" 0]
    by (simp add: ig_EditPinRequest_fields_def ig_EditPinRequest_get_max_payload_in_bytes_def
      number_bytes_literal
        unat_of_nat_small del: of_nat_add)
qed

interpretation EditPinRequest_codec: ig_message ig_EditPinRequest_encode ig_EditPinRequest_decode
  ig_EditPinRequest_get_max_payload_in_bytes ig_EditPinRequest_is_valid ig_EditPinRequest_init
    ig_EditPinRequest_ok 45
  ig_EditPinRequest_fields_size ig_EditPinRequest_fields ig_EditPinRequest_cases
  by (unfold_locales;
      (rule ig_EditPinRequest_encode_def ig_EditPinRequest_decode_def | erule
        ig_EditPinRequest_store ig_EditPinRequest_bound |
       auto simp: ig_EditPinRequest_cases_def ig_EditPinRequest_fields_def
         ig_EditPinRequest_fields_size_def ig_EditPinRequest_ok_def
         simp del: arg_block_ok.simps(1,2) intro: str_ok_block))

subsection \<open>EditPinResponse\<close>

record IgEditPinResponse =
  EditPinResponse_has_result :: bool
  EditPinResponse_result :: u8
  EditPinResponse_has_operation_id :: bool
  EditPinResponse_operation_id :: u32

definition ig_EditPinResponse_init :: IgEditPinResponse where
  "ig_EditPinResponse_init =
     \<lparr>EditPinResponse_has_result = False,
      EditPinResponse_result = 0,
      EditPinResponse_has_operation_id = False,
      EditPinResponse_operation_id = 0\<rparr>"

definition ig_EditPinResponse_set_result :: "u8 \<Rightarrow> IgEditPinResponse \<Rightarrow>
  IgEditPinResponse" where
  "ig_EditPinResponse_set_result v obj = obj\<lparr>EditPinResponse_result := v,
    EditPinResponse_has_result := True\<rparr>"

definition ig_EditPinResponse_set_operation_id :: "u32 \<Rightarrow> IgEditPinResponse
  \<Rightarrow> IgEditPinResponse" where
  "ig_EditPinResponse_set_operation_id v obj = obj\<lparr>EditPinResponse_operation_id := v,
    EditPinResponse_has_operation_id := True\<rparr>"

definition ig_EditPinResponse_deinit :: "IgEditPinResponse \<Rightarrow> IgEditPinResponse" where
  "ig_EditPinResponse_deinit obj = obj"

definition ig_EditPinResponse_is_valid :: "IgEditPinResponse \<Rightarrow> bool" where
  "ig_EditPinResponse_is_valid obj \<longleftrightarrow> EditPinResponse_has_result obj"

definition ig_EditPinResponse_get_max_payload_in_bytes :: "IgEditPinResponse \<Rightarrow> u32" where
  "ig_EditPinResponse_get_max_payload_in_bytes obj = 22"

definition ig_EditPinResponse_fields_size :: "IgEditPinResponse \<Rightarrow> u64" where
  "ig_EditPinResponse_fields_size obj = 1 + 1 + of_bool (EditPinResponse_has_operation_id obj)"

definition ig_EditPinResponse_fields :: "IgEditPinResponse \<Rightarrow> enc_field list" where
  "ig_EditPinResponse_fields obj =
    [(True, 11, AUint (ucast (EditPinResponse_result obj))),
     (EditPinResponse_has_operation_id obj, 100, AUint (ucast (EditPinResponse_operation_id obj)))]"

definition ig_EditPinResponse_encode ::
  "IgEditPinResponse \<Rightarrow> bytes \<Rightarrow> u32 \<Rightarrow> (nat \<times> bytes
    \<times> nat option) res" where
  "ig_EditPinResponse_encode obj retval len =
     (if \<not> ig_EditPinResponse_is_valid obj then Ok (IgSerializerErrorInvalidPayload, retval, None)
      else ig_encode (ig_EditPinResponse_fields_size obj) 46 (ig_EditPinResponse_fields obj) retval len)"

definition ig_EditPinResponse_cases :: "(i64 \<times> IgEditPinResponse case_body) list" where
  "ig_EditPinResponse_cases =
    [(0, CMsgId 46),
     (11, CUint (\<lambda>v. ig_EditPinResponse_set_result (ucast v))),
     (100, CUint (\<lambda>v. ig_EditPinResponse_set_operation_id (ucast v)))]"

definition ig_EditPinResponse_decode :: "bytes \<Rightarrow> IgEditPinResponse \<Rightarrow> nat
  \<Rightarrow> (nat \<times> IgEditPinResponse) res" where
  "ig_EditPinResponse_decode buf obj index = ig_decode ig_EditPinResponse_cases buf obj index"

definition ig_EditPinResponse_ok :: "IgEditPinResponse \<Rightarrow> bool" where
  "ig_EditPinResponse_ok obj \<longleftrightarrow> ig_EditPinResponse_is_valid obj \<and>
     num_ok (EditPinResponse_has_result obj) (EditPinResponse_result obj) \<and>
     num_ok (EditPinResponse_has_operation_id obj) (EditPinResponse_operation_id obj)"

lemmas ig_EditPinResponse_setters =
  ig_EditPinResponse_set_operation_id_def
  ig_EditPinResponse_set_result_def

text \<open>A guarded setter, member by member.\<close>
lemma ig_EditPinResponse_set_if:
  "(if g then ig_EditPinResponse_set_operation_id v0 obj else obj) =
     obj\<lparr>EditPinResponse_operation_id := pick g v0 (EditPinResponse_operation_id obj),
       EditPinResponse_has_operation_id := g \<or> EditPinResponse_has_operation_id obj\<rparr>"
  by (simp_all add: ig_EditPinResponse_setters pick_def)

lemma ig_EditPinResponse_store:
  assumes ok: "ig_EditPinResponse_ok obj"
  shows "store_fields ig_EditPinResponse_cases (ig_EditPinResponse_fields obj)
    ig_EditPinResponse_init = Some obj"
proof -
  have h: "num_ok (EditPinResponse_has_result obj) (EditPinResponse_result obj)"
    "num_ok (EditPinResponse_has_operation_id obj) (EditPinResponse_operation_id obj)"
    and valid: "ig_EditPinResponse_is_valid obj"
    using ok by (simp_all add: ig_EditPinResponse_ok_def)
  show ?thesis
    using valid
    by (simp add: ig_EditPinResponse_fields_def ig_EditPinResponse_cases_def
      ig_EditPinResponse_init_def codec_simps
        ig_EditPinResponse_set_if ig_EditPinResponse_setters split del: if_split)
       (simp add: ig_EditPinResponse_is_valid_def
         num_ok_store [OF h(1)]
         num_ok_store [OF h(2)])
qed

lemma ig_EditPinResponse_bound:
  assumes "ig_EditPinResponse_ok obj"
  shows "2 + length (number_bytes 46 MtUnsigned) + fields_bound (ig_EditPinResponse_fields obj)
    \<le> unat (ig_EditPinResponse_get_max_payload_in_bytes obj)"
  using number_bytes_u8 [of "EditPinResponse_result obj" 0]
    number_bytes_u32 [of "EditPinResponse_operation_id obj" 0]
  by (simp add: ig_EditPinResponse_fields_def ig_EditPinResponse_get_max_payload_in_bytes_def
    number_bytes_literal)

interpretation EditPinResponse_codec: ig_message ig_EditPinResponse_encode ig_EditPinResponse_decode
  ig_EditPinResponse_get_max_payload_in_bytes ig_EditPinResponse_is_valid ig_EditPinResponse_init
    ig_EditPinResponse_ok 46
  ig_EditPinResponse_fields_size ig_EditPinResponse_fields ig_EditPinResponse_cases
  by (unfold_locales;
      (rule ig_EditPinResponse_encode_def ig_EditPinResponse_decode_def | erule
        ig_EditPinResponse_store ig_EditPinResponse_bound |
       auto simp: ig_EditPinResponse_cases_def ig_EditPinResponse_fields_def
         ig_EditPinResponse_fields_size_def ig_EditPinResponse_ok_def
         simp del: arg_block_ok.simps(1,2) intro: str_ok_block))

subsection \<open>SetMasterPinRequest\<close>

record IgSetMasterPinRequest =
  SetMasterPinRequest_has_password :: bool
  SetMasterPinRequest_password :: block_ptr
  SetMasterPinRequest_password_size :: nat
  SetMasterPinRequest_has_pin :: bool
  SetMasterPinRequest_pin :: block_ptr
  SetMasterPinRequest_pin_size :: nat
  SetMasterPinRequest_has_operation_id :: bool
  SetMasterPinRequest_operation_id :: u32

definition ig_SetMasterPinRequest_init :: IgSetMasterPinRequest where
  "ig_SetMasterPinRequest_init =
     \<lparr>SetMasterPinRequest_has_password = False,
      SetMasterPinRequest_password = None,
      SetMasterPinRequest_password_size = 0,
      SetMasterPinRequest_has_pin = False,
      SetMasterPinRequest_pin = None,
      SetMasterPinRequest_pin_size = 0,
      SetMasterPinRequest_has_operation_id = False,
      SetMasterPinRequest_operation_id = 0\<rparr>"

definition ig_SetMasterPinRequest_get_password_size :: "IgSetMasterPinRequest \<Rightarrow> nat" where
  "ig_SetMasterPinRequest_get_password_size obj = SetMasterPinRequest_password_size obj"

definition ig_SetMasterPinRequest_set_password_nocopy ::
  "bool \<Rightarrow> block_ptr \<Rightarrow> nat \<Rightarrow> IgSetMasterPinRequest \<Rightarrow>
    IgSetMasterPinRequest" where
  "ig_SetMasterPinRequest_set_password_nocopy same_ptr p n obj =
     (if same_ptr then obj
      else let obj = (if SetMasterPinRequest_has_password obj then
        obj\<lparr>SetMasterPinRequest_password := None\<rparr> else obj)
        in obj\<lparr>SetMasterPinRequest_password := p, SetMasterPinRequest_password_size := n,
          SetMasterPinRequest_has_password := n > 0\<rparr>)"

definition ig_SetMasterPinRequest_set_password ::
  "bool \<Rightarrow> block_ptr \<Rightarrow> nat \<Rightarrow> IgSetMasterPinRequest \<Rightarrow>
    IgSetMasterPinRequest res" where
  "ig_SetMasterPinRequest_set_password same_ptr p n obj =
     (if same_ptr then Ok obj
      else let obj = (if SetMasterPinRequest_has_password obj then
        obj\<lparr>SetMasterPinRequest_password := None\<rparr> else obj)
        in bindR (block_read p n) (\<lambda>d.
          Ok (obj\<lparr>SetMasterPinRequest_password := Some d, SetMasterPinRequest_password_size
            := n, SetMasterPinRequest_has_password := n > 0\<rparr>)))"

definition ig_SetMasterPinRequest_get_pin_size :: "IgSetMasterPinRequest \<Rightarrow> nat" where
  "ig_SetMasterPinRequest_get_pin_size obj = SetMasterPinRequest_pin_size obj"

definition ig_SetMasterPinRequest_set_pin_nocopy ::
  "bool \<Rightarrow> block_ptr \<Rightarrow> nat \<Rightarrow> IgSetMasterPinRequest \<Rightarrow>
    IgSetMasterPinRequest" where
  "ig_SetMasterPinRequest_set_pin_nocopy same_ptr p n obj =
     (if same_ptr then obj
      else let obj = (if SetMasterPinRequest_has_pin obj then obj\<lparr>SetMasterPinRequest_pin :=
        None\<rparr> else obj)
        in obj\<lparr>SetMasterPinRequest_pin := p, SetMasterPinRequest_pin_size := n,
          SetMasterPinRequest_has_pin := n > 0\<rparr>)"

definition ig_SetMasterPinRequest_set_pin ::
  "bool \<Rightarrow> block_ptr \<Rightarrow> nat \<Rightarrow> IgSetMasterPinRequest \<Rightarrow>
    IgSetMasterPinRequest res" where
  "ig_SetMasterPinRequest_set_pin same_ptr p n obj =
     (if same_ptr then Ok obj
      else let obj = (if SetMasterPinRequest_has_pin obj then obj\<lparr>SetMasterPinRequest_pin :=
        None\<rparr> else obj)
        in bindR (block_read p n) (\<lambda>d.
          Ok (obj\<lparr>SetMasterPinRequest_pin := Some d, SetMasterPinRequest_pin_size := n,
            SetMasterPinRequest_has_pin := n > 0\<rparr>)))"

definition ig_SetMasterPinRequest_set_operation_id :: "u32 \<Rightarrow> IgSetMasterPinRequest
  \<Rightarrow> IgSetMasterPinRequest" where
  "ig_SetMasterPinRequest_set_operation_id v obj = obj\<lparr>SetMasterPinRequest_operation_id :=
    v, SetMasterPinRequest_has_operation_id := True\<rparr>"

definition ig_SetMasterPinRequest_deinit :: "IgSetMasterPinRequest \<Rightarrow> IgSetMasterPinRequest" where
  "ig_SetMasterPinRequest_deinit obj = (let
     obj = (if SetMasterPinRequest_has_password obj then obj\<lparr>SetMasterPinRequest_password :=
       None\<rparr> else obj);
     obj = (if SetMasterPinRequest_has_pin obj then obj\<lparr>SetMasterPinRequest_pin :=
       None\<rparr> else obj)
   in obj)"

definition ig_SetMasterPinRequest_is_valid :: "IgSetMasterPinRequest \<Rightarrow> bool" where
  "ig_SetMasterPinRequest_is_valid obj \<longleftrightarrow> SetMasterPinRequest_has_password obj
    \<and> SetMasterPinRequest_has_pin obj"

definition ig_SetMasterPinRequest_get_max_payload_in_bytes :: "IgSetMasterPinRequest \<Rightarrow> u32" where
  "ig_SetMasterPinRequest_get_max_payload_in_bytes obj = word_of_nat (33 +
    SetMasterPinRequest_password_size obj + SetMasterPinRequest_pin_size obj)"

definition ig_SetMasterPinRequest_fields_size :: "IgSetMasterPinRequest \<Rightarrow> u64" where
  "ig_SetMasterPinRequest_fields_size obj = 1 + 2 + of_bool (SetMasterPinRequest_has_operation_id obj)"

definition ig_SetMasterPinRequest_fields :: "IgSetMasterPinRequest \<Rightarrow> enc_field list" where
  "ig_SetMasterPinRequest_fields obj =
    [(True, 11, ABytes (SetMasterPinRequest_password obj) (SetMasterPinRequest_password_size obj)),
     (True, 12, ABytes (SetMasterPinRequest_pin obj) (SetMasterPinRequest_pin_size obj)),
     (SetMasterPinRequest_has_operation_id obj, 100, AUint (ucast (SetMasterPinRequest_operation_id obj)))]"

definition ig_SetMasterPinRequest_encode ::
  "IgSetMasterPinRequest \<Rightarrow> bytes \<Rightarrow> u32 \<Rightarrow> (nat \<times> bytes
    \<times> nat option) res" where
  "ig_SetMasterPinRequest_encode obj retval len =
     (if \<not> ig_SetMasterPinRequest_is_valid obj then Ok (IgSerializerErrorInvalidPayload, retval, None)
      else ig_encode (ig_SetMasterPinRequest_fields_size obj) 49 (ig_SetMasterPinRequest_fields
        obj) retval len)"

definition ig_SetMasterPinRequest_cases :: "(i64 \<times> IgSetMasterPinRequest case_body) list" where
  "ig_SetMasterPinRequest_cases =
    [(0, CMsgId 49),
     (11, CBytes (ig_SetMasterPinRequest_set_password_nocopy False)),
     (12, CBytes (ig_SetMasterPinRequest_set_pin_nocopy False)),
     (100, CUint (\<lambda>v. ig_SetMasterPinRequest_set_operation_id (ucast v)))]"

definition ig_SetMasterPinRequest_decode :: "bytes \<Rightarrow> IgSetMasterPinRequest
  \<Rightarrow> nat \<Rightarrow> (nat \<times> IgSetMasterPinRequest) res" where
  "ig_SetMasterPinRequest_decode buf obj index = ig_decode ig_SetMasterPinRequest_cases buf obj index"

definition ig_SetMasterPinRequest_ok :: "IgSetMasterPinRequest \<Rightarrow> bool" where
  "ig_SetMasterPinRequest_ok obj \<longleftrightarrow> ig_SetMasterPinRequest_is_valid obj \<and>
     str_ok (SetMasterPinRequest_has_password obj) (SetMasterPinRequest_password obj)
       (SetMasterPinRequest_password_size obj) \<and>
     str_ok (SetMasterPinRequest_has_pin obj) (SetMasterPinRequest_pin obj)
       (SetMasterPinRequest_pin_size obj) \<and>
     num_ok (SetMasterPinRequest_has_operation_id obj) (SetMasterPinRequest_operation_id obj)"

lemmas ig_SetMasterPinRequest_setters =
  ig_SetMasterPinRequest_set_operation_id_def
  ig_SetMasterPinRequest_set_password_nocopy_def
  ig_SetMasterPinRequest_set_pin_nocopy_def

text \<open>A guarded setter, member by member.\<close>
lemma ig_SetMasterPinRequest_set_if:
  "(if g then ig_SetMasterPinRequest_set_operation_id v0 obj else obj) =
     obj\<lparr>SetMasterPinRequest_operation_id := pick g v0 (SetMasterPinRequest_operation_id obj),
       SetMasterPinRequest_has_operation_id := g \<or> SetMasterPinRequest_has_operation_id obj\<rparr>"
  by (simp_all add: ig_SetMasterPinRequest_setters pick_def)

lemma ig_SetMasterPinRequest_store:
  assumes ok: "ig_SetMasterPinRequest_ok obj"
  shows "store_fields ig_SetMasterPinRequest_cases (ig_SetMasterPinRequest_fields obj)
    ig_SetMasterPinRequest_init = Some obj"
proof -
  have h: "str_ok (SetMasterPinRequest_has_password obj) (SetMasterPinRequest_password obj)
    (SetMasterPinRequest_password_size obj)"
    "str_ok (SetMasterPinRequest_has_pin obj) (SetMasterPinRequest_pin obj)
      (SetMasterPinRequest_pin_size obj)"
    "num_ok (SetMasterPinRequest_has_operation_id obj) (SetMasterPinRequest_operation_id obj)"
    and valid: "ig_SetMasterPinRequest_is_valid obj"
    using ok by (simp_all add: ig_SetMasterPinRequest_ok_def)
  show ?thesis
    using valid
    by (simp add: ig_SetMasterPinRequest_fields_def ig_SetMasterPinRequest_cases_def
      ig_SetMasterPinRequest_init_def codec_simps
        ig_SetMasterPinRequest_set_if ig_SetMasterPinRequest_setters split del: if_split)
       (simp add: ig_SetMasterPinRequest_is_valid_def
         str_ok_store [OF h(1)]
         str_ok_store [OF h(2)]
         num_ok_store [OF h(3)])
qed

lemma ig_SetMasterPinRequest_bound:
  assumes "ig_SetMasterPinRequest_ok obj"
  shows "2 + length (number_bytes 49 MtUnsigned) + fields_bound (ig_SetMasterPinRequest_fields obj)
    \<le> unat (ig_SetMasterPinRequest_get_max_payload_in_bytes obj)"
proof -
  have sizes: "SetMasterPinRequest_password_size obj < 2 ^ 24" "SetMasterPinRequest_pin_size obj < 2 ^ 24"
    using assms by (auto simp: ig_SetMasterPinRequest_ok_def dest!: str_ok_bound)
  show ?thesis
    using sizes number_bytes_size [of "SetMasterPinRequest_password_size obj" "0x40"]
      number_bytes_size [of "SetMasterPinRequest_pin_size obj" "0x40"]
      number_bytes_u32 [of "SetMasterPinRequest_operation_id obj" 0]
    by (simp add: ig_SetMasterPinRequest_fields_def
      ig_SetMasterPinRequest_get_max_payload_in_bytes_def number_bytes_literal
        unat_of_nat_small del: of_nat_add)
qed

interpretation SetMasterPinRequest_codec: ig_message ig_SetMasterPinRequest_encode
  ig_SetMasterPinRequest_decode
  ig_SetMasterPinRequest_get_max_payload_in_bytes ig_SetMasterPinRequest_is_valid
    ig_SetMasterPinRequest_init ig_SetMasterPinRequest_ok 49
  ig_SetMasterPinRequest_fields_size ig_SetMasterPinRequest_fields ig_SetMasterPinRequest_cases
  by (unfold_locales;
      (rule ig_SetMasterPinRequest_encode_def ig_SetMasterPinRequest_decode_def | erule
        ig_SetMasterPinRequest_store ig_SetMasterPinRequest_bound |
       auto simp: ig_SetMasterPinRequest_cases_def ig_SetMasterPinRequest_fields_def
         ig_SetMasterPinRequest_fields_size_def ig_SetMasterPinRequest_ok_def
         simp del: arg_block_ok.simps(1,2) intro: str_ok_block))

subsection \<open>SetMasterPinResponse\<close>

record IgSetMasterPinResponse =
  SetMasterPinResponse_has_result :: bool
  SetMasterPinResponse_result :: u8
  SetMasterPinResponse_has_operation_id :: bool
  SetMasterPinResponse_operation_id :: u32

definition ig_SetMasterPinResponse_init :: IgSetMasterPinResponse where
  "ig_SetMasterPinResponse_init =
     \<lparr>SetMasterPinResponse_has_result = False,
      SetMasterPinResponse_result = 0,
      SetMasterPinResponse_has_operation_id = False,
      SetMasterPinResponse_operation_id = 0\<rparr>"

definition ig_SetMasterPinResponse_set_result :: "u8 \<Rightarrow> IgSetMasterPinResponse
  \<Rightarrow> IgSetMasterPinResponse" where
  "ig_SetMasterPinResponse_set_result v obj = obj\<lparr>SetMasterPinResponse_result := v,
    SetMasterPinResponse_has_result := True\<rparr>"

definition ig_SetMasterPinResponse_set_operation_id :: "u32 \<Rightarrow> IgSetMasterPinResponse
  \<Rightarrow> IgSetMasterPinResponse" where
  "ig_SetMasterPinResponse_set_operation_id v obj = obj\<lparr>SetMasterPinResponse_operation_id :=
    v, SetMasterPinResponse_has_operation_id := True\<rparr>"

definition ig_SetMasterPinResponse_deinit :: "IgSetMasterPinResponse \<Rightarrow>
  IgSetMasterPinResponse" where
  "ig_SetMasterPinResponse_deinit obj = obj"

definition ig_SetMasterPinResponse_is_valid :: "IgSetMasterPinResponse \<Rightarrow> bool" where
  "ig_SetMasterPinResponse_is_valid obj \<longleftrightarrow> SetMasterPinResponse_has_result obj"

definition ig_SetMasterPinResponse_get_max_payload_in_bytes :: "IgSetMasterPinResponse
  \<Rightarrow> u32" where
  "ig_SetMasterPinResponse_get_max_payload_in_bytes obj = 22"

definition ig_SetMasterPinResponse_fields_size :: "IgSetMasterPinResponse \<Rightarrow> u64" where
  "ig_SetMasterPinResponse_fields_size obj = 1 + 1 + of_bool (SetMasterPinResponse_has_operation_id obj)"

definition ig_SetMasterPinResponse_fields :: "IgSetMasterPinResponse \<Rightarrow> enc_field list" where
  "ig_SetMasterPinResponse_fields obj =
    [(True, 11, AUint (ucast (SetMasterPinResponse_result obj))),
     (SetMasterPinResponse_has_operation_id obj, 100, AUint (ucast (SetMasterPinResponse_operation_id obj)))]"

definition ig_SetMasterPinResponse_encode ::
  "IgSetMasterPinResponse \<Rightarrow> bytes \<Rightarrow> u32 \<Rightarrow> (nat \<times> bytes
    \<times> nat option) res" where
  "ig_SetMasterPinResponse_encode obj retval len =
     (if \<not> ig_SetMasterPinResponse_is_valid obj then Ok (IgSerializerErrorInvalidPayload, retval, None)
      else ig_encode (ig_SetMasterPinResponse_fields_size obj) 50 (ig_SetMasterPinResponse_fields
        obj) retval len)"

definition ig_SetMasterPinResponse_cases :: "(i64 \<times> IgSetMasterPinResponse case_body) list" where
  "ig_SetMasterPinResponse_cases =
    [(0, CMsgId 50),
     (11, CUint (\<lambda>v. ig_SetMasterPinResponse_set_result (ucast v))),
     (100, CUint (\<lambda>v. ig_SetMasterPinResponse_set_operation_id (ucast v)))]"

definition ig_SetMasterPinResponse_decode :: "bytes \<Rightarrow> IgSetMasterPinResponse
  \<Rightarrow> nat \<Rightarrow> (nat \<times> IgSetMasterPinResponse) res" where
  "ig_SetMasterPinResponse_decode buf obj index = ig_decode ig_SetMasterPinResponse_cases buf obj index"

definition ig_SetMasterPinResponse_ok :: "IgSetMasterPinResponse \<Rightarrow> bool" where
  "ig_SetMasterPinResponse_ok obj \<longleftrightarrow> ig_SetMasterPinResponse_is_valid obj \<and>
     num_ok (SetMasterPinResponse_has_result obj) (SetMasterPinResponse_result obj) \<and>
     num_ok (SetMasterPinResponse_has_operation_id obj) (SetMasterPinResponse_operation_id obj)"

lemmas ig_SetMasterPinResponse_setters =
  ig_SetMasterPinResponse_set_operation_id_def
  ig_SetMasterPinResponse_set_result_def

text \<open>A guarded setter, member by member.\<close>
lemma ig_SetMasterPinResponse_set_if:
  "(if g then ig_SetMasterPinResponse_set_operation_id v0 obj else obj) =
     obj\<lparr>SetMasterPinResponse_operation_id := pick g v0 (SetMasterPinResponse_operation_id obj),
       SetMasterPinResponse_has_operation_id := g \<or> SetMasterPinResponse_has_operation_id obj\<rparr>"
  by (simp_all add: ig_SetMasterPinResponse_setters pick_def)

lemma ig_SetMasterPinResponse_store:
  assumes ok: "ig_SetMasterPinResponse_ok obj"
  shows "store_fields ig_SetMasterPinResponse_cases (ig_SetMasterPinResponse_fields obj)
    ig_SetMasterPinResponse_init = Some obj"
proof -
  have h: "num_ok (SetMasterPinResponse_has_result obj) (SetMasterPinResponse_result obj)"
    "num_ok (SetMasterPinResponse_has_operation_id obj) (SetMasterPinResponse_operation_id obj)"
    and valid: "ig_SetMasterPinResponse_is_valid obj"
    using ok by (simp_all add: ig_SetMasterPinResponse_ok_def)
  show ?thesis
    using valid
    by (simp add: ig_SetMasterPinResponse_fields_def ig_SetMasterPinResponse_cases_def
      ig_SetMasterPinResponse_init_def codec_simps
        ig_SetMasterPinResponse_set_if ig_SetMasterPinResponse_setters split del: if_split)
       (simp add: ig_SetMasterPinResponse_is_valid_def
         num_ok_store [OF h(1)]
         num_ok_store [OF h(2)])
qed

lemma ig_SetMasterPinResponse_bound:
  assumes "ig_SetMasterPinResponse_ok obj"
  shows "2 + length (number_bytes 50 MtUnsigned) + fields_bound (ig_SetMasterPinResponse_fields obj)
    \<le> unat (ig_SetMasterPinResponse_get_max_payload_in_bytes obj)"
  using number_bytes_u8 [of "SetMasterPinResponse_result obj" 0]
    number_bytes_u32 [of "SetMasterPinResponse_operation_id obj" 0]
  by (simp add: ig_SetMasterPinResponse_fields_def
    ig_SetMasterPinResponse_get_max_payload_in_bytes_def number_bytes_literal)

interpretation SetMasterPinResponse_codec: ig_message ig_SetMasterPinResponse_encode
  ig_SetMasterPinResponse_decode
  ig_SetMasterPinResponse_get_max_payload_in_bytes ig_SetMasterPinResponse_is_valid
    ig_SetMasterPinResponse_init ig_SetMasterPinResponse_ok 50
  ig_SetMasterPinResponse_fields_size ig_SetMasterPinResponse_fields ig_SetMasterPinResponse_cases
  by (unfold_locales;
      (rule ig_SetMasterPinResponse_encode_def ig_SetMasterPinResponse_decode_def | erule
        ig_SetMasterPinResponse_store ig_SetMasterPinResponse_bound |
       auto simp: ig_SetMasterPinResponse_cases_def ig_SetMasterPinResponse_fields_def
         ig_SetMasterPinResponse_fields_size_def ig_SetMasterPinResponse_ok_def
         simp del: arg_block_ok.simps(1,2) intro: str_ok_block))

subsection \<open>SetMaxIncorrectPinRequest\<close>

record IgSetMaxIncorrectPinRequest =
  SetMaxIncorrectPinRequest_has_password :: bool
  SetMaxIncorrectPinRequest_password :: block_ptr
  SetMaxIncorrectPinRequest_password_size :: nat
  SetMaxIncorrectPinRequest_has_max_incorrect_pins :: bool
  SetMaxIncorrectPinRequest_max_incorrect_pins :: u8
  SetMaxIncorrectPinRequest_has_incorrect_pin_lockout_on :: bool
  SetMaxIncorrectPinRequest_incorrect_pin_lockout_on :: bool
  SetMaxIncorrectPinRequest_has_operation_id :: bool
  SetMaxIncorrectPinRequest_operation_id :: u32

definition ig_SetMaxIncorrectPinRequest_init :: IgSetMaxIncorrectPinRequest where
  "ig_SetMaxIncorrectPinRequest_init =
     \<lparr>SetMaxIncorrectPinRequest_has_password = False,
      SetMaxIncorrectPinRequest_password = None,
      SetMaxIncorrectPinRequest_password_size = 0,
      SetMaxIncorrectPinRequest_has_max_incorrect_pins = False,
      SetMaxIncorrectPinRequest_max_incorrect_pins = 0,
      SetMaxIncorrectPinRequest_has_incorrect_pin_lockout_on = False,
      SetMaxIncorrectPinRequest_incorrect_pin_lockout_on = False,
      SetMaxIncorrectPinRequest_has_operation_id = False,
      SetMaxIncorrectPinRequest_operation_id = 0\<rparr>"

definition ig_SetMaxIncorrectPinRequest_get_password_size :: "IgSetMaxIncorrectPinRequest
  \<Rightarrow> nat" where
  "ig_SetMaxIncorrectPinRequest_get_password_size obj = SetMaxIncorrectPinRequest_password_size obj"

definition ig_SetMaxIncorrectPinRequest_set_password_nocopy ::
  "bool \<Rightarrow> block_ptr \<Rightarrow> nat \<Rightarrow> IgSetMaxIncorrectPinRequest
    \<Rightarrow> IgSetMaxIncorrectPinRequest" where
  "ig_SetMaxIncorrectPinRequest_set_password_nocopy same_ptr p n obj =
     (if same_ptr then obj
      else let obj = (if SetMaxIncorrectPinRequest_has_password obj then
        obj\<lparr>SetMaxIncorrectPinRequest_password := None\<rparr> else obj)
        in obj\<lparr>SetMaxIncorrectPinRequest_password := p,
          SetMaxIncorrectPinRequest_password_size := n, SetMaxIncorrectPinRequest_has_password := n
            > 0\<rparr>)"

definition ig_SetMaxIncorrectPinRequest_set_password ::
  "bool \<Rightarrow> block_ptr \<Rightarrow> nat \<Rightarrow> IgSetMaxIncorrectPinRequest
    \<Rightarrow> IgSetMaxIncorrectPinRequest res" where
  "ig_SetMaxIncorrectPinRequest_set_password same_ptr p n obj =
     (if same_ptr then Ok obj
      else let obj = (if SetMaxIncorrectPinRequest_has_password obj then
        obj\<lparr>SetMaxIncorrectPinRequest_password := None\<rparr> else obj)
        in bindR (block_read p n) (\<lambda>d.
          Ok (obj\<lparr>SetMaxIncorrectPinRequest_password := Some d,
            SetMaxIncorrectPinRequest_password_size := n, SetMaxIncorrectPinRequest_has_password :=
              n > 0\<rparr>)))"

definition ig_SetMaxIncorrectPinRequest_set_max_incorrect_pins :: "u8 \<Rightarrow>
  IgSetMaxIncorrectPinRequest \<Rightarrow> IgSetMaxIncorrectPinRequest" where
  "ig_SetMaxIncorrectPinRequest_set_max_incorrect_pins v obj =
    obj\<lparr>SetMaxIncorrectPinRequest_max_incorrect_pins := v,
      SetMaxIncorrectPinRequest_has_max_incorrect_pins := True\<rparr>"

definition ig_SetMaxIncorrectPinRequest_set_incorrect_pin_lockout_on :: "bool \<Rightarrow>
  IgSetMaxIncorrectPinRequest \<Rightarrow> IgSetMaxIncorrectPinRequest" where
  "ig_SetMaxIncorrectPinRequest_set_incorrect_pin_lockout_on v obj =
    obj\<lparr>SetMaxIncorrectPinRequest_incorrect_pin_lockout_on := v,
      SetMaxIncorrectPinRequest_has_incorrect_pin_lockout_on := True\<rparr>"

definition ig_SetMaxIncorrectPinRequest_set_operation_id :: "u32 \<Rightarrow>
  IgSetMaxIncorrectPinRequest \<Rightarrow> IgSetMaxIncorrectPinRequest" where
  "ig_SetMaxIncorrectPinRequest_set_operation_id v obj =
    obj\<lparr>SetMaxIncorrectPinRequest_operation_id := v,
      SetMaxIncorrectPinRequest_has_operation_id := True\<rparr>"

definition ig_SetMaxIncorrectPinRequest_deinit :: "IgSetMaxIncorrectPinRequest \<Rightarrow>
  IgSetMaxIncorrectPinRequest" where
  "ig_SetMaxIncorrectPinRequest_deinit obj = (let
     obj = (if SetMaxIncorrectPinRequest_has_password obj then
       obj\<lparr>SetMaxIncorrectPinRequest_password := None\<rparr> else obj)
   in obj)"

definition ig_SetMaxIncorrectPinRequest_is_valid :: "IgSetMaxIncorrectPinRequest \<Rightarrow> bool" where
  "ig_SetMaxIncorrectPinRequest_is_valid obj \<longleftrightarrow> SetMaxIncorrectPinRequest_has_password obj"

definition ig_SetMaxIncorrectPinRequest_get_max_payload_in_bytes :: "IgSetMaxIncorrectPinRequest
  \<Rightarrow> u32" where
  "ig_SetMaxIncorrectPinRequest_get_max_payload_in_bytes obj = word_of_nat (31 +
    SetMaxIncorrectPinRequest_password_size obj)"

definition ig_SetMaxIncorrectPinRequest_fields_size :: "IgSetMaxIncorrectPinRequest \<Rightarrow> u64" where
  "ig_SetMaxIncorrectPinRequest_fields_size obj = 1 + 1 + of_bool
    (SetMaxIncorrectPinRequest_has_max_incorrect_pins obj) + of_bool
      (SetMaxIncorrectPinRequest_has_incorrect_pin_lockout_on obj) + of_bool
        (SetMaxIncorrectPinRequest_has_operation_id obj)"

definition ig_SetMaxIncorrectPinRequest_fields :: "IgSetMaxIncorrectPinRequest \<Rightarrow>
  enc_field list" where
  "ig_SetMaxIncorrectPinRequest_fields obj =
    [(True, 11, ABytes (SetMaxIncorrectPinRequest_password obj)
      (SetMaxIncorrectPinRequest_password_size obj)),
     (SetMaxIncorrectPinRequest_has_max_incorrect_pins obj, 12, AUint (ucast
       (SetMaxIncorrectPinRequest_max_incorrect_pins obj))),
     (SetMaxIncorrectPinRequest_has_incorrect_pin_lockout_on obj, 13, ABool
       (SetMaxIncorrectPinRequest_incorrect_pin_lockout_on obj)),
     (SetMaxIncorrectPinRequest_has_operation_id obj, 100, AUint (ucast
       (SetMaxIncorrectPinRequest_operation_id obj)))]"

definition ig_SetMaxIncorrectPinRequest_encode ::
  "IgSetMaxIncorrectPinRequest \<Rightarrow> bytes \<Rightarrow> u32 \<Rightarrow> (nat \<times>
    bytes \<times> nat option) res" where
  "ig_SetMaxIncorrectPinRequest_encode obj retval len =
     (if \<not> ig_SetMaxIncorrectPinRequest_is_valid obj then Ok (IgSerializerErrorInvalidPayload,
       retval, None)
      else ig_encode (ig_SetMaxIncorrectPinRequest_fields_size obj) 39
        (ig_SetMaxIncorrectPinRequest_fields obj) retval len)"

definition ig_SetMaxIncorrectPinRequest_cases :: "(i64 \<times> IgSetMaxIncorrectPinRequest
  case_body) list" where
  "ig_SetMaxIncorrectPinRequest_cases =
    [(0, CMsgId 39),
     (11, CBytes (ig_SetMaxIncorrectPinRequest_set_password_nocopy False)),
     (12, CUint (\<lambda>v. ig_SetMaxIncorrectPinRequest_set_max_incorrect_pins (ucast v))),
     (13, CBool ig_SetMaxIncorrectPinRequest_set_incorrect_pin_lockout_on),
     (100, CUint (\<lambda>v. ig_SetMaxIncorrectPinRequest_set_operation_id (ucast v)))]"

definition ig_SetMaxIncorrectPinRequest_decode :: "bytes \<Rightarrow> IgSetMaxIncorrectPinRequest
  \<Rightarrow> nat \<Rightarrow> (nat \<times> IgSetMaxIncorrectPinRequest) res" where
  "ig_SetMaxIncorrectPinRequest_decode buf obj index = ig_decode ig_SetMaxIncorrectPinRequest_cases
    buf obj index"

definition ig_SetMaxIncorrectPinRequest_ok :: "IgSetMaxIncorrectPinRequest \<Rightarrow> bool" where
  "ig_SetMaxIncorrectPinRequest_ok obj \<longleftrightarrow> ig_SetMaxIncorrectPinRequest_is_valid obj \<and>
     str_ok (SetMaxIncorrectPinRequest_has_password obj) (SetMaxIncorrectPinRequest_password obj)
       (SetMaxIncorrectPinRequest_password_size obj) \<and>
     num_ok (SetMaxIncorrectPinRequest_has_max_incorrect_pins obj)
       (SetMaxIncorrectPinRequest_max_incorrect_pins obj) \<and>
     flag_ok (SetMaxIncorrectPinRequest_has_incorrect_pin_lockout_on obj)
       (SetMaxIncorrectPinRequest_incorrect_pin_lockout_on obj) \<and>
     num_ok (SetMaxIncorrectPinRequest_has_operation_id obj) (SetMaxIncorrectPinRequest_operation_id obj)"

lemmas ig_SetMaxIncorrectPinRequest_setters =
  ig_SetMaxIncorrectPinRequest_set_incorrect_pin_lockout_on_def
  ig_SetMaxIncorrectPinRequest_set_max_incorrect_pins_def
  ig_SetMaxIncorrectPinRequest_set_operation_id_def
  ig_SetMaxIncorrectPinRequest_set_password_nocopy_def

text \<open>A guarded setter, member by member.\<close>
lemma ig_SetMaxIncorrectPinRequest_set_if:
  "(if g then ig_SetMaxIncorrectPinRequest_set_max_incorrect_pins v0 obj else obj) =
     obj\<lparr>SetMaxIncorrectPinRequest_max_incorrect_pins := pick g v0
       (SetMaxIncorrectPinRequest_max_incorrect_pins obj),
       SetMaxIncorrectPinRequest_has_max_incorrect_pins := g \<or>
         SetMaxIncorrectPinRequest_has_max_incorrect_pins obj\<rparr>"
  "(if g then ig_SetMaxIncorrectPinRequest_set_incorrect_pin_lockout_on b obj else obj) =
     obj\<lparr>SetMaxIncorrectPinRequest_incorrect_pin_lockout_on := pick g b
       (SetMaxIncorrectPinRequest_incorrect_pin_lockout_on obj),
       SetMaxIncorrectPinRequest_has_incorrect_pin_lockout_on := g \<or>
         SetMaxIncorrectPinRequest_has_incorrect_pin_lockout_on obj\<rparr>"
  "(if g then ig_SetMaxIncorrectPinRequest_set_operation_id v2 obj else obj) =
     obj\<lparr>SetMaxIncorrectPinRequest_operation_id := pick g v2
       (SetMaxIncorrectPinRequest_operation_id obj),
       SetMaxIncorrectPinRequest_has_operation_id := g \<or>
         SetMaxIncorrectPinRequest_has_operation_id obj\<rparr>"
  by (simp_all add: ig_SetMaxIncorrectPinRequest_setters pick_def)

lemma ig_SetMaxIncorrectPinRequest_store:
  assumes ok: "ig_SetMaxIncorrectPinRequest_ok obj"
  shows "store_fields ig_SetMaxIncorrectPinRequest_cases (ig_SetMaxIncorrectPinRequest_fields obj)
    ig_SetMaxIncorrectPinRequest_init = Some obj"
proof -
  have h: "str_ok (SetMaxIncorrectPinRequest_has_password obj) (SetMaxIncorrectPinRequest_password
    obj) (SetMaxIncorrectPinRequest_password_size obj)"
    "num_ok (SetMaxIncorrectPinRequest_has_max_incorrect_pins obj)
      (SetMaxIncorrectPinRequest_max_incorrect_pins obj)"
    "flag_ok (SetMaxIncorrectPinRequest_has_incorrect_pin_lockout_on obj)
      (SetMaxIncorrectPinRequest_incorrect_pin_lockout_on obj)"
    "num_ok (SetMaxIncorrectPinRequest_has_operation_id obj) (SetMaxIncorrectPinRequest_operation_id obj)"
    and valid: "ig_SetMaxIncorrectPinRequest_is_valid obj"
    using ok by (simp_all add: ig_SetMaxIncorrectPinRequest_ok_def)
  show ?thesis
    using valid
    by (simp add: ig_SetMaxIncorrectPinRequest_fields_def ig_SetMaxIncorrectPinRequest_cases_def
      ig_SetMaxIncorrectPinRequest_init_def codec_simps
        ig_SetMaxIncorrectPinRequest_set_if ig_SetMaxIncorrectPinRequest_setters split del: if_split)
       (simp add: ig_SetMaxIncorrectPinRequest_is_valid_def
         str_ok_store [OF h(1)]
         num_ok_store [OF h(2)]
         flag_ok_store [OF h(3)]
         num_ok_store [OF h(4)])
qed

lemma ig_SetMaxIncorrectPinRequest_bound:
  assumes "ig_SetMaxIncorrectPinRequest_ok obj"
  shows "2 + length (number_bytes 39 MtUnsigned) + fields_bound (ig_SetMaxIncorrectPinRequest_fields obj)
    \<le> unat (ig_SetMaxIncorrectPinRequest_get_max_payload_in_bytes obj)"
proof -
  have sizes: "SetMaxIncorrectPinRequest_password_size obj < 2 ^ 24"
    using assms by (auto simp: ig_SetMaxIncorrectPinRequest_ok_def dest!: str_ok_bound)
  show ?thesis
    using sizes number_bytes_size [of "SetMaxIncorrectPinRequest_password_size obj" "0x40"]
      number_bytes_u8 [of "SetMaxIncorrectPinRequest_max_incorrect_pins obj" 0]
      number_bytes_u32 [of "SetMaxIncorrectPinRequest_operation_id obj" 0]
    by (simp add: ig_SetMaxIncorrectPinRequest_fields_def
      ig_SetMaxIncorrectPinRequest_get_max_payload_in_bytes_def number_bytes_literal
        unat_of_nat_small del: of_nat_add)
qed

interpretation SetMaxIncorrectPinRequest_codec: ig_message ig_SetMaxIncorrectPinRequest_encode
  ig_SetMaxIncorrectPinRequest_decode
  ig_SetMaxIncorrectPinRequest_get_max_payload_in_bytes ig_SetMaxIncorrectPinRequest_is_valid
    ig_SetMaxIncorrectPinRequest_init ig_SetMaxIncorrectPinRequest_ok 39
  ig_SetMaxIncorrectPinRequest_fields_size ig_SetMaxIncorrectPinRequest_fields
    ig_SetMaxIncorrectPinRequest_cases
  by (unfold_locales;
      (rule ig_SetMaxIncorrectPinRequest_encode_def ig_SetMaxIncorrectPinRequest_decode_def | erule
        ig_SetMaxIncorrectPinRequest_store ig_SetMaxIncorrectPinRequest_bound |
       auto simp: ig_SetMaxIncorrectPinRequest_cases_def ig_SetMaxIncorrectPinRequest_fields_def
         ig_SetMaxIncorrectPinRequest_fields_size_def ig_SetMaxIncorrectPinRequest_ok_def
         simp del: arg_block_ok.simps(1,2) intro: str_ok_block))

subsection \<open>SetMaxIncorrectPinResponse\<close>

record IgSetMaxIncorrectPinResponse =
  SetMaxIncorrectPinResponse_has_result :: bool
  SetMaxIncorrectPinResponse_result :: u8
  SetMaxIncorrectPinResponse_has_operation_id :: bool
  SetMaxIncorrectPinResponse_operation_id :: u32

definition ig_SetMaxIncorrectPinResponse_init :: IgSetMaxIncorrectPinResponse where
  "ig_SetMaxIncorrectPinResponse_init =
     \<lparr>SetMaxIncorrectPinResponse_has_result = False,
      SetMaxIncorrectPinResponse_result = 0,
      SetMaxIncorrectPinResponse_has_operation_id = False,
      SetMaxIncorrectPinResponse_operation_id = 0\<rparr>"

definition ig_SetMaxIncorrectPinResponse_set_result :: "u8 \<Rightarrow>
  IgSetMaxIncorrectPinResponse \<Rightarrow> IgSetMaxIncorrectPinResponse" where
  "ig_SetMaxIncorrectPinResponse_set_result v obj = obj\<lparr>SetMaxIncorrectPinResponse_result :=
    v, SetMaxIncorrectPinResponse_has_result := True\<rparr>"

definition ig_SetMaxIncorrectPinResponse_set_operation_id :: "u32 \<Rightarrow>
  IgSetMaxIncorrectPinResponse \<Rightarrow> IgSetMaxIncorrectPinResponse" where
  "ig_SetMaxIncorrectPinResponse_set_operation_id v obj =
    obj\<lparr>SetMaxIncorrectPinResponse_operation_id := v,
      SetMaxIncorrectPinResponse_has_operation_id := True\<rparr>"

definition ig_SetMaxIncorrectPinResponse_deinit :: "IgSetMaxIncorrectPinResponse \<Rightarrow>
  IgSetMaxIncorrectPinResponse" where
  "ig_SetMaxIncorrectPinResponse_deinit obj = obj"

definition ig_SetMaxIncorrectPinResponse_is_valid :: "IgSetMaxIncorrectPinResponse \<Rightarrow> bool" where
  "ig_SetMaxIncorrectPinResponse_is_valid obj \<longleftrightarrow> SetMaxIncorrectPinResponse_has_result obj"

definition ig_SetMaxIncorrectPinResponse_get_max_payload_in_bytes :: "IgSetMaxIncorrectPinResponse
  \<Rightarrow> u32" where
  "ig_SetMaxIncorrectPinResponse_get_max_payload_in_bytes obj = 22"

definition ig_SetMaxIncorrectPinResponse_fields_size :: "IgSetMaxIncorrectPinResponse \<Rightarrow> u64" where
  "ig_SetMaxIncorrectPinResponse_fields_size obj = 1 + 1 + of_bool
    (SetMaxIncorrectPinResponse_has_operation_id obj)"

definition ig_SetMaxIncorrectPinResponse_fields :: "IgSetMaxIncorrectPinResponse \<Rightarrow>
  enc_field list" where
  "ig_SetMaxIncorrectPinResponse_fields obj =
    [(True, 11, AUint (ucast (SetMaxIncorrectPinResponse_result obj))),
     (SetMaxIncorrectPinResponse_has_operation_id obj, 100, AUint (ucast
       (SetMaxIncorrectPinResponse_operation_id obj)))]"

definition ig_SetMaxIncorrectPinResponse_encode ::
  "IgSetMaxIncorrectPinResponse \<Rightarrow> bytes \<Rightarrow> u32 \<Rightarrow> (nat \<times>
    bytes \<times> nat option) res" where
  "ig_SetMaxIncorrectPinResponse_encode obj retval len =
     (if \<not> ig_SetMaxIncorrectPinResponse_is_valid obj then Ok
       (IgSerializerErrorInvalidPayload, retval, None)
      else ig_encode (ig_SetMaxIncorrectPinResponse_fields_size obj) 40
        (ig_SetMaxIncorrectPinResponse_fields obj) retval len)"

definition ig_SetMaxIncorrectPinResponse_cases :: "(i64 \<times> IgSetMaxIncorrectPinResponse
  case_body) list" where
  "ig_SetMaxIncorrectPinResponse_cases =
    [(0, CMsgId 40),
     (11, CUint (\<lambda>v. ig_SetMaxIncorrectPinResponse_set_result (ucast v))),
     (100, CUint (\<lambda>v. ig_SetMaxIncorrectPinResponse_set_operation_id (ucast v)))]"

definition ig_SetMaxIncorrectPinResponse_decode :: "bytes \<Rightarrow>
  IgSetMaxIncorrectPinResponse \<Rightarrow> nat \<Rightarrow> (nat \<times>
    IgSetMaxIncorrectPinResponse) res" where
  "ig_SetMaxIncorrectPinResponse_decode buf obj index = ig_decode
    ig_SetMaxIncorrectPinResponse_cases buf obj index"

definition ig_SetMaxIncorrectPinResponse_ok :: "IgSetMaxIncorrectPinResponse \<Rightarrow> bool" where
  "ig_SetMaxIncorrectPinResponse_ok obj \<longleftrightarrow>
    ig_SetMaxIncorrectPinResponse_is_valid obj \<and>
     num_ok (SetMaxIncorrectPinResponse_has_result obj) (SetMaxIncorrectPinResponse_result obj) \<and>
     num_ok (SetMaxIncorrectPinResponse_has_operation_id obj) (SetMaxIncorrectPinResponse_operation_id obj)"

lemmas ig_SetMaxIncorrectPinResponse_setters =
  ig_SetMaxIncorrectPinResponse_set_operation_id_def
  ig_SetMaxIncorrectPinResponse_set_result_def

text \<open>A guarded setter, member by member.\<close>
lemma ig_SetMaxIncorrectPinResponse_set_if:
  "(if g then ig_SetMaxIncorrectPinResponse_set_operation_id v0 obj else obj) =
     obj\<lparr>SetMaxIncorrectPinResponse_operation_id := pick g v0
       (SetMaxIncorrectPinResponse_operation_id obj),
       SetMaxIncorrectPinResponse_has_operation_id := g \<or>
         SetMaxIncorrectPinResponse_has_operation_id obj\<rparr>"
  by (simp_all add: ig_SetMaxIncorrectPinResponse_setters pick_def)

lemma ig_SetMaxIncorrectPinResponse_store:
  assumes ok: "ig_SetMaxIncorrectPinResponse_ok obj"
  shows "store_fields ig_SetMaxIncorrectPinResponse_cases (ig_SetMaxIncorrectPinResponse_fields
    obj) ig_SetMaxIncorrectPinResponse_init = Some obj"
proof -
  have h: "num_ok (SetMaxIncorrectPinResponse_has_result obj) (SetMaxIncorrectPinResponse_result obj)"
    "num_ok (SetMaxIncorrectPinResponse_has_operation_id obj) (SetMaxIncorrectPinResponse_operation_id obj)"
    and valid: "ig_SetMaxIncorrectPinResponse_is_valid obj"
    using ok by (simp_all add: ig_SetMaxIncorrectPinResponse_ok_def)
  show ?thesis
    using valid
    by (simp add: ig_SetMaxIncorrectPinResponse_fields_def ig_SetMaxIncorrectPinResponse_cases_def
      ig_SetMaxIncorrectPinResponse_init_def codec_simps
        ig_SetMaxIncorrectPinResponse_set_if ig_SetMaxIncorrectPinResponse_setters split del: if_split)
       (simp add: ig_SetMaxIncorrectPinResponse_is_valid_def
         num_ok_store [OF h(1)]
         num_ok_store [OF h(2)])
qed

lemma ig_SetMaxIncorrectPinResponse_bound:
  assumes "ig_SetMaxIncorrectPinResponse_ok obj"
  shows "2 + length (number_bytes 40 MtUnsigned) + fields_bound (ig_SetMaxIncorrectPinResponse_fields obj)
    \<le> unat (ig_SetMaxIncorrectPinResponse_get_max_payload_in_bytes obj)"
  using number_bytes_u8 [of "SetMaxIncorrectPinResponse_result obj" 0]
    number_bytes_u32 [of "SetMaxIncorrectPinResponse_operation_id obj" 0]
  by (simp add: ig_SetMaxIncorrectPinResponse_fields_def
    ig_SetMaxIncorrectPinResponse_get_max_payload_in_bytes_def number_bytes_literal)

interpretation SetMaxIncorrectPinResponse_codec: ig_message ig_SetMaxIncorrectPinResponse_encode
  ig_SetMaxIncorrectPinResponse_decode
  ig_SetMaxIncorrectPinResponse_get_max_payload_in_bytes ig_SetMaxIncorrectPinResponse_is_valid
    ig_SetMaxIncorrectPinResponse_init ig_SetMaxIncorrectPinResponse_ok 40
  ig_SetMaxIncorrectPinResponse_fields_size ig_SetMaxIncorrectPinResponse_fields
    ig_SetMaxIncorrectPinResponse_cases
  by (unfold_locales;
      (rule ig_SetMaxIncorrectPinResponse_encode_def ig_SetMaxIncorrectPinResponse_decode_def |
        erule ig_SetMaxIncorrectPinResponse_store ig_SetMaxIncorrectPinResponse_bound |
       auto simp: ig_SetMaxIncorrectPinResponse_cases_def ig_SetMaxIncorrectPinResponse_fields_def
         ig_SetMaxIncorrectPinResponse_fields_size_def ig_SetMaxIncorrectPinResponse_ok_def
         simp del: arg_block_ok.simps(1,2) intro: str_ok_block))

subsection \<open>SetPinKeyRequest\<close>

record IgSetPinKeyRequest =
  SetPinKeyRequest_has_password :: bool
  SetPinKeyRequest_password :: block_ptr
  SetPinKeyRequest_password_size :: nat
  SetPinKeyRequest_has_pin_key :: bool
  SetPinKeyRequest_pin_key :: block_ptr
  SetPinKeyRequest_pin_key_size :: nat
  SetPinKeyRequest_has_gmt_offset :: bool
  SetPinKeyRequest_gmt_offset :: i32
  SetPinKeyRequest_has_dst_times :: bool
  SetPinKeyRequest_dst_times :: block_ptr
  SetPinKeyRequest_dst_times_size :: nat
  SetPinKeyRequest_has_operation_id :: bool
  SetPinKeyRequest_operation_id :: u32

definition ig_SetPinKeyRequest_init :: IgSetPinKeyRequest where
  "ig_SetPinKeyRequest_init =
     \<lparr>SetPinKeyRequest_has_password = False,
      SetPinKeyRequest_password = None,
      SetPinKeyRequest_password_size = 0,
      SetPinKeyRequest_has_pin_key = False,
      SetPinKeyRequest_pin_key = None,
      SetPinKeyRequest_pin_key_size = 0,
      SetPinKeyRequest_has_gmt_offset = False,
      SetPinKeyRequest_gmt_offset = 0,
      SetPinKeyRequest_has_dst_times = False,
      SetPinKeyRequest_dst_times = None,
      SetPinKeyRequest_dst_times_size = 0,
      SetPinKeyRequest_has_operation_id = False,
      SetPinKeyRequest_operation_id = 0\<rparr>"

definition ig_SetPinKeyRequest_get_password_size :: "IgSetPinKeyRequest \<Rightarrow> nat" where
  "ig_SetPinKeyRequest_get_password_size obj = SetPinKeyRequest_password_size obj"

definition ig_SetPinKeyRequest_set_password_nocopy ::
  "bool \<Rightarrow> block_ptr \<Rightarrow> nat \<Rightarrow> IgSetPinKeyRequest \<Rightarrow>
    IgSetPinKeyRequest" where
  "ig_SetPinKeyRequest_set_password_nocopy same_ptr p n obj =
     (if same_ptr then obj
      else let obj = (if SetPinKeyRequest_has_password obj then
        obj\<lparr>SetPinKeyRequest_password := None\<rparr> else obj)
        in obj\<lparr>SetPinKeyRequest_password := p, SetPinKeyRequest_password_size := n,
          SetPinKeyRequest_has_password := n > 0\<rparr>)"

definition ig_SetPinKeyRequest_set_password ::
  "bool \<Rightarrow> block_ptr \<Rightarrow> nat \<Rightarrow> IgSetPinKeyRequest \<Rightarrow>
    IgSetPinKeyRequest res" where
  "ig_SetPinKeyRequest_set_password same_ptr p n obj =
     (if same_ptr then Ok obj
      else let obj = (if SetPinKeyRequest_has_password obj then
        obj\<lparr>SetPinKeyRequest_password := None\<rparr> else obj)
        in bindR (block_read p n) (\<lambda>d.
          Ok (obj\<lparr>SetPinKeyRequest_password := Some d, SetPinKeyRequest_password_size := n,
            SetPinKeyRequest_has_password := n > 0\<rparr>)))"

definition ig_SetPinKeyRequest_get_pin_key_size :: "IgSetPinKeyRequest \<Rightarrow> nat" where
  "ig_SetPinKeyRequest_get_pin_key_size obj = SetPinKeyRequest_pin_key_size obj"

definition ig_SetPinKeyRequest_set_pin_key_nocopy ::
  "bool \<Rightarrow> block_ptr \<Rightarrow> nat \<Rightarrow> IgSetPinKeyRequest \<Rightarrow>
    IgSetPinKeyRequest" where
  "ig_SetPinKeyRequest_set_pin_key_nocopy same_ptr p n obj =
     (if same_ptr then obj
      else let obj = (if SetPinKeyRequest_has_pin_key obj then obj\<lparr>SetPinKeyRequest_pin_key
        := None\<rparr> else obj)
        in obj\<lparr>SetPinKeyRequest_pin_key := p, SetPinKeyRequest_pin_key_size := n,
          SetPinKeyRequest_has_pin_key := n > 0\<rparr>)"

definition ig_SetPinKeyRequest_set_pin_key ::
  "bool \<Rightarrow> block_ptr \<Rightarrow> nat \<Rightarrow> IgSetPinKeyRequest \<Rightarrow>
    IgSetPinKeyRequest res" where
  "ig_SetPinKeyRequest_set_pin_key same_ptr p n obj =
     (if same_ptr then Ok obj
      else let obj = (if SetPinKeyRequest_has_pin_key obj then obj\<lparr>SetPinKeyRequest_pin_key
        := None\<rparr> else obj)
        in bindR (block_read p n) (\<lambda>d.
          Ok (obj\<lparr>SetPinKeyRequest_pin_key := Some d, SetPinKeyRequest_pin_key_size := n,
            SetPinKeyRequest_has_pin_key := n > 0\<rparr>)))"

definition ig_SetPinKeyRequest_set_gmt_offset :: "i32 \<Rightarrow> IgSetPinKeyRequest
  \<Rightarrow> IgSetPinKeyRequest" where
  "ig_SetPinKeyRequest_set_gmt_offset v obj = obj\<lparr>SetPinKeyRequest_gmt_offset := v,
    SetPinKeyRequest_has_gmt_offset := True\<rparr>"

definition ig_SetPinKeyRequest_get_dst_times_size :: "IgSetPinKeyRequest \<Rightarrow> nat" where
  "ig_SetPinKeyRequest_get_dst_times_size obj = SetPinKeyRequest_dst_times_size obj"

definition ig_SetPinKeyRequest_set_dst_times_nocopy ::
  "bool \<Rightarrow> block_ptr \<Rightarrow> nat \<Rightarrow> IgSetPinKeyRequest \<Rightarrow>
    IgSetPinKeyRequest" where
  "ig_SetPinKeyRequest_set_dst_times_nocopy same_ptr p n obj =
     (if same_ptr then obj
      else let obj = (if SetPinKeyRequest_has_dst_times obj then
        obj\<lparr>SetPinKeyRequest_dst_times := None\<rparr> else obj)
        in obj\<lparr>SetPinKeyRequest_dst_times := p, SetPinKeyRequest_dst_times_size := n,
          SetPinKeyRequest_has_dst_times := n > 0\<rparr>)"

definition ig_SetPinKeyRequest_set_dst_times ::
  "bool \<Rightarrow> block_ptr \<Rightarrow> nat \<Rightarrow> IgSetPinKeyRequest \<Rightarrow>
    IgSetPinKeyRequest res" where
  "ig_SetPinKeyRequest_set_dst_times same_ptr p n obj =
     (if same_ptr then Ok obj
      else let obj = (if SetPinKeyRequest_has_dst_times obj then
        obj\<lparr>SetPinKeyRequest_dst_times := None\<rparr> else obj)
        in bindR (block_read p n) (\<lambda>d.
          Ok (obj\<lparr>SetPinKeyRequest_dst_times := Some d, SetPinKeyRequest_dst_times_size :=
            n, SetPinKeyRequest_has_dst_times := n > 0\<rparr>)))"

definition ig_SetPinKeyRequest_set_operation_id :: "u32 \<Rightarrow> IgSetPinKeyRequest
  \<Rightarrow> IgSetPinKeyRequest" where
  "ig_SetPinKeyRequest_set_operation_id v obj = obj\<lparr>SetPinKeyRequest_operation_id := v,
    SetPinKeyRequest_has_operation_id := True\<rparr>"

definition ig_SetPinKeyRequest_deinit :: "IgSetPinKeyRequest \<Rightarrow> IgSetPinKeyRequest" where
  "ig_SetPinKeyRequest_deinit obj = (let
     obj = (if SetPinKeyRequest_has_password obj then obj\<lparr>SetPinKeyRequest_password :=
       None\<rparr> else obj);
     obj = (if SetPinKeyRequest_has_pin_key obj then obj\<lparr>SetPinKeyRequest_pin_key :=
       None\<rparr> else obj);
     obj = (if SetPinKeyRequest_has_dst_times obj then obj\<lparr>SetPinKeyRequest_dst_times :=
       None\<rparr> else obj)
   in obj)"

definition ig_SetPinKeyRequest_is_valid :: "IgSetPinKeyRequest \<Rightarrow> bool" where
  "ig_SetPinKeyRequest_is_valid obj \<longleftrightarrow> SetPinKeyRequest_has_password obj"

definition ig_SetPinKeyRequest_get_max_payload_in_bytes :: "IgSetPinKeyRequest \<Rightarrow> u32" where
  "ig_SetPinKeyRequest_get_max_payload_in_bytes obj = word_of_nat (46 +
    SetPinKeyRequest_password_size obj + SetPinKeyRequest_pin_key_size obj +
      SetPinKeyRequest_dst_times_size obj)"

definition ig_SetPinKeyRequest_fields_size :: "IgSetPinKeyRequest \<Rightarrow> u64" where
  "ig_SetPinKeyRequest_fields_size obj = 1 + 1 + of_bool (SetPinKeyRequest_has_pin_key obj) +
    of_bool (SetPinKeyRequest_has_gmt_offset obj) + of_bool (SetPinKeyRequest_has_dst_times obj) +
      of_bool (SetPinKeyRequest_has_operation_id obj)"

definition ig_SetPinKeyRequest_fields :: "IgSetPinKeyRequest \<Rightarrow> enc_field list" where
  "ig_SetPinKeyRequest_fields obj =
    [(True, 11, ABytes (SetPinKeyRequest_password obj) (SetPinKeyRequest_password_size obj)),
     (SetPinKeyRequest_has_pin_key obj, 12, ABytes (SetPinKeyRequest_pin_key obj)
       (SetPinKeyRequest_pin_key_size obj)),
     (SetPinKeyRequest_has_gmt_offset obj, 13, AInt (scast (SetPinKeyRequest_gmt_offset obj))),
     (SetPinKeyRequest_has_dst_times obj, 14, ABytes (SetPinKeyRequest_dst_times obj)
       (SetPinKeyRequest_dst_times_size obj)),
     (SetPinKeyRequest_has_operation_id obj, 100, AUint (ucast (SetPinKeyRequest_operation_id obj)))]"

definition ig_SetPinKeyRequest_encode ::
  "IgSetPinKeyRequest \<Rightarrow> bytes \<Rightarrow> u32 \<Rightarrow> (nat \<times> bytes
    \<times> nat option) res" where
  "ig_SetPinKeyRequest_encode obj retval len =
     (if \<not> ig_SetPinKeyRequest_is_valid obj then Ok (IgSerializerErrorInvalidPayload, retval, None)
      else ig_encode (ig_SetPinKeyRequest_fields_size obj) 35 (ig_SetPinKeyRequest_fields obj) retval len)"

definition ig_SetPinKeyRequest_cases :: "(i64 \<times> IgSetPinKeyRequest case_body) list" where
  "ig_SetPinKeyRequest_cases =
    [(0, CMsgId 35),
     (11, CBytes (ig_SetPinKeyRequest_set_password_nocopy False)),
     (12, CBytes (ig_SetPinKeyRequest_set_pin_key_nocopy False)),
     (13, CInt (\<lambda>v. ig_SetPinKeyRequest_set_gmt_offset (ucast v))),
     (14, CBytes (ig_SetPinKeyRequest_set_dst_times_nocopy False)),
     (100, CUint (\<lambda>v. ig_SetPinKeyRequest_set_operation_id (ucast v)))]"

definition ig_SetPinKeyRequest_decode :: "bytes \<Rightarrow> IgSetPinKeyRequest \<Rightarrow> nat
  \<Rightarrow> (nat \<times> IgSetPinKeyRequest) res" where
  "ig_SetPinKeyRequest_decode buf obj index = ig_decode ig_SetPinKeyRequest_cases buf obj index"

definition ig_SetPinKeyRequest_ok :: "IgSetPinKeyRequest \<Rightarrow> bool" where
  "ig_SetPinKeyRequest_ok obj \<longleftrightarrow> ig_SetPinKeyRequest_is_valid obj \<and>
     str_ok (SetPinKeyRequest_has_password obj) (SetPinKeyRequest_password obj)
       (SetPinKeyRequest_password_size obj) \<and>
     str_ok (SetPinKeyRequest_has_pin_key obj) (SetPinKeyRequest_pin_key obj)
       (SetPinKeyRequest_pin_key_size obj) \<and>
     num_ok (SetPinKeyRequest_has_gmt_offset obj) (SetPinKeyRequest_gmt_offset obj) \<and>
     str_ok (SetPinKeyRequest_has_dst_times obj) (SetPinKeyRequest_dst_times obj)
       (SetPinKeyRequest_dst_times_size obj) \<and>
     num_ok (SetPinKeyRequest_has_operation_id obj) (SetPinKeyRequest_operation_id obj)"

lemmas ig_SetPinKeyRequest_setters =
  ig_SetPinKeyRequest_set_dst_times_nocopy_def
  ig_SetPinKeyRequest_set_gmt_offset_def
  ig_SetPinKeyRequest_set_operation_id_def
  ig_SetPinKeyRequest_set_password_nocopy_def
  ig_SetPinKeyRequest_set_pin_key_nocopy_def

text \<open>A guarded setter, member by member.\<close>
lemma ig_SetPinKeyRequest_set_if:
  "(if g then ig_SetPinKeyRequest_set_pin_key_nocopy False p n obj else obj) =
     obj\<lparr>SetPinKeyRequest_pin_key := pick g p (SetPinKeyRequest_pin_key obj),
       SetPinKeyRequest_pin_key_size := pick g n (SetPinKeyRequest_pin_key_size obj),
       SetPinKeyRequest_has_pin_key := pick g (n > 0) (SetPinKeyRequest_has_pin_key obj)\<rparr>"
  "(if g then ig_SetPinKeyRequest_set_gmt_offset v1 obj else obj) =
     obj\<lparr>SetPinKeyRequest_gmt_offset := pick g v1 (SetPinKeyRequest_gmt_offset obj),
       SetPinKeyRequest_has_gmt_offset := g \<or> SetPinKeyRequest_has_gmt_offset obj\<rparr>"
  "(if g then ig_SetPinKeyRequest_set_dst_times_nocopy False p n obj else obj) =
     obj\<lparr>SetPinKeyRequest_dst_times := pick g p (SetPinKeyRequest_dst_times obj),
       SetPinKeyRequest_dst_times_size := pick g n (SetPinKeyRequest_dst_times_size obj),
       SetPinKeyRequest_has_dst_times := pick g (n > 0) (SetPinKeyRequest_has_dst_times obj)\<rparr>"
  "(if g then ig_SetPinKeyRequest_set_operation_id v3 obj else obj) =
     obj\<lparr>SetPinKeyRequest_operation_id := pick g v3 (SetPinKeyRequest_operation_id obj),
       SetPinKeyRequest_has_operation_id := g \<or> SetPinKeyRequest_has_operation_id obj\<rparr>"
  by (simp_all add: ig_SetPinKeyRequest_setters pick_def)

lemma ig_SetPinKeyRequest_store:
  assumes ok: "ig_SetPinKeyRequest_ok obj"
  shows "store_fields ig_SetPinKeyRequest_cases (ig_SetPinKeyRequest_fields obj)
    ig_SetPinKeyRequest_init = Some obj"
proof -
  have h: "str_ok (SetPinKeyRequest_has_password obj) (SetPinKeyRequest_password obj)
    (SetPinKeyRequest_password_size obj)"
    "str_ok (SetPinKeyRequest_has_pin_key obj) (SetPinKeyRequest_pin_key obj)
      (SetPinKeyRequest_pin_key_size obj)"
    "num_ok (SetPinKeyRequest_has_gmt_offset obj) (SetPinKeyRequest_gmt_offset obj)"
    "str_ok (SetPinKeyRequest_has_dst_times obj) (SetPinKeyRequest_dst_times obj)
      (SetPinKeyRequest_dst_times_size obj)"
    "num_ok (SetPinKeyRequest_has_operation_id obj) (SetPinKeyRequest_operation_id obj)"
    and valid: "ig_SetPinKeyRequest_is_valid obj"
    using ok by (simp_all add: ig_SetPinKeyRequest_ok_def)
  show ?thesis
    using valid
    by (simp add: ig_SetPinKeyRequest_fields_def ig_SetPinKeyRequest_cases_def
      ig_SetPinKeyRequest_init_def codec_simps
        ig_SetPinKeyRequest_set_if ig_SetPinKeyRequest_setters split del: if_split)
       (simp add: ig_SetPinKeyRequest_is_valid_def
         str_ok_store [OF h(1)]
         str_ok_store [OF h(2)]
         num_ok_store [OF h(3)]
         str_ok_store [OF h(4)]
         num_ok_store [OF h(5)])
qed

lemma ig_SetPinKeyRequest_bound:
  assumes "ig_SetPinKeyRequest_ok obj"
  shows "2 + length (number_bytes 35 MtUnsigned) + fields_bound (ig_SetPinKeyRequest_fields obj)
    \<le> unat (ig_SetPinKeyRequest_get_max_payload_in_bytes obj)"
proof -
  have sizes: "SetPinKeyRequest_password_size obj < 2 ^ 24" "SetPinKeyRequest_pin_key_size obj < 2
    ^ 24" "SetPinKeyRequest_dst_times_size obj < 2 ^ 24"
    using assms by (auto simp: ig_SetPinKeyRequest_ok_def dest!: str_ok_bound)
  show ?thesis
    using sizes number_bytes_size [of "SetPinKeyRequest_password_size obj" "0x40"]
      number_bytes_size [of "SetPinKeyRequest_pin_key_size obj" "0x40"]
      item_bytes_i32 [of "SetPinKeyRequest_gmt_offset obj"]
      number_bytes_size [of "SetPinKeyRequest_dst_times_size obj" "0x40"]
      number_bytes_u32 [of "SetPinKeyRequest_operation_id obj" 0]
    by (simp add: ig_SetPinKeyRequest_fields_def ig_SetPinKeyRequest_get_max_payload_in_bytes_def
      number_bytes_literal
        unat_of_nat_small del: of_nat_add)
qed

interpretation SetPinKeyRequest_codec: ig_message ig_SetPinKeyRequest_encode ig_SetPinKeyRequest_decode
  ig_SetPinKeyRequest_get_max_payload_in_bytes ig_SetPinKeyRequest_is_valid
    ig_SetPinKeyRequest_init ig_SetPinKeyRequest_ok 35
  ig_SetPinKeyRequest_fields_size ig_SetPinKeyRequest_fields ig_SetPinKeyRequest_cases
  by (unfold_locales;
      (rule ig_SetPinKeyRequest_encode_def ig_SetPinKeyRequest_decode_def | erule
        ig_SetPinKeyRequest_store ig_SetPinKeyRequest_bound |
       auto simp: ig_SetPinKeyRequest_cases_def ig_SetPinKeyRequest_fields_def
         ig_SetPinKeyRequest_fields_size_def ig_SetPinKeyRequest_ok_def
         simp del: arg_block_ok.simps(1,2) intro: str_ok_block))

subsection \<open>SetPinKeyResponse\<close>

record IgSetPinKeyResponse =
  SetPinKeyResponse_has_result :: bool
  SetPinKeyResponse_result :: u8
  SetPinKeyResponse_has_pin_key :: bool
  SetPinKeyResponse_pin_key :: block_ptr
  SetPinKeyResponse_pin_key_size :: nat
  SetPinKeyResponse_has_gmt_offset :: bool
  SetPinKeyResponse_gmt_offset :: i32
  SetPinKeyResponse_has_dst_times :: bool
  SetPinKeyResponse_dst_times :: block_ptr
  SetPinKeyResponse_dst_times_size :: nat
  SetPinKeyResponse_has_operation_id :: bool
  SetPinKeyResponse_operation_id :: u32

definition ig_SetPinKeyResponse_init :: IgSetPinKeyResponse where
  "ig_SetPinKeyResponse_init =
     \<lparr>SetPinKeyResponse_has_result = False,
      SetPinKeyResponse_result = 0,
      SetPinKeyResponse_has_pin_key = False,
      SetPinKeyResponse_pin_key = None,
      SetPinKeyResponse_pin_key_size = 0,
      SetPinKeyResponse_has_gmt_offset = False,
      SetPinKeyResponse_gmt_offset = 0,
      SetPinKeyResponse_has_dst_times = False,
      SetPinKeyResponse_dst_times = None,
      SetPinKeyResponse_dst_times_size = 0,
      SetPinKeyResponse_has_operation_id = False,
      SetPinKeyResponse_operation_id = 0\<rparr>"

definition ig_SetPinKeyResponse_set_result :: "u8 \<Rightarrow> IgSetPinKeyResponse \<Rightarrow>
  IgSetPinKeyResponse" where
  "ig_SetPinKeyResponse_set_result v obj = obj\<lparr>SetPinKeyResponse_result := v,
    SetPinKeyResponse_has_result := True\<rparr>"

definition ig_SetPinKeyResponse_get_pin_key_size :: "IgSetPinKeyResponse \<Rightarrow> nat" where
  "ig_SetPinKeyResponse_get_pin_key_size obj = SetPinKeyResponse_pin_key_size obj"

definition ig_SetPinKeyResponse_set_pin_key_nocopy ::
  "bool \<Rightarrow> block_ptr \<Rightarrow> nat \<Rightarrow> IgSetPinKeyResponse \<Rightarrow>
    IgSetPinKeyResponse" where
  "ig_SetPinKeyResponse_set_pin_key_nocopy same_ptr p n obj =
     (if same_ptr then obj
      else let obj = (if SetPinKeyResponse_has_pin_key obj then
        obj\<lparr>SetPinKeyResponse_pin_key := None\<rparr> else obj)
        in obj\<lparr>SetPinKeyResponse_pin_key := p, SetPinKeyResponse_pin_key_size := n,
          SetPinKeyResponse_has_pin_key := n > 0\<rparr>)"

definition ig_SetPinKeyResponse_set_pin_key ::
  "bool \<Rightarrow> block_ptr \<Rightarrow> nat \<Rightarrow> IgSetPinKeyResponse \<Rightarrow>
    IgSetPinKeyResponse res" where
  "ig_SetPinKeyResponse_set_pin_key same_ptr p n obj =
     (if same_ptr then Ok obj
      else let obj = (if SetPinKeyResponse_has_pin_key obj then
        obj\<lparr>SetPinKeyResponse_pin_key := None\<rparr> else obj)
        in bindR (block_read p n) (\<lambda>d.
          Ok (obj\<lparr>SetPinKeyResponse_pin_key := Some d, SetPinKeyResponse_pin_key_size := n,
            SetPinKeyResponse_has_pin_key := n > 0\<rparr>)))"

definition ig_SetPinKeyResponse_set_gmt_offset :: "i32 \<Rightarrow> IgSetPinKeyResponse
  \<Rightarrow> IgSetPinKeyResponse" where
  "ig_SetPinKeyResponse_set_gmt_offset v obj = obj\<lparr>SetPinKeyResponse_gmt_offset := v,
    SetPinKeyResponse_has_gmt_offset := True\<rparr>"

definition ig_SetPinKeyResponse_get_dst_times_size :: "IgSetPinKeyResponse \<Rightarrow> nat" where
  "ig_SetPinKeyResponse_get_dst_times_size obj = SetPinKeyResponse_dst_times_size obj"

definition ig_SetPinKeyResponse_set_dst_times_nocopy ::
  "bool \<Rightarrow> block_ptr \<Rightarrow> nat \<Rightarrow> IgSetPinKeyResponse \<Rightarrow>
    IgSetPinKeyResponse" where
  "ig_SetPinKeyResponse_set_dst_times_nocopy same_ptr p n obj =
     (if same_ptr then obj
      else let obj = (if SetPinKeyResponse_has_dst_times obj then
        obj\<lparr>SetPinKeyResponse_dst_times := None\<rparr> else obj)
        in obj\<lparr>SetPinKeyResponse_dst_times := p, SetPinKeyResponse_dst_times_size := n,
          SetPinKeyResponse_has_dst_times := n > 0\<rparr>)"

definition ig_SetPinKeyResponse_set_dst_times ::
  "bool \<Rightarrow> block_ptr \<Rightarrow> nat \<Rightarrow> IgSetPinKeyResponse \<Rightarrow>
    IgSetPinKeyResponse res" where
  "ig_SetPinKeyResponse_set_dst_times same_ptr p n obj =
     (if same_ptr then Ok obj
      else let obj = (if SetPinKeyResponse_has_dst_times obj then
        obj\<lparr>SetPinKeyResponse_dst_times := None\<rparr> else obj)
        in bindR (block_read p n) (\<lambda>d.
          Ok (obj\<lparr>SetPinKeyResponse_dst_times := Some d, SetPinKeyResponse_dst_times_size :=
            n, SetPinKeyResponse_has_dst_times := n > 0\<rparr>)))"

definition ig_SetPinKeyResponse_set_operation_id :: "u32 \<Rightarrow> IgSetPinKeyResponse
  \<Rightarrow> IgSetPinKeyResponse" where
  "ig_SetPinKeyResponse_set_operation_id v obj = obj\<lparr>SetPinKeyResponse_operation_id := v,
    SetPinKeyResponse_has_operation_id := True\<rparr>"

definition ig_SetPinKeyResponse_deinit :: "IgSetPinKeyResponse \<Rightarrow> IgSetPinKeyResponse" where
  "ig_SetPinKeyResponse_deinit obj = (let
     obj = (if SetPinKeyResponse_has_pin_key obj then obj\<lparr>SetPinKeyResponse_pin_key :=
       None\<rparr> else obj);
     obj = (if SetPinKeyResponse_has_dst_times obj then obj\<lparr>SetPinKeyResponse_dst_times :=
       None\<rparr> else obj)
   in obj)"

definition ig_SetPinKeyResponse_is_valid :: "IgSetPinKeyResponse \<Rightarrow> bool" where
  "ig_SetPinKeyResponse_is_valid obj \<longleftrightarrow> SetPinKeyResponse_has_result obj"

definition ig_SetPinKeyResponse_get_max_payload_in_bytes :: "IgSetPinKeyResponse \<Rightarrow> u32" where
  "ig_SetPinKeyResponse_get_max_payload_in_bytes obj = word_of_nat (42 +
    SetPinKeyResponse_pin_key_size obj + SetPinKeyResponse_dst_times_size obj)"

definition ig_SetPinKeyResponse_fields_size :: "IgSetPinKeyResponse \<Rightarrow> u64" where
  "ig_SetPinKeyResponse_fields_size obj = 1 + 1 + of_bool (SetPinKeyResponse_has_pin_key obj) +
    of_bool (SetPinKeyResponse_has_gmt_offset obj) + of_bool (SetPinKeyResponse_has_dst_times obj)
      + of_bool (SetPinKeyResponse_has_operation_id obj)"

definition ig_SetPinKeyResponse_fields :: "IgSetPinKeyResponse \<Rightarrow> enc_field list" where
  "ig_SetPinKeyResponse_fields obj =
    [(True, 11, AUint (ucast (SetPinKeyResponse_result obj))),
     (SetPinKeyResponse_has_pin_key obj, 12, ABytes (SetPinKeyResponse_pin_key obj)
       (SetPinKeyResponse_pin_key_size obj)),
     (SetPinKeyResponse_has_gmt_offset obj, 13, AInt (scast (SetPinKeyResponse_gmt_offset obj))),
     (SetPinKeyResponse_has_dst_times obj, 14, ABytes (SetPinKeyResponse_dst_times obj)
       (SetPinKeyResponse_dst_times_size obj)),
     (SetPinKeyResponse_has_operation_id obj, 100, AUint (ucast (SetPinKeyResponse_operation_id obj)))]"

definition ig_SetPinKeyResponse_encode ::
  "IgSetPinKeyResponse \<Rightarrow> bytes \<Rightarrow> u32 \<Rightarrow> (nat \<times> bytes
    \<times> nat option) res" where
  "ig_SetPinKeyResponse_encode obj retval len =
     (if \<not> ig_SetPinKeyResponse_is_valid obj then Ok (IgSerializerErrorInvalidPayload, retval, None)
      else ig_encode (ig_SetPinKeyResponse_fields_size obj) 36 (ig_SetPinKeyResponse_fields obj) retval len)"

definition ig_SetPinKeyResponse_cases :: "(i64 \<times> IgSetPinKeyResponse case_body) list" where
  "ig_SetPinKeyResponse_cases =
    [(0, CMsgId 36),
     (11, CUint (\<lambda>v. ig_SetPinKeyResponse_set_result (ucast v))),
     (12, CBytes (ig_SetPinKeyResponse_set_pin_key_nocopy False)),
     (13, CInt (\<lambda>v. ig_SetPinKeyResponse_set_gmt_offset (ucast v))),
     (14, CBytes (ig_SetPinKeyResponse_set_dst_times_nocopy False)),
     (100, CUint (\<lambda>v. ig_SetPinKeyResponse_set_operation_id (ucast v)))]"

definition ig_SetPinKeyResponse_decode :: "bytes \<Rightarrow> IgSetPinKeyResponse \<Rightarrow>
  nat \<Rightarrow> (nat \<times> IgSetPinKeyResponse) res" where
  "ig_SetPinKeyResponse_decode buf obj index = ig_decode ig_SetPinKeyResponse_cases buf obj index"

definition ig_SetPinKeyResponse_ok :: "IgSetPinKeyResponse \<Rightarrow> bool" where
  "ig_SetPinKeyResponse_ok obj \<longleftrightarrow> ig_SetPinKeyResponse_is_valid obj \<and>
     num_ok (SetPinKeyResponse_has_result obj) (SetPinKeyResponse_result obj) \<and>
     str_ok (SetPinKeyResponse_has_pin_key obj) (SetPinKeyResponse_pin_key obj)
       (SetPinKeyResponse_pin_key_size obj) \<and>
     num_ok (SetPinKeyResponse_has_gmt_offset obj) (SetPinKeyResponse_gmt_offset obj) \<and>
     str_ok (SetPinKeyResponse_has_dst_times obj) (SetPinKeyResponse_dst_times obj)
       (SetPinKeyResponse_dst_times_size obj) \<and>
     num_ok (SetPinKeyResponse_has_operation_id obj) (SetPinKeyResponse_operation_id obj)"

lemmas ig_SetPinKeyResponse_setters =
  ig_SetPinKeyResponse_set_dst_times_nocopy_def
  ig_SetPinKeyResponse_set_gmt_offset_def
  ig_SetPinKeyResponse_set_operation_id_def
  ig_SetPinKeyResponse_set_pin_key_nocopy_def
  ig_SetPinKeyResponse_set_result_def

text \<open>A guarded setter, member by member.\<close>
lemma ig_SetPinKeyResponse_set_if:
  "(if g then ig_SetPinKeyResponse_set_pin_key_nocopy False p n obj else obj) =
     obj\<lparr>SetPinKeyResponse_pin_key := pick g p (SetPinKeyResponse_pin_key obj),
       SetPinKeyResponse_pin_key_size := pick g n (SetPinKeyResponse_pin_key_size obj),
       SetPinKeyResponse_has_pin_key := pick g (n > 0) (SetPinKeyResponse_has_pin_key obj)\<rparr>"
  "(if g then ig_SetPinKeyResponse_set_gmt_offset v1 obj else obj) =
     obj\<lparr>SetPinKeyResponse_gmt_offset := pick g v1 (SetPinKeyResponse_gmt_offset obj),
       SetPinKeyResponse_has_gmt_offset := g \<or> SetPinKeyResponse_has_gmt_offset obj\<rparr>"
  "(if g then ig_SetPinKeyResponse_set_dst_times_nocopy False p n obj else obj) =
     obj\<lparr>SetPinKeyResponse_dst_times := pick g p (SetPinKeyResponse_dst_times obj),
       SetPinKeyResponse_dst_times_size := pick g n (SetPinKeyResponse_dst_times_size obj),
       SetPinKeyResponse_has_dst_times := pick g (n > 0) (SetPinKeyResponse_has_dst_times obj)\<rparr>"
  "(if g then ig_SetPinKeyResponse_set_operation_id v3 obj else obj) =
     obj\<lparr>SetPinKeyResponse_operation_id := pick g v3 (SetPinKeyResponse_operation_id obj),
       SetPinKeyResponse_has_operation_id := g \<or> SetPinKeyResponse_has_operation_id obj\<rparr>"
  by (simp_all add: ig_SetPinKeyResponse_setters pick_def)

lemma ig_SetPinKeyResponse_store:
  assumes ok: "ig_SetPinKeyResponse_ok obj"
  shows "store_fields ig_SetPinKeyResponse_cases (ig_SetPinKeyResponse_fields obj)
    ig_SetPinKeyResponse_init = Some obj"
proof -
  have h: "num_ok (SetPinKeyResponse_has_result obj) (SetPinKeyResponse_result obj)"
    "str_ok (SetPinKeyResponse_has_pin_key obj) (SetPinKeyResponse_pin_key obj)
      (SetPinKeyResponse_pin_key_size obj)"
    "num_ok (SetPinKeyResponse_has_gmt_offset obj) (SetPinKeyResponse_gmt_offset obj)"
    "str_ok (SetPinKeyResponse_has_dst_times obj) (SetPinKeyResponse_dst_times obj)
      (SetPinKeyResponse_dst_times_size obj)"
    "num_ok (SetPinKeyResponse_has_operation_id obj) (SetPinKeyResponse_operation_id obj)"
    and valid: "ig_SetPinKeyResponse_is_valid obj"
    using ok by (simp_all add: ig_SetPinKeyResponse_ok_def)
  show ?thesis
    using valid
    by (simp add: ig_SetPinKeyResponse_fields_def ig_SetPinKeyResponse_cases_def
      ig_SetPinKeyResponse_init_def codec_simps
        ig_SetPinKeyResponse_set_if ig_SetPinKeyResponse_setters split del: if_split)
       (simp add: ig_SetPinKeyResponse_is_valid_def
         num_ok_store [OF h(1)]
         str_ok_store [OF h(2)]
         num_ok_store [OF h(3)]
         str_ok_store [OF h(4)]
         num_ok_store [OF h(5)])
qed

lemma ig_SetPinKeyResponse_bound:
  assumes "ig_SetPinKeyResponse_ok obj"
  shows "2 + length (number_bytes 36 MtUnsigned) + fields_bound (ig_SetPinKeyResponse_fields obj)
    \<le> unat (ig_SetPinKeyResponse_get_max_payload_in_bytes obj)"
proof -
  have sizes: "SetPinKeyResponse_pin_key_size obj < 2 ^ 24" "SetPinKeyResponse_dst_times_size obj < 2 ^ 24"
    using assms by (auto simp: ig_SetPinKeyResponse_ok_def dest!: str_ok_bound)
  show ?thesis
    using sizes number_bytes_u8 [of "SetPinKeyResponse_result obj" 0]
      number_bytes_size [of "SetPinKeyResponse_pin_key_size obj" "0x40"]
      item_bytes_i32 [of "SetPinKeyResponse_gmt_offset obj"]
      number_bytes_size [of "SetPinKeyResponse_dst_times_size obj" "0x40"]
      number_bytes_u32 [of "SetPinKeyResponse_operation_id obj" 0]
    by (simp add: ig_SetPinKeyResponse_fields_def ig_SetPinKeyResponse_get_max_payload_in_bytes_def
      number_bytes_literal
        unat_of_nat_small del: of_nat_add)
qed

interpretation SetPinKeyResponse_codec: ig_message ig_SetPinKeyResponse_encode ig_SetPinKeyResponse_decode
  ig_SetPinKeyResponse_get_max_payload_in_bytes ig_SetPinKeyResponse_is_valid
    ig_SetPinKeyResponse_init ig_SetPinKeyResponse_ok 36
  ig_SetPinKeyResponse_fields_size ig_SetPinKeyResponse_fields ig_SetPinKeyResponse_cases
  by (unfold_locales;
      (rule ig_SetPinKeyResponse_encode_def ig_SetPinKeyResponse_decode_def | erule
        ig_SetPinKeyResponse_store ig_SetPinKeyResponse_bound |
       auto simp: ig_SetPinKeyResponse_cases_def ig_SetPinKeyResponse_fields_def
         ig_SetPinKeyResponse_fields_size_def ig_SetPinKeyResponse_ok_def
         simp del: arg_block_ok.simps(1,2) intro: str_ok_block))

end
