(* ===== verification/Messages_Card.thy ===== *)
theory Messages_Card
  imports Ig_Interface
begin

text \<open>
  The files of \<open>lock/messages/\<close> for messages that manage cards and fingerprints.  Per
    message \<open>X\<close>: the struct (\<open>IgX\<close>, members prefixed
  with the message name), \<open>ig_X_init\<close>, the setters, \<open>ig_X_deinit\<close>,
    \<open>ig_X_is_valid\<close>,
  \<open>ig_X_get_max_payload_in_bytes\<close>, the encoder with its list of key/value writes
  (\<open>ig_X_fields\<close>) and the decoder with its list of cases (\<open>ig_X_cases\<close>). 
    The argument
  \<open>same_ptr\<close> of a string setter is the pointer comparison it starts with; the decoders pass
  \<open>False\<close>, their block is fresh.  \<open>ig_X_ok\<close> describes the objects
    \<open>init\<close> and the setters
  build, and the interpretation of \<open>ig_message\<close> proves the file a codec.
\<close>

subsection \<open>AddCardRequest\<close>

record IgAddCardRequest =
  AddCardRequest_has_password :: bool
  AddCardRequest_password :: block_ptr
  AddCardRequest_password_size :: nat
  AddCardRequest_has_duration :: bool
  AddCardRequest_duration :: u32
  AddCardRequest_has_operation_id :: bool
  AddCardRequest_operation_id :: u32

definition ig_AddCardRequest_init :: IgAddCardRequest where
  "ig_AddCardRequest_init =
     \<lparr>AddCardRequest_has_password = False,
      AddCardRequest_password = None,
      AddCardRequest_password_size = 0,
      AddCardRequest_has_duration = False,
      AddCardRequest_duration = 0,
      AddCardRequest_has_operation_id = False,
      AddCardRequest_operation_id = 0\<rparr>"

definition ig_AddCardRequest_get_password_size :: "IgAddCardRequest \<Rightarrow> nat" where
  "ig_AddCardRequest_get_password_size obj = AddCardRequest_password_size obj"

definition ig_AddCardRequest_set_password_nocopy ::
  "bool \<Rightarrow> block_ptr \<Rightarrow> nat \<Rightarrow> IgAddCardRequest \<Rightarrow>
    IgAddCardRequest" where
  "ig_AddCardRequest_set_password_nocopy same_ptr p n obj =
     (if same_ptr then obj
      else let obj = (if AddCardRequest_has_password obj then obj\<lparr>AddCardRequest_password :=
        None\<rparr> else obj)
        in obj\<lparr>AddCardRequest_password := p, AddCardRequest_password_size := n,
          AddCardRequest_has_password := n > 0\<rparr>)"

definition ig_AddCardRequest_set_password ::
  "bool \<Rightarrow> block_ptr \<Rightarrow> nat \<Rightarrow> IgAddCardRequest \<Rightarrow>
    IgAddCardRequest res" where
  "ig_AddCardRequest_set_password same_ptr p n obj =
     (if same_ptr then Ok obj
      else let obj = (if AddCardRequest_has_password obj then obj\<lparr>AddCardRequest_password :=
        None\<rparr> else obj)
        in bindR (block_read p n) (\<lambda>d.
          Ok (obj\<lparr>AddCardRequest_password := Some d, AddCardRequest_password_size := n,
            AddCardRequest_has_password := n > 0\<rparr>)))"

definition ig_AddCardRequest_set_duration :: "u32 \<Rightarrow> IgAddCardRequest \<Rightarrow>
  IgAddCardRequest" where
  "ig_AddCardRequest_set_duration v obj = obj\<lparr>AddCardRequest_duration := v,
    AddCardRequest_has_duration := True\<rparr>"

definition ig_AddCardRequest_set_operation_id :: "u32 \<Rightarrow> IgAddCardRequest \<Rightarrow>
  IgAddCardRequest" where
  "ig_AddCardRequest_set_operation_id v obj = obj\<lparr>AddCardRequest_operation_id := v,
    AddCardRequest_has_operation_id := True\<rparr>"

definition ig_AddCardRequest_deinit :: "IgAddCardRequest \<Rightarrow> IgAddCardRequest" where
  "ig_AddCardRequest_deinit obj = (let
     obj = (if AddCardRequest_has_password obj then obj\<lparr>AddCardRequest_password :=
       None\<rparr> else obj)
   in obj)"

definition ig_AddCardRequest_is_valid :: "IgAddCardRequest \<Rightarrow> bool" where
  "ig_AddCardRequest_is_valid obj \<longleftrightarrow> AddCardRequest_has_password obj"

definition ig_AddCardRequest_get_max_payload_in_bytes :: "IgAddCardRequest \<Rightarrow> u32" where
  "ig_AddCardRequest_get_max_payload_in_bytes obj = word_of_nat (32 + AddCardRequest_password_size obj)"

definition ig_AddCardRequest_fields_size :: "IgAddCardRequest \<Rightarrow> u64" where
  "ig_AddCardRequest_fields_size obj = 1 + 1 + of_bool (AddCardRequest_has_duration obj) + of_bool
    (AddCardRequest_has_operation_id obj)"

definition ig_AddCardRequest_fields :: "IgAddCardRequest \<Rightarrow> enc_field list" where
  "ig_AddCardRequest_fields obj =
    [(True, 11, ABytes (AddCardRequest_password obj) (AddCardRequest_password_size obj)),
     (AddCardRequest_has_duration obj, 12, AUint (ucast (AddCardRequest_duration obj))),
     (AddCardRequest_has_operation_id obj, 100, AUint (ucast (AddCardRequest_operation_id obj)))]"

definition ig_AddCardRequest_encode ::
  "IgAddCardRequest \<Rightarrow> bytes \<Rightarrow> u32 \<Rightarrow> (nat \<times> bytes
    \<times> nat option) res" where
  "ig_AddCardRequest_encode obj retval len =
     (if \<not> ig_AddCardRequest_is_valid obj then Ok (IgSerializerErrorInvalidPayload, retval, None)
      else ig_encode (ig_AddCardRequest_fields_size obj) 65 (ig_AddCardRequest_fields obj) retval len)"

definition ig_AddCardRequest_cases :: "(i64 \<times> IgAddCardRequest case_body) list" where
  "ig_AddCardRequest_cases =
    [(0, CMsgId 65),
     (11, CBytes (ig_AddCardRequest_set_password_nocopy False)),
     (12, CUint (\<lambda>v. ig_AddCardRequest_set_duration (ucast v))),
     (100, CUint (\<lambda>v. ig_AddCardRequest_set_operation_id (ucast v)))]"

definition ig_AddCardRequest_decode :: "bytes \<Rightarrow> IgAddCardRequest \<Rightarrow> nat
  \<Rightarrow> (nat \<times> IgAddCardRequest) res" where
  "ig_AddCardRequest_decode buf obj index = ig_decode ig_AddCardRequest_cases buf obj index"

definition ig_AddCardRequest_ok :: "IgAddCardRequest \<Rightarrow> bool" where
  "ig_AddCardRequest_ok obj \<longleftrightarrow> ig_AddCardRequest_is_valid obj \<and>
     str_ok (AddCardRequest_has_password obj) (AddCardRequest_password obj)
       (AddCardRequest_password_size obj) \<and>
     num_ok (AddCardRequest_has_duration obj) (AddCardRequest_duration obj) \<and>
     num_ok (AddCardRequest_has_operation_id obj) (AddCardRequest_operation_id obj)"

lemmas ig_AddCardRequest_setters =
  ig_AddCardRequest_set_duration_def
  ig_AddCardRequest_set_operation_id_def
  ig_AddCardRequest_set_password_nocopy_def

text \<open>A guarded setter, member by member.\<close>
lemma ig_AddCardRequest_set_if:
  "(if g then ig_AddCardRequest_set_duration v0 obj else obj) =
     obj\<lparr>AddCardRequest_duration := pick g v0 (AddCardRequest_duration obj),
       AddCardRequest_has_duration := g \<or> AddCardRequest_has_duration obj\<rparr>"
  "(if g then ig_AddCardRequest_set_operation_id v1 obj else obj) =
     obj\<lparr>AddCardRequest_operation_id := pick g v1 (AddCardRequest_operation_id obj),
       AddCardRequest_has_operation_id := g \<or> AddCardRequest_has_operation_id obj\<rparr>"
  by (simp_all add: ig_AddCardRequest_setters pick_def)

lemma ig_AddCardRequest_store:
  assumes ok: "ig_AddCardRequest_ok obj"
  shows "store_fields ig_AddCardRequest_cases (ig_AddCardRequest_fields obj) ig_AddCardRequest_init
    = Some obj"
proof -
  have h: "str_ok (AddCardRequest_has_password obj) (AddCardRequest_password obj)
    (AddCardRequest_password_size obj)"
    "num_ok (AddCardRequest_has_duration obj) (AddCardRequest_duration obj)"
    "num_ok (AddCardRequest_has_operation_id obj) (AddCardRequest_operation_id obj)"
    and valid: "ig_AddCardRequest_is_valid obj"
    using ok by (simp_all add: ig_AddCardRequest_ok_def)
  show ?thesis
    using valid
    by (simp add: ig_AddCardRequest_fields_def ig_AddCardRequest_cases_def
      ig_AddCardRequest_init_def codec_simps
        ig_AddCardRequest_set_if ig_AddCardRequest_setters split del: if_split)
       (simp add: ig_AddCardRequest_is_valid_def
         str_ok_store [OF h(1)]
         num_ok_store [OF h(2)]
         num_ok_store [OF h(3)])
qed

lemma ig_AddCardRequest_bound:
  assumes "ig_AddCardRequest_ok obj"
  shows "2 + length (number_bytes 65 MtUnsigned) + fields_bound (ig_AddCardRequest_fields obj)
    \<le> unat (ig_AddCardRequest_get_max_payload_in_bytes obj)"
proof -
  have sizes: "AddCardRequest_password_size obj < 2 ^ 24"
    using assms by (auto simp: ig_AddCardRequest_ok_def dest!: str_ok_bound)
  show ?thesis
    using sizes number_bytes_size [of "AddCardRequest_password_size obj" "0x40"]
      number_bytes_u32 [of "AddCardRequest_duration obj" 0]
      number_bytes_u32 [of "AddCardRequest_operation_id obj" 0]
    by (simp add: ig_AddCardRequest_fields_def ig_AddCardRequest_get_max_payload_in_bytes_def
      number_bytes_literal
        unat_of_nat_small del: of_nat_add)
qed

interpretation AddCardRequest_codec: ig_message ig_AddCardRequest_encode ig_AddCardRequest_decode
  ig_AddCardRequest_get_max_payload_in_bytes ig_AddCardRequest_is_valid ig_AddCardRequest_init
    ig_AddCardRequest_ok 65
  ig_AddCardRequest_fields_size ig_AddCardRequest_fields ig_AddCardRequest_cases
  by (unfold_locales;
      (rule ig_AddCardRequest_encode_def ig_AddCardRequest_decode_def | erule
        ig_AddCardRequest_store ig_AddCardRequest_bound |
       auto simp: ig_AddCardRequest_cases_def ig_AddCardRequest_fields_def
         ig_AddCardRequest_fields_size_def ig_AddCardRequest_ok_def
         simp del: arg_block_ok.simps(1,2) intro: str_ok_block))

subsection \<open>AddCardResponse\<close>

record IgAddCardResponse =
  AddCardResponse_has_result :: bool
  AddCardResponse_result :: u8
  AddCardResponse_has_operation_id :: bool
  AddCardResponse_operation_id :: u32

definition ig_AddCardResponse_init :: IgAddCardResponse where
  "ig_AddCardResponse_init =
     \<lparr>AddCardResponse_has_result = False,
      AddCardResponse_result = 0,
      AddCardResponse_has_operation_id = False,
      AddCardResponse_operation_id = 0\<rparr>"

definition ig_AddCardResponse_set_result :: "u8 \<Rightarrow> IgAddCardResponse \<Rightarrow>
  IgAddCardResponse" where
  "ig_AddCardResponse_set_result v obj = obj\<lparr>AddCardResponse_result := v,
    AddCardResponse_has_result := True\<rparr>"

definition ig_AddCardResponse_set_operation_id :: "u32 \<Rightarrow> IgAddCardResponse
  \<Rightarrow> IgAddCardResponse" where
  "ig_AddCardResponse_set_operation_id v obj = obj\<lparr>AddCardResponse_operation_id := v,
    AddCardResponse_has_operation_id := True\<rparr>"

definition ig_AddCardResponse_deinit :: "IgAddCardResponse \<Rightarrow> IgAddCardResponse" where
  "ig_AddCardResponse_deinit obj = obj"

definition ig_AddCardResponse_is_valid :: "IgAddCardResponse \<Rightarrow> bool" where
  "ig_AddCardResponse_is_valid obj \<longleftrightarrow> AddCardResponse_has_result obj"

definition ig_AddCardResponse_get_max_payload_in_bytes :: "IgAddCardResponse \<Rightarrow> u32" where
  "ig_AddCardResponse_get_max_payload_in_bytes obj = 22"

definition ig_AddCardResponse_fields_size :: "IgAddCardResponse \<Rightarrow> u64" where
  "ig_AddCardResponse_fields_size obj = 1 + 1 + of_bool (AddCardResponse_has_operation_id obj)"

definition ig_AddCardResponse_fields :: "IgAddCardResponse \<Rightarrow> enc_field list" where
  "ig_AddCardResponse_fields obj =
    [(True, 11, AUint (ucast (AddCardResponse_result obj))),
     (AddCardResponse_has_operation_id obj, 100, AUint (ucast (AddCardResponse_operation_id obj)))]"

definition ig_AddCardResponse_encode ::
  "IgAddCardResponse \<Rightarrow> bytes \<Rightarrow> u32 \<Rightarrow> (nat \<times> bytes
    \<times> nat option) res" where
  "ig_AddCardResponse_encode obj retval len =
     (if \<not> ig_AddCardResponse_is_valid obj then Ok (IgSerializerErrorInvalidPayload, retval, None)
      else ig_encode (ig_AddCardResponse_fields_size obj) 66 (ig_AddCardResponse_fields obj) retval len)"

definition ig_AddCardResponse_cases :: "(i64 \<times> IgAddCardResponse case_body) list" where
  "ig_AddCardResponse_cases =
    [(0, CMsgId 66),
     (11, CUint (\<lambda>v. ig_AddCardResponse_set_result (ucast v))),
     (100, CUint (\<lambda>v. ig_AddCardResponse_set_operation_id (ucast v)))]"

definition ig_AddCardResponse_decode :: "bytes \<Rightarrow> IgAddCardResponse \<Rightarrow> nat
  \<Rightarrow> (nat \<times> IgAddCardResponse) res" where
  "ig_AddCardResponse_decode buf obj index = ig_decode ig_AddCardResponse_cases buf obj index"

definition ig_AddCardResponse_ok :: "IgAddCardResponse \<Rightarrow> bool" where
  "ig_AddCardResponse_ok obj \<longleftrightarrow> ig_AddCardResponse_is_valid obj \<and>
     num_ok (AddCardResponse_has_result obj) (AddCardResponse_result obj) \<and>
     num_ok (AddCardResponse_has_operation_id obj) (AddCardResponse_operation_id obj)"

lemmas ig_AddCardResponse_setters =
  ig_AddCardResponse_set_operation_id_def
  ig_AddCardResponse_set_result_def

text \<open>A guarded setter, member by member.\<close>
lemma ig_AddCardResponse_set_if:
  "(if g then ig_AddCardResponse_set_operation_id v0 obj else obj) =
     obj\<lparr>AddCardResponse_operation_id := pick g v0 (AddCardResponse_operation_id obj),
       AddCardResponse_has_operation_id := g \<or> AddCardResponse_has_operation_id obj\<rparr>"
  by (simp_all add: ig_AddCardResponse_setters pick_def)

lemma ig_AddCardResponse_store:
  assumes ok: "ig_AddCardResponse_ok obj"
  shows "store_fields ig_AddCardResponse_cases (ig_AddCardResponse_fields obj)
    ig_AddCardResponse_init = Some obj"
proof -
  have h: "num_ok (AddCardResponse_has_result obj) (AddCardResponse_result obj)"
    "num_ok (AddCardResponse_has_operation_id obj) (AddCardResponse_operation_id obj)"
    and valid: "ig_AddCardResponse_is_valid obj"
    using ok by (simp_all add: ig_AddCardResponse_ok_def)
  show ?thesis
    using valid
    by (simp add: ig_AddCardResponse_fields_def ig_AddCardResponse_cases_def
      ig_AddCardResponse_init_def codec_simps
        ig_AddCardResponse_set_if ig_AddCardResponse_setters split del: if_split)
       (simp add: ig_AddCardResponse_is_valid_def
         num_ok_store [OF h(1)]
         num_ok_store [OF h(2)])
qed

lemma ig_AddCardResponse_bound:
  assumes "ig_AddCardResponse_ok obj"
  shows "2 + length (number_bytes 66 MtUnsigned) + fields_bound (ig_AddCardResponse_fields obj)
    \<le> unat (ig_AddCardResponse_get_max_payload_in_bytes obj)"
  using number_bytes_u8 [of "AddCardResponse_result obj" 0]
    number_bytes_u32 [of "AddCardResponse_operation_id obj" 0]
  by (simp add: ig_AddCardResponse_fields_def ig_AddCardResponse_get_max_payload_in_bytes_def
    number_bytes_literal)

interpretation AddCardResponse_codec: ig_message ig_AddCardResponse_encode ig_AddCardResponse_decode
  ig_AddCardResponse_get_max_payload_in_bytes ig_AddCardResponse_is_valid ig_AddCardResponse_init
    ig_AddCardResponse_ok 66
  ig_AddCardResponse_fields_size ig_AddCardResponse_fields ig_AddCardResponse_cases
  by (unfold_locales;
      (rule ig_AddCardResponse_encode_def ig_AddCardResponse_decode_def | erule
        ig_AddCardResponse_store ig_AddCardResponse_bound |
       auto simp: ig_AddCardResponse_cases_def ig_AddCardResponse_fields_def
         ig_AddCardResponse_fields_size_def ig_AddCardResponse_ok_def
         simp del: arg_block_ok.simps(1,2) intro: str_ok_block))

subsection \<open>DeleteCardRequest\<close>

record IgDeleteCardRequest =
  DeleteCardRequest_has_password :: bool
  DeleteCardRequest_password :: block_ptr
  DeleteCardRequest_password_size :: nat
  DeleteCardRequest_has_duration :: bool
  DeleteCardRequest_duration :: u32
  DeleteCardRequest_has_operation_id :: bool
  DeleteCardRequest_operation_id :: u32

definition ig_DeleteCardRequest_init :: IgDeleteCardRequest where
  "ig_DeleteCardRequest_init =
     \<lparr>DeleteCardRequest_has_password = False,
      DeleteCardRequest_password = None,
      DeleteCardRequest_password_size = 0,
      DeleteCardRequest_has_duration = False,
      DeleteCardRequest_duration = 0,
      DeleteCardRequest_has_operation_id = False,
      DeleteCardRequest_operation_id = 0\<rparr>"

definition ig_DeleteCardRequest_get_password_size :: "IgDeleteCardRequest \<Rightarrow> nat" where
  "ig_DeleteCardRequest_get_password_size obj = DeleteCardRequest_password_size obj"

definition ig_DeleteCardRequest_set_password_nocopy ::
  "bool \<Rightarrow> block_ptr \<Rightarrow> nat \<Rightarrow> IgDeleteCardRequest \<Rightarrow>
    IgDeleteCardRequest" where
  "ig_DeleteCardRequest_set_password_nocopy same_ptr p n obj =
     (if same_ptr then obj
      else let obj = (if DeleteCardRequest_has_password obj then
        obj\<lparr>DeleteCardRequest_password := None\<rparr> else obj)
        in obj\<lparr>DeleteCardRequest_password := p, DeleteCardRequest_password_size := n,
          DeleteCardRequest_has_password := n > 0\<rparr>)"

definition ig_DeleteCardRequest_set_password ::
  "bool \<Rightarrow> block_ptr \<Rightarrow> nat \<Rightarrow> IgDeleteCardRequest \<Rightarrow>
    IgDeleteCardRequest res" where
  "ig_DeleteCardRequest_set_password same_ptr p n obj =
     (if same_ptr then Ok obj
      else let obj = (if DeleteCardRequest_has_password obj then
        obj\<lparr>DeleteCardRequest_password := None\<rparr> else obj)
        in bindR (block_read p n) (\<lambda>d.
          Ok (obj\<lparr>DeleteCardRequest_password := Some d, DeleteCardRequest_password_size :=
            n, DeleteCardRequest_has_password := n > 0\<rparr>)))"

definition ig_DeleteCardRequest_set_duration :: "u32 \<Rightarrow> IgDeleteCardRequest
  \<Rightarrow> IgDeleteCardRequest" where
  "ig_DeleteCardRequest_set_duration v obj = obj\<lparr>DeleteCardRequest_duration := v,
    DeleteCardRequest_has_duration := True\<rparr>"

definition ig_DeleteCardRequest_set_operation_id :: "u32 \<Rightarrow> IgDeleteCardRequest
  \<Rightarrow> IgDeleteCardRequest" where
  "ig_DeleteCardRequest_set_operation_id v obj = obj\<lparr>DeleteCardRequest_operation_id := v,
    DeleteCardRequest_has_operation_id := True\<rparr>"

definition ig_DeleteCardRequest_deinit :: "IgDeleteCardRequest \<Rightarrow> IgDeleteCardRequest" where
  "ig_DeleteCardRequest_deinit obj = (let
     obj = (if DeleteCardRequest_has_password obj then obj\<lparr>DeleteCardRequest_password :=
       None\<rparr> else obj)
   in obj)"

definition ig_DeleteCardRequest_is_valid :: "IgDeleteCardRequest \<Rightarrow> bool" where
  "ig_DeleteCardRequest_is_valid obj \<longleftrightarrow> DeleteCardRequest_has_password obj"

definition ig_DeleteCardRequest_get_max_payload_in_bytes :: "IgDeleteCardRequest \<Rightarrow> u32" where
  "ig_DeleteCardRequest_get_max_payload_in_bytes obj = word_of_nat (32 + DeleteCardRequest_password_size obj)"

definition ig_DeleteCardRequest_fields_size :: "IgDeleteCardRequest \<Rightarrow> u64" where
  "ig_DeleteCardRequest_fields_size obj = 1 + 1 + of_bool (DeleteCardRequest_has_duration obj) +
    of_bool (DeleteCardRequest_has_operation_id obj)"

definition ig_DeleteCardRequest_fields :: "IgDeleteCardRequest \<Rightarrow> enc_field list" where
  "ig_DeleteCardRequest_fields obj =
    [(True, 11, ABytes (DeleteCardRequest_password obj) (DeleteCardRequest_password_size obj)),
     (DeleteCardRequest_has_duration obj, 12, AUint (ucast (DeleteCardRequest_duration obj))),
     (DeleteCardRequest_has_operation_id obj, 100, AUint (ucast (DeleteCardRequest_operation_id obj)))]"

definition ig_DeleteCardRequest_encode ::
  "IgDeleteCardRequest \<Rightarrow> bytes \<Rightarrow> u32 \<Rightarrow> (nat \<times> bytes
    \<times> nat option) res" where
  "ig_DeleteCardRequest_encode obj retval len =
     (if \<not> ig_DeleteCardRequest_is_valid obj then Ok (IgSerializerErrorInvalidPayload, retval, None)
      else ig_encode (ig_DeleteCardRequest_fields_size obj) 67 (ig_DeleteCardRequest_fields obj) retval len)"

definition ig_DeleteCardRequest_cases :: "(i64 \<times> IgDeleteCardRequest case_body) list" where
  "ig_DeleteCardRequest_cases =
    [(0, CMsgId 67),
     (11, CBytes (ig_DeleteCardRequest_set_password_nocopy False)),
     (12, CUint (\<lambda>v. ig_DeleteCardRequest_set_duration (ucast v))),
     (100, CUint (\<lambda>v. ig_DeleteCardRequest_set_operation_id (ucast v)))]"

definition ig_DeleteCardRequest_decode :: "bytes \<Rightarrow> IgDeleteCardRequest \<Rightarrow>
  nat \<Rightarrow> (nat \<times> IgDeleteCardRequest) res" where
  "ig_DeleteCardRequest_decode buf obj index = ig_decode ig_DeleteCardRequest_cases buf obj index"

definition ig_DeleteCardRequest_ok :: "IgDeleteCardRequest \<Rightarrow> bool" where
  "ig_DeleteCardRequest_ok obj \<longleftrightarrow> ig_DeleteCardRequest_is_valid obj \<and>
     str_ok (DeleteCardRequest_has_password obj) (DeleteCardRequest_password obj)
       (DeleteCardRequest_password_size obj) \<and>
     num_ok (DeleteCardRequest_has_duration obj) (DeleteCardRequest_duration obj) \<and>
     num_ok (DeleteCardRequest_has_operation_id obj) (DeleteCardRequest_operation_id obj)"

lemmas ig_DeleteCardRequest_setters =
  ig_DeleteCardRequest_set_duration_def
  ig_DeleteCardRequest_set_operation_id_def
  ig_DeleteCardRequest_set_password_nocopy_def

text \<open>A guarded setter, member by member.\<close>
lemma ig_DeleteCardRequest_set_if:
  "(if g then ig_DeleteCardRequest_set_duration v0 obj else obj) =
     obj\<lparr>DeleteCardRequest_duration := pick g v0 (DeleteCardRequest_duration obj),
       DeleteCardRequest_has_duration := g \<or> DeleteCardRequest_has_duration obj\<rparr>"
  "(if g then ig_DeleteCardRequest_set_operation_id v1 obj else obj) =
     obj\<lparr>DeleteCardRequest_operation_id := pick g v1 (DeleteCardRequest_operation_id obj),
       DeleteCardRequest_has_operation_id := g \<or> DeleteCardRequest_has_operation_id obj\<rparr>"
  by (simp_all add: ig_DeleteCardRequest_setters pick_def)

lemma ig_DeleteCardRequest_store:
  assumes ok: "ig_DeleteCardRequest_ok obj"
  shows "store_fields ig_DeleteCardRequest_cases (ig_DeleteCardRequest_fields obj)
    ig_DeleteCardRequest_init = Some obj"
proof -
  have h: "str_ok (DeleteCardRequest_has_password obj) (DeleteCardRequest_password obj)
    (DeleteCardRequest_password_size obj)"
    "num_ok (DeleteCardRequest_has_duration obj) (DeleteCardRequest_duration obj)"
    "num_ok (DeleteCardRequest_has_operation_id obj) (DeleteCardRequest_operation_id obj)"
    and valid: "ig_DeleteCardRequest_is_valid obj"
    using ok by (simp_all add: ig_DeleteCardRequest_ok_def)
  show ?thesis
    using valid
    by (simp add: ig_DeleteCardRequest_fields_def ig_DeleteCardRequest_cases_def
      ig_DeleteCardRequest_init_def codec_simps
        ig_DeleteCardRequest_set_if ig_DeleteCardRequest_setters split del: if_split)
       (simp add: ig_DeleteCardRequest_is_valid_def
         str_ok_store [OF h(1)]
         num_ok_store [OF h(2)]
         num_ok_store [OF h(3)])
qed

lemma ig_DeleteCardRequest_bound:
  assumes "ig_DeleteCardRequest_ok obj"
  shows "2 + length (number_bytes 67 MtUnsigned) + fields_bound (ig_DeleteCardRequest_fields obj)
    \<le> unat (ig_DeleteCardRequest_get_max_payload_in_bytes obj)"
proof -
  have sizes: "DeleteCardRequest_password_size obj < 2 ^ 24"
    using assms by (auto simp: ig_DeleteCardRequest_ok_def dest!: str_ok_bound)
  show ?thesis
    using sizes number_bytes_size [of "DeleteCardRequest_password_size obj" "0x40"]
      number_bytes_u32 [of "DeleteCardRequest_duration obj" 0]
      number_bytes_u32 [of "DeleteCardRequest_operation_id obj" 0]
    by (simp add: ig_DeleteCardRequest_fields_def ig_DeleteCardRequest_get_max_payload_in_bytes_def
      number_bytes_literal
        unat_of_nat_small del: of_nat_add)
qed

interpretation DeleteCardRequest_codec: ig_message ig_DeleteCardRequest_encode ig_DeleteCardRequest_decode
  ig_DeleteCardRequest_get_max_payload_in_bytes ig_DeleteCardRequest_is_valid
    ig_DeleteCardRequest_init ig_DeleteCardRequest_ok 67
  ig_DeleteCardRequest_fields_size ig_DeleteCardRequest_fields ig_DeleteCardRequest_cases
  by (unfold_locales;
      (rule ig_DeleteCardRequest_encode_def ig_DeleteCardRequest_decode_def | erule
        ig_DeleteCardRequest_store ig_DeleteCardRequest_bound |
       auto simp: ig_DeleteCardRequest_cases_def ig_DeleteCardRequest_fields_def
         ig_DeleteCardRequest_fields_size_def ig_DeleteCardRequest_ok_def
         simp del: arg_block_ok.simps(1,2) intro: str_ok_block))

subsection \<open>DeleteCardResponse\<close>

record IgDeleteCardResponse =
  DeleteCardResponse_has_result :: bool
  DeleteCardResponse_result :: u8
  DeleteCardResponse_has_operation_id :: bool
  DeleteCardResponse_operation_id :: u32

definition ig_DeleteCardResponse_init :: IgDeleteCardResponse where
  "ig_DeleteCardResponse_init =
     \<lparr>DeleteCardResponse_has_result = False,
      DeleteCardResponse_result = 0,
      DeleteCardResponse_has_operation_id = False,
      DeleteCardResponse_operation_id = 0\<rparr>"

definition ig_DeleteCardResponse_set_result :: "u8 \<Rightarrow> IgDeleteCardResponse \<Rightarrow>
  IgDeleteCardResponse" where
  "ig_DeleteCardResponse_set_result v obj = obj\<lparr>DeleteCardResponse_result := v,
    DeleteCardResponse_has_result := True\<rparr>"

definition ig_DeleteCardResponse_set_operation_id :: "u32 \<Rightarrow> IgDeleteCardResponse
  \<Rightarrow> IgDeleteCardResponse" where
  "ig_DeleteCardResponse_set_operation_id v obj = obj\<lparr>DeleteCardResponse_operation_id := v,
    DeleteCardResponse_has_operation_id := True\<rparr>"

definition ig_DeleteCardResponse_deinit :: "IgDeleteCardResponse \<Rightarrow> IgDeleteCardResponse" where
  "ig_DeleteCardResponse_deinit obj = obj"

definition ig_DeleteCardResponse_is_valid :: "IgDeleteCardResponse \<Rightarrow> bool" where
  "ig_DeleteCardResponse_is_valid obj \<longleftrightarrow> DeleteCardResponse_has_result obj"

definition ig_DeleteCardResponse_get_max_payload_in_bytes :: "IgDeleteCardResponse \<Rightarrow> u32" where
  "ig_DeleteCardResponse_get_max_payload_in_bytes obj = 22"

definition ig_DeleteCardResponse_fields_size :: "IgDeleteCardResponse \<Rightarrow> u64" where
  "ig_DeleteCardResponse_fields_size obj = 1 + 1 + of_bool (DeleteCardResponse_has_operation_id obj)"

definition ig_DeleteCardResponse_fields :: "IgDeleteCardResponse \<Rightarrow> enc_field list" where
  "ig_DeleteCardResponse_fields obj =
    [(True, 11, AUint (ucast (DeleteCardResponse_result obj))),
     (DeleteCardResponse_has_operation_id obj, 100, AUint (ucast (DeleteCardResponse_operation_id obj)))]"

definition ig_DeleteCardResponse_encode ::
  "IgDeleteCardResponse \<Rightarrow> bytes \<Rightarrow> u32 \<Rightarrow> (nat \<times> bytes
    \<times> nat option) res" where
  "ig_DeleteCardResponse_encode obj retval len =
     (if \<not> ig_DeleteCardResponse_is_valid obj then Ok (IgSerializerErrorInvalidPayload, retval, None)
      else ig_encode (ig_DeleteCardResponse_fields_size obj) 68 (ig_DeleteCardResponse_fields obj)
        retval len)"

definition ig_DeleteCardResponse_cases :: "(i64 \<times> IgDeleteCardResponse case_body) list" where
  "ig_DeleteCardResponse_cases =
    [(0, CMsgId 68),
     (11, CUint (\<lambda>v. ig_DeleteCardResponse_set_result (ucast v))),
     (100, CUint (\<lambda>v. ig_DeleteCardResponse_set_operation_id (ucast v)))]"

definition ig_DeleteCardResponse_decode :: "bytes \<Rightarrow> IgDeleteCardResponse \<Rightarrow>
  nat \<Rightarrow> (nat \<times> IgDeleteCardResponse) res" where
  "ig_DeleteCardResponse_decode buf obj index = ig_decode ig_DeleteCardResponse_cases buf obj index"

definition ig_DeleteCardResponse_ok :: "IgDeleteCardResponse \<Rightarrow> bool" where
  "ig_DeleteCardResponse_ok obj \<longleftrightarrow> ig_DeleteCardResponse_is_valid obj \<and>
     num_ok (DeleteCardResponse_has_result obj) (DeleteCardResponse_result obj) \<and>
     num_ok (DeleteCardResponse_has_operation_id obj) (DeleteCardResponse_operation_id obj)"

lemmas ig_DeleteCardResponse_setters =
  ig_DeleteCardResponse_set_operation_id_def
  ig_DeleteCardResponse_set_result_def

text \<open>A guarded setter, member by member.\<close>
lemma ig_DeleteCardResponse_set_if:
  "(if g then ig_DeleteCardResponse_set_operation_id v0 obj else obj) =
     obj\<lparr>DeleteCardResponse_operation_id := pick g v0 (DeleteCardResponse_operation_id obj),
       DeleteCardResponse_has_operation_id := g \<or> DeleteCardResponse_has_operation_id obj\<rparr>"
  by (simp_all add: ig_DeleteCardResponse_setters pick_def)

lemma ig_DeleteCardResponse_store:
  assumes ok: "ig_DeleteCardResponse_ok obj"
  shows "store_fields ig_DeleteCardResponse_cases (ig_DeleteCardResponse_fields obj)
    ig_DeleteCardResponse_init = Some obj"
proof -
  have h: "num_ok (DeleteCardResponse_has_result obj) (DeleteCardResponse_result obj)"
    "num_ok (DeleteCardResponse_has_operation_id obj) (DeleteCardResponse_operation_id obj)"
    and valid: "ig_DeleteCardResponse_is_valid obj"
    using ok by (simp_all add: ig_DeleteCardResponse_ok_def)
  show ?thesis
    using valid
    by (simp add: ig_DeleteCardResponse_fields_def ig_DeleteCardResponse_cases_def
      ig_DeleteCardResponse_init_def codec_simps
        ig_DeleteCardResponse_set_if ig_DeleteCardResponse_setters split del: if_split)
       (simp add: ig_DeleteCardResponse_is_valid_def
         num_ok_store [OF h(1)]
         num_ok_store [OF h(2)])
qed

lemma ig_DeleteCardResponse_bound:
  assumes "ig_DeleteCardResponse_ok obj"
  shows "2 + length (number_bytes 68 MtUnsigned) + fields_bound (ig_DeleteCardResponse_fields obj)
    \<le> unat (ig_DeleteCardResponse_get_max_payload_in_bytes obj)"
  using number_bytes_u8 [of "DeleteCardResponse_result obj" 0]
    number_bytes_u32 [of "DeleteCardResponse_operation_id obj" 0]
  by (simp add: ig_DeleteCardResponse_fields_def ig_DeleteCardResponse_get_max_payload_in_bytes_def
    number_bytes_literal)

interpretation DeleteCardResponse_codec: ig_message ig_DeleteCardResponse_encode ig_DeleteCardResponse_decode
  ig_DeleteCardResponse_get_max_payload_in_bytes ig_DeleteCardResponse_is_valid
    ig_DeleteCardResponse_init ig_DeleteCardResponse_ok 68
  ig_DeleteCardResponse_fields_size ig_DeleteCardResponse_fields ig_DeleteCardResponse_cases
  by (unfold_locales;
      (rule ig_DeleteCardResponse_encode_def ig_DeleteCardResponse_decode_def | erule
        ig_DeleteCardResponse_store ig_DeleteCardResponse_bound |
       auto simp: ig_DeleteCardResponse_cases_def ig_DeleteCardResponse_fields_def
         ig_DeleteCardResponse_fields_size_def ig_DeleteCardResponse_ok_def
         simp del: arg_block_ok.simps(1,2) intro: str_ok_block))

subsection \<open>DeleteCardUidRequest\<close>

record IgDeleteCardUidRequest =
  DeleteCardUidRequest_has_password :: bool
  DeleteCardUidRequest_password :: block_ptr
  DeleteCardUidRequest_password_size :: nat
  DeleteCardUidRequest_has_card_uid :: bool
  DeleteCardUidRequest_card_uid :: block_ptr
  DeleteCardUidRequest_card_uid_size :: nat
  DeleteCardUidRequest_has_operation_id :: bool
  DeleteCardUidRequest_operation_id :: u32

definition ig_DeleteCardUidRequest_init :: IgDeleteCardUidRequest where
  "ig_DeleteCardUidRequest_init =
     \<lparr>DeleteCardUidRequest_has_password = False,
      DeleteCardUidRequest_password = None,
      DeleteCardUidRequest_password_size = 0,
      DeleteCardUidRequest_has_card_uid = False,
      DeleteCardUidRequest_card_uid = None,
      DeleteCardUidRequest_card_uid_size = 0,
      DeleteCardUidRequest_has_operation_id = False,
      DeleteCardUidRequest_operation_id = 0\<rparr>"

definition ig_DeleteCardUidRequest_get_password_size :: "IgDeleteCardUidRequest \<Rightarrow> nat" where
  "ig_DeleteCardUidRequest_get_password_size obj = DeleteCardUidRequest_password_size obj"

definition ig_DeleteCardUidRequest_set_password_nocopy ::
  "bool \<Rightarrow> block_ptr \<Rightarrow> nat \<Rightarrow> IgDeleteCardUidRequest
    \<Rightarrow> IgDeleteCardUidRequest" where
  "ig_DeleteCardUidRequest_set_password_nocopy same_ptr p n obj =
     (if same_ptr then obj
      else let obj = (if DeleteCardUidRequest_has_password obj then
        obj\<lparr>DeleteCardUidRequest_password := None\<rparr> else obj)
        in obj\<lparr>DeleteCardUidRequest_password := p, DeleteCardUidRequest_password_size := n,
          DeleteCardUidRequest_has_password := n > 0\<rparr>)"

definition ig_DeleteCardUidRequest_set_password ::
  "bool \<Rightarrow> block_ptr \<Rightarrow> nat \<Rightarrow> IgDeleteCardUidRequest
    \<Rightarrow> IgDeleteCardUidRequest res" where
  "ig_DeleteCardUidRequest_set_password same_ptr p n obj =
     (if same_ptr then Ok obj
      else let obj = (if DeleteCardUidRequest_has_password obj then
        obj\<lparr>DeleteCardUidRequest_password := None\<rparr> else obj)
        in bindR (block_read p n) (\<lambda>d.
          Ok (obj\<lparr>DeleteCardUidRequest_password := Some d,
            DeleteCardUidRequest_password_size := n, DeleteCardUidRequest_has_password := n > 0\<rparr>)))"

definition ig_DeleteCardUidRequest_get_card_uid_size :: "IgDeleteCardUidRequest \<Rightarrow> nat" where
  "ig_DeleteCardUidRequest_get_card_uid_size obj = DeleteCardUidRequest_card_uid_size obj"

definition ig_DeleteCardUidRequest_set_card_uid_nocopy ::
  "bool \<Rightarrow> block_ptr \<Rightarrow> nat \<Rightarrow> IgDeleteCardUidRequest
    \<Rightarrow> IgDeleteCardUidRequest" where
  "ig_DeleteCardUidRequest_set_card_uid_nocopy same_ptr p n obj =
     (if same_ptr then obj
      else let obj = (if DeleteCardUidRequest_has_card_uid obj then
        obj\<lparr>DeleteCardUidRequest_card_uid := None\<rparr> else obj)
        in obj\<lparr>DeleteCardUidRequest_card_uid := p, DeleteCardUidRequest_card_uid_size := n,
          DeleteCardUidRequest_has_card_uid := n > 0\<rparr>)"

definition ig_DeleteCardUidRequest_set_card_uid ::
  "bool \<Rightarrow> block_ptr \<Rightarrow> nat \<Rightarrow> IgDeleteCardUidRequest
    \<Rightarrow> IgDeleteCardUidRequest res" where
  "ig_DeleteCardUidRequest_set_card_uid same_ptr p n obj =
     (if same_ptr then Ok obj
      else let obj = (if DeleteCardUidRequest_has_card_uid obj then
        obj\<lparr>DeleteCardUidRequest_card_uid := None\<rparr> else obj)
        in bindR (block_read p n) (\<lambda>d.
          Ok (obj\<lparr>DeleteCardUidRequest_card_uid := Some d,
            DeleteCardUidRequest_card_uid_size := n, DeleteCardUidRequest_has_card_uid := n > 0\<rparr>)))"

definition ig_DeleteCardUidRequest_set_operation_id :: "u32 \<Rightarrow> IgDeleteCardUidRequest
  \<Rightarrow> IgDeleteCardUidRequest" where
  "ig_DeleteCardUidRequest_set_operation_id v obj = obj\<lparr>DeleteCardUidRequest_operation_id :=
    v, DeleteCardUidRequest_has_operation_id := True\<rparr>"

definition ig_DeleteCardUidRequest_deinit :: "IgDeleteCardUidRequest \<Rightarrow>
  IgDeleteCardUidRequest" where
  "ig_DeleteCardUidRequest_deinit obj = (let
     obj = (if DeleteCardUidRequest_has_password obj then obj\<lparr>DeleteCardUidRequest_password
       := None\<rparr> else obj);
     obj = (if DeleteCardUidRequest_has_card_uid obj then obj\<lparr>DeleteCardUidRequest_card_uid
       := None\<rparr> else obj)
   in obj)"

definition ig_DeleteCardUidRequest_is_valid :: "IgDeleteCardUidRequest \<Rightarrow> bool" where
  "ig_DeleteCardUidRequest_is_valid obj \<longleftrightarrow> DeleteCardUidRequest_has_password obj"

definition ig_DeleteCardUidRequest_get_max_payload_in_bytes :: "IgDeleteCardUidRequest
  \<Rightarrow> u32" where
  "ig_DeleteCardUidRequest_get_max_payload_in_bytes obj = word_of_nat (33 +
    DeleteCardUidRequest_password_size obj + DeleteCardUidRequest_card_uid_size obj)"

definition ig_DeleteCardUidRequest_fields_size :: "IgDeleteCardUidRequest \<Rightarrow> u64" where
  "ig_DeleteCardUidRequest_fields_size obj = 1 + 1 + of_bool (DeleteCardUidRequest_has_card_uid
    obj) + of_bool (DeleteCardUidRequest_has_operation_id obj)"

definition ig_DeleteCardUidRequest_fields :: "IgDeleteCardUidRequest \<Rightarrow> enc_field list" where
  "ig_DeleteCardUidRequest_fields obj =
    [(True, 11, ABytes (DeleteCardUidRequest_password obj) (DeleteCardUidRequest_password_size obj)),
     (DeleteCardUidRequest_has_card_uid obj, 12, ABytes (DeleteCardUidRequest_card_uid obj)
       (DeleteCardUidRequest_card_uid_size obj)),
     (DeleteCardUidRequest_has_operation_id obj, 100, AUint (ucast (DeleteCardUidRequest_operation_id obj)))]"

definition ig_DeleteCardUidRequest_encode ::
  "IgDeleteCardUidRequest \<Rightarrow> bytes \<Rightarrow> u32 \<Rightarrow> (nat \<times> bytes
    \<times> nat option) res" where
  "ig_DeleteCardUidRequest_encode obj retval len =
     (if \<not> ig_DeleteCardUidRequest_is_valid obj then Ok (IgSerializerErrorInvalidPayload, retval, None)
      else ig_encode (ig_DeleteCardUidRequest_fields_size obj) 69 (ig_DeleteCardUidRequest_fields
        obj) retval len)"

definition ig_DeleteCardUidRequest_cases :: "(i64 \<times> IgDeleteCardUidRequest case_body) list" where
  "ig_DeleteCardUidRequest_cases =
    [(0, CMsgId 69),
     (11, CBytes (ig_DeleteCardUidRequest_set_password_nocopy False)),
     (12, CBytes (ig_DeleteCardUidRequest_set_card_uid_nocopy False)),
     (100, CUint (\<lambda>v. ig_DeleteCardUidRequest_set_operation_id (ucast v)))]"

definition ig_DeleteCardUidRequest_decode :: "bytes \<Rightarrow> IgDeleteCardUidRequest
  \<Rightarrow> nat \<Rightarrow> (nat \<times> IgDeleteCardUidRequest) res" where
  "ig_DeleteCardUidRequest_decode buf obj index = ig_decode ig_DeleteCardUidRequest_cases buf obj index"

definition ig_DeleteCardUidRequest_ok :: "IgDeleteCardUidRequest \<Rightarrow> bool" where
  "ig_DeleteCardUidRequest_ok obj \<longleftrightarrow> ig_DeleteCardUidRequest_is_valid obj \<and>
     str_ok (DeleteCardUidRequest_has_password obj) (DeleteCardUidRequest_password obj)
       (DeleteCardUidRequest_password_size obj) \<and>
     str_ok (DeleteCardUidRequest_has_card_uid obj) (DeleteCardUidRequest_card_uid obj)
       (DeleteCardUidRequest_card_uid_size obj) \<and>
     num_ok (DeleteCardUidRequest_has_operation_id obj) (DeleteCardUidRequest_operation_id obj)"

lemmas ig_DeleteCardUidRequest_setters =
  ig_DeleteCardUidRequest_set_card_uid_nocopy_def
  ig_DeleteCardUidRequest_set_operation_id_def
  ig_DeleteCardUidRequest_set_password_nocopy_def

text \<open>A guarded setter, member by member.\<close>
lemma ig_DeleteCardUidRequest_set_if:
  "(if g then ig_DeleteCardUidRequest_set_card_uid_nocopy False p n obj else obj) =
     obj\<lparr>DeleteCardUidRequest_card_uid := pick g p (DeleteCardUidRequest_card_uid obj),
       DeleteCardUidRequest_card_uid_size := pick g n (DeleteCardUidRequest_card_uid_size obj),
       DeleteCardUidRequest_has_card_uid := pick g (n > 0) (DeleteCardUidRequest_has_card_uid obj)\<rparr>"
  "(if g then ig_DeleteCardUidRequest_set_operation_id v1 obj else obj) =
     obj\<lparr>DeleteCardUidRequest_operation_id := pick g v1 (DeleteCardUidRequest_operation_id obj),
       DeleteCardUidRequest_has_operation_id := g \<or> DeleteCardUidRequest_has_operation_id obj\<rparr>"
  by (simp_all add: ig_DeleteCardUidRequest_setters pick_def)

lemma ig_DeleteCardUidRequest_store:
  assumes ok: "ig_DeleteCardUidRequest_ok obj"
  shows "store_fields ig_DeleteCardUidRequest_cases (ig_DeleteCardUidRequest_fields obj)
    ig_DeleteCardUidRequest_init = Some obj"
proof -
  have h: "str_ok (DeleteCardUidRequest_has_password obj) (DeleteCardUidRequest_password obj)
    (DeleteCardUidRequest_password_size obj)"
    "str_ok (DeleteCardUidRequest_has_card_uid obj) (DeleteCardUidRequest_card_uid obj)
      (DeleteCardUidRequest_card_uid_size obj)"
    "num_ok (DeleteCardUidRequest_has_operation_id obj) (DeleteCardUidRequest_operation_id obj)"
    and valid: "ig_DeleteCardUidRequest_is_valid obj"
    using ok by (simp_all add: ig_DeleteCardUidRequest_ok_def)
  show ?thesis
    using valid
    by (simp add: ig_DeleteCardUidRequest_fields_def ig_DeleteCardUidRequest_cases_def
      ig_DeleteCardUidRequest_init_def codec_simps
        ig_DeleteCardUidRequest_set_if ig_DeleteCardUidRequest_setters split del: if_split)
       (simp add: ig_DeleteCardUidRequest_is_valid_def
         str_ok_store [OF h(1)]
         str_ok_store [OF h(2)]
         num_ok_store [OF h(3)])
qed

lemma ig_DeleteCardUidRequest_bound:
  assumes "ig_DeleteCardUidRequest_ok obj"
  shows "2 + length (number_bytes 69 MtUnsigned) + fields_bound (ig_DeleteCardUidRequest_fields obj)
    \<le> unat (ig_DeleteCardUidRequest_get_max_payload_in_bytes obj)"
proof -
  have sizes: "DeleteCardUidRequest_password_size obj < 2 ^ 24" "DeleteCardUidRequest_card_uid_size
    obj < 2 ^ 24"
    using assms by (auto simp: ig_DeleteCardUidRequest_ok_def dest!: str_ok_bound)
  show ?thesis
    using sizes number_bytes_size [of "DeleteCardUidRequest_password_size obj" "0x40"]
      number_bytes_size [of "DeleteCardUidRequest_card_uid_size obj" "0x40"]
      number_bytes_u32 [of "DeleteCardUidRequest_operation_id obj" 0]
    by (simp add: ig_DeleteCardUidRequest_fields_def
      ig_DeleteCardUidRequest_get_max_payload_in_bytes_def number_bytes_literal
        unat_of_nat_small del: of_nat_add)
qed

interpretation DeleteCardUidRequest_codec: ig_message ig_DeleteCardUidRequest_encode
  ig_DeleteCardUidRequest_decode
  ig_DeleteCardUidRequest_get_max_payload_in_bytes ig_DeleteCardUidRequest_is_valid
    ig_DeleteCardUidRequest_init ig_DeleteCardUidRequest_ok 69
  ig_DeleteCardUidRequest_fields_size ig_DeleteCardUidRequest_fields ig_DeleteCardUidRequest_cases
  by (unfold_locales;
      (rule ig_DeleteCardUidRequest_encode_def ig_DeleteCardUidRequest_decode_def | erule
        ig_DeleteCardUidRequest_store ig_DeleteCardUidRequest_bound |
       auto simp: ig_DeleteCardUidRequest_cases_def ig_DeleteCardUidRequest_fields_def
         ig_DeleteCardUidRequest_fields_size_def ig_DeleteCardUidRequest_ok_def
         simp del: arg_block_ok.simps(1,2) intro: str_ok_block))

subsection \<open>DeleteCardUidResponse\<close>

record IgDeleteCardUidResponse =
  DeleteCardUidResponse_has_result :: bool
  DeleteCardUidResponse_result :: u8
  DeleteCardUidResponse_has_operation_id :: bool
  DeleteCardUidResponse_operation_id :: u32

definition ig_DeleteCardUidResponse_init :: IgDeleteCardUidResponse where
  "ig_DeleteCardUidResponse_init =
     \<lparr>DeleteCardUidResponse_has_result = False,
      DeleteCardUidResponse_result = 0,
      DeleteCardUidResponse_has_operation_id = False,
      DeleteCardUidResponse_operation_id = 0\<rparr>"

definition ig_DeleteCardUidResponse_set_result :: "u8 \<Rightarrow> IgDeleteCardUidResponse
  \<Rightarrow> IgDeleteCardUidResponse" where
  "ig_DeleteCardUidResponse_set_result v obj = obj\<lparr>DeleteCardUidResponse_result := v,
    DeleteCardUidResponse_has_result := True\<rparr>"

definition ig_DeleteCardUidResponse_set_operation_id :: "u32 \<Rightarrow> IgDeleteCardUidResponse
  \<Rightarrow> IgDeleteCardUidResponse" where
  "ig_DeleteCardUidResponse_set_operation_id v obj = obj\<lparr>DeleteCardUidResponse_operation_id
    := v, DeleteCardUidResponse_has_operation_id := True\<rparr>"

definition ig_DeleteCardUidResponse_deinit :: "IgDeleteCardUidResponse \<Rightarrow>
  IgDeleteCardUidResponse" where
  "ig_DeleteCardUidResponse_deinit obj = obj"

definition ig_DeleteCardUidResponse_is_valid :: "IgDeleteCardUidResponse \<Rightarrow> bool" where
  "ig_DeleteCardUidResponse_is_valid obj \<longleftrightarrow> DeleteCardUidResponse_has_result obj"

definition ig_DeleteCardUidResponse_get_max_payload_in_bytes :: "IgDeleteCardUidResponse
  \<Rightarrow> u32" where
  "ig_DeleteCardUidResponse_get_max_payload_in_bytes obj = 22"

definition ig_DeleteCardUidResponse_fields_size :: "IgDeleteCardUidResponse \<Rightarrow> u64" where
  "ig_DeleteCardUidResponse_fields_size obj = 1 + 1 + of_bool (DeleteCardUidResponse_has_operation_id obj)"

definition ig_DeleteCardUidResponse_fields :: "IgDeleteCardUidResponse \<Rightarrow> enc_field list" where
  "ig_DeleteCardUidResponse_fields obj =
    [(True, 11, AUint (ucast (DeleteCardUidResponse_result obj))),
     (DeleteCardUidResponse_has_operation_id obj, 100, AUint (ucast
       (DeleteCardUidResponse_operation_id obj)))]"

definition ig_DeleteCardUidResponse_encode ::
  "IgDeleteCardUidResponse \<Rightarrow> bytes \<Rightarrow> u32 \<Rightarrow> (nat \<times> bytes
    \<times> nat option) res" where
  "ig_DeleteCardUidResponse_encode obj retval len =
     (if \<not> ig_DeleteCardUidResponse_is_valid obj then Ok (IgSerializerErrorInvalidPayload, retval, None)
      else ig_encode (ig_DeleteCardUidResponse_fields_size obj) 70 (ig_DeleteCardUidResponse_fields
        obj) retval len)"

definition ig_DeleteCardUidResponse_cases :: "(i64 \<times> IgDeleteCardUidResponse case_body) list" where
  "ig_DeleteCardUidResponse_cases =
    [(0, CMsgId 70),
     (11, CUint (\<lambda>v. ig_DeleteCardUidResponse_set_result (ucast v))),
     (100, CUint (\<lambda>v. ig_DeleteCardUidResponse_set_operation_id (ucast v)))]"

definition ig_DeleteCardUidResponse_decode :: "bytes \<Rightarrow> IgDeleteCardUidResponse
  \<Rightarrow> nat \<Rightarrow> (nat \<times> IgDeleteCardUidResponse) res" where
  "ig_DeleteCardUidResponse_decode buf obj index = ig_decode ig_DeleteCardUidResponse_cases buf obj index"

definition ig_DeleteCardUidResponse_ok :: "IgDeleteCardUidResponse \<Rightarrow> bool" where
  "ig_DeleteCardUidResponse_ok obj \<longleftrightarrow> ig_DeleteCardUidResponse_is_valid obj \<and>
     num_ok (DeleteCardUidResponse_has_result obj) (DeleteCardUidResponse_result obj) \<and>
     num_ok (DeleteCardUidResponse_has_operation_id obj) (DeleteCardUidResponse_operation_id obj)"

lemmas ig_DeleteCardUidResponse_setters =
  ig_DeleteCardUidResponse_set_operation_id_def
  ig_DeleteCardUidResponse_set_result_def

text \<open>A guarded setter, member by member.\<close>
lemma ig_DeleteCardUidResponse_set_if:
  "(if g then ig_DeleteCardUidResponse_set_operation_id v0 obj else obj) =
     obj\<lparr>DeleteCardUidResponse_operation_id := pick g v0 (DeleteCardUidResponse_operation_id obj),
       DeleteCardUidResponse_has_operation_id := g \<or> DeleteCardUidResponse_has_operation_id obj\<rparr>"
  by (simp_all add: ig_DeleteCardUidResponse_setters pick_def)

lemma ig_DeleteCardUidResponse_store:
  assumes ok: "ig_DeleteCardUidResponse_ok obj"
  shows "store_fields ig_DeleteCardUidResponse_cases (ig_DeleteCardUidResponse_fields obj)
    ig_DeleteCardUidResponse_init = Some obj"
proof -
  have h: "num_ok (DeleteCardUidResponse_has_result obj) (DeleteCardUidResponse_result obj)"
    "num_ok (DeleteCardUidResponse_has_operation_id obj) (DeleteCardUidResponse_operation_id obj)"
    and valid: "ig_DeleteCardUidResponse_is_valid obj"
    using ok by (simp_all add: ig_DeleteCardUidResponse_ok_def)
  show ?thesis
    using valid
    by (simp add: ig_DeleteCardUidResponse_fields_def ig_DeleteCardUidResponse_cases_def
      ig_DeleteCardUidResponse_init_def codec_simps
        ig_DeleteCardUidResponse_set_if ig_DeleteCardUidResponse_setters split del: if_split)
       (simp add: ig_DeleteCardUidResponse_is_valid_def
         num_ok_store [OF h(1)]
         num_ok_store [OF h(2)])
qed

lemma ig_DeleteCardUidResponse_bound:
  assumes "ig_DeleteCardUidResponse_ok obj"
  shows "2 + length (number_bytes 70 MtUnsigned) + fields_bound (ig_DeleteCardUidResponse_fields obj)
    \<le> unat (ig_DeleteCardUidResponse_get_max_payload_in_bytes obj)"
  using number_bytes_u8 [of "DeleteCardUidResponse_result obj" 0]
    number_bytes_u32 [of "DeleteCardUidResponse_operation_id obj" 0]
  by (simp add: ig_DeleteCardUidResponse_fields_def
    ig_DeleteCardUidResponse_get_max_payload_in_bytes_def number_bytes_literal)

interpretation DeleteCardUidResponse_codec: ig_message ig_DeleteCardUidResponse_encode
  ig_DeleteCardUidResponse_decode
  ig_DeleteCardUidResponse_get_max_payload_in_bytes ig_DeleteCardUidResponse_is_valid
    ig_DeleteCardUidResponse_init ig_DeleteCardUidResponse_ok 70
  ig_DeleteCardUidResponse_fields_size ig_DeleteCardUidResponse_fields ig_DeleteCardUidResponse_cases
  by (unfold_locales;
      (rule ig_DeleteCardUidResponse_encode_def ig_DeleteCardUidResponse_decode_def | erule
        ig_DeleteCardUidResponse_store ig_DeleteCardUidResponse_bound |
       auto simp: ig_DeleteCardUidResponse_cases_def ig_DeleteCardUidResponse_fields_def
         ig_DeleteCardUidResponse_fields_size_def ig_DeleteCardUidResponse_ok_def
         simp del: arg_block_ok.simps(1,2) intro: str_ok_block))

subsection \<open>CardAddedNotification\<close>

record IgCardAddedNotification =
  CardAddedNotification_has_card_uid :: bool
  CardAddedNotification_card_uid :: block_ptr
  CardAddedNotification_card_uid_size :: nat

definition ig_CardAddedNotification_init :: IgCardAddedNotification where
  "ig_CardAddedNotification_init =
     \<lparr>CardAddedNotification_has_card_uid = False,
      CardAddedNotification_card_uid = None,
      CardAddedNotification_card_uid_size = 0\<rparr>"

definition ig_CardAddedNotification_get_card_uid_size :: "IgCardAddedNotification \<Rightarrow> nat" where
  "ig_CardAddedNotification_get_card_uid_size obj = CardAddedNotification_card_uid_size obj"

definition ig_CardAddedNotification_set_card_uid_nocopy ::
  "bool \<Rightarrow> block_ptr \<Rightarrow> nat \<Rightarrow> IgCardAddedNotification
    \<Rightarrow> IgCardAddedNotification" where
  "ig_CardAddedNotification_set_card_uid_nocopy same_ptr p n obj =
     (if same_ptr then obj
      else let obj = (if CardAddedNotification_has_card_uid obj then
        obj\<lparr>CardAddedNotification_card_uid := None\<rparr> else obj)
        in obj\<lparr>CardAddedNotification_card_uid := p, CardAddedNotification_card_uid_size :=
          n, CardAddedNotification_has_card_uid := n > 0\<rparr>)"

definition ig_CardAddedNotification_set_card_uid ::
  "bool \<Rightarrow> block_ptr \<Rightarrow> nat \<Rightarrow> IgCardAddedNotification
    \<Rightarrow> IgCardAddedNotification res" where
  "ig_CardAddedNotification_set_card_uid same_ptr p n obj =
     (if same_ptr then Ok obj
      else let obj = (if CardAddedNotification_has_card_uid obj then
        obj\<lparr>CardAddedNotification_card_uid := None\<rparr> else obj)
        in bindR (block_read p n) (\<lambda>d.
          Ok (obj\<lparr>CardAddedNotification_card_uid := Some d,
            CardAddedNotification_card_uid_size := n, CardAddedNotification_has_card_uid := n > 0\<rparr>)))"

definition ig_CardAddedNotification_deinit :: "IgCardAddedNotification \<Rightarrow>
  IgCardAddedNotification" where
  "ig_CardAddedNotification_deinit obj = (let
     obj = (if CardAddedNotification_has_card_uid obj then
       obj\<lparr>CardAddedNotification_card_uid := None\<rparr> else obj)
   in obj)"

definition ig_CardAddedNotification_is_valid :: "IgCardAddedNotification \<Rightarrow> bool" where
  "ig_CardAddedNotification_is_valid obj \<longleftrightarrow> True"

definition ig_CardAddedNotification_get_max_payload_in_bytes :: "IgCardAddedNotification
  \<Rightarrow> u32" where
  "ig_CardAddedNotification_get_max_payload_in_bytes obj = word_of_nat (20 +
    CardAddedNotification_card_uid_size obj)"

definition ig_CardAddedNotification_fields_size :: "IgCardAddedNotification \<Rightarrow> u64" where
  "ig_CardAddedNotification_fields_size obj = 1 + 0 + of_bool (CardAddedNotification_has_card_uid obj)"

definition ig_CardAddedNotification_fields :: "IgCardAddedNotification \<Rightarrow> enc_field list" where
  "ig_CardAddedNotification_fields obj =
    [(CardAddedNotification_has_card_uid obj, 11, ABytes (CardAddedNotification_card_uid obj)
      (CardAddedNotification_card_uid_size obj))]"

definition ig_CardAddedNotification_encode ::
  "IgCardAddedNotification \<Rightarrow> bytes \<Rightarrow> u32 \<Rightarrow> (nat \<times> bytes
    \<times> nat option) res" where
  "ig_CardAddedNotification_encode obj retval len =
     (if \<not> ig_CardAddedNotification_is_valid obj then Ok (IgSerializerErrorInvalidPayload, retval, None)
      else ig_encode (ig_CardAddedNotification_fields_size obj) 101
        (ig_CardAddedNotification_fields obj) retval len)"

definition ig_CardAddedNotification_cases :: "(i64 \<times> IgCardAddedNotification case_body) list" where
  "ig_CardAddedNotification_cases =
    [(0, CMsgId 101),
     (11, CBytes (ig_CardAddedNotification_set_card_uid_nocopy False))]"

definition ig_CardAddedNotification_decode :: "bytes \<Rightarrow> IgCardAddedNotification
  \<Rightarrow> nat \<Rightarrow> (nat \<times> IgCardAddedNotification) res" where
  "ig_CardAddedNotification_decode buf obj index = ig_decode ig_CardAddedNotification_cases buf obj index"

definition ig_CardAddedNotification_ok :: "IgCardAddedNotification \<Rightarrow> bool" where
  "ig_CardAddedNotification_ok obj \<longleftrightarrow> ig_CardAddedNotification_is_valid obj \<and>
     str_ok (CardAddedNotification_has_card_uid obj) (CardAddedNotification_card_uid obj)
       (CardAddedNotification_card_uid_size obj)"

lemmas ig_CardAddedNotification_setters =
  ig_CardAddedNotification_set_card_uid_nocopy_def

text \<open>A guarded setter, member by member.\<close>
lemma ig_CardAddedNotification_set_if:
  "(if g then ig_CardAddedNotification_set_card_uid_nocopy False p n obj else obj) =
     obj\<lparr>CardAddedNotification_card_uid := pick g p (CardAddedNotification_card_uid obj),
       CardAddedNotification_card_uid_size := pick g n (CardAddedNotification_card_uid_size obj),
       CardAddedNotification_has_card_uid := pick g (n > 0) (CardAddedNotification_has_card_uid obj)\<rparr>"
  by (simp_all add: ig_CardAddedNotification_setters pick_def)

lemma ig_CardAddedNotification_store:
  assumes ok: "ig_CardAddedNotification_ok obj"
  shows "store_fields ig_CardAddedNotification_cases (ig_CardAddedNotification_fields obj)
    ig_CardAddedNotification_init = Some obj"
proof -
  have h: "str_ok (CardAddedNotification_has_card_uid obj) (CardAddedNotification_card_uid obj)
    (CardAddedNotification_card_uid_size obj)"
    and valid: "ig_CardAddedNotification_is_valid obj"
    using ok by (simp_all add: ig_CardAddedNotification_ok_def)
  show ?thesis
    using valid
    by (simp add: ig_CardAddedNotification_fields_def ig_CardAddedNotification_cases_def
      ig_CardAddedNotification_init_def codec_simps
        ig_CardAddedNotification_set_if ig_CardAddedNotification_setters split del: if_split)
       (simp add: ig_CardAddedNotification_is_valid_def
         str_ok_store [OF h(1)])
qed

lemma ig_CardAddedNotification_bound:
  assumes "ig_CardAddedNotification_ok obj"
  shows "2 + length (number_bytes 101 MtUnsigned) + fields_bound (ig_CardAddedNotification_fields obj)
    \<le> unat (ig_CardAddedNotification_get_max_payload_in_bytes obj)"
proof -
  have sizes: "CardAddedNotification_card_uid_size obj < 2 ^ 24"
    using assms by (auto simp: ig_CardAddedNotification_ok_def dest!: str_ok_bound)
  show ?thesis
    using sizes number_bytes_size [of "CardAddedNotification_card_uid_size obj" "0x40"]
    by (simp add: ig_CardAddedNotification_fields_def
      ig_CardAddedNotification_get_max_payload_in_bytes_def number_bytes_literal
        unat_of_nat_small del: of_nat_add)
qed

interpretation CardAddedNotification_codec: ig_message ig_CardAddedNotification_encode
  ig_CardAddedNotification_decode
  ig_CardAddedNotification_get_max_payload_in_bytes ig_CardAddedNotification_is_valid
    ig_CardAddedNotification_init ig_CardAddedNotification_ok 101
  ig_CardAddedNotification_fields_size ig_CardAddedNotification_fields ig_CardAddedNotification_cases
  by (unfold_locales;
      (rule ig_CardAddedNotification_encode_def ig_CardAddedNotification_decode_def | erule
        ig_CardAddedNotification_store ig_CardAddedNotification_bound |
       auto simp: ig_CardAddedNotification_cases_def ig_CardAddedNotification_fields_def
         ig_CardAddedNotification_fields_size_def ig_CardAddedNotification_ok_def
         simp del: arg_block_ok.simps(1,2) intro: str_ok_block))

subsection \<open>CardDeletedNotification\<close>

record IgCardDeletedNotification =
  CardDeletedNotification_has_card_uid :: bool
  CardDeletedNotification_card_uid :: block_ptr
  CardDeletedNotification_card_uid_size :: nat

definition ig_CardDeletedNotification_init :: IgCardDeletedNotification where
  "ig_CardDeletedNotification_init =
     \<lparr>CardDeletedNotification_has_card_uid = False,
      CardDeletedNotification_card_uid = None,
      CardDeletedNotification_card_uid_size = 0\<rparr>"

definition ig_CardDeletedNotification_get_card_uid_size :: "IgCardDeletedNotification \<Rightarrow> nat" where
  "ig_CardDeletedNotification_get_card_uid_size obj = CardDeletedNotification_card_uid_size obj"

definition ig_CardDeletedNotification_set_card_uid_nocopy ::
  "bool \<Rightarrow> block_ptr \<Rightarrow> nat \<Rightarrow> IgCardDeletedNotification
    \<Rightarrow> IgCardDeletedNotification" where
  "ig_CardDeletedNotification_set_card_uid_nocopy same_ptr p n obj =
     (if same_ptr then obj
      else let obj = (if CardDeletedNotification_has_card_uid obj then
        obj\<lparr>CardDeletedNotification_card_uid := None\<rparr> else obj)
        in obj\<lparr>CardDeletedNotification_card_uid := p, CardDeletedNotification_card_uid_size
          := n, CardDeletedNotification_has_card_uid := n > 0\<rparr>)"

definition ig_CardDeletedNotification_set_card_uid ::
  "bool \<Rightarrow> block_ptr \<Rightarrow> nat \<Rightarrow> IgCardDeletedNotification
    \<Rightarrow> IgCardDeletedNotification res" where
  "ig_CardDeletedNotification_set_card_uid same_ptr p n obj =
     (if same_ptr then Ok obj
      else let obj = (if CardDeletedNotification_has_card_uid obj then
        obj\<lparr>CardDeletedNotification_card_uid := None\<rparr> else obj)
        in bindR (block_read p n) (\<lambda>d.
          Ok (obj\<lparr>CardDeletedNotification_card_uid := Some d,
            CardDeletedNotification_card_uid_size := n, CardDeletedNotification_has_card_uid := n >
              0\<rparr>)))"

definition ig_CardDeletedNotification_deinit :: "IgCardDeletedNotification \<Rightarrow>
  IgCardDeletedNotification" where
  "ig_CardDeletedNotification_deinit obj = (let
     obj = (if CardDeletedNotification_has_card_uid obj then
       obj\<lparr>CardDeletedNotification_card_uid := None\<rparr> else obj)
   in obj)"

definition ig_CardDeletedNotification_is_valid :: "IgCardDeletedNotification \<Rightarrow> bool" where
  "ig_CardDeletedNotification_is_valid obj \<longleftrightarrow> True"

definition ig_CardDeletedNotification_get_max_payload_in_bytes :: "IgCardDeletedNotification
  \<Rightarrow> u32" where
  "ig_CardDeletedNotification_get_max_payload_in_bytes obj = word_of_nat (20 +
    CardDeletedNotification_card_uid_size obj)"

definition ig_CardDeletedNotification_fields_size :: "IgCardDeletedNotification \<Rightarrow> u64" where
  "ig_CardDeletedNotification_fields_size obj = 1 + 0 + of_bool (CardDeletedNotification_has_card_uid obj)"

definition ig_CardDeletedNotification_fields :: "IgCardDeletedNotification \<Rightarrow> enc_field list" where
  "ig_CardDeletedNotification_fields obj =
    [(CardDeletedNotification_has_card_uid obj, 11, ABytes (CardDeletedNotification_card_uid obj)
      (CardDeletedNotification_card_uid_size obj))]"

definition ig_CardDeletedNotification_encode ::
  "IgCardDeletedNotification \<Rightarrow> bytes \<Rightarrow> u32 \<Rightarrow> (nat \<times>
    bytes \<times> nat option) res" where
  "ig_CardDeletedNotification_encode obj retval len =
     (if \<not> ig_CardDeletedNotification_is_valid obj then Ok (IgSerializerErrorInvalidPayload,
       retval, None)
      else ig_encode (ig_CardDeletedNotification_fields_size obj) 102
        (ig_CardDeletedNotification_fields obj) retval len)"

definition ig_CardDeletedNotification_cases :: "(i64 \<times> IgCardDeletedNotification case_body) list" where
  "ig_CardDeletedNotification_cases =
    [(0, CMsgId 102),
     (11, CBytes (ig_CardDeletedNotification_set_card_uid_nocopy False))]"

definition ig_CardDeletedNotification_decode :: "bytes \<Rightarrow> IgCardDeletedNotification
  \<Rightarrow> nat \<Rightarrow> (nat \<times> IgCardDeletedNotification) res" where
  "ig_CardDeletedNotification_decode buf obj index = ig_decode ig_CardDeletedNotification_cases buf obj index"

definition ig_CardDeletedNotification_ok :: "IgCardDeletedNotification \<Rightarrow> bool" where
  "ig_CardDeletedNotification_ok obj \<longleftrightarrow> ig_CardDeletedNotification_is_valid obj \<and>
     str_ok (CardDeletedNotification_has_card_uid obj) (CardDeletedNotification_card_uid obj)
       (CardDeletedNotification_card_uid_size obj)"

lemmas ig_CardDeletedNotification_setters =
  ig_CardDeletedNotification_set_card_uid_nocopy_def

text \<open>A guarded setter, member by member.\<close>
lemma ig_CardDeletedNotification_set_if:
  "(if g then ig_CardDeletedNotification_set_card_uid_nocopy False p n obj else obj) =
     obj\<lparr>CardDeletedNotification_card_uid := pick g p (CardDeletedNotification_card_uid obj),
       CardDeletedNotification_card_uid_size := pick g n (CardDeletedNotification_card_uid_size obj),
       CardDeletedNotification_has_card_uid := pick g (n > 0) (CardDeletedNotification_has_card_uid
         obj)\<rparr>"
  by (simp_all add: ig_CardDeletedNotification_setters pick_def)

lemma ig_CardDeletedNotification_store:
  assumes ok: "ig_CardDeletedNotification_ok obj"
  shows "store_fields ig_CardDeletedNotification_cases (ig_CardDeletedNotification_fields obj)
    ig_CardDeletedNotification_init = Some obj"
proof -
  have h: "str_ok (CardDeletedNotification_has_card_uid obj) (CardDeletedNotification_card_uid obj)
    (CardDeletedNotification_card_uid_size obj)"
    and valid: "ig_CardDeletedNotification_is_valid obj"
    using ok by (simp_all add: ig_CardDeletedNotification_ok_def)
  show ?thesis
    using valid
    by (simp add: ig_CardDeletedNotification_fields_def ig_CardDeletedNotification_cases_def
      ig_CardDeletedNotification_init_def codec_simps
        ig_CardDeletedNotification_set_if ig_CardDeletedNotification_setters split del: if_split)
       (simp add: ig_CardDeletedNotification_is_valid_def
         str_ok_store [OF h(1)])
qed

lemma ig_CardDeletedNotification_bound:
  assumes "ig_CardDeletedNotification_ok obj"
  shows "2 + length (number_bytes 102 MtUnsigned) + fields_bound (ig_CardDeletedNotification_fields obj)
    \<le> unat (ig_CardDeletedNotification_get_max_payload_in_bytes obj)"
proof -
  have sizes: "CardDeletedNotification_card_uid_size obj < 2 ^ 24"
    using assms by (auto simp: ig_CardDeletedNotification_ok_def dest!: str_ok_bound)
  show ?thesis
    using sizes number_bytes_size [of "CardDeletedNotification_card_uid_size obj" "0x40"]
    by (simp add: ig_CardDeletedNotification_fields_def
      ig_CardDeletedNotification_get_max_payload_in_bytes_def number_bytes_literal
        unat_of_nat_small del: of_nat_add)
qed

interpretation CardDeletedNotification_codec: ig_message ig_CardDeletedNotification_encode
  ig_CardDeletedNotification_decode
  ig_CardDeletedNotification_get_max_payload_in_bytes ig_CardDeletedNotification_is_valid
    ig_CardDeletedNotification_init ig_CardDeletedNotification_ok 102
  ig_CardDeletedNotification_fields_size ig_CardDeletedNotification_fields ig_CardDeletedNotification_cases
  by (unfold_locales;
      (rule ig_CardDeletedNotification_encode_def ig_CardDeletedNotification_decode_def | erule
        ig_CardDeletedNotification_store ig_CardDeletedNotification_bound |
       auto simp: ig_CardDeletedNotification_cases_def ig_CardDeletedNotification_fields_def
         ig_CardDeletedNotification_fields_size_def ig_CardDeletedNotification_ok_def
         simp del: arg_block_ok.simps(1,2) intro: str_ok_block))

subsection \<open>AddFingerprintRequest\<close>

record IgAddFingerprintRequest =
  AddFingerprintRequest_has_password :: bool
  AddFingerprintRequest_password :: block_ptr
  AddFingerprintRequest_password_size :: nat
  AddFingerprintRequest_has_tries :: bool
  AddFingerprintRequest_tries :: u8
  AddFingerprintRequest_has_timeout_seconds :: bool
  AddFingerprintRequest_timeout_seconds :: u32
  AddFingerprintRequest_has_operation_id :: bool
  AddFingerprintRequest_operation_id :: u32

definition ig_AddFingerprintRequest_init :: IgAddFingerprintRequest where
  "ig_AddFingerprintRequest_init =
     \<lparr>AddFingerprintRequest_has_password = False,
      AddFingerprintRequest_password = None,
      AddFingerprintRequest_password_size = 0,
      AddFingerprintRequest_has_tries = False,
      AddFingerprintRequest_tries = 0,
      AddFingerprintRequest_has_timeout_seconds = False,
      AddFingerprintRequest_timeout_seconds = 0,
      AddFingerprintRequest_has_operation_id = False,
      AddFingerprintRequest_operation_id = 0\<rparr>"

definition ig_AddFingerprintRequest_get_password_size :: "IgAddFingerprintRequest \<Rightarrow> nat" where
  "ig_AddFingerprintRequest_get_password_size obj = AddFingerprintRequest_password_size obj"

definition ig_AddFingerprintRequest_set_password_nocopy ::
  "bool \<Rightarrow> block_ptr \<Rightarrow> nat \<Rightarrow> IgAddFingerprintRequest
    \<Rightarrow> IgAddFingerprintRequest" where
  "ig_AddFingerprintRequest_set_password_nocopy same_ptr p n obj =
     (if same_ptr then obj
      else let obj = (if AddFingerprintRequest_has_password obj then
        obj\<lparr>AddFingerprintRequest_password := None\<rparr> else obj)
        in obj\<lparr>AddFingerprintRequest_password := p, AddFingerprintRequest_password_size :=
          n, AddFingerprintRequest_has_password := n > 0\<rparr>)"

definition ig_AddFingerprintRequest_set_password ::
  "bool \<Rightarrow> block_ptr \<Rightarrow> nat \<Rightarrow> IgAddFingerprintRequest
    \<Rightarrow> IgAddFingerprintRequest res" where
  "ig_AddFingerprintRequest_set_password same_ptr p n obj =
     (if same_ptr then Ok obj
      else let obj = (if AddFingerprintRequest_has_password obj then
        obj\<lparr>AddFingerprintRequest_password := None\<rparr> else obj)
        in bindR (block_read p n) (\<lambda>d.
          Ok (obj\<lparr>AddFingerprintRequest_password := Some d,
            AddFingerprintRequest_password_size := n, AddFingerprintRequest_has_password := n > 0\<rparr>)))"

definition ig_AddFingerprintRequest_set_tries :: "u8 \<Rightarrow> IgAddFingerprintRequest
  \<Rightarrow> IgAddFingerprintRequest" where
  "ig_AddFingerprintRequest_set_tries v obj = obj\<lparr>AddFingerprintRequest_tries := v,
    AddFingerprintRequest_has_tries := True\<rparr>"

definition ig_AddFingerprintRequest_set_timeout_seconds :: "u32 \<Rightarrow>
  IgAddFingerprintRequest \<Rightarrow> IgAddFingerprintRequest" where
  "ig_AddFingerprintRequest_set_timeout_seconds v obj =
    obj\<lparr>AddFingerprintRequest_timeout_seconds := v,
      AddFingerprintRequest_has_timeout_seconds := True\<rparr>"

definition ig_AddFingerprintRequest_set_operation_id :: "u32 \<Rightarrow> IgAddFingerprintRequest
  \<Rightarrow> IgAddFingerprintRequest" where
  "ig_AddFingerprintRequest_set_operation_id v obj = obj\<lparr>AddFingerprintRequest_operation_id
    := v, AddFingerprintRequest_has_operation_id := True\<rparr>"

definition ig_AddFingerprintRequest_deinit :: "IgAddFingerprintRequest \<Rightarrow>
  IgAddFingerprintRequest" where
  "ig_AddFingerprintRequest_deinit obj = (let
     obj = (if AddFingerprintRequest_has_password obj then
       obj\<lparr>AddFingerprintRequest_password := None\<rparr> else obj)
   in obj)"

definition ig_AddFingerprintRequest_is_valid :: "IgAddFingerprintRequest \<Rightarrow> bool" where
  "ig_AddFingerprintRequest_is_valid obj \<longleftrightarrow> True"

definition ig_AddFingerprintRequest_get_max_payload_in_bytes :: "IgAddFingerprintRequest
  \<Rightarrow> u32" where
  "ig_AddFingerprintRequest_get_max_payload_in_bytes obj = word_of_nat (35 +
    AddFingerprintRequest_password_size obj)"

definition ig_AddFingerprintRequest_fields_size :: "IgAddFingerprintRequest \<Rightarrow> u64" where
  "ig_AddFingerprintRequest_fields_size obj = 1 + 0 + of_bool (AddFingerprintRequest_has_password
    obj) + of_bool (AddFingerprintRequest_has_tries obj) + of_bool
      (AddFingerprintRequest_has_timeout_seconds obj) + of_bool (AddFingerprintRequest_has_operation_id obj)"

definition ig_AddFingerprintRequest_fields :: "IgAddFingerprintRequest \<Rightarrow> enc_field list" where
  "ig_AddFingerprintRequest_fields obj =
    [(AddFingerprintRequest_has_password obj, 11, ABytes (AddFingerprintRequest_password obj)
      (AddFingerprintRequest_password_size obj)),
     (AddFingerprintRequest_has_tries obj, 12, AUint (ucast (AddFingerprintRequest_tries obj))),
     (AddFingerprintRequest_has_timeout_seconds obj, 13, AUint (ucast
       (AddFingerprintRequest_timeout_seconds obj))),
     (AddFingerprintRequest_has_operation_id obj, 100, AUint (ucast
       (AddFingerprintRequest_operation_id obj)))]"

definition ig_AddFingerprintRequest_encode ::
  "IgAddFingerprintRequest \<Rightarrow> bytes \<Rightarrow> u32 \<Rightarrow> (nat \<times> bytes
    \<times> nat option) res" where
  "ig_AddFingerprintRequest_encode obj retval len =
     (if \<not> ig_AddFingerprintRequest_is_valid obj then Ok (IgSerializerErrorInvalidPayload, retval, None)
      else ig_encode (ig_AddFingerprintRequest_fields_size obj) 75 (ig_AddFingerprintRequest_fields
        obj) retval len)"

definition ig_AddFingerprintRequest_cases :: "(i64 \<times> IgAddFingerprintRequest case_body) list" where
  "ig_AddFingerprintRequest_cases =
    [(0, CMsgId 75),
     (11, CBytes (ig_AddFingerprintRequest_set_password_nocopy False)),
     (12, CUint (\<lambda>v. ig_AddFingerprintRequest_set_tries (ucast v))),
     (13, CUint (\<lambda>v. ig_AddFingerprintRequest_set_timeout_seconds (ucast v))),
     (100, CUint (\<lambda>v. ig_AddFingerprintRequest_set_operation_id (ucast v)))]"

definition ig_AddFingerprintRequest_decode :: "bytes \<Rightarrow> IgAddFingerprintRequest
  \<Rightarrow> nat \<Rightarrow> (nat \<times> IgAddFingerprintRequest) res" where
  "ig_AddFingerprintRequest_decode buf obj index = ig_decode ig_AddFingerprintRequest_cases buf obj index"

definition ig_AddFingerprintRequest_ok :: "IgAddFingerprintRequest \<Rightarrow> bool" where
  "ig_AddFingerprintRequest_ok obj \<longleftrightarrow> ig_AddFingerprintRequest_is_valid obj \<and>
     str_ok (AddFingerprintRequest_has_password obj) (AddFingerprintRequest_password obj)
       (AddFingerprintRequest_password_size obj) \<and>
     num_ok (AddFingerprintRequest_has_tries obj) (AddFingerprintRequest_tries obj) \<and>
     num_ok (AddFingerprintRequest_has_timeout_seconds obj) (AddFingerprintRequest_timeout_seconds obj) \<and>
     num_ok (AddFingerprintRequest_has_operation_id obj) (AddFingerprintRequest_operation_id obj)"

lemmas ig_AddFingerprintRequest_setters =
  ig_AddFingerprintRequest_set_operation_id_def
  ig_AddFingerprintRequest_set_password_nocopy_def
  ig_AddFingerprintRequest_set_timeout_seconds_def
  ig_AddFingerprintRequest_set_tries_def

text \<open>A guarded setter, member by member.\<close>
lemma ig_AddFingerprintRequest_set_if:
  "(if g then ig_AddFingerprintRequest_set_password_nocopy False p n obj else obj) =
     obj\<lparr>AddFingerprintRequest_password := pick g p (AddFingerprintRequest_password obj),
       AddFingerprintRequest_password_size := pick g n (AddFingerprintRequest_password_size obj),
       AddFingerprintRequest_has_password := pick g (n > 0) (AddFingerprintRequest_has_password obj)\<rparr>"
  "(if g then ig_AddFingerprintRequest_set_tries v1 obj else obj) =
     obj\<lparr>AddFingerprintRequest_tries := pick g v1 (AddFingerprintRequest_tries obj),
       AddFingerprintRequest_has_tries := g \<or> AddFingerprintRequest_has_tries obj\<rparr>"
  "(if g then ig_AddFingerprintRequest_set_timeout_seconds v2 obj else obj) =
     obj\<lparr>AddFingerprintRequest_timeout_seconds := pick g v2
       (AddFingerprintRequest_timeout_seconds obj),
       AddFingerprintRequest_has_timeout_seconds := g \<or>
         AddFingerprintRequest_has_timeout_seconds obj\<rparr>"
  "(if g then ig_AddFingerprintRequest_set_operation_id v3 obj else obj) =
     obj\<lparr>AddFingerprintRequest_operation_id := pick g v3 (AddFingerprintRequest_operation_id obj),
       AddFingerprintRequest_has_operation_id := g \<or> AddFingerprintRequest_has_operation_id obj\<rparr>"
  by (simp_all add: ig_AddFingerprintRequest_setters pick_def)

lemma ig_AddFingerprintRequest_store:
  assumes ok: "ig_AddFingerprintRequest_ok obj"
  shows "store_fields ig_AddFingerprintRequest_cases (ig_AddFingerprintRequest_fields obj)
    ig_AddFingerprintRequest_init = Some obj"
proof -
  have h: "str_ok (AddFingerprintRequest_has_password obj) (AddFingerprintRequest_password obj)
    (AddFingerprintRequest_password_size obj)"
    "num_ok (AddFingerprintRequest_has_tries obj) (AddFingerprintRequest_tries obj)"
    "num_ok (AddFingerprintRequest_has_timeout_seconds obj) (AddFingerprintRequest_timeout_seconds obj)"
    "num_ok (AddFingerprintRequest_has_operation_id obj) (AddFingerprintRequest_operation_id obj)"
    and valid: "ig_AddFingerprintRequest_is_valid obj"
    using ok by (simp_all add: ig_AddFingerprintRequest_ok_def)
  show ?thesis
    using valid
    by (simp add: ig_AddFingerprintRequest_fields_def ig_AddFingerprintRequest_cases_def
      ig_AddFingerprintRequest_init_def codec_simps
        ig_AddFingerprintRequest_set_if ig_AddFingerprintRequest_setters split del: if_split)
       (simp add: ig_AddFingerprintRequest_is_valid_def
         str_ok_store [OF h(1)]
         num_ok_store [OF h(2)]
         num_ok_store [OF h(3)]
         num_ok_store [OF h(4)])
qed

lemma ig_AddFingerprintRequest_bound:
  assumes "ig_AddFingerprintRequest_ok obj"
  shows "2 + length (number_bytes 75 MtUnsigned) + fields_bound (ig_AddFingerprintRequest_fields obj)
    \<le> unat (ig_AddFingerprintRequest_get_max_payload_in_bytes obj)"
proof -
  have sizes: "AddFingerprintRequest_password_size obj < 2 ^ 24"
    using assms by (auto simp: ig_AddFingerprintRequest_ok_def dest!: str_ok_bound)
  show ?thesis
    using sizes number_bytes_size [of "AddFingerprintRequest_password_size obj" "0x40"]
      number_bytes_u8 [of "AddFingerprintRequest_tries obj" 0]
      number_bytes_u32 [of "AddFingerprintRequest_timeout_seconds obj" 0]
      number_bytes_u32 [of "AddFingerprintRequest_operation_id obj" 0]
    by (simp add: ig_AddFingerprintRequest_fields_def
      ig_AddFingerprintRequest_get_max_payload_in_bytes_def number_bytes_literal
        unat_of_nat_small del: of_nat_add)
qed

interpretation AddFingerprintRequest_codec: ig_message ig_AddFingerprintRequest_encode
  ig_AddFingerprintRequest_decode
  ig_AddFingerprintRequest_get_max_payload_in_bytes ig_AddFingerprintRequest_is_valid
    ig_AddFingerprintRequest_init ig_AddFingerprintRequest_ok 75
  ig_AddFingerprintRequest_fields_size ig_AddFingerprintRequest_fields ig_AddFingerprintRequest_cases
  by (unfold_locales;
      (rule ig_AddFingerprintRequest_encode_def ig_AddFingerprintRequest_decode_def | erule
        ig_AddFingerprintRequest_store ig_AddFingerprintRequest_bound |
       auto simp: ig_AddFingerprintRequest_cases_def ig_AddFingerprintRequest_fields_def
         ig_AddFingerprintRequest_fields_size_def ig_AddFingerprintRequest_ok_def
         simp del: arg_block_ok.simps(1,2) intro: str_ok_block))

subsection \<open>AddFingerprintResponse\<close>

record IgAddFingerprintResponse =
  AddFingerprintResponse_has_result :: bool
  AddFingerprintResponse_result :: u8
  AddFingerprintResponse_has_operation_id :: bool
  AddFingerprintResponse_operation_id :: u32

definition ig_AddFingerprintResponse_init :: IgAddFingerprintResponse where
  "ig_AddFingerprintResponse_init =
     \<lparr>AddFingerprintResponse_has_result = False,
      AddFingerprintResponse_result = 0,
      AddFingerprintResponse_has_operation_id = False,
      AddFingerprintResponse_operation_id = 0\<rparr>"

definition ig_AddFingerprintResponse_set_result :: "u8 \<Rightarrow> IgAddFingerprintResponse
  \<Rightarrow> IgAddFingerprintResponse" where
  "ig_AddFingerprintResponse_set_result v obj = obj\<lparr>AddFingerprintResponse_result := v,
    AddFingerprintResponse_has_result := True\<rparr>"

definition ig_AddFingerprintResponse_set_operation_id :: "u32 \<Rightarrow>
  IgAddFingerprintResponse \<Rightarrow> IgAddFingerprintResponse" where
  "ig_AddFingerprintResponse_set_operation_id v obj =
    obj\<lparr>AddFingerprintResponse_operation_id := v, AddFingerprintResponse_has_operation_id :=
      True\<rparr>"

definition ig_AddFingerprintResponse_deinit :: "IgAddFingerprintResponse \<Rightarrow>
  IgAddFingerprintResponse" where
  "ig_AddFingerprintResponse_deinit obj = obj"

definition ig_AddFingerprintResponse_is_valid :: "IgAddFingerprintResponse \<Rightarrow> bool" where
  "ig_AddFingerprintResponse_is_valid obj \<longleftrightarrow> True"

definition ig_AddFingerprintResponse_get_max_payload_in_bytes :: "IgAddFingerprintResponse
  \<Rightarrow> u32" where
  "ig_AddFingerprintResponse_get_max_payload_in_bytes obj = 22"

definition ig_AddFingerprintResponse_fields_size :: "IgAddFingerprintResponse \<Rightarrow> u64" where
  "ig_AddFingerprintResponse_fields_size obj = 1 + 0 + of_bool (AddFingerprintResponse_has_result
    obj) + of_bool (AddFingerprintResponse_has_operation_id obj)"

definition ig_AddFingerprintResponse_fields :: "IgAddFingerprintResponse \<Rightarrow> enc_field list" where
  "ig_AddFingerprintResponse_fields obj =
    [(AddFingerprintResponse_has_result obj, 11, AUint (ucast (AddFingerprintResponse_result obj))),
     (AddFingerprintResponse_has_operation_id obj, 100, AUint (ucast
       (AddFingerprintResponse_operation_id obj)))]"

definition ig_AddFingerprintResponse_encode ::
  "IgAddFingerprintResponse \<Rightarrow> bytes \<Rightarrow> u32 \<Rightarrow> (nat \<times> bytes
    \<times> nat option) res" where
  "ig_AddFingerprintResponse_encode obj retval len =
     (if \<not> ig_AddFingerprintResponse_is_valid obj then Ok (IgSerializerErrorInvalidPayload, retval, None)
      else ig_encode (ig_AddFingerprintResponse_fields_size obj) 76
        (ig_AddFingerprintResponse_fields obj) retval len)"

definition ig_AddFingerprintResponse_cases :: "(i64 \<times> IgAddFingerprintResponse case_body) list" where
  "ig_AddFingerprintResponse_cases =
    [(0, CMsgId 76),
     (11, CUint (\<lambda>v. ig_AddFingerprintResponse_set_result (ucast v))),
     (100, CUint (\<lambda>v. ig_AddFingerprintResponse_set_operation_id (ucast v)))]"

definition ig_AddFingerprintResponse_decode :: "bytes \<Rightarrow> IgAddFingerprintResponse
  \<Rightarrow> nat \<Rightarrow> (nat \<times> IgAddFingerprintResponse) res" where
  "ig_AddFingerprintResponse_decode buf obj index = ig_decode ig_AddFingerprintResponse_cases buf obj index"

definition ig_AddFingerprintResponse_ok :: "IgAddFingerprintResponse \<Rightarrow> bool" where
  "ig_AddFingerprintResponse_ok obj \<longleftrightarrow> ig_AddFingerprintResponse_is_valid obj \<and>
     num_ok (AddFingerprintResponse_has_result obj) (AddFingerprintResponse_result obj) \<and>
     num_ok (AddFingerprintResponse_has_operation_id obj) (AddFingerprintResponse_operation_id obj)"

lemmas ig_AddFingerprintResponse_setters =
  ig_AddFingerprintResponse_set_operation_id_def
  ig_AddFingerprintResponse_set_result_def

text \<open>A guarded setter, member by member.\<close>
lemma ig_AddFingerprintResponse_set_if:
  "(if g then ig_AddFingerprintResponse_set_result v0 obj else obj) =
     obj\<lparr>AddFingerprintResponse_result := pick g v0 (AddFingerprintResponse_result obj),
       AddFingerprintResponse_has_result := g \<or> AddFingerprintResponse_has_result obj\<rparr>"
  "(if g then ig_AddFingerprintResponse_set_operation_id v1 obj else obj) =
     obj\<lparr>AddFingerprintResponse_operation_id := pick g v1 (AddFingerprintResponse_operation_id obj),
       AddFingerprintResponse_has_operation_id := g \<or> AddFingerprintResponse_has_operation_id obj\<rparr>"
  by (simp_all add: ig_AddFingerprintResponse_setters pick_def)

lemma ig_AddFingerprintResponse_store:
  assumes ok: "ig_AddFingerprintResponse_ok obj"
  shows "store_fields ig_AddFingerprintResponse_cases (ig_AddFingerprintResponse_fields obj)
    ig_AddFingerprintResponse_init = Some obj"
proof -
  have h: "num_ok (AddFingerprintResponse_has_result obj) (AddFingerprintResponse_result obj)"
    "num_ok (AddFingerprintResponse_has_operation_id obj) (AddFingerprintResponse_operation_id obj)"
    and valid: "ig_AddFingerprintResponse_is_valid obj"
    using ok by (simp_all add: ig_AddFingerprintResponse_ok_def)
  show ?thesis
    using valid
    by (simp add: ig_AddFingerprintResponse_fields_def ig_AddFingerprintResponse_cases_def
      ig_AddFingerprintResponse_init_def codec_simps
        ig_AddFingerprintResponse_set_if ig_AddFingerprintResponse_setters split del: if_split)
       (simp add: ig_AddFingerprintResponse_is_valid_def
         num_ok_store [OF h(1)]
         num_ok_store [OF h(2)])
qed

lemma ig_AddFingerprintResponse_bound:
  assumes "ig_AddFingerprintResponse_ok obj"
  shows "2 + length (number_bytes 76 MtUnsigned) + fields_bound (ig_AddFingerprintResponse_fields obj)
    \<le> unat (ig_AddFingerprintResponse_get_max_payload_in_bytes obj)"
  using number_bytes_u8 [of "AddFingerprintResponse_result obj" 0]
    number_bytes_u32 [of "AddFingerprintResponse_operation_id obj" 0]
  by (simp add: ig_AddFingerprintResponse_fields_def
    ig_AddFingerprintResponse_get_max_payload_in_bytes_def number_bytes_literal)

interpretation AddFingerprintResponse_codec: ig_message ig_AddFingerprintResponse_encode
  ig_AddFingerprintResponse_decode
  ig_AddFingerprintResponse_get_max_payload_in_bytes ig_AddFingerprintResponse_is_valid
    ig_AddFingerprintResponse_init ig_AddFingerprintResponse_ok 76
  ig_AddFingerprintResponse_fields_size ig_AddFingerprintResponse_fields ig_AddFingerprintResponse_cases
  by (unfold_locales;
      (rule ig_AddFingerprintResponse_encode_def ig_AddFingerprintResponse_decode_def | erule
        ig_AddFingerprintResponse_store ig_AddFingerprintResponse_bound |
       auto simp: ig_AddFingerprintResponse_cases_def ig_AddFingerprintResponse_fields_def
         ig_AddFingerprintResponse_fields_size_def ig_AddFingerprintResponse_ok_def
         simp del: arg_block_ok.simps(1,2) intro: str_ok_block))

subsection \<open>DeleteFingerprintRequest\<close>

record IgDeleteFingerprintRequest =
  DeleteFingerprintRequest_has_password :: bool
  DeleteFingerprintRequest_password :: block_ptr
  DeleteFingerprintRequest_password_size :: nat
  DeleteFingerprintRequest_has_timeout_seconds :: bool
  DeleteFingerprintRequest_timeout_seconds :: u32
  DeleteFingerprintRequest_has_operation_id :: bool
  DeleteFingerprintRequest_operation_id :: u32

definition ig_DeleteFingerprintRequest_init :: IgDeleteFingerprintRequest where
  "ig_DeleteFingerprintRequest_init =
     \<lparr>DeleteFingerprintRequest_has_password = False,
      DeleteFingerprintRequest_password = None,
      DeleteFingerprintRequest_password_size = 0,
      DeleteFingerprintRequest_has_timeout_seconds = False,
      DeleteFingerprintRequest_timeout_seconds = 0,
      DeleteFingerprintRequest_has_operation_id = False,
      DeleteFingerprintRequest_operation_id = 0\<rparr>"

definition ig_DeleteFingerprintRequest_get_password_size :: "IgDeleteFingerprintRequest
  \<Rightarrow> nat" where
  "ig_DeleteFingerprintRequest_get_password_size obj = DeleteFingerprintRequest_password_size obj"

definition ig_DeleteFingerprintRequest_set_password_nocopy ::
  "bool \<Rightarrow> block_ptr \<Rightarrow> nat \<Rightarrow> IgDeleteFingerprintRequest
    \<Rightarrow> IgDeleteFingerprintRequest" where
  "ig_DeleteFingerprintRequest_set_password_nocopy same_ptr p n obj =
     (if same_ptr then obj
      else let obj = (if DeleteFingerprintRequest_has_password obj then
        obj\<lparr>DeleteFingerprintRequest_password := None\<rparr> else obj)
        in obj\<lparr>DeleteFingerprintRequest_password := p,
          DeleteFingerprintRequest_password_size := n, DeleteFingerprintRequest_has_password := n >
            0\<rparr>)"

definition ig_DeleteFingerprintRequest_set_password ::
  "bool \<Rightarrow> block_ptr \<Rightarrow> nat \<Rightarrow> IgDeleteFingerprintRequest
    \<Rightarrow> IgDeleteFingerprintRequest res" where
  "ig_DeleteFingerprintRequest_set_password same_ptr p n obj =
     (if same_ptr then Ok obj
      else let obj = (if DeleteFingerprintRequest_has_password obj then
        obj\<lparr>DeleteFingerprintRequest_password := None\<rparr> else obj)
        in bindR (block_read p n) (\<lambda>d.
          Ok (obj\<lparr>DeleteFingerprintRequest_password := Some d,
            DeleteFingerprintRequest_password_size := n, DeleteFingerprintRequest_has_password := n
              > 0\<rparr>)))"

definition ig_DeleteFingerprintRequest_set_timeout_seconds :: "u32 \<Rightarrow>
  IgDeleteFingerprintRequest \<Rightarrow> IgDeleteFingerprintRequest" where
  "ig_DeleteFingerprintRequest_set_timeout_seconds v obj =
    obj\<lparr>DeleteFingerprintRequest_timeout_seconds := v,
      DeleteFingerprintRequest_has_timeout_seconds := True\<rparr>"

definition ig_DeleteFingerprintRequest_set_operation_id :: "u32 \<Rightarrow>
  IgDeleteFingerprintRequest \<Rightarrow> IgDeleteFingerprintRequest" where
  "ig_DeleteFingerprintRequest_set_operation_id v obj =
    obj\<lparr>DeleteFingerprintRequest_operation_id := v,
      DeleteFingerprintRequest_has_operation_id := True\<rparr>"

definition ig_DeleteFingerprintRequest_deinit :: "IgDeleteFingerprintRequest \<Rightarrow>
  IgDeleteFingerprintRequest" where
  "ig_DeleteFingerprintRequest_deinit obj = (let
     obj = (if DeleteFingerprintRequest_has_password obj then
       obj\<lparr>DeleteFingerprintRequest_password := None\<rparr> else obj)
   in obj)"

definition ig_DeleteFingerprintRequest_is_valid :: "IgDeleteFingerprintRequest \<Rightarrow> bool" where
  "ig_DeleteFingerprintRequest_is_valid obj \<longleftrightarrow> True"

definition ig_DeleteFingerprintRequest_get_max_payload_in_bytes :: "IgDeleteFingerprintRequest
  \<Rightarrow> u32" where
  "ig_DeleteFingerprintRequest_get_max_payload_in_bytes obj = word_of_nat (32 +
    DeleteFingerprintRequest_password_size obj)"

definition ig_DeleteFingerprintRequest_fields_size :: "IgDeleteFingerprintRequest \<Rightarrow> u64" where
  "ig_DeleteFingerprintRequest_fields_size obj = 1 + 0 + of_bool
    (DeleteFingerprintRequest_has_password obj) + of_bool
      (DeleteFingerprintRequest_has_timeout_seconds obj) + of_bool
        (DeleteFingerprintRequest_has_operation_id obj)"

definition ig_DeleteFingerprintRequest_fields :: "IgDeleteFingerprintRequest \<Rightarrow>
  enc_field list" where
  "ig_DeleteFingerprintRequest_fields obj =
    [(DeleteFingerprintRequest_has_password obj, 11, ABytes (DeleteFingerprintRequest_password obj)
      (DeleteFingerprintRequest_password_size obj)),
     (DeleteFingerprintRequest_has_timeout_seconds obj, 12, AUint (ucast
       (DeleteFingerprintRequest_timeout_seconds obj))),
     (DeleteFingerprintRequest_has_operation_id obj, 100, AUint (ucast
       (DeleteFingerprintRequest_operation_id obj)))]"

definition ig_DeleteFingerprintRequest_encode ::
  "IgDeleteFingerprintRequest \<Rightarrow> bytes \<Rightarrow> u32 \<Rightarrow> (nat \<times>
    bytes \<times> nat option) res" where
  "ig_DeleteFingerprintRequest_encode obj retval len =
     (if \<not> ig_DeleteFingerprintRequest_is_valid obj then Ok (IgSerializerErrorInvalidPayload,
       retval, None)
      else ig_encode (ig_DeleteFingerprintRequest_fields_size obj) 77
        (ig_DeleteFingerprintRequest_fields obj) retval len)"

definition ig_DeleteFingerprintRequest_cases :: "(i64 \<times> IgDeleteFingerprintRequest
  case_body) list" where
  "ig_DeleteFingerprintRequest_cases =
    [(0, CMsgId 77),
     (11, CBytes (ig_DeleteFingerprintRequest_set_password_nocopy False)),
     (12, CUint (\<lambda>v. ig_DeleteFingerprintRequest_set_timeout_seconds (ucast v))),
     (100, CUint (\<lambda>v. ig_DeleteFingerprintRequest_set_operation_id (ucast v)))]"

definition ig_DeleteFingerprintRequest_decode :: "bytes \<Rightarrow> IgDeleteFingerprintRequest
  \<Rightarrow> nat \<Rightarrow> (nat \<times> IgDeleteFingerprintRequest) res" where
  "ig_DeleteFingerprintRequest_decode buf obj index = ig_decode ig_DeleteFingerprintRequest_cases
    buf obj index"

definition ig_DeleteFingerprintRequest_ok :: "IgDeleteFingerprintRequest \<Rightarrow> bool" where
  "ig_DeleteFingerprintRequest_ok obj \<longleftrightarrow> ig_DeleteFingerprintRequest_is_valid obj \<and>
     str_ok (DeleteFingerprintRequest_has_password obj) (DeleteFingerprintRequest_password obj)
       (DeleteFingerprintRequest_password_size obj) \<and>
     num_ok (DeleteFingerprintRequest_has_timeout_seconds obj)
       (DeleteFingerprintRequest_timeout_seconds obj) \<and>
     num_ok (DeleteFingerprintRequest_has_operation_id obj) (DeleteFingerprintRequest_operation_id obj)"

lemmas ig_DeleteFingerprintRequest_setters =
  ig_DeleteFingerprintRequest_set_operation_id_def
  ig_DeleteFingerprintRequest_set_password_nocopy_def
  ig_DeleteFingerprintRequest_set_timeout_seconds_def

text \<open>A guarded setter, member by member.\<close>
lemma ig_DeleteFingerprintRequest_set_if:
  "(if g then ig_DeleteFingerprintRequest_set_password_nocopy False p n obj else obj) =
     obj\<lparr>DeleteFingerprintRequest_password := pick g p (DeleteFingerprintRequest_password obj),
       DeleteFingerprintRequest_password_size := pick g n (DeleteFingerprintRequest_password_size obj),
       DeleteFingerprintRequest_has_password := pick g (n > 0)
         (DeleteFingerprintRequest_has_password obj)\<rparr>"
  "(if g then ig_DeleteFingerprintRequest_set_timeout_seconds v1 obj else obj) =
     obj\<lparr>DeleteFingerprintRequest_timeout_seconds := pick g v1
       (DeleteFingerprintRequest_timeout_seconds obj),
       DeleteFingerprintRequest_has_timeout_seconds := g \<or>
         DeleteFingerprintRequest_has_timeout_seconds obj\<rparr>"
  "(if g then ig_DeleteFingerprintRequest_set_operation_id v2 obj else obj) =
     obj\<lparr>DeleteFingerprintRequest_operation_id := pick g v2
       (DeleteFingerprintRequest_operation_id obj),
       DeleteFingerprintRequest_has_operation_id := g \<or>
         DeleteFingerprintRequest_has_operation_id obj\<rparr>"
  by (simp_all add: ig_DeleteFingerprintRequest_setters pick_def)

lemma ig_DeleteFingerprintRequest_store:
  assumes ok: "ig_DeleteFingerprintRequest_ok obj"
  shows "store_fields ig_DeleteFingerprintRequest_cases (ig_DeleteFingerprintRequest_fields obj)
    ig_DeleteFingerprintRequest_init = Some obj"
proof -
  have h: "str_ok (DeleteFingerprintRequest_has_password obj) (DeleteFingerprintRequest_password
    obj) (DeleteFingerprintRequest_password_size obj)"
    "num_ok (DeleteFingerprintRequest_has_timeout_seconds obj) (DeleteFingerprintRequest_timeout_seconds obj)"
    "num_ok (DeleteFingerprintRequest_has_operation_id obj) (DeleteFingerprintRequest_operation_id obj)"
    and valid: "ig_DeleteFingerprintRequest_is_valid obj"
    using ok by (simp_all add: ig_DeleteFingerprintRequest_ok_def)
  show ?thesis
    using valid
    by (simp add: ig_DeleteFingerprintRequest_fields_def ig_DeleteFingerprintRequest_cases_def
      ig_DeleteFingerprintRequest_init_def codec_simps
        ig_DeleteFingerprintRequest_set_if ig_DeleteFingerprintRequest_setters split del: if_split)
       (simp add: ig_DeleteFingerprintRequest_is_valid_def
         str_ok_store [OF h(1)]
         num_ok_store [OF h(2)]
         num_ok_store [OF h(3)])
qed

lemma ig_DeleteFingerprintRequest_bound:
  assumes "ig_DeleteFingerprintRequest_ok obj"
  shows "2 + length (number_bytes 77 MtUnsigned) + fields_bound (ig_DeleteFingerprintRequest_fields obj)
    \<le> unat (ig_DeleteFingerprintRequest_get_max_payload_in_bytes obj)"
proof -
  have sizes: "DeleteFingerprintRequest_password_size obj < 2 ^ 24"
    using assms by (auto simp: ig_DeleteFingerprintRequest_ok_def dest!: str_ok_bound)
  show ?thesis
    using sizes number_bytes_size [of "DeleteFingerprintRequest_password_size obj" "0x40"]
      number_bytes_u32 [of "DeleteFingerprintRequest_timeout_seconds obj" 0]
      number_bytes_u32 [of "DeleteFingerprintRequest_operation_id obj" 0]
    by (simp add: ig_DeleteFingerprintRequest_fields_def
      ig_DeleteFingerprintRequest_get_max_payload_in_bytes_def number_bytes_literal
        unat_of_nat_small del: of_nat_add)
qed

interpretation DeleteFingerprintRequest_codec: ig_message ig_DeleteFingerprintRequest_encode
  ig_DeleteFingerprintRequest_decode
  ig_DeleteFingerprintRequest_get_max_payload_in_bytes ig_DeleteFingerprintRequest_is_valid
    ig_DeleteFingerprintRequest_init ig_DeleteFingerprintRequest_ok 77
  ig_DeleteFingerprintRequest_fields_size ig_DeleteFingerprintRequest_fields ig_DeleteFingerprintRequest_cases
  by (unfold_locales;
      (rule ig_DeleteFingerprintRequest_encode_def ig_DeleteFingerprintRequest_decode_def | erule
        ig_DeleteFingerprintRequest_store ig_DeleteFingerprintRequest_bound |
       auto simp: ig_DeleteFingerprintRequest_cases_def ig_DeleteFingerprintRequest_fields_def
         ig_DeleteFingerprintRequest_fields_size_def ig_DeleteFingerprintRequest_ok_def
         simp del: arg_block_ok.simps(1,2) intro: str_ok_block))

subsection \<open>DeleteFingerprintResponse\<close>

record IgDeleteFingerprintResponse =
  DeleteFingerprintResponse_has_result :: bool
  DeleteFingerprintResponse_result :: u8
  DeleteFingerprintResponse_has_operation_id :: bool
  DeleteFingerprintResponse_operation_id :: u32

definition ig_DeleteFingerprintResponse_init :: IgDeleteFingerprintResponse where
  "ig_DeleteFingerprintResponse_init =
     \<lparr>DeleteFingerprintResponse_has_result = False,
      DeleteFingerprintResponse_result = 0,
      DeleteFingerprintResponse_has_operation_id = False,
      DeleteFingerprintResponse_operation_id = 0\<rparr>"

definition ig_DeleteFingerprintResponse_set_result :: "u8 \<Rightarrow> IgDeleteFingerprintResponse
  \<Rightarrow> IgDeleteFingerprintResponse" where
  "ig_DeleteFingerprintResponse_set_result v obj = obj\<lparr>DeleteFingerprintResponse_result :=
    v, DeleteFingerprintResponse_has_result := True\<rparr>"

definition ig_DeleteFingerprintResponse_set_operation_id :: "u32 \<Rightarrow>
  IgDeleteFingerprintResponse \<Rightarrow> IgDeleteFingerprintResponse" where
  "ig_DeleteFingerprintResponse_set_operation_id v obj =
    obj\<lparr>DeleteFingerprintResponse_operation_id := v,
      DeleteFingerprintResponse_has_operation_id := True\<rparr>"

definition ig_DeleteFingerprintResponse_deinit :: "IgDeleteFingerprintResponse \<Rightarrow>
  IgDeleteFingerprintResponse" where
  "ig_DeleteFingerprintResponse_deinit obj = obj"

definition ig_DeleteFingerprintResponse_is_valid :: "IgDeleteFingerprintResponse \<Rightarrow> bool" where
  "ig_DeleteFingerprintResponse_is_valid obj \<longleftrightarrow> True"

definition ig_DeleteFingerprintResponse_get_max_payload_in_bytes :: "IgDeleteFingerprintResponse
  \<Rightarrow> u32" where
  "ig_DeleteFingerprintResponse_get_max_payload_in_bytes obj = 22"

definition ig_DeleteFingerprintResponse_fields_size :: "IgDeleteFingerprintResponse \<Rightarrow> u64" where
  "ig_DeleteFingerprintResponse_fields_size obj = 1 + 0 + of_bool
    (DeleteFingerprintResponse_has_result obj) + of_bool (DeleteFingerprintResponse_has_operation_id obj)"

definition ig_DeleteFingerprintResponse_fields :: "IgDeleteFingerprintResponse \<Rightarrow>
  enc_field list" where
  "ig_DeleteFingerprintResponse_fields obj =
    [(DeleteFingerprintResponse_has_result obj, 11, AUint (ucast (DeleteFingerprintResponse_result obj))),
     (DeleteFingerprintResponse_has_operation_id obj, 100, AUint (ucast
       (DeleteFingerprintResponse_operation_id obj)))]"

definition ig_DeleteFingerprintResponse_encode ::
  "IgDeleteFingerprintResponse \<Rightarrow> bytes \<Rightarrow> u32 \<Rightarrow> (nat \<times>
    bytes \<times> nat option) res" where
  "ig_DeleteFingerprintResponse_encode obj retval len =
     (if \<not> ig_DeleteFingerprintResponse_is_valid obj then Ok (IgSerializerErrorInvalidPayload,
       retval, None)
      else ig_encode (ig_DeleteFingerprintResponse_fields_size obj) 78
        (ig_DeleteFingerprintResponse_fields obj) retval len)"

definition ig_DeleteFingerprintResponse_cases :: "(i64 \<times> IgDeleteFingerprintResponse
  case_body) list" where
  "ig_DeleteFingerprintResponse_cases =
    [(0, CMsgId 78),
     (11, CUint (\<lambda>v. ig_DeleteFingerprintResponse_set_result (ucast v))),
     (100, CUint (\<lambda>v. ig_DeleteFingerprintResponse_set_operation_id (ucast v)))]"

definition ig_DeleteFingerprintResponse_decode :: "bytes \<Rightarrow> IgDeleteFingerprintResponse
  \<Rightarrow> nat \<Rightarrow> (nat \<times> IgDeleteFingerprintResponse) res" where
  "ig_DeleteFingerprintResponse_decode buf obj index = ig_decode ig_DeleteFingerprintResponse_cases
    buf obj index"

definition ig_DeleteFingerprintResponse_ok :: "IgDeleteFingerprintResponse \<Rightarrow> bool" where
  "ig_DeleteFingerprintResponse_ok obj \<longleftrightarrow> ig_DeleteFingerprintResponse_is_valid obj \<and>
     num_ok (DeleteFingerprintResponse_has_result obj) (DeleteFingerprintResponse_result obj) \<and>
     num_ok (DeleteFingerprintResponse_has_operation_id obj) (DeleteFingerprintResponse_operation_id obj)"

lemmas ig_DeleteFingerprintResponse_setters =
  ig_DeleteFingerprintResponse_set_operation_id_def
  ig_DeleteFingerprintResponse_set_result_def

text \<open>A guarded setter, member by member.\<close>
lemma ig_DeleteFingerprintResponse_set_if:
  "(if g then ig_DeleteFingerprintResponse_set_result v0 obj else obj) =
     obj\<lparr>DeleteFingerprintResponse_result := pick g v0 (DeleteFingerprintResponse_result obj),
       DeleteFingerprintResponse_has_result := g \<or> DeleteFingerprintResponse_has_result obj\<rparr>"
  "(if g then ig_DeleteFingerprintResponse_set_operation_id v1 obj else obj) =
     obj\<lparr>DeleteFingerprintResponse_operation_id := pick g v1
       (DeleteFingerprintResponse_operation_id obj),
       DeleteFingerprintResponse_has_operation_id := g \<or>
         DeleteFingerprintResponse_has_operation_id obj\<rparr>"
  by (simp_all add: ig_DeleteFingerprintResponse_setters pick_def)

lemma ig_DeleteFingerprintResponse_store:
  assumes ok: "ig_DeleteFingerprintResponse_ok obj"
  shows "store_fields ig_DeleteFingerprintResponse_cases (ig_DeleteFingerprintResponse_fields obj)
    ig_DeleteFingerprintResponse_init = Some obj"
proof -
  have h: "num_ok (DeleteFingerprintResponse_has_result obj) (DeleteFingerprintResponse_result obj)"
    "num_ok (DeleteFingerprintResponse_has_operation_id obj) (DeleteFingerprintResponse_operation_id obj)"
    and valid: "ig_DeleteFingerprintResponse_is_valid obj"
    using ok by (simp_all add: ig_DeleteFingerprintResponse_ok_def)
  show ?thesis
    using valid
    by (simp add: ig_DeleteFingerprintResponse_fields_def ig_DeleteFingerprintResponse_cases_def
      ig_DeleteFingerprintResponse_init_def codec_simps
        ig_DeleteFingerprintResponse_set_if ig_DeleteFingerprintResponse_setters split del: if_split)
       (simp add: ig_DeleteFingerprintResponse_is_valid_def
         num_ok_store [OF h(1)]
         num_ok_store [OF h(2)])
qed

lemma ig_DeleteFingerprintResponse_bound:
  assumes "ig_DeleteFingerprintResponse_ok obj"
  shows "2 + length (number_bytes 78 MtUnsigned) + fields_bound (ig_DeleteFingerprintResponse_fields obj)
    \<le> unat (ig_DeleteFingerprintResponse_get_max_payload_in_bytes obj)"
  using number_bytes_u8 [of "DeleteFingerprintResponse_result obj" 0]
    number_bytes_u32 [of "DeleteFingerprintResponse_operation_id obj" 0]
  by (simp add: ig_DeleteFingerprintResponse_fields_def
    ig_DeleteFingerprintResponse_get_max_payload_in_bytes_def number_bytes_literal)

interpretation DeleteFingerprintResponse_codec: ig_message ig_DeleteFingerprintResponse_encode
  ig_DeleteFingerprintResponse_decode
  ig_DeleteFingerprintResponse_get_max_payload_in_bytes ig_DeleteFingerprintResponse_is_valid
    ig_DeleteFingerprintResponse_init ig_DeleteFingerprintResponse_ok 78
  ig_DeleteFingerprintResponse_fields_size ig_DeleteFingerprintResponse_fields
    ig_DeleteFingerprintResponse_cases
  by (unfold_locales;
      (rule ig_DeleteFingerprintResponse_encode_def ig_DeleteFingerprintResponse_decode_def | erule
        ig_DeleteFingerprintResponse_store ig_DeleteFingerprintResponse_bound |
       auto simp: ig_DeleteFingerprintResponse_cases_def ig_DeleteFingerprintResponse_fields_def
         ig_DeleteFingerprintResponse_fields_size_def ig_DeleteFingerprintResponse_ok_def
         simp del: arg_block_ok.simps(1,2) intro: str_ok_block))

subsection \<open>DeleteFingerprintUidRequest\<close>

record IgDeleteFingerprintUidRequest =
  DeleteFingerprintUidRequest_has_password :: bool
  DeleteFingerprintUidRequest_password :: block_ptr
  DeleteFingerprintUidRequest_password_size :: nat
  DeleteFingerprintUidRequest_has_uid :: bool
  DeleteFingerprintUidRequest_uid :: u16
  DeleteFingerprintUidRequest_has_operation_id :: bool
  DeleteFingerprintUidRequest_operation_id :: u32

definition ig_DeleteFingerprintUidRequest_init :: IgDeleteFingerprintUidRequest where
  "ig_DeleteFingerprintUidRequest_init =
     \<lparr>DeleteFingerprintUidRequest_has_password = False,
      DeleteFingerprintUidRequest_password = None,
      DeleteFingerprintUidRequest_password_size = 0,
      DeleteFingerprintUidRequest_has_uid = False,
      DeleteFingerprintUidRequest_uid = 0,
      DeleteFingerprintUidRequest_has_operation_id = False,
      DeleteFingerprintUidRequest_operation_id = 0\<rparr>"

definition ig_DeleteFingerprintUidRequest_get_password_size :: "IgDeleteFingerprintUidRequest
  \<Rightarrow> nat" where
  "ig_DeleteFingerprintUidRequest_get_password_size obj = DeleteFingerprintUidRequest_password_size obj"

definition ig_DeleteFingerprintUidRequest_set_password_nocopy ::
  "bool \<Rightarrow> block_ptr \<Rightarrow> nat \<Rightarrow> IgDeleteFingerprintUidRequest
    \<Rightarrow> IgDeleteFingerprintUidRequest" where
  "ig_DeleteFingerprintUidRequest_set_password_nocopy same_ptr p n obj =
     (if same_ptr then obj
      else let obj = (if DeleteFingerprintUidRequest_has_password obj then
        obj\<lparr>DeleteFingerprintUidRequest_password := None\<rparr> else obj)
        in obj\<lparr>DeleteFingerprintUidRequest_password := p,
          DeleteFingerprintUidRequest_password_size := n, DeleteFingerprintUidRequest_has_password
            := n > 0\<rparr>)"

definition ig_DeleteFingerprintUidRequest_set_password ::
  "bool \<Rightarrow> block_ptr \<Rightarrow> nat \<Rightarrow> IgDeleteFingerprintUidRequest
    \<Rightarrow> IgDeleteFingerprintUidRequest res" where
  "ig_DeleteFingerprintUidRequest_set_password same_ptr p n obj =
     (if same_ptr then Ok obj
      else let obj = (if DeleteFingerprintUidRequest_has_password obj then
        obj\<lparr>DeleteFingerprintUidRequest_password := None\<rparr> else obj)
        in bindR (block_read p n) (\<lambda>d.
          Ok (obj\<lparr>DeleteFingerprintUidRequest_password := Some d,
            DeleteFingerprintUidRequest_password_size := n,
              DeleteFingerprintUidRequest_has_password := n > 0\<rparr>)))"

definition ig_DeleteFingerprintUidRequest_set_uid :: "u16 \<Rightarrow>
  IgDeleteFingerprintUidRequest \<Rightarrow> IgDeleteFingerprintUidRequest" where
  "ig_DeleteFingerprintUidRequest_set_uid v obj = obj\<lparr>DeleteFingerprintUidRequest_uid := v,
    DeleteFingerprintUidRequest_has_uid := True\<rparr>"

definition ig_DeleteFingerprintUidRequest_set_operation_id :: "u32 \<Rightarrow>
  IgDeleteFingerprintUidRequest \<Rightarrow> IgDeleteFingerprintUidRequest" where
  "ig_DeleteFingerprintUidRequest_set_operation_id v obj =
    obj\<lparr>DeleteFingerprintUidRequest_operation_id := v,
      DeleteFingerprintUidRequest_has_operation_id := True\<rparr>"

definition ig_DeleteFingerprintUidRequest_deinit :: "IgDeleteFingerprintUidRequest \<Rightarrow>
  IgDeleteFingerprintUidRequest" where
  "ig_DeleteFingerprintUidRequest_deinit obj = (let
     obj = (if DeleteFingerprintUidRequest_has_password obj then
       obj\<lparr>DeleteFingerprintUidRequest_password := None\<rparr> else obj)
   in obj)"

definition ig_DeleteFingerprintUidRequest_is_valid :: "IgDeleteFingerprintUidRequest \<Rightarrow> bool" where
  "ig_DeleteFingerprintUidRequest_is_valid obj \<longleftrightarrow> True"

definition ig_DeleteFingerprintUidRequest_get_max_payload_in_bytes ::
  "IgDeleteFingerprintUidRequest \<Rightarrow> u32" where
  "ig_DeleteFingerprintUidRequest_get_max_payload_in_bytes obj = word_of_nat (30 +
    DeleteFingerprintUidRequest_password_size obj)"

definition ig_DeleteFingerprintUidRequest_fields_size :: "IgDeleteFingerprintUidRequest
  \<Rightarrow> u64" where
  "ig_DeleteFingerprintUidRequest_fields_size obj = 1 + 0 + of_bool
    (DeleteFingerprintUidRequest_has_password obj) + of_bool (DeleteFingerprintUidRequest_has_uid
      obj) + of_bool (DeleteFingerprintUidRequest_has_operation_id obj)"

definition ig_DeleteFingerprintUidRequest_fields :: "IgDeleteFingerprintUidRequest \<Rightarrow>
  enc_field list" where
  "ig_DeleteFingerprintUidRequest_fields obj =
    [(DeleteFingerprintUidRequest_has_password obj, 11, ABytes
      (DeleteFingerprintUidRequest_password obj) (DeleteFingerprintUidRequest_password_size obj)),
     (DeleteFingerprintUidRequest_has_uid obj, 12, AUint (ucast (DeleteFingerprintUidRequest_uid obj))),
     (DeleteFingerprintUidRequest_has_operation_id obj, 100, AUint (ucast
       (DeleteFingerprintUidRequest_operation_id obj)))]"

definition ig_DeleteFingerprintUidRequest_encode ::
  "IgDeleteFingerprintUidRequest \<Rightarrow> bytes \<Rightarrow> u32 \<Rightarrow> (nat \<times>
    bytes \<times> nat option) res" where
  "ig_DeleteFingerprintUidRequest_encode obj retval len =
     (if \<not> ig_DeleteFingerprintUidRequest_is_valid obj then Ok
       (IgSerializerErrorInvalidPayload, retval, None)
      else ig_encode (ig_DeleteFingerprintUidRequest_fields_size obj) 79
        (ig_DeleteFingerprintUidRequest_fields obj) retval len)"

definition ig_DeleteFingerprintUidRequest_cases :: "(i64 \<times> IgDeleteFingerprintUidRequest
  case_body) list" where
  "ig_DeleteFingerprintUidRequest_cases =
    [(0, CMsgId 79),
     (11, CBytes (ig_DeleteFingerprintUidRequest_set_password_nocopy False)),
     (12, CUint (\<lambda>v. ig_DeleteFingerprintUidRequest_set_uid (ucast v))),
     (100, CUint (\<lambda>v. ig_DeleteFingerprintUidRequest_set_operation_id (ucast v)))]"

definition ig_DeleteFingerprintUidRequest_decode :: "bytes \<Rightarrow>
  IgDeleteFingerprintUidRequest \<Rightarrow> nat \<Rightarrow> (nat \<times>
    IgDeleteFingerprintUidRequest) res" where
  "ig_DeleteFingerprintUidRequest_decode buf obj index = ig_decode
    ig_DeleteFingerprintUidRequest_cases buf obj index"

definition ig_DeleteFingerprintUidRequest_ok :: "IgDeleteFingerprintUidRequest \<Rightarrow> bool" where
  "ig_DeleteFingerprintUidRequest_ok obj \<longleftrightarrow>
    ig_DeleteFingerprintUidRequest_is_valid obj \<and>
     str_ok (DeleteFingerprintUidRequest_has_password obj) (DeleteFingerprintUidRequest_password
       obj) (DeleteFingerprintUidRequest_password_size obj) \<and>
     num_ok (DeleteFingerprintUidRequest_has_uid obj) (DeleteFingerprintUidRequest_uid obj) \<and>
     num_ok (DeleteFingerprintUidRequest_has_operation_id obj) (DeleteFingerprintUidRequest_operation_id obj)"

lemmas ig_DeleteFingerprintUidRequest_setters =
  ig_DeleteFingerprintUidRequest_set_operation_id_def
  ig_DeleteFingerprintUidRequest_set_password_nocopy_def
  ig_DeleteFingerprintUidRequest_set_uid_def

text \<open>A guarded setter, member by member.\<close>
lemma ig_DeleteFingerprintUidRequest_set_if:
  "(if g then ig_DeleteFingerprintUidRequest_set_password_nocopy False p n obj else obj) =
     obj\<lparr>DeleteFingerprintUidRequest_password := pick g p (DeleteFingerprintUidRequest_password obj),
       DeleteFingerprintUidRequest_password_size := pick g n (DeleteFingerprintUidRequest_password_size obj),
       DeleteFingerprintUidRequest_has_password := pick g (n > 0)
         (DeleteFingerprintUidRequest_has_password obj)\<rparr>"
  "(if g then ig_DeleteFingerprintUidRequest_set_uid v1 obj else obj) =
     obj\<lparr>DeleteFingerprintUidRequest_uid := pick g v1 (DeleteFingerprintUidRequest_uid obj),
       DeleteFingerprintUidRequest_has_uid := g \<or> DeleteFingerprintUidRequest_has_uid obj\<rparr>"
  "(if g then ig_DeleteFingerprintUidRequest_set_operation_id v2 obj else obj) =
     obj\<lparr>DeleteFingerprintUidRequest_operation_id := pick g v2
       (DeleteFingerprintUidRequest_operation_id obj),
       DeleteFingerprintUidRequest_has_operation_id := g \<or>
         DeleteFingerprintUidRequest_has_operation_id obj\<rparr>"
  by (simp_all add: ig_DeleteFingerprintUidRequest_setters pick_def)

lemma ig_DeleteFingerprintUidRequest_store:
  assumes ok: "ig_DeleteFingerprintUidRequest_ok obj"
  shows "store_fields ig_DeleteFingerprintUidRequest_cases (ig_DeleteFingerprintUidRequest_fields
    obj) ig_DeleteFingerprintUidRequest_init = Some obj"
proof -
  have h: "str_ok (DeleteFingerprintUidRequest_has_password obj)
    (DeleteFingerprintUidRequest_password obj) (DeleteFingerprintUidRequest_password_size obj)"
    "num_ok (DeleteFingerprintUidRequest_has_uid obj) (DeleteFingerprintUidRequest_uid obj)"
    "num_ok (DeleteFingerprintUidRequest_has_operation_id obj) (DeleteFingerprintUidRequest_operation_id obj)"
    and valid: "ig_DeleteFingerprintUidRequest_is_valid obj"
    using ok by (simp_all add: ig_DeleteFingerprintUidRequest_ok_def)
  show ?thesis
    using valid
    by (simp add: ig_DeleteFingerprintUidRequest_fields_def
      ig_DeleteFingerprintUidRequest_cases_def ig_DeleteFingerprintUidRequest_init_def codec_simps
        ig_DeleteFingerprintUidRequest_set_if ig_DeleteFingerprintUidRequest_setters split del: if_split)
       (simp add: ig_DeleteFingerprintUidRequest_is_valid_def
         str_ok_store [OF h(1)]
         num_ok_store [OF h(2)]
         num_ok_store [OF h(3)])
qed

lemma ig_DeleteFingerprintUidRequest_bound:
  assumes "ig_DeleteFingerprintUidRequest_ok obj"
  shows "2 + length (number_bytes 79 MtUnsigned) + fields_bound (ig_DeleteFingerprintUidRequest_fields obj)
    \<le> unat (ig_DeleteFingerprintUidRequest_get_max_payload_in_bytes obj)"
proof -
  have sizes: "DeleteFingerprintUidRequest_password_size obj < 2 ^ 24"
    using assms by (auto simp: ig_DeleteFingerprintUidRequest_ok_def dest!: str_ok_bound)
  show ?thesis
    using sizes number_bytes_size [of "DeleteFingerprintUidRequest_password_size obj" "0x40"]
      number_bytes_u16 [of "DeleteFingerprintUidRequest_uid obj" 0]
      number_bytes_u32 [of "DeleteFingerprintUidRequest_operation_id obj" 0]
    by (simp add: ig_DeleteFingerprintUidRequest_fields_def
      ig_DeleteFingerprintUidRequest_get_max_payload_in_bytes_def number_bytes_literal
        unat_of_nat_small del: of_nat_add)
qed

interpretation DeleteFingerprintUidRequest_codec: ig_message ig_DeleteFingerprintUidRequest_encode
  ig_DeleteFingerprintUidRequest_decode
  ig_DeleteFingerprintUidRequest_get_max_payload_in_bytes ig_DeleteFingerprintUidRequest_is_valid
    ig_DeleteFingerprintUidRequest_init ig_DeleteFingerprintUidRequest_ok 79
  ig_DeleteFingerprintUidRequest_fields_size ig_DeleteFingerprintUidRequest_fields
    ig_DeleteFingerprintUidRequest_cases
  by (unfold_locales;
      (rule ig_DeleteFingerprintUidRequest_encode_def ig_DeleteFingerprintUidRequest_decode_def |
        erule ig_DeleteFingerprintUidRequest_store ig_DeleteFingerprintUidRequest_bound |
       auto simp: ig_DeleteFingerprintUidRequest_cases_def
         ig_DeleteFingerprintUidRequest_fields_def ig_DeleteFingerprintUidRequest_fields_size_def
           ig_DeleteFingerprintUidRequest_ok_def
         simp del: arg_block_ok.simps(1,2) intro: str_ok_block))

subsection \<open>DeleteFingerprintUidResponse\<close>

record IgDeleteFingerprintUidResponse =
  DeleteFingerprintUidResponse_has_result :: bool
  DeleteFingerprintUidResponse_result :: u8
  DeleteFingerprintUidResponse_has_operation_id :: bool
  DeleteFingerprintUidResponse_operation_id :: u32

definition ig_DeleteFingerprintUidResponse_init :: IgDeleteFingerprintUidResponse where
  "ig_DeleteFingerprintUidResponse_init =
     \<lparr>DeleteFingerprintUidResponse_has_result = False,
      DeleteFingerprintUidResponse_result = 0,
      DeleteFingerprintUidResponse_has_operation_id = False,
      DeleteFingerprintUidResponse_operation_id = 0\<rparr>"

definition ig_DeleteFingerprintUidResponse_set_result :: "u8 \<Rightarrow>
  IgDeleteFingerprintUidResponse \<Rightarrow> IgDeleteFingerprintUidResponse" where
  "ig_DeleteFingerprintUidResponse_set_result v obj =
    obj\<lparr>DeleteFingerprintUidResponse_result := v, DeleteFingerprintUidResponse_has_result :=
      True\<rparr>"

definition ig_DeleteFingerprintUidResponse_set_operation_id :: "u32 \<Rightarrow>
  IgDeleteFingerprintUidResponse \<Rightarrow> IgDeleteFingerprintUidResponse" where
  "ig_DeleteFingerprintUidResponse_set_operation_id v obj =
    obj\<lparr>DeleteFingerprintUidResponse_operation_id := v,
      DeleteFingerprintUidResponse_has_operation_id := True\<rparr>"

definition ig_DeleteFingerprintUidResponse_deinit :: "IgDeleteFingerprintUidResponse \<Rightarrow>
  IgDeleteFingerprintUidResponse" where
  "ig_DeleteFingerprintUidResponse_deinit obj = obj"

definition ig_DeleteFingerprintUidResponse_is_valid :: "IgDeleteFingerprintUidResponse
  \<Rightarrow> bool" where
  "ig_DeleteFingerprintUidResponse_is_valid obj \<longleftrightarrow> True"

definition ig_DeleteFingerprintUidResponse_get_max_payload_in_bytes ::
  "IgDeleteFingerprintUidResponse \<Rightarrow> u32" where
  "ig_DeleteFingerprintUidResponse_get_max_payload_in_bytes obj = 22"

definition ig_DeleteFingerprintUidResponse_fields_size :: "IgDeleteFingerprintUidResponse
  \<Rightarrow> u64" where
  "ig_DeleteFingerprintUidResponse_fields_size obj = 1 + 0 + of_bool
    (DeleteFingerprintUidResponse_has_result obj) + of_bool
      (DeleteFingerprintUidResponse_has_operation_id obj)"

definition ig_DeleteFingerprintUidResponse_fields :: "IgDeleteFingerprintUidResponse \<Rightarrow>
  enc_field list" where
  "ig_DeleteFingerprintUidResponse_fields obj =
    [(DeleteFingerprintUidResponse_has_result obj, 11, AUint (ucast
      (DeleteFingerprintUidResponse_result obj))),
     (DeleteFingerprintUidResponse_has_operation_id obj, 100, AUint (ucast
       (DeleteFingerprintUidResponse_operation_id obj)))]"

definition ig_DeleteFingerprintUidResponse_encode ::
  "IgDeleteFingerprintUidResponse \<Rightarrow> bytes \<Rightarrow> u32 \<Rightarrow> (nat \<times>
    bytes \<times> nat option) res" where
  "ig_DeleteFingerprintUidResponse_encode obj retval len =
     (if \<not> ig_DeleteFingerprintUidResponse_is_valid obj then Ok
       (IgSerializerErrorInvalidPayload, retval, None)
      else ig_encode (ig_DeleteFingerprintUidResponse_fields_size obj) 80
        (ig_DeleteFingerprintUidResponse_fields obj) retval len)"

definition ig_DeleteFingerprintUidResponse_cases :: "(i64 \<times> IgDeleteFingerprintUidResponse
  case_body) list" where
  "ig_DeleteFingerprintUidResponse_cases =
    [(0, CMsgId 80),
     (11, CUint (\<lambda>v. ig_DeleteFingerprintUidResponse_set_result (ucast v))),
     (100, CUint (\<lambda>v. ig_DeleteFingerprintUidResponse_set_operation_id (ucast v)))]"

definition ig_DeleteFingerprintUidResponse_decode :: "bytes \<Rightarrow>
  IgDeleteFingerprintUidResponse \<Rightarrow> nat \<Rightarrow> (nat \<times>
    IgDeleteFingerprintUidResponse) res" where
  "ig_DeleteFingerprintUidResponse_decode buf obj index = ig_decode
    ig_DeleteFingerprintUidResponse_cases buf obj index"

definition ig_DeleteFingerprintUidResponse_ok :: "IgDeleteFingerprintUidResponse \<Rightarrow> bool" where
  "ig_DeleteFingerprintUidResponse_ok obj \<longleftrightarrow>
    ig_DeleteFingerprintUidResponse_is_valid obj \<and>
     num_ok (DeleteFingerprintUidResponse_has_result obj) (DeleteFingerprintUidResponse_result obj) \<and>
     num_ok (DeleteFingerprintUidResponse_has_operation_id obj)
       (DeleteFingerprintUidResponse_operation_id obj)"

lemmas ig_DeleteFingerprintUidResponse_setters =
  ig_DeleteFingerprintUidResponse_set_operation_id_def
  ig_DeleteFingerprintUidResponse_set_result_def

text \<open>A guarded setter, member by member.\<close>
lemma ig_DeleteFingerprintUidResponse_set_if:
  "(if g then ig_DeleteFingerprintUidResponse_set_result v0 obj else obj) =
     obj\<lparr>DeleteFingerprintUidResponse_result := pick g v0 (DeleteFingerprintUidResponse_result obj),
       DeleteFingerprintUidResponse_has_result := g \<or> DeleteFingerprintUidResponse_has_result obj\<rparr>"
  "(if g then ig_DeleteFingerprintUidResponse_set_operation_id v1 obj else obj) =
     obj\<lparr>DeleteFingerprintUidResponse_operation_id := pick g v1
       (DeleteFingerprintUidResponse_operation_id obj),
       DeleteFingerprintUidResponse_has_operation_id := g \<or>
         DeleteFingerprintUidResponse_has_operation_id obj\<rparr>"
  by (simp_all add: ig_DeleteFingerprintUidResponse_setters pick_def)

lemma ig_DeleteFingerprintUidResponse_store:
  assumes ok: "ig_DeleteFingerprintUidResponse_ok obj"
  shows "store_fields ig_DeleteFingerprintUidResponse_cases (ig_DeleteFingerprintUidResponse_fields
    obj) ig_DeleteFingerprintUidResponse_init = Some obj"
proof -
  have h: "num_ok (DeleteFingerprintUidResponse_has_result obj) (DeleteFingerprintUidResponse_result obj)"
    "num_ok (DeleteFingerprintUidResponse_has_operation_id obj)
      (DeleteFingerprintUidResponse_operation_id obj)"
    and valid: "ig_DeleteFingerprintUidResponse_is_valid obj"
    using ok by (simp_all add: ig_DeleteFingerprintUidResponse_ok_def)
  show ?thesis
    using valid
    by (simp add: ig_DeleteFingerprintUidResponse_fields_def
      ig_DeleteFingerprintUidResponse_cases_def ig_DeleteFingerprintUidResponse_init_def codec_simps
        ig_DeleteFingerprintUidResponse_set_if ig_DeleteFingerprintUidResponse_setters split del: if_split)
       (simp add: ig_DeleteFingerprintUidResponse_is_valid_def
         num_ok_store [OF h(1)]
         num_ok_store [OF h(2)])
qed

lemma ig_DeleteFingerprintUidResponse_bound:
  assumes "ig_DeleteFingerprintUidResponse_ok obj"
  shows "2 + length (number_bytes 80 MtUnsigned) + fields_bound (ig_DeleteFingerprintUidResponse_fields obj)
    \<le> unat (ig_DeleteFingerprintUidResponse_get_max_payload_in_bytes obj)"
  using number_bytes_u8 [of "DeleteFingerprintUidResponse_result obj" 0]
    number_bytes_u32 [of "DeleteFingerprintUidResponse_operation_id obj" 0]
  by (simp add: ig_DeleteFingerprintUidResponse_fields_def
    ig_DeleteFingerprintUidResponse_get_max_payload_in_bytes_def number_bytes_literal)

interpretation DeleteFingerprintUidResponse_codec: ig_message
  ig_DeleteFingerprintUidResponse_encode ig_DeleteFingerprintUidResponse_decode
  ig_DeleteFingerprintUidResponse_get_max_payload_in_bytes ig_DeleteFingerprintUidResponse_is_valid
    ig_DeleteFingerprintUidResponse_init ig_DeleteFingerprintUidResponse_ok 80
  ig_DeleteFingerprintUidResponse_fields_size ig_DeleteFingerprintUidResponse_fields
    ig_DeleteFingerprintUidResponse_cases
  by (unfold_locales;
      (rule ig_DeleteFingerprintUidResponse_encode_def ig_DeleteFingerprintUidResponse_decode_def |
        erule ig_DeleteFingerprintUidResponse_store ig_DeleteFingerprintUidResponse_bound |
       auto simp: ig_DeleteFingerprintUidResponse_cases_def
         ig_DeleteFingerprintUidResponse_fields_def ig_DeleteFingerprintUidResponse_fields_size_def
           ig_DeleteFingerprintUidResponse_ok_def
         simp del: arg_block_ok.simps(1,2) intro: str_ok_block))

subsection \<open>FingerprintAddedNotification\<close>

record IgFingerprintAddedNotification =
  FingerprintAddedNotification_has_uid :: bool
  FingerprintAddedNotification_uid :: u16
  FingerprintAddedNotification_has_result :: bool
  FingerprintAddedNotification_result :: u8

definition ig_FingerprintAddedNotification_init :: IgFingerprintAddedNotification where
  "ig_FingerprintAddedNotification_init =
     \<lparr>FingerprintAddedNotification_has_uid = False,
      FingerprintAddedNotification_uid = 0,
      FingerprintAddedNotification_has_result = False,
      FingerprintAddedNotification_result = 0\<rparr>"

definition ig_FingerprintAddedNotification_set_uid :: "u16 \<Rightarrow>
  IgFingerprintAddedNotification \<Rightarrow> IgFingerprintAddedNotification" where
  "ig_FingerprintAddedNotification_set_uid v obj = obj\<lparr>FingerprintAddedNotification_uid :=
    v, FingerprintAddedNotification_has_uid := True\<rparr>"

definition ig_FingerprintAddedNotification_set_result :: "u8 \<Rightarrow>
  IgFingerprintAddedNotification \<Rightarrow> IgFingerprintAddedNotification" where
  "ig_FingerprintAddedNotification_set_result v obj =
    obj\<lparr>FingerprintAddedNotification_result := v, FingerprintAddedNotification_has_result :=
      True\<rparr>"

definition ig_FingerprintAddedNotification_deinit :: "IgFingerprintAddedNotification \<Rightarrow>
  IgFingerprintAddedNotification" where
  "ig_FingerprintAddedNotification_deinit obj = obj"

definition ig_FingerprintAddedNotification_is_valid :: "IgFingerprintAddedNotification
  \<Rightarrow> bool" where
  "ig_FingerprintAddedNotification_is_valid obj \<longleftrightarrow> True"

definition ig_FingerprintAddedNotification_get_max_payload_in_bytes ::
  "IgFingerprintAddedNotification \<Rightarrow> u32" where
  "ig_FingerprintAddedNotification_get_max_payload_in_bytes obj = 20"

definition ig_FingerprintAddedNotification_fields_size :: "IgFingerprintAddedNotification
  \<Rightarrow> u64" where
  "ig_FingerprintAddedNotification_fields_size obj = 1 + 0 + of_bool
    (FingerprintAddedNotification_has_uid obj) + of_bool (FingerprintAddedNotification_has_result obj)"

definition ig_FingerprintAddedNotification_fields :: "IgFingerprintAddedNotification \<Rightarrow>
  enc_field list" where
  "ig_FingerprintAddedNotification_fields obj =
    [(FingerprintAddedNotification_has_uid obj, 11, AUint (ucast (FingerprintAddedNotification_uid obj))),
     (FingerprintAddedNotification_has_result obj, 12, AUint (ucast
       (FingerprintAddedNotification_result obj)))]"

definition ig_FingerprintAddedNotification_encode ::
  "IgFingerprintAddedNotification \<Rightarrow> bytes \<Rightarrow> u32 \<Rightarrow> (nat \<times>
    bytes \<times> nat option) res" where
  "ig_FingerprintAddedNotification_encode obj retval len =
     (if \<not> ig_FingerprintAddedNotification_is_valid obj then Ok
       (IgSerializerErrorInvalidPayload, retval, None)
      else ig_encode (ig_FingerprintAddedNotification_fields_size obj) 103
        (ig_FingerprintAddedNotification_fields obj) retval len)"

definition ig_FingerprintAddedNotification_cases :: "(i64 \<times> IgFingerprintAddedNotification
  case_body) list" where
  "ig_FingerprintAddedNotification_cases =
    [(0, CMsgId 103),
     (11, CUint (\<lambda>v. ig_FingerprintAddedNotification_set_uid (ucast v))),
     (12, CUint (\<lambda>v. ig_FingerprintAddedNotification_set_result (ucast v)))]"

definition ig_FingerprintAddedNotification_decode :: "bytes \<Rightarrow>
  IgFingerprintAddedNotification \<Rightarrow> nat \<Rightarrow> (nat \<times>
    IgFingerprintAddedNotification) res" where
  "ig_FingerprintAddedNotification_decode buf obj index = ig_decode
    ig_FingerprintAddedNotification_cases buf obj index"

definition ig_FingerprintAddedNotification_ok :: "IgFingerprintAddedNotification \<Rightarrow> bool" where
  "ig_FingerprintAddedNotification_ok obj \<longleftrightarrow>
    ig_FingerprintAddedNotification_is_valid obj \<and>
     num_ok (FingerprintAddedNotification_has_uid obj) (FingerprintAddedNotification_uid obj) \<and>
     num_ok (FingerprintAddedNotification_has_result obj) (FingerprintAddedNotification_result obj)"

lemmas ig_FingerprintAddedNotification_setters =
  ig_FingerprintAddedNotification_set_result_def
  ig_FingerprintAddedNotification_set_uid_def

text \<open>A guarded setter, member by member.\<close>
lemma ig_FingerprintAddedNotification_set_if:
  "(if g then ig_FingerprintAddedNotification_set_uid v0 obj else obj) =
     obj\<lparr>FingerprintAddedNotification_uid := pick g v0 (FingerprintAddedNotification_uid obj),
       FingerprintAddedNotification_has_uid := g \<or> FingerprintAddedNotification_has_uid obj\<rparr>"
  "(if g then ig_FingerprintAddedNotification_set_result v1 obj else obj) =
     obj\<lparr>FingerprintAddedNotification_result := pick g v1 (FingerprintAddedNotification_result obj),
       FingerprintAddedNotification_has_result := g \<or> FingerprintAddedNotification_has_result obj\<rparr>"
  by (simp_all add: ig_FingerprintAddedNotification_setters pick_def)

lemma ig_FingerprintAddedNotification_store:
  assumes ok: "ig_FingerprintAddedNotification_ok obj"
  shows "store_fields ig_FingerprintAddedNotification_cases (ig_FingerprintAddedNotification_fields
    obj) ig_FingerprintAddedNotification_init = Some obj"
proof -
  have h: "num_ok (FingerprintAddedNotification_has_uid obj) (FingerprintAddedNotification_uid obj)"
    "num_ok (FingerprintAddedNotification_has_result obj) (FingerprintAddedNotification_result obj)"
    and valid: "ig_FingerprintAddedNotification_is_valid obj"
    using ok by (simp_all add: ig_FingerprintAddedNotification_ok_def)
  show ?thesis
    using valid
    by (simp add: ig_FingerprintAddedNotification_fields_def
      ig_FingerprintAddedNotification_cases_def ig_FingerprintAddedNotification_init_def codec_simps
        ig_FingerprintAddedNotification_set_if ig_FingerprintAddedNotification_setters split del: if_split)
       (simp add: ig_FingerprintAddedNotification_is_valid_def
         num_ok_store [OF h(1)]
         num_ok_store [OF h(2)])
qed

lemma ig_FingerprintAddedNotification_bound:
  assumes "ig_FingerprintAddedNotification_ok obj"
  shows "2 + length (number_bytes 103 MtUnsigned) + fields_bound (ig_FingerprintAddedNotification_fields obj)
    \<le> unat (ig_FingerprintAddedNotification_get_max_payload_in_bytes obj)"
  using number_bytes_u16 [of "FingerprintAddedNotification_uid obj" 0]
    number_bytes_u8 [of "FingerprintAddedNotification_result obj" 0]
  by (simp add: ig_FingerprintAddedNotification_fields_def
    ig_FingerprintAddedNotification_get_max_payload_in_bytes_def number_bytes_literal)

interpretation FingerprintAddedNotification_codec: ig_message
  ig_FingerprintAddedNotification_encode ig_FingerprintAddedNotification_decode
  ig_FingerprintAddedNotification_get_max_payload_in_bytes ig_FingerprintAddedNotification_is_valid
    ig_FingerprintAddedNotification_init ig_FingerprintAddedNotification_ok 103
  ig_FingerprintAddedNotification_fields_size ig_FingerprintAddedNotification_fields
    ig_FingerprintAddedNotification_cases
  by (unfold_locales;
      (rule ig_FingerprintAddedNotification_encode_def ig_FingerprintAddedNotification_decode_def |
        erule ig_FingerprintAddedNotification_store ig_FingerprintAddedNotification_bound |
       auto simp: ig_FingerprintAddedNotification_cases_def
         ig_FingerprintAddedNotification_fields_def ig_FingerprintAddedNotification_fields_size_def
           ig_FingerprintAddedNotification_ok_def
         simp del: arg_block_ok.simps(1,2) intro: str_ok_block))

subsection \<open>FingerprintDeletedNotification\<close>

record IgFingerprintDeletedNotification =
  FingerprintDeletedNotification_has_uid :: bool
  FingerprintDeletedNotification_uid :: u16
  FingerprintDeletedNotification_has_result :: bool
  FingerprintDeletedNotification_result :: u8

definition ig_FingerprintDeletedNotification_init :: IgFingerprintDeletedNotification where
  "ig_FingerprintDeletedNotification_init =
     \<lparr>FingerprintDeletedNotification_has_uid = False,
      FingerprintDeletedNotification_uid = 0,
      FingerprintDeletedNotification_has_result = False,
      FingerprintDeletedNotification_result = 0\<rparr>"

definition ig_FingerprintDeletedNotification_set_uid :: "u16 \<Rightarrow>
  IgFingerprintDeletedNotification \<Rightarrow> IgFingerprintDeletedNotification" where
  "ig_FingerprintDeletedNotification_set_uid v obj = obj\<lparr>FingerprintDeletedNotification_uid
    := v, FingerprintDeletedNotification_has_uid := True\<rparr>"

definition ig_FingerprintDeletedNotification_set_result :: "u8 \<Rightarrow>
  IgFingerprintDeletedNotification \<Rightarrow> IgFingerprintDeletedNotification" where
  "ig_FingerprintDeletedNotification_set_result v obj =
    obj\<lparr>FingerprintDeletedNotification_result := v,
      FingerprintDeletedNotification_has_result := True\<rparr>"

definition ig_FingerprintDeletedNotification_deinit :: "IgFingerprintDeletedNotification
  \<Rightarrow> IgFingerprintDeletedNotification" where
  "ig_FingerprintDeletedNotification_deinit obj = obj"

definition ig_FingerprintDeletedNotification_is_valid :: "IgFingerprintDeletedNotification
  \<Rightarrow> bool" where
  "ig_FingerprintDeletedNotification_is_valid obj \<longleftrightarrow> True"

definition ig_FingerprintDeletedNotification_get_max_payload_in_bytes ::
  "IgFingerprintDeletedNotification \<Rightarrow> u32" where
  "ig_FingerprintDeletedNotification_get_max_payload_in_bytes obj = 20"

definition ig_FingerprintDeletedNotification_fields_size :: "IgFingerprintDeletedNotification
  \<Rightarrow> u64" where
  "ig_FingerprintDeletedNotification_fields_size obj = 1 + 0 + of_bool
    (FingerprintDeletedNotification_has_uid obj) + of_bool (FingerprintDeletedNotification_has_result obj)"

definition ig_FingerprintDeletedNotification_fields :: "IgFingerprintDeletedNotification
  \<Rightarrow> enc_field list" where
  "ig_FingerprintDeletedNotification_fields obj =
    [(FingerprintDeletedNotification_has_uid obj, 11, AUint (ucast (FingerprintDeletedNotification_uid obj))),
     (FingerprintDeletedNotification_has_result obj, 12, AUint (ucast
       (FingerprintDeletedNotification_result obj)))]"

definition ig_FingerprintDeletedNotification_encode ::
  "IgFingerprintDeletedNotification \<Rightarrow> bytes \<Rightarrow> u32 \<Rightarrow> (nat
    \<times> bytes \<times> nat option) res" where
  "ig_FingerprintDeletedNotification_encode obj retval len =
     (if \<not> ig_FingerprintDeletedNotification_is_valid obj then Ok
       (IgSerializerErrorInvalidPayload, retval, None)
      else ig_encode (ig_FingerprintDeletedNotification_fields_size obj) 104
        (ig_FingerprintDeletedNotification_fields obj) retval len)"

definition ig_FingerprintDeletedNotification_cases :: "(i64 \<times>
  IgFingerprintDeletedNotification case_body) list" where
  "ig_FingerprintDeletedNotification_cases =
    [(0, CMsgId 104),
     (11, CUint (\<lambda>v. ig_FingerprintDeletedNotification_set_uid (ucast v))),
     (12, CUint (\<lambda>v. ig_FingerprintDeletedNotification_set_result (ucast v)))]"

definition ig_FingerprintDeletedNotification_decode :: "bytes \<Rightarrow>
  IgFingerprintDeletedNotification \<Rightarrow> nat \<Rightarrow> (nat \<times>
    IgFingerprintDeletedNotification) res" where
  "ig_FingerprintDeletedNotification_decode buf obj index = ig_decode
    ig_FingerprintDeletedNotification_cases buf obj index"

definition ig_FingerprintDeletedNotification_ok :: "IgFingerprintDeletedNotification \<Rightarrow> bool" where
  "ig_FingerprintDeletedNotification_ok obj \<longleftrightarrow>
    ig_FingerprintDeletedNotification_is_valid obj \<and>
     num_ok (FingerprintDeletedNotification_has_uid obj) (FingerprintDeletedNotification_uid obj) \<and>
     num_ok (FingerprintDeletedNotification_has_result obj) (FingerprintDeletedNotification_result obj)"

lemmas ig_FingerprintDeletedNotification_setters =
  ig_FingerprintDeletedNotification_set_result_def
  ig_FingerprintDeletedNotification_set_uid_def

text \<open>A guarded setter, member by member.\<close>
lemma ig_FingerprintDeletedNotification_set_if:
  "(if g then ig_FingerprintDeletedNotification_set_uid v0 obj else obj) =
     obj\<lparr>FingerprintDeletedNotification_uid := pick g v0 (FingerprintDeletedNotification_uid obj),
       FingerprintDeletedNotification_has_uid := g \<or> FingerprintDeletedNotification_has_uid obj\<rparr>"
  "(if g then ig_FingerprintDeletedNotification_set_result v1 obj else obj) =
     obj\<lparr>FingerprintDeletedNotification_result := pick g v1
       (FingerprintDeletedNotification_result obj),
       FingerprintDeletedNotification_has_result := g \<or>
         FingerprintDeletedNotification_has_result obj\<rparr>"
  by (simp_all add: ig_FingerprintDeletedNotification_setters pick_def)

lemma ig_FingerprintDeletedNotification_store:
  assumes ok: "ig_FingerprintDeletedNotification_ok obj"
  shows "store_fields ig_FingerprintDeletedNotification_cases
    (ig_FingerprintDeletedNotification_fields obj) ig_FingerprintDeletedNotification_init = Some obj"
proof -
  have h: "num_ok (FingerprintDeletedNotification_has_uid obj) (FingerprintDeletedNotification_uid obj)"
    "num_ok (FingerprintDeletedNotification_has_result obj) (FingerprintDeletedNotification_result obj)"
    and valid: "ig_FingerprintDeletedNotification_is_valid obj"
    using ok by (simp_all add: ig_FingerprintDeletedNotification_ok_def)
  show ?thesis
    using valid
    by (simp add: ig_FingerprintDeletedNotification_fields_def
      ig_FingerprintDeletedNotification_cases_def ig_FingerprintDeletedNotification_init_def codec_simps
        ig_FingerprintDeletedNotification_set_if ig_FingerprintDeletedNotification_setters split
          del: if_split)
       (simp add: ig_FingerprintDeletedNotification_is_valid_def
         num_ok_store [OF h(1)]
         num_ok_store [OF h(2)])
qed

lemma ig_FingerprintDeletedNotification_bound:
  assumes "ig_FingerprintDeletedNotification_ok obj"
  shows "2 + length (number_bytes 104 MtUnsigned) + fields_bound
    (ig_FingerprintDeletedNotification_fields obj)
    \<le> unat (ig_FingerprintDeletedNotification_get_max_payload_in_bytes obj)"
  using number_bytes_u16 [of "FingerprintDeletedNotification_uid obj" 0]
    number_bytes_u8 [of "FingerprintDeletedNotification_result obj" 0]
  by (simp add: ig_FingerprintDeletedNotification_fields_def
    ig_FingerprintDeletedNotification_get_max_payload_in_bytes_def number_bytes_literal)

interpretation FingerprintDeletedNotification_codec: ig_message
  ig_FingerprintDeletedNotification_encode ig_FingerprintDeletedNotification_decode
  ig_FingerprintDeletedNotification_get_max_payload_in_bytes
    ig_FingerprintDeletedNotification_is_valid ig_FingerprintDeletedNotification_init
      ig_FingerprintDeletedNotification_ok 104
  ig_FingerprintDeletedNotification_fields_size ig_FingerprintDeletedNotification_fields
    ig_FingerprintDeletedNotification_cases
  by (unfold_locales;
      (rule ig_FingerprintDeletedNotification_encode_def
        ig_FingerprintDeletedNotification_decode_def | erule
          ig_FingerprintDeletedNotification_store ig_FingerprintDeletedNotification_bound |
       auto simp: ig_FingerprintDeletedNotification_cases_def
         ig_FingerprintDeletedNotification_fields_def
           ig_FingerprintDeletedNotification_fields_size_def ig_FingerprintDeletedNotification_ok_def
         simp del: arg_block_ok.simps(1,2) intro: str_ok_block))

end
