(* ===== verification/Messages_Settings.thy ===== *)
theory Messages_Settings
  imports Ig_Interface
begin

text \<open>
  The files of \<open>lock/messages/\<close> for messages for time, sound, light, battery and
    firmware.  Per message \<open>X\<close>: the struct (\<open>IgX\<close>, members prefixed
  with the message name), \<open>ig_X_init\<close>, the setters, \<open>ig_X_deinit\<close>,
    \<open>ig_X_is_valid\<close>,
  \<open>ig_X_get_max_payload_in_bytes\<close>, the encoder with its list of key/value writes
  (\<open>ig_X_fields\<close>) and the decoder with its list of cases (\<open>ig_X_cases\<close>). 
    The argument
  \<open>same_ptr\<close> of a string setter is the pointer comparison it starts with; the decoders pass
  \<open>False\<close>, their block is fresh.  \<open>ig_X_ok\<close> describes the objects
    \<open>init\<close> and the setters
  build, and the interpretation of \<open>ig_message\<close> proves the file a codec.
\<close>

subsection \<open>SetTimeRequest\<close>

record IgSetTimeRequest =
  SetTimeRequest_has_password :: bool
  SetTimeRequest_password :: block_ptr
  SetTimeRequest_password_size :: nat
  SetTimeRequest_has_timestamp :: bool
  SetTimeRequest_timestamp :: u32
  SetTimeRequest_has_operation_id :: bool
  SetTimeRequest_operation_id :: u32

definition ig_SetTimeRequest_init :: IgSetTimeRequest where
  "ig_SetTimeRequest_init =
     \<lparr>SetTimeRequest_has_password = False,
      SetTimeRequest_password = None,
      SetTimeRequest_password_size = 0,
      SetTimeRequest_has_timestamp = False,
      SetTimeRequest_timestamp = 0,
      SetTimeRequest_has_operation_id = False,
      SetTimeRequest_operation_id = 0\<rparr>"

definition ig_SetTimeRequest_get_password_size :: "IgSetTimeRequest \<Rightarrow> nat" where
  "ig_SetTimeRequest_get_password_size obj = SetTimeRequest_password_size obj"

definition ig_SetTimeRequest_set_password_nocopy ::
  "bool \<Rightarrow> block_ptr \<Rightarrow> nat \<Rightarrow> IgSetTimeRequest \<Rightarrow>
    IgSetTimeRequest" where
  "ig_SetTimeRequest_set_password_nocopy same_ptr p n obj =
     (if same_ptr then obj
      else let obj = (if SetTimeRequest_has_password obj then obj\<lparr>SetTimeRequest_password :=
        None\<rparr> else obj)
        in obj\<lparr>SetTimeRequest_password := p, SetTimeRequest_password_size := n,
          SetTimeRequest_has_password := n > 0\<rparr>)"

definition ig_SetTimeRequest_set_password ::
  "bool \<Rightarrow> block_ptr \<Rightarrow> nat \<Rightarrow> IgSetTimeRequest \<Rightarrow>
    IgSetTimeRequest res" where
  "ig_SetTimeRequest_set_password same_ptr p n obj =
     (if same_ptr then Ok obj
      else let obj = (if SetTimeRequest_has_password obj then obj\<lparr>SetTimeRequest_password :=
        None\<rparr> else obj)
        in bindR (block_read p n) (\<lambda>d.
          Ok (obj\<lparr>SetTimeRequest_password := Some d, SetTimeRequest_password_size := n,
            SetTimeRequest_has_password := n > 0\<rparr>)))"

definition ig_SetTimeRequest_set_timestamp :: "u32 \<Rightarrow> IgSetTimeRequest \<Rightarrow>
  IgSetTimeRequest" where
  "ig_SetTimeRequest_set_timestamp v obj = obj\<lparr>SetTimeRequest_timestamp := v,
    SetTimeRequest_has_timestamp := True\<rparr>"

definition ig_SetTimeRequest_set_operation_id :: "u32 \<Rightarrow> IgSetTimeRequest \<Rightarrow>
  IgSetTimeRequest" where
  "ig_SetTimeRequest_set_operation_id v obj = obj\<lparr>SetTimeRequest_operation_id := v,
    SetTimeRequest_has_operation_id := True\<rparr>"

definition ig_SetTimeRequest_deinit :: "IgSetTimeRequest \<Rightarrow> IgSetTimeRequest" where
  "ig_SetTimeRequest_deinit obj = (let
     obj = (if SetTimeRequest_has_password obj then obj\<lparr>SetTimeRequest_password :=
       None\<rparr> else obj)
   in obj)"

definition ig_SetTimeRequest_is_valid :: "IgSetTimeRequest \<Rightarrow> bool" where
  "ig_SetTimeRequest_is_valid obj \<longleftrightarrow> SetTimeRequest_has_password obj \<and>
    SetTimeRequest_has_timestamp obj"

definition ig_SetTimeRequest_get_max_payload_in_bytes :: "IgSetTimeRequest \<Rightarrow> u32" where
  "ig_SetTimeRequest_get_max_payload_in_bytes obj = word_of_nat (32 + SetTimeRequest_password_size obj)"

definition ig_SetTimeRequest_fields_size :: "IgSetTimeRequest \<Rightarrow> u64" where
  "ig_SetTimeRequest_fields_size obj = 1 + 2 + of_bool (SetTimeRequest_has_operation_id obj)"

definition ig_SetTimeRequest_fields :: "IgSetTimeRequest \<Rightarrow> enc_field list" where
  "ig_SetTimeRequest_fields obj =
    [(True, 11, ABytes (SetTimeRequest_password obj) (SetTimeRequest_password_size obj)),
     (True, 12, AUint (ucast (SetTimeRequest_timestamp obj))),
     (SetTimeRequest_has_operation_id obj, 100, AUint (ucast (SetTimeRequest_operation_id obj)))]"

definition ig_SetTimeRequest_encode ::
  "IgSetTimeRequest \<Rightarrow> bytes \<Rightarrow> u32 \<Rightarrow> (nat \<times> bytes
    \<times> nat option) res" where
  "ig_SetTimeRequest_encode obj retval len =
     (if \<not> ig_SetTimeRequest_is_valid obj then Ok (IgSerializerErrorInvalidPayload, retval, None)
      else ig_encode (ig_SetTimeRequest_fields_size obj) 25 (ig_SetTimeRequest_fields obj) retval len)"

definition ig_SetTimeRequest_cases :: "(i64 \<times> IgSetTimeRequest case_body) list" where
  "ig_SetTimeRequest_cases =
    [(0, CMsgId 25),
     (11, CBytes (ig_SetTimeRequest_set_password_nocopy False)),
     (12, CUint (\<lambda>v. ig_SetTimeRequest_set_timestamp (ucast v))),
     (100, CUint (\<lambda>v. ig_SetTimeRequest_set_operation_id (ucast v)))]"

definition ig_SetTimeRequest_decode :: "bytes \<Rightarrow> IgSetTimeRequest \<Rightarrow> nat
  \<Rightarrow> (nat \<times> IgSetTimeRequest) res" where
  "ig_SetTimeRequest_decode buf obj index = ig_decode ig_SetTimeRequest_cases buf obj index"

definition ig_SetTimeRequest_ok :: "IgSetTimeRequest \<Rightarrow> bool" where
  "ig_SetTimeRequest_ok obj \<longleftrightarrow> ig_SetTimeRequest_is_valid obj \<and>
     str_ok (SetTimeRequest_has_password obj) (SetTimeRequest_password obj)
       (SetTimeRequest_password_size obj) \<and>
     num_ok (SetTimeRequest_has_timestamp obj) (SetTimeRequest_timestamp obj) \<and>
     num_ok (SetTimeRequest_has_operation_id obj) (SetTimeRequest_operation_id obj)"

lemmas ig_SetTimeRequest_setters =
  ig_SetTimeRequest_set_operation_id_def
  ig_SetTimeRequest_set_password_nocopy_def
  ig_SetTimeRequest_set_timestamp_def

text \<open>A guarded setter, member by member.\<close>
lemma ig_SetTimeRequest_set_if:
  "(if g then ig_SetTimeRequest_set_operation_id v0 obj else obj) =
     obj\<lparr>SetTimeRequest_operation_id := pick g v0 (SetTimeRequest_operation_id obj),
       SetTimeRequest_has_operation_id := g \<or> SetTimeRequest_has_operation_id obj\<rparr>"
  by (simp_all add: ig_SetTimeRequest_setters pick_def)

lemma ig_SetTimeRequest_store:
  assumes ok: "ig_SetTimeRequest_ok obj"
  shows "store_fields ig_SetTimeRequest_cases (ig_SetTimeRequest_fields obj) ig_SetTimeRequest_init
    = Some obj"
proof -
  have h: "str_ok (SetTimeRequest_has_password obj) (SetTimeRequest_password obj)
    (SetTimeRequest_password_size obj)"
    "num_ok (SetTimeRequest_has_timestamp obj) (SetTimeRequest_timestamp obj)"
    "num_ok (SetTimeRequest_has_operation_id obj) (SetTimeRequest_operation_id obj)"
    and valid: "ig_SetTimeRequest_is_valid obj"
    using ok by (simp_all add: ig_SetTimeRequest_ok_def)
  show ?thesis
    using valid
    by (simp add: ig_SetTimeRequest_fields_def ig_SetTimeRequest_cases_def
      ig_SetTimeRequest_init_def codec_simps
        ig_SetTimeRequest_set_if ig_SetTimeRequest_setters split del: if_split)
       (simp add: ig_SetTimeRequest_is_valid_def
         str_ok_store [OF h(1)]
         num_ok_store [OF h(2)]
         num_ok_store [OF h(3)])
qed

lemma ig_SetTimeRequest_bound:
  assumes "ig_SetTimeRequest_ok obj"
  shows "2 + length (number_bytes 25 MtUnsigned) + fields_bound (ig_SetTimeRequest_fields obj)
    \<le> unat (ig_SetTimeRequest_get_max_payload_in_bytes obj)"
proof -
  have sizes: "SetTimeRequest_password_size obj < 2 ^ 24"
    using assms by (auto simp: ig_SetTimeRequest_ok_def dest!: str_ok_bound)
  show ?thesis
    using sizes number_bytes_size [of "SetTimeRequest_password_size obj" "0x40"]
      number_bytes_u32 [of "SetTimeRequest_timestamp obj" 0]
      number_bytes_u32 [of "SetTimeRequest_operation_id obj" 0]
    by (simp add: ig_SetTimeRequest_fields_def ig_SetTimeRequest_get_max_payload_in_bytes_def
      number_bytes_literal
        unat_of_nat_small del: of_nat_add)
qed

interpretation SetTimeRequest_codec: ig_message ig_SetTimeRequest_encode ig_SetTimeRequest_decode
  ig_SetTimeRequest_get_max_payload_in_bytes ig_SetTimeRequest_is_valid ig_SetTimeRequest_init
    ig_SetTimeRequest_ok 25
  ig_SetTimeRequest_fields_size ig_SetTimeRequest_fields ig_SetTimeRequest_cases
  by (unfold_locales;
      (rule ig_SetTimeRequest_encode_def ig_SetTimeRequest_decode_def | erule
        ig_SetTimeRequest_store ig_SetTimeRequest_bound |
       auto simp: ig_SetTimeRequest_cases_def ig_SetTimeRequest_fields_def
         ig_SetTimeRequest_fields_size_def ig_SetTimeRequest_ok_def
         simp del: arg_block_ok.simps(1,2) intro: str_ok_block))

subsection \<open>SetTimeResponse\<close>

record IgSetTimeResponse =
  SetTimeResponse_has_result :: bool
  SetTimeResponse_result :: u8
  SetTimeResponse_has_operation_id :: bool
  SetTimeResponse_operation_id :: u32

definition ig_SetTimeResponse_init :: IgSetTimeResponse where
  "ig_SetTimeResponse_init =
     \<lparr>SetTimeResponse_has_result = False,
      SetTimeResponse_result = 0,
      SetTimeResponse_has_operation_id = False,
      SetTimeResponse_operation_id = 0\<rparr>"

definition ig_SetTimeResponse_set_result :: "u8 \<Rightarrow> IgSetTimeResponse \<Rightarrow>
  IgSetTimeResponse" where
  "ig_SetTimeResponse_set_result v obj = obj\<lparr>SetTimeResponse_result := v,
    SetTimeResponse_has_result := True\<rparr>"

definition ig_SetTimeResponse_set_operation_id :: "u32 \<Rightarrow> IgSetTimeResponse
  \<Rightarrow> IgSetTimeResponse" where
  "ig_SetTimeResponse_set_operation_id v obj = obj\<lparr>SetTimeResponse_operation_id := v,
    SetTimeResponse_has_operation_id := True\<rparr>"

definition ig_SetTimeResponse_deinit :: "IgSetTimeResponse \<Rightarrow> IgSetTimeResponse" where
  "ig_SetTimeResponse_deinit obj = obj"

definition ig_SetTimeResponse_is_valid :: "IgSetTimeResponse \<Rightarrow> bool" where
  "ig_SetTimeResponse_is_valid obj \<longleftrightarrow> SetTimeResponse_has_result obj"

definition ig_SetTimeResponse_get_max_payload_in_bytes :: "IgSetTimeResponse \<Rightarrow> u32" where
  "ig_SetTimeResponse_get_max_payload_in_bytes obj = 22"

definition ig_SetTimeResponse_fields_size :: "IgSetTimeResponse \<Rightarrow> u64" where
  "ig_SetTimeResponse_fields_size obj = 1 + 1 + of_bool (SetTimeResponse_has_operation_id obj)"

definition ig_SetTimeResponse_fields :: "IgSetTimeResponse \<Rightarrow> enc_field list" where
  "ig_SetTimeResponse_fields obj =
    [(True, 11, AUint (ucast (SetTimeResponse_result obj))),
     (SetTimeResponse_has_operation_id obj, 100, AUint (ucast (SetTimeResponse_operation_id obj)))]"

definition ig_SetTimeResponse_encode ::
  "IgSetTimeResponse \<Rightarrow> bytes \<Rightarrow> u32 \<Rightarrow> (nat \<times> bytes
    \<times> nat option) res" where
  "ig_SetTimeResponse_encode obj retval len =
     (if \<not> ig_SetTimeResponse_is_valid obj then Ok (IgSerializerErrorInvalidPayload, retval, None)
      else ig_encode (ig_SetTimeResponse_fields_size obj) 26 (ig_SetTimeResponse_fields obj) retval len)"

definition ig_SetTimeResponse_cases :: "(i64 \<times> IgSetTimeResponse case_body) list" where
  "ig_SetTimeResponse_cases =
    [(0, CMsgId 26),
     (11, CUint (\<lambda>v. ig_SetTimeResponse_set_result (ucast v))),
     (100, CUint (\<lambda>v. ig_SetTimeResponse_set_operation_id (ucast v)))]"

definition ig_SetTimeResponse_decode :: "bytes \<Rightarrow> IgSetTimeResponse \<Rightarrow> nat
  \<Rightarrow> (nat \<times> IgSetTimeResponse) res" where
  "ig_SetTimeResponse_decode buf obj index = ig_decode ig_SetTimeResponse_cases buf obj index"

definition ig_SetTimeResponse_ok :: "IgSetTimeResponse \<Rightarrow> bool" where
  "ig_SetTimeResponse_ok obj \<longleftrightarrow> ig_SetTimeResponse_is_valid obj \<and>
     num_ok (SetTimeResponse_has_result obj) (SetTimeResponse_result obj) \<and>
     num_ok (SetTimeResponse_has_operation_id obj) (SetTimeResponse_operation_id obj)"

lemmas ig_SetTimeResponse_setters =
  ig_SetTimeResponse_set_operation_id_def
  ig_SetTimeResponse_set_result_def

text \<open>A guarded setter, member by member.\<close>
lemma ig_SetTimeResponse_set_if:
  "(if g then ig_SetTimeResponse_set_operation_id v0 obj else obj) =
     obj\<lparr>SetTimeResponse_operation_id := pick g v0 (SetTimeResponse_operation_id obj),
       SetTimeResponse_has_operation_id := g \<or> SetTimeResponse_has_operation_id obj\<rparr>"
  by (simp_all add: ig_SetTimeResponse_setters pick_def)

lemma ig_SetTimeResponse_store:
  assumes ok: "ig_SetTimeResponse_ok obj"
  shows "store_fields ig_SetTimeResponse_cases (ig_SetTimeResponse_fields obj)
    ig_SetTimeResponse_init = Some obj"
proof -
  have h: "num_ok (SetTimeResponse_has_result obj) (SetTimeResponse_result obj)"
    "num_ok (SetTimeResponse_has_operation_id obj) (SetTimeResponse_operation_id obj)"
    and valid: "ig_SetTimeResponse_is_valid obj"
    using ok by (simp_all add: ig_SetTimeResponse_ok_def)
  show ?thesis
    using valid
    by (simp add: ig_SetTimeResponse_fields_def ig_SetTimeResponse_cases_def
      ig_SetTimeResponse_init_def codec_simps
        ig_SetTimeResponse_set_if ig_SetTimeResponse_setters split del: if_split)
       (simp add: ig_SetTimeResponse_is_valid_def
         num_ok_store [OF h(1)]
         num_ok_store [OF h(2)])
qed

lemma ig_SetTimeResponse_bound:
  assumes "ig_SetTimeResponse_ok obj"
  shows "2 + length (number_bytes 26 MtUnsigned) + fields_bound (ig_SetTimeResponse_fields obj)
    \<le> unat (ig_SetTimeResponse_get_max_payload_in_bytes obj)"
  using number_bytes_u8 [of "SetTimeResponse_result obj" 0]
    number_bytes_u32 [of "SetTimeResponse_operation_id obj" 0]
  by (simp add: ig_SetTimeResponse_fields_def ig_SetTimeResponse_get_max_payload_in_bytes_def
    number_bytes_literal)

interpretation SetTimeResponse_codec: ig_message ig_SetTimeResponse_encode ig_SetTimeResponse_decode
  ig_SetTimeResponse_get_max_payload_in_bytes ig_SetTimeResponse_is_valid ig_SetTimeResponse_init
    ig_SetTimeResponse_ok 26
  ig_SetTimeResponse_fields_size ig_SetTimeResponse_fields ig_SetTimeResponse_cases
  by (unfold_locales;
      (rule ig_SetTimeResponse_encode_def ig_SetTimeResponse_decode_def | erule
        ig_SetTimeResponse_store ig_SetTimeResponse_bound |
       auto simp: ig_SetTimeResponse_cases_def ig_SetTimeResponse_fields_def
         ig_SetTimeResponse_fields_size_def ig_SetTimeResponse_ok_def
         simp del: arg_block_ok.simps(1,2) intro: str_ok_block))

subsection \<open>GetTimeRequest\<close>

record IgGetTimeRequest =
  GetTimeRequest_has_password :: bool
  GetTimeRequest_password :: block_ptr
  GetTimeRequest_password_size :: nat
  GetTimeRequest_has_operation_id :: bool
  GetTimeRequest_operation_id :: u32

definition ig_GetTimeRequest_init :: IgGetTimeRequest where
  "ig_GetTimeRequest_init =
     \<lparr>GetTimeRequest_has_password = False,
      GetTimeRequest_password = None,
      GetTimeRequest_password_size = 0,
      GetTimeRequest_has_operation_id = False,
      GetTimeRequest_operation_id = 0\<rparr>"

definition ig_GetTimeRequest_get_password_size :: "IgGetTimeRequest \<Rightarrow> nat" where
  "ig_GetTimeRequest_get_password_size obj = GetTimeRequest_password_size obj"

definition ig_GetTimeRequest_set_password_nocopy ::
  "bool \<Rightarrow> block_ptr \<Rightarrow> nat \<Rightarrow> IgGetTimeRequest \<Rightarrow>
    IgGetTimeRequest" where
  "ig_GetTimeRequest_set_password_nocopy same_ptr p n obj =
     (if same_ptr then obj
      else let obj = (if GetTimeRequest_has_password obj then obj\<lparr>GetTimeRequest_password :=
        None\<rparr> else obj)
        in obj\<lparr>GetTimeRequest_password := p, GetTimeRequest_password_size := n,
          GetTimeRequest_has_password := n > 0\<rparr>)"

definition ig_GetTimeRequest_set_password ::
  "bool \<Rightarrow> block_ptr \<Rightarrow> nat \<Rightarrow> IgGetTimeRequest \<Rightarrow>
    IgGetTimeRequest res" where
  "ig_GetTimeRequest_set_password same_ptr p n obj =
     (if same_ptr then Ok obj
      else let obj = (if GetTimeRequest_has_password obj then obj\<lparr>GetTimeRequest_password :=
        None\<rparr> else obj)
        in bindR (block_read p n) (\<lambda>d.
          Ok (obj\<lparr>GetTimeRequest_password := Some d, GetTimeRequest_password_size := n,
            GetTimeRequest_has_password := n > 0\<rparr>)))"

definition ig_GetTimeRequest_set_operation_id :: "u32 \<Rightarrow> IgGetTimeRequest \<Rightarrow>
  IgGetTimeRequest" where
  "ig_GetTimeRequest_set_operation_id v obj = obj\<lparr>GetTimeRequest_operation_id := v,
    GetTimeRequest_has_operation_id := True\<rparr>"

definition ig_GetTimeRequest_deinit :: "IgGetTimeRequest \<Rightarrow> IgGetTimeRequest" where
  "ig_GetTimeRequest_deinit obj = (let
     obj = (if GetTimeRequest_has_password obj then obj\<lparr>GetTimeRequest_password :=
       None\<rparr> else obj)
   in obj)"

definition ig_GetTimeRequest_is_valid :: "IgGetTimeRequest \<Rightarrow> bool" where
  "ig_GetTimeRequest_is_valid obj \<longleftrightarrow> GetTimeRequest_has_password obj"

definition ig_GetTimeRequest_get_max_payload_in_bytes :: "IgGetTimeRequest \<Rightarrow> u32" where
  "ig_GetTimeRequest_get_max_payload_in_bytes obj = word_of_nat (26 + GetTimeRequest_password_size obj)"

definition ig_GetTimeRequest_fields_size :: "IgGetTimeRequest \<Rightarrow> u64" where
  "ig_GetTimeRequest_fields_size obj = 1 + 1 + of_bool (GetTimeRequest_has_operation_id obj)"

definition ig_GetTimeRequest_fields :: "IgGetTimeRequest \<Rightarrow> enc_field list" where
  "ig_GetTimeRequest_fields obj =
    [(True, 11, ABytes (GetTimeRequest_password obj) (GetTimeRequest_password_size obj)),
     (GetTimeRequest_has_operation_id obj, 100, AUint (ucast (GetTimeRequest_operation_id obj)))]"

definition ig_GetTimeRequest_encode ::
  "IgGetTimeRequest \<Rightarrow> bytes \<Rightarrow> u32 \<Rightarrow> (nat \<times> bytes
    \<times> nat option) res" where
  "ig_GetTimeRequest_encode obj retval len =
     (if \<not> ig_GetTimeRequest_is_valid obj then Ok (IgSerializerErrorInvalidPayload, retval, None)
      else ig_encode (ig_GetTimeRequest_fields_size obj) 27 (ig_GetTimeRequest_fields obj) retval len)"

definition ig_GetTimeRequest_cases :: "(i64 \<times> IgGetTimeRequest case_body) list" where
  "ig_GetTimeRequest_cases =
    [(0, CMsgId 27),
     (11, CBytes (ig_GetTimeRequest_set_password_nocopy False)),
     (100, CUint (\<lambda>v. ig_GetTimeRequest_set_operation_id (ucast v)))]"

definition ig_GetTimeRequest_decode :: "bytes \<Rightarrow> IgGetTimeRequest \<Rightarrow> nat
  \<Rightarrow> (nat \<times> IgGetTimeRequest) res" where
  "ig_GetTimeRequest_decode buf obj index = ig_decode ig_GetTimeRequest_cases buf obj index"

definition ig_GetTimeRequest_ok :: "IgGetTimeRequest \<Rightarrow> bool" where
  "ig_GetTimeRequest_ok obj \<longleftrightarrow> ig_GetTimeRequest_is_valid obj \<and>
     str_ok (GetTimeRequest_has_password obj) (GetTimeRequest_password obj)
       (GetTimeRequest_password_size obj) \<and>
     num_ok (GetTimeRequest_has_operation_id obj) (GetTimeRequest_operation_id obj)"

lemmas ig_GetTimeRequest_setters =
  ig_GetTimeRequest_set_operation_id_def
  ig_GetTimeRequest_set_password_nocopy_def

text \<open>A guarded setter, member by member.\<close>
lemma ig_GetTimeRequest_set_if:
  "(if g then ig_GetTimeRequest_set_operation_id v0 obj else obj) =
     obj\<lparr>GetTimeRequest_operation_id := pick g v0 (GetTimeRequest_operation_id obj),
       GetTimeRequest_has_operation_id := g \<or> GetTimeRequest_has_operation_id obj\<rparr>"
  by (simp_all add: ig_GetTimeRequest_setters pick_def)

lemma ig_GetTimeRequest_store:
  assumes ok: "ig_GetTimeRequest_ok obj"
  shows "store_fields ig_GetTimeRequest_cases (ig_GetTimeRequest_fields obj) ig_GetTimeRequest_init
    = Some obj"
proof -
  have h: "str_ok (GetTimeRequest_has_password obj) (GetTimeRequest_password obj)
    (GetTimeRequest_password_size obj)"
    "num_ok (GetTimeRequest_has_operation_id obj) (GetTimeRequest_operation_id obj)"
    and valid: "ig_GetTimeRequest_is_valid obj"
    using ok by (simp_all add: ig_GetTimeRequest_ok_def)
  show ?thesis
    using valid
    by (simp add: ig_GetTimeRequest_fields_def ig_GetTimeRequest_cases_def
      ig_GetTimeRequest_init_def codec_simps
        ig_GetTimeRequest_set_if ig_GetTimeRequest_setters split del: if_split)
       (simp add: ig_GetTimeRequest_is_valid_def
         str_ok_store [OF h(1)]
         num_ok_store [OF h(2)])
qed

lemma ig_GetTimeRequest_bound:
  assumes "ig_GetTimeRequest_ok obj"
  shows "2 + length (number_bytes 27 MtUnsigned) + fields_bound (ig_GetTimeRequest_fields obj)
    \<le> unat (ig_GetTimeRequest_get_max_payload_in_bytes obj)"
proof -
  have sizes: "GetTimeRequest_password_size obj < 2 ^ 24"
    using assms by (auto simp: ig_GetTimeRequest_ok_def dest!: str_ok_bound)
  show ?thesis
    using sizes number_bytes_size [of "GetTimeRequest_password_size obj" "0x40"]
      number_bytes_u32 [of "GetTimeRequest_operation_id obj" 0]
    by (simp add: ig_GetTimeRequest_fields_def ig_GetTimeRequest_get_max_payload_in_bytes_def
      number_bytes_literal
        unat_of_nat_small del: of_nat_add)
qed

interpretation GetTimeRequest_codec: ig_message ig_GetTimeRequest_encode ig_GetTimeRequest_decode
  ig_GetTimeRequest_get_max_payload_in_bytes ig_GetTimeRequest_is_valid ig_GetTimeRequest_init
    ig_GetTimeRequest_ok 27
  ig_GetTimeRequest_fields_size ig_GetTimeRequest_fields ig_GetTimeRequest_cases
  by (unfold_locales;
      (rule ig_GetTimeRequest_encode_def ig_GetTimeRequest_decode_def | erule
        ig_GetTimeRequest_store ig_GetTimeRequest_bound |
       auto simp: ig_GetTimeRequest_cases_def ig_GetTimeRequest_fields_def
         ig_GetTimeRequest_fields_size_def ig_GetTimeRequest_ok_def
         simp del: arg_block_ok.simps(1,2) intro: str_ok_block))

subsection \<open>GetTimeResponse\<close>

record IgGetTimeResponse =
  GetTimeResponse_has_result :: bool
  GetTimeResponse_result :: u8
  GetTimeResponse_has_timestamp :: bool
  GetTimeResponse_timestamp :: u32
  GetTimeResponse_has_operation_id :: bool
  GetTimeResponse_operation_id :: u32

definition ig_GetTimeResponse_init :: IgGetTimeResponse where
  "ig_GetTimeResponse_init =
     \<lparr>GetTimeResponse_has_result = False,
      GetTimeResponse_result = 0,
      GetTimeResponse_has_timestamp = False,
      GetTimeResponse_timestamp = 0,
      GetTimeResponse_has_operation_id = False,
      GetTimeResponse_operation_id = 0\<rparr>"

definition ig_GetTimeResponse_set_result :: "u8 \<Rightarrow> IgGetTimeResponse \<Rightarrow>
  IgGetTimeResponse" where
  "ig_GetTimeResponse_set_result v obj = obj\<lparr>GetTimeResponse_result := v,
    GetTimeResponse_has_result := True\<rparr>"

definition ig_GetTimeResponse_set_timestamp :: "u32 \<Rightarrow> IgGetTimeResponse \<Rightarrow>
  IgGetTimeResponse" where
  "ig_GetTimeResponse_set_timestamp v obj = obj\<lparr>GetTimeResponse_timestamp := v,
    GetTimeResponse_has_timestamp := True\<rparr>"

definition ig_GetTimeResponse_set_operation_id :: "u32 \<Rightarrow> IgGetTimeResponse
  \<Rightarrow> IgGetTimeResponse" where
  "ig_GetTimeResponse_set_operation_id v obj = obj\<lparr>GetTimeResponse_operation_id := v,
    GetTimeResponse_has_operation_id := True\<rparr>"

definition ig_GetTimeResponse_deinit :: "IgGetTimeResponse \<Rightarrow> IgGetTimeResponse" where
  "ig_GetTimeResponse_deinit obj = obj"

definition ig_GetTimeResponse_is_valid :: "IgGetTimeResponse \<Rightarrow> bool" where
  "ig_GetTimeResponse_is_valid obj \<longleftrightarrow> GetTimeResponse_has_result obj"

definition ig_GetTimeResponse_get_max_payload_in_bytes :: "IgGetTimeResponse \<Rightarrow> u32" where
  "ig_GetTimeResponse_get_max_payload_in_bytes obj = 28"

definition ig_GetTimeResponse_fields_size :: "IgGetTimeResponse \<Rightarrow> u64" where
  "ig_GetTimeResponse_fields_size obj = 1 + 1 + of_bool (GetTimeResponse_has_timestamp obj) +
    of_bool (GetTimeResponse_has_operation_id obj)"

definition ig_GetTimeResponse_fields :: "IgGetTimeResponse \<Rightarrow> enc_field list" where
  "ig_GetTimeResponse_fields obj =
    [(True, 11, AUint (ucast (GetTimeResponse_result obj))),
     (GetTimeResponse_has_timestamp obj, 12, AUint (ucast (GetTimeResponse_timestamp obj))),
     (GetTimeResponse_has_operation_id obj, 100, AUint (ucast (GetTimeResponse_operation_id obj)))]"

definition ig_GetTimeResponse_encode ::
  "IgGetTimeResponse \<Rightarrow> bytes \<Rightarrow> u32 \<Rightarrow> (nat \<times> bytes
    \<times> nat option) res" where
  "ig_GetTimeResponse_encode obj retval len =
     (if \<not> ig_GetTimeResponse_is_valid obj then Ok (IgSerializerErrorInvalidPayload, retval, None)
      else ig_encode (ig_GetTimeResponse_fields_size obj) 28 (ig_GetTimeResponse_fields obj) retval len)"

definition ig_GetTimeResponse_cases :: "(i64 \<times> IgGetTimeResponse case_body) list" where
  "ig_GetTimeResponse_cases =
    [(0, CMsgId 28),
     (11, CUint (\<lambda>v. ig_GetTimeResponse_set_result (ucast v))),
     (12, CUint (\<lambda>v. ig_GetTimeResponse_set_timestamp (ucast v))),
     (100, CUint (\<lambda>v. ig_GetTimeResponse_set_operation_id (ucast v)))]"

definition ig_GetTimeResponse_decode :: "bytes \<Rightarrow> IgGetTimeResponse \<Rightarrow> nat
  \<Rightarrow> (nat \<times> IgGetTimeResponse) res" where
  "ig_GetTimeResponse_decode buf obj index = ig_decode ig_GetTimeResponse_cases buf obj index"

definition ig_GetTimeResponse_ok :: "IgGetTimeResponse \<Rightarrow> bool" where
  "ig_GetTimeResponse_ok obj \<longleftrightarrow> ig_GetTimeResponse_is_valid obj \<and>
     num_ok (GetTimeResponse_has_result obj) (GetTimeResponse_result obj) \<and>
     num_ok (GetTimeResponse_has_timestamp obj) (GetTimeResponse_timestamp obj) \<and>
     num_ok (GetTimeResponse_has_operation_id obj) (GetTimeResponse_operation_id obj)"

lemmas ig_GetTimeResponse_setters =
  ig_GetTimeResponse_set_operation_id_def
  ig_GetTimeResponse_set_result_def
  ig_GetTimeResponse_set_timestamp_def

text \<open>A guarded setter, member by member.\<close>
lemma ig_GetTimeResponse_set_if:
  "(if g then ig_GetTimeResponse_set_timestamp v0 obj else obj) =
     obj\<lparr>GetTimeResponse_timestamp := pick g v0 (GetTimeResponse_timestamp obj),
       GetTimeResponse_has_timestamp := g \<or> GetTimeResponse_has_timestamp obj\<rparr>"
  "(if g then ig_GetTimeResponse_set_operation_id v1 obj else obj) =
     obj\<lparr>GetTimeResponse_operation_id := pick g v1 (GetTimeResponse_operation_id obj),
       GetTimeResponse_has_operation_id := g \<or> GetTimeResponse_has_operation_id obj\<rparr>"
  by (simp_all add: ig_GetTimeResponse_setters pick_def)

lemma ig_GetTimeResponse_store:
  assumes ok: "ig_GetTimeResponse_ok obj"
  shows "store_fields ig_GetTimeResponse_cases (ig_GetTimeResponse_fields obj)
    ig_GetTimeResponse_init = Some obj"
proof -
  have h: "num_ok (GetTimeResponse_has_result obj) (GetTimeResponse_result obj)"
    "num_ok (GetTimeResponse_has_timestamp obj) (GetTimeResponse_timestamp obj)"
    "num_ok (GetTimeResponse_has_operation_id obj) (GetTimeResponse_operation_id obj)"
    and valid: "ig_GetTimeResponse_is_valid obj"
    using ok by (simp_all add: ig_GetTimeResponse_ok_def)
  show ?thesis
    using valid
    by (simp add: ig_GetTimeResponse_fields_def ig_GetTimeResponse_cases_def
      ig_GetTimeResponse_init_def codec_simps
        ig_GetTimeResponse_set_if ig_GetTimeResponse_setters split del: if_split)
       (simp add: ig_GetTimeResponse_is_valid_def
         num_ok_store [OF h(1)]
         num_ok_store [OF h(2)]
         num_ok_store [OF h(3)])
qed

lemma ig_GetTimeResponse_bound:
  assumes "ig_GetTimeResponse_ok obj"
  shows "2 + length (number_bytes 28 MtUnsigned) + fields_bound (ig_GetTimeResponse_fields obj)
    \<le> unat (ig_GetTimeResponse_get_max_payload_in_bytes obj)"
  using number_bytes_u8 [of "GetTimeResponse_result obj" 0]
    number_bytes_u32 [of "GetTimeResponse_timestamp obj" 0]
    number_bytes_u32 [of "GetTimeResponse_operation_id obj" 0]
  by (simp add: ig_GetTimeResponse_fields_def ig_GetTimeResponse_get_max_payload_in_bytes_def
    number_bytes_literal)

interpretation GetTimeResponse_codec: ig_message ig_GetTimeResponse_encode ig_GetTimeResponse_decode
  ig_GetTimeResponse_get_max_payload_in_bytes ig_GetTimeResponse_is_valid ig_GetTimeResponse_init
    ig_GetTimeResponse_ok 28
  ig_GetTimeResponse_fields_size ig_GetTimeResponse_fields ig_GetTimeResponse_cases
  by (unfold_locales;
      (rule ig_GetTimeResponse_encode_def ig_GetTimeResponse_decode_def | erule
        ig_GetTimeResponse_store ig_GetTimeResponse_bound |
       auto simp: ig_GetTimeResponse_cases_def ig_GetTimeResponse_fields_def
         ig_GetTimeResponse_fields_size_def ig_GetTimeResponse_ok_def
         simp del: arg_block_ok.simps(1,2) intro: str_ok_block))

subsection \<open>SetVolumeRequest\<close>

record IgSetVolumeRequest =
  SetVolumeRequest_has_password :: bool
  SetVolumeRequest_password :: block_ptr
  SetVolumeRequest_password_size :: nat
  SetVolumeRequest_has_volume :: bool
  SetVolumeRequest_volume :: u32
  SetVolumeRequest_has_operation_id :: bool
  SetVolumeRequest_operation_id :: u32

definition ig_SetVolumeRequest_init :: IgSetVolumeRequest where
  "ig_SetVolumeRequest_init =
     \<lparr>SetVolumeRequest_has_password = False,
      SetVolumeRequest_password = None,
      SetVolumeRequest_password_size = 0,
      SetVolumeRequest_has_volume = False,
      SetVolumeRequest_volume = 0,
      SetVolumeRequest_has_operation_id = False,
      SetVolumeRequest_operation_id = 0\<rparr>"

definition ig_SetVolumeRequest_get_password_size :: "IgSetVolumeRequest \<Rightarrow> nat" where
  "ig_SetVolumeRequest_get_password_size obj = SetVolumeRequest_password_size obj"

definition ig_SetVolumeRequest_set_password_nocopy ::
  "bool \<Rightarrow> block_ptr \<Rightarrow> nat \<Rightarrow> IgSetVolumeRequest \<Rightarrow>
    IgSetVolumeRequest" where
  "ig_SetVolumeRequest_set_password_nocopy same_ptr p n obj =
     (if same_ptr then obj
      else let obj = (if SetVolumeRequest_has_password obj then
        obj\<lparr>SetVolumeRequest_password := None\<rparr> else obj)
        in obj\<lparr>SetVolumeRequest_password := p, SetVolumeRequest_password_size := n,
          SetVolumeRequest_has_password := n > 0\<rparr>)"

definition ig_SetVolumeRequest_set_password ::
  "bool \<Rightarrow> block_ptr \<Rightarrow> nat \<Rightarrow> IgSetVolumeRequest \<Rightarrow>
    IgSetVolumeRequest res" where
  "ig_SetVolumeRequest_set_password same_ptr p n obj =
     (if same_ptr then Ok obj
      else let obj = (if SetVolumeRequest_has_password obj then
        obj\<lparr>SetVolumeRequest_password := None\<rparr> else obj)
        in bindR (block_read p n) (\<lambda>d.
          Ok (obj\<lparr>SetVolumeRequest_password := Some d, SetVolumeRequest_password_size := n,
            SetVolumeRequest_has_password := n > 0\<rparr>)))"

definition ig_SetVolumeRequest_set_volume :: "u32 \<Rightarrow> IgSetVolumeRequest \<Rightarrow>
  IgSetVolumeRequest" where
  "ig_SetVolumeRequest_set_volume v obj = obj\<lparr>SetVolumeRequest_volume := v,
    SetVolumeRequest_has_volume := True\<rparr>"

definition ig_SetVolumeRequest_set_operation_id :: "u32 \<Rightarrow> IgSetVolumeRequest
  \<Rightarrow> IgSetVolumeRequest" where
  "ig_SetVolumeRequest_set_operation_id v obj = obj\<lparr>SetVolumeRequest_operation_id := v,
    SetVolumeRequest_has_operation_id := True\<rparr>"

definition ig_SetVolumeRequest_deinit :: "IgSetVolumeRequest \<Rightarrow> IgSetVolumeRequest" where
  "ig_SetVolumeRequest_deinit obj = (let
     obj = (if SetVolumeRequest_has_password obj then obj\<lparr>SetVolumeRequest_password :=
       None\<rparr> else obj)
   in obj)"

definition ig_SetVolumeRequest_is_valid :: "IgSetVolumeRequest \<Rightarrow> bool" where
  "ig_SetVolumeRequest_is_valid obj \<longleftrightarrow> SetVolumeRequest_has_password obj \<and>
    SetVolumeRequest_has_volume obj"

definition ig_SetVolumeRequest_get_max_payload_in_bytes :: "IgSetVolumeRequest \<Rightarrow> u32" where
  "ig_SetVolumeRequest_get_max_payload_in_bytes obj = word_of_nat (32 + SetVolumeRequest_password_size obj)"

definition ig_SetVolumeRequest_fields_size :: "IgSetVolumeRequest \<Rightarrow> u64" where
  "ig_SetVolumeRequest_fields_size obj = 1 + 2 + of_bool (SetVolumeRequest_has_operation_id obj)"

definition ig_SetVolumeRequest_fields :: "IgSetVolumeRequest \<Rightarrow> enc_field list" where
  "ig_SetVolumeRequest_fields obj =
    [(True, 11, ABytes (SetVolumeRequest_password obj) (SetVolumeRequest_password_size obj)),
     (True, 12, AUint (ucast (SetVolumeRequest_volume obj))),
     (SetVolumeRequest_has_operation_id obj, 100, AUint (ucast (SetVolumeRequest_operation_id obj)))]"

definition ig_SetVolumeRequest_encode ::
  "IgSetVolumeRequest \<Rightarrow> bytes \<Rightarrow> u32 \<Rightarrow> (nat \<times> bytes
    \<times> nat option) res" where
  "ig_SetVolumeRequest_encode obj retval len =
     (if \<not> ig_SetVolumeRequest_is_valid obj then Ok (IgSerializerErrorInvalidPayload, retval, None)
      else ig_encode (ig_SetVolumeRequest_fields_size obj) 33 (ig_SetVolumeRequest_fields obj) retval len)"

definition ig_SetVolumeRequest_cases :: "(i64 \<times> IgSetVolumeRequest case_body) list" where
  "ig_SetVolumeRequest_cases =
    [(0, CMsgId 33),
     (11, CBytes (ig_SetVolumeRequest_set_password_nocopy False)),
     (12, CUint (\<lambda>v. ig_SetVolumeRequest_set_volume (ucast v))),
     (100, CUint (\<lambda>v. ig_SetVolumeRequest_set_operation_id (ucast v)))]"

definition ig_SetVolumeRequest_decode :: "bytes \<Rightarrow> IgSetVolumeRequest \<Rightarrow> nat
  \<Rightarrow> (nat \<times> IgSetVolumeRequest) res" where
  "ig_SetVolumeRequest_decode buf obj index = ig_decode ig_SetVolumeRequest_cases buf obj index"

definition ig_SetVolumeRequest_ok :: "IgSetVolumeRequest \<Rightarrow> bool" where
  "ig_SetVolumeRequest_ok obj \<longleftrightarrow> ig_SetVolumeRequest_is_valid obj \<and>
     str_ok (SetVolumeRequest_has_password obj) (SetVolumeRequest_password obj)
       (SetVolumeRequest_password_size obj) \<and>
     num_ok (SetVolumeRequest_has_volume obj) (SetVolumeRequest_volume obj) \<and>
     num_ok (SetVolumeRequest_has_operation_id obj) (SetVolumeRequest_operation_id obj)"

lemmas ig_SetVolumeRequest_setters =
  ig_SetVolumeRequest_set_operation_id_def
  ig_SetVolumeRequest_set_password_nocopy_def
  ig_SetVolumeRequest_set_volume_def

text \<open>A guarded setter, member by member.\<close>
lemma ig_SetVolumeRequest_set_if:
  "(if g then ig_SetVolumeRequest_set_operation_id v0 obj else obj) =
     obj\<lparr>SetVolumeRequest_operation_id := pick g v0 (SetVolumeRequest_operation_id obj),
       SetVolumeRequest_has_operation_id := g \<or> SetVolumeRequest_has_operation_id obj\<rparr>"
  by (simp_all add: ig_SetVolumeRequest_setters pick_def)

lemma ig_SetVolumeRequest_store:
  assumes ok: "ig_SetVolumeRequest_ok obj"
  shows "store_fields ig_SetVolumeRequest_cases (ig_SetVolumeRequest_fields obj)
    ig_SetVolumeRequest_init = Some obj"
proof -
  have h: "str_ok (SetVolumeRequest_has_password obj) (SetVolumeRequest_password obj)
    (SetVolumeRequest_password_size obj)"
    "num_ok (SetVolumeRequest_has_volume obj) (SetVolumeRequest_volume obj)"
    "num_ok (SetVolumeRequest_has_operation_id obj) (SetVolumeRequest_operation_id obj)"
    and valid: "ig_SetVolumeRequest_is_valid obj"
    using ok by (simp_all add: ig_SetVolumeRequest_ok_def)
  show ?thesis
    using valid
    by (simp add: ig_SetVolumeRequest_fields_def ig_SetVolumeRequest_cases_def
      ig_SetVolumeRequest_init_def codec_simps
        ig_SetVolumeRequest_set_if ig_SetVolumeRequest_setters split del: if_split)
       (simp add: ig_SetVolumeRequest_is_valid_def
         str_ok_store [OF h(1)]
         num_ok_store [OF h(2)]
         num_ok_store [OF h(3)])
qed

lemma ig_SetVolumeRequest_bound:
  assumes "ig_SetVolumeRequest_ok obj"
  shows "2 + length (number_bytes 33 MtUnsigned) + fields_bound (ig_SetVolumeRequest_fields obj)
    \<le> unat (ig_SetVolumeRequest_get_max_payload_in_bytes obj)"
proof -
  have sizes: "SetVolumeRequest_password_size obj < 2 ^ 24"
    using assms by (auto simp: ig_SetVolumeRequest_ok_def dest!: str_ok_bound)
  show ?thesis
    using sizes number_bytes_size [of "SetVolumeRequest_password_size obj" "0x40"]
      number_bytes_u32 [of "SetVolumeRequest_volume obj" 0]
      number_bytes_u32 [of "SetVolumeRequest_operation_id obj" 0]
    by (simp add: ig_SetVolumeRequest_fields_def ig_SetVolumeRequest_get_max_payload_in_bytes_def
      number_bytes_literal
        unat_of_nat_small del: of_nat_add)
qed

interpretation SetVolumeRequest_codec: ig_message ig_SetVolumeRequest_encode ig_SetVolumeRequest_decode
  ig_SetVolumeRequest_get_max_payload_in_bytes ig_SetVolumeRequest_is_valid
    ig_SetVolumeRequest_init ig_SetVolumeRequest_ok 33
  ig_SetVolumeRequest_fields_size ig_SetVolumeRequest_fields ig_SetVolumeRequest_cases
  by (unfold_locales;
      (rule ig_SetVolumeRequest_encode_def ig_SetVolumeRequest_decode_def | erule
        ig_SetVolumeRequest_store ig_SetVolumeRequest_bound |
       auto simp: ig_SetVolumeRequest_cases_def ig_SetVolumeRequest_fields_def
         ig_SetVolumeRequest_fields_size_def ig_SetVolumeRequest_ok_def
         simp del: arg_block_ok.simps(1,2) intro: str_ok_block))

subsection \<open>SetVolumeResponse\<close>

record IgSetVolumeResponse =
  SetVolumeResponse_has_result :: bool
  SetVolumeResponse_result :: u8
  SetVolumeResponse_has_old_volume :: bool
  SetVolumeResponse_old_volume :: u32
  SetVolumeResponse_has_new_volume :: bool
  SetVolumeResponse_new_volume :: u32
  SetVolumeResponse_has_operation_id :: bool
  SetVolumeResponse_operation_id :: u32

definition ig_SetVolumeResponse_init :: IgSetVolumeResponse where
  "ig_SetVolumeResponse_init =
     \<lparr>SetVolumeResponse_has_result = False,
      SetVolumeResponse_result = 0,
      SetVolumeResponse_has_old_volume = False,
      SetVolumeResponse_old_volume = 0,
      SetVolumeResponse_has_new_volume = False,
      SetVolumeResponse_new_volume = 0,
      SetVolumeResponse_has_operation_id = False,
      SetVolumeResponse_operation_id = 0\<rparr>"

definition ig_SetVolumeResponse_set_result :: "u8 \<Rightarrow> IgSetVolumeResponse \<Rightarrow>
  IgSetVolumeResponse" where
  "ig_SetVolumeResponse_set_result v obj = obj\<lparr>SetVolumeResponse_result := v,
    SetVolumeResponse_has_result := True\<rparr>"

definition ig_SetVolumeResponse_set_old_volume :: "u32 \<Rightarrow> IgSetVolumeResponse
  \<Rightarrow> IgSetVolumeResponse" where
  "ig_SetVolumeResponse_set_old_volume v obj = obj\<lparr>SetVolumeResponse_old_volume := v,
    SetVolumeResponse_has_old_volume := True\<rparr>"

definition ig_SetVolumeResponse_set_new_volume :: "u32 \<Rightarrow> IgSetVolumeResponse
  \<Rightarrow> IgSetVolumeResponse" where
  "ig_SetVolumeResponse_set_new_volume v obj = obj\<lparr>SetVolumeResponse_new_volume := v,
    SetVolumeResponse_has_new_volume := True\<rparr>"

definition ig_SetVolumeResponse_set_operation_id :: "u32 \<Rightarrow> IgSetVolumeResponse
  \<Rightarrow> IgSetVolumeResponse" where
  "ig_SetVolumeResponse_set_operation_id v obj = obj\<lparr>SetVolumeResponse_operation_id := v,
    SetVolumeResponse_has_operation_id := True\<rparr>"

definition ig_SetVolumeResponse_deinit :: "IgSetVolumeResponse \<Rightarrow> IgSetVolumeResponse" where
  "ig_SetVolumeResponse_deinit obj = obj"

definition ig_SetVolumeResponse_is_valid :: "IgSetVolumeResponse \<Rightarrow> bool" where
  "ig_SetVolumeResponse_is_valid obj \<longleftrightarrow> SetVolumeResponse_has_result obj"

definition ig_SetVolumeResponse_get_max_payload_in_bytes :: "IgSetVolumeResponse \<Rightarrow> u32" where
  "ig_SetVolumeResponse_get_max_payload_in_bytes obj = 34"

definition ig_SetVolumeResponse_fields_size :: "IgSetVolumeResponse \<Rightarrow> u64" where
  "ig_SetVolumeResponse_fields_size obj = 1 + 1 + of_bool (SetVolumeResponse_has_old_volume obj) +
    of_bool (SetVolumeResponse_has_new_volume obj) + of_bool (SetVolumeResponse_has_operation_id obj)"

definition ig_SetVolumeResponse_fields :: "IgSetVolumeResponse \<Rightarrow> enc_field list" where
  "ig_SetVolumeResponse_fields obj =
    [(True, 11, AUint (ucast (SetVolumeResponse_result obj))),
     (SetVolumeResponse_has_old_volume obj, 12, AUint (ucast (SetVolumeResponse_old_volume obj))),
     (SetVolumeResponse_has_new_volume obj, 13, AUint (ucast (SetVolumeResponse_new_volume obj))),
     (SetVolumeResponse_has_operation_id obj, 100, AUint (ucast (SetVolumeResponse_operation_id obj)))]"

definition ig_SetVolumeResponse_encode ::
  "IgSetVolumeResponse \<Rightarrow> bytes \<Rightarrow> u32 \<Rightarrow> (nat \<times> bytes
    \<times> nat option) res" where
  "ig_SetVolumeResponse_encode obj retval len =
     (if \<not> ig_SetVolumeResponse_is_valid obj then Ok (IgSerializerErrorInvalidPayload, retval, None)
      else ig_encode (ig_SetVolumeResponse_fields_size obj) 34 (ig_SetVolumeResponse_fields obj) retval len)"

definition ig_SetVolumeResponse_cases :: "(i64 \<times> IgSetVolumeResponse case_body) list" where
  "ig_SetVolumeResponse_cases =
    [(0, CMsgId 34),
     (11, CUint (\<lambda>v. ig_SetVolumeResponse_set_result (ucast v))),
     (12, CUint (\<lambda>v. ig_SetVolumeResponse_set_old_volume (ucast v))),
     (13, CUint (\<lambda>v. ig_SetVolumeResponse_set_new_volume (ucast v))),
     (100, CUint (\<lambda>v. ig_SetVolumeResponse_set_operation_id (ucast v)))]"

definition ig_SetVolumeResponse_decode :: "bytes \<Rightarrow> IgSetVolumeResponse \<Rightarrow>
  nat \<Rightarrow> (nat \<times> IgSetVolumeResponse) res" where
  "ig_SetVolumeResponse_decode buf obj index = ig_decode ig_SetVolumeResponse_cases buf obj index"

definition ig_SetVolumeResponse_ok :: "IgSetVolumeResponse \<Rightarrow> bool" where
  "ig_SetVolumeResponse_ok obj \<longleftrightarrow> ig_SetVolumeResponse_is_valid obj \<and>
     num_ok (SetVolumeResponse_has_result obj) (SetVolumeResponse_result obj) \<and>
     num_ok (SetVolumeResponse_has_old_volume obj) (SetVolumeResponse_old_volume obj) \<and>
     num_ok (SetVolumeResponse_has_new_volume obj) (SetVolumeResponse_new_volume obj) \<and>
     num_ok (SetVolumeResponse_has_operation_id obj) (SetVolumeResponse_operation_id obj)"

lemmas ig_SetVolumeResponse_setters =
  ig_SetVolumeResponse_set_new_volume_def
  ig_SetVolumeResponse_set_old_volume_def
  ig_SetVolumeResponse_set_operation_id_def
  ig_SetVolumeResponse_set_result_def

text \<open>A guarded setter, member by member.\<close>
lemma ig_SetVolumeResponse_set_if:
  "(if g then ig_SetVolumeResponse_set_old_volume v0 obj else obj) =
     obj\<lparr>SetVolumeResponse_old_volume := pick g v0 (SetVolumeResponse_old_volume obj),
       SetVolumeResponse_has_old_volume := g \<or> SetVolumeResponse_has_old_volume obj\<rparr>"
  "(if g then ig_SetVolumeResponse_set_new_volume v1 obj else obj) =
     obj\<lparr>SetVolumeResponse_new_volume := pick g v1 (SetVolumeResponse_new_volume obj),
       SetVolumeResponse_has_new_volume := g \<or> SetVolumeResponse_has_new_volume obj\<rparr>"
  "(if g then ig_SetVolumeResponse_set_operation_id v2 obj else obj) =
     obj\<lparr>SetVolumeResponse_operation_id := pick g v2 (SetVolumeResponse_operation_id obj),
       SetVolumeResponse_has_operation_id := g \<or> SetVolumeResponse_has_operation_id obj\<rparr>"
  by (simp_all add: ig_SetVolumeResponse_setters pick_def)

lemma ig_SetVolumeResponse_store:
  assumes ok: "ig_SetVolumeResponse_ok obj"
  shows "store_fields ig_SetVolumeResponse_cases (ig_SetVolumeResponse_fields obj)
    ig_SetVolumeResponse_init = Some obj"
proof -
  have h: "num_ok (SetVolumeResponse_has_result obj) (SetVolumeResponse_result obj)"
    "num_ok (SetVolumeResponse_has_old_volume obj) (SetVolumeResponse_old_volume obj)"
    "num_ok (SetVolumeResponse_has_new_volume obj) (SetVolumeResponse_new_volume obj)"
    "num_ok (SetVolumeResponse_has_operation_id obj) (SetVolumeResponse_operation_id obj)"
    and valid: "ig_SetVolumeResponse_is_valid obj"
    using ok by (simp_all add: ig_SetVolumeResponse_ok_def)
  show ?thesis
    using valid
    by (simp add: ig_SetVolumeResponse_fields_def ig_SetVolumeResponse_cases_def
      ig_SetVolumeResponse_init_def codec_simps
        ig_SetVolumeResponse_set_if ig_SetVolumeResponse_setters split del: if_split)
       (simp add: ig_SetVolumeResponse_is_valid_def
         num_ok_store [OF h(1)]
         num_ok_store [OF h(2)]
         num_ok_store [OF h(3)]
         num_ok_store [OF h(4)])
qed

lemma ig_SetVolumeResponse_bound:
  assumes "ig_SetVolumeResponse_ok obj"
  shows "2 + length (number_bytes 34 MtUnsigned) + fields_bound (ig_SetVolumeResponse_fields obj)
    \<le> unat (ig_SetVolumeResponse_get_max_payload_in_bytes obj)"
  using number_bytes_u8 [of "SetVolumeResponse_result obj" 0]
    number_bytes_u32 [of "SetVolumeResponse_old_volume obj" 0]
    number_bytes_u32 [of "SetVolumeResponse_new_volume obj" 0]
    number_bytes_u32 [of "SetVolumeResponse_operation_id obj" 0]
  by (simp add: ig_SetVolumeResponse_fields_def ig_SetVolumeResponse_get_max_payload_in_bytes_def
    number_bytes_literal)

interpretation SetVolumeResponse_codec: ig_message ig_SetVolumeResponse_encode ig_SetVolumeResponse_decode
  ig_SetVolumeResponse_get_max_payload_in_bytes ig_SetVolumeResponse_is_valid
    ig_SetVolumeResponse_init ig_SetVolumeResponse_ok 34
  ig_SetVolumeResponse_fields_size ig_SetVolumeResponse_fields ig_SetVolumeResponse_cases
  by (unfold_locales;
      (rule ig_SetVolumeResponse_encode_def ig_SetVolumeResponse_decode_def | erule
        ig_SetVolumeResponse_store ig_SetVolumeResponse_bound |
       auto simp: ig_SetVolumeResponse_cases_def ig_SetVolumeResponse_fields_def
         ig_SetVolumeResponse_fields_size_def ig_SetVolumeResponse_ok_def
         simp del: arg_block_ok.simps(1,2) intro: str_ok_block))

subsection \<open>SetBrightnessRequest\<close>

record IgSetBrightnessRequest =
  SetBrightnessRequest_has_password :: bool
  SetBrightnessRequest_password :: block_ptr
  SetBrightnessRequest_password_size :: nat
  SetBrightnessRequest_has_brightness :: bool
  SetBrightnessRequest_brightness :: u8
  SetBrightnessRequest_has_operation_id :: bool
  SetBrightnessRequest_operation_id :: u32

definition ig_SetBrightnessRequest_init :: IgSetBrightnessRequest where
  "ig_SetBrightnessRequest_init =
     \<lparr>SetBrightnessRequest_has_password = False,
      SetBrightnessRequest_password = None,
      SetBrightnessRequest_password_size = 0,
      SetBrightnessRequest_has_brightness = False,
      SetBrightnessRequest_brightness = 0,
      SetBrightnessRequest_has_operation_id = False,
      SetBrightnessRequest_operation_id = 0\<rparr>"

definition ig_SetBrightnessRequest_get_password_size :: "IgSetBrightnessRequest \<Rightarrow> nat" where
  "ig_SetBrightnessRequest_get_password_size obj = SetBrightnessRequest_password_size obj"

definition ig_SetBrightnessRequest_set_password_nocopy ::
  "bool \<Rightarrow> block_ptr \<Rightarrow> nat \<Rightarrow> IgSetBrightnessRequest
    \<Rightarrow> IgSetBrightnessRequest" where
  "ig_SetBrightnessRequest_set_password_nocopy same_ptr p n obj =
     (if same_ptr then obj
      else let obj = (if SetBrightnessRequest_has_password obj then
        obj\<lparr>SetBrightnessRequest_password := None\<rparr> else obj)
        in obj\<lparr>SetBrightnessRequest_password := p, SetBrightnessRequest_password_size := n,
          SetBrightnessRequest_has_password := n > 0\<rparr>)"

definition ig_SetBrightnessRequest_set_password ::
  "bool \<Rightarrow> block_ptr \<Rightarrow> nat \<Rightarrow> IgSetBrightnessRequest
    \<Rightarrow> IgSetBrightnessRequest res" where
  "ig_SetBrightnessRequest_set_password same_ptr p n obj =
     (if same_ptr then Ok obj
      else let obj = (if SetBrightnessRequest_has_password obj then
        obj\<lparr>SetBrightnessRequest_password := None\<rparr> else obj)
        in bindR (block_read p n) (\<lambda>d.
          Ok (obj\<lparr>SetBrightnessRequest_password := Some d,
            SetBrightnessRequest_password_size := n, SetBrightnessRequest_has_password := n > 0\<rparr>)))"

definition ig_SetBrightnessRequest_set_brightness :: "u8 \<Rightarrow> IgSetBrightnessRequest
  \<Rightarrow> IgSetBrightnessRequest" where
  "ig_SetBrightnessRequest_set_brightness v obj = obj\<lparr>SetBrightnessRequest_brightness := v,
    SetBrightnessRequest_has_brightness := True\<rparr>"

definition ig_SetBrightnessRequest_set_operation_id :: "u32 \<Rightarrow> IgSetBrightnessRequest
  \<Rightarrow> IgSetBrightnessRequest" where
  "ig_SetBrightnessRequest_set_operation_id v obj = obj\<lparr>SetBrightnessRequest_operation_id :=
    v, SetBrightnessRequest_has_operation_id := True\<rparr>"

definition ig_SetBrightnessRequest_deinit :: "IgSetBrightnessRequest \<Rightarrow>
  IgSetBrightnessRequest" where
  "ig_SetBrightnessRequest_deinit obj = (let
     obj = (if SetBrightnessRequest_has_password obj then obj\<lparr>SetBrightnessRequest_password
       := None\<rparr> else obj)
   in obj)"

definition ig_SetBrightnessRequest_is_valid :: "IgSetBrightnessRequest \<Rightarrow> bool" where
  "ig_SetBrightnessRequest_is_valid obj \<longleftrightarrow> SetBrightnessRequest_has_password obj"

definition ig_SetBrightnessRequest_get_max_payload_in_bytes :: "IgSetBrightnessRequest
  \<Rightarrow> u32" where
  "ig_SetBrightnessRequest_get_max_payload_in_bytes obj = word_of_nat (29 +
    SetBrightnessRequest_password_size obj)"

definition ig_SetBrightnessRequest_fields_size :: "IgSetBrightnessRequest \<Rightarrow> u64" where
  "ig_SetBrightnessRequest_fields_size obj = 1 + 1 + of_bool (SetBrightnessRequest_has_brightness
    obj) + of_bool (SetBrightnessRequest_has_operation_id obj)"

definition ig_SetBrightnessRequest_fields :: "IgSetBrightnessRequest \<Rightarrow> enc_field list" where
  "ig_SetBrightnessRequest_fields obj =
    [(True, 11, ABytes (SetBrightnessRequest_password obj) (SetBrightnessRequest_password_size obj)),
     (SetBrightnessRequest_has_brightness obj, 12, AUint (ucast (SetBrightnessRequest_brightness obj))),
     (SetBrightnessRequest_has_operation_id obj, 100, AUint (ucast (SetBrightnessRequest_operation_id obj)))]"

definition ig_SetBrightnessRequest_encode ::
  "IgSetBrightnessRequest \<Rightarrow> bytes \<Rightarrow> u32 \<Rightarrow> (nat \<times> bytes
    \<times> nat option) res" where
  "ig_SetBrightnessRequest_encode obj retval len =
     (if \<not> ig_SetBrightnessRequest_is_valid obj then Ok (IgSerializerErrorInvalidPayload, retval, None)
      else ig_encode (ig_SetBrightnessRequest_fields_size obj) 71 (ig_SetBrightnessRequest_fields
        obj) retval len)"

definition ig_SetBrightnessRequest_cases :: "(i64 \<times> IgSetBrightnessRequest case_body) list" where
  "ig_SetBrightnessRequest_cases =
    [(0, CMsgId 71),
     (11, CBytes (ig_SetBrightnessRequest_set_password_nocopy False)),
     (12, CUint (\<lambda>v. ig_SetBrightnessRequest_set_brightness (ucast v))),
     (100, CUint (\<lambda>v. ig_SetBrightnessRequest_set_operation_id (ucast v)))]"

definition ig_SetBrightnessRequest_decode :: "bytes \<Rightarrow> IgSetBrightnessRequest
  \<Rightarrow> nat \<Rightarrow> (nat \<times> IgSetBrightnessRequest) res" where
  "ig_SetBrightnessRequest_decode buf obj index = ig_decode ig_SetBrightnessRequest_cases buf obj index"

definition ig_SetBrightnessRequest_ok :: "IgSetBrightnessRequest \<Rightarrow> bool" where
  "ig_SetBrightnessRequest_ok obj \<longleftrightarrow> ig_SetBrightnessRequest_is_valid obj \<and>
     str_ok (SetBrightnessRequest_has_password obj) (SetBrightnessRequest_password obj)
       (SetBrightnessRequest_password_size obj) \<and>
     num_ok (SetBrightnessRequest_has_brightness obj) (SetBrightnessRequest_brightness obj) \<and>
     num_ok (SetBrightnessRequest_has_operation_id obj) (SetBrightnessRequest_operation_id obj)"

lemmas ig_SetBrightnessRequest_setters =
  ig_SetBrightnessRequest_set_brightness_def
  ig_SetBrightnessRequest_set_operation_id_def
  ig_SetBrightnessRequest_set_password_nocopy_def

text \<open>A guarded setter, member by member.\<close>
lemma ig_SetBrightnessRequest_set_if:
  "(if g then ig_SetBrightnessRequest_set_brightness v0 obj else obj) =
     obj\<lparr>SetBrightnessRequest_brightness := pick g v0 (SetBrightnessRequest_brightness obj),
       SetBrightnessRequest_has_brightness := g \<or> SetBrightnessRequest_has_brightness obj\<rparr>"
  "(if g then ig_SetBrightnessRequest_set_operation_id v1 obj else obj) =
     obj\<lparr>SetBrightnessRequest_operation_id := pick g v1 (SetBrightnessRequest_operation_id obj),
       SetBrightnessRequest_has_operation_id := g \<or> SetBrightnessRequest_has_operation_id obj\<rparr>"
  by (simp_all add: ig_SetBrightnessRequest_setters pick_def)

lemma ig_SetBrightnessRequest_store:
  assumes ok: "ig_SetBrightnessRequest_ok obj"
  shows "store_fields ig_SetBrightnessRequest_cases (ig_SetBrightnessRequest_fields obj)
    ig_SetBrightnessRequest_init = Some obj"
proof -
  have h: "str_ok (SetBrightnessRequest_has_password obj) (SetBrightnessRequest_password obj)
    (SetBrightnessRequest_password_size obj)"
    "num_ok (SetBrightnessRequest_has_brightness obj) (SetBrightnessRequest_brightness obj)"
    "num_ok (SetBrightnessRequest_has_operation_id obj) (SetBrightnessRequest_operation_id obj)"
    and valid: "ig_SetBrightnessRequest_is_valid obj"
    using ok by (simp_all add: ig_SetBrightnessRequest_ok_def)
  show ?thesis
    using valid
    by (simp add: ig_SetBrightnessRequest_fields_def ig_SetBrightnessRequest_cases_def
      ig_SetBrightnessRequest_init_def codec_simps
        ig_SetBrightnessRequest_set_if ig_SetBrightnessRequest_setters split del: if_split)
       (simp add: ig_SetBrightnessRequest_is_valid_def
         str_ok_store [OF h(1)]
         num_ok_store [OF h(2)]
         num_ok_store [OF h(3)])
qed

lemma ig_SetBrightnessRequest_bound:
  assumes "ig_SetBrightnessRequest_ok obj"
  shows "2 + length (number_bytes 71 MtUnsigned) + fields_bound (ig_SetBrightnessRequest_fields obj)
    \<le> unat (ig_SetBrightnessRequest_get_max_payload_in_bytes obj)"
proof -
  have sizes: "SetBrightnessRequest_password_size obj < 2 ^ 24"
    using assms by (auto simp: ig_SetBrightnessRequest_ok_def dest!: str_ok_bound)
  show ?thesis
    using sizes number_bytes_size [of "SetBrightnessRequest_password_size obj" "0x40"]
      number_bytes_u8 [of "SetBrightnessRequest_brightness obj" 0]
      number_bytes_u32 [of "SetBrightnessRequest_operation_id obj" 0]
    by (simp add: ig_SetBrightnessRequest_fields_def
      ig_SetBrightnessRequest_get_max_payload_in_bytes_def number_bytes_literal
        unat_of_nat_small del: of_nat_add)
qed

interpretation SetBrightnessRequest_codec: ig_message ig_SetBrightnessRequest_encode
  ig_SetBrightnessRequest_decode
  ig_SetBrightnessRequest_get_max_payload_in_bytes ig_SetBrightnessRequest_is_valid
    ig_SetBrightnessRequest_init ig_SetBrightnessRequest_ok 71
  ig_SetBrightnessRequest_fields_size ig_SetBrightnessRequest_fields ig_SetBrightnessRequest_cases
  by (unfold_locales;
      (rule ig_SetBrightnessRequest_encode_def ig_SetBrightnessRequest_decode_def | erule
        ig_SetBrightnessRequest_store ig_SetBrightnessRequest_bound |
       auto simp: ig_SetBrightnessRequest_cases_def ig_SetBrightnessRequest_fields_def
         ig_SetBrightnessRequest_fields_size_def ig_SetBrightnessRequest_ok_def
         simp del: arg_block_ok.simps(1,2) intro: str_ok_block))

subsection \<open>SetBrightnessResponse\<close>

record IgSetBrightnessResponse =
  SetBrightnessResponse_has_result :: bool
  SetBrightnessResponse_result :: u8
  SetBrightnessResponse_has_operation_id :: bool
  SetBrightnessResponse_operation_id :: u32

definition ig_SetBrightnessResponse_init :: IgSetBrightnessResponse where
  "ig_SetBrightnessResponse_init =
     \<lparr>SetBrightnessResponse_has_result = False,
      SetBrightnessResponse_result = 0,
      SetBrightnessResponse_has_operation_id = False,
      SetBrightnessResponse_operation_id = 0\<rparr>"

definition ig_SetBrightnessResponse_set_result :: "u8 \<Rightarrow> IgSetBrightnessResponse
  \<Rightarrow> IgSetBrightnessResponse" where
  "ig_SetBrightnessResponse_set_result v obj = obj\<lparr>SetBrightnessResponse_result := v,
    SetBrightnessResponse_has_result := True\<rparr>"

definition ig_SetBrightnessResponse_set_operation_id :: "u32 \<Rightarrow> IgSetBrightnessResponse
  \<Rightarrow> IgSetBrightnessResponse" where
  "ig_SetBrightnessResponse_set_operation_id v obj = obj\<lparr>SetBrightnessResponse_operation_id
    := v, SetBrightnessResponse_has_operation_id := True\<rparr>"

definition ig_SetBrightnessResponse_deinit :: "IgSetBrightnessResponse \<Rightarrow>
  IgSetBrightnessResponse" where
  "ig_SetBrightnessResponse_deinit obj = obj"

definition ig_SetBrightnessResponse_is_valid :: "IgSetBrightnessResponse \<Rightarrow> bool" where
  "ig_SetBrightnessResponse_is_valid obj \<longleftrightarrow> SetBrightnessResponse_has_result obj"

definition ig_SetBrightnessResponse_get_max_payload_in_bytes :: "IgSetBrightnessResponse
  \<Rightarrow> u32" where
  "ig_SetBrightnessResponse_get_max_payload_in_bytes obj = 22"

definition ig_SetBrightnessResponse_fields_size :: "IgSetBrightnessResponse \<Rightarrow> u64" where
  "ig_SetBrightnessResponse_fields_size obj = 1 + 1 + of_bool (SetBrightnessResponse_has_operation_id obj)"

definition ig_SetBrightnessResponse_fields :: "IgSetBrightnessResponse \<Rightarrow> enc_field list" where
  "ig_SetBrightnessResponse_fields obj =
    [(True, 11, AUint (ucast (SetBrightnessResponse_result obj))),
     (SetBrightnessResponse_has_operation_id obj, 100, AUint (ucast
       (SetBrightnessResponse_operation_id obj)))]"

definition ig_SetBrightnessResponse_encode ::
  "IgSetBrightnessResponse \<Rightarrow> bytes \<Rightarrow> u32 \<Rightarrow> (nat \<times> bytes
    \<times> nat option) res" where
  "ig_SetBrightnessResponse_encode obj retval len =
     (if \<not> ig_SetBrightnessResponse_is_valid obj then Ok (IgSerializerErrorInvalidPayload, retval, None)
      else ig_encode (ig_SetBrightnessResponse_fields_size obj) 72 (ig_SetBrightnessResponse_fields
        obj) retval len)"

definition ig_SetBrightnessResponse_cases :: "(i64 \<times> IgSetBrightnessResponse case_body) list" where
  "ig_SetBrightnessResponse_cases =
    [(0, CMsgId 72),
     (11, CUint (\<lambda>v. ig_SetBrightnessResponse_set_result (ucast v))),
     (100, CUint (\<lambda>v. ig_SetBrightnessResponse_set_operation_id (ucast v)))]"

definition ig_SetBrightnessResponse_decode :: "bytes \<Rightarrow> IgSetBrightnessResponse
  \<Rightarrow> nat \<Rightarrow> (nat \<times> IgSetBrightnessResponse) res" where
  "ig_SetBrightnessResponse_decode buf obj index = ig_decode ig_SetBrightnessResponse_cases buf obj index"

definition ig_SetBrightnessResponse_ok :: "IgSetBrightnessResponse \<Rightarrow> bool" where
  "ig_SetBrightnessResponse_ok obj \<longleftrightarrow> ig_SetBrightnessResponse_is_valid obj \<and>
     num_ok (SetBrightnessResponse_has_result obj) (SetBrightnessResponse_result obj) \<and>
     num_ok (SetBrightnessResponse_has_operation_id obj) (SetBrightnessResponse_operation_id obj)"

lemmas ig_SetBrightnessResponse_setters =
  ig_SetBrightnessResponse_set_operation_id_def
  ig_SetBrightnessResponse_set_result_def

text \<open>A guarded setter, member by member.\<close>
lemma ig_SetBrightnessResponse_set_if:
  "(if g then ig_SetBrightnessResponse_set_operation_id v0 obj else obj) =
     obj\<lparr>SetBrightnessResponse_operation_id := pick g v0 (SetBrightnessResponse_operation_id obj),
       SetBrightnessResponse_has_operation_id := g \<or> SetBrightnessResponse_has_operation_id obj\<rparr>"
  by (simp_all add: ig_SetBrightnessResponse_setters pick_def)

lemma ig_SetBrightnessResponse_store:
  assumes ok: "ig_SetBrightnessResponse_ok obj"
  shows "store_fields ig_SetBrightnessResponse_cases (ig_SetBrightnessResponse_fields obj)
    ig_SetBrightnessResponse_init = Some obj"
proof -
  have h: "num_ok (SetBrightnessResponse_has_result obj) (SetBrightnessResponse_result obj)"
    "num_ok (SetBrightnessResponse_has_operation_id obj) (SetBrightnessResponse_operation_id obj)"
    and valid: "ig_SetBrightnessResponse_is_valid obj"
    using ok by (simp_all add: ig_SetBrightnessResponse_ok_def)
  show ?thesis
    using valid
    by (simp add: ig_SetBrightnessResponse_fields_def ig_SetBrightnessResponse_cases_def
      ig_SetBrightnessResponse_init_def codec_simps
        ig_SetBrightnessResponse_set_if ig_SetBrightnessResponse_setters split del: if_split)
       (simp add: ig_SetBrightnessResponse_is_valid_def
         num_ok_store [OF h(1)]
         num_ok_store [OF h(2)])
qed

lemma ig_SetBrightnessResponse_bound:
  assumes "ig_SetBrightnessResponse_ok obj"
  shows "2 + length (number_bytes 72 MtUnsigned) + fields_bound (ig_SetBrightnessResponse_fields obj)
    \<le> unat (ig_SetBrightnessResponse_get_max_payload_in_bytes obj)"
  using number_bytes_u8 [of "SetBrightnessResponse_result obj" 0]
    number_bytes_u32 [of "SetBrightnessResponse_operation_id obj" 0]
  by (simp add: ig_SetBrightnessResponse_fields_def
    ig_SetBrightnessResponse_get_max_payload_in_bytes_def number_bytes_literal)

interpretation SetBrightnessResponse_codec: ig_message ig_SetBrightnessResponse_encode
  ig_SetBrightnessResponse_decode
  ig_SetBrightnessResponse_get_max_payload_in_bytes ig_SetBrightnessResponse_is_valid
    ig_SetBrightnessResponse_init ig_SetBrightnessResponse_ok 72
  ig_SetBrightnessResponse_fields_size ig_SetBrightnessResponse_fields ig_SetBrightnessResponse_cases
  by (unfold_locales;
      (rule ig_SetBrightnessResponse_encode_def ig_SetBrightnessResponse_decode_def | erule
        ig_SetBrightnessResponse_store ig_SetBrightnessResponse_bound |
       auto simp: ig_SetBrightnessResponse_cases_def ig_SetBrightnessResponse_fields_def
         ig_SetBrightnessResponse_fields_size_def ig_SetBrightnessResponse_ok_def
         simp del: arg_block_ok.simps(1,2) intro: str_ok_block))

subsection \<open>SetDaylightSavingRequest\<close>

record IgSetDaylightSavingRequest =
  SetDaylightSavingRequest_has_password :: bool
  SetDaylightSavingRequest_password :: block_ptr
  SetDaylightSavingRequest_password_size :: nat
  SetDaylightSavingRequest_has_dst_times :: bool
  SetDaylightSavingRequest_dst_times :: block_ptr
  SetDaylightSavingRequest_dst_times_size :: nat
  SetDaylightSavingRequest_has_operation_id :: bool
  SetDaylightSavingRequest_operation_id :: u32

definition ig_SetDaylightSavingRequest_init :: IgSetDaylightSavingRequest where
  "ig_SetDaylightSavingRequest_init =
     \<lparr>SetDaylightSavingRequest_has_password = False,
      SetDaylightSavingRequest_password = None,
      SetDaylightSavingRequest_password_size = 0,
      SetDaylightSavingRequest_has_dst_times = False,
      SetDaylightSavingRequest_dst_times = None,
      SetDaylightSavingRequest_dst_times_size = 0,
      SetDaylightSavingRequest_has_operation_id = False,
      SetDaylightSavingRequest_operation_id = 0\<rparr>"

definition ig_SetDaylightSavingRequest_get_password_size :: "IgSetDaylightSavingRequest
  \<Rightarrow> nat" where
  "ig_SetDaylightSavingRequest_get_password_size obj = SetDaylightSavingRequest_password_size obj"

definition ig_SetDaylightSavingRequest_set_password_nocopy ::
  "bool \<Rightarrow> block_ptr \<Rightarrow> nat \<Rightarrow> IgSetDaylightSavingRequest
    \<Rightarrow> IgSetDaylightSavingRequest" where
  "ig_SetDaylightSavingRequest_set_password_nocopy same_ptr p n obj =
     (if same_ptr then obj
      else let obj = (if SetDaylightSavingRequest_has_password obj then
        obj\<lparr>SetDaylightSavingRequest_password := None\<rparr> else obj)
        in obj\<lparr>SetDaylightSavingRequest_password := p,
          SetDaylightSavingRequest_password_size := n, SetDaylightSavingRequest_has_password := n >
            0\<rparr>)"

definition ig_SetDaylightSavingRequest_set_password ::
  "bool \<Rightarrow> block_ptr \<Rightarrow> nat \<Rightarrow> IgSetDaylightSavingRequest
    \<Rightarrow> IgSetDaylightSavingRequest res" where
  "ig_SetDaylightSavingRequest_set_password same_ptr p n obj =
     (if same_ptr then Ok obj
      else let obj = (if SetDaylightSavingRequest_has_password obj then
        obj\<lparr>SetDaylightSavingRequest_password := None\<rparr> else obj)
        in bindR (block_read p n) (\<lambda>d.
          Ok (obj\<lparr>SetDaylightSavingRequest_password := Some d,
            SetDaylightSavingRequest_password_size := n, SetDaylightSavingRequest_has_password := n
              > 0\<rparr>)))"

definition ig_SetDaylightSavingRequest_get_dst_times_size :: "IgSetDaylightSavingRequest
  \<Rightarrow> nat" where
  "ig_SetDaylightSavingRequest_get_dst_times_size obj = SetDaylightSavingRequest_dst_times_size obj"

definition ig_SetDaylightSavingRequest_set_dst_times_nocopy ::
  "bool \<Rightarrow> block_ptr \<Rightarrow> nat \<Rightarrow> IgSetDaylightSavingRequest
    \<Rightarrow> IgSetDaylightSavingRequest" where
  "ig_SetDaylightSavingRequest_set_dst_times_nocopy same_ptr p n obj =
     (if same_ptr then obj
      else let obj = (if SetDaylightSavingRequest_has_dst_times obj then
        obj\<lparr>SetDaylightSavingRequest_dst_times := None\<rparr> else obj)
        in obj\<lparr>SetDaylightSavingRequest_dst_times := p,
          SetDaylightSavingRequest_dst_times_size := n, SetDaylightSavingRequest_has_dst_times := n
            > 0\<rparr>)"

definition ig_SetDaylightSavingRequest_set_dst_times ::
  "bool \<Rightarrow> block_ptr \<Rightarrow> nat \<Rightarrow> IgSetDaylightSavingRequest
    \<Rightarrow> IgSetDaylightSavingRequest res" where
  "ig_SetDaylightSavingRequest_set_dst_times same_ptr p n obj =
     (if same_ptr then Ok obj
      else let obj = (if SetDaylightSavingRequest_has_dst_times obj then
        obj\<lparr>SetDaylightSavingRequest_dst_times := None\<rparr> else obj)
        in bindR (block_read p n) (\<lambda>d.
          Ok (obj\<lparr>SetDaylightSavingRequest_dst_times := Some d,
            SetDaylightSavingRequest_dst_times_size := n, SetDaylightSavingRequest_has_dst_times :=
              n > 0\<rparr>)))"

definition ig_SetDaylightSavingRequest_set_operation_id :: "u32 \<Rightarrow>
  IgSetDaylightSavingRequest \<Rightarrow> IgSetDaylightSavingRequest" where
  "ig_SetDaylightSavingRequest_set_operation_id v obj =
    obj\<lparr>SetDaylightSavingRequest_operation_id := v,
      SetDaylightSavingRequest_has_operation_id := True\<rparr>"

definition ig_SetDaylightSavingRequest_deinit :: "IgSetDaylightSavingRequest \<Rightarrow>
  IgSetDaylightSavingRequest" where
  "ig_SetDaylightSavingRequest_deinit obj = (let
     obj = (if SetDaylightSavingRequest_has_password obj then
       obj\<lparr>SetDaylightSavingRequest_password := None\<rparr> else obj);
     obj = (if SetDaylightSavingRequest_has_dst_times obj then
       obj\<lparr>SetDaylightSavingRequest_dst_times := None\<rparr> else obj)
   in obj)"

definition ig_SetDaylightSavingRequest_is_valid :: "IgSetDaylightSavingRequest \<Rightarrow> bool" where
  "ig_SetDaylightSavingRequest_is_valid obj \<longleftrightarrow> SetDaylightSavingRequest_has_password obj"

definition ig_SetDaylightSavingRequest_get_max_payload_in_bytes :: "IgSetDaylightSavingRequest
  \<Rightarrow> u32" where
  "ig_SetDaylightSavingRequest_get_max_payload_in_bytes obj = word_of_nat (33 +
    SetDaylightSavingRequest_password_size obj + SetDaylightSavingRequest_dst_times_size obj)"

definition ig_SetDaylightSavingRequest_fields_size :: "IgSetDaylightSavingRequest \<Rightarrow> u64" where
  "ig_SetDaylightSavingRequest_fields_size obj = 1 + 1 + of_bool
    (SetDaylightSavingRequest_has_dst_times obj) + of_bool (SetDaylightSavingRequest_has_operation_id obj)"

definition ig_SetDaylightSavingRequest_fields :: "IgSetDaylightSavingRequest \<Rightarrow>
  enc_field list" where
  "ig_SetDaylightSavingRequest_fields obj =
    [(True, 11, ABytes (SetDaylightSavingRequest_password obj) (SetDaylightSavingRequest_password_size obj)),
     (SetDaylightSavingRequest_has_dst_times obj, 12, ABytes (SetDaylightSavingRequest_dst_times
       obj) (SetDaylightSavingRequest_dst_times_size obj)),
     (SetDaylightSavingRequest_has_operation_id obj, 100, AUint (ucast
       (SetDaylightSavingRequest_operation_id obj)))]"

definition ig_SetDaylightSavingRequest_encode ::
  "IgSetDaylightSavingRequest \<Rightarrow> bytes \<Rightarrow> u32 \<Rightarrow> (nat \<times>
    bytes \<times> nat option) res" where
  "ig_SetDaylightSavingRequest_encode obj retval len =
     (if \<not> ig_SetDaylightSavingRequest_is_valid obj then Ok (IgSerializerErrorInvalidPayload,
       retval, None)
      else ig_encode (ig_SetDaylightSavingRequest_fields_size obj) 63
        (ig_SetDaylightSavingRequest_fields obj) retval len)"

definition ig_SetDaylightSavingRequest_cases :: "(i64 \<times> IgSetDaylightSavingRequest
  case_body) list" where
  "ig_SetDaylightSavingRequest_cases =
    [(0, CMsgId 63),
     (11, CBytes (ig_SetDaylightSavingRequest_set_password_nocopy False)),
     (12, CBytes (ig_SetDaylightSavingRequest_set_dst_times_nocopy False)),
     (100, CUint (\<lambda>v. ig_SetDaylightSavingRequest_set_operation_id (ucast v)))]"

definition ig_SetDaylightSavingRequest_decode :: "bytes \<Rightarrow> IgSetDaylightSavingRequest
  \<Rightarrow> nat \<Rightarrow> (nat \<times> IgSetDaylightSavingRequest) res" where
  "ig_SetDaylightSavingRequest_decode buf obj index = ig_decode ig_SetDaylightSavingRequest_cases
    buf obj index"

definition ig_SetDaylightSavingRequest_ok :: "IgSetDaylightSavingRequest \<Rightarrow> bool" where
  "ig_SetDaylightSavingRequest_ok obj \<longleftrightarrow> ig_SetDaylightSavingRequest_is_valid obj \<and>
     str_ok (SetDaylightSavingRequest_has_password obj) (SetDaylightSavingRequest_password obj)
       (SetDaylightSavingRequest_password_size obj) \<and>
     str_ok (SetDaylightSavingRequest_has_dst_times obj) (SetDaylightSavingRequest_dst_times obj)
       (SetDaylightSavingRequest_dst_times_size obj) \<and>
     num_ok (SetDaylightSavingRequest_has_operation_id obj) (SetDaylightSavingRequest_operation_id obj)"

lemmas ig_SetDaylightSavingRequest_setters =
  ig_SetDaylightSavingRequest_set_dst_times_nocopy_def
  ig_SetDaylightSavingRequest_set_operation_id_def
  ig_SetDaylightSavingRequest_set_password_nocopy_def

text \<open>A guarded setter, member by member.\<close>
lemma ig_SetDaylightSavingRequest_set_if:
  "(if g then ig_SetDaylightSavingRequest_set_dst_times_nocopy False p n obj else obj) =
     obj\<lparr>SetDaylightSavingRequest_dst_times := pick g p (SetDaylightSavingRequest_dst_times obj),
       SetDaylightSavingRequest_dst_times_size := pick g n (SetDaylightSavingRequest_dst_times_size obj),
       SetDaylightSavingRequest_has_dst_times := pick g (n > 0)
         (SetDaylightSavingRequest_has_dst_times obj)\<rparr>"
  "(if g then ig_SetDaylightSavingRequest_set_operation_id v1 obj else obj) =
     obj\<lparr>SetDaylightSavingRequest_operation_id := pick g v1
       (SetDaylightSavingRequest_operation_id obj),
       SetDaylightSavingRequest_has_operation_id := g \<or>
         SetDaylightSavingRequest_has_operation_id obj\<rparr>"
  by (simp_all add: ig_SetDaylightSavingRequest_setters pick_def)

lemma ig_SetDaylightSavingRequest_store:
  assumes ok: "ig_SetDaylightSavingRequest_ok obj"
  shows "store_fields ig_SetDaylightSavingRequest_cases (ig_SetDaylightSavingRequest_fields obj)
    ig_SetDaylightSavingRequest_init = Some obj"
proof -
  have h: "str_ok (SetDaylightSavingRequest_has_password obj) (SetDaylightSavingRequest_password
    obj) (SetDaylightSavingRequest_password_size obj)"
    "str_ok (SetDaylightSavingRequest_has_dst_times obj) (SetDaylightSavingRequest_dst_times obj)
      (SetDaylightSavingRequest_dst_times_size obj)"
    "num_ok (SetDaylightSavingRequest_has_operation_id obj) (SetDaylightSavingRequest_operation_id obj)"
    and valid: "ig_SetDaylightSavingRequest_is_valid obj"
    using ok by (simp_all add: ig_SetDaylightSavingRequest_ok_def)
  show ?thesis
    using valid
    by (simp add: ig_SetDaylightSavingRequest_fields_def ig_SetDaylightSavingRequest_cases_def
      ig_SetDaylightSavingRequest_init_def codec_simps
        ig_SetDaylightSavingRequest_set_if ig_SetDaylightSavingRequest_setters split del: if_split)
       (simp add: ig_SetDaylightSavingRequest_is_valid_def
         str_ok_store [OF h(1)]
         str_ok_store [OF h(2)]
         num_ok_store [OF h(3)])
qed

lemma ig_SetDaylightSavingRequest_bound:
  assumes "ig_SetDaylightSavingRequest_ok obj"
  shows "2 + length (number_bytes 63 MtUnsigned) + fields_bound (ig_SetDaylightSavingRequest_fields obj)
    \<le> unat (ig_SetDaylightSavingRequest_get_max_payload_in_bytes obj)"
proof -
  have sizes: "SetDaylightSavingRequest_password_size obj < 2 ^ 24"
    "SetDaylightSavingRequest_dst_times_size obj < 2 ^ 24"
    using assms by (auto simp: ig_SetDaylightSavingRequest_ok_def dest!: str_ok_bound)
  show ?thesis
    using sizes number_bytes_size [of "SetDaylightSavingRequest_password_size obj" "0x40"]
      number_bytes_size [of "SetDaylightSavingRequest_dst_times_size obj" "0x40"]
      number_bytes_u32 [of "SetDaylightSavingRequest_operation_id obj" 0]
    by (simp add: ig_SetDaylightSavingRequest_fields_def
      ig_SetDaylightSavingRequest_get_max_payload_in_bytes_def number_bytes_literal
        unat_of_nat_small del: of_nat_add)
qed

interpretation SetDaylightSavingRequest_codec: ig_message ig_SetDaylightSavingRequest_encode
  ig_SetDaylightSavingRequest_decode
  ig_SetDaylightSavingRequest_get_max_payload_in_bytes ig_SetDaylightSavingRequest_is_valid
    ig_SetDaylightSavingRequest_init ig_SetDaylightSavingRequest_ok 63
  ig_SetDaylightSavingRequest_fields_size ig_SetDaylightSavingRequest_fields ig_SetDaylightSavingRequest_cases
  by (unfold_locales;
      (rule ig_SetDaylightSavingRequest_encode_def ig_SetDaylightSavingRequest_decode_def | erule
        ig_SetDaylightSavingRequest_store ig_SetDaylightSavingRequest_bound |
       auto simp: ig_SetDaylightSavingRequest_cases_def ig_SetDaylightSavingRequest_fields_def
         ig_SetDaylightSavingRequest_fields_size_def ig_SetDaylightSavingRequest_ok_def
         simp del: arg_block_ok.simps(1,2) intro: str_ok_block))

subsection \<open>SetDaylightSavingResponse\<close>

record IgSetDaylightSavingResponse =
  SetDaylightSavingResponse_has_result :: bool
  SetDaylightSavingResponse_result :: u8
  SetDaylightSavingResponse_has_operation_id :: bool
  SetDaylightSavingResponse_operation_id :: u32

definition ig_SetDaylightSavingResponse_init :: IgSetDaylightSavingResponse where
  "ig_SetDaylightSavingResponse_init =
     \<lparr>SetDaylightSavingResponse_has_result = False,
      SetDaylightSavingResponse_result = 0,
      SetDaylightSavingResponse_has_operation_id = False,
      SetDaylightSavingResponse_operation_id = 0\<rparr>"

definition ig_SetDaylightSavingResponse_set_result :: "u8 \<Rightarrow> IgSetDaylightSavingResponse
  \<Rightarrow> IgSetDaylightSavingResponse" where
  "ig_SetDaylightSavingResponse_set_result v obj = obj\<lparr>SetDaylightSavingResponse_result :=
    v, SetDaylightSavingResponse_has_result := True\<rparr>"

definition ig_SetDaylightSavingResponse_set_operation_id :: "u32 \<Rightarrow>
  IgSetDaylightSavingResponse \<Rightarrow> IgSetDaylightSavingResponse" where
  "ig_SetDaylightSavingResponse_set_operation_id v obj =
    obj\<lparr>SetDaylightSavingResponse_operation_id := v,
      SetDaylightSavingResponse_has_operation_id := True\<rparr>"

definition ig_SetDaylightSavingResponse_deinit :: "IgSetDaylightSavingResponse \<Rightarrow>
  IgSetDaylightSavingResponse" where
  "ig_SetDaylightSavingResponse_deinit obj = obj"

definition ig_SetDaylightSavingResponse_is_valid :: "IgSetDaylightSavingResponse \<Rightarrow> bool" where
  "ig_SetDaylightSavingResponse_is_valid obj \<longleftrightarrow> SetDaylightSavingResponse_has_result obj"

definition ig_SetDaylightSavingResponse_get_max_payload_in_bytes :: "IgSetDaylightSavingResponse
  \<Rightarrow> u32" where
  "ig_SetDaylightSavingResponse_get_max_payload_in_bytes obj = 22"

definition ig_SetDaylightSavingResponse_fields_size :: "IgSetDaylightSavingResponse \<Rightarrow> u64" where
  "ig_SetDaylightSavingResponse_fields_size obj = 1 + 1 + of_bool
    (SetDaylightSavingResponse_has_operation_id obj)"

definition ig_SetDaylightSavingResponse_fields :: "IgSetDaylightSavingResponse \<Rightarrow>
  enc_field list" where
  "ig_SetDaylightSavingResponse_fields obj =
    [(True, 11, AUint (ucast (SetDaylightSavingResponse_result obj))),
     (SetDaylightSavingResponse_has_operation_id obj, 100, AUint (ucast
       (SetDaylightSavingResponse_operation_id obj)))]"

definition ig_SetDaylightSavingResponse_encode ::
  "IgSetDaylightSavingResponse \<Rightarrow> bytes \<Rightarrow> u32 \<Rightarrow> (nat \<times>
    bytes \<times> nat option) res" where
  "ig_SetDaylightSavingResponse_encode obj retval len =
     (if \<not> ig_SetDaylightSavingResponse_is_valid obj then Ok (IgSerializerErrorInvalidPayload,
       retval, None)
      else ig_encode (ig_SetDaylightSavingResponse_fields_size obj) 64
        (ig_SetDaylightSavingResponse_fields obj) retval len)"

definition ig_SetDaylightSavingResponse_cases :: "(i64 \<times> IgSetDaylightSavingResponse
  case_body) list" where
  "ig_SetDaylightSavingResponse_cases =
    [(0, CMsgId 64),
     (11, CUint (\<lambda>v. ig_SetDaylightSavingResponse_set_result (ucast v))),
     (100, CUint (\<lambda>v. ig_SetDaylightSavingResponse_set_operation_id (ucast v)))]"

definition ig_SetDaylightSavingResponse_decode :: "bytes \<Rightarrow> IgSetDaylightSavingResponse
  \<Rightarrow> nat \<Rightarrow> (nat \<times> IgSetDaylightSavingResponse) res" where
  "ig_SetDaylightSavingResponse_decode buf obj index = ig_decode ig_SetDaylightSavingResponse_cases
    buf obj index"

definition ig_SetDaylightSavingResponse_ok :: "IgSetDaylightSavingResponse \<Rightarrow> bool" where
  "ig_SetDaylightSavingResponse_ok obj \<longleftrightarrow> ig_SetDaylightSavingResponse_is_valid obj \<and>
     num_ok (SetDaylightSavingResponse_has_result obj) (SetDaylightSavingResponse_result obj) \<and>
     num_ok (SetDaylightSavingResponse_has_operation_id obj) (SetDaylightSavingResponse_operation_id obj)"

lemmas ig_SetDaylightSavingResponse_setters =
  ig_SetDaylightSavingResponse_set_operation_id_def
  ig_SetDaylightSavingResponse_set_result_def

text \<open>A guarded setter, member by member.\<close>
lemma ig_SetDaylightSavingResponse_set_if:
  "(if g then ig_SetDaylightSavingResponse_set_operation_id v0 obj else obj) =
     obj\<lparr>SetDaylightSavingResponse_operation_id := pick g v0
       (SetDaylightSavingResponse_operation_id obj),
       SetDaylightSavingResponse_has_operation_id := g \<or>
         SetDaylightSavingResponse_has_operation_id obj\<rparr>"
  by (simp_all add: ig_SetDaylightSavingResponse_setters pick_def)

lemma ig_SetDaylightSavingResponse_store:
  assumes ok: "ig_SetDaylightSavingResponse_ok obj"
  shows "store_fields ig_SetDaylightSavingResponse_cases (ig_SetDaylightSavingResponse_fields obj)
    ig_SetDaylightSavingResponse_init = Some obj"
proof -
  have h: "num_ok (SetDaylightSavingResponse_has_result obj) (SetDaylightSavingResponse_result obj)"
    "num_ok (SetDaylightSavingResponse_has_operation_id obj) (SetDaylightSavingResponse_operation_id obj)"
    and valid: "ig_SetDaylightSavingResponse_is_valid obj"
    using ok by (simp_all add: ig_SetDaylightSavingResponse_ok_def)
  show ?thesis
    using valid
    by (simp add: ig_SetDaylightSavingResponse_fields_def ig_SetDaylightSavingResponse_cases_def
      ig_SetDaylightSavingResponse_init_def codec_simps
        ig_SetDaylightSavingResponse_set_if ig_SetDaylightSavingResponse_setters split del: if_split)
       (simp add: ig_SetDaylightSavingResponse_is_valid_def
         num_ok_store [OF h(1)]
         num_ok_store [OF h(2)])
qed

lemma ig_SetDaylightSavingResponse_bound:
  assumes "ig_SetDaylightSavingResponse_ok obj"
  shows "2 + length (number_bytes 64 MtUnsigned) + fields_bound (ig_SetDaylightSavingResponse_fields obj)
    \<le> unat (ig_SetDaylightSavingResponse_get_max_payload_in_bytes obj)"
  using number_bytes_u8 [of "SetDaylightSavingResponse_result obj" 0]
    number_bytes_u32 [of "SetDaylightSavingResponse_operation_id obj" 0]
  by (simp add: ig_SetDaylightSavingResponse_fields_def
    ig_SetDaylightSavingResponse_get_max_payload_in_bytes_def number_bytes_literal)

interpretation SetDaylightSavingResponse_codec: ig_message ig_SetDaylightSavingResponse_encode
  ig_SetDaylightSavingResponse_decode
  ig_SetDaylightSavingResponse_get_max_payload_in_bytes ig_SetDaylightSavingResponse_is_valid
    ig_SetDaylightSavingResponse_init ig_SetDaylightSavingResponse_ok 64
  ig_SetDaylightSavingResponse_fields_size ig_SetDaylightSavingResponse_fields
    ig_SetDaylightSavingResponse_cases
  by (unfold_locales;
      (rule ig_SetDaylightSavingResponse_encode_def ig_SetDaylightSavingResponse_decode_def | erule
        ig_SetDaylightSavingResponse_store ig_SetDaylightSavingResponse_bound |
       auto simp: ig_SetDaylightSavingResponse_cases_def ig_SetDaylightSavingResponse_fields_def
         ig_SetDaylightSavingResponse_fields_size_def ig_SetDaylightSavingResponse_ok_def
         simp del: arg_block_ok.simps(1,2) intro: str_ok_block))

subsection \<open>DaylightSavingRange\<close>

record IgDaylightSavingRange =
  DaylightSavingRange_has_year :: bool
  DaylightSavingRange_year :: u16
  DaylightSavingRange_has_start_date :: bool
  DaylightSavingRange_start_date :: u32
  DaylightSavingRange_has_end_date :: bool
  DaylightSavingRange_end_date :: u32
  DaylightSavingRange_has_offset :: bool
  DaylightSavingRange_offset :: i32

definition ig_DaylightSavingRange_init :: IgDaylightSavingRange where
  "ig_DaylightSavingRange_init =
     \<lparr>DaylightSavingRange_has_year = False,
      DaylightSavingRange_year = 0,
      DaylightSavingRange_has_start_date = False,
      DaylightSavingRange_start_date = 0,
      DaylightSavingRange_has_end_date = False,
      DaylightSavingRange_end_date = 0,
      DaylightSavingRange_has_offset = False,
      DaylightSavingRange_offset = 0\<rparr>"

definition ig_DaylightSavingRange_set_year :: "u16 \<Rightarrow> IgDaylightSavingRange
  \<Rightarrow> IgDaylightSavingRange" where
  "ig_DaylightSavingRange_set_year v obj = obj\<lparr>DaylightSavingRange_year := v,
    DaylightSavingRange_has_year := True\<rparr>"

definition ig_DaylightSavingRange_set_start_date :: "u32 \<Rightarrow> IgDaylightSavingRange
  \<Rightarrow> IgDaylightSavingRange" where
  "ig_DaylightSavingRange_set_start_date v obj = obj\<lparr>DaylightSavingRange_start_date := v,
    DaylightSavingRange_has_start_date := True\<rparr>"

definition ig_DaylightSavingRange_set_end_date :: "u32 \<Rightarrow> IgDaylightSavingRange
  \<Rightarrow> IgDaylightSavingRange" where
  "ig_DaylightSavingRange_set_end_date v obj = obj\<lparr>DaylightSavingRange_end_date := v,
    DaylightSavingRange_has_end_date := True\<rparr>"

definition ig_DaylightSavingRange_set_offset :: "i32 \<Rightarrow> IgDaylightSavingRange
  \<Rightarrow> IgDaylightSavingRange" where
  "ig_DaylightSavingRange_set_offset v obj = obj\<lparr>DaylightSavingRange_offset := v,
    DaylightSavingRange_has_offset := True\<rparr>"

definition ig_DaylightSavingRange_deinit :: "IgDaylightSavingRange \<Rightarrow> IgDaylightSavingRange" where
  "ig_DaylightSavingRange_deinit obj = obj"

definition ig_DaylightSavingRange_is_valid :: "IgDaylightSavingRange \<Rightarrow> bool" where
  "ig_DaylightSavingRange_is_valid obj \<longleftrightarrow> DaylightSavingRange_has_year obj
    \<and> DaylightSavingRange_has_start_date obj \<and> DaylightSavingRange_has_end_date obj
      \<and> DaylightSavingRange_has_offset obj"

definition ig_DaylightSavingRange_get_max_payload_in_bytes :: "IgDaylightSavingRange \<Rightarrow> u32" where
  "ig_DaylightSavingRange_get_max_payload_in_bytes obj = 35"

definition ig_DaylightSavingRange_fields_size :: "IgDaylightSavingRange \<Rightarrow> u64" where
  "ig_DaylightSavingRange_fields_size obj = 1 + 4"

definition ig_DaylightSavingRange_fields :: "IgDaylightSavingRange \<Rightarrow> enc_field list" where
  "ig_DaylightSavingRange_fields obj =
    [(True, 11, AUint (ucast (DaylightSavingRange_year obj))),
     (True, 12, AUint (ucast (DaylightSavingRange_start_date obj))),
     (True, 13, AUint (ucast (DaylightSavingRange_end_date obj))),
     (True, 14, AInt (scast (DaylightSavingRange_offset obj)))]"

definition ig_DaylightSavingRange_encode ::
  "IgDaylightSavingRange \<Rightarrow> bytes \<Rightarrow> u32 \<Rightarrow> (nat \<times> bytes
    \<times> nat option) res" where
  "ig_DaylightSavingRange_encode obj retval len =
     (if \<not> ig_DaylightSavingRange_is_valid obj then Ok (IgSerializerErrorInvalidPayload, retval, None)
      else ig_encode (ig_DaylightSavingRange_fields_size obj) 205 (ig_DaylightSavingRange_fields
        obj) retval len)"

definition ig_DaylightSavingRange_cases :: "(i64 \<times> IgDaylightSavingRange case_body) list" where
  "ig_DaylightSavingRange_cases =
    [(0, CMsgId 205),
     (11, CUint (\<lambda>v. ig_DaylightSavingRange_set_year (ucast v))),
     (12, CUint (\<lambda>v. ig_DaylightSavingRange_set_start_date (ucast v))),
     (13, CUint (\<lambda>v. ig_DaylightSavingRange_set_end_date (ucast v))),
     (14, CInt (\<lambda>v. ig_DaylightSavingRange_set_offset (ucast v)))]"

definition ig_DaylightSavingRange_decode :: "bytes \<Rightarrow> IgDaylightSavingRange
  \<Rightarrow> nat \<Rightarrow> (nat \<times> IgDaylightSavingRange) res" where
  "ig_DaylightSavingRange_decode buf obj index = ig_decode ig_DaylightSavingRange_cases buf obj index"

definition ig_DaylightSavingRange_ok :: "IgDaylightSavingRange \<Rightarrow> bool" where
  "ig_DaylightSavingRange_ok obj \<longleftrightarrow> ig_DaylightSavingRange_is_valid obj \<and>
     num_ok (DaylightSavingRange_has_year obj) (DaylightSavingRange_year obj) \<and>
     num_ok (DaylightSavingRange_has_start_date obj) (DaylightSavingRange_start_date obj) \<and>
     num_ok (DaylightSavingRange_has_end_date obj) (DaylightSavingRange_end_date obj) \<and>
     num_ok (DaylightSavingRange_has_offset obj) (DaylightSavingRange_offset obj)"

lemmas ig_DaylightSavingRange_setters =
  ig_DaylightSavingRange_set_end_date_def
  ig_DaylightSavingRange_set_offset_def
  ig_DaylightSavingRange_set_start_date_def
  ig_DaylightSavingRange_set_year_def

lemma ig_DaylightSavingRange_store:
  assumes ok: "ig_DaylightSavingRange_ok obj"
  shows "store_fields ig_DaylightSavingRange_cases (ig_DaylightSavingRange_fields obj)
    ig_DaylightSavingRange_init = Some obj"
proof -
  have h: "num_ok (DaylightSavingRange_has_year obj) (DaylightSavingRange_year obj)"
    "num_ok (DaylightSavingRange_has_start_date obj) (DaylightSavingRange_start_date obj)"
    "num_ok (DaylightSavingRange_has_end_date obj) (DaylightSavingRange_end_date obj)"
    "num_ok (DaylightSavingRange_has_offset obj) (DaylightSavingRange_offset obj)"
    and valid: "ig_DaylightSavingRange_is_valid obj"
    using ok by (simp_all add: ig_DaylightSavingRange_ok_def)
  show ?thesis
    using valid
    by (simp add: ig_DaylightSavingRange_fields_def ig_DaylightSavingRange_cases_def
      ig_DaylightSavingRange_init_def codec_simps
        ig_DaylightSavingRange_setters split del: if_split)
       (simp add: ig_DaylightSavingRange_is_valid_def
         num_ok_store [OF h(1)]
         num_ok_store [OF h(2)]
         num_ok_store [OF h(3)]
         num_ok_store [OF h(4)])
qed

lemma ig_DaylightSavingRange_bound:
  assumes "ig_DaylightSavingRange_ok obj"
  shows "2 + length (number_bytes 205 MtUnsigned) + fields_bound (ig_DaylightSavingRange_fields obj)
    \<le> unat (ig_DaylightSavingRange_get_max_payload_in_bytes obj)"
  using number_bytes_u16 [of "DaylightSavingRange_year obj" 0]
    number_bytes_u32 [of "DaylightSavingRange_start_date obj" 0]
    number_bytes_u32 [of "DaylightSavingRange_end_date obj" 0]
    item_bytes_i32 [of "DaylightSavingRange_offset obj"]
  by (simp add: ig_DaylightSavingRange_fields_def
    ig_DaylightSavingRange_get_max_payload_in_bytes_def number_bytes_literal)

interpretation DaylightSavingRange_codec: ig_message ig_DaylightSavingRange_encode
  ig_DaylightSavingRange_decode
  ig_DaylightSavingRange_get_max_payload_in_bytes ig_DaylightSavingRange_is_valid
    ig_DaylightSavingRange_init ig_DaylightSavingRange_ok 205
  ig_DaylightSavingRange_fields_size ig_DaylightSavingRange_fields ig_DaylightSavingRange_cases
  by (unfold_locales;
      (rule ig_DaylightSavingRange_encode_def ig_DaylightSavingRange_decode_def | erule
        ig_DaylightSavingRange_store ig_DaylightSavingRange_bound |
       auto simp: ig_DaylightSavingRange_cases_def ig_DaylightSavingRange_fields_def
         ig_DaylightSavingRange_fields_size_def ig_DaylightSavingRange_ok_def
         simp del: arg_block_ok.simps(1,2) intro: str_ok_block))

subsection \<open>GetBatteryLevelRequest\<close>

record IgGetBatteryLevelRequest =
  GetBatteryLevelRequest_has_password :: bool
  GetBatteryLevelRequest_password :: block_ptr
  GetBatteryLevelRequest_password_size :: nat
  GetBatteryLevelRequest_has_operation_id :: bool
  GetBatteryLevelRequest_operation_id :: u32

definition ig_GetBatteryLevelRequest_init :: IgGetBatteryLevelRequest where
  "ig_GetBatteryLevelRequest_init =
     \<lparr>GetBatteryLevelRequest_has_password = False,
      GetBatteryLevelRequest_password = None,
      GetBatteryLevelRequest_password_size = 0,
      GetBatteryLevelRequest_has_operation_id = False,
      GetBatteryLevelRequest_operation_id = 0\<rparr>"

definition ig_GetBatteryLevelRequest_get_password_size :: "IgGetBatteryLevelRequest \<Rightarrow> nat" where
  "ig_GetBatteryLevelRequest_get_password_size obj = GetBatteryLevelRequest_password_size obj"

definition ig_GetBatteryLevelRequest_set_password_nocopy ::
  "bool \<Rightarrow> block_ptr \<Rightarrow> nat \<Rightarrow> IgGetBatteryLevelRequest
    \<Rightarrow> IgGetBatteryLevelRequest" where
  "ig_GetBatteryLevelRequest_set_password_nocopy same_ptr p n obj =
     (if same_ptr then obj
      else let obj = (if GetBatteryLevelRequest_has_password obj then
        obj\<lparr>GetBatteryLevelRequest_password := None\<rparr> else obj)
        in obj\<lparr>GetBatteryLevelRequest_password := p, GetBatteryLevelRequest_password_size :=
          n, GetBatteryLevelRequest_has_password := n > 0\<rparr>)"

definition ig_GetBatteryLevelRequest_set_password ::
  "bool \<Rightarrow> block_ptr \<Rightarrow> nat \<Rightarrow> IgGetBatteryLevelRequest
    \<Rightarrow> IgGetBatteryLevelRequest res" where
  "ig_GetBatteryLevelRequest_set_password same_ptr p n obj =
     (if same_ptr then Ok obj
      else let obj = (if GetBatteryLevelRequest_has_password obj then
        obj\<lparr>GetBatteryLevelRequest_password := None\<rparr> else obj)
        in bindR (block_read p n) (\<lambda>d.
          Ok (obj\<lparr>GetBatteryLevelRequest_password := Some d,
            GetBatteryLevelRequest_password_size := n, GetBatteryLevelRequest_has_password := n >
              0\<rparr>)))"

definition ig_GetBatteryLevelRequest_set_operation_id :: "u32 \<Rightarrow>
  IgGetBatteryLevelRequest \<Rightarrow> IgGetBatteryLevelRequest" where
  "ig_GetBatteryLevelRequest_set_operation_id v obj =
    obj\<lparr>GetBatteryLevelRequest_operation_id := v, GetBatteryLevelRequest_has_operation_id :=
      True\<rparr>"

definition ig_GetBatteryLevelRequest_deinit :: "IgGetBatteryLevelRequest \<Rightarrow>
  IgGetBatteryLevelRequest" where
  "ig_GetBatteryLevelRequest_deinit obj = (let
     obj = (if GetBatteryLevelRequest_has_password obj then
       obj\<lparr>GetBatteryLevelRequest_password := None\<rparr> else obj)
   in obj)"

definition ig_GetBatteryLevelRequest_is_valid :: "IgGetBatteryLevelRequest \<Rightarrow> bool" where
  "ig_GetBatteryLevelRequest_is_valid obj \<longleftrightarrow> GetBatteryLevelRequest_has_password obj"

definition ig_GetBatteryLevelRequest_get_max_payload_in_bytes :: "IgGetBatteryLevelRequest
  \<Rightarrow> u32" where
  "ig_GetBatteryLevelRequest_get_max_payload_in_bytes obj = word_of_nat (26 +
    GetBatteryLevelRequest_password_size obj)"

definition ig_GetBatteryLevelRequest_fields_size :: "IgGetBatteryLevelRequest \<Rightarrow> u64" where
  "ig_GetBatteryLevelRequest_fields_size obj = 1 + 1 + of_bool (GetBatteryLevelRequest_has_operation_id obj)"

definition ig_GetBatteryLevelRequest_fields :: "IgGetBatteryLevelRequest \<Rightarrow> enc_field list" where
  "ig_GetBatteryLevelRequest_fields obj =
    [(True, 11, ABytes (GetBatteryLevelRequest_password obj) (GetBatteryLevelRequest_password_size obj)),
     (GetBatteryLevelRequest_has_operation_id obj, 100, AUint (ucast
       (GetBatteryLevelRequest_operation_id obj)))]"

definition ig_GetBatteryLevelRequest_encode ::
  "IgGetBatteryLevelRequest \<Rightarrow> bytes \<Rightarrow> u32 \<Rightarrow> (nat \<times> bytes
    \<times> nat option) res" where
  "ig_GetBatteryLevelRequest_encode obj retval len =
     (if \<not> ig_GetBatteryLevelRequest_is_valid obj then Ok (IgSerializerErrorInvalidPayload, retval, None)
      else ig_encode (ig_GetBatteryLevelRequest_fields_size obj) 29
        (ig_GetBatteryLevelRequest_fields obj) retval len)"

definition ig_GetBatteryLevelRequest_cases :: "(i64 \<times> IgGetBatteryLevelRequest case_body) list" where
  "ig_GetBatteryLevelRequest_cases =
    [(0, CMsgId 29),
     (11, CBytes (ig_GetBatteryLevelRequest_set_password_nocopy False)),
     (100, CUint (\<lambda>v. ig_GetBatteryLevelRequest_set_operation_id (ucast v)))]"

definition ig_GetBatteryLevelRequest_decode :: "bytes \<Rightarrow> IgGetBatteryLevelRequest
  \<Rightarrow> nat \<Rightarrow> (nat \<times> IgGetBatteryLevelRequest) res" where
  "ig_GetBatteryLevelRequest_decode buf obj index = ig_decode ig_GetBatteryLevelRequest_cases buf obj index"

definition ig_GetBatteryLevelRequest_ok :: "IgGetBatteryLevelRequest \<Rightarrow> bool" where
  "ig_GetBatteryLevelRequest_ok obj \<longleftrightarrow> ig_GetBatteryLevelRequest_is_valid obj \<and>
     str_ok (GetBatteryLevelRequest_has_password obj) (GetBatteryLevelRequest_password obj)
       (GetBatteryLevelRequest_password_size obj) \<and>
     num_ok (GetBatteryLevelRequest_has_operation_id obj) (GetBatteryLevelRequest_operation_id obj)"

lemmas ig_GetBatteryLevelRequest_setters =
  ig_GetBatteryLevelRequest_set_operation_id_def
  ig_GetBatteryLevelRequest_set_password_nocopy_def

text \<open>A guarded setter, member by member.\<close>
lemma ig_GetBatteryLevelRequest_set_if:
  "(if g then ig_GetBatteryLevelRequest_set_operation_id v0 obj else obj) =
     obj\<lparr>GetBatteryLevelRequest_operation_id := pick g v0 (GetBatteryLevelRequest_operation_id obj),
       GetBatteryLevelRequest_has_operation_id := g \<or> GetBatteryLevelRequest_has_operation_id obj\<rparr>"
  by (simp_all add: ig_GetBatteryLevelRequest_setters pick_def)

lemma ig_GetBatteryLevelRequest_store:
  assumes ok: "ig_GetBatteryLevelRequest_ok obj"
  shows "store_fields ig_GetBatteryLevelRequest_cases (ig_GetBatteryLevelRequest_fields obj)
    ig_GetBatteryLevelRequest_init = Some obj"
proof -
  have h: "str_ok (GetBatteryLevelRequest_has_password obj) (GetBatteryLevelRequest_password obj)
    (GetBatteryLevelRequest_password_size obj)"
    "num_ok (GetBatteryLevelRequest_has_operation_id obj) (GetBatteryLevelRequest_operation_id obj)"
    and valid: "ig_GetBatteryLevelRequest_is_valid obj"
    using ok by (simp_all add: ig_GetBatteryLevelRequest_ok_def)
  show ?thesis
    using valid
    by (simp add: ig_GetBatteryLevelRequest_fields_def ig_GetBatteryLevelRequest_cases_def
      ig_GetBatteryLevelRequest_init_def codec_simps
        ig_GetBatteryLevelRequest_set_if ig_GetBatteryLevelRequest_setters split del: if_split)
       (simp add: ig_GetBatteryLevelRequest_is_valid_def
         str_ok_store [OF h(1)]
         num_ok_store [OF h(2)])
qed

lemma ig_GetBatteryLevelRequest_bound:
  assumes "ig_GetBatteryLevelRequest_ok obj"
  shows "2 + length (number_bytes 29 MtUnsigned) + fields_bound (ig_GetBatteryLevelRequest_fields obj)
    \<le> unat (ig_GetBatteryLevelRequest_get_max_payload_in_bytes obj)"
proof -
  have sizes: "GetBatteryLevelRequest_password_size obj < 2 ^ 24"
    using assms by (auto simp: ig_GetBatteryLevelRequest_ok_def dest!: str_ok_bound)
  show ?thesis
    using sizes number_bytes_size [of "GetBatteryLevelRequest_password_size obj" "0x40"]
      number_bytes_u32 [of "GetBatteryLevelRequest_operation_id obj" 0]
    by (simp add: ig_GetBatteryLevelRequest_fields_def
      ig_GetBatteryLevelRequest_get_max_payload_in_bytes_def number_bytes_literal
        unat_of_nat_small del: of_nat_add)
qed

interpretation GetBatteryLevelRequest_codec: ig_message ig_GetBatteryLevelRequest_encode
  ig_GetBatteryLevelRequest_decode
  ig_GetBatteryLevelRequest_get_max_payload_in_bytes ig_GetBatteryLevelRequest_is_valid
    ig_GetBatteryLevelRequest_init ig_GetBatteryLevelRequest_ok 29
  ig_GetBatteryLevelRequest_fields_size ig_GetBatteryLevelRequest_fields ig_GetBatteryLevelRequest_cases
  by (unfold_locales;
      (rule ig_GetBatteryLevelRequest_encode_def ig_GetBatteryLevelRequest_decode_def | erule
        ig_GetBatteryLevelRequest_store ig_GetBatteryLevelRequest_bound |
       auto simp: ig_GetBatteryLevelRequest_cases_def ig_GetBatteryLevelRequest_fields_def
         ig_GetBatteryLevelRequest_fields_size_def ig_GetBatteryLevelRequest_ok_def
         simp del: arg_block_ok.simps(1,2) intro: str_ok_block))

subsection \<open>GetBatteryLevelResponse\<close>

record IgGetBatteryLevelResponse =
  GetBatteryLevelResponse_has_result :: bool
  GetBatteryLevelResponse_result :: u8
  GetBatteryLevelResponse_has_battery_level :: bool
  GetBatteryLevelResponse_battery_level :: u32
  GetBatteryLevelResponse_has_operation_id :: bool
  GetBatteryLevelResponse_operation_id :: u32

definition ig_GetBatteryLevelResponse_init :: IgGetBatteryLevelResponse where
  "ig_GetBatteryLevelResponse_init =
     \<lparr>GetBatteryLevelResponse_has_result = False,
      GetBatteryLevelResponse_result = 0,
      GetBatteryLevelResponse_has_battery_level = False,
      GetBatteryLevelResponse_battery_level = 0,
      GetBatteryLevelResponse_has_operation_id = False,
      GetBatteryLevelResponse_operation_id = 0\<rparr>"

definition ig_GetBatteryLevelResponse_set_result :: "u8 \<Rightarrow> IgGetBatteryLevelResponse
  \<Rightarrow> IgGetBatteryLevelResponse" where
  "ig_GetBatteryLevelResponse_set_result v obj = obj\<lparr>GetBatteryLevelResponse_result := v,
    GetBatteryLevelResponse_has_result := True\<rparr>"

definition ig_GetBatteryLevelResponse_set_battery_level :: "u32 \<Rightarrow>
  IgGetBatteryLevelResponse \<Rightarrow> IgGetBatteryLevelResponse" where
  "ig_GetBatteryLevelResponse_set_battery_level v obj =
    obj\<lparr>GetBatteryLevelResponse_battery_level := v,
      GetBatteryLevelResponse_has_battery_level := True\<rparr>"

definition ig_GetBatteryLevelResponse_set_operation_id :: "u32 \<Rightarrow>
  IgGetBatteryLevelResponse \<Rightarrow> IgGetBatteryLevelResponse" where
  "ig_GetBatteryLevelResponse_set_operation_id v obj =
    obj\<lparr>GetBatteryLevelResponse_operation_id := v, GetBatteryLevelResponse_has_operation_id
      := True\<rparr>"

definition ig_GetBatteryLevelResponse_deinit :: "IgGetBatteryLevelResponse \<Rightarrow>
  IgGetBatteryLevelResponse" where
  "ig_GetBatteryLevelResponse_deinit obj = obj"

definition ig_GetBatteryLevelResponse_is_valid :: "IgGetBatteryLevelResponse \<Rightarrow> bool" where
  "ig_GetBatteryLevelResponse_is_valid obj \<longleftrightarrow> GetBatteryLevelResponse_has_result obj"

definition ig_GetBatteryLevelResponse_get_max_payload_in_bytes :: "IgGetBatteryLevelResponse
  \<Rightarrow> u32" where
  "ig_GetBatteryLevelResponse_get_max_payload_in_bytes obj = 28"

definition ig_GetBatteryLevelResponse_fields_size :: "IgGetBatteryLevelResponse \<Rightarrow> u64" where
  "ig_GetBatteryLevelResponse_fields_size obj = 1 + 1 + of_bool
    (GetBatteryLevelResponse_has_battery_level obj) + of_bool (GetBatteryLevelResponse_has_operation_id obj)"

definition ig_GetBatteryLevelResponse_fields :: "IgGetBatteryLevelResponse \<Rightarrow> enc_field list" where
  "ig_GetBatteryLevelResponse_fields obj =
    [(True, 11, AUint (ucast (GetBatteryLevelResponse_result obj))),
     (GetBatteryLevelResponse_has_battery_level obj, 12, AUint (ucast
       (GetBatteryLevelResponse_battery_level obj))),
     (GetBatteryLevelResponse_has_operation_id obj, 100, AUint (ucast
       (GetBatteryLevelResponse_operation_id obj)))]"

definition ig_GetBatteryLevelResponse_encode ::
  "IgGetBatteryLevelResponse \<Rightarrow> bytes \<Rightarrow> u32 \<Rightarrow> (nat \<times>
    bytes \<times> nat option) res" where
  "ig_GetBatteryLevelResponse_encode obj retval len =
     (if \<not> ig_GetBatteryLevelResponse_is_valid obj then Ok (IgSerializerErrorInvalidPayload,
       retval, None)
      else ig_encode (ig_GetBatteryLevelResponse_fields_size obj) 30
        (ig_GetBatteryLevelResponse_fields obj) retval len)"

definition ig_GetBatteryLevelResponse_cases :: "(i64 \<times> IgGetBatteryLevelResponse case_body) list" where
  "ig_GetBatteryLevelResponse_cases =
    [(0, CMsgId 30),
     (11, CUint (\<lambda>v. ig_GetBatteryLevelResponse_set_result (ucast v))),
     (12, CUint (\<lambda>v. ig_GetBatteryLevelResponse_set_battery_level (ucast v))),
     (100, CUint (\<lambda>v. ig_GetBatteryLevelResponse_set_operation_id (ucast v)))]"

definition ig_GetBatteryLevelResponse_decode :: "bytes \<Rightarrow> IgGetBatteryLevelResponse
  \<Rightarrow> nat \<Rightarrow> (nat \<times> IgGetBatteryLevelResponse) res" where
  "ig_GetBatteryLevelResponse_decode buf obj index = ig_decode ig_GetBatteryLevelResponse_cases buf obj index"

definition ig_GetBatteryLevelResponse_ok :: "IgGetBatteryLevelResponse \<Rightarrow> bool" where
  "ig_GetBatteryLevelResponse_ok obj \<longleftrightarrow> ig_GetBatteryLevelResponse_is_valid obj \<and>
     num_ok (GetBatteryLevelResponse_has_result obj) (GetBatteryLevelResponse_result obj) \<and>
     num_ok (GetBatteryLevelResponse_has_battery_level obj) (GetBatteryLevelResponse_battery_level obj) \<and>
     num_ok (GetBatteryLevelResponse_has_operation_id obj) (GetBatteryLevelResponse_operation_id obj)"

lemmas ig_GetBatteryLevelResponse_setters =
  ig_GetBatteryLevelResponse_set_battery_level_def
  ig_GetBatteryLevelResponse_set_operation_id_def
  ig_GetBatteryLevelResponse_set_result_def

text \<open>A guarded setter, member by member.\<close>
lemma ig_GetBatteryLevelResponse_set_if:
  "(if g then ig_GetBatteryLevelResponse_set_battery_level v0 obj else obj) =
     obj\<lparr>GetBatteryLevelResponse_battery_level := pick g v0
       (GetBatteryLevelResponse_battery_level obj),
       GetBatteryLevelResponse_has_battery_level := g \<or>
         GetBatteryLevelResponse_has_battery_level obj\<rparr>"
  "(if g then ig_GetBatteryLevelResponse_set_operation_id v1 obj else obj) =
     obj\<lparr>GetBatteryLevelResponse_operation_id := pick g v1 (GetBatteryLevelResponse_operation_id obj),
       GetBatteryLevelResponse_has_operation_id := g \<or> GetBatteryLevelResponse_has_operation_id
         obj\<rparr>"
  by (simp_all add: ig_GetBatteryLevelResponse_setters pick_def)

lemma ig_GetBatteryLevelResponse_store:
  assumes ok: "ig_GetBatteryLevelResponse_ok obj"
  shows "store_fields ig_GetBatteryLevelResponse_cases (ig_GetBatteryLevelResponse_fields obj)
    ig_GetBatteryLevelResponse_init = Some obj"
proof -
  have h: "num_ok (GetBatteryLevelResponse_has_result obj) (GetBatteryLevelResponse_result obj)"
    "num_ok (GetBatteryLevelResponse_has_battery_level obj) (GetBatteryLevelResponse_battery_level obj)"
    "num_ok (GetBatteryLevelResponse_has_operation_id obj) (GetBatteryLevelResponse_operation_id obj)"
    and valid: "ig_GetBatteryLevelResponse_is_valid obj"
    using ok by (simp_all add: ig_GetBatteryLevelResponse_ok_def)
  show ?thesis
    using valid
    by (simp add: ig_GetBatteryLevelResponse_fields_def ig_GetBatteryLevelResponse_cases_def
      ig_GetBatteryLevelResponse_init_def codec_simps
        ig_GetBatteryLevelResponse_set_if ig_GetBatteryLevelResponse_setters split del: if_split)
       (simp add: ig_GetBatteryLevelResponse_is_valid_def
         num_ok_store [OF h(1)]
         num_ok_store [OF h(2)]
         num_ok_store [OF h(3)])
qed

lemma ig_GetBatteryLevelResponse_bound:
  assumes "ig_GetBatteryLevelResponse_ok obj"
  shows "2 + length (number_bytes 30 MtUnsigned) + fields_bound (ig_GetBatteryLevelResponse_fields obj)
    \<le> unat (ig_GetBatteryLevelResponse_get_max_payload_in_bytes obj)"
  using number_bytes_u8 [of "GetBatteryLevelResponse_result obj" 0]
    number_bytes_u32 [of "GetBatteryLevelResponse_battery_level obj" 0]
    number_bytes_u32 [of "GetBatteryLevelResponse_operation_id obj" 0]
  by (simp add: ig_GetBatteryLevelResponse_fields_def
    ig_GetBatteryLevelResponse_get_max_payload_in_bytes_def number_bytes_literal)

interpretation GetBatteryLevelResponse_codec: ig_message ig_GetBatteryLevelResponse_encode
  ig_GetBatteryLevelResponse_decode
  ig_GetBatteryLevelResponse_get_max_payload_in_bytes ig_GetBatteryLevelResponse_is_valid
    ig_GetBatteryLevelResponse_init ig_GetBatteryLevelResponse_ok 30
  ig_GetBatteryLevelResponse_fields_size ig_GetBatteryLevelResponse_fields ig_GetBatteryLevelResponse_cases
  by (unfold_locales;
      (rule ig_GetBatteryLevelResponse_encode_def ig_GetBatteryLevelResponse_decode_def | erule
        ig_GetBatteryLevelResponse_store ig_GetBatteryLevelResponse_bound |
       auto simp: ig_GetBatteryLevelResponse_cases_def ig_GetBatteryLevelResponse_fields_def
         ig_GetBatteryLevelResponse_fields_size_def ig_GetBatteryLevelResponse_ok_def
         simp del: arg_block_ok.simps(1,2) intro: str_ok_block))

subsection \<open>EnableDfuRequest\<close>

record IgEnableDfuRequest =
  EnableDfuRequest_has_password :: bool
  EnableDfuRequest_password :: block_ptr
  EnableDfuRequest_password_size :: nat
  EnableDfuRequest_has_enable :: bool
  EnableDfuRequest_enable :: bool
  EnableDfuRequest_has_operation_id :: bool
  EnableDfuRequest_operation_id :: u32

definition ig_EnableDfuRequest_init :: IgEnableDfuRequest where
  "ig_EnableDfuRequest_init =
     \<lparr>EnableDfuRequest_has_password = False,
      EnableDfuRequest_password = None,
      EnableDfuRequest_password_size = 0,
      EnableDfuRequest_has_enable = False,
      EnableDfuRequest_enable = False,
      EnableDfuRequest_has_operation_id = False,
      EnableDfuRequest_operation_id = 0\<rparr>"

definition ig_EnableDfuRequest_get_password_size :: "IgEnableDfuRequest \<Rightarrow> nat" where
  "ig_EnableDfuRequest_get_password_size obj = EnableDfuRequest_password_size obj"

definition ig_EnableDfuRequest_set_password_nocopy ::
  "bool \<Rightarrow> block_ptr \<Rightarrow> nat \<Rightarrow> IgEnableDfuRequest \<Rightarrow>
    IgEnableDfuRequest" where
  "ig_EnableDfuRequest_set_password_nocopy same_ptr p n obj =
     (if same_ptr then obj
      else let obj = (if EnableDfuRequest_has_password obj then
        obj\<lparr>EnableDfuRequest_password := None\<rparr> else obj)
        in obj\<lparr>EnableDfuRequest_password := p, EnableDfuRequest_password_size := n,
          EnableDfuRequest_has_password := n > 0\<rparr>)"

definition ig_EnableDfuRequest_set_password ::
  "bool \<Rightarrow> block_ptr \<Rightarrow> nat \<Rightarrow> IgEnableDfuRequest \<Rightarrow>
    IgEnableDfuRequest res" where
  "ig_EnableDfuRequest_set_password same_ptr p n obj =
     (if same_ptr then Ok obj
      else let obj = (if EnableDfuRequest_has_password obj then
        obj\<lparr>EnableDfuRequest_password := None\<rparr> else obj)
        in bindR (block_read p n) (\<lambda>d.
          Ok (obj\<lparr>EnableDfuRequest_password := Some d, EnableDfuRequest_password_size := n,
            EnableDfuRequest_has_password := n > 0\<rparr>)))"

definition ig_EnableDfuRequest_set_enable :: "bool \<Rightarrow> IgEnableDfuRequest \<Rightarrow>
  IgEnableDfuRequest" where
  "ig_EnableDfuRequest_set_enable v obj = obj\<lparr>EnableDfuRequest_enable := v,
    EnableDfuRequest_has_enable := True\<rparr>"

definition ig_EnableDfuRequest_set_operation_id :: "u32 \<Rightarrow> IgEnableDfuRequest
  \<Rightarrow> IgEnableDfuRequest" where
  "ig_EnableDfuRequest_set_operation_id v obj = obj\<lparr>EnableDfuRequest_operation_id := v,
    EnableDfuRequest_has_operation_id := True\<rparr>"

definition ig_EnableDfuRequest_deinit :: "IgEnableDfuRequest \<Rightarrow> IgEnableDfuRequest" where
  "ig_EnableDfuRequest_deinit obj = (let
     obj = (if EnableDfuRequest_has_password obj then obj\<lparr>EnableDfuRequest_password :=
       None\<rparr> else obj)
   in obj)"

definition ig_EnableDfuRequest_is_valid :: "IgEnableDfuRequest \<Rightarrow> bool" where
  "ig_EnableDfuRequest_is_valid obj \<longleftrightarrow> EnableDfuRequest_has_password obj \<and>
    EnableDfuRequest_has_enable obj"

definition ig_EnableDfuRequest_get_max_payload_in_bytes :: "IgEnableDfuRequest \<Rightarrow> u32" where
  "ig_EnableDfuRequest_get_max_payload_in_bytes obj = word_of_nat (28 + EnableDfuRequest_password_size obj)"

definition ig_EnableDfuRequest_fields_size :: "IgEnableDfuRequest \<Rightarrow> u64" where
  "ig_EnableDfuRequest_fields_size obj = 1 + 2 + of_bool (EnableDfuRequest_has_operation_id obj)"

definition ig_EnableDfuRequest_fields :: "IgEnableDfuRequest \<Rightarrow> enc_field list" where
  "ig_EnableDfuRequest_fields obj =
    [(True, 11, ABytes (EnableDfuRequest_password obj) (EnableDfuRequest_password_size obj)),
     (True, 12, ABool (EnableDfuRequest_enable obj)),
     (EnableDfuRequest_has_operation_id obj, 100, AUint (ucast (EnableDfuRequest_operation_id obj)))]"

definition ig_EnableDfuRequest_encode ::
  "IgEnableDfuRequest \<Rightarrow> bytes \<Rightarrow> u32 \<Rightarrow> (nat \<times> bytes
    \<times> nat option) res" where
  "ig_EnableDfuRequest_encode obj retval len =
     (if \<not> ig_EnableDfuRequest_is_valid obj then Ok (IgSerializerErrorInvalidPayload, retval, None)
      else ig_encode (ig_EnableDfuRequest_fields_size obj) 61 (ig_EnableDfuRequest_fields obj) retval len)"

definition ig_EnableDfuRequest_cases :: "(i64 \<times> IgEnableDfuRequest case_body) list" where
  "ig_EnableDfuRequest_cases =
    [(0, CMsgId 61),
     (11, CBytes (ig_EnableDfuRequest_set_password_nocopy False)),
     (12, CBool ig_EnableDfuRequest_set_enable),
     (100, CUint (\<lambda>v. ig_EnableDfuRequest_set_operation_id (ucast v)))]"

definition ig_EnableDfuRequest_decode :: "bytes \<Rightarrow> IgEnableDfuRequest \<Rightarrow> nat
  \<Rightarrow> (nat \<times> IgEnableDfuRequest) res" where
  "ig_EnableDfuRequest_decode buf obj index = ig_decode ig_EnableDfuRequest_cases buf obj index"

definition ig_EnableDfuRequest_ok :: "IgEnableDfuRequest \<Rightarrow> bool" where
  "ig_EnableDfuRequest_ok obj \<longleftrightarrow> ig_EnableDfuRequest_is_valid obj \<and>
     str_ok (EnableDfuRequest_has_password obj) (EnableDfuRequest_password obj)
       (EnableDfuRequest_password_size obj) \<and>
     flag_ok (EnableDfuRequest_has_enable obj) (EnableDfuRequest_enable obj) \<and>
     num_ok (EnableDfuRequest_has_operation_id obj) (EnableDfuRequest_operation_id obj)"

lemmas ig_EnableDfuRequest_setters =
  ig_EnableDfuRequest_set_enable_def
  ig_EnableDfuRequest_set_operation_id_def
  ig_EnableDfuRequest_set_password_nocopy_def

text \<open>A guarded setter, member by member.\<close>
lemma ig_EnableDfuRequest_set_if:
  "(if g then ig_EnableDfuRequest_set_operation_id v0 obj else obj) =
     obj\<lparr>EnableDfuRequest_operation_id := pick g v0 (EnableDfuRequest_operation_id obj),
       EnableDfuRequest_has_operation_id := g \<or> EnableDfuRequest_has_operation_id obj\<rparr>"
  by (simp_all add: ig_EnableDfuRequest_setters pick_def)

lemma ig_EnableDfuRequest_store:
  assumes ok: "ig_EnableDfuRequest_ok obj"
  shows "store_fields ig_EnableDfuRequest_cases (ig_EnableDfuRequest_fields obj)
    ig_EnableDfuRequest_init = Some obj"
proof -
  have h: "str_ok (EnableDfuRequest_has_password obj) (EnableDfuRequest_password obj)
    (EnableDfuRequest_password_size obj)"
    "flag_ok (EnableDfuRequest_has_enable obj) (EnableDfuRequest_enable obj)"
    "num_ok (EnableDfuRequest_has_operation_id obj) (EnableDfuRequest_operation_id obj)"
    and valid: "ig_EnableDfuRequest_is_valid obj"
    using ok by (simp_all add: ig_EnableDfuRequest_ok_def)
  show ?thesis
    using valid
    by (simp add: ig_EnableDfuRequest_fields_def ig_EnableDfuRequest_cases_def
      ig_EnableDfuRequest_init_def codec_simps
        ig_EnableDfuRequest_set_if ig_EnableDfuRequest_setters split del: if_split)
       (simp add: ig_EnableDfuRequest_is_valid_def
         str_ok_store [OF h(1)]
         flag_ok_store [OF h(2)]
         num_ok_store [OF h(3)])
qed

lemma ig_EnableDfuRequest_bound:
  assumes "ig_EnableDfuRequest_ok obj"
  shows "2 + length (number_bytes 61 MtUnsigned) + fields_bound (ig_EnableDfuRequest_fields obj)
    \<le> unat (ig_EnableDfuRequest_get_max_payload_in_bytes obj)"
proof -
  have sizes: "EnableDfuRequest_password_size obj < 2 ^ 24"
    using assms by (auto simp: ig_EnableDfuRequest_ok_def dest!: str_ok_bound)
  show ?thesis
    using sizes number_bytes_size [of "EnableDfuRequest_password_size obj" "0x40"]
      number_bytes_u32 [of "EnableDfuRequest_operation_id obj" 0]
    by (simp add: ig_EnableDfuRequest_fields_def ig_EnableDfuRequest_get_max_payload_in_bytes_def
      number_bytes_literal
        unat_of_nat_small del: of_nat_add)
qed

interpretation EnableDfuRequest_codec: ig_message ig_EnableDfuRequest_encode ig_EnableDfuRequest_decode
  ig_EnableDfuRequest_get_max_payload_in_bytes ig_EnableDfuRequest_is_valid
    ig_EnableDfuRequest_init ig_EnableDfuRequest_ok 61
  ig_EnableDfuRequest_fields_size ig_EnableDfuRequest_fields ig_EnableDfuRequest_cases
  by (unfold_locales;
      (rule ig_EnableDfuRequest_encode_def ig_EnableDfuRequest_decode_def | erule
        ig_EnableDfuRequest_store ig_EnableDfuRequest_bound |
       auto simp: ig_EnableDfuRequest_cases_def ig_EnableDfuRequest_fields_def
         ig_EnableDfuRequest_fields_size_def ig_EnableDfuRequest_ok_def
         simp del: arg_block_ok.simps(1,2) intro: str_ok_block))

subsection \<open>EnableDfuResponse\<close>

record IgEnableDfuResponse =
  EnableDfuResponse_has_result :: bool
  EnableDfuResponse_result :: u8
  EnableDfuResponse_has_operation_id :: bool
  EnableDfuResponse_operation_id :: u32

definition ig_EnableDfuResponse_init :: IgEnableDfuResponse where
  "ig_EnableDfuResponse_init =
     \<lparr>EnableDfuResponse_has_result = False,
      EnableDfuResponse_result = 0,
      EnableDfuResponse_has_operation_id = False,
      EnableDfuResponse_operation_id = 0\<rparr>"

definition ig_EnableDfuResponse_set_result :: "u8 \<Rightarrow> IgEnableDfuResponse \<Rightarrow>
  IgEnableDfuResponse" where
  "ig_EnableDfuResponse_set_result v obj = obj\<lparr>EnableDfuResponse_result := v,
    EnableDfuResponse_has_result := True\<rparr>"

definition ig_EnableDfuResponse_set_operation_id :: "u32 \<Rightarrow> IgEnableDfuResponse
  \<Rightarrow> IgEnableDfuResponse" where
  "ig_EnableDfuResponse_set_operation_id v obj = obj\<lparr>EnableDfuResponse_operation_id := v,
    EnableDfuResponse_has_operation_id := True\<rparr>"

definition ig_EnableDfuResponse_deinit :: "IgEnableDfuResponse \<Rightarrow> IgEnableDfuResponse" where
  "ig_EnableDfuResponse_deinit obj = obj"

definition ig_EnableDfuResponse_is_valid :: "IgEnableDfuResponse \<Rightarrow> bool" where
  "ig_EnableDfuResponse_is_valid obj \<longleftrightarrow> EnableDfuResponse_has_result obj"

definition ig_EnableDfuResponse_get_max_payload_in_bytes :: "IgEnableDfuResponse \<Rightarrow> u32" where
  "ig_EnableDfuResponse_get_max_payload_in_bytes obj = 22"

definition ig_EnableDfuResponse_fields_size :: "IgEnableDfuResponse \<Rightarrow> u64" where
  "ig_EnableDfuResponse_fields_size obj = 1 + 1 + of_bool (EnableDfuResponse_has_operation_id obj)"

definition ig_EnableDfuResponse_fields :: "IgEnableDfuResponse \<Rightarrow> enc_field list" where
  "ig_EnableDfuResponse_fields obj =
    [(True, 11, AUint (ucast (EnableDfuResponse_result obj))),
     (EnableDfuResponse_has_operation_id obj, 100, AUint (ucast (EnableDfuResponse_operation_id obj)))]"

definition ig_EnableDfuResponse_encode ::
  "IgEnableDfuResponse \<Rightarrow> bytes \<Rightarrow> u32 \<Rightarrow> (nat \<times> bytes
    \<times> nat option) res" where
  "ig_EnableDfuResponse_encode obj retval len =
     (if \<not> ig_EnableDfuResponse_is_valid obj then Ok (IgSerializerErrorInvalidPayload, retval, None)
      else ig_encode (ig_EnableDfuResponse_fields_size obj) 62 (ig_EnableDfuResponse_fields obj) retval len)"

definition ig_EnableDfuResponse_cases :: "(i64 \<times> IgEnableDfuResponse case_body) list" where
  "ig_EnableDfuResponse_cases =
    [(0, CMsgId 62),
     (11, CUint (\<lambda>v. ig_EnableDfuResponse_set_result (ucast v))),
     (100, CUint (\<lambda>v. ig_EnableDfuResponse_set_operation_id (ucast v)))]"

definition ig_EnableDfuResponse_decode :: "bytes \<Rightarrow> IgEnableDfuResponse \<Rightarrow>
  nat \<Rightarrow> (nat \<times> IgEnableDfuResponse) res" where
  "ig_EnableDfuResponse_decode buf obj index = ig_decode ig_EnableDfuResponse_cases buf obj index"

definition ig_EnableDfuResponse_ok :: "IgEnableDfuResponse \<Rightarrow> bool" where
  "ig_EnableDfuResponse_ok obj \<longleftrightarrow> ig_EnableDfuResponse_is_valid obj \<and>
     num_ok (EnableDfuResponse_has_result obj) (EnableDfuResponse_result obj) \<and>
     num_ok (EnableDfuResponse_has_operation_id obj) (EnableDfuResponse_operation_id obj)"

lemmas ig_EnableDfuResponse_setters =
  ig_EnableDfuResponse_set_operation_id_def
  ig_EnableDfuResponse_set_result_def

text \<open>A guarded setter, member by member.\<close>
lemma ig_EnableDfuResponse_set_if:
  "(if g then ig_EnableDfuResponse_set_operation_id v0 obj else obj) =
     obj\<lparr>EnableDfuResponse_operation_id := pick g v0 (EnableDfuResponse_operation_id obj),
       EnableDfuResponse_has_operation_id := g \<or> EnableDfuResponse_has_operation_id obj\<rparr>"
  by (simp_all add: ig_EnableDfuResponse_setters pick_def)

lemma ig_EnableDfuResponse_store:
  assumes ok: "ig_EnableDfuResponse_ok obj"
  shows "store_fields ig_EnableDfuResponse_cases (ig_EnableDfuResponse_fields obj)
    ig_EnableDfuResponse_init = Some obj"
proof -
  have h: "num_ok (EnableDfuResponse_has_result obj) (EnableDfuResponse_result obj)"
    "num_ok (EnableDfuResponse_has_operation_id obj) (EnableDfuResponse_operation_id obj)"
    and valid: "ig_EnableDfuResponse_is_valid obj"
    using ok by (simp_all add: ig_EnableDfuResponse_ok_def)
  show ?thesis
    using valid
    by (simp add: ig_EnableDfuResponse_fields_def ig_EnableDfuResponse_cases_def
      ig_EnableDfuResponse_init_def codec_simps
        ig_EnableDfuResponse_set_if ig_EnableDfuResponse_setters split del: if_split)
       (simp add: ig_EnableDfuResponse_is_valid_def
         num_ok_store [OF h(1)]
         num_ok_store [OF h(2)])
qed

lemma ig_EnableDfuResponse_bound:
  assumes "ig_EnableDfuResponse_ok obj"
  shows "2 + length (number_bytes 62 MtUnsigned) + fields_bound (ig_EnableDfuResponse_fields obj)
    \<le> unat (ig_EnableDfuResponse_get_max_payload_in_bytes obj)"
  using number_bytes_u8 [of "EnableDfuResponse_result obj" 0]
    number_bytes_u32 [of "EnableDfuResponse_operation_id obj" 0]
  by (simp add: ig_EnableDfuResponse_fields_def ig_EnableDfuResponse_get_max_payload_in_bytes_def
    number_bytes_literal)

interpretation EnableDfuResponse_codec: ig_message ig_EnableDfuResponse_encode ig_EnableDfuResponse_decode
  ig_EnableDfuResponse_get_max_payload_in_bytes ig_EnableDfuResponse_is_valid
    ig_EnableDfuResponse_init ig_EnableDfuResponse_ok 62
  ig_EnableDfuResponse_fields_size ig_EnableDfuResponse_fields ig_EnableDfuResponse_cases
  by (unfold_locales;
      (rule ig_EnableDfuResponse_encode_def ig_EnableDfuResponse_decode_def | erule
        ig_EnableDfuResponse_store ig_EnableDfuResponse_bound |
       auto simp: ig_EnableDfuResponse_cases_def ig_EnableDfuResponse_fields_def
         ig_EnableDfuResponse_fields_size_def ig_EnableDfuResponse_ok_def
         simp del: arg_block_ok.simps(1,2) intro: str_ok_block))

subsection \<open>GetFirmwareVersionRequest\<close>

record IgGetFirmwareVersionRequest =
  GetFirmwareVersionRequest_has_password :: bool
  GetFirmwareVersionRequest_password :: block_ptr
  GetFirmwareVersionRequest_password_size :: nat
  GetFirmwareVersionRequest_has_operation_id :: bool
  GetFirmwareVersionRequest_operation_id :: u32

definition ig_GetFirmwareVersionRequest_init :: IgGetFirmwareVersionRequest where
  "ig_GetFirmwareVersionRequest_init =
     \<lparr>GetFirmwareVersionRequest_has_password = False,
      GetFirmwareVersionRequest_password = None,
      GetFirmwareVersionRequest_password_size = 0,
      GetFirmwareVersionRequest_has_operation_id = False,
      GetFirmwareVersionRequest_operation_id = 0\<rparr>"

definition ig_GetFirmwareVersionRequest_get_password_size :: "IgGetFirmwareVersionRequest
  \<Rightarrow> nat" where
  "ig_GetFirmwareVersionRequest_get_password_size obj = GetFirmwareVersionRequest_password_size obj"

definition ig_GetFirmwareVersionRequest_set_password_nocopy ::
  "bool \<Rightarrow> block_ptr \<Rightarrow> nat \<Rightarrow> IgGetFirmwareVersionRequest
    \<Rightarrow> IgGetFirmwareVersionRequest" where
  "ig_GetFirmwareVersionRequest_set_password_nocopy same_ptr p n obj =
     (if same_ptr then obj
      else let obj = (if GetFirmwareVersionRequest_has_password obj then
        obj\<lparr>GetFirmwareVersionRequest_password := None\<rparr> else obj)
        in obj\<lparr>GetFirmwareVersionRequest_password := p,
          GetFirmwareVersionRequest_password_size := n, GetFirmwareVersionRequest_has_password := n
            > 0\<rparr>)"

definition ig_GetFirmwareVersionRequest_set_password ::
  "bool \<Rightarrow> block_ptr \<Rightarrow> nat \<Rightarrow> IgGetFirmwareVersionRequest
    \<Rightarrow> IgGetFirmwareVersionRequest res" where
  "ig_GetFirmwareVersionRequest_set_password same_ptr p n obj =
     (if same_ptr then Ok obj
      else let obj = (if GetFirmwareVersionRequest_has_password obj then
        obj\<lparr>GetFirmwareVersionRequest_password := None\<rparr> else obj)
        in bindR (block_read p n) (\<lambda>d.
          Ok (obj\<lparr>GetFirmwareVersionRequest_password := Some d,
            GetFirmwareVersionRequest_password_size := n, GetFirmwareVersionRequest_has_password :=
              n > 0\<rparr>)))"

definition ig_GetFirmwareVersionRequest_set_operation_id :: "u32 \<Rightarrow>
  IgGetFirmwareVersionRequest \<Rightarrow> IgGetFirmwareVersionRequest" where
  "ig_GetFirmwareVersionRequest_set_operation_id v obj =
    obj\<lparr>GetFirmwareVersionRequest_operation_id := v,
      GetFirmwareVersionRequest_has_operation_id := True\<rparr>"

definition ig_GetFirmwareVersionRequest_deinit :: "IgGetFirmwareVersionRequest \<Rightarrow>
  IgGetFirmwareVersionRequest" where
  "ig_GetFirmwareVersionRequest_deinit obj = (let
     obj = (if GetFirmwareVersionRequest_has_password obj then
       obj\<lparr>GetFirmwareVersionRequest_password := None\<rparr> else obj)
   in obj)"

definition ig_GetFirmwareVersionRequest_is_valid :: "IgGetFirmwareVersionRequest \<Rightarrow> bool" where
  "ig_GetFirmwareVersionRequest_is_valid obj \<longleftrightarrow> True"

definition ig_GetFirmwareVersionRequest_get_max_payload_in_bytes :: "IgGetFirmwareVersionRequest
  \<Rightarrow> u32" where
  "ig_GetFirmwareVersionRequest_get_max_payload_in_bytes obj = word_of_nat (26 +
    GetFirmwareVersionRequest_password_size obj)"

definition ig_GetFirmwareVersionRequest_fields_size :: "IgGetFirmwareVersionRequest \<Rightarrow> u64" where
  "ig_GetFirmwareVersionRequest_fields_size obj = 1 + 0 + of_bool
    (GetFirmwareVersionRequest_has_password obj) + of_bool (GetFirmwareVersionRequest_has_operation_id obj)"

definition ig_GetFirmwareVersionRequest_fields :: "IgGetFirmwareVersionRequest \<Rightarrow>
  enc_field list" where
  "ig_GetFirmwareVersionRequest_fields obj =
    [(GetFirmwareVersionRequest_has_password obj, 11, ABytes (GetFirmwareVersionRequest_password
      obj) (GetFirmwareVersionRequest_password_size obj)),
     (GetFirmwareVersionRequest_has_operation_id obj, 100, AUint (ucast
       (GetFirmwareVersionRequest_operation_id obj)))]"

definition ig_GetFirmwareVersionRequest_encode ::
  "IgGetFirmwareVersionRequest \<Rightarrow> bytes \<Rightarrow> u32 \<Rightarrow> (nat \<times>
    bytes \<times> nat option) res" where
  "ig_GetFirmwareVersionRequest_encode obj retval len =
     (if \<not> ig_GetFirmwareVersionRequest_is_valid obj then Ok (IgSerializerErrorInvalidPayload,
       retval, None)
      else ig_encode (ig_GetFirmwareVersionRequest_fields_size obj) 87
        (ig_GetFirmwareVersionRequest_fields obj) retval len)"

definition ig_GetFirmwareVersionRequest_cases :: "(i64 \<times> IgGetFirmwareVersionRequest
  case_body) list" where
  "ig_GetFirmwareVersionRequest_cases =
    [(0, CMsgId 87),
     (11, CBytes (ig_GetFirmwareVersionRequest_set_password_nocopy False)),
     (100, CUint (\<lambda>v. ig_GetFirmwareVersionRequest_set_operation_id (ucast v)))]"

definition ig_GetFirmwareVersionRequest_decode :: "bytes \<Rightarrow> IgGetFirmwareVersionRequest
  \<Rightarrow> nat \<Rightarrow> (nat \<times> IgGetFirmwareVersionRequest) res" where
  "ig_GetFirmwareVersionRequest_decode buf obj index = ig_decode ig_GetFirmwareVersionRequest_cases
    buf obj index"

definition ig_GetFirmwareVersionRequest_ok :: "IgGetFirmwareVersionRequest \<Rightarrow> bool" where
  "ig_GetFirmwareVersionRequest_ok obj \<longleftrightarrow> ig_GetFirmwareVersionRequest_is_valid obj \<and>
     str_ok (GetFirmwareVersionRequest_has_password obj) (GetFirmwareVersionRequest_password obj)
       (GetFirmwareVersionRequest_password_size obj) \<and>
     num_ok (GetFirmwareVersionRequest_has_operation_id obj) (GetFirmwareVersionRequest_operation_id obj)"

lemmas ig_GetFirmwareVersionRequest_setters =
  ig_GetFirmwareVersionRequest_set_operation_id_def
  ig_GetFirmwareVersionRequest_set_password_nocopy_def

text \<open>A guarded setter, member by member.\<close>
lemma ig_GetFirmwareVersionRequest_set_if:
  "(if g then ig_GetFirmwareVersionRequest_set_password_nocopy False p n obj else obj) =
     obj\<lparr>GetFirmwareVersionRequest_password := pick g p (GetFirmwareVersionRequest_password obj),
       GetFirmwareVersionRequest_password_size := pick g n (GetFirmwareVersionRequest_password_size obj),
       GetFirmwareVersionRequest_has_password := pick g (n > 0)
         (GetFirmwareVersionRequest_has_password obj)\<rparr>"
  "(if g then ig_GetFirmwareVersionRequest_set_operation_id v1 obj else obj) =
     obj\<lparr>GetFirmwareVersionRequest_operation_id := pick g v1
       (GetFirmwareVersionRequest_operation_id obj),
       GetFirmwareVersionRequest_has_operation_id := g \<or>
         GetFirmwareVersionRequest_has_operation_id obj\<rparr>"
  by (simp_all add: ig_GetFirmwareVersionRequest_setters pick_def)

lemma ig_GetFirmwareVersionRequest_store:
  assumes ok: "ig_GetFirmwareVersionRequest_ok obj"
  shows "store_fields ig_GetFirmwareVersionRequest_cases (ig_GetFirmwareVersionRequest_fields obj)
    ig_GetFirmwareVersionRequest_init = Some obj"
proof -
  have h: "str_ok (GetFirmwareVersionRequest_has_password obj) (GetFirmwareVersionRequest_password
    obj) (GetFirmwareVersionRequest_password_size obj)"
    "num_ok (GetFirmwareVersionRequest_has_operation_id obj) (GetFirmwareVersionRequest_operation_id obj)"
    and valid: "ig_GetFirmwareVersionRequest_is_valid obj"
    using ok by (simp_all add: ig_GetFirmwareVersionRequest_ok_def)
  show ?thesis
    using valid
    by (simp add: ig_GetFirmwareVersionRequest_fields_def ig_GetFirmwareVersionRequest_cases_def
      ig_GetFirmwareVersionRequest_init_def codec_simps
        ig_GetFirmwareVersionRequest_set_if ig_GetFirmwareVersionRequest_setters split del: if_split)
       (simp add: ig_GetFirmwareVersionRequest_is_valid_def
         str_ok_store [OF h(1)]
         num_ok_store [OF h(2)])
qed

lemma ig_GetFirmwareVersionRequest_bound:
  assumes "ig_GetFirmwareVersionRequest_ok obj"
  shows "2 + length (number_bytes 87 MtUnsigned) + fields_bound (ig_GetFirmwareVersionRequest_fields obj)
    \<le> unat (ig_GetFirmwareVersionRequest_get_max_payload_in_bytes obj)"
proof -
  have sizes: "GetFirmwareVersionRequest_password_size obj < 2 ^ 24"
    using assms by (auto simp: ig_GetFirmwareVersionRequest_ok_def dest!: str_ok_bound)
  show ?thesis
    using sizes number_bytes_size [of "GetFirmwareVersionRequest_password_size obj" "0x40"]
      number_bytes_u32 [of "GetFirmwareVersionRequest_operation_id obj" 0]
    by (simp add: ig_GetFirmwareVersionRequest_fields_def
      ig_GetFirmwareVersionRequest_get_max_payload_in_bytes_def number_bytes_literal
        unat_of_nat_small del: of_nat_add)
qed

interpretation GetFirmwareVersionRequest_codec: ig_message ig_GetFirmwareVersionRequest_encode
  ig_GetFirmwareVersionRequest_decode
  ig_GetFirmwareVersionRequest_get_max_payload_in_bytes ig_GetFirmwareVersionRequest_is_valid
    ig_GetFirmwareVersionRequest_init ig_GetFirmwareVersionRequest_ok 87
  ig_GetFirmwareVersionRequest_fields_size ig_GetFirmwareVersionRequest_fields
    ig_GetFirmwareVersionRequest_cases
  by (unfold_locales;
      (rule ig_GetFirmwareVersionRequest_encode_def ig_GetFirmwareVersionRequest_decode_def | erule
        ig_GetFirmwareVersionRequest_store ig_GetFirmwareVersionRequest_bound |
       auto simp: ig_GetFirmwareVersionRequest_cases_def ig_GetFirmwareVersionRequest_fields_def
         ig_GetFirmwareVersionRequest_fields_size_def ig_GetFirmwareVersionRequest_ok_def
         simp del: arg_block_ok.simps(1,2) intro: str_ok_block))

subsection \<open>GetFirmwareVersionResponse\<close>

record IgGetFirmwareVersionResponse =
  GetFirmwareVersionResponse_has_result :: bool
  GetFirmwareVersionResponse_result :: u8
  GetFirmwareVersionResponse_has_version :: bool
  GetFirmwareVersionResponse_version :: block_ptr
  GetFirmwareVersionResponse_version_size :: nat
  GetFirmwareVersionResponse_has_operation_id :: bool
  GetFirmwareVersionResponse_operation_id :: u32

definition ig_GetFirmwareVersionResponse_init :: IgGetFirmwareVersionResponse where
  "ig_GetFirmwareVersionResponse_init =
     \<lparr>GetFirmwareVersionResponse_has_result = False,
      GetFirmwareVersionResponse_result = 0,
      GetFirmwareVersionResponse_has_version = False,
      GetFirmwareVersionResponse_version = None,
      GetFirmwareVersionResponse_version_size = 0,
      GetFirmwareVersionResponse_has_operation_id = False,
      GetFirmwareVersionResponse_operation_id = 0\<rparr>"

definition ig_GetFirmwareVersionResponse_set_result :: "u8 \<Rightarrow>
  IgGetFirmwareVersionResponse \<Rightarrow> IgGetFirmwareVersionResponse" where
  "ig_GetFirmwareVersionResponse_set_result v obj = obj\<lparr>GetFirmwareVersionResponse_result :=
    v, GetFirmwareVersionResponse_has_result := True\<rparr>"

definition ig_GetFirmwareVersionResponse_get_version_size :: "IgGetFirmwareVersionResponse
  \<Rightarrow> nat" where
  "ig_GetFirmwareVersionResponse_get_version_size obj = GetFirmwareVersionResponse_version_size obj"

definition ig_GetFirmwareVersionResponse_set_version_nocopy ::
  "bool \<Rightarrow> block_ptr \<Rightarrow> nat \<Rightarrow> IgGetFirmwareVersionResponse
    \<Rightarrow> IgGetFirmwareVersionResponse" where
  "ig_GetFirmwareVersionResponse_set_version_nocopy same_ptr p n obj =
     (if same_ptr then obj
      else let obj = (if GetFirmwareVersionResponse_has_version obj then
        obj\<lparr>GetFirmwareVersionResponse_version := None\<rparr> else obj)
        in obj\<lparr>GetFirmwareVersionResponse_version := p,
          GetFirmwareVersionResponse_version_size := n, GetFirmwareVersionResponse_has_version := n
            > 0\<rparr>)"

definition ig_GetFirmwareVersionResponse_set_version ::
  "bool \<Rightarrow> block_ptr \<Rightarrow> nat \<Rightarrow> IgGetFirmwareVersionResponse
    \<Rightarrow> IgGetFirmwareVersionResponse res" where
  "ig_GetFirmwareVersionResponse_set_version same_ptr p n obj =
     (if same_ptr then Ok obj
      else let obj = (if GetFirmwareVersionResponse_has_version obj then
        obj\<lparr>GetFirmwareVersionResponse_version := None\<rparr> else obj)
        in bindR (block_read p n) (\<lambda>d.
          Ok (obj\<lparr>GetFirmwareVersionResponse_version := Some d,
            GetFirmwareVersionResponse_version_size := n, GetFirmwareVersionResponse_has_version :=
              n > 0\<rparr>)))"

definition ig_GetFirmwareVersionResponse_set_operation_id :: "u32 \<Rightarrow>
  IgGetFirmwareVersionResponse \<Rightarrow> IgGetFirmwareVersionResponse" where
  "ig_GetFirmwareVersionResponse_set_operation_id v obj =
    obj\<lparr>GetFirmwareVersionResponse_operation_id := v,
      GetFirmwareVersionResponse_has_operation_id := True\<rparr>"

definition ig_GetFirmwareVersionResponse_deinit :: "IgGetFirmwareVersionResponse \<Rightarrow>
  IgGetFirmwareVersionResponse" where
  "ig_GetFirmwareVersionResponse_deinit obj = (let
     obj = (if GetFirmwareVersionResponse_has_version obj then
       obj\<lparr>GetFirmwareVersionResponse_version := None\<rparr> else obj)
   in obj)"

definition ig_GetFirmwareVersionResponse_is_valid :: "IgGetFirmwareVersionResponse \<Rightarrow> bool" where
  "ig_GetFirmwareVersionResponse_is_valid obj \<longleftrightarrow> True"

definition ig_GetFirmwareVersionResponse_get_max_payload_in_bytes :: "IgGetFirmwareVersionResponse
  \<Rightarrow> u32" where
  "ig_GetFirmwareVersionResponse_get_max_payload_in_bytes obj = word_of_nat (29 +
    GetFirmwareVersionResponse_version_size obj)"

definition ig_GetFirmwareVersionResponse_fields_size :: "IgGetFirmwareVersionResponse \<Rightarrow> u64" where
  "ig_GetFirmwareVersionResponse_fields_size obj = 1 + 0 + of_bool
    (GetFirmwareVersionResponse_has_result obj) + of_bool (GetFirmwareVersionResponse_has_version
      obj) + of_bool (GetFirmwareVersionResponse_has_operation_id obj)"

definition ig_GetFirmwareVersionResponse_fields :: "IgGetFirmwareVersionResponse \<Rightarrow>
  enc_field list" where
  "ig_GetFirmwareVersionResponse_fields obj =
    [(GetFirmwareVersionResponse_has_result obj, 11, AUint (ucast (GetFirmwareVersionResponse_result obj))),
     (GetFirmwareVersionResponse_has_version obj, 12, ABytes (GetFirmwareVersionResponse_version
       obj) (GetFirmwareVersionResponse_version_size obj)),
     (GetFirmwareVersionResponse_has_operation_id obj, 100, AUint (ucast
       (GetFirmwareVersionResponse_operation_id obj)))]"

definition ig_GetFirmwareVersionResponse_encode ::
  "IgGetFirmwareVersionResponse \<Rightarrow> bytes \<Rightarrow> u32 \<Rightarrow> (nat \<times>
    bytes \<times> nat option) res" where
  "ig_GetFirmwareVersionResponse_encode obj retval len =
     (if \<not> ig_GetFirmwareVersionResponse_is_valid obj then Ok
       (IgSerializerErrorInvalidPayload, retval, None)
      else ig_encode (ig_GetFirmwareVersionResponse_fields_size obj) 88
        (ig_GetFirmwareVersionResponse_fields obj) retval len)"

definition ig_GetFirmwareVersionResponse_cases :: "(i64 \<times> IgGetFirmwareVersionResponse
  case_body) list" where
  "ig_GetFirmwareVersionResponse_cases =
    [(0, CMsgId 88),
     (11, CUint (\<lambda>v. ig_GetFirmwareVersionResponse_set_result (ucast v))),
     (12, CBytes (ig_GetFirmwareVersionResponse_set_version_nocopy False)),
     (100, CUint (\<lambda>v. ig_GetFirmwareVersionResponse_set_operation_id (ucast v)))]"

definition ig_GetFirmwareVersionResponse_decode :: "bytes \<Rightarrow>
  IgGetFirmwareVersionResponse \<Rightarrow> nat \<Rightarrow> (nat \<times>
    IgGetFirmwareVersionResponse) res" where
  "ig_GetFirmwareVersionResponse_decode buf obj index = ig_decode
    ig_GetFirmwareVersionResponse_cases buf obj index"

definition ig_GetFirmwareVersionResponse_ok :: "IgGetFirmwareVersionResponse \<Rightarrow> bool" where
  "ig_GetFirmwareVersionResponse_ok obj \<longleftrightarrow>
    ig_GetFirmwareVersionResponse_is_valid obj \<and>
     num_ok (GetFirmwareVersionResponse_has_result obj) (GetFirmwareVersionResponse_result obj) \<and>
     str_ok (GetFirmwareVersionResponse_has_version obj) (GetFirmwareVersionResponse_version obj)
       (GetFirmwareVersionResponse_version_size obj) \<and>
     num_ok (GetFirmwareVersionResponse_has_operation_id obj) (GetFirmwareVersionResponse_operation_id obj)"

lemmas ig_GetFirmwareVersionResponse_setters =
  ig_GetFirmwareVersionResponse_set_operation_id_def
  ig_GetFirmwareVersionResponse_set_result_def
  ig_GetFirmwareVersionResponse_set_version_nocopy_def

text \<open>A guarded setter, member by member.\<close>
lemma ig_GetFirmwareVersionResponse_set_if:
  "(if g then ig_GetFirmwareVersionResponse_set_result v0 obj else obj) =
     obj\<lparr>GetFirmwareVersionResponse_result := pick g v0 (GetFirmwareVersionResponse_result obj),
       GetFirmwareVersionResponse_has_result := g \<or> GetFirmwareVersionResponse_has_result obj\<rparr>"
  "(if g then ig_GetFirmwareVersionResponse_set_version_nocopy False p n obj else obj) =
     obj\<lparr>GetFirmwareVersionResponse_version := pick g p (GetFirmwareVersionResponse_version obj),
       GetFirmwareVersionResponse_version_size := pick g n (GetFirmwareVersionResponse_version_size obj),
       GetFirmwareVersionResponse_has_version := pick g (n > 0)
         (GetFirmwareVersionResponse_has_version obj)\<rparr>"
  "(if g then ig_GetFirmwareVersionResponse_set_operation_id v2 obj else obj) =
     obj\<lparr>GetFirmwareVersionResponse_operation_id := pick g v2
       (GetFirmwareVersionResponse_operation_id obj),
       GetFirmwareVersionResponse_has_operation_id := g \<or>
         GetFirmwareVersionResponse_has_operation_id obj\<rparr>"
  by (simp_all add: ig_GetFirmwareVersionResponse_setters pick_def)

lemma ig_GetFirmwareVersionResponse_store:
  assumes ok: "ig_GetFirmwareVersionResponse_ok obj"
  shows "store_fields ig_GetFirmwareVersionResponse_cases (ig_GetFirmwareVersionResponse_fields
    obj) ig_GetFirmwareVersionResponse_init = Some obj"
proof -
  have h: "num_ok (GetFirmwareVersionResponse_has_result obj) (GetFirmwareVersionResponse_result obj)"
    "str_ok (GetFirmwareVersionResponse_has_version obj) (GetFirmwareVersionResponse_version obj)
      (GetFirmwareVersionResponse_version_size obj)"
    "num_ok (GetFirmwareVersionResponse_has_operation_id obj) (GetFirmwareVersionResponse_operation_id obj)"
    and valid: "ig_GetFirmwareVersionResponse_is_valid obj"
    using ok by (simp_all add: ig_GetFirmwareVersionResponse_ok_def)
  show ?thesis
    using valid
    by (simp add: ig_GetFirmwareVersionResponse_fields_def ig_GetFirmwareVersionResponse_cases_def
      ig_GetFirmwareVersionResponse_init_def codec_simps
        ig_GetFirmwareVersionResponse_set_if ig_GetFirmwareVersionResponse_setters split del: if_split)
       (simp add: ig_GetFirmwareVersionResponse_is_valid_def
         num_ok_store [OF h(1)]
         str_ok_store [OF h(2)]
         num_ok_store [OF h(3)])
qed

lemma ig_GetFirmwareVersionResponse_bound:
  assumes "ig_GetFirmwareVersionResponse_ok obj"
  shows "2 + length (number_bytes 88 MtUnsigned) + fields_bound (ig_GetFirmwareVersionResponse_fields obj)
    \<le> unat (ig_GetFirmwareVersionResponse_get_max_payload_in_bytes obj)"
proof -
  have sizes: "GetFirmwareVersionResponse_version_size obj < 2 ^ 24"
    using assms by (auto simp: ig_GetFirmwareVersionResponse_ok_def dest!: str_ok_bound)
  show ?thesis
    using sizes number_bytes_u8 [of "GetFirmwareVersionResponse_result obj" 0]
      number_bytes_size [of "GetFirmwareVersionResponse_version_size obj" "0x40"]
      number_bytes_u32 [of "GetFirmwareVersionResponse_operation_id obj" 0]
    by (simp add: ig_GetFirmwareVersionResponse_fields_def
      ig_GetFirmwareVersionResponse_get_max_payload_in_bytes_def number_bytes_literal
        unat_of_nat_small del: of_nat_add)
qed

interpretation GetFirmwareVersionResponse_codec: ig_message ig_GetFirmwareVersionResponse_encode
  ig_GetFirmwareVersionResponse_decode
  ig_GetFirmwareVersionResponse_get_max_payload_in_bytes ig_GetFirmwareVersionResponse_is_valid
    ig_GetFirmwareVersionResponse_init ig_GetFirmwareVersionResponse_ok 88
  ig_GetFirmwareVersionResponse_fields_size ig_GetFirmwareVersionResponse_fields
    ig_GetFirmwareVersionResponse_cases
  by (unfold_locales;
      (rule ig_GetFirmwareVersionResponse_encode_def ig_GetFirmwareVersionResponse_decode_def |
        erule ig_GetFirmwareVersionResponse_store ig_GetFirmwareVersionResponse_bound |
       auto simp: ig_GetFirmwareVersionResponse_cases_def ig_GetFirmwareVersionResponse_fields_def
         ig_GetFirmwareVersionResponse_fields_size_def ig_GetFirmwareVersionResponse_ok_def
         simp del: arg_block_ok.simps(1,2) intro: str_ok_block))

end
