(* ===== verification/Messages_Bridge.thy ===== *)
theory Messages_Bridge
  imports Ig_Interface
begin

text \<open>
  The files of \<open>lock/messages/\<close> for messages between the bridge, its locks and its
    networks.  Per message \<open>X\<close>: the struct (\<open>IgX\<close>, members prefixed
  with the message name), \<open>ig_X_init\<close>, the setters, \<open>ig_X_deinit\<close>,
    \<open>ig_X_is_valid\<close>,
  \<open>ig_X_get_max_payload_in_bytes\<close>, the encoder with its list of key/value writes
  (\<open>ig_X_fields\<close>) and the decoder with its list of cases (\<open>ig_X_cases\<close>). 
    The argument
  \<open>same_ptr\<close> of a string setter is the pointer comparison it starts with; the decoders pass
  \<open>False\<close>, their block is fresh.  \<open>ig_X_ok\<close> describes the objects
    \<open>init\<close> and the setters
  build, and the interpretation of \<open>ig_message\<close> proves the file a codec.
\<close>

subsection \<open>AddLockRequest\<close>

record IgAddLockRequest =
  AddLockRequest_has_password :: bool
  AddLockRequest_password :: block_ptr
  AddLockRequest_password_size :: nat
  AddLockRequest_has_lock_id :: bool
  AddLockRequest_lock_id :: block_ptr
  AddLockRequest_lock_id_size :: nat
  AddLockRequest_has_guest_aes_key :: bool
  AddLockRequest_guest_aes_key :: block_ptr
  AddLockRequest_guest_aes_key_size :: nat
  AddLockRequest_has_guest_token :: bool
  AddLockRequest_guest_token :: block_ptr
  AddLockRequest_guest_token_size :: nat
  AddLockRequest_has_lock_password :: bool
  AddLockRequest_lock_password :: block_ptr
  AddLockRequest_lock_password_size :: nat
  AddLockRequest_has_operation_id :: bool
  AddLockRequest_operation_id :: u32

definition ig_AddLockRequest_init :: IgAddLockRequest where
  "ig_AddLockRequest_init =
     \<lparr>AddLockRequest_has_password = False,
      AddLockRequest_password = None,
      AddLockRequest_password_size = 0,
      AddLockRequest_has_lock_id = False,
      AddLockRequest_lock_id = None,
      AddLockRequest_lock_id_size = 0,
      AddLockRequest_has_guest_aes_key = False,
      AddLockRequest_guest_aes_key = None,
      AddLockRequest_guest_aes_key_size = 0,
      AddLockRequest_has_guest_token = False,
      AddLockRequest_guest_token = None,
      AddLockRequest_guest_token_size = 0,
      AddLockRequest_has_lock_password = False,
      AddLockRequest_lock_password = None,
      AddLockRequest_lock_password_size = 0,
      AddLockRequest_has_operation_id = False,
      AddLockRequest_operation_id = 0\<rparr>"

definition ig_AddLockRequest_get_password_size :: "IgAddLockRequest \<Rightarrow> nat" where
  "ig_AddLockRequest_get_password_size obj = AddLockRequest_password_size obj"

definition ig_AddLockRequest_set_password_nocopy ::
  "bool \<Rightarrow> block_ptr \<Rightarrow> nat \<Rightarrow> IgAddLockRequest \<Rightarrow>
    IgAddLockRequest" where
  "ig_AddLockRequest_set_password_nocopy same_ptr p n obj =
     (if same_ptr then obj
      else let obj = (if AddLockRequest_has_password obj then obj\<lparr>AddLockRequest_password :=
        None\<rparr> else obj)
        in obj\<lparr>AddLockRequest_password := p, AddLockRequest_password_size := n,
          AddLockRequest_has_password := n > 0\<rparr>)"

definition ig_AddLockRequest_set_password ::
  "bool \<Rightarrow> block_ptr \<Rightarrow> nat \<Rightarrow> IgAddLockRequest \<Rightarrow>
    IgAddLockRequest res" where
  "ig_AddLockRequest_set_password same_ptr p n obj =
     (if same_ptr then Ok obj
      else let obj = (if AddLockRequest_has_password obj then obj\<lparr>AddLockRequest_password :=
        None\<rparr> else obj)
        in bindR (block_read p n) (\<lambda>d.
          Ok (obj\<lparr>AddLockRequest_password := Some d, AddLockRequest_password_size := n,
            AddLockRequest_has_password := n > 0\<rparr>)))"

definition ig_AddLockRequest_get_lock_id_size :: "IgAddLockRequest \<Rightarrow> nat" where
  "ig_AddLockRequest_get_lock_id_size obj = AddLockRequest_lock_id_size obj"

definition ig_AddLockRequest_set_lock_id_nocopy ::
  "bool \<Rightarrow> block_ptr \<Rightarrow> nat \<Rightarrow> IgAddLockRequest \<Rightarrow>
    IgAddLockRequest" where
  "ig_AddLockRequest_set_lock_id_nocopy same_ptr p n obj =
     (if same_ptr then obj
      else let obj = (if AddLockRequest_has_lock_id obj then obj\<lparr>AddLockRequest_lock_id :=
        None\<rparr> else obj)
        in obj\<lparr>AddLockRequest_lock_id := p, AddLockRequest_lock_id_size := n,
          AddLockRequest_has_lock_id := n > 0\<rparr>)"

definition ig_AddLockRequest_set_lock_id ::
  "bool \<Rightarrow> block_ptr \<Rightarrow> nat \<Rightarrow> IgAddLockRequest \<Rightarrow>
    IgAddLockRequest res" where
  "ig_AddLockRequest_set_lock_id same_ptr p n obj =
     (if same_ptr then Ok obj
      else let obj = (if AddLockRequest_has_lock_id obj then obj\<lparr>AddLockRequest_lock_id :=
        None\<rparr> else obj)
        in bindR (block_read p n) (\<lambda>d.
          Ok (obj\<lparr>AddLockRequest_lock_id := Some d, AddLockRequest_lock_id_size := n,
            AddLockRequest_has_lock_id := n > 0\<rparr>)))"

definition ig_AddLockRequest_get_guest_aes_key_size :: "IgAddLockRequest \<Rightarrow> nat" where
  "ig_AddLockRequest_get_guest_aes_key_size obj = AddLockRequest_guest_aes_key_size obj"

definition ig_AddLockRequest_set_guest_aes_key_nocopy ::
  "bool \<Rightarrow> block_ptr \<Rightarrow> nat \<Rightarrow> IgAddLockRequest \<Rightarrow>
    IgAddLockRequest" where
  "ig_AddLockRequest_set_guest_aes_key_nocopy same_ptr p n obj =
     (if same_ptr then obj
      else let obj = (if AddLockRequest_has_guest_aes_key obj then
        obj\<lparr>AddLockRequest_guest_aes_key := None\<rparr> else obj)
        in obj\<lparr>AddLockRequest_guest_aes_key := p, AddLockRequest_guest_aes_key_size := n,
          AddLockRequest_has_guest_aes_key := n > 0\<rparr>)"

definition ig_AddLockRequest_set_guest_aes_key ::
  "bool \<Rightarrow> block_ptr \<Rightarrow> nat \<Rightarrow> IgAddLockRequest \<Rightarrow>
    IgAddLockRequest res" where
  "ig_AddLockRequest_set_guest_aes_key same_ptr p n obj =
     (if same_ptr then Ok obj
      else let obj = (if AddLockRequest_has_guest_aes_key obj then
        obj\<lparr>AddLockRequest_guest_aes_key := None\<rparr> else obj)
        in bindR (block_read p n) (\<lambda>d.
          Ok (obj\<lparr>AddLockRequest_guest_aes_key := Some d, AddLockRequest_guest_aes_key_size
            := n, AddLockRequest_has_guest_aes_key := n > 0\<rparr>)))"

definition ig_AddLockRequest_get_guest_token_size :: "IgAddLockRequest \<Rightarrow> nat" where
  "ig_AddLockRequest_get_guest_token_size obj = AddLockRequest_guest_token_size obj"

definition ig_AddLockRequest_set_guest_token_nocopy ::
  "bool \<Rightarrow> block_ptr \<Rightarrow> nat \<Rightarrow> IgAddLockRequest \<Rightarrow>
    IgAddLockRequest" where
  "ig_AddLockRequest_set_guest_token_nocopy same_ptr p n obj =
     (if same_ptr then obj
      else let obj = (if AddLockRequest_has_guest_token obj then
        obj\<lparr>AddLockRequest_guest_token := None\<rparr> else obj)
        in obj\<lparr>AddLockRequest_guest_token := p, AddLockRequest_guest_token_size := n,
          AddLockRequest_has_guest_token := n > 0\<rparr>)"

definition ig_AddLockRequest_set_guest_token ::
  "bool \<Rightarrow> block_ptr \<Rightarrow> nat \<Rightarrow> IgAddLockRequest \<Rightarrow>
    IgAddLockRequest res" where
  "ig_AddLockRequest_set_guest_token same_ptr p n obj =
     (if same_ptr then Ok obj
      else let obj = (if AddLockRequest_has_guest_token obj then
        obj\<lparr>AddLockRequest_guest_token := None\<rparr> else obj)
        in bindR (block_read p n) (\<lambda>d.
          Ok (obj\<lparr>AddLockRequest_guest_token := Some d, AddLockRequest_guest_token_size :=
            n, AddLockRequest_has_guest_token := n > 0\<rparr>)))"

definition ig_AddLockRequest_get_lock_password_size :: "IgAddLockRequest \<Rightarrow> nat" where
  "ig_AddLockRequest_get_lock_password_size obj = AddLockRequest_lock_password_size obj"

definition ig_AddLockRequest_set_lock_password_nocopy ::
  "bool \<Rightarrow> block_ptr \<Rightarrow> nat \<Rightarrow> IgAddLockRequest \<Rightarrow>
    IgAddLockRequest" where
  "ig_AddLockRequest_set_lock_password_nocopy same_ptr p n obj =
     (if same_ptr then obj
      else let obj = (if AddLockRequest_has_lock_password obj then
        obj\<lparr>AddLockRequest_lock_password := None\<rparr> else obj)
        in obj\<lparr>AddLockRequest_lock_password := p, AddLockRequest_lock_password_size := n,
          AddLockRequest_has_lock_password := n > 0\<rparr>)"

definition ig_AddLockRequest_set_lock_password ::
  "bool \<Rightarrow> block_ptr \<Rightarrow> nat \<Rightarrow> IgAddLockRequest \<Rightarrow>
    IgAddLockRequest res" where
  "ig_AddLockRequest_set_lock_password same_ptr p n obj =
     (if same_ptr then Ok obj
      else let obj = (if AddLockRequest_has_lock_password obj then
        obj\<lparr>AddLockRequest_lock_password := None\<rparr> else obj)
        in bindR (block_read p n) (\<lambda>d.
          Ok (obj\<lparr>AddLockRequest_lock_password := Some d, AddLockRequest_lock_password_size
            := n, AddLockRequest_has_lock_password := n > 0\<rparr>)))"

definition ig_AddLockRequest_set_operation_id :: "u32 \<Rightarrow> IgAddLockRequest \<Rightarrow>
  IgAddLockRequest" where
  "ig_AddLockRequest_set_operation_id v obj = obj\<lparr>AddLockRequest_operation_id := v,
    AddLockRequest_has_operation_id := True\<rparr>"

definition ig_AddLockRequest_deinit :: "IgAddLockRequest \<Rightarrow> IgAddLockRequest" where
  "ig_AddLockRequest_deinit obj = (let
     obj = (if AddLockRequest_has_password obj then obj\<lparr>AddLockRequest_password :=
       None\<rparr> else obj);
     obj = (if AddLockRequest_has_lock_id obj then obj\<lparr>AddLockRequest_lock_id :=
       None\<rparr> else obj);
     obj = (if AddLockRequest_has_guest_aes_key obj then obj\<lparr>AddLockRequest_guest_aes_key :=
       None\<rparr> else obj);
     obj = (if AddLockRequest_has_guest_token obj then obj\<lparr>AddLockRequest_guest_token :=
       None\<rparr> else obj);
     obj = (if AddLockRequest_has_lock_password obj then obj\<lparr>AddLockRequest_lock_password :=
       None\<rparr> else obj)
   in obj)"

definition ig_AddLockRequest_is_valid :: "IgAddLockRequest \<Rightarrow> bool" where
  "ig_AddLockRequest_is_valid obj \<longleftrightarrow> True"

definition ig_AddLockRequest_get_max_payload_in_bytes :: "IgAddLockRequest \<Rightarrow> u32" where
  "ig_AddLockRequest_get_max_payload_in_bytes obj = word_of_nat (54 + AddLockRequest_password_size
    obj + AddLockRequest_lock_id_size obj + AddLockRequest_guest_aes_key_size obj +
      AddLockRequest_guest_token_size obj + AddLockRequest_lock_password_size obj)"

definition ig_AddLockRequest_fields_size :: "IgAddLockRequest \<Rightarrow> u64" where
  "ig_AddLockRequest_fields_size obj = 1 + 0 + of_bool (AddLockRequest_has_password obj) + of_bool
    (AddLockRequest_has_lock_id obj) + of_bool (AddLockRequest_has_guest_aes_key obj) + of_bool
      (AddLockRequest_has_guest_token obj) + of_bool (AddLockRequest_has_lock_password obj) +
        of_bool (AddLockRequest_has_operation_id obj)"

definition ig_AddLockRequest_fields :: "IgAddLockRequest \<Rightarrow> enc_field list" where
  "ig_AddLockRequest_fields obj =
    [(AddLockRequest_has_password obj, 11, ABytes (AddLockRequest_password obj)
      (AddLockRequest_password_size obj)),
     (AddLockRequest_has_lock_id obj, 12, ABytes (AddLockRequest_lock_id obj)
       (AddLockRequest_lock_id_size obj)),
     (AddLockRequest_has_guest_aes_key obj, 13, ABytes (AddLockRequest_guest_aes_key obj)
       (AddLockRequest_guest_aes_key_size obj)),
     (AddLockRequest_has_guest_token obj, 14, ABytes (AddLockRequest_guest_token obj)
       (AddLockRequest_guest_token_size obj)),
     (AddLockRequest_has_lock_password obj, 15, ABytes (AddLockRequest_lock_password obj)
       (AddLockRequest_lock_password_size obj)),
     (AddLockRequest_has_operation_id obj, 100, AUint (ucast (AddLockRequest_operation_id obj)))]"

definition ig_AddLockRequest_encode ::
  "IgAddLockRequest \<Rightarrow> bytes \<Rightarrow> u32 \<Rightarrow> (nat \<times> bytes
    \<times> nat option) res" where
  "ig_AddLockRequest_encode obj retval len =
     (if \<not> ig_AddLockRequest_is_valid obj then Ok (IgSerializerErrorInvalidPayload, retval, None)
      else ig_encode (ig_AddLockRequest_fields_size obj) 83 (ig_AddLockRequest_fields obj) retval len)"

definition ig_AddLockRequest_cases :: "(i64 \<times> IgAddLockRequest case_body) list" where
  "ig_AddLockRequest_cases =
    [(0, CMsgId 83),
     (11, CBytes (ig_AddLockRequest_set_password_nocopy False)),
     (12, CBytes (ig_AddLockRequest_set_lock_id_nocopy False)),
     (13, CBytes (ig_AddLockRequest_set_guest_aes_key_nocopy False)),
     (14, CBytes (ig_AddLockRequest_set_guest_token_nocopy False)),
     (15, CBytes (ig_AddLockRequest_set_lock_password_nocopy False)),
     (100, CUint (\<lambda>v. ig_AddLockRequest_set_operation_id (ucast v)))]"

definition ig_AddLockRequest_decode :: "bytes \<Rightarrow> IgAddLockRequest \<Rightarrow> nat
  \<Rightarrow> (nat \<times> IgAddLockRequest) res" where
  "ig_AddLockRequest_decode buf obj index = ig_decode ig_AddLockRequest_cases buf obj index"

definition ig_AddLockRequest_ok :: "IgAddLockRequest \<Rightarrow> bool" where
  "ig_AddLockRequest_ok obj \<longleftrightarrow> ig_AddLockRequest_is_valid obj \<and>
     str_ok (AddLockRequest_has_password obj) (AddLockRequest_password obj)
       (AddLockRequest_password_size obj) \<and>
     str_ok (AddLockRequest_has_lock_id obj) (AddLockRequest_lock_id obj)
       (AddLockRequest_lock_id_size obj) \<and>
     str_ok (AddLockRequest_has_guest_aes_key obj) (AddLockRequest_guest_aes_key obj)
       (AddLockRequest_guest_aes_key_size obj) \<and>
     str_ok (AddLockRequest_has_guest_token obj) (AddLockRequest_guest_token obj)
       (AddLockRequest_guest_token_size obj) \<and>
     str_ok (AddLockRequest_has_lock_password obj) (AddLockRequest_lock_password obj)
       (AddLockRequest_lock_password_size obj) \<and>
     num_ok (AddLockRequest_has_operation_id obj) (AddLockRequest_operation_id obj)"

lemmas ig_AddLockRequest_setters =
  ig_AddLockRequest_set_guest_aes_key_nocopy_def
  ig_AddLockRequest_set_guest_token_nocopy_def
  ig_AddLockRequest_set_lock_id_nocopy_def
  ig_AddLockRequest_set_lock_password_nocopy_def
  ig_AddLockRequest_set_operation_id_def
  ig_AddLockRequest_set_password_nocopy_def

text \<open>A guarded setter, member by member.\<close>
lemma ig_AddLockRequest_set_if:
  "(if g then ig_AddLockRequest_set_password_nocopy False p n obj else obj) =
     obj\<lparr>AddLockRequest_password := pick g p (AddLockRequest_password obj),
       AddLockRequest_password_size := pick g n (AddLockRequest_password_size obj),
       AddLockRequest_has_password := pick g (n > 0) (AddLockRequest_has_password obj)\<rparr>"
  "(if g then ig_AddLockRequest_set_lock_id_nocopy False p n obj else obj) =
     obj\<lparr>AddLockRequest_lock_id := pick g p (AddLockRequest_lock_id obj),
       AddLockRequest_lock_id_size := pick g n (AddLockRequest_lock_id_size obj),
       AddLockRequest_has_lock_id := pick g (n > 0) (AddLockRequest_has_lock_id obj)\<rparr>"
  "(if g then ig_AddLockRequest_set_guest_aes_key_nocopy False p n obj else obj) =
     obj\<lparr>AddLockRequest_guest_aes_key := pick g p (AddLockRequest_guest_aes_key obj),
       AddLockRequest_guest_aes_key_size := pick g n (AddLockRequest_guest_aes_key_size obj),
       AddLockRequest_has_guest_aes_key := pick g (n > 0) (AddLockRequest_has_guest_aes_key obj)\<rparr>"
  "(if g then ig_AddLockRequest_set_guest_token_nocopy False p n obj else obj) =
     obj\<lparr>AddLockRequest_guest_token := pick g p (AddLockRequest_guest_token obj),
       AddLockRequest_guest_token_size := pick g n (AddLockRequest_guest_token_size obj),
       AddLockRequest_has_guest_token := pick g (n > 0) (AddLockRequest_has_guest_token obj)\<rparr>"
  "(if g then ig_AddLockRequest_set_lock_password_nocopy False p n obj else obj) =
     obj\<lparr>AddLockRequest_lock_password := pick g p (AddLockRequest_lock_password obj),
       AddLockRequest_lock_password_size := pick g n (AddLockRequest_lock_password_size obj),
       AddLockRequest_has_lock_password := pick g (n > 0) (AddLockRequest_has_lock_password obj)\<rparr>"
  "(if g then ig_AddLockRequest_set_operation_id v5 obj else obj) =
     obj\<lparr>AddLockRequest_operation_id := pick g v5 (AddLockRequest_operation_id obj),
       AddLockRequest_has_operation_id := g \<or> AddLockRequest_has_operation_id obj\<rparr>"
  by (simp_all add: ig_AddLockRequest_setters pick_def)

lemma ig_AddLockRequest_store:
  assumes ok: "ig_AddLockRequest_ok obj"
  shows "store_fields ig_AddLockRequest_cases (ig_AddLockRequest_fields obj) ig_AddLockRequest_init
    = Some obj"
proof -
  have h: "str_ok (AddLockRequest_has_password obj) (AddLockRequest_password obj)
    (AddLockRequest_password_size obj)"
    "str_ok (AddLockRequest_has_lock_id obj) (AddLockRequest_lock_id obj) (AddLockRequest_lock_id_size obj)"
    "str_ok (AddLockRequest_has_guest_aes_key obj) (AddLockRequest_guest_aes_key obj)
      (AddLockRequest_guest_aes_key_size obj)"
    "str_ok (AddLockRequest_has_guest_token obj) (AddLockRequest_guest_token obj)
      (AddLockRequest_guest_token_size obj)"
    "str_ok (AddLockRequest_has_lock_password obj) (AddLockRequest_lock_password obj)
      (AddLockRequest_lock_password_size obj)"
    "num_ok (AddLockRequest_has_operation_id obj) (AddLockRequest_operation_id obj)"
    and valid: "ig_AddLockRequest_is_valid obj"
    using ok by (simp_all add: ig_AddLockRequest_ok_def)
  show ?thesis
    using valid
    by (simp add: ig_AddLockRequest_fields_def ig_AddLockRequest_cases_def
      ig_AddLockRequest_init_def codec_simps
        ig_AddLockRequest_set_if ig_AddLockRequest_setters split del: if_split)
       (simp add: ig_AddLockRequest_is_valid_def
         str_ok_store [OF h(1)]
         str_ok_store [OF h(2)]
         str_ok_store [OF h(3)]
         str_ok_store [OF h(4)]
         str_ok_store [OF h(5)]
         num_ok_store [OF h(6)])
qed

lemma ig_AddLockRequest_bound:
  assumes "ig_AddLockRequest_ok obj"
  shows "2 + length (number_bytes 83 MtUnsigned) + fields_bound (ig_AddLockRequest_fields obj)
    \<le> unat (ig_AddLockRequest_get_max_payload_in_bytes obj)"
proof -
  have sizes: "AddLockRequest_password_size obj < 2 ^ 24" "AddLockRequest_lock_id_size obj < 2 ^
    24" "AddLockRequest_guest_aes_key_size obj < 2 ^ 24" "AddLockRequest_guest_token_size obj < 2 ^
      24" "AddLockRequest_lock_password_size obj < 2 ^ 24"
    using assms by (auto simp: ig_AddLockRequest_ok_def dest!: str_ok_bound)
  show ?thesis
    using sizes number_bytes_size [of "AddLockRequest_password_size obj" "0x40"]
      number_bytes_size [of "AddLockRequest_lock_id_size obj" "0x40"]
      number_bytes_size [of "AddLockRequest_guest_aes_key_size obj" "0x40"]
      number_bytes_size [of "AddLockRequest_guest_token_size obj" "0x40"]
      number_bytes_size [of "AddLockRequest_lock_password_size obj" "0x40"]
      number_bytes_u32 [of "AddLockRequest_operation_id obj" 0]
    by (simp add: ig_AddLockRequest_fields_def ig_AddLockRequest_get_max_payload_in_bytes_def
      number_bytes_literal
        unat_of_nat_small del: of_nat_add)
qed

interpretation AddLockRequest_codec: ig_message ig_AddLockRequest_encode ig_AddLockRequest_decode
  ig_AddLockRequest_get_max_payload_in_bytes ig_AddLockRequest_is_valid ig_AddLockRequest_init
    ig_AddLockRequest_ok 83
  ig_AddLockRequest_fields_size ig_AddLockRequest_fields ig_AddLockRequest_cases
  by (unfold_locales;
      (rule ig_AddLockRequest_encode_def ig_AddLockRequest_decode_def | erule
        ig_AddLockRequest_store ig_AddLockRequest_bound |
       auto simp: ig_AddLockRequest_cases_def ig_AddLockRequest_fields_def
         ig_AddLockRequest_fields_size_def ig_AddLockRequest_ok_def
         simp del: arg_block_ok.simps(1,2) intro: str_ok_block))

subsection \<open>AddLockResponse\<close>

record IgAddLockResponse =
  AddLockResponse_has_result :: bool
  AddLockResponse_result :: u8
  AddLockResponse_has_operation_id :: bool
  AddLockResponse_operation_id :: u32

definition ig_AddLockResponse_init :: IgAddLockResponse where
  "ig_AddLockResponse_init =
     \<lparr>AddLockResponse_has_result = False,
      AddLockResponse_result = 0,
      AddLockResponse_has_operation_id = False,
      AddLockResponse_operation_id = 0\<rparr>"

definition ig_AddLockResponse_set_result :: "u8 \<Rightarrow> IgAddLockResponse \<Rightarrow>
  IgAddLockResponse" where
  "ig_AddLockResponse_set_result v obj = obj\<lparr>AddLockResponse_result := v,
    AddLockResponse_has_result := True\<rparr>"

definition ig_AddLockResponse_set_operation_id :: "u32 \<Rightarrow> IgAddLockResponse
  \<Rightarrow> IgAddLockResponse" where
  "ig_AddLockResponse_set_operation_id v obj = obj\<lparr>AddLockResponse_operation_id := v,
    AddLockResponse_has_operation_id := True\<rparr>"

definition ig_AddLockResponse_deinit :: "IgAddLockResponse \<Rightarrow> IgAddLockResponse" where
  "ig_AddLockResponse_deinit obj = obj"

definition ig_AddLockResponse_is_valid :: "IgAddLockResponse \<Rightarrow> bool" where
  "ig_AddLockResponse_is_valid obj \<longleftrightarrow> True"

definition ig_AddLockResponse_get_max_payload_in_bytes :: "IgAddLockResponse \<Rightarrow> u32" where
  "ig_AddLockResponse_get_max_payload_in_bytes obj = 22"

definition ig_AddLockResponse_fields_size :: "IgAddLockResponse \<Rightarrow> u64" where
  "ig_AddLockResponse_fields_size obj = 1 + 0 + of_bool (AddLockResponse_has_result obj) + of_bool
    (AddLockResponse_has_operation_id obj)"

definition ig_AddLockResponse_fields :: "IgAddLockResponse \<Rightarrow> enc_field list" where
  "ig_AddLockResponse_fields obj =
    [(AddLockResponse_has_result obj, 11, AUint (ucast (AddLockResponse_result obj))),
     (AddLockResponse_has_operation_id obj, 100, AUint (ucast (AddLockResponse_operation_id obj)))]"

definition ig_AddLockResponse_encode ::
  "IgAddLockResponse \<Rightarrow> bytes \<Rightarrow> u32 \<Rightarrow> (nat \<times> bytes
    \<times> nat option) res" where
  "ig_AddLockResponse_encode obj retval len =
     (if \<not> ig_AddLockResponse_is_valid obj then Ok (IgSerializerErrorInvalidPayload, retval, None)
      else ig_encode (ig_AddLockResponse_fields_size obj) 84 (ig_AddLockResponse_fields obj) retval len)"

definition ig_AddLockResponse_cases :: "(i64 \<times> IgAddLockResponse case_body) list" where
  "ig_AddLockResponse_cases =
    [(0, CMsgId 84),
     (11, CUint (\<lambda>v. ig_AddLockResponse_set_result (ucast v))),
     (100, CUint (\<lambda>v. ig_AddLockResponse_set_operation_id (ucast v)))]"

definition ig_AddLockResponse_decode :: "bytes \<Rightarrow> IgAddLockResponse \<Rightarrow> nat
  \<Rightarrow> (nat \<times> IgAddLockResponse) res" where
  "ig_AddLockResponse_decode buf obj index = ig_decode ig_AddLockResponse_cases buf obj index"

definition ig_AddLockResponse_ok :: "IgAddLockResponse \<Rightarrow> bool" where
  "ig_AddLockResponse_ok obj \<longleftrightarrow> ig_AddLockResponse_is_valid obj \<and>
     num_ok (AddLockResponse_has_result obj) (AddLockResponse_result obj) \<and>
     num_ok (AddLockResponse_has_operation_id obj) (AddLockResponse_operation_id obj)"

lemmas ig_AddLockResponse_setters =
  ig_AddLockResponse_set_operation_id_def
  ig_AddLockResponse_set_result_def

text \<open>A guarded setter, member by member.\<close>
lemma ig_AddLockResponse_set_if:
  "(if g then ig_AddLockResponse_set_result v0 obj else obj) =
     obj\<lparr>AddLockResponse_result := pick g v0 (AddLockResponse_result obj),
       AddLockResponse_has_result := g \<or> AddLockResponse_has_result obj\<rparr>"
  "(if g then ig_AddLockResponse_set_operation_id v1 obj else obj) =
     obj\<lparr>AddLockResponse_operation_id := pick g v1 (AddLockResponse_operation_id obj),
       AddLockResponse_has_operation_id := g \<or> AddLockResponse_has_operation_id obj\<rparr>"
  by (simp_all add: ig_AddLockResponse_setters pick_def)

lemma ig_AddLockResponse_store:
  assumes ok: "ig_AddLockResponse_ok obj"
  shows "store_fields ig_AddLockResponse_cases (ig_AddLockResponse_fields obj)
    ig_AddLockResponse_init = Some obj"
proof -
  have h: "num_ok (AddLockResponse_has_result obj) (AddLockResponse_result obj)"
    "num_ok (AddLockResponse_has_operation_id obj) (AddLockResponse_operation_id obj)"
    and valid: "ig_AddLockResponse_is_valid obj"
    using ok by (simp_all add: ig_AddLockResponse_ok_def)
  show ?thesis
    using valid
    by (simp add: ig_AddLockResponse_fields_def ig_AddLockResponse_cases_def
      ig_AddLockResponse_init_def codec_simps
        ig_AddLockResponse_set_if ig_AddLockResponse_setters split del: if_split)
       (simp add: ig_AddLockResponse_is_valid_def
         num_ok_store [OF h(1)]
         num_ok_store [OF h(2)])
qed

lemma ig_AddLockResponse_bound:
  assumes "ig_AddLockResponse_ok obj"
  shows "2 + length (number_bytes 84 MtUnsigned) + fields_bound (ig_AddLockResponse_fields obj)
    \<le> unat (ig_AddLockResponse_get_max_payload_in_bytes obj)"
  using number_bytes_u8 [of "AddLockResponse_result obj" 0]
    number_bytes_u32 [of "AddLockResponse_operation_id obj" 0]
  by (simp add: ig_AddLockResponse_fields_def ig_AddLockResponse_get_max_payload_in_bytes_def
    number_bytes_literal)

interpretation AddLockResponse_codec: ig_message ig_AddLockResponse_encode ig_AddLockResponse_decode
  ig_AddLockResponse_get_max_payload_in_bytes ig_AddLockResponse_is_valid ig_AddLockResponse_init
    ig_AddLockResponse_ok 84
  ig_AddLockResponse_fields_size ig_AddLockResponse_fields ig_AddLockResponse_cases
  by (unfold_locales;
      (rule ig_AddLockResponse_encode_def ig_AddLockResponse_decode_def | erule
        ig_AddLockResponse_store ig_AddLockResponse_bound |
       auto simp: ig_AddLockResponse_cases_def ig_AddLockResponse_fields_def
         ig_AddLockResponse_fields_size_def ig_AddLockResponse_ok_def
         simp del: arg_block_ok.simps(1,2) intro: str_ok_block))

subsection \<open>DeleteLockRequest\<close>

record IgDeleteLockRequest =
  DeleteLockRequest_has_password :: bool
  DeleteLockRequest_password :: block_ptr
  DeleteLockRequest_password_size :: nat
  DeleteLockRequest_has_lock_id :: bool
  DeleteLockRequest_lock_id :: block_ptr
  DeleteLockRequest_lock_id_size :: nat
  DeleteLockRequest_has_operation_id :: bool
  DeleteLockRequest_operation_id :: u32

definition ig_DeleteLockRequest_init :: IgDeleteLockRequest where
  "ig_DeleteLockRequest_init =
     \<lparr>DeleteLockRequest_has_password = False,
      DeleteLockRequest_password = None,
      DeleteLockRequest_password_size = 0,
      DeleteLockRequest_has_lock_id = False,
      DeleteLockRequest_lock_id = None,
      DeleteLockRequest_lock_id_size = 0,
      DeleteLockRequest_has_operation_id = False,
      DeleteLockRequest_operation_id = 0\<rparr>"

definition ig_DeleteLockRequest_get_password_size :: "IgDeleteLockRequest \<Rightarrow> nat" where
  "ig_DeleteLockRequest_get_password_size obj = DeleteLockRequest_password_size obj"

definition ig_DeleteLockRequest_set_password_nocopy ::
  "bool \<Rightarrow> block_ptr \<Rightarrow> nat \<Rightarrow> IgDeleteLockRequest \<Rightarrow>
    IgDeleteLockRequest" where
  "ig_DeleteLockRequest_set_password_nocopy same_ptr p n obj =
     (if same_ptr then obj
      else let obj = (if DeleteLockRequest_has_password obj then
        obj\<lparr>DeleteLockRequest_password := None\<rparr> else obj)
        in obj\<lparr>DeleteLockRequest_password := p, DeleteLockRequest_password_size := n,
          DeleteLockRequest_has_password := n > 0\<rparr>)"

definition ig_DeleteLockRequest_set_password ::
  "bool \<Rightarrow> block_ptr \<Rightarrow> nat \<Rightarrow> IgDeleteLockRequest \<Rightarrow>
    IgDeleteLockRequest res" where
  "ig_DeleteLockRequest_set_password same_ptr p n obj =
     (if same_ptr then Ok obj
      else let obj = (if DeleteLockRequest_has_password obj then
        obj\<lparr>DeleteLockRequest_password := None\<rparr> else obj)
        in bindR (block_read p n) (\<lambda>d.
          Ok (obj\<lparr>DeleteLockRequest_password := Some d, DeleteLockRequest_password_size :=
            n, DeleteLockRequest_has_password := n > 0\<rparr>)))"

definition ig_DeleteLockRequest_get_lock_id_size :: "IgDeleteLockRequest \<Rightarrow> nat" where
  "ig_DeleteLockRequest_get_lock_id_size obj = DeleteLockRequest_lock_id_size obj"

definition ig_DeleteLockRequest_set_lock_id_nocopy ::
  "bool \<Rightarrow> block_ptr \<Rightarrow> nat \<Rightarrow> IgDeleteLockRequest \<Rightarrow>
    IgDeleteLockRequest" where
  "ig_DeleteLockRequest_set_lock_id_nocopy same_ptr p n obj =
     (if same_ptr then obj
      else let obj = (if DeleteLockRequest_has_lock_id obj then
        obj\<lparr>DeleteLockRequest_lock_id := None\<rparr> else obj)
        in obj\<lparr>DeleteLockRequest_lock_id := p, DeleteLockRequest_lock_id_size := n,
          DeleteLockRequest_has_lock_id := n > 0\<rparr>)"

definition ig_DeleteLockRequest_set_lock_id ::
  "bool \<Rightarrow> block_ptr \<Rightarrow> nat \<Rightarrow> IgDeleteLockRequest \<Rightarrow>
    IgDeleteLockRequest res" where
  "ig_DeleteLockRequest_set_lock_id same_ptr p n obj =
     (if same_ptr then Ok obj
      else let obj = (if DeleteLockRequest_has_lock_id obj then
        obj\<lparr>DeleteLockRequest_lock_id := None\<rparr> else obj)
        in bindR (block_read p n) (\<lambda>d.
          Ok (obj\<lparr>DeleteLockRequest_lock_id := Some d, DeleteLockRequest_lock_id_size := n,
            DeleteLockRequest_has_lock_id := n > 0\<rparr>)))"

definition ig_DeleteLockRequest_set_operation_id :: "u32 \<Rightarrow> IgDeleteLockRequest
  \<Rightarrow> IgDeleteLockRequest" where
  "ig_DeleteLockRequest_set_operation_id v obj = obj\<lparr>DeleteLockRequest_operation_id := v,
    DeleteLockRequest_has_operation_id := True\<rparr>"

definition ig_DeleteLockRequest_deinit :: "IgDeleteLockRequest \<Rightarrow> IgDeleteLockRequest" where
  "ig_DeleteLockRequest_deinit obj = (let
     obj = (if DeleteLockRequest_has_password obj then obj\<lparr>DeleteLockRequest_password :=
       None\<rparr> else obj);
     obj = (if DeleteLockRequest_has_lock_id obj then obj\<lparr>DeleteLockRequest_lock_id :=
       None\<rparr> else obj)
   in obj)"

definition ig_DeleteLockRequest_is_valid :: "IgDeleteLockRequest \<Rightarrow> bool" where
  "ig_DeleteLockRequest_is_valid obj \<longleftrightarrow> True"

definition ig_DeleteLockRequest_get_max_payload_in_bytes :: "IgDeleteLockRequest \<Rightarrow> u32" where
  "ig_DeleteLockRequest_get_max_payload_in_bytes obj = word_of_nat (33 +
    DeleteLockRequest_password_size obj + DeleteLockRequest_lock_id_size obj)"

definition ig_DeleteLockRequest_fields_size :: "IgDeleteLockRequest \<Rightarrow> u64" where
  "ig_DeleteLockRequest_fields_size obj = 1 + 0 + of_bool (DeleteLockRequest_has_password obj) +
    of_bool (DeleteLockRequest_has_lock_id obj) + of_bool (DeleteLockRequest_has_operation_id obj)"

definition ig_DeleteLockRequest_fields :: "IgDeleteLockRequest \<Rightarrow> enc_field list" where
  "ig_DeleteLockRequest_fields obj =
    [(DeleteLockRequest_has_password obj, 11, ABytes (DeleteLockRequest_password obj)
      (DeleteLockRequest_password_size obj)),
     (DeleteLockRequest_has_lock_id obj, 12, ABytes (DeleteLockRequest_lock_id obj)
       (DeleteLockRequest_lock_id_size obj)),
     (DeleteLockRequest_has_operation_id obj, 100, AUint (ucast (DeleteLockRequest_operation_id obj)))]"

definition ig_DeleteLockRequest_encode ::
  "IgDeleteLockRequest \<Rightarrow> bytes \<Rightarrow> u32 \<Rightarrow> (nat \<times> bytes
    \<times> nat option) res" where
  "ig_DeleteLockRequest_encode obj retval len =
     (if \<not> ig_DeleteLockRequest_is_valid obj then Ok (IgSerializerErrorInvalidPayload, retval, None)
      else ig_encode (ig_DeleteLockRequest_fields_size obj) 85 (ig_DeleteLockRequest_fields obj) retval len)"

definition ig_DeleteLockRequest_cases :: "(i64 \<times> IgDeleteLockRequest case_body) list" where
  "ig_DeleteLockRequest_cases =
    [(0, CMsgId 85),
     (11, CBytes (ig_DeleteLockRequest_set_password_nocopy False)),
     (12, CBytes (ig_DeleteLockRequest_set_lock_id_nocopy False)),
     (100, CUint (\<lambda>v. ig_DeleteLockRequest_set_operation_id (ucast v)))]"

definition ig_DeleteLockRequest_decode :: "bytes \<Rightarrow> IgDeleteLockRequest \<Rightarrow>
  nat \<Rightarrow> (nat \<times> IgDeleteLockRequest) res" where
  "ig_DeleteLockRequest_decode buf obj index = ig_decode ig_DeleteLockRequest_cases buf obj index"

definition ig_DeleteLockRequest_ok :: "IgDeleteLockRequest \<Rightarrow> bool" where
  "ig_DeleteLockRequest_ok obj \<longleftrightarrow> ig_DeleteLockRequest_is_valid obj \<and>
     str_ok (DeleteLockRequest_has_password obj) (DeleteLockRequest_password obj)
       (DeleteLockRequest_password_size obj) \<and>
     str_ok (DeleteLockRequest_has_lock_id obj) (DeleteLockRequest_lock_id obj)
       (DeleteLockRequest_lock_id_size obj) \<and>
     num_ok (DeleteLockRequest_has_operation_id obj) (DeleteLockRequest_operation_id obj)"

lemmas ig_DeleteLockRequest_setters =
  ig_DeleteLockRequest_set_lock_id_nocopy_def
  ig_DeleteLockRequest_set_operation_id_def
  ig_DeleteLockRequest_set_password_nocopy_def

text \<open>A guarded setter, member by member.\<close>
lemma ig_DeleteLockRequest_set_if:
  "(if g then ig_DeleteLockRequest_set_password_nocopy False p n obj else obj) =
     obj\<lparr>DeleteLockRequest_password := pick g p (DeleteLockRequest_password obj),
       DeleteLockRequest_password_size := pick g n (DeleteLockRequest_password_size obj),
       DeleteLockRequest_has_password := pick g (n > 0) (DeleteLockRequest_has_password obj)\<rparr>"
  "(if g then ig_DeleteLockRequest_set_lock_id_nocopy False p n obj else obj) =
     obj\<lparr>DeleteLockRequest_lock_id := pick g p (DeleteLockRequest_lock_id obj),
       DeleteLockRequest_lock_id_size := pick g n (DeleteLockRequest_lock_id_size obj),
       DeleteLockRequest_has_lock_id := pick g (n > 0) (DeleteLockRequest_has_lock_id obj)\<rparr>"
  "(if g then ig_DeleteLockRequest_set_operation_id v2 obj else obj) =
     obj\<lparr>DeleteLockRequest_operation_id := pick g v2 (DeleteLockRequest_operation_id obj),
       DeleteLockRequest_has_operation_id := g \<or> DeleteLockRequest_has_operation_id obj\<rparr>"
  by (simp_all add: ig_DeleteLockRequest_setters pick_def)

lemma ig_DeleteLockRequest_store:
  assumes ok: "ig_DeleteLockRequest_ok obj"
  shows "store_fields ig_DeleteLockRequest_cases (ig_DeleteLockRequest_fields obj)
    ig_DeleteLockRequest_init = Some obj"
proof -
  have h: "str_ok (DeleteLockRequest_has_password obj) (DeleteLockRequest_password obj)
    (DeleteLockRequest_password_size obj)"
    "str_ok (DeleteLockRequest_has_lock_id obj) (DeleteLockRequest_lock_id obj)
      (DeleteLockRequest_lock_id_size obj)"
    "num_ok (DeleteLockRequest_has_operation_id obj) (DeleteLockRequest_operation_id obj)"
    and valid: "ig_DeleteLockRequest_is_valid obj"
    using ok by (simp_all add: ig_DeleteLockRequest_ok_def)
  show ?thesis
    using valid
    by (simp add: ig_DeleteLockRequest_fields_def ig_DeleteLockRequest_cases_def
      ig_DeleteLockRequest_init_def codec_simps
        ig_DeleteLockRequest_set_if ig_DeleteLockRequest_setters split del: if_split)
       (simp add: ig_DeleteLockRequest_is_valid_def
         str_ok_store [OF h(1)]
         str_ok_store [OF h(2)]
         num_ok_store [OF h(3)])
qed

lemma ig_DeleteLockRequest_bound:
  assumes "ig_DeleteLockRequest_ok obj"
  shows "2 + length (number_bytes 85 MtUnsigned) + fields_bound (ig_DeleteLockRequest_fields obj)
    \<le> unat (ig_DeleteLockRequest_get_max_payload_in_bytes obj)"
proof -
  have sizes: "DeleteLockRequest_password_size obj < 2 ^ 24" "DeleteLockRequest_lock_id_size obj < 2 ^ 24"
    using assms by (auto simp: ig_DeleteLockRequest_ok_def dest!: str_ok_bound)
  show ?thesis
    using sizes number_bytes_size [of "DeleteLockRequest_password_size obj" "0x40"]
      number_bytes_size [of "DeleteLockRequest_lock_id_size obj" "0x40"]
      number_bytes_u32 [of "DeleteLockRequest_operation_id obj" 0]
    by (simp add: ig_DeleteLockRequest_fields_def ig_DeleteLockRequest_get_max_payload_in_bytes_def
      number_bytes_literal
        unat_of_nat_small del: of_nat_add)
qed

interpretation DeleteLockRequest_codec: ig_message ig_DeleteLockRequest_encode ig_DeleteLockRequest_decode
  ig_DeleteLockRequest_get_max_payload_in_bytes ig_DeleteLockRequest_is_valid
    ig_DeleteLockRequest_init ig_DeleteLockRequest_ok 85
  ig_DeleteLockRequest_fields_size ig_DeleteLockRequest_fields ig_DeleteLockRequest_cases
  by (unfold_locales;
      (rule ig_DeleteLockRequest_encode_def ig_DeleteLockRequest_decode_def | erule
        ig_DeleteLockRequest_store ig_DeleteLockRequest_bound |
       auto simp: ig_DeleteLockRequest_cases_def ig_DeleteLockRequest_fields_def
         ig_DeleteLockRequest_fields_size_def ig_DeleteLockRequest_ok_def
         simp del: arg_block_ok.simps(1,2) intro: str_ok_block))

subsection \<open>DeleteLockResponse\<close>

record IgDeleteLockResponse =
  DeleteLockResponse_has_result :: bool
  DeleteLockResponse_result :: u8
  DeleteLockResponse_has_operation_id :: bool
  DeleteLockResponse_operation_id :: u32

definition ig_DeleteLockResponse_init :: IgDeleteLockResponse where
  "ig_DeleteLockResponse_init =
     \<lparr>DeleteLockResponse_has_result = False,
      DeleteLockResponse_result = 0,
      DeleteLockResponse_has_operation_id = False,
      DeleteLockResponse_operation_id = 0\<rparr>"

definition ig_DeleteLockResponse_set_result :: "u8 \<Rightarrow> IgDeleteLockResponse \<Rightarrow>
  IgDeleteLockResponse" where
  "ig_DeleteLockResponse_set_result v obj = obj\<lparr>DeleteLockResponse_result := v,
    DeleteLockResponse_has_result := True\<rparr>"

definition ig_DeleteLockResponse_set_operation_id :: "u32 \<Rightarrow> IgDeleteLockResponse
  \<Rightarrow> IgDeleteLockResponse" where
  "ig_DeleteLockResponse_set_operation_id v obj = obj\<lparr>DeleteLockResponse_operation_id := v,
    DeleteLockResponse_has_operation_id := True\<rparr>"

definition ig_DeleteLockResponse_deinit :: "IgDeleteLockResponse \<Rightarrow> IgDeleteLockResponse" where
  "ig_DeleteLockResponse_deinit obj = obj"

definition ig_DeleteLockResponse_is_valid :: "IgDeleteLockResponse \<Rightarrow> bool" where
  "ig_DeleteLockResponse_is_valid obj \<longleftrightarrow> True"

definition ig_DeleteLockResponse_get_max_payload_in_bytes :: "IgDeleteLockResponse \<Rightarrow> u32" where
  "ig_DeleteLockResponse_get_max_payload_in_bytes obj = 22"

definition ig_DeleteLockResponse_fields_size :: "IgDeleteLockResponse \<Rightarrow> u64" where
  "ig_DeleteLockResponse_fields_size obj = 1 + 0 + of_bool (DeleteLockResponse_has_result obj) +
    of_bool (DeleteLockResponse_has_operation_id obj)"

definition ig_DeleteLockResponse_fields :: "IgDeleteLockResponse \<Rightarrow> enc_field list" where
  "ig_DeleteLockResponse_fields obj =
    [(DeleteLockResponse_has_result obj, 11, AUint (ucast (DeleteLockResponse_result obj))),
     (DeleteLockResponse_has_operation_id obj, 100, AUint (ucast (DeleteLockResponse_operation_id obj)))]"

definition ig_DeleteLockResponse_encode ::
  "IgDeleteLockResponse \<Rightarrow> bytes \<Rightarrow> u32 \<Rightarrow> (nat \<times> bytes
    \<times> nat option) res" where
  "ig_DeleteLockResponse_encode obj retval len =
     (if \<not> ig_DeleteLockResponse_is_valid obj then Ok (IgSerializerErrorInvalidPayload, retval, None)
      else ig_encode (ig_DeleteLockResponse_fields_size obj) 86 (ig_DeleteLockResponse_fields obj)
        retval len)"

definition ig_DeleteLockResponse_cases :: "(i64 \<times> IgDeleteLockResponse case_body) list" where
  "ig_DeleteLockResponse_cases =
    [(0, CMsgId 86),
     (11, CUint (\<lambda>v. ig_DeleteLockResponse_set_result (ucast v))),
     (100, CUint (\<lambda>v. ig_DeleteLockResponse_set_operation_id (ucast v)))]"

definition ig_DeleteLockResponse_decode :: "bytes \<Rightarrow> IgDeleteLockResponse \<Rightarrow>
  nat \<Rightarrow> (nat \<times> IgDeleteLockResponse) res" where
  "ig_DeleteLockResponse_decode buf obj index = ig_decode ig_DeleteLockResponse_cases buf obj index"

definition ig_DeleteLockResponse_ok :: "IgDeleteLockResponse \<Rightarrow> bool" where
  "ig_DeleteLockResponse_ok obj \<longleftrightarrow> ig_DeleteLockResponse_is_valid obj \<and>
     num_ok (DeleteLockResponse_has_result obj) (DeleteLockResponse_result obj) \<and>
     num_ok (DeleteLockResponse_has_operation_id obj) (DeleteLockResponse_operation_id obj)"

lemmas ig_DeleteLockResponse_setters =
  ig_DeleteLockResponse_set_operation_id_def
  ig_DeleteLockResponse_set_result_def

text \<open>A guarded setter, member by member.\<close>
lemma ig_DeleteLockResponse_set_if:
  "(if g then ig_DeleteLockResponse_set_result v0 obj else obj) =
     obj\<lparr>DeleteLockResponse_result := pick g v0 (DeleteLockResponse_result obj),
       DeleteLockResponse_has_result := g \<or> DeleteLockResponse_has_result obj\<rparr>"
  "(if g then ig_DeleteLockResponse_set_operation_id v1 obj else obj) =
     obj\<lparr>DeleteLockResponse_operation_id := pick g v1 (DeleteLockResponse_operation_id obj),
       DeleteLockResponse_has_operation_id := g \<or> DeleteLockResponse_has_operation_id obj\<rparr>"
  by (simp_all add: ig_DeleteLockResponse_setters pick_def)

lemma ig_DeleteLockResponse_store:
  assumes ok: "ig_DeleteLockResponse_ok obj"
  shows "store_fields ig_DeleteLockResponse_cases (ig_DeleteLockResponse_fields obj)
    ig_DeleteLockResponse_init = Some obj"
proof -
  have h: "num_ok (DeleteLockResponse_has_result obj) (DeleteLockResponse_result obj)"
    "num_ok (DeleteLockResponse_has_operation_id obj) (DeleteLockResponse_operation_id obj)"
    and valid: "ig_DeleteLockResponse_is_valid obj"
    using ok by (simp_all add: ig_DeleteLockResponse_ok_def)
  show ?thesis
    using valid
    by (simp add: ig_DeleteLockResponse_fields_def ig_DeleteLockResponse_cases_def
      ig_DeleteLockResponse_init_def codec_simps
        ig_DeleteLockResponse_set_if ig_DeleteLockResponse_setters split del: if_split)
       (simp add: ig_DeleteLockResponse_is_valid_def
         num_ok_store [OF h(1)]
         num_ok_store [OF h(2)])
qed

lemma ig_DeleteLockResponse_bound:
  assumes "ig_DeleteLockResponse_ok obj"
  shows "2 + length (number_bytes 86 MtUnsigned) + fields_bound (ig_DeleteLockResponse_fields obj)
    \<le> unat (ig_DeleteLockResponse_get_max_payload_in_bytes obj)"
  using number_bytes_u8 [of "DeleteLockResponse_result obj" 0]
    number_bytes_u32 [of "DeleteLockResponse_operation_id obj" 0]
  by (simp add: ig_DeleteLockResponse_fields_def ig_DeleteLockResponse_get_max_payload_in_bytes_def
    number_bytes_literal)

interpretation DeleteLockResponse_codec: ig_message ig_DeleteLockResponse_encode ig_DeleteLockResponse_decode
  ig_DeleteLockResponse_get_max_payload_in_bytes ig_DeleteLockResponse_is_valid
    ig_DeleteLockResponse_init ig_DeleteLockResponse_ok 86
  ig_DeleteLockResponse_fields_size ig_DeleteLockResponse_fields ig_DeleteLockResponse_cases
  by (unfold_locales;
      (rule ig_DeleteLockResponse_encode_def ig_DeleteLockResponse_decode_def | erule
        ig_DeleteLockResponse_store ig_DeleteLockResponse_bound |
       auto simp: ig_DeleteLockResponse_cases_def ig_DeleteLockResponse_fields_def
         ig_DeleteLockResponse_fields_size_def ig_DeleteLockResponse_ok_def
         simp del: arg_block_ok.simps(1,2) intro: str_ok_block))

subsection \<open>SetBridgeConfigurationRequest\<close>

record IgSetBridgeConfigurationRequest =
  SetBridgeConfigurationRequest_has_password :: bool
  SetBridgeConfigurationRequest_password :: block_ptr
  SetBridgeConfigurationRequest_password_size :: nat
  SetBridgeConfigurationRequest_has_ssid :: bool
  SetBridgeConfigurationRequest_ssid :: block_ptr
  SetBridgeConfigurationRequest_ssid_size :: nat
  SetBridgeConfigurationRequest_has_network_password :: bool
  SetBridgeConfigurationRequest_network_password :: block_ptr
  SetBridgeConfigurationRequest_network_password_size :: nat
  SetBridgeConfigurationRequest_has_mqtt_jwt_token :: bool
  SetBridgeConfigurationRequest_mqtt_jwt_token :: block_ptr
  SetBridgeConfigurationRequest_mqtt_jwt_token_size :: nat
  SetBridgeConfigurationRequest_has_operation_id :: bool
  SetBridgeConfigurationRequest_operation_id :: u32

definition ig_SetBridgeConfigurationRequest_init :: IgSetBridgeConfigurationRequest where
  "ig_SetBridgeConfigurationRequest_init =
     \<lparr>SetBridgeConfigurationRequest_has_password = False,
      SetBridgeConfigurationRequest_password = None,
      SetBridgeConfigurationRequest_password_size = 0,
      SetBridgeConfigurationRequest_has_ssid = False,
      SetBridgeConfigurationRequest_ssid = None,
      SetBridgeConfigurationRequest_ssid_size = 0,
      SetBridgeConfigurationRequest_has_network_password = False,
      SetBridgeConfigurationRequest_network_password = None,
      SetBridgeConfigurationRequest_network_password_size = 0,
      SetBridgeConfigurationRequest_has_mqtt_jwt_token = False,
      SetBridgeConfigurationRequest_mqtt_jwt_token = None,
      SetBridgeConfigurationRequest_mqtt_jwt_token_size = 0,
      SetBridgeConfigurationRequest_has_operation_id = False,
      SetBridgeConfigurationRequest_operation_id = 0\<rparr>"

definition ig_SetBridgeConfigurationRequest_get_password_size :: "IgSetBridgeConfigurationRequest
  \<Rightarrow> nat" where
  "ig_SetBridgeConfigurationRequest_get_password_size obj = SetBridgeConfigurationRequest_password_size obj"

definition ig_SetBridgeConfigurationRequest_set_password_nocopy ::
  "bool \<Rightarrow> block_ptr \<Rightarrow> nat \<Rightarrow> IgSetBridgeConfigurationRequest
    \<Rightarrow> IgSetBridgeConfigurationRequest" where
  "ig_SetBridgeConfigurationRequest_set_password_nocopy same_ptr p n obj =
     (if same_ptr then obj
      else let obj = (if SetBridgeConfigurationRequest_has_password obj then
        obj\<lparr>SetBridgeConfigurationRequest_password := None\<rparr> else obj)
        in obj\<lparr>SetBridgeConfigurationRequest_password := p,
          SetBridgeConfigurationRequest_password_size := n,
            SetBridgeConfigurationRequest_has_password := n > 0\<rparr>)"

definition ig_SetBridgeConfigurationRequest_set_password ::
  "bool \<Rightarrow> block_ptr \<Rightarrow> nat \<Rightarrow> IgSetBridgeConfigurationRequest
    \<Rightarrow> IgSetBridgeConfigurationRequest res" where
  "ig_SetBridgeConfigurationRequest_set_password same_ptr p n obj =
     (if same_ptr then Ok obj
      else let obj = (if SetBridgeConfigurationRequest_has_password obj then
        obj\<lparr>SetBridgeConfigurationRequest_password := None\<rparr> else obj)
        in bindR (block_read p n) (\<lambda>d.
          Ok (obj\<lparr>SetBridgeConfigurationRequest_password := Some d,
            SetBridgeConfigurationRequest_password_size := n,
              SetBridgeConfigurationRequest_has_password := n > 0\<rparr>)))"

definition ig_SetBridgeConfigurationRequest_get_ssid_size :: "IgSetBridgeConfigurationRequest
  \<Rightarrow> nat" where
  "ig_SetBridgeConfigurationRequest_get_ssid_size obj = SetBridgeConfigurationRequest_ssid_size obj"

definition ig_SetBridgeConfigurationRequest_set_ssid_nocopy ::
  "bool \<Rightarrow> block_ptr \<Rightarrow> nat \<Rightarrow> IgSetBridgeConfigurationRequest
    \<Rightarrow> IgSetBridgeConfigurationRequest" where
  "ig_SetBridgeConfigurationRequest_set_ssid_nocopy same_ptr p n obj =
     (if same_ptr then obj
      else let obj = (if SetBridgeConfigurationRequest_has_ssid obj then
        obj\<lparr>SetBridgeConfigurationRequest_ssid := None\<rparr> else obj)
        in obj\<lparr>SetBridgeConfigurationRequest_ssid := p,
          SetBridgeConfigurationRequest_ssid_size := n, SetBridgeConfigurationRequest_has_ssid := n
            > 0\<rparr>)"

definition ig_SetBridgeConfigurationRequest_set_ssid ::
  "bool \<Rightarrow> block_ptr \<Rightarrow> nat \<Rightarrow> IgSetBridgeConfigurationRequest
    \<Rightarrow> IgSetBridgeConfigurationRequest res" where
  "ig_SetBridgeConfigurationRequest_set_ssid same_ptr p n obj =
     (if same_ptr then Ok obj
      else let obj = (if SetBridgeConfigurationRequest_has_ssid obj then
        obj\<lparr>SetBridgeConfigurationRequest_ssid := None\<rparr> else obj)
        in bindR (block_read p n) (\<lambda>d.
          Ok (obj\<lparr>SetBridgeConfigurationRequest_ssid := Some d,
            SetBridgeConfigurationRequest_ssid_size := n, SetBridgeConfigurationRequest_has_ssid :=
              n > 0\<rparr>)))"

definition ig_SetBridgeConfigurationRequest_get_network_password_size ::
  "IgSetBridgeConfigurationRequest \<Rightarrow> nat" where
  "ig_SetBridgeConfigurationRequest_get_network_password_size obj =
    SetBridgeConfigurationRequest_network_password_size obj"

definition ig_SetBridgeConfigurationRequest_set_network_password_nocopy ::
  "bool \<Rightarrow> block_ptr \<Rightarrow> nat \<Rightarrow> IgSetBridgeConfigurationRequest
    \<Rightarrow> IgSetBridgeConfigurationRequest" where
  "ig_SetBridgeConfigurationRequest_set_network_password_nocopy same_ptr p n obj =
     (if same_ptr then obj
      else let obj = (if SetBridgeConfigurationRequest_has_network_password obj then
        obj\<lparr>SetBridgeConfigurationRequest_network_password := None\<rparr> else obj)
        in obj\<lparr>SetBridgeConfigurationRequest_network_password := p,
          SetBridgeConfigurationRequest_network_password_size := n,
            SetBridgeConfigurationRequest_has_network_password := n > 0\<rparr>)"

definition ig_SetBridgeConfigurationRequest_set_network_password ::
  "bool \<Rightarrow> block_ptr \<Rightarrow> nat \<Rightarrow> IgSetBridgeConfigurationRequest
    \<Rightarrow> IgSetBridgeConfigurationRequest res" where
  "ig_SetBridgeConfigurationRequest_set_network_password same_ptr p n obj =
     (if same_ptr then Ok obj
      else let obj = (if SetBridgeConfigurationRequest_has_network_password obj then
        obj\<lparr>SetBridgeConfigurationRequest_network_password := None\<rparr> else obj)
        in bindR (block_read p n) (\<lambda>d.
          Ok (obj\<lparr>SetBridgeConfigurationRequest_network_password := Some d,
            SetBridgeConfigurationRequest_network_password_size := n,
              SetBridgeConfigurationRequest_has_network_password := n > 0\<rparr>)))"

definition ig_SetBridgeConfigurationRequest_get_mqtt_jwt_token_size ::
  "IgSetBridgeConfigurationRequest \<Rightarrow> nat" where
  "ig_SetBridgeConfigurationRequest_get_mqtt_jwt_token_size obj =
    SetBridgeConfigurationRequest_mqtt_jwt_token_size obj"

definition ig_SetBridgeConfigurationRequest_set_mqtt_jwt_token_nocopy ::
  "bool \<Rightarrow> block_ptr \<Rightarrow> nat \<Rightarrow> IgSetBridgeConfigurationRequest
    \<Rightarrow> IgSetBridgeConfigurationRequest" where
  "ig_SetBridgeConfigurationRequest_set_mqtt_jwt_token_nocopy same_ptr p n obj =
     (if same_ptr then obj
      else let obj = (if SetBridgeConfigurationRequest_has_mqtt_jwt_token obj then
        obj\<lparr>SetBridgeConfigurationRequest_mqtt_jwt_token := None\<rparr> else obj)
        in obj\<lparr>SetBridgeConfigurationRequest_mqtt_jwt_token := p,
          SetBridgeConfigurationRequest_mqtt_jwt_token_size := n,
            SetBridgeConfigurationRequest_has_mqtt_jwt_token := n > 0\<rparr>)"

definition ig_SetBridgeConfigurationRequest_set_mqtt_jwt_token ::
  "bool \<Rightarrow> block_ptr \<Rightarrow> nat \<Rightarrow> IgSetBridgeConfigurationRequest
    \<Rightarrow> IgSetBridgeConfigurationRequest res" where
  "ig_SetBridgeConfigurationRequest_set_mqtt_jwt_token same_ptr p n obj =
     (if same_ptr then Ok obj
      else let obj = (if SetBridgeConfigurationRequest_has_mqtt_jwt_token obj then
        obj\<lparr>SetBridgeConfigurationRequest_mqtt_jwt_token := None\<rparr> else obj)
        in bindR (block_read p n) (\<lambda>d.
          Ok (obj\<lparr>SetBridgeConfigurationRequest_mqtt_jwt_token := Some d,
            SetBridgeConfigurationRequest_mqtt_jwt_token_size := n,
              SetBridgeConfigurationRequest_has_mqtt_jwt_token := n > 0\<rparr>)))"

definition ig_SetBridgeConfigurationRequest_set_operation_id :: "u32 \<Rightarrow>
  IgSetBridgeConfigurationRequest \<Rightarrow> IgSetBridgeConfigurationRequest" where
  "ig_SetBridgeConfigurationRequest_set_operation_id v obj =
    obj\<lparr>SetBridgeConfigurationRequest_operation_id := v,
      SetBridgeConfigurationRequest_has_operation_id := True\<rparr>"

definition ig_SetBridgeConfigurationRequest_deinit :: "IgSetBridgeConfigurationRequest
  \<Rightarrow> IgSetBridgeConfigurationRequest" where
  "ig_SetBridgeConfigurationRequest_deinit obj = (let
     obj = (if SetBridgeConfigurationRequest_has_password obj then
       obj\<lparr>SetBridgeConfigurationRequest_password := None\<rparr> else obj);
     obj = (if SetBridgeConfigurationRequest_has_ssid obj then
       obj\<lparr>SetBridgeConfigurationRequest_ssid := None\<rparr> else obj);
     obj = (if SetBridgeConfigurationRequest_has_network_password obj then
       obj\<lparr>SetBridgeConfigurationRequest_network_password := None\<rparr> else obj);
     obj = (if SetBridgeConfigurationRequest_has_mqtt_jwt_token obj then
       obj\<lparr>SetBridgeConfigurationRequest_mqtt_jwt_token := None\<rparr> else obj)
   in obj)"

definition ig_SetBridgeConfigurationRequest_is_valid :: "IgSetBridgeConfigurationRequest
  \<Rightarrow> bool" where
  "ig_SetBridgeConfigurationRequest_is_valid obj \<longleftrightarrow> True"

definition ig_SetBridgeConfigurationRequest_get_max_payload_in_bytes ::
  "IgSetBridgeConfigurationRequest \<Rightarrow> u32" where
  "ig_SetBridgeConfigurationRequest_get_max_payload_in_bytes obj = word_of_nat (47 +
    SetBridgeConfigurationRequest_password_size obj + SetBridgeConfigurationRequest_ssid_size obj +
      SetBridgeConfigurationRequest_network_password_size obj +
        SetBridgeConfigurationRequest_mqtt_jwt_token_size obj)"

definition ig_SetBridgeConfigurationRequest_fields_size :: "IgSetBridgeConfigurationRequest
  \<Rightarrow> u64" where
  "ig_SetBridgeConfigurationRequest_fields_size obj = 1 + 0 + of_bool
    (SetBridgeConfigurationRequest_has_password obj) + of_bool
      (SetBridgeConfigurationRequest_has_ssid obj) + of_bool
        (SetBridgeConfigurationRequest_has_network_password obj) + of_bool
          (SetBridgeConfigurationRequest_has_mqtt_jwt_token obj) + of_bool
            (SetBridgeConfigurationRequest_has_operation_id obj)"

definition ig_SetBridgeConfigurationRequest_fields :: "IgSetBridgeConfigurationRequest
  \<Rightarrow> enc_field list" where
  "ig_SetBridgeConfigurationRequest_fields obj =
    [(SetBridgeConfigurationRequest_has_password obj, 11, ABytes
      (SetBridgeConfigurationRequest_password obj) (SetBridgeConfigurationRequest_password_size obj)),
     (SetBridgeConfigurationRequest_has_ssid obj, 12, AText (SetBridgeConfigurationRequest_ssid
       obj) (SetBridgeConfigurationRequest_ssid_size obj)),
     (SetBridgeConfigurationRequest_has_network_password obj, 13, AText
       (SetBridgeConfigurationRequest_network_password obj)
         (SetBridgeConfigurationRequest_network_password_size obj)),
     (SetBridgeConfigurationRequest_has_mqtt_jwt_token obj, 14, ABytes
       (SetBridgeConfigurationRequest_mqtt_jwt_token obj)
         (SetBridgeConfigurationRequest_mqtt_jwt_token_size obj)),
     (SetBridgeConfigurationRequest_has_operation_id obj, 100, AUint (ucast
       (SetBridgeConfigurationRequest_operation_id obj)))]"

definition ig_SetBridgeConfigurationRequest_encode ::
  "IgSetBridgeConfigurationRequest \<Rightarrow> bytes \<Rightarrow> u32 \<Rightarrow> (nat
    \<times> bytes \<times> nat option) res" where
  "ig_SetBridgeConfigurationRequest_encode obj retval len =
     (if \<not> ig_SetBridgeConfigurationRequest_is_valid obj then Ok
       (IgSerializerErrorInvalidPayload, retval, None)
      else ig_encode (ig_SetBridgeConfigurationRequest_fields_size obj) 89
        (ig_SetBridgeConfigurationRequest_fields obj) retval len)"

definition ig_SetBridgeConfigurationRequest_cases :: "(i64 \<times> IgSetBridgeConfigurationRequest
  case_body) list" where
  "ig_SetBridgeConfigurationRequest_cases =
    [(0, CMsgId 89),
     (11, CBytes (ig_SetBridgeConfigurationRequest_set_password_nocopy False)),
     (12, CText (ig_SetBridgeConfigurationRequest_set_ssid_nocopy False)),
     (13, CText (ig_SetBridgeConfigurationRequest_set_network_password_nocopy False)),
     (14, CBytes (ig_SetBridgeConfigurationRequest_set_mqtt_jwt_token_nocopy False)),
     (100, CUint (\<lambda>v. ig_SetBridgeConfigurationRequest_set_operation_id (ucast v)))]"

definition ig_SetBridgeConfigurationRequest_decode :: "bytes \<Rightarrow>
  IgSetBridgeConfigurationRequest \<Rightarrow> nat \<Rightarrow> (nat \<times>
    IgSetBridgeConfigurationRequest) res" where
  "ig_SetBridgeConfigurationRequest_decode buf obj index = ig_decode
    ig_SetBridgeConfigurationRequest_cases buf obj index"

definition ig_SetBridgeConfigurationRequest_ok :: "IgSetBridgeConfigurationRequest \<Rightarrow> bool" where
  "ig_SetBridgeConfigurationRequest_ok obj \<longleftrightarrow>
    ig_SetBridgeConfigurationRequest_is_valid obj \<and>
     str_ok (SetBridgeConfigurationRequest_has_password obj)
       (SetBridgeConfigurationRequest_password obj) (SetBridgeConfigurationRequest_password_size obj) \<and>
     str_ok (SetBridgeConfigurationRequest_has_ssid obj) (SetBridgeConfigurationRequest_ssid obj)
       (SetBridgeConfigurationRequest_ssid_size obj) \<and>
     str_ok (SetBridgeConfigurationRequest_has_network_password obj)
       (SetBridgeConfigurationRequest_network_password obj)
         (SetBridgeConfigurationRequest_network_password_size obj) \<and>
     str_ok (SetBridgeConfigurationRequest_has_mqtt_jwt_token obj)
       (SetBridgeConfigurationRequest_mqtt_jwt_token obj)
         (SetBridgeConfigurationRequest_mqtt_jwt_token_size obj) \<and>
     num_ok (SetBridgeConfigurationRequest_has_operation_id obj)
       (SetBridgeConfigurationRequest_operation_id obj)"

lemmas ig_SetBridgeConfigurationRequest_setters =
  ig_SetBridgeConfigurationRequest_set_mqtt_jwt_token_nocopy_def
  ig_SetBridgeConfigurationRequest_set_network_password_nocopy_def
  ig_SetBridgeConfigurationRequest_set_operation_id_def
  ig_SetBridgeConfigurationRequest_set_password_nocopy_def
  ig_SetBridgeConfigurationRequest_set_ssid_nocopy_def

text \<open>A guarded setter, member by member.\<close>
lemma ig_SetBridgeConfigurationRequest_set_if:
  "(if g then ig_SetBridgeConfigurationRequest_set_password_nocopy False p n obj else obj) =
     obj\<lparr>SetBridgeConfigurationRequest_password := pick g p
       (SetBridgeConfigurationRequest_password obj),
       SetBridgeConfigurationRequest_password_size := pick g n
         (SetBridgeConfigurationRequest_password_size obj),
       SetBridgeConfigurationRequest_has_password := pick g (n > 0)
         (SetBridgeConfigurationRequest_has_password obj)\<rparr>"
  "(if g then ig_SetBridgeConfigurationRequest_set_ssid_nocopy False p n obj else obj) =
     obj\<lparr>SetBridgeConfigurationRequest_ssid := pick g p (SetBridgeConfigurationRequest_ssid obj),
       SetBridgeConfigurationRequest_ssid_size := pick g n (SetBridgeConfigurationRequest_ssid_size obj),
       SetBridgeConfigurationRequest_has_ssid := pick g (n > 0)
         (SetBridgeConfigurationRequest_has_ssid obj)\<rparr>"
  "(if g then ig_SetBridgeConfigurationRequest_set_network_password_nocopy False p n obj else obj) =
     obj\<lparr>SetBridgeConfigurationRequest_network_password := pick g p
       (SetBridgeConfigurationRequest_network_password obj),
       SetBridgeConfigurationRequest_network_password_size := pick g n
         (SetBridgeConfigurationRequest_network_password_size obj),
       SetBridgeConfigurationRequest_has_network_password := pick g (n > 0)
         (SetBridgeConfigurationRequest_has_network_password obj)\<rparr>"
  "(if g then ig_SetBridgeConfigurationRequest_set_mqtt_jwt_token_nocopy False p n obj else obj) =
     obj\<lparr>SetBridgeConfigurationRequest_mqtt_jwt_token := pick g p
       (SetBridgeConfigurationRequest_mqtt_jwt_token obj),
       SetBridgeConfigurationRequest_mqtt_jwt_token_size := pick g n
         (SetBridgeConfigurationRequest_mqtt_jwt_token_size obj),
       SetBridgeConfigurationRequest_has_mqtt_jwt_token := pick g (n > 0)
         (SetBridgeConfigurationRequest_has_mqtt_jwt_token obj)\<rparr>"
  "(if g then ig_SetBridgeConfigurationRequest_set_operation_id v4 obj else obj) =
     obj\<lparr>SetBridgeConfigurationRequest_operation_id := pick g v4
       (SetBridgeConfigurationRequest_operation_id obj),
       SetBridgeConfigurationRequest_has_operation_id := g \<or>
         SetBridgeConfigurationRequest_has_operation_id obj\<rparr>"
  by (simp_all add: ig_SetBridgeConfigurationRequest_setters pick_def)

lemma ig_SetBridgeConfigurationRequest_store:
  assumes ok: "ig_SetBridgeConfigurationRequest_ok obj"
  shows "store_fields ig_SetBridgeConfigurationRequest_cases
    (ig_SetBridgeConfigurationRequest_fields obj) ig_SetBridgeConfigurationRequest_init = Some obj"
proof -
  have h: "str_ok (SetBridgeConfigurationRequest_has_password obj)
    (SetBridgeConfigurationRequest_password obj) (SetBridgeConfigurationRequest_password_size obj)"
    "str_ok (SetBridgeConfigurationRequest_has_ssid obj) (SetBridgeConfigurationRequest_ssid obj)
      (SetBridgeConfigurationRequest_ssid_size obj)"
    "str_ok (SetBridgeConfigurationRequest_has_network_password obj)
      (SetBridgeConfigurationRequest_network_password obj)
        (SetBridgeConfigurationRequest_network_password_size obj)"
    "str_ok (SetBridgeConfigurationRequest_has_mqtt_jwt_token obj)
      (SetBridgeConfigurationRequest_mqtt_jwt_token obj)
        (SetBridgeConfigurationRequest_mqtt_jwt_token_size obj)"
    "num_ok (SetBridgeConfigurationRequest_has_operation_id obj)
      (SetBridgeConfigurationRequest_operation_id obj)"
    and valid: "ig_SetBridgeConfigurationRequest_is_valid obj"
    using ok by (simp_all add: ig_SetBridgeConfigurationRequest_ok_def)
  show ?thesis
    using valid
    by (simp add: ig_SetBridgeConfigurationRequest_fields_def
      ig_SetBridgeConfigurationRequest_cases_def ig_SetBridgeConfigurationRequest_init_def codec_simps
        ig_SetBridgeConfigurationRequest_set_if ig_SetBridgeConfigurationRequest_setters split del: if_split)
       (simp add: ig_SetBridgeConfigurationRequest_is_valid_def
         str_ok_store [OF h(1)]
         str_ok_store [OF h(2)]
         str_ok_store [OF h(3)]
         str_ok_store [OF h(4)]
         num_ok_store [OF h(5)])
qed

lemma ig_SetBridgeConfigurationRequest_bound:
  assumes "ig_SetBridgeConfigurationRequest_ok obj"
  shows "2 + length (number_bytes 89 MtUnsigned) + fields_bound (ig_SetBridgeConfigurationRequest_fields obj)
    \<le> unat (ig_SetBridgeConfigurationRequest_get_max_payload_in_bytes obj)"
proof -
  have sizes: "SetBridgeConfigurationRequest_password_size obj < 2 ^ 24"
    "SetBridgeConfigurationRequest_ssid_size obj < 2 ^ 24"
      "SetBridgeConfigurationRequest_network_password_size obj < 2 ^ 24"
        "SetBridgeConfigurationRequest_mqtt_jwt_token_size obj < 2 ^ 24"
    using assms by (auto simp: ig_SetBridgeConfigurationRequest_ok_def dest!: str_ok_bound)
  show ?thesis
    using sizes number_bytes_size [of "SetBridgeConfigurationRequest_password_size obj" "0x40"]
      number_bytes_size [of "SetBridgeConfigurationRequest_ssid_size obj" "0x60"]
      number_bytes_size [of "SetBridgeConfigurationRequest_network_password_size obj" "0x60"]
      number_bytes_size [of "SetBridgeConfigurationRequest_mqtt_jwt_token_size obj" "0x40"]
      number_bytes_u32 [of "SetBridgeConfigurationRequest_operation_id obj" 0]
    by (simp add: ig_SetBridgeConfigurationRequest_fields_def
      ig_SetBridgeConfigurationRequest_get_max_payload_in_bytes_def number_bytes_literal
        unat_of_nat_small del: of_nat_add)
qed

interpretation SetBridgeConfigurationRequest_codec: ig_message
  ig_SetBridgeConfigurationRequest_encode ig_SetBridgeConfigurationRequest_decode
  ig_SetBridgeConfigurationRequest_get_max_payload_in_bytes
    ig_SetBridgeConfigurationRequest_is_valid ig_SetBridgeConfigurationRequest_init
      ig_SetBridgeConfigurationRequest_ok 89
  ig_SetBridgeConfigurationRequest_fields_size ig_SetBridgeConfigurationRequest_fields
    ig_SetBridgeConfigurationRequest_cases
  by (unfold_locales;
      (rule ig_SetBridgeConfigurationRequest_encode_def ig_SetBridgeConfigurationRequest_decode_def
        | erule ig_SetBridgeConfigurationRequest_store ig_SetBridgeConfigurationRequest_bound |
       auto simp: ig_SetBridgeConfigurationRequest_cases_def
         ig_SetBridgeConfigurationRequest_fields_def
           ig_SetBridgeConfigurationRequest_fields_size_def ig_SetBridgeConfigurationRequest_ok_def
         simp del: arg_block_ok.simps(1,2) intro: str_ok_block))

subsection \<open>SetBridgeConfigurationResponse\<close>

record IgSetBridgeConfigurationResponse =
  SetBridgeConfigurationResponse_has_result :: bool
  SetBridgeConfigurationResponse_result :: u8
  SetBridgeConfigurationResponse_has_operation_id :: bool
  SetBridgeConfigurationResponse_operation_id :: u32

definition ig_SetBridgeConfigurationResponse_init :: IgSetBridgeConfigurationResponse where
  "ig_SetBridgeConfigurationResponse_init =
     \<lparr>SetBridgeConfigurationResponse_has_result = False,
      SetBridgeConfigurationResponse_result = 0,
      SetBridgeConfigurationResponse_has_operation_id = False,
      SetBridgeConfigurationResponse_operation_id = 0\<rparr>"

definition ig_SetBridgeConfigurationResponse_set_result :: "u8 \<Rightarrow>
  IgSetBridgeConfigurationResponse \<Rightarrow> IgSetBridgeConfigurationResponse" where
  "ig_SetBridgeConfigurationResponse_set_result v obj =
    obj\<lparr>SetBridgeConfigurationResponse_result := v,
      SetBridgeConfigurationResponse_has_result := True\<rparr>"

definition ig_SetBridgeConfigurationResponse_set_operation_id :: "u32 \<Rightarrow>
  IgSetBridgeConfigurationResponse \<Rightarrow> IgSetBridgeConfigurationResponse" where
  "ig_SetBridgeConfigurationResponse_set_operation_id v obj =
    obj\<lparr>SetBridgeConfigurationResponse_operation_id := v,
      SetBridgeConfigurationResponse_has_operation_id := True\<rparr>"

definition ig_SetBridgeConfigurationResponse_deinit :: "IgSetBridgeConfigurationResponse
  \<Rightarrow> IgSetBridgeConfigurationResponse" where
  "ig_SetBridgeConfigurationResponse_deinit obj = obj"

definition ig_SetBridgeConfigurationResponse_is_valid :: "IgSetBridgeConfigurationResponse
  \<Rightarrow> bool" where
  "ig_SetBridgeConfigurationResponse_is_valid obj \<longleftrightarrow> True"

definition ig_SetBridgeConfigurationResponse_get_max_payload_in_bytes ::
  "IgSetBridgeConfigurationResponse \<Rightarrow> u32" where
  "ig_SetBridgeConfigurationResponse_get_max_payload_in_bytes obj = 22"

definition ig_SetBridgeConfigurationResponse_fields_size :: "IgSetBridgeConfigurationResponse
  \<Rightarrow> u64" where
  "ig_SetBridgeConfigurationResponse_fields_size obj = 1 + 0 + of_bool
    (SetBridgeConfigurationResponse_has_result obj) + of_bool
      (SetBridgeConfigurationResponse_has_operation_id obj)"

definition ig_SetBridgeConfigurationResponse_fields :: "IgSetBridgeConfigurationResponse
  \<Rightarrow> enc_field list" where
  "ig_SetBridgeConfigurationResponse_fields obj =
    [(SetBridgeConfigurationResponse_has_result obj, 11, AUint (ucast
      (SetBridgeConfigurationResponse_result obj))),
     (SetBridgeConfigurationResponse_has_operation_id obj, 100, AUint (ucast
       (SetBridgeConfigurationResponse_operation_id obj)))]"

definition ig_SetBridgeConfigurationResponse_encode ::
  "IgSetBridgeConfigurationResponse \<Rightarrow> bytes \<Rightarrow> u32 \<Rightarrow> (nat
    \<times> bytes \<times> nat option) res" where
  "ig_SetBridgeConfigurationResponse_encode obj retval len =
     (if \<not> ig_SetBridgeConfigurationResponse_is_valid obj then Ok
       (IgSerializerErrorInvalidPayload, retval, None)
      else ig_encode (ig_SetBridgeConfigurationResponse_fields_size obj) 90
        (ig_SetBridgeConfigurationResponse_fields obj) retval len)"

definition ig_SetBridgeConfigurationResponse_cases :: "(i64 \<times>
  IgSetBridgeConfigurationResponse case_body) list" where
  "ig_SetBridgeConfigurationResponse_cases =
    [(0, CMsgId 90),
     (11, CUint (\<lambda>v. ig_SetBridgeConfigurationResponse_set_result (ucast v))),
     (100, CUint (\<lambda>v. ig_SetBridgeConfigurationResponse_set_operation_id (ucast v)))]"

definition ig_SetBridgeConfigurationResponse_decode :: "bytes \<Rightarrow>
  IgSetBridgeConfigurationResponse \<Rightarrow> nat \<Rightarrow> (nat \<times>
    IgSetBridgeConfigurationResponse) res" where
  "ig_SetBridgeConfigurationResponse_decode buf obj index = ig_decode
    ig_SetBridgeConfigurationResponse_cases buf obj index"

definition ig_SetBridgeConfigurationResponse_ok :: "IgSetBridgeConfigurationResponse \<Rightarrow> bool" where
  "ig_SetBridgeConfigurationResponse_ok obj \<longleftrightarrow>
    ig_SetBridgeConfigurationResponse_is_valid obj \<and>
     num_ok (SetBridgeConfigurationResponse_has_result obj) (SetBridgeConfigurationResponse_result obj) \<and>
     num_ok (SetBridgeConfigurationResponse_has_operation_id obj)
       (SetBridgeConfigurationResponse_operation_id obj)"

lemmas ig_SetBridgeConfigurationResponse_setters =
  ig_SetBridgeConfigurationResponse_set_operation_id_def
  ig_SetBridgeConfigurationResponse_set_result_def

text \<open>A guarded setter, member by member.\<close>
lemma ig_SetBridgeConfigurationResponse_set_if:
  "(if g then ig_SetBridgeConfigurationResponse_set_result v0 obj else obj) =
     obj\<lparr>SetBridgeConfigurationResponse_result := pick g v0
       (SetBridgeConfigurationResponse_result obj),
       SetBridgeConfigurationResponse_has_result := g \<or>
         SetBridgeConfigurationResponse_has_result obj\<rparr>"
  "(if g then ig_SetBridgeConfigurationResponse_set_operation_id v1 obj else obj) =
     obj\<lparr>SetBridgeConfigurationResponse_operation_id := pick g v1
       (SetBridgeConfigurationResponse_operation_id obj),
       SetBridgeConfigurationResponse_has_operation_id := g \<or>
         SetBridgeConfigurationResponse_has_operation_id obj\<rparr>"
  by (simp_all add: ig_SetBridgeConfigurationResponse_setters pick_def)

lemma ig_SetBridgeConfigurationResponse_store:
  assumes ok: "ig_SetBridgeConfigurationResponse_ok obj"
  shows "store_fields ig_SetBridgeConfigurationResponse_cases
    (ig_SetBridgeConfigurationResponse_fields obj) ig_SetBridgeConfigurationResponse_init = Some obj"
proof -
  have h: "num_ok (SetBridgeConfigurationResponse_has_result obj) (SetBridgeConfigurationResponse_result obj)"
    "num_ok (SetBridgeConfigurationResponse_has_operation_id obj)
      (SetBridgeConfigurationResponse_operation_id obj)"
    and valid: "ig_SetBridgeConfigurationResponse_is_valid obj"
    using ok by (simp_all add: ig_SetBridgeConfigurationResponse_ok_def)
  show ?thesis
    using valid
    by (simp add: ig_SetBridgeConfigurationResponse_fields_def
      ig_SetBridgeConfigurationResponse_cases_def ig_SetBridgeConfigurationResponse_init_def codec_simps
        ig_SetBridgeConfigurationResponse_set_if ig_SetBridgeConfigurationResponse_setters split
          del: if_split)
       (simp add: ig_SetBridgeConfigurationResponse_is_valid_def
         num_ok_store [OF h(1)]
         num_ok_store [OF h(2)])
qed

lemma ig_SetBridgeConfigurationResponse_bound:
  assumes "ig_SetBridgeConfigurationResponse_ok obj"
  shows "2 + length (number_bytes 90 MtUnsigned) + fields_bound (ig_SetBridgeConfigurationResponse_fields obj)
    \<le> unat (ig_SetBridgeConfigurationResponse_get_max_payload_in_bytes obj)"
  using number_bytes_u8 [of "SetBridgeConfigurationResponse_result obj" 0]
    number_bytes_u32 [of "SetBridgeConfigurationResponse_operation_id obj" 0]
  by (simp add: ig_SetBridgeConfigurationResponse_fields_def
    ig_SetBridgeConfigurationResponse_get_max_payload_in_bytes_def number_bytes_literal)

interpretation SetBridgeConfigurationResponse_codec: ig_message
  ig_SetBridgeConfigurationResponse_encode ig_SetBridgeConfigurationResponse_decode
  ig_SetBridgeConfigurationResponse_get_max_payload_in_bytes
    ig_SetBridgeConfigurationResponse_is_valid ig_SetBridgeConfigurationResponse_init
      ig_SetBridgeConfigurationResponse_ok 90
  ig_SetBridgeConfigurationResponse_fields_size ig_SetBridgeConfigurationResponse_fields
    ig_SetBridgeConfigurationResponse_cases
  by (unfold_locales;
      (rule ig_SetBridgeConfigurationResponse_encode_def
        ig_SetBridgeConfigurationResponse_decode_def | erule
          ig_SetBridgeConfigurationResponse_store ig_SetBridgeConfigurationResponse_bound |
       auto simp: ig_SetBridgeConfigurationResponse_cases_def
         ig_SetBridgeConfigurationResponse_fields_def
           ig_SetBridgeConfigurationResponse_fields_size_def ig_SetBridgeConfigurationResponse_ok_def
         simp del: arg_block_ok.simps(1,2) intro: str_ok_block))

subsection \<open>SetNbConfigurationRequest\<close>

record IgSetNbConfigurationRequest =
  SetNbConfigurationRequest_has_password :: bool
  SetNbConfigurationRequest_password :: block_ptr
  SetNbConfigurationRequest_password_size :: nat
  SetNbConfigurationRequest_has_cell_apn :: bool
  SetNbConfigurationRequest_cell_apn :: block_ptr
  SetNbConfigurationRequest_cell_apn_size :: nat
  SetNbConfigurationRequest_has_cell_dns :: bool
  SetNbConfigurationRequest_cell_dns :: block_ptr
  SetNbConfigurationRequest_cell_dns_size :: nat
  SetNbConfigurationRequest_has_cell_network_type :: bool
  SetNbConfigurationRequest_cell_network_type :: u8
  SetNbConfigurationRequest_has_cell_network_band :: bool
  SetNbConfigurationRequest_cell_network_band :: u8
  SetNbConfigurationRequest_has_nb_power_saving_mode_enabled :: bool
  SetNbConfigurationRequest_nb_power_saving_mode_enabled :: bool
  SetNbConfigurationRequest_has_nb_power_saving_mode_active_timer :: bool
  SetNbConfigurationRequest_nb_power_saving_mode_active_timer :: u16
  SetNbConfigurationRequest_has_nb_power_saving_mode_tau :: bool
  SetNbConfigurationRequest_nb_power_saving_mode_tau :: u16
  SetNbConfigurationRequest_has_nb_mqtt_topic :: bool
  SetNbConfigurationRequest_nb_mqtt_topic :: block_ptr
  SetNbConfigurationRequest_nb_mqtt_topic_size :: nat
  SetNbConfigurationRequest_has_nb_mqtt_broker_url :: bool
  SetNbConfigurationRequest_nb_mqtt_broker_url :: block_ptr
  SetNbConfigurationRequest_nb_mqtt_broker_url_size :: nat
  SetNbConfigurationRequest_has_nb_mqtt_broker_port :: bool
  SetNbConfigurationRequest_nb_mqtt_broker_port :: block_ptr
  SetNbConfigurationRequest_nb_mqtt_broker_port_size :: nat
  SetNbConfigurationRequest_has_operation_id :: bool
  SetNbConfigurationRequest_operation_id :: u32

definition ig_SetNbConfigurationRequest_init :: IgSetNbConfigurationRequest where
  "ig_SetNbConfigurationRequest_init =
     \<lparr>SetNbConfigurationRequest_has_password = False,
      SetNbConfigurationRequest_password = None,
      SetNbConfigurationRequest_password_size = 0,
      SetNbConfigurationRequest_has_cell_apn = False,
      SetNbConfigurationRequest_cell_apn = None,
      SetNbConfigurationRequest_cell_apn_size = 0,
      SetNbConfigurationRequest_has_cell_dns = False,
      SetNbConfigurationRequest_cell_dns = None,
      SetNbConfigurationRequest_cell_dns_size = 0,
      SetNbConfigurationRequest_has_cell_network_type = False,
      SetNbConfigurationRequest_cell_network_type = 0,
      SetNbConfigurationRequest_has_cell_network_band = False,
      SetNbConfigurationRequest_cell_network_band = 0,
      SetNbConfigurationRequest_has_nb_power_saving_mode_enabled = False,
      SetNbConfigurationRequest_nb_power_saving_mode_enabled = False,
      SetNbConfigurationRequest_has_nb_power_saving_mode_active_timer = False,
      SetNbConfigurationRequest_nb_power_saving_mode_active_timer = 0,
      SetNbConfigurationRequest_has_nb_power_saving_mode_tau = False,
      SetNbConfigurationRequest_nb_power_saving_mode_tau = 0,
      SetNbConfigurationRequest_has_nb_mqtt_topic = False,
      SetNbConfigurationRequest_nb_mqtt_topic = None,
      SetNbConfigurationRequest_nb_mqtt_topic_size = 0,
      SetNbConfigurationRequest_has_nb_mqtt_broker_url = False,
      SetNbConfigurationRequest_nb_mqtt_broker_url = None,
      SetNbConfigurationRequest_nb_mqtt_broker_url_size = 0,
      SetNbConfigurationRequest_has_nb_mqtt_broker_port = False,
      SetNbConfigurationRequest_nb_mqtt_broker_port = None,
      SetNbConfigurationRequest_nb_mqtt_broker_port_size = 0,
      SetNbConfigurationRequest_has_operation_id = False,
      SetNbConfigurationRequest_operation_id = 0\<rparr>"

definition ig_SetNbConfigurationRequest_get_password_size :: "IgSetNbConfigurationRequest
  \<Rightarrow> nat" where
  "ig_SetNbConfigurationRequest_get_password_size obj = SetNbConfigurationRequest_password_size obj"

definition ig_SetNbConfigurationRequest_set_password_nocopy ::
  "bool \<Rightarrow> block_ptr \<Rightarrow> nat \<Rightarrow> IgSetNbConfigurationRequest
    \<Rightarrow> IgSetNbConfigurationRequest" where
  "ig_SetNbConfigurationRequest_set_password_nocopy same_ptr p n obj =
     (if same_ptr then obj
      else let obj = (if SetNbConfigurationRequest_has_password obj then
        obj\<lparr>SetNbConfigurationRequest_password := None\<rparr> else obj)
        in obj\<lparr>SetNbConfigurationRequest_password := p,
          SetNbConfigurationRequest_password_size := n, SetNbConfigurationRequest_has_password := n
            > 0\<rparr>)"

definition ig_SetNbConfigurationRequest_set_password ::
  "bool \<Rightarrow> block_ptr \<Rightarrow> nat \<Rightarrow> IgSetNbConfigurationRequest
    \<Rightarrow> IgSetNbConfigurationRequest res" where
  "ig_SetNbConfigurationRequest_set_password same_ptr p n obj =
     (if same_ptr then Ok obj
      else let obj = (if SetNbConfigurationRequest_has_password obj then
        obj\<lparr>SetNbConfigurationRequest_password := None\<rparr> else obj)
        in bindR (block_read p n) (\<lambda>d.
          Ok (obj\<lparr>SetNbConfigurationRequest_password := Some d,
            SetNbConfigurationRequest_password_size := n, SetNbConfigurationRequest_has_password :=
              n > 0\<rparr>)))"

definition ig_SetNbConfigurationRequest_get_cell_apn_size :: "IgSetNbConfigurationRequest
  \<Rightarrow> nat" where
  "ig_SetNbConfigurationRequest_get_cell_apn_size obj = SetNbConfigurationRequest_cell_apn_size obj"

definition ig_SetNbConfigurationRequest_set_cell_apn_nocopy ::
  "bool \<Rightarrow> block_ptr \<Rightarrow> nat \<Rightarrow> IgSetNbConfigurationRequest
    \<Rightarrow> IgSetNbConfigurationRequest" where
  "ig_SetNbConfigurationRequest_set_cell_apn_nocopy same_ptr p n obj =
     (if same_ptr then obj
      else let obj = (if SetNbConfigurationRequest_has_cell_apn obj then
        obj\<lparr>SetNbConfigurationRequest_cell_apn := None\<rparr> else obj)
        in obj\<lparr>SetNbConfigurationRequest_cell_apn := p,
          SetNbConfigurationRequest_cell_apn_size := n, SetNbConfigurationRequest_has_cell_apn := n
            > 0\<rparr>)"

definition ig_SetNbConfigurationRequest_set_cell_apn ::
  "bool \<Rightarrow> block_ptr \<Rightarrow> nat \<Rightarrow> IgSetNbConfigurationRequest
    \<Rightarrow> IgSetNbConfigurationRequest res" where
  "ig_SetNbConfigurationRequest_set_cell_apn same_ptr p n obj =
     (if same_ptr then Ok obj
      else let obj = (if SetNbConfigurationRequest_has_cell_apn obj then
        obj\<lparr>SetNbConfigurationRequest_cell_apn := None\<rparr> else obj)
        in bindR (block_read p n) (\<lambda>d.
          Ok (obj\<lparr>SetNbConfigurationRequest_cell_apn := Some d,
            SetNbConfigurationRequest_cell_apn_size := n, SetNbConfigurationRequest_has_cell_apn :=
              n > 0\<rparr>)))"

definition ig_SetNbConfigurationRequest_get_cell_dns_size :: "IgSetNbConfigurationRequest
  \<Rightarrow> nat" where
  "ig_SetNbConfigurationRequest_get_cell_dns_size obj = SetNbConfigurationRequest_cell_dns_size obj"

definition ig_SetNbConfigurationRequest_set_cell_dns_nocopy ::
  "bool \<Rightarrow> block_ptr \<Rightarrow> nat \<Rightarrow> IgSetNbConfigurationRequest
    \<Rightarrow> IgSetNbConfigurationRequest" where
  "ig_SetNbConfigurationRequest_set_cell_dns_nocopy same_ptr p n obj =
     (if same_ptr then obj
      else let obj = (if SetNbConfigurationRequest_has_cell_dns obj then
        obj\<lparr>SetNbConfigurationRequest_cell_dns := None\<rparr> else obj)
        in obj\<lparr>SetNbConfigurationRequest_cell_dns := p,
          SetNbConfigurationRequest_cell_dns_size := n, SetNbConfigurationRequest_has_cell_dns := n
            > 0\<rparr>)"

definition ig_SetNbConfigurationRequest_set_cell_dns ::
  "bool \<Rightarrow> block_ptr \<Rightarrow> nat \<Rightarrow> IgSetNbConfigurationRequest
    \<Rightarrow> IgSetNbConfigurationRequest res" where
  "ig_SetNbConfigurationRequest_set_cell_dns same_ptr p n obj =
     (if same_ptr then Ok obj
      else let obj = (if SetNbConfigurationRequest_has_cell_dns obj then
        obj\<lparr>SetNbConfigurationRequest_cell_dns := None\<rparr> else obj)
        in bindR (block_read p n) (\<lambda>d.
          Ok (obj\<lparr>SetNbConfigurationRequest_cell_dns := Some d,
            SetNbConfigurationRequest_cell_dns_size := n, SetNbConfigurationRequest_has_cell_dns :=
              n > 0\<rparr>)))"

definition ig_SetNbConfigurationRequest_set_cell_network_type :: "u8 \<Rightarrow>
  IgSetNbConfigurationRequest \<Rightarrow> IgSetNbConfigurationRequest" where
  "ig_SetNbConfigurationRequest_set_cell_network_type v obj =
    obj\<lparr>SetNbConfigurationRequest_cell_network_type := v,
      SetNbConfigurationRequest_has_cell_network_type := True\<rparr>"

definition ig_SetNbConfigurationRequest_set_cell_network_band :: "u8 \<Rightarrow>
  IgSetNbConfigurationRequest \<Rightarrow> IgSetNbConfigurationRequest" where
  "ig_SetNbConfigurationRequest_set_cell_network_band v obj =
    obj\<lparr>SetNbConfigurationRequest_cell_network_band := v,
      SetNbConfigurationRequest_has_cell_network_band := True\<rparr>"

definition ig_SetNbConfigurationRequest_set_nb_power_saving_mode_enabled :: "bool \<Rightarrow>
  IgSetNbConfigurationRequest \<Rightarrow> IgSetNbConfigurationRequest" where
  "ig_SetNbConfigurationRequest_set_nb_power_saving_mode_enabled v obj =
    obj\<lparr>SetNbConfigurationRequest_nb_power_saving_mode_enabled := v,
      SetNbConfigurationRequest_has_nb_power_saving_mode_enabled := True\<rparr>"

definition ig_SetNbConfigurationRequest_set_nb_power_saving_mode_active_timer :: "u16 \<Rightarrow>
  IgSetNbConfigurationRequest \<Rightarrow> IgSetNbConfigurationRequest" where
  "ig_SetNbConfigurationRequest_set_nb_power_saving_mode_active_timer v obj =
    obj\<lparr>SetNbConfigurationRequest_nb_power_saving_mode_active_timer := v,
      SetNbConfigurationRequest_has_nb_power_saving_mode_active_timer := True\<rparr>"

definition ig_SetNbConfigurationRequest_set_nb_power_saving_mode_tau :: "u16 \<Rightarrow>
  IgSetNbConfigurationRequest \<Rightarrow> IgSetNbConfigurationRequest" where
  "ig_SetNbConfigurationRequest_set_nb_power_saving_mode_tau v obj =
    obj\<lparr>SetNbConfigurationRequest_nb_power_saving_mode_tau := v,
      SetNbConfigurationRequest_has_nb_power_saving_mode_tau := True\<rparr>"

definition ig_SetNbConfigurationRequest_get_nb_mqtt_topic_size :: "IgSetNbConfigurationRequest
  \<Rightarrow> nat" where
  "ig_SetNbConfigurationRequest_get_nb_mqtt_topic_size obj = SetNbConfigurationRequest_nb_mqtt_topic_size obj"

definition ig_SetNbConfigurationRequest_set_nb_mqtt_topic_nocopy ::
  "bool \<Rightarrow> block_ptr \<Rightarrow> nat \<Rightarrow> IgSetNbConfigurationRequest
    \<Rightarrow> IgSetNbConfigurationRequest" where
  "ig_SetNbConfigurationRequest_set_nb_mqtt_topic_nocopy same_ptr p n obj =
     (if same_ptr then obj
      else let obj = (if SetNbConfigurationRequest_has_nb_mqtt_topic obj then
        obj\<lparr>SetNbConfigurationRequest_nb_mqtt_topic := None\<rparr> else obj)
        in obj\<lparr>SetNbConfigurationRequest_nb_mqtt_topic := p,
          SetNbConfigurationRequest_nb_mqtt_topic_size := n,
            SetNbConfigurationRequest_has_nb_mqtt_topic := n > 0\<rparr>)"

definition ig_SetNbConfigurationRequest_set_nb_mqtt_topic ::
  "bool \<Rightarrow> block_ptr \<Rightarrow> nat \<Rightarrow> IgSetNbConfigurationRequest
    \<Rightarrow> IgSetNbConfigurationRequest res" where
  "ig_SetNbConfigurationRequest_set_nb_mqtt_topic same_ptr p n obj =
     (if same_ptr then Ok obj
      else let obj = (if SetNbConfigurationRequest_has_nb_mqtt_topic obj then
        obj\<lparr>SetNbConfigurationRequest_nb_mqtt_topic := None\<rparr> else obj)
        in bindR (block_read p n) (\<lambda>d.
          Ok (obj\<lparr>SetNbConfigurationRequest_nb_mqtt_topic := Some d,
            SetNbConfigurationRequest_nb_mqtt_topic_size := n,
              SetNbConfigurationRequest_has_nb_mqtt_topic := n > 0\<rparr>)))"

definition ig_SetNbConfigurationRequest_get_nb_mqtt_broker_url_size :: "IgSetNbConfigurationRequest
  \<Rightarrow> nat" where
  "ig_SetNbConfigurationRequest_get_nb_mqtt_broker_url_size obj =
    SetNbConfigurationRequest_nb_mqtt_broker_url_size obj"

definition ig_SetNbConfigurationRequest_set_nb_mqtt_broker_url_nocopy ::
  "bool \<Rightarrow> block_ptr \<Rightarrow> nat \<Rightarrow> IgSetNbConfigurationRequest
    \<Rightarrow> IgSetNbConfigurationRequest" where
  "ig_SetNbConfigurationRequest_set_nb_mqtt_broker_url_nocopy same_ptr p n obj =
     (if same_ptr then obj
      else let obj = (if SetNbConfigurationRequest_has_nb_mqtt_broker_url obj then
        obj\<lparr>SetNbConfigurationRequest_nb_mqtt_broker_url := None\<rparr> else obj)
        in obj\<lparr>SetNbConfigurationRequest_nb_mqtt_broker_url := p,
          SetNbConfigurationRequest_nb_mqtt_broker_url_size := n,
            SetNbConfigurationRequest_has_nb_mqtt_broker_url := n > 0\<rparr>)"

definition ig_SetNbConfigurationRequest_set_nb_mqtt_broker_url ::
  "bool \<Rightarrow> block_ptr \<Rightarrow> nat \<Rightarrow> IgSetNbConfigurationRequest
    \<Rightarrow> IgSetNbConfigurationRequest res" where
  "ig_SetNbConfigurationRequest_set_nb_mqtt_broker_url same_ptr p n obj =
     (if same_ptr then Ok obj
      else let obj = (if SetNbConfigurationRequest_has_nb_mqtt_broker_url obj then
        obj\<lparr>SetNbConfigurationRequest_nb_mqtt_broker_url := None\<rparr> else obj)
        in bindR (block_read p n) (\<lambda>d.
          Ok (obj\<lparr>SetNbConfigurationRequest_nb_mqtt_broker_url := Some d,
            SetNbConfigurationRequest_nb_mqtt_broker_url_size := n,
              SetNbConfigurationRequest_has_nb_mqtt_broker_url := n > 0\<rparr>)))"

definition ig_SetNbConfigurationRequest_get_nb_mqtt_broker_port_size ::
  "IgSetNbConfigurationRequest \<Rightarrow> nat" where
  "ig_SetNbConfigurationRequest_get_nb_mqtt_broker_port_size obj =
    SetNbConfigurationRequest_nb_mqtt_broker_port_size obj"

definition ig_SetNbConfigurationRequest_set_nb_mqtt_broker_port_nocopy ::
  "bool \<Rightarrow> block_ptr \<Rightarrow> nat \<Rightarrow> IgSetNbConfigurationRequest
    \<Rightarrow> IgSetNbConfigurationRequest" where
  "ig_SetNbConfigurationRequest_set_nb_mqtt_broker_port_nocopy same_ptr p n obj =
     (if same_ptr then obj
      else let obj = (if SetNbConfigurationRequest_has_nb_mqtt_broker_port obj then
        obj\<lparr>SetNbConfigurationRequest_nb_mqtt_broker_port := None\<rparr> else obj)
        in obj\<lparr>SetNbConfigurationRequest_nb_mqtt_broker_port := p,
          SetNbConfigurationRequest_nb_mqtt_broker_port_size := n,
            SetNbConfigurationRequest_has_nb_mqtt_broker_port := n > 0\<rparr>)"

definition ig_SetNbConfigurationRequest_set_nb_mqtt_broker_port ::
  "bool \<Rightarrow> block_ptr \<Rightarrow> nat \<Rightarrow> IgSetNbConfigurationRequest
    \<Rightarrow> IgSetNbConfigurationRequest res" where
  "ig_SetNbConfigurationRequest_set_nb_mqtt_broker_port same_ptr p n obj =
     (if same_ptr then Ok obj
      else let obj = (if SetNbConfigurationRequest_has_nb_mqtt_broker_port obj then
        obj\<lparr>SetNbConfigurationRequest_nb_mqtt_broker_port := None\<rparr> else obj)
        in bindR (block_read p n) (\<lambda>d.
          Ok (obj\<lparr>SetNbConfigurationRequest_nb_mqtt_broker_port := Some d,
            SetNbConfigurationRequest_nb_mqtt_broker_port_size := n,
              SetNbConfigurationRequest_has_nb_mqtt_broker_port := n > 0\<rparr>)))"

definition ig_SetNbConfigurationRequest_set_operation_id :: "u32 \<Rightarrow>
  IgSetNbConfigurationRequest \<Rightarrow> IgSetNbConfigurationRequest" where
  "ig_SetNbConfigurationRequest_set_operation_id v obj =
    obj\<lparr>SetNbConfigurationRequest_operation_id := v,
      SetNbConfigurationRequest_has_operation_id := True\<rparr>"

definition ig_SetNbConfigurationRequest_deinit :: "IgSetNbConfigurationRequest \<Rightarrow>
  IgSetNbConfigurationRequest" where
  "ig_SetNbConfigurationRequest_deinit obj = (let
     obj = (if SetNbConfigurationRequest_has_password obj then
       obj\<lparr>SetNbConfigurationRequest_password := None\<rparr> else obj);
     obj = (if SetNbConfigurationRequest_has_cell_apn obj then
       obj\<lparr>SetNbConfigurationRequest_cell_apn := None\<rparr> else obj);
     obj = (if SetNbConfigurationRequest_has_cell_dns obj then
       obj\<lparr>SetNbConfigurationRequest_cell_dns := None\<rparr> else obj);
     obj = (if SetNbConfigurationRequest_has_nb_mqtt_topic obj then
       obj\<lparr>SetNbConfigurationRequest_nb_mqtt_topic := None\<rparr> else obj);
     obj = (if SetNbConfigurationRequest_has_nb_mqtt_broker_url obj then
       obj\<lparr>SetNbConfigurationRequest_nb_mqtt_broker_url := None\<rparr> else obj);
     obj = (if SetNbConfigurationRequest_has_nb_mqtt_broker_port obj then
       obj\<lparr>SetNbConfigurationRequest_nb_mqtt_broker_port := None\<rparr> else obj)
   in obj)"

definition ig_SetNbConfigurationRequest_is_valid :: "IgSetNbConfigurationRequest \<Rightarrow> bool" where
  "ig_SetNbConfigurationRequest_is_valid obj \<longleftrightarrow> True"

definition ig_SetNbConfigurationRequest_get_max_payload_in_bytes :: "IgSetNbConfigurationRequest
  \<Rightarrow> u32" where
  "ig_SetNbConfigurationRequest_get_max_payload_in_bytes obj = word_of_nat (77 +
    SetNbConfigurationRequest_password_size obj + SetNbConfigurationRequest_cell_apn_size obj +
      SetNbConfigurationRequest_cell_dns_size obj + SetNbConfigurationRequest_nb_mqtt_topic_size
        obj + SetNbConfigurationRequest_nb_mqtt_broker_url_size obj +
          SetNbConfigurationRequest_nb_mqtt_broker_port_size obj)"

definition ig_SetNbConfigurationRequest_fields_size :: "IgSetNbConfigurationRequest \<Rightarrow> u64" where
  "ig_SetNbConfigurationRequest_fields_size obj = 1 + 0 + of_bool
    (SetNbConfigurationRequest_has_password obj) + of_bool (SetNbConfigurationRequest_has_cell_apn
      obj) + of_bool (SetNbConfigurationRequest_has_cell_dns obj) + of_bool
        (SetNbConfigurationRequest_has_cell_network_type obj) + of_bool
          (SetNbConfigurationRequest_has_cell_network_band obj) + of_bool
            (SetNbConfigurationRequest_has_nb_power_saving_mode_enabled obj) + of_bool
              (SetNbConfigurationRequest_has_nb_power_saving_mode_active_timer obj) + of_bool
                (SetNbConfigurationRequest_has_nb_power_saving_mode_tau obj) + of_bool
                  (SetNbConfigurationRequest_has_nb_mqtt_topic obj) + of_bool
                    (SetNbConfigurationRequest_has_nb_mqtt_broker_url obj) + of_bool
                      (SetNbConfigurationRequest_has_nb_mqtt_broker_port obj) + of_bool
                        (SetNbConfigurationRequest_has_operation_id obj)"

definition ig_SetNbConfigurationRequest_fields :: "IgSetNbConfigurationRequest \<Rightarrow>
  enc_field list" where
  "ig_SetNbConfigurationRequest_fields obj =
    [(SetNbConfigurationRequest_has_password obj, 11, ABytes (SetNbConfigurationRequest_password
      obj) (SetNbConfigurationRequest_password_size obj)),
     (SetNbConfigurationRequest_has_cell_apn obj, 12, AText (SetNbConfigurationRequest_cell_apn
       obj) (SetNbConfigurationRequest_cell_apn_size obj)),
     (SetNbConfigurationRequest_has_cell_dns obj, 13, AText (SetNbConfigurationRequest_cell_dns
       obj) (SetNbConfigurationRequest_cell_dns_size obj)),
     (SetNbConfigurationRequest_has_cell_network_type obj, 14, AUint (ucast
       (SetNbConfigurationRequest_cell_network_type obj))),
     (SetNbConfigurationRequest_has_cell_network_band obj, 15, AUint (ucast
       (SetNbConfigurationRequest_cell_network_band obj))),
     (SetNbConfigurationRequest_has_nb_power_saving_mode_enabled obj, 16, ABool
       (SetNbConfigurationRequest_nb_power_saving_mode_enabled obj)),
     (SetNbConfigurationRequest_has_nb_power_saving_mode_active_timer obj, 17, AUint (ucast
       (SetNbConfigurationRequest_nb_power_saving_mode_active_timer obj))),
     (SetNbConfigurationRequest_has_nb_power_saving_mode_tau obj, 18, AUint (ucast
       (SetNbConfigurationRequest_nb_power_saving_mode_tau obj))),
     (SetNbConfigurationRequest_has_nb_mqtt_topic obj, 19, AText
       (SetNbConfigurationRequest_nb_mqtt_topic obj) (SetNbConfigurationRequest_nb_mqtt_topic_size obj)),
     (SetNbConfigurationRequest_has_nb_mqtt_broker_url obj, 20, AText
       (SetNbConfigurationRequest_nb_mqtt_broker_url obj)
         (SetNbConfigurationRequest_nb_mqtt_broker_url_size obj)),
     (SetNbConfigurationRequest_has_nb_mqtt_broker_port obj, 21, AText
       (SetNbConfigurationRequest_nb_mqtt_broker_port obj)
         (SetNbConfigurationRequest_nb_mqtt_broker_port_size obj)),
     (SetNbConfigurationRequest_has_operation_id obj, 100, AUint (ucast
       (SetNbConfigurationRequest_operation_id obj)))]"

definition ig_SetNbConfigurationRequest_encode ::
  "IgSetNbConfigurationRequest \<Rightarrow> bytes \<Rightarrow> u32 \<Rightarrow> (nat \<times>
    bytes \<times> nat option) res" where
  "ig_SetNbConfigurationRequest_encode obj retval len =
     (if \<not> ig_SetNbConfigurationRequest_is_valid obj then Ok (IgSerializerErrorInvalidPayload,
       retval, None)
      else ig_encode (ig_SetNbConfigurationRequest_fields_size obj) 81
        (ig_SetNbConfigurationRequest_fields obj) retval len)"

definition ig_SetNbConfigurationRequest_cases :: "(i64 \<times> IgSetNbConfigurationRequest
  case_body) list" where
  "ig_SetNbConfigurationRequest_cases =
    [(0, CMsgId 81),
     (11, CBytes (ig_SetNbConfigurationRequest_set_password_nocopy False)),
     (12, CText (ig_SetNbConfigurationRequest_set_cell_apn_nocopy False)),
     (13, CText (ig_SetNbConfigurationRequest_set_cell_dns_nocopy False)),
     (14, CUint (\<lambda>v. ig_SetNbConfigurationRequest_set_cell_network_type (ucast v))),
     (15, CUint (\<lambda>v. ig_SetNbConfigurationRequest_set_cell_network_band (ucast v))),
     (16, CBool ig_SetNbConfigurationRequest_set_nb_power_saving_mode_enabled),
     (17, CUint (\<lambda>v. ig_SetNbConfigurationRequest_set_nb_power_saving_mode_active_timer (ucast v))),
     (18, CUint (\<lambda>v. ig_SetNbConfigurationRequest_set_nb_power_saving_mode_tau (ucast v))),
     (19, CText (ig_SetNbConfigurationRequest_set_nb_mqtt_topic_nocopy False)),
     (20, CText (ig_SetNbConfigurationRequest_set_nb_mqtt_broker_url_nocopy False)),
     (21, CText (ig_SetNbConfigurationRequest_set_nb_mqtt_broker_port_nocopy False)),
     (100, CUint (\<lambda>v. ig_SetNbConfigurationRequest_set_operation_id (ucast v)))]"

definition ig_SetNbConfigurationRequest_decode :: "bytes \<Rightarrow> IgSetNbConfigurationRequest
  \<Rightarrow> nat \<Rightarrow> (nat \<times> IgSetNbConfigurationRequest) res" where
  "ig_SetNbConfigurationRequest_decode buf obj index = ig_decode ig_SetNbConfigurationRequest_cases
    buf obj index"

definition ig_SetNbConfigurationRequest_ok :: "IgSetNbConfigurationRequest \<Rightarrow> bool" where
  "ig_SetNbConfigurationRequest_ok obj \<longleftrightarrow> ig_SetNbConfigurationRequest_is_valid obj \<and>
     str_ok (SetNbConfigurationRequest_has_password obj) (SetNbConfigurationRequest_password obj)
       (SetNbConfigurationRequest_password_size obj) \<and>
     str_ok (SetNbConfigurationRequest_has_cell_apn obj) (SetNbConfigurationRequest_cell_apn obj)
       (SetNbConfigurationRequest_cell_apn_size obj) \<and>
     str_ok (SetNbConfigurationRequest_has_cell_dns obj) (SetNbConfigurationRequest_cell_dns obj)
       (SetNbConfigurationRequest_cell_dns_size obj) \<and>
     num_ok (SetNbConfigurationRequest_has_cell_network_type obj)
       (SetNbConfigurationRequest_cell_network_type obj) \<and>
     num_ok (SetNbConfigurationRequest_has_cell_network_band obj)
       (SetNbConfigurationRequest_cell_network_band obj) \<and>
     flag_ok (SetNbConfigurationRequest_has_nb_power_saving_mode_enabled obj)
       (SetNbConfigurationRequest_nb_power_saving_mode_enabled obj) \<and>
     num_ok (SetNbConfigurationRequest_has_nb_power_saving_mode_active_timer obj)
       (SetNbConfigurationRequest_nb_power_saving_mode_active_timer obj) \<and>
     num_ok (SetNbConfigurationRequest_has_nb_power_saving_mode_tau obj)
       (SetNbConfigurationRequest_nb_power_saving_mode_tau obj) \<and>
     str_ok (SetNbConfigurationRequest_has_nb_mqtt_topic obj)
       (SetNbConfigurationRequest_nb_mqtt_topic obj) (SetNbConfigurationRequest_nb_mqtt_topic_size obj) \<and>
     str_ok (SetNbConfigurationRequest_has_nb_mqtt_broker_url obj)
       (SetNbConfigurationRequest_nb_mqtt_broker_url obj)
         (SetNbConfigurationRequest_nb_mqtt_broker_url_size obj) \<and>
     str_ok (SetNbConfigurationRequest_has_nb_mqtt_broker_port obj)
       (SetNbConfigurationRequest_nb_mqtt_broker_port obj)
         (SetNbConfigurationRequest_nb_mqtt_broker_port_size obj) \<and>
     num_ok (SetNbConfigurationRequest_has_operation_id obj) (SetNbConfigurationRequest_operation_id obj)"

lemmas ig_SetNbConfigurationRequest_setters =
  ig_SetNbConfigurationRequest_set_cell_apn_nocopy_def
  ig_SetNbConfigurationRequest_set_cell_dns_nocopy_def
  ig_SetNbConfigurationRequest_set_cell_network_band_def
  ig_SetNbConfigurationRequest_set_cell_network_type_def
  ig_SetNbConfigurationRequest_set_nb_mqtt_broker_port_nocopy_def
  ig_SetNbConfigurationRequest_set_nb_mqtt_broker_url_nocopy_def
  ig_SetNbConfigurationRequest_set_nb_mqtt_topic_nocopy_def
  ig_SetNbConfigurationRequest_set_nb_power_saving_mode_active_timer_def
  ig_SetNbConfigurationRequest_set_nb_power_saving_mode_enabled_def
  ig_SetNbConfigurationRequest_set_nb_power_saving_mode_tau_def
  ig_SetNbConfigurationRequest_set_operation_id_def
  ig_SetNbConfigurationRequest_set_password_nocopy_def

text \<open>A guarded setter, member by member.\<close>
lemma ig_SetNbConfigurationRequest_set_if:
  "(if g then ig_SetNbConfigurationRequest_set_password_nocopy False p n obj else obj) =
     obj\<lparr>SetNbConfigurationRequest_password := pick g p (SetNbConfigurationRequest_password obj),
       SetNbConfigurationRequest_password_size := pick g n (SetNbConfigurationRequest_password_size obj),
       SetNbConfigurationRequest_has_password := pick g (n > 0)
         (SetNbConfigurationRequest_has_password obj)\<rparr>"
  "(if g then ig_SetNbConfigurationRequest_set_cell_apn_nocopy False p n obj else obj) =
     obj\<lparr>SetNbConfigurationRequest_cell_apn := pick g p (SetNbConfigurationRequest_cell_apn obj),
       SetNbConfigurationRequest_cell_apn_size := pick g n (SetNbConfigurationRequest_cell_apn_size obj),
       SetNbConfigurationRequest_has_cell_apn := pick g (n > 0)
         (SetNbConfigurationRequest_has_cell_apn obj)\<rparr>"
  "(if g then ig_SetNbConfigurationRequest_set_cell_dns_nocopy False p n obj else obj) =
     obj\<lparr>SetNbConfigurationRequest_cell_dns := pick g p (SetNbConfigurationRequest_cell_dns obj),
       SetNbConfigurationRequest_cell_dns_size := pick g n (SetNbConfigurationRequest_cell_dns_size obj),
       SetNbConfigurationRequest_has_cell_dns := pick g (n > 0)
         (SetNbConfigurationRequest_has_cell_dns obj)\<rparr>"
  "(if g then ig_SetNbConfigurationRequest_set_cell_network_type v3 obj else obj) =
     obj\<lparr>SetNbConfigurationRequest_cell_network_type := pick g v3
       (SetNbConfigurationRequest_cell_network_type obj),
       SetNbConfigurationRequest_has_cell_network_type := g \<or>
         SetNbConfigurationRequest_has_cell_network_type obj\<rparr>"
  "(if g then ig_SetNbConfigurationRequest_set_cell_network_band v4 obj else obj) =
     obj\<lparr>SetNbConfigurationRequest_cell_network_band := pick g v4
       (SetNbConfigurationRequest_cell_network_band obj),
       SetNbConfigurationRequest_has_cell_network_band := g \<or>
         SetNbConfigurationRequest_has_cell_network_band obj\<rparr>"
  "(if g then ig_SetNbConfigurationRequest_set_nb_power_saving_mode_enabled b obj else obj) =
     obj\<lparr>SetNbConfigurationRequest_nb_power_saving_mode_enabled := pick g b
       (SetNbConfigurationRequest_nb_power_saving_mode_enabled obj),
       SetNbConfigurationRequest_has_nb_power_saving_mode_enabled := g \<or>
         SetNbConfigurationRequest_has_nb_power_saving_mode_enabled obj\<rparr>"
  "(if g then ig_SetNbConfigurationRequest_set_nb_power_saving_mode_active_timer v6 obj else obj) =
     obj\<lparr>SetNbConfigurationRequest_nb_power_saving_mode_active_timer := pick g v6
       (SetNbConfigurationRequest_nb_power_saving_mode_active_timer obj),
       SetNbConfigurationRequest_has_nb_power_saving_mode_active_timer := g \<or>
         SetNbConfigurationRequest_has_nb_power_saving_mode_active_timer obj\<rparr>"
  "(if g then ig_SetNbConfigurationRequest_set_nb_power_saving_mode_tau v7 obj else obj) =
     obj\<lparr>SetNbConfigurationRequest_nb_power_saving_mode_tau := pick g v7
       (SetNbConfigurationRequest_nb_power_saving_mode_tau obj),
       SetNbConfigurationRequest_has_nb_power_saving_mode_tau := g \<or>
         SetNbConfigurationRequest_has_nb_power_saving_mode_tau obj\<rparr>"
  "(if g then ig_SetNbConfigurationRequest_set_nb_mqtt_topic_nocopy False p n obj else obj) =
     obj\<lparr>SetNbConfigurationRequest_nb_mqtt_topic := pick g p
       (SetNbConfigurationRequest_nb_mqtt_topic obj),
       SetNbConfigurationRequest_nb_mqtt_topic_size := pick g n
         (SetNbConfigurationRequest_nb_mqtt_topic_size obj),
       SetNbConfigurationRequest_has_nb_mqtt_topic := pick g (n > 0)
         (SetNbConfigurationRequest_has_nb_mqtt_topic obj)\<rparr>"
  "(if g then ig_SetNbConfigurationRequest_set_nb_mqtt_broker_url_nocopy False p n obj else obj) =
     obj\<lparr>SetNbConfigurationRequest_nb_mqtt_broker_url := pick g p
       (SetNbConfigurationRequest_nb_mqtt_broker_url obj),
       SetNbConfigurationRequest_nb_mqtt_broker_url_size := pick g n
         (SetNbConfigurationRequest_nb_mqtt_broker_url_size obj),
       SetNbConfigurationRequest_has_nb_mqtt_broker_url := pick g (n > 0)
         (SetNbConfigurationRequest_has_nb_mqtt_broker_url obj)\<rparr>"
  "(if g then ig_SetNbConfigurationRequest_set_nb_mqtt_broker_port_nocopy False p n obj else obj) =
     obj\<lparr>SetNbConfigurationRequest_nb_mqtt_broker_port := pick g p
       (SetNbConfigurationRequest_nb_mqtt_broker_port obj),
       SetNbConfigurationRequest_nb_mqtt_broker_port_size := pick g n
         (SetNbConfigurationRequest_nb_mqtt_broker_port_size obj),
       SetNbConfigurationRequest_has_nb_mqtt_broker_port := pick g (n > 0)
         (SetNbConfigurationRequest_has_nb_mqtt_broker_port obj)\<rparr>"
  "(if g then ig_SetNbConfigurationRequest_set_operation_id v11 obj else obj) =
     obj\<lparr>SetNbConfigurationRequest_operation_id := pick g v11
       (SetNbConfigurationRequest_operation_id obj),
       SetNbConfigurationRequest_has_operation_id := g \<or>
         SetNbConfigurationRequest_has_operation_id obj\<rparr>"
  by (simp_all add: ig_SetNbConfigurationRequest_setters pick_def)

lemma ig_SetNbConfigurationRequest_store:
  assumes ok: "ig_SetNbConfigurationRequest_ok obj"
  shows "store_fields ig_SetNbConfigurationRequest_cases (ig_SetNbConfigurationRequest_fields obj)
    ig_SetNbConfigurationRequest_init = Some obj"
proof -
  have h: "str_ok (SetNbConfigurationRequest_has_password obj) (SetNbConfigurationRequest_password
    obj) (SetNbConfigurationRequest_password_size obj)"
    "str_ok (SetNbConfigurationRequest_has_cell_apn obj) (SetNbConfigurationRequest_cell_apn obj)
      (SetNbConfigurationRequest_cell_apn_size obj)"
    "str_ok (SetNbConfigurationRequest_has_cell_dns obj) (SetNbConfigurationRequest_cell_dns obj)
      (SetNbConfigurationRequest_cell_dns_size obj)"
    "num_ok (SetNbConfigurationRequest_has_cell_network_type obj)
      (SetNbConfigurationRequest_cell_network_type obj)"
    "num_ok (SetNbConfigurationRequest_has_cell_network_band obj)
      (SetNbConfigurationRequest_cell_network_band obj)"
    "flag_ok (SetNbConfigurationRequest_has_nb_power_saving_mode_enabled obj)
      (SetNbConfigurationRequest_nb_power_saving_mode_enabled obj)"
    "num_ok (SetNbConfigurationRequest_has_nb_power_saving_mode_active_timer obj)
      (SetNbConfigurationRequest_nb_power_saving_mode_active_timer obj)"
    "num_ok (SetNbConfigurationRequest_has_nb_power_saving_mode_tau obj)
      (SetNbConfigurationRequest_nb_power_saving_mode_tau obj)"
    "str_ok (SetNbConfigurationRequest_has_nb_mqtt_topic obj)
      (SetNbConfigurationRequest_nb_mqtt_topic obj) (SetNbConfigurationRequest_nb_mqtt_topic_size obj)"
    "str_ok (SetNbConfigurationRequest_has_nb_mqtt_broker_url obj)
      (SetNbConfigurationRequest_nb_mqtt_broker_url obj)
        (SetNbConfigurationRequest_nb_mqtt_broker_url_size obj)"
    "str_ok (SetNbConfigurationRequest_has_nb_mqtt_broker_port obj)
      (SetNbConfigurationRequest_nb_mqtt_broker_port obj)
        (SetNbConfigurationRequest_nb_mqtt_broker_port_size obj)"
    "num_ok (SetNbConfigurationRequest_has_operation_id obj) (SetNbConfigurationRequest_operation_id obj)"
    and valid: "ig_SetNbConfigurationRequest_is_valid obj"
    using ok by (simp_all add: ig_SetNbConfigurationRequest_ok_def)
  show ?thesis
    using valid
    by (simp add: ig_SetNbConfigurationRequest_fields_def ig_SetNbConfigurationRequest_cases_def
      ig_SetNbConfigurationRequest_init_def codec_simps
        ig_SetNbConfigurationRequest_set_if ig_SetNbConfigurationRequest_setters split del: if_split)
       (simp add: ig_SetNbConfigurationRequest_is_valid_def
         str_ok_store [OF h(1)]
         str_ok_store [OF h(2)]
         str_ok_store [OF h(3)]
         num_ok_store [OF h(4)]
         num_ok_store [OF h(5)]
         flag_ok_store [OF h(6)]
         num_ok_store [OF h(7)]
         num_ok_store [OF h(8)]
         str_ok_store [OF h(9)]
         str_ok_store [OF h(10)]
         str_ok_store [OF h(11)]
         num_ok_store [OF h(12)])
qed

lemma ig_SetNbConfigurationRequest_bound:
  assumes "ig_SetNbConfigurationRequest_ok obj"
  shows "2 + length (number_bytes 81 MtUnsigned) + fields_bound (ig_SetNbConfigurationRequest_fields obj)
    \<le> unat (ig_SetNbConfigurationRequest_get_max_payload_in_bytes obj)"
proof -
  have sizes: "SetNbConfigurationRequest_password_size obj < 2 ^ 24"
    "SetNbConfigurationRequest_cell_apn_size obj < 2 ^ 24" "SetNbConfigurationRequest_cell_dns_size
      obj < 2 ^ 24" "SetNbConfigurationRequest_nb_mqtt_topic_size obj < 2 ^ 24"
        "SetNbConfigurationRequest_nb_mqtt_broker_url_size obj < 2 ^ 24"
          "SetNbConfigurationRequest_nb_mqtt_broker_port_size obj < 2 ^ 24"
    using assms by (auto simp: ig_SetNbConfigurationRequest_ok_def dest!: str_ok_bound)
  show ?thesis
    using sizes number_bytes_size [of "SetNbConfigurationRequest_password_size obj" "0x40"]
      number_bytes_size [of "SetNbConfigurationRequest_cell_apn_size obj" "0x60"]
      number_bytes_size [of "SetNbConfigurationRequest_cell_dns_size obj" "0x60"]
      number_bytes_u8 [of "SetNbConfigurationRequest_cell_network_type obj" 0]
      number_bytes_u8 [of "SetNbConfigurationRequest_cell_network_band obj" 0]
      number_bytes_u16 [of "SetNbConfigurationRequest_nb_power_saving_mode_active_timer obj" 0]
      number_bytes_u16 [of "SetNbConfigurationRequest_nb_power_saving_mode_tau obj" 0]
      number_bytes_size [of "SetNbConfigurationRequest_nb_mqtt_topic_size obj" "0x60"]
      number_bytes_size [of "SetNbConfigurationRequest_nb_mqtt_broker_url_size obj" "0x60"]
      number_bytes_size [of "SetNbConfigurationRequest_nb_mqtt_broker_port_size obj" "0x60"]
      number_bytes_u32 [of "SetNbConfigurationRequest_operation_id obj" 0]
    by (simp add: ig_SetNbConfigurationRequest_fields_def
      ig_SetNbConfigurationRequest_get_max_payload_in_bytes_def number_bytes_literal
        unat_of_nat_small del: of_nat_add)
qed

interpretation SetNbConfigurationRequest_codec: ig_message ig_SetNbConfigurationRequest_encode
  ig_SetNbConfigurationRequest_decode
  ig_SetNbConfigurationRequest_get_max_payload_in_bytes ig_SetNbConfigurationRequest_is_valid
    ig_SetNbConfigurationRequest_init ig_SetNbConfigurationRequest_ok 81
  ig_SetNbConfigurationRequest_fields_size ig_SetNbConfigurationRequest_fields
    ig_SetNbConfigurationRequest_cases
  by (unfold_locales;
      (rule ig_SetNbConfigurationRequest_encode_def ig_SetNbConfigurationRequest_decode_def | erule
        ig_SetNbConfigurationRequest_store ig_SetNbConfigurationRequest_bound |
       auto simp: ig_SetNbConfigurationRequest_cases_def ig_SetNbConfigurationRequest_fields_def
         ig_SetNbConfigurationRequest_fields_size_def ig_SetNbConfigurationRequest_ok_def
         simp del: arg_block_ok.simps(1,2) intro: str_ok_block))

subsection \<open>SetNbConfigurationResponse\<close>

record IgSetNbConfigurationResponse =
  SetNbConfigurationResponse_has_result :: bool
  SetNbConfigurationResponse_result :: u8
  SetNbConfigurationResponse_has_operation_id :: bool
  SetNbConfigurationResponse_operation_id :: u32

definition ig_SetNbConfigurationResponse_init :: IgSetNbConfigurationResponse where
  "ig_SetNbConfigurationResponse_init =
     \<lparr>SetNbConfigurationResponse_has_result = False,
      SetNbConfigurationResponse_result = 0,
      SetNbConfigurationResponse_has_operation_id = False,
      SetNbConfigurationResponse_operation_id = 0\<rparr>"

definition ig_SetNbConfigurationResponse_set_result :: "u8 \<Rightarrow>
  IgSetNbConfigurationResponse \<Rightarrow> IgSetNbConfigurationResponse" where
  "ig_SetNbConfigurationResponse_set_result v obj = obj\<lparr>SetNbConfigurationResponse_result :=
    v, SetNbConfigurationResponse_has_result := True\<rparr>"

definition ig_SetNbConfigurationResponse_set_operation_id :: "u32 \<Rightarrow>
  IgSetNbConfigurationResponse \<Rightarrow> IgSetNbConfigurationResponse" where
  "ig_SetNbConfigurationResponse_set_operation_id v obj =
    obj\<lparr>SetNbConfigurationResponse_operation_id := v,
      SetNbConfigurationResponse_has_operation_id := True\<rparr>"

definition ig_SetNbConfigurationResponse_deinit :: "IgSetNbConfigurationResponse \<Rightarrow>
  IgSetNbConfigurationResponse" where
  "ig_SetNbConfigurationResponse_deinit obj = obj"

definition ig_SetNbConfigurationResponse_is_valid :: "IgSetNbConfigurationResponse \<Rightarrow> bool" where
  "ig_SetNbConfigurationResponse_is_valid obj \<longleftrightarrow> True"

definition ig_SetNbConfigurationResponse_get_max_payload_in_bytes :: "IgSetNbConfigurationResponse
  \<Rightarrow> u32" where
  "ig_SetNbConfigurationResponse_get_max_payload_in_bytes obj = 22"

definition ig_SetNbConfigurationResponse_fields_size :: "IgSetNbConfigurationResponse \<Rightarrow> u64" where
  "ig_SetNbConfigurationResponse_fields_size obj = 1 + 0 + of_bool
    (SetNbConfigurationResponse_has_result obj) + of_bool (SetNbConfigurationResponse_has_operation_id obj)"

definition ig_SetNbConfigurationResponse_fields :: "IgSetNbConfigurationResponse \<Rightarrow>
  enc_field list" where
  "ig_SetNbConfigurationResponse_fields obj =
    [(SetNbConfigurationResponse_has_result obj, 11, AUint (ucast (SetNbConfigurationResponse_result obj))),
     (SetNbConfigurationResponse_has_operation_id obj, 100, AUint (ucast
       (SetNbConfigurationResponse_operation_id obj)))]"

definition ig_SetNbConfigurationResponse_encode ::
  "IgSetNbConfigurationResponse \<Rightarrow> bytes \<Rightarrow> u32 \<Rightarrow> (nat \<times>
    bytes \<times> nat option) res" where
  "ig_SetNbConfigurationResponse_encode obj retval len =
     (if \<not> ig_SetNbConfigurationResponse_is_valid obj then Ok
       (IgSerializerErrorInvalidPayload, retval, None)
      else ig_encode (ig_SetNbConfigurationResponse_fields_size obj) 82
        (ig_SetNbConfigurationResponse_fields obj) retval len)"

definition ig_SetNbConfigurationResponse_cases :: "(i64 \<times> IgSetNbConfigurationResponse
  case_body) list" where
  "ig_SetNbConfigurationResponse_cases =
    [(0, CMsgId 82),
     (11, CUint (\<lambda>v. ig_SetNbConfigurationResponse_set_result (ucast v))),
     (100, CUint (\<lambda>v. ig_SetNbConfigurationResponse_set_operation_id (ucast v)))]"

definition ig_SetNbConfigurationResponse_decode :: "bytes \<Rightarrow>
  IgSetNbConfigurationResponse \<Rightarrow> nat \<Rightarrow> (nat \<times>
    IgSetNbConfigurationResponse) res" where
  "ig_SetNbConfigurationResponse_decode buf obj index = ig_decode
    ig_SetNbConfigurationResponse_cases buf obj index"

definition ig_SetNbConfigurationResponse_ok :: "IgSetNbConfigurationResponse \<Rightarrow> bool" where
  "ig_SetNbConfigurationResponse_ok obj \<longleftrightarrow>
    ig_SetNbConfigurationResponse_is_valid obj \<and>
     num_ok (SetNbConfigurationResponse_has_result obj) (SetNbConfigurationResponse_result obj) \<and>
     num_ok (SetNbConfigurationResponse_has_operation_id obj) (SetNbConfigurationResponse_operation_id obj)"

lemmas ig_SetNbConfigurationResponse_setters =
  ig_SetNbConfigurationResponse_set_operation_id_def
  ig_SetNbConfigurationResponse_set_result_def

text \<open>A guarded setter, member by member.\<close>
lemma ig_SetNbConfigurationResponse_set_if:
  "(if g then ig_SetNbConfigurationResponse_set_result v0 obj else obj) =
     obj\<lparr>SetNbConfigurationResponse_result := pick g v0 (SetNbConfigurationResponse_result obj),
       SetNbConfigurationResponse_has_result := g \<or> SetNbConfigurationResponse_has_result obj\<rparr>"
  "(if g then ig_SetNbConfigurationResponse_set_operation_id v1 obj else obj) =
     obj\<lparr>SetNbConfigurationResponse_operation_id := pick g v1
       (SetNbConfigurationResponse_operation_id obj),
       SetNbConfigurationResponse_has_operation_id := g \<or>
         SetNbConfigurationResponse_has_operation_id obj\<rparr>"
  by (simp_all add: ig_SetNbConfigurationResponse_setters pick_def)

lemma ig_SetNbConfigurationResponse_store:
  assumes ok: "ig_SetNbConfigurationResponse_ok obj"
  shows "store_fields ig_SetNbConfigurationResponse_cases (ig_SetNbConfigurationResponse_fields
    obj) ig_SetNbConfigurationResponse_init = Some obj"
proof -
  have h: "num_ok (SetNbConfigurationResponse_has_result obj) (SetNbConfigurationResponse_result obj)"
    "num_ok (SetNbConfigurationResponse_has_operation_id obj) (SetNbConfigurationResponse_operation_id obj)"
    and valid: "ig_SetNbConfigurationResponse_is_valid obj"
    using ok by (simp_all add: ig_SetNbConfigurationResponse_ok_def)
  show ?thesis
    using valid
    by (simp add: ig_SetNbConfigurationResponse_fields_def ig_SetNbConfigurationResponse_cases_def
      ig_SetNbConfigurationResponse_init_def codec_simps
        ig_SetNbConfigurationResponse_set_if ig_SetNbConfigurationResponse_setters split del: if_split)
       (simp add: ig_SetNbConfigurationResponse_is_valid_def
         num_ok_store [OF h(1)]
         num_ok_store [OF h(2)])
qed

lemma ig_SetNbConfigurationResponse_bound:
  assumes "ig_SetNbConfigurationResponse_ok obj"
  shows "2 + length (number_bytes 82 MtUnsigned) + fields_bound (ig_SetNbConfigurationResponse_fields obj)
    \<le> unat (ig_SetNbConfigurationResponse_get_max_payload_in_bytes obj)"
  using number_bytes_u8 [of "SetNbConfigurationResponse_result obj" 0]
    number_bytes_u32 [of "SetNbConfigurationResponse_operation_id obj" 0]
  by (simp add: ig_SetNbConfigurationResponse_fields_def
    ig_SetNbConfigurationResponse_get_max_payload_in_bytes_def number_bytes_literal)

interpretation SetNbConfigurationResponse_codec: ig_message ig_SetNbConfigurationResponse_encode
  ig_SetNbConfigurationResponse_decode
  ig_SetNbConfigurationResponse_get_max_payload_in_bytes ig_SetNbConfigurationResponse_is_valid
    ig_SetNbConfigurationResponse_init ig_SetNbConfigurationResponse_ok 82
  ig_SetNbConfigurationResponse_fields_size ig_SetNbConfigurationResponse_fields
    ig_SetNbConfigurationResponse_cases
  by (unfold_locales;
      (rule ig_SetNbConfigurationResponse_encode_def ig_SetNbConfigurationResponse_decode_def |
        erule ig_SetNbConfigurationResponse_store ig_SetNbConfigurationResponse_bound |
       auto simp: ig_SetNbConfigurationResponse_cases_def ig_SetNbConfigurationResponse_fields_def
         ig_SetNbConfigurationResponse_fields_size_def ig_SetNbConfigurationResponse_ok_def
         simp del: arg_block_ok.simps(1,2) intro: str_ok_block))

subsection \<open>BridgeStatusNotification\<close>

record IgBridgeStatusNotification =
  BridgeStatusNotification_has_wifi_network_status :: bool
  BridgeStatusNotification_wifi_network_status :: u8

definition ig_BridgeStatusNotification_init :: IgBridgeStatusNotification where
  "ig_BridgeStatusNotification_init =
     \<lparr>BridgeStatusNotification_has_wifi_network_status = False,
      BridgeStatusNotification_wifi_network_status = 0\<rparr>"

definition ig_BridgeStatusNotification_set_wifi_network_status :: "u8 \<Rightarrow>
  IgBridgeStatusNotification \<Rightarrow> IgBridgeStatusNotification" where
  "ig_BridgeStatusNotification_set_wifi_network_status v obj =
    obj\<lparr>BridgeStatusNotification_wifi_network_status := v,
      BridgeStatusNotification_has_wifi_network_status := True\<rparr>"

definition ig_BridgeStatusNotification_deinit :: "IgBridgeStatusNotification \<Rightarrow>
  IgBridgeStatusNotification" where
  "ig_BridgeStatusNotification_deinit obj = obj"

definition ig_BridgeStatusNotification_is_valid :: "IgBridgeStatusNotification \<Rightarrow> bool" where
  "ig_BridgeStatusNotification_is_valid obj \<longleftrightarrow> True"

definition ig_BridgeStatusNotification_get_max_payload_in_bytes :: "IgBridgeStatusNotification
  \<Rightarrow> u32" where
  "ig_BridgeStatusNotification_get_max_payload_in_bytes obj = 16"

definition ig_BridgeStatusNotification_fields_size :: "IgBridgeStatusNotification \<Rightarrow> u64" where
  "ig_BridgeStatusNotification_fields_size obj = 1 + 0 + of_bool
    (BridgeStatusNotification_has_wifi_network_status obj)"

definition ig_BridgeStatusNotification_fields :: "IgBridgeStatusNotification \<Rightarrow>
  enc_field list" where
  "ig_BridgeStatusNotification_fields obj =
    [(BridgeStatusNotification_has_wifi_network_status obj, 11, AUint (ucast
      (BridgeStatusNotification_wifi_network_status obj)))]"

definition ig_BridgeStatusNotification_encode ::
  "IgBridgeStatusNotification \<Rightarrow> bytes \<Rightarrow> u32 \<Rightarrow> (nat \<times>
    bytes \<times> nat option) res" where
  "ig_BridgeStatusNotification_encode obj retval len =
     (if \<not> ig_BridgeStatusNotification_is_valid obj then Ok (IgSerializerErrorInvalidPayload,
       retval, None)
      else ig_encode (ig_BridgeStatusNotification_fields_size obj) 106
        (ig_BridgeStatusNotification_fields obj) retval len)"

definition ig_BridgeStatusNotification_cases :: "(i64 \<times> IgBridgeStatusNotification
  case_body) list" where
  "ig_BridgeStatusNotification_cases =
    [(0, CMsgId 106),
     (11, CUint (\<lambda>v. ig_BridgeStatusNotification_set_wifi_network_status (ucast v)))]"

definition ig_BridgeStatusNotification_decode :: "bytes \<Rightarrow> IgBridgeStatusNotification
  \<Rightarrow> nat \<Rightarrow> (nat \<times> IgBridgeStatusNotification) res" where
  "ig_BridgeStatusNotification_decode buf obj index = ig_decode ig_BridgeStatusNotification_cases
    buf obj index"

definition ig_BridgeStatusNotification_ok :: "IgBridgeStatusNotification \<Rightarrow> bool" where
  "ig_BridgeStatusNotification_ok obj \<longleftrightarrow> ig_BridgeStatusNotification_is_valid obj \<and>
     num_ok (BridgeStatusNotification_has_wifi_network_status obj)
       (BridgeStatusNotification_wifi_network_status obj)"

lemmas ig_BridgeStatusNotification_setters =
  ig_BridgeStatusNotification_set_wifi_network_status_def

text \<open>A guarded setter, member by member.\<close>
lemma ig_BridgeStatusNotification_set_if:
  "(if g then ig_BridgeStatusNotification_set_wifi_network_status v0 obj else obj) =
     obj\<lparr>BridgeStatusNotification_wifi_network_status := pick g v0
       (BridgeStatusNotification_wifi_network_status obj),
       BridgeStatusNotification_has_wifi_network_status := g \<or>
         BridgeStatusNotification_has_wifi_network_status obj\<rparr>"
  by (simp_all add: ig_BridgeStatusNotification_setters pick_def)

lemma ig_BridgeStatusNotification_store:
  assumes ok: "ig_BridgeStatusNotification_ok obj"
  shows "store_fields ig_BridgeStatusNotification_cases (ig_BridgeStatusNotification_fields obj)
    ig_BridgeStatusNotification_init = Some obj"
proof -
  have h: "num_ok (BridgeStatusNotification_has_wifi_network_status obj)
    (BridgeStatusNotification_wifi_network_status obj)"
    and valid: "ig_BridgeStatusNotification_is_valid obj"
    using ok by (simp_all add: ig_BridgeStatusNotification_ok_def)
  show ?thesis
    using valid
    by (simp add: ig_BridgeStatusNotification_fields_def ig_BridgeStatusNotification_cases_def
      ig_BridgeStatusNotification_init_def codec_simps
        ig_BridgeStatusNotification_set_if ig_BridgeStatusNotification_setters split del: if_split)
       (simp add: ig_BridgeStatusNotification_is_valid_def
         num_ok_store [OF h(1)])
qed

lemma ig_BridgeStatusNotification_bound:
  assumes "ig_BridgeStatusNotification_ok obj"
  shows "2 + length (number_bytes 106 MtUnsigned) + fields_bound (ig_BridgeStatusNotification_fields obj)
    \<le> unat (ig_BridgeStatusNotification_get_max_payload_in_bytes obj)"
  using number_bytes_u8 [of "BridgeStatusNotification_wifi_network_status obj" 0]
  by (simp add: ig_BridgeStatusNotification_fields_def
    ig_BridgeStatusNotification_get_max_payload_in_bytes_def number_bytes_literal)

interpretation BridgeStatusNotification_codec: ig_message ig_BridgeStatusNotification_encode
  ig_BridgeStatusNotification_decode
  ig_BridgeStatusNotification_get_max_payload_in_bytes ig_BridgeStatusNotification_is_valid
    ig_BridgeStatusNotification_init ig_BridgeStatusNotification_ok 106
  ig_BridgeStatusNotification_fields_size ig_BridgeStatusNotification_fields ig_BridgeStatusNotification_cases
  by (unfold_locales;
      (rule ig_BridgeStatusNotification_encode_def ig_BridgeStatusNotification_decode_def | erule
        ig_BridgeStatusNotification_store ig_BridgeStatusNotification_bound |
       auto simp: ig_BridgeStatusNotification_cases_def ig_BridgeStatusNotification_fields_def
         ig_BridgeStatusNotification_fields_size_def ig_BridgeStatusNotification_ok_def
         simp del: arg_block_ok.simps(1,2) intro: str_ok_block))

subsection \<open>NbStatusNotification\<close>

record IgNbStatusNotification =
  NbStatusNotification_has_nb_network_status :: bool
  NbStatusNotification_nb_network_status :: u8

definition ig_NbStatusNotification_init :: IgNbStatusNotification where
  "ig_NbStatusNotification_init =
     \<lparr>NbStatusNotification_has_nb_network_status = False,
      NbStatusNotification_nb_network_status = 0\<rparr>"

definition ig_NbStatusNotification_set_nb_network_status :: "u8 \<Rightarrow>
  IgNbStatusNotification \<Rightarrow> IgNbStatusNotification" where
  "ig_NbStatusNotification_set_nb_network_status v obj =
    obj\<lparr>NbStatusNotification_nb_network_status := v,
      NbStatusNotification_has_nb_network_status := True\<rparr>"

definition ig_NbStatusNotification_deinit :: "IgNbStatusNotification \<Rightarrow>
  IgNbStatusNotification" where
  "ig_NbStatusNotification_deinit obj = obj"

definition ig_NbStatusNotification_is_valid :: "IgNbStatusNotification \<Rightarrow> bool" where
  "ig_NbStatusNotification_is_valid obj \<longleftrightarrow> True"

definition ig_NbStatusNotification_get_max_payload_in_bytes :: "IgNbStatusNotification
  \<Rightarrow> u32" where
  "ig_NbStatusNotification_get_max_payload_in_bytes obj = 16"

definition ig_NbStatusNotification_fields_size :: "IgNbStatusNotification \<Rightarrow> u64" where
  "ig_NbStatusNotification_fields_size obj = 1 + 0 + of_bool (NbStatusNotification_has_nb_network_status obj)"

definition ig_NbStatusNotification_fields :: "IgNbStatusNotification \<Rightarrow> enc_field list" where
  "ig_NbStatusNotification_fields obj =
    [(NbStatusNotification_has_nb_network_status obj, 11, AUint (ucast
      (NbStatusNotification_nb_network_status obj)))]"

definition ig_NbStatusNotification_encode ::
  "IgNbStatusNotification \<Rightarrow> bytes \<Rightarrow> u32 \<Rightarrow> (nat \<times> bytes
    \<times> nat option) res" where
  "ig_NbStatusNotification_encode obj retval len =
     (if \<not> ig_NbStatusNotification_is_valid obj then Ok (IgSerializerErrorInvalidPayload, retval, None)
      else ig_encode (ig_NbStatusNotification_fields_size obj) 105 (ig_NbStatusNotification_fields
        obj) retval len)"

definition ig_NbStatusNotification_cases :: "(i64 \<times> IgNbStatusNotification case_body) list" where
  "ig_NbStatusNotification_cases =
    [(0, CMsgId 105),
     (11, CUint (\<lambda>v. ig_NbStatusNotification_set_nb_network_status (ucast v)))]"

definition ig_NbStatusNotification_decode :: "bytes \<Rightarrow> IgNbStatusNotification
  \<Rightarrow> nat \<Rightarrow> (nat \<times> IgNbStatusNotification) res" where
  "ig_NbStatusNotification_decode buf obj index = ig_decode ig_NbStatusNotification_cases buf obj index"

definition ig_NbStatusNotification_ok :: "IgNbStatusNotification \<Rightarrow> bool" where
  "ig_NbStatusNotification_ok obj \<longleftrightarrow> ig_NbStatusNotification_is_valid obj \<and>
     num_ok (NbStatusNotification_has_nb_network_status obj) (NbStatusNotification_nb_network_status obj)"

lemmas ig_NbStatusNotification_setters =
  ig_NbStatusNotification_set_nb_network_status_def

text \<open>A guarded setter, member by member.\<close>
lemma ig_NbStatusNotification_set_if:
  "(if g then ig_NbStatusNotification_set_nb_network_status v0 obj else obj) =
     obj\<lparr>NbStatusNotification_nb_network_status := pick g v0
       (NbStatusNotification_nb_network_status obj),
       NbStatusNotification_has_nb_network_status := g \<or>
         NbStatusNotification_has_nb_network_status obj\<rparr>"
  by (simp_all add: ig_NbStatusNotification_setters pick_def)

lemma ig_NbStatusNotification_store:
  assumes ok: "ig_NbStatusNotification_ok obj"
  shows "store_fields ig_NbStatusNotification_cases (ig_NbStatusNotification_fields obj)
    ig_NbStatusNotification_init = Some obj"
proof -
  have h: "num_ok (NbStatusNotification_has_nb_network_status obj)
    (NbStatusNotification_nb_network_status obj)"
    and valid: "ig_NbStatusNotification_is_valid obj"
    using ok by (simp_all add: ig_NbStatusNotification_ok_def)
  show ?thesis
    using valid
    by (simp add: ig_NbStatusNotification_fields_def ig_NbStatusNotification_cases_def
      ig_NbStatusNotification_init_def codec_simps
        ig_NbStatusNotification_set_if ig_NbStatusNotification_setters split del: if_split)
       (simp add: ig_NbStatusNotification_is_valid_def
         num_ok_store [OF h(1)])
qed

lemma ig_NbStatusNotification_bound:
  assumes "ig_NbStatusNotification_ok obj"
  shows "2 + length (number_bytes 105 MtUnsigned) + fields_bound (ig_NbStatusNotification_fields obj)
    \<le> unat (ig_NbStatusNotification_get_max_payload_in_bytes obj)"
  using number_bytes_u8 [of "NbStatusNotification_nb_network_status obj" 0]
  by (simp add: ig_NbStatusNotification_fields_def
    ig_NbStatusNotification_get_max_payload_in_bytes_def number_bytes_literal)

interpretation NbStatusNotification_codec: ig_message ig_NbStatusNotification_encode
  ig_NbStatusNotification_decode
  ig_NbStatusNotification_get_max_payload_in_bytes ig_NbStatusNotification_is_valid
    ig_NbStatusNotification_init ig_NbStatusNotification_ok 105
  ig_NbStatusNotification_fields_size ig_NbStatusNotification_fields ig_NbStatusNotification_cases
  by (unfold_locales;
      (rule ig_NbStatusNotification_encode_def ig_NbStatusNotification_decode_def | erule
        ig_NbStatusNotification_store ig_NbStatusNotification_bound |
       auto simp: ig_NbStatusNotification_cases_def ig_NbStatusNotification_fields_def
         ig_NbStatusNotification_fields_size_def ig_NbStatusNotification_ok_def
         simp del: arg_block_ok.simps(1,2) intro: str_ok_block))

end
