(* ===== verification/Messages_Log.thy ===== *)
theory Messages_Log
  imports Ig_Interface
begin

text \<open>
  The files of \<open>lock/messages/\<close> for log entries and guest-key lists.  Per message
    \<open>X\<close>: the struct (\<open>IgX\<close>, members prefixed
  with the message name), \<open>ig_X_init\<close>, the setters, \<open>ig_X_deinit\<close>,
    \<open>ig_X_is_valid\<close>,
  \<open>ig_X_get_max_payload_in_bytes\<close>, the encoder with its list of key/value writes
  (\<open>ig_X_fields\<close>) and the decoder with its list of cases (\<open>ig_X_cases\<close>). 
    The argument
  \<open>same_ptr\<close> of a string setter is the pointer comparison it starts with; the decoders pass
  \<open>False\<close>, their block is fresh.  \<open>ig_X_ok\<close> describes the objects
    \<open>init\<close> and the setters
  build, and the interpretation of \<open>ig_message\<close> proves the file a codec.
\<close>

subsection \<open>GetLogsRequest\<close>

record IgGetLogsRequest =
  GetLogsRequest_has_password :: bool
  GetLogsRequest_password :: block_ptr
  GetLogsRequest_password_size :: nat
  GetLogsRequest_has_timestamp :: bool
  GetLogsRequest_timestamp :: u32
  GetLogsRequest_has_operation_id :: bool
  GetLogsRequest_operation_id :: u32

definition ig_GetLogsRequest_init :: IgGetLogsRequest where
  "ig_GetLogsRequest_init =
     \<lparr>GetLogsRequest_has_password = False,
      GetLogsRequest_password = None,
      GetLogsRequest_password_size = 0,
      GetLogsRequest_has_timestamp = False,
      GetLogsRequest_timestamp = 0,
      GetLogsRequest_has_operation_id = False,
      GetLogsRequest_operation_id = 0\<rparr>"

definition ig_GetLogsRequest_get_password_size :: "IgGetLogsRequest \<Rightarrow> nat" where
  "ig_GetLogsRequest_get_password_size obj = GetLogsRequest_password_size obj"

definition ig_GetLogsRequest_set_password_nocopy ::
  "bool \<Rightarrow> block_ptr \<Rightarrow> nat \<Rightarrow> IgGetLogsRequest \<Rightarrow>
    IgGetLogsRequest" where
  "ig_GetLogsRequest_set_password_nocopy same_ptr p n obj =
     (if same_ptr then obj
      else let obj = (if GetLogsRequest_has_password obj then obj\<lparr>GetLogsRequest_password :=
        None\<rparr> else obj)
        in obj\<lparr>GetLogsRequest_password := p, GetLogsRequest_password_size := n,
          GetLogsRequest_has_password := n > 0\<rparr>)"

definition ig_GetLogsRequest_set_password ::
  "bool \<Rightarrow> block_ptr \<Rightarrow> nat \<Rightarrow> IgGetLogsRequest \<Rightarrow>
    IgGetLogsRequest res" where
  "ig_GetLogsRequest_set_password same_ptr p n obj =
     (if same_ptr then Ok obj
      else let obj = (if GetLogsRequest_has_password obj then obj\<lparr>GetLogsRequest_password :=
        None\<rparr> else obj)
        in bindR (block_read p n) (\<lambda>d.
          Ok (obj\<lparr>GetLogsRequest_password := Some d, GetLogsRequest_password_size := n,
            GetLogsRequest_has_password := n > 0\<rparr>)))"

definition ig_GetLogsRequest_set_timestamp :: "u32 \<Rightarrow> IgGetLogsRequest \<Rightarrow>
  IgGetLogsRequest" where
  "ig_GetLogsRequest_set_timestamp v obj = obj\<lparr>GetLogsRequest_timestamp := v,
    GetLogsRequest_has_timestamp := True\<rparr>"

definition ig_GetLogsRequest_set_operation_id :: "u32 \<Rightarrow> IgGetLogsRequest \<Rightarrow>
  IgGetLogsRequest" where
  "ig_GetLogsRequest_set_operation_id v obj = obj\<lparr>GetLogsRequest_operation_id := v,
    GetLogsRequest_has_operation_id := True\<rparr>"

definition ig_GetLogsRequest_deinit :: "IgGetLogsRequest \<Rightarrow> IgGetLogsRequest" where
  "ig_GetLogsRequest_deinit obj = (let
     obj = (if GetLogsRequest_has_password obj then obj\<lparr>GetLogsRequest_password :=
       None\<rparr> else obj)
   in obj)"

definition ig_GetLogsRequest_is_valid :: "IgGetLogsRequest \<Rightarrow> bool" where
  "ig_GetLogsRequest_is_valid obj \<longleftrightarrow> GetLogsRequest_has_password obj"

definition ig_GetLogsRequest_get_max_payload_in_bytes :: "IgGetLogsRequest \<Rightarrow> u32" where
  "ig_GetLogsRequest_get_max_payload_in_bytes obj = word_of_nat (32 + GetLogsRequest_password_size obj)"

definition ig_GetLogsRequest_fields_size :: "IgGetLogsRequest \<Rightarrow> u64" where
  "ig_GetLogsRequest_fields_size obj = 1 + 1 + of_bool (GetLogsRequest_has_timestamp obj) + of_bool
    (GetLogsRequest_has_operation_id obj)"

definition ig_GetLogsRequest_fields :: "IgGetLogsRequest \<Rightarrow> enc_field list" where
  "ig_GetLogsRequest_fields obj =
    [(True, 11, ABytes (GetLogsRequest_password obj) (GetLogsRequest_password_size obj)),
     (GetLogsRequest_has_timestamp obj, 13, AUint (ucast (GetLogsRequest_timestamp obj))),
     (GetLogsRequest_has_operation_id obj, 100, AUint (ucast (GetLogsRequest_operation_id obj)))]"

definition ig_GetLogsRequest_encode ::
  "IgGetLogsRequest \<Rightarrow> bytes \<Rightarrow> u32 \<Rightarrow> (nat \<times> bytes
    \<times> nat option) res" where
  "ig_GetLogsRequest_encode obj retval len =
     (if \<not> ig_GetLogsRequest_is_valid obj then Ok (IgSerializerErrorInvalidPayload, retval, None)
      else ig_encode (ig_GetLogsRequest_fields_size obj) 41 (ig_GetLogsRequest_fields obj) retval len)"

definition ig_GetLogsRequest_cases :: "(i64 \<times> IgGetLogsRequest case_body) list" where
  "ig_GetLogsRequest_cases =
    [(0, CMsgId 41),
     (11, CBytes (ig_GetLogsRequest_set_password_nocopy False)),
     (13, CUint (\<lambda>v. ig_GetLogsRequest_set_timestamp (ucast v))),
     (100, CUint (\<lambda>v. ig_GetLogsRequest_set_operation_id (ucast v)))]"

definition ig_GetLogsRequest_decode :: "bytes \<Rightarrow> IgGetLogsRequest \<Rightarrow> nat
  \<Rightarrow> (nat \<times> IgGetLogsRequest) res" where
  "ig_GetLogsRequest_decode buf obj index = ig_decode ig_GetLogsRequest_cases buf obj index"

definition ig_GetLogsRequest_ok :: "IgGetLogsRequest \<Rightarrow> bool" where
  "ig_GetLogsRequest_ok obj \<longleftrightarrow> ig_GetLogsRequest_is_valid obj \<and>
     str_ok (GetLogsRequest_has_password obj) (GetLogsRequest_password obj)
       (GetLogsRequest_password_size obj) \<and>
     num_ok (GetLogsRequest_has_timestamp obj) (GetLogsRequest_timestamp obj) \<and>
     num_ok (GetLogsRequest_has_operation_id obj) (GetLogsRequest_operation_id obj)"

lemmas ig_GetLogsRequest_setters =
  ig_GetLogsRequest_set_operation_id_def
  ig_GetLogsRequest_set_password_nocopy_def
  ig_GetLogsRequest_set_timestamp_def

text \<open>A guarded setter, member by member.\<close>
lemma ig_GetLogsRequest_set_if:
  "(if g then ig_GetLogsRequest_set_timestamp v0 obj else obj) =
     obj\<lparr>GetLogsRequest_timestamp := pick g v0 (GetLogsRequest_timestamp obj),
       GetLogsRequest_has_timestamp := g \<or> GetLogsRequest_has_timestamp obj\<rparr>"
  "(if g then ig_GetLogsRequest_set_operation_id v1 obj else obj) =
     obj\<lparr>GetLogsRequest_operation_id := pick g v1 (GetLogsRequest_operation_id obj),
       GetLogsRequest_has_operation_id := g \<or> GetLogsRequest_has_operation_id obj\<rparr>"
  by (simp_all add: ig_GetLogsRequest_setters pick_def)

lemma ig_GetLogsRequest_store:
  assumes ok: "ig_GetLogsRequest_ok obj"
  shows "store_fields ig_GetLogsRequest_cases (ig_GetLogsRequest_fields obj) ig_GetLogsRequest_init
    = Some obj"
proof -
  have h: "str_ok (GetLogsRequest_has_password obj) (GetLogsRequest_password obj)
    (GetLogsRequest_password_size obj)"
    "num_ok (GetLogsRequest_has_timestamp obj) (GetLogsRequest_timestamp obj)"
    "num_ok (GetLogsRequest_has_operation_id obj) (GetLogsRequest_operation_id obj)"
    and valid: "ig_GetLogsRequest_is_valid obj"
    using ok by (simp_all add: ig_GetLogsRequest_ok_def)
  show ?thesis
    using valid
    by (simp add: ig_GetLogsRequest_fields_def ig_GetLogsRequest_cases_def
      ig_GetLogsRequest_init_def codec_simps
        ig_GetLogsRequest_set_if ig_GetLogsRequest_setters split del: if_split)
       (simp add: ig_GetLogsRequest_is_valid_def
         str_ok_store [OF h(1)]
         num_ok_store [OF h(2)]
         num_ok_store [OF h(3)])
qed

lemma ig_GetLogsRequest_bound:
  assumes "ig_GetLogsRequest_ok obj"
  shows "2 + length (number_bytes 41 MtUnsigned) + fields_bound (ig_GetLogsRequest_fields obj)
    \<le> unat (ig_GetLogsRequest_get_max_payload_in_bytes obj)"
proof -
  have sizes: "GetLogsRequest_password_size obj < 2 ^ 24"
    using assms by (auto simp: ig_GetLogsRequest_ok_def dest!: str_ok_bound)
  show ?thesis
    using sizes number_bytes_size [of "GetLogsRequest_password_size obj" "0x40"]
      number_bytes_u32 [of "GetLogsRequest_timestamp obj" 0]
      number_bytes_u32 [of "GetLogsRequest_operation_id obj" 0]
    by (simp add: ig_GetLogsRequest_fields_def ig_GetLogsRequest_get_max_payload_in_bytes_def
      number_bytes_literal
        unat_of_nat_small del: of_nat_add)
qed

interpretation GetLogsRequest_codec: ig_message ig_GetLogsRequest_encode ig_GetLogsRequest_decode
  ig_GetLogsRequest_get_max_payload_in_bytes ig_GetLogsRequest_is_valid ig_GetLogsRequest_init
    ig_GetLogsRequest_ok 41
  ig_GetLogsRequest_fields_size ig_GetLogsRequest_fields ig_GetLogsRequest_cases
  by (unfold_locales;
      (rule ig_GetLogsRequest_encode_def ig_GetLogsRequest_decode_def | erule
        ig_GetLogsRequest_store ig_GetLogsRequest_bound |
       auto simp: ig_GetLogsRequest_cases_def ig_GetLogsRequest_fields_def
         ig_GetLogsRequest_fields_size_def ig_GetLogsRequest_ok_def
         simp del: arg_block_ok.simps(1,2) intro: str_ok_block))

subsection \<open>GetLogsResponse\<close>

record IgGetLogsResponse =
  GetLogsResponse_has_result :: bool
  GetLogsResponse_result :: u8
  GetLogsResponse_has_data :: bool
  GetLogsResponse_data :: block_ptr
  GetLogsResponse_data_size :: nat
  GetLogsResponse_has_has_more :: bool
  GetLogsResponse_has_more :: u8
  GetLogsResponse_has_operation_id :: bool
  GetLogsResponse_operation_id :: u32

definition ig_GetLogsResponse_init :: IgGetLogsResponse where
  "ig_GetLogsResponse_init =
     \<lparr>GetLogsResponse_has_result = False,
      GetLogsResponse_result = 0,
      GetLogsResponse_has_data = False,
      GetLogsResponse_data = None,
      GetLogsResponse_data_size = 0,
      GetLogsResponse_has_has_more = False,
      GetLogsResponse_has_more = 0,
      GetLogsResponse_has_operation_id = False,
      GetLogsResponse_operation_id = 0\<rparr>"

definition ig_GetLogsResponse_set_result :: "u8 \<Rightarrow> IgGetLogsResponse \<Rightarrow>
  IgGetLogsResponse" where
  "ig_GetLogsResponse_set_result v obj = obj\<lparr>GetLogsResponse_result := v,
    GetLogsResponse_has_result := True\<rparr>"

definition ig_GetLogsResponse_get_data_size :: "IgGetLogsResponse \<Rightarrow> nat" where
  "ig_GetLogsResponse_get_data_size obj = GetLogsResponse_data_size obj"

definition ig_GetLogsResponse_set_data_nocopy ::
  "bool \<Rightarrow> block_ptr \<Rightarrow> nat \<Rightarrow> IgGetLogsResponse \<Rightarrow>
    IgGetLogsResponse" where
  "ig_GetLogsResponse_set_data_nocopy same_ptr p n obj =
     (if same_ptr then obj
      else let obj = (if GetLogsResponse_has_data obj then obj\<lparr>GetLogsResponse_data :=
        None\<rparr> else obj)
        in obj\<lparr>GetLogsResponse_data := p, GetLogsResponse_data_size := n,
          GetLogsResponse_has_data := n > 0\<rparr>)"

definition ig_GetLogsResponse_set_data ::
  "bool \<Rightarrow> block_ptr \<Rightarrow> nat \<Rightarrow> IgGetLogsResponse \<Rightarrow>
    IgGetLogsResponse res" where
  "ig_GetLogsResponse_set_data same_ptr p n obj =
     (if same_ptr then Ok obj
      else let obj = (if GetLogsResponse_has_data obj then obj\<lparr>GetLogsResponse_data :=
        None\<rparr> else obj)
        in bindR (block_read p n) (\<lambda>d.
          Ok (obj\<lparr>GetLogsResponse_data := Some d, GetLogsResponse_data_size := n,
            GetLogsResponse_has_data := n > 0\<rparr>)))"

definition ig_GetLogsResponse_set_has_more :: "u8 \<Rightarrow> IgGetLogsResponse \<Rightarrow>
  IgGetLogsResponse" where
  "ig_GetLogsResponse_set_has_more v obj = obj\<lparr>GetLogsResponse_has_more := v,
    GetLogsResponse_has_has_more := True\<rparr>"

definition ig_GetLogsResponse_set_operation_id :: "u32 \<Rightarrow> IgGetLogsResponse
  \<Rightarrow> IgGetLogsResponse" where
  "ig_GetLogsResponse_set_operation_id v obj = obj\<lparr>GetLogsResponse_operation_id := v,
    GetLogsResponse_has_operation_id := True\<rparr>"

definition ig_GetLogsResponse_deinit :: "IgGetLogsResponse \<Rightarrow> IgGetLogsResponse" where
  "ig_GetLogsResponse_deinit obj = (let
     obj = (if GetLogsResponse_has_data obj then obj\<lparr>GetLogsResponse_data := None\<rparr> else obj)
   in obj)"

definition ig_GetLogsResponse_is_valid :: "IgGetLogsResponse \<Rightarrow> bool" where
  "ig_GetLogsResponse_is_valid obj \<longleftrightarrow> GetLogsResponse_has_result obj"

definition ig_GetLogsResponse_get_max_payload_in_bytes :: "IgGetLogsResponse \<Rightarrow> u32" where
  "ig_GetLogsResponse_get_max_payload_in_bytes obj = word_of_nat (32 + GetLogsResponse_data_size obj)"

definition ig_GetLogsResponse_fields_size :: "IgGetLogsResponse \<Rightarrow> u64" where
  "ig_GetLogsResponse_fields_size obj = 1 + 1 + of_bool (GetLogsResponse_has_data obj) + of_bool
    (GetLogsResponse_has_has_more obj) + of_bool (GetLogsResponse_has_operation_id obj)"

definition ig_GetLogsResponse_fields :: "IgGetLogsResponse \<Rightarrow> enc_field list" where
  "ig_GetLogsResponse_fields obj =
    [(True, 11, AUint (ucast (GetLogsResponse_result obj))),
     (GetLogsResponse_has_data obj, 12, ABytes (GetLogsResponse_data obj) (GetLogsResponse_data_size obj)),
     (GetLogsResponse_has_has_more obj, 13, AUint (ucast (GetLogsResponse_has_more obj))),
     (GetLogsResponse_has_operation_id obj, 100, AUint (ucast (GetLogsResponse_operation_id obj)))]"

definition ig_GetLogsResponse_encode ::
  "IgGetLogsResponse \<Rightarrow> bytes \<Rightarrow> u32 \<Rightarrow> (nat \<times> bytes
    \<times> nat option) res" where
  "ig_GetLogsResponse_encode obj retval len =
     (if \<not> ig_GetLogsResponse_is_valid obj then Ok (IgSerializerErrorInvalidPayload, retval, None)
      else ig_encode (ig_GetLogsResponse_fields_size obj) 42 (ig_GetLogsResponse_fields obj) retval len)"

definition ig_GetLogsResponse_cases :: "(i64 \<times> IgGetLogsResponse case_body) list" where
  "ig_GetLogsResponse_cases =
    [(0, CMsgId 42),
     (11, CUint (\<lambda>v. ig_GetLogsResponse_set_result (ucast v))),
     (12, CBytes (ig_GetLogsResponse_set_data_nocopy False)),
     (13, CUint (\<lambda>v. ig_GetLogsResponse_set_has_more (ucast v))),
     (100, CUint (\<lambda>v. ig_GetLogsResponse_set_operation_id (ucast v)))]"

definition ig_GetLogsResponse_decode :: "bytes \<Rightarrow> IgGetLogsResponse \<Rightarrow> nat
  \<Rightarrow> (nat \<times> IgGetLogsResponse) res" where
  "ig_GetLogsResponse_decode buf obj index = ig_decode ig_GetLogsResponse_cases buf obj index"

definition ig_GetLogsResponse_ok :: "IgGetLogsResponse \<Rightarrow> bool" where
  "ig_GetLogsResponse_ok obj \<longleftrightarrow> ig_GetLogsResponse_is_valid obj \<and>
     num_ok (GetLogsResponse_has_result obj) (GetLogsResponse_result obj) \<and>
     str_ok (GetLogsResponse_has_data obj) (GetLogsResponse_data obj) (GetLogsResponse_data_size obj) \<and>
     num_ok (GetLogsResponse_has_has_more obj) (GetLogsResponse_has_more obj) \<and>
     num_ok (GetLogsResponse_has_operation_id obj) (GetLogsResponse_operation_id obj)"

lemmas ig_GetLogsResponse_setters =
  ig_GetLogsResponse_set_data_nocopy_def
  ig_GetLogsResponse_set_has_more_def
  ig_GetLogsResponse_set_operation_id_def
  ig_GetLogsResponse_set_result_def

text \<open>A guarded setter, member by member.\<close>
lemma ig_GetLogsResponse_set_if:
  "(if g then ig_GetLogsResponse_set_data_nocopy False p n obj else obj) =
     obj\<lparr>GetLogsResponse_data := pick g p (GetLogsResponse_data obj),
       GetLogsResponse_data_size := pick g n (GetLogsResponse_data_size obj),
       GetLogsResponse_has_data := pick g (n > 0) (GetLogsResponse_has_data obj)\<rparr>"
  "(if g then ig_GetLogsResponse_set_has_more v1 obj else obj) =
     obj\<lparr>GetLogsResponse_has_more := pick g v1 (GetLogsResponse_has_more obj),
       GetLogsResponse_has_has_more := g \<or> GetLogsResponse_has_has_more obj\<rparr>"
  "(if g then ig_GetLogsResponse_set_operation_id v2 obj else obj) =
     obj\<lparr>GetLogsResponse_operation_id := pick g v2 (GetLogsResponse_operation_id obj),
       GetLogsResponse_has_operation_id := g \<or> GetLogsResponse_has_operation_id obj\<rparr>"
  by (simp_all add: ig_GetLogsResponse_setters pick_def)

lemma ig_GetLogsResponse_store:
  assumes ok: "ig_GetLogsResponse_ok obj"
  shows "store_fields ig_GetLogsResponse_cases (ig_GetLogsResponse_fields obj)
    ig_GetLogsResponse_init = Some obj"
proof -
  have h: "num_ok (GetLogsResponse_has_result obj) (GetLogsResponse_result obj)"
    "str_ok (GetLogsResponse_has_data obj) (GetLogsResponse_data obj) (GetLogsResponse_data_size obj)"
    "num_ok (GetLogsResponse_has_has_more obj) (GetLogsResponse_has_more obj)"
    "num_ok (GetLogsResponse_has_operation_id obj) (GetLogsResponse_operation_id obj)"
    and valid: "ig_GetLogsResponse_is_valid obj"
    using ok by (simp_all add: ig_GetLogsResponse_ok_def)
  show ?thesis
    using valid
    by (simp add: ig_GetLogsResponse_fields_def ig_GetLogsResponse_cases_def
      ig_GetLogsResponse_init_def codec_simps
        ig_GetLogsResponse_set_if ig_GetLogsResponse_setters split del: if_split)
       (simp add: ig_GetLogsResponse_is_valid_def
         num_ok_store [OF h(1)]
         str_ok_store [OF h(2)]
         num_ok_store [OF h(3)]
         num_ok_store [OF h(4)])
qed

lemma ig_GetLogsResponse_bound:
  assumes "ig_GetLogsResponse_ok obj"
  shows "2 + length (number_bytes 42 MtUnsigned) + fields_bound (ig_GetLogsResponse_fields obj)
    \<le> unat (ig_GetLogsResponse_get_max_payload_in_bytes obj)"
proof -
  have sizes: "GetLogsResponse_data_size obj < 2 ^ 24"
    using assms by (auto simp: ig_GetLogsResponse_ok_def dest!: str_ok_bound)
  show ?thesis
    using sizes number_bytes_u8 [of "GetLogsResponse_result obj" 0]
      number_bytes_size [of "GetLogsResponse_data_size obj" "0x40"]
      number_bytes_u8 [of "GetLogsResponse_has_more obj" 0]
      number_bytes_u32 [of "GetLogsResponse_operation_id obj" 0]
    by (simp add: ig_GetLogsResponse_fields_def ig_GetLogsResponse_get_max_payload_in_bytes_def
      number_bytes_literal
        unat_of_nat_small del: of_nat_add)
qed

interpretation GetLogsResponse_codec: ig_message ig_GetLogsResponse_encode ig_GetLogsResponse_decode
  ig_GetLogsResponse_get_max_payload_in_bytes ig_GetLogsResponse_is_valid ig_GetLogsResponse_init
    ig_GetLogsResponse_ok 42
  ig_GetLogsResponse_fields_size ig_GetLogsResponse_fields ig_GetLogsResponse_cases
  by (unfold_locales;
      (rule ig_GetLogsResponse_encode_def ig_GetLogsResponse_decode_def | erule
        ig_GetLogsResponse_store ig_GetLogsResponse_bound |
       auto simp: ig_GetLogsResponse_cases_def ig_GetLogsResponse_fields_def
         ig_GetLogsResponse_fields_size_def ig_GetLogsResponse_ok_def
         simp del: arg_block_ok.simps(1,2) intro: str_ok_block))

subsection \<open>LogEntry\<close>

record IgLogEntry =
  LogEntry_has_entry_date :: bool
  LogEntry_entry_date :: u32
  LogEntry_has_log_type :: bool
  LogEntry_log_type :: u32
  LogEntry_has_key_id :: bool
  LogEntry_key_id :: u32
  LogEntry_has_pin :: bool
  LogEntry_pin :: block_ptr
  LogEntry_pin_size :: nat
  LogEntry_has_new_pin :: bool
  LogEntry_new_pin :: block_ptr
  LogEntry_new_pin_size :: nat
  LogEntry_has_time1 :: bool
  LogEntry_time1 :: u32
  LogEntry_has_time2 :: bool
  LogEntry_time2 :: u32
  LogEntry_has_pin_type :: bool
  LogEntry_pin_type :: u32
  LogEntry_has_value1 :: bool
  LogEntry_value1 :: u32
  LogEntry_has_value2 :: bool
  LogEntry_value2 :: u32
  LogEntry_has_value3 :: bool
  LogEntry_value3 :: u32
  LogEntry_has_value4 :: bool
  LogEntry_value4 :: u32
  LogEntry_has_value5 :: bool
  LogEntry_value5 :: block_ptr
  LogEntry_value5_size :: nat
  LogEntry_has_operation_id :: bool
  LogEntry_operation_id :: u32

definition ig_LogEntry_init :: IgLogEntry where
  "ig_LogEntry_init =
     \<lparr>LogEntry_has_entry_date = False,
      LogEntry_entry_date = 0,
      LogEntry_has_log_type = False,
      LogEntry_log_type = 0,
      LogEntry_has_key_id = False,
      LogEntry_key_id = 0,
      LogEntry_has_pin = False,
      LogEntry_pin = None,
      LogEntry_pin_size = 0,
      LogEntry_has_new_pin = False,
      LogEntry_new_pin = None,
      LogEntry_new_pin_size = 0,
      LogEntry_has_time1 = False,
      LogEntry_time1 = 0,
      LogEntry_has_time2 = False,
      LogEntry_time2 = 0,
      LogEntry_has_pin_type = False,
      LogEntry_pin_type = 0,
      LogEntry_has_value1 = False,
      LogEntry_value1 = 0,
      LogEntry_has_value2 = False,
      LogEntry_value2 = 0,
      LogEntry_has_value3 = False,
      LogEntry_value3 = 0,
      LogEntry_has_value4 = False,
      LogEntry_value4 = 0,
      LogEntry_has_value5 = False,
      LogEntry_value5 = None,
      LogEntry_value5_size = 0,
      LogEntry_has_operation_id = False,
      LogEntry_operation_id = 0\<rparr>"

definition ig_LogEntry_set_entry_date :: "u32 \<Rightarrow> IgLogEntry \<Rightarrow> IgLogEntry" where
  "ig_LogEntry_set_entry_date v obj = obj\<lparr>LogEntry_entry_date := v, LogEntry_has_entry_date
    := True\<rparr>"

definition ig_LogEntry_set_log_type :: "u32 \<Rightarrow> IgLogEntry \<Rightarrow> IgLogEntry" where
  "ig_LogEntry_set_log_type v obj = obj\<lparr>LogEntry_log_type := v, LogEntry_has_log_type := True\<rparr>"

definition ig_LogEntry_set_key_id :: "u32 \<Rightarrow> IgLogEntry \<Rightarrow> IgLogEntry" where
  "ig_LogEntry_set_key_id v obj = obj\<lparr>LogEntry_key_id := v, LogEntry_has_key_id := True\<rparr>"

definition ig_LogEntry_get_pin_size :: "IgLogEntry \<Rightarrow> nat" where
  "ig_LogEntry_get_pin_size obj = LogEntry_pin_size obj"

definition ig_LogEntry_set_pin_nocopy ::
  "bool \<Rightarrow> block_ptr \<Rightarrow> nat \<Rightarrow> IgLogEntry \<Rightarrow> IgLogEntry" where
  "ig_LogEntry_set_pin_nocopy same_ptr p n obj =
     (if same_ptr then obj
      else let obj = (if LogEntry_has_pin obj then obj\<lparr>LogEntry_pin := None\<rparr> else obj)
        in obj\<lparr>LogEntry_pin := p, LogEntry_pin_size := n, LogEntry_has_pin := n > 0\<rparr>)"

definition ig_LogEntry_set_pin ::
  "bool \<Rightarrow> block_ptr \<Rightarrow> nat \<Rightarrow> IgLogEntry \<Rightarrow> IgLogEntry res" where
  "ig_LogEntry_set_pin same_ptr p n obj =
     (if same_ptr then Ok obj
      else let obj = (if LogEntry_has_pin obj then obj\<lparr>LogEntry_pin := None\<rparr> else obj)
        in bindR (block_read p n) (\<lambda>d.
          Ok (obj\<lparr>LogEntry_pin := Some d, LogEntry_pin_size := n, LogEntry_has_pin := n > 0\<rparr>)))"

definition ig_LogEntry_get_new_pin_size :: "IgLogEntry \<Rightarrow> nat" where
  "ig_LogEntry_get_new_pin_size obj = LogEntry_new_pin_size obj"

definition ig_LogEntry_set_new_pin_nocopy ::
  "bool \<Rightarrow> block_ptr \<Rightarrow> nat \<Rightarrow> IgLogEntry \<Rightarrow> IgLogEntry" where
  "ig_LogEntry_set_new_pin_nocopy same_ptr p n obj =
     (if same_ptr then obj
      else let obj = (if LogEntry_has_new_pin obj then obj\<lparr>LogEntry_new_pin := None\<rparr> else obj)
        in obj\<lparr>LogEntry_new_pin := p, LogEntry_new_pin_size := n, LogEntry_has_new_pin := n
          > 0\<rparr>)"

definition ig_LogEntry_set_new_pin ::
  "bool \<Rightarrow> block_ptr \<Rightarrow> nat \<Rightarrow> IgLogEntry \<Rightarrow> IgLogEntry res" where
  "ig_LogEntry_set_new_pin same_ptr p n obj =
     (if same_ptr then Ok obj
      else let obj = (if LogEntry_has_new_pin obj then obj\<lparr>LogEntry_new_pin := None\<rparr> else obj)
        in bindR (block_read p n) (\<lambda>d.
          Ok (obj\<lparr>LogEntry_new_pin := Some d, LogEntry_new_pin_size := n,
            LogEntry_has_new_pin := n > 0\<rparr>)))"

definition ig_LogEntry_set_time1 :: "u32 \<Rightarrow> IgLogEntry \<Rightarrow> IgLogEntry" where
  "ig_LogEntry_set_time1 v obj = obj\<lparr>LogEntry_time1 := v, LogEntry_has_time1 := True\<rparr>"

definition ig_LogEntry_set_time2 :: "u32 \<Rightarrow> IgLogEntry \<Rightarrow> IgLogEntry" where
  "ig_LogEntry_set_time2 v obj = obj\<lparr>LogEntry_time2 := v, LogEntry_has_time2 := True\<rparr>"

definition ig_LogEntry_set_pin_type :: "u32 \<Rightarrow> IgLogEntry \<Rightarrow> IgLogEntry" where
  "ig_LogEntry_set_pin_type v obj = obj\<lparr>LogEntry_pin_type := v, LogEntry_has_pin_type := True\<rparr>"

definition ig_LogEntry_set_value1 :: "u32 \<Rightarrow> IgLogEntry \<Rightarrow> IgLogEntry" where
  "ig_LogEntry_set_value1 v obj = obj\<lparr>LogEntry_value1 := v, LogEntry_has_value1 := True\<rparr>"

definition ig_LogEntry_set_value2 :: "u32 \<Rightarrow> IgLogEntry \<Rightarrow> IgLogEntry" where
  "ig_LogEntry_set_value2 v obj = obj\<lparr>LogEntry_value2 := v, LogEntry_has_value2 := True\<rparr>"

definition ig_LogEntry_set_value3 :: "u32 \<Rightarrow> IgLogEntry \<Rightarrow> IgLogEntry" where
  "ig_LogEntry_set_value3 v obj = obj\<lparr>LogEntry_value3 := v, LogEntry_has_value3 := True\<rparr>"

definition ig_LogEntry_set_value4 :: "u32 \<Rightarrow> IgLogEntry \<Rightarrow> IgLogEntry" where
  "ig_LogEntry_set_value4 v obj = obj\<lparr>LogEntry_value4 := v, LogEntry_has_value4 := True\<rparr>"

definition ig_LogEntry_get_value5_size :: "IgLogEntry \<Rightarrow> nat" where
  "ig_LogEntry_get_value5_size obj = LogEntry_value5_size obj"

definition ig_LogEntry_set_value5_nocopy ::
  "bool \<Rightarrow> block_ptr \<Rightarrow> nat \<Rightarrow> IgLogEntry \<Rightarrow> IgLogEntry" where
  "ig_LogEntry_set_value5_nocopy same_ptr p n obj =
     (if same_ptr then obj
      else let obj = (if LogEntry_has_value5 obj then obj\<lparr>LogEntry_value5 := None\<rparr> else obj)
        in obj\<lparr>LogEntry_value5 := p, LogEntry_value5_size := n, LogEntry_has_value5 := n > 0\<rparr>)"

definition ig_LogEntry_set_value5 ::
  "bool \<Rightarrow> block_ptr \<Rightarrow> nat \<Rightarrow> IgLogEntry \<Rightarrow> IgLogEntry res" where
  "ig_LogEntry_set_value5 same_ptr p n obj =
     (if same_ptr then Ok obj
      else let obj = (if LogEntry_has_value5 obj then obj\<lparr>LogEntry_value5 := None\<rparr> else obj)
        in bindR (block_read p n) (\<lambda>d.
          Ok (obj\<lparr>LogEntry_value5 := Some d, LogEntry_value5_size := n, LogEntry_has_value5
            := n > 0\<rparr>)))"

definition ig_LogEntry_set_operation_id :: "u32 \<Rightarrow> IgLogEntry \<Rightarrow> IgLogEntry" where
  "ig_LogEntry_set_operation_id v obj = obj\<lparr>LogEntry_operation_id := v,
    LogEntry_has_operation_id := True\<rparr>"

definition ig_LogEntry_deinit :: "IgLogEntry \<Rightarrow> IgLogEntry" where
  "ig_LogEntry_deinit obj = (let
     obj = (if LogEntry_has_pin obj then obj\<lparr>LogEntry_pin := None\<rparr> else obj);
     obj = (if LogEntry_has_new_pin obj then obj\<lparr>LogEntry_new_pin := None\<rparr> else obj);
     obj = (if LogEntry_has_value5 obj then obj\<lparr>LogEntry_value5 := None\<rparr> else obj)
   in obj)"

definition ig_LogEntry_is_valid :: "IgLogEntry \<Rightarrow> bool" where
  "ig_LogEntry_is_valid obj \<longleftrightarrow> LogEntry_has_entry_date obj \<and>
    LogEntry_has_log_type obj"

definition ig_LogEntry_get_max_payload_in_bytes :: "IgLogEntry \<Rightarrow> u32" where
  "ig_LogEntry_get_max_payload_in_bytes obj = word_of_nat (100 + LogEntry_pin_size obj +
    LogEntry_new_pin_size obj + LogEntry_value5_size obj)"

definition ig_LogEntry_fields_size :: "IgLogEntry \<Rightarrow> u64" where
  "ig_LogEntry_fields_size obj = 1 + 2 + of_bool (LogEntry_has_key_id obj) + of_bool
    (LogEntry_has_pin obj) + of_bool (LogEntry_has_new_pin obj) + of_bool (LogEntry_has_time1 obj)
      + of_bool (LogEntry_has_time2 obj) + of_bool (LogEntry_has_pin_type obj) + of_bool
        (LogEntry_has_value1 obj) + of_bool (LogEntry_has_value2 obj) + of_bool
          (LogEntry_has_value3 obj) + of_bool (LogEntry_has_value4 obj) + of_bool
            (LogEntry_has_value5 obj) + of_bool (LogEntry_has_operation_id obj)"

definition ig_LogEntry_fields :: "IgLogEntry \<Rightarrow> enc_field list" where
  "ig_LogEntry_fields obj =
    [(True, 11, AUint (ucast (LogEntry_entry_date obj))),
     (True, 12, AUint (ucast (LogEntry_log_type obj))),
     (LogEntry_has_key_id obj, 13, AUint (ucast (LogEntry_key_id obj))),
     (LogEntry_has_pin obj, 14, ABytes (LogEntry_pin obj) (LogEntry_pin_size obj)),
     (LogEntry_has_new_pin obj, 15, ABytes (LogEntry_new_pin obj) (LogEntry_new_pin_size obj)),
     (LogEntry_has_time1 obj, 16, AUint (ucast (LogEntry_time1 obj))),
     (LogEntry_has_time2 obj, 17, AUint (ucast (LogEntry_time2 obj))),
     (LogEntry_has_pin_type obj, 18, AUint (ucast (LogEntry_pin_type obj))),
     (LogEntry_has_value1 obj, 19, AUint (ucast (LogEntry_value1 obj))),
     (LogEntry_has_value2 obj, 20, AUint (ucast (LogEntry_value2 obj))),
     (LogEntry_has_value3 obj, 21, AUint (ucast (LogEntry_value3 obj))),
     (LogEntry_has_value4 obj, 22, AUint (ucast (LogEntry_value4 obj))),
     (LogEntry_has_value5 obj, 23, ABytes (LogEntry_value5 obj) (LogEntry_value5_size obj)),
     (LogEntry_has_operation_id obj, 100, AUint (ucast (LogEntry_operation_id obj)))]"

definition ig_LogEntry_encode ::
  "IgLogEntry \<Rightarrow> bytes \<Rightarrow> u32 \<Rightarrow> (nat \<times> bytes \<times> nat
    option) res" where
  "ig_LogEntry_encode obj retval len =
     (if \<not> ig_LogEntry_is_valid obj then Ok (IgSerializerErrorInvalidPayload, retval, None)
      else ig_encode (ig_LogEntry_fields_size obj) 203 (ig_LogEntry_fields obj) retval len)"

definition ig_LogEntry_cases :: "(i64 \<times> IgLogEntry case_body) list" where
  "ig_LogEntry_cases =
    [(0, CMsgId 203),
     (11, CUint (\<lambda>v. ig_LogEntry_set_entry_date (ucast v))),
     (12, CUint (\<lambda>v. ig_LogEntry_set_log_type (ucast v))),
     (13, CUint (\<lambda>v. ig_LogEntry_set_key_id (ucast v))),
     (14, CBytes (ig_LogEntry_set_pin_nocopy False)),
     (15, CBytes (ig_LogEntry_set_new_pin_nocopy False)),
     (16, CUint (\<lambda>v. ig_LogEntry_set_time1 (ucast v))),
     (17, CUint (\<lambda>v. ig_LogEntry_set_time2 (ucast v))),
     (18, CUint (\<lambda>v. ig_LogEntry_set_pin_type (ucast v))),
     (19, CUint (\<lambda>v. ig_LogEntry_set_value1 (ucast v))),
     (20, CUint (\<lambda>v. ig_LogEntry_set_value2 (ucast v))),
     (21, CUint (\<lambda>v. ig_LogEntry_set_value3 (ucast v))),
     (22, CUint (\<lambda>v. ig_LogEntry_set_value4 (ucast v))),
     (23, CBytes (ig_LogEntry_set_value5_nocopy False)),
     (100, CUint (\<lambda>v. ig_LogEntry_set_operation_id (ucast v)))]"

definition ig_LogEntry_decode :: "bytes \<Rightarrow> IgLogEntry \<Rightarrow> nat \<Rightarrow>
  (nat \<times> IgLogEntry) res" where
  "ig_LogEntry_decode buf obj index = ig_decode ig_LogEntry_cases buf obj index"

definition ig_LogEntry_ok :: "IgLogEntry \<Rightarrow> bool" where
  "ig_LogEntry_ok obj \<longleftrightarrow> ig_LogEntry_is_valid obj \<and>
     num_ok (LogEntry_has_entry_date obj) (LogEntry_entry_date obj) \<and>
     num_ok (LogEntry_has_log_type obj) (LogEntry_log_type obj) \<and>
     num_ok (LogEntry_has_key_id obj) (LogEntry_key_id obj) \<and>
     str_ok (LogEntry_has_pin obj) (LogEntry_pin obj) (LogEntry_pin_size obj) \<and>
     str_ok (LogEntry_has_new_pin obj) (LogEntry_new_pin obj) (LogEntry_new_pin_size obj) \<and>
     num_ok (LogEntry_has_time1 obj) (LogEntry_time1 obj) \<and>
     num_ok (LogEntry_has_time2 obj) (LogEntry_time2 obj) \<and>
     num_ok (LogEntry_has_pin_type obj) (LogEntry_pin_type obj) \<and>
     num_ok (LogEntry_has_value1 obj) (LogEntry_value1 obj) \<and>
     num_ok (LogEntry_has_value2 obj) (LogEntry_value2 obj) \<and>
     num_ok (LogEntry_has_value3 obj) (LogEntry_value3 obj) \<and>
     num_ok (LogEntry_has_value4 obj) (LogEntry_value4 obj) \<and>
     str_ok (LogEntry_has_value5 obj) (LogEntry_value5 obj) (LogEntry_value5_size obj) \<and>
     num_ok (LogEntry_has_operation_id obj) (LogEntry_operation_id obj)"

lemmas ig_LogEntry_setters =
  ig_LogEntry_set_entry_date_def
  ig_LogEntry_set_key_id_def
  ig_LogEntry_set_log_type_def
  ig_LogEntry_set_new_pin_nocopy_def
  ig_LogEntry_set_operation_id_def
  ig_LogEntry_set_pin_nocopy_def
  ig_LogEntry_set_pin_type_def
  ig_LogEntry_set_time1_def
  ig_LogEntry_set_time2_def
  ig_LogEntry_set_value1_def
  ig_LogEntry_set_value2_def
  ig_LogEntry_set_value3_def
  ig_LogEntry_set_value4_def
  ig_LogEntry_set_value5_nocopy_def

text \<open>A guarded setter, member by member.\<close>
lemma ig_LogEntry_set_if:
  "(if g then ig_LogEntry_set_key_id v0 obj else obj) =
     obj\<lparr>LogEntry_key_id := pick g v0 (LogEntry_key_id obj),
       LogEntry_has_key_id := g \<or> LogEntry_has_key_id obj\<rparr>"
  "(if g then ig_LogEntry_set_pin_nocopy False p n obj else obj) =
     obj\<lparr>LogEntry_pin := pick g p (LogEntry_pin obj),
       LogEntry_pin_size := pick g n (LogEntry_pin_size obj),
       LogEntry_has_pin := pick g (n > 0) (LogEntry_has_pin obj)\<rparr>"
  "(if g then ig_LogEntry_set_new_pin_nocopy False p n obj else obj) =
     obj\<lparr>LogEntry_new_pin := pick g p (LogEntry_new_pin obj),
       LogEntry_new_pin_size := pick g n (LogEntry_new_pin_size obj),
       LogEntry_has_new_pin := pick g (n > 0) (LogEntry_has_new_pin obj)\<rparr>"
  "(if g then ig_LogEntry_set_time1 v3 obj else obj) =
     obj\<lparr>LogEntry_time1 := pick g v3 (LogEntry_time1 obj),
       LogEntry_has_time1 := g \<or> LogEntry_has_time1 obj\<rparr>"
  "(if g then ig_LogEntry_set_time2 v4 obj else obj) =
     obj\<lparr>LogEntry_time2 := pick g v4 (LogEntry_time2 obj),
       LogEntry_has_time2 := g \<or> LogEntry_has_time2 obj\<rparr>"
  "(if g then ig_LogEntry_set_pin_type v5 obj else obj) =
     obj\<lparr>LogEntry_pin_type := pick g v5 (LogEntry_pin_type obj),
       LogEntry_has_pin_type := g \<or> LogEntry_has_pin_type obj\<rparr>"
  "(if g then ig_LogEntry_set_value1 v6 obj else obj) =
     obj\<lparr>LogEntry_value1 := pick g v6 (LogEntry_value1 obj),
       LogEntry_has_value1 := g \<or> LogEntry_has_value1 obj\<rparr>"
  "(if g then ig_LogEntry_set_value2 v7 obj else obj) =
     obj\<lparr>LogEntry_value2 := pick g v7 (LogEntry_value2 obj),
       LogEntry_has_value2 := g \<or> LogEntry_has_value2 obj\<rparr>"
  "(if g then ig_LogEntry_set_value3 v8 obj else obj) =
     obj\<lparr>LogEntry_value3 := pick g v8 (LogEntry_value3 obj),
       LogEntry_has_value3 := g \<or> LogEntry_has_value3 obj\<rparr>"
  "(if g then ig_LogEntry_set_value4 v9 obj else obj) =
     obj\<lparr>LogEntry_value4 := pick g v9 (LogEntry_value4 obj),
       LogEntry_has_value4 := g \<or> LogEntry_has_value4 obj\<rparr>"
  "(if g then ig_LogEntry_set_value5_nocopy False p n obj else obj) =
     obj\<lparr>LogEntry_value5 := pick g p (LogEntry_value5 obj),
       LogEntry_value5_size := pick g n (LogEntry_value5_size obj),
       LogEntry_has_value5 := pick g (n > 0) (LogEntry_has_value5 obj)\<rparr>"
  "(if g then ig_LogEntry_set_operation_id v11 obj else obj) =
     obj\<lparr>LogEntry_operation_id := pick g v11 (LogEntry_operation_id obj),
       LogEntry_has_operation_id := g \<or> LogEntry_has_operation_id obj\<rparr>"
  by (simp_all add: ig_LogEntry_setters pick_def)

lemma ig_LogEntry_store:
  assumes ok: "ig_LogEntry_ok obj"
  shows "store_fields ig_LogEntry_cases (ig_LogEntry_fields obj) ig_LogEntry_init = Some obj"
proof -
  have h: "num_ok (LogEntry_has_entry_date obj) (LogEntry_entry_date obj)"
    "num_ok (LogEntry_has_log_type obj) (LogEntry_log_type obj)"
    "num_ok (LogEntry_has_key_id obj) (LogEntry_key_id obj)"
    "str_ok (LogEntry_has_pin obj) (LogEntry_pin obj) (LogEntry_pin_size obj)"
    "str_ok (LogEntry_has_new_pin obj) (LogEntry_new_pin obj) (LogEntry_new_pin_size obj)"
    "num_ok (LogEntry_has_time1 obj) (LogEntry_time1 obj)"
    "num_ok (LogEntry_has_time2 obj) (LogEntry_time2 obj)"
    "num_ok (LogEntry_has_pin_type obj) (LogEntry_pin_type obj)"
    "num_ok (LogEntry_has_value1 obj) (LogEntry_value1 obj)"
    "num_ok (LogEntry_has_value2 obj) (LogEntry_value2 obj)"
    "num_ok (LogEntry_has_value3 obj) (LogEntry_value3 obj)"
    "num_ok (LogEntry_has_value4 obj) (LogEntry_value4 obj)"
    "str_ok (LogEntry_has_value5 obj) (LogEntry_value5 obj) (LogEntry_value5_size obj)"
    "num_ok (LogEntry_has_operation_id obj) (LogEntry_operation_id obj)"
    and valid: "ig_LogEntry_is_valid obj"
    using ok by (simp_all add: ig_LogEntry_ok_def)
  show ?thesis
    using valid
    by (simp add: ig_LogEntry_fields_def ig_LogEntry_cases_def ig_LogEntry_init_def codec_simps
        ig_LogEntry_set_if ig_LogEntry_setters split del: if_split)
       (simp add: ig_LogEntry_is_valid_def
         num_ok_store [OF h(1)]
         num_ok_store [OF h(2)]
         num_ok_store [OF h(3)]
         str_ok_store [OF h(4)]
         str_ok_store [OF h(5)]
         num_ok_store [OF h(6)]
         num_ok_store [OF h(7)]
         num_ok_store [OF h(8)]
         num_ok_store [OF h(9)]
         num_ok_store [OF h(10)]
         num_ok_store [OF h(11)]
         num_ok_store [OF h(12)]
         str_ok_store [OF h(13)]
         num_ok_store [OF h(14)])
qed

lemma ig_LogEntry_bound:
  assumes "ig_LogEntry_ok obj"
  shows "2 + length (number_bytes 203 MtUnsigned) + fields_bound (ig_LogEntry_fields obj)
    \<le> unat (ig_LogEntry_get_max_payload_in_bytes obj)"
proof -
  have sizes: "LogEntry_pin_size obj < 2 ^ 24" "LogEntry_new_pin_size obj < 2 ^ 24"
    "LogEntry_value5_size obj < 2 ^ 24"
    using assms by (auto simp: ig_LogEntry_ok_def dest!: str_ok_bound)
  show ?thesis
    using sizes number_bytes_u32 [of "LogEntry_entry_date obj" 0]
      number_bytes_u32 [of "LogEntry_log_type obj" 0]
      number_bytes_u32 [of "LogEntry_key_id obj" 0]
      number_bytes_size [of "LogEntry_pin_size obj" "0x40"]
      number_bytes_size [of "LogEntry_new_pin_size obj" "0x40"]
      number_bytes_u32 [of "LogEntry_time1 obj" 0]
      number_bytes_u32 [of "LogEntry_time2 obj" 0]
      number_bytes_u32 [of "LogEntry_pin_type obj" 0]
      number_bytes_u32 [of "LogEntry_value1 obj" 0]
      number_bytes_u32 [of "LogEntry_value2 obj" 0]
      number_bytes_u32 [of "LogEntry_value3 obj" 0]
      number_bytes_u32 [of "LogEntry_value4 obj" 0]
      number_bytes_size [of "LogEntry_value5_size obj" "0x40"]
      number_bytes_u32 [of "LogEntry_operation_id obj" 0]
    by (simp add: ig_LogEntry_fields_def ig_LogEntry_get_max_payload_in_bytes_def number_bytes_literal
        unat_of_nat_small del: of_nat_add)
qed

interpretation LogEntry_codec: ig_message ig_LogEntry_encode ig_LogEntry_decode
  ig_LogEntry_get_max_payload_in_bytes ig_LogEntry_is_valid ig_LogEntry_init ig_LogEntry_ok 203
  ig_LogEntry_fields_size ig_LogEntry_fields ig_LogEntry_cases
  by (unfold_locales;
      (rule ig_LogEntry_encode_def ig_LogEntry_decode_def | erule ig_LogEntry_store ig_LogEntry_bound |
       auto simp: ig_LogEntry_cases_def ig_LogEntry_fields_def ig_LogEntry_fields_size_def ig_LogEntry_ok_def
         simp del: arg_block_ok.simps(1,2) intro: str_ok_block))

subsection \<open>BlacklistGuestKeyRequest\<close>

record IgBlacklistGuestKeyRequest =
  BlacklistGuestKeyRequest_has_password :: bool
  BlacklistGuestKeyRequest_password :: block_ptr
  BlacklistGuestKeyRequest_password_size :: nat
  BlacklistGuestKeyRequest_has_key_id :: bool
  BlacklistGuestKeyRequest_key_id :: u32
  BlacklistGuestKeyRequest_has_start_date :: bool
  BlacklistGuestKeyRequest_start_date :: u32
  BlacklistGuestKeyRequest_has_end_date :: bool
  BlacklistGuestKeyRequest_end_date :: u32
  BlacklistGuestKeyRequest_has_operation_id :: bool
  BlacklistGuestKeyRequest_operation_id :: u32

definition ig_BlacklistGuestKeyRequest_init :: IgBlacklistGuestKeyRequest where
  "ig_BlacklistGuestKeyRequest_init =
     \<lparr>BlacklistGuestKeyRequest_has_password = False,
      BlacklistGuestKeyRequest_password = None,
      BlacklistGuestKeyRequest_password_size = 0,
      BlacklistGuestKeyRequest_has_key_id = False,
      BlacklistGuestKeyRequest_key_id = 0,
      BlacklistGuestKeyRequest_has_start_date = False,
      BlacklistGuestKeyRequest_start_date = 0,
      BlacklistGuestKeyRequest_has_end_date = False,
      BlacklistGuestKeyRequest_end_date = 0,
      BlacklistGuestKeyRequest_has_operation_id = False,
      BlacklistGuestKeyRequest_operation_id = 0\<rparr>"

definition ig_BlacklistGuestKeyRequest_get_password_size :: "IgBlacklistGuestKeyRequest
  \<Rightarrow> nat" where
  "ig_BlacklistGuestKeyRequest_get_password_size obj = BlacklistGuestKeyRequest_password_size obj"

definition ig_BlacklistGuestKeyRequest_set_password_nocopy ::
  "bool \<Rightarrow> block_ptr \<Rightarrow> nat \<Rightarrow> IgBlacklistGuestKeyRequest
    \<Rightarrow> IgBlacklistGuestKeyRequest" where
  "ig_BlacklistGuestKeyRequest_set_password_nocopy same_ptr p n obj =
     (if same_ptr then obj
      else let obj = (if BlacklistGuestKeyRequest_has_password obj then
        obj\<lparr>BlacklistGuestKeyRequest_password := None\<rparr> else obj)
        in obj\<lparr>BlacklistGuestKeyRequest_password := p,
          BlacklistGuestKeyRequest_password_size := n, BlacklistGuestKeyRequest_has_password := n >
            0\<rparr>)"

definition ig_BlacklistGuestKeyRequest_set_password ::
  "bool \<Rightarrow> block_ptr \<Rightarrow> nat \<Rightarrow> IgBlacklistGuestKeyRequest
    \<Rightarrow> IgBlacklistGuestKeyRequest res" where
  "ig_BlacklistGuestKeyRequest_set_password same_ptr p n obj =
     (if same_ptr then Ok obj
      else let obj = (if BlacklistGuestKeyRequest_has_password obj then
        obj\<lparr>BlacklistGuestKeyRequest_password := None\<rparr> else obj)
        in bindR (block_read p n) (\<lambda>d.
          Ok (obj\<lparr>BlacklistGuestKeyRequest_password := Some d,
            BlacklistGuestKeyRequest_password_size := n, BlacklistGuestKeyRequest_has_password := n
              > 0\<rparr>)))"

definition ig_BlacklistGuestKeyRequest_set_key_id :: "u32 \<Rightarrow> IgBlacklistGuestKeyRequest
  \<Rightarrow> IgBlacklistGuestKeyRequest" where
  "ig_BlacklistGuestKeyRequest_set_key_id v obj = obj\<lparr>BlacklistGuestKeyRequest_key_id := v,
    BlacklistGuestKeyRequest_has_key_id := True\<rparr>"

definition ig_BlacklistGuestKeyRequest_set_start_date :: "u32 \<Rightarrow>
  IgBlacklistGuestKeyRequest \<Rightarrow> IgBlacklistGuestKeyRequest" where
  "ig_BlacklistGuestKeyRequest_set_start_date v obj =
    obj\<lparr>BlacklistGuestKeyRequest_start_date := v, BlacklistGuestKeyRequest_has_start_date :=
      True\<rparr>"

definition ig_BlacklistGuestKeyRequest_set_end_date :: "u32 \<Rightarrow>
  IgBlacklistGuestKeyRequest \<Rightarrow> IgBlacklistGuestKeyRequest" where
  "ig_BlacklistGuestKeyRequest_set_end_date v obj = obj\<lparr>BlacklistGuestKeyRequest_end_date :=
    v, BlacklistGuestKeyRequest_has_end_date := True\<rparr>"

definition ig_BlacklistGuestKeyRequest_set_operation_id :: "u32 \<Rightarrow>
  IgBlacklistGuestKeyRequest \<Rightarrow> IgBlacklistGuestKeyRequest" where
  "ig_BlacklistGuestKeyRequest_set_operation_id v obj =
    obj\<lparr>BlacklistGuestKeyRequest_operation_id := v,
      BlacklistGuestKeyRequest_has_operation_id := True\<rparr>"

definition ig_BlacklistGuestKeyRequest_deinit :: "IgBlacklistGuestKeyRequest \<Rightarrow>
  IgBlacklistGuestKeyRequest" where
  "ig_BlacklistGuestKeyRequest_deinit obj = (let
     obj = (if BlacklistGuestKeyRequest_has_password obj then
       obj\<lparr>BlacklistGuestKeyRequest_password := None\<rparr> else obj)
   in obj)"

definition ig_BlacklistGuestKeyRequest_is_valid :: "IgBlacklistGuestKeyRequest \<Rightarrow> bool" where
  "ig_BlacklistGuestKeyRequest_is_valid obj \<longleftrightarrow>
    BlacklistGuestKeyRequest_has_password obj \<and> BlacklistGuestKeyRequest_has_key_id obj"

definition ig_BlacklistGuestKeyRequest_get_max_payload_in_bytes :: "IgBlacklistGuestKeyRequest
  \<Rightarrow> u32" where
  "ig_BlacklistGuestKeyRequest_get_max_payload_in_bytes obj = word_of_nat (44 +
    BlacklistGuestKeyRequest_password_size obj)"

definition ig_BlacklistGuestKeyRequest_fields_size :: "IgBlacklistGuestKeyRequest \<Rightarrow> u64" where
  "ig_BlacklistGuestKeyRequest_fields_size obj = 1 + 2 + of_bool
    (BlacklistGuestKeyRequest_has_start_date obj) + of_bool (BlacklistGuestKeyRequest_has_end_date
      obj) + of_bool (BlacklistGuestKeyRequest_has_operation_id obj)"

definition ig_BlacklistGuestKeyRequest_fields :: "IgBlacklistGuestKeyRequest \<Rightarrow>
  enc_field list" where
  "ig_BlacklistGuestKeyRequest_fields obj =
    [(True, 11, ABytes (BlacklistGuestKeyRequest_password obj) (BlacklistGuestKeyRequest_password_size obj)),
     (True, 12, AUint (ucast (BlacklistGuestKeyRequest_key_id obj))),
     (BlacklistGuestKeyRequest_has_start_date obj, 13, AUint (ucast
       (BlacklistGuestKeyRequest_start_date obj))),
     (BlacklistGuestKeyRequest_has_end_date obj, 14, AUint (ucast (BlacklistGuestKeyRequest_end_date obj))),
     (BlacklistGuestKeyRequest_has_operation_id obj, 100, AUint (ucast
       (BlacklistGuestKeyRequest_operation_id obj)))]"

definition ig_BlacklistGuestKeyRequest_encode ::
  "IgBlacklistGuestKeyRequest \<Rightarrow> bytes \<Rightarrow> u32 \<Rightarrow> (nat \<times>
    bytes \<times> nat option) res" where
  "ig_BlacklistGuestKeyRequest_encode obj retval len =
     (if \<not> ig_BlacklistGuestKeyRequest_is_valid obj then Ok (IgSerializerErrorInvalidPayload,
       retval, None)
      else ig_encode (ig_BlacklistGuestKeyRequest_fields_size obj) 57
        (ig_BlacklistGuestKeyRequest_fields obj) retval len)"

definition ig_BlacklistGuestKeyRequest_cases :: "(i64 \<times> IgBlacklistGuestKeyRequest
  case_body) list" where
  "ig_BlacklistGuestKeyRequest_cases =
    [(0, CMsgId 57),
     (11, CBytes (ig_BlacklistGuestKeyRequest_set_password_nocopy False)),
     (12, CUint (\<lambda>v. ig_BlacklistGuestKeyRequest_set_key_id (ucast v))),
     (13, CUint (\<lambda>v. ig_BlacklistGuestKeyRequest_set_start_date (ucast v))),
     (14, CUint (\<lambda>v. ig_BlacklistGuestKeyRequest_set_end_date (ucast v))),
     (100, CUint (\<lambda>v. ig_BlacklistGuestKeyRequest_set_operation_id (ucast v)))]"

definition ig_BlacklistGuestKeyRequest_decode :: "bytes \<Rightarrow> IgBlacklistGuestKeyRequest
  \<Rightarrow> nat \<Rightarrow> (nat \<times> IgBlacklistGuestKeyRequest) res" where
  "ig_BlacklistGuestKeyRequest_decode buf obj index = ig_decode ig_BlacklistGuestKeyRequest_cases
    buf obj index"

definition ig_BlacklistGuestKeyRequest_ok :: "IgBlacklistGuestKeyRequest \<Rightarrow> bool" where
  "ig_BlacklistGuestKeyRequest_ok obj \<longleftrightarrow> ig_BlacklistGuestKeyRequest_is_valid obj \<and>
     str_ok (BlacklistGuestKeyRequest_has_password obj) (BlacklistGuestKeyRequest_password obj)
       (BlacklistGuestKeyRequest_password_size obj) \<and>
     num_ok (BlacklistGuestKeyRequest_has_key_id obj) (BlacklistGuestKeyRequest_key_id obj) \<and>
     num_ok (BlacklistGuestKeyRequest_has_start_date obj) (BlacklistGuestKeyRequest_start_date obj) \<and>
     num_ok (BlacklistGuestKeyRequest_has_end_date obj) (BlacklistGuestKeyRequest_end_date obj) \<and>
     num_ok (BlacklistGuestKeyRequest_has_operation_id obj) (BlacklistGuestKeyRequest_operation_id obj)"

lemmas ig_BlacklistGuestKeyRequest_setters =
  ig_BlacklistGuestKeyRequest_set_end_date_def
  ig_BlacklistGuestKeyRequest_set_key_id_def
  ig_BlacklistGuestKeyRequest_set_operation_id_def
  ig_BlacklistGuestKeyRequest_set_password_nocopy_def
  ig_BlacklistGuestKeyRequest_set_start_date_def

text \<open>A guarded setter, member by member.\<close>
lemma ig_BlacklistGuestKeyRequest_set_if:
  "(if g then ig_BlacklistGuestKeyRequest_set_start_date v0 obj else obj) =
     obj\<lparr>BlacklistGuestKeyRequest_start_date := pick g v0 (BlacklistGuestKeyRequest_start_date obj),
       BlacklistGuestKeyRequest_has_start_date := g \<or> BlacklistGuestKeyRequest_has_start_date obj\<rparr>"
  "(if g then ig_BlacklistGuestKeyRequest_set_end_date v1 obj else obj) =
     obj\<lparr>BlacklistGuestKeyRequest_end_date := pick g v1 (BlacklistGuestKeyRequest_end_date obj),
       BlacklistGuestKeyRequest_has_end_date := g \<or> BlacklistGuestKeyRequest_has_end_date obj\<rparr>"
  "(if g then ig_BlacklistGuestKeyRequest_set_operation_id v2 obj else obj) =
     obj\<lparr>BlacklistGuestKeyRequest_operation_id := pick g v2
       (BlacklistGuestKeyRequest_operation_id obj),
       BlacklistGuestKeyRequest_has_operation_id := g \<or>
         BlacklistGuestKeyRequest_has_operation_id obj\<rparr>"
  by (simp_all add: ig_BlacklistGuestKeyRequest_setters pick_def)

lemma ig_BlacklistGuestKeyRequest_store:
  assumes ok: "ig_BlacklistGuestKeyRequest_ok obj"
  shows "store_fields ig_BlacklistGuestKeyRequest_cases (ig_BlacklistGuestKeyRequest_fields obj)
    ig_BlacklistGuestKeyRequest_init = Some obj"
proof -
  have h: "str_ok (BlacklistGuestKeyRequest_has_password obj) (BlacklistGuestKeyRequest_password
    obj) (BlacklistGuestKeyRequest_password_size obj)"
    "num_ok (BlacklistGuestKeyRequest_has_key_id obj) (BlacklistGuestKeyRequest_key_id obj)"
    "num_ok (BlacklistGuestKeyRequest_has_start_date obj) (BlacklistGuestKeyRequest_start_date obj)"
    "num_ok (BlacklistGuestKeyRequest_has_end_date obj) (BlacklistGuestKeyRequest_end_date obj)"
    "num_ok (BlacklistGuestKeyRequest_has_operation_id obj) (BlacklistGuestKeyRequest_operation_id obj)"
    and valid: "ig_BlacklistGuestKeyRequest_is_valid obj"
    using ok by (simp_all add: ig_BlacklistGuestKeyRequest_ok_def)
  show ?thesis
    using valid
    by (simp add: ig_BlacklistGuestKeyRequest_fields_def ig_BlacklistGuestKeyRequest_cases_def
      ig_BlacklistGuestKeyRequest_init_def codec_simps
        ig_BlacklistGuestKeyRequest_set_if ig_BlacklistGuestKeyRequest_setters split del: if_split)
       (simp add: ig_BlacklistGuestKeyRequest_is_valid_def
         str_ok_store [OF h(1)]
         num_ok_store [OF h(2)]
         num_ok_store [OF h(3)]
         num_ok_store [OF h(4)]
         num_ok_store [OF h(5)])
qed

lemma ig_BlacklistGuestKeyRequest_bound:
  assumes "ig_BlacklistGuestKeyRequest_ok obj"
  shows "2 + length (number_bytes 57 MtUnsigned) + fields_bound (ig_BlacklistGuestKeyRequest_fields obj)
    \<le> unat (ig_BlacklistGuestKeyRequest_get_max_payload_in_bytes obj)"
proof -
  have sizes: "BlacklistGuestKeyRequest_password_size obj < 2 ^ 24"
    using assms by (auto simp: ig_BlacklistGuestKeyRequest_ok_def dest!: str_ok_bound)
  show ?thesis
    using sizes number_bytes_size [of "BlacklistGuestKeyRequest_password_size obj" "0x40"]
      number_bytes_u32 [of "BlacklistGuestKeyRequest_key_id obj" 0]
      number_bytes_u32 [of "BlacklistGuestKeyRequest_start_date obj" 0]
      number_bytes_u32 [of "BlacklistGuestKeyRequest_end_date obj" 0]
      number_bytes_u32 [of "BlacklistGuestKeyRequest_operation_id obj" 0]
    by (simp add: ig_BlacklistGuestKeyRequest_fields_def
      ig_BlacklistGuestKeyRequest_get_max_payload_in_bytes_def number_bytes_literal
        unat_of_nat_small del: of_nat_add)
qed

interpretation BlacklistGuestKeyRequest_codec: ig_message ig_BlacklistGuestKeyRequest_encode
  ig_BlacklistGuestKeyRequest_decode
  ig_BlacklistGuestKeyRequest_get_max_payload_in_bytes ig_BlacklistGuestKeyRequest_is_valid
    ig_BlacklistGuestKeyRequest_init ig_BlacklistGuestKeyRequest_ok 57
  ig_BlacklistGuestKeyRequest_fields_size ig_BlacklistGuestKeyRequest_fields ig_BlacklistGuestKeyRequest_cases
  by (unfold_locales;
      (rule ig_BlacklistGuestKeyRequest_encode_def ig_BlacklistGuestKeyRequest_decode_def | erule
        ig_BlacklistGuestKeyRequest_store ig_BlacklistGuestKeyRequest_bound |
       auto simp: ig_BlacklistGuestKeyRequest_cases_def ig_BlacklistGuestKeyRequest_fields_def
         ig_BlacklistGuestKeyRequest_fields_size_def ig_BlacklistGuestKeyRequest_ok_def
         simp del: arg_block_ok.simps(1,2) intro: str_ok_block))

subsection \<open>BlacklistGuestKeyResponse\<close>

record IgBlacklistGuestKeyResponse =
  BlacklistGuestKeyResponse_has_result :: bool
  BlacklistGuestKeyResponse_result :: u8
  BlacklistGuestKeyResponse_has_operation_id :: bool
  BlacklistGuestKeyResponse_operation_id :: u32

definition ig_BlacklistGuestKeyResponse_init :: IgBlacklistGuestKeyResponse where
  "ig_BlacklistGuestKeyResponse_init =
     \<lparr>BlacklistGuestKeyResponse_has_result = False,
      BlacklistGuestKeyResponse_result = 0,
      BlacklistGuestKeyResponse_has_operation_id = False,
      BlacklistGuestKeyResponse_operation_id = 0\<rparr>"

definition ig_BlacklistGuestKeyResponse_set_result :: "u8 \<Rightarrow> IgBlacklistGuestKeyResponse
  \<Rightarrow> IgBlacklistGuestKeyResponse" where
  "ig_BlacklistGuestKeyResponse_set_result v obj = obj\<lparr>BlacklistGuestKeyResponse_result :=
    v, BlacklistGuestKeyResponse_has_result := True\<rparr>"

definition ig_BlacklistGuestKeyResponse_set_operation_id :: "u32 \<Rightarrow>
  IgBlacklistGuestKeyResponse \<Rightarrow> IgBlacklistGuestKeyResponse" where
  "ig_BlacklistGuestKeyResponse_set_operation_id v obj =
    obj\<lparr>BlacklistGuestKeyResponse_operation_id := v,
      BlacklistGuestKeyResponse_has_operation_id := True\<rparr>"

definition ig_BlacklistGuestKeyResponse_deinit :: "IgBlacklistGuestKeyResponse \<Rightarrow>
  IgBlacklistGuestKeyResponse" where
  "ig_BlacklistGuestKeyResponse_deinit obj = obj"

definition ig_BlacklistGuestKeyResponse_is_valid :: "IgBlacklistGuestKeyResponse \<Rightarrow> bool" where
  "ig_BlacklistGuestKeyResponse_is_valid obj \<longleftrightarrow> BlacklistGuestKeyResponse_has_result obj"

definition ig_BlacklistGuestKeyResponse_get_max_payload_in_bytes :: "IgBlacklistGuestKeyResponse
  \<Rightarrow> u32" where
  "ig_BlacklistGuestKeyResponse_get_max_payload_in_bytes obj = 22"

definition ig_BlacklistGuestKeyResponse_fields_size :: "IgBlacklistGuestKeyResponse \<Rightarrow> u64" where
  "ig_BlacklistGuestKeyResponse_fields_size obj = 1 + 1 + of_bool
    (BlacklistGuestKeyResponse_has_operation_id obj)"

definition ig_BlacklistGuestKeyResponse_fields :: "IgBlacklistGuestKeyResponse \<Rightarrow>
  enc_field list" where
  "ig_BlacklistGuestKeyResponse_fields obj =
    [(True, 11, AUint (ucast (BlacklistGuestKeyResponse_result obj))),
     (BlacklistGuestKeyResponse_has_operation_id obj, 100, AUint (ucast
       (BlacklistGuestKeyResponse_operation_id obj)))]"

definition ig_BlacklistGuestKeyResponse_encode ::
  "IgBlacklistGuestKeyResponse \<Rightarrow> bytes \<Rightarrow> u32 \<Rightarrow> (nat \<times>
    bytes \<times> nat option) res" where
  "ig_BlacklistGuestKeyResponse_encode obj retval len =
     (if \<not> ig_BlacklistGuestKeyResponse_is_valid obj then Ok (IgSerializerErrorInvalidPayload,
       retval, None)
      else ig_encode (ig_BlacklistGuestKeyResponse_fields_size obj) 58
        (ig_BlacklistGuestKeyResponse_fields obj) retval len)"

definition ig_BlacklistGuestKeyResponse_cases :: "(i64 \<times> IgBlacklistGuestKeyResponse
  case_body) list" where
  "ig_BlacklistGuestKeyResponse_cases =
    [(0, CMsgId 58),
     (11, CUint (\<lambda>v. ig_BlacklistGuestKeyResponse_set_result (ucast v))),
     (100, CUint (\<lambda>v. ig_BlacklistGuestKeyResponse_set_operation_id (ucast v)))]"

definition ig_BlacklistGuestKeyResponse_decode :: "bytes \<Rightarrow> IgBlacklistGuestKeyResponse
  \<Rightarrow> nat \<Rightarrow> (nat \<times> IgBlacklistGuestKeyResponse) res" where
  "ig_BlacklistGuestKeyResponse_decode buf obj index = ig_decode ig_BlacklistGuestKeyResponse_cases
    buf obj index"

definition ig_BlacklistGuestKeyResponse_ok :: "IgBlacklistGuestKeyResponse \<Rightarrow> bool" where
  "ig_BlacklistGuestKeyResponse_ok obj \<longleftrightarrow> ig_BlacklistGuestKeyResponse_is_valid obj \<and>
     num_ok (BlacklistGuestKeyResponse_has_result obj) (BlacklistGuestKeyResponse_result obj) \<and>
     num_ok (BlacklistGuestKeyResponse_has_operation_id obj) (BlacklistGuestKeyResponse_operation_id obj)"

lemmas ig_BlacklistGuestKeyResponse_setters =
  ig_BlacklistGuestKeyResponse_set_operation_id_def
  ig_BlacklistGuestKeyResponse_set_result_def

text \<open>A guarded setter, member by member.\<close>
lemma ig_BlacklistGuestKeyResponse_set_if:
  "(if g then ig_BlacklistGuestKeyResponse_set_operation_id v0 obj else obj) =
     obj\<lparr>BlacklistGuestKeyResponse_operation_id := pick g v0
       (BlacklistGuestKeyResponse_operation_id obj),
       BlacklistGuestKeyResponse_has_operation_id := g \<or>
         BlacklistGuestKeyResponse_has_operation_id obj\<rparr>"
  by (simp_all add: ig_BlacklistGuestKeyResponse_setters pick_def)

lemma ig_BlacklistGuestKeyResponse_store:
  assumes ok: "ig_BlacklistGuestKeyResponse_ok obj"
  shows "store_fields ig_BlacklistGuestKeyResponse_cases (ig_BlacklistGuestKeyResponse_fields obj)
    ig_BlacklistGuestKeyResponse_init = Some obj"
proof -
  have h: "num_ok (BlacklistGuestKeyResponse_has_result obj) (BlacklistGuestKeyResponse_result obj)"
    "num_ok (BlacklistGuestKeyResponse_has_operation_id obj) (BlacklistGuestKeyResponse_operation_id obj)"
    and valid: "ig_BlacklistGuestKeyResponse_is_valid obj"
    using ok by (simp_all add: ig_BlacklistGuestKeyResponse_ok_def)
  show ?thesis
    using valid
    by (simp add: ig_BlacklistGuestKeyResponse_fields_def ig_BlacklistGuestKeyResponse_cases_def
      ig_BlacklistGuestKeyResponse_init_def codec_simps
        ig_BlacklistGuestKeyResponse_set_if ig_BlacklistGuestKeyResponse_setters split del: if_split)
       (simp add: ig_BlacklistGuestKeyResponse_is_valid_def
         num_ok_store [OF h(1)]
         num_ok_store [OF h(2)])
qed

lemma ig_BlacklistGuestKeyResponse_bound:
  assumes "ig_BlacklistGuestKeyResponse_ok obj"
  shows "2 + length (number_bytes 58 MtUnsigned) + fields_bound (ig_BlacklistGuestKeyResponse_fields obj)
    \<le> unat (ig_BlacklistGuestKeyResponse_get_max_payload_in_bytes obj)"
  using number_bytes_u8 [of "BlacklistGuestKeyResponse_result obj" 0]
    number_bytes_u32 [of "BlacklistGuestKeyResponse_operation_id obj" 0]
  by (simp add: ig_BlacklistGuestKeyResponse_fields_def
    ig_BlacklistGuestKeyResponse_get_max_payload_in_bytes_def number_bytes_literal)

interpretation BlacklistGuestKeyResponse_codec: ig_message ig_BlacklistGuestKeyResponse_encode
  ig_BlacklistGuestKeyResponse_decode
  ig_BlacklistGuestKeyResponse_get_max_payload_in_bytes ig_BlacklistGuestKeyResponse_is_valid
    ig_BlacklistGuestKeyResponse_init ig_BlacklistGuestKeyResponse_ok 58
  ig_BlacklistGuestKeyResponse_fields_size ig_BlacklistGuestKeyResponse_fields
    ig_BlacklistGuestKeyResponse_cases
  by (unfold_locales;
      (rule ig_BlacklistGuestKeyResponse_encode_def ig_BlacklistGuestKeyResponse_decode_def | erule
        ig_BlacklistGuestKeyResponse_store ig_BlacklistGuestKeyResponse_bound |
       auto simp: ig_BlacklistGuestKeyResponse_cases_def ig_BlacklistGuestKeyResponse_fields_def
         ig_BlacklistGuestKeyResponse_fields_size_def ig_BlacklistGuestKeyResponse_ok_def
         simp del: arg_block_ok.simps(1,2) intro: str_ok_block))

subsection \<open>UnblacklistGuestKeyRequest\<close>

record IgUnblacklistGuestKeyRequest =
  UnblacklistGuestKeyRequest_has_password :: bool
  UnblacklistGuestKeyRequest_password :: block_ptr
  UnblacklistGuestKeyRequest_password_size :: nat
  UnblacklistGuestKeyRequest_has_key_id :: bool
  UnblacklistGuestKeyRequest_key_id :: u32
  UnblacklistGuestKeyRequest_has_operation_id :: bool
  UnblacklistGuestKeyRequest_operation_id :: u32

definition ig_UnblacklistGuestKeyRequest_init :: IgUnblacklistGuestKeyRequest where
  "ig_UnblacklistGuestKeyRequest_init =
     \<lparr>UnblacklistGuestKeyRequest_has_password = False,
      UnblacklistGuestKeyRequest_password = None,
      UnblacklistGuestKeyRequest_password_size = 0,
      UnblacklistGuestKeyRequest_has_key_id = False,
      UnblacklistGuestKeyRequest_key_id = 0,
      UnblacklistGuestKeyRequest_has_operation_id = False,
      UnblacklistGuestKeyRequest_operation_id = 0\<rparr>"

definition ig_UnblacklistGuestKeyRequest_get_password_size :: "IgUnblacklistGuestKeyRequest
  \<Rightarrow> nat" where
  "ig_UnblacklistGuestKeyRequest_get_password_size obj = UnblacklistGuestKeyRequest_password_size obj"

definition ig_UnblacklistGuestKeyRequest_set_password_nocopy ::
  "bool \<Rightarrow> block_ptr \<Rightarrow> nat \<Rightarrow> IgUnblacklistGuestKeyRequest
    \<Rightarrow> IgUnblacklistGuestKeyRequest" where
  "ig_UnblacklistGuestKeyRequest_set_password_nocopy same_ptr p n obj =
     (if same_ptr then obj
      else let obj = (if UnblacklistGuestKeyRequest_has_password obj then
        obj\<lparr>UnblacklistGuestKeyRequest_password := None\<rparr> else obj)
        in obj\<lparr>UnblacklistGuestKeyRequest_password := p,
          UnblacklistGuestKeyRequest_password_size := n, UnblacklistGuestKeyRequest_has_password :=
            n > 0\<rparr>)"

definition ig_UnblacklistGuestKeyRequest_set_password ::
  "bool \<Rightarrow> block_ptr \<Rightarrow> nat \<Rightarrow> IgUnblacklistGuestKeyRequest
    \<Rightarrow> IgUnblacklistGuestKeyRequest res" where
  "ig_UnblacklistGuestKeyRequest_set_password same_ptr p n obj =
     (if same_ptr then Ok obj
      else let obj = (if UnblacklistGuestKeyRequest_has_password obj then
        obj\<lparr>UnblacklistGuestKeyRequest_password := None\<rparr> else obj)
        in bindR (block_read p n) (\<lambda>d.
          Ok (obj\<lparr>UnblacklistGuestKeyRequest_password := Some d,
            UnblacklistGuestKeyRequest_password_size := n, UnblacklistGuestKeyRequest_has_password
              := n > 0\<rparr>)))"

definition ig_UnblacklistGuestKeyRequest_set_key_id :: "u32 \<Rightarrow>
  IgUnblacklistGuestKeyRequest \<Rightarrow> IgUnblacklistGuestKeyRequest" where
  "ig_UnblacklistGuestKeyRequest_set_key_id v obj = obj\<lparr>UnblacklistGuestKeyRequest_key_id :=
    v, UnblacklistGuestKeyRequest_has_key_id := True\<rparr>"

definition ig_UnblacklistGuestKeyRequest_set_operation_id :: "u32 \<Rightarrow>
  IgUnblacklistGuestKeyRequest \<Rightarrow> IgUnblacklistGuestKeyRequest" where
  "ig_UnblacklistGuestKeyRequest_set_operation_id v obj =
    obj\<lparr>UnblacklistGuestKeyRequest_operation_id := v,
      UnblacklistGuestKeyRequest_has_operation_id := True\<rparr>"

definition ig_UnblacklistGuestKeyRequest_deinit :: "IgUnblacklistGuestKeyRequest \<Rightarrow>
  IgUnblacklistGuestKeyRequest" where
  "ig_UnblacklistGuestKeyRequest_deinit obj = (let
     obj = (if UnblacklistGuestKeyRequest_has_password obj then
       obj\<lparr>UnblacklistGuestKeyRequest_password := None\<rparr> else obj)
   in obj)"

definition ig_UnblacklistGuestKeyRequest_is_valid :: "IgUnblacklistGuestKeyRequest \<Rightarrow> bool" where
  "ig_UnblacklistGuestKeyRequest_is_valid obj \<longleftrightarrow>
    UnblacklistGuestKeyRequest_has_password obj \<and> UnblacklistGuestKeyRequest_has_key_id obj"

definition ig_UnblacklistGuestKeyRequest_get_max_payload_in_bytes :: "IgUnblacklistGuestKeyRequest
  \<Rightarrow> u32" where
  "ig_UnblacklistGuestKeyRequest_get_max_payload_in_bytes obj = word_of_nat (32 +
    UnblacklistGuestKeyRequest_password_size obj)"

definition ig_UnblacklistGuestKeyRequest_fields_size :: "IgUnblacklistGuestKeyRequest \<Rightarrow> u64" where
  "ig_UnblacklistGuestKeyRequest_fields_size obj = 1 + 2 + of_bool
    (UnblacklistGuestKeyRequest_has_operation_id obj)"

definition ig_UnblacklistGuestKeyRequest_fields :: "IgUnblacklistGuestKeyRequest \<Rightarrow>
  enc_field list" where
  "ig_UnblacklistGuestKeyRequest_fields obj =
    [(True, 11, ABytes (UnblacklistGuestKeyRequest_password obj)
      (UnblacklistGuestKeyRequest_password_size obj)),
     (True, 12, AUint (ucast (UnblacklistGuestKeyRequest_key_id obj))),
     (UnblacklistGuestKeyRequest_has_operation_id obj, 100, AUint (ucast
       (UnblacklistGuestKeyRequest_operation_id obj)))]"

definition ig_UnblacklistGuestKeyRequest_encode ::
  "IgUnblacklistGuestKeyRequest \<Rightarrow> bytes \<Rightarrow> u32 \<Rightarrow> (nat \<times>
    bytes \<times> nat option) res" where
  "ig_UnblacklistGuestKeyRequest_encode obj retval len =
     (if \<not> ig_UnblacklistGuestKeyRequest_is_valid obj then Ok
       (IgSerializerErrorInvalidPayload, retval, None)
      else ig_encode (ig_UnblacklistGuestKeyRequest_fields_size obj) 59
        (ig_UnblacklistGuestKeyRequest_fields obj) retval len)"

definition ig_UnblacklistGuestKeyRequest_cases :: "(i64 \<times> IgUnblacklistGuestKeyRequest
  case_body) list" where
  "ig_UnblacklistGuestKeyRequest_cases =
    [(0, CMsgId 59),
     (11, CBytes (ig_UnblacklistGuestKeyRequest_set_password_nocopy False)),
     (12, CUint (\<lambda>v. ig_UnblacklistGuestKeyRequest_set_key_id (ucast v))),
     (100, CUint (\<lambda>v. ig_UnblacklistGuestKeyRequest_set_operation_id (ucast v)))]"

definition ig_UnblacklistGuestKeyRequest_decode :: "bytes \<Rightarrow>
  IgUnblacklistGuestKeyRequest \<Rightarrow> nat \<Rightarrow> (nat \<times>
    IgUnblacklistGuestKeyRequest) res" where
  "ig_UnblacklistGuestKeyRequest_decode buf obj index = ig_decode
    ig_UnblacklistGuestKeyRequest_cases buf obj index"

definition ig_UnblacklistGuestKeyRequest_ok :: "IgUnblacklistGuestKeyRequest \<Rightarrow> bool" where
  "ig_UnblacklistGuestKeyRequest_ok obj \<longleftrightarrow>
    ig_UnblacklistGuestKeyRequest_is_valid obj \<and>
     str_ok (UnblacklistGuestKeyRequest_has_password obj) (UnblacklistGuestKeyRequest_password obj)
       (UnblacklistGuestKeyRequest_password_size obj) \<and>
     num_ok (UnblacklistGuestKeyRequest_has_key_id obj) (UnblacklistGuestKeyRequest_key_id obj) \<and>
     num_ok (UnblacklistGuestKeyRequest_has_operation_id obj) (UnblacklistGuestKeyRequest_operation_id obj)"

lemmas ig_UnblacklistGuestKeyRequest_setters =
  ig_UnblacklistGuestKeyRequest_set_key_id_def
  ig_UnblacklistGuestKeyRequest_set_operation_id_def
  ig_UnblacklistGuestKeyRequest_set_password_nocopy_def

text \<open>A guarded setter, member by member.\<close>
lemma ig_UnblacklistGuestKeyRequest_set_if:
  "(if g then ig_UnblacklistGuestKeyRequest_set_operation_id v0 obj else obj) =
     obj\<lparr>UnblacklistGuestKeyRequest_operation_id := pick g v0
       (UnblacklistGuestKeyRequest_operation_id obj),
       UnblacklistGuestKeyRequest_has_operation_id := g \<or>
         UnblacklistGuestKeyRequest_has_operation_id obj\<rparr>"
  by (simp_all add: ig_UnblacklistGuestKeyRequest_setters pick_def)

lemma ig_UnblacklistGuestKeyRequest_store:
  assumes ok: "ig_UnblacklistGuestKeyRequest_ok obj"
  shows "store_fields ig_UnblacklistGuestKeyRequest_cases (ig_UnblacklistGuestKeyRequest_fields
    obj) ig_UnblacklistGuestKeyRequest_init = Some obj"
proof -
  have h: "str_ok (UnblacklistGuestKeyRequest_has_password obj)
    (UnblacklistGuestKeyRequest_password obj) (UnblacklistGuestKeyRequest_password_size obj)"
    "num_ok (UnblacklistGuestKeyRequest_has_key_id obj) (UnblacklistGuestKeyRequest_key_id obj)"
    "num_ok (UnblacklistGuestKeyRequest_has_operation_id obj) (UnblacklistGuestKeyRequest_operation_id obj)"
    and valid: "ig_UnblacklistGuestKeyRequest_is_valid obj"
    using ok by (simp_all add: ig_UnblacklistGuestKeyRequest_ok_def)
  show ?thesis
    using valid
    by (simp add: ig_UnblacklistGuestKeyRequest_fields_def ig_UnblacklistGuestKeyRequest_cases_def
      ig_UnblacklistGuestKeyRequest_init_def codec_simps
        ig_UnblacklistGuestKeyRequest_set_if ig_UnblacklistGuestKeyRequest_setters split del: if_split)
       (simp add: ig_UnblacklistGuestKeyRequest_is_valid_def
         str_ok_store [OF h(1)]
         num_ok_store [OF h(2)]
         num_ok_store [OF h(3)])
qed

lemma ig_UnblacklistGuestKeyRequest_bound:
  assumes "ig_UnblacklistGuestKeyRequest_ok obj"
  shows "2 + length (number_bytes 59 MtUnsigned) + fields_bound (ig_UnblacklistGuestKeyRequest_fields obj)
    \<le> unat (ig_UnblacklistGuestKeyRequest_get_max_payload_in_bytes obj)"
proof -
  have sizes: "UnblacklistGuestKeyRequest_password_size obj < 2 ^ 24"
    using assms by (auto simp: ig_UnblacklistGuestKeyRequest_ok_def dest!: str_ok_bound)
  show ?thesis
    using sizes number_bytes_size [of "UnblacklistGuestKeyRequest_password_size obj" "0x40"]
      number_bytes_u32 [of "UnblacklistGuestKeyRequest_key_id obj" 0]
      number_bytes_u32 [of "UnblacklistGuestKeyRequest_operation_id obj" 0]
    by (simp add: ig_UnblacklistGuestKeyRequest_fields_def
      ig_UnblacklistGuestKeyRequest_get_max_payload_in_bytes_def number_bytes_literal
        unat_of_nat_small del: of_nat_add)
qed

interpretation UnblacklistGuestKeyRequest_codec: ig_message ig_UnblacklistGuestKeyRequest_encode
  ig_UnblacklistGuestKeyRequest_decode
  ig_UnblacklistGuestKeyRequest_get_max_payload_in_bytes ig_UnblacklistGuestKeyRequest_is_valid
    ig_UnblacklistGuestKeyRequest_init ig_UnblacklistGuestKeyRequest_ok 59
  ig_UnblacklistGuestKeyRequest_fields_size ig_UnblacklistGuestKeyRequest_fields
    ig_UnblacklistGuestKeyRequest_cases
  by (unfold_locales;
      (rule ig_UnblacklistGuestKeyRequest_encode_def ig_UnblacklistGuestKeyRequest_decode_def |
        erule ig_UnblacklistGuestKeyRequest_store ig_UnblacklistGuestKeyRequest_bound |
       auto simp: ig_UnblacklistGuestKeyRequest_cases_def ig_UnblacklistGuestKeyRequest_fields_def
         ig_UnblacklistGuestKeyRequest_fields_size_def ig_UnblacklistGuestKeyRequest_ok_def
         simp del: arg_block_ok.simps(1,2) intro: str_ok_block))

subsection \<open>UnblacklistGuestKeyResponse\<close>

record IgUnblacklistGuestKeyResponse =
  UnblacklistGuestKeyResponse_has_result :: bool
  UnblacklistGuestKeyResponse_result :: u8
  UnblacklistGuestKeyResponse_has_operation_id :: bool
  UnblacklistGuestKeyResponse_operation_id :: u32

definition ig_UnblacklistGuestKeyResponse_init :: IgUnblacklistGuestKeyResponse where
  "ig_UnblacklistGuestKeyResponse_init =
     \<lparr>UnblacklistGuestKeyResponse_has_result = False,
      UnblacklistGuestKeyResponse_result = 0,
      UnblacklistGuestKeyResponse_has_operation_id = False,
      UnblacklistGuestKeyResponse_operation_id = 0\<rparr>"

definition ig_UnblacklistGuestKeyResponse_set_result :: "u8 \<Rightarrow>
  IgUnblacklistGuestKeyResponse \<Rightarrow> IgUnblacklistGuestKeyResponse" where
  "ig_UnblacklistGuestKeyResponse_set_result v obj = obj\<lparr>UnblacklistGuestKeyResponse_result
    := v, UnblacklistGuestKeyResponse_has_result := True\<rparr>"

definition ig_UnblacklistGuestKeyResponse_set_operation_id :: "u32 \<Rightarrow>
  IgUnblacklistGuestKeyResponse \<Rightarrow> IgUnblacklistGuestKeyResponse" where
  "ig_UnblacklistGuestKeyResponse_set_operation_id v obj =
    obj\<lparr>UnblacklistGuestKeyResponse_operation_id := v,
      UnblacklistGuestKeyResponse_has_operation_id := True\<rparr>"

definition ig_UnblacklistGuestKeyResponse_deinit :: "IgUnblacklistGuestKeyResponse \<Rightarrow>
  IgUnblacklistGuestKeyResponse" where
  "ig_UnblacklistGuestKeyResponse_deinit obj = obj"

definition ig_UnblacklistGuestKeyResponse_is_valid :: "IgUnblacklistGuestKeyResponse \<Rightarrow> bool" where
  "ig_UnblacklistGuestKeyResponse_is_valid obj \<longleftrightarrow>
    UnblacklistGuestKeyResponse_has_result obj"

definition ig_UnblacklistGuestKeyResponse_get_max_payload_in_bytes ::
  "IgUnblacklistGuestKeyResponse \<Rightarrow> u32" where
  "ig_UnblacklistGuestKeyResponse_get_max_payload_in_bytes obj = 22"

definition ig_UnblacklistGuestKeyResponse_fields_size :: "IgUnblacklistGuestKeyResponse
  \<Rightarrow> u64" where
  "ig_UnblacklistGuestKeyResponse_fields_size obj = 1 + 1 + of_bool
    (UnblacklistGuestKeyResponse_has_operation_id obj)"

definition ig_UnblacklistGuestKeyResponse_fields :: "IgUnblacklistGuestKeyResponse \<Rightarrow>
  enc_field list" where
  "ig_UnblacklistGuestKeyResponse_fields obj =
    [(True, 11, AUint (ucast (UnblacklistGuestKeyResponse_result obj))),
     (UnblacklistGuestKeyResponse_has_operation_id obj, 100, AUint (ucast
       (UnblacklistGuestKeyResponse_operation_id obj)))]"

definition ig_UnblacklistGuestKeyResponse_encode ::
  "IgUnblacklistGuestKeyResponse \<Rightarrow> bytes \<Rightarrow> u32 \<Rightarrow> (nat \<times>
    bytes \<times> nat option) res" where
  "ig_UnblacklistGuestKeyResponse_encode obj retval len =
     (if \<not> ig_UnblacklistGuestKeyResponse_is_valid obj then Ok
       (IgSerializerErrorInvalidPayload, retval, None)
      else ig_encode (ig_UnblacklistGuestKeyResponse_fields_size obj) 60
        (ig_UnblacklistGuestKeyResponse_fields obj) retval len)"

definition ig_UnblacklistGuestKeyResponse_cases :: "(i64 \<times> IgUnblacklistGuestKeyResponse
  case_body) list" where
  "ig_UnblacklistGuestKeyResponse_cases =
    [(0, CMsgId 60),
     (11, CUint (\<lambda>v. ig_UnblacklistGuestKeyResponse_set_result (ucast v))),
     (100, CUint (\<lambda>v. ig_UnblacklistGuestKeyResponse_set_operation_id (ucast v)))]"

definition ig_UnblacklistGuestKeyResponse_decode :: "bytes \<Rightarrow>
  IgUnblacklistGuestKeyResponse \<Rightarrow> nat \<Rightarrow> (nat \<times>
    IgUnblacklistGuestKeyResponse) res" where
  "ig_UnblacklistGuestKeyResponse_decode buf obj index = ig_decode
    ig_UnblacklistGuestKeyResponse_cases buf obj index"

definition ig_UnblacklistGuestKeyResponse_ok :: "IgUnblacklistGuestKeyResponse \<Rightarrow> bool" where
  "ig_UnblacklistGuestKeyResponse_ok obj \<longleftrightarrow>
    ig_UnblacklistGuestKeyResponse_is_valid obj \<and>
     num_ok (UnblacklistGuestKeyResponse_has_result obj) (UnblacklistGuestKeyResponse_result obj) \<and>
     num_ok (UnblacklistGuestKeyResponse_has_operation_id obj) (UnblacklistGuestKeyResponse_operation_id obj)"

lemmas ig_UnblacklistGuestKeyResponse_setters =
  ig_UnblacklistGuestKeyResponse_set_operation_id_def
  ig_UnblacklistGuestKeyResponse_set_result_def

text \<open>A guarded setter, member by member.\<close>
lemma ig_UnblacklistGuestKeyResponse_set_if:
  "(if g then ig_UnblacklistGuestKeyResponse_set_operation_id v0 obj else obj) =
     obj\<lparr>UnblacklistGuestKeyResponse_operation_id := pick g v0
       (UnblacklistGuestKeyResponse_operation_id obj),
       UnblacklistGuestKeyResponse_has_operation_id := g \<or>
         UnblacklistGuestKeyResponse_has_operation_id obj\<rparr>"
  by (simp_all add: ig_UnblacklistGuestKeyResponse_setters pick_def)

lemma ig_UnblacklistGuestKeyResponse_store:
  assumes ok: "ig_UnblacklistGuestKeyResponse_ok obj"
  shows "store_fields ig_UnblacklistGuestKeyResponse_cases (ig_UnblacklistGuestKeyResponse_fields
    obj) ig_UnblacklistGuestKeyResponse_init = Some obj"
proof -
  have h: "num_ok (UnblacklistGuestKeyResponse_has_result obj) (UnblacklistGuestKeyResponse_result obj)"
    "num_ok (UnblacklistGuestKeyResponse_has_operation_id obj) (UnblacklistGuestKeyResponse_operation_id obj)"
    and valid: "ig_UnblacklistGuestKeyResponse_is_valid obj"
    using ok by (simp_all add: ig_UnblacklistGuestKeyResponse_ok_def)
  show ?thesis
    using valid
    by (simp add: ig_UnblacklistGuestKeyResponse_fields_def
      ig_UnblacklistGuestKeyResponse_cases_def ig_UnblacklistGuestKeyResponse_init_def codec_simps
        ig_UnblacklistGuestKeyResponse_set_if ig_UnblacklistGuestKeyResponse_setters split del: if_split)
       (simp add: ig_UnblacklistGuestKeyResponse_is_valid_def
         num_ok_store [OF h(1)]
         num_ok_store [OF h(2)])
qed

lemma ig_UnblacklistGuestKeyResponse_bound:
  assumes "ig_UnblacklistGuestKeyResponse_ok obj"
  shows "2 + length (number_bytes 60 MtUnsigned) + fields_bound (ig_UnblacklistGuestKeyResponse_fields obj)
    \<le> unat (ig_UnblacklistGuestKeyResponse_get_max_payload_in_bytes obj)"
  using number_bytes_u8 [of "UnblacklistGuestKeyResponse_result obj" 0]
    number_bytes_u32 [of "UnblacklistGuestKeyResponse_operation_id obj" 0]
  by (simp add: ig_UnblacklistGuestKeyResponse_fields_def
    ig_UnblacklistGuestKeyResponse_get_max_payload_in_bytes_def number_bytes_literal)

interpretation UnblacklistGuestKeyResponse_codec: ig_message ig_UnblacklistGuestKeyResponse_encode
  ig_UnblacklistGuestKeyResponse_decode
  ig_UnblacklistGuestKeyResponse_get_max_payload_in_bytes ig_UnblacklistGuestKeyResponse_is_valid
    ig_UnblacklistGuestKeyResponse_init ig_UnblacklistGuestKeyResponse_ok 60
  ig_UnblacklistGuestKeyResponse_fields_size ig_UnblacklistGuestKeyResponse_fields
    ig_UnblacklistGuestKeyResponse_cases
  by (unfold_locales;
      (rule ig_UnblacklistGuestKeyResponse_encode_def ig_UnblacklistGuestKeyResponse_decode_def |
        erule ig_UnblacklistGuestKeyResponse_store ig_UnblacklistGuestKeyResponse_bound |
       auto simp: ig_UnblacklistGuestKeyResponse_cases_def
         ig_UnblacklistGuestKeyResponse_fields_def ig_UnblacklistGuestKeyResponse_fields_size_def
           ig_UnblacklistGuestKeyResponse_ok_def
         simp del: arg_block_ok.simps(1,2) intro: str_ok_block))

subsection \<open>GuestKeyBlacklist\<close>

record IgGuestKeyBlacklist =
  GuestKeyBlacklist_has_key_id :: bool
  GuestKeyBlacklist_key_id :: u32
  GuestKeyBlacklist_has_start_date :: bool
  GuestKeyBlacklist_start_date :: u32
  GuestKeyBlacklist_has_end_date :: bool
  GuestKeyBlacklist_end_date :: u32

definition ig_GuestKeyBlacklist_init :: IgGuestKeyBlacklist where
  "ig_GuestKeyBlacklist_init =
     \<lparr>GuestKeyBlacklist_has_key_id = False,
      GuestKeyBlacklist_key_id = 0,
      GuestKeyBlacklist_has_start_date = False,
      GuestKeyBlacklist_start_date = 0,
      GuestKeyBlacklist_has_end_date = False,
      GuestKeyBlacklist_end_date = 0\<rparr>"

definition ig_GuestKeyBlacklist_set_key_id :: "u32 \<Rightarrow> IgGuestKeyBlacklist \<Rightarrow>
  IgGuestKeyBlacklist" where
  "ig_GuestKeyBlacklist_set_key_id v obj = obj\<lparr>GuestKeyBlacklist_key_id := v,
    GuestKeyBlacklist_has_key_id := True\<rparr>"

definition ig_GuestKeyBlacklist_set_start_date :: "u32 \<Rightarrow> IgGuestKeyBlacklist
  \<Rightarrow> IgGuestKeyBlacklist" where
  "ig_GuestKeyBlacklist_set_start_date v obj = obj\<lparr>GuestKeyBlacklist_start_date := v,
    GuestKeyBlacklist_has_start_date := True\<rparr>"

definition ig_GuestKeyBlacklist_set_end_date :: "u32 \<Rightarrow> IgGuestKeyBlacklist
  \<Rightarrow> IgGuestKeyBlacklist" where
  "ig_GuestKeyBlacklist_set_end_date v obj = obj\<lparr>GuestKeyBlacklist_end_date := v,
    GuestKeyBlacklist_has_end_date := True\<rparr>"

definition ig_GuestKeyBlacklist_deinit :: "IgGuestKeyBlacklist \<Rightarrow> IgGuestKeyBlacklist" where
  "ig_GuestKeyBlacklist_deinit obj = obj"

definition ig_GuestKeyBlacklist_is_valid :: "IgGuestKeyBlacklist \<Rightarrow> bool" where
  "ig_GuestKeyBlacklist_is_valid obj \<longleftrightarrow> GuestKeyBlacklist_has_key_id obj"

definition ig_GuestKeyBlacklist_get_max_payload_in_bytes :: "IgGuestKeyBlacklist \<Rightarrow> u32" where
  "ig_GuestKeyBlacklist_get_max_payload_in_bytes obj = 31"

definition ig_GuestKeyBlacklist_fields_size :: "IgGuestKeyBlacklist \<Rightarrow> u64" where
  "ig_GuestKeyBlacklist_fields_size obj = 1 + 1 + of_bool (GuestKeyBlacklist_has_start_date obj) +
    of_bool (GuestKeyBlacklist_has_end_date obj)"

definition ig_GuestKeyBlacklist_fields :: "IgGuestKeyBlacklist \<Rightarrow> enc_field list" where
  "ig_GuestKeyBlacklist_fields obj =
    [(True, 11, AUint (ucast (GuestKeyBlacklist_key_id obj))),
     (GuestKeyBlacklist_has_start_date obj, 12, AUint (ucast (GuestKeyBlacklist_start_date obj))),
     (GuestKeyBlacklist_has_end_date obj, 13, AUint (ucast (GuestKeyBlacklist_end_date obj)))]"

definition ig_GuestKeyBlacklist_encode ::
  "IgGuestKeyBlacklist \<Rightarrow> bytes \<Rightarrow> u32 \<Rightarrow> (nat \<times> bytes
    \<times> nat option) res" where
  "ig_GuestKeyBlacklist_encode obj retval len =
     (if \<not> ig_GuestKeyBlacklist_is_valid obj then Ok (IgSerializerErrorInvalidPayload, retval, None)
      else ig_encode (ig_GuestKeyBlacklist_fields_size obj) 204 (ig_GuestKeyBlacklist_fields obj) retval len)"

definition ig_GuestKeyBlacklist_cases :: "(i64 \<times> IgGuestKeyBlacklist case_body) list" where
  "ig_GuestKeyBlacklist_cases =
    [(0, CMsgId 204),
     (11, CUint (\<lambda>v. ig_GuestKeyBlacklist_set_key_id (ucast v))),
     (12, CUint (\<lambda>v. ig_GuestKeyBlacklist_set_start_date (ucast v))),
     (13, CUint (\<lambda>v. ig_GuestKeyBlacklist_set_end_date (ucast v)))]"

definition ig_GuestKeyBlacklist_decode :: "bytes \<Rightarrow> IgGuestKeyBlacklist \<Rightarrow>
  nat \<Rightarrow> (nat \<times> IgGuestKeyBlacklist) res" where
  "ig_GuestKeyBlacklist_decode buf obj index = ig_decode ig_GuestKeyBlacklist_cases buf obj index"

definition ig_GuestKeyBlacklist_ok :: "IgGuestKeyBlacklist \<Rightarrow> bool" where
  "ig_GuestKeyBlacklist_ok obj \<longleftrightarrow> ig_GuestKeyBlacklist_is_valid obj \<and>
     num_ok (GuestKeyBlacklist_has_key_id obj) (GuestKeyBlacklist_key_id obj) \<and>
     num_ok (GuestKeyBlacklist_has_start_date obj) (GuestKeyBlacklist_start_date obj) \<and>
     num_ok (GuestKeyBlacklist_has_end_date obj) (GuestKeyBlacklist_end_date obj)"

lemmas ig_GuestKeyBlacklist_setters =
  ig_GuestKeyBlacklist_set_end_date_def
  ig_GuestKeyBlacklist_set_key_id_def
  ig_GuestKeyBlacklist_set_start_date_def

text \<open>A guarded setter, member by member.\<close>
lemma ig_GuestKeyBlacklist_set_if:
  "(if g then ig_GuestKeyBlacklist_set_start_date v0 obj else obj) =
     obj\<lparr>GuestKeyBlacklist_start_date := pick g v0 (GuestKeyBlacklist_start_date obj),
       GuestKeyBlacklist_has_start_date := g \<or> GuestKeyBlacklist_has_start_date obj\<rparr>"
  "(if g then ig_GuestKeyBlacklist_set_end_date v1 obj else obj) =
     obj\<lparr>GuestKeyBlacklist_end_date := pick g v1 (GuestKeyBlacklist_end_date obj),
       GuestKeyBlacklist_has_end_date := g \<or> GuestKeyBlacklist_has_end_date obj\<rparr>"
  by (simp_all add: ig_GuestKeyBlacklist_setters pick_def)

lemma ig_GuestKeyBlacklist_store:
  assumes ok: "ig_GuestKeyBlacklist_ok obj"
  shows "store_fields ig_GuestKeyBlacklist_cases (ig_GuestKeyBlacklist_fields obj)
    ig_GuestKeyBlacklist_init = Some obj"
proof -
  have h: "num_ok (GuestKeyBlacklist_has_key_id obj) (GuestKeyBlacklist_key_id obj)"
    "num_ok (GuestKeyBlacklist_has_start_date obj) (GuestKeyBlacklist_start_date obj)"
    "num_ok (GuestKeyBlacklist_has_end_date obj) (GuestKeyBlacklist_end_date obj)"
    and valid: "ig_GuestKeyBlacklist_is_valid obj"
    using ok by (simp_all add: ig_GuestKeyBlacklist_ok_def)
  show ?thesis
    using valid
    by (simp add: ig_GuestKeyBlacklist_fields_def ig_GuestKeyBlacklist_cases_def
      ig_GuestKeyBlacklist_init_def codec_simps
        ig_GuestKeyBlacklist_set_if ig_GuestKeyBlacklist_setters split del: if_split)
       (simp add: ig_GuestKeyBlacklist_is_valid_def
         num_ok_store [OF h(1)]
         num_ok_store [OF h(2)]
         num_ok_store [OF h(3)])
qed

lemma ig_GuestKeyBlacklist_bound:
  assumes "ig_GuestKeyBlacklist_ok obj"
  shows "2 + length (number_bytes 204 MtUnsigned) + fields_bound (ig_GuestKeyBlacklist_fields obj)
    \<le> unat (ig_GuestKeyBlacklist_get_max_payload_in_bytes obj)"
  using number_bytes_u32 [of "GuestKeyBlacklist_key_id obj" 0]
    number_bytes_u32 [of "GuestKeyBlacklist_start_date obj" 0]
    number_bytes_u32 [of "GuestKeyBlacklist_end_date obj" 0]
  by (simp add: ig_GuestKeyBlacklist_fields_def ig_GuestKeyBlacklist_get_max_payload_in_bytes_def
    number_bytes_literal)

interpretation GuestKeyBlacklist_codec: ig_message ig_GuestKeyBlacklist_encode ig_GuestKeyBlacklist_decode
  ig_GuestKeyBlacklist_get_max_payload_in_bytes ig_GuestKeyBlacklist_is_valid
    ig_GuestKeyBlacklist_init ig_GuestKeyBlacklist_ok 204
  ig_GuestKeyBlacklist_fields_size ig_GuestKeyBlacklist_fields ig_GuestKeyBlacklist_cases
  by (unfold_locales;
      (rule ig_GuestKeyBlacklist_encode_def ig_GuestKeyBlacklist_decode_def | erule
        ig_GuestKeyBlacklist_store ig_GuestKeyBlacklist_bound |
       auto simp: ig_GuestKeyBlacklist_cases_def ig_GuestKeyBlacklist_fields_def
         ig_GuestKeyBlacklist_fields_size_def ig_GuestKeyBlacklist_ok_def
         simp del: arg_block_ok.simps(1,2) intro: str_ok_block))

subsection \<open>GuestCardEkey\<close>

record IgGuestCardEkey =
  GuestCardEkey_has_encrypted_ekey :: bool
  GuestCardEkey_encrypted_ekey :: block_ptr
  GuestCardEkey_encrypted_ekey_size :: nat
  GuestCardEkey_has_mac_address :: bool
  GuestCardEkey_mac_address :: block_ptr
  GuestCardEkey_mac_address_size :: nat

definition ig_GuestCardEkey_init :: IgGuestCardEkey where
  "ig_GuestCardEkey_init =
     \<lparr>GuestCardEkey_has_encrypted_ekey = False,
      GuestCardEkey_encrypted_ekey = None,
      GuestCardEkey_encrypted_ekey_size = 0,
      GuestCardEkey_has_mac_address = False,
      GuestCardEkey_mac_address = None,
      GuestCardEkey_mac_address_size = 0\<rparr>"

definition ig_GuestCardEkey_get_encrypted_ekey_size :: "IgGuestCardEkey \<Rightarrow> nat" where
  "ig_GuestCardEkey_get_encrypted_ekey_size obj = GuestCardEkey_encrypted_ekey_size obj"

definition ig_GuestCardEkey_set_encrypted_ekey_nocopy ::
  "bool \<Rightarrow> block_ptr \<Rightarrow> nat \<Rightarrow> IgGuestCardEkey \<Rightarrow>
    IgGuestCardEkey" where
  "ig_GuestCardEkey_set_encrypted_ekey_nocopy same_ptr p n obj =
     (if same_ptr then obj
      else let obj = (if GuestCardEkey_has_encrypted_ekey obj then
        obj\<lparr>GuestCardEkey_encrypted_ekey := None\<rparr> else obj)
        in obj\<lparr>GuestCardEkey_encrypted_ekey := p, GuestCardEkey_encrypted_ekey_size := n,
          GuestCardEkey_has_encrypted_ekey := n > 0\<rparr>)"

definition ig_GuestCardEkey_set_encrypted_ekey ::
  "bool \<Rightarrow> block_ptr \<Rightarrow> nat \<Rightarrow> IgGuestCardEkey \<Rightarrow>
    IgGuestCardEkey res" where
  "ig_GuestCardEkey_set_encrypted_ekey same_ptr p n obj =
     (if same_ptr then Ok obj
      else let obj = (if GuestCardEkey_has_encrypted_ekey obj then
        obj\<lparr>GuestCardEkey_encrypted_ekey := None\<rparr> else obj)
        in bindR (block_read p n) (\<lambda>d.
          Ok (obj\<lparr>GuestCardEkey_encrypted_ekey := Some d, GuestCardEkey_encrypted_ekey_size
            := n, GuestCardEkey_has_encrypted_ekey := n > 0\<rparr>)))"

definition ig_GuestCardEkey_get_mac_address_size :: "IgGuestCardEkey \<Rightarrow> nat" where
  "ig_GuestCardEkey_get_mac_address_size obj = GuestCardEkey_mac_address_size obj"

definition ig_GuestCardEkey_set_mac_address_nocopy ::
  "bool \<Rightarrow> block_ptr \<Rightarrow> nat \<Rightarrow> IgGuestCardEkey \<Rightarrow>
    IgGuestCardEkey" where
  "ig_GuestCardEkey_set_mac_address_nocopy same_ptr p n obj =
     (if same_ptr then obj
      else let obj = (if GuestCardEkey_has_mac_address obj then
        obj\<lparr>GuestCardEkey_mac_address := None\<rparr> else obj)
        in obj\<lparr>GuestCardEkey_mac_address := p, GuestCardEkey_mac_address_size := n,
          GuestCardEkey_has_mac_address := n > 0\<rparr>)"

definition ig_GuestCardEkey_set_mac_address ::
  "bool \<Rightarrow> block_ptr \<Rightarrow> nat \<Rightarrow> IgGuestCardEkey \<Rightarrow>
    IgGuestCardEkey res" where
  "ig_GuestCardEkey_set_mac_address same_ptr p n obj =
     (if same_ptr then Ok obj
      else let obj = (if GuestCardEkey_has_mac_address obj then
        obj\<lparr>GuestCardEkey_mac_address := None\<rparr> else obj)
        in bindR (block_read p n) (\<lambda>d.
          Ok (obj\<lparr>GuestCardEkey_mac_address := Some d, GuestCardEkey_mac_address_size := n,
            GuestCardEkey_has_mac_address := n > 0\<rparr>)))"

definition ig_GuestCardEkey_deinit :: "IgGuestCardEkey \<Rightarrow> IgGuestCardEkey" where
  "ig_GuestCardEkey_deinit obj = (let
     obj = (if GuestCardEkey_has_encrypted_ekey obj then obj\<lparr>GuestCardEkey_encrypted_ekey :=
       None\<rparr> else obj);
     obj = (if GuestCardEkey_has_mac_address obj then obj\<lparr>GuestCardEkey_mac_address :=
       None\<rparr> else obj)
   in obj)"

definition ig_GuestCardEkey_is_valid :: "IgGuestCardEkey \<Rightarrow> bool" where
  "ig_GuestCardEkey_is_valid obj \<longleftrightarrow> GuestCardEkey_has_encrypted_ekey obj \<and>
    GuestCardEkey_has_mac_address obj"

definition ig_GuestCardEkey_get_max_payload_in_bytes :: "IgGuestCardEkey \<Rightarrow> u32" where
  "ig_GuestCardEkey_get_max_payload_in_bytes obj = word_of_nat (27 +
    GuestCardEkey_encrypted_ekey_size obj + GuestCardEkey_mac_address_size obj)"

definition ig_GuestCardEkey_fields_size :: "IgGuestCardEkey \<Rightarrow> u64" where
  "ig_GuestCardEkey_fields_size obj = 1 + 2"

definition ig_GuestCardEkey_fields :: "IgGuestCardEkey \<Rightarrow> enc_field list" where
  "ig_GuestCardEkey_fields obj =
    [(True, 11, ABytes (GuestCardEkey_encrypted_ekey obj) (GuestCardEkey_encrypted_ekey_size obj)),
     (True, 12, ABytes (GuestCardEkey_mac_address obj) (GuestCardEkey_mac_address_size obj))]"

definition ig_GuestCardEkey_encode ::
  "IgGuestCardEkey \<Rightarrow> bytes \<Rightarrow> u32 \<Rightarrow> (nat \<times> bytes \<times>
    nat option) res" where
  "ig_GuestCardEkey_encode obj retval len =
     (if \<not> ig_GuestCardEkey_is_valid obj then Ok (IgSerializerErrorInvalidPayload, retval, None)
      else ig_encode (ig_GuestCardEkey_fields_size obj) 201 (ig_GuestCardEkey_fields obj) retval len)"

definition ig_GuestCardEkey_cases :: "(i64 \<times> IgGuestCardEkey case_body) list" where
  "ig_GuestCardEkey_cases =
    [(0, CMsgId 201),
     (11, CBytes (ig_GuestCardEkey_set_encrypted_ekey_nocopy False)),
     (12, CBytes (ig_GuestCardEkey_set_mac_address_nocopy False))]"

definition ig_GuestCardEkey_decode :: "bytes \<Rightarrow> IgGuestCardEkey \<Rightarrow> nat
  \<Rightarrow> (nat \<times> IgGuestCardEkey) res" where
  "ig_GuestCardEkey_decode buf obj index = ig_decode ig_GuestCardEkey_cases buf obj index"

definition ig_GuestCardEkey_ok :: "IgGuestCardEkey \<Rightarrow> bool" where
  "ig_GuestCardEkey_ok obj \<longleftrightarrow> ig_GuestCardEkey_is_valid obj \<and>
     str_ok (GuestCardEkey_has_encrypted_ekey obj) (GuestCardEkey_encrypted_ekey obj)
       (GuestCardEkey_encrypted_ekey_size obj) \<and>
     str_ok (GuestCardEkey_has_mac_address obj) (GuestCardEkey_mac_address obj)
       (GuestCardEkey_mac_address_size obj)"

lemmas ig_GuestCardEkey_setters =
  ig_GuestCardEkey_set_encrypted_ekey_nocopy_def
  ig_GuestCardEkey_set_mac_address_nocopy_def

lemma ig_GuestCardEkey_store:
  assumes ok: "ig_GuestCardEkey_ok obj"
  shows "store_fields ig_GuestCardEkey_cases (ig_GuestCardEkey_fields obj) ig_GuestCardEkey_init = Some obj"
proof -
  have h: "str_ok (GuestCardEkey_has_encrypted_ekey obj) (GuestCardEkey_encrypted_ekey obj)
    (GuestCardEkey_encrypted_ekey_size obj)"
    "str_ok (GuestCardEkey_has_mac_address obj) (GuestCardEkey_mac_address obj)
      (GuestCardEkey_mac_address_size obj)"
    and valid: "ig_GuestCardEkey_is_valid obj"
    using ok by (simp_all add: ig_GuestCardEkey_ok_def)
  show ?thesis
    using valid
    by (simp add: ig_GuestCardEkey_fields_def ig_GuestCardEkey_cases_def ig_GuestCardEkey_init_def codec_simps
        ig_GuestCardEkey_setters split del: if_split)
       (simp add: ig_GuestCardEkey_is_valid_def
         str_ok_store [OF h(1)]
         str_ok_store [OF h(2)])
qed

lemma ig_GuestCardEkey_bound:
  assumes "ig_GuestCardEkey_ok obj"
  shows "2 + length (number_bytes 201 MtUnsigned) + fields_bound (ig_GuestCardEkey_fields obj)
    \<le> unat (ig_GuestCardEkey_get_max_payload_in_bytes obj)"
proof -
  have sizes: "GuestCardEkey_encrypted_ekey_size obj < 2 ^ 24" "GuestCardEkey_mac_address_size obj < 2 ^ 24"
    using assms by (auto simp: ig_GuestCardEkey_ok_def dest!: str_ok_bound)
  show ?thesis
    using sizes number_bytes_size [of "GuestCardEkey_encrypted_ekey_size obj" "0x40"]
      number_bytes_size [of "GuestCardEkey_mac_address_size obj" "0x40"]
    by (simp add: ig_GuestCardEkey_fields_def ig_GuestCardEkey_get_max_payload_in_bytes_def
      number_bytes_literal
        unat_of_nat_small del: of_nat_add)
qed

interpretation GuestCardEkey_codec: ig_message ig_GuestCardEkey_encode ig_GuestCardEkey_decode
  ig_GuestCardEkey_get_max_payload_in_bytes ig_GuestCardEkey_is_valid ig_GuestCardEkey_init
    ig_GuestCardEkey_ok 201
  ig_GuestCardEkey_fields_size ig_GuestCardEkey_fields ig_GuestCardEkey_cases
  by (unfold_locales;
      (rule ig_GuestCardEkey_encode_def ig_GuestCardEkey_decode_def | erule ig_GuestCardEkey_store
        ig_GuestCardEkey_bound |
       auto simp: ig_GuestCardEkey_cases_def ig_GuestCardEkey_fields_def
         ig_GuestCardEkey_fields_size_def ig_GuestCardEkey_ok_def
         simp del: arg_block_ok.simps(1,2) intro: str_ok_block))

end
