(* ===== verification/Cbor_Safety.thy ===== *)
theory Cbor_Safety
  imports Ig_Message
begin

text \<open>
  The decoders on arbitrary bytes.  Whatever the buffer holds, the CBOR parser and the message
  decoders built on it never read outside the buffer and never run out of the loop bounds of the
  model (so every loop of the code ends); what remains possible on hostile input is a failing assert
  of the CBOR library, and the use of the unset iterator when the top-level item is no map or array.
  \<open>val_ok\<close> is the invariant of the iterator that every operation keeps, error returns
  included.
\<close>

section \<open>The iterator invariant\<close>

definition wide_number :: "bytes \<Rightarrow> nat \<Rightarrow> bool" where
  "wide_number bs p \<longleftrightarrow>
     (bs ! p AND 0x1f = 26 \<and> p + 5 \<le> length bs) \<or> (bs ! p AND 0x1f = 27 \<and> p + 9 \<le> length bs)"

definition val_ok :: "bytes \<Rightarrow> cbor_value \<Rightarrow> bool" where
  "val_ok bs it \<longleftrightarrow> v_ptr it \<le> length bs \<and>
     (v_type it \<noteq> CborInvalidType \<longrightarrow> v_ptr it < length bs \<and>
       (v_flags it AND FlagTooLarge \<noteq> 0 \<longrightarrow> wide_number bs (v_ptr it)))"

text \<open>After a return without error the iterator either is at the end or stands on an item.\<close>
definition val_good :: "bytes \<Rightarrow> cbor_value \<Rightarrow> bool" where
  "val_good bs it \<longleftrightarrow> val_ok bs it \<and> (v_remaining it \<noteq> 0 \<longrightarrow> v_type it \<noteq> CborInvalidType)"

lemma val_ok_invalid: "v_ptr it \<le> length bs \<Longrightarrow> v_type it = CborInvalidType \<Longrightarrow> val_ok bs it"
  by (simp add: val_ok_def)

lemma safe_get_be: "p + n \<le> length bs \<Longrightarrow> safe (\<lambda>_. True) (get_be bs p n)"
  by (simp add: get_be_def mem_slice_def)

lemma safe_extract_number:
  assumes "p < length bs"
  shows "safe (\<lambda>(e, q, v). p < q \<and> q \<le> length bs) (extract_number bs p)"
  unfolding extract_number_def Let_def
  by (rule safe_bind [OF safe_mem_byte [OF assms]])
     (use assms in \<open>auto intro!: safe_bind [OF safe_get_be]\<close>)

lemma safe_extract_length:
  assumes "p < length bs"
  shows "safe (\<lambda>(e, q, v). p < q \<and> q \<le> length bs) (extract_length bs p)"
  unfolding extract_length_def
  by (rule safe_bind [OF safe_extract_number [OF assms]]) auto

section \<open>Looking at the next item\<close>

lemma byte_type_valid:
  fixes b :: u8
  assumes "b AND 0x1f \<le> 27"
  shows "b \<noteq> 0xff"
  using assms by auto

lemma major_not_invalid: "(b :: u8) AND 0xe0 \<noteq> 0xff"
proof
  assume "b AND 0xe0 = 0xff"
  then have "(b AND 0xe0) AND 0x1f = 0xff AND 0x1f" by simp
  then show False by (simp add: and.assoc)
qed

text \<open>What looking at the next item leaves: the position is unchanged, the iterator is in order, and
  it stands on an item unless an error is reported.\<close>
definition looked :: "bytes \<Rightarrow> cbor_value \<Rightarrow> nat \<times> cbor_value \<Rightarrow> bool" where
  "looked bs it = (\<lambda>(e, it'). v_ptr it' = v_ptr it \<and> v_remaining it' = v_remaining it \<and> val_ok bs it' \<and>
     (e = 0 \<longrightarrow> v_type it' \<noteq> CborInvalidType) \<and> (e = 258 \<longrightarrow> v_ptr it' < length bs))"

lemma safe_preparse_simple:
  assumes "v_ptr it < length bs" "d = bs ! v_ptr it AND 0x1f" "d \<le> 27" "v_type it \<noteq> CborInvalidType"
    "v_flags it = 0" "(if d < 24 then 0 else 2 ^ unat (d - 24)) + 1 \<le> length bs - v_ptr it"
  shows "safe (looked bs it) (preparse_simple bs d it)"
proof -
  have b: "mem_byte bs (v_ptr it) = Ok (bs ! v_ptr it)" using assms(1) by (simp add: mem_byte_def)
  have v: "bs ! v_ptr it \<noteq> 0xff" using byte_type_valid [of "bs ! v_ptr it"] assms(2,3) by simp
  have n: "d = 24 \<Longrightarrow> safe (\<lambda>b. True) (mem_byte bs (Suc (v_ptr it)))"
    using assms(6) by (simp add: mem_byte_def)
  show ?thesis
    using assms(1-5) v
    by (auto simp: preparse_simple_def b looked_def val_ok_def wide_number_def Let_def
        intro!: safe_bind [OF n] safe_assert) (use assms(2,6) in auto)
qed

lemma word_27_cases:
  fixes d :: u8
  assumes "\<not> d > 27" "\<not> d < 24"
  shows "d = 24 \<or> d = 25 \<or> d = 26 \<or> d = 27"
proof -
  have "unat d = 24 \<or> unat d = 25 \<or> unat d = 26 \<or> unat d = 27"
    using assms by (auto simp: word_less_nat_alt)
  then show ?thesis by (auto simp: word_unat_eq_iff)
qed

lemma safe_preparse_value:
  assumes p: "v_ptr it \<le> length bs"
  shows "safe (looked bs it) (preparse_value bs it)"
proof (cases "v_ptr it = length bs")
  case True
  then show ?thesis by (simp add: preparse_value_def looked_def val_ok_def)
next
  case False
  with p have lt: "v_ptr it < length bs" by simp
  define b where "b = bs ! v_ptr it"
  define d where "d = b AND 0x1f"
  have byte: "mem_byte bs (v_ptr it) = Ok b" using lt by (simp add: mem_byte_def b_def)
  let ?it = "it\<lparr>v_type := b AND 0xe0, v_flags := 0, v_extra := ucast d\<rparr>"
  have inv: "b AND 0xe0 \<noteq> 0xff" by (rule major_not_invalid)
  define need :: nat where "need = (if d < 24 then 0 else 2 ^ unat (d - 24))"
  define rest where "rest = (let
      it = (if b AND 0xe0 = MtNegative
            then ?it\<lparr>v_flags := v_flags ?it OR FlagNegative, v_type := CborIntegerType\<rparr> else ?it) in
    if d < 24 then Ok (CborNoError, it)
    else if d = 24 then
      bindR (mem_byte bs (v_ptr it + 1)) (\<lambda>b. Ok (CborNoError, it\<lparr>v_extra := ucast b\<rparr>))
    else if d = 25 then
      bindR (get_be bs (v_ptr it + 1) 2) (\<lambda>v. Ok (CborNoError, it\<lparr>v_extra := word_of_nat v\<rparr>))
    else Ok (CborNoError, it\<lparr>v_flags := v_flags it OR FlagTooLarge\<rparr>))"
  have eq: "preparse_value bs it =
    (if d > 27 then
       (if d \<noteq> 31 then Ok (if b AND 0xe0 = MtSimple then 259 else 261, ?it)
        else if \<not> is_fixed_type (b AND 0xe0) then Ok (0, ?it\<lparr>v_flags := FlagUnknownLength\<rparr>)
        else Ok (if b AND 0xe0 = MtSimple then 258 else 261, ?it))
     else if need + 1 > length bs - v_ptr it then Ok (257, ?it)
     else if b AND 0xe0 = MtSimple then preparse_simple bs d ?it
     else rest)"
    using lt unfolding rest_def need_def
    by (simp add: preparse_value_def byte d_def [symmetric] Let_def)
  consider (big) "d > 27" | (short) "\<not> d > 27" "need + 1 > length bs - v_ptr it"
    | (simple) "\<not> d > 27" "\<not> need + 1 > length bs - v_ptr it" "b AND 0xe0 = MtSimple"
    | (num) "\<not> d > 27" "\<not> need + 1 > length bs - v_ptr it" "b AND 0xe0 \<noteq> MtSimple"
    by blast
  then show ?thesis
  proof cases
    case big
    then show ?thesis using lt inv by (simp add: eq looked_def val_ok_def)
  next
    case short
    then show ?thesis using lt inv by (simp add: eq looked_def val_ok_def)
  next
    case simple
    have "safe (looked bs ?it) (preparse_simple bs d ?it)"
      using lt simple inv
      by (intro safe_preparse_simple) (auto simp: d_def b_def need_def not_less)
    then show ?thesis using simple by (simp add: eq looked_def)
  next
    case num
    have b1: "d = 24 \<Longrightarrow> safe (\<lambda>b. True) (mem_byte bs (Suc (v_ptr it)))"
      using num by (simp add: mem_byte_def need_def)
    have b2: "d = 25 \<Longrightarrow> safe (\<lambda>b. True) (get_be bs (Suc (v_ptr it)) 2)"
      using num by (intro safe_get_be) (simp add: need_def)
    have w: "d = 26 \<or> d = 27 \<Longrightarrow> wide_number bs (v_ptr it)"
      using num by (auto simp: wide_number_def b_def [symmetric] d_def [symmetric] need_def)
    have rest_eq: "preparse_value bs it = rest" using num by (simp add: eq)
    consider "d < 24" | "d = 24" | "d = 25" | "d = 26 \<or> d = 27"
      using word_27_cases [of d] num by blast
    then show ?thesis
      unfolding rest_eq rest_def
      using lt inv b1 b2 w
      by cases (auto simp: looked_def val_ok_def Let_def intro!: safe_bind [OF b1] safe_bind [OF b2])
  qed
qed

section \<open>Moving on\<close>

text \<open>\<open>moved bs p\<close>: the iterator is in order and not before \<open>p\<close>; without error it is good.\<close>
definition moved :: "bytes \<Rightarrow> nat \<Rightarrow> nat \<times> cbor_value \<Rightarrow> bool" where
  "moved bs p = (\<lambda>(e, it'). p \<le> v_ptr it' \<and> val_ok bs it' \<and> (e = 0 \<longrightarrow> val_good bs it'))"

lemma moved_pair: "moved bs p (e, it') \<longleftrightarrow>
    p \<le> v_ptr it' \<and> val_ok bs it' \<and> (e = 0 \<longrightarrow> val_good bs it')"
  by (simp add: moved_def)

lemma moved_mono: "moved bs p x \<Longrightarrow> q \<le> p \<Longrightarrow> moved bs q x"
  by (auto simp: moved_def)

lemma looked_moved: "looked bs it x \<Longrightarrow> moved bs (v_ptr it) x"
  by (auto simp: looked_def moved_def val_good_def)

lemma safe_preparse_next:
  assumes "v_ptr it \<le> length bs"
  shows "safe (moved bs (v_ptr it)) (preparse_next_value bs it)"
proof -
  have pv: "safe (moved bs (v_ptr it)) (preparse_value bs (it\<lparr>v_remaining := r\<rparr>))" for r
    by (rule safe_mono [OF safe_preparse_value]) (use assms in \<open>auto dest: looked_moved\<close>)
  have pv0: "safe (moved bs (v_ptr it)) (preparse_value bs it)"
    by (rule safe_mono [OF safe_preparse_value [OF assms] looked_moved])
  have b: "v_ptr it \<noteq> length bs \<Longrightarrow> mem_byte bs (v_ptr it) = Ok (bs ! v_ptr it)"
    using assms by (simp add: mem_byte_def)
  show ?thesis
    using pv pv0 assms
    by (auto simp: preparse_next_value_def Let_def b moved_def val_ok_def val_good_def)
qed

lemma safe_advance_internal:
  assumes "v_ptr it < length bs" "is_fixed_type (v_type it)"
  shows "safe (moved bs (Suc (v_ptr it))) (advance_internal bs it)"
proof -
  have nxt: "safe (moved bs (Suc (v_ptr it))) (preparse_next_value bs (it\<lparr>v_ptr := q\<rparr>))"
    if "v_ptr it < q" "q \<le> length bs" for q
    by (rule safe_mono [OF safe_preparse_next]) (use that in \<open>auto intro: moved_mono\<close>)
  show ?thesis
    unfolding advance_internal_def
    by (rule safe_bind [OF safe_extract_number [OF assms(1)]])
       (use assms(2) nxt in \<open>auto simp: is_fixed_type_def Let_def intro!: safe_assert\<close>)
qed

lemma safe_advance_fixed:
  assumes "val_ok bs it"
  shows "safe (\<lambda>x. moved bs (v_ptr it) x \<and> (fst x = 0 \<longrightarrow> v_ptr it < v_ptr (snd x)))
    (cbor_value_advance_fixed bs it)"
  unfolding cbor_value_advance_fixed_def
proof (intro safe_assert)
  assume t: "v_type it \<noteq> CborInvalidType" "is_fixed_type (v_type it)"
  then have "v_ptr it < length bs" using assms by (simp add: val_ok_def)
  then have "safe (moved bs (Suc (v_ptr it))) (advance_internal bs it)"
    using safe_advance_internal t by blast
  then have "safe (\<lambda>x. moved bs (v_ptr it) x \<and> (fst x = 0 \<longrightarrow> v_ptr it < v_ptr (snd x)))
      (advance_internal bs it)"
    by (rule safe_mono) (auto simp: moved_def)
  then show "safe (\<lambda>x. moved bs (v_ptr it) x \<and> (fst x = 0 \<longrightarrow> v_ptr it < v_ptr (snd x)))
      (if v_remaining it = 0 then Ok (CborErrorAdvancePastEOF, it) else advance_internal bs it)"
    using assms by (simp add: moved_def)
qed

section \<open>Strings\<close>

lemma safe_string_chunks:
  "p \<le> length bs \<Longrightarrow>
    safe (\<lambda>(e, q, _). p \<le> q \<and> q \<le> length bs) (string_chunks bs type cap p tot result copied)"
proof (induction "length bs - p" arbitrary: p type tot result copied rule: less_induct)
  case less
  show ?case
  proof (cases "p = length bs")
    case True
    then show ?thesis by (simp add: string_chunks.simps)
  next
    case False
    with less.prems have lt: "p < length bs" by simp
    have step: "safe (\<lambda>(e, q', _). p \<le> q' \<and> q' \<le> length bs)
        (string_chunks bs ty cap (q + n) t r c)"
      if "p < q" "q + n \<le> length bs" for q n ty t r c
    proof (rule safe_mono [OF less.hyps])
      show "length bs - (q + n) < length bs - p" "q + n \<le> length bs" using that lt by auto
    qed (use that in auto)
    show ?thesis
      using lt
      by (subst string_chunks.simps)
         (auto simp: Let_def not_less le_diff_conv2 add.commute
           intro!: safe_bind [OF safe_mem_byte] safe_bind [OF safe_extract_length]
             safe_bind [OF safe_mem_slice] step)
  qed
qed

lemma string_type_not_invalid: "cbor_value_is_string it \<Longrightarrow> v_type it \<noteq> CborInvalidType"
  by (auto simp: cbor_value_is_string_def)

lemma safe_iterate:
  assumes ok: "val_ok bs it"
  shows "safe (\<lambda>(e, it', _). v_ptr it \<le> v_ptr it' \<and> val_ok bs it' \<and>
      (next \<and> e = 0 \<longrightarrow> val_good bs it' \<and> v_ptr it < v_ptr it'))
    (iterate_string_chunks bs it cap next)"
  unfolding iterate_string_chunks_def
proof (rule safe_assert)
  assume str: "cbor_value_is_string it"
  then have lt: "v_ptr it < length bs"
    using ok string_type_not_invalid by (auto simp: val_ok_def)
  have nxt: "safe (moved bs (Suc (v_ptr it))) (preparse_next_value bs (it\<lparr>v_ptr := q\<rparr>))"
    if "v_ptr it < q" "q \<le> length bs" for q
    by (rule safe_mono [OF safe_preparse_next]) (use that in \<open>auto intro: moved_mono\<close>)
  let ?P = "\<lambda>(e, q, _). v_ptr it < q \<and> (e = (0 :: nat) \<longrightarrow> q \<le> length bs)"
  have known: "safe ?P
      (bindR (extract_length bs (v_ptr it)) (\<lambda>(err, ptr, tot).
        if err \<noteq> 0 then Ok (err, ptr, 0, False, [])
        else if tot > length bs - ptr then Ok (CborErrorUnexpectedEOF, ptr, 0, False, [])
        else bindR (mem_slice bs ptr tot) (\<lambda>d.
          Ok (CborNoError, ptr + tot, tot, tot \<le> cap, if tot \<le> cap then d else []))))"
    by (rule safe_bind [OF safe_extract_length [OF lt]])
       (auto simp: not_less le_diff_conv2 add.commute intro!: safe_bind [OF safe_mem_slice])
  have chunked: "safe ?P (string_chunks bs (v_type it) cap (v_ptr it + 1) 0 True [])"
    by (rule safe_mono [OF safe_string_chunks]) (use lt in auto)
  have fst: "safe ?P (if cbor_value_is_length_known it then
      bindR (extract_length bs (v_ptr it)) (\<lambda>(err, ptr, tot).
        if err \<noteq> 0 then Ok (err, ptr, 0, False, [])
        else if tot > length bs - ptr then Ok (CborErrorUnexpectedEOF, ptr, 0, False, [])
        else bindR (mem_slice bs ptr tot) (\<lambda>d.
          Ok (CborNoError, ptr + tot, tot, tot \<le> cap, if tot \<le> cap then d else [])))
      else string_chunks bs (v_type it) cap (v_ptr it + 1) 0 True [])"
    using known chunked by simp
  show "safe (\<lambda>(e, it', _). v_ptr it \<le> v_ptr it' \<and> val_ok bs it' \<and>
      (next \<and> e = 0 \<longrightarrow> val_good bs it' \<and> v_ptr it < v_ptr it'))
    (bindR (if cbor_value_is_length_known it then
      bindR (extract_length bs (v_ptr it)) (\<lambda>(err, ptr, tot).
        if err \<noteq> 0 then Ok (err, ptr, 0, False, [])
        else if tot > length bs - ptr then Ok (CborErrorUnexpectedEOF, ptr, 0, False, [])
        else bindR (mem_slice bs ptr tot) (\<lambda>d.
          Ok (CborNoError, ptr + tot, tot, tot \<le> cap, if tot \<le> cap then d else [])))
      else string_chunks bs (v_type it) cap (v_ptr it + 1) 0 True [])
     (\<lambda>(err, ptr, tot, result, copied).
       if err \<noteq> 0 then Ok (err, it, tot, result, copied)
       else
         let copied = (if result \<and> tot < cap then copied @ [0] else copied) in
         if next then
           bindR (preparse_next_value bs (it\<lparr>v_ptr := ptr\<rparr>)) (\<lambda>(err, nxt).
             Ok (err, nxt, tot, result, copied))
         else Ok (CborNoError, it, tot, result, copied)))"
    by (rule safe_bind [OF fst])
       (use ok in \<open>auto simp: Let_def moved_def intro!: safe_bind [OF nxt]\<close>)
qed

lemma safe_copy_string:
  assumes "val_ok bs it"
  shows "safe (\<lambda>(e, it', _). v_ptr it \<le> v_ptr it' \<and> val_ok bs it' \<and>
      (next \<and> e = 0 \<longrightarrow> val_good bs it' \<and> v_ptr it < v_ptr it'))
    (cbor_value_copy_string bs it cap next)"
  unfolding cbor_value_copy_string_def
  by (rule safe_bind [OF safe_iterate [OF assms]]) (auto split: if_splits)

section \<open>Reading values\<close>

lemma safe_int64_helper:
  assumes "val_ok bs it" "v_type it \<noteq> CborInvalidType"
  shows "safe (\<lambda>_. True) (cbor_value_extract_int64_helper bs it)"
proof (cases "v_flags it AND FlagTooLarge \<noteq> 0")
  case True
  then have w: "v_ptr it < length bs" "wide_number bs (v_ptr it)"
    using assms by (auto simp: val_ok_def)
  have bit: "bs ! v_ptr it AND 1 = (bs ! v_ptr it AND 0x1f) AND 1" by (simp add: and.assoc)
  show ?thesis
    using True w bit
    by (auto simp: cbor_value_extract_int64_helper_def cbor_value_decode_int64_internal_def
        wide_number_def mem_byte_def intro!: safe_assert safe_bind [OF safe_get_be])
next
  case False
  then show ?thesis by (simp add: cbor_value_extract_int64_helper_def)
qed

lemma safe_get_int64:
  assumes "val_ok bs it"
  shows "safe (\<lambda>_. True) (cbor_value_get_int64 bs it)"
  unfolding cbor_value_get_int64_def
  by (intro safe_assert safe_bind [OF safe_int64_helper [OF assms]]) auto

lemma safe_get_uint64:
  assumes "val_ok bs it"
  shows "safe (\<lambda>_. True) (cbor_value_get_uint64 bs it)"
  unfolding cbor_value_get_uint64_def
  by (intro safe_assert safe_int64_helper [OF assms]) (auto simp: cbor_value_is_unsigned_integer_def)

lemma safe_get_string_length:
  assumes "val_ok bs it"
  shows "safe (\<lambda>_. True) (cbor_value_get_string_length bs it)"
  unfolding cbor_value_get_string_length_def
  using string_type_not_invalid [of it]
  by (auto intro!: safe_assert safe_bind [OF safe_int64_helper [OF assms]])

section \<open>Containers\<close>

lemma container_not_invalid: "cbor_value_is_container it \<Longrightarrow> v_type it \<noteq> CborInvalidType"
  by (auto simp: cbor_value_is_container_def)

text \<open>The two ways into a container, by its length being unknown or known.\<close>
lemma safe_enter_container:
  assumes ok: "val_ok bs it"
  shows "safe (\<lambda>x. moved bs (v_ptr it) x \<and> (fst x = 0 \<longrightarrow> v_ptr it < v_ptr (snd x)))
    (cbor_value_enter_container bs it)"
proof (cases "cbor_value_is_container it")
  case c: True
  then have lt: "v_ptr it < length bs" and
    w: "v_flags it AND FlagTooLarge \<noteq> 0 \<longrightarrow> wide_number bs (v_ptr it)"
    using ok container_not_invalid [OF c] by (auto simp: val_ok_def)
  have pv: "safe (looked bs it') (preparse_value bs it')" if "v_ptr it' \<le> length bs" for it'
    using safe_preparse_value [OF that] .
  show ?thesis
  proof (cases "v_flags it AND FlagUnknownLength \<noteq> 0")
    case True
    then show ?thesis
      using lt c
      by (auto simp: cbor_value_enter_container_def moved_def looked_def val_ok_def val_good_def
          intro!: safe_bind [OF pv])
  next
    case known: False
    have undo: "val_ok bs (it\<lparr>v_remaining := r\<rparr>)" for r
      using ok by (simp add: val_ok_def)
    have inside: "safe (\<lambda>x. moved bs (v_ptr it) x \<and> (fst x = 0 \<longrightarrow> v_ptr it < v_ptr (snd x)))
        (preparse_value bs (it\<lparr>v_ptr := q, v_remaining := r\<rparr>))" if "v_ptr it < q" "q \<le> length bs" for q r
      by (rule safe_mono [OF pv]) (use that in \<open>auto simp: moved_def looked_def val_good_def\<close>)
    have none: "val_ok bs (it\<lparr>v_ptr := q, v_type := CborInvalidType, v_remaining := 0\<rparr>)"
      if "q \<le> length bs" for q
      using that by (simp add: val_ok_def)
    show ?thesis
      using known c
      by (simp add: cbor_value_enter_container_def Let_def)
         (auto intro!: safe_bind [OF safe_extract_number [OF lt]] safe_assert inside
           simp: moved_pair undo none val_good_def Let_def)
  qed
next
  case False
  then show ?thesis by (simp add: cbor_value_enter_container_def)
qed

lemma safe_leave_container:
  assumes "v_ptr recursed \<le> length bs"
  shows "safe (moved bs (v_ptr recursed)) (cbor_value_leave_container bs it recursed)"
  unfolding cbor_value_leave_container_def
  by (intro safe_assert, rule safe_mono [OF safe_preparse_next]) (use assms in auto)

section \<open>Skipping nested items: the bound on nested calls is enough\<close>

text \<open>An iterator that moved strictly, whatever the result.\<close>
definition skipped :: "bytes \<Rightarrow> nat \<Rightarrow> nat \<times> cbor_value \<Rightarrow> bool" where
  "skipped bs p = (\<lambda>(e, it'). p \<le> v_ptr it' \<and> val_ok bs it' \<and>
     (e = 0 \<longrightarrow> val_good bs it' \<and> p < v_ptr it'))"

lemma safe_advance_recursive:
  shows "val_ok bs it \<Longrightarrow> v_type it \<noteq> CborInvalidType \<Longrightarrow> 2 * (length bs - v_ptr it) + 1 \<le> n \<Longrightarrow>
      safe (skipped bs (v_ptr it)) (advance_recursive n bs lvl it)"
    and "val_good bs it \<Longrightarrow> 2 * (length bs - v_ptr it) + 2 \<le> n \<Longrightarrow>
      safe (moved bs (v_ptr it)) (advance_elements n bs lvl it)"
proof (induction n bs lvl it and n bs lvl it rule: advance_recursive_advance_elements.induct)
  case (1 bs lvl it)
  then show ?case by simp
next
  case (2 n bs lvl it)
  have lt: "v_ptr it < length bs" using 2 by (simp add: val_ok_def)
  consider (fixed) "is_fixed_type (v_type it)"
    | (str) "\<not> is_fixed_type (v_type it)" "\<not> cbor_value_is_container it"
    | (cont) "\<not> is_fixed_type (v_type it)" "cbor_value_is_container it"
    by blast
  then show ?case
  proof cases
    case fixed
    have "safe (skipped bs (v_ptr it)) (advance_internal bs it)"
      by (rule safe_mono [OF safe_advance_internal [OF lt fixed]]) (auto simp: moved_def skipped_def)
    then show ?thesis using fixed by simp
  next
    case str
    then show ?thesis
      by (auto simp: skipped_def intro!: safe_bind [OF safe_copy_string [OF 2(2)]])
  next
    case cont
    have elems: "safe (moved bs (v_ptr r)) (advance_elements n bs lvl r)"
      if "lvl \<noteq> CBOR_PARSER_MAX_RECURSIONS" "cbor_value_enter_container bs it = Ok (0, r)"
        "val_good bs r" "v_ptr it < v_ptr r" for r
    proof -
      have "2 * (length bs - v_ptr r) + 2 \<le> n" using 2(4) that(4) lt by linarith
      then show ?thesis using 2(1) [OF cont(1) _ that(1,2)] cont that(3) by simp
    qed
    show ?thesis
    proof (cases "lvl = CBOR_PARSER_MAX_RECURSIONS")
      case True
      then show ?thesis using cont 2(2) by (simp add: skipped_def)
    next
      case False
      show ?thesis
      proof (cases "cbor_value_enter_container bs it")
        case (Fault f)
        then show ?thesis using safe_enter_container [OF 2(2)] cont False by simp
      next
        case (Ok x)
        obtain e r where x: "x = (e, r)" by (cases x)
        have r: "v_ptr it \<le> v_ptr r" "val_ok bs r" "e = 0 \<longrightarrow> val_good bs r \<and> v_ptr it < v_ptr r"
          using safe_enter_container [OF 2(2)] by (auto simp: Ok x moved_def)
        show ?thesis
        proof (cases "e = 0")
          case True
          have el: "safe (moved bs (v_ptr r)) (advance_elements n bs lvl r)"
            using elems False Ok x r True by blast
          have tail: "safe (skipped bs (v_ptr it)) (cbor_value_leave_container bs it r')"
            if "v_ptr it < v_ptr r'" "v_ptr r' \<le> length bs" for r'
            by (rule safe_mono [OF safe_leave_container]) (use that in \<open>auto simp: moved_def skipped_def\<close>)
          have "safe (skipped bs (v_ptr it)) (bindR (advance_elements n bs lvl r) (\<lambda>(err, recursed).
              if err \<noteq> 0 then Ok (err, it) else cbor_value_leave_container bs it recursed))"
          proof (rule safe_bind [OF el])
            fix y assume y: "moved bs (v_ptr r) y"
            obtain e' r' where y': "y = (e', r')" by (cases y)
            have "v_ptr it < v_ptr r'" "v_ptr r' \<le> length bs"
              using y r True by (auto simp: y' moved_def val_ok_def)
            then show "safe (skipped bs (v_ptr it)) (case y of (err, recursed) \<Rightarrow>
                if err \<noteq> 0 then Ok (err, it) else cbor_value_leave_container bs it recursed)"
              using tail [of r'] 2(2) by (simp add: y' skipped_def)
          qed
          then show ?thesis using cont False True Ok x by simp
        next
          case err: False
          then show ?thesis using cont False Ok x 2(2) by (simp add: skipped_def)
        qed
      qed
    qed
  qed
next
  case (3 bs lvl it)
  then show ?case by simp
next
  case (4 n bs lvl it)
  show ?case
  proof (cases "cbor_value_at_end it")
    case True
    then show ?thesis using 4(3) by (simp add: moved_def val_good_def)
  next
    case False
    then have t: "v_type it \<noteq> CborInvalidType" "val_ok bs it"
      using 4(3) by (auto simp: val_good_def cbor_value_at_end_def)
    then have lt: "v_ptr it < length bs" by (simp add: val_ok_def)
    have one: "safe (skipped bs (v_ptr it)) (advance_recursive n bs (lvl + 1) it)"
      using 4(1) [OF False t(2,1)] 4(4) by simp
    show ?thesis
    proof (cases "advance_recursive n bs (lvl + 1) it")
      case (Fault f)
      then show ?thesis using one False by simp
    next
      case (Ok x)
      obtain e r where x: "x = (e, r)" by (cases x)
      have r: "v_ptr it \<le> v_ptr r" "val_ok bs r" "e = 0 \<longrightarrow> val_good bs r \<and> v_ptr it < v_ptr r"
        using one unfolding Ok x skipped_def by auto
      show ?thesis
      proof (cases "e = 0")
        case True
        have "2 * (length bs - v_ptr r) + 2 \<le> n" using 4(4) r True lt by linarith
        then have "safe (moved bs (v_ptr r)) (advance_elements n bs lvl r)"
          using 4(2) [OF False Ok x [symmetric]] True r by simp
        then have "safe (moved bs (v_ptr it)) (advance_elements n bs lvl r)"
          by (rule safe_mono) (use r in \<open>auto intro: moved_mono\<close>)
        then show ?thesis using False Ok x True by simp
      next
        case err: False
        then show ?thesis using False Ok x r by (simp add: moved_def)
      qed
    qed
  qed
qed

lemma safe_advance:
  assumes "val_ok bs it"
  shows "safe (\<lambda>(e, it'). val_ok bs it' \<and> (e = 0 \<longrightarrow> val_good bs it')) (cbor_value_advance bs it)"
  unfolding cbor_value_advance_def
proof (rule safe_assert)
  assume t: "v_type it \<noteq> CborInvalidType"
  have "safe (skipped bs (v_ptr it)) (advance_recursive (advance_fuel bs) bs 0 it)"
    by (rule safe_advance_recursive(1) [OF assms t]) (simp add: advance_fuel_def)
  then have "safe (\<lambda>(e, it'). val_ok bs it' \<and> (e = 0 \<longrightarrow> val_good bs it'))
      (advance_recursive (advance_fuel bs) bs 0 it)"
    by (rule safe_mono) (auto simp: skipped_def)
  then show "safe (\<lambda>(e, it'). val_ok bs it' \<and> (e = 0 \<longrightarrow> val_good bs it'))
      (if v_remaining it = 0 then Ok (CborErrorAdvancePastEOF, it)
       else advance_recursive (advance_fuel bs) bs 0 it)"
    using assms by simp
qed

section \<open>The message decoders\<close>

text \<open>After a body: a \<open>break\<close> leaves an iterator in order that has not moved back.\<close>
definition ctl_ok :: "bytes \<Rightarrow> nat \<Rightarrow> 'r ctl \<Rightarrow> bool" where
  "ctl_ok bs p c = (case c of Break e it' obj \<Rightarrow> p \<le> v_ptr it' \<and> val_ok bs it' | _ \<Rightarrow> True)"

lemma ctl_ok_simps [simp]:
  "ctl_ok bs p (Break e it' obj) \<longleftrightarrow> p \<le> v_ptr it' \<and> val_ok bs it'"
  "ctl_ok bs p (Return e obj)" "ctl_ok bs p FallThrough"
  by (simp_all add: ctl_ok_def)

lemma safe_run_body:
  assumes ok: "val_ok bs it"
  shows "safe (ctl_ok bs (v_ptr it)) (run_body body bs it obj)"
proof -
  have adv: "safe (ctl_ok bs (v_ptr it)) (after_advance (cbor_value_advance_fixed bs it) obj')" for obj'
    unfolding after_advance_def
    by (rule safe_bind [OF safe_advance_fixed [OF ok]]) (auto simp: moved_def)
  have id: "safe (ctl_ok bs (v_ptr it))
      (bindR (cbor_value_advance_fixed bs it) (\<lambda>(err, content). Ok (Break err content obj)))"
    by (rule safe_bind [OF safe_advance_fixed [OF ok]]) (auto simp: moved_def)
  have copy: "safe (ctl_ok bs (v_ptr it)) (copy_and_store (cbor_value_copy_string bs it n True) st obj)"
    for n st
    unfolding copy_and_store_def
    by (rule safe_bind [OF safe_copy_string [OF ok]]) auto
  have len: "safe (\<lambda>_. True) (cbor_value_calculate_string_length bs it)"
    unfolding cbor_value_calculate_string_length_def
    by (rule safe_bind [OF safe_copy_string [OF ok]]) auto
  show ?thesis
    by (cases body)
       (auto simp: cbor_value_copy_byte_string_def cbor_value_copy_text_string_def
         cbor_value_get_boolean_def ok
         intro!: adv id copy safe_bind [OF safe_get_int64 [OF ok]] safe_bind [OF safe_get_uint64 [OF ok]]
           safe_bind [OF safe_get_string_length [OF ok]] safe_bind [OF len])
qed

lemma safe_run_cases:
  assumes "val_ok bs it"
  shows "safe (ctl_ok bs (v_ptr it)) (run_cases cases bs it obj)"
proof (induction cases)
  case (Cons c cases)
  obtain k body where c: "c = (k, body)" by (cases c)
  have "safe (ctl_ok bs (v_ptr it)) (bindR (run_body body bs it obj) (\<lambda>c.
      case c of FallThrough \<Rightarrow> run_cases cases bs it obj | _ \<Rightarrow> Ok c))"
    by (rule safe_bind [OF safe_run_body [OF assms]]) (use Cons in \<open>auto split: ctl.splits\<close>)
  then show ?case by (simp add: c)
qed simp

lemma safe_decode_loop:
  fixes obj :: 'r
  shows "val_ok bs it \<Longrightarrow> length bs - v_ptr it + 1 \<le> n \<Longrightarrow>
    safe (\<lambda>_. True) (ig_decode_loop n cases bs e it obj)"
proof (induction n arbitrary: e it obj)
  case (Suc n)
  have ok: "val_ok bs it" by (rule Suc.prems)
  have body: "safe (\<lambda>_. True) (bindR (ig_switch tag cases bs it' obj) (\<lambda>c.
      case c of Return err obj \<Rightarrow> Ok (err, obj)
      | Break err content obj \<Rightarrow> ig_decode_loop n cases bs err content obj
      | FallThrough \<Rightarrow> Ok (err, obj)))"
    if "val_ok bs it'" "v_ptr it < v_ptr it'" for tag it' err
  proof (rule safe_bind)
    show "safe (ctl_ok bs (v_ptr it')) (ig_switch tag cases bs it' obj)"
      unfolding ig_switch_def by (rule safe_run_cases [OF that(1)])
    fix c :: "'r ctl" assume "ctl_ok bs (v_ptr it') c"
    moreover have "v_ptr it' \<le> length bs" using that(1) by (simp add: val_ok_def)
    ultimately show "safe (\<lambda>_. True) (case c of Return err obj \<Rightarrow> Ok (err, obj)
      | Break err content obj \<Rightarrow> ig_decode_loop n cases bs err content obj
      | FallThrough \<Rightarrow> Ok (err, obj))"
      using that(2) Suc.prems(2) by (auto split: ctl.splits intro!: Suc.IH)
  qed
  show ?case
    by (auto simp: moved_def intro!: safe_bind [OF safe_get_int64 [OF ok]]
        safe_bind [OF safe_advance_fixed [OF ok]] body)
qed simp

lemma safe_index_loop:
  assumes "val_ok bs it" "\<forall>c. content = Some c \<longrightarrow> val_ok bs c"
  shows "safe (\<lambda>(e, c). \<forall>c'. c = Some c' \<longrightarrow> val_ok bs c') (ig_index_loop n bs it content)"
  using assms
proof (induction n arbitrary: it content)
  case (Suc n)
  have "safe (\<lambda>(e, c). \<forall>c'. c = Some c' \<longrightarrow> val_ok bs c')
    (bindR (cbor_value_advance bs it) (\<lambda>(err, it).
         if err \<noteq> 0 then Ok (err, Some content) else ig_index_loop n bs it (Some content)))"
    if "val_ok bs content" for content
    by (rule safe_bind [OF safe_advance [OF Suc.prems(1)]]) (use that Suc.IH in auto)
  then show ?case
    by (auto simp: moved_def intro!: safe_bind [OF safe_enter_container [OF Suc.prems(1)]])
qed simp

lemma safe_ig_open:
  "safe (\<lambda>(e, c). \<forall>c'. c = Some c' \<longrightarrow> val_ok bs c') (ig_open bs index)"
proof -
  have init: "safe (\<lambda>(e, it). val_ok bs it) (cbor_parser_init bs)"
    unfolding cbor_parser_init_def
    by (rule safe_mono [OF safe_preparse_value]) (auto simp: looked_def)
  show ?thesis
    unfolding ig_open_def
    by (rule safe_bind [OF init])
       (auto simp: moved_def intro!: safe_bind [OF safe_enter_container] safe_index_loop
         simp del: ig_index_loop.simps)
qed

text \<open>The messages whose first item is read but is neither a map nor an array: no branch of a decoder sets the iterator then.\<close>
definition not_a_container :: "bytes \<Rightarrow> bool" where
  "not_a_container bs = (case cbor_parser_init bs of
     Ok (err, it) \<Rightarrow> err = 0 \<and> v_type it \<noteq> CborMapType \<and> v_type it \<noteq> CborArrayType
   | Fault f \<Rightarrow> False)"

text \<open>How a decoder leaves hostile input: with a result, at an assert of the library, or, for exactly those messages, by
  reading through the iterator that was never set.\<close>
definition decoder_outcome :: "bytes \<Rightarrow> 'a res \<Rightarrow> bool" where
  "decoder_outcome bs m \<longleftrightarrow> (if not_a_container bs then m = Fault Uninitialised else safe (\<lambda>_. True) m)"

lemma index_loop_sets:
  "ig_index_loop n bs it content = Ok (e, c) \<Longrightarrow> content \<noteq> None \<or> 0 < n \<Longrightarrow> c \<noteq> None"
proof (induction n arbitrary: it content)
  case (Suc n)
  obtain e1 c1 where c1: "cbor_value_enter_container bs it = Ok (e1, c1)" using Suc.prems(1) by (auto simp: bindR_eq_Ok)
  show ?case
  proof (cases "e1 = 0")
    case True
    then obtain e2 it' where a: "cbor_value_advance bs it = Ok (e2, it')" using Suc.prems(1) c1 by (auto simp: bindR_eq_Ok)
    show ?thesis
      using Suc.prems(1) Suc.IH [of it' "Some c1"] c1 True a by (cases "e2 = 0") auto
  qed (use Suc.prems(1) c1 in auto)
qed auto

text \<open>The iterator is unset in no other case.\<close>
lemma ig_open_unset: "ig_open bs index = Ok (0, None) \<longleftrightarrow> not_a_container bs"
proof (cases "cbor_parser_init bs")
  case (Ok x)
  obtain e it where x: "x = (e, it)" by (cases x)
  show ?thesis
    using index_loop_sets [of "index + 1" bs _ None 0 None]
    by (auto simp: ig_open_def not_a_container_def Ok x bindR_eq_Ok simp del: ig_index_loop.simps
        split: if_splits)
qed (simp add: ig_open_def not_a_container_def)

theorem ig_decode_outcome: "decoder_outcome bs (ig_decode cases bs obj index)"
proof (cases "not_a_container bs")
  case True
  then have "ig_open bs index = Ok (0, None)" by (simp add: ig_open_unset)
  then show ?thesis using True by (simp add: decoder_outcome_def ig_decode_def)
next
  case False
  have "safe (\<lambda>_. True) (ig_decode cases bs obj index)"
  proof (cases "ig_open bs index")
    case (Fault f)
    then show ?thesis using safe_ig_open [of bs index] by (simp add: ig_decode_def)
  next
    case (Ok x)
    obtain e c where x: "x = (e, c)" by (cases x)
    show ?thesis
    proof (cases "e = 0")
      case True
      then obtain it where it: "c = Some it" using False ig_open_unset [of bs index] Ok x by (cases c) auto
      then have "val_ok bs it" using safe_ig_open [of bs index] by (auto simp: Ok x)
      then have "safe (\<lambda>_. True) (ig_decode_loop (decode_fuel bs) cases bs 0 it obj)"
        by (rule safe_decode_loop) (simp add: decode_fuel_def)
      then show ?thesis using True it by (simp add: ig_decode_def Ok x)
    qed (simp add: ig_decode_def Ok x)
  qed
  then show ?thesis using False by (simp add: decoder_outcome_def)
qed

text \<open>A message that is a number, for one.\<close>
lemma number_not_a_container: "v < 24 \<Longrightarrow> not_a_container (v # bs)"
proof -
  assume v: "v < (24 :: u8)"
  have "list_all (\<lambda>n. (word_of_nat n :: u8) AND 0xe0 = 0 \<and> (word_of_nat n :: u8) AND 0x1f = word_of_nat n) [0..<24]"
    by code_simp
  moreover have "unat v < 24" "word_of_nat (unat v) = v" using v by (simp_all add: word_less_nat_alt)
  ultimately have bits: "v AND 0xe0 = 0" "v AND 0x1f = v" unfolding list_all_iff by (metis atLeastLessThan_iff set_upt zero_le)+
  have "\<not> 27 < v" "v \<noteq> 31" using v by (auto simp: word_less_nat_alt)
  with bits v show ?thesis
    by (auto simp: not_a_container_def cbor_parser_init_def preparse_value_def mem_byte_def Let_def is_fixed_type_def)
qed

end
