(* ===== verification/Message_Faults.thy ===== *)
theory Message_Faults
  imports Ig_Codec Cbor_Safety Messages_Lock
begin

text \<open>
  What the message code makes of values of the wrong kind, and of an object after \<open>deinit\<close>.  A case whose field has another
  kind than the value falls through to the case below; a field without sign is read with an assert that a negative number
  fails; and \<open>deinit\<close> leaves flag and size of the string it released.  The lemmas hold for every list of cases, so for all
  message files.
\<close>

section \<open>The first field of a message\<close>

text \<open>Decoding runs the switch at the value of the first field, and goes on behind it.\<close>
lemma ig_decode_first:
  assumes "Suc (length kvs) < 2 ^ 30"
  shows "\<exists>pre n. message_bytes ((k, i) # kvs) @ rest = pre @ item_bytes i @ kv_bytes kvs @ rest \<and> length kvs < n \<and>
    ig_decode cases (message_bytes ((k, i) # kvs) @ rest) obj index =
      bindR (ig_switch k cases (pre @ item_bytes i @ kv_bytes kvs @ rest)
               (item_at i (length pre) (word_of_nat (Suc (2 * length kvs)))) obj) (\<lambda>c.
        case c of
          Return err obj \<Rightarrow> Ok (err, obj)
        | Break err content obj \<Rightarrow> ig_decode_loop n cases (pre @ item_bytes i @ kv_bytes kvs @ rest) err content obj
        | FallThrough \<Rightarrow> Ok (0, obj))"
proof -
  let ?kvs = "(k, i) # kvs"
  let ?head = "number_bytes (word_of_nat (length ?kvs)) MtMap"
  let ?pre = "?head @ item_bytes (WUint k)"
  let ?bs = "message_bytes ?kvs @ rest"
  have bs: "?bs = ?head @ item_bytes (WUint k) @ item_bytes i @ kv_bytes kvs @ rest" by (simp add: message_bytes_def)
  have small: "length kvs < 2 ^ 30" "length ?kvs < 2 ^ 30" using assms by simp_all
  obtain c where opens: "ig_open ?bs index = Ok (0, Some c)" and st: "stands (length ?head) ?kvs c"
    using open_map [OF _ small(2), of rest index] by blast
  let ?r = "word_of_nat (2 * Suc (length kvs)) :: u32"
  have c: "c = item_at (WUint k) (length ?head) ?r" using st by simp
  have "2 * Suc (length kvs) < 2 ^ 32 - 1" using small by simp
  then have "?r \<noteq> 0" by (rule count_words(2)) simp
  then have go: "\<not> cbor_value_at_end c" by (simp add: c cbor_value_at_end_def del: of_nat_Suc of_nat_mult)
  have ty: "v_type c = CborIntegerType" by (simp add: c)
  have tag: "cbor_value_get_int64 ?bs c = Ok k"
    using get_int64_uint_item [of ?head k "item_bytes i @ kv_bytes kvs @ rest" ?r] by (simp add: c bs)
  have adv: "cbor_value_advance_fixed ?bs c = Ok (0, item_at i (length ?pre) (word_of_nat (Suc (2 * length kvs))))"
    using advance_key [OF small(1), of ?head k i "kv_bytes kvs @ rest"] by (simp add: c bs)
  have len: "length kvs \<le> length (kv_bytes kvs)"
  proof (induction kvs)
    case (Cons kv kvs)
    then show ?case using item_bytes_nonempty [of "WUint (fst kv)"] by (cases kv) (simp del: length_greater_0_conv)
  qed simp
  obtain n where n: "decode_fuel ?bs = Suc n" by (simp add: decode_fuel_def)
  have "length kvs < n" using n len by (simp add: decode_fuel_def message_bytes_def)
  moreover have bs': "?bs = ?pre @ item_bytes i @ kv_bytes kvs @ rest" by (simp only: bs append_assoc)
  moreover have "ig_decode cases ?bs obj index =
      bindR (ig_switch k cases ?bs (item_at i (length ?pre) (word_of_nat (Suc (2 * length kvs)))) obj) (\<lambda>c.
        case c of Return err obj \<Rightarrow> Ok (err, obj) | Break err content obj \<Rightarrow> ig_decode_loop n cases ?bs err content obj
        | FallThrough \<Rightarrow> Ok (0, obj))"
    using go ty tag adv by (simp add: ig_decode_def opens n)
  ultimately show ?thesis unfolding bs' by blast
qed

section \<open>Values of the wrong kind\<close>

text \<open>A number under the key of a byte string lands in the field below it, and the rest of the message is read as if
  nothing had happened.\<close>
lemma number_falls_through:
  assumes case_: "dropWhile (\<lambda>(k', _). k' \<noteq> k) cases = (k, CBytes f) # (k', CUint g) # post"
    and kvs: "kvs_ok kvs" "Suc (length kvs) < 2 ^ 30" "store_items cases kvs (g n obj) = Some obj'"
  shows "ig_decode cases (message_bytes ((k, WUint n) # kvs) @ rest) obj index = Ok (0, obj')"
proof -
  obtain pre m where d: "length kvs < m" "ig_decode cases (message_bytes ((k, WUint n) # kvs) @ rest) obj index =
      bindR (ig_switch k cases (pre @ item_bytes (WUint n) @ kv_bytes kvs @ rest)
               (item_at (WUint n) (length pre) (word_of_nat (Suc (2 * length kvs)))) obj) (\<lambda>c.
        case c of Return err obj \<Rightarrow> Ok (err, obj)
        | Break err content obj \<Rightarrow> ig_decode_loop m cases (pre @ item_bytes (WUint n) @ kv_bytes kvs @ rest) err content obj
        | FallThrough \<Rightarrow> Ok (0, obj))"
    using ig_decode_first [OF kvs(2), of k "WUint n" rest cases obj index] by blast
  have small: "length kvs < 2 ^ 30" using kvs(2) by simp
  have store: "body_store (CUint g) (WUint n) obj = Some (g n obj)" by simp
  have ok: "item_ok (WUint n)" by (simp add: item_ok_def)
  obtain c where c: "run_body (CUint g) (pre @ item_bytes (WUint n) @ kv_bytes kvs @ rest)
      (item_at (WUint n) (length pre) (word_of_nat (Suc (2 * length kvs)))) obj = Ok (Break 0 c (g n obj))"
    "stands (length pre + length (item_bytes (WUint n))) kvs c"
    using run_body_stores [OF store ok small, of pre rest] by blast
  have "ig_switch k cases (pre @ item_bytes (WUint n) @ kv_bytes kvs @ rest)
      (item_at (WUint n) (length pre) (word_of_nat (Suc (2 * length kvs)))) obj = Ok (Break 0 c (g n obj))"
    using c(1) by (simp add: ig_switch_def case_ del: run_body.simps(2))
  moreover have "ig_decode_loop m cases ((pre @ item_bytes (WUint n)) @ kv_bytes kvs @ rest) 0 c (g n obj) = Ok (0, obj')"
    by (rule ig_decode_loop_stores [OF kvs(3,1) d(1) small]) (use c(2) in simp)
  ultimately show ?thesis by (simp add: d(2))
qed

text \<open>A negative number for a field without sign stops the program.\<close>
lemma negative_stops:
  assumes case_: "dropWhile (\<lambda>(k', _). k' \<noteq> k) cases = (k, CUint g) # post"
    and v: "v <s 0" and kvs: "Suc (length kvs) < 2 ^ 30"
  shows "ig_decode cases (message_bytes ((k, WInt v) # kvs) @ rest) obj index = Fault AssertFailed"
proof -
  obtain pre m where d: "ig_decode cases (message_bytes ((k, WInt v) # kvs) @ rest) obj index =
      bindR (ig_switch k cases (pre @ item_bytes (WInt v) @ kv_bytes kvs @ rest)
               (item_at (WInt v) (length pre) (word_of_nat (Suc (2 * length kvs)))) obj) (\<lambda>c.
        case c of Return err obj \<Rightarrow> Ok (err, obj)
        | Break err content obj \<Rightarrow> ig_decode_loop m cases (pre @ item_bytes (WInt v) @ kv_bytes kvs @ rest) err content obj
        | FallThrough \<Rightarrow> Ok (0, obj))"
    using ig_decode_first [OF kvs, of k "WInt v" rest cases obj index] by blast
  have "\<not> cbor_value_is_unsigned_integer (item_at (WInt v) p r)" for p r
    using v by (simp add: cbor_value_is_unsigned_integer_def item_at_def item_flags_def)
  then show ?thesis by (simp add: d ig_switch_def case_ cbor_value_get_uint64_def assertR_def)
qed

text \<open>Both, for the decoder of one file.\<close>
definition misreads :: "(i64 \<times> 'r case_body) list \<Rightarrow> (bytes \<Rightarrow> 'r \<Rightarrow> nat \<Rightarrow> (nat \<times> 'r) res) \<Rightarrow> bool" where
  "misreads cases decode \<longleftrightarrow>
     (\<forall>k f k' g post n kvs rest obj obj' index.
        dropWhile (\<lambda>(k', _). k' \<noteq> k) cases = (k, CBytes f) # (k', CUint g) # post \<and> kvs_ok kvs \<and>
        Suc (length kvs) < 2 ^ 30 \<and> store_items cases kvs (g n obj) = Some obj' \<longrightarrow>
        decode (message_bytes ((k, WUint n) # kvs) @ rest) obj index = Ok (0, obj')) \<and>
     (\<forall>k g post v kvs rest obj index.
        dropWhile (\<lambda>(k', _). k' \<noteq> k) cases = (k, CUint g) # post \<and> v <s 0 \<and> Suc (length kvs) < 2 ^ 30 \<longrightarrow>
        decode (message_bytes ((k, WInt v) # kvs) @ rest) obj index = Fault AssertFailed)"

lemma decoder_misreads:
  assumes "\<And>bs obj index. decode bs obj index = ig_decode cases bs obj index"
  shows "misreads cases decode"
  unfolding misreads_def assms
  by (intro conjI allI impI; elim conjE) (erule (3) number_falls_through, erule (2) negative_stops)

section \<open>After deinit\<close>

text \<open>The first field written is a byte string whose block is gone.\<close>
lemma encode_released:
  fixes msg_id :: u64
  assumes sz: "fields_size = word_of_nat m" "m < 2 ^ 31" and n: "0 < n" "n < 2 ^ 32"
    and len: "unat len \<le> length buf" "length (number_bytes fields_size MtMap @ item_bytes (WUint 0) @ item_bytes (WUint msg_id) @
      item_bytes (WUint k) @ number_bytes (word_of_nat n) MtBytes) + n \<le> unat len"
  shows "ig_encode fields_size msg_id ((True, k, ABytes None n) # fs) buf len = Fault OutOfBounds"
proof -
  let ?head = "number_bytes fields_size MtMap"
  have small: "fields_size \<le> 0x7fffffffffffffff" using small_count [OF sz(2)] by (simp only: sz(1))
  obtain e where cm: "cbor_encoder_create_map fields_size (buf, cbor_encoder_init 0 (unat len)) =
    bindR (append_to_buffer ?head (enc_st buf (unat len) [] 0 0x20)) (\<lambda>(err, b, c). Ok (err, (b, e), Some c))"
    using create_map_enc_st [OF small] by blast
  have head: "append_to_buffer ?head (enc_st buf (unat len) [] 0 0x20) = Ok (0, enc_st buf (unat len) ?head 0 0x20)"
    using append_fits [of "[]" ?head "unat len" buf 0 "0x20"] len by simp
  have null: "cbor_encode_byte_string None n (enc_st buf (unat len) out x f) = Fault OutOfBounds"
    if "length out + length (number_bytes (word_of_nat n) MtBytes) \<le> unat len" for out x f
    using that n(1) len(1) by (simp add: cbor_encode_byte_string_def encode_string_def encode_number_fits block_read_def)
  have "ig_encode_fields ((True, 0, AUint msg_id) # (True, k, ABytes None n) # fs) (enc_st buf (unat len) ?head 0 0x20) = Fault OutOfBounds"
    using len null by (simp add: encode_uint_fits)
  then show ?thesis
    by (simp add: ig_encode_def cm head split_beta del: ig_encode_fields.simps)
qed

lemma LockRequest_released:
  assumes ok: "ig_LockRequest_ok obj"
    and len: "unat (ig_LockRequest_get_max_payload_in_bytes obj) \<le> unat len" "unat len \<le> length buf"
  shows "ig_LockRequest_is_valid (ig_LockRequest_deinit obj)"
    "ig_LockRequest_encode (ig_LockRequest_deinit obj) buf len = Fault OutOfBounds"
proof -
  show "ig_LockRequest_is_valid (ig_LockRequest_deinit obj)"
    using ok by (simp add: ig_LockRequest_ok_def ig_LockRequest_is_valid_def ig_LockRequest_deinit_def)
  obtain d where d: "LockRequest_password obj = Some d" "LockRequest_password_size obj = length d" "0 < length d" "length d < 2 ^ 24"
    "LockRequest_has_password obj"
    using ok by (auto simp: ig_LockRequest_ok_def ig_LockRequest_is_valid_def str_ok_def split: option.splits)
  let ?m = "2 + of_bool (LockRequest_has_timestamp obj) + of_bool (LockRequest_has_operation_id obj) :: nat"
  have sz: "ig_LockRequest_fields_size (ig_LockRequest_deinit obj) = word_of_nat ?m" "?m < 2 ^ 31"
    using d by (simp_all add: ig_LockRequest_fields_size_def ig_LockRequest_deinit_def of_bool_def)
  have mp: "unat (ig_LockRequest_get_max_payload_in_bytes obj) = 32 + length d"
    using d by (simp add: ig_LockRequest_get_max_payload_in_bytes_def unat_of_nat take_bit_nat_eq_self del: of_nat_add)
  have "length (number_bytes (word_of_nat ?m) MtMap) = 1" by (simp add: number_bytes_length of_bool_def)
  moreover have "length (number_bytes (word_of_nat (length d)) MtBytes) \<le> 9" by (simp add: number_bytes_length)
  moreover have "length (item_bytes (WUint 0)) = 1" "length (item_bytes (WUint 51)) = 2" "length (item_bytes (WUint 11)) = 1"
    by (simp_all add: item_bytes_def number_bytes_length)
  ultimately have room: "length (number_bytes (word_of_nat ?m) MtMap @ item_bytes (WUint 0) @ item_bytes (WUint 51) @
      item_bytes (WUint 11) @ number_bytes (word_of_nat (length d)) MtBytes) + length d \<le> unat len"
    using len(1) mp by simp
  have n: "length d < 2 ^ 32" using d(4) by simp
  show "ig_LockRequest_encode (ig_LockRequest_deinit obj) buf len = Fault OutOfBounds"
    using encode_released [OF sz(1,2) d(3) n len(2) room [folded sz(1)]] d
    by (simp add: ig_LockRequest_encode_def ig_LockRequest_is_valid_def ig_LockRequest_fields_def ig_LockRequest_deinit_def)
qed

end
