(* ===== verification/Aes.thy ===== *)
theory Aes
  imports Prelude
begin

text \<open>
  The block cipher \<open>lock/cifra/aes.c\<close> with the word operations of \<open>bitops.h\<close> it uses: tables, key
  schedule, encryption and decryption of one block of 16 bytes, with the constant-time table lookup
  the default configuration selects.  The lemmas show that the constant-time lookup is the table
  access, that every step of decryption undoes its encryption step, and that decryption of an
  encrypted block gives the block back for every context of 10, 12 or 14 rounds.
\<close>

section \<open>Tables\<close>

definition S_box :: bytes where
  "S_box = [
   0x63, 0x7c, 0x77, 0x7b, 0xf2, 0x6b, 0x6f, 0xc5, 0x30, 0x01, 0x67, 0x2b, 0xfe,
   0xd7, 0xab, 0x76, 0xca, 0x82, 0xc9, 0x7d, 0xfa, 0x59, 0x47, 0xf0, 0xad, 0xd4,
   0xa2, 0xaf, 0x9c, 0xa4, 0x72, 0xc0, 0xb7, 0xfd, 0x93, 0x26, 0x36, 0x3f, 0xf7,
   0xcc, 0x34, 0xa5, 0xe5, 0xf1, 0x71, 0xd8, 0x31, 0x15, 0x04, 0xc7, 0x23, 0xc3,
   0x18, 0x96, 0x05, 0x9a, 0x07, 0x12, 0x80, 0xe2, 0xeb, 0x27, 0xb2, 0x75, 0x09,
   0x83, 0x2c, 0x1a, 0x1b, 0x6e, 0x5a, 0xa0, 0x52, 0x3b, 0xd6, 0xb3, 0x29, 0xe3,
   0x2f, 0x84, 0x53, 0xd1, 0x00, 0xed, 0x20, 0xfc, 0xb1, 0x5b, 0x6a, 0xcb, 0xbe,
   0x39, 0x4a, 0x4c, 0x58, 0xcf, 0xd0, 0xef, 0xaa, 0xfb, 0x43, 0x4d, 0x33, 0x85,
   0x45, 0xf9, 0x02, 0x7f, 0x50, 0x3c, 0x9f, 0xa8, 0x51, 0xa3, 0x40, 0x8f, 0x92,
   0x9d, 0x38, 0xf5, 0xbc, 0xb6, 0xda, 0x21, 0x10, 0xff, 0xf3, 0xd2, 0xcd, 0x0c,
   0x13, 0xec, 0x5f, 0x97, 0x44, 0x17, 0xc4, 0xa7, 0x7e, 0x3d, 0x64, 0x5d, 0x19,
   0x73, 0x60, 0x81, 0x4f, 0xdc, 0x22, 0x2a, 0x90, 0x88, 0x46, 0xee, 0xb8, 0x14,
   0xde, 0x5e, 0x0b, 0xdb, 0xe0, 0x32, 0x3a, 0x0a, 0x49, 0x06, 0x24, 0x5c, 0xc2,
   0xd3, 0xac, 0x62, 0x91, 0x95, 0xe4, 0x79, 0xe7, 0xc8, 0x37, 0x6d, 0x8d, 0xd5,
   0x4e, 0xa9, 0x6c, 0x56, 0xf4, 0xea, 0x65, 0x7a, 0xae, 0x08, 0xba, 0x78, 0x25,
   0x2e, 0x1c, 0xa6, 0xb4, 0xc6, 0xe8, 0xdd, 0x74, 0x1f, 0x4b, 0xbd, 0x8b, 0x8a,
   0x70, 0x3e, 0xb5, 0x66, 0x48, 0x03, 0xf6, 0x0e, 0x61, 0x35, 0x57, 0xb9, 0x86,
   0xc1, 0x1d, 0x9e, 0xe1, 0xf8, 0x98, 0x11, 0x69, 0xd9, 0x8e, 0x94, 0x9b, 0x1e,
   0x87, 0xe9, 0xce, 0x55, 0x28, 0xdf, 0x8c, 0xa1, 0x89, 0x0d, 0xbf, 0xe6, 0x42,
   0x68, 0x41, 0x99, 0x2d, 0x0f, 0xb0, 0x54, 0xbb, 0x16]"

definition S_inv :: bytes where
  "S_inv = [
   0x52, 0x09, 0x6a, 0xd5, 0x30, 0x36, 0xa5, 0x38, 0xbf, 0x40, 0xa3, 0x9e, 0x81,
   0xf3, 0xd7, 0xfb, 0x7c, 0xe3, 0x39, 0x82, 0x9b, 0x2f, 0xff, 0x87, 0x34, 0x8e,
   0x43, 0x44, 0xc4, 0xde, 0xe9, 0xcb, 0x54, 0x7b, 0x94, 0x32, 0xa6, 0xc2, 0x23,
   0x3d, 0xee, 0x4c, 0x95, 0x0b, 0x42, 0xfa, 0xc3, 0x4e, 0x08, 0x2e, 0xa1, 0x66,
   0x28, 0xd9, 0x24, 0xb2, 0x76, 0x5b, 0xa2, 0x49, 0x6d, 0x8b, 0xd1, 0x25, 0x72,
   0xf8, 0xf6, 0x64, 0x86, 0x68, 0x98, 0x16, 0xd4, 0xa4, 0x5c, 0xcc, 0x5d, 0x65,
   0xb6, 0x92, 0x6c, 0x70, 0x48, 0x50, 0xfd, 0xed, 0xb9, 0xda, 0x5e, 0x15, 0x46,
   0x57, 0xa7, 0x8d, 0x9d, 0x84, 0x90, 0xd8, 0xab, 0x00, 0x8c, 0xbc, 0xd3, 0x0a,
   0xf7, 0xe4, 0x58, 0x05, 0xb8, 0xb3, 0x45, 0x06, 0xd0, 0x2c, 0x1e, 0x8f, 0xca,
   0x3f, 0x0f, 0x02, 0xc1, 0xaf, 0xbd, 0x03, 0x01, 0x13, 0x8a, 0x6b, 0x3a, 0x91,
   0x11, 0x41, 0x4f, 0x67, 0xdc, 0xea, 0x97, 0xf2, 0xcf, 0xce, 0xf0, 0xb4, 0xe6,
   0x73, 0x96, 0xac, 0x74, 0x22, 0xe7, 0xad, 0x35, 0x85, 0xe2, 0xf9, 0x37, 0xe8,
   0x1c, 0x75, 0xdf, 0x6e, 0x47, 0xf1, 0x1a, 0x71, 0x1d, 0x29, 0xc5, 0x89, 0x6f,
   0xb7, 0x62, 0x0e, 0xaa, 0x18, 0xbe, 0x1b, 0xfc, 0x56, 0x3e, 0x4b, 0xc6, 0xd2,
   0x79, 0x20, 0x9a, 0xdb, 0xc0, 0xfe, 0x78, 0xcd, 0x5a, 0xf4, 0x1f, 0xdd, 0xa8,
   0x33, 0x88, 0x07, 0xc7, 0x31, 0xb1, 0x12, 0x10, 0x59, 0x27, 0x80, 0xec, 0x5f,
   0x60, 0x51, 0x7f, 0xa9, 0x19, 0xb5, 0x4a, 0x0d, 0x2d, 0xe5, 0x7a, 0x9f, 0x93,
   0xc9, 0x9c, 0xef, 0xa0, 0xe0, 0x3b, 0x4d, 0xae, 0x2a, 0xf5, 0xb0, 0xc8, 0xeb,
   0xbb, 0x3c, 0x83, 0x53, 0x99, 0x61, 0x17, 0x2b, 0x04, 0x7e, 0xba, 0x77, 0xd6,
   0x26, 0xe1, 0x69, 0x14, 0x63, 0x55, 0x21, 0x0c, 0x7d]"

definition Rcon :: bytes where
  "Rcon = [
   0x8d, 0x01, 0x02, 0x04, 0x08, 0x10, 0x20, 0x40, 0x80, 0x1b, 0x36]"

section \<open>Words and bytes\<close>

definition rotr32 :: "u32 \<Rightarrow> nat \<Rightarrow> u32" where
  "rotr32 x n = drop_bit n x OR push_bit (32 - n) x"

definition rotl32 :: "u32 \<Rightarrow> nat \<Rightarrow> u32" where
  "rotl32 x n = push_bit n x OR drop_bit (32 - n) x"

definition word4 :: "u8 \<Rightarrow> u8 \<Rightarrow> u8 \<Rightarrow> u8 \<Rightarrow> u32" where
  "word4 a b c d = push_bit 24 (ucast a) OR push_bit 16 (ucast b) OR push_bit 8 (ucast c) OR ucast d"

definition byte :: "u32 \<Rightarrow> nat \<Rightarrow> u8" where
  "byte w x = ucast (drop_bit (8 * (3 - x)) w AND 0xff)"

definition read32_be :: "bytes \<Rightarrow> nat \<Rightarrow> u32" where
  "read32_be buf i = word4 (buf ! i) (buf ! (i + 1)) (buf ! (i + 2)) (buf ! (i + 3))"

definition write32_be :: "u32 \<Rightarrow> bytes" where
  "write32_be v = [byte v 0, byte v 1, byte v 2, byte v 3]"

definition round_constant :: "u32 \<Rightarrow> u32" where
  "round_constant i = push_bit 24 (ucast (Rcon ! unat i))"

definition rot_word :: "u32 \<Rightarrow> u32" where
  "rot_word w = rotl32 w 8"

text \<open>\<open>0xff\<close> if the numbers are equal, zero otherwise, without branching.\<close>
definition mask_u8 :: "u32 \<Rightarrow> u32 \<Rightarrow> u8" where
  "mask_u8 x y = (let diff = x XOR y;
     diff_is_zero = ucast (NOT diff AND (diff - 1)) :: u8
   in - drop_bit 7 diff_is_zero)"

text \<open>The loop of \<open>select_u8x4\<close> from index \<open>i\<close> on over the rest of the table.\<close>
fun select_u8x4_loop :: "u8 \<times> u8 \<times> u8 \<times> u8 \<Rightarrow> u32 \<Rightarrow> bytes \<Rightarrow> u8 \<times> u8 \<times> u8 \<times> u8 \<Rightarrow> u8 \<times> u8 \<times> u8 \<times> u8"
where
  "select_u8x4_loop abcd i [] r = r"
| "select_u8x4_loop (a, b, c, d) i (item # tab) (ra, rb, rc, rd) =
     (let mask = mask_u8 (ucast a) i; ra = (ra AND NOT mask) OR (item AND mask);
          mask = mask_u8 (ucast b) i; rb = (rb AND NOT mask) OR (item AND mask);
          mask = mask_u8 (ucast c) i; rc = (rc AND NOT mask) OR (item AND mask);
          mask = mask_u8 (ucast d) i; rd = (rd AND NOT mask) OR (item AND mask)
      in select_u8x4_loop (a, b, c, d) (i + 1) tab (ra, rb, rc, rd))"

definition select_u8x4 :: "u8 \<Rightarrow> u8 \<Rightarrow> u8 \<Rightarrow> u8 \<Rightarrow> bytes \<Rightarrow> u8 \<times> u8 \<times> u8 \<times> u8" where
  "select_u8x4 a b c d tab = select_u8x4_loop (a, b, c, d) 0 tab (0, 0, 0, 0)"

definition sub_word :: "u32 \<Rightarrow> bytes \<Rightarrow> u32" where
  "sub_word w sbox =
     (let (a, b, c, d) = select_u8x4 (byte w 0) (byte w 1) (byte w 2) (byte w 3) sbox
      in word4 a b c d)"

section \<open>Key schedule\<close>

record cf_aes_context =
  rounds :: nat
  ks :: "u32 list"

text \<open>The second loop of \<open>aes_schedule\<close>; the first argument counts the iterations left.\<close>
fun aes_schedule_loop :: "nat \<Rightarrow> nat \<Rightarrow> nat \<Rightarrow> u32 \<Rightarrow> nat \<Rightarrow> u32 list \<Rightarrow> u32 list" where
  "aes_schedule_loop 0 nk i i_div_nk i_mod_nk w = w"
| "aes_schedule_loop (Suc m) nk i i_div_nk i_mod_nk w =
     (let temp = w ! (i - 1);
          (i_div_nk, i_mod_nk) = (if i_mod_nk = nk then (i_div_nk + 1, 0) else (i_div_nk, i_mod_nk));
          temp = (if i_mod_nk = 0 then sub_word (rot_word temp) S_box XOR round_constant i_div_nk
                  else if nk > 6 \<and> i_mod_nk = 4 then sub_word temp S_box
                  else temp)
      in aes_schedule_loop m nk (i + 1) i_div_nk (i_mod_nk + 1) (w[i := w ! (i - nk) XOR temp]))"

definition aes_schedule :: "cf_aes_context \<Rightarrow> bytes \<Rightarrow> nat \<Rightarrow> cf_aes_context" where
  "aes_schedule ctx key nkey =
     (let nb = 16 div 4; nk = nkey div 4; n = nb * (rounds ctx + 1);
          w = map (\<lambda>i. read32_be key (i * 4)) [0..<nk] @ drop nk (ks ctx)
      in ctx\<lparr>ks := aes_schedule_loop (n - nk) nk nk 1 0 w\<rparr>)"

definition cf_aes_init :: "bytes \<Rightarrow> nat \<Rightarrow> cf_aes_context res" where
  "cf_aes_init key nkey = (let ctx = \<lparr>rounds = 0, ks = replicate 60 0\<rparr> in
     if nkey = 16 then bindR (mem_slice key 0 nkey) (\<lambda>key. Ok (aes_schedule (ctx\<lparr>rounds := 10\<rparr>) key nkey))
     else if nkey = 24 then
       bindR (mem_slice key 0 nkey) (\<lambda>key. Ok (aes_schedule (ctx\<lparr>rounds := 12\<rparr>) key nkey))
     else if nkey = 32 then
       bindR (mem_slice key 0 nkey) (\<lambda>key. Ok (aes_schedule (ctx\<lparr>rounds := 14\<rparr>) key nkey))
     else Fault AssertFailed)"

section \<open>Encryption\<close>

type_synonym aes_state = "u32 \<times> u32 \<times> u32 \<times> u32"

definition add_round_key :: "u32 list \<Rightarrow> nat \<Rightarrow> aes_state \<Rightarrow> aes_state" where
  "add_round_key rk p = (\<lambda>(s0, s1, s2, s3).
     (s0 XOR rk ! p, s1 XOR rk ! (p + 1), s2 XOR rk ! (p + 2), s3 XOR rk ! (p + 3)))"

definition sub_block :: "aes_state \<Rightarrow> aes_state" where
  "sub_block = (\<lambda>(s0, s1, s2, s3). (sub_word s0 S_box, sub_word s1 S_box, sub_word s2 S_box, sub_word s3 S_box))"

definition shift_rows :: "aes_state \<Rightarrow> aes_state" where
  "shift_rows = (\<lambda>(s0, s1, s2, s3).
     (word4 (byte s0 0) (byte s1 1) (byte s2 2) (byte s3 3),
      word4 (byte s1 0) (byte s2 1) (byte s3 2) (byte s0 3),
      word4 (byte s2 0) (byte s3 1) (byte s0 2) (byte s1 3),
      word4 (byte s3 0) (byte s0 1) (byte s1 2) (byte s2 3)))"

definition gf_poly_mul2 :: "u32 \<Rightarrow> u32" where
  "gf_poly_mul2 x =
     push_bit 1 (x AND 0x7f7f7f7f) XOR (drop_bit 7 (x AND 0x80808080) * 0x1b)"

definition mix_column :: "u32 \<Rightarrow> u32" where
  "mix_column x = (let x2 = gf_poly_mul2 x in
     x2 XOR rotr32 (x XOR x2) 24 XOR rotr32 x 16 XOR rotr32 x 8)"

definition mix_columns :: "aes_state \<Rightarrow> aes_state" where
  "mix_columns = (\<lambda>(s0, s1, s2, s3). (mix_column s0, mix_column s1, mix_column s2, mix_column s3))"

definition read_block :: "bytes \<Rightarrow> aes_state" where
  "read_block b = (read32_be b 0, read32_be b 4, read32_be b 8, read32_be b 12)"

definition write_block :: "aes_state \<Rightarrow> bytes" where
  "write_block = (\<lambda>(s0, s1, s2, s3).
     write32_be s0 @ write32_be s1 @ write32_be s2 @ write32_be s3)"

definition encrypt_round :: "u32 list \<Rightarrow> nat \<Rightarrow> aes_state \<Rightarrow> aes_state" where
  "encrypt_round rk round s =
     add_round_key rk (4 * round) (mix_columns (shift_rows (sub_block s)))"

definition cf_aes_encrypt :: "cf_aes_context \<Rightarrow> bytes \<Rightarrow> bytes res" where
  "cf_aes_encrypt ctx b =
     assertR (rounds ctx = 10 \<or> rounds ctx = 12 \<or> rounds ctx = 14)
     (let s = add_round_key (ks ctx) 0 (read_block b);
          s = fold (encrypt_round (ks ctx)) [1..<rounds ctx] s;
          s = add_round_key (ks ctx) (4 * rounds ctx) (shift_rows (sub_block s))
      in Ok (write_block s))"

section \<open>Decryption\<close>

definition inv_sub_block :: "aes_state \<Rightarrow> aes_state" where
  "inv_sub_block = (\<lambda>(s0, s1, s2, s3).
     (sub_word s0 S_inv, sub_word s1 S_inv, sub_word s2 S_inv, sub_word s3 S_inv))"

definition inv_shift_rows :: "aes_state \<Rightarrow> aes_state" where
  "inv_shift_rows = (\<lambda>(s0, s1, s2, s3).
     (word4 (byte s0 0) (byte s3 1) (byte s2 2) (byte s1 3),
      word4 (byte s1 0) (byte s0 1) (byte s3 2) (byte s2 3),
      word4 (byte s2 0) (byte s1 1) (byte s0 2) (byte s3 3),
      word4 (byte s3 0) (byte s2 1) (byte s1 2) (byte s0 3)))"

definition inv_mix_column :: "u32 \<Rightarrow> u32" where
  "inv_mix_column x = (let
     x2 = gf_poly_mul2 x; x4 = gf_poly_mul2 x2; x9 = x XOR gf_poly_mul2 x4;
     x11 = x2 XOR x9; x13 = x4 XOR x9
   in x XOR x2 XOR x13 XOR rotr32 x11 24 XOR rotr32 x13 16 XOR rotr32 x9 8)"

definition inv_mix_columns :: "aes_state \<Rightarrow> aes_state" where
  "inv_mix_columns = (\<lambda>(s0, s1, s2, s3).
     (inv_mix_column s0, inv_mix_column s1, inv_mix_column s2, inv_mix_column s3))"

definition decrypt_round :: "u32 list \<Rightarrow> nat \<Rightarrow> aes_state \<Rightarrow> aes_state" where
  "decrypt_round rk round s =
     inv_mix_columns (add_round_key rk (4 * round) (inv_sub_block (inv_shift_rows s)))"

definition cf_aes_decrypt :: "cf_aes_context \<Rightarrow> bytes \<Rightarrow> bytes res" where
  "cf_aes_decrypt ctx b =
     assertR (rounds ctx = 10 \<or> rounds ctx = 12 \<or> rounds ctx = 14)
     (let s = add_round_key (ks ctx) (4 * rounds ctx) (read_block b);
          s = fold (decrypt_round (ks ctx)) (rev [1..<rounds ctx]) s;
          s = add_round_key (ks ctx) 0 (inv_sub_block (inv_shift_rows s))
      in Ok (write_block s))"

section \<open>The constant-time lookup is the table access\<close>

lemma bit_255: "bit (0xff :: u32) n \<longleftrightarrow> n < 8"
proof -
  have "(0xff :: u32) = mask 8" by (simp add: mask_eq_exp_minus_1)
  then show ?thesis by (simp only: bit_mask_iff) auto
qed

lemma bit_255_int: "bit (0xff :: int) n \<longleftrightarrow> n < 8"
proof -
  have "(0xff :: int) = mask 8" by (simp add: mask_eq_exp_minus_1)
  then show ?thesis by (simp only: bit_mask_iff) auto
qed

lemma bit_255_u8: "bit (0xff :: u8) n \<longleftrightarrow> n < 8"
proof -
  have "(0xff :: u8) = - 1" by simp
  then show ?thesis by (simp only: bit_simps) auto
qed

lemma word_xor_eq_0: "(a :: 'a::len word) XOR b = 0 \<longleftrightarrow> a = b"
  by (metis xor.assoc xor.left_neutral xor.right_neutral xor_self_eq)

lemma bit_byte: "bit (byte w x) n \<longleftrightarrow> n < 8 \<and> bit w (8 * (3 - x) + n)"
  by (auto simp: byte_def bit_simps bit_255 bit_255_u8 bit_255_int)

lemma bit_word4:
  "bit (word4 a b c d) n \<longleftrightarrow> n < 32 \<and>
     (if n < 8 then bit d n else if n < 16 then bit c (n - 8)
      else if n < 24 then bit b (n - 16) else bit a (n - 24))"
  by (auto simp: word4_def bit_simps not_less dest: bit_imp_le_length)

lemma byte_word4 [simp]:
  "byte (word4 a b c d) 0 = a" "byte (word4 a b c d) 1 = b"
  "byte (word4 a b c d) 2 = c" "byte (word4 a b c d) 3 = d"
  "byte (word4 a b c d) (Suc 0) = b"
  by (auto simp: bit_byte bit_word4 intro!: bit_word_eqI)

lemma word4_byte [simp]: "word4 (byte w 0) (byte w 1) (byte w 2) (byte w 3) = w"
  "word4 (byte w 0) (byte w (Suc 0)) (byte w 2) (byte w 3) = w"
  by (auto simp: bit_byte bit_word4 not_less intro!: bit_word_eqI split: if_splits)

lemma mask_table:
  "\<forall>d \<in> set [0..<256].
     (- drop_bit 7 (ucast (NOT (word_of_nat d :: u32) AND (word_of_nat d - 1)) :: u8)) =
       (if d = 0 then - 1 else 0)"
  by code_simp

lemma mask_u8_eq:
  assumes "i < 256"
  shows "mask_u8 (ucast (a :: u8)) (word_of_nat i) = (if unat a = i then - 1 else 0)"
proof -
  define d :: u32 where "d = ucast a XOR word_of_nat i"
  have "(word_of_nat i :: u32) = ucast (word_of_nat i :: u8)"
    using assms by (simp add: word_unat_eq_iff unat_ucast_take_bit unat_of_nat take_bit_nat_eq_self)
  then have d: "d = ucast (a XOR word_of_nat i)" by (simp add: d_def unsigned_xor_eq)
  have "unat (a XOR word_of_nat i) < 256" using unsigned_less [of "a XOR word_of_nat i"] by simp
  then have ud: "unat d = unat (a XOR word_of_nat i)" and lt: "unat d < 256"
    by (simp_all add: d unat_ucast_take_bit take_bit_nat_eq_self)
  have "mask_u8 (ucast a) (word_of_nat i) = (if unat d = 0 then - 1 else 0)"
    using bspec [OF mask_table, of "unat d"] lt by (simp add: mask_u8_def d_def [symmetric] Let_def)
  moreover have "unat d = 0 \<longleftrightarrow> a XOR word_of_nat i = 0" by (simp only: ud unat_eq_0)
  moreover have "a = word_of_nat i \<longleftrightarrow> unat a = i"
    using assms by (auto simp: unat_of_nat take_bit_nat_eq_self)
  ultimately show ?thesis by (simp only: word_xor_eq_0)
qed

lemma select_loop_eq:
  assumes "i + length tab \<le> 256"
  shows "select_u8x4_loop (a, b, c, d) (word_of_nat i) tab (ra, rb, rc, rd) =
    (let sel = (\<lambda>x r. if i \<le> unat x \<and> unat x < i + length tab then tab ! (unat x - i) else r)
     in (sel a ra, sel b rb, sel c rc, sel d rd))"
  using assms
proof (induction tab arbitrary: i ra rb rc rd)
  case (Cons item tab)
  have step: "(r AND NOT (mask_u8 (ucast x) (word_of_nat i))) OR (item AND mask_u8 (ucast x) (word_of_nat i)) =
      (if unat x = i then item else r)" for x :: u8 and r
    using Cons.prems mask_u8_eq [of i x] by simp
  have next_i: "(word_of_nat i :: u32) + 1 = word_of_nat (Suc i)" by simp
  show ?case
    using Cons.prems Cons.IH [of "Suc i"]
    by (simp add: step Let_def next_i del: of_nat_Suc)
qed auto

lemma select_u8x4_eq:
  assumes "length tab = 256"
  shows "select_u8x4 a b c d tab = (tab ! unat a, tab ! unat b, tab ! unat c, tab ! unat d)"
proof -
  have "unat x < 256" for x :: u8 using unsigned_less [of x] by simp
  then show ?thesis
    using select_loop_eq [of 0 tab a b c d 0 0 0 0] assms by (simp add: select_u8x4_def)
qed

lemma table_lengths [simp]: "length S_box = 256" "length S_inv = 256"
  by (simp_all add: S_box_def S_inv_def)

lemma sub_word_eq:
  "length sbox = 256 \<Longrightarrow> sub_word w sbox =
    word4 (sbox ! unat (byte w 0)) (sbox ! unat (byte w 1))
          (sbox ! unat (byte w 2)) (sbox ! unat (byte w 3))"
  by (simp add: sub_word_def select_u8x4_eq)

section \<open>Each step of decryption undoes its step of encryption\<close>

lemma S_inverse_table: "\<forall>i \<in> set [0..<256]. S_inv ! unat (S_box ! i) = word_of_nat i"
  by code_simp

lemma S_inverse [simp]: "S_inv ! unat (S_box ! unat b) = (b :: u8)"
proof -
  have "unat b < 256" using unsigned_less [of b] by simp
  then show ?thesis using bspec [OF S_inverse_table, of "unat b"] by simp
qed

lemma sub_word_inverse [simp]: "sub_word (sub_word w S_box) S_inv = w"
  by (simp add: sub_word_eq)

lemma sub_block_inverse [simp]: "inv_sub_block (sub_block s) = s"
  by (cases s) (simp add: inv_sub_block_def sub_block_def)

lemma shift_rows_inverse [simp]: "inv_shift_rows (shift_rows s) = s"
  by (cases s) (simp add: inv_shift_rows_def shift_rows_def)

lemma add_round_key_inverse [simp]: "add_round_key rk p (add_round_key rk p s) = s"
  by (cases s) (simp add: add_round_key_def xor.assoc)

lemma read_write_block [simp]: "read_block (write_block s) = s"
  by (cases s) (simp add: read_block_def write_block_def write32_be_def read32_be_def)

lemma write_block_length [simp]: "length (write_block s) = 16"
  by (cases s) (simp add: write_block_def write32_be_def)

lemma write_read_block [simp]:
  assumes "length b = 16"
  shows "write_block (read_block b) = b"
proof -
  obtain b0 b1 b2 b3 b4 b5 b6 b7 b8 b9 b10 b11 b12 b13 b14 b15 where
    "b = [b0, b1, b2, b3, b4, b5, b6, b7, b8, b9, b10, b11, b12, b13, b14, b15]"
    using assms by (auto simp: eval_nat_numeral length_Suc_conv)
  then show ?thesis by (simp add: read_block_def write_block_def write32_be_def read32_be_def)
qed

text \<open>The column operations are sums (exclusive or) of rotations and doublings, which distribute over
  sums and commute; expanding the two maps leaves every term but the argument twice.\<close>

definition additive :: "(u32 \<Rightarrow> u32) \<Rightarrow> bool" where
  "additive f \<longleftrightarrow> (\<forall>x y. f (x XOR y) = f x XOR f y)"

lemma additive_xor: "additive f \<Longrightarrow> additive g \<Longrightarrow> additive (\<lambda>x. f x XOR g x)"
  by (simp add: additive_def ac_simps)

lemma additive_comp: "additive f \<Longrightarrow> additive g \<Longrightarrow> additive (\<lambda>x. f (g x))"
  by (simp add: additive_def)

lemma additive_rotr: "n \<le> 32 \<Longrightarrow> additive (\<lambda>x. rotr32 x n)"
  unfolding additive_def rotr32_def
proof (intro allI bit_word_eqI)
  fix x y :: u32 and k assume n: "n \<le> 32"
  have "bit z (n + k) \<Longrightarrow> n + k < 32" for z :: u32 using bit_imp_le_length [of z "n + k"] by simp
  from this [of x] this [of y]
  show "bit (drop_bit n (x XOR y) OR push_bit (32 - n) (x XOR y)) k \<longleftrightarrow>
    bit ((drop_bit n x OR push_bit (32 - n) x) XOR (drop_bit n y OR push_bit (32 - n) y)) k"
    using n by (auto simp: bit_simps)
qed

lemma top_bits_table:
  "\<forall>a \<in> {False, True}. \<forall>b \<in> {False, True}. \<forall>c \<in> {False, True}. \<forall>d \<in> {False, True}.
     (let y = of_bool a + of_bool b * 0x100 + of_bool c * 0x10000 + of_bool d * 0x1000000 :: u32
      in y * 0x1b = y XOR push_bit 1 y XOR push_bit 3 y XOR push_bit 4 y)"
  by simp

text \<open>The product with \<open>0x1b\<close> has no carries: only the lowest bit of each byte is set.\<close>
lemma top_bits_product:
  defines "tops \<equiv> \<lambda>x :: u32. drop_bit 7 (x AND 0x80808080)"
  shows "tops x * 0x1b = tops x XOR push_bit 1 (tops x) XOR push_bit 3 (tops x) XOR push_bit 4 (tops x)"
proof -
  have bits: "bit (0x01010101 :: u32) n \<longleftrightarrow> n \<in> {0, 8, 16, 24}" if "n < 32" for n
  proof -
    have "\<forall>n \<in> set [0..<32]. bit (0x01010101 :: u32) n \<longleftrightarrow> n \<in> {0, 8, 16, 24}" by code_simp
    then show ?thesis using that by simp
  qed
  define y where "y = (of_bool (bit x 7) + of_bool (bit x 15) * 0x100 + of_bool (bit x 23) * 0x10000 +
    of_bool (bit x 31) * 0x1000000 :: u32)"
  have sparse: "y = of_bool (bit x 7) OR push_bit 8 (of_bool (bit x 15)) OR
      push_bit 16 (of_bool (bit x 23)) OR push_bit 24 (of_bool (bit x 31))"
    unfolding y_def by (cases "bit x 7"; cases "bit x 15"; cases "bit x 23"; cases "bit x 31") simp_all
  have "tops x = y"
  proof (rule bit_word_eqI)
    fix n assume "n < LENGTH(32)"
    then have n: "n < 32" by simp
    then have "bit (tops x) n \<longleftrightarrow> bit x (7 + n) \<and> n \<in> {0, 8, 16, 24}"
      using bits [OF n] n bit_imp_le_length [of x "7 + n"]
      by (auto simp: tops_def bit_simps)
    also have "\<dots> \<longleftrightarrow> bit y n"
      unfolding sparse using n by (auto simp: bit_simps)
    finally show "bit (tops x) n \<longleftrightarrow> bit y n" .
  qed
  then show ?thesis using top_bits_table unfolding y_def by (auto simp: Let_def)
qed

lemma additive_and: "additive (\<lambda>x. x AND m)"
  by (simp add: additive_def bit.conj_xor_distrib2)

lemma additive_push: "additive (push_bit n)"
  by (auto simp: additive_def bit_simps intro!: bit_word_eqI)

lemma additive_drop: "additive (drop_bit n)"
  by (auto simp: additive_def bit_simps intro!: bit_word_eqI)

lemma gf_poly_mul2_xor:
  "gf_poly_mul2 x = push_bit 1 (x AND 0x7f7f7f7f) XOR
     (drop_bit 7 (x AND 0x80808080) XOR push_bit 1 (drop_bit 7 (x AND 0x80808080)) XOR
      push_bit 3 (drop_bit 7 (x AND 0x80808080)) XOR push_bit 4 (drop_bit 7 (x AND 0x80808080)))"
  unfolding gf_poly_mul2_def using top_bits_product [of x] by simp

lemma additive_gf: "additive gf_poly_mul2"
proof -
  note top = additive_comp [OF additive_drop additive_and]
  show ?thesis
    unfolding gf_poly_mul2_xor
    by (intro additive_xor additive_comp [OF additive_push additive_and]
        additive_comp [OF additive_push top] top)
qed

lemma bit_rotr32: "n < 32 \<Longrightarrow> bit (rotr32 x n) k \<longleftrightarrow> k < 32 \<and> bit x ((k + n) mod 32)"
proof -
  assume n: "n < 32"
  have m: "(k + n) mod 32 = (if k + n < 32 then k + n else k + n - 32)" if "k < 32"
    using that n by (simp add: mod_if)
  have h: "bit x j \<Longrightarrow> j < 32" for j using bit_imp_le_length [of x j] by simp
  show ?thesis
    using n m h [of "n + k"]
    by (auto simp: rotr32_def bit_or_iff bit_push_bit_iff bit_drop_bit_eq add.commute split: if_splits)
qed

lemma below_32: "k < 32 \<Longrightarrow> k \<in> set [0, 1, 2, 3, 4, 5, 6, 7, 8, 9, 10, 11, 12, 13, 14, 15, 16, 17, 18, 19, 20, 21, 22, 23, 24, 25, 26, 27, 28, 29, 30, 31]" for k :: nat
  by (simp, presburger)

lemma gf_mask_bits:
  "n < 32 \<Longrightarrow> bit (0x7f7f7f7f :: u32) n \<longleftrightarrow> n mod 8 \<noteq> 7"
  "n < 32 \<Longrightarrow> bit (0x80808080 :: u32) n \<longleftrightarrow> n mod 8 = 7"
proof -
  have "\<forall>n \<in> set [0..<32]. (bit (0x7f7f7f7f :: u32) n \<longleftrightarrow> n mod 8 \<noteq> 7) \<and>
    (bit (0x80808080 :: u32) n \<longleftrightarrow> n mod 8 = 7)" by code_simp
  then show "n < 32 \<Longrightarrow> bit (0x7f7f7f7f :: u32) n \<longleftrightarrow> n mod 8 \<noteq> 7"
    "n < 32 \<Longrightarrow> bit (0x80808080 :: u32) n \<longleftrightarrow> n mod 8 = 7" by simp_all
qed

lemma bit_gf:
  assumes "k < 32"
  shows "bit (gf_poly_mul2 x) k \<longleftrightarrow> (k mod 8 \<noteq> 0 \<and> bit x (k - 1)) \<noteq>
   (k mod 8 \<in> {0, 1, 3, 4} \<and> bit x (k - k mod 8 + 7))"
proof -
  have h: "bit x j \<Longrightarrow> j < 32" for j using bit_imp_le_length [of x j] by simp
  have t: "bit (x AND 0x80808080) j \<longleftrightarrow> bit x j \<and> j mod 8 = 7" for j
    using h [of j] gf_mask_bits(2) [of j] by (auto simp: bit_and_iff)
  have m: "bit (x AND 0x7f7f7f7f) j \<longleftrightarrow> bit x j \<and> j mod 8 \<noteq> 7" for j
    using h [of j] gf_mask_bits(1) [of j] by (auto simp: bit_and_iff)
  have "\<forall>k \<in> set [0, 1, 2, 3, 4, 5, 6, 7, 8, 9, 10, 11, 12, 13, 14, 15, 16, 17, 18, 19, 20, 21, 22, 23, 24, 25, 26, 27, 28, 29, 30, 31]. bit (gf_poly_mul2 x) k \<longleftrightarrow> (k mod 8 \<noteq> 0 \<and> bit x (k - 1)) \<noteq>
   (k mod 8 \<in> {0, 1, 3, 4} \<and> bit x (k - k mod 8 + 7))"
    unfolding gf_poly_mul2_xor bit_xor_iff bit_push_bit_iff bit_drop_bit_eq o_def t m by simp
  then show ?thesis by (rule bspec) (rule below_32 [OF assms])
qed

lemma gf_rotr32:
  assumes "n = 8 \<or> n = 16 \<or> n = 24"
  shows "gf_poly_mul2 (rotr32 x n) = rotr32 (gf_poly_mul2 x) n"
proof (rule bit_word_eqI)
  fix k assume "k < LENGTH(32)"
  then have k: "k < 32" by simp
  have "\<forall>k \<in> set [0, 1, 2, 3, 4, 5, 6, 7, 8, 9, 10, 11, 12, 13, 14, 15, 16, 17, 18, 19, 20, 21, 22, 23, 24, 25, 26, 27, 28, 29, 30, 31]. bit (gf_poly_mul2 (rotr32 x n)) k = bit (rotr32 (gf_poly_mul2 x) n) k"
    using assms by (elim disjE; simp add: bit_gf bit_rotr32)
  then show "bit (gf_poly_mul2 (rotr32 x n)) k = bit (rotr32 (gf_poly_mul2 x) n) k"
    by (rule bspec) (rule below_32 [OF k])
qed
lemma rotr32_rotr32:
  assumes "m < 32" "n < 32"
  shows "rotr32 (rotr32 x m) n = rotr32 x ((m + n) mod 32)"
proof (rule bit_word_eqI)
  fix k assume "k < LENGTH(32)"
  then have k: "k < 32" by simp
  have "((k + n) mod 32 + m) mod 32 = (k + (m + n) mod 32) mod 32" by presburger
  then show "bit (rotr32 (rotr32 x m) n) k = bit (rotr32 x ((m + n) mod 32)) k"
    using k assms by (simp add: bit_rotr32)
qed

lemma rotr32_0: "rotr32 x 0 = x"
  by (rule bit_word_eqI) (simp add: bit_rotr32)

lemma rotr32_xor: "n \<le> 32 \<Longrightarrow> rotr32 (x XOR y) n = rotr32 x n XOR rotr32 y n"
  using additive_rotr [of n] by (simp add: additive_def)

lemma gf_xor: "gf_poly_mul2 (x XOR y) = gf_poly_mul2 x XOR gf_poly_mul2 y"
  using additive_gf by (simp add: additive_def)

lemma xor_cancel: "(a :: u32) XOR (a XOR b) = b" by (simp add: xor.assoc [symmetric])

lemma mix_column_inverse [simp]: "inv_mix_column (mix_column x) = x"
  unfolding inv_mix_column_def mix_column_def Let_def
  by (simp add: gf_xor gf_rotr32 rotr32_xor rotr32_rotr32 rotr32_0 xor.commute xor.left_commute xor_cancel)

lemma mix_columns_inverse [simp]: "inv_mix_columns (mix_columns s) = s"
  by (cases s) (simp add: inv_mix_columns_def mix_columns_def)

section \<open>Decryption undoes encryption\<close>

lemma decrypt_rounds:
  "inv_sub_block (inv_shift_rows (fold (decrypt_round rk) (rev rs)
      (shift_rows (sub_block (fold (encrypt_round rk) rs s))))) = s"
proof (induction rs arbitrary: s rule: rev_induct)
  case (snoc r rs)
  have "decrypt_round rk r (shift_rows (sub_block (encrypt_round rk r t))) =
      shift_rows (sub_block t)" for t
    by (simp add: decrypt_round_def encrypt_round_def)
  then show ?case using snoc by simp
qed simp

lemma cf_aes_encrypt_length: "cf_aes_encrypt ctx b = Ok c \<Longrightarrow> length c = 16"
  by (auto simp: cf_aes_encrypt_def assertR_eq_Ok Let_def)

lemma cf_aes_init_Ok:
  assumes "nkey = 16 \<or> nkey = 24 \<or> nkey = 32" "nkey \<le> length key"
  shows "\<exists>ctx. cf_aes_init key nkey = Ok ctx \<and>
    (rounds ctx = 10 \<or> rounds ctx = 12 \<or> rounds ctx = 14)"
  using assms by (auto simp: cf_aes_init_def mem_slice_def aes_schedule_def Let_def)

text \<open>Block decryption with the same context undoes block encryption.\<close>
lemma aes_decrypt_inverse:
  assumes "length b = 16" "rounds ctx = 10 \<or> rounds ctx = 12 \<or> rounds ctx = 14"
  shows "bindR (cf_aes_encrypt ctx b) (cf_aes_decrypt ctx) = Ok b"
  using assms by (auto simp: cf_aes_encrypt_def cf_aes_decrypt_def Let_def decrypt_rounds)

end
