(* ===== verification/Block_Modes.thy ===== *)
theory Block_Modes
  imports Aes
begin

text \<open>
  The block cipher modes of \<open>lock/cifra\<close>: the block cipher interface of \<open>prp.h\<close>, the buffering
  loops of \<open>blockwise.c\<close>, CBC and CTR of \<open>modes.c\<close> and the CBC-MAC stream of \<open>cbcmac.c\<close>, with the
  helpers of \<open>bitops.h\<close> and \<open>ext/handy.h\<close> they use.  The locale \<open>block_cipher\<close> is the contract
  of a block cipher with blocks of 16 bytes; inside it the streams are related to one-line reference
  definitions: \<open>absorb\<close> for the MAC, the list of counter blocks for CTR.  The interpretation
  \<open>aes\<close> discharges the contract for \<open>cf_aes\<close>.
\<close>

section \<open>Byte strings\<close>

definition xor_bb :: "bytes \<Rightarrow> bytes \<Rightarrow> bytes" where
  "xor_bb x y = map2 (XOR) x y"

text \<open>The loop of \<open>incr_be\<close> at index \<open>i\<close>, going to lower indices while the byte wraps to 0.\<close>
fun incr_be_loop :: "bytes \<Rightarrow> nat \<Rightarrow> bytes" where
  "incr_be_loop v 0 = v[0 := v ! 0 + 1]"
| "incr_be_loop v (Suc i) =
     (let v = v[Suc i := v ! Suc i + 1] in if v ! Suc i \<noteq> 0 then v else incr_be_loop v i)"

definition incr_be :: "bytes \<Rightarrow> nat \<Rightarrow> bytes" where
  "incr_be v len = incr_be_loop v (len - 1)"

fun mem_diff :: "bytes \<Rightarrow> bytes \<Rightarrow> nat \<Rightarrow> u8 \<Rightarrow> u8" where
  "mem_diff (a # va) (b # vb) (Suc len) diff = mem_diff va vb len (diff OR (a XOR b))"
| "mem_diff va vb len diff = diff"

definition mem_eq :: "bytes \<Rightarrow> bytes \<Rightarrow> nat \<Rightarrow> bool" where
  "mem_eq va vb len \<longleftrightarrow> mem_diff va vb len 0 = 0"

definition mem_clean :: "bytes \<Rightarrow> bytes" where
  "mem_clean v = replicate (length v) 0"

section \<open>Block ciphers and blockwise processing\<close>

text \<open>A block cipher: the functions take the private context of the cipher and one block.\<close>
record 'x cf_prp =
  blocksz :: nat
  encrypt :: "'x \<Rightarrow> bytes \<Rightarrow> bytes res"
  decrypt :: "'x \<Rightarrow> bytes \<Rightarrow> bytes res"

definition cf_aes :: "cf_aes_context cf_prp" where
  "cf_aes = \<lparr>blocksz = 16, encrypt = cf_aes_encrypt, decrypt = cf_aes_decrypt\<rparr>"

text \<open>The middle loop of \<open>cf_blockwise_accumulate_final\<close>.  With blocks of no bytes it does not end,
  which the first assert of the function excludes; the same holds for the two loops below.\<close>
function accumulate_blocks ::
  "nat \<Rightarrow> nat \<Rightarrow> bytes \<Rightarrow> ('c \<Rightarrow> bytes \<Rightarrow> 'c res) \<Rightarrow> ('c \<Rightarrow> bytes \<Rightarrow> 'c res) \<Rightarrow> 'c \<Rightarrow> (bytes \<times> 'c) res"
where
  "accumulate_blocks npartial nblock inp process process_final ctx =
     (if nblock = 0 then Fault OutOfFuel
      else if nblock \<le> length inp then
        assertR (npartial = 0)
          (bindR ((if length inp = nblock then process_final else process) ctx (take nblock inp))
            (\<lambda>ctx. accumulate_blocks npartial nblock (drop nblock inp) process process_final ctx))
      else Ok (inp, ctx))"
  by pat_completeness auto
termination
  by (relation "measure (\<lambda>(_, _, inp, _). length inp)") auto

text \<open>The last loop: what remains goes into the buffer.\<close>
function accumulate_rest :: "bytes \<Rightarrow> nat \<Rightarrow> nat \<Rightarrow> bytes \<Rightarrow> (bytes \<times> nat) res" where
  "accumulate_rest partial npartial nblock inp =
     (if inp = [] then Ok (partial, npartial)
      else if nblock \<le> npartial then Fault OutOfFuel
      else let taken = min (nblock - npartial) (length inp) in
        bindR (mem_write partial npartial (take taken inp)) (\<lambda>partial.
        assertR (npartial + taken < nblock)
          (accumulate_rest partial (npartial + taken) nblock (drop taken inp))))"
  by pat_completeness auto
termination
  by (relation "measure (\<lambda>(_, _, _, inp). length inp)") auto

definition cf_blockwise_accumulate_final ::
  "bytes \<Rightarrow> nat \<Rightarrow> nat \<Rightarrow> bytes \<Rightarrow> ('c \<Rightarrow> bytes \<Rightarrow> 'c res) \<Rightarrow> ('c \<Rightarrow> bytes \<Rightarrow> 'c res) \<Rightarrow> 'c \<Rightarrow>
   (bytes \<times> nat \<times> 'c) res"
where
  "cf_blockwise_accumulate_final partial npartial nblock inp process process_final ctx =
     assertR (npartial < nblock)
     (bindR
       (if npartial \<noteq> 0 \<and> inp \<noteq> [] then
          let taken = min (nblock - npartial) (length inp); rest = drop taken inp in
          bindR (mem_write partial npartial (take taken inp)) (\<lambda>partial.
          if npartial + taken = nblock then
            bindR ((if rest = [] then process_final else process) ctx (take nblock partial))
              (\<lambda>ctx. Ok (partial, 0, rest, ctx))
          else Ok (partial, npartial + taken, rest, ctx))
        else Ok (partial, npartial, inp, ctx))
       (\<lambda>(partial, npartial, inp, ctx).
          bindR (accumulate_blocks npartial nblock inp process process_final ctx) (\<lambda>(inp, ctx).
          bindR (accumulate_rest partial npartial nblock inp) (\<lambda>(partial, npartial).
            Ok (partial, npartial, ctx)))))"

definition cf_blockwise_accumulate ::
  "bytes \<Rightarrow> nat \<Rightarrow> nat \<Rightarrow> bytes \<Rightarrow> ('c \<Rightarrow> bytes \<Rightarrow> 'c res) \<Rightarrow> 'c \<Rightarrow> (bytes \<times> nat \<times> 'c) res"
where
  "cf_blockwise_accumulate partial npartial nblock inp process ctx =
     cf_blockwise_accumulate_final partial npartial nblock inp process process ctx"

text \<open>The loop of \<open>cf_blockwise_xor\<close>; \<open>process\<close> gives the context and the next block of material.\<close>
function blockwise_xor_loop ::
  "bytes \<Rightarrow> nat \<Rightarrow> nat \<Rightarrow> bytes \<Rightarrow> ('c \<Rightarrow> ('c \<times> bytes) res) \<Rightarrow> 'c \<Rightarrow> (bytes \<times> nat \<times> 'c \<times> bytes) res"
where
  "blockwise_xor_loop partial npartial nblock inp process ctx =
     (if inp = [] then Ok (partial, npartial, ctx, [])
      else if nblock = 0 then Fault OutOfFuel
      else bindR
        (if npartial = 0 then bindR (process ctx) (\<lambda>(ctx, out). Ok (out, nblock, ctx))
         else Ok (partial, npartial, ctx))
        (\<lambda>(partial, npartial, ctx).
          let offset = nblock - npartial; taken = min npartial (length inp) in
          bindR (mem_slice partial offset taken) (\<lambda>material.
          bindR (blockwise_xor_loop partial (npartial - taken) nblock (drop taken inp) process ctx)
            (\<lambda>(partial, npartial, ctx, outp).
               Ok (partial, npartial, ctx, xor_bb (take taken inp) material @ outp)))))"
  by pat_completeness auto
termination
  by (relation "measure (\<lambda>(_, _, _, inp, _). length inp)")
    (auto simp: bindR_eq_Ok split: if_splits)

definition cf_blockwise_xor ::
  "bytes \<Rightarrow> nat \<Rightarrow> nat \<Rightarrow> bytes \<Rightarrow> ('c \<Rightarrow> ('c \<times> bytes) res) \<Rightarrow> 'c \<Rightarrow> (bytes \<times> nat \<times> 'c \<times> bytes) res"
where
  "cf_blockwise_xor partial npartial nblock inp process ctx =
     assertR (npartial < nblock) (blockwise_xor_loop partial npartial nblock inp process ctx)"

declare accumulate_blocks.simps [simp del] accumulate_rest.simps [simp del]
  blockwise_xor_loop.simps [simp del]

section \<open>CBC and the CBC-MAC stream\<close>

record 'x cf_cbc =
  cbc_prp :: "'x cf_prp"
  cbc_prpctx :: 'x
  cbc_block :: bytes

definition cf_cbc_init :: "'x cf_prp \<Rightarrow> 'x \<Rightarrow> bytes \<Rightarrow> 'x cf_cbc" where
  "cf_cbc_init p px iv = \<lparr>cbc_prp = p, cbc_prpctx = px, cbc_block = take (blocksz p) iv\<rparr>"

fun cf_cbc_encrypt :: "'x cf_cbc \<Rightarrow> bytes \<Rightarrow> nat \<Rightarrow> ('x cf_cbc \<times> bytes) res" where
  "cf_cbc_encrypt ctx input 0 = Ok (ctx, [])"
| "cf_cbc_encrypt ctx input (Suc blocks) =
     (let nblk = blocksz (cbc_prp ctx) in
      bindR (mem_slice input 0 nblk) (\<lambda>inb.
      bindR (encrypt (cbc_prp ctx) (cbc_prpctx ctx) (xor_bb inb (cbc_block ctx))) (\<lambda>block.
      bindR (cf_cbc_encrypt (ctx\<lparr>cbc_block := block\<rparr>) (drop nblk input) blocks) (\<lambda>(ctx, output).
        Ok (ctx, block @ output)))))"

fun cf_cbc_decrypt :: "'x cf_cbc \<Rightarrow> bytes \<Rightarrow> nat \<Rightarrow> ('x cf_cbc \<times> bytes) res" where
  "cf_cbc_decrypt ctx input 0 = Ok (ctx, [])"
| "cf_cbc_decrypt ctx input (Suc blocks) =
     (let nblk = blocksz (cbc_prp ctx) in
      bindR (mem_slice input 0 nblk) (\<lambda>inb.
      bindR (decrypt (cbc_prp ctx) (cbc_prpctx ctx) inb) (\<lambda>buf.
      bindR (cf_cbc_decrypt (ctx\<lparr>cbc_block := inb\<rparr>) (drop nblk input) blocks) (\<lambda>(ctx', output).
        Ok (ctx', xor_bb buf (cbc_block ctx) @ output)))))"

record 'x cf_cbcmac_stream =
  mac_prp :: "'x cf_prp"
  mac_prpctx :: 'x
  mac_cbc :: "'x cf_cbc"
  mac_buffer :: bytes
  mac_used :: nat

definition cf_cbcmac_stream_reset :: "'x cf_cbcmac_stream \<Rightarrow> 'x cf_cbcmac_stream" where
  "cf_cbcmac_stream_reset ctx =
     ctx\<lparr>mac_cbc := cf_cbc_init (mac_prp ctx) (mac_prpctx ctx) (replicate 16 0),
         mac_buffer := mem_clean (mac_buffer ctx), mac_used := 0\<rparr>"

definition cf_cbcmac_stream_init :: "'x cf_prp \<Rightarrow> 'x \<Rightarrow> 'x cf_cbcmac_stream" where
  "cf_cbcmac_stream_init p px = cf_cbcmac_stream_reset
     \<lparr>mac_prp = p, mac_prpctx = px,
      mac_cbc = \<lparr>cbc_prp = p, cbc_prpctx = px, cbc_block = replicate 16 0\<rparr>,
      mac_buffer = replicate 16 0, mac_used = 0\<rparr>"

definition cbcmac_process :: "'x cf_cbcmac_stream \<Rightarrow> bytes \<Rightarrow> 'x cf_cbcmac_stream res" where
  "cbcmac_process ctx block =
     bindR (cf_cbc_encrypt (mac_cbc ctx) block 1) (\<lambda>(cbc, output). Ok (ctx\<lparr>mac_cbc := cbc\<rparr>))"

definition cf_cbcmac_stream_update :: "'x cf_cbcmac_stream \<Rightarrow> bytes \<Rightarrow> 'x cf_cbcmac_stream res" where
  "cf_cbcmac_stream_update ctx data =
     bindR (cf_blockwise_accumulate (mac_buffer ctx) (mac_used ctx) (blocksz (mac_prp ctx)) data
              cbcmac_process ctx)
       (\<lambda>(partial, npartial, ctx). Ok (ctx\<lparr>mac_buffer := partial, mac_used := npartial\<rparr>))"

definition cf_cbcmac_stream_finish_block_zero :: "'x cf_cbcmac_stream \<Rightarrow> 'x cf_cbcmac_stream res"
where
  "cf_cbcmac_stream_finish_block_zero ctx =
     (if mac_used ctx = 0 then Ok ctx
      else bindR (mem_write (mac_buffer ctx) (mac_used ctx)
                    (replicate (blocksz (mac_prp ctx) - mac_used ctx) 0)) (\<lambda>buffer.
           bindR (cbcmac_process (ctx\<lparr>mac_buffer := buffer\<rparr>) buffer) (\<lambda>ctx.
             Ok (ctx\<lparr>mac_used := 0\<rparr>))))"

definition cf_cbcmac_stream_nopad_final :: "'x cf_cbcmac_stream \<Rightarrow> bytes res" where
  "cf_cbcmac_stream_nopad_final ctx =
     assertR (mac_used ctx = 0) (mem_slice (cbc_block (mac_cbc ctx)) 0 (blocksz (mac_prp ctx)))"

section \<open>CTR\<close>

record 'x cf_ctr =
  ctr_prp :: "'x cf_prp"
  ctr_prpctx :: 'x
  ctr_nonce :: bytes
  ctr_keymat :: bytes
  ctr_nkeymat :: nat
  ctr_offset :: nat
  ctr_width :: nat

definition cf_ctr_init :: "'x cf_prp \<Rightarrow> 'x \<Rightarrow> bytes \<Rightarrow> 'x cf_ctr" where
  "cf_ctr_init p px nonce =
     \<lparr>ctr_prp = p, ctr_prpctx = px, ctr_nonce = take (blocksz p) nonce,
      ctr_keymat = replicate 16 0, ctr_nkeymat = 0, ctr_offset = 0, ctr_width = blocksz p\<rparr>"

definition cf_ctr_custom_counter :: "'x cf_ctr \<Rightarrow> nat \<Rightarrow> nat \<Rightarrow> 'x cf_ctr res" where
  "cf_ctr_custom_counter ctx offset width =
     assertR (blocksz (ctr_prp ctx) \<le> offset + width)
       (Ok (ctx\<lparr>ctr_offset := offset, ctr_width := width\<rparr>))"

definition ctr_next_block :: "'x cf_ctr \<Rightarrow> ('x cf_ctr \<times> bytes) res" where
  "ctr_next_block ctx =
     bindR (encrypt (ctr_prp ctx) (ctr_prpctx ctx) (ctr_nonce ctx)) (\<lambda>out.
     bindR (mem_slice (ctr_nonce ctx) (ctr_offset ctx) (ctr_width ctx)) (\<lambda>counter.
     bindR (mem_write (ctr_nonce ctx) (ctr_offset ctx) (incr_be counter (ctr_width ctx))) (\<lambda>nonce.
       Ok (ctx\<lparr>ctr_nonce := nonce\<rparr>, out))))"

definition cf_ctr_cipher :: "'x cf_ctr \<Rightarrow> bytes \<Rightarrow> ('x cf_ctr \<times> bytes) res" where
  "cf_ctr_cipher ctx input =
     bindR (cf_blockwise_xor (ctr_keymat ctx) (ctr_nkeymat ctx) (blocksz (ctr_prp ctx)) input
              ctr_next_block ctx)
       (\<lambda>(keymat, nkeymat, ctx, output).
          Ok (ctx\<lparr>ctr_keymat := keymat, ctr_nkeymat := nkeymat\<rparr>, output))"

definition cf_ctr_discard_block :: "'x cf_ctr \<Rightarrow> 'x cf_ctr" where
  "cf_ctr_discard_block ctx = ctx\<lparr>ctr_nkeymat := 0\<rparr>"

section \<open>Reference definitions\<close>

lemma xor_bb_length [simp]: "length (xor_bb x y) = min (length x) (length y)"
  by (simp add: xor_bb_def)

lemma xor_bb_Nil [simp]: "xor_bb [] y = []" "xor_bb x [] = []"
  by (simp_all add: xor_bb_def)

lemma xor_bb_nth [simp]:
  "i < length x \<Longrightarrow> i < length y \<Longrightarrow> xor_bb x y ! i = x ! i XOR y ! i"
  by (simp add: xor_bb_def)

lemma xor_bb_cancel: "length x \<le> length y \<Longrightarrow> xor_bb (xor_bb x y) y = x"
  by (rule nth_equalityI) (simp_all add: xor.assoc)

lemma xor_bb_append:
  "length a = length c \<Longrightarrow> xor_bb (a @ b) (c @ d) = xor_bb a c @ xor_bb b d"
  by (simp add: xor_bb_def)

lemma take_xor_bb: "take n (xor_bb x y) = xor_bb (take n x) (take n y)"
  by (simp add: xor_bb_def take_map take_zip)

lemma xor_bb_take: "length x \<le> n \<Longrightarrow> xor_bb x (take n y) = xor_bb x y"
  by (rule nth_equalityI) (auto simp: min_def split: if_splits)

lemma mem_diff_zero:
  assumes "length va = len" "length vb = len"
  shows "mem_diff va vb len d = 0 \<longleftrightarrow> d = 0 \<and> va = vb"
  using assms
proof (induction va vb len d rule: mem_diff.induct)
  case (1 a va b vb len diff)
  have "diff OR (a XOR b) = 0 \<longleftrightarrow> diff = 0 \<and> a = b"
    by (simp only: or_eq_0_iff word_xor_eq_0)
  then show ?case using 1 by auto
qed auto

lemma mem_diff_take: "mem_diff va vb len d = mem_diff (take len va) (take len vb) len d"
  by (induction va vb len d rule: mem_diff.induct) auto

lemma mem_eq_take:
  assumes "len \<le> length va" "len \<le> length vb"
  shows "mem_eq va vb len \<longleftrightarrow> take len va = take len vb"
  unfolding mem_eq_def
  by (subst mem_diff_take) (use assms in \<open>simp add: mem_diff_zero\<close>)

lemma incr_be_loop_length [simp]: "length (incr_be_loop v i) = length v"
  by (induction v i rule: incr_be_loop.induct) (auto simp: Let_def)

lemma incr_be_length [simp]: "length (incr_be v n) = length v"
  by (simp add: incr_be_def)

lemma be_get_append: "be_get (a @ b) = be_get a * 256 ^ length b + be_get b"
  by (induction b rule: rev_induct) (auto simp: algebra_simps simp flip: append_assoc)

lemma incr_be_loop_append:
  "i < length v \<Longrightarrow> incr_be_loop (v @ w) i = incr_be_loop v i @ w"
  by (induction i arbitrary: v w) (auto simp: Let_def list_update_append nth_append)

lemma incr_be_put: "incr_be (be_put n k) n = be_put n (k + 1)"
proof (cases n)
  case (Suc m)
  have "incr_be_loop (be_put (Suc m) k) m = be_put (Suc m) (k + 1)" for k
  proof (induction m arbitrary: k)
    case 0
    then show ?case by (simp add: be_put.simps)
  next
    case (Suc m)
    let ?b = "word_of_nat k :: u8"
    have wrap: "?b + 1 = 0 \<longleftrightarrow> (k + 1) mod 256 = 0"
    proof -
      have "?b + 1 = 0 \<longleftrightarrow> unat (word_of_nat (k + 1) :: u8) = 0"
        by (simp only: unat_eq_0) (simp add: add.commute)
      then show ?thesis by (simp only: unat_of_nat) simp
    qed
    have hi: "(k + 1) div 256 = (if (k + 1) mod 256 = 0 then k div 256 + 1 else k div 256)"
      by (simp add: div_Suc)
    have last: "(be_put (Suc m) j @ [z]) ! Suc m = z" for j z
      by (simp add: nth_append)
    then show ?case
      using Suc [of "k div 256"] wrap hi
      by (auto simp: last be_put.simps(2) [of "Suc m"] Let_def incr_be_loop_append list_update_append
          add.commute)
  qed
  then show ?thesis by (simp add: incr_be_def Suc)
qed (simp add: incr_be_def be_put.simps)

text \<open>The number in the buffer goes up by one, modulo its width.\<close>
lemma be_get_incr_be:
  assumes "length v = n"
  shows "be_get (incr_be v n) = (be_get v + 1) mod 256 ^ n"
proof -
  have "incr_be v n = be_put n (be_get v + 1)"
    using incr_be_put [of n "be_get v"] assms by simp
  then show ?thesis by (simp add: be_get_put_mod)
qed

text \<open>The CBC-MAC of a string of whole blocks: the chaining value and what is left over.\<close>
fun absorb :: "(bytes \<Rightarrow> bytes) \<Rightarrow> bytes \<Rightarrow> bytes \<Rightarrow> bytes \<times> bytes" where
  "absorb f t bs =
     (if length bs < 16 then (t, bs) else absorb f (f (xor_bb (take 16 bs) t)) (drop 16 bs))"

declare absorb.simps [simp del]

definition cbc_mac :: "(bytes \<Rightarrow> bytes) \<Rightarrow> bytes \<Rightarrow> bytes" where
  "cbc_mac f bs = fst (absorb f (replicate 16 0) bs)"

definition pad_zero :: "bytes \<Rightarrow> bytes" where
  "pad_zero bs = bs @ replicate ((16 - length bs mod 16) mod 16) 0"

text \<open>The key stream of CTR: the encryptions of the \<open>n\<close> blocks \<open>pre\<close>, counter from \<open>i\<close> on.\<close>
fun key_stream :: "(bytes \<Rightarrow> bytes) \<Rightarrow> bytes \<Rightarrow> nat \<Rightarrow> nat \<Rightarrow> nat \<Rightarrow> bytes" where
  "key_stream f pre w i 0 = []"
| "key_stream f pre w i (Suc n) = f (pre @ be_put w i) @ key_stream f pre w (i + 1) n"

lemma absorb_short [simp]: "length bs < 16 \<Longrightarrow> absorb f t bs = (t, bs)"
  by (simp add: absorb.simps)

lemma absorb_block:
  "length b = 16 \<Longrightarrow> absorb f t (b @ bs) = absorb f (f (xor_bb b t)) bs"
  by (subst absorb.simps) simp

lemma absorb_append:
  "absorb f t (a @ b) = absorb f (fst (absorb f t a)) (snd (absorb f t a) @ b)"
proof (induction f t a rule: absorb.induct)
  case (1 f t bs)
  show ?case
  proof (cases "length bs < 16")
    case False
    then have "absorb f t (bs @ b) = absorb f (f (xor_bb (take 16 bs) t)) (drop 16 bs @ b)"
      by (subst absorb.simps) simp
    moreover have "absorb f t bs = absorb f (f (xor_bb (take 16 bs) t)) (drop 16 bs)"
      using False by (subst absorb.simps) simp
    ultimately show ?thesis using 1 False by simp
  qed simp
qed

lemma absorb_rest: "length (snd (absorb f t bs)) = length bs mod 16"
proof (induction f t bs rule: absorb.induct)
  case (1 f t bs)
  show ?case
  proof (cases "length bs < 16")
    case False
    then have "length (drop 16 bs) mod 16 = length bs mod 16" by (simp add: le_mod_geq)
    then show ?thesis using 1 False by (subst absorb.simps) simp
  qed simp
qed

lemma pad_zero_length [simp]: "length (pad_zero bs) mod 16 = 0"
proof -
  let ?r = "length bs mod 16"
  have "length (pad_zero bs) mod 16 = (?r + (16 - ?r) mod 16) mod 16"
    by (simp add: pad_zero_def mod_add_left_eq)
  also have "\<dots> = 0"
    by (cases "?r = 0") simp_all
  finally show ?thesis .
qed

lemma absorb_whole: "length bs mod 16 = 0 \<Longrightarrow> absorb f t bs = (fst (absorb f t bs), [])"
  using absorb_rest [of f t bs] by (simp add: prod_eq_iff)

section \<open>The contract of a block cipher\<close>

text \<open>A block cipher with blocks of 16 bytes: on a good context encryption is a function of the
  block, and decryption undoes it.\<close>
locale block_cipher =
  fixes p :: "'x cf_prp" and ok :: "'x \<Rightarrow> bool" and E :: "'x \<Rightarrow> bytes \<Rightarrow> bytes"
  assumes blocksz [simp]: "blocksz p = 16"
    and enc [simp]: "ok x \<Longrightarrow> length b = 16 \<Longrightarrow> encrypt p x b = Ok (E x b)"
    and E_length [simp]: "ok x \<Longrightarrow> length b = 16 \<Longrightarrow> length (E x b) = 16"
    and dec [simp]: "ok x \<Longrightarrow> length b = 16 \<Longrightarrow> decrypt p x (E x b) = Ok b"
begin

text \<open>The stream has chaining value \<open>t\<close> and \<open>r\<close> is the data waiting for a full block.\<close>
definition mac_at :: "'x \<Rightarrow> bytes \<Rightarrow> bytes \<Rightarrow> 'x cf_cbcmac_stream \<Rightarrow> bool" where
  "mac_at x t r st \<longleftrightarrow> ok x \<and> mac_prp st = p \<and> mac_prpctx st = x \<and>
     mac_cbc st = \<lparr>cbc_prp = p, cbc_prpctx = x, cbc_block = t\<rparr> \<and> length t = 16 \<and>
     length (mac_buffer st) = 16 \<and> mac_used st = length r \<and> length r < 16 \<and>
     take (length r) (mac_buffer st) = r"

lemma absorb_length [simp]: "ok x \<Longrightarrow> length t = 16 \<Longrightarrow> length (fst (absorb (E x) t bs)) = 16"
proof (induction "E x" t bs rule: absorb.induct)
  case (1 t bs)
  then show ?case by (subst absorb.simps) simp
qed

lemma cbcmac_process:
  assumes "ok x" "mac_cbc st = \<lparr>cbc_prp = p, cbc_prpctx = x, cbc_block = t\<rparr>" "length t = 16"
    "length b = 16"
  shows "cbcmac_process st b =
    Ok (st\<lparr>mac_cbc := \<lparr>cbc_prp = p, cbc_prpctx = x, cbc_block = E x (xor_bb b t)\<rparr>\<rparr>)"
  using assms by (simp add: cbcmac_process_def mem_slice_def Let_def)

lemma accumulate_blocks_absorb:
  assumes "ok x" "mac_cbc st = \<lparr>cbc_prp = p, cbc_prpctx = x, cbc_block = t\<rparr>" "length t = 16"
    "n = 0 \<or> length inp < 16"
  shows "accumulate_blocks n 16 inp cbcmac_process cbcmac_process st =
    Ok (snd (absorb (E x) t inp),
        st\<lparr>mac_cbc := \<lparr>cbc_prp = p, cbc_prpctx = x, cbc_block = fst (absorb (E x) t inp)\<rparr>\<rparr>)"
  using assms
proof (induction "E x" t inp arbitrary: st rule: absorb.induct)
  case (1 t inp)
  show ?case
  proof (cases "length inp < 16")
    case True
    then show ?thesis using 1 by (subst accumulate_blocks.simps) simp
  next
    case False
    let ?st = "st\<lparr>mac_cbc := \<lparr>cbc_prp = p, cbc_prpctx = x, cbc_block = E x (xor_bb (take 16 inp) t)\<rparr>\<rparr>"
    have step: "cbcmac_process st (take 16 inp) = Ok ?st"
      using 1 False by (intro cbcmac_process) auto
    have "absorb (E x) t inp = absorb (E x) (E x (xor_bb (take 16 inp) t)) (drop 16 inp)"
      using False by (subst absorb.simps) simp
    moreover have "accumulate_blocks n 16 (drop 16 inp) cbcmac_process cbcmac_process ?st =
      Ok (snd (absorb (E x) (E x (xor_bb (take 16 inp) t)) (drop 16 inp)), ?st\<lparr>mac_cbc :=
        \<lparr>cbc_prp = p, cbc_prpctx = x,
         cbc_block = fst (absorb (E x) (E x (xor_bb (take 16 inp) t)) (drop 16 inp))\<rparr>\<rparr>)"
      by (rule 1) (use 1 False in auto)
    ultimately show ?thesis
      using 1 False step by (subst accumulate_blocks.simps) simp
  qed
qed

end

lemma blockwise_xor_loop_Nil [simp]:
  "blockwise_xor_loop buf n nblock [] process ctx = Ok (buf, n, ctx, [])"
  by (simp add: blockwise_xor_loop.simps)

lemma accumulate_rest_fits:
  assumes "length buf = 16" "take n buf = r" "n = length r" "length r + length inp < 16"
  shows "\<exists>buf'. accumulate_rest buf n 16 inp = Ok (buf', n + length inp) \<and> length buf' = 16 \<and>
    take (n + length inp) buf' = r @ inp"
proof (cases "inp = []")
  case True
  then show ?thesis using assms by (simp add: accumulate_rest.simps)
next
  case False
  have "accumulate_rest b m 16 [] = Ok (b, m)" for b m by (simp add: accumulate_rest.simps)
  then show ?thesis
    using False assms by (subst accumulate_rest.simps) (simp add: mem_write_def Let_def)
qed

context block_cipher begin

lemma update_absorb:
  assumes st: "mac_at x t r st"
  shows "\<exists>st'. cf_cbcmac_stream_update st data = Ok st' \<and>
    mac_at x (fst (absorb (E x) t (r @ data))) (snd (absorb (E x) t (r @ data))) st'"
proof -
  have ok: "ok x" and cbc: "mac_cbc st = \<lparr>cbc_prp = p, cbc_prpctx = x, cbc_block = t\<rparr>"
    and t: "length t = 16" and buf: "length (mac_buffer st) = 16" and r: "length r < 16"
    and used: "mac_used st = length r" and pend: "take (length r) (mac_buffer st) = r"
    and prp: "mac_prp st = p" "mac_prpctx st = x"
    using st by (auto simp: mac_at_def)
  have finish: "\<exists>st'. bindR (accumulate_blocks n 16 inp cbcmac_process cbcmac_process s) (\<lambda>(inp, ctx).
        bindR (accumulate_rest b n 16 inp) (\<lambda>(partial, npartial).
          Ok (ctx\<lparr>mac_buffer := partial, mac_used := npartial\<rparr>))) = Ok st' \<and>
      mac_at x (fst (absorb (E x) t' (q @ inp))) (snd (absorb (E x) t' (q @ inp))) st'"
    if "mac_cbc s = \<lparr>cbc_prp = p, cbc_prpctx = x, cbc_block = t'\<rparr>" "length t' = 16"
      "mac_prp s = p" "mac_prpctx s = x" "length b = 16" "take n b = q" "n = length q"
      "n = 0 \<or> length q + length inp < 16" for s t' b n q inp
  proof -
    note that' = that
    have blocks: "accumulate_blocks n 16 inp cbcmac_process cbcmac_process s =
        Ok (snd (absorb (E x) t' inp),
            s\<lparr>mac_cbc := \<lparr>cbc_prp = p, cbc_prpctx = x, cbc_block = fst (absorb (E x) t' inp)\<rparr>\<rparr>)"
      by (rule accumulate_blocks_absorb) (use ok that in auto)
    have app: "absorb (E x) t' (q @ inp) =
        (fst (absorb (E x) t' inp), q @ snd (absorb (E x) t' inp))"
      using that(7) that(8) by auto
    have len: "length q + length (snd (absorb (E x) t' inp)) < 16"
      using that(7) that(8) by (auto simp: absorb_rest)
    obtain b' where "accumulate_rest b n 16 (snd (absorb (E x) t' inp)) =
        Ok (b', n + length (snd (absorb (E x) t' inp)))" "length b' = 16"
      "take (n + length (snd (absorb (E x) t' inp))) b' = q @ snd (absorb (E x) t' inp)"
      using accumulate_rest_fits [OF that'(5,6,7) len] by auto
    then show ?thesis
      using blocks app that ok len by (simp add: mac_at_def)
  qed
  show ?thesis
  proof (cases "r \<noteq> [] \<and> data \<noteq> []")
    case False
    have "\<exists>st'. bindR (accumulate_blocks (length r) 16 data cbcmac_process cbcmac_process st) (\<lambda>(inp, ctx).
        bindR (accumulate_rest (mac_buffer st) (length r) 16 inp) (\<lambda>(partial, npartial).
          Ok (ctx\<lparr>mac_buffer := partial, mac_used := npartial\<rparr>))) = Ok st' \<and>
      mac_at x (fst (absorb (E x) t (r @ data))) (snd (absorb (E x) t (r @ data))) st'"
      by (rule finish) (use False cbc t buf r pend prp in auto)
    then show ?thesis
      using False used prp(1) r
      by (cases "r = []") (simp_all add: cf_cbcmac_stream_update_def cf_blockwise_accumulate_def
          cf_blockwise_accumulate_final_def bindR_assoc split_def)
  next
    case True
    define k where "k = min (16 - length r) (length data)"
    define b where "b = take (length r) (mac_buffer st) @ take k data @ drop (length r + k) (mac_buffer st)"
    have k: "length r + k \<le> 16" "k \<le> length data" and b16: "length b = 16"
      using r buf by (auto simp: k_def b_def)
    have w: "mem_write (mac_buffer st) (length r) (take k data) = Ok b"
      using k buf by (simp add: mem_write_def b_def min_def)
    have bq: "take (length r + k) b = r @ take k data"
      using k buf pend by (simp add: b_def)
    show ?thesis
    proof (cases "length r + k = 16")
      case full: True
      have tb: "take 16 b = b" using b16 by simp
      then have bb: "b = r @ take k data" using bq by (simp only: full)
      let ?t = "E x (xor_bb b t)"
      let ?st = "st\<lparr>mac_cbc := \<lparr>cbc_prp = p, cbc_prpctx = x, cbc_block = ?t\<rparr>\<rparr>"
      have proc: "cbcmac_process st b = Ok ?st"
        by (rule cbcmac_process) (use ok cbc t b16 in auto)
      have ab: "absorb (E x) t (r @ data) = absorb (E x) ?t (drop k data)"
        using absorb_block [OF b16, of "E x" t "drop k data"] by (simp add: bb)
      have "\<exists>st'. bindR (accumulate_blocks 0 16 (drop k data) cbcmac_process cbcmac_process ?st) (\<lambda>(inp, ctx).
          bindR (accumulate_rest b 0 16 inp) (\<lambda>(partial, npartial).
            Ok (ctx\<lparr>mac_buffer := partial, mac_used := npartial\<rparr>))) = Ok st' \<and>
        mac_at x (fst (absorb (E x) ?t ([] @ drop k data))) (snd (absorb (E x) ?t ([] @ drop k data))) st'"
        by (rule finish) (use ok cbc t b16 prp in auto)
      then show ?thesis
        using True used prp(1) r w full proc tb ab
        by (simp add: cf_cbcmac_stream_update_def cf_blockwise_accumulate_def k_def [symmetric]
          cf_blockwise_accumulate_final_def bindR_assoc split_def Let_def)
    next
      case part: False
      then have all: "k = length data" using k by (auto simp: k_def)
      have "\<exists>st'. bindR (accumulate_blocks (length r + k) 16 [] cbcmac_process cbcmac_process st) (\<lambda>(inp, ctx).
          bindR (accumulate_rest b (length r + k) 16 inp) (\<lambda>(partial, npartial).
            Ok (ctx\<lparr>mac_buffer := partial, mac_used := npartial\<rparr>))) = Ok st' \<and>
        mac_at x (fst (absorb (E x) t ((r @ data) @ []))) (snd (absorb (E x) t ((r @ data) @ []))) st'"
        by (rule finish) (use ok cbc t b16 prp bq all part k in auto)
      then show ?thesis
        using True used prp(1) r w part all
        by (simp add: cf_cbcmac_stream_update_def cf_blockwise_accumulate_def k_def [symmetric]
          cf_blockwise_accumulate_final_def bindR_assoc split_def Let_def)
    qed
  qed
qed


lemma finish_absorb:
  assumes st: "mac_at x t r st"
  shows "\<exists>st'. cf_cbcmac_stream_finish_block_zero st = Ok st' \<and>
    mac_at x (fst (absorb (E x) t (pad_zero r))) [] st'"
proof (cases "r = []")
  case True
  then show ?thesis
    using st by (auto simp: cf_cbcmac_stream_finish_block_zero_def mac_at_def pad_zero_def)
next
  case False
  define b where "b = r @ replicate (16 - length r) 0"
  have ok: "ok x" and cbc: "mac_cbc st = \<lparr>cbc_prp = p, cbc_prpctx = x, cbc_block = t\<rparr>"
    and t: "length t = 16" and buf: "length (mac_buffer st) = 16" and r: "length r < 16"
    and used: "mac_used st = length r" and pend: "take (length r) (mac_buffer st) = r"
    and prp: "mac_prp st = p" "mac_prpctx st = x"
    using st by (auto simp: mac_at_def)
  have b: "length b = 16" "pad_zero r = b" using False r by (simp_all add: b_def pad_zero_def)
  have w: "mem_write (mac_buffer st) (length r) (replicate (16 - length r) 0) = Ok b"
    using r buf pend by (simp add: mem_write_def b_def)
  have "cbcmac_process (st\<lparr>mac_buffer := b\<rparr>) b =
    Ok (st\<lparr>mac_buffer := b, mac_cbc := \<lparr>cbc_prp = p, cbc_prpctx = x, cbc_block = E x (xor_bb b t)\<rparr>\<rparr>)"
    by (subst cbcmac_process) (use ok cbc t b in auto)
  then show ?thesis
    using False used prp w b ok t absorb_block [OF b(1), of "E x" t "[]"]
    by (simp add: cf_cbcmac_stream_finish_block_zero_def mac_at_def)
qed

lemma init_absorb: "ok x \<Longrightarrow> mac_at x (replicate 16 0) [] (cf_cbcmac_stream_init p x)"
  by (simp add: cf_cbcmac_stream_init_def cf_cbcmac_stream_reset_def mac_at_def mem_clean_def
      cf_cbc_init_def)

lemma final_absorb: "mac_at x t [] st \<Longrightarrow> cf_cbcmac_stream_nopad_final st = Ok t"
  by (simp add: cf_cbcmac_stream_nopad_final_def mac_at_def mem_slice_def)

section \<open>CBC\<close>

lemma cbc_round_trip:
  assumes "ok x" "length iv = 16" "length input = 16 * blocks"
  shows "bindR (cf_cbc_encrypt \<lparr>cbc_prp = p, cbc_prpctx = x, cbc_block = iv\<rparr> input blocks)
      (\<lambda>(enc, outp). bindR (cf_cbc_decrypt \<lparr>cbc_prp = p, cbc_prpctx = x, cbc_block = iv\<rparr> outp blocks)
        (\<lambda>(dec, plain). Ok (enc = dec \<and> length outp = length input, plain))) = Ok (True, input)"
  using assms
proof (induction blocks arbitrary: iv input)
  case (Suc blocks)
  define a where "a = take 16 input"
  define rest where "rest = drop 16 input"
  have inp: "input = a @ rest" and a: "length a = 16" and rest: "length rest = 16 * blocks"
    using Suc.prems by (simp_all add: a_def rest_def)
  define c where "c = E x (xor_bb a iv)"
  have c: "length c = 16" "decrypt p x c = Ok (xor_bb a iv)"
    using Suc.prems a by (simp_all add: c_def)
  from Suc.IH [OF \<open>ok x\<close> c(1) rest] obtain s outp where
    e: "cf_cbc_encrypt \<lparr>cbc_prp = p, cbc_prpctx = x, cbc_block = c\<rparr> rest blocks = Ok (s, outp)" and
    d: "cf_cbc_decrypt \<lparr>cbc_prp = p, cbc_prpctx = x, cbc_block = c\<rparr> outp blocks = Ok (s, rest)" and
    l: "length outp = length rest"
    by (auto simp: bindR_eq_Ok split_def)
  show ?case
    using Suc.prems a c e d l
    by (simp add: inp mem_slice_def c_def [symmetric] xor_bb_cancel)
qed simp

section \<open>CTR\<close>

text \<open>At the next block boundary, with counter \<open>i\<close> in the last \<open>w\<close> bytes of the nonce.\<close>
definition ctr_at :: "'x \<Rightarrow> bytes \<Rightarrow> nat \<Rightarrow> nat \<Rightarrow> 'x cf_ctr \<Rightarrow> bool" where
  "ctr_at x pre w i st \<longleftrightarrow> ok x \<and> ctr_prp st = p \<and> ctr_prpctx st = x \<and>
     length pre + w = 16 \<and> ctr_nonce st = pre @ be_put w i \<and>
     ctr_offset st = length pre \<and> ctr_width st = w"

lemma ctr_next_block:
  assumes "ctr_at x pre w i st"
  shows "ctr_next_block st =
    Ok (st\<lparr>ctr_nonce := pre @ be_put w (i + 1)\<rparr>, E x (pre @ be_put w i))"
  using assms by (auto simp: ctr_next_block_def ctr_at_def mem_slice_def mem_write_def incr_be_put)

lemma ctr_at_step:
  "ctr_at x pre w i st \<Longrightarrow> ctr_at x pre w (i + 1) (st\<lparr>ctr_nonce := pre @ be_put w (i + 1)\<rparr>)"
  by (simp add: ctr_at_def)

lemma key_stream_length [simp]:
  "ok x \<Longrightarrow> length pre + w = 16 \<Longrightarrow> length (key_stream (E x) pre w i n) = 16 * n"
  by (induction n arbitrary: i) auto

lemma xor_loop_stream:
  assumes "ctr_at x pre w i st" "length inp \<le> 16 * n"
  shows "\<exists>mat left st'. blockwise_xor_loop m 0 16 inp ctr_next_block st =
      Ok (mat, left, st', xor_bb inp (key_stream (E x) pre w i n)) \<and>
    ctr_at x pre w (i + (length inp + 15) div 16) st' \<and>
    left = (16 - length inp mod 16) mod 16"
  using assms
proof (induction n arbitrary: inp i st m)
  case 0
  then show ?case by (simp add: blockwise_xor_loop.simps)
next
  case (Suc n)
  let ?st = "st\<lparr>ctr_nonce := pre @ be_put w (i + 1)\<rparr>"
  let ?mat = "E x (pre @ be_put w i)"
  have ok: "ok x" and w: "length pre + w = 16" using Suc.prems(1) by (auto simp: ctr_at_def)
  have mat: "length ?mat = 16" using ok w by simp
  have next_st: "ctr_next_block st = Ok (?st, ?mat)" "ctr_at x pre w (i + 1) ?st"
    using Suc.prems(1) ctr_next_block ctr_at_step by blast+
  consider "inp = []" | "inp \<noteq> []" "length inp < 16" | "16 \<le> length inp" by force
  then show ?case
  proof cases
    case 1
    then show ?thesis using Suc.prems by (simp add: blockwise_xor_loop.simps)
  next
    case 2
    have "(length inp + 15) div 16 = 1" using 2 by (simp add: Suc_le_eq div_nat_eqI)
    moreover have "xor_bb inp (take (length inp) ?mat) = xor_bb inp (?mat @ key_stream (E x) pre w (i + 1) n)"
      using 2 mat by (intro nth_equalityI) (auto simp: nth_append)
    ultimately show ?thesis
      using 2 next_st mat by (subst blockwise_xor_loop.simps) (simp add: mem_slice_def Let_def)
  next
    case 3
    define a where "a = take 16 inp"
    define rest where "rest = drop 16 inp"
    have inp: "inp = a @ rest" and a: "length a = 16" using 3 by (simp_all add: a_def rest_def)
    have "length rest \<le> 16 * n" using Suc.prems 3 by (simp add: rest_def)
    from Suc.IH [OF next_st(2) this, of ?mat] obtain b left st' where
      rec: "blockwise_xor_loop ?mat 0 16 rest ctr_next_block ?st =
        Ok (b, left, st', xor_bb rest (key_stream (E x) pre w (i + 1) n))"
      and st': "ctr_at x pre w (i + 1 + (length rest + 15) div 16) st'"
      and left: "left = (16 - length rest mod 16) mod 16"
      by blast
    have "i + (length inp + 15) div 16 = i + 1 + (length rest + 15) div 16"
      using a by (simp add: inp)
    moreover have "xor_bb inp (?mat @ key_stream (E x) pre w (i + 1) n) =
        xor_bb a ?mat @ xor_bb rest (key_stream (E x) pre w (i + 1) n)"
      unfolding inp by (rule xor_bb_append) (use a mat in simp)
    moreover have "a \<noteq> []" using a by auto
    moreover have "take 16 inp = a" "drop 16 inp = rest" by (simp_all add: a_def rest_def)
    ultimately show ?thesis
      using 3 next_st(1) mat rec st' left a
      by (subst blockwise_xor_loop.simps) (simp add: mem_slice_def Let_def inp)
  qed
qed

lemma cipher_stream:
  assumes st: "ctr_at x pre w i st" "ctr_nkeymat st = 0" and n: "length inp \<le> 16 * n"
  shows "\<exists>st'. cf_ctr_cipher st inp = Ok (st', xor_bb inp (key_stream (E x) pre w i n)) \<and>
    ctr_at x pre w (i + (length inp + 15) div 16) st' \<and>
    ctr_nkeymat st' = (16 - length inp mod 16) mod 16"
proof -
  have prp: "ctr_prp st = p" using st by (simp add: ctr_at_def)
  obtain mat left st' where
    "blockwise_xor_loop (ctr_keymat st) 0 16 inp ctr_next_block st =
      Ok (mat, left, st', xor_bb inp (key_stream (E x) pre w i n))"
    "ctr_at x pre w (i + (length inp + 15) div 16) st'" "left = (16 - length inp mod 16) mod 16"
    using xor_loop_stream [OF st(1) n] by blast
  then show ?thesis
    using st(2) prp by (simp add: cf_ctr_cipher_def cf_blockwise_xor_def ctr_at_def)
qed

lemma discard_boundary:
  "ctr_at x pre w i st \<Longrightarrow> ctr_at x pre w i (cf_ctr_discard_block st)"
  "ctr_nkeymat (cf_ctr_discard_block st) = 0"
  by (simp_all add: ctr_at_def cf_ctr_discard_block_def)

lemma init_stream:
  assumes "ok x" "length pre + w = 16"
  shows "\<exists>st. cf_ctr_custom_counter (cf_ctr_init p x (pre @ be_put w i)) (length pre) w = Ok st \<and>
    ctr_at x pre w i st \<and> ctr_nkeymat st = 0"
  using assms by (simp add: cf_ctr_custom_counter_def cf_ctr_init_def ctr_at_def)

end

section \<open>AES is a block cipher\<close>

definition aes_ok :: "cf_aes_context \<Rightarrow> bool" where
  "aes_ok ctx \<longleftrightarrow> rounds ctx = 10 \<or> rounds ctx = 12 \<or> rounds ctx = 14"

definition aes_block :: "cf_aes_context \<Rightarrow> bytes \<Rightarrow> bytes" where
  "aes_block ctx b = (case cf_aes_encrypt ctx b of Ok c \<Rightarrow> c | Fault f \<Rightarrow> [])"

interpretation aes: block_cipher cf_aes aes_ok aes_block
proof
  fix x b
  assume "aes_ok x" and b: "length (b :: bytes) = 16"
  then have r: "rounds x = 10 \<or> rounds x = 12 \<or> rounds x = 14" by (simp add: aes_ok_def)
  then obtain c where c: "cf_aes_encrypt x b = Ok c" by (auto simp: cf_aes_encrypt_def Let_def)
  show "encrypt cf_aes x b = Ok (aes_block x b)" by (simp add: cf_aes_def aes_block_def c)
  show "length (aes_block x b) = 16" using cf_aes_encrypt_length [OF c] by (simp add: aes_block_def c)
  show "decrypt cf_aes x (aes_block x b) = Ok b"
    using aes_decrypt_inverse [OF b r] c by (simp add: cf_aes_def aes_block_def)
qed (simp add: cf_aes_def)

end
