(* ===== verification/Ccm.thy ===== *)
theory Ccm
  imports Block_Modes
begin

text \<open>
  Counter with CBC-MAC, \<open>lock/cifra/ccm.c\<close>.  The operations of the code run the two streams of
  \<open>Block_Modes\<close> over the formatted first block, the associated data and the message.  The reference
  definitions \<open>ccm_tag\<close> and \<open>ccm_cipher\<close> give the same in the form of RFC 3610, and the two
  refinement lemmas say that the code computes them; confidentiality round trip and the exact
  condition under which decryption accepts follow.  Lengths of type \<open>size_t\<close> are natural numbers.
\<close>

section \<open>The code\<close>

text \<open>The loop of \<open>write_be\<close>: the bytes written and what is left of the value.\<close>
fun write_be_loop :: "nat \<Rightarrow> nat \<Rightarrow> bytes \<Rightarrow> bytes \<times> nat" where
  "write_be_loop val 0 out = (out, val)"
| "write_be_loop val (Suc n) out = write_be_loop (val div 256) n (word_of_nat (val mod 256) # out)"

definition write_be :: "nat \<Rightarrow> nat \<Rightarrow> bytes res" where
  "write_be val n = (let (out, val) = write_be_loop val n [] in assertR (val = 0) (Ok out))"

definition zero_pad :: "'x cf_cbcmac_stream \<Rightarrow> 'x cf_cbcmac_stream res" where
  "zero_pad cm = cf_cbcmac_stream_finish_block_zero cm"

definition add_aad :: "'x cf_cbcmac_stream \<Rightarrow> bytes \<Rightarrow> 'x cf_cbcmac_stream res" where
  "add_aad cm header = (let nheader = length header in
     assertR (nheader \<le> 0xffffffff)
     (bindR
        (if nheader < 0xff00 then
           bindR (write_be nheader 2) (\<lambda>block. cf_cbcmac_stream_update cm block)
         else
           bindR (write_be 0xfffe 2) (\<lambda>mark. bindR (write_be nheader 4) (\<lambda>len.
             cf_cbcmac_stream_update cm (mark @ len))))
        (\<lambda>cm. bindR (cf_cbcmac_stream_update cm header) zero_pad)))"

definition add_block0 ::
  "'x cf_cbcmac_stream \<Rightarrow> nat \<Rightarrow> bytes \<Rightarrow> nat \<Rightarrow> nat \<Rightarrow> nat \<Rightarrow> nat \<Rightarrow> 'x cf_cbcmac_stream res"
where
  "add_block0 cm nblock nonce L nplain nheader ntag =
     (let flags = (if nheader = 0 then 0x00 else 0x40) OR push_bit 3 (word_of_nat ((ntag - 2) div 2)) OR
                  word_of_nat (L - 1)
      in bindR (write_be nplain L) (\<lambda>len.
         bindR (mem_slice (flags # nonce @ len) 0 nblock) (\<lambda>block.
           cf_cbcmac_stream_update cm block)))"

definition build_ctr_nonce :: "nat \<Rightarrow> bytes \<Rightarrow> bytes" where
  "build_ctr_nonce L nonce = word_of_nat (L - 1) # nonce @ replicate L 0"

definition cf_ccm_encrypt ::
  "'x cf_prp \<Rightarrow> 'x \<Rightarrow> bytes \<Rightarrow> nat \<Rightarrow> bytes \<Rightarrow> bytes \<Rightarrow> nat \<Rightarrow> (bytes \<times> bytes) res"
where
  "cf_ccm_encrypt p px plain L header nonce ntag =
     assertR (4 \<le> ntag \<and> ntag \<le> 16 \<and> even ntag)
     (assertR (2 \<le> L \<and> L \<le> 8)
     (assertR (length nonce + L + 1 = blocksz p)
     (let cm = cf_cbcmac_stream_init p px in
      bindR (add_block0 cm (blocksz p) nonce L (length plain) (length header) ntag) (\<lambda>cm.
      bindR (if header \<noteq> [] then add_aad cm header else Ok cm) (\<lambda>cm.
      bindR (cf_cbcmac_stream_update cm plain) (\<lambda>cm.
      bindR (zero_pad cm) (\<lambda>cm.
      bindR (cf_cbcmac_stream_nopad_final cm) (\<lambda>block.
      bindR (cf_ctr_custom_counter (cf_ctr_init p px (build_ctr_nonce L nonce)) (blocksz p - L) L) (\<lambda>ctr.
      bindR (cf_ctr_cipher ctr block) (\<lambda>(ctr, block).
      bindR (mem_slice block 0 ntag) (\<lambda>tag.
      bindR (cf_ctr_cipher ctr plain) (\<lambda>(ctr, cipher).
        Ok (cipher, tag)))))))))))))"

text \<open>The result is the error number and the buffer of the plain text.\<close>
definition cf_ccm_decrypt ::
  "'x cf_prp \<Rightarrow> 'x \<Rightarrow> bytes \<Rightarrow> nat \<Rightarrow> bytes \<Rightarrow> bytes \<Rightarrow> bytes \<Rightarrow> (nat \<times> bytes) res"
where
  "cf_ccm_decrypt p px cipher L header nonce tag = (let ntag = length tag in
     assertR (4 \<le> ntag \<and> ntag \<le> 16 \<and> even ntag)
     (assertR (2 \<le> L \<and> L \<le> 8)
     (assertR (length nonce + L + 1 = blocksz p)
     (bindR (cf_ctr_custom_counter (cf_ctr_init p px (build_ctr_nonce L nonce)) (blocksz p - L) L) (\<lambda>ctr.
      bindR (cf_ctr_cipher ctr tag) (\<lambda>(ctr, plain_tag).
      let ctr = cf_ctr_discard_block ctr in
      bindR (cf_ctr_cipher ctr cipher) (\<lambda>(ctr, plain).
      let cm = cf_cbcmac_stream_init p px in
      bindR (add_block0 cm (blocksz p) nonce L (length cipher) (length header) ntag) (\<lambda>cm.
      bindR (if header \<noteq> [] then add_aad cm header else Ok cm) (\<lambda>cm.
      bindR (cf_cbcmac_stream_update cm plain) (\<lambda>cm.
      bindR (zero_pad cm) (\<lambda>cm.
      bindR (cf_cbcmac_stream_nopad_final cm) (\<lambda>block.
        if \<not> mem_eq block plain_tag ntag then Ok (1, mem_clean plain)
        else Ok (0, plain)))))))))))))"

section \<open>The reference\<close>

text \<open>The string the MAC runs over: the first block, the associated data with its length and the
  message, the last two padded with zeros to whole blocks.\<close>

definition ccm_flags :: "nat \<Rightarrow> bytes \<Rightarrow> nat \<Rightarrow> u8" where
  "ccm_flags L header ntag = (if header = [] then 0x00 else 0x40) OR
     push_bit 3 (word_of_nat ((ntag - 2) div 2)) OR word_of_nat (L - 1)"

definition ccm_header :: "bytes \<Rightarrow> bytes" where
  "ccm_header header =
     (if header = [] then []
      else if length header < 0xff00 then be_put 2 (length header) @ header
      else be_put 2 0xfffe @ be_put 4 (length header) @ header)"

definition ccm_input :: "nat \<Rightarrow> bytes \<Rightarrow> bytes \<Rightarrow> nat \<Rightarrow> bytes \<Rightarrow> bytes" where
  "ccm_input L header nonce ntag plain =
     (ccm_flags L header ntag # nonce @ be_put L (length plain)) @
     pad_zero (ccm_header header) @ pad_zero plain"

definition ccm_stream :: "(bytes \<Rightarrow> bytes) \<Rightarrow> nat \<Rightarrow> bytes \<Rightarrow> nat \<Rightarrow> nat \<Rightarrow> bytes" where
  "ccm_stream f L nonce i n = key_stream f (word_of_nat (L - 1) # nonce) L i n"

definition ccm_tag :: "(bytes \<Rightarrow> bytes) \<Rightarrow> nat \<Rightarrow> bytes \<Rightarrow> bytes \<Rightarrow> nat \<Rightarrow> bytes \<Rightarrow> bytes" where
  "ccm_tag f L header nonce ntag plain =
     take ntag (xor_bb (cbc_mac f (ccm_input L header nonce ntag plain)) (ccm_stream f L nonce 0 1))"

definition ccm_cipher :: "(bytes \<Rightarrow> bytes) \<Rightarrow> nat \<Rightarrow> bytes \<Rightarrow> bytes \<Rightarrow> bytes" where
  "ccm_cipher f L nonce plain = xor_bb plain (ccm_stream f L nonce 1 ((length plain + 15) div 16))"

text \<open>The arguments for which neither function hits an assert.\<close>
definition ccm_args :: "nat \<Rightarrow> bytes \<Rightarrow> bytes \<Rightarrow> nat \<Rightarrow> bytes \<Rightarrow> bool" where
  "ccm_args L header nonce ntag data \<longleftrightarrow>
     4 \<le> ntag \<and> ntag \<le> 16 \<and> even ntag \<and> 2 \<le> L \<and> L \<le> 8 \<and> length nonce + L = 15 \<and>
     length header \<le> 0xffffffff \<and> length data < 256 ^ L"

section \<open>The code computes the reference\<close>

lemma write_be_loop_eq: "write_be_loop val n out = (be_put n val @ out, val div 256 ^ n)"
proof (induction val n out rule: write_be_loop.induct)
  case (2 v n out)
  have "(word_of_nat (v mod 256) :: u8) = word_of_nat v"
    by (simp add: word_unat_eq_iff unat_of_nat)
  then show ?case using 2 by (simp add: be_put.simps div_mult2_eq)
qed (simp add: be_put.simps)

lemma write_be_fits: "val < 256 ^ n \<Longrightarrow> write_be val n = Ok (be_put n val)"
  by (simp add: write_be_def write_be_loop_eq)

lemma write_be_too_long: "256 ^ n \<le> val \<Longrightarrow> write_be val n = Fault AssertFailed"
  by (simp add: write_be_def write_be_loop_eq div_eq_0_iff not_less)

lemma be_put_zero: "be_put n 0 = replicate n 0"
  by (induction n) (simp_all add: be_put.simps replicate_append_same)

lemma build_ctr_nonce_eq: "build_ctr_nonce L nonce = (word_of_nat (L - 1) # nonce) @ be_put L 0"
  by (simp add: build_ctr_nonce_def be_put_zero)

lemma blocks_enough: "length xs \<le> 16 * ((length xs + 15) div 16)"
  by presburger

context block_cipher begin

text \<open>After whole blocks \<open>s\<close>, the stream holds the MAC state of \<open>s\<close>.\<close>
definition mac_of :: "'x \<Rightarrow> bytes \<Rightarrow> 'x cf_cbcmac_stream \<Rightarrow> bool" where
  "mac_of x s st \<longleftrightarrow> length s mod 16 = 0 \<and> mac_at x (cbc_mac (E x) s) [] st"

lemma mac_of_init: "ok x \<Longrightarrow> mac_of x [] (cf_cbcmac_stream_init p x)"
  using init_absorb by (simp add: mac_of_def cbc_mac_def)

lemma cbc_mac_append:
  "length s mod 16 = 0 \<Longrightarrow> cbc_mac f (s @ d) = fst (absorb f (cbc_mac f s) d)"
  using absorb_append [of f "replicate 16 0" s d] absorb_whole [of s f "replicate 16 0"]
  by (metis append_Nil cbc_mac_def snd_conv)

lemma mac_of_block:
  assumes "mac_of x s st" "length d = 16"
  shows "\<exists>st'. cf_cbcmac_stream_update st d = Ok st' \<and> mac_of x (s @ d) st'"
proof -
  have "absorb (E x) (cbc_mac (E x) s) d = (fst (absorb (E x) (cbc_mac (E x) s) d), [])"
    using assms(2) by (intro absorb_whole) simp
  then have "snd (absorb (E x) (cbc_mac (E x) s) d) = []" by (metis snd_conv)
  then show ?thesis
    using update_absorb [of x "cbc_mac (E x) s" "[]" st d] assms
    by (auto simp: mac_of_def cbc_mac_append mod_add_left_eq [symmetric])
qed

text \<open>An update followed by zero padding, when the data \<open>a\<close> was already given to the stream.\<close>
lemma pad_after:
  assumes s: "length s mod 16 = 0" and r1: "absorb (E x) (cbc_mac (E x) s) a = (t1, r1)"
    and st1: "mac_at x t1 r1 st1"
  shows "\<exists>st'. bindR (cf_cbcmac_stream_update st1 b) zero_pad = Ok st' \<and>
    mac_of x (s @ pad_zero (a @ b)) st'"
proof -
  let ?t = "cbc_mac (E x) s" and ?f = "E x"
  obtain t2 r2 where r2: "absorb ?f t1 (r1 @ b) = (t2, r2)" by fastforce
  have ab: "absorb ?f ?t (a @ b) = (t2, r2)" using absorb_append [of ?f ?t a b] r1 r2 by simp
  obtain st2 where st2: "cf_cbcmac_stream_update st1 b = Ok st2" "mac_at x t2 r2 st2"
    using update_absorb [OF st1, of b] r2 by auto
  obtain st3 where st3: "cf_cbcmac_stream_finish_block_zero st2 = Ok st3"
    "mac_at x (fst (absorb ?f t2 (pad_zero r2))) [] st3"
    using finish_absorb [OF st2(2)] by auto
  have len: "length r2 = length (a @ b) mod 16" using absorb_rest [of ?f ?t "a @ b"] ab by simp
  define z where "z = replicate ((16 - length (a @ b) mod 16) mod 16) (0 :: u8)"
  have "pad_zero (a @ b) = (a @ b) @ z" "pad_zero r2 = r2 @ z"
    using len by (simp_all add: pad_zero_def z_def)
  then have "absorb ?f ?t (pad_zero (a @ b)) = absorb ?f t2 (pad_zero r2)"
    using absorb_append [of ?f ?t "a @ b" z] ab by simp
  moreover have "length (s @ pad_zero (a @ b)) mod 16 = 0"
    using s pad_zero_length [of "a @ b"] by (simp add: mod_add_eq [symmetric] del: pad_zero_length)
  ultimately show ?thesis
    using st2 st3 s by (simp add: zero_pad_def mac_of_def cbc_mac_append)
qed

lemma mac_of_padded:
  assumes "mac_of x s st"
  shows "\<exists>st'. bindR (cf_cbcmac_stream_update st b) zero_pad = Ok st' \<and>
    mac_of x (s @ pad_zero b) st'"
  using pad_after [of s x "[]" "cbc_mac (E x) s" "[]" st b] assms by (simp add: mac_of_def)

lemma mac_of_padded2:
  assumes "mac_of x s st"
  shows "\<exists>st'. bindR (cf_cbcmac_stream_update st a) (\<lambda>st. bindR (cf_cbcmac_stream_update st b) zero_pad) =
      Ok st' \<and> mac_of x (s @ pad_zero (a @ b)) st'"
proof -
  obtain t1 r1 where r1: "absorb (E x) (cbc_mac (E x) s) a = (t1, r1)" by fastforce
  obtain st1 where st1: "cf_cbcmac_stream_update st a = Ok st1" "mac_at x t1 r1 st1"
    using update_absorb [of x "cbc_mac (E x) s" "[]" st a] assms r1 by (auto simp: mac_of_def)
  then show ?thesis using pad_after [of s x a t1 r1 st1 b] r1 assms by (simp add: mac_of_def)
qed

text \<open>The MAC of a message does not depend on how it is cut into updates.\<close>
lemma mac_stream_one:
  assumes "ok x"
  shows "bindR (bindR (cf_cbcmac_stream_update (cf_cbcmac_stream_init p x) (a @ b))
      cf_cbcmac_stream_finish_block_zero) cf_cbcmac_stream_nopad_final =
    Ok (cbc_mac (E x) (pad_zero (a @ b)))"
proof -
  obtain st where "bindR (cf_cbcmac_stream_update (cf_cbcmac_stream_init p x) (a @ b)) zero_pad = Ok st"
    "mac_of x ([] @ pad_zero (a @ b)) st"
    using mac_of_padded [OF mac_of_init [OF assms]] by blast
  then show ?thesis
    using final_absorb by (auto simp: mac_of_def bindR_eq_Ok zero_pad_def)
qed

lemma mac_stream_two:
  assumes "ok x"
  shows "bindR (cf_cbcmac_stream_update (cf_cbcmac_stream_init p x) a) (\<lambda>cm.
      bindR (bindR (cf_cbcmac_stream_update cm b) cf_cbcmac_stream_finish_block_zero)
        cf_cbcmac_stream_nopad_final) =
    Ok (cbc_mac (E x) (pad_zero (a @ b)))"
proof -
  obtain st where "bindR (cf_cbcmac_stream_update (cf_cbcmac_stream_init p x) a)
      (\<lambda>st. bindR (cf_cbcmac_stream_update st b) zero_pad) = Ok st"
    "mac_of x ([] @ pad_zero (a @ b)) st"
    using mac_of_padded2 [OF mac_of_init [OF assms]] by blast
  then show ?thesis
    using final_absorb by (auto simp: mac_of_def bindR_eq_Ok zero_pad_def)
qed

lemma mac_of_aad:
  assumes st: "mac_of x s st" and len: "length header \<le> 0xffffffff"
  shows "\<exists>st'. (if header \<noteq> [] then add_aad st header else Ok st) = Ok st' \<and>
    mac_of x (s @ pad_zero (ccm_header header)) st'"
proof -
  consider "header = []" | "header \<noteq> []" "length header < 0xff00" | "0xff00 \<le> length header"
    by force
  then show ?thesis
  proof cases
    case 1
    then show ?thesis using st by (simp add: ccm_header_def pad_zero_def)
  next
    case 2
    have "write_be (length header) 2 = Ok (be_put 2 (length header))"
      by (rule write_be_fits) (use 2 in simp)
    then show ?thesis
      using 2 len mac_of_padded2 [OF st, of "be_put 2 (length header)" header]
      by (simp add: add_aad_def ccm_header_def)
  next
    case 3
    have "write_be 0xfffe 2 = Ok (be_put 2 0xfffe)" by (rule write_be_fits) simp
    moreover have "write_be (length header) 4 = Ok (be_put 4 (length header))"
      by (rule write_be_fits) (use len in simp)
    moreover have "header \<noteq> []" using 3 by auto
    ultimately show ?thesis
      using 3 len mac_of_padded2 [OF st, of "be_put 2 0xfffe @ be_put 4 (length header)" header]
      by (simp add: add_aad_def ccm_header_def)
  qed
qed

lemma ccm_mac:
  assumes ok: "ok x" and args: "ccm_args L header nonce ntag data" and len: "n = length data"
  shows "\<exists>st. bindR (add_block0 (cf_cbcmac_stream_init p x) 16 nonce L n (length header) ntag) (\<lambda>cm.
      bindR (if header \<noteq> [] then add_aad cm header else Ok cm) (\<lambda>cm.
      bindR (cf_cbcmac_stream_update cm data) zero_pad)) = Ok st \<and>
    mac_of x (ccm_input L header nonce ntag data) st"
proof -
  let ?b0 = "ccm_flags L header ntag # nonce @ be_put L (length data)"
  have b0: "length ?b0 = 16" using args by (simp add: ccm_args_def)
  obtain s1 where s1: "cf_cbcmac_stream_update (cf_cbcmac_stream_init p x) ?b0 = Ok s1" "mac_of x ?b0 s1"
    using mac_of_block [OF mac_of_init [OF ok] b0] by auto
  obtain s2 where s2: "(if header \<noteq> [] then add_aad s1 header else Ok s1) = Ok s2"
    "mac_of x (?b0 @ pad_zero (ccm_header header)) s2"
    using mac_of_aad [OF s1(2), of header] args by (auto simp: ccm_args_def)
  obtain s3 where s3: "bindR (cf_cbcmac_stream_update s2 data) zero_pad = Ok s3"
    "mac_of x ((?b0 @ pad_zero (ccm_header header)) @ pad_zero data) s3"
    using mac_of_padded [OF s2(2)] by blast
  have slice: "mem_slice ?b0 0 16 = Ok ?b0" using b0 by (simp add: mem_slice_def)
  have "write_be n L = Ok (be_put L (length data))"
    by (simp only: len, rule write_be_fits) (use args in \<open>simp add: ccm_args_def\<close>)
  moreover have "add_block0 (cf_cbcmac_stream_init p x) 16 nonce L n (length header) ntag =
      bindR (write_be n L) (\<lambda>len. bindR (mem_slice (ccm_flags L header ntag # nonce @ len) 0 16)
        (cf_cbcmac_stream_update (cf_cbcmac_stream_init p x)))"
    by (simp only: add_block0_def ccm_flags_def Let_def length_0_conv)
  ultimately have "add_block0 (cf_cbcmac_stream_init p x) 16 nonce L n (length header) ntag = Ok s1"
    by (simp only: bindR.simps slice s1(1))
  then show ?thesis using s2 s3 by (simp add: ccm_input_def)
qed

lemma ccm_ctr:
  assumes "ok x" "ccm_args L header nonce ntag data"
  shows "\<exists>st. cf_ctr_custom_counter (cf_ctr_init p x (build_ctr_nonce L nonce)) (16 - L) L = Ok st \<and>
    ctr_at x (word_of_nat (L - 1) # nonce) L 0 st \<and> ctr_nkeymat st = 0"
proof -
  have "length (word_of_nat (L - 1) # nonce) = 16 - L" "length (word_of_nat (L - 1) # nonce) + L = 16"
    using assms by (auto simp: ccm_args_def)
  then show ?thesis
    using init_stream [OF assms(1), of "word_of_nat (L - 1) # nonce" L 0]
    by (simp only: build_ctr_nonce_eq)
qed

text \<open>\<open>cf_ccm_encrypt\<close> gives the cipher text and the tag of the reference.\<close>
lemma encrypt_reference:
  assumes ok: "ok x" and args: "ccm_args L header nonce ntag plain"
  shows "cf_ccm_encrypt p x plain L header nonce ntag =
    Ok (ccm_cipher (E x) L nonce plain, ccm_tag (E x) L header nonce ntag plain)"
proof -
  let ?pre = "word_of_nat (L - 1) # nonce"
  obtain s where s: "bindR (add_block0 (cf_cbcmac_stream_init p x) 16 nonce L (length plain) (length header) ntag) (\<lambda>cm.
      bindR (if header \<noteq> [] then add_aad cm header else Ok cm) (\<lambda>cm.
      bindR (cf_cbcmac_stream_update cm plain) zero_pad)) = Ok s"
    "mac_of x (ccm_input L header nonce ntag plain) s"
    using ccm_mac [OF ok args refl] by blast
  define m where "m = cbc_mac (E x) (ccm_input L header nonce ntag plain)"
  have m: "cf_cbcmac_stream_nopad_final s = Ok m" "length m = 16"
    using s(2) final_absorb by (auto simp: mac_of_def mac_at_def m_def)
  obtain c0 where c0: "cf_ctr_custom_counter (cf_ctr_init p x (build_ctr_nonce L nonce)) (16 - L) L = Ok c0"
    "ctr_at x ?pre L 0 c0" "ctr_nkeymat c0 = 0"
    using ccm_ctr [OF ok args] by blast
  obtain c1 where c1: "cf_ctr_cipher c0 m = Ok (c1, xor_bb m (key_stream (E x) ?pre L 0 1))"
    "ctr_at x ?pre L 1 c1" "ctr_nkeymat c1 = 0"
    using cipher_stream [OF c0(2,3), of m 1] m(2) by auto
  obtain c2 where c2: "cf_ctr_cipher c1 plain =
      Ok (c2, xor_bb plain (key_stream (E x) ?pre L 1 ((length plain + 15) div 16)))"
    using cipher_stream [OF c1(2,3) blocks_enough] by blast
  have "length (xor_bb m (key_stream (E x) ?pre L 0 1)) = 16"
    using m(2) ok args by (simp add: ccm_args_def)
  then have tag: "mem_slice (xor_bb m (key_stream (E x) ?pre L 0 1)) 0 ntag =
      Ok (ccm_tag (E x) L header nonce ntag plain)"
    using args by (simp add: mem_slice_def ccm_tag_def ccm_stream_def m_def ccm_args_def)
  have guards: "(4 \<le> ntag \<and> ntag \<le> 16 \<and> even ntag) = True" "(2 \<le> L \<and> L \<le> 8) = True"
    "(length nonce + L + 1 = 16) = True"
    using args by (auto simp: ccm_args_def)
  have mac: "bindR (add_block0 (cf_cbcmac_stream_init p x) 16 nonce L (length plain) (length header) ntag) (\<lambda>cm.
      bindR (if header \<noteq> [] then add_aad cm header else Ok cm) (\<lambda>cm.
      bindR (cf_cbcmac_stream_update cm plain) (\<lambda>cm. bindR (zero_pad cm) k))) = k s" for k :: "'x cf_cbcmac_stream \<Rightarrow> (bytes \<times> bytes) res"
  proof -
    have "bindR (bindR (add_block0 (cf_cbcmac_stream_init p x) 16 nonce L (length plain) (length header) ntag) (\<lambda>cm.
      bindR (if header \<noteq> [] then add_aad cm header else Ok cm) (\<lambda>cm.
      bindR (cf_cbcmac_stream_update cm plain) zero_pad))) k = k s"
      using s(1) by simp
    then show ?thesis by (simp only: bindR_assoc)
  qed
  show ?thesis
    unfolding cf_ccm_encrypt_def blocksz guards assertR_simps Let_def mac
    by (simp only: m c0 c1 c2 tag ccm_cipher_def ccm_stream_def bindR.simps prod.case)
qed

lemma ccm_stream_length [simp]:
  "ok x \<Longrightarrow> length nonce + L = 15 \<Longrightarrow> length (ccm_stream (E x) L nonce i n) = 16 * n"
  by (simp add: ccm_stream_def)

text \<open>The CTR part is its own inverse.\<close>
lemma ccm_cipher_length [simp]:
  "ok x \<Longrightarrow> length nonce + L = 15 \<Longrightarrow> length (ccm_cipher (E x) L nonce d) = length d"
  using blocks_enough [of d] by (simp add: ccm_cipher_def)

lemma ccm_cipher_involution [simp]:
  "ok x \<Longrightarrow> length nonce + L = 15 \<Longrightarrow> ccm_cipher (E x) L nonce (ccm_cipher (E x) L nonce d) = d"
  using blocks_enough [of d] ccm_cipher_length [of x nonce L d]
  by (simp add: ccm_cipher_def xor_bb_cancel)

text \<open>The tag check of \<open>cf_ccm_decrypt\<close> compares with the tag of the reference.\<close>
lemma tag_check:
  assumes "length m = 16" "length mat = 16" "length tag \<le> 16"
  shows "mem_eq m (xor_bb tag mat) (length tag) \<longleftrightarrow> tag = take (length tag) (xor_bb m mat)"
proof -
  let ?n = "length tag"
  have "mem_eq m (xor_bb tag mat) ?n \<longleftrightarrow> take ?n m = xor_bb tag mat"
    using assms by (subst mem_eq_take) simp_all
  also have "\<dots> \<longleftrightarrow> tag = take ?n (xor_bb m mat)"
  proof
    assume "take ?n m = xor_bb tag mat"
    then have "xor_bb (take ?n m) mat = tag" using assms by (simp add: xor_bb_cancel)
    moreover have "xor_bb (take ?n m) mat = take ?n (xor_bb m mat)"
      using assms by (intro nth_equalityI) auto
    ultimately show "tag = take ?n (xor_bb m mat)" by simp
  next
    assume t: "tag = take ?n (xor_bb m mat)"
    have "take ?n m = xor_bb (take ?n (xor_bb m mat)) mat"
      using assms by (intro nth_equalityI) (auto simp: xor.assoc)
    then show "take ?n m = xor_bb tag mat" using t by simp
  qed
  finally show ?thesis .
qed

text \<open>\<open>cf_ccm_decrypt\<close> gives the plain text of the reference if the tag is right, and otherwise
  the error and a cleared buffer.\<close>
lemma decrypt_reference:
  assumes ok: "ok x" and args: "ccm_args L header nonce (length tag) cipher"
  shows "cf_ccm_decrypt p x cipher L header nonce tag =
    (let plain = ccm_cipher (E x) L nonce cipher in
     Ok (if tag = ccm_tag (E x) L header nonce (length tag) plain then (0, plain)
         else (1, replicate (length cipher) 0)))"
proof -
  let ?pre = "word_of_nat (L - 1) # nonce" and ?n = "length tag"
  define plain where "plain = ccm_cipher (E x) L nonce cipher"
  have nonce: "length nonce + L = 15" and tag: "?n \<le> 16" using args by (auto simp: ccm_args_def)
  have lp: "length plain = length cipher" using ok nonce by (simp add: plain_def)
  have args': "ccm_args L header nonce ?n plain" using args lp by (simp add: ccm_args_def)
  obtain c0 where c0: "cf_ctr_custom_counter (cf_ctr_init p x (build_ctr_nonce L nonce)) (16 - L) L = Ok c0"
    "ctr_at x ?pre L 0 c0" "ctr_nkeymat c0 = 0"
    using ccm_ctr [OF ok args] by blast
  have one: "(?n + 15) div 16 = 1" using args by (simp add: ccm_args_def div_nat_eqI)
  obtain c1 where c1: "cf_ctr_cipher c0 tag = Ok (c1, xor_bb tag (key_stream (E x) ?pre L 0 1))"
    "ctr_at x ?pre L 1 c1"
    using cipher_stream [OF c0(2,3), of tag 1] tag unfolding one by auto
  obtain c2 where c2: "cf_ctr_cipher (cf_ctr_discard_block c1) cipher = Ok (c2, plain)"
    using cipher_stream [OF discard_boundary(1) [OF c1(2)] discard_boundary(2) blocks_enough]
    unfolding plain_def ccm_cipher_def ccm_stream_def by blast
  obtain s where s: "bindR (add_block0 (cf_cbcmac_stream_init p x) 16 nonce L (length cipher) (length header) ?n) (\<lambda>cm.
      bindR (if header \<noteq> [] then add_aad cm header else Ok cm) (\<lambda>cm.
      bindR (cf_cbcmac_stream_update cm plain) zero_pad)) = Ok s"
    "mac_of x (ccm_input L header nonce ?n plain) s"
    using ccm_mac [OF ok args' lp [symmetric]] by blast
  define m where "m = cbc_mac (E x) (ccm_input L header nonce ?n plain)"
  have m: "cf_cbcmac_stream_nopad_final s = Ok m" "length m = 16"
    using s(2) final_absorb by (auto simp: mac_of_def mac_at_def m_def)
  have mac: "bindR (add_block0 (cf_cbcmac_stream_init p x) 16 nonce L (length cipher) (length header) ?n) (\<lambda>cm.
      bindR (if header \<noteq> [] then add_aad cm header else Ok cm) (\<lambda>cm.
      bindR (cf_cbcmac_stream_update cm plain) (\<lambda>cm. bindR (zero_pad cm) k))) = k s"
    for k :: "'x cf_cbcmac_stream \<Rightarrow> (nat \<times> bytes) res"
  proof -
    have "bindR (bindR (add_block0 (cf_cbcmac_stream_init p x) 16 nonce L (length cipher) (length header) ?n) (\<lambda>cm.
      bindR (if header \<noteq> [] then add_aad cm header else Ok cm) (\<lambda>cm.
      bindR (cf_cbcmac_stream_update cm plain) zero_pad))) k = k s"
      using s(1) by simp
    then show ?thesis by (simp only: bindR_assoc)
  qed
  have guards: "(4 \<le> ?n \<and> ?n \<le> 16 \<and> even ?n) = True" "(2 \<le> L \<and> L \<le> 8) = True"
    "(length nonce + L + 1 = 16) = True"
    using args by (auto simp: ccm_args_def)
  have "length (key_stream (E x) ?pre L 0 1) = 16" using ok nonce by simp
  then have check: "mem_eq m (xor_bb tag (key_stream (E x) ?pre L 0 1)) ?n \<longleftrightarrow>
      tag = ccm_tag (E x) L header nonce ?n plain"
    using tag_check [OF m(2) _ tag] by (simp only: ccm_tag_def ccm_stream_def m_def)
  show ?thesis
    unfolding cf_ccm_decrypt_def blocksz guards assertR_simps Let_def c0 c1 c2 bindR.simps prod.case mac m check
      plain_def [symmetric]
    using lp by (simp add: mem_clean_def)
qed

text \<open>Decryption of what was encrypted gives the message back.\<close>
lemma decrypt_encrypt:
  assumes ok: "ok x" and args: "ccm_args L header nonce ntag plain"
  shows "bindR (cf_ccm_encrypt p x plain L header nonce ntag)
    (\<lambda>(cipher, tag). cf_ccm_decrypt p x cipher L header nonce tag) = Ok (0, plain)"
proof -
  let ?c = "ccm_cipher (E x) L nonce plain" and ?t = "ccm_tag (E x) L header nonce ntag plain"
  have nonce: "length nonce + L = 15" and n: "ntag \<le> 16" using args by (auto simp: ccm_args_def)
  have t: "length ?t = ntag"
    using ok nonce n by (simp add: ccm_tag_def cbc_mac_def)
  have "ccm_args L header nonce (length ?t) ?c"
    using args ok nonce t by (simp add: ccm_args_def)
  from decrypt_reference [OF ok this] show ?thesis
    using ok nonce by (simp add: encrypt_reference [OF ok args] t)
qed

text \<open>Decryption accepts exactly the encryption of the message it returns.\<close>
lemma decrypt_accepts:
  assumes ok: "ok x" and args: "ccm_args L header nonce (length tag) cipher"
  shows "cf_ccm_decrypt p x cipher L header nonce tag = Ok (0, plain) \<longleftrightarrow>
    cf_ccm_encrypt p x plain L header nonce (length tag) = Ok (cipher, tag)"
proof
  have nonce: "length nonce + L = 15" using args by (auto simp: ccm_args_def)
  assume "cf_ccm_decrypt p x cipher L header nonce tag = Ok (0, plain)"
  then have plain: "plain = ccm_cipher (E x) L nonce cipher"
    and tag: "tag = ccm_tag (E x) L header nonce (length tag) plain"
    by (auto simp: decrypt_reference [OF ok args] Let_def split: if_splits)
  then have "ccm_args L header nonce (length tag) plain"
    using args ok nonce by (simp add: ccm_args_def)
  from encrypt_reference [OF ok this]
  show "cf_ccm_encrypt p x plain L header nonce (length tag) = Ok (cipher, tag)"
    using plain tag ok nonce by simp
next
  have nonce: "length nonce + L = 15" using args by (auto simp: ccm_args_def)
  assume e: "cf_ccm_encrypt p x plain L header nonce (length tag) = Ok (cipher, tag)"
  have "length plain < 256 ^ L"
  proof (rule ccontr)
    assume "\<not> length plain < 256 ^ L"
    then have "write_be (length plain) L = Fault AssertFailed" by (simp add: write_be_too_long)
    then show False using e by (simp add: cf_ccm_encrypt_def add_block0_def assertR_def Let_def split: if_splits)
  qed
  then have "ccm_args L header nonce (length tag) plain" using args by (simp add: ccm_args_def)
  from decrypt_encrypt [OF ok this] e
  show "cf_ccm_decrypt p x cipher L header nonce tag = Ok (0, plain)" by simp
qed

end

end
