(* ===== verification/Encryption.thy ===== *)
theory Encryption
  imports Ccm
begin

text \<open>
  The sealing of messages in \<open>lock/connection/encryption.c\<close>: AES-CCM with a counter of 3 bytes, a tag of
  8 bytes and a nonce of 12 bytes that is incremented as a big-endian number.  Sizes are kept at
  their 32 bits, so the subtraction of \<open>decryptDataSize\<close> wraps as in C; a return of \<open>-1\<close> is the
  word of all ones.  An array of length 0 on the stack is taken as empty.
\<close>

abbreviation (input) kNonceLength :: nat where "kNonceLength \<equiv> 12"
abbreviation (input) kCcmInternalCounterLength :: nat where "kCcmInternalCounterLength \<equiv> 3"
abbreviation (input) kCcmTagLength :: nat where "kCcmTagLength \<equiv> 8"

section \<open>The code\<close>

text \<open>The loop of \<open>incrementNonce\<close> at index \<open>i\<close>.\<close>
fun incrementNonce_loop :: "bytes \<Rightarrow> nat \<Rightarrow> bytes" where
  "incrementNonce_loop nonce 0 =
     (if nonce ! 0 = 255 then nonce[0 := 0] else nonce[0 := nonce ! 0 + 1])"
| "incrementNonce_loop nonce (Suc i) =
     (if nonce ! Suc i = 255 then incrementNonce_loop (nonce[Suc i := 0]) i
      else nonce[Suc i := nonce ! Suc i + 1])"

definition incrementNonce :: "bytes \<Rightarrow> bytes" where
  "incrementNonce nonce = incrementNonce_loop nonce (kNonceLength - 1)"

definition encryptDataSize :: "u32 \<Rightarrow> u32" where
  "encryptDataSize dataLen = dataLen + 8"

definition encryptData ::
  "bytes \<Rightarrow> u32 \<Rightarrow> bytes \<Rightarrow> u32 \<Rightarrow> bytes \<Rightarrow> u32 \<Rightarrow> bytes \<Rightarrow> u32 \<Rightarrow> (i32 \<times> bytes) res"
where
  "encryptData dataIn dataInLen dataOut dataOutLen key keyLen nonce nonceLen =
     (if dataInLen > 4096 then Ok (- 1, dataOut)
      else if dataOutLen < encryptDataSize dataInLen then Ok (- 1, dataOut)
      else if keyLen \<noteq> 16 \<and> keyLen \<noteq> 24 \<and> keyLen \<noteq> 32 then Ok (- 1, dataOut)
      else if nonceLen \<noteq> 12 then Ok (- 1, dataOut)
      else bindR (cf_aes_init key (unat keyLen)) (\<lambda>aes_ctx.
        bindR (mem_slice dataIn 0 (unat dataInLen)) (\<lambda>plain.
        bindR (mem_slice nonce 0 kNonceLength) (\<lambda>nonce.
        bindR (cf_ccm_encrypt cf_aes aes_ctx plain kCcmInternalCounterLength [] nonce kCcmTagLength)
          (\<lambda>(ciphertext, tag).
        bindR (mem_write dataOut 0 ciphertext) (\<lambda>dataOut.
        bindR (mem_write dataOut (unat dataInLen) tag) (\<lambda>dataOut.
          Ok (encryptDataSize dataInLen, dataOut))))))))"

definition decryptDataSize :: "u32 \<Rightarrow> u32" where
  "decryptDataSize dataLen = dataLen - 8"

definition decryptData ::
  "bytes \<Rightarrow> u32 \<Rightarrow> bytes \<Rightarrow> u32 \<Rightarrow> bytes \<Rightarrow> u32 \<Rightarrow> bytes \<Rightarrow> u32 \<Rightarrow> (i32 \<times> bytes) res"
where
  "decryptData dataIn dataInLen dataOut dataOutLen key keyLen nonce nonceLen =
     (if dataInLen > 4096 then Ok (- 1, dataOut)
      else if dataOutLen < decryptDataSize dataInLen then Ok (- 1, dataOut)
      else if keyLen \<noteq> 16 \<and> keyLen \<noteq> 24 \<and> keyLen \<noteq> 32 then Ok (- 1, dataOut)
      else if nonceLen \<noteq> 12 then Ok (- 1, dataOut)
      else bindR (cf_aes_init key (unat keyLen)) (\<lambda>aes_ctx.
        let ciphertextLen = unat (decryptDataSize dataInLen) in
        bindR (mem_slice dataIn 0 ciphertextLen) (\<lambda>ciphertext.
        bindR (mem_slice dataIn ciphertextLen kCcmTagLength) (\<lambda>tag.
        bindR (mem_slice nonce 0 kNonceLength) (\<lambda>nonce.
        bindR (cf_ccm_decrypt cf_aes aes_ctx ciphertext kCcmInternalCounterLength [] nonce tag)
          (\<lambda>(result, plain).
        bindR (mem_write dataOut 0 plain) (\<lambda>dataOut.
          Ok (if result \<noteq> 0 then - 1 else decryptDataSize dataInLen, dataOut))))))))"

section \<open>The reference\<close>

text \<open>A sealed message: cipher text and tag, as functions of key, nonce and message.\<close>

definition key_ctx :: "bytes \<Rightarrow> cf_aes_context" where
  "key_ctx key = (case cf_aes_init key (length key) of Ok ctx \<Rightarrow> ctx | Fault f \<Rightarrow> \<lparr>rounds = 0, ks = []\<rparr>)"

definition seal_cipher :: "bytes \<Rightarrow> bytes \<Rightarrow> bytes \<Rightarrow> bytes" where
  "seal_cipher key nonce msg = ccm_cipher (aes_block (key_ctx key)) 3 nonce msg"

definition seal_tag :: "bytes \<Rightarrow> bytes \<Rightarrow> bytes \<Rightarrow> bytes" where
  "seal_tag key nonce msg = ccm_tag (aes_block (key_ctx key)) 3 [] nonce 8 msg"

definition seal :: "bytes \<Rightarrow> bytes \<Rightarrow> bytes \<Rightarrow> bytes" where
  "seal key nonce msg = seal_cipher key nonce msg @ seal_tag key nonce msg"

text \<open>Opening a sealed message: the message, or nothing if the tag is wrong.\<close>
definition unseal :: "bytes \<Rightarrow> bytes \<Rightarrow> bytes \<Rightarrow> bytes option" where
  "unseal key nonce c =
     (let n = length c - 8; msg = seal_cipher key nonce (take n c) in
      if 8 \<le> length c \<and> drop n c = seal_tag key nonce msg then Some msg else None)"

definition good_key :: "bytes \<Rightarrow> bool" where
  "good_key key \<longleftrightarrow> length key = 16 \<or> length key = 24 \<or> length key = 32"

section \<open>Nonces\<close>

lemma u8_wrap: "(b :: u8) + 1 = 0 \<longleftrightarrow> b = 255"
proof
  assume "b + 1 = 0"
  then have "b = - 1" by (simp add: eq_neg_iff_add_eq_0)
  then show "b = 255" by simp
qed simp

text \<open>The loop of the code does what \<open>incr_be\<close> of cifra does.\<close>
lemma incrementNonce_loop_incr:
  "i < length v \<Longrightarrow> incrementNonce_loop v i = incr_be_loop v i"
proof (induction i arbitrary: v)
  case 0
  have "v ! 0 = 255 \<Longrightarrow> v ! 0 + 1 = 0" by (simp only: u8_wrap)
  then show ?case by (cases "v ! 0 = 255") (simp_all only: incrementNonce_loop.simps incr_be_loop.simps if_True if_False refl)
next
  case (Suc i)
  show ?case
  proof (cases "v ! Suc i = 255")
    case True
    then have w: "v ! Suc i + 1 = 0" by (simp only: u8_wrap)
    have "incrementNonce_loop v (Suc i) = incrementNonce_loop (v[Suc i := 0]) i"
      by (simp only: incrementNonce_loop.simps True if_True refl)
    moreover have "incr_be_loop v (Suc i) = incr_be_loop (v[Suc i := 0]) i"
      unfolding incr_be_loop.simps w Let_def using Suc.prems by simp
    ultimately show ?thesis using Suc by simp
  next
    case False
    then have "v ! Suc i + 1 \<noteq> 0" by (simp only: u8_wrap not_False_eq_True)
    then show ?thesis using False Suc.prems by (simp add: Let_def)
  qed
qed

lemma incrementNonce_incr: "length v = 12 \<Longrightarrow> incrementNonce v = incr_be v 12"
  by (simp add: incrementNonce_def incr_be_def incrementNonce_loop_incr)

lemma incrementNonce_length [simp]: "length v = 12 \<Longrightarrow> length (incrementNonce v) = 12"
  by (simp add: incrementNonce_incr)

lemma be_get_incrementNonce:
  "length v = 12 \<Longrightarrow> be_get (incrementNonce v) = (be_get v + 1) mod 2 ^ 96"
  using be_get_incr_be [of v 12] by (simp add: incrementNonce_incr)

lemma incrementNonce_pow_length [simp]:
  "length v = 12 \<Longrightarrow> length ((incrementNonce ^^ n) v) = 12"
  by (induction n) auto

lemma be_get_incrementNonce_pow:
  assumes "length v = 12"
  shows "be_get ((incrementNonce ^^ n) v) = (be_get v + n) mod 2 ^ 96"
proof (induction n)
  case 0
  then show ?case using be_get_bound [of v] assms by simp
next
  case (Suc n)
  then show ?case using assms by (simp add: be_get_incrementNonce mod_Suc_eq)
qed

section \<open>The code computes the reference\<close>

lemma key_ctx_ok:
  assumes "good_key key"
  shows "cf_aes_init key (length key) = Ok (key_ctx key)" "aes_ok (key_ctx key)"
proof -
  obtain ctx where "cf_aes_init key (length key) = Ok ctx" "aes_ok ctx"
    using cf_aes_init_Ok [of "length key" key] assms by (auto simp: good_key_def aes_ok_def)
  then show "cf_aes_init key (length key) = Ok (key_ctx key)" "aes_ok (key_ctx key)"
    by (simp_all add: key_ctx_def)
qed

lemma seal_args:
  "length nonce = 12 \<Longrightarrow> length msg \<le> 4096 \<Longrightarrow> ccm_args 3 [] nonce 8 msg"
  by (simp add: ccm_args_def)

lemma seal_lengths [simp]:
  assumes "good_key key" "length nonce = 12"
  shows "length (seal_cipher key nonce msg) = length msg" "length (seal_tag key nonce msg) = 8"
    "length (seal key nonce msg) = length msg + 8"
    "seal_cipher key nonce (seal_cipher key nonce msg) = msg"
proof -
  have ok: "aes_ok (key_ctx key)" using assms key_ctx_ok by blast
  show c: "length (seal_cipher key nonce msg) = length msg"
    "seal_cipher key nonce (seal_cipher key nonce msg) = msg"
    using ok assms by (simp_all add: seal_cipher_def)
  show t: "length (seal_tag key nonce msg) = 8"
    using ok assms by (simp add: seal_tag_def ccm_tag_def cbc_mac_def)
  show "length (seal key nonce msg) = length msg + 8" using c t by (simp add: seal_def)
qed

lemma unseal_seal [simp]:
  "good_key key \<Longrightarrow> length nonce = 12 \<Longrightarrow> unseal key nonce (seal key nonce msg) = Some msg"
  by (simp add: unseal_def seal_def Let_def)

lemma unseal_Some_iff:
  assumes "good_key key" "length nonce = 12"
  shows "unseal key nonce c = Some msg \<longleftrightarrow> c = seal key nonce msg"
proof
  assume "unseal key nonce c = Some msg"
  then have "8 \<le> length c" "msg = seal_cipher key nonce (take (length c - 8) c)"
    "drop (length c - 8) c = seal_tag key nonce msg"
    by (auto simp: unseal_def Let_def split: if_splits)
  then show "c = seal key nonce msg"
    using assms append_take_drop_id [of "length c - 8" c] by (simp add: seal_def)
qed (use assms in simp)

lemma unat_le_4096: "(n :: u32) \<le> 4096 \<longleftrightarrow> unat n \<le> 4096"
  by (simp add: word_le_nat_alt)

text \<open>A call within its limits seals the message into the output block.\<close>
lemma encryptData_seals:
  assumes key: "good_key key" and nonce: "length nonce = 12"
    and len: "unat n = length msg" "length msg \<le> 4096" and msg: "take (length msg) d = msg"
    and out: "length msg + 8 \<le> unat m" "unat m \<le> length out"
  shows "encryptData d n out m key (word_of_nat (length key)) nonce 12 =
    Ok (word_of_nat (length msg + 8), seal key nonce msg @ drop (length msg + 8) out)"
proof -
  have n: "n = word_of_nat (length msg)" by (simp flip: len(1))
  have size: "encryptDataSize n = word_of_nat (length msg + 8)"
    by (simp add: encryptDataSize_def n)
  have usize: "unat (word_of_nat (length msg + 8) :: u32) = length msg + 8"
    using len(2) by (simp add: unat_of_nat take_bit_nat_eq_self del: of_nat_add)
  have guards: "\<not> n > 4096" "\<not> m < encryptDataSize n"
    using len out usize unat_le_4096 [of n]
    by (simp_all only: size not_less word_le_nat_alt)
  have k: "((word_of_nat (length key) :: u32) \<noteq> 16 \<and> (word_of_nat (length key) :: u32) \<noteq> 24 \<and>
      (word_of_nat (length key) :: u32) \<noteq> 32) = False" "unat (word_of_nat (length key) :: u32) = length key"
    using key by (auto simp: good_key_def)
  have ccm: "cf_ccm_encrypt cf_aes (key_ctx key) msg 3 [] nonce 8 =
      Ok (seal_cipher key nonce msg, seal_tag key nonce msg)"
    using aes.encrypt_reference [OF key_ctx_ok(2) [OF key] seal_args [OF nonce len(2)]]
    by (simp add: seal_cipher_def seal_tag_def)
  have w: "mem_write out 0 (seal_cipher key nonce msg) =
      Ok (seal_cipher key nonce msg @ drop (length msg) out)"
    "mem_write (seal_cipher key nonce msg @ drop (length msg) out) (unat n) (seal_tag key nonce msg) =
      Ok (seal key nonce msg @ drop (length msg + 8) out)"
    using key nonce out len by (simp_all add: mem_write_def seal_def add.commute)
  have "length msg \<le> length d" using msg by (metis length_take min.cobounded1)
  then have s: "mem_slice d 0 (unat n) = Ok msg" "mem_slice nonce 0 12 = Ok nonce"
    using len nonce msg by (simp_all add: mem_slice_def)
  show ?thesis
    unfolding encryptData_def k(1) using guards k(2)
    by (simp add: key_ctx_ok(1) [OF key] s ccm w size del: of_nat_add)
qed

text \<open>Opening: the outcome is decided by the reference.\<close>
lemma decryptData_unseals:
  assumes key: "good_key key" and nonce: "length nonce = 12"
    and len: "unat n = length c" "8 \<le> length c" "length c \<le> 4096"
    and out: "length c - 8 \<le> unat m" "unat m \<le> length out"
  shows "decryptData c n out m key (word_of_nat (length key)) nonce 12 =
    Ok (case unseal key nonce c of
          Some msg \<Rightarrow> (word_of_nat (length c - 8), msg @ drop (length c - 8) out)
        | None \<Rightarrow> (- 1, replicate (length c - 8) 0 @ drop (length c - 8) out))"
proof -
  let ?k = "length c - 8"
  have n: "n = word_of_nat (length c)" by (simp flip: len(1))
  have size: "decryptDataSize n = word_of_nat ?k"
    using len(2) by (simp add: decryptDataSize_def n of_nat_diff)
  have usize: "unat (word_of_nat ?k :: u32) = ?k"
    using len(3) by (simp add: unat_of_nat take_bit_nat_eq_self)
  have guards: "\<not> n > 4096" "\<not> m < decryptDataSize n"
    using len out usize unat_le_4096 [of n] by (simp_all only: size not_less word_le_nat_alt)
  have k: "((word_of_nat (length key) :: u32) \<noteq> 16 \<and> (word_of_nat (length key) :: u32) \<noteq> 24 \<and>
      (word_of_nat (length key) :: u32) \<noteq> 32) = False" "unat (word_of_nat (length key) :: u32) = length key"
    using key by (auto simp: good_key_def)
  let ?c = "take ?k c" and ?t = "drop ?k c"
  have t: "length ?t = 8" using len(2) by simp
  have args: "ccm_args 3 [] nonce (length ?t) ?c"
    unfolding t using nonce len(2,3) by (simp add: ccm_args_def)
  have ccm: "cf_ccm_decrypt cf_aes (key_ctx key) ?c 3 [] nonce ?t =
      Ok (case unseal key nonce c of Some msg \<Rightarrow> (0, msg) | None \<Rightarrow> (1, replicate ?k 0))"
    using aes.decrypt_reference [OF key_ctx_ok(2) [OF key] args] len(2)
    by (simp add: unseal_def seal_cipher_def seal_tag_def Let_def)
  have s: "mem_slice c 0 (unat (decryptDataSize n)) = Ok ?c"
    "mem_slice c (unat (decryptDataSize n)) 8 = Ok ?t" "mem_slice nonce 0 12 = Ok nonce"
    using len nonce usize by (simp_all add: mem_slice_def size)
  have msg: "unseal key nonce c = Some msg \<Longrightarrow> length msg = ?k" for msg
    using key nonce by (simp add: unseal_Some_iff)
  have w: "length d = ?k \<Longrightarrow> mem_write out 0 d = Ok (d @ drop ?k out)" for d
    using out by (simp add: mem_write_def)
  show ?thesis
  proof (cases "unseal key nonce c")
    case None
    have ccm': "cf_ccm_decrypt cf_aes (key_ctx key) ?c 3 [] nonce ?t = Ok (1, replicate ?k 0)"
      using ccm None by simp
    show ?thesis
      unfolding decryptData_def Let_def k(1) using guards k(2)
      by (simp add: key_ctx_ok(1) [OF key] s ccm' w None)
  next
    case (Some msg)
    have ccm': "cf_ccm_decrypt cf_aes (key_ctx key) ?c 3 [] nonce ?t = Ok (0, msg)"
      using ccm Some by simp
    show ?thesis
      unfolding decryptData_def Let_def k(1) using guards k(2)
      by (simp add: key_ctx_ok(1) [OF key] s [unfolded size] ccm' w [OF msg [OF Some]] Some size del: of_nat_diff)
  qed
qed

lemma decrypt_encrypt_data:
  assumes key: "good_key key" and nonce: "length nonce = 12" and len: "length msg \<le> 4088"
    and out: "length out = length msg + 8" "length plain = length msg"
  shows "bindR (encryptData msg (word_of_nat (length msg)) out (word_of_nat (length msg + 8)) key
      (word_of_nat (length key)) nonce 12) (\<lambda>(n, c).
    bindR (decryptData c n plain (word_of_nat (length msg)) key (word_of_nat (length key)) nonce 12)
      (\<lambda>(m, d). Ok (n, m, d))) =
    Ok (word_of_nat (length msg + 8), word_of_nat (length msg), msg)"
proof -
  have small: "k \<le> 4096 \<Longrightarrow> unat (word_of_nat k :: u32) = k" for k
    by (simp add: unat_of_nat take_bit_nat_eq_self)
  have u: "unat (word_of_nat (length msg) :: u32) = length msg"
    "unat (word_of_nat (length msg + 8) :: u32) = length msg + 8"
    using len by (rule_tac small, simp)+
  have e: "encryptData msg (word_of_nat (length msg)) out (word_of_nat (length msg + 8)) key
      (word_of_nat (length key)) nonce 12 = Ok (word_of_nat (length msg + 8), seal key nonce msg)"
    by (subst encryptData_seals [OF key nonce u(1)]) (use len out u in \<open>simp_all del: of_nat_add\<close>)
  have d: "decryptData (seal key nonce msg) (word_of_nat (length msg + 8)) plain (word_of_nat (length msg)) key
      (word_of_nat (length key)) nonce 12 = Ok (word_of_nat (length msg), msg)"
    by (subst decryptData_unseals [OF key nonce])
      (use key nonce len out u in \<open>simp_all del: of_nat_add\<close>)
  show ?thesis by (simp only: e d bindR.simps prod.case)
qed

lemma encryptData_rejects:
  assumes "dataInLen > 4096 \<or> dataOutLen < encryptDataSize dataInLen \<or>
    keyLen \<notin> {16, 24, 32} \<or> nonceLen \<noteq> 12"
  shows "encryptData dataIn dataInLen dataOut dataOutLen key keyLen nonce nonceLen = Ok (- 1, dataOut)"
  using assms by (auto simp: encryptData_def)

lemma decryptData_rejects:
  assumes "dataInLen > 4096 \<or> dataOutLen < decryptDataSize dataInLen \<or>
    keyLen \<notin> {16, 24, 32} \<or> nonceLen \<noteq> 12"
  shows "decryptData dataIn dataInLen dataOut dataOutLen key keyLen nonce nonceLen = Ok (- 1, dataOut)"
  using assms by (auto simp: decryptData_def)

end
