(* ===== verification/Connection.thy ===== *)
theory Connection
  imports Encryption
begin

text \<open>
  The table of connections in \<open>lock/connection/connection_common.c\<close>: 32 static slots, each with a
  key and two nonces.  An operation takes the table and returns it with the result; an index outside
  the table is \<open>Fault OutOfBounds\<close>, and so is an array on the stack with a negative length.
  \<open>rand s i\<close> is the \<open>i\<close>-th value of the generator of the C library after \<open>srand(s)\<close>, a parameter;
  \<open>t\<close> is the time in seconds.  \<open>*retBytes\<close> is a result of its own: \<open>None\<close> when it is left as it was.
\<close>

section \<open>The code\<close>

datatype ConnectionType = kConnectionTypeNone | kConnectionTypeAdmin | kConnectionTypeGuest

record Connection =
  active :: bool
  connnectionId :: int
  type_of_conn :: ConnectionType
  txNonce :: bytes
  rxNonce :: bytes
  conn_key :: bytes

type_synonym connections = "Connection list"

abbreviation (input) kConnectionKeyLength :: nat where "kConnectionKeyLength \<equiv> 16"
abbreviation (input) kMaxConnections :: nat where "kMaxConnections \<equiv> 32"
abbreviation (input) ERROR_CONNECTION_ID :: int where "ERROR_CONNECTION_ID \<equiv> - 1"

definition connections_init :: connections where
  "connections_init = replicate kMaxConnections
     \<lparr>active = False, connnectionId = 0, type_of_conn = kConnectionTypeNone,
      txNonce = replicate 12 0, rxNonce = replicate 12 0, conn_key = replicate 16 0\<rparr>"

definition generateRandomNonce :: "(nat \<Rightarrow> nat \<Rightarrow> nat) \<Rightarrow> nat \<Rightarrow> nat \<Rightarrow> bytes" where
  "generateRandomNonce rand t nonceLength = map (\<lambda>i. word_of_nat (rand t i mod 256)) [0..<nonceLength]"

text \<open>The loop of \<open>beginConnection\<close> from slot \<open>i\<close> on, with \<open>n\<close> slots left.\<close>
fun beginConnection_loop ::
  "(nat \<Rightarrow> nat \<Rightarrow> nat) \<Rightarrow> nat \<Rightarrow> ConnectionType \<Rightarrow> bytes \<Rightarrow> int \<Rightarrow> nat \<Rightarrow> nat \<Rightarrow> connections \<Rightarrow>
   (int \<times> connections) res"
where
  "beginConnection_loop rand t type jKey keyLen i 0 conns = Ok (ERROR_CONNECTION_ID, conns)"
| "beginConnection_loop rand t type jKey keyLen i (Suc n) conns =
     (if \<not> active (conns ! i) then
        let c = (conns ! i)\<lparr>active := True, connnectionId := int i, type_of_conn := type\<rparr> in
        if keyLen \<noteq> int kConnectionKeyLength then Ok (ERROR_CONNECTION_ID, conns[i := c])
        else bindR (mem_slice jKey 0 (nat keyLen)) (\<lambda>key.
          Ok (int i, conns[i := c\<lparr>conn_key := key, rxNonce := generateRandomNonce rand t kNonceLength\<rparr>]))
      else beginConnection_loop rand t type jKey keyLen (i + 1) n conns)"

definition beginConnection ::
  "(nat \<Rightarrow> nat \<Rightarrow> nat) \<Rightarrow> nat \<Rightarrow> ConnectionType \<Rightarrow> bytes \<Rightarrow> int \<Rightarrow> connections \<Rightarrow> (int \<times> connections) res"
where
  "beginConnection rand t type jKey keyLen conns =
     beginConnection_loop rand t type jKey keyLen 0 kMaxConnections conns"

text \<open>\<open>connections_->rxNonce\<close> is the nonce of slot 0.\<close>
definition endConnection :: "int \<Rightarrow> connections \<Rightarrow> connections res" where
  "endConnection connectionId conns =
     (if connectionId > int kMaxConnections \<or> connectionId < 0 then Ok conns
      else let k = nat connectionId in
        if length conns \<le> k then Fault OutOfBounds
        else let conns = conns[k := (conns ! k)\<lparr>active := False, connnectionId := 0,
                                   type_of_conn := kConnectionTypeNone\<rparr>]
          in Ok (conns[0 := (conns ! 0)\<lparr>rxNonce := replicate kNonceLength 0\<rparr>]))"

text \<open>\<open>getConnection\<close> gives the index the pointer stands for; \<open>conn_at\<close> follows the pointer.\<close>
definition getConnection :: "int \<Rightarrow> nat option" where
  "getConnection connectionId =
     (if connectionId > int kMaxConnections \<or> connectionId < 0 then None else Some (nat connectionId))"

definition conn_at :: "connections \<Rightarrow> nat \<Rightarrow> Connection res" where
  "conn_at conns k = (if k < length conns then Ok (conns ! k) else Fault OutOfBounds)"

definition encryptNative ::
  "int \<Rightarrow> bytes \<Rightarrow> i32 \<Rightarrow> connections \<Rightarrow> (i32 \<times> bytes option \<times> connections) res"
where
  "encryptNative connectionId plaintext plaintextLen conns =
     (if connectionId > int kMaxConnections \<or> connectionId < 0 then Ok (0, None, conns)
      else let k = nat connectionId in bindR (conn_at conns k) (\<lambda>c.
        let messageLen = encryptDataSize plaintextLen in
        if sint messageLen < 0 then Fault OutOfBounds
        else bindR (encryptData plaintext plaintextLen (replicate (unat messageLen) 0) messageLen
                     (conn_key c) 16 (txNonce c) 12) (\<lambda>(retvalLen, messageBytes).
          let conns = conns[k := c\<lparr>txNonce := incrementNonce (txNonce c)\<rparr>] in
          if sint retvalLen \<le> 0 \<or> retvalLen \<noteq> messageLen then Ok (0, None, conns)
          else bindR (mem_slice messageBytes 0 (unat retvalLen)) (\<lambda>d.
            Ok (retvalLen, Some d, conns)))))"

definition decryptNative ::
  "int \<Rightarrow> bytes \<Rightarrow> i32 \<Rightarrow> connections \<Rightarrow> (i32 \<times> bytes option \<times> connections) res"
where
  "decryptNative connectionId messageBytes messageLen conns =
     (if connectionId > int kMaxConnections \<or> connectionId < 0 then Ok (0, None, conns)
      else let k = nat connectionId in bindR (conn_at conns k) (\<lambda>c.
        let plaintextLen = decryptDataSize messageLen in
        if sint plaintextLen < 0 then Fault OutOfBounds
        else bindR (decryptData messageBytes messageLen (replicate (unat plaintextLen) 0) plaintextLen
                     (conn_key c) 16 (rxNonce c) 12) (\<lambda>(retvalLen, plaintext).
          if sint retvalLen < 0 then Ok (0, None, conns)
          else
            let conns = conns[k := c\<lparr>rxNonce := incrementNonce (rxNonce c)\<rparr>] in
            if sint retvalLen \<le> 0 \<or> retvalLen \<noteq> plaintextLen then Ok (0, None, conns)
            else bindR (mem_slice plaintext 0 (unat retvalLen)) (\<lambda>d.
              Ok (retvalLen, Some d, conns)))))"

section \<open>The table invariant\<close>

definition conn_ok :: "Connection \<Rightarrow> bool" where
  "conn_ok c \<longleftrightarrow> length (txNonce c) = 12 \<and> length (rxNonce c) = 12 \<and> length (conn_key c) = 16"

definition conns_ok :: "connections \<Rightarrow> bool" where
  "conns_ok conns \<longleftrightarrow> length conns = 32 \<and> (\<forall>c \<in> set conns. conn_ok c)"

lemma conn_ok_update [simp]:
  "conn_ok c \<Longrightarrow> conn_ok (c\<lparr>active := a, connnectionId := i, type_of_conn := ty\<rparr>)"
  "conn_ok c \<Longrightarrow> length n = 12 \<Longrightarrow> conn_ok (c\<lparr>txNonce := n\<rparr>)"
  "conn_ok c \<Longrightarrow> length n = 12 \<Longrightarrow> conn_ok (c\<lparr>rxNonce := n\<rparr>)"
  "conn_ok c \<Longrightarrow> length k = 16 \<Longrightarrow> conn_ok (c\<lparr>conn_key := k\<rparr>)"
  by (simp_all add: conn_ok_def)

lemma conns_ok_nth [simp]: "conns_ok conns \<Longrightarrow> k < 32 \<Longrightarrow> conn_ok (conns ! k)"
  by (simp add: conns_ok_def)

lemma conns_ok_length [simp]: "conns_ok conns \<Longrightarrow> length conns = 32"
  by (simp add: conns_ok_def)

lemma conns_ok_update [simp]: "conns_ok conns \<Longrightarrow> conn_ok c \<Longrightarrow> conns_ok (conns[k := c])"
  by (auto simp: conns_ok_def dest: subsetD [OF set_update_subset_insert])

lemma conns_ok_init: "conns_ok connections_init"
  by (simp add: conns_ok_def connections_init_def conn_ok_def)

lemma generateRandomNonce_length [simp]: "length (generateRandomNonce rand t n) = n"
  by (simp add: generateRandomNonce_def)

text \<open>What \<open>beginConnection\<close> does, in terms of the first free slot.\<close>
definition first_free :: "connections \<Rightarrow> nat option" where
  "first_free conns = find (\<lambda>i. \<not> active (conns ! i)) [0..<kMaxConnections]"

definition opened ::
  "(nat \<Rightarrow> nat \<Rightarrow> nat) \<Rightarrow> nat \<Rightarrow> ConnectionType \<Rightarrow> bytes \<Rightarrow> nat \<Rightarrow> Connection \<Rightarrow> Connection" where
  "opened rand t type key i c = c\<lparr>active := True, connnectionId := int i, type_of_conn := type,
     conn_key := key, rxNonce := generateRandomNonce rand t kNonceLength\<rparr>"

lemma beginConnection_loop_eq:
  "beginConnection_loop rand t type jKey keyLen i n conns =
    (case find (\<lambda>i. \<not> active (conns ! i)) [i..<i + n] of
       None \<Rightarrow> Ok (- 1, conns)
     | Some k \<Rightarrow>
         if keyLen \<noteq> 16 then
           Ok (- 1, conns[k := (conns ! k)\<lparr>active := True, connnectionId := int k, type_of_conn := type\<rparr>])
         else bindR (mem_slice jKey 0 16) (\<lambda>key.
           Ok (int k, conns[k := opened rand t type key k (conns ! k)])))"
proof (induction n arbitrary: i)
  case (Suc n)
  have "[i..<i + Suc n] = i # [Suc i..<Suc i + n]" by (simp add: upt_conv_Cons)
  then show ?case using Suc [of "Suc i"] by (simp only: find.simps) (simp add: Let_def opened_def)
qed simp

lemma beginConnection_eq:
  "beginConnection rand t type jKey keyLen conns =
    (case first_free conns of
       None \<Rightarrow> Ok (- 1, conns)
     | Some k \<Rightarrow>
         if keyLen \<noteq> 16 then
           Ok (- 1, conns[k := (conns ! k)\<lparr>active := True, connnectionId := int k, type_of_conn := type\<rparr>])
         else bindR (mem_slice jKey 0 16) (\<lambda>key.
           Ok (int k, conns[k := opened rand t type key k (conns ! k)])))"
  unfolding beginConnection_def beginConnection_loop_eq first_free_def by simp

lemma first_free_Some:
  "first_free conns = Some k \<Longrightarrow> k < 32 \<and> \<not> active (conns ! k) \<and> (\<forall>j < k. active (conns ! j))"
  unfolding first_free_def by (auto simp: find_Some_iff)

lemma first_free_None: "first_free conns = None \<longleftrightarrow> (\<forall>k < 32. active (conns ! k))"
  unfolding first_free_def by (auto simp: find_None_iff)

lemma opened_ok: "conn_ok c \<Longrightarrow> length key = 16 \<Longrightarrow> conn_ok (opened rand t type key i c)"
  by (simp add: conn_ok_def opened_def)

lemma begin_ok:
  assumes "conns_ok conns" "beginConnection rand t type jKey keyLen conns = Ok (i, conns')"
  shows "conns_ok conns'"
proof (cases "first_free conns")
  case None
  then show ?thesis using assms by (simp add: beginConnection_eq)
next
  case (Some k)
  have k: "conn_ok (conns ! k)" using assms(1) first_free_Some [OF Some] by simp
  show ?thesis
    using assms k mem_slice_Ok_length [of jKey 0 16] opened_ok [OF k]
    by (auto simp: beginConnection_eq Some bindR_eq_Ok split: if_splits)
qed

lemma end_ok:
  assumes ok: "conns_ok conns" and e: "endConnection i conns = Ok conns'"
  shows "conns_ok conns'"
proof (cases "i > 32 \<or> i < 0")
  case True
  then show ?thesis using assms by (auto simp: endConnection_def)
next
  case False
  let ?k = "nat i"
  define c where "c = (conns ! ?k)\<lparr>active := False, connnectionId := 0, type_of_conn := kConnectionTypeNone\<rparr>"
  have k: "?k < 32" and e': "conns' = (conns[?k := c])[0 := ((conns[?k := c]) ! 0)\<lparr>rxNonce := replicate 12 0\<rparr>]"
    using False e ok by (auto simp: endConnection_def c_def Let_def split: if_splits)
  have "conn_ok c" using ok k by (simp add: c_def)
  then have c: "conns_ok (conns[?k := c])" using ok by simp
  then have "conn_ok ((conns[?k := c]) ! 0)" by (rule conns_ok_nth) simp
  then show ?thesis unfolding e' by (intro conns_ok_update [OF c] conn_ok_update) simp_all
qed

section \<open>Sealing through the table\<close>

text \<open>The result of an operation on slot \<open>k\<close> only.\<close>
definition only_slot :: "nat \<Rightarrow> connections \<Rightarrow> connections \<Rightarrow> bool" where
  "only_slot k conns conns' \<longleftrightarrow> length conns' = length conns \<and> (\<forall>j. j \<noteq> k \<longrightarrow> conns' ! j = conns ! j)"

lemma only_slot_update [simp]: "only_slot k conns (conns[k := c])"
  by (simp add: only_slot_def)

text \<open>Sending: the sealed message, and the transmit nonce goes up by one.\<close>
lemma encryptNative_seals_front:
  assumes ok: "conns_ok conns" and k: "k < 32" and len: "length msg \<le> 4096"
    and msg: "take (length msg) d = msg"
  shows "encryptNative (int k) d (word_of_nat (length msg)) conns =
    Ok (word_of_nat (length msg + 8), Some (seal (conn_key (conns ! k)) (txNonce (conns ! k)) msg),
        conns[k := (conns ! k)\<lparr>txNonce := incrementNonce (txNonce (conns ! k))\<rparr>])"
proof -
  let ?c = "conns ! k" and ?n = "word_of_nat (length msg) :: u32"
  let ?m = "word_of_nat (length msg + 8) :: u32"
  have c: "length (conn_key ?c) = 16" "length (txNonce ?c) = 12" using ok k conns_ok_nth by (auto simp: conn_ok_def)
  then have key: "good_key (conn_key ?c)" by (simp add: good_key_def)
  have size: "encryptDataSize ?n = ?m" by (simp add: encryptDataSize_def)
  have m: "sint ?m = int (length msg + 8)" "unat ?m = length msg + 8"
    using small_int_word [of "length msg + 8"] len by simp_all
  have n: "unat ?n = length msg" using small_int_word [of "length msg"] len by simp
  have "encryptData d ?n (replicate (unat ?m) 0) ?m (conn_key ?c) (word_of_nat (length (conn_key ?c))) (txNonce ?c) 12 =
      Ok (?m, seal (conn_key ?c) (txNonce ?c) msg @ drop (length msg + 8) (replicate (unat ?m) 0))"
    by (rule encryptData_seals [OF key c(2) n len msg]) (simp_all add: m del: of_nat_add)
  then have enc: "encryptData d ?n (replicate (unat ?m) 0) ?m (conn_key ?c) 16 (txNonce ?c) 12 =
      Ok (?m, seal (conn_key ?c) (txNonce ?c) msg)"
    using c m by simp
  have "mem_slice (seal (conn_key ?c) (txNonce ?c) msg) 0 (unat ?m) = Ok (seal (conn_key ?c) (txNonce ?c) msg)"
    using key c m(2) by (simp add: mem_slice_def)
  then show ?thesis
    using ok k enc m size by (simp add: encryptNative_def conn_at_def Let_def del: of_nat_add)
qed

lemmas encryptNative_seals = encryptNative_seals_front [OF _ _ _ take_all [OF order_refl]]

text \<open>Receiving: the message if the tag is right, and then the receive nonce goes up by one; a message
  of no bytes moves the nonce but is reported as a failure.\<close>
lemma decryptNative_unseals:
  assumes ok: "conns_ok conns" and k: "k < 32" and len: "8 \<le> length c" "length c \<le> 4096"
  shows "decryptNative (int k) c (word_of_nat (length c)) conns =
    Ok (case unseal (conn_key (conns ! k)) (rxNonce (conns ! k)) c of
          None \<Rightarrow> (0, None, conns)
        | Some msg \<Rightarrow>
            (if msg = [] then 0 else word_of_nat (length msg), if msg = [] then None else Some msg,
             conns[k := (conns ! k)\<lparr>rxNonce := incrementNonce (rxNonce (conns ! k))\<rparr>]))"
proof -
  let ?c = "conns ! k" and ?n = "word_of_nat (length c) :: u32"
  let ?m = "word_of_nat (length c - 8) :: u32"
  have c: "length (conn_key ?c) = 16" "length (rxNonce ?c) = 12" using ok k conns_ok_nth by (auto simp: conn_ok_def)
  then have key: "good_key (conn_key ?c)" by (simp add: good_key_def)
  have size: "decryptDataSize ?n = ?m" using len by (simp add: decryptDataSize_def of_nat_diff)
  have m: "sint ?m = int (length c - 8)" "unat ?m = length c - 8"
    using small_int_word [of "length c - 8"] len by simp_all
  have n: "unat ?n = length c" using small_int_word [of "length c"] len by simp
  have "decryptData c ?n (replicate (unat ?m) 0) ?m (conn_key ?c) (word_of_nat (length (conn_key ?c))) (rxNonce ?c) 12 =
      Ok (case unseal (conn_key ?c) (rxNonce ?c) c of
          Some msg \<Rightarrow> (?m, msg @ drop (length c - 8) (replicate (unat ?m) 0))
        | None \<Rightarrow> (- 1, replicate (length c - 8) 0 @ drop (length c - 8) (replicate (unat ?m) 0)))"
    by (rule decryptData_unseals [OF key c(2) n len]) (simp_all add: m)
  then have dec: "decryptData c ?n (replicate (unat ?m) 0) ?m (conn_key ?c) 16 (rxNonce ?c) 12 =
      Ok (case unseal (conn_key ?c) (rxNonce ?c) c of
          Some msg \<Rightarrow> (?m, msg) | None \<Rightarrow> (- 1, replicate (length c - 8) 0))"
    using c m by (simp split: option.splits)
  show ?thesis
  proof (cases "unseal (conn_key ?c) (rxNonce ?c) c")
    case None
    then have dec': "decryptData c ?n (replicate (unat ?m) 0) ?m (conn_key ?c) 16 (rxNonce ?c) 12 =
      Ok (- 1, replicate (length c - 8) 0)" using dec by simp
    show ?thesis
      unfolding decryptNative_def size
      using ok k m dec' None by (simp add: conn_at_def Let_def)
  next
    case (Some msg)
    then have dec': "decryptData c ?n (replicate (unat ?m) 0) ?m (conn_key ?c) 16 (rxNonce ?c) 12 =
      Ok (?m, msg)" using dec by simp
    have msg: "length msg = length c - 8"
      using Some key c by (simp add: unseal_Some_iff)
    have "mem_slice msg 0 (unat ?m) = Ok msg" using msg m(2) by (simp add: mem_slice_def)
    moreover have "msg = [] \<longleftrightarrow> length c - 8 = 0" using msg by auto
    ultimately show ?thesis
      unfolding decryptNative_def size
      using ok k m dec' Some msg by (simp add: conn_at_def Let_def del: of_nat_diff)
  qed
qed

lemma encryptNative_ok:
  assumes "conns_ok conns" "encryptNative i msg n conns = Ok (r, out, conns')"
  shows "conns_ok conns'"
proof (cases "i > 32 \<or> i < 0")
  case True
  then show ?thesis using assms by (auto simp: encryptNative_def)
next
  case False
  then have "conn_ok (conns ! nat i)" if "nat i < 32" using assms(1) that by simp
  then show ?thesis
    using False assms
    by (auto simp: encryptNative_def conn_at_def Let_def bindR_eq_Ok conn_ok_def split: if_splits
        intro!: conns_ok_update)
qed

lemma decryptNative_ok:
  assumes "conns_ok conns" "decryptNative i c n conns = Ok (r, out, conns')"
  shows "conns_ok conns'"
proof (cases "i > 32 \<or> i < 0")
  case True
  then show ?thesis using assms by (auto simp: decryptNative_def)
next
  case False
  then have "conn_ok (conns ! nat i)" if "nat i < 32" using assms(1) that by simp
  then show ?thesis
    using False assms
    by (auto simp: decryptNative_def conn_at_def Let_def bindR_eq_Ok conn_ok_def split: if_splits
        intro!: conns_ok_update)
qed

section \<open>A session of messages\<close>

text \<open>Sending a list of messages over slot \<open>k\<close>, and receiving a list of sealed ones; both stop at the
  first call that reports a failure.\<close>

fun send_all :: "nat \<Rightarrow> bytes list \<Rightarrow> connections \<Rightarrow> (bytes list \<times> connections) res" where
  "send_all k [] conns = Ok ([], conns)"
| "send_all k (m # ms) conns =
     bindR (encryptNative (int k) m (word_of_nat (length m)) conns) (\<lambda>(n, out, conns).
       case out of None \<Rightarrow> Ok ([], conns)
       | Some c \<Rightarrow> bindR (send_all k ms conns) (\<lambda>(cs, conns). Ok (c # cs, conns)))"

fun receive_all :: "nat \<Rightarrow> bytes list \<Rightarrow> connections \<Rightarrow> (bytes list \<times> connections) res" where
  "receive_all k [] conns = Ok ([], conns)"
| "receive_all k (c # cs) conns =
     bindR (decryptNative (int k) c (word_of_nat (length c)) conns) (\<lambda>(n, out, conns).
       case out of None \<Rightarrow> Ok ([], conns)
       | Some m \<Rightarrow> bindR (receive_all k cs conns) (\<lambda>(ms, conns). Ok (m # ms, conns)))"

definition in_step :: "nat \<Rightarrow> connections \<Rightarrow> nat \<Rightarrow> connections \<Rightarrow> bool" where
  "in_step i A j B \<longleftrightarrow> conns_ok A \<and> conns_ok B \<and> i < 32 \<and> j < 32 \<and>
     conn_key (B ! j) = conn_key (A ! i) \<and> rxNonce (B ! j) = txNonce (A ! i)"

lemma in_step_next:
  assumes "in_step i A j B"
  shows "in_step i (A[i := (A ! i)\<lparr>txNonce := incrementNonce (txNonce (A ! i))\<rparr>])
    j (B[j := (B ! j)\<lparr>rxNonce := incrementNonce (rxNonce (B ! j))\<rparr>])"
  using assms conns_ok_nth by (auto simp: in_step_def conn_ok_def intro!: conns_ok_update)

lemma session_complete:
  assumes "in_step i A j B" "\<forall>m \<in> set ms. m \<noteq> [] \<and> length m \<le> 4088"
  shows "\<exists>cs A' B'. send_all i ms A = Ok (cs, A') \<and> receive_all j cs B = Ok (ms, B') \<and>
    in_step i A' j B'"
  using assms
proof (induction ms arbitrary: A B)
  case (Cons m ms)
  let ?k = "conn_key (A ! i)" and ?n = "txNonce (A ! i)"
  let ?A = "A[i := (A ! i)\<lparr>txNonce := incrementNonce ?n\<rparr>]"
  let ?B = "B[j := (B ! j)\<lparr>rxNonce := incrementNonce ?n\<rparr>]"
  have st: "conns_ok A" "conns_ok B" "i < 32" "j < 32" "conn_key (B ! j) = ?k" "rxNonce (B ! j) = ?n"
    using Cons.prems(1) by (auto simp: in_step_def)
  have m: "m \<noteq> []" "length m \<le> 4088" using Cons.prems(2) by auto
  have key: "good_key ?k" "length ?n = 12"
    using st conns_ok_nth [of A i] by (auto simp: conn_ok_def good_key_def)
  have send: "encryptNative (int i) m (word_of_nat (length m)) A =
      Ok (word_of_nat (length m + 8), Some (seal ?k ?n m), ?A)"
    using st m by (intro encryptNative_seals) simp_all
  have "decryptNative (int j) (seal ?k ?n m) (word_of_nat (length (seal ?k ?n m))) B =
      Ok (word_of_nat (length m), Some m, ?B)"
    using st m key by (subst decryptNative_unseals) (simp_all del: of_nat_add)
  moreover have "in_step i ?A j ?B" using in_step_next [OF Cons.prems(1)] st by simp
  then obtain cs A' B' where "send_all i ms ?A = Ok (cs, A')" "receive_all j cs ?B = Ok (ms, B')"
    "in_step i A' j B'"
    using Cons.IH [of ?A ?B] Cons.prems(2) by auto
  ultimately show ?case using send by simp
qed simp

text \<open>Nonces do not repeat within \<open>2\<^sup>9\<^sup>6\<close> messages.\<close>
lemma nonces_distinct:
  assumes "length v = 12" "a < b" "b < 2 ^ 96"
  shows "(incrementNonce ^^ a) v \<noteq> (incrementNonce ^^ b) v"
proof
  assume "(incrementNonce ^^ a) v = (incrementNonce ^^ b) v"
  then have "(be_get v + a) mod 2 ^ 96 = (be_get v + b) mod 2 ^ 96"
    using assms(1) by (metis be_get_incrementNonce_pow)
  then have "2 ^ 96 dvd (be_get v + b) - (be_get v + a)"
    by (metis mod_eq_dvd_iff_nat add_le_cancel_left assms(2) less_imp_le)
  then have "2 ^ 96 dvd b - a" by simp
  then show False using assms dvd_imp_le [of "2 ^ 96" "b - a"] by simp
qed

section \<open>Slots that leak\<close>

fun begin_times ::
  "nat \<Rightarrow> (nat \<Rightarrow> nat \<Rightarrow> nat) \<Rightarrow> nat \<Rightarrow> ConnectionType \<Rightarrow> bytes \<Rightarrow> int \<Rightarrow> connections \<Rightarrow> connections res"
where
  "begin_times 0 rand t type jKey keyLen conns = Ok conns"
| "begin_times (Suc n) rand t type jKey keyLen conns =
     bindR (begin_times n rand t type jKey keyLen conns) (\<lambda>conns.
     bindR (beginConnection rand t type jKey keyLen conns) (\<lambda>(i, conns). Ok conns))"

lemma bad_begins:
  assumes "keyLen \<noteq> 16" "n \<le> 32"
  shows "\<exists>conns. begin_times n rand t type jKey keyLen connections_init = Ok conns \<and>
    length conns = 32 \<and> (\<forall>i < 32. active (conns ! i) \<longleftrightarrow> i < n)"
  using assms(2)
proof (induction n)
  case 0
  then show ?case by (simp add: connections_init_def)
next
  case (Suc n)
  then obtain conns where c: "begin_times n rand t type jKey keyLen connections_init = Ok conns"
    "length conns = 32" "\<forall>i < 32. active (conns ! i) \<longleftrightarrow> i < n" by auto
  have "n < 32" "\<not> active (conns ! n)" using c(3) Suc.prems by auto
  then obtain k where k: "first_free conns = Some k"
    using first_free_None [of conns] by (cases "first_free conns") auto
  have "k = n"
  proof -
    have "\<not> k < n" using first_free_Some [OF k] c(3) by auto
    moreover have "\<not> n < k" using first_free_Some [OF k] c(3) Suc.prems by auto
    ultimately show ?thesis by simp
  qed
  then show ?case
    using c k assms(1) Suc.prems by (auto simp: beginConnection_eq nth_list_update)
qed

lemma bad_begins_exhaust:
  assumes "keyLen \<noteq> 16"
  shows "\<exists>conns. begin_times 32 rand t type jKey keyLen connections_init = Ok conns \<and>
    beginConnection rand t' type' key' 16 conns = Ok (- 1, conns)"
proof -
  obtain conns where "begin_times 32 rand t type jKey keyLen connections_init = Ok conns"
    "\<forall>i < 32. active (conns ! i) \<longleftrightarrow> i < 32"
    using bad_begins [OF assms, of 32 rand t type jKey] by auto
  moreover from this have "first_free conns = None" by (simp add: first_free_None)
  ultimately show ?thesis by (simp add: beginConnection_eq)
qed

lemma index_32:
  assumes "conns_ok conns"
  shows "getConnection 32 = Some 32" "endConnection 32 conns = Fault OutOfBounds"
    "encryptNative 32 msg n conns = Fault OutOfBounds" "decryptNative 32 c n conns = Fault OutOfBounds"
  using assms
  by (simp_all add: getConnection_def endConnection_def encryptNative_def decryptNative_def conn_at_def)

lemma end_leaves_nonce:
  assumes "conns_ok conns" "0 < k" "k < 32"
  shows "\<exists>conns'. endConnection (int k) conns = Ok conns' \<and> \<not> active (conns' ! k) \<and>
    rxNonce (conns' ! k) = rxNonce (conns ! k) \<and> conn_key (conns' ! k) = conn_key (conns ! k) \<and>
    rxNonce (conns' ! 0) = replicate 12 0"
  using assms by (simp add: endConnection_def Let_def)

lemma short_message:
  assumes "conns_ok conns" "k < 32" "length c < 8"
  shows "decryptNative (int k) c (word_of_nat (length c)) conns = Fault OutOfBounds"
proof -
  have "length c = 0 \<or> length c = 1 \<or> length c = 2 \<or> length c = 3 \<or> length c = 4 \<or>
      length c = 5 \<or> length c = 6 \<or> length c = 7"
    using assms(3) by linarith
  then have "sint (decryptDataSize (word_of_nat (length c))) < 0"
    by (elim disjE) (simp_all add: decryptDataSize_def)
  then show ?thesis using assms by (simp add: decryptNative_def conn_at_def)
qed

lemma open_close:
  assumes ok: "conns_ok conns" and key: "length key = 16" and free: "first_free conns = Some k"
  shows "beginConnection rand t type key 16 conns = Ok (int k, conns[k := opened rand t type key k (conns ! k)]) \<and>
    (\<exists>conns''. endConnection (int k) (conns[k := opened rand t type key k (conns ! k)]) = Ok conns'' \<and> \<not> active (conns'' ! k) \<and>
      (\<forall>j. j \<noteq> k \<and> j \<noteq> 0 \<longrightarrow> conns'' ! j = conns ! j))"
  using assms first_free_Some [OF free]
  by (simp add: beginConnection_eq mem_slice_def endConnection_def Let_def nth_list_update)

lemma receive_iff:
  assumes ok: "conns_ok conns" and k: "k < 32" and len: "8 \<le> length c" "length c \<le> 4096"
  shows "(\<exists>n conns'. decryptNative (int k) c (word_of_nat (length c)) conns = Ok (n, Some msg, conns')) \<longleftrightarrow>
    msg \<noteq> [] \<and> c = seal (conn_key (conns ! k)) (rxNonce (conns ! k)) msg"
proof -
  have c: "length (conn_key (conns ! k)) = 16" "length (rxNonce (conns ! k)) = 12"
    using ok k conns_ok_nth by (auto simp: conn_ok_def)
  then have key: "good_key (conn_key (conns ! k))" by (simp add: good_key_def)
  show ?thesis
    unfolding decryptNative_unseals [OF assms]
    using unseal_Some_iff [OF key c(2), of c msg] by (auto split: option.splits)
qed

end
