(* ===== verification/Connection_Spec.thy ===== *)
theory Connection_Spec
  imports Connection
begin

text \<open>
  What the connection table promises: 32 slots that are open or free, each with a key and two counters, written down without
  the nonce arithmetic and the search loop of \<open>connection_common.c\<close>.  Any sequence of its four operations, with arguments that
  keep the code inside its memory, gives the answers and the table of this specification.
\<close>

section \<open>The specification\<close>

record slot =
  slot_open :: bool
  slot_key :: bytes
  slot_tx :: nat
  slot_rx :: nat

type_synonym table = "slot list"

datatype table_op = Begin nat ConnectionType bytes int | End int | Send int bytes | Receive int bytes

datatype table_answer = Handle int | Ended | Answer i32 "bytes option"

definition nonce_after :: "nat \<Rightarrow> nat" where
  "nonce_after n = (n + 1) mod 2 ^ 96"

text \<open>The lowest free slot is opened, a key of another length than 16 included; the transmit counter goes on where it was.\<close>
definition spec_begin :: "(nat \<Rightarrow> nat \<Rightarrow> nat) \<Rightarrow> nat \<Rightarrow> bytes \<Rightarrow> int \<Rightarrow> table \<Rightarrow> table_answer \<times> table" where
  "spec_begin rand t key keyLen T =
     (case find (\<lambda>k. \<not> slot_open (T ! k)) [0..<length T] of
        None \<Rightarrow> (Handle (- 1), T)
      | Some k \<Rightarrow>
          if keyLen \<noteq> 16 then (Handle (- 1), T[k := (T ! k)\<lparr>slot_open := True\<rparr>])
          else (Handle (int k), T[k := (T ! k)\<lparr>slot_open := True, slot_key := take 16 key,
                                              slot_rx := be_get (generateRandomNonce rand t 12)\<rparr>]))"

text \<open>Closing frees the slot and sets the receive counter of slot 0 to 0.\<close>
definition spec_end :: "nat \<Rightarrow> table \<Rightarrow> table" where
  "spec_end k T = (let T = T[k := (T ! k)\<lparr>slot_open := False\<rparr>] in T[0 := (T ! 0)\<lparr>slot_rx := 0\<rparr>])"

definition spec_send :: "nat \<Rightarrow> bytes \<Rightarrow> table \<Rightarrow> table_answer \<times> table" where
  "spec_send k m T =
     (Answer (word_of_nat (length m + 8)) (Some (seal (slot_key (T ! k)) (be_put 12 (slot_tx (T ! k))) m)),
      T[k := (T ! k)\<lparr>slot_tx := nonce_after (slot_tx (T ! k))\<rparr>])"

definition spec_receive :: "nat \<Rightarrow> bytes \<Rightarrow> table \<Rightarrow> table_answer \<times> table" where
  "spec_receive k c T =
     (case unseal (slot_key (T ! k)) (be_put 12 (slot_rx (T ! k))) c of
        None \<Rightarrow> (Answer 0 None, T)
      | Some m \<Rightarrow> (if m = [] then Answer 0 None else Answer (word_of_nat (length m)) (Some m),
                   T[k := (T ! k)\<lparr>slot_rx := nonce_after (slot_rx (T ! k))\<rparr>]))"

definition in_table :: "int \<Rightarrow> bool" where
  "in_table i \<longleftrightarrow> 0 \<le> i \<and> i < 32"

text \<open>A handle outside the table is refused.\<close>
fun table_spec :: "(nat \<Rightarrow> nat \<Rightarrow> nat) \<Rightarrow> table_op \<Rightarrow> table \<Rightarrow> table_answer \<times> table" where
  "table_spec rand (Begin t type key keyLen) T = spec_begin rand t key keyLen T"
| "table_spec rand (End i) T = (Ended, if in_table i then spec_end (nat i) T else T)"
| "table_spec rand (Send i m) T = (if in_table i then spec_send (nat i) m T else (Answer 0 None, T))"
| "table_spec rand (Receive i c) T = (if in_table i then spec_receive (nat i) c T else (Answer 0 None, T))"

fun table_specs :: "(nat \<Rightarrow> nat \<Rightarrow> nat) \<Rightarrow> table_op list \<Rightarrow> table \<Rightarrow> table_answer list \<times> table" where
  "table_specs rand [] T = ([], T)"
| "table_specs rand (op # ops) T =
     (case table_spec rand op T of (a, T) \<Rightarrow> case table_specs rand ops T of (as, T) \<Rightarrow> (a # as, T))"

section \<open>The operations of the code\<close>

fun run_op :: "(nat \<Rightarrow> nat \<Rightarrow> nat) \<Rightarrow> table_op \<Rightarrow> connections \<Rightarrow> (table_answer \<times> connections) res" where
  "run_op rand (Begin t type key keyLen) conns =
     bindR (beginConnection rand t type key keyLen conns) (\<lambda>(i, conns). Ok (Handle i, conns))"
| "run_op rand (End i) conns = bindR (endConnection i conns) (\<lambda>conns. Ok (Ended, conns))"
| "run_op rand (Send i m) conns =
     bindR (encryptNative i m (word_of_nat (length m)) conns) (\<lambda>(n, out, conns). Ok (Answer n out, conns))"
| "run_op rand (Receive i c) conns =
     bindR (decryptNative i c (word_of_nat (length c)) conns) (\<lambda>(n, out, conns). Ok (Answer n out, conns))"

fun run_ops :: "(nat \<Rightarrow> nat \<Rightarrow> nat) \<Rightarrow> table_op list \<Rightarrow> connections \<Rightarrow> (table_answer list \<times> connections) res" where
  "run_ops rand [] conns = Ok ([], conns)"
| "run_ops rand (op # ops) conns =
     bindR (run_op rand op conns) (\<lambda>(a, conns). bindR (run_ops rand ops conns) (\<lambda>(as, conns). Ok (a # as, conns)))"

text \<open>The arguments that keep the code inside its memory: the tests let the handle 32 pass, a block of at least 16 bytes stands
  behind a key length of 16, and a sealed message has room for its tag.\<close>
fun op_ok :: "table_op \<Rightarrow> bool" where
  "op_ok (Begin t type key keyLen) \<longleftrightarrow> (keyLen = 16 \<longrightarrow> 16 \<le> length key)"
| "op_ok (End i) \<longleftrightarrow> i \<noteq> 32"
| "op_ok (Send i m) \<longleftrightarrow> i \<noteq> 32 \<and> length m \<le> 4096"
| "op_ok (Receive i c) \<longleftrightarrow> i \<noteq> 32 \<and> 8 \<le> length c \<and> length c \<le> 4096"

section \<open>Refinement\<close>

definition slot_of :: "Connection \<Rightarrow> slot" where
  "slot_of c = \<lparr>slot_open = active c, slot_key = conn_key c, slot_tx = be_get (txNonce c), slot_rx = be_get (rxNonce c)\<rparr>"

definition table_of :: "connections \<Rightarrow> table" where
  "table_of conns = map slot_of conns"

lemma slot_of_sel [simp]:
  "slot_open (slot_of c) = active c" "slot_key (slot_of c) = conn_key c" "slot_tx (slot_of c) = be_get (txNonce c)"
  "slot_rx (slot_of c) = be_get (rxNonce c)"
  by (simp_all add: slot_of_def)

lemma table_of_simps [simp]:
  "length (table_of conns) = length conns" "k < length conns \<Longrightarrow> table_of conns ! k = slot_of (conns ! k)"
  "table_of (conns[k := c]) = (table_of conns)[k := slot_of c]"
  by (simp_all add: table_of_def map_update)

lemma slot_nonces:
  assumes "conns_ok conns" "k < 32"
  shows "be_put 12 (be_get (txNonce (conns ! k))) = txNonce (conns ! k)" "be_put 12 (be_get (rxNonce (conns ! k))) = rxNonce (conns ! k)"
    "be_get (incrementNonce (txNonce (conns ! k))) = nonce_after (be_get (txNonce (conns ! k)))"
    "be_get (incrementNonce (rxNonce (conns ! k))) = nonce_after (be_get (rxNonce (conns ! k)))"
  using conns_ok_nth [OF assms] by (simp_all add: conn_ok_def nonce_after_def be_get_incrementNonce)

lemma free_slot_same:
  assumes "conns_ok conns"
  shows "find (\<lambda>k. \<not> slot_open (table_of conns ! k)) [0..<length (table_of conns)] = first_free conns"
proof -
  have "find (\<lambda>k. \<not> slot_open (table_of conns ! k)) [0..<32] = find (\<lambda>k. \<not> active (conns ! k)) [0..<32]"
    using assms by (intro find_cong) auto
  then show ?thesis using assms by (simp add: first_free_def)
qed

lemma begin_refines:
  assumes ok: "conns_ok conns" and key: "keyLen = 16 \<longrightarrow> 16 \<le> length key"
  shows "\<exists>i conns'. beginConnection rand t type key keyLen conns = Ok (i, conns') \<and>
    spec_begin rand t key keyLen (table_of conns) = (Handle i, table_of conns')"
proof (cases "first_free conns")
  case None
  then show ?thesis unfolding spec_begin_def free_slot_same [OF ok] by (simp add: beginConnection_eq)
next
  case (Some k)
  then have "k < length conns" using first_free_Some [OF Some] ok by simp
  then show ?thesis
    unfolding spec_begin_def free_slot_same [OF ok]
    using Some key by (simp add: beginConnection_eq mem_slice_def opened_def slot_of_def)
qed

lemma end_refines:
  assumes ok: "conns_ok conns" and i: "i \<noteq> 32"
  shows "\<exists>conns'. endConnection i conns = Ok conns' \<and>
    (if in_table i then spec_end (nat i) (table_of conns) else table_of conns) = table_of conns'"
proof (cases "in_table i")
  case True
  then have k: "nat i < length conns" "0 < length conns" "\<not> (i > 32 \<or> i < 0)" using ok by (auto simp: in_table_def)
  define c where "c = (conns ! nat i)\<lparr>active := False, connnectionId := 0, type_of_conn := kConnectionTypeNone\<rparr>"
  define conns1 where "conns1 = conns[nat i := c]"
  have e: "endConnection i conns = Ok (conns1[0 := (conns1 ! 0)\<lparr>rxNonce := replicate 12 0\<rparr>])"
    using k by (simp add: endConnection_def Let_def c_def conns1_def)
  have "slot_of c = (slot_of (conns ! nat i))\<lparr>slot_open := False\<rparr>" by (simp add: slot_of_def c_def)
  then have T1: "table_of conns1 = (table_of conns)[nat i := (table_of conns ! nat i)\<lparr>slot_open := False\<rparr>]"
    using k(1) by (simp add: conns1_def)
  have "slot_of (d\<lparr>rxNonce := replicate 12 0\<rparr>) = (slot_of d)\<lparr>slot_rx := 0\<rparr>" for d
    by (simp add: slot_of_def be_get_def eval_nat_numeral)
  moreover have "table_of conns1 ! 0 = slot_of (conns1 ! 0)" using k(2) by (subst table_of_simps(2)) (simp_all add: conns1_def)
  ultimately have "table_of (conns1[0 := (conns1 ! 0)\<lparr>rxNonce := replicate 12 0\<rparr>]) = spec_end (nat i) (table_of conns)"
    by (simp add: spec_end_def Let_def T1 [symmetric])
  with e show ?thesis using True by auto
next
  case False
  then have "i > 32 \<or> i < 0" using i by (auto simp: in_table_def)
  then show ?thesis using False by (simp add: endConnection_def)
qed

lemma send_refines:
  assumes ok: "conns_ok conns" and i: "i \<noteq> 32" and m: "length m \<le> 4096"
  shows "\<exists>n out conns'. encryptNative i m (word_of_nat (length m)) conns = Ok (n, out, conns') \<and>
    table_spec rand (Send i m) (table_of conns) = (Answer n out, table_of conns')"
proof (cases "in_table i")
  case True
  then obtain k where k: "i = int k" "k < 32" by (metis in_table_def nonneg_int_cases of_nat_less_numeral_iff)
  have len: "k < length conns" using ok k by simp
  show ?thesis
    unfolding k(1) encryptNative_seals [OF ok k(2) m]
    using len True k slot_nonces [OF ok k(2)] by (simp add: spec_send_def slot_of_def del: of_nat_add)
next
  case False
  then have "i > 32 \<or> i < 0" using i by (auto simp: in_table_def)
  then show ?thesis using False by (simp add: encryptNative_def)
qed

lemma receive_refines:
  assumes ok: "conns_ok conns" and i: "i \<noteq> 32" and c: "8 \<le> length c" "length c \<le> 4096"
  shows "\<exists>n out conns'. decryptNative i c (word_of_nat (length c)) conns = Ok (n, out, conns') \<and>
    table_spec rand (Receive i c) (table_of conns) = (Answer n out, table_of conns')"
proof (cases "in_table i")
  case True
  then obtain k where k: "i = int k" "k < 32" by (metis in_table_def nonneg_int_cases of_nat_less_numeral_iff)
  have len: "k < length conns" using ok k by simp
  show ?thesis
    unfolding k(1) decryptNative_unseals [OF ok k(2) c]
    using len True k slot_nonces [OF ok k(2)] by (simp add: spec_receive_def slot_of_def split: option.splits)
next
  case False
  then have "i > 32 \<or> i < 0" using i by (auto simp: in_table_def)
  then show ?thesis using False by (simp add: decryptNative_def)
qed

lemma op_refines:
  assumes ok: "conns_ok conns" and op: "op_ok op"
  shows "\<exists>a conns'. run_op rand op conns = Ok (a, conns') \<and> table_spec rand op (table_of conns) = (a, table_of conns') \<and> conns_ok conns'"
proof (cases op)
  case (Begin t type key keyLen)
  have key: "keyLen = 16 \<longrightarrow> 16 \<le> length key" using op Begin by simp
  obtain i conns' where "beginConnection rand t type key keyLen conns = Ok (i, conns')"
    "spec_begin rand t key keyLen (table_of conns) = (Handle i, table_of conns')"
    using begin_refines [OF ok key, where rand = rand and t = t and type = type] by auto
  then show ?thesis using Begin begin_ok [OF ok] by auto
next
  case (End i)
  have "i \<noteq> 32" using op End by simp
  from end_refines [OF ok this] show ?thesis using End end_ok [OF ok] by auto
next
  case (Send i m)
  have a: "i \<noteq> 32" "length m \<le> 4096" using op Send by simp_all
  from send_refines [OF ok a, of rand] show ?thesis using Send encryptNative_ok [OF ok] by (auto simp del: table_spec.simps)
next
  case (Receive i c)
  have a: "i \<noteq> 32" "8 \<le> length c" "length c \<le> 4096" using op Receive by simp_all
  from receive_refines [OF ok a, of rand] show ?thesis using Receive decryptNative_ok [OF ok] by (auto simp del: table_spec.simps)
qed

lemma ops_refine:
  assumes "conns_ok conns" "\<forall>op \<in> set ops. op_ok op"
  shows "\<exists>answers conns'. run_ops rand ops conns = Ok (answers, conns') \<and>
    table_specs rand ops (table_of conns) = (answers, table_of conns') \<and> conns_ok conns'"
  using assms
proof (induction ops arbitrary: conns)
  case (Cons op ops)
  obtain a conns1 where s: "run_op rand op conns = Ok (a, conns1)" "table_spec rand op (table_of conns) = (a, table_of conns1)" "conns_ok conns1"
    using op_refines [OF Cons.prems(1), of op rand] Cons.prems(2) by auto
  obtain as conns' where "run_ops rand ops conns1 = Ok (as, conns')" "table_specs rand ops (table_of conns1) = (as, table_of conns')" "conns_ok conns'"
    using Cons.IH [OF s(3)] Cons.prems(2) by auto
  then show ?case using s by simp
qed simp

section \<open>What the specification says of a history\<close>

text \<open>The transmit counter of a slot counts the messages sent over it, whatever else happens.\<close>
definition sends_over :: "nat \<Rightarrow> table_op \<Rightarrow> bool" where
  "sends_over k op \<longleftrightarrow> (case op of Send i m \<Rightarrow> i = int k | _ \<Rightarrow> False)"

lemma table_spec_length: "length (snd (table_spec rand op T)) = length T"
  by (cases op) (auto simp: spec_begin_def spec_end_def spec_send_def spec_receive_def Let_def split: option.splits)

lemma slot_tx_update: "slot_tx c = slot_tx (T ! j) \<Longrightarrow> slot_tx (T[j := c] ! k) = slot_tx (T ! k)"
  by (cases "j < length T"; cases "j = k") (auto simp: list_update_beyond)

lemma table_spec_tx:
  assumes "length T = 32" "k < 32"
  shows "slot_tx (snd (table_spec rand op T) ! k) = (if sends_over k op then nonce_after (slot_tx (T ! k)) else slot_tx (T ! k))"
proof (cases op)
  case (Begin t type key keyLen)
  then show ?thesis by (auto simp: spec_begin_def sends_over_def slot_tx_update split: option.splits)
next
  case (End i)
  have "slot_tx (spec_end (nat i) T ! k) = slot_tx (T ! k)"
    unfolding spec_end_def Let_def by (subst slot_tx_update, simp, subst slot_tx_update) simp_all
  then show ?thesis using End by (simp add: sends_over_def)
next
  case (Send i m)
  then show ?thesis using assms by (auto simp: spec_send_def sends_over_def in_table_def nth_list_update)
next
  case (Receive i c)
  then show ?thesis by (auto simp: spec_receive_def sends_over_def slot_tx_update split: option.splits)
qed

lemma table_specs_tx:
  assumes "length T = 32" "k < 32" "slot_tx (T ! k) < 2 ^ 96"
  shows "slot_tx (snd (table_specs rand ops T) ! k) = (slot_tx (T ! k) + length (filter (sends_over k) ops)) mod 2 ^ 96"
  using assms
proof (induction ops arbitrary: T)
  case (Cons op ops)
  let ?T = "snd (table_spec rand op T)"
  have "length ?T = 32" using table_spec_length Cons.prems(1) by metis
  moreover have "slot_tx (?T ! k) < 2 ^ 96" using Cons.prems(3) by (simp add: table_spec_tx [OF Cons.prems(1,2)] nonce_after_def)
  ultimately have "slot_tx (snd (table_specs rand ops ?T) ! k) = (slot_tx (?T ! k) + length (filter (sends_over k) ops)) mod 2 ^ 96"
    using Cons.IH [of ?T] Cons.prems(2) by simp
  then show ?case
    by (simp add: table_spec_tx [OF Cons.prems(1,2)] nonce_after_def split_beta mod_simps)
qed simp

lemma table_specs_answers: "length (fst (table_specs rand ops T)) = length ops"
  by (induction ops arbitrary: T) (simp_all add: split_beta)

lemma table_history_holds:
  assumes ok: "conns_ok conns" and ops: "\<forall>op \<in> set ops. op_ok op"
  shows "\<exists>answers conns'. run_ops rand ops conns = Ok (answers, conns') \<and>
    table_specs rand ops (table_of conns) = (answers, table_of conns') \<and> conns_ok conns' \<and>
    (\<forall>k < 32. be_get (txNonce (conns' ! k)) = (be_get (txNonce (conns ! k)) + length (filter (sends_over k) ops)) mod 2 ^ 96)"
proof -
  obtain answers conns' where r: "run_ops rand ops conns = Ok (answers, conns')"
    "table_specs rand ops (table_of conns) = (answers, table_of conns')" "conns_ok conns'"
    using ops_refine [OF assms] by blast
  have "be_get (txNonce (conns' ! k)) = (be_get (txNonce (conns ! k)) + length (filter (sends_over k) ops)) mod 2 ^ 96" if k: "k < 32" for k
  proof -
    have "length (txNonce (conns ! k)) = 12" using conns_ok_nth [OF ok k] by (simp add: conn_ok_def)
    then have "slot_tx (table_of conns ! k) < 2 ^ 96" using be_get_bound [of "txNonce (conns ! k)"] ok k by simp
    with table_specs_tx [of "table_of conns" k rand ops] r(2,3) ok k show ?thesis by simp
  qed
  with r show ?thesis by blast
qed

end
