(* ===== verification/Handshake.thy ===== *)
theory Handshake
  imports Connection Messages_Handshake
begin

text \<open>
  The handshakes of an open connection: \<open>lock/connection/admin_connection.c\<close> (the lock sends its nonce in
  step 1, the bridge answers with its own in a sealed step 2, the lock confirms in a sealed step 3) and
  \<open>lock/connection/guest_connection.c\<close> (a token in step 1, then the same exchange).  They put the
  message codecs, the sealing and the connection table together.  \<open>seal_slot\<close> and \<open>open_slot\<close> are the
  statements the two files share: size, call, nonce.
\<close>

section \<open>Shared statements\<close>

text \<open>\<open>encryptDataSize\<close>, the block from \<open>calloc\<close>, \<open>encryptData\<close> and \<open>incrementNonce(txNonce)\<close>.\<close>
definition seal_slot :: "connections \<Rightarrow> nat \<Rightarrow> bytes \<Rightarrow> u32 \<Rightarrow> (i32 \<times> bytes \<times> connections) res" where
  "seal_slot conns k plaintextBytes plaintextLen = bindR (conn_at conns k) (\<lambda>c.
     let retvalMaxLen = encryptDataSize plaintextLen in
     bindR (encryptData plaintextBytes plaintextLen (replicate (unat retvalMaxLen) 0) retvalMaxLen
              (conn_key c) 16 (txNonce c) 12) (\<lambda>(retvalLen, retvalBytes).
       Ok (retvalLen, retvalBytes, conns[k := c\<lparr>txNonce := incrementNonce (txNonce c)\<rparr>])))"

text \<open>\<open>decryptDataSize\<close>, the array on the stack, \<open>decryptData\<close> and \<open>incrementNonce(rxNonce)\<close>.\<close>
definition open_slot :: "connections \<Rightarrow> nat \<Rightarrow> bytes \<Rightarrow> u32 \<Rightarrow> (i32 \<times> bytes \<times> connections) res" where
  "open_slot conns k messageBytes messageLen = bindR (conn_at conns k) (\<lambda>c.
     let maxLen = decryptDataSize messageLen in
     bindR (decryptData messageBytes messageLen (replicate (unat maxLen) 0) maxLen
              (conn_key c) 16 (rxNonce c) 12) (\<lambda>(len, plain).
       Ok (len, plain, conns[k := c\<lparr>rxNonce := incrementNonce (rxNonce c)\<rparr>])))"

section \<open>Admin connection\<close>

definition AdminConnection_beginConnection ::
  "(nat \<Rightarrow> nat \<Rightarrow> nat) \<Rightarrow> nat \<Rightarrow> bytes \<Rightarrow> int \<Rightarrow> connections \<Rightarrow> (int \<times> connections) res" where
  "AdminConnection_beginConnection rand t jKey keyLen conns =
     beginConnection rand t kConnectionTypeAdmin jKey keyLen conns"

definition AdminConnection_genConnStep2Native ::
  "int \<Rightarrow> block_ptr \<Rightarrow> i32 \<Rightarrow> connections \<Rightarrow> (i32 \<times> bytes option \<times> connections) res"
where
  "AdminConnection_genConnStep2Native connectionId jConnectionStep1 step1Len conns =
     (case getConnection connectionId of
        None \<Rightarrow> Ok (0, None, conns)
      | Some k \<Rightarrow>
        if jConnectionStep1 = None then Ok (0, None, conns)
        else if sint step1Len < 0 then Fault OutOfBounds
        else bindR (block_read jConnectionStep1 (unat step1Len)) (\<lambda>step1Bytes.
          bindR (ig_AdminConnectionStep1_decode step1Bytes ig_AdminConnectionStep1_init 0)
            (\<lambda>(step1_err, step1).
          if step1_err \<noteq> 0 \<or> \<not> ig_AdminConnectionStep1_is_valid step1 \<or>
             AdminConnectionStep1_nonce_size step1 \<noteq> kNonceLength
          then Ok (0, None, conns)
          else
            bindR (conn_at conns k) (\<lambda>c.
            bindR (block_read (AdminConnectionStep1_nonce step1) (AdminConnectionStep1_nonce_size step1))
              (\<lambda>nonce.
            let conns = conns[k := c\<lparr>txNonce := nonce\<rparr>] in
            bindR (ig_AdminConnectionStep2_set_nonce False (Some (rxNonce c)) kNonceLength
                     ig_AdminConnectionStep2_init) (\<lambda>step2.
            let step2MaxLen = ig_AdminConnectionStep2_get_max_payload_in_bytes step2 in
            bindR (ig_AdminConnectionStep2_encode step2 (replicate (unat step2MaxLen) 0) step2MaxLen)
              (\<lambda>(err, plaintextBytes, plaintextLen).
            if err \<noteq> 0 then Ok (0, None, conns)
            else
              let plaintextLen = (case plaintextLen of Some n \<Rightarrow> n | None \<Rightarrow> 0) in
              bindR (seal_slot conns k plaintextBytes (word_of_nat plaintextLen))
                (\<lambda>(retvalLen, retvalBytes, conns).
              if sint retvalLen < 0 then Ok (0, None, conns)
              else Ok (retvalLen, Some retvalBytes, conns)))))))))"

definition AdminConnection_recConnStep3Native ::
  "int \<Rightarrow> block_ptr \<Rightarrow> i32 \<Rightarrow> connections \<Rightarrow> (bool \<times> connections) res"
where
  "AdminConnection_recConnStep3Native connectionId jConnectionStep3 messageLen conns =
     (case getConnection connectionId of
        None \<Rightarrow> Ok (False, conns)
      | Some k \<Rightarrow>
        (case jConnectionStep3 of
           None \<Rightarrow> Ok (False, conns)
         | Some messageBytes \<Rightarrow>
           bindR (open_slot conns k messageBytes messageLen) (\<lambda>(step3Len, step3Bytes, conns).
           if sint step3Len < 0 then Ok (False, conns)
           else
             bindR (mem_slice step3Bytes 0 (unat step3Len)) (\<lambda>step3Bytes.
             bindR (ig_AdminConnectionStep3_decode step3Bytes ig_AdminConnectionStep3_init 0)
               (\<lambda>(err, step3).
             Ok (ig_AdminConnectionStep3_is_valid step3 \<and> AdminConnectionStep3_success step3, conns))))))"

section \<open>Guest connection\<close>

definition GuestConnection_beginConnection ::
  "(nat \<Rightarrow> nat \<Rightarrow> nat) \<Rightarrow> nat \<Rightarrow> bytes \<Rightarrow> int \<Rightarrow> connections \<Rightarrow> (int \<times> connections) res" where
  "GuestConnection_beginConnection rand t jKey keyLen conns =
     beginConnection rand t kConnectionTypeGuest jKey keyLen conns"

text \<open>The block returned has \<open>get_max_payload_in_bytes\<close> bytes, the length says how many count.\<close>
definition GuestConnection_genConnStep1Native ::
  "int \<Rightarrow> block_ptr \<Rightarrow> u32 \<Rightarrow> (i32 \<times> bytes option) res"
where
  "GuestConnection_genConnStep1Native connectionId guest_token guest_token_len =
     (case getConnection connectionId of
        None \<Rightarrow> Ok (0, None)
      | Some k \<Rightarrow>
        if guest_token = None then Ok (0, None)
        else
          bindR (ig_GuestConnectionStep1_set_token False guest_token (unat guest_token_len)
                   ig_GuestConnectionStep1_init) (\<lambda>step1.
          let retvalMaxLen = ig_GuestConnectionStep1_get_max_payload_in_bytes step1 in
          bindR (ig_GuestConnectionStep1_encode step1 (replicate (unat retvalMaxLen) 0) retvalMaxLen)
            (\<lambda>(err, retvalBytes, retvalLen).
          if err \<noteq> 0 then Ok (0, None)
          else Ok (word_of_nat (case retvalLen of Some n \<Rightarrow> n | None \<Rightarrow> 0), Some retvalBytes))))"

definition GuestConnection_genConnStep3Native ::
  "int \<Rightarrow> block_ptr \<Rightarrow> i32 \<Rightarrow> connections \<Rightarrow> (i32 \<times> bytes option \<times> connections) res"
where
  "GuestConnection_genConnStep3Native connectionId step2Bytes step2Len conns =
     (case getConnection connectionId of
        None \<Rightarrow> Ok (0, None, conns)
      | Some k \<Rightarrow>
        if step2Bytes = None then Ok (0, None, conns)
        else bindR (block_read step2Bytes (unat (scast step2Len :: u64))) (\<lambda>step2Bytes.
          bindR (ig_GuestConnectionStep2_decode step2Bytes ig_GuestConnectionStep2_init 0)
            (\<lambda>(step2_err, step2).
          if step2_err \<noteq> 0 \<or> \<not> ig_GuestConnectionStep2_is_valid step2 \<or>
             GuestConnectionStep2_nonce_size step2 \<noteq> kNonceLength
          then Ok (0, None, conns)
          else
            bindR (conn_at conns k) (\<lambda>c.
            bindR (block_read (GuestConnectionStep2_nonce step2) (GuestConnectionStep2_nonce_size step2))
              (\<lambda>nonce.
            let conns = conns[k := c\<lparr>txNonce := nonce\<rparr>] in
            bindR (ig_GuestConnectionStep3_set_nonce False (Some (rxNonce c)) kNonceLength
                     ig_GuestConnectionStep3_init) (\<lambda>step3.
            let step3MaxLen = ig_GuestConnectionStep3_get_max_payload_in_bytes step3 in
            bindR (ig_GuestConnectionStep3_encode step3 (replicate (unat step3MaxLen) 0) step3MaxLen)
              (\<lambda>(err, plaintextBytes, plaintextLen).
            if err \<noteq> 0 then Ok (0, None, conns)
            else
              let plaintextLen = (case plaintextLen of Some n \<Rightarrow> n | None \<Rightarrow> 0) in
              bindR (seal_slot conns k plaintextBytes (word_of_nat plaintextLen))
                (\<lambda>(retvalLen, retvalBytes, conns).
              if sint retvalLen < 0 then Ok (0, None, conns)
              else Ok (retvalLen, Some retvalBytes, conns)))))))))"

definition GuestConnection_recConnStep4Native ::
  "int \<Rightarrow> block_ptr \<Rightarrow> i32 \<Rightarrow> connections \<Rightarrow> (bool \<times> connections) res"
where
  "GuestConnection_recConnStep4Native connectionId messageBytes messageLen conns =
     (case getConnection connectionId of
        None \<Rightarrow> Ok (False, conns)
      | Some k \<Rightarrow>
        (case messageBytes of
           None \<Rightarrow> Ok (False, conns)
         | Some messageBytes \<Rightarrow>
           bindR (open_slot conns k messageBytes messageLen) (\<lambda>(step4Len, step4Bytes, conns).
           if sint step4Len < 0 then Ok (False, conns)
           else
             bindR (mem_slice step4Bytes 0 (unat step4Len)) (\<lambda>step4Bytes.
             bindR (ig_GuestConnectionStep4_decode step4Bytes ig_GuestConnectionStep4_init 0)
               (\<lambda>(err, step4).
             Ok (ig_GuestConnectionStep4_is_valid step4 \<and> GuestConnectionStep4_success step4, conns))))))"

section \<open>Sealing and opening on a slot\<close>

lemma seal_slot_seals:
  assumes ok: "conns_ok conns" and k: "k < 32"
    and msg: "take n d = msg" "length msg = n" "n \<le> 4096"
  shows "seal_slot conns k d (word_of_nat n) =
    Ok (word_of_nat (n + 8), seal (conn_key (conns ! k)) (txNonce (conns ! k)) msg,
        conns[k := (conns ! k)\<lparr>txNonce := incrementNonce (txNonce (conns ! k))\<rparr>])"
proof -
  let ?c = "conns ! k" and ?m = "word_of_nat (n + 8) :: u32"
  have c: "length (conn_key ?c) = 16" "length (txNonce ?c) = 12" using ok k conns_ok_nth by (auto simp: conn_ok_def)
  then have key: "good_key (conn_key ?c)" by (simp add: good_key_def)
  have size: "encryptDataSize (word_of_nat n) = ?m" by (simp add: encryptDataSize_def)
  have m: "unat ?m = n + 8" "unat (word_of_nat n :: u32) = n"
    using small_int_word [of "n + 8"] small_int_word [of n] msg by simp_all
  have "encryptData d (word_of_nat n) (replicate (unat ?m) 0) ?m (conn_key ?c)
      (word_of_nat (length (conn_key ?c))) (txNonce ?c) 12 =
    Ok (word_of_nat (length msg + 8), seal (conn_key ?c) (txNonce ?c) msg @ drop (length msg + 8) (replicate (unat ?m) 0))"
    by (rule encryptData_seals [OF key c(2)]) (use msg m in \<open>simp_all del: of_nat_add\<close>)
  then show ?thesis
    using ok k c m msg by (simp add: seal_slot_def conn_at_def size Let_def del: of_nat_add)
qed

lemma open_slot_unseals:
  assumes ok: "conns_ok conns" and k: "k < 32" and len: "8 \<le> length c" "length c \<le> 4096"
  shows "open_slot conns k c (word_of_nat (length c)) =
    (let conns' = conns[k := (conns ! k)\<lparr>rxNonce := incrementNonce (rxNonce (conns ! k))\<rparr>] in
     Ok (case unseal (conn_key (conns ! k)) (rxNonce (conns ! k)) c of
           Some msg \<Rightarrow> (word_of_nat (length c - 8), msg, conns')
         | None \<Rightarrow> (- 1, replicate (length c - 8) 0, conns')))"
proof -
  let ?c = "conns ! k" and ?m = "word_of_nat (length c - 8) :: u32"
  have c: "length (conn_key ?c) = 16" "length (rxNonce ?c) = 12" using ok k conns_ok_nth by (auto simp: conn_ok_def)
  then have key: "good_key (conn_key ?c)" by (simp add: good_key_def)
  have size: "decryptDataSize (word_of_nat (length c)) = ?m"
    using len by (simp add: decryptDataSize_def of_nat_diff)
  have m: "unat ?m = length c - 8" "unat (word_of_nat (length c) :: u32) = length c"
    using small_int_word [of "length c - 8"] small_int_word [of "length c"] len by simp_all
  have "decryptData c (word_of_nat (length c)) (replicate (unat ?m) 0) ?m (conn_key ?c)
      (word_of_nat (length (conn_key ?c))) (rxNonce ?c) 12 =
    Ok (case unseal (conn_key ?c) (rxNonce ?c) c of
          Some msg \<Rightarrow> (?m, msg @ drop (length c - 8) (replicate (unat ?m) 0))
        | None \<Rightarrow> (- 1, replicate (length c - 8) 0 @ drop (length c - 8) (replicate (unat ?m) 0)))"
    by (rule decryptData_unseals [OF key c(2) m(2) len]) (simp_all add: m)
  then have dec: "decryptData c (word_of_nat (length c)) (replicate (unat ?m) 0) ?m (conn_key ?c) 16 (rxNonce ?c) 12 =
      Ok (case unseal (conn_key ?c) (rxNonce ?c) c of
          Some msg \<Rightarrow> (?m, msg) | None \<Rightarrow> (- 1, replicate (length c - 8) 0))"
    using c m by (simp split: option.splits)
  have "conn_at conns k = Ok ?c" using ok k by (simp add: conn_at_def)
  then show ?thesis
    by (simp only: open_slot_def bindR.simps size Let_def dec)
      (simp split: option.splits del: of_nat_diff)
qed

section \<open>What the steps do\<close>

text \<open>The message objects that carry a nonce.\<close>
definition admin_step2 :: "bytes \<Rightarrow> IgAdminConnectionStep2" where
  "admin_step2 nonce = \<lparr>AdminConnectionStep2_has_nonce = True,
     AdminConnectionStep2_nonce = Some nonce, AdminConnectionStep2_nonce_size = length nonce\<rparr>"

definition guest_step3 :: "bytes \<Rightarrow> IgGuestConnectionStep3" where
  "guest_step3 nonce = \<lparr>GuestConnectionStep3_has_nonce = True,
     GuestConnectionStep3_nonce = Some nonce, GuestConnectionStep3_nonce_size = length nonce\<rparr>"

lemma codec_roundtripD:
  assumes "codec_roundtrip enc dec mp fresh ok" "ok r"
  shows "\<exists>buf n. enc r (replicate (unat (mp r)) 0) (mp r) = Ok (0, buf, Some n) \<and> n \<le> unat (mp r) \<and>
    length buf = unat (mp r) \<and> dec (take n buf) fresh 0 = Ok (0, r)"
  using assms unfolding codec_roundtrip_def by (metis length_replicate order_refl)

lemma set_nonce_step2:
  "length n = 12 \<Longrightarrow>
   ig_AdminConnectionStep2_set_nonce False (Some n) 12 ig_AdminConnectionStep2_init = Ok (admin_step2 n)"
  by (simp add: ig_AdminConnectionStep2_set_nonce_def ig_AdminConnectionStep2_init_def admin_step2_def Let_def)

lemma set_nonce_step3:
  "length n = 12 \<Longrightarrow>
   ig_GuestConnectionStep3_set_nonce False (Some n) 12 ig_GuestConnectionStep3_init = Ok (guest_step3 n)"
  by (simp add: ig_GuestConnectionStep3_set_nonce_def ig_GuestConnectionStep3_init_def guest_step3_def Let_def)

lemma admin_step2_encodes:
  assumes "length n = 12"
  shows "\<exists>buf m. ig_AdminConnectionStep2_encode (admin_step2 n) (replicate 32 0) 32 = Ok (0, buf, Some m) \<and>
    m \<le> 32 \<and> length buf = 32 \<and>
    ig_AdminConnectionStep2_decode (take m buf) ig_AdminConnectionStep2_init 0 = Ok (0, admin_step2 n)"
proof -
  have mp: "ig_AdminConnectionStep2_get_max_payload_in_bytes (admin_step2 n) = 32"
    using assms by (simp add: ig_AdminConnectionStep2_get_max_payload_in_bytes_def admin_step2_def)
  have "ig_AdminConnectionStep2_ok (admin_step2 n)"
    using assms by (simp add: ig_AdminConnectionStep2_ok_def ig_AdminConnectionStep2_is_valid_def
        admin_step2_def str_ok_def)
  from codec_roundtripD [OF AdminConnectionStep2_codec.roundtrip_codec this] show ?thesis by (simp add: mp)
qed

lemma guest_step3_encodes:
  assumes "length n = 12"
  shows "\<exists>buf m. ig_GuestConnectionStep3_encode (guest_step3 n) (replicate 32 0) 32 = Ok (0, buf, Some m) \<and>
    m \<le> 32 \<and> length buf = 32 \<and>
    ig_GuestConnectionStep3_decode (take m buf) ig_GuestConnectionStep3_init 0 = Ok (0, guest_step3 n)"
proof -
  have mp: "ig_GuestConnectionStep3_get_max_payload_in_bytes (guest_step3 n) = 32"
    using assms by (simp add: ig_GuestConnectionStep3_get_max_payload_in_bytes_def guest_step3_def)
  have "ig_GuestConnectionStep3_ok (guest_step3 n)"
    using assms by (simp add: ig_GuestConnectionStep3_ok_def ig_GuestConnectionStep3_is_valid_def
        guest_step3_def str_ok_def)
  from codec_roundtripD [OF GuestConnectionStep3_codec.roundtrip_codec this] show ?thesis by (simp add: mp)
qed

text \<open>Step 2 of the admin connection: the lock's nonce becomes the transmit nonce and is used once; the
  answer is sealed with it and carries the receive nonce of the slot.\<close>
lemma admin_answers:
  assumes ok: "conns_ok conns" and k: "k < 32" and bs: "length bs < 2 ^ 31"
    and dec: "ig_AdminConnectionStep1_decode bs ig_AdminConnectionStep1_init 0 = Ok (0, s1)"
    and s1: "AdminConnectionStep1_has_nonce s1" "AdminConnectionStep1_nonce s1 = Some N"
      "AdminConnectionStep1_nonce_size s1 = 12" "length N = 12"
  shows "\<exists>p. AdminConnection_genConnStep2Native (int k) (Some bs) (word_of_nat (length bs)) conns =
      Ok (word_of_nat (length p + 8), Some (seal (conn_key (conns ! k)) N p),
          conns[k := (conns ! k)\<lparr>txNonce := incrementNonce N\<rparr>]) \<and>
    ig_AdminConnectionStep2_decode p ig_AdminConnectionStep2_init 0 =
      Ok (0, admin_step2 (rxNonce (conns ! k)))"
proof -
  let ?c = "conns ! k"
  have rx: "length (rxNonce ?c) = 12" using ok k conns_ok_nth by (auto simp: conn_ok_def)
  obtain buf m where e: "ig_AdminConnectionStep2_encode (admin_step2 (rxNonce ?c)) (replicate 32 0) 32 = Ok (0, buf, Some m)"
    "m \<le> 32" "length buf = 32"
    "ig_AdminConnectionStep2_decode (take m buf) ig_AdminConnectionStep2_init 0 = Ok (0, admin_step2 (rxNonce ?c))"
    using admin_step2_encodes [OF rx] by blast
  have mp: "ig_AdminConnectionStep2_get_max_payload_in_bytes (admin_step2 (rxNonce ?c)) = 32"
    using rx by (simp add: ig_AdminConnectionStep2_get_max_payload_in_bytes_def admin_step2_def)
  let ?conns = "conns[k := ?c\<lparr>txNonce := N\<rparr>]"
  have ok': "conns_ok ?conns" using ok k s1(4) by simp
  have "seal_slot ?conns k buf (word_of_nat m) =
      Ok (word_of_nat (m + 8), seal (conn_key (?conns ! k)) (txNonce (?conns ! k)) (take m buf),
        ?conns[k := (?conns ! k)\<lparr>txNonce := incrementNonce (txNonce (?conns ! k))\<rparr>])"
    by (rule seal_slot_seals [OF ok' k]) (use e in simp_all)
  then have seal: "seal_slot ?conns k buf (word_of_nat m) =
      Ok (word_of_nat (m + 8), seal (conn_key ?c) N (take m buf), conns[k := ?c\<lparr>txNonce := incrementNonce N\<rparr>])"
    using ok k by simp
  have len: "sint (word_of_nat (length bs) :: i32) = int (length bs)" "unat (word_of_nat (length bs) :: i32) = length bs"
    "sint (word_of_nat (m + 8) :: i32) = int (m + 8)"
    using small_int_word [OF bs] small_int_word [of "m + 8"] e(2) by simp_all
  have "AdminConnection_genConnStep2Native (int k) (Some bs) (word_of_nat (length bs)) conns =
      Ok (word_of_nat (m + 8), Some (seal (conn_key ?c) N (take m buf)), conns[k := ?c\<lparr>txNonce := incrementNonce N\<rparr>])"
    using ok k dec s1 rx len
    by (simp add: AdminConnection_genConnStep2Native_def getConnection_def ig_AdminConnectionStep1_is_valid_def
        conn_at_def set_nonce_step2 mp e(1) seal Let_def del: of_nat_add)
  then show ?thesis using e by (intro exI [of _ "take m buf"]) simp
qed

lemma guest_answers_short:
  assumes ok: "conns_ok conns" and k: "k < 32" and bs: "length bs < 2 ^ 31"
    and dec: "ig_GuestConnectionStep2_decode bs ig_GuestConnectionStep2_init 0 = Ok (0, s2)"
    and s2: "GuestConnectionStep2_has_nonce s2" "GuestConnectionStep2_nonce s2 = Some N"
      "GuestConnectionStep2_nonce_size s2 = 12" "length N = 12"
  shows "\<exists>p. GuestConnection_genConnStep3Native (int k) (Some bs) (word_of_nat (length bs)) conns =
      Ok (word_of_nat (length p + 8), Some (seal (conn_key (conns ! k)) N p),
          conns[k := (conns ! k)\<lparr>txNonce := incrementNonce N\<rparr>]) \<and>
    ig_GuestConnectionStep3_decode p ig_GuestConnectionStep3_init 0 =
      Ok (0, guest_step3 (rxNonce (conns ! k))) \<and> length p \<le> 32"
proof -
  let ?c = "conns ! k"
  have rx: "length (rxNonce ?c) = 12" using ok k conns_ok_nth by (auto simp: conn_ok_def)
  obtain buf m where e: "ig_GuestConnectionStep3_encode (guest_step3 (rxNonce ?c)) (replicate 32 0) 32 = Ok (0, buf, Some m)"
    "m \<le> 32" "length buf = 32"
    "ig_GuestConnectionStep3_decode (take m buf) ig_GuestConnectionStep3_init 0 = Ok (0, guest_step3 (rxNonce ?c))"
    using guest_step3_encodes [OF rx] by blast
  have mp: "ig_GuestConnectionStep3_get_max_payload_in_bytes (guest_step3 (rxNonce ?c)) = 32"
    using rx by (simp add: ig_GuestConnectionStep3_get_max_payload_in_bytes_def guest_step3_def)
  let ?conns = "conns[k := ?c\<lparr>txNonce := N\<rparr>]"
  have ok': "conns_ok ?conns" using ok k s2(4) by simp
  have "seal_slot ?conns k buf (word_of_nat m) =
      Ok (word_of_nat (m + 8), seal (conn_key (?conns ! k)) (txNonce (?conns ! k)) (take m buf),
        ?conns[k := (?conns ! k)\<lparr>txNonce := incrementNonce (txNonce (?conns ! k))\<rparr>])"
    by (rule seal_slot_seals [OF ok' k]) (use e in simp_all)
  then have seal: "seal_slot ?conns k buf (word_of_nat m) =
      Ok (word_of_nat (m + 8), seal (conn_key ?c) N (take m buf), conns[k := ?c\<lparr>txNonce := incrementNonce N\<rparr>])"
    using ok k by simp
  have "(scast (word_of_nat (length bs) :: i32) :: u64) = word_of_nat (length bs)"
    using small_int_word [OF bs] by (simp only: scast_eq) simp
  then have len: "unat (scast (word_of_nat (length bs) :: i32) :: u64) = length bs"
    "sint (word_of_nat (m + 8) :: i32) = int (m + 8)"
    using bs small_int_word [of "m + 8"] e(2) by (simp_all add: unat_of_nat take_bit_nat_eq_self del: of_nat_add)
  have "GuestConnection_genConnStep3Native (int k) (Some bs) (word_of_nat (length bs)) conns =
      Ok (word_of_nat (m + 8), Some (seal (conn_key ?c) N (take m buf)), conns[k := ?c\<lparr>txNonce := incrementNonce N\<rparr>])"
    using ok k dec s2 rx len
    by (simp add: GuestConnection_genConnStep3Native_def getConnection_def ig_GuestConnectionStep2_is_valid_def
        conn_at_def set_nonce_step3 mp e(1) seal Let_def del: of_nat_add)
  then show ?thesis using e by (intro exI [of _ "take m buf"]) simp
qed

lemma guest_answers:
  assumes ok: "conns_ok conns" and k: "k < 32" and bs: "length bs < 2 ^ 31"
    and dec: "ig_GuestConnectionStep2_decode bs ig_GuestConnectionStep2_init 0 = Ok (0, s2)"
    and s2: "GuestConnectionStep2_has_nonce s2" "GuestConnectionStep2_nonce s2 = Some N"
      "GuestConnectionStep2_nonce_size s2 = 12" "length N = 12"
  shows "\<exists>p. GuestConnection_genConnStep3Native (int k) (Some bs) (word_of_nat (length bs)) conns =
      Ok (word_of_nat (length p + 8), Some (seal (conn_key (conns ! k)) N p),
          conns[k := (conns ! k)\<lparr>txNonce := incrementNonce N\<rparr>]) \<and>
    ig_GuestConnectionStep3_decode p ig_GuestConnectionStep3_init 0 =
      Ok (0, guest_step3 (rxNonce (conns ! k)))"
  using guest_answers_short [OF assms] by blast

text \<open>Step 3: accepted exactly if the tag is right and the message in it decodes to success; the
  receive nonce moves in both cases.\<close>
lemma admin_confirms:
  assumes ok: "conns_ok conns" and k: "k < 32" and len: "8 \<le> length c" "length c \<le> 4096"
  defines "conns' \<equiv> conns[k := (conns ! k)\<lparr>rxNonce := incrementNonce (rxNonce (conns ! k))\<rparr>]"
  shows "AdminConnection_recConnStep3Native (int k) (Some c) (word_of_nat (length c)) conns =
    (case unseal (conn_key (conns ! k)) (rxNonce (conns ! k)) c of
       None \<Rightarrow> Ok (False, conns')
     | Some p \<Rightarrow> bindR (ig_AdminConnectionStep3_decode p ig_AdminConnectionStep3_init 0) (\<lambda>(err, s3).
         Ok (AdminConnectionStep3_has_success s3 \<and> AdminConnectionStep3_success s3, conns')))"
proof -
  let ?c = "conns ! k"
  have c: "length (conn_key ?c) = 16" "length (rxNonce ?c) = 12" using ok k conns_ok_nth by (auto simp: conn_ok_def)
  have m: "sint (word_of_nat (length c - 8) :: i32) = int (length c - 8)"
    "unat (word_of_nat (length c - 8) :: i32) = length c - 8"
    using small_int_word [of "length c - 8"] len by simp_all
  have key: "good_key (conn_key ?c)" using c by (simp add: good_key_def)
  have p: "mem_slice p 0 (length c - 8) = Ok p" if "unseal (conn_key ?c) (rxNonce ?c) c = Some p" for p
    using that key c by (simp add: unseal_Some_iff mem_slice_def)
  show ?thesis
    using k open_slot_unseals [OF ok k len] m p
    by (cases "unseal (conn_key ?c) (rxNonce ?c) c")
       (simp_all add: AdminConnection_recConnStep3Native_def getConnection_def conns'_def Let_def
         ig_AdminConnectionStep3_is_valid_def del: of_nat_diff)
qed

lemma guest_confirms:
  assumes ok: "conns_ok conns" and k: "k < 32" and len: "8 \<le> length c" "length c \<le> 4096"
  defines "conns' \<equiv> conns[k := (conns ! k)\<lparr>rxNonce := incrementNonce (rxNonce (conns ! k))\<rparr>]"
  shows "GuestConnection_recConnStep4Native (int k) (Some c) (word_of_nat (length c)) conns =
    (case unseal (conn_key (conns ! k)) (rxNonce (conns ! k)) c of
       None \<Rightarrow> Ok (False, conns')
     | Some p \<Rightarrow> bindR (ig_GuestConnectionStep4_decode p ig_GuestConnectionStep4_init 0) (\<lambda>(err, s4).
         Ok (GuestConnectionStep4_has_success s4 \<and> GuestConnectionStep4_success s4, conns')))"
proof -
  let ?c = "conns ! k"
  have c: "length (conn_key ?c) = 16" "length (rxNonce ?c) = 12" using ok k conns_ok_nth by (auto simp: conn_ok_def)
  have m: "sint (word_of_nat (length c - 8) :: i32) = int (length c - 8)"
    "unat (word_of_nat (length c - 8) :: i32) = length c - 8"
    using small_int_word [of "length c - 8"] len by simp_all
  have key: "good_key (conn_key ?c)" using c by (simp add: good_key_def)
  have p: "mem_slice p 0 (length c - 8) = Ok p" if "unseal (conn_key ?c) (rxNonce ?c) c = Some p" for p
    using that key c by (simp add: unseal_Some_iff mem_slice_def)
  show ?thesis
    using k open_slot_unseals [OF ok k len] m p
    by (cases "unseal (conn_key ?c) (rxNonce ?c) c")
       (simp_all add: GuestConnection_recConnStep4Native_def getConnection_def conns'_def Let_def
         ig_GuestConnectionStep4_is_valid_def del: of_nat_diff)
qed

text \<open>After the exchange both directions are in step with a peer that holds the same key, expects the
  next nonce and sends from the nonce it was given.\<close>
lemma handshake_in_step:
  assumes ok: "conns_ok A" "conns_ok B" "i < 32" "j < 32" and N: "length N = 12"
    and peer: "conn_key (B ! j) = conn_key (A ! i)" "rxNonce (B ! j) = incrementNonce N"
      "txNonce (B ! j) = rxNonce (A ! i)"
  defines "A' \<equiv> A[i := (A ! i)\<lparr>txNonce := incrementNonce N\<rparr>]"
  shows "in_step i A' j B \<and> in_step j B i A'"
  using assms by (simp add: in_step_def A'_def)

end
