(* ===== verification/Pairing.thy ===== *)
theory Pairing
  imports Handshake
begin

text \<open>
  Pairing with a lock, \<open>lock/connection/pairing_connection.c\<close>: the static keys and nonces of the file
  as one record (a trailing underscore of a C name is dropped, \<open>txNonce_\<close> and \<open>rxNonce_\<close> are
  \<open>p_txNonce\<close> and \<open>p_rxNonce\<close>) and the operations that use them.  The curve operations of micro-ecc are
  parameters: \<open>make_key\<close> is the key pair \<open>uECC_make_key\<close> writes (\<open>None\<close> when it fails),
  \<open>shared_secret pub priv\<close> the 32 bytes \<open>uECC_shared_secret\<close> writes (\<open>None\<close> when it does not return 1).
  \<open>calloc\<close> succeeds.  \<open>*ret\<close> is a result of its own, \<open>None\<close> for NULL.
\<close>

section \<open>The code\<close>

abbreviation (input) kPrivateKeyLength :: nat where "kPrivateKeyLength \<equiv> 32"
abbreviation (input) kPublicKeyLength :: nat where "kPublicKeyLength \<equiv> 64"

record pairing_state =
  privateKey :: bytes
  publicKey :: bytes
  otherPublicKey :: bytes
  p_txNonce :: bytes
  p_rxNonce :: bytes
  sharedKey :: bytes

definition pairing_init :: pairing_state where
  "pairing_init = \<lparr>privateKey = replicate 32 0, publicKey = replicate 64 0,
     otherPublicKey = replicate 64 0, p_txNonce = replicate 12 0, p_rxNonce = replicate 12 0,
     sharedKey = replicate 16 0\<rparr>"

definition PairingConnection_beginConnection ::
  "(bytes \<times> bytes) option \<Rightarrow> (nat \<Rightarrow> nat \<Rightarrow> nat) \<Rightarrow> nat \<Rightarrow> pairing_state \<Rightarrow> bool \<times> pairing_state"
where
  "PairingConnection_beginConnection make_key rand t s =
     (case make_key of
        None \<Rightarrow> (False, s)
      | Some (pub, priv) \<Rightarrow>
          (True, s\<lparr>publicKey := pub, privateKey := priv,
                   p_rxNonce := generateRandomNonce rand t kNonceLength\<rparr>))"

definition PairingConnection_genPairingStep1Native ::
  "pairing_state \<Rightarrow> (i32 \<times> bytes option) res"
where
  "PairingConnection_genPairingStep1Native s =
     bindR (ig_PairingStep1_set_public_key False (Some (publicKey s)) kPublicKeyLength
              ig_PairingStep1_init) (\<lambda>step1.
     let retvalMaxLen = ig_PairingStep1_get_max_payload_in_bytes step1 in
     bindR (ig_PairingStep1_encode step1 (replicate (unat retvalMaxLen) 0) retvalMaxLen)
       (\<lambda>(err, retvalBytes, retvalLen).
     if err \<noteq> 0 then Ok (0, None)
     else
       let retvalLen = (case retvalLen of Some n \<Rightarrow> n | None \<Rightarrow> 0) in
       bindR (mem_slice retvalBytes 0 retvalLen) (\<lambda>retBytes.
         Ok (word_of_nat retvalLen, Some retBytes))))"

text \<open>\<open>encryptDataSize\<close>, the block, \<open>encryptData\<close> with the static key and \<open>incrementNonce(p_txNonce)\<close>.\<close>
definition pairing_seal :: "pairing_state \<Rightarrow> bytes \<Rightarrow> u32 \<Rightarrow> (i32 \<times> bytes \<times> pairing_state) res" where
  "pairing_seal s plaintextBytes plaintextLen =
     (let retvalMaxLen = encryptDataSize plaintextLen in
      bindR (encryptData plaintextBytes plaintextLen (replicate (unat retvalMaxLen) 0) retvalMaxLen
               (sharedKey s) 16 (p_txNonce s) 12) (\<lambda>(retvalLen, retvalBytes).
        Ok (retvalLen, retvalBytes, s\<lparr>p_txNonce := incrementNonce (p_txNonce s)\<rparr>)))"

definition PairingConnection_genPairingStep3Native ::
  "(bytes \<Rightarrow> bytes \<Rightarrow> bytes option) \<Rightarrow> i32 \<Rightarrow> block_ptr \<Rightarrow> pairing_state \<Rightarrow>
   (i32 \<times> bytes option \<times> pairing_state) res"
where
  "PairingConnection_genPairingStep3Native shared_secret step2Len jPairingStep2 s =
     (if jPairingStep2 = None \<or> step2Len = 0 then Ok (0, None, s)
      else if sint step2Len < 0 then Fault OutOfBounds
      else bindR (block_read jPairingStep2 (unat step2Len)) (\<lambda>step2Bytes.
        bindR (ig_PairingStep2_decode step2Bytes ig_PairingStep2_init 0) (\<lambda>(step2_err, step2).
        if step2_err \<noteq> 0 \<or> \<not> ig_PairingStep2_is_valid step2 \<or>
           PairingStep2_nonce_size step2 \<noteq> kNonceLength \<or> \<not> PairingStep2_has_public_key step2 \<or>
           PairingStep2_public_key_size step2 \<noteq> kPublicKeyLength
        then Ok (0, None, s)
        else
          bindR (block_read (PairingStep2_nonce step2) (PairingStep2_nonce_size step2)) (\<lambda>nonce.
          bindR (block_read (PairingStep2_public_key step2) kPublicKeyLength) (\<lambda>pub.
          let s = s\<lparr>p_txNonce := nonce, otherPublicKey := pub\<rparr> in
          case shared_secret pub (privateKey s) of
            None \<Rightarrow> Ok (0, None, s)
          | Some sharedSecret \<Rightarrow>
            bindR (mem_slice sharedSecret 0 16) (\<lambda>key.
            let s = s\<lparr>sharedKey := key\<rparr> in
            bindR (ig_PairingStep3_set_nonce False (Some (p_rxNonce s)) kNonceLength ig_PairingStep3_init)
              (\<lambda>step3.
            let step3MaxLen = ig_PairingStep3_get_max_payload_in_bytes step3 in
            bindR (ig_PairingStep3_encode step3 (replicate (unat step3MaxLen) 0) step3MaxLen)
              (\<lambda>(err, plaintextBytes, plaintextLen).
            if err \<noteq> 0 then Ok (0, None, s)
            else
              let plaintextLen = (case plaintextLen of Some n \<Rightarrow> n | None \<Rightarrow> 0) in
              bindR (pairing_seal s plaintextBytes (word_of_nat plaintextLen))
                (\<lambda>(retvalLen, retvalBytes, s).
              if sint retvalLen < 0 then Ok (0, None, s)
              else Ok (retvalLen, Some retvalBytes, s))))))))))"

text \<open>The members with their \<open>has_\<close> flag set are copied, the rest is zero.\<close>
definition copyIgPairingStep4 :: "IgPairingStep4 \<Rightarrow> IgPairingStep4 res" where
  "copyIgPairingStep4 step4 =
     (let copy = ig_PairingStep4_init;
          copy = (if PairingStep4_has_success step4
                  then copy\<lparr>PairingStep4_has_success := True, PairingStep4_success := PairingStep4_success step4\<rparr>
                  else copy);
          copy = (if PairingStep4_has_gmt_offset step4
                  then copy\<lparr>PairingStep4_has_gmt_offset := True,
                            PairingStep4_gmt_offset := PairingStep4_gmt_offset step4\<rparr>
                  else copy)
      in bindR (if PairingStep4_has_master_pin step4
                then bindR (block_read (PairingStep4_master_pin step4) (PairingStep4_master_pin_size step4))
                  (\<lambda>d. Ok (copy\<lparr>PairingStep4_has_master_pin := True,
                     PairingStep4_master_pin_size := PairingStep4_master_pin_size step4,
                     PairingStep4_master_pin := Some d\<rparr>))
                else Ok copy) (\<lambda>copy.
         bindR (if PairingStep4_has_pin_key step4
                then bindR (block_read (PairingStep4_pin_key step4) (PairingStep4_pin_key_size step4))
                  (\<lambda>d. Ok (copy\<lparr>PairingStep4_has_pin_key := True,
                     PairingStep4_pin_key_size := PairingStep4_pin_key_size step4,
                     PairingStep4_pin_key := Some d\<rparr>))
                else Ok copy) (\<lambda>copy.
         if PairingStep4_has_password step4
         then bindR (block_read (PairingStep4_password step4) (PairingStep4_password_size step4))
           (\<lambda>d. Ok (copy\<lparr>PairingStep4_has_password := True,
              PairingStep4_password_size := PairingStep4_password_size step4,
              PairingStep4_password := Some d\<rparr>))
         else Ok copy)))"

text \<open>The result \<open>Some step4\<close> stands for a return of \<open>sizeof(IgPairingStep4)\<close> with \<open>*ret\<close> pointing to the
  copy, \<open>None\<close> for a return of 0.  A negative length makes the array \<open>messageBytes\<close> undefined.\<close>
definition PairingConnection_recPairingStep4Native ::
  "i32 \<Rightarrow> block_ptr \<Rightarrow> pairing_state \<Rightarrow> (IgPairingStep4 option \<times> pairing_state) res"
where
  "PairingConnection_recPairingStep4Native messageLen jPairingStep4 s =
     (if jPairingStep4 = None then Ok (None, s)
      else if sint messageLen < 0 then Fault OutOfBounds
      else bindR (block_read jPairingStep4 (unat messageLen)) (\<lambda>messageBytes.
        let step4MaxLen = decryptDataSize messageLen in
        bindR (decryptData messageBytes messageLen (replicate (unat step4MaxLen) 0) step4MaxLen
                 (sharedKey s) 16 (p_rxNonce s) 12) (\<lambda>(step4Len, step4Bytes).
        let s = s\<lparr>p_rxNonce := incrementNonce (p_rxNonce s)\<rparr> in
        if sint step4Len < 0 then Ok (None, s)
        else
          bindR (mem_slice step4Bytes 0 (unat step4Len)) (\<lambda>step4Bytes.
          bindR (ig_PairingStep4_decode step4Bytes ig_PairingStep4_init 0) (\<lambda>(err, step4).
          if \<not> ig_PairingStep4_is_valid step4 \<or> \<not> PairingStep4_success step4 then Ok (None, s)
          else bindR (copyIgPairingStep4 step4) (\<lambda>copy. Ok (Some copy, s)))))))"

text \<open>The block is copied before the test of the length: a negative length is read out of bounds.\<close>
definition PairingConnection_genPairingCommitNative ::
  "i32 \<Rightarrow> pairing_state \<Rightarrow> (i32 \<times> bytes option \<times> pairing_state) res"
where
  "PairingConnection_genPairingCommitNative currentTime s =
     (let pairingCommit = ig_PairingCommit_set_current_time currentTime ig_PairingCommit_init;
          maxLen = ig_PairingCommit_get_max_payload_in_bytes pairingCommit in
      bindR (ig_PairingCommit_encode pairingCommit (replicate (unat maxLen) 0) maxLen)
        (\<lambda>(err, plaintextBytes, plaintextLen).
      if err \<noteq> 0 then Ok (0, None, s)
      else
        let plaintextLen = (case plaintextLen of Some n \<Rightarrow> n | None \<Rightarrow> 0) in
        bindR (pairing_seal s plaintextBytes (word_of_nat plaintextLen)) (\<lambda>(retvalLen, retvalBytes, s).
        bindR (mem_slice retvalBytes 0 (unat retvalLen)) (\<lambda>d.
        if sint retvalLen < 0 then Ok (0, None, s)
        else Ok (retvalLen, Some d, s)))))"

definition PairingConnection_getAdminKeyNative :: "pairing_state \<Rightarrow> (i32 \<times> bytes) res" where
  "PairingConnection_getAdminKeyNative s =
     bindR (mem_slice (sharedKey s) 0 kConnectionKeyLength) (\<lambda>d. Ok (16, d))"

section \<open>The invariant\<close>

definition pairing_ok :: "pairing_state \<Rightarrow> bool" where
  "pairing_ok s \<longleftrightarrow> length (privateKey s) = 32 \<and> length (publicKey s) = 64 \<and>
     length (otherPublicKey s) = 64 \<and> length (p_txNonce s) = 12 \<and> length (p_rxNonce s) = 12 \<and>
     length (sharedKey s) = 16"

lemma pairing_ok_init: "pairing_ok pairing_init"
  by (simp add: pairing_ok_def pairing_init_def)

lemma pairing_begin_ok:
  assumes "pairing_ok s" "\<And>pub priv. make_key = Some (pub, priv) \<Longrightarrow> length pub = 64 \<and> length priv = 32"
    and "PairingConnection_beginConnection make_key rand t s = (b, s')"
  shows "pairing_ok s'"
  using assms by (auto simp: PairingConnection_beginConnection_def pairing_ok_def split: option.splits)

section \<open>What the steps do\<close>

definition pairing_step1 :: "bytes \<Rightarrow> IgPairingStep1" where
  "pairing_step1 pub = \<lparr>PairingStep1_has_public_key = True, PairingStep1_public_key = Some pub,
     PairingStep1_public_key_size = length pub\<rparr>"

definition pairing_step3 :: "bytes \<Rightarrow> IgPairingStep3" where
  "pairing_step3 nonce = ig_PairingStep3_init\<lparr>PairingStep3_has_nonce := True,
     PairingStep3_nonce := Some nonce, PairingStep3_nonce_size := length nonce\<rparr>"

lemma pairing_seal_seals:
  assumes ok: "pairing_ok s" and msg: "take n d = msg" "length msg = n" "n \<le> 4096"
  shows "pairing_seal s d (word_of_nat n) =
    Ok (word_of_nat (n + 8), seal (sharedKey s) (p_txNonce s) msg,
        s\<lparr>p_txNonce := incrementNonce (p_txNonce s)\<rparr>)"
proof -
  let ?m = "word_of_nat (n + 8) :: u32"
  have c: "length (sharedKey s) = 16" "length (p_txNonce s) = 12" using ok by (auto simp: pairing_ok_def)
  then have key: "good_key (sharedKey s)" by (simp add: good_key_def)
  have size: "encryptDataSize (word_of_nat n) = ?m" by (simp add: encryptDataSize_def)
  have m: "unat ?m = n + 8" "unat (word_of_nat n :: u32) = n"
    using small_int_word [of "n + 8"] small_int_word [of n] msg by simp_all
  have "encryptData d (word_of_nat n) (replicate (unat ?m) 0) ?m (sharedKey s)
      (word_of_nat (length (sharedKey s))) (p_txNonce s) 12 =
    Ok (word_of_nat (length msg + 8), seal (sharedKey s) (p_txNonce s) msg @ drop (length msg + 8) (replicate (unat ?m) 0))"
    by (rule encryptData_seals [OF key c(2)]) (use msg m in \<open>simp_all del: of_nat_add\<close>)
  then show ?thesis
    using c m msg by (simp add: pairing_seal_def size Let_def del: of_nat_add)
qed

text \<open>Step 1 carries the public key.\<close>
lemma step1_carries_key:
  assumes "length (publicKey s) = 64"
  shows "\<exists>p. PairingConnection_genPairingStep1Native s = Ok (word_of_nat (length p), Some p) \<and> length p \<le> 84 \<and>
    ig_PairingStep1_decode p ig_PairingStep1_init 0 = Ok (0, pairing_step1 (publicKey s))"
proof -
  let ?o = "pairing_step1 (publicKey s)"
  have mp: "ig_PairingStep1_get_max_payload_in_bytes ?o = 84"
    using assms by (simp add: ig_PairingStep1_get_max_payload_in_bytes_def pairing_step1_def)
  have "ig_PairingStep1_ok ?o"
    using assms by (simp add: ig_PairingStep1_ok_def ig_PairingStep1_is_valid_def pairing_step1_def str_ok_def)
  from codec_roundtripD [OF PairingStep1_codec.roundtrip_codec this] obtain buf n where
    e: "ig_PairingStep1_encode ?o (replicate 84 0) 84 = Ok (0, buf, Some n)" "n \<le> 84" "length buf = 84"
    "ig_PairingStep1_decode (take n buf) ig_PairingStep1_init 0 = Ok (0, ?o)"
    by (auto simp: mp)
  have "ig_PairingStep1_set_public_key False (Some (publicKey s)) 64 ig_PairingStep1_init = Ok ?o"
    using assms by (simp add: ig_PairingStep1_set_public_key_def ig_PairingStep1_init_def pairing_step1_def Let_def)
  then show ?thesis
    using e mp by (intro exI [of _ "take n buf"])
      (simp add: PairingConnection_genPairingStep1Native_def mem_slice_def Let_def)
qed

text \<open>Step 3: the first half of the shared secret becomes the key, and the sealed answer carries the
  receive nonce.\<close>
lemma step3_answers:
  assumes ok: "pairing_ok s" and bs: "bs \<noteq> []" "length bs < 2 ^ 31"
    and dec: "ig_PairingStep2_decode bs ig_PairingStep2_init 0 = Ok (0, s2)"
    and s2: "PairingStep2_has_nonce s2" "PairingStep2_nonce s2 = Some N" "PairingStep2_nonce_size s2 = 12"
      "length N = 12" "PairingStep2_has_public_key s2" "PairingStep2_public_key s2 = Some Q"
      "PairingStep2_public_key_size s2 = 64" "length Q = 64"
    and secret: "shared_secret Q (privateKey s) = Some z" "length z = 32"
  shows "\<exists>p. PairingConnection_genPairingStep3Native shared_secret (word_of_nat (length bs)) (Some bs) s =
      Ok (word_of_nat (length p + 8), Some (seal (take 16 z) N p),
          s\<lparr>otherPublicKey := Q, sharedKey := take 16 z, p_txNonce := incrementNonce N\<rparr>) \<and> length p \<le> 66 \<and>
    ig_PairingStep3_decode p ig_PairingStep3_init 0 = Ok (0, pairing_step3 (p_rxNonce s))"
proof -
  let ?o = "pairing_step3 (p_rxNonce s)"
  let ?s = "s\<lparr>p_txNonce := N, otherPublicKey := Q, sharedKey := take 16 z\<rparr>"
  have rx: "length (p_rxNonce s) = 12" using ok by (simp add: pairing_ok_def)
  have mp: "ig_PairingStep3_get_max_payload_in_bytes ?o = 66"
    using rx by (simp add: ig_PairingStep3_get_max_payload_in_bytes_def pairing_step3_def ig_PairingStep3_init_def)
  have "ig_PairingStep3_ok ?o"
    using rx by (simp add: ig_PairingStep3_ok_def ig_PairingStep3_is_valid_def pairing_step3_def
        ig_PairingStep3_init_def str_ok_def num_ok_def)
  from codec_roundtripD [OF PairingStep3_codec.roundtrip_codec this] obtain buf n where
    e: "ig_PairingStep3_encode ?o (replicate 66 0) 66 = Ok (0, buf, Some n)" "n \<le> 66" "length buf = 66"
    "ig_PairingStep3_decode (take n buf) ig_PairingStep3_init 0 = Ok (0, ?o)"
    by (auto simp: mp)
  have set_n: "ig_PairingStep3_set_nonce False (Some (p_rxNonce s)) 12 ig_PairingStep3_init = Ok ?o"
    using rx by (simp add: ig_PairingStep3_set_nonce_def ig_PairingStep3_init_def pairing_step3_def Let_def)
  have ok': "pairing_ok ?s" using ok s2 secret by (simp add: pairing_ok_def)
  have sl: "pairing_seal ?s buf (word_of_nat n) =
      Ok (word_of_nat (n + 8), seal (take 16 z) N (take n buf),
          s\<lparr>otherPublicKey := Q, sharedKey := take 16 z, p_txNonce := incrementNonce N\<rparr>)"
    by (subst pairing_seal_seals [OF ok', of n buf "take n buf"]) (use e in simp_all)
  have len: "sint (word_of_nat (length bs) :: i32) = int (length bs)" "unat (word_of_nat (length bs) :: i32) = length bs"
    "sint (word_of_nat (n + 8) :: i32) = int (n + 8)"
    using small_int_word [OF bs(2)] small_int_word [of "n + 8"] e(2) by simp_all
  have nz: "(word_of_nat (length bs) :: i32) \<noteq> 0"
    using len(2) bs(1) by (metis length_0_conv unat_0)
  have key: "mem_slice z 0 16 = Ok (take 16 z)" using secret(2) by (simp add: mem_slice_def)
  have "PairingConnection_genPairingStep3Native shared_secret (word_of_nat (length bs)) (Some bs) s =
      Ok (word_of_nat (n + 8), Some (seal (take 16 z) N (take n buf)),
          s\<lparr>otherPublicKey := Q, sharedKey := take 16 z, p_txNonce := incrementNonce N\<rparr>)"
    using nz len dec s2 secret key set_n
    by (simp add: PairingConnection_genPairingStep3Native_def ig_PairingStep2_is_valid_def mp e(1) sl Let_def
        del: of_nat_add)
  then show ?thesis using e by (intro exI [of _ "take n buf"]) simp
qed

text \<open>The commit message is sealed under the new key; it never fails.\<close>
lemma commit_seals:
  assumes ok: "pairing_ok s"
  shows "\<exists>p. PairingConnection_genPairingCommitNative t s =
      Ok (word_of_nat (length p + 8), Some (seal (sharedKey s) (p_txNonce s) p),
          s\<lparr>p_txNonce := incrementNonce (p_txNonce s)\<rparr>) \<and> length p \<le> 19 \<and>
    ig_PairingCommit_decode p ig_PairingCommit_init 0 =
      Ok (0, ig_PairingCommit_set_current_time t ig_PairingCommit_init)"
proof -
  let ?o = "ig_PairingCommit_set_current_time t ig_PairingCommit_init"
  have mp: "ig_PairingCommit_get_max_payload_in_bytes ?o = 19"
    by (simp add: ig_PairingCommit_get_max_payload_in_bytes_def)
  have "ig_PairingCommit_ok ?o"
    by (simp add: ig_PairingCommit_ok_def ig_PairingCommit_is_valid_def ig_PairingCommit_set_current_time_def num_ok_def)
  from codec_roundtripD [OF PairingCommit_codec.roundtrip_codec this] obtain buf n where
    e: "ig_PairingCommit_encode ?o (replicate 19 0) 19 = Ok (0, buf, Some n)" "n \<le> 19" "length buf = 19"
    "ig_PairingCommit_decode (take n buf) ig_PairingCommit_init 0 = Ok (0, ?o)"
    by (auto simp: mp)
  have sl: "pairing_seal s buf (word_of_nat n) =
      Ok (word_of_nat (n + 8), seal (sharedKey s) (p_txNonce s) (take n buf),
          s\<lparr>p_txNonce := incrementNonce (p_txNonce s)\<rparr>)"
    by (rule pairing_seal_seals [OF ok]) (use e in simp_all)
  have c: "good_key (sharedKey s)" "length (p_txNonce s) = 12" using ok by (auto simp: pairing_ok_def good_key_def)
  have len: "sint (word_of_nat (n + 8) :: i32) = int (n + 8)" "unat (word_of_nat (n + 8) :: i32) = n + 8"
    using small_int_word [of "n + 8"] e(2) by simp_all
  have "mem_slice (seal (sharedKey s) (p_txNonce s) (take n buf)) 0 (n + 8) = Ok (seal (sharedKey s) (p_txNonce s) (take n buf))"
    using c e by (simp add: mem_slice_def)
  then show ?thesis
    using e sl len mp by (intro exI [of _ "take n buf"])
      (simp add: PairingConnection_genPairingCommitNative_def Let_def del: of_nat_add)
qed

text \<open>A well-formed step 4 is copied member by member.\<close>
lemma copy_step4:
  assumes "ig_PairingStep4_ok s4"
  shows "copyIgPairingStep4 s4 = Ok s4"
  using assms
  by (auto simp: ig_PairingStep4_ok_def copyIgPairingStep4_def ig_PairingStep4_init_def
      ig_PairingStep4_is_valid_def str_ok_def num_ok_def flag_ok_def Let_def split: option.splits)

text \<open>Step 4: nothing if the tag is wrong or the message says no success, else the copy; the receive
  nonce moves in each case.\<close>
lemma step4_receives:
  assumes ok: "pairing_ok s" and len: "8 \<le> length c" "length c \<le> 4096"
  defines "s' \<equiv> s\<lparr>p_rxNonce := incrementNonce (p_rxNonce s)\<rparr>"
  shows "PairingConnection_recPairingStep4Native (word_of_nat (length c)) (Some c) s =
    (case unseal (sharedKey s) (p_rxNonce s) c of
       None \<Rightarrow> Ok (None, s')
     | Some p \<Rightarrow> bindR (ig_PairingStep4_decode p ig_PairingStep4_init 0) (\<lambda>(err, s4).
         if \<not> PairingStep4_has_success s4 \<or> \<not> PairingStep4_success s4 then Ok (None, s')
         else bindR (copyIgPairingStep4 s4) (\<lambda>copy. Ok (Some copy, s'))))"
proof -
  let ?k = "sharedKey s" and ?n = "p_rxNonce s" and ?m = "word_of_nat (length c - 8) :: u32"
  have c: "length ?k = 16" "length ?n = 12" using ok by (auto simp: pairing_ok_def)
  then have key: "good_key ?k" by (simp add: good_key_def)
  have size: "decryptDataSize (word_of_nat (length c)) = ?m"
    using len by (simp add: decryptDataSize_def of_nat_diff)
  have m: "sint ?m = int (length c - 8)" "unat ?m = length c - 8"
    "sint (word_of_nat (length c) :: i32) = int (length c)" "unat (word_of_nat (length c) :: i32) = length c"
    using small_int_word [of "length c - 8"] small_int_word [of "length c"] len by simp_all
  have "decryptData c (word_of_nat (length c)) (replicate (unat ?m) 0) ?m ?k (word_of_nat (length ?k)) ?n 12 =
    Ok (case unseal ?k ?n c of
          Some msg \<Rightarrow> (?m, msg @ drop (length c - 8) (replicate (unat ?m) 0))
        | None \<Rightarrow> (- 1, replicate (length c - 8) 0 @ drop (length c - 8) (replicate (unat ?m) 0)))"
    by (rule decryptData_unseals [OF key c(2) m(4) len]) (simp_all add: m)
  then have dec: "decryptData c (word_of_nat (length c)) (replicate (unat ?m) 0) ?m ?k 16 ?n 12 =
      Ok (case unseal ?k ?n c of Some msg \<Rightarrow> (?m, msg) | None \<Rightarrow> (- 1, replicate (length c - 8) 0))"
    using c m by (simp split: option.splits)
  have p: "mem_slice p 0 (length c - 8) = Ok p" if "unseal ?k ?n c = Some p" for p
    using that key c by (simp add: unseal_Some_iff mem_slice_def)
  have read: "block_read (Some c) (unat (word_of_nat (length c) :: i32)) = Ok c" by (simp add: m(4))
  have pos: "(sint (word_of_nat (length c) :: i32) < 0) = False" using m(3) by simp
  show ?thesis
  proof (cases "unseal ?k ?n c")
    case None
    have "PairingConnection_recPairingStep4Native (word_of_nat (length c)) (Some c) s = Ok (None, s')"
      unfolding PairingConnection_recPairingStep4Native_def read bindR.simps size Let_def dec pos
      by (simp add: None s'_def)
    then show ?thesis using None by simp
  next
    case (Some msg)
    show ?thesis
      unfolding PairingConnection_recPairingStep4Native_def read bindR.simps size Let_def dec pos s'_def
      using m p [OF Some] by (simp add: Some ig_PairingStep4_is_valid_def del: of_nat_diff)
  qed
qed

end
