(* ===== verification/Ble_Framing.thy ===== *)
theory Ble_Framing
  imports Prelude
begin

text \<open>
  Messages over Bluetooth notifications.  \<open>ble/ble_operation.c\<close> puts a length in front of a message
  (\<open>build_msg_payload\<close>) and writes it in packets of 20 bytes (\<open>write_char_by_uuid_multi_atts\<close>); the
  receivers \<open>save_message_data\<close> of \<open>ble/ble_guest.c\<close> and \<open>ble/ble_pairing.c\<close> collect the packets of a
  notification stream until the announced size is reached.  The contents of a fresh block are a parameter
  \<open>junk\<close>, the characteristic write of gattlib is a parameter \<open>gatt\<close> that sees the packets written before;
  a call of \<open>malloc\<close> is taken to succeed.
\<close>

section \<open>Sending\<close>

definition resolve_payload_len :: "nat \<Rightarrow> nat" where
  "resolve_payload_len step_len = (if step_len > 254 then step_len + 3 else step_len + 1)"

definition fresh_block :: "(nat \<Rightarrow> u8) \<Rightarrow> nat \<Rightarrow> bytes" where
  "fresh_block junk n = map junk [0..<n]"

definition build_msg_payload :: "(nat \<Rightarrow> u8) \<Rightarrow> bytes \<Rightarrow> nat \<Rightarrow> (bool \<times> bytes) res" where
  "build_msg_payload junk stepBytes step_len = (let
     payload_len = resolve_payload_len step_len;
     n_byte_for_len = payload_len - step_len;
     payloadBytes = fresh_block junk payload_len in
     if n_byte_for_len = 1 then
       bindR (mem_write payloadBytes 0 [word_of_nat step_len]) (\<lambda>p.
       bindR (mem_slice stepBytes 0 step_len) (\<lambda>d.
       bindR (mem_write p n_byte_for_len d) (\<lambda>p. Ok (True, p))))
     else if n_byte_for_len = 3 then
       let sec = 254; fst = word_of_nat step_len - sec in
       bindR (mem_write payloadBytes 0 [fst]) (\<lambda>p.
       bindR (mem_write p 1 [sec]) (\<lambda>p.
       bindR (mem_write p 3 [0xff]) (\<lambda>p.
       bindR (mem_slice stepBytes 0 step_len) (\<lambda>d.
       bindR (mem_write p n_byte_for_len d) (\<lambda>p. Ok (True, p))))))
     else Ok (False, payloadBytes))"

definition BLE_ATT_MAX_BYTES :: nat where
  "BLE_ATT_MAX_BYTES = 20"

text \<open>The loop at index \<open>i\<close>; \<open>sent\<close> are the packets the link has taken.\<close>
function write_atts_loop ::
  "(bytes list \<Rightarrow> bytes \<Rightarrow> int) \<Rightarrow> bytes \<Rightarrow> nat \<Rightarrow> bytes list \<Rightarrow> int \<times> bytes list"
where
  "write_atts_loop gatt buffer i sent =
     (if i < length buffer then
        let size_left = (if length buffer - i \<ge> BLE_ATT_MAX_BYTES then BLE_ATT_MAX_BYTES else length buffer - i);
            packet = take size_left (drop i buffer);
            ret = gatt sent packet in
        if ret \<noteq> 0 then (ret, sent)
        else write_atts_loop gatt buffer (i + BLE_ATT_MAX_BYTES) (sent @ [packet])
      else (0, sent))"
  by pat_completeness auto
termination by (relation "measure (\<lambda>(gatt, buffer, i, sent). length buffer - i)") (auto simp: BLE_ATT_MAX_BYTES_def)

declare write_atts_loop.simps [simp del]

definition write_char_by_uuid_multi_atts ::
  "(bytes list \<Rightarrow> bytes \<Rightarrow> int) \<Rightarrow> bytes \<Rightarrow> bytes list \<Rightarrow> int \<times> bytes list"
where
  "write_char_by_uuid_multi_atts gatt buffer sent = write_atts_loop gatt buffer 0 sent"

section \<open>Receiving\<close>

text \<open>The members of \<open>guest_connection_t\<close> and \<open>pairing_connection_t\<close> that hold an incoming message.\<close>
record step_buffer =
  step_max_size :: nat
  step_cur_size :: nat
  n_size_byte :: nat
  step_data :: block_ptr

definition step_buffer_empty :: step_buffer where
  "step_buffer_empty = \<lparr>step_max_size = 0, step_cur_size = 0, n_size_byte = 0, step_data = None\<rparr>"

text \<open>Both receivers open a message the same way.\<close>
definition open_message :: "(nat \<Rightarrow> u8) \<Rightarrow> bytes \<Rightarrow> step_buffer \<Rightarrow> step_buffer" where
  "open_message junk data b = (let
     (n, m) = (if data ! 2 = 0xff then (3, unat (data ! 0) * 0xfe + unat (data ! 1) + 3)
               else (1, unat (data ! 0) + 1))
     in b\<lparr>n_size_byte := n, step_max_size := m, step_cur_size := 0, step_data := Some (fresh_block junk m)\<rparr>)"

text \<open>The copy loop: byte by byte behind \<open>step_cur_size\<close>, without a test of the room left.\<close>
definition append_message :: "bytes \<Rightarrow> step_buffer \<Rightarrow> step_buffer res" where
  "append_message data b = (case step_data b of
     None \<Rightarrow> if data = [] then Ok b else Fault OutOfBounds
   | Some d \<Rightarrow> bindR (mem_write d (step_cur_size b) data) (\<lambda>d.
       Ok (b\<lparr>step_data := Some d, step_cur_size := step_cur_size b + length data\<rparr>)))"

text \<open>\<open>save_message_data\<close> of \<open>ble_guest.c\<close>.\<close>
definition save_message_data :: "(nat \<Rightarrow> u8) \<Rightarrow> bytes \<Rightarrow> step_buffer \<Rightarrow> (nat \<times> step_buffer) res" where
  "save_message_data junk data b =
     (if step_max_size b = 0 \<and> length data < 3 then Ok (1, b)
      else
        let b = (if step_max_size b = 0 then open_message junk data b else b) in
        bindR (append_message data b) (\<lambda>b. Ok (0, b)))"

text \<open>\<open>save_message_data\<close> of \<open>ble_pairing.c\<close>: a message that outgrows its announced size gets 85 bytes
  more room.  The function ends without a return value; the callers ignore it.\<close>
definition save_message_data_pairing :: "(nat \<Rightarrow> u8) \<Rightarrow> bytes \<Rightarrow> step_buffer \<Rightarrow> step_buffer res" where
  "save_message_data_pairing junk data b =
     (if step_max_size b = 0 \<and> length data < 3 then Ok b
      else
        let b = (if step_max_size b = 0 then open_message junk data b else b);
            size_left = int (step_max_size b) - int (step_cur_size b) in
        bindR (if size_left < int (length data) then
                 let b = b\<lparr>step_max_size := step_max_size b + 85\<rparr> in
                 bindR (block_read (step_data b) (step_cur_size b)) (\<lambda>old.
                 bindR (mem_write (fresh_block junk (step_max_size b)) 0 old) (\<lambda>d.
                 Ok (b\<lparr>step_data := Some d\<rparr>)))
               else Ok b) (append_message data))"

text \<open>The test all handlers make after a packet, and the message they then read.\<close>
definition message_complete :: "step_buffer \<Rightarrow> bool" where
  "message_complete b \<longleftrightarrow> step_max_size b = step_cur_size b"

definition message_bytes_of :: "step_buffer \<Rightarrow> bytes option" where
  "message_bytes_of b = map_option (\<lambda>d. drop (n_size_byte b) (take (step_max_size b) d)) (step_data b)"

fun save_all :: "(nat \<Rightarrow> u8) \<Rightarrow> bytes list \<Rightarrow> step_buffer \<Rightarrow> step_buffer res" where
  "save_all junk [] b = Ok b"
| "save_all junk (p # ps) b = bindR (save_message_data junk p b) (\<lambda>(r, b). save_all junk ps b)"

section \<open>The packets\<close>

lemma fresh_block_length [simp]: "length (fresh_block junk n) = n"
  by (simp add: fresh_block_def)

lemma write_atts_all:
  assumes "\<forall>sent p. gatt sent p = 0"
  shows "\<exists>ps. write_atts_loop gatt buffer i sent = (0, sent @ ps) \<and> concat ps = drop i buffer \<and>
    (\<forall>p \<in> set ps. 0 < length p \<and> length p \<le> 20) \<and>
    (i < length buffer \<longrightarrow> (\<exists>p qs. ps = p # qs \<and> p = take 20 (drop i buffer)))"
proof (induction "length buffer - i" arbitrary: i sent rule: less_induct)
  case less
  show ?case
  proof (cases "i < length buffer")
    case True
    let ?p = "take 20 (drop i buffer)"
    obtain ps where ps: "write_atts_loop gatt buffer (i + 20) (sent @ [?p]) = (0, (sent @ [?p]) @ ps)"
      "concat ps = drop (i + 20) buffer" "\<forall>p \<in> set ps. 0 < length p \<and> length p \<le> 20"
      using less [of "i + 20" "sent @ [?p]"] True by (auto simp: diff_less_mono2)
    have "write_atts_loop gatt buffer i sent = (0, sent @ ?p # ps)"
      using True ps(1)
      by (cases "20 \<le> length buffer - i") (subst write_atts_loop.simps, simp add: assms BLE_ATT_MAX_BYTES_def Let_def)+
    moreover have "concat (?p # ps) = drop i buffer"
      using ps(2) by simp (metis append_take_drop_id add.commute drop_drop)
    ultimately show ?thesis using True ps(3) by (intro exI [of _ "?p # ps"]) auto
  next
    case False
    then show ?thesis by (subst write_atts_loop.simps) simp
  qed
qed

text \<open>Writing at the end of what is filled.\<close>
lemma mem_write_fill:
  "length pre = i \<Longrightarrow> length data \<le> length rest \<Longrightarrow>
   mem_write (pre @ rest) i data = Ok (pre @ data @ drop (length data) rest)"
  by (simp add: mem_write_def)

lemma build_short:
  assumes "length msg \<le> 254"
  shows "build_msg_payload junk msg (length msg) = Ok (True, word_of_nat (length msg) # msg)"
  using assms
  by (simp add: build_msg_payload_def resolve_payload_len_def mem_write_def mem_slice_def Let_def)

text \<open>After the first packet the block is filled from the front.\<close>
lemma save_rest:
  assumes "length (concat ps) \<le> length rest" "length pre + length rest = m" "0 < m"
  shows "save_all junk ps \<lparr>step_max_size = m, step_cur_size = length pre, n_size_byte = n, step_data = Some (pre @ rest)\<rparr> =
    Ok \<lparr>step_max_size = m, step_cur_size = length pre + length (concat ps), n_size_byte = n,
        step_data = Some (pre @ concat ps @ drop (length (concat ps)) rest)\<rparr>"
  using assms
proof (induction ps arbitrary: pre rest)
  case (Cons p ps)
  from Cons.IH [of "drop (length p) rest" "pre @ p"] Cons.prems show ?case
    by (simp add: save_message_data_def append_message_def mem_write_fill Let_def add.assoc add.commute)
qed simp

lemma save_message:
  assumes hd: "3 \<le> length p" "if p ! 2 = 0xff then n = 3 \<and> m = unat (p ! 0) * 0xfe + unat (p ! 1) + 3 else n = 1 \<and> m = unat (p ! 0) + 1"
    and m: "length (concat (p # ps)) \<le> m"
  shows "save_all junk (p # ps) step_buffer_empty =
    Ok \<lparr>step_max_size = m, step_cur_size = length (concat (p # ps)), n_size_byte = n,
        step_data = Some (concat (p # ps) @ drop (length (concat (p # ps))) (fresh_block junk m))\<rparr>"
proof -
  have o: "open_message junk p step_buffer_empty =
      \<lparr>step_max_size = m, step_cur_size = length ([] :: bytes), n_size_byte = n, step_data = Some ([] @ fresh_block junk m)\<rparr>"
    using hd(2) by (auto simp: open_message_def step_buffer_empty_def split: if_splits)
  have e: "step_max_size step_buffer_empty = 0" by (simp add: step_buffer_empty_def)
  have pos: "0 < m" using m hd(1) by auto
  have "save_all junk (p # ps) step_buffer_empty =
      save_all junk (p # ps) \<lparr>step_max_size = m, step_cur_size = length ([] :: bytes), n_size_byte = n, step_data = Some ([] @ fresh_block junk m)\<rparr>"
    using hd(1) pos by (simp add: save_message_data_def o e)
  also have "\<dots> = Ok \<lparr>step_max_size = m, step_cur_size = length (concat (p # ps)), n_size_byte = n,
        step_data = Some (concat (p # ps) @ drop (length (concat (p # ps))) (fresh_block junk m))\<rparr>"
    using m pos by (subst save_rest) simp_all
  finally show ?thesis .
qed

text \<open>What the sender of a short message announces, and what a long one announces.\<close>
lemma announced_short:
  fixes msg :: bytes
  assumes "2 \<le> length msg" "length msg \<le> 254"
  shows "unat ((word_of_nat (length msg) # msg) ! 0) + 1 = length msg + 1"
    "3 \<le> length (word_of_nat (length msg) # msg)" "(word_of_nat (length msg) # msg) ! 2 = msg ! 1"
  using assms by (simp_all add: unat_of_nat nth_Cons numeral_2_eq_2)

lemma build_long:
  assumes "254 < length msg"
  shows "build_msg_payload junk msg (length msg) = Ok (True, [word_of_nat (length msg) - 254, 254, junk 2] @ msg)"
proof -
  let ?r = "map junk [4..<length msg + 3]"
  have u: "[0..<length msg + 3] = [0, 1, 2, 3] @ [4..<length msg + 3]"
  proof -
    have "[0..<length msg + 3] = [0..<4] @ [4..<length msg + 3]"
      using upt_add_eq_append [of 0 4 "length msg - 1"] assms by (simp add: add.commute)
    moreover have "[0..<4] = [0, 1, 2, 3 :: nat]" by (simp add: upt_conv_Cons)
    ultimately show ?thesis by simp
  qed
  have f: "fresh_block junk (length msg + 3) = [junk 0, junk 1, junk 2, junk 3] @ ?r"
    unfolding fresh_block_def u by simp
  have "build_msg_payload junk msg (length msg) =
      bindR (mem_write (junk 0 # junk 1 # junk 2 # junk 3 # ?r) 0 [word_of_nat (length msg) - 254]) (\<lambda>p.
      bindR (mem_write p 1 [254]) (\<lambda>p.
      bindR (mem_write p 3 [0xff]) (\<lambda>p.
      bindR (mem_slice msg 0 (length msg)) (\<lambda>d.
      bindR (mem_write p 3 d) (\<lambda>p. Ok (True, p))))))"
    using assms f by (simp add: build_msg_payload_def resolve_payload_len_def Let_def)
  also have "\<dots> = Ok (True, [word_of_nat (length msg) - 254, 254, junk 2] @ msg)"
    using assms by (simp add: mem_write_def mem_slice_def Suc_le_eq numeral_3_eq_3)
  finally show ?thesis .
qed

lemma mult_254_fixed:
  assumes "f = (f * 254) mod 256" "f < (256 :: nat)"
  shows "f = 0"
proof -
  have "f * 254 = f * 254 div 256 * 256 + f"
    using assms(1) div_mult_mod_eq [of "f * 254" 256] by simp
  then have "253 * f = 256 * (f * 254 div 256)" by simp
  then have "256 dvd 253 * f" by simp
  moreover have "coprime (256 :: nat) 253" by code_simp
  ultimately have "256 dvd f" by (simp add: coprime_dvd_mult_right_iff)
  then show ?thesis using assms(2) by (auto dest: dvd_imp_le)
qed

lemma announced_long:
  assumes "254 < n"
  shows "unat (word_of_nat n - 254 :: u8) * 254 + 254 \<noteq> n"
proof
  assume e: "unat (word_of_nat n - 254 :: u8) * 254 + 254 = n"
  let ?f = "unat (word_of_nat n - 254 :: u8)"
  have "(word_of_nat n - 254 :: u8) = word_of_nat (n - 254)" using assms by (simp add: of_nat_diff)
  then have f: "?f = (n - 254) mod 256" by (simp add: unat_of_nat)
  moreover have "n - 254 = ?f * 254" using e by linarith
  ultimately have "?f = (?f * 254) mod 256" by simp
  then have "?f = 0" using f by (intro mult_254_fixed) simp_all
  then show False using e assms by simp
qed

lemma save_all_sizes:
  "save_all junk ps b = Ok b' \<Longrightarrow> 0 < step_max_size b \<Longrightarrow>
   step_max_size b' = step_max_size b \<and> step_cur_size b' = step_cur_size b + length (concat ps)"
proof (induction ps arbitrary: b)
  case (Cons p ps)
  then obtain b1 where b1: "append_message p b = Ok b1" "save_all junk ps b1 = Ok b'"
    by (auto simp: save_message_data_def bindR_eq_Ok)
  have "step_max_size b1 = step_max_size b" "step_cur_size b1 = step_cur_size b + length p"
    using b1(1) by (auto simp: append_message_def bindR_eq_Ok split: option.splits if_splits)
  with Cons.IH [OF b1(2)] Cons.prems(2) show ?case by simp
qed simp

text \<open>A first packet that announces another size than the length of the frame: the message is never complete.\<close>
lemma misread:
  assumes p: "3 \<le> length p" "step_max_size (open_message junk p step_buffer_empty) \<noteq> length (concat (p # ps))"
  shows "save_all junk (p # ps) step_buffer_empty \<noteq> Ok b \<or> \<not> message_complete b"
proof (rule ccontr)
  let ?o = "open_message junk p step_buffer_empty"
  assume "\<not> ?thesis"
  then have b: "save_all junk (p # ps) step_buffer_empty = Ok b" "message_complete b" by auto
  have o: "0 < step_max_size ?o" "step_cur_size ?o = 0"
    by (auto simp: open_message_def step_buffer_empty_def Let_def)
  have "save_all junk (p # ps) ?o = Ok b"
    using b(1) p(1) o by (simp add: save_message_data_def step_buffer_empty_def)
  from save_all_sizes [OF this o(1)] o(2) b(2) p(2) show False by (simp add: message_complete_def)
qed

section \<open>Frames\<close>

lemma sent_packets:
  assumes "\<forall>sent p. gatt sent p = 0" "2 < length frame"
  shows "\<exists>p ps. write_char_by_uuid_multi_atts gatt frame [] = (0, p # ps) \<and> concat (p # ps) = frame \<and>
    (\<forall>q \<in> set (p # ps). 0 < length q \<and> length q \<le> 20) \<and> 3 \<le> length p \<and> p ! 0 = frame ! 0 \<and> p ! 1 = frame ! 1 \<and> p ! 2 = frame ! 2 \<and>
    p = take 20 frame"
proof -
  obtain ps where ps: "write_atts_loop gatt frame 0 [] = (0, ps)" "concat ps = frame"
    "\<forall>p \<in> set ps. 0 < length p \<and> length p \<le> 20" "\<exists>p qs. ps = p # qs \<and> p = take 20 frame"
    using write_atts_all [OF assms(1), where buffer = frame and i = 0 and sent = "[]"] assms(2) by auto
  obtain qs where qs: "ps = take 20 frame # qs" using ps(4) by blast
  show ?thesis
    using ps(1-3) assms(2) unfolding write_char_by_uuid_multi_atts_def qs
    by (intro exI [of _ "take 20 frame"] exI [of _ qs]) simp
qed

lemma save_all_append: "save_all junk (ps @ qs) b = bindR (save_all junk ps b) (save_all junk qs)"
  by (induction ps arbitrary: b) (simp_all add: bindR_assoc split_def)

lemma short_frames_collected:
  fixes msg :: bytes
  defines "f \<equiv> word_of_nat (length msg) # msg"
  assumes msg: "2 \<le> length msg" "length msg \<le> 254" "msg ! 1 \<noteq> 0xff"
    and ps: "write_char_by_uuid_multi_atts (\<lambda>_ _. 0) f [] = (0, ps)"
  shows "\<exists>b. (\<forall>p \<in> set ps. length p \<le> 20) \<and> save_all junk ps step_buffer_empty = Ok b \<and> message_complete b \<and>
    b = \<lparr>step_max_size = length msg + 1, step_cur_size = length msg + 1, n_size_byte = 1, step_data = Some f\<rparr> \<and>
    (\<forall>qs rs. ps = qs @ rs \<longrightarrow> qs \<noteq> [] \<longrightarrow> rs \<noteq> [] \<longrightarrow>
       (\<exists>b'. save_all junk qs step_buffer_empty = Ok b' \<and> \<not> message_complete b'))"
proof -
  let ?m = "length msg + 1"
  note a = announced_short [OF msg(1,2), folded f_def]
  obtain p ps' where ps': "ps = p # ps'" "concat (p # ps') = f"
    "\<forall>q \<in> set (p # ps'). 0 < length q \<and> length q \<le> 20" "3 \<le> length p" "p ! 0 = f ! 0" "p ! 1 = f ! 1" "p ! 2 = f ! 2"
    using sent_packets [of "\<lambda>_ _. 0", where frame = f] a(2) ps by auto
  have hd: "if p ! 2 = 0xff then (1 :: nat) = 3 \<and> ?m = unat (p ! 0) * 0xfe + unat (p ! 1) + 3 else (1 :: nat) = 1 \<and> ?m = unat (p ! 0) + 1"
    using msg(3) a(1,3) ps'(5,7) by simp
  have full: "save_all junk (p # qs) step_buffer_empty =
      Ok \<lparr>step_max_size = ?m, step_cur_size = length (concat (p # qs)), n_size_byte = 1,
          step_data = Some (concat (p # qs) @ drop (length (concat (p # qs))) (fresh_block junk ?m))\<rparr>"
    if "length (concat (p # qs)) \<le> ?m" for qs
    by (rule save_message [OF ps'(4) hd that])
  have len: "length f = ?m" by (simp add: f_def)
  have "save_all junk ps step_buffer_empty =
      Ok \<lparr>step_max_size = ?m, step_cur_size = ?m, n_size_byte = 1, step_data = Some f\<rparr>"
    using full [of ps'] unfolding ps'(1,2) len by (simp add: len)
  moreover have "\<exists>b'. save_all junk qs step_buffer_empty = Ok b' \<and> \<not> message_complete b'"
    if q: "ps = qs @ rs" "qs \<noteq> []" "rs \<noteq> []" for qs rs
  proof -
    obtain qs' where qs': "qs = p # qs'" using q ps'(1) by (cases qs) auto
    obtain r rs' where r: "rs = r # rs'" using q(3) by (cases rs) auto
    note q1 = q(1) [unfolded ps'(1)]
    have "length (concat (p # ps')) = length (concat qs) + length (concat rs)" by (simp add: q1 del: concat.simps(2))
    moreover have "1 \<le> length r" using ps'(3) unfolding q1 r by (simp add: Suc_le_eq)
    moreover have "length (concat (p # ps')) = ?m" unfolding ps'(2) len by simp
    ultimately have "length (concat (p # qs')) < ?m" using qs' r by simp
    with full [of qs'] show ?thesis by (auto simp: qs' message_complete_def)
  qed
  ultimately show ?thesis using ps'(1,3) by (simp add: message_complete_def)
qed

text \<open>Links that take every packet behave alike.\<close>
lemma write_atts_taken:
  "\<forall>sent p. gatt sent p = 0 \<Longrightarrow> write_char_by_uuid_multi_atts gatt buffer sent = write_char_by_uuid_multi_atts (\<lambda>_ _. 0) buffer sent"
proof -
  assume g: "\<forall>sent p. gatt sent p = 0"
  have "gatt = (\<lambda>_ _. 0)" using g by auto
  then show ?thesis by simp
qed

lemma short_frames_arrive:
  assumes msg: "2 \<le> length msg" "length msg \<le> 254" "msg ! 1 \<noteq> 0xff" and gatt: "\<forall>sent p. gatt sent p = 0"
  shows "\<exists>payload ps b. build_msg_payload junk msg (length msg) = Ok (True, payload) \<and>
    write_char_by_uuid_multi_atts gatt payload [] = (0, ps) \<and> (\<forall>p \<in> set ps. length p \<le> 20) \<and>
    save_all junk' ps step_buffer_empty = Ok b \<and> message_complete b \<and> message_bytes_of b = Some msg \<and>
    (\<forall>qs rs. ps = qs @ rs \<and> qs \<noteq> [] \<and> rs \<noteq> [] \<longrightarrow>
       (\<exists>b'. save_all junk' qs step_buffer_empty = Ok b' \<and> \<not> message_complete b'))"
proof -
  let ?f = "word_of_nat (length msg) # msg" and ?m = "length msg + 1"
  let ?b = "\<lparr>step_max_size = ?m, step_cur_size = ?m, n_size_byte = 1, step_data = Some ?f\<rparr>"
  obtain p ps where ps: "write_char_by_uuid_multi_atts gatt ?f [] = (0, p # ps)"
    using sent_packets [OF gatt, where frame = ?f] announced_short(2) [OF msg(1,2)] by auto
  then have "write_char_by_uuid_multi_atts (\<lambda>_ _. 0) ?f [] = (0, p # ps)"
    using write_atts_taken [OF gatt] by simp
  from short_frames_collected [OF msg this, of junk'] have c:
    "\<forall>q \<in> set (p # ps). length q \<le> 20" "save_all junk' (p # ps) step_buffer_empty = Ok ?b"
    "\<forall>qs rs. p # ps = qs @ rs \<longrightarrow> qs \<noteq> [] \<longrightarrow> rs \<noteq> [] \<longrightarrow>
       (\<exists>b'. save_all junk' qs step_buffer_empty = Ok b' \<and> \<not> message_complete b')"
    by blast+
  have "message_complete ?b" "message_bytes_of ?b = Some msg"
    by (simp_all add: message_complete_def message_bytes_of_def)
  with c ps build_short [OF msg(2), of junk] show ?thesis by blast
qed

lemma save_all_shape:
  "save_all junk ps b = Ok b' \<Longrightarrow> 0 < step_max_size b \<Longrightarrow> step_data b = Some d \<Longrightarrow> length d = step_max_size b \<Longrightarrow>
   step_max_size b' = step_max_size b \<and> n_size_byte b' = n_size_byte b \<and> (\<exists>d'. step_data b' = Some d' \<and> length d' = step_max_size b)"
proof (induction ps arbitrary: b d)
  case (Cons p ps)
  then obtain b1 where b1: "append_message p b = Ok b1" "save_all junk ps b1 = Ok b'"
    by (auto simp: save_message_data_def bindR_eq_Ok)
  obtain d1 where d1: "mem_write d (step_cur_size b) p = Ok d1" "b1 = b\<lparr>step_data := Some d1, step_cur_size := step_cur_size b + length p\<rparr>"
    using b1(1) Cons.prems(3) by (auto simp: append_message_def bindR_eq_Ok)
  have "length d1 = length d" using mem_write_length d1(1) by blast
  with Cons.IH [OF b1(2), of d1] Cons.prems(2,4) d1(2) show ?case by simp
qed simp

text \<open>A first packet that announces a message of another length: what is complete is not the message sent.\<close>
lemma misread_bytes:
  assumes p: "3 \<le> length p" and len: "step_max_size (open_message junk p step_buffer_empty) \<noteq>
      length msg + n_size_byte (open_message junk p step_buffer_empty)"
    and b: "save_all junk (p # ps) step_buffer_empty = Ok b"
  shows "message_bytes_of b \<noteq> Some msg"
proof -
  let ?o = "open_message junk p step_buffer_empty"
  have o: "0 < step_max_size ?o" "step_cur_size ?o = 0" "step_data ?o = Some (fresh_block junk (step_max_size ?o))"
    "n_size_byte ?o \<le> step_max_size ?o"
    by (auto simp: open_message_def step_buffer_empty_def Let_def)
  have "save_all junk (p # ps) ?o = Ok b"
    using b p(1) o by (simp add: save_message_data_def step_buffer_empty_def)
  from save_all_shape [OF this o(1,3)]
  obtain d where "step_data b = Some d" "length d = step_max_size ?o" "step_max_size b = step_max_size ?o" "n_size_byte b = n_size_byte ?o"
    by auto
  then have "message_bytes_of b = Some (drop (n_size_byte ?o) d)" "length (drop (n_size_byte ?o) d) + n_size_byte ?o = step_max_size ?o"
    using o(4) by (simp_all add: message_bytes_of_def)
  then show ?thesis using len by auto
qed

text \<open>The frames that are not read back: of a long message the receiver makes another one, if any; a short one with \<open>0xff\<close> second
  leaves it waiting.\<close>
lemma other_frames_misread:
  assumes msg: "254 < length msg \<or> 2 \<le> length msg \<and> msg ! 1 = 0xff" and gatt: "\<forall>sent p. gatt sent p = 0"
  shows "\<exists>payload p ps. build_msg_payload junk msg (length msg) = Ok (True, payload) \<and>
    write_char_by_uuid_multi_atts gatt payload [] = (0, p # ps) \<and>
    (\<forall>qs rs b. ps = qs @ rs \<and> save_all junk' (p # qs) step_buffer_empty = Ok b \<and> message_complete b \<longrightarrow>
       message_bytes_of b \<noteq> Some msg) \<and>
    (length msg \<le> 254 \<longrightarrow> (\<forall>qs rs. ps = qs @ rs \<longrightarrow>
       (\<exists>b. save_all junk' (p # qs) step_buffer_empty = Ok b \<and> \<not> message_complete b))) \<and>
    (length msg = 273 \<and> junk 2 \<noteq> 0xff \<longrightarrow> (\<exists>b. save_all junk' [p] step_buffer_empty = Ok b \<and> message_complete b \<and>
       message_bytes_of b = Some ([254, junk 2] @ take 17 msg)))"
proof (cases "254 < length msg")
  case True
  let ?f = "[word_of_nat (length msg) - 254, 254, junk 2] @ msg"
  obtain p ps where ps: "write_char_by_uuid_multi_atts gatt ?f [] = (0, p # ps)" "concat (p # ps) = ?f"
    "3 \<le> length p" "p ! 0 = ?f ! 0" "p ! 1 = ?f ! 1" "p ! 2 = ?f ! 2" "p = take 20 ?f"
    using sent_packets [OF gatt, where frame = ?f] True by auto
  let ?o = "open_message junk' p step_buffer_empty"
  let ?a = "unat (word_of_nat (length msg) - 254 :: u8)"
  have "(word_of_nat (length msg) - 254 :: u8) = word_of_nat (length msg - 254)" using True by (simp add: of_nat_diff)
  then have a: "?a = (length msg - 254) mod 256" by (simp add: unat_of_nat)
  have "?a \<noteq> length msg"
  proof
    assume e: "?a = length msg"
    then have "length msg = 255" using a True mod_less_divisor [of 256 "length msg - 254"] by simp
    with e a show False by simp
  qed
  then have "step_max_size ?o \<noteq> length msg + n_size_byte ?o"
    using ps(4-6) announced_long [OF True] by (simp add: open_message_def Let_def)
  from misread_bytes [OF ps(3) this]
  have wrong: "\<forall>qs b. save_all junk' (p # qs) step_buffer_empty = Ok b \<longrightarrow> message_bytes_of b \<noteq> Some msg" by blast
  have first: "\<exists>b. save_all junk' [p] step_buffer_empty = Ok b \<and> message_complete b \<and> message_bytes_of b = Some ([254, junk 2] @ take 17 msg)"
    if m: "length msg = 273" "junk 2 \<noteq> 0xff"
  proof -
    have "?a = 19" using a m(1) by simp
    then have n: "if p ! 2 = 0xff then (1 :: nat) = 3 \<and> (20 :: nat) = unat (p ! 0) * 0xfe + unat (p ! 1) + 3 else (1 :: nat) = 1 \<and> (20 :: nat) = unat (p ! 0) + 1"
      using ps(4,6) m(2) by simp
    have p: "p = [word_of_nat (length msg) - 254, 254, junk 2] @ take 17 msg" using ps(7) by simp
    then have "length (concat [p]) = 20" using m(1) by simp
    then show ?thesis
      using save_message [OF ps(3) n, of "[]" junk'] p m(1) by (simp add: message_complete_def message_bytes_of_def)
  qed
  have long: "\<not> length msg \<le> 254" using True by simp
  show ?thesis using ps(1) build_long [OF True, of junk] long wrong first by blast
next
  case False
  with msg have m: "2 \<le> length msg" "length msg \<le> 254" "msg ! 1 = 0xff" by auto
  let ?f = "word_of_nat (length msg) # msg"
  note a = announced_short [OF m(1,2)]
  obtain p ps where ps: "write_char_by_uuid_multi_atts gatt ?f [] = (0, p # ps)" "concat (p # ps) = ?f"
    "3 \<le> length p" "p ! 0 = ?f ! 0" "p ! 1 = ?f ! 1" "p ! 2 = ?f ! 2"
    using sent_packets [OF gatt, where frame = ?f] a(2) by auto
  let ?m = "unat (p ! 0) * 0xfe + unat (p ! 1) + 3"
  have head: "if p ! 2 = 0xff then (3 :: nat) = 3 \<and> ?m = unat (p ! 0) * 0xfe + unat (p ! 1) + 3 else (3 :: nat) = 1 \<and> ?m = unat (p ! 0) + 1"
    using ps(6) a(3) m(3) by simp
  have p0: "unat (p ! 0) = length msg" using a(1) ps(4) by simp
  have wait: "\<exists>b. save_all junk' (p # qs) step_buffer_empty = Ok b \<and> \<not> message_complete b" if "ps = qs @ rs" for qs rs
  proof -
    have "length (concat (p # qs)) \<le> length ?f" unfolding ps(2) [symmetric] that by simp
    then have less: "length (concat (p # qs)) < ?m" using p0 m(1) by simp
    then show ?thesis using save_message [OF ps(3) head, of qs junk'] by (simp add: message_complete_def)
  qed
  have never: "\<not> message_complete b" if "ps = qs @ rs" "save_all junk' (p # qs) step_buffer_empty = Ok b" for qs rs b
    using wait [OF that(1)] that(2) by auto
  have short: "length msg \<noteq> 273" using m(2) by simp
  show ?thesis using ps(1) build_short [OF m(2), of junk] short wait never by blast
qed

end
