(* ===== verification/Guest_Session.thy ===== *)
theory Guest_Session
  imports Handshake Ble_Framing Messages_Lock Messages_Pin Messages_Settings Messages_Log
begin

text \<open>
  One command to a lock: \<open>ble/ble_guest.c\<close>.  \<open>guest_connection_and_do_cmd\<close> opens a connection slot, sends
  the guest token (step 1) and then runs the main loop; from there on the program is driven by
  notifications (\<open>message_handler\<close>) and by the timeout.  A complete step 2 message is answered by step 3, an
  accepted step 4 by the sealed command, the sealed response ends the loop.

  The state is the connection object, the result object, the connection table and the packets written so
  far.  Parameters: the contents of fresh memory, \<open>rand\<close>, the clock, and the gattlib calls.  Log calls are
  left out, except that they format at most 1024 characters into \<open>xbuf\<close> and read a block printed with \<open>%s\<close> up to
  a zero byte, which neither the key nor the passwords need have.
\<close>

section \<open>State\<close>

datatype BLE_GUEST_STATE =
  BLE_GUEST_BEGIN | BLE_GUEST_STEP2 | BLE_GUEST_STEP3 | BLE_GUEST_STEP4 | BLE_GUEST_DONE | BLE_GUEST_CMD_RESULT

definition ERR_CONNECTION :: int where "ERR_CONNECTION = - 999"
definition ERR_WAITING :: int where "ERR_WAITING = - 998"
definition ERR_SEND :: int where "ERR_SEND = - 997"
definition ERR_GATT :: int where "ERR_GATT = - 996"
definition ERR_GLIB_LOOP :: int where "ERR_GLIB_LOOP = - 995"
definition ERR_STEP1 :: int where "ERR_STEP1 = - 994"
definition ERR_CMD :: int where "ERR_CMD = - 992"

datatype TASK_TYPE =
  TASK_BLE_DISCOVER | TASK_BLE_PAIRING | TASK_BLE_ADMIN_CONNECTION | TASK_BLE_ADMIN_UNPAIR | TASK_BLE_ADMIN_UNLOCK
| TASK_BLE_ADMIN_LOCK | TASK_BLE_ADMIN_GETLOGS | TASK_BLE_ADMIN_GETLOCKSTATUS | TASK_BLE_ADMIN_CREATE_PIN_REQUEST
| TASK_BLE_ADMIN_GET_BATTERY_LEVEL | TASK_BLE_GUEST_CONNECTION | TASK_BLE_GUEST_GET_BATTERY_LEVEL
| TASK_BLE_GUEST_UNLOCK | TASK_BLE_GUEST_LOCK | TASK_BLE_GUEST_GETLOGS | TASK_BLE_GUEST_GETLOCKSTATUS
| TASK_BLE_GUEST_CREATE_PIN | TASK_BLE_GUEST_DEL_PIN

text \<open>\<open>igm_lock_t\<close> without its list link.\<close>
record igm_lock =
  lock_addr :: bytes
  lock_addr_len :: int
  lock_name :: bytes
  lock_name_len :: int
  lock_paired :: int
  lock_admin_connection :: int
  lock_guest_connection :: int
  lock_has_key :: bool
  lock_key :: block_ptr
  lock_key_len :: nat
  lock_has_token :: bool
  lock_token :: block_ptr
  lock_token_len :: nat
  lock_has_password :: bool
  lock_password :: block_ptr
  lock_password_size :: nat
  lock_has_lock_cmd :: bool
  lock_lock_cmd :: block_ptr
  lock_lock_cmd_size :: nat
  connectionID :: int

text \<open>What \<open>void *cmd_request\<close> points to.\<close>
datatype cmd_request = NoRequest | CreatePin IgCreatePinRequest | DeletePin IgDeletePinRequest

text \<open>What \<open>void *cmd_response\<close> points to.  For the battery level the copy has the size of an
  \<open>IgDeletePinResponse\<close> and holds only the front of the object; nothing reads it.\<close>
datatype cmd_response =
  LockAnswer IgLockResponse | UnlockAnswer IgUnlockResponse | LogsAnswer IgGetLogsResponse
| CreatePinAnswer IgCreatePinResponse | DeletePinAnswer IgDeletePinResponse | BatteryAnswerFront

record ble_guest_result =
  guest_result :: int
  guest_cmd_response :: "cmd_response option"

record guest_connection =
  guest_lock :: igm_lock
  guest_cmd_request :: cmd_request
  guest_step :: BLE_GUEST_STATE
  guest_buffer :: step_buffer
  waiting_err :: bool
  receive_err :: bool

text \<open>The task node with the objects it points to, the connection table and the link.\<close>
record guest_session =
  task_type :: TASK_TYPE
  guest_conn :: guest_connection
  ble_result :: ble_guest_result
  lock_status :: int
  battery_level :: int
  conn_table :: connections
  sent_packets_of :: "bytes list"
  loop_quit :: bool

record guest_env =
  env_junk :: "nat \<Rightarrow> u8"
  env_rand :: "nat \<Rightarrow> nat \<Rightarrow> nat"
  env_time :: nat
  env_gatt :: "bytes list \<Rightarrow> bytes \<Rightarrow> int"
  env_connect :: bool
  env_uuid :: bool
  env_notify :: int
  env_loop :: bool

section \<open>Small operations\<close>

definition setGuestResultErr :: "int \<Rightarrow> guest_session \<Rightarrow> guest_session" where
  "setGuestResultErr err s = s\<lparr>ble_result := (ble_result s)\<lparr>guest_result := err\<rparr>\<rparr>"

definition setGuestResultCMDResponse :: "cmd_response \<Rightarrow> guest_session \<Rightarrow> guest_session" where
  "setGuestResultCMDResponse r s = s\<lparr>ble_result := (ble_result s)\<lparr>guest_cmd_response := Some r\<rparr>\<rparr>"

definition upd_conn :: "(guest_connection \<Rightarrow> guest_connection) \<Rightarrow> guest_session \<Rightarrow> guest_session" where
  "upd_conn f s = s\<lparr>guest_conn := f (guest_conn s)\<rparr>"

definition g_main_loop_quit :: "guest_session \<Rightarrow> guest_session" where
  "g_main_loop_quit s = s\<lparr>loop_quit := True\<rparr>"

definition releaseGuestConnectionData :: "guest_session \<Rightarrow> guest_session" where
  "releaseGuestConnectionData s = upd_conn (\<lambda>g.
     if step_max_size (guest_buffer g) \<noteq> 0 \<and> step_data (guest_buffer g) \<noteq> None
     then g\<lparr>guest_buffer := step_buffer_empty\<rparr> else g) s"

definition setLockConnectionID :: "int \<Rightarrow> guest_session \<Rightarrow> guest_session" where
  "setLockConnectionID i s = upd_conn (\<lambda>g. g\<lparr>guest_lock := (guest_lock g)\<lparr>connectionID := i\<rparr>\<rparr>) s"

abbreviation conn_id :: "guest_session \<Rightarrow> int" where
  "conn_id s \<equiv> connectionID (guest_lock (guest_conn s))"

text \<open>\<open>step_data + n_size_byte\<close> and \<open>step_max_size - n_size_byte\<close>, the arguments of the crypto calls.\<close>
definition step_message :: "guest_session \<Rightarrow> block_ptr \<times> i32" where
  "step_message s = (let b = guest_buffer (guest_conn s) in
     (map_option (drop (n_size_byte b)) (step_data b), word_of_nat (step_max_size b) - word_of_nat (n_size_byte b)))"

text \<open>\<open>save_message_data\<close> on the buffer of the connection; every caller ignores the return value.\<close>
definition save_packet :: "guest_env \<Rightarrow> bytes \<Rightarrow> guest_session \<Rightarrow> guest_session res" where
  "save_packet env data s = bindR (save_message_data (env_junk env) data (guest_buffer (guest_conn s)))
     (\<lambda>(r, b). Ok (upd_conn (\<lambda>g. g\<lparr>guest_buffer := b\<rparr>) s))"

text \<open>\<open>build_msg_payload\<close> and \<open>write_char_by_uuid_multi_atts\<close>: the error number \<open>e1\<close> of the caller for a
  failing build, \<open>e2\<close> for a failing write.\<close>
definition send_message :: "guest_env \<Rightarrow> int \<Rightarrow> int \<Rightarrow> block_ptr \<Rightarrow> i32 \<Rightarrow> guest_session \<Rightarrow> (int \<times> guest_session) res" where
  "send_message env e1 e2 message len s = (case message of
     None \<Rightarrow> Fault OutOfBounds
   | Some d \<Rightarrow> bindR (build_msg_payload (env_junk env) d (unat (scast len :: u64))) (\<lambda>(built, payload).
       if \<not> built then Ok (e1, s)
       else let (ret, sent) = write_char_by_uuid_multi_atts (env_gatt env) payload (sent_packets_of s);
                s = s\<lparr>sent_packets_of := sent\<rparr>
         in Ok (if ret \<noteq> 0 then e2 else 0, s)))"

text \<open>\<open>ByteToHexStr\<close> into \<open>char xbuf[1024]\<close> and the log call that looks for the terminating zero.\<close>
definition dump_hex :: "nat \<Rightarrow> unit res" where
  "dump_hex n = (if 2 * n < 1024 then Ok () else Fault OutOfBounds)"

text \<open>\<open>%s\<close> of a log line reads up to a zero byte; it prints \<open>(null)\<close> for NULL.\<close>
definition log_text :: "block_ptr \<Rightarrow> unit res" where
  "log_text p = (case p of None \<Rightarrow> Ok () | Some d \<Rightarrow> if 0 \<in> set d then Ok () else Fault OutOfBounds)"

section \<open>The steps\<close>

definition write_guest_step1 :: "guest_env \<Rightarrow> guest_session \<Rightarrow> (int \<times> guest_session) res" where
  "write_guest_step1 env s = (let lock = guest_lock (guest_conn s) in
     bindR (GuestConnection_beginConnection (env_rand env) (env_time env)
              (case lock_key lock of Some key \<Rightarrow> key | None \<Rightarrow> [])
              (sint (word_of_nat (lock_key_len lock) :: i32)) (conn_table s))
       (\<lambda>(cid, conns).
     let s = s\<lparr>conn_table := conns\<rparr> in
     if cid = ERROR_CONNECTION_ID then bindR (log_text (lock_key lock)) (\<lambda>_. Ok (ERR_CONNECTION, s))
     else
       let s = setLockConnectionID cid s in
       bindR (GuestConnection_genConnStep1Native cid (lock_token lock) (word_of_nat (lock_token_len lock)))
         (\<lambda>(step1Len, step1Bytes).
       if step1Len = 0 then Ok (ERR_CONNECTION, s)
       else send_message env ERR_CONNECTION ERR_SEND step1Bytes step1Len s)))"

text \<open>The local \<open>connectionID\<close> is 0 and never set to the one of the lock.\<close>
definition write_guest_step3 :: "guest_env \<Rightarrow> guest_session \<Rightarrow> (int \<times> guest_session) res" where
  "write_guest_step3 env s = (let connectionID = 0; (data, len) = step_message s in
     bindR (GuestConnection_genConnStep3Native connectionID data len (conn_table s)) (\<lambda>(step2Len, step2Bytes, conns).
     let s = s\<lparr>conn_table := conns\<rparr> in
     if step2Len = 0 then Ok (ERR_CONNECTION, s)
     else bindR (send_message env ERR_CONNECTION ERR_CONNECTION step2Bytes step2Len s) (\<lambda>(err, s).
       if err \<noteq> 0 then Ok (err, s)
       else Ok (0, releaseGuestConnectionData (upd_conn (\<lambda>g. g\<lparr>guest_step := BLE_GUEST_STEP4\<rparr>) s)))))"

definition handle_step2_message :: "guest_env \<Rightarrow> bytes \<Rightarrow> guest_session \<Rightarrow> (int \<times> guest_session) res" where
  "handle_step2_message env data s = bindR (save_packet env data s) (\<lambda>s.
     if message_complete (guest_buffer (guest_conn s)) then
       bindR (write_guest_step3 env (upd_conn (\<lambda>g. g\<lparr>guest_step := BLE_GUEST_STEP3\<rparr>) s)) (\<lambda>(ret, s).
       if ret \<noteq> 0 then Ok (ret, g_main_loop_quit (upd_conn (\<lambda>g. g\<lparr>receive_err := True\<rparr>) s))
       else Ok (0, s))
     else Ok (0, s))"

section \<open>The command\<close>

text \<open>The request as \<open>write_cmd_request\<close> puts it into \<open>buf\<close>; \<open>None\<close> is the error exit.  The branch of CREATE_PIN
  prints both passwords with \<open>%s\<close> before it tests the pointer to the request; a missing request is read through there.\<close>
definition finish_request :: "(nat \<times> bytes \<times> nat option) \<Rightarrow> (bytes \<times> nat) option" where
  "finish_request = (\<lambda>(err, buf, n). if err \<noteq> 0 then None else Some (buf, case n of Some n \<Rightarrow> n | None \<Rightarrow> 0))"

definition encode_request ::
  "guest_env \<Rightarrow> TASK_TYPE \<Rightarrow> igm_lock \<Rightarrow> cmd_request \<Rightarrow> u32 \<Rightarrow> (bytes \<times> nat) option res"
where
  "encode_request env task lock cmd_req requestID = (let
     buf = fresh_block (env_junk env) 128; pw = lock_password lock; n = lock_password_size lock in
     case task of
       TASK_BLE_GUEST_LOCK \<Rightarrow>
         bindR (ig_LockRequest_set_password False pw n (ig_LockRequest_set_operation_id requestID ig_LockRequest_init)) (\<lambda>r.
         bindR (ig_LockRequest_encode r buf 128) (\<lambda>x. Ok (finish_request x)))
     | TASK_BLE_GUEST_UNLOCK \<Rightarrow>
         bindR (ig_UnlockRequest_set_password False pw n (ig_UnlockRequest_set_operation_id requestID ig_UnlockRequest_init)) (\<lambda>r.
         bindR (ig_UnlockRequest_encode r buf 128) (\<lambda>x. Ok (finish_request x)))
     | TASK_BLE_GUEST_GETLOCKSTATUS \<Rightarrow>
         bindR (ig_GetLockStatusRequest_set_password False pw n
                  (ig_GetLockStatusRequest_set_operation_id requestID ig_GetLockStatusRequest_init)) (\<lambda>r.
         bindR (ig_GetLockStatusRequest_encode r buf 128) (\<lambda>x. Ok (finish_request x)))
     | TASK_BLE_GUEST_GET_BATTERY_LEVEL \<Rightarrow>
         bindR (ig_GetBatteryLevelRequest_set_password False pw n
                  (ig_GetBatteryLevelRequest_set_operation_id requestID ig_GetBatteryLevelRequest_init)) (\<lambda>r.
         if \<not> ig_GetBatteryLevelRequest_is_valid r then Ok None
         else bindR (ig_GetBatteryLevelRequest_encode r buf 128) (\<lambda>x. Ok (finish_request x)))
     | TASK_BLE_GUEST_GETLOGS \<Rightarrow>
         bindR (ig_GetLogsRequest_set_password False pw n
                  (ig_GetLogsRequest_set_operation_id requestID ig_GetLogsRequest_init)) (\<lambda>r.
         bindR (ig_GetLogsRequest_encode (ig_GetLogsRequest_set_timestamp (word_of_nat (env_time env)) r) buf 128) (\<lambda>x.
         Ok (finish_request x)))
     | TASK_BLE_GUEST_CREATE_PIN \<Rightarrow>
         (case cmd_req of
            CreatePin c \<Rightarrow>
              bindR (log_text pw) (\<lambda>_.
              bindR (log_text (CreatePinRequest_password c)) (\<lambda>_.
              bindR (ig_CreatePinRequest_set_password False pw n
                       (ig_CreatePinRequest_set_operation_id requestID ig_CreatePinRequest_init)) (\<lambda>r.
              if \<not> ig_CreatePinRequest_is_valid c then Ok None
              else
              bindR (ig_CreatePinRequest_set_new_pin False (CreatePinRequest_new_pin c) (CreatePinRequest_new_pin_size c) r) (\<lambda>r.
              bindR (dump_hex (CreatePinRequest_new_pin_size r)) (\<lambda>_.
              bindR (dump_hex (CreatePinRequest_password_size r)) (\<lambda>_.
              let r = (if CreatePinRequest_has_start_date c then ig_CreatePinRequest_set_start_date (CreatePinRequest_start_date c) r else r);
                  r = (if CreatePinRequest_has_end_date c then ig_CreatePinRequest_set_end_date (CreatePinRequest_end_date c) r else r);
                  r = (if CreatePinRequest_has_pin_type c then ig_CreatePinRequest_set_pin_type (CreatePinRequest_pin_type c) r else r);
                  r = (if CreatePinRequest_has_operation_id c then ig_CreatePinRequest_set_operation_id (CreatePinRequest_operation_id c) r else r)
              in bindR (ig_CreatePinRequest_encode r buf 128) (\<lambda>x. Ok (finish_request x))))))))
          | _ \<Rightarrow> Fault OutOfBounds)
     | TASK_BLE_GUEST_DEL_PIN \<Rightarrow>
         bindR (ig_DeletePinRequest_set_password False pw n
                  (ig_DeletePinRequest_set_operation_id requestID ig_DeletePinRequest_init)) (\<lambda>r.
         (case cmd_req of
            NoRequest \<Rightarrow> Ok None
          | DeletePin c \<Rightarrow>
              if \<not> ig_DeletePinRequest_is_valid c then Ok None
              else
              bindR (ig_DeletePinRequest_set_old_pin False (DeletePinRequest_old_pin c) (DeletePinRequest_old_pin_size c) r) (\<lambda>r.
              let r = (if DeletePinRequest_has_operation_id c then ig_DeletePinRequest_set_operation_id (DeletePinRequest_operation_id c) r else r)
              in bindR (ig_DeletePinRequest_encode r buf 128) (\<lambda>x. Ok (finish_request x)))
          | _ \<Rightarrow> Fault OutOfBounds))
     | _ \<Rightarrow> Ok None)"

definition write_cmd_request :: "guest_env \<Rightarrow> guest_session \<Rightarrow> (int \<times> guest_session) res" where
  "write_cmd_request env s = (let
     requestID = word_of_nat (env_rand env (env_time env) 0 mod 2147483647);
     lock = guest_lock (guest_conn s);
     exit_with = (\<lambda>err s. Ok (err, setGuestResultErr err s)) in
     bindR (encode_request env (task_type s) lock (guest_cmd_request (guest_conn s)) requestID) (\<lambda>req.
     case req of
       None \<Rightarrow> exit_with ERR_CMD s
     | Some (buf, encode_size) \<Rightarrow>
       let s = upd_conn (\<lambda>g. g\<lparr>guest_step := BLE_GUEST_CMD_RESULT\<rparr>) s in
       bindR (encryptNative (conn_id s) buf (word_of_nat encode_size) (conn_table s)) (\<lambda>(retvalLen, retvalBytes, conns).
       let s = s\<lparr>conn_table := conns\<rparr> in
       if retvalLen = 0 then exit_with ERR_CMD s
       else bindR (send_message env ERR_CMD ERR_CMD retvalBytes retvalLen s) (\<lambda>(err, s). exit_with err s))))"

text \<open>The part of \<open>handle_step4_message\<close> after a complete message; the return value of
  \<open>write_cmd_request\<close> is not looked at.\<close>
definition finish_step4 :: "guest_env \<Rightarrow> guest_session \<Rightarrow> (int \<times> guest_session) res" where
  "finish_step4 env s = (let
     s = upd_conn (\<lambda>g. g\<lparr>guest_step := BLE_GUEST_STEP4\<rparr>) s; (d, len) = step_message s in
     bindR (GuestConnection_recConnStep4Native (conn_id s) d len (conn_table s)) (\<lambda>(rec_ret, conns).
     let s = s\<lparr>conn_table := conns\<rparr> in
     if \<not> rec_ret then
       Ok (ERR_CONNECTION, setGuestResultErr ERR_CONNECTION (upd_conn (\<lambda>g. g\<lparr>receive_err := True\<rparr>) s))
     else bindR (write_cmd_request env (setGuestResultErr 0 s)) (\<lambda>(ret, s).
       Ok (0, setGuestResultErr 0 (releaseGuestConnectionData s)))))"

definition handle_step4_message :: "guest_env \<Rightarrow> bytes \<Rightarrow> guest_session \<Rightarrow> (int \<times> guest_session) res" where
  "handle_step4_message env data s = bindR (save_packet env data s) (\<lambda>s.
     if message_complete (guest_buffer (guest_conn s)) then finish_step4 env s
     else Ok (0, setGuestResultErr 0 s))"

section \<open>The response\<close>

text \<open>The guarded assignments \<open>if (r.has_result) result = r.result\<close> and those of status and battery level.\<close>
definition set_result_if :: "bool \<Rightarrow> u8 \<Rightarrow> guest_session \<Rightarrow> guest_session" where
  "set_result_if has r s = (if has then setGuestResultErr (uint r) s else s)"

definition BleSetStatusRes_if :: "bool \<Rightarrow> bool \<Rightarrow> guest_session \<Rightarrow> guest_session" where
  "BleSetStatusRes_if has lock_open s = (if has then s\<lparr>lock_status := of_bool lock_open\<rparr> else s)"

definition BleSetBatteryLRes_if :: "bool \<Rightarrow> u32 \<Rightarrow> guest_session \<Rightarrow> guest_session" where
  "BleSetBatteryLRes_if has level s = (if has then s\<lparr>battery_level := sint level\<rparr> else s)"

text \<open>Decoding for each task, with what it stores: error number of the decoder, updated session.  The
  \<open>err\<close> it sets is the inner variable of the block.\<close>
definition store_response :: "TASK_TYPE \<Rightarrow> bytes \<Rightarrow> guest_session \<Rightarrow> (nat \<times> guest_session) option res" where
  "store_response task resp s = (case task of
       TASK_BLE_GUEST_LOCK \<Rightarrow> bindR (ig_LockResponse_decode resp ig_LockResponse_init 0) (\<lambda>(err, r).
         Ok (Some (if err \<noteq> 0 then (err, s) else
           (0, setGuestResultCMDResponse (LockAnswer r) (set_result_if (LockResponse_has_result r) (LockResponse_result r) s)))))
     | TASK_BLE_GUEST_UNLOCK \<Rightarrow> bindR (ig_UnlockResponse_decode resp ig_UnlockResponse_init 0) (\<lambda>(err, r).
         Ok (Some (if err \<noteq> 0 then (err, s) else
           (0, setGuestResultCMDResponse (UnlockAnswer r) (set_result_if (UnlockResponse_has_result r) (UnlockResponse_result r) s)))))
     | TASK_BLE_GUEST_GETLOCKSTATUS \<Rightarrow> bindR (ig_GetLockStatusResponse_decode resp ig_GetLockStatusResponse_init 0) (\<lambda>(err, r).
         Ok (Some (if err \<noteq> 0 then (err, s) else
           (0, BleSetStatusRes_if (GetLockStatusResponse_has_lock_open r) (GetLockStatusResponse_lock_open r)
                (set_result_if (GetLockStatusResponse_has_result r) (GetLockStatusResponse_result r) s)))))
     | TASK_BLE_GUEST_GET_BATTERY_LEVEL \<Rightarrow> bindR (ig_GetBatteryLevelResponse_decode resp ig_GetBatteryLevelResponse_init 0) (\<lambda>(err, r).
         Ok (Some (if err \<noteq> 0 then (err, s) else
           (0, setGuestResultCMDResponse BatteryAnswerFront
                (BleSetBatteryLRes_if (GetBatteryLevelResponse_has_battery_level r) (GetBatteryLevelResponse_battery_level r)
                  (set_result_if (GetBatteryLevelResponse_has_result r) (GetBatteryLevelResponse_result r) s))))))
     | TASK_BLE_GUEST_GETLOGS \<Rightarrow> bindR (ig_GetLogsResponse_decode resp ig_GetLogsResponse_init 0) (\<lambda>(err, r).
         Ok (Some (if err \<noteq> 0 then (err, s) else
           (0, setGuestResultCMDResponse (LogsAnswer r) (set_result_if (GetLogsResponse_has_result r) (GetLogsResponse_result r) s)))))
     | TASK_BLE_GUEST_CREATE_PIN \<Rightarrow> bindR (ig_CreatePinResponse_decode resp ig_CreatePinResponse_init 0) (\<lambda>(err, r).
         Ok (Some (if err \<noteq> 0 then (err, s) else
           (0, setGuestResultCMDResponse (CreatePinAnswer r) (set_result_if (CreatePinResponse_has_result r) (CreatePinResponse_result r) s)))))
     | TASK_BLE_GUEST_DEL_PIN \<Rightarrow> bindR (ig_DeletePinResponse_decode resp ig_DeletePinResponse_init 0) (\<lambda>(err, r).
         Ok (Some (if err \<noteq> 0 then (err, s) else
           (0, setGuestResultCMDResponse (DeletePinAnswer r) (set_result_if (DeletePinResponse_has_result r) (DeletePinResponse_result r) s)))))
     | _ \<Rightarrow> Ok None)"

text \<open>The part of \<open>handle_cmd_responce\<close> after a complete message.\<close>
definition finish_cmd_responce :: "guest_env \<Rightarrow> guest_session \<Rightarrow> (int \<times> guest_session) res" where
  "finish_cmd_responce env s = (let
     exit_with = (\<lambda>err s. Ok (err, g_main_loop_quit (setGuestResultErr err s)));
     receive_error = upd_conn (\<lambda>g. g\<lparr>receive_err := True\<rparr>);
     (d, messageLen) = step_message s in
     bindR (block_read d (unat messageLen)) (\<lambda>messageBytes.
     bindR (decryptNative (conn_id s) messageBytes messageLen (conn_table s)) (\<lambda>(responceLen, responceBytes, conns).
     let s = s\<lparr>conn_table := conns\<rparr> in
     if responceLen = 0 then exit_with ERR_CMD (receive_error s)
     else bindR (store_response (task_type s) (case responceBytes of Some r \<Rightarrow> r | None \<Rightarrow> []) s) (\<lambda>stored.
       case stored of
         None \<Rightarrow> exit_with ERR_CMD s
       | Some (derr, s) \<Rightarrow>
         if derr \<noteq> 0 then exit_with 0 (receive_error s)
         else bindR (endConnection (conn_id s) (conn_table s)) (\<lambda>conns.
           exit_with 0 (s\<lparr>conn_table := conns\<rparr>))))))"

definition handle_cmd_responce :: "guest_env \<Rightarrow> bytes \<Rightarrow> guest_session \<Rightarrow> (int \<times> guest_session) res" where
  "handle_cmd_responce env data s = bindR (save_packet env data s) (\<lambda>s.
     if message_complete (guest_buffer (guest_conn s)) then finish_cmd_responce env s else Ok (0, s))"

section \<open>Events and the session\<close>

definition message_handler :: "guest_env \<Rightarrow> bytes \<Rightarrow> guest_session \<Rightarrow> guest_session res" where
  "message_handler env data s = bindR (dump_hex (length data)) (\<lambda>_.
     case guest_step (guest_conn s) of
       BLE_GUEST_BEGIN \<Rightarrow> bindR (handle_step2_message env data s) (\<lambda>(r, s). Ok s)
     | BLE_GUEST_STEP4 \<Rightarrow> bindR (handle_step4_message env data s) (\<lambda>(r, s). Ok s)
     | BLE_GUEST_CMD_RESULT \<Rightarrow> bindR (handle_cmd_responce env data s) (\<lambda>(r, s). Ok s)
     | _ \<Rightarrow> Ok s)"

definition stop_main_loop_func :: "guest_session \<Rightarrow> guest_session" where
  "stop_main_loop_func s = g_main_loop_quit (upd_conn (\<lambda>g. g\<lparr>waiting_err := True\<rparr>) s)"

datatype guest_event = Notification bytes | Timeout

definition handle_guest_event :: "guest_env \<Rightarrow> guest_event \<Rightarrow> guest_session \<Rightarrow> guest_session res" where
  "handle_guest_event env e s = (case e of
     Notification data \<Rightarrow> message_handler env data s | Timeout \<Rightarrow> Ok (stop_main_loop_func s))"

text \<open>\<open>g_main_loop_run\<close> on the events that arrive, until a handler quits the loop.\<close>
fun run_guest_loop :: "guest_env \<Rightarrow> guest_event list \<Rightarrow> guest_session \<Rightarrow> guest_session res" where
  "run_guest_loop env [] s = Ok s"
| "run_guest_loop env (e # es) s =
     (if loop_quit s then Ok s else bindR (handle_guest_event env e s) (run_guest_loop env es))"

text \<open>The timer of five seconds fires at the latest after the events given.  \<open>releaseGuestConnection\<close> frees the objects and stops the notifications; of the state modelled here
  only the table is left to change.\<close>
definition Close_Connection :: "guest_session \<Rightarrow> guest_session res" where
  "Close_Connection s = bindR (endConnection (conn_id s) (conn_table s)) (\<lambda>conns.
     Ok (releaseGuestConnectionData (s\<lparr>conn_table := conns\<rparr>)))"

definition initGuestConnection :: "igm_lock \<Rightarrow> cmd_request \<Rightarrow> guest_connection" where
  "initGuestConnection lock req =
     \<lparr>guest_lock = lock, guest_cmd_request = req, guest_step = BLE_GUEST_BEGIN,
      guest_buffer = step_buffer_empty, waiting_err = False, receive_err = False\<rparr>"

definition new_session :: "TASK_TYPE \<Rightarrow> igm_lock \<Rightarrow> cmd_request \<Rightarrow> connections \<Rightarrow> guest_session" where
  "new_session task lock req conns =
     \<lparr>task_type = task, guest_conn = initGuestConnection lock req,
      ble_result = \<lparr>guest_result = 0, guest_cmd_response = None\<rparr>, lock_status = 0, battery_level = 0,
      conn_table = conns, sent_packets_of = [], loop_quit = False\<rparr>"

definition guest_connection_and_do_cmd ::
  "guest_env \<Rightarrow> guest_event list \<Rightarrow> TASK_TYPE \<Rightarrow> igm_lock \<Rightarrow> cmd_request \<Rightarrow> connections \<Rightarrow> (int \<times> guest_session) res"
where
  "guest_connection_and_do_cmd env events task lock req conns = (let
     s = new_session task lock req conns;
     exit_with = (\<lambda>err s. bindR (Close_Connection (setGuestResultErr err s)) (\<lambda>s. Ok (err, s))) in
     if \<not> env_connect env \<or> \<not> env_uuid env \<or> env_notify env \<noteq> 0 then exit_with ERR_GATT s
     else if \<not> env_loop env then exit_with ERR_GLIB_LOOP s
     else bindR (write_guest_step1 env s) (\<lambda>(ret, s).
       if ret \<noteq> 0 then exit_with ERR_STEP1 s
       else bindR (run_guest_loop env (events @ [Timeout]) s) (\<lambda>s.
         if waiting_err (guest_conn s) \<or> receive_err (guest_conn s) then exit_with ERR_WAITING s
         else exit_with 0 s)))"

section \<open>The connection table through the calls\<close>

lemma conn_at_Ok: "conn_at conns k = Ok c \<longleftrightarrow> k < length conns \<and> c = conns ! k"
  by (auto simp: conn_at_def)

lemma seal_slot_ok:
  assumes "conns_ok conns" "seal_slot conns k d n = Ok (r, out, conns')"
  shows "conns_ok conns'"
  using assms conns_ok_nth [OF assms(1), of k]
  by (auto simp: seal_slot_def bindR_eq_Ok conn_at_Ok conn_ok_def Let_def)

lemma open_slot_ok:
  assumes "conns_ok conns" "open_slot conns k d n = Ok (r, out, conns')"
  shows "conns_ok conns'"
  using assms conns_ok_nth [OF assms(1), of k]
  by (auto simp: open_slot_def bindR_eq_Ok conn_at_Ok conn_ok_def Let_def)

lemma step3_conns_ok:
  assumes ok: "conns_ok conns" and e: "GuestConnection_genConnStep3Native i d n conns = Ok (r, out, conns')"
  shows "conns_ok conns'"
proof (cases "getConnection i")
  case None
  then show ?thesis using assms by (simp add: GuestConnection_genConnStep3Native_def)
next
  case (Some k)
  have upd: "conns_ok (conns[k := c\<lparr>txNonce := x\<rparr>])" if "k < 32" "c = conns ! k" "length x = 12" for c x
    using that ok conns_ok_nth [OF ok that(1)] by (simp add: conn_ok_def)
  show ?thesis
    using e ok Some
    by (auto simp: GuestConnection_genConnStep3Native_def bindR_eq_Ok conn_at_Ok Let_def upd block_read_length
        dest!: seal_slot_ok [rotated] split: if_splits prod.splits)
qed

lemma step4_conns_ok:
  assumes ok: "conns_ok conns" and e: "GuestConnection_recConnStep4Native i d n conns = Ok (b, conns')"
  shows "conns_ok conns'"
  using e ok
  by (auto simp: GuestConnection_recConnStep4Native_def bindR_eq_Ok split: option.splits if_splits prod.splits
      dest: open_slot_ok)

lemma begin_index:
  assumes "conns_ok conns" "beginConnection rand t type jKey keyLen conns = Ok (i, conns')"
  shows "i = ERROR_CONNECTION_ID \<or> 0 \<le> i \<and> i < 32"
proof (cases "first_free conns")
  case None
  then show ?thesis using assms by (simp add: beginConnection_eq)
next
  case (Some k)
  then show ?thesis using assms first_free_Some [OF Some]
    by (auto simp: beginConnection_eq bindR_eq_Ok split: if_splits)
qed

section \<open>The session invariant\<close>

definition buffer_ok :: "step_buffer \<Rightarrow> bool" where
  "buffer_ok b \<longleftrightarrow> b = step_buffer_empty \<or>
     (\<exists>d. step_data b = Some d \<and> length d = step_max_size b \<and> step_cur_size b \<le> step_max_size b \<and>
        0 < n_size_byte b \<and> n_size_byte b \<le> step_max_size b \<and> step_max_size b \<le> 65028)"

definition session_ok :: "guest_session \<Rightarrow> bool" where
  "session_ok s \<longleftrightarrow> conns_ok (conn_table s) \<and> buffer_ok (guest_buffer (guest_conn s)) \<and>
     guest_step (guest_conn s) \<in> {BLE_GUEST_BEGIN, BLE_GUEST_STEP3, BLE_GUEST_STEP4, BLE_GUEST_CMD_RESULT} \<and>
     (guest_step (guest_conn s) = BLE_GUEST_STEP3 \<longrightarrow> receive_err (guest_conn s) \<and> loop_quit s) \<and>
     0 \<le> conn_id s \<and> conn_id s < 32 \<and> (\<forall>p \<in> set (sent_packets_of s). length p \<le> 20)"

fun step_rank :: "BLE_GUEST_STATE \<Rightarrow> nat" where
  "step_rank BLE_GUEST_BEGIN = 0"
| "step_rank BLE_GUEST_STEP2 = 1"
| "step_rank BLE_GUEST_STEP3 = 2"
| "step_rank BLE_GUEST_STEP4 = 3"
| "step_rank BLE_GUEST_DONE = 4"
| "step_rank BLE_GUEST_CMD_RESULT = 5"

named_theorems session_simps "reading a session after an update"

lemma session_updates [simp, session_simps]:
  "conn_table (setGuestResultErr e s) = conn_table s" "guest_conn (setGuestResultErr e s) = guest_conn s"
  "sent_packets_of (setGuestResultErr e s) = sent_packets_of s" "loop_quit (setGuestResultErr e s) = loop_quit s"
  "guest_result (ble_result (setGuestResultErr e s)) = e" "task_type (setGuestResultErr e s) = task_type s"
  "conn_table (setGuestResultCMDResponse r s) = conn_table s" "guest_conn (setGuestResultCMDResponse r s) = guest_conn s"
  "sent_packets_of (setGuestResultCMDResponse r s) = sent_packets_of s" "loop_quit (setGuestResultCMDResponse r s) = loop_quit s"
  "conn_table (upd_conn f s) = conn_table s" "guest_conn (upd_conn f s) = f (guest_conn s)"
  "sent_packets_of (upd_conn f s) = sent_packets_of s" "loop_quit (upd_conn f s) = loop_quit s"
  "ble_result (upd_conn f s) = ble_result s" "task_type (upd_conn f s) = task_type s"
  "conn_table (g_main_loop_quit s) = conn_table s" "guest_conn (g_main_loop_quit s) = guest_conn s"
  "sent_packets_of (g_main_loop_quit s) = sent_packets_of s" "loop_quit (g_main_loop_quit s)"
  "ble_result (g_main_loop_quit s) = ble_result s"
  by (simp_all add: setGuestResultErr_def setGuestResultCMDResponse_def upd_conn_def g_main_loop_quit_def)

lemma release_updates [simp, session_simps]:
  "conn_table (releaseGuestConnectionData s) = conn_table s"
  "sent_packets_of (releaseGuestConnectionData s) = sent_packets_of s"
  "loop_quit (releaseGuestConnectionData s) = loop_quit s"
  "ble_result (releaseGuestConnectionData s) = ble_result s"
  "guest_step (guest_conn (releaseGuestConnectionData s)) = guest_step (guest_conn s)"
  "receive_err (guest_conn (releaseGuestConnectionData s)) = receive_err (guest_conn s)"
  "guest_lock (guest_conn (releaseGuestConnectionData s)) = guest_lock (guest_conn s)"
  by (simp_all add: releaseGuestConnectionData_def upd_conn_def)

lemma buffer_ok_empty [simp]: "buffer_ok step_buffer_empty"
  by (simp add: buffer_ok_def)

lemma release_empties:
  "buffer_ok (guest_buffer (guest_conn s)) \<Longrightarrow> guest_buffer (guest_conn (releaseGuestConnectionData s)) = step_buffer_empty"
  by (auto simp: releaseGuestConnectionData_def upd_conn_def buffer_ok_def)

lemma save_message_ok:
  assumes ok: "buffer_ok b" and e: "save_message_data junk data b = Ok (r, b')"
  shows "buffer_ok b'"
proof (cases "step_max_size b = 0 \<and> length data < 3")
  case True
  then show ?thesis using assms by (simp add: save_message_data_def)
next
  case False
  let ?b = "if step_max_size b = 0 then open_message junk data b else b"
  have app: "append_message data ?b = Ok b'" using e False by (auto simp: save_message_data_def bindR_eq_Ok)
  obtain d where d: "step_data ?b = Some d" "length d = step_max_size ?b" "step_cur_size ?b \<le> step_max_size ?b"
    "0 < n_size_byte ?b" "n_size_byte ?b \<le> step_max_size ?b" "step_max_size ?b \<le> 65028"
  proof (cases "step_max_size b = 0")
    case True
    have "unat (x :: u8) < 2 ^ LENGTH(8)" for x by (rule unsigned_less)
    from this [of "data ! 0"] this [of "data ! 1"] True show ?thesis
      by (intro that [of "fresh_block junk (step_max_size ?b)"]) (auto simp: open_message_def Let_def)
  next
    case False
    then show ?thesis using ok that by (auto simp: buffer_ok_def step_buffer_empty_def)
  qed
  obtain d' where d': "mem_write d (step_cur_size ?b) data = Ok d'"
    "b' = ?b\<lparr>step_data := Some d', step_cur_size := step_cur_size ?b + length data\<rparr>"
    using app d(1) by (auto simp: append_message_def bindR_eq_Ok)
  have "length d' = length d" using mem_write_length d'(1) by blast
  moreover have "step_cur_size ?b + length data \<le> length d" using d'(1) by (auto simp: mem_write_def split: if_splits)
  ultimately have "step_data b' = Some d' \<and> length d' = step_max_size b' \<and> step_cur_size b' \<le> step_max_size b' \<and>
      0 < n_size_byte b' \<and> n_size_byte b' \<le> step_max_size b' \<and> step_max_size b' \<le> 65028"
    using d unfolding d'(2) by simp
  then show ?thesis unfolding buffer_ok_def by blast
qed

lemma save_packet_Ok:
  assumes "save_packet env data s = Ok s1"
  shows "\<exists>b. s1 = upd_conn (\<lambda>g. g\<lparr>guest_buffer := b\<rparr>) s \<and> (buffer_ok (guest_buffer (guest_conn s)) \<longrightarrow> buffer_ok b)"
  using assms save_message_ok by (fastforce simp: save_packet_def bindR_eq_Ok)

lemma save_packet_ok: "save_packet env data s = Ok s1 \<Longrightarrow> session_ok s \<Longrightarrow> session_ok s1"
  using save_packet_Ok [of env data s s1] by (auto simp: session_ok_def)

lemma write_atts_packets:
  "write_atts_loop gatt buffer i sent = (r, sent') \<Longrightarrow> p \<in> set sent' \<Longrightarrow> p \<in> set sent \<or> length p \<le> 20"
proof (induction gatt buffer i sent rule: write_atts_loop.induct)
  case (1 gatt buffer i sent)
  show ?case
  proof (cases "i < length buffer")
    case True
    let ?n = "if length buffer - i \<ge> BLE_ATT_MAX_BYTES then BLE_ATT_MAX_BYTES else length buffer - i"
    let ?p = "take ?n (drop i buffer)"
    show ?thesis
    proof (cases "gatt sent ?p = 0")
      case sent: True
      have "write_atts_loop gatt buffer (i + BLE_ATT_MAX_BYTES) (sent @ [?p]) = (r, sent')"
        using 1(2) True sent by (subst (asm) write_atts_loop.simps) (simp add: Let_def)
      from 1(1) [OF True refl refl refl _ this 1(3)] sent show ?thesis by (auto simp: BLE_ATT_MAX_BYTES_def split: if_splits)
    next
      case False
      then show ?thesis using 1(2,3) True by (subst (asm) write_atts_loop.simps) (simp add: Let_def)
    qed
  next
    case False
    then show ?thesis using 1(2,3) by (subst (asm) write_atts_loop.simps) simp
  qed
qed

lemma send_message_Ok:
  assumes "send_message env e1 e2 d n s = Ok (r, s')"
  shows "\<exists>sent. s' = s\<lparr>sent_packets_of := sent\<rparr> \<and> (\<forall>p \<in> set sent. p \<in> set (sent_packets_of s) \<or> length p \<le> 20)"
proof -
  obtain d' where d': "d = Some d'" using assms by (cases d) (simp_all add: send_message_def)
  obtain built payload where b: "build_msg_payload (env_junk env) d' (unat (scast n :: u64)) = Ok (built, payload)"
    using assms by (auto simp: send_message_def d' bindR_eq_Ok)
  obtain r' sent where w: "write_char_by_uuid_multi_atts (env_gatt env) payload (sent_packets_of s) = (r', sent)"
    by fastforce
  have "\<forall>p \<in> set sent. p \<in> set (sent_packets_of s) \<or> length p \<le> 20"
    using w write_atts_packets unfolding write_char_by_uuid_multi_atts_def by blast
  moreover have "s' = s \<or> s' = s\<lparr>sent_packets_of := sent\<rparr>"
    using assms by (auto simp: send_message_def d' b w split: if_splits)
  moreover have "s = s\<lparr>sent_packets_of := sent_packets_of s\<rparr>" by simp
  ultimately show ?thesis by blast
qed

lemma send_message_ok: "send_message env e1 e2 d n s = Ok (r, s') \<Longrightarrow> session_ok s \<Longrightarrow> session_ok s'"
  using send_message_Ok [of env e1 e2 d n s r s'] by (auto simp: session_ok_def)

lemma session_ok_table [simp]: "session_ok s \<Longrightarrow> conns_ok conns \<Longrightarrow> session_ok (s\<lparr>conn_table := conns\<rparr>)"
  by (simp add: session_ok_def)

lemma session_ok_conns: "session_ok s \<Longrightarrow> conns_ok (conn_table s)"
  by (simp add: session_ok_def)

lemma session_ok_step [simp]:
  "session_ok s \<Longrightarrow> x \<in> {BLE_GUEST_BEGIN, BLE_GUEST_STEP4, BLE_GUEST_CMD_RESULT} \<Longrightarrow>
   session_ok (upd_conn (\<lambda>g. g\<lparr>guest_step := x\<rparr>) s)"
  by (auto simp: session_ok_def)

lemma session_ok_result [simp]: "session_ok (setGuestResultErr e s) = session_ok s"
  by (simp add: session_ok_def)

lemma session_ok_response [simp]: "session_ok (setGuestResultCMDResponse r s) = session_ok s"
  by (simp add: session_ok_def)

lemma session_ok_quit [simp]: "session_ok s \<Longrightarrow> session_ok (g_main_loop_quit s)"
  by (simp add: session_ok_def)

lemma session_ok_error [simp]: "session_ok s \<Longrightarrow> session_ok (upd_conn (\<lambda>g. g\<lparr>receive_err := True\<rparr>) s)"
  by (simp add: session_ok_def)

lemma session_ok_release [simp]: "session_ok s \<Longrightarrow> session_ok (releaseGuestConnectionData s)"
  using release_empties [of s] by (simp add: session_ok_def)

text \<open>Step 3 starts from a session whose step is about to leave \<open>BLE_GUEST_STEP3\<close> or whose loop ends.\<close>
lemma step2_ok:
  assumes ok: "session_ok s" and e: "handle_step2_message env data s = Ok (r, s')"
  shows "session_ok s' \<and> (guest_step (guest_conn s') = guest_step (guest_conn s) \<or>
    guest_step (guest_conn s') \<in> {BLE_GUEST_STEP3, BLE_GUEST_STEP4})"
proof -
  obtain s1 where s1: "save_packet env data s = Ok s1" using e by (auto simp: handle_step2_message_def bindR_eq_Ok)
  have ok1: "session_ok s1" and st1: "guest_step (guest_conn s1) = guest_step (guest_conn s)"
    using save_packet_ok [OF s1 ok] save_packet_Ok [OF s1] by auto
  show ?thesis
  proof (cases "message_complete (guest_buffer (guest_conn s1))")
    case False
    then show ?thesis using e s1 ok1 st1 by (simp add: handle_step2_message_def)
  next
    case True
    let ?s = "upd_conn (\<lambda>g. g\<lparr>guest_step := BLE_GUEST_STEP3\<rparr>) s1"
    obtain ret s2 where w: "write_guest_step3 env ?s = Ok (ret, s2)"
      "s' = (if ret \<noteq> 0 then g_main_loop_quit (upd_conn (\<lambda>g. g\<lparr>receive_err := True\<rparr>) s2) else s2)"
      using e s1 True by (auto simp: handle_step2_message_def bindR_eq_Ok split: if_splits)
    obtain d len where m: "step_message ?s = (d, len)" by fastforce
    obtain n out conns where g: "GuestConnection_genConnStep3Native 0 d len (conn_table s1) = Ok (n, out, conns)"
      using w(1) m by (auto simp: write_guest_step3_def bindR_eq_Ok Let_def)
    have conns: "conns_ok conns" using step3_conns_ok [OF session_ok_conns [OF ok1] g] .
    let ?s3 = "?s\<lparr>conn_table := conns\<rparr>"
    have base: "session_ok (s1\<lparr>conn_table := conns\<rparr>)" using ok1 conns by simp
    have cases: "ret \<noteq> 0 \<and> (s2 = ?s3 \<or> (\<exists>e n out. send_message env ERR_CONNECTION ERR_CONNECTION out n ?s3 = Ok (e, s2))) \<or>
        ret = 0 \<and> (\<exists>s4. send_message env ERR_CONNECTION ERR_CONNECTION out n ?s3 = Ok (0, s4) \<and>
          s2 = releaseGuestConnectionData (upd_conn (\<lambda>g. g\<lparr>guest_step := BLE_GUEST_STEP4\<rparr>) s4))"
      using w(1) m g
      by (auto simp: write_guest_step3_def bindR_eq_Ok Let_def ERR_CONNECTION_def split: if_splits prod.splits)
    show ?thesis
    proof (cases "ret = 0")
      case True
      then obtain s4 where s4: "send_message env ERR_CONNECTION ERR_CONNECTION out n ?s3 = Ok (0, s4)"
        "s2 = releaseGuestConnectionData (upd_conn (\<lambda>g. g\<lparr>guest_step := BLE_GUEST_STEP4\<rparr>) s4)" using cases by auto
      obtain sent where sent: "s4 = ?s3\<lparr>sent_packets_of := sent\<rparr>"
        "\<forall>p \<in> set sent. p \<in> set (sent_packets_of ?s3) \<or> length p \<le> 20" using send_message_Ok [OF s4(1)] by blast
      have "session_ok (upd_conn (\<lambda>g. g\<lparr>guest_step := BLE_GUEST_STEP4\<rparr>) s4)"
        using base sent by (auto simp: session_ok_def)
      then show ?thesis using w(2) True s4(2) by simp
    next
      case False
      then obtain sent where sent: "s2 = ?s3\<lparr>sent_packets_of := sent\<rparr>"
        "\<forall>p \<in> set sent. p \<in> set (sent_packets_of s1) \<or> length p \<le> 20"
        using cases send_message_Ok by (force simp: upd_conn_def)
      then show ?thesis using w(2) False base by (auto simp: session_ok_def)
    qed
  qed
qed

lemma write_cmd_ok:
  assumes ok: "session_ok s" and e: "write_cmd_request env s = Ok (r, s')"
  shows "session_ok s' \<and> (guest_step (guest_conn s') = guest_step (guest_conn s) \<or> guest_step (guest_conn s') = BLE_GUEST_CMD_RESULT)"
proof -
  obtain req where req: "encode_request env (task_type s) (guest_lock (guest_conn s)) (guest_cmd_request (guest_conn s))
      (word_of_nat (env_rand env (env_time env) 0 mod 2147483647)) = Ok req"
    using e by (auto simp: write_cmd_request_def bindR_eq_Ok Let_def)
  show ?thesis
  proof (cases req)
    case None
    then show ?thesis using e req ok by (auto simp: write_cmd_request_def Let_def)
  next
    case (Some x)
    obtain buf n where x: "x = (buf, n)" by fastforce
    let ?s = "upd_conn (\<lambda>g. g\<lparr>guest_step := BLE_GUEST_CMD_RESULT\<rparr>) s"
    have ok1: "session_ok ?s" using ok by simp
    obtain len out conns where enc: "encryptNative (conn_id s) buf (word_of_nat n) (conn_table s) = Ok (len, out, conns)"
      using e req Some x by (auto simp: write_cmd_request_def bindR_eq_Ok Let_def)
    have conns: "conns_ok conns" using encryptNative_ok [OF session_ok_conns [OF ok] enc] .
    show ?thesis
    proof (cases "len = 0")
      case True
      then show ?thesis using e req Some x enc ok1 conns by (auto simp: write_cmd_request_def Let_def)
    next
      case False
      then obtain err s2 where s2: "send_message env ERR_CMD ERR_CMD out len (?s\<lparr>conn_table := conns\<rparr>) = Ok (err, s2)"
        "s' = setGuestResultErr err s2"
        using e req Some x enc by (auto simp: write_cmd_request_def bindR_eq_Ok Let_def)
      have "session_ok s2" using send_message_ok [OF s2(1)] ok1 conns by simp
      moreover have "guest_step (guest_conn s2) = BLE_GUEST_CMD_RESULT" using send_message_Ok [OF s2(1)] by auto
      ultimately show ?thesis using s2(2) by simp
    qed
  qed
qed

text \<open>Step 4: the command goes out after an accepted confirmation, and not otherwise.\<close>
definition confirmed :: "guest_session \<Rightarrow> bool" where
  "confirmed s \<longleftrightarrow> message_complete (guest_buffer (guest_conn s)) \<and>
     (case step_message s of (d, len) \<Rightarrow>
        (case GuestConnection_recConnStep4Native (conn_id s) d len (conn_table s) of
           Ok (b, conns) \<Rightarrow> b | Fault f \<Rightarrow> False))"

lemma step4_ok:
  assumes ok: "session_ok s" and st: "guest_step (guest_conn s) = BLE_GUEST_STEP4"
    and e: "handle_step4_message env data s = Ok (r, s')"
  shows "session_ok s' \<and>
    (guest_step (guest_conn s') = BLE_GUEST_STEP4 \<and> sent_packets_of s' = sent_packets_of s \<or>
     guest_step (guest_conn s') \<in> {BLE_GUEST_STEP4, BLE_GUEST_CMD_RESULT} \<and>
       (\<exists>s1. save_packet env data s = Ok s1 \<and> confirmed s1))"
proof -
  obtain s1 where s1: "save_packet env data s = Ok s1" using e by (auto simp: handle_step4_message_def bindR_eq_Ok)
  have ok1: "session_ok s1" and st1: "guest_step (guest_conn s1) = BLE_GUEST_STEP4"
    and sent1: "sent_packets_of s1 = sent_packets_of s"
    using save_packet_ok [OF s1 ok] save_packet_Ok [OF s1] st by auto
  show ?thesis
  proof (cases "message_complete (guest_buffer (guest_conn s1))")
    case False
    then show ?thesis using e s1 ok1 st1 sent1 by (auto simp: handle_step4_message_def)
  next
    case True
    let ?s = "upd_conn (\<lambda>g. g\<lparr>guest_step := BLE_GUEST_STEP4\<rparr>) s1"
    obtain d len where m: "step_message s1 = (d, len)" by fastforce
    then have m': "step_message ?s = (d, len)" by (simp add: step_message_def)
    obtain b conns where g: "GuestConnection_recConnStep4Native (conn_id s1) d len (conn_table s1) = Ok (b, conns)"
      using e s1 True m' by (auto simp: handle_step4_message_def finish_step4_def bindR_eq_Ok Let_def)
    have conns: "conns_ok conns" using step4_conns_ok [OF session_ok_conns [OF ok1] g] .
    let ?s3 = "?s\<lparr>conn_table := conns\<rparr>"
    have ok3: "session_ok ?s3" using ok1 conns by simp
    show ?thesis
    proof (cases b)
      case False
      then have "s' = setGuestResultErr ERR_CONNECTION (upd_conn (\<lambda>g. g\<lparr>receive_err := True\<rparr>) ?s3)"
        using e s1 True m' g by (auto simp: handle_step4_message_def finish_step4_def Let_def)
      moreover have "guest_step (guest_conn ?s3) = BLE_GUEST_STEP4" "sent_packets_of ?s3 = sent_packets_of s"
        using sent1 by simp_all
      ultimately show ?thesis using ok3 by simp
    next
      case acc: True
      then obtain ret s4 where w: "write_cmd_request env (setGuestResultErr 0 ?s3) = Ok (ret, s4)"
        "s' = setGuestResultErr 0 (releaseGuestConnectionData s4)"
        using e s1 True m' g by (auto simp: handle_step4_message_def finish_step4_def Let_def bindR_eq_Ok)
      have "session_ok s4 \<and> (guest_step (guest_conn s4) = BLE_GUEST_STEP4 \<or> guest_step (guest_conn s4) = BLE_GUEST_CMD_RESULT)"
        using write_cmd_ok [OF _ w(1)] ok3 by simp
      moreover have "confirmed s1" using True m g acc by (simp add: confirmed_def)
      ultimately show ?thesis using w(2) s1 by auto
    qed
  qed
qed

text \<open>An accepted confirmation is a message of success sealed with the key and the receive nonce of the slot: messages shorter
  than a tag stop the program, longer ones than 4096 bytes are refused.\<close>
lemma confirmed_sealed:
  assumes ok: "session_ok s" and c: "confirmed s"
  shows "\<exists>p e s4. step_message s = (Some (seal (conn_key (conn_table s ! nat (conn_id s))) (rxNonce (conn_table s ! nat (conn_id s))) p),
      word_of_nat (length p + 8)) \<and> length p \<le> 4088 \<and>
    ig_GuestConnectionStep4_decode p ig_GuestConnectionStep4_init 0 = Ok (e, s4) \<and>
    GuestConnectionStep4_has_success s4 \<and> GuestConnectionStep4_success s4"
proof -
  let ?k = "nat (conn_id s)"
  have k: "conn_id s = int ?k" "?k < 32" "conns_ok (conn_table s)" using ok by (auto simp: session_ok_def)
  then have "conn_ok (conn_table s ! ?k)" by simp
  then have key: "good_key (conn_key (conn_table s ! ?k))" "length (rxNonce (conn_table s ! ?k)) = 12"
    by (simp_all add: conn_ok_def good_key_def)
  have acc: "step_message s = (d, n) \<Longrightarrow>
      \<exists>conns. GuestConnection_recConnStep4Native (conn_id s) d n (conn_table s) = Ok (True, conns)" for d n
    using c by (auto simp: confirmed_def split: res.splits)
  let ?b = "guest_buffer (guest_conn s)"
  have "?b \<noteq> step_buffer_empty"
  proof
    assume "?b = step_buffer_empty"
    then have "step_message s = (None, 0)" by (simp add: step_message_def step_buffer_empty_def)
    from acc [OF this] show False by (auto simp: GuestConnection_recConnStep4Native_def split: option.splits)
  qed
  then obtain d where d: "step_data ?b = Some d" "length d = step_max_size ?b" "n_size_byte ?b \<le> step_max_size ?b"
    "step_max_size ?b \<le> 65028" using ok by (auto simp: session_ok_def buffer_ok_def)
  let ?c = "drop (n_size_byte ?b) d"
  have m: "step_message s = (Some ?c, word_of_nat (length ?c))" using d by (simp add: step_message_def Let_def of_nat_diff)
  have small: "unat (word_of_nat (length ?c) :: u32) = length ?c" using d(2,4) by (simp add: unat_of_nat)
  have get: "getConnection (conn_id s) = Some ?k" using k(2) ok by (auto simp: getConnection_def session_ok_def)
  have at: "conn_at (conn_table s) ?k = Ok (conn_table s ! ?k)" using k(2,3) by (simp add: conn_at_def)
  obtain conns where r: "GuestConnection_recConnStep4Native (conn_id s) (Some ?c) (word_of_nat (length ?c)) (conn_table s) = Ok (True, conns)"
    using acc [OF m] by blast
  have long: "length ?c \<le> 4096"
  proof (rule ccontr)
    assume "\<not> length ?c \<le> 4096"
    then have "4096 < (word_of_nat (length ?c) :: u32)" using small by (simp add: word_less_nat_alt)
    with r show False
      by (simp add: GuestConnection_recConnStep4Native_def get open_slot_def at decryptData_rejects Let_def)
  qed
  have short: "8 \<le> length ?c"
  proof (rule ccontr)
    assume "\<not> 8 \<le> length ?c"
    then have "length ?c = 0 \<or> length ?c = 1 \<or> length ?c = 2 \<or> length ?c = 3 \<or> length ?c = 4 \<or>
        length ?c = 5 \<or> length ?c = 6 \<or> length ?c = 7" by linarith
    then have "length ?c < unat (decryptDataSize (word_of_nat (length ?c)))"
      by (elim disjE) (simp_all only: decryptDataSize_def, simp_all add: unsigned_minus_1_eq_mask mask_eq_exp_minus_1)
    then have "mem_slice ?c 0 (unat (decryptDataSize (word_of_nat (length ?c)))) = Fault OutOfBounds" by (simp add: mem_slice_def)
    with r show False
      by (auto simp: GuestConnection_recConnStep4Native_def get open_slot_def at decryptData_def Let_def bindR_eq_Ok
          split: if_splits)
  qed
  have r': "GuestConnection_recConnStep4Native (int ?k) (Some ?c) (word_of_nat (length ?c)) (conn_table s) = Ok (True, conns)"
    using r k(1) by metis
  note accepted = trans [OF guest_confirms [OF k(3,2) short long, symmetric] r']
  show ?thesis
  proof (cases "unseal (conn_key (conn_table s ! ?k)) (rxNonce (conn_table s ! ?k)) ?c")
    case None
    then show ?thesis using accepted by simp
  next
    case (Some p)
    then have p: "?c = seal (conn_key (conn_table s ! ?k)) (rxNonce (conn_table s ! ?k)) p"
      using unseal_Some_iff [OF key, of ?c p] by simp
    then have len: "length ?c = length p + 8" using key by simp
    obtain e s4 where d4: "ig_GuestConnectionStep4_decode p ig_GuestConnectionStep4_init 0 = Ok (e, s4)"
      "GuestConnectionStep4_has_success s4" "GuestConnectionStep4_success s4"
      using accepted unfolding Some by (auto simp: bindR_eq_Ok)
    have "step_message s = (Some (seal (conn_key (conn_table s ! ?k)) (rxNonce (conn_table s ! ?k)) p), word_of_nat (length p + 8))"
      using m p len by metis
    then show ?thesis using d4 long len by auto
  qed
qed

lemma guarded_updates [simp]:
  "session_ok (set_result_if has r s) = session_ok s" "guest_conn (set_result_if has r s) = guest_conn s"
  "sent_packets_of (set_result_if has r s) = sent_packets_of s"
  "session_ok (BleSetStatusRes_if has b s) = session_ok s" "guest_conn (BleSetStatusRes_if has b s) = guest_conn s"
  "sent_packets_of (BleSetStatusRes_if has b s) = sent_packets_of s"
  "session_ok (BleSetBatteryLRes_if has l s) = session_ok s" "guest_conn (BleSetBatteryLRes_if has l s) = guest_conn s"
  "sent_packets_of (BleSetBatteryLRes_if has l s) = sent_packets_of s"
  by (simp_all add: set_result_if_def BleSetStatusRes_if_def BleSetBatteryLRes_if_def session_ok_def)

lemma store_response_ok:
  assumes "session_ok s" "store_response task resp s = Ok (Some (n, s'))"
  shows "session_ok s' \<and> guest_conn s' = guest_conn s \<and> sent_packets_of s' = sent_packets_of s"
  using assms
  by (cases task) (auto simp: store_response_def bindR_eq_Ok split: if_splits)

lemma response_ok:
  assumes ok: "session_ok s" and e: "handle_cmd_responce env data s = Ok (r, s')"
  shows "session_ok s' \<and> guest_step (guest_conn s') = guest_step (guest_conn s) \<and> sent_packets_of s' = sent_packets_of s \<and>
    (loop_quit s' \<and> \<not> loop_quit s \<longrightarrow> guest_result (ble_result s') = r \<and> r \<in> {0, ERR_CMD})"
proof -
  obtain s1 where s1: "save_packet env data s = Ok s1" using e by (auto simp: handle_cmd_responce_def bindR_eq_Ok)
  have ok1: "session_ok s1" and st1: "guest_step (guest_conn s1) = guest_step (guest_conn s)"
    and sent1: "sent_packets_of s1 = sent_packets_of s" and q1: "loop_quit s1 = loop_quit s"
    using save_packet_ok [OF s1 ok] save_packet_Ok [OF s1] by auto
  show ?thesis
  proof (cases "message_complete (guest_buffer (guest_conn s1))")
    case False
    then show ?thesis using e s1 ok1 st1 sent1 q1 by (auto simp: handle_cmd_responce_def)
  next
    case True
    then have f: "finish_cmd_responce env s1 = Ok (r, s')" using e s1 by (simp add: handle_cmd_responce_def)
    obtain d n where m: "step_message s1 = (d, n)" by fastforce
    obtain msg where msg: "block_read d (unat n) = Ok msg" using f m by (auto simp: finish_cmd_responce_def bindR_eq_Ok Let_def)
    obtain len out conns where dec: "decryptNative (conn_id s1) msg n (conn_table s1) = Ok (len, out, conns)"
      using f m msg by (auto simp: finish_cmd_responce_def bindR_eq_Ok Let_def)
    have conns: "conns_ok conns" using decryptNative_ok [OF session_ok_conns [OF ok1] dec] .
    have ok2: "session_ok (s1\<lparr>conn_table := conns\<rparr>)" using ok1 conns by simp
    show ?thesis
    proof (cases "len = 0")
      case True
      then show ?thesis using f m msg dec ok2 st1 sent1 by (auto simp: finish_cmd_responce_def Let_def)
    next
      case False
      let ?resp = "case out of Some r \<Rightarrow> r | None \<Rightarrow> []"
      obtain x where x: "store_response (task_type s1) ?resp (s1\<lparr>conn_table := conns\<rparr>) = Ok x"
        using f m msg dec False by (auto simp: finish_cmd_responce_def bindR_eq_Ok Let_def)
      show ?thesis
      proof (cases x)
        case None
        then show ?thesis using f m msg dec False x ok2 st1 sent1 by (auto simp: finish_cmd_responce_def Let_def)
      next
        case (Some y)
        obtain derr s2 where y: "y = (derr, s2)" by fastforce
        have ok3: "session_ok s2" and same: "guest_conn s2 = guest_conn s1" "sent_packets_of s2 = sent_packets_of s1"
          using store_response_ok [OF ok2] x Some y by auto
        show ?thesis
        proof (cases "derr = 0")
          case False
          then show ?thesis
            using f m msg dec \<open>len \<noteq> 0\<close> x Some y ok3 same st1 sent1 by (auto simp: finish_cmd_responce_def Let_def)
        next
          case d0: True
          then obtain conns' where c: "endConnection (conn_id s2) (conn_table s2) = Ok conns'"
            "s' = g_main_loop_quit (setGuestResultErr 0 (s2\<lparr>conn_table := conns'\<rparr>))" "r = 0"
            using f m msg dec \<open>len \<noteq> 0\<close> x Some y by (auto simp: finish_cmd_responce_def Let_def bindR_eq_Ok)
          have "conns_ok conns'" using end_ok [OF session_ok_conns [OF ok3] c(1)] .
          then show ?thesis using ok3 same st1 sent1 c(2,3) by simp
        qed
      qed
    qed
  qed
qed

section \<open>Reachable sessions\<close>

inductive guest_reach :: "guest_env \<Rightarrow> guest_session \<Rightarrow> bool" for env where
  started: "conns_ok conns \<Longrightarrow> write_guest_step1 env (new_session task lock req conns) = Ok (0, s) \<Longrightarrow> guest_reach env s"
| event: "guest_reach env s \<Longrightarrow> \<not> loop_quit s \<Longrightarrow> handle_guest_event env e s = Ok s' \<Longrightarrow> guest_reach env s'"

lemma step1_ok:
  assumes ok: "conns_ok conns" and e: "write_guest_step1 env (new_session task lock req conns) = Ok (0, s)"
  shows "session_ok s"
proof -
  let ?s = "new_session task lock req conns"
  obtain cid conns' where b: "GuestConnection_beginConnection (env_rand env) (env_time env)
      (case lock_key lock of Some key \<Rightarrow> key | None \<Rightarrow> []) (sint (word_of_nat (lock_key_len lock) :: i32)) conns = Ok (cid, conns')"
    using e by (auto simp: write_guest_step1_def new_session_def initGuestConnection_def bindR_eq_Ok Let_def)
  have conns': "conns_ok conns'" using begin_ok [OF ok] b by (simp add: GuestConnection_beginConnection_def)
  have cid: "cid \<noteq> ERROR_CONNECTION_ID"
    using e b by (auto simp: write_guest_step1_def new_session_def initGuestConnection_def Let_def ERR_CONNECTION_def bindR_eq_Ok)
  then have range: "0 \<le> cid" "cid < 32"
    using begin_index [OF ok b [unfolded GuestConnection_beginConnection_def]] by auto
  let ?s1 = "setLockConnectionID cid (?s\<lparr>conn_table := conns'\<rparr>)"
  have ok1: "session_ok ?s1"
    using conns' range by (simp add: session_ok_def setLockConnectionID_def new_session_def initGuestConnection_def)
  obtain n out where "send_message env ERR_CONNECTION ERR_SEND out n ?s1 = Ok (0, s)"
    using e b cid
    by (auto simp: write_guest_step1_def new_session_def initGuestConnection_def bindR_eq_Ok Let_def ERR_CONNECTION_def
        split: if_splits)
  from send_message_ok [OF this ok1] show ?thesis .
qed

lemma event_ok:
  assumes ok: "session_ok s" and run: "\<not> loop_quit s" and e: "handle_guest_event env e s = Ok s'"
  shows "session_ok s' \<and> step_rank (guest_step (guest_conn s)) \<le> step_rank (guest_step (guest_conn s')) \<and>
    (guest_step (guest_conn s) \<noteq> BLE_GUEST_CMD_RESULT \<and> guest_step (guest_conn s') = BLE_GUEST_CMD_RESULT \<longrightarrow>
      (\<exists>data s1. e = Notification data \<and> guest_step (guest_conn s) = BLE_GUEST_STEP4 \<and>
         save_packet env data s = Ok s1 \<and> confirmed s1))"
proof (cases e)
  case Timeout
  then have "s' = stop_main_loop_func s" using e by (simp add: handle_guest_event_def)
  then show ?thesis using ok by (auto simp: stop_main_loop_func_def session_ok_def)
next
  case (Notification data)
  have h: "message_handler env data s = Ok s'" using e Notification by (simp add: handle_guest_event_def)
  consider (first) "guest_step (guest_conn s) = BLE_GUEST_BEGIN" | (four) "guest_step (guest_conn s) = BLE_GUEST_STEP4"
    | (cmd) "guest_step (guest_conn s) = BLE_GUEST_CMD_RESULT"
    using ok run by (auto simp: session_ok_def)
  then show ?thesis
  proof cases
    case first
    then obtain r where "handle_step2_message env data s = Ok (r, s')" using h by (auto simp: message_handler_def bindR_eq_Ok)
    from step2_ok [OF ok this] first show ?thesis by auto
  next
    case four
    then obtain r where "handle_step4_message env data s = Ok (r, s')" using h by (auto simp: message_handler_def bindR_eq_Ok)
    from step4_ok [OF ok four this] four Notification show ?thesis by auto
  next
    case cmd
    then obtain r where "handle_cmd_responce env data s = Ok (r, s')" using h by (auto simp: message_handler_def bindR_eq_Ok)
    from response_ok [OF ok this] cmd show ?thesis by simp
  qed
qed

lemma reach_ok: "guest_reach env s \<Longrightarrow> session_ok s"
  by (induction rule: guest_reach.induct) (auto dest: step1_ok event_ok)

inductive_cases reach_cases: "guest_reach env s"

section \<open>A message in packets\<close>

text \<open>What each step does once a message is complete.\<close>
definition finish_message :: "guest_env \<Rightarrow> guest_session \<Rightarrow> (int \<times> guest_session) res" where
  "finish_message env s =
     (if guest_step (guest_conn s) = BLE_GUEST_BEGIN
      then bindR (write_guest_step3 env (upd_conn (\<lambda>g. g\<lparr>guest_step := BLE_GUEST_STEP3\<rparr>) s)) (\<lambda>(ret, s).
        if ret \<noteq> 0 then Ok (ret, g_main_loop_quit (upd_conn (\<lambda>g. g\<lparr>receive_err := True\<rparr>) s)) else Ok (0, s))
      else if guest_step (guest_conn s) = BLE_GUEST_STEP4 then finish_step4 env s else finish_cmd_responce env s)"

definition with_buffer :: "step_buffer \<Rightarrow> guest_session \<Rightarrow> guest_session" where
  "with_buffer b s = upd_conn (\<lambda>g. g\<lparr>guest_buffer := b\<rparr>) s"

lemma setGuestResultErr_same: "guest_result (ble_result s) = e \<Longrightarrow> setGuestResultErr e s = s"
  by (auto simp: setGuestResultErr_def)

lemma message_handler_waits:
  assumes st: "guest_step (guest_conn s) = BLE_GUEST_STEP4 \<and> guest_result (ble_result s) = 0 \<or>
      guest_step (guest_conn s) = BLE_GUEST_CMD_RESULT \<or> guest_step (guest_conn s) = BLE_GUEST_BEGIN"
    and p: "length p \<le> 20" and save: "save_message_data (env_junk env) p (guest_buffer (guest_conn s)) = Ok (r, b)"
  shows "message_handler env p s =
    (if message_complete b then bindR (finish_message env (with_buffer b s)) (\<lambda>(r, s). Ok s) else Ok (with_buffer b s))"
proof -
  have d: "dump_hex (length p) = Ok ()" using p by (simp add: dump_hex_def)
  have sv: "save_packet env p s = Ok (with_buffer b s)" by (simp add: save_packet_def save with_buffer_def)
  have b: "guest_buffer (guest_conn (with_buffer b s)) = b" "guest_step (guest_conn (with_buffer b s)) = guest_step (guest_conn s)"
    "guest_result (ble_result (with_buffer b s)) = guest_result (ble_result s)"
    by (simp_all add: with_buffer_def)
  show ?thesis
    using st by (auto simp: message_handler_def d handle_step4_message_def handle_cmd_responce_def handle_step2_message_def
        sv b finish_message_def setGuestResultErr_same)
qed

lemma run_guest_loop_append:
  "run_guest_loop env (es1 @ es2) s = bindR (run_guest_loop env es1 s) (run_guest_loop env es2)"
proof (induction es1 arbitrary: s)
  case (Cons e es1)
  have "run_guest_loop env (es1 @ es2) = (\<lambda>x. bindR (run_guest_loop env es1 x) (run_guest_loop env es2))"
    using Cons by (intro ext)
  then have split: "run_guest_loop env (e # es1 @ es2) s = bindR (run_guest_loop env (e # es1) s) (run_guest_loop env es2)"
    if "\<not> loop_quit s" using that by (simp only: run_guest_loop.simps if_False bindR_assoc)
  show ?case
  proof (cases "loop_quit s")
    case True
    then show ?thesis by (cases es2) simp_all
  next
    case False
    then show ?thesis using split by simp
  qed
qed simp

lemma run_no_events: "bindR m (run_guest_loop env []) = m"
  by (cases m) simp_all

text \<open>Packets that do not complete the message only fill the buffer.\<close>
lemma run_collects:
  assumes st: "guest_step (guest_conn s) = BLE_GUEST_STEP4 \<and> guest_result (ble_result s) = 0 \<or>
      guest_step (guest_conn s) = BLE_GUEST_CMD_RESULT \<or> guest_step (guest_conn s) = BLE_GUEST_BEGIN"
    and run: "\<not> loop_quit s" and b: "guest_buffer (guest_conn s) = b"
    and ps: "\<forall>p \<in> set ps. length p \<le> 20"
    and part: "\<forall>qs rs. ps = qs @ rs \<and> qs \<noteq> [] \<longrightarrow> (\<exists>b'. save_all (env_junk env) qs b = Ok b' \<and> \<not> message_complete b')"
  shows "\<exists>b'. save_all (env_junk env) ps b = Ok b' \<and> run_guest_loop env (map Notification ps) s = Ok (with_buffer b' s)"
  using assms
proof (induction ps arbitrary: s b)
  case Nil
  then have "with_buffer b s = s" by (auto simp: with_buffer_def upd_conn_def)
  then show ?case by simp
next
  case (Cons p ps)
  obtain b1 where b1: "save_all (env_junk env) [p] b = Ok b1" "\<not> message_complete b1" using Cons.prems(5) [rule_format, of "[p]" ps] by auto
  then obtain r where sv: "save_message_data (env_junk env) p b = Ok (r, b1)" by (auto simp: bindR_eq_Ok)
  have h: "message_handler env p s = Ok (with_buffer b1 s)"
    using message_handler_waits [OF Cons.prems(1), of p env r b1] Cons.prems(3,4) sv b1(2) by simp
  have keep: "guest_step (guest_conn (with_buffer b1 s)) = guest_step (guest_conn s)" "loop_quit (with_buffer b1 s) = loop_quit s"
    "guest_result (ble_result (with_buffer b1 s)) = guest_result (ble_result s)"
    "guest_buffer (guest_conn (with_buffer b1 s)) = b1" "\<And>b'. with_buffer b' (with_buffer b1 s) = with_buffer b' s"
    by (simp_all add: with_buffer_def upd_conn_def)
  have part: "\<forall>qs rs. ps = qs @ rs \<and> qs \<noteq> [] \<longrightarrow> (\<exists>b'. save_all (env_junk env) qs b1 = Ok b' \<and> \<not> message_complete b')"
  proof (intro allI impI)
    fix qs rs
    assume "ps = qs @ rs \<and> qs \<noteq> []"
    then show "\<exists>b'. save_all (env_junk env) qs b1 = Ok b' \<and> \<not> message_complete b'"
      using Cons.prems(5) [rule_format, of "p # qs" rs] sv by simp
  qed
  obtain b' where "save_all (env_junk env) ps b1 = Ok b'" "run_guest_loop env (map Notification ps) (with_buffer b1 s) = Ok (with_buffer b' s)"
    using Cons.IH [of "with_buffer b1 s" b1] Cons.prems(1,2,4) keep part by auto
  then show ?case using Cons.prems(2) sv h by (simp add: handle_guest_event_def)
qed

text \<open>A message of 2 to 254 bytes whose second byte is not \<open>0xff\<close>, framed and cut into packets as the
  other end sends it, arrives as one message.\<close>
lemma frame_delivered:
  assumes st: "guest_step (guest_conn s) = BLE_GUEST_STEP4 \<and> guest_result (ble_result s) = 0 \<or>
      guest_step (guest_conn s) = BLE_GUEST_CMD_RESULT \<or> guest_step (guest_conn s) = BLE_GUEST_BEGIN"
    and run: "\<not> loop_quit s" and b: "guest_buffer (guest_conn s) = step_buffer_empty"
    and msg: "2 \<le> length msg" "length msg \<le> 254" "msg ! 1 \<noteq> 0xff"
    and ps: "write_char_by_uuid_multi_atts (\<lambda>_ _. 0) (word_of_nat (length msg) # msg) [] = (0, ps)"
  shows "\<exists>b. message_complete b \<and> step_data b = Some (word_of_nat (length msg) # msg) \<and> n_size_byte b = 1 \<and>
    step_max_size b = length msg + 1 \<and>
    run_guest_loop env (map Notification ps) s = bindR (finish_message env (with_buffer b s)) (\<lambda>(r, s). Ok s)"
proof -
  obtain b where arr: "\<forall>p \<in> set ps. length p \<le> 20" "save_all (env_junk env) ps step_buffer_empty = Ok b" "message_complete b"
    "\<And>qs rs. ps = qs @ rs \<Longrightarrow> qs \<noteq> [] \<Longrightarrow> rs \<noteq> [] \<Longrightarrow>
       \<exists>b'. save_all (env_junk env) qs step_buffer_empty = Ok b' \<and> \<not> message_complete b'"
    "b = \<lparr>step_max_size = length msg + 1, step_cur_size = length msg + 1, n_size_byte = 1, step_data = Some (word_of_nat (length msg) # msg)\<rparr>"
    using short_frames_collected [OF msg ps] by blast
  obtain qs r where q: "ps = qs @ [r]"
    using arr(2,3,5) by (cases ps rule: rev_cases) (auto simp: step_buffer_empty_def)
  have part: "\<forall>qs' rs. qs = qs' @ rs \<and> qs' \<noteq> [] \<longrightarrow>
      (\<exists>b'. save_all (env_junk env) qs' step_buffer_empty = Ok b' \<and> \<not> message_complete b')"
  proof (intro allI impI)
    fix qs' rs
    assume "qs = qs' @ rs \<and> qs' \<noteq> []"
    then show "\<exists>b'. save_all (env_junk env) qs' step_buffer_empty = Ok b' \<and> \<not> message_complete b'"
      using arr(4) [of qs' "rs @ [r]"] q by simp
  qed
  have small: "\<forall>p \<in> set qs. length p \<le> 20" using arr(1) q by simp
  from run_collects [where env = env, OF st run b small part]
  obtain b' where b': "save_all (env_junk env) qs step_buffer_empty = Ok b'"
    "run_guest_loop env (map Notification qs) s = Ok (with_buffer b' s)" by auto
  have "save_all (env_junk env) [r] b' = Ok b"
    using arr(2) b'(1) unfolding q by (simp add: save_all_append)
  then obtain x where sv: "save_message_data (env_junk env) r b' = Ok (x, b)" by (auto simp: bindR_eq_Ok)
  have keep: "guest_step (guest_conn (with_buffer b' s)) = guest_step (guest_conn s)" "loop_quit (with_buffer b' s) = loop_quit s"
    "guest_result (ble_result (with_buffer b' s)) = guest_result (ble_result s)"
    "guest_buffer (guest_conn (with_buffer b' s)) = b'" "with_buffer b (with_buffer b' s) = with_buffer b s"
    by (simp_all add: with_buffer_def upd_conn_def)
  have "message_handler env r (with_buffer b' s) = bindR (finish_message env (with_buffer b s)) (\<lambda>(r, s). Ok s)"
    using message_handler_waits [of "with_buffer b' s" r env x b] st keep sv arr(1,3) q by simp
  then have "run_guest_loop env (map Notification ps) s = bindR (finish_message env (with_buffer b s)) (\<lambda>(r, s). Ok s)"
    using run keep b'(2) unfolding q
    by (simp only: map_append list.map run_guest_loop_append bindR.simps run_guest_loop.simps(2) handle_guest_event_def
        guest_event.case if_False run_no_events)
  then show ?thesis using arr(3,5) by auto
qed

section \<open>Sending on an open link\<close>

text \<open>A message of at most 254 bytes goes out as one length byte and the message, in packets of at most 20 bytes.\<close>
lemma send_message_sends:
  assumes link: "\<forall>sent p. env_gatt env sent p = 0" and d: "length d \<le> 254"
  shows "\<exists>qs. send_message env e1 e2 (Some d) (word_of_nat (length d)) s =
      Ok (0, s\<lparr>sent_packets_of := sent_packets_of s @ qs\<rparr>) \<and>
    concat qs = word_of_nat (length d) # d \<and> (\<forall>q \<in> set qs. length q \<le> 20)"
proof -
  obtain qs where qs: "write_atts_loop (env_gatt env) (word_of_nat (length d) # d) 0 (sent_packets_of s) = (0, sent_packets_of s @ qs)"
    "concat qs = word_of_nat (length d) # d" "\<forall>q \<in> set qs. 0 < length q \<and> length q \<le> 20"
    using write_atts_all [OF link, of "word_of_nat (length d) # d" 0 "sent_packets_of s"] by auto
  show ?thesis
    using d qs small_word_ext [of "length d"] build_short [OF d, of "env_junk env"]
    by (intro exI [of _ qs]) (simp add: send_message_def write_char_by_uuid_multi_atts_def)
qed

text \<open>The LOCK request as it is built from the lock object.\<close>
definition lock_request :: "u32 \<Rightarrow> bytes \<Rightarrow> IgLockRequest" where
  "lock_request requestID pw =
     \<lparr>LockRequest_has_password = True, LockRequest_password = Some pw, LockRequest_password_size = length pw,
      LockRequest_has_timestamp = False, LockRequest_timestamp = 0,
      LockRequest_has_operation_id = True, LockRequest_operation_id = requestID\<rparr>"

lemma encode_lock_request:
  assumes pw: "lock_password lock = Some pw" "lock_password_size lock = length pw" "0 < length pw" "length pw \<le> 96"
  shows "\<exists>buf n. encode_request env TASK_BLE_GUEST_LOCK lock req requestID = Ok (Some (buf, n)) \<and> n \<le> 128 \<and> length buf = 128 \<and>
    ig_LockRequest_decode (take n buf) ig_LockRequest_init 0 = Ok (0, lock_request requestID pw)"
proof -
  let ?r = "lock_request requestID pw"
  have set: "ig_LockRequest_set_password False (Some pw) (length pw) (ig_LockRequest_set_operation_id requestID ig_LockRequest_init) = Ok ?r"
    using pw(3) by (simp add: ig_LockRequest_set_password_def ig_LockRequest_set_operation_id_def ig_LockRequest_init_def
        lock_request_def Let_def)
  have ok: "ig_LockRequest_ok ?r"
    using pw(3,4) by (simp add: ig_LockRequest_ok_def ig_LockRequest_is_valid_def lock_request_def str_ok_def num_ok_def)
  have mp: "unat (ig_LockRequest_get_max_payload_in_bytes ?r) = 32 + length pw"
    using pw(4) by (simp add: ig_LockRequest_get_max_payload_in_bytes_def lock_request_def unat_of_nat take_bit_nat_eq_self del: of_nat_add)
  obtain buf n where e: "ig_LockRequest_encode ?r (fresh_block (env_junk env) 128) 128 = Ok (0, buf, Some n)"
    "n \<le> 32 + length pw" "length buf = 128" "ig_LockRequest_decode (take n buf) ig_LockRequest_init 0 = Ok (0, ?r)"
    using LockRequest_codec.roundtrip [OF ok, of 128 "fresh_block (env_junk env) 128" 0] mp pw(4) by auto
  then show ?thesis using pw set by (simp add: encode_request_def finish_request_def)
qed

lemma with_buffer_simps:
  "conn_table (with_buffer b s) = conn_table s" "guest_step (guest_conn (with_buffer b s)) = guest_step (guest_conn s)"
  "guest_lock (guest_conn (with_buffer b s)) = guest_lock (guest_conn s)" "task_type (with_buffer b s) = task_type s"
  "sent_packets_of (with_buffer b s) = sent_packets_of s" "ble_result (with_buffer b s) = ble_result s"
  "receive_err (guest_conn (with_buffer b s)) = receive_err (guest_conn s)"
  by (simp_all add: with_buffer_def)

text \<open>What a session in a step expects: the peer's message is sealed for the slot of the session.\<close>
lemma slot_of_session:
  assumes "session_ok s"
  obtains k where "conn_id s = int k" "k < 32" "conns_ok (conn_table s)" "good_key (conn_key (conn_table s ! k))"
    "length (rxNonce (conn_table s ! k)) = 12" "length (txNonce (conn_table s ! k)) = 12"
proof -
  have k: "conn_id s = int (nat (conn_id s))" "nat (conn_id s) < 32" "conns_ok (conn_table s)"
    using assms by (auto simp: session_ok_def)
  then have "conn_ok (conn_table s ! nat (conn_id s))" by simp
  with k that [of "nat (conn_id s)"] show ?thesis by (simp add: conn_ok_def good_key_def)
qed

lemma step_message_frame:
  assumes "step_data b = Some (word_of_nat (length c) # c)" "n_size_byte b = 1" "step_max_size b = length c + 1"
  shows "step_message (with_buffer b s) = (Some c, word_of_nat (length c))"
  using assms by (simp add: step_message_def with_buffer_def upd_conn_def)

text \<open>The confirmation: a session in step 4 that receives the sealed message of success sends the LOCK
  command, sealed with the transmit nonce of its slot.\<close>
lemma confirmation_sends_command:
  assumes ok: "session_ok s" and st: "guest_step (guest_conn s) = BLE_GUEST_STEP4" "guest_result (ble_result s) = 0"
      "\<not> loop_quit s" "guest_buffer (guest_conn s) = step_buffer_empty" "task_type s = TASK_BLE_GUEST_LOCK"
    and pw: "lock_password (guest_lock (guest_conn s)) = Some pw" "lock_password_size (guest_lock (guest_conn s)) = length pw"
      "0 < length pw" "length pw \<le> 96"
    and link: "\<forall>sent p. env_gatt env sent p = 0"
    and k: "conn_id s = int k"
    and p4: "ig_GuestConnectionStep4_decode p ig_GuestConnectionStep4_init 0 = Ok (0, s4)"
      "GuestConnectionStep4_has_success s4" "GuestConnectionStep4_success s4" "length p \<le> 246"
    and c: "c = seal (conn_key (conn_table s ! k)) (rxNonce (conn_table s ! k)) p" "c ! 1 \<noteq> 0xff"
    and ps: "write_char_by_uuid_multi_atts (\<lambda>_ _. 0) (word_of_nat (length c) # c) [] = (0, ps)"
  shows "\<exists>m qs s'. run_guest_loop env (map Notification ps) s = Ok s' \<and>
    guest_step (guest_conn s') = BLE_GUEST_CMD_RESULT \<and> guest_buffer (guest_conn s') = step_buffer_empty \<and> \<not> loop_quit s' \<and>
    sent_packets_of s' = sent_packets_of s @ qs \<and> (\<forall>q \<in> set qs. length q \<le> 20) \<and>
    (let sealed = seal (conn_key (conn_table s ! k)) (txNonce (conn_table s ! k)) m in concat qs = word_of_nat (length sealed) # sealed) \<and>
    ig_LockRequest_decode m ig_LockRequest_init 0 =
      Ok (0, lock_request (word_of_nat (env_rand env (env_time env) 0 mod 2147483647)) pw) \<and>
    receive_err (guest_conn s') = receive_err (guest_conn s)"
proof -
  obtain k' where "conn_id s = int k'" "k' < 32" "conns_ok (conn_table s)" "good_key (conn_key (conn_table s ! k'))"
    "length (rxNonce (conn_table s ! k')) = 12" "length (txNonce (conn_table s ! k')) = 12"
    using slot_of_session [OF ok] by metis
  then have slot: "k < 32" "conns_ok (conn_table s)" "good_key (conn_key (conn_table s ! k))"
    "length (rxNonce (conn_table s ! k)) = 12" "length (txNonce (conn_table s ! k)) = 12" using k by auto
  let ?key = "conn_key (conn_table s ! k)" and ?rx = "rxNonce (conn_table s ! k)" and ?tx = "txNonce (conn_table s ! k)"
  let ?T = "(conn_table s)[k := (conn_table s ! k)\<lparr>rxNonce := incrementNonce ?rx\<rparr>]"
  let ?id = "word_of_nat (env_rand env (env_time env) 0 mod 2147483647) :: u32"
  have len: "length c = length p + 8" using c(1) slot by simp
  obtain b where b: "step_data b = Some (word_of_nat (length c) # c)" "n_size_byte b = 1" "step_max_size b = length c + 1"
    "message_complete b" "run_guest_loop env (map Notification ps) s = bindR (finish_message env (with_buffer b s)) (\<lambda>(r, s). Ok s)"
    using frame_delivered [OF _ st(3,4) _ _ c(2) ps, of env] st(1,2) len p4(4) by auto
  have conf: "GuestConnection_recConnStep4Native (int k) (Some c) (word_of_nat (length c)) (conn_table s) = Ok (True, ?T)"
    using slot p4 len by (subst guest_confirms) (simp_all add: c(1))
  obtain buf n where e: "encode_request env TASK_BLE_GUEST_LOCK (guest_lock (guest_conn s)) (guest_cmd_request (guest_conn s)) ?id = Ok (Some (buf, n))"
    "n \<le> 128" "length buf = 128" "ig_LockRequest_decode (take n buf) ig_LockRequest_init 0 = Ok (0, lock_request ?id pw)"
    using encode_lock_request [OF pw] by blast
  let ?m = "take n buf"
  have n: "length ?m = n" using e(2,3) by simp
  have T: "conns_ok ?T" "conn_key (?T ! k) = ?key" "txNonce (?T ! k) = ?tx"
    using slot conns_ok_nth [OF slot(2,1)] by (simp_all add: conn_ok_def)
  have enc: "encryptNative (int k) buf (word_of_nat n) ?T =
      Ok (word_of_nat (n + 8), Some (seal ?key ?tx ?m), ?T[k := (?T ! k)\<lparr>txNonce := incrementNonce ?tx\<rparr>])"
    using encryptNative_seals_front [OF T(1) slot(1), of ?m buf] e(2) n T by (simp del: of_nat_add)
  have sl: "length (seal ?key ?tx ?m) = n + 8" using slot n by simp
  let ?s2 = "setGuestResultErr 0 ((upd_conn (\<lambda>g. g\<lparr>guest_step := BLE_GUEST_STEP4\<rparr>) (with_buffer b s))\<lparr>conn_table := ?T\<rparr>)"
  let ?s3 = "(upd_conn (\<lambda>g. g\<lparr>guest_step := BLE_GUEST_CMD_RESULT\<rparr>) ?s2)
      \<lparr>conn_table := ?T[k := (?T ! k)\<lparr>txNonce := incrementNonce ?tx\<rparr>]\<rparr>"
  have "length (seal ?key ?tx ?m) \<le> 254" using sl e(2) by simp
  then obtain qs where qs: "send_message env ERR_CMD ERR_CMD (Some (seal ?key ?tx ?m)) (word_of_nat (n + 8)) ?s3 =
      Ok (0, ?s3\<lparr>sent_packets_of := sent_packets_of ?s3 @ qs\<rparr>)"
    "concat qs = word_of_nat (length (seal ?key ?tx ?m)) # seal ?key ?tx ?m" "\<forall>q \<in> set qs. length q \<le> 20"
    using send_message_sends [OF link, of "seal ?key ?tx ?m" ERR_CMD ERR_CMD ?s3] sl by auto
  have nz: "(word_of_nat (n + 8) :: i32) \<noteq> 0"
    using small_int_word [of "n + 8"] e(2) by (auto simp: unat_eq_zero [symmetric] simp del: of_nat_add)
  have w: "write_cmd_request env ?s2 =
      Ok (0, setGuestResultErr 0 (?s3\<lparr>sent_packets_of := sent_packets_of ?s3 @ qs\<rparr>))"
    using st(5) e(1) enc qs(1) k nz
    by (simp add: write_cmd_request_def Let_def with_buffer_def del: of_nat_add)
  have fin: "finish_message env (with_buffer b s) =
      Ok (0, setGuestResultErr 0 (releaseGuestConnectionData (setGuestResultErr 0 (?s3\<lparr>sent_packets_of := sent_packets_of ?s3 @ qs\<rparr>))))"
  proof -
    have m: "step_message (upd_conn (\<lambda>g. g\<lparr>guest_step := BLE_GUEST_STEP4\<rparr>) (with_buffer b s)) = (Some c, word_of_nat (length c))"
      using step_message_frame [OF b(1-3)] by (simp add: step_message_def)
    show ?thesis
      using st(1) k conf w m
      by (simp add: finish_message_def finish_step4_def with_buffer_def Let_def)
  qed
  let ?s' = "setGuestResultErr 0 (releaseGuestConnectionData (setGuestResultErr 0 (?s3\<lparr>sent_packets_of := sent_packets_of ?s3 @ qs\<rparr>)))"
  have "run_guest_loop env (map Notification ps) s = Ok ?s'" using b(5) fin by simp
  moreover have "guest_step (guest_conn ?s') = BLE_GUEST_CMD_RESULT" "guest_buffer (guest_conn ?s') = step_buffer_empty"
    "\<not> loop_quit ?s'" "sent_packets_of ?s' = sent_packets_of s @ qs" "receive_err (guest_conn ?s') = receive_err (guest_conn s)"
    using st(3) b(1,3) by (simp_all add: with_buffer_def releaseGuestConnectionData_def upd_conn_def)
  ultimately show ?thesis using qs(2,3) e(4) by (intro exI [of _ ?m] exI [of _ qs] exI [of _ ?s']) (simp add: Let_def)
qed

text \<open>The response to LOCK: decrypted, decoded and handed on, the slot is closed and the loop ends; the
  result number is 0 whatever the lock answered.\<close>
lemma response_delivered:
  assumes ok: "session_ok s" and st: "guest_step (guest_conn s) = BLE_GUEST_CMD_RESULT"
      "\<not> loop_quit s" "guest_buffer (guest_conn s) = step_buffer_empty" "task_type s = TASK_BLE_GUEST_LOCK"
    and k: "conn_id s = int k"
    and p: "ig_LockResponse_decode p ig_LockResponse_init 0 = Ok (0, r)" "p \<noteq> []" "length p \<le> 246"
    and c: "c = seal (conn_key (conn_table s ! k)) (rxNonce (conn_table s ! k)) p" "c ! 1 \<noteq> 0xff"
    and ps: "write_char_by_uuid_multi_atts (\<lambda>_ _. 0) (word_of_nat (length c) # c) [] = (0, ps)"
  shows "\<exists>s'. run_guest_loop env (map Notification ps) s = Ok s' \<and> loop_quit s' \<and>
    guest_cmd_response (ble_result s') = Some (LockAnswer r) \<and> guest_result (ble_result s') = 0 \<and>
    \<not> active (conn_table s' ! k) \<and> receive_err (guest_conn s') = receive_err (guest_conn s)"
proof -
  obtain k' where "conn_id s = int k'" "k' < 32" "conns_ok (conn_table s)" "good_key (conn_key (conn_table s ! k'))"
    "length (rxNonce (conn_table s ! k')) = 12"
    using slot_of_session [OF ok] by metis
  then have slot: "k < 32" "conns_ok (conn_table s)" "good_key (conn_key (conn_table s ! k))"
    "length (rxNonce (conn_table s ! k)) = 12" using k by auto
  let ?T = "(conn_table s)[k := (conn_table s ! k)\<lparr>rxNonce := incrementNonce (rxNonce (conn_table s ! k))\<rparr>]"
  have len: "length c = length p + 8" using c(1) slot by simp
  obtain b where b: "step_data b = Some (word_of_nat (length c) # c)" "n_size_byte b = 1" "step_max_size b = length c + 1"
    "message_complete b" "run_guest_loop env (map Notification ps) s = bindR (finish_message env (with_buffer b s)) (\<lambda>(r, s). Ok s)"
    using frame_delivered [OF _ st(2,3) _ _ c(2) ps, of env] st(1) len p(3) by auto
  have dec: "decryptNative (int k) c (word_of_nat (length c)) (conn_table s) = Ok (word_of_nat (length p), Some p, ?T)"
    using slot p(2,3) len by (subst decryptNative_unseals) (simp_all add: c(1))
  have lenw: "(word_of_nat (length p) :: i32) \<noteq> 0" "unat (word_of_nat (length c) :: i32) = length c"
    using small_int_word [of "length p"] small_int_word [of "length c"] p(2,3) len by (auto simp: unat_eq_zero [symmetric])
  let ?s1 = "(with_buffer b s)\<lparr>conn_table := ?T\<rparr>"
  let ?s2 = "setGuestResultCMDResponse (LockAnswer r) (set_result_if (LockResponse_has_result r) (LockResponse_result r) ?s1)"
  have stored: "store_response TASK_BLE_GUEST_LOCK p ?s1 = Ok (Some (0, ?s2))"
    by (simp add: store_response_def p(1))
  have table: "conn_table ?s2 = ?T" "guest_conn ?s2 = guest_conn ?s1"
    by (simp_all add: set_result_if_def)
  obtain conns' where e: "endConnection (int k) ?T = Ok conns'" "\<not> active (conns' ! k)"
    using slot conns_ok_nth [OF slot(2,1)] by (auto simp: endConnection_def Let_def nth_list_update conns_ok_length)
  have "finish_message env (with_buffer b s) = Ok (0, g_main_loop_quit (setGuestResultErr 0 (?s2\<lparr>conn_table := conns'\<rparr>)))"
    using st(1,4) k dec lenw stored table e(1)
    by (simp add: finish_message_def finish_cmd_responce_def step_message_frame [OF b(1-3)] block_read_def mem_slice_def
        with_buffer_simps Let_def)
  moreover have "guest_cmd_response (ble_result (g_main_loop_quit (setGuestResultErr 0 (?s2\<lparr>conn_table := conns'\<rparr>)))) = Some (LockAnswer r)"
    by (simp add: setGuestResultErr_def setGuestResultCMDResponse_def)
  ultimately show ?thesis using b(5) e(2) table by (simp add: with_buffer_simps)
qed

text \<open>Step 3 works on slot 0 for every connection.\<close>
lemma step3_uses_slot_0:
  assumes t: "conns_ok (conn_table s)" "buffer_ok (guest_buffer (guest_conn s))" and link: "\<forall>sent p. env_gatt env sent p = 0"
    and m: "step_message s = (Some bs, word_of_nat (length bs))" "length bs < 2 ^ 31"
    and s2: "ig_GuestConnectionStep2_decode bs ig_GuestConnectionStep2_init 0 = Ok (0, s2)"
      "GuestConnectionStep2_has_nonce s2" "GuestConnectionStep2_nonce s2 = Some N" "GuestConnectionStep2_nonce_size s2 = 12" "length N = 12"
  shows "\<exists>p qs s'. write_guest_step3 env s = Ok (0, s') \<and> sent_packets_of s' = sent_packets_of s @ qs \<and>
    (let sealed = seal (conn_key (conn_table s ! 0)) N p in concat qs = word_of_nat (length sealed) # sealed) \<and>
    ig_GuestConnectionStep3_decode p ig_GuestConnectionStep3_init 0 = Ok (0, guest_step3 (rxNonce (conn_table s ! 0))) \<and>
    conn_table s' = (conn_table s)[0 := (conn_table s ! 0)\<lparr>txNonce := incrementNonce N\<rparr>] \<and>
    guest_step (guest_conn s') = BLE_GUEST_STEP4 \<and> guest_buffer (guest_conn s') = step_buffer_empty \<and>
    loop_quit s' = loop_quit s \<and> guest_lock (guest_conn s') = guest_lock (guest_conn s) \<and> ble_result s' = ble_result s \<and>
    receive_err (guest_conn s') = receive_err (guest_conn s)"
proof -
  from t have "conn_ok (conn_table s ! 0)" by simp
  then have key: "good_key (conn_key (conn_table s ! 0))" by (simp add: conn_ok_def good_key_def)
  let ?T = "(conn_table s)[0 := (conn_table s ! 0)\<lparr>txNonce := incrementNonce N\<rparr>]"
  have "0 < (32 :: nat)" by simp
  from guest_answers_short [OF t(1) this m(2) s2]
  obtain p where p: "GuestConnection_genConnStep3Native 0 (Some bs) (word_of_nat (length bs)) (conn_table s) =
      Ok (word_of_nat (length p + 8), Some (seal (conn_key (conn_table s ! 0)) N p), ?T)"
    "ig_GuestConnectionStep3_decode p ig_GuestConnectionStep3_init 0 = Ok (0, guest_step3 (rxNonce (conn_table s ! 0)))" "length p \<le> 32"
    by auto
  let ?c = "seal (conn_key (conn_table s ! 0)) N p"
  have len: "length ?c = length p + 8" using key s2(5) by simp
  obtain qs where qs: "send_message env ERR_CONNECTION ERR_CONNECTION (Some ?c) (word_of_nat (length ?c)) (s\<lparr>conn_table := ?T\<rparr>) =
      Ok (0, s\<lparr>conn_table := ?T\<rparr>\<lparr>sent_packets_of := sent_packets_of s @ qs\<rparr>)" "concat qs = word_of_nat (length ?c) # ?c"
    using send_message_sends [OF link, of ?c ERR_CONNECTION ERR_CONNECTION "s\<lparr>conn_table := ?T\<rparr>"] len p(3) by auto
  have nz: "(word_of_nat (length p + 8) :: i32) \<noteq> 0"
    using small_int_word [of "length p + 8"] p(3) by (auto simp: unat_eq_zero [symmetric] simp del: of_nat_add)
  let ?s4 = "upd_conn (\<lambda>g. g\<lparr>guest_step := BLE_GUEST_STEP4\<rparr>) (s\<lparr>conn_table := ?T\<rparr>\<lparr>sent_packets_of := sent_packets_of s @ qs\<rparr>)"
  have w: "write_guest_step3 env s = Ok (0, releaseGuestConnectionData ?s4)"
    using m(1) p(1) qs(1) nz len by (simp add: write_guest_step3_def Let_def del: of_nat_add)
  have "guest_buffer (guest_conn (releaseGuestConnectionData ?s4)) = step_buffer_empty"
    using release_empties [of ?s4] t(2) by simp
  then show ?thesis using w p(2) qs(2)
    by (intro exI [of _ p] exI [of _ qs] exI [of _ "releaseGuestConnectionData ?s4"]) (simp add: Let_def)
qed

text \<open>A packet with more bytes than it announces is written behind the block.\<close>
lemma oversize_packet:
  assumes st: "guest_step (guest_conn s) \<in> {BLE_GUEST_BEGIN, BLE_GUEST_STEP4, BLE_GUEST_CMD_RESULT}"
    and b: "guest_buffer (guest_conn s) = step_buffer_empty"
    and d: "3 \<le> length data" "data ! 2 \<noteq> 0xff" "unat (data ! 0) + 1 < length data"
  shows "message_handler env data s = Fault OutOfBounds"
proof (cases "dump_hex (length data)")
  case (Fault f)
  then show ?thesis by (simp add: message_handler_def dump_hex_def split: if_splits)
next
  case (Ok u)
  have "save_message_data (env_junk env) data step_buffer_empty = Fault OutOfBounds"
    using d by (simp add: save_message_data_def open_message_def append_message_def step_buffer_empty_def mem_write_def Let_def)
  then have "save_packet env data s = Fault OutOfBounds" using b by (simp add: save_packet_def)
  then show ?thesis using st Ok
    by (auto simp: message_handler_def handle_step2_message_def handle_step4_message_def handle_cmd_responce_def)
qed

text \<open>A packet of one or two bytes counts as a complete message of no bytes.\<close>
lemma short_packet:
  assumes ok: "session_ok s" and st: "guest_step (guest_conn s) = BLE_GUEST_CMD_RESULT"
    and b: "guest_buffer (guest_conn s) = step_buffer_empty" and d: "length data < 3"
  shows "message_handler env data s = Fault OutOfBounds"
proof -
  obtain k where k: "conn_id s = int k" "k < 32" "conns_ok (conn_table s)" using slot_of_session [OF ok] by metis
  have "save_packet env data s = Ok (with_buffer step_buffer_empty s)"
    using b d by (simp add: save_packet_def save_message_data_def step_buffer_empty_def with_buffer_def)
  moreover have "step_message (with_buffer step_buffer_empty s) = (None, 0)"
    by (simp add: step_message_def with_buffer_def step_buffer_empty_def)
  moreover have "decryptNative (int k) [] 0 (conn_table s) = Fault OutOfBounds"
    using short_message [OF k(3,2), of "[]"] by simp
  moreover have "dump_hex (length data) = Ok ()" using d by (simp add: dump_hex_def)
  ultimately show ?thesis
    using st k(1)
    by (simp add: message_handler_def handle_cmd_responce_def finish_cmd_responce_def message_complete_def block_read_def
        with_buffer_def step_buffer_empty_def)
qed

section \<open>A session to try\<close>

text \<open>A lock with a password of four bytes, and a session with it in a given step, on the table at start.\<close>
definition example_lock :: igm_lock where
  "example_lock =
     \<lparr>lock_addr = [], lock_addr_len = 0, lock_name = [], lock_name_len = 0, lock_paired = 0, lock_admin_connection = 0,
      lock_guest_connection = 0, lock_has_key = True, lock_key = Some (replicate 16 7), lock_key_len = 16,
      lock_has_token = True, lock_token = Some [1, 2, 3], lock_token_len = 3,
      lock_has_password = True, lock_password = Some [4, 5, 6, 7], lock_password_size = 4,
      lock_has_lock_cmd = False, lock_lock_cmd = None, lock_lock_cmd_size = 0, connectionID = 0\<rparr>"

definition example_env :: guest_env where
  "example_env = \<lparr>env_junk = (\<lambda>i. 0), env_rand = (\<lambda>s i. i), env_time = 0, env_gatt = (\<lambda>sent p. 0),
     env_connect = True, env_uuid = True, env_notify = 0, env_loop = True\<rparr>"

definition example_session :: "BLE_GUEST_STATE \<Rightarrow> guest_session" where
  "example_session st = upd_conn (\<lambda>g. g\<lparr>guest_step := st\<rparr>)
     (new_session TASK_BLE_GUEST_LOCK example_lock NoRequest connections_init)"

lemma example_session_simps:
  "guest_step (guest_conn (example_session st)) = st" "conn_id (example_session st) = 0"
  "guest_buffer (guest_conn (example_session st)) = step_buffer_empty"
  "task_type (example_session st) = TASK_BLE_GUEST_LOCK" "\<not> loop_quit (example_session st)"
  "guest_result (ble_result (example_session st)) = 0" "conn_table (example_session st) = connections_init"
  "guest_lock (guest_conn (example_session st)) = example_lock" "sent_packets_of (example_session st) = []"
  by (simp_all add: example_session_def new_session_def initGuestConnection_def upd_conn_def example_lock_def)

lemma example_session_ok:
  "st \<in> {BLE_GUEST_BEGIN, BLE_GUEST_STEP4, BLE_GUEST_CMD_RESULT} \<Longrightarrow> session_ok (example_session st)"
  by (auto simp: session_ok_def example_session_simps conns_ok_init example_lock_def)

lemma example_link: "\<forall>sent p. env_gatt example_env sent p = 0"
  by (simp add: example_env_def)

text \<open>The second byte of a sealed message follows the second byte of the message, so of two messages that
  differ there at least one is sealed without the byte the receivers misread.\<close>
lemma seal_second_byte:
  assumes "good_key key" "length nonce = 12" "2 \<le> length p" "length p = length q" "p ! 1 \<noteq> q ! 1"
  shows "seal key nonce p ! 1 \<noteq> seal key nonce q ! 1"
proof
  assume e: "seal key nonce p ! 1 = seal key nonce q ! 1"
  let ?f = "aes_block (key_ctx key)"
  let ?ks = "ccm_stream ?f 3 nonce 1 ((length p + 15) div 16)"
  have l: "length (seal_cipher key nonce p) = length p" "length (seal_cipher key nonce q) = length q"
    using assms by simp_all
  have m: "length p \<le> length ?ks"
    using l(1) by (simp add: seal_cipher_def ccm_cipher_def)
  have "(xor_bb p ?ks) ! 1 = (xor_bb q ?ks) ! 1"
    using e assms(3,4) l unfolding seal_def by (simp add: nth_append, simp add: seal_cipher_def ccm_cipher_def)
  then have "p ! 1 XOR ?ks ! 1 = q ! 1 XOR ?ks ! 1"
    using assms(3,4) m by simp
  then have "(p ! 1 XOR ?ks ! 1) XOR ?ks ! 1 = (q ! 1 XOR ?ks ! 1) XOR ?ks ! 1" by simp
  then have "p ! 1 = q ! 1" by (simp add: xor.assoc)
  with assms(5) show False by simp
qed

lemma sealed_readable:
  assumes "good_key key" "length nonce = 12" "2 \<le> length p" "length p = length q" "p ! 1 \<noteq> q ! 1"
  obtains m where "m = p \<or> m = q" "seal key nonce m ! 1 \<noteq> 0xff"
  using seal_second_byte [OF assms] that by metis

lemma frame_packets: "\<exists>ps. write_char_by_uuid_multi_atts (\<lambda>_ _. 0) f [] = (0, ps)"
  using write_atts_all [of "\<lambda>_ _. 0" f 0 "[]"] by (auto simp: write_char_by_uuid_multi_atts_def)

lemma packets_concat: "write_char_by_uuid_multi_atts (\<lambda>_ _. 0) f [] = (0, ps) \<Longrightarrow> concat ps = f"
  using write_atts_all [of "\<lambda>_ _. 0" f 0 "[]"] by (auto simp: write_char_by_uuid_multi_atts_def)

lemma example_secrets:
  "good_key (conn_key (connections_init ! 0))" "length (rxNonce (connections_init ! 0)) = 12"
  by (simp_all add: connections_init_def good_key_def)

text \<open>The two orders of the entries of a message are encodings that differ in the second byte.\<close>
lemma confirmation_exists:
  assumes "good_key key" "length nonce = 12"
  obtains p s4 where "ig_GuestConnectionStep4_decode p ig_GuestConnectionStep4_init 0 = Ok (0, s4)"
    "GuestConnectionStep4_has_success s4" "GuestConnectionStep4_success s4" "length p \<le> 246" "seal key nonce p ! 1 \<noteq> 0xff"
proof -
  let ?p = "[0xa2, 0x00, 0x0c, 0x0b, 0xf5] :: bytes" and ?q = "[0xa2, 0x0b, 0xf5, 0x00, 0x0c] :: bytes"
  let ?s4 = "\<lparr>GuestConnectionStep4_has_success = True, GuestConnectionStep4_success = True\<rparr>"
  obtain m where m: "m = ?p \<or> m = ?q" "seal key nonce m ! 1 \<noteq> 0xff"
    by (rule sealed_readable [OF assms, of ?p ?q]) auto
  have d: "ig_GuestConnectionStep4_decode ?p ig_GuestConnectionStep4_init 0 = Ok (0, ?s4)"
    "ig_GuestConnectionStep4_decode ?q ig_GuestConnectionStep4_init 0 = Ok (0, ?s4)" by code_simp+
  show ?thesis by (rule that [of m ?s4]) (use m d in auto)
qed

lemmas example_confirmation = confirmation_exists [OF example_secrets]

lemma response_exists:
  assumes "good_key key" "length nonce = 12"
  obtains p r where "ig_LockResponse_decode p ig_LockResponse_init 0 = Ok (0, r)" "LockResponse_result r = 5"
    "p \<noteq> []" "length p \<le> 246" "seal key nonce p ! 1 \<noteq> 0xff"
proof -
  let ?p = "[0xa2, 0x00, 0x18, 0x34, 0x0b, 0x05] :: bytes" and ?q = "[0xa2, 0x0b, 0x05, 0x00, 0x18, 0x34] :: bytes"
  obtain m where m: "m = ?p \<or> m = ?q" "seal key nonce m ! 1 \<noteq> 0xff"
    by (rule sealed_readable [OF assms, of ?p ?q]) auto
  let ?r = "\<lparr>LockResponse_has_result = True, LockResponse_result = 5, LockResponse_has_operation_id = False, LockResponse_operation_id = 0\<rparr>"
  have d: "ig_LockResponse_decode ?p ig_LockResponse_init 0 = Ok (0, ?r)"
    "ig_LockResponse_decode ?q ig_LockResponse_init 0 = Ok (0, ?r)" by code_simp+
  show ?thesis by (rule that [of m ?r]) (use m d in auto)
qed

lemmas example_response = response_exists [OF example_secrets]

lemma step1_runs:
  assumes e: "write_guest_step1 env (new_session task lock req conns) = Ok (0, s)"
  shows "\<not> loop_quit s" "guest_step (guest_conn s) = BLE_GUEST_BEGIN"
proof -
  let ?s = "new_session task lock req conns"
  obtain cid conns' n out where "send_message env ERR_CONNECTION ERR_SEND out n (setLockConnectionID cid (?s\<lparr>conn_table := conns'\<rparr>)) = Ok (0, s)"
    using e by (auto simp: write_guest_step1_def bindR_eq_Ok Let_def ERR_CONNECTION_def split: if_splits)
  from send_message_Ok [OF this] show "\<not> loop_quit s" "guest_step (guest_conn s) = BLE_GUEST_BEGIN"
    by (auto simp: new_session_def setLockConnectionID_def upd_conn_def initGuestConnection_def)
qed

text \<open>Its first message goes out, so a session of this kind is reachable.\<close>
lemma example_started:
  "\<exists>s. write_guest_step1 example_env (new_session TASK_BLE_GUEST_LOCK example_lock NoRequest connections_init) = Ok (0, s)"
  by (rule exI) code_simp

end
