(* ===== verification/Lock_Command.thy ===== *)
theory Lock_Command
  imports Guest_Session
begin

text \<open>
  A command from the server to a lock: \<open>HandleLockCMD\<close> of \<open>bridge_main/ign.c\<close> makes a task for the command, runs the
  guest session with it, and \<open>saveTaskData\<close> reports what the session brought back.  A report is the message that
  \<open>Sync_Status\<close>, \<open>Sync_Battery\<close> and \<open>Sync_Activities\<close> publish, without time, number and profile.  The
  theorems say what a report and a return value of 0 stand for.
\<close>

section \<open>Reports\<close>

datatype report = Sync_Status bytes int | Sync_Battery bytes int | Sync_Activities bytes bytes

text \<open>\<open>strncpy\<close> of the lock id.\<close>
definition lock_id_text :: "bytes \<Rightarrow> bytes" where
  "lock_id_text lock_id = takeWhile (\<lambda>c. c \<noteq> 0) lock_id"

text \<open>The array \<open>log\<close> of the published message holds 500 bytes.\<close>
definition sync_activities :: "bytes \<Rightarrow> block_ptr \<Rightarrow> nat \<Rightarrow> report list res" where
  "sync_activities lock_id logs logs_size =
     (if 500 < logs_size then Fault OutOfBounds
      else bindR (block_read logs logs_size) (\<lambda>d. Ok [Sync_Activities (lock_id_text lock_id) d]))"

definition saveTaskData :: "bytes \<Rightarrow> guest_session \<Rightarrow> report list res" where
  "saveTaskData lock_id s = (let res = ble_result s in
     case task_type s of
       TASK_BLE_GUEST_GETLOCKSTATUS \<Rightarrow>
         Ok (if guest_result res \<noteq> 0 then [] else [Sync_Status (lock_id_text lock_id) (lock_status s)])
     | TASK_BLE_GUEST_GET_BATTERY_LEVEL \<Rightarrow>
         Ok (if guest_result res \<noteq> 0 then [] else [Sync_Battery (lock_id_text lock_id) (battery_level s)])
     | TASK_BLE_GUEST_GETLOGS \<Rightarrow>
         if guest_result res \<noteq> 0 then Ok []
         else (case guest_cmd_response res of
                 Some (LogsAnswer r) \<Rightarrow> bindR (log_text (GetLogsResponse_data r)) (\<lambda>_.
                   sync_activities lock_id (GetLogsResponse_data r) (GetLogsResponse_data_size r))
               | _ \<Rightarrow> Fault OutOfBounds)
     | _ \<Rightarrow> Ok [])"

section \<open>The command\<close>

text \<open>\<open>ign_DemoLockCommand\<close>.\<close>
definition task_of_command :: "int \<Rightarrow> TASK_TYPE option" where
  "task_of_command cmd =
     (if cmd = 2 then Some TASK_BLE_GUEST_LOCK
      else if cmd = 1 then Some TASK_BLE_GUEST_UNLOCK
      else if cmd = 6 then Some TASK_BLE_GUEST_GETLOCKSTATUS
      else if cmd = 5 then Some TASK_BLE_GUEST_GET_BATTERY_LEVEL
      else if cmd = 7 then Some TASK_BLE_GUEST_GETLOGS
      else if cmd = 3 then Some TASK_BLE_GUEST_CREATE_PIN
      else if cmd = 4 then Some TASK_BLE_GUEST_DEL_PIN
      else None)"

text \<open>The lock of the parameters is a copy: a block is taken over with its flag, pointer and size or not at all.\<close>
definition bleSetGuestParam :: "igm_lock \<Rightarrow> igm_lock" where
  "bleSetGuestParam lock = (let
     k = (lock_has_key lock \<and> lock_key lock \<noteq> None \<and> lock_key_len lock \<noteq> 0);
     t = (lock_has_token lock \<and> lock_token lock \<noteq> None \<and> lock_token_len lock \<noteq> 0);
     p = (lock_has_password lock \<and> lock_password lock \<noteq> None \<and> lock_password_size lock \<noteq> 0);
     c = (lock_has_lock_cmd lock \<and> lock_lock_cmd lock \<noteq> None \<and> lock_lock_cmd_size lock \<noteq> 0) in
     lock\<lparr>lock_has_key := k, lock_key := (if k then lock_key lock else None), lock_key_len := (if k then lock_key_len lock else 0),
       lock_has_token := t, lock_token := (if t then lock_token lock else None), lock_token_len := (if t then lock_token_len lock else 0),
       lock_has_password := p, lock_password := (if p then lock_password lock else None),
       lock_password_size := (if p then lock_password_size lock else 0),
       lock_has_lock_cmd := c, lock_lock_cmd := (if c then lock_lock_cmd lock else None),
       lock_lock_cmd_size := (if c then lock_lock_cmd_size lock else 0)\<rparr>)"

definition request_of_command :: "int \<Rightarrow> cmd_request \<Rightarrow> cmd_request" where
  "request_of_command cmd request = (if cmd = 3 \<or> cmd = 4 then request else NoRequest)"

text \<open>\<open>memset\<close> and \<open>memcpy\<close> of the name into \<open>lock_id\<close>, an array of 32 characters.\<close>
definition lock_id_of :: "igm_lock \<Rightarrow> bytes res" where
  "lock_id_of lock =
     (if lock_name_len lock < 0 then Fault OutOfBounds
      else bindR (mem_slice (lock_name lock) 0 (nat (lock_name_len lock))) (mem_write (replicate 32 0) 0))"

definition HandleLockCMD ::
  "guest_env \<Rightarrow> guest_event list \<Rightarrow> igm_lock \<Rightarrow> int \<Rightarrow> cmd_request \<Rightarrow> connections \<Rightarrow> (int \<times> report list \<times> connections) res"
where
  "HandleLockCMD env events lock cmd request conns =
     bindR (lock_id_of lock) (\<lambda>lock_id.
     case task_of_command cmd of
       None \<Rightarrow> Ok (- 1, [], conns)
     | Some task \<Rightarrow>
         bindR (guest_connection_and_do_cmd env events task (bleSetGuestParam lock) (request_of_command cmd request) conns) (\<lambda>(ret, s).
         if ret \<noteq> 0 then Ok (- 1, [], conn_table s)
         else bindR (saveTaskData lock_id s) (\<lambda>reports. Ok (0, reports, conn_table s))))"

section \<open>Why a loop ends\<close>

definition quit_reason :: "guest_session \<Rightarrow> bool" where
  "quit_reason s \<longleftrightarrow> (loop_quit s \<longrightarrow>
     waiting_err (guest_conn s) \<or> receive_err (guest_conn s) \<or> guest_step (guest_conn s) = BLE_GUEST_CMD_RESULT)"

lemma loop_quit_updates [simp]:
  "loop_quit (upd_conn f s) = loop_quit s" "loop_quit (setGuestResultErr e s) = loop_quit s"
  "loop_quit (releaseGuestConnectionData s) = loop_quit s"
  by (simp_all add: upd_conn_def setGuestResultErr_def releaseGuestConnectionData_def)

lemma save_packet_quit: "save_packet env data s = Ok s' \<Longrightarrow> loop_quit s' = loop_quit s"
  by (auto simp: save_packet_def bindR_eq_Ok)

lemma send_message_quit: "send_message env e1 e2 d n s = Ok (r, s') \<Longrightarrow> loop_quit s' = loop_quit s"
  using send_message_Ok [of env e1 e2 d n s r s'] by auto

lemma write_guest_step3_quit: "write_guest_step3 env s = Ok (r, s') \<Longrightarrow> loop_quit s' = loop_quit s"
  by (auto simp: write_guest_step3_def bindR_eq_Ok Let_def ERR_CONNECTION_def dest!: send_message_quit split: prod.splits if_splits)

lemma write_cmd_request_quit: "write_cmd_request env s = Ok (r, s') \<Longrightarrow> loop_quit s' = loop_quit s"
  by (auto simp: write_cmd_request_def bindR_eq_Ok Let_def ERR_CMD_def dest!: send_message_quit split: prod.splits if_splits option.splits)

lemma event_quit_reason:
  assumes ok: "session_ok s" and run: "\<not> loop_quit s" and e: "handle_guest_event env e s = Ok s'"
  shows "quit_reason s'"
proof (cases e)
  case Timeout
  then show ?thesis using e by (auto simp: handle_guest_event_def stop_main_loop_func_def quit_reason_def upd_conn_def g_main_loop_quit_def)
next
  case (Notification data)
  have h: "message_handler env data s = Ok s'" using e Notification by (simp add: handle_guest_event_def)
  consider (first) "guest_step (guest_conn s) = BLE_GUEST_BEGIN" | (four) "guest_step (guest_conn s) = BLE_GUEST_STEP4"
    | (cmd) "guest_step (guest_conn s) = BLE_GUEST_CMD_RESULT"
    using ok run by (auto simp: session_ok_def)
  then show ?thesis
  proof cases
    case first
    then obtain r where r: "handle_step2_message env data s = Ok (r, s')" using h by (auto simp: message_handler_def bindR_eq_Ok)
    then obtain s1 where s1: "save_packet env data s = Ok s1" by (auto simp: handle_step2_message_def bindR_eq_Ok)
    show ?thesis
    proof (cases "message_complete (guest_buffer (guest_conn s1))")
      case False
      then show ?thesis using r s1 save_packet_quit [OF s1] run by (auto simp: handle_step2_message_def quit_reason_def)
    next
      case True
      then obtain r2 s2 where w: "write_guest_step3 env (upd_conn (\<lambda>g. g\<lparr>guest_step := BLE_GUEST_STEP3\<rparr>) s1) = Ok (r2, s2)"
        using r s1 by (auto simp: handle_step2_message_def bindR_eq_Ok)
      have "\<not> loop_quit s2" using write_guest_step3_quit [OF w] save_packet_quit [OF s1] run by simp
      then show ?thesis
        using r s1 w True by (auto simp: handle_step2_message_def quit_reason_def upd_conn_def g_main_loop_quit_def split: if_splits)
    qed
  next
    case four
    then obtain r where r: "handle_step4_message env data s = Ok (r, s')" using h by (auto simp: message_handler_def bindR_eq_Ok)
    then obtain s1 where s1: "save_packet env data s = Ok s1" by (auto simp: handle_step4_message_def bindR_eq_Ok)
    have "loop_quit s' = loop_quit s1"
      using r s1 by (auto simp: handle_step4_message_def finish_step4_def bindR_eq_Ok Let_def dest!: write_cmd_request_quit
          split: prod.splits if_splits)
    then show ?thesis using save_packet_quit [OF s1] run by (simp add: quit_reason_def)
  next
    case cmd
    then obtain r where "handle_cmd_responce env data s = Ok (r, s')" using h by (auto simp: message_handler_def bindR_eq_Ok)
    from response_ok [OF ok this] cmd show ?thesis by (simp add: quit_reason_def)
  qed
qed

section \<open>What a session keeps\<close>

text \<open>The slot of the session, the keys of the table and the task do not change while the loop runs, and of the events only the
  timeout reports one.\<close>
definition kept :: "bool \<Rightarrow> guest_session \<Rightarrow> guest_session \<Rightarrow> bool" where
  "kept w s s' \<longleftrightarrow> conn_id s' = conn_id s \<and> map conn_key (conn_table s') = map conn_key (conn_table s) \<and>
     task_type s' = task_type s \<and>
     (w \<longrightarrow> waiting_err (guest_conn s') = waiting_err (guest_conn s))"

lemma kept_refl [simp]: "kept w s s"
  by (simp add: kept_def)

lemma kept_trans: "kept w s t \<Longrightarrow> kept w t u \<Longrightarrow> kept w s u"
  by (simp add: kept_def)

lemma kept_updates [simp]:
  "kept w s (setGuestResultErr e t) = kept w s t" "kept w s (setGuestResultCMDResponse r t) = kept w s t"
  "kept w s (g_main_loop_quit t) = kept w s t" "kept w s (releaseGuestConnectionData t) = kept w s t"
  "kept w s (set_result_if h x8 t) = kept w s t" "kept w s (BleSetStatusRes_if h lo t) = kept w s t"
  "kept w s (BleSetBatteryLRes_if h l t) = kept w s t" "kept w s (t\<lparr>sent_packets_of := sent\<rparr>) = kept w s t"
  "kept w s (upd_conn (\<lambda>g. g\<lparr>guest_step := st\<rparr>) t) = kept w s t" "kept w s (upd_conn (\<lambda>g. g\<lparr>guest_buffer := b\<rparr>) t) = kept w s t"
  "kept w s (upd_conn (\<lambda>g. g\<lparr>receive_err := x\<rparr>) t) = kept w s t" "kept False s (upd_conn (\<lambda>g. g\<lparr>waiting_err := x\<rparr>) t) = kept False s t"
  by (simp_all add: kept_def setGuestResultErr_def setGuestResultCMDResponse_def g_main_loop_quit_def releaseGuestConnectionData_def
      set_result_if_def BleSetStatusRes_if_def BleSetBatteryLRes_if_def upd_conn_def)

lemma kept_table: "kept w s t \<Longrightarrow> map conn_key conns = map conn_key (conn_table t) \<Longrightarrow> kept w s (t\<lparr>conn_table := conns\<rparr>)"
  by (simp add: kept_def)

lemma keys_update: "conn_key c = conn_key (conns ! k) \<Longrightarrow> map conn_key (conns[k := c]) = map conn_key conns"
  by (cases "k < length conns") (simp_all add: map_update list_update_same_conv list_update_beyond)

lemma slot_calls_keys:
  "seal_slot conns k d n = Ok (r, out, conns') \<Longrightarrow> map conn_key conns' = map conn_key conns"
  "open_slot conns k d n = Ok (r, out, conns') \<Longrightarrow> map conn_key conns' = map conn_key conns"
  "encryptNative i msg len conns = Ok (r', out', conns') \<Longrightarrow> map conn_key conns' = map conn_key conns"
  "decryptNative i msg len conns = Ok (r', out', conns') \<Longrightarrow> map conn_key conns' = map conn_key conns"
  by (auto simp: seal_slot_def open_slot_def encryptNative_def decryptNative_def bindR_eq_Ok conn_at_Ok Let_def
      intro!: keys_update split: if_splits)

lemma end_keys:
  assumes "endConnection i conns = Ok conns'"
  shows "map conn_key conns' = map conn_key conns"
proof (cases "i > 32 \<or> i < 0")
  case False
  let ?c = "conns[nat i := (conns ! nat i)\<lparr>active := False, connnectionId := 0, type_of_conn := kConnectionTypeNone\<rparr>]"
  have "conns' = ?c[0 := (?c ! 0)\<lparr>rxNonce := replicate 12 0\<rparr>]"
    using assms False by (auto simp: endConnection_def Let_def split: if_splits)
  moreover have "map conn_key ?c = map conn_key conns" by (rule keys_update) simp
  ultimately show ?thesis using keys_update [of "(?c ! 0)\<lparr>rxNonce := replicate 12 0\<rparr>" ?c 0] by simp
qed (use assms in \<open>auto simp: endConnection_def\<close>)

lemma step3_keys:
  assumes "GuestConnection_genConnStep3Native i d n conns = Ok (r, out, conns')"
  shows "map conn_key conns' = map conn_key conns"
  using assms
  by (auto simp: GuestConnection_genConnStep3Native_def bindR_eq_Ok conn_at_Ok Let_def keys_update
      dest!: slot_calls_keys(1) split: if_splits prod.splits option.splits)

lemma step4_keys:
  "GuestConnection_recConnStep4Native i d n conns = Ok (b, conns') \<Longrightarrow> map conn_key conns' = map conn_key conns"
  by (auto simp: GuestConnection_recConnStep4Native_def bindR_eq_Ok dest!: slot_calls_keys(2) split: if_splits option.splits prod.splits)

lemma save_packet_kept: "save_packet env data s = Ok s1 \<Longrightarrow> kept w s s1"
  by (auto simp: save_packet_def bindR_eq_Ok)

lemma send_message_kept: "send_message env e1 e2 d n s = Ok (r, s') \<Longrightarrow> kept w t s \<Longrightarrow> kept w t s'"
  using send_message_Ok [of env e1 e2 d n s r s'] by auto

lemma write_guest_step3_kept: "write_guest_step3 env s = Ok (r, s') \<Longrightarrow> kept w t s \<Longrightarrow> kept w t s'"
  by (auto simp: write_guest_step3_def bindR_eq_Ok Let_def ERR_CONNECTION_def dest!: step3_keys split: prod.splits if_splits
      intro!: kept_table elim!: send_message_kept)

lemma write_cmd_request_kept: "write_cmd_request env s = Ok (r, s') \<Longrightarrow> kept w t s \<Longrightarrow> kept w t s'"
  by (auto simp: write_cmd_request_def bindR_eq_Ok Let_def dest!: slot_calls_keys(3) split: prod.splits if_splits option.splits
      intro!: kept_table elim!: send_message_kept)

lemma store_response_kept: "store_response task resp s = Ok (Some (n, s')) \<Longrightarrow> kept w t s \<Longrightarrow> kept w t s'"
  by (cases task) (auto simp: store_response_def bindR_eq_Ok split: if_splits)

lemma finish_step4_kept: "finish_step4 env s = Ok (r, s') \<Longrightarrow> kept w t s \<Longrightarrow> kept w t s'"
  by (auto simp: finish_step4_def bindR_eq_Ok Let_def dest!: step4_keys split: prod.splits if_splits
      intro!: kept_table elim!: write_cmd_request_kept)

lemma finish_cmd_kept:
  assumes e: "finish_cmd_responce env s = Ok (r, s')" and t: "kept w t s"
  shows "kept w t s'"
proof -
  obtain d n where m: "step_message s = (d, n)" by fastforce
  obtain msg len out conns where dec: "block_read d (unat n) = Ok msg" "decryptNative (conn_id s) msg n (conn_table s) = Ok (len, out, conns)"
    using e m by (auto simp: finish_cmd_responce_def bindR_eq_Ok Let_def)
  let ?s = "s\<lparr>conn_table := conns\<rparr>"
  have k: "kept w t ?s" by (rule kept_table [OF t slot_calls_keys(4) [OF dec(2)]])
  show ?thesis
  proof (cases "len = 0")
    case True
    then show ?thesis using e m dec k by (auto simp: finish_cmd_responce_def Let_def)
  next
    case False
    then obtain x where x: "store_response (task_type s) (case out of Some r \<Rightarrow> r | None \<Rightarrow> []) ?s = Ok x"
      using e m dec by (auto simp: finish_cmd_responce_def bindR_eq_Ok Let_def)
    show ?thesis
    proof (cases x)
      case None
      then show ?thesis using e m dec False x k by (auto simp: finish_cmd_responce_def Let_def)
    next
      case (Some y)
      obtain derr s2 where y: "y = (derr, s2)" by fastforce
      have k2: "kept w t s2" using store_response_kept [OF _ k] x Some y by auto
      show ?thesis
      proof (cases "derr = 0")
        case d0: False
        then show ?thesis using e m dec False x Some y k2 by (auto simp: finish_cmd_responce_def Let_def)
      next
        case True
        then obtain conns' where c: "endConnection (conn_id s2) (conn_table s2) = Ok conns'"
          "s' = g_main_loop_quit (setGuestResultErr 0 (s2\<lparr>conn_table := conns'\<rparr>))"
          using e m dec False x Some y by (auto simp: finish_cmd_responce_def Let_def bindR_eq_Ok)
        then show ?thesis using kept_table [OF k2 end_keys [OF c(1)]] by simp
      qed
    qed
  qed
qed

lemma event_kept:
  assumes e: "handle_guest_event env e s = Ok s'"
  shows "kept (e \<noteq> Timeout) s s'"
proof (cases e)
  case Timeout
  then show ?thesis using e by (auto simp: handle_guest_event_def stop_main_loop_func_def)
next
  case (Notification data)
  then show ?thesis
    using e
    by (auto simp: handle_guest_event_def message_handler_def handle_step2_message_def handle_step4_message_def
        handle_cmd_responce_def bindR_eq_Ok dest!: save_packet_kept split: BLE_GUEST_STATE.splits if_splits
        elim!: write_guest_step3_kept finish_step4_kept finish_cmd_kept)
qed

lemma kept_weaken: "kept w s t \<Longrightarrow> (v \<Longrightarrow> w) \<Longrightarrow> kept v s t"
  by (auto simp: kept_def)

lemma run_kept: "run_guest_loop env es s = Ok s' \<Longrightarrow> kept (Timeout \<notin> set es) s s'"
proof (induction es arbitrary: s)
  case (Cons e es)
  show ?case
  proof (cases "loop_quit s")
    case False
    then obtain s1 where s1: "handle_guest_event env e s = Ok s1" "run_guest_loop env es s1 = Ok s'"
      using Cons.prems by (auto simp: bindR_eq_Ok)
    show ?thesis
      by (rule kept_trans [OF kept_weaken [OF event_kept [OF s1(1)]] kept_weaken [OF Cons.IH [OF s1(2)]]]) auto
  qed (use Cons.prems in simp)
qed simp

text \<open>The session starts with the key of its lock in its slot.\<close>
lemma step1_key:
  assumes ok: "conns_ok conns" and e: "write_guest_step1 env (new_session task lock req conns) = Ok (0, s)"
  shows "\<exists>key. lock_key lock = Some key \<and> 16 \<le> length key \<and> conn_key (conn_table s ! nat (conn_id s)) = take 16 key"
proof -
  let ?s = "new_session task lock req conns"
  let ?key = "case lock_key lock of Some key \<Rightarrow> key | None \<Rightarrow> []"
  obtain cid conns' n out where b: "beginConnection (env_rand env) (env_time env) kConnectionTypeGuest ?key
      (sint (word_of_nat (lock_key_len lock) :: i32)) conns = Ok (cid, conns')" "cid \<noteq> - 1"
    and m: "send_message env ERR_CONNECTION ERR_SEND out n (setLockConnectionID cid (?s\<lparr>conn_table := conns'\<rparr>)) = Ok (0, s)"
    using e by (auto simp: write_guest_step1_def GuestConnection_beginConnection_def new_session_def initGuestConnection_def
        bindR_eq_Ok Let_def ERR_CONNECTION_def split: if_splits)
  have s: "conn_table s = conns'" "conn_id s = cid"
    using send_message_Ok [OF m] by (auto simp: setLockConnectionID_def upd_conn_def)
  obtain k where k: "first_free conns = Some k" using b by (cases "first_free conns") (auto simp: beginConnection_eq)
  obtain key where key: "mem_slice ?key 0 16 = Ok key" "cid = int k"
    "conns' = conns[k := opened (env_rand env) (env_time env) kConnectionTypeGuest key k (conns ! k)]"
    using b by (auto simp: beginConnection_eq k bindR_eq_Ok split: if_splits)
  have len: "16 \<le> length ?key" "key = take 16 ?key" using key(1) by (auto simp: mem_slice_def split: if_splits)
  then obtain key' where "lock_key lock = Some key'" by (cases "lock_key lock") auto
  moreover have "k < length conns" using first_free_Some [OF k] ok by simp
  ultimately show ?thesis using s key(2,3) len by (simp add: opened_def)
qed

section \<open>Why a command is done\<close>

text \<open>A run confirmed by a lock with the key: after some of the events the session stands in step 4, and the next event completes
  a message of success sealed with the key and the receive nonce of the session.\<close>
definition confirmed_run :: "guest_env \<Rightarrow> guest_event list \<Rightarrow> bytes \<Rightarrow> guest_session \<Rightarrow> bool" where
  "confirmed_run env events key s \<longleftrightarrow> (\<exists>before data rest t t' p err s4.
     events = before @ Notification data # rest \<and> run_guest_loop env before s = Ok t \<and> \<not> loop_quit t \<and>
     guest_step (guest_conn t) = BLE_GUEST_STEP4 \<and> save_packet env data t = Ok t' \<and>
     message_complete (guest_buffer (guest_conn t')) \<and>
     step_message t' = (Some (seal key (rxNonce (conn_table t' ! nat (conn_id s))) p), word_of_nat (length p + 8)) \<and>
     ig_GuestConnectionStep4_decode p ig_GuestConnectionStep4_init 0 = Ok (err, s4) \<and>
     GuestConnectionStep4_has_success s4 \<and> GuestConnectionStep4_success s4)"

lemma kept_slot_key:
  assumes "kept w s t" "session_ok s" "session_ok t"
  shows "conn_key (conn_table t ! nat (conn_id t)) = conn_key (conn_table s ! nat (conn_id s))"
proof -
  have "nat (conn_id s) < length (conn_table s)" "length (conn_table t) = length (conn_table s)"
    using assms by (auto simp: session_ok_def)
  then show ?thesis using assms(1) unfolding kept_def by (metis nth_map)
qed

lemma run_confirmed:
  "run_guest_loop env es s = Ok s' \<Longrightarrow> guest_reach env s \<Longrightarrow> guest_step (guest_conn s) \<noteq> BLE_GUEST_CMD_RESULT \<Longrightarrow>
   guest_step (guest_conn s') = BLE_GUEST_CMD_RESULT \<Longrightarrow>
   confirmed_run env es (conn_key (conn_table s ! nat (conn_id s))) s"
proof (induction es arbitrary: s)
  case (Cons e es)
  have run: "\<not> loop_quit s" using Cons.prems by auto
  obtain s1 where s1: "handle_guest_event env e s = Ok s1" "run_guest_loop env es s1 = Ok s'"
    using Cons.prems(1) run by (auto simp: bindR_eq_Ok)
  have r1: "guest_reach env s1" by (rule event [OF Cons.prems(2) run s1(1)])
  have ok: "session_ok s" "session_ok s1" using reach_ok Cons.prems(2) r1 by blast+
  have same: "conn_id s1 = conn_id s" "conn_key (conn_table s1 ! nat (conn_id s1)) = conn_key (conn_table s ! nat (conn_id s))"
    using event_kept [OF s1(1)] kept_slot_key [OF event_kept [OF s1(1)] ok] by (simp_all add: kept_def)
  show ?case
  proof (cases "guest_step (guest_conn s1) = BLE_GUEST_CMD_RESULT")
    case True
    then obtain data t' where t: "e = Notification data" "guest_step (guest_conn s) = BLE_GUEST_STEP4"
      "save_packet env data s = Ok t'" "confirmed t'"
      using event_ok [OF ok(1) run s1(1)] Cons.prems(3) by blast
    have ok': "session_ok t'" by (rule save_packet_ok [OF t(3) ok(1)])
    have k: "conn_id t' = conn_id s" "conn_key (conn_table t' ! nat (conn_id t')) = conn_key (conn_table s ! nat (conn_id s))"
      using save_packet_kept [of env data s t' True] kept_slot_key [OF save_packet_kept [OF t(3), of True] ok(1) ok'] t(3) by (simp_all add: kept_def)
    obtain p err s4 where p: "step_message t' = (Some (seal (conn_key (conn_table s ! nat (conn_id s)))
        (rxNonce (conn_table t' ! nat (conn_id s))) p), word_of_nat (length p + 8))"
      "ig_GuestConnectionStep4_decode p ig_GuestConnectionStep4_init 0 = Ok (err, s4)"
      "GuestConnectionStep4_has_success s4" "GuestConnectionStep4_success s4"
      using confirmed_sealed [OF ok' t(4)] k by auto
    have "message_complete (guest_buffer (guest_conn t'))" using t(4) by (simp add: confirmed_def)
    then show ?thesis
      unfolding confirmed_run_def using t(1-3) run p
      by (intro exI [of _ "[]"] exI [of _ data] exI [of _ es] exI [of _ s] exI [of _ t'] exI [of _ p] exI [of _ err] exI [of _ s4]) simp
  next
    case False
    from Cons.IH [OF s1(2) r1 False Cons.prems(4), unfolded same]
    obtain before data rest t t' p err s4 where c: "es = before @ Notification data # rest" "run_guest_loop env before s1 = Ok t"
      "\<not> loop_quit t" "guest_step (guest_conn t) = BLE_GUEST_STEP4" "save_packet env data t = Ok t'"
      "message_complete (guest_buffer (guest_conn t'))"
      "step_message t' = (Some (seal (conn_key (conn_table s ! nat (conn_id s))) (rxNonce (conn_table t' ! nat (conn_id s))) p),
        word_of_nat (length p + 8))"
      "ig_GuestConnectionStep4_decode p ig_GuestConnectionStep4_init 0 = Ok (err, s4)"
      "GuestConnectionStep4_has_success s4" "GuestConnectionStep4_success s4"
      using same unfolding confirmed_run_def by metis
    have "run_guest_loop env (e # before) s = Ok t" "e # es = (e # before) @ Notification data # rest" using run s1(1) c(1,2) by simp_all
    with c(3-) show ?thesis unfolding confirmed_run_def by blast
  qed
qed simp

lemma run_quit_reason:
  "run_guest_loop env es s = Ok s' \<Longrightarrow> guest_reach env s \<Longrightarrow> quit_reason s \<Longrightarrow> quit_reason s'"
proof (induction es arbitrary: s)
  case (Cons e es)
  show ?case
  proof (cases "loop_quit s")
    case False
    then obtain s1 where s1: "handle_guest_event env e s = Ok s1" "run_guest_loop env es s1 = Ok s'"
      using Cons.prems(1) by (auto simp: bindR_eq_Ok)
    show ?thesis
      using Cons.IH [OF s1(2) event [OF Cons.prems(2) False s1(1)] event_quit_reason [OF reach_ok [OF Cons.prems(2)] False s1(1)]] .
  qed (use Cons.prems in auto)
qed simp

lemma run_guest_loop_ends: "run_guest_loop env (es @ [Timeout]) s = Ok s' \<Longrightarrow> loop_quit s'"
proof (induction es arbitrary: s)
  case Nil
  then show ?case by (auto simp: handle_guest_event_def stop_main_loop_func_def g_main_loop_quit_def split: if_splits)
next
  case (Cons e es)
  then show ?case by (cases "loop_quit s") (auto simp: bindR_eq_Ok)
qed

text \<open>A session that returns 0 got its response, so it was confirmed before.\<close>
lemma confirmed_run_timeout:
  "confirmed_run env (events @ [Timeout]) key s \<Longrightarrow> confirmed_run env events key s"
proof -
  assume "confirmed_run env (events @ [Timeout]) key s"
  then obtain before data rest t t' p err s4 where c: "events @ [Timeout] = before @ Notification data # rest"
    "run_guest_loop env before s = Ok t" "\<not> loop_quit t" "guest_step (guest_conn t) = BLE_GUEST_STEP4" "save_packet env data t = Ok t'"
    "message_complete (guest_buffer (guest_conn t'))"
    "step_message t' = (Some (seal key (rxNonce (conn_table t' ! nat (conn_id s))) p), word_of_nat (length p + 8))"
    "ig_GuestConnectionStep4_decode p ig_GuestConnectionStep4_init 0 = Ok (err, s4)"
    "GuestConnectionStep4_has_success s4" "GuestConnectionStep4_success s4"
    unfolding confirmed_run_def by metis
  obtain rest' where "events = before @ Notification data # rest'"
    using c(1) by (cases rest rule: rev_cases) auto
  with c(2-) show ?thesis unfolding confirmed_run_def by blast
qed

lemma success_confirmed:
  assumes ok: "conns_ok conns" and e: "guest_connection_and_do_cmd env events task lock req conns = Ok (0, s')"
  shows "\<exists>key s1. lock_key lock = Some key \<and> 16 \<le> length key \<and>
    write_guest_step1 env (new_session task lock req conns) = Ok (0, s1) \<and> confirmed_run env events (take 16 key) s1"
proof -
  let ?s = "new_session task lock req conns"
  obtain s1 where s1: "write_guest_step1 env ?s = Ok (0, s1)"
    and s2: "\<exists>s2. run_guest_loop env (events @ [Timeout]) s1 = Ok s2 \<and> \<not> waiting_err (guest_conn s2) \<and> \<not> receive_err (guest_conn s2)"
    using e by (auto simp: guest_connection_and_do_cmd_def Let_def bindR_eq_Ok ERR_GATT_def ERR_GLIB_LOOP_def ERR_STEP1_def ERR_WAITING_def
        split: if_splits)
  then obtain s2 where s2: "run_guest_loop env (events @ [Timeout]) s1 = Ok s2" "\<not> waiting_err (guest_conn s2)" "\<not> receive_err (guest_conn s2)"
    by blast
  have r: "guest_reach env s1" by (rule started [OF ok s1])
  have q: "quit_reason s1" using step1_runs(1) [OF s1] by (simp add: quit_reason_def)
  have st: "guest_step (guest_conn s1) \<noteq> BLE_GUEST_CMD_RESULT" using step1_runs(2) [OF s1] by simp
  have "guest_step (guest_conn s2) = BLE_GUEST_CMD_RESULT"
    using run_quit_reason [OF s2(1) r q] run_guest_loop_ends [OF s2(1)] s2(2,3) unfolding quit_reason_def by blast
  from confirmed_run_timeout [OF run_confirmed [OF s2(1) r st this]]
  show ?thesis using step1_key [OF ok s1] s1 by auto
qed

lemma saveTaskData_one: "saveTaskData lock_id s = Ok reports \<Longrightarrow> length reports \<le> 1 \<and> (reports \<noteq> [] \<longrightarrow> guest_result (ble_result s) = 0)"
  by (auto simp: saveTaskData_def sync_activities_def Let_def bindR_eq_Ok split: TASK_TYPE.splits if_splits option.splits cmd_response.splits)

lemma command_reports:
  assumes ok: "conns_ok conns" and e: "HandleLockCMD env events lock cmd request conns = Ok (ret, reports, conns')"
  shows "length reports \<le> 1 \<and> ret \<in> {0, - 1} \<and> (reports \<noteq> [] \<longrightarrow> ret = 0) \<and>
    (ret = 0 \<longrightarrow> (\<exists>task key s1. task_of_command cmd = Some task \<and> lock_key lock = Some key \<and> 16 \<le> length key \<and>
       write_guest_step1 env (new_session task (bleSetGuestParam lock) (request_of_command cmd request) conns) = Ok (0, s1) \<and>
       confirmed_run env events (take 16 key) s1))"
proof -
  obtain lock_id where id: "lock_id_of lock = Ok lock_id" using e by (auto simp: HandleLockCMD_def bindR_eq_Ok)
  show ?thesis
  proof (cases "task_of_command cmd")
    case None
    then show ?thesis using e id by (simp add: HandleLockCMD_def)
  next
    case (Some task)
    then obtain r s where g: "guest_connection_and_do_cmd env events task (bleSetGuestParam lock) (request_of_command cmd request) conns = Ok (r, s)"
      using e id by (auto simp: HandleLockCMD_def bindR_eq_Ok)
    show ?thesis
    proof (cases "r = 0")
      case False
      then show ?thesis using e id Some g by (simp add: HandleLockCMD_def)
    next
      case True
      then have "ret = 0" "saveTaskData lock_id s = Ok reports" using e id Some g by (auto simp: HandleLockCMD_def bindR_eq_Ok)
      moreover obtain key s1 where "lock_key (bleSetGuestParam lock) = Some key" "16 \<le> length key"
        "write_guest_step1 env (new_session task (bleSetGuestParam lock) (request_of_command cmd request) conns) = Ok (0, s1)"
        "confirmed_run env events (take 16 key) s1"
        using success_confirmed [OF ok] g True by blast
      moreover from this(1) have "lock_key lock = Some key" by (auto simp: bleSetGuestParam_def Let_def split: if_splits)
      ultimately show ?thesis using saveTaskData_one Some by auto
    qed
  qed
qed

text \<open>A log of more than 500 bytes, or one without a zero byte, is too much for the report.\<close>
lemma long_log_overflows:
  assumes "task_type s = TASK_BLE_GUEST_GETLOGS" "guest_result (ble_result s) = 0" "guest_cmd_response (ble_result s) = Some (LogsAnswer r)"
    and "500 < GetLogsResponse_data_size r \<or> (\<exists>d. GetLogsResponse_data r = Some d \<and> 0 \<notin> set d)"
  shows "saveTaskData lock_id s = Fault OutOfBounds"
  using assms by (auto simp: saveTaskData_def log_text_def sync_activities_def split: option.splits)

text \<open>The status of the lock that refuses to give its status is reported as 0.\<close>
lemma refused_status:
  assumes p: "ig_GetLockStatusResponse_decode p ig_GetLockStatusResponse_init 0 = Ok (0, r)" "\<not> GetLockStatusResponse_has_lock_open r"
    and s: "task_type s = TASK_BLE_GUEST_GETLOCKSTATUS" "lock_status s = 0"
  shows "\<exists>s'. store_response (task_type s) p s = Ok (Some (0, s')) \<and>
    saveTaskData lock_id (setGuestResultErr 0 s') = Ok [Sync_Status (lock_id_text lock_id) 0]"
  using assms by (auto simp: store_response_def BleSetStatusRes_if_def set_result_if_def saveTaskData_def setGuestResultErr_def Let_def)

section \<open>A run to the end\<close>

lemma step2_delivered:
  assumes ok: "session_ok s" and st: "guest_step (guest_conn s) = BLE_GUEST_BEGIN" "\<not> loop_quit s"
      "guest_buffer (guest_conn s) = step_buffer_empty"
    and link: "\<forall>sent p. env_gatt env sent p = 0"
    and bs: "ig_GuestConnectionStep2_decode bs ig_GuestConnectionStep2_init 0 = Ok (0, s2)"
      "GuestConnectionStep2_has_nonce s2" "GuestConnectionStep2_nonce s2 = Some N" "GuestConnectionStep2_nonce_size s2 = 12" "length N = 12"
      "2 \<le> length bs" "length bs \<le> 254" "bs ! 1 \<noteq> 0xff"
    and ps: "write_char_by_uuid_multi_atts (\<lambda>_ _. 0) (word_of_nat (length bs) # bs) [] = (0, ps)"
  shows "\<exists>s'. run_guest_loop env (map Notification ps) s = Ok s' \<and> guest_step (guest_conn s') = BLE_GUEST_STEP4 \<and>
    guest_buffer (guest_conn s') = step_buffer_empty \<and> \<not> loop_quit s' \<and> guest_lock (guest_conn s') = guest_lock (guest_conn s) \<and>
    ble_result s' = ble_result s \<and> receive_err (guest_conn s') = receive_err (guest_conn s)"
proof -
  obtain b where b: "step_data b = Some (word_of_nat (length bs) # bs)" "n_size_byte b = 1" "step_max_size b = length bs + 1"
    "message_complete b" "run_guest_loop env (map Notification ps) s = bindR (finish_message env (with_buffer b s)) (\<lambda>(r, s). Ok s)"
    using frame_delivered [OF _ st(2,3) bs(6-8) ps, of env] st(1) by auto
  let ?t = "upd_conn (\<lambda>g. g\<lparr>guest_step := BLE_GUEST_STEP3\<rparr>) (with_buffer b s)"
  have m: "step_message ?t = (Some bs, word_of_nat (length bs))"
    using step_message_frame [OF b(1-3)] by (simp add: step_message_def)
  have t: "conns_ok (conn_table ?t)" "buffer_ok (guest_buffer (guest_conn ?t))" "length bs < 2 ^ 31"
    using ok b(1-4) bs(6,7) by (auto simp: session_ok_def with_buffer_def buffer_ok_def message_complete_def)
  obtain s' where s': "write_guest_step3 env ?t = Ok (0, s')" "guest_step (guest_conn s') = BLE_GUEST_STEP4"
    "guest_buffer (guest_conn s') = step_buffer_empty" "loop_quit s' = loop_quit ?t"
    "guest_lock (guest_conn s') = guest_lock (guest_conn ?t)" "ble_result s' = ble_result ?t"
    "receive_err (guest_conn s') = receive_err (guest_conn ?t)"
    using step3_uses_slot_0 [OF t(1,2) link m t(3) bs(1-5)] by metis
  have "finish_message env (with_buffer b s) = Ok (0, s')"
    using st(1) s'(1) by (simp add: finish_message_def with_buffer_simps)
  then have "run_guest_loop env (map Notification ps) s = Ok s'" using b(5) by simp
  then show ?thesis using s'(2-) st(2) by (simp add: with_buffer_def)
qed

text \<open>A reachable session stays one.\<close>
lemma run_reach: "run_guest_loop env es s = Ok s' \<Longrightarrow> guest_reach env s \<Longrightarrow> guest_reach env s'"
proof (induction es arbitrary: s)
  case (Cons e es)
  show ?case
  proof (cases "loop_quit s")
    case False
    then obtain s1 where "handle_guest_event env e s = Ok s1" "run_guest_loop env es s1 = Ok s'"
      using Cons.prems by (auto simp: bindR_eq_Ok)
    then show ?thesis using Cons.IH event [OF Cons.prems(2) False] by blast
  qed (use Cons.prems in simp)
qed simp

lemma run_quit: "loop_quit s \<Longrightarrow> run_guest_loop env es s = Ok s"
  by (cases es) simp_all

text \<open>A lock that holds the key can answer a LOCK command so that the session ends with success: the notifications that carry
  a nonce, the sealed confirmation and the sealed response.\<close>
lemma lock_session_succeeds:
  assumes ok: "conns_ok conns" and start: "write_guest_step1 env (new_session TASK_BLE_GUEST_LOCK lock req conns) = Ok (0, s1)"
    and begun: "guest_buffer (guest_conn s1) = step_buffer_empty" "\<not> receive_err (guest_conn s1)" "\<not> waiting_err (guest_conn s1)"
      "guest_result (ble_result s1) = 0" "task_type s1 = TASK_BLE_GUEST_LOCK"
    and link: "\<forall>sent p. env_gatt env sent p = 0"
    and pw: "lock_password (guest_lock (guest_conn s1)) = Some pw" "lock_password_size (guest_lock (guest_conn s1)) = length pw"
      "0 < length pw" "length pw \<le> 96"
  shows "\<exists>ps s'. run_guest_loop env (map Notification ps) s1 = Ok s' \<and> loop_quit s' \<and> \<not> receive_err (guest_conn s') \<and>
    \<not> waiting_err (guest_conn s') \<and> task_type s' = TASK_BLE_GUEST_LOCK \<and> guest_reach env s'"
proof -
  have r1: "guest_reach env s1" by (rule started [OF ok start])
  have ok1: "session_ok s1" by (rule reach_ok [OF r1])
  have run1: "\<not> loop_quit s1" "guest_step (guest_conn s1) = BLE_GUEST_BEGIN" using step1_runs [OF start] by simp_all
  let ?N = "replicate 12 7 :: bytes"
  let ?m2 = "[0xa2, 0x00, 0x0a, 0x0b, 0x4c] @ ?N"
  let ?s2 = "\<lparr>GuestConnectionStep2_has_nonce = True, GuestConnectionStep2_nonce = Some ?N, GuestConnectionStep2_nonce_size = 12\<rparr>"
  have d2: "ig_GuestConnectionStep2_decode ?m2 ig_GuestConnectionStep2_init 0 = Ok (0, ?s2)" by code_simp
  obtain ps2 where ps2: "write_char_by_uuid_multi_atts (\<lambda>_ _. 0) (word_of_nat (length ?m2) # ?m2) [] = (0, ps2)"
    using frame_packets by blast
  have c2: "GuestConnectionStep2_has_nonce ?s2" "GuestConnectionStep2_nonce ?s2 = Some ?N" "GuestConnectionStep2_nonce_size ?s2 = 12"
    "length ?N = 12" "2 \<le> length ?m2" "length ?m2 \<le> 254" "?m2 ! 1 \<noteq> 0xff" by simp_all
  obtain t where t: "run_guest_loop env (map Notification ps2) s1 = Ok t" "guest_step (guest_conn t) = BLE_GUEST_STEP4"
    "guest_buffer (guest_conn t) = step_buffer_empty" "\<not> loop_quit t" "guest_lock (guest_conn t) = guest_lock (guest_conn s1)"
    "ble_result t = ble_result s1" "receive_err (guest_conn t) = receive_err (guest_conn s1)"
    using step2_delivered [OF ok1 run1(2,1) begun(1) link d2 c2 ps2] by blast
  have rt: "guest_reach env t" by (rule run_reach [OF t(1) r1])
  have kt: "kept True s1 t" using run_kept [OF t(1)] by (rule kept_weaken) auto
  obtain k where k: "conn_id t = int k" "good_key (conn_key (conn_table t ! k))" "length (rxNonce (conn_table t ! k)) = 12"
    using slot_of_session [OF reach_ok [OF rt]] by metis
  obtain p4 s4 where p4: "ig_GuestConnectionStep4_decode p4 ig_GuestConnectionStep4_init 0 = Ok (0, s4)"
    "GuestConnectionStep4_has_success s4" "GuestConnectionStep4_success s4" "length p4 \<le> 246"
    "seal (conn_key (conn_table t ! k)) (rxNonce (conn_table t ! k)) p4 ! 1 \<noteq> 0xff"
    by (rule confirmation_exists [OF k(2,3)])
  let ?c4 = "seal (conn_key (conn_table t ! k)) (rxNonce (conn_table t ! k)) p4"
  obtain ps4 where ps4: "write_char_by_uuid_multi_atts (\<lambda>_ _. 0) (word_of_nat (length ?c4) # ?c4) [] = (0, ps4)"
    using frame_packets by blast
  have tt: "guest_result (ble_result t) = 0" "task_type t = TASK_BLE_GUEST_LOCK" using t(6) begun(4,5) kt by (simp_all add: kept_def)
  have pwt: "lock_password (guest_lock (guest_conn t)) = Some pw" "lock_password_size (guest_lock (guest_conn t)) = length pw"
    using pw t(5) by simp_all
  obtain u where u: "run_guest_loop env (map Notification ps4) t = Ok u" "guest_step (guest_conn u) = BLE_GUEST_CMD_RESULT"
    "guest_buffer (guest_conn u) = step_buffer_empty" "\<not> loop_quit u" "receive_err (guest_conn u) = receive_err (guest_conn t)"
    using confirmation_sends_command [OF reach_ok [OF rt] t(2) tt(1) t(4,3) tt(2) pwt pw(3,4) link k(1) p4(1-4) refl p4(5) ps4]
    by blast
  have ru: "guest_reach env u" by (rule run_reach [OF u(1) rt])
  have ku: "kept True t u" using run_kept [OF u(1)] by (rule kept_weaken) auto
  obtain k' where k': "conn_id u = int k'" "good_key (conn_key (conn_table u ! k'))" "length (rxNonce (conn_table u ! k')) = 12"
    using slot_of_session [OF reach_ok [OF ru]] by metis
  obtain p5 r where p5: "ig_LockResponse_decode p5 ig_LockResponse_init 0 = Ok (0, r)" "LockResponse_result r = 5"
    "p5 \<noteq> []" "length p5 \<le> 246" "seal (conn_key (conn_table u ! k')) (rxNonce (conn_table u ! k')) p5 ! 1 \<noteq> 0xff"
    by (rule response_exists [OF k'(2,3)])
  let ?c5 = "seal (conn_key (conn_table u ! k')) (rxNonce (conn_table u ! k')) p5"
  obtain ps5 where ps5: "write_char_by_uuid_multi_atts (\<lambda>_ _. 0) (word_of_nat (length ?c5) # ?c5) [] = (0, ps5)"
    using frame_packets by blast
  have tu: "task_type u = TASK_BLE_GUEST_LOCK" using ku tt(2) by (simp add: kept_def)
  obtain v where v: "run_guest_loop env (map Notification ps5) u = Ok v" "loop_quit v" "receive_err (guest_conn v) = receive_err (guest_conn u)"
    using response_delivered [OF reach_ok [OF ru] u(2,4,3) tu k'(1) p5(1,3,4) refl p5(5) ps5] by blast
  have kv: "kept True u v" using run_kept [OF v(1)] by (rule kept_weaken) auto
  have "run_guest_loop env (map Notification (ps2 @ ps4 @ ps5)) s1 = Ok v"
    by (simp add: run_guest_loop_append t(1) u(1) v(1))
  moreover have "\<not> receive_err (guest_conn v)" using v(3) u(5) t(7) begun(2) by simp
  moreover have "\<not> waiting_err (guest_conn v)" "task_type v = TASK_BLE_GUEST_LOCK" using kt ku kv begun(3) tu by (simp_all add: kept_def)
  ultimately show ?thesis using v(2) run_reach [OF v(1) ru] by blast
qed

lemma step1_begun:
  assumes e: "write_guest_step1 env (new_session task lock req conns) = Ok (0, s)"
  shows "guest_buffer (guest_conn s) = step_buffer_empty" "\<not> receive_err (guest_conn s)" "\<not> waiting_err (guest_conn s)"
    "guest_result (ble_result s) = 0" "task_type s = task" "\<exists>i. guest_lock (guest_conn s) = lock\<lparr>connectionID := i\<rparr>"
proof -
  let ?s = "new_session task lock req conns"
  obtain cid conns' n out where "send_message env ERR_CONNECTION ERR_SEND out n (setLockConnectionID cid (?s\<lparr>conn_table := conns'\<rparr>)) = Ok (0, s)"
    using e by (auto simp: write_guest_step1_def bindR_eq_Ok Let_def ERR_CONNECTION_def split: if_splits)
  from send_message_Ok [OF this]
  show "guest_buffer (guest_conn s) = step_buffer_empty" "\<not> receive_err (guest_conn s)" "\<not> waiting_err (guest_conn s)"
    "guest_result (ble_result s) = 0" "task_type s = task" "\<exists>i. guest_lock (guest_conn s) = lock\<lparr>connectionID := i\<rparr>"
    by (auto simp: new_session_def setLockConnectionID_def upd_conn_def initGuestConnection_def)
qed

lemma close_Ok:
  assumes "session_ok s"
  shows "\<exists>s'. Close_Connection s = Ok s' \<and> task_type s' = task_type s"
proof -
  have "0 \<le> conn_id s" "conn_id s < 32" "length (conn_table s) = 32" using assms by (auto simp: session_ok_def)
  then have "\<exists>conns. endConnection (conn_id s) (conn_table s) = Ok conns" by (simp add: endConnection_def Let_def)
  then show ?thesis by (auto simp: Close_Connection_def releaseGuestConnectionData_def upd_conn_def)
qed

text \<open>The whole command, for a lock with a password of 1 to 96 bytes on a working link.\<close>
lemma lock_command_succeeds:
  assumes ok: "conns_ok conns" and id: "lock_id_of lock = Ok lock_id"
    and up: "env_connect env" "env_uuid env" "env_notify env = 0" "env_loop env" "\<forall>sent p. env_gatt env sent p = 0"
    and start: "write_guest_step1 env (new_session TASK_BLE_GUEST_LOCK (bleSetGuestParam lock) NoRequest conns) = Ok (0, s1)"
    and pw: "lock_has_password lock" "lock_password lock = Some pw" "lock_password_size lock = length pw" "0 < length pw" "length pw \<le> 96"
  shows "\<exists>ps conns'. HandleLockCMD env (map Notification ps) lock 2 NoRequest conns = Ok (0, [], conns')"
proof -
  note b = step1_begun [OF start]
  obtain i where "guest_lock (guest_conn s1) = (bleSetGuestParam lock)\<lparr>connectionID := i\<rparr>" using b(6) by blast
  then have p: "lock_password (guest_lock (guest_conn s1)) = Some pw" "lock_password_size (guest_lock (guest_conn s1)) = length pw"
    using pw by (auto simp: bleSetGuestParam_def Let_def)
  obtain ps v where v: "run_guest_loop env (map Notification ps) s1 = Ok v" "loop_quit v" "\<not> receive_err (guest_conn v)"
    "\<not> waiting_err (guest_conn v)" "task_type v = TASK_BLE_GUEST_LOCK" "guest_reach env v"
    using lock_session_succeeds [OF ok start b(1-5) up(5) p pw(4,5)] by blast
  have run: "run_guest_loop env (map Notification ps @ [Timeout]) s1 = Ok v"
    by (simp add: run_guest_loop_append v(1,2))
  have "session_ok (setGuestResultErr 0 v)" using reach_ok [OF v(6)] by (simp add: session_ok_def)
  then obtain w where w: "Close_Connection (setGuestResultErr 0 v) = Ok w" "task_type w = TASK_BLE_GUEST_LOCK"
    using close_Ok [of "setGuestResultErr 0 v"] v(5) by auto
  have "guest_connection_and_do_cmd env (map Notification ps) TASK_BLE_GUEST_LOCK (bleSetGuestParam lock) NoRequest conns = Ok (0, w)"
    using up(1-4) start run v(3,4) w(1) by (simp add: guest_connection_and_do_cmd_def Let_def)
  then have "HandleLockCMD env (map Notification ps) lock 2 NoRequest conns = Ok (0, [], conn_table w)"
    using id w(2) by (simp add: HandleLockCMD_def task_of_command_def request_of_command_def saveTaskData_def Let_def)
  then show ?thesis by blast
qed

lemma example_success:
  "\<exists>ps conns. HandleLockCMD example_env (map Notification ps) example_lock 2 NoRequest connections_init = Ok (0, [], conns)"
proof -
  have lock: "bleSetGuestParam example_lock = example_lock" by (simp add: bleSetGuestParam_def example_lock_def Let_def)
  obtain lock_id where "lock_id_of example_lock = Ok lock_id"
    by (auto simp: lock_id_of_def example_lock_def mem_slice_def mem_write_def)
  moreover obtain s where "write_guest_step1 example_env (new_session TASK_BLE_GUEST_LOCK (bleSetGuestParam example_lock) NoRequest connections_init) = Ok (0, s)"
    using example_started unfolding lock by blast
  ultimately show ?thesis
    by (intro lock_command_succeeds [where pw = "[4, 5, 6, 7]"] conns_ok_init) (auto simp: example_env_def example_lock_def)
qed

text \<open>A lock that never answers.\<close>
lemma example_command:
  "case HandleLockCMD example_env [] example_lock 2 NoRequest connections_init of Ok (ret, reports, conns) \<Rightarrow> ret = - 1 \<and> reports = [] | Fault f \<Rightarrow> False"
  by code_simp

end
