(* ===== verification/Linked_List.thy ===== *)
theory Linked_List
  imports Prelude
begin

text \<open>
  The doubly linked lists of \<open>bridge_main/list.h\<close>: links inside the nodes, a head that closes the ring.  A
  node is its address; the store gives the two links of every allocated node, so an access through a
  stale pointer is a fault.  \<open>ring\<close> says that the store holds a list of given nodes behind a head, and every
  operation is shown to do to the list of nodes what its comment promises.
\<close>

section \<open>Operations\<close>

type_synonym addr = nat

record list_head =
  lh_next :: addr
  lh_prev :: addr

type_synonym list_store = "addr \<rightharpoonup> list_head"

definition LIST_POISON1 :: addr where "LIST_POISON1 = 0x00100100"
definition LIST_POISON2 :: addr where "LIST_POISON2 = 0x00200200"

definition node_at :: "list_store \<Rightarrow> addr \<Rightarrow> list_head res" where
  "node_at m a = (case m a of None \<Rightarrow> Fault OutOfBounds | Some l \<Rightarrow> Ok l)"

definition set_next :: "addr \<Rightarrow> addr \<Rightarrow> list_store \<Rightarrow> list_store res" where
  "set_next a b m = bindR (node_at m a) (\<lambda>l. Ok (m(a \<mapsto> l\<lparr>lh_next := b\<rparr>)))"

definition set_prev :: "addr \<Rightarrow> addr \<Rightarrow> list_store \<Rightarrow> list_store res" where
  "set_prev a b m = bindR (node_at m a) (\<lambda>l. Ok (m(a \<mapsto> l\<lparr>lh_prev := b\<rparr>)))"

definition INIT_LIST_HEAD :: "addr \<Rightarrow> list_store \<Rightarrow> list_store res" where
  "INIT_LIST_HEAD a m = bindR (set_next a a m) (set_prev a a)"

definition list_add_between :: "addr \<Rightarrow> addr \<Rightarrow> addr \<Rightarrow> list_store \<Rightarrow> list_store res" where
  "list_add_between new prev nxt m =
     bindR (set_prev nxt new m) (\<lambda>m.
     bindR (set_next new nxt m) (\<lambda>m.
     bindR (set_prev new prev m) (\<lambda>m.
     set_next prev new m)))"

definition list_add :: "addr \<Rightarrow> addr \<Rightarrow> list_store \<Rightarrow> list_store res" where
  "list_add new head m = bindR (node_at m head) (\<lambda>h. list_add_between new head (lh_next h) m)"

definition list_add_tail :: "addr \<Rightarrow> addr \<Rightarrow> list_store \<Rightarrow> list_store res" where
  "list_add_tail new head m = bindR (node_at m head) (\<lambda>h. list_add_between new (lh_prev h) head m)"

definition list_join :: "addr \<Rightarrow> addr \<Rightarrow> list_store \<Rightarrow> list_store res" where
  "list_join prev nxt m = bindR (set_prev nxt prev m) (set_next prev nxt)"

definition list_del_entry :: "addr \<Rightarrow> list_store \<Rightarrow> list_store res" where
  "list_del_entry a m = bindR (node_at m a) (\<lambda>l. list_join (lh_prev l) (lh_next l) m)"

definition list_del :: "addr \<Rightarrow> list_store \<Rightarrow> list_store res" where
  "list_del a m = bindR (list_del_entry a m) (\<lambda>m. bindR (set_next a LIST_POISON1 m) (set_prev a LIST_POISON2))"

definition list_move :: "addr \<Rightarrow> addr \<Rightarrow> list_store \<Rightarrow> list_store res" where
  "list_move a head m = bindR (list_del_entry a m) (list_add a head)"

definition list_is_last :: "addr \<Rightarrow> addr \<Rightarrow> list_store \<Rightarrow> bool res" where
  "list_is_last a head m = bindR (node_at m a) (\<lambda>l. Ok (lh_next l = head))"

definition list_empty :: "addr \<Rightarrow> list_store \<Rightarrow> bool res" where
  "list_empty head m = bindR (node_at m head) (\<lambda>h. Ok (lh_next h = head))"

definition list_empty_careful :: "addr \<Rightarrow> list_store \<Rightarrow> bool res" where
  "list_empty_careful head m = bindR (node_at m head) (\<lambda>h. Ok (lh_next h = head \<and> lh_next h = lh_prev h))"

definition list_is_singular :: "addr \<Rightarrow> list_store \<Rightarrow> bool res" where
  "list_is_singular head m = bindR (node_at m head) (\<lambda>h. Ok (lh_next h \<noteq> head \<and> lh_next h = lh_prev h))"

text \<open>\<open>list_for_each\<close> from \<open>pos\<close> on, with a body that may leave the loop with a result.  A damaged list
  may have no end; the loop is bounded by \<open>n\<close> rounds.\<close>
fun list_for_each_loop :: "nat \<Rightarrow> addr \<Rightarrow> addr \<Rightarrow> list_store \<Rightarrow> (addr \<Rightarrow> 'r option res) \<Rightarrow> 'r option res" where
  "list_for_each_loop 0 pos head m body = (if pos = head then Ok None else Fault OutOfFuel)"
| "list_for_each_loop (Suc n) pos head m body =
     (if pos = head then Ok None
      else bindR (body pos) (\<lambda>r. case r of
             Some x \<Rightarrow> Ok (Some x)
           | None \<Rightarrow> bindR (node_at m pos) (\<lambda>l. list_for_each_loop n (lh_next l) head m body)))"

definition list_for_each :: "nat \<Rightarrow> addr \<Rightarrow> list_store \<Rightarrow> (addr \<Rightarrow> 'r option res) \<Rightarrow> 'r option res" where
  "list_for_each n head m body = bindR (node_at m head) (\<lambda>h. list_for_each_loop n (lh_next h) head m body)"

section \<open>Rings\<close>

definition nxt_is :: "list_store \<Rightarrow> addr \<Rightarrow> addr \<Rightarrow> bool" where
  "nxt_is m a b \<longleftrightarrow> (\<exists>l. m a = Some l \<and> lh_next l = b)"

definition prv_is :: "list_store \<Rightarrow> addr \<Rightarrow> addr \<Rightarrow> bool" where
  "prv_is m a b \<longleftrightarrow> (\<exists>l. m a = Some l \<and> lh_prev l = b)"

definition link :: "list_store \<Rightarrow> addr \<Rightarrow> addr \<Rightarrow> bool" where
  "link m a b \<longleftrightarrow> nxt_is m a b \<and> prv_is m b a"

text \<open>Consecutive nodes point at each other.\<close>
fun linked :: "list_store \<Rightarrow> addr list \<Rightarrow> bool" where
  "linked m [] \<longleftrightarrow> True"
| "linked m [x] \<longleftrightarrow> True"
| "linked m (x # y # xs) \<longleftrightarrow> link m x y \<and> linked m (y # xs)"

definition ring :: "list_store \<Rightarrow> addr \<Rightarrow> addr list \<Rightarrow> bool" where
  "ring m h xs \<longleftrightarrow> distinct (h # xs) \<and> linked m ((h # xs) @ [h])"

lemma linked_Cons: "linked m (x # xs) \<longleftrightarrow> (xs \<noteq> [] \<longrightarrow> link m x (hd xs)) \<and> linked m xs"
  by (cases xs) auto

lemma linked_append:
  "linked m (xs @ ys) \<longleftrightarrow> linked m xs \<and> linked m ys \<and> (xs \<noteq> [] \<and> ys \<noteq> [] \<longrightarrow> link m (last xs) (hd ys))"
  by (induction xs) (auto simp: linked_Cons hd_append)

text \<open>Only the next links of all but the last node and the previous links of all but the first matter.\<close>
lemma linked_frame:
  assumes "\<forall>x \<in> set (butlast xs). \<forall>y. nxt_is m x y \<longrightarrow> nxt_is m' x y" "\<forall>x \<in> set (tl xs). \<forall>y. prv_is m x y \<longrightarrow> prv_is m' x y"
  shows "linked m xs \<Longrightarrow> linked m' xs"
  using assms
proof (induction xs rule: linked.induct)
  case (3 m x y xs)
  then show ?case by (auto simp: link_def)
qed simp_all

lemma linked_dom: "linked m xs \<Longrightarrow> 2 \<le> length xs \<Longrightarrow> set xs \<subseteq> dom m"
proof (induction xs rule: linked.induct)
  case (3 m x y xs)
  then show ?case by (cases xs) (auto simp: link_def nxt_is_def prv_is_def)
qed simp_all

lemma ring_dom: "ring m h xs \<Longrightarrow> set (h # xs) \<subseteq> dom m"
  using linked_dom [of m "(h # xs) @ [h]"] by (simp add: ring_def)

lemma ring_frame: "ring m h xs \<Longrightarrow> \<forall>a \<in> set (h # xs). m' a = m a \<Longrightarrow> ring m' h xs"
  unfolding ring_def
proof (elim conjE, intro conjI)
  assume d: "linked m ((h # xs) @ [h])" and f: "\<forall>a \<in> set (h # xs). m' a = m a"
  show "linked m' ((h # xs) @ [h])"
    by (rule linked_frame [OF _ _ d]) (use f in \<open>auto simp: nxt_is_def prv_is_def dest: in_set_butlastD\<close>)
qed

lemma ring_other: "ring m h xs \<Longrightarrow> \<forall>a. a \<notin> A \<longrightarrow> m' a = m a \<Longrightarrow> A \<inter> set (h # xs) = {} \<Longrightarrow> ring m' h xs"
  by (rule ring_frame) (assumption, blast)

text \<open>A ring opened between two neighbours.\<close>
lemma ring_split:
  assumes "ring m h (xs @ ys)"
  shows "linked m (h # xs)" "linked m (ys @ [h])" "link m (last (h # xs)) (hd (ys @ [h]))"
  using assms linked_append [of m "h # xs" "ys @ [h]"] by (simp_all add: ring_def)

lemma ring_join:
  assumes "distinct (h # xs @ ys)" "linked m (h # xs)" "linked m (ys @ [h])" "link m (last (h # xs)) (hd (ys @ [h]))"
  shows "ring m h (xs @ ys)"
  using assms linked_append [of m "h # xs" "ys @ [h]"] by (simp add: ring_def)

lemma nxt_is_unique: "nxt_is m a b \<Longrightarrow> nxt_is m a c \<Longrightarrow> b = c"
  by (auto simp: nxt_is_def)

lemma set_next_Ok: "m a \<noteq> None \<Longrightarrow> \<exists>m'. set_next a b m = Ok m' \<and> nxt_is m' a b \<and> dom m' = dom m \<and>
    (\<forall>x y. x \<noteq> a \<longrightarrow> nxt_is m' x y = nxt_is m x y) \<and> (\<forall>x y. prv_is m' x y = prv_is m x y) \<and> (\<forall>x. x \<noteq> a \<longrightarrow> m' x = m x)"
  by (cases "m a") (auto simp: set_next_def node_at_def nxt_is_def prv_is_def)

lemma set_prev_Ok: "m a \<noteq> None \<Longrightarrow> \<exists>m'. set_prev a b m = Ok m' \<and> prv_is m' a b \<and> dom m' = dom m \<and>
    (\<forall>x y. x \<noteq> a \<longrightarrow> prv_is m' x y = prv_is m x y) \<and> (\<forall>x y. nxt_is m' x y = nxt_is m x y) \<and> (\<forall>x. x \<noteq> a \<longrightarrow> m' x = m x)"
  by (cases "m a") (auto simp: set_prev_def node_at_def nxt_is_def prv_is_def)

lemma node_at_dom: "node_at m a = Ok l \<Longrightarrow> m a = Some l"
  by (auto simp: node_at_def split: option.splits)

lemma nxt_is_node: "nxt_is m a b \<Longrightarrow> \<exists>l. node_at m a = Ok l \<and> lh_next l = b"
  by (auto simp: nxt_is_def node_at_def)

lemma prv_is_node: "prv_is m a b \<Longrightarrow> \<exists>l. node_at m a = Ok l \<and> lh_prev l = b"
  by (auto simp: prv_is_def node_at_def)

lemma ring_next: "ring m h xs \<Longrightarrow> \<exists>l. node_at m h = Ok l \<and> lh_next l = hd (xs @ [h])"
  using ring_split(3) [of m h "[]" xs] by (auto simp: link_def dest: nxt_is_node)

lemma ring_prev: "ring m h xs \<Longrightarrow> \<exists>l. node_at m h = Ok l \<and> lh_prev l = last (h # xs)"
  using ring_split(3) [of m h xs "[]"] by (auto simp: link_def dest: prv_is_node)

lemma last_notin_butlast: "distinct xs \<Longrightarrow> xs \<noteq> [] \<Longrightarrow> last xs \<notin> set (butlast xs)"
  by (metis append_butlast_last_id disjoint_insert(2) distinct_append list.simps(15))

lemma hd_notin_tl: "distinct xs \<Longrightarrow> xs \<noteq> [] \<Longrightarrow> hd xs \<notin> set (tl xs)"
  by (cases xs) auto

section \<open>Insertion\<close>

lemma list_add_between_ring:
  assumes r: "ring m h (xs @ ys)" and new: "new \<notin> set (h # xs @ ys)" "m new \<noteq> None"
  shows "\<exists>m'. list_add_between new (last (h # xs)) (hd (ys @ [h])) m = Ok m' \<and> ring m' h (xs @ new # ys) \<and> dom m' = dom m \<and>
    (\<forall>a. a \<notin> set (h # xs @ new # ys) \<longrightarrow> m' a = m a)"
proof -
  let ?p = "last (h # xs)" and ?n = "hd (ys @ [h])"
  have p: "?p \<in> set (h # xs)" and n: "?n \<in> set (ys @ [h])" by (rule last_in_set, simp) (rule hd_in_set, simp)
  have d: "distinct (h # xs)" "distinct (ys @ [h])" "set xs \<inter> set ys = {}" "distinct (h # xs @ ys)" using r by (auto simp: ring_def)
  have in_dom: "m ?p \<noteq> None" "m ?n \<noteq> None" using ring_dom [OF r] p n by auto
  have ne: "new \<noteq> ?p" "new \<noteq> ?n" using new(1) p n by auto
  obtain m1 where m1: "set_prev ?n new m = Ok m1" "prv_is m1 ?n new" "dom m1 = dom m" "\<forall>x y. x \<noteq> ?n \<longrightarrow> prv_is m1 x y = prv_is m x y"
    "\<forall>x y. nxt_is m1 x y = nxt_is m x y" "\<forall>x. x \<noteq> ?n \<longrightarrow> m1 x = m x"
    using set_prev_Ok [of m ?n new] in_dom(2) by blast
  have "m1 new \<noteq> None" using m1(3) new(2) by auto
  then obtain m2 where m2: "set_next new ?n m1 = Ok m2" "nxt_is m2 new ?n" "dom m2 = dom m1" "\<forall>x y. x \<noteq> new \<longrightarrow> nxt_is m2 x y = nxt_is m1 x y"
    "\<forall>x y. prv_is m2 x y = prv_is m1 x y" "\<forall>x. x \<noteq> new \<longrightarrow> m2 x = m1 x"
    using set_next_Ok [of m1 new ?n] by blast
  have "m2 new \<noteq> None" using m1(3) m2(3) new(2) by auto
  then obtain m3 where m3: "set_prev new ?p m2 = Ok m3" "prv_is m3 new ?p" "dom m3 = dom m2" "\<forall>x y. x \<noteq> new \<longrightarrow> prv_is m3 x y = prv_is m2 x y"
    "\<forall>x y. nxt_is m3 x y = nxt_is m2 x y" "\<forall>x. x \<noteq> new \<longrightarrow> m3 x = m2 x"
    using set_prev_Ok [of m2 new ?p] by blast
  have "m3 ?p \<noteq> None" using m1(3) m2(3) m3(3) in_dom(1) by auto
  then obtain m4 where m4: "set_next ?p new m3 = Ok m4" "nxt_is m4 ?p new" "dom m4 = dom m3" "\<forall>x y. x \<noteq> ?p \<longrightarrow> nxt_is m4 x y = nxt_is m3 x y"
    "\<forall>x y. prv_is m4 x y = prv_is m3 x y" "\<forall>x. x \<noteq> ?p \<longrightarrow> m4 x = m3 x"
    using set_next_Ok [of m3 ?p new] by blast
  have nx: "nxt_is m4 x y = nxt_is m x y" if "x \<noteq> ?p" "x \<noteq> new" for x y using that m1(5) m2(4) m3(5) m4(4) by simp
  have pv: "prv_is m4 x y = prv_is m x y" if "x \<noteq> ?n" "x \<noteq> new" for x y using that m1(4) m2(5) m3(4) m4(5) by simp
  have l1: "link m4 ?p new" using m4(2,5) m3(2) by (simp add: link_def)
  have l2: "link m4 new ?n" using m4(4,5) m3(4,5) m2(2,5) m1(2) ne by (simp add: link_def)
  have xs: "linked m4 (h # xs)"
  proof (rule linked_frame [OF _ _ ring_split(1) [OF r]])
    show "\<forall>x \<in> set (butlast (h # xs)). \<forall>y. nxt_is m x y \<longrightarrow> nxt_is m4 x y"
      using nx last_notin_butlast [OF d(1)] new(1) by (metis Un_iff in_set_butlastD list.distinct(1) set_append append_Cons)
    have "?n \<notin> set xs" using n d(3,4) by auto
    then show "\<forall>x \<in> set (tl (h # xs)). \<forall>y. prv_is m x y \<longrightarrow> prv_is m4 x y" using pv new(1) by (metis Un_iff list.sel(3) set_append append_Cons list.set_intros(2))
  qed
  have ys: "linked m4 (ys @ [h])"
  proof (rule linked_frame [OF _ _ ring_split(2) [OF r]])
    have "?p \<notin> set ys" using p d(3,4) by (metis IntI Un_iff distinct.simps(2) empty_iff set_ConsD set_append)
    then show "\<forall>x \<in> set (butlast (ys @ [h])). \<forall>y. nxt_is m x y \<longrightarrow> nxt_is m4 x y" using nx new(1) by (metis Un_iff append_Cons butlast_snoc list.set_intros(2) set_append)
    have "x \<in> set (tl (ys @ [h])) \<Longrightarrow> x \<noteq> ?n \<and> x \<noteq> new" for x
      using hd_notin_tl [OF d(2)] new(1) by (cases ys) auto
    then show "\<forall>x \<in> set (tl (ys @ [h])). \<forall>y. prv_is m x y \<longrightarrow> prv_is m4 x y" using pv by blast
  qed
  have "ring m4 h (xs @ new # ys)"
    by (rule ring_join) (use d(4) new(1) xs ys l1 l2 in \<open>auto simp: linked_Cons\<close>)
  moreover have "m4 a = m a" if "a \<notin> set (h # xs @ new # ys)" for a
    using that p n m1(6) m2(6) m3(6) m4(6) by (metis Un_iff append_Cons list.set_intros set_append list.set(1) empty_iff set_ConsD)
  ultimately show ?thesis
    using m1(1,3) m2(1,3) m3(1,3) m4(1,3) by (simp add: list_add_between_def)
qed

lemma list_add_ring:
  assumes "ring m h xs" "new \<notin> set (h # xs)" "m new \<noteq> None"
  shows "\<exists>m'. list_add new h m = Ok m' \<and> ring m' h (new # xs) \<and> dom m' = dom m \<and>
    (\<forall>a. a \<notin> set (h # new # xs) \<longrightarrow> m' a = m a)"
  using list_add_between_ring [of m h "[]" xs new] ring_next [OF assms(1)] assms by (auto simp: list_add_def)

lemma list_add_tail_ring:
  assumes "ring m h xs" "new \<notin> set (h # xs)" "m new \<noteq> None"
  shows "\<exists>m'. list_add_tail new h m = Ok m' \<and> ring m' h (xs @ [new]) \<and> dom m' = dom m \<and>
    (\<forall>a. a \<notin> set (h # new # xs) \<longrightarrow> m' a = m a)"
proof -
  obtain l where l: "node_at m h = Ok l" "lh_prev l = last (h # xs)" using ring_prev [OF assms(1)] by blast
  obtain m' where "list_add_between new (last (h # xs)) (hd ([] @ [h])) m = Ok m'" "ring m' h (xs @ [new])" "dom m' = dom m"
    "\<forall>a. a \<notin> set (h # xs @ [new]) \<longrightarrow> m' a = m a"
    using list_add_between_ring [of m h xs "[]" new] assms by auto
  then show ?thesis using l by (auto simp: list_add_tail_def)
qed

section \<open>Removal\<close>

lemma list_del_entry_ring:
  assumes r: "ring m h (xs @ x # ys)"
  shows "\<exists>m'. list_del_entry x m = Ok m' \<and> ring m' h (xs @ ys) \<and> dom m' = dom m \<and>
    (\<forall>a. a \<notin> set (h # xs @ ys) \<longrightarrow> m' a = m a)"
proof -
  let ?p = "last (h # xs)" and ?n = "hd (ys @ [h])"
  have p: "?p \<in> set (h # xs)" and n: "?n \<in> set (ys @ [h])" by (rule last_in_set, simp) (rule hd_in_set, simp)
  have d: "distinct (h # xs)" "distinct (ys @ [h])" "set xs \<inter> set ys = {}" "distinct (h # xs @ ys)" "x \<notin> set (h # xs @ ys)"
    using r by (auto simp: ring_def)
  have l: "linked m (h # xs)" "link m ?p x" "link m x ?n" "linked m (ys @ [h])"
    using ring_split [OF r] by (auto simp: linked_Cons)
  obtain e where e: "node_at m x = Ok e" "lh_prev e = ?p" "lh_next e = ?n"
    using l(2,3) by (auto simp: link_def nxt_is_def prv_is_def node_at_def)
  have in_dom: "m ?p \<noteq> None" "m ?n \<noteq> None" using ring_dom [OF r] p n by auto
  obtain m1 where m1: "set_prev ?n ?p m = Ok m1" "prv_is m1 ?n ?p" "dom m1 = dom m" "\<forall>x y. x \<noteq> ?n \<longrightarrow> prv_is m1 x y = prv_is m x y"
    "\<forall>x y. nxt_is m1 x y = nxt_is m x y" "\<forall>x. x \<noteq> ?n \<longrightarrow> m1 x = m x"
    using set_prev_Ok [of m ?n ?p] in_dom(2) by blast
  have "m1 ?p \<noteq> None" using m1(3) in_dom(1) by auto
  then obtain m2 where m2: "set_next ?p ?n m1 = Ok m2" "nxt_is m2 ?p ?n" "dom m2 = dom m1" "\<forall>x y. x \<noteq> ?p \<longrightarrow> nxt_is m2 x y = nxt_is m1 x y"
    "\<forall>x y. prv_is m2 x y = prv_is m1 x y" "\<forall>x. x \<noteq> ?p \<longrightarrow> m2 x = m1 x"
    using set_next_Ok [of m1 ?p ?n] by blast
  have nx: "nxt_is m2 x y = nxt_is m x y" if "x \<noteq> ?p" for x y using that m1(5) m2(4) by simp
  have pv: "prv_is m2 x y = prv_is m x y" if "x \<noteq> ?n" for x y using that m1(4) m2(5) by simp
  have xs: "linked m2 (h # xs)"
  proof (rule linked_frame [OF _ _ l(1)])
    show "\<forall>x \<in> set (butlast (h # xs)). \<forall>y. nxt_is m x y \<longrightarrow> nxt_is m2 x y" using nx last_notin_butlast [OF d(1)] by (metis list.distinct(1))
    have "?n \<notin> set xs" using n d(3,4) by auto
    then show "\<forall>x \<in> set (tl (h # xs)). \<forall>y. prv_is m x y \<longrightarrow> prv_is m2 x y" using pv by (metis list.sel(3))
  qed
  have ys: "linked m2 (ys @ [h])"
  proof (rule linked_frame [OF _ _ l(4)])
    have "?p \<notin> set ys" using p d(3,4) by (metis IntI Un_iff distinct.simps(2) empty_iff set_ConsD set_append)
    then show "\<forall>x \<in> set (butlast (ys @ [h])). \<forall>y. nxt_is m x y \<longrightarrow> nxt_is m2 x y" using nx by (metis butlast_snoc)
    have "x \<in> set (tl (ys @ [h])) \<Longrightarrow> x \<noteq> ?n" for x using hd_notin_tl [OF d(2)] by (cases ys) auto
    then show "\<forall>x \<in> set (tl (ys @ [h])). \<forall>y. prv_is m x y \<longrightarrow> prv_is m2 x y" using pv by blast
  qed
  have "link m2 ?p ?n" using m1(2) m2(2,5) by (simp add: link_def)
  then have "ring m2 h (xs @ ys)" by (rule ring_join [OF d(4) xs ys])
  moreover have "m2 a = m a" if "a \<notin> set (h # xs @ ys)" for a
    using that p n m1(6) m2(6) by (metis Un_iff append_Cons list.set_intros set_append list.set(1) empty_iff set_ConsD)
  ultimately show ?thesis
    using e m1(1,3) m2(1,3) by (simp add: list_del_entry_def list_join_def)
qed

lemma ring_elem:
  assumes "ring m h xs" "x \<in> set xs"
  obtains us vs where "xs = us @ x # vs" "remove1 x xs = us @ vs" "x \<notin> set (h # us @ vs)"
proof -
  obtain us vs where u: "xs = us @ x # vs" using split_list [OF assms(2)] by blast
  have "x \<notin> set (h # us @ vs)" using assms(1) unfolding ring_def u by auto
  moreover from this have "remove1 x xs = us @ vs" by (simp add: u remove1_append)
  ultimately show ?thesis using that u by blast
qed

lemma list_del_ring:
  assumes r: "ring m h xs" and x: "x \<in> set xs"
  shows "\<exists>m'. list_del x m = Ok m' \<and> ring m' h (remove1 x xs) \<and> dom m' = dom m \<and>
    m' x = Some \<lparr>lh_next = LIST_POISON1, lh_prev = LIST_POISON2\<rparr> \<and> (\<forall>a. a \<notin> set (h # xs) \<longrightarrow> m' a = m a)"
proof -
  obtain us vs where u: "xs = us @ x # vs" "remove1 x xs = us @ vs" "x \<notin> set (h # us @ vs)" by (rule ring_elem [OF r x])
  obtain m1 where m1: "list_del_entry x m = Ok m1" "ring m1 h (us @ vs)" "dom m1 = dom m" "\<forall>a. a \<notin> set (h # us @ vs) \<longrightarrow> m1 a = m a"
    using list_del_entry_ring [of m h us x vs] r u(1) by blast
  have "x \<in> dom m" using ring_dom [OF r] x by auto
  then obtain l where l: "m1 x = Some l" using m1(3) by blast
  let ?m = "m1(x \<mapsto> \<lparr>lh_next = LIST_POISON1, lh_prev = LIST_POISON2\<rparr>)"
  have "list_del x m = Ok ?m" using m1(1) l by (cases l) (simp add: list_del_def set_next_def set_prev_def node_at_def)
  moreover have "ring ?m h (us @ vs)" by (rule ring_frame [OF m1(2)]) (use u(3) in auto)
  moreover have "dom ?m = dom m" using m1(3) l by auto
  ultimately show ?thesis using m1(4) u by auto
qed

text \<open>Moving between lists.\<close>
lemma list_move_rings:
  assumes r: "ring m h xs" "ring m h' ys" and x: "x \<in> set xs" and disj: "set (h # xs) \<inter> set (h' # ys) = {}"
  shows "\<exists>m'. list_move x h' m = Ok m' \<and> ring m' h (remove1 x xs) \<and> ring m' h' (x # ys) \<and> dom m' = dom m \<and>
    (\<forall>a. a \<notin> set (h # xs) \<union> set (h' # ys) \<longrightarrow> m' a = m a)"
proof -
  obtain us vs where u: "xs = us @ x # vs" "remove1 x xs = us @ vs" "x \<notin> set (h # us @ vs)" by (rule ring_elem [OF r(1) x])
  obtain m1 where m1: "list_del_entry x m = Ok m1" "ring m1 h (us @ vs)" "dom m1 = dom m" "\<forall>a. a \<notin> set (h # us @ vs) \<longrightarrow> m1 a = m a"
    using list_del_entry_ring [of m h us x vs] r(1) u(1) by blast
  have r': "ring m1 h' ys" by (rule ring_frame [OF r(2)]) (use m1(4) disj u(1) in auto)
  have x': "x \<notin> set (h' # ys)" "m1 x \<noteq> None" using disj x ring_dom [OF r(1)] m1(3) by auto
  obtain m2 where m2: "list_add x h' m1 = Ok m2" "ring m2 h' (x # ys)" "dom m2 = dom m1" "\<forall>a. a \<notin> set (h' # x # ys) \<longrightarrow> m2 a = m1 a"
    using list_add_ring [OF r' x'] by blast
  have "ring m2 h (us @ vs)" by (rule ring_frame [OF m1(2)]) (use m2(4) u disj in auto)
  then show ?thesis using m1 m2 u by (auto simp: list_move_def)
qed

text \<open>A node taken out by \<open>list_del\<close> cannot be taken out again.\<close>
lemma list_del_twice:
  assumes "ring m h xs" "x \<in> set xs" "m LIST_POISON1 = None"
  shows "\<exists>m'. list_del x m = Ok m' \<and> list_del x m' = Fault OutOfBounds"
proof -
  obtain m' where m': "list_del x m = Ok m'" "dom m' = dom m" "m' x = Some \<lparr>lh_next = LIST_POISON1, lh_prev = LIST_POISON2\<rparr>"
    using list_del_ring [OF assms(1,2)] by blast
  then have "m' LIST_POISON1 = None" using assms(3) by blast
  then show ?thesis using m' by (simp add: list_del_def list_del_entry_def list_join_def set_prev_def node_at_def)
qed

section \<open>Tests and loops\<close>

lemma list_tests:
  assumes r: "ring m h xs"
  shows "list_empty h m = Ok (xs = [])" "list_empty_careful h m = Ok (xs = [])" "list_is_singular h m = Ok (length xs = 1)"
proof -
  obtain l where l: "node_at m h = Ok l" "lh_next l = hd (xs @ [h])" using ring_next [OF r] by blast
  have p: "lh_prev l = last (h # xs)" using ring_prev [OF r] l(1) by auto
  have d: "distinct (h # xs)" using r by (simp add: ring_def)
  have n: "hd (xs @ [h]) = h \<longleftrightarrow> xs = []" using d by (cases xs) auto
  show "list_empty h m = Ok (xs = [])" "list_empty_careful h m = Ok (xs = [])"
    using l p n by (auto simp: list_empty_def list_empty_careful_def)
  have "hd (xs @ [h]) \<noteq> h \<and> hd (xs @ [h]) = last (h # xs) \<longleftrightarrow> length xs = 1"
    using d n by (cases xs) auto
  then show "list_is_singular h m = Ok (length xs = 1)" using l p by (simp add: list_is_singular_def)
qed

lemma ring_node:
  assumes "ring m h (us @ x # vs)"
  shows "\<exists>l. node_at m x = Ok l \<and> lh_next l = hd (vs @ [h])"
  using ring_split(2) [OF assms] by (auto simp: linked_Cons link_def dest: nxt_is_node)

lemma list_is_last_ring:
  assumes "ring m h (us @ x # vs)"
  shows "list_is_last x h m = Ok (vs = [])"
proof -
  have "h \<notin> set vs" using assms by (auto simp: ring_def)
  then have "hd (vs @ [h]) = h \<longleftrightarrow> vs = []" by (cases vs) auto
  then show ?thesis using ring_node [OF assms] by (auto simp: list_is_last_def)
qed

text \<open>The loop visits the nodes in order, each once, and ends.\<close>
fun first_result :: "('a \<Rightarrow> 'r option res) \<Rightarrow> 'a list \<Rightarrow> 'r option res" where
  "first_result body [] = Ok None"
| "first_result body (x # xs) = bindR (body x) (\<lambda>r. case r of Some y \<Rightarrow> Ok (Some y) | None \<Rightarrow> first_result body xs)"

lemma for_each_loop_ring:
  "ring m h (us @ vs) \<Longrightarrow> length vs \<le> n \<Longrightarrow> list_for_each_loop n (hd (vs @ [h])) h m body = first_result body vs"
proof (induction vs arbitrary: us n)
  case Nil
  then show ?case by (cases n) simp_all
next
  case (Cons v vs)
  then obtain n' where n: "n = Suc n'" "length vs \<le> n'" by (cases n) auto
  have "v \<noteq> h" using Cons.prems(1) by (auto simp: ring_def)
  moreover obtain l where "node_at m v = Ok l" "lh_next l = hd (vs @ [h])" using ring_node [OF Cons.prems(1)] by blast
  ultimately show ?case using Cons.IH [of "us @ [v]" n'] Cons.prems(1) n by (simp cong: option.case_cong)
qed

lemma list_for_each_ring:
  "ring m h xs \<Longrightarrow> length xs \<le> n \<Longrightarrow> list_for_each n h m body = first_result body xs"
  using for_each_loop_ring [of m h "[]" xs n body] ring_next [of m h xs] by (auto simp: list_for_each_def)

lemma INIT_LIST_HEAD_ring: "m h \<noteq> None \<Longrightarrow> \<exists>m'. INIT_LIST_HEAD h m = Ok m' \<and> ring m' h [] \<and> dom m' = dom m \<and> (\<forall>a. a \<noteq> h \<longrightarrow> m' a = m a)"
  by (auto simp: INIT_LIST_HEAD_def set_next_def set_prev_def node_at_def ring_def link_def nxt_is_def prv_is_def)

end
