(* ===== verification/Task_Queue.thy ===== *)
theory Task_Queue
  imports Linked_List
begin

text \<open>
  The task queues of \<open>bridge_main/task_queue.c\<close>, the state machine of a task (\<open>FSMHandle\<close> of
  \<open>bridge_main/ign.c\<close>) and the loop of \<open>main\<close> that runs the tasks.  A task node starts with its list link, so
  \<open>list_entry\<close> is the address itself.  Two rings hang on the static heads \<open>doing_task_head\<close> and
  \<open>waiting_task_head\<close>; every function holds the mutexes of the rings it changes, so each is one step.  A fresh
  node has the contents \<open>junk\<close>: the insert functions leave some of its members unset.  An action of a
  state table is a parameter \<open>act\<close>, called with its number; calls of \<open>malloc\<close> and \<open>calloc\<close> are taken to succeed, \<open>malloc\<close>
  at the address \<open>new\<close>.
\<close>

section \<open>State\<close>

record fsm_table =
  f_cur_state :: u8
  f_eventActFun :: nat
  f_next_state :: u8

record task_node =
  t_lock_id :: bytes
  t_task_type :: int
  t_msg_id :: u32
  t_lock_cmd :: block_ptr
  t_lock_cmd_size :: u32
  t_ble_data :: block_ptr
  t_ble_data_len :: i32
  t_mqtt_data :: block_ptr
  t_mqtt_data_len :: i32
  t_cur_state :: u8
  t_task_sm_table :: "fsm_table list option"
  t_sm_table_len :: i32

record queues =
  q_links :: list_store
  q_tasks :: "addr \<rightharpoonup> task_node"
  doing_task_head :: addr
  waiting_task_head :: addr

definition on_links :: "(list_store \<Rightarrow> list_store res) \<Rightarrow> queues \<Rightarrow> queues res" where
  "on_links f s = bindR (f (q_links s)) (\<lambda>m. Ok (s\<lparr>q_links := m\<rparr>))"

definition task_at :: "queues \<Rightarrow> addr \<Rightarrow> task_node res" where
  "task_at s a = (case q_tasks s a of None \<Rightarrow> Fault OutOfBounds | Some t \<Rightarrow> Ok t)"

section \<open>The doing queue\<close>

definition IsDEmpty :: "queues \<Rightarrow> bool res" where
  "IsDEmpty s = list_empty (doing_task_head s) (q_links s)"

definition GetDHeadNode :: "queues \<Rightarrow> addr option res" where
  "GetDHeadNode s = bindR (IsDEmpty s) (\<lambda>e.
     if e then Ok None
     else bindR (node_at (q_links s) (doing_task_head s)) (\<lambda>h. Ok (Some (lh_next h))))"

definition NextDTask :: "addr option \<Rightarrow> queues \<Rightarrow> addr option res" where
  "NextDTask task_node s = (case task_node of
     None \<Rightarrow> Ok None
   | Some cur \<Rightarrow> bindR (list_is_last cur (doing_task_head s) (q_links s)) (\<lambda>l.
       if l then Ok None
       else bindR (node_at (q_links s) cur) (\<lambda>n. Ok (Some (lh_next n)))))"

text \<open>\<open>calloc(len, 1)\<close> and \<open>memcpy\<close>, if there is something to copy; a negative length is a huge one.\<close>
definition copy_block :: "block_ptr \<Rightarrow> i32 \<Rightarrow> (block_ptr \<times> i32) option res" where
  "copy_block p len =
     (if len \<noteq> 0 \<and> p \<noteq> None
      then if sint len < 0 then Fault OutOfBounds
           else bindR (block_read p (nat (sint len))) (\<lambda>d. Ok (Some (Some d, len)))
      else Ok None)"

definition copy_table :: "fsm_table list option \<Rightarrow> i32 \<Rightarrow> (fsm_table list option \<times> i32) option res" where
  "copy_table p len = (case p of
     None \<Rightarrow> Ok None
   | Some rows \<Rightarrow>
       if len = 0 then Ok None
       else if sint len < 0 \<or> length rows < nat (sint len) then Fault OutOfBounds
       else Ok (Some (Some (take (nat (sint len)) rows), len)))"

text \<open>What both insert functions copy into a node.\<close>
definition fill_task ::
  "u8 \<Rightarrow> block_ptr \<Rightarrow> i32 \<Rightarrow> block_ptr \<Rightarrow> i32 \<Rightarrow> fsm_table list option \<Rightarrow> i32 \<Rightarrow> task_node \<Rightarrow> task_node res"
where
  "fill_task cs mqtt_data mqtt_data_len ble_data ble_data_len table sm_table_len t =
     bindR (copy_block mqtt_data mqtt_data_len) (\<lambda>m.
     let t = (case m of None \<Rightarrow> t | Some (d, n) \<Rightarrow> t\<lparr>t_mqtt_data := d, t_mqtt_data_len := n\<rparr>) in
     bindR (copy_block ble_data ble_data_len) (\<lambda>b.
     let t = (case b of None \<Rightarrow> t | Some (d, n) \<Rightarrow> t\<lparr>t_ble_data := d, t_ble_data_len := n\<rparr>) in
     bindR (copy_table table sm_table_len) (\<lambda>f.
     let t = (case f of None \<Rightarrow> t | Some (d, n) \<Rightarrow> t\<lparr>t_task_sm_table := d, t_sm_table_len := n\<rparr>) in
     Ok (t\<lparr>t_cur_state := cs\<rparr>))))"

definition malloc_task :: "addr \<Rightarrow> task_node \<Rightarrow> list_head \<Rightarrow> queues \<Rightarrow> queues" where
  "malloc_task new t l s = s\<lparr>q_links := (q_links s)(new \<mapsto> l), q_tasks := (q_tasks s)(new \<mapsto> t)\<rparr>"

record task_args =
  a_msg_id :: u32
  a_cs :: u8
  a_mqtt_data :: block_ptr
  a_mqtt_data_len :: i32
  a_ble_data :: block_ptr
  a_ble_data_len :: i32
  a_lock_cmd :: block_ptr
  a_lock_cmd_size :: u32
  a_table :: "fsm_table list option"
  a_table_len :: i32
  a_task_type :: int

text \<open>\<open>InsertDTaskTail\<close> has no \<open>lock_cmd\<close> and ignores that of the arguments.\<close>
definition new_task :: "task_args \<Rightarrow> bool \<Rightarrow> task_node \<Rightarrow> task_node res" where
  "new_task args with_cmd junk = (let
     t = junk\<lparr>t_msg_id := a_msg_id args, t_task_type := a_task_type args\<rparr>;
     t = (if with_cmd \<and> 0 < a_lock_cmd_size args \<and> a_lock_cmd args \<noteq> None
          then t\<lparr>t_lock_cmd := a_lock_cmd args, t_lock_cmd_size := a_lock_cmd_size args\<rparr> else t) in
     fill_task (a_cs args) (a_mqtt_data args) (a_mqtt_data_len args) (a_ble_data args) (a_ble_data_len args)
       (a_table args) (a_table_len args) t)"

definition InsertDTaskFront :: "addr \<Rightarrow> task_node \<Rightarrow> list_head \<Rightarrow> task_args \<Rightarrow> queues \<Rightarrow> (addr \<times> queues) res" where
  "InsertDTaskFront new junk l args s = bindR (new_task args True junk) (\<lambda>t.
     bindR (on_links (list_add new (doing_task_head s)) (malloc_task new t l s)) (\<lambda>s. Ok (new, s)))"

definition InsertDTaskTail :: "addr \<Rightarrow> task_node \<Rightarrow> list_head \<Rightarrow> task_args \<Rightarrow> queues \<Rightarrow> (addr \<times> queues) res" where
  "InsertDTaskTail new junk l args s = bindR (new_task args False junk) (\<lambda>t.
     bindR (on_links (list_add_tail new (doing_task_head s)) (malloc_task new t l s)) (\<lambda>s. Ok (new, s)))"

definition InsertBle2DFront :: "addr \<Rightarrow> task_node \<Rightarrow> list_head \<Rightarrow> task_args \<Rightarrow> queues \<Rightarrow> (addr \<times> queues) res" where
  "InsertBle2DFront new junk l args s = InsertDTaskFront new junk l (args\<lparr>a_mqtt_data := None, a_mqtt_data_len := 0\<rparr>) s"

definition InsertBle2DTail :: "addr \<Rightarrow> task_node \<Rightarrow> list_head \<Rightarrow> task_args \<Rightarrow> queues \<Rightarrow> (addr \<times> queues) res" where
  "InsertBle2DTail new junk l args s = InsertDTaskTail new junk l (args\<lparr>a_mqtt_data := None, a_mqtt_data_len := 0\<rparr>) s"

text \<open>\<open>free\<close> of a node.\<close>
definition free_task :: "addr \<Rightarrow> queues \<Rightarrow> queues" where
  "free_task a s = s\<lparr>q_links := (q_links s)(a := None), q_tasks := (q_tasks s)(a := None)\<rparr>"

text \<open>The result is the caller's pointer afterwards.\<close>
definition DeleteDTask :: "addr \<Rightarrow> queues \<Rightarrow> (addr option \<times> queues) res" where
  "DeleteDTask tn s = bindR (on_links (list_del tn) s) (\<lambda>s. Ok (None, free_task tn s))"

definition DTask2Waiting :: "addr \<Rightarrow> queues \<Rightarrow> queues res" where
  "DTask2Waiting tn s = on_links (list_move tn (waiting_task_head s)) s"

section \<open>The waiting queue\<close>

definition IsWEmpty :: "queues \<Rightarrow> bool res" where
  "IsWEmpty s = list_empty (waiting_task_head s) (q_links s)"

definition WTask2Doing :: "addr \<Rightarrow> queues \<Rightarrow> queues res" where
  "WTask2Doing tn s = on_links (list_move tn (doing_task_head s)) s"

definition DeleteWTask :: "addr \<Rightarrow> queues \<Rightarrow> (addr option \<times> queues) res" where
  "DeleteWTask tn s = bindR (on_links (list_del tn) s) (\<lambda>s. Ok (None, free_task tn s))"

section \<open>Running tasks\<close>

type_synonym 'w action = "nat \<Rightarrow> addr \<Rightarrow> queues \<Rightarrow> 'w \<Rightarrow> (int \<times> queues \<times> 'w) res"

definition table_row :: "task_node \<Rightarrow> nat \<Rightarrow> fsm_table res" where
  "table_row t i = (case t_task_sm_table t of
     None \<Rightarrow> Fault OutOfBounds
   | Some rows \<Rightarrow> if i < length rows then Ok (rows ! i) else Fault OutOfBounds)"

definition set_cur_state :: "addr \<Rightarrow> u8 \<Rightarrow> queues \<Rightarrow> queues res" where
  "set_cur_state a st s = bindR (task_at s a) (\<lambda>t. Ok (s\<lparr>q_tasks := (q_tasks s)(a \<mapsto> t\<lparr>t_cur_state := st\<rparr>)\<rparr>))"

text \<open>The loop of \<open>FSMHandle\<close> at row \<open>i\<close>.\<close>
function FSMHandle_loop :: "'w action \<Rightarrow> nat \<Rightarrow> nat \<Rightarrow> addr \<Rightarrow> queues \<Rightarrow> 'w \<Rightarrow> (int \<times> queues \<times> 'w) res" where
  "FSMHandle_loop act table_max_num i tn s w =
     (if i < table_max_num then
        bindR (task_at s tn) (\<lambda>t.
        bindR (table_row t i) (\<lambda>row.
        if t_cur_state t = f_cur_state row then
          bindR (act (f_eventActFun row) tn s w) (\<lambda>(event_result, s, w).
          if event_result \<noteq> 0 then Ok (- 1, s, w)
          else bindR (task_at s tn) (\<lambda>t.
               bindR (table_row t i) (\<lambda>row.
               bindR (set_cur_state tn (f_next_state row) s) (\<lambda>s.
               FSMHandle_loop act table_max_num (i + 1) tn s w))))
        else FSMHandle_loop act table_max_num (i + 1) tn s w))
      else Ok (0, s, w))"
  by pat_completeness auto
termination by (relation "measure (\<lambda>(act, n, i, tn, s, w). n - i)") auto

declare FSMHandle_loop.simps [simp del]

definition FSMHandle :: "'w action \<Rightarrow> addr \<Rightarrow> queues \<Rightarrow> 'w \<Rightarrow> (int \<times> queues \<times> 'w) res" where
  "FSMHandle act tn s w = bindR (task_at s tn) (\<lambda>t.
     if t_task_sm_table t = None then Ok (- 1, s, w)
     else FSMHandle_loop act (unat (t_sm_table_len t)) 0 tn s w)"

text \<open>The inner loop of \<open>main\<close>; the list \<open>tr\<close> of the tasks run is kept for the theorems.  \<open>saveTaskData\<close> reads the
  task and changes neither queue.\<close>
fun run_tasks :: "nat \<Rightarrow> 'w action \<Rightarrow> addr option \<Rightarrow> addr list \<Rightarrow> queues \<Rightarrow> 'w \<Rightarrow> (addr list \<times> queues \<times> 'w) res" where
  "run_tasks n act None tr s w = Ok (tr, s, w)"
| "run_tasks 0 act (Some ptn) tr s w = Fault OutOfFuel"
| "run_tasks (Suc n) act (Some ptn) tr s w =
     bindR (FSMHandle act ptn s w) (\<lambda>(ret, s, w).
     bindR (DeleteDTask ptn s) (\<lambda>(ptn', s).
     bindR (NextDTask ptn' s) (\<lambda>tmp. run_tasks n act tmp (tr @ [ptn]) s w)))"

text \<open>One round of the endless loop of \<open>main\<close>.\<close>
definition main_round :: "nat \<Rightarrow> 'w action \<Rightarrow> addr list \<Rightarrow> queues \<Rightarrow> 'w \<Rightarrow> (addr list \<times> queues \<times> 'w) res" where
  "main_round n act tr s w = bindR (IsDEmpty s) (\<lambda>e.
     if e then Ok (tr, s, w)
     else bindR (GetDHeadNode s) (\<lambda>ptn. run_tasks n act ptn tr s w))"

fun main_rounds :: "nat \<Rightarrow> 'w action \<Rightarrow> addr list \<Rightarrow> queues \<Rightarrow> 'w \<Rightarrow> (addr list \<times> queues \<times> 'w) res" where
  "main_rounds 0 act tr s w = Ok (tr, s, w)"
| "main_rounds (Suc k) act tr s w = bindR (main_round 1 act tr s w) (\<lambda>(tr, s, w). main_rounds k act tr s w)"

section \<open>The two queues as lists\<close>

definition holds :: "queues \<Rightarrow> addr list \<Rightarrow> addr list \<Rightarrow> bool" where
  "holds s ds ws \<longleftrightarrow> ring (q_links s) (doing_task_head s) ds \<and> ring (q_links s) (waiting_task_head s) ws \<and>
     set (doing_task_head s # ds) \<inter> set (waiting_task_head s # ws) = {} \<and>
     (\<forall>a \<in> set ds \<union> set ws. q_tasks s a \<noteq> None)"

datatype queue_op =
  Insert_Front addr task_node list_head task_args
| Insert_Tail addr task_node list_head task_args
| To_Waiting addr
| To_Doing addr
| Delete_Doing addr
| Delete_Waiting addr

fun perform :: "queue_op \<Rightarrow> queues \<Rightarrow> queues res" where
  "perform (Insert_Front new junk l args) s = bindR (InsertDTaskFront new junk l args s) (\<lambda>(a, s). Ok s)"
| "perform (Insert_Tail new junk l args) s = bindR (InsertDTaskTail new junk l args s) (\<lambda>(a, s). Ok s)"
| "perform (To_Waiting a) s = DTask2Waiting a s"
| "perform (To_Doing a) s = WTask2Doing a s"
| "perform (Delete_Doing a) s = bindR (DeleteDTask a s) (\<lambda>(p, s). Ok s)"
| "perform (Delete_Waiting a) s = bindR (DeleteWTask a s) (\<lambda>(p, s). Ok s)"

fun perform_all :: "queue_op list \<Rightarrow> queues \<Rightarrow> queues res" where
  "perform_all [] s = Ok s"
| "perform_all (op # ops) s = bindR (perform op s) (perform_all ops)"

text \<open>What the operations promise: two lists.  A fresh node is one that is neither in use nor a head, its arguments
  can be copied; a node is moved or deleted from the list it is in.\<close>
fun spec_op :: "queue_op \<Rightarrow> addr set \<Rightarrow> addr list \<times> addr list \<Rightarrow> (addr list \<times> addr list) option" where
  "spec_op (Insert_Front new junk l args) used (ds, ws) =
     (if new \<notin> used \<and> new \<notin> set ds \<union> set ws \<and> (\<exists>t. new_task args True junk = Ok t) then Some (new # ds, ws) else None)"
| "spec_op (Insert_Tail new junk l args) used (ds, ws) =
     (if new \<notin> used \<and> new \<notin> set ds \<union> set ws \<and> (\<exists>t. new_task args False junk = Ok t) then Some (ds @ [new], ws) else None)"
| "spec_op (To_Waiting a) used (ds, ws) = (if a \<in> set ds then Some (remove1 a ds, a # ws) else None)"
| "spec_op (To_Doing a) used (ds, ws) = (if a \<in> set ws then Some (a # ds, remove1 a ws) else None)"
| "spec_op (Delete_Doing a) used (ds, ws) = (if a \<in> set ds then Some (remove1 a ds, ws) else None)"
| "spec_op (Delete_Waiting a) used (ds, ws) = (if a \<in> set ws then Some (ds, remove1 a ws) else None)"

fun spec_ops :: "queue_op list \<Rightarrow> addr set \<Rightarrow> addr list \<times> addr list \<Rightarrow> (addr list \<times> addr list) option" where
  "spec_ops [] used q = Some q"
| "spec_ops (op # ops) used q = Option.bind (spec_op op used q) (spec_ops ops used)"

section \<open>The operations keep the promise\<close>

abbreviation heads :: "queues \<Rightarrow> addr set" where
  "heads s \<equiv> {doing_task_head s, waiting_task_head s}"

lemma on_links_Ok: "f (q_links s) = Ok m \<Longrightarrow> on_links f s = Ok (s\<lparr>q_links := m\<rparr>)"
  by (simp add: on_links_def)

lemma holds_malloc:
  assumes "holds s ds ws" "new \<notin> heads s" "new \<notin> set ds \<union> set ws"
  shows "holds (malloc_task new t l s) ds ws" "q_links (malloc_task new t l s) new \<noteq> None"
proof -
  have "ring ((q_links s)(new \<mapsto> l)) (doing_task_head s) ds" "ring ((q_links s)(new \<mapsto> l)) (waiting_task_head s) ws"
    using assms by (auto simp: holds_def intro: ring_frame)
  then show "holds (malloc_task new t l s) ds ws" using assms(1) by (auto simp: holds_def malloc_task_def)
qed (simp add: malloc_task_def)

lemma insert_holds:
  assumes h: "holds s ds ws" and new: "new \<notin> heads s" "new \<notin> set ds \<union> set ws"
    and add: "\<exists>m'. f (q_links (malloc_task new t l s)) = Ok m' \<and> ring m' (doing_task_head s) ds' \<and>
      (\<forall>a. a \<notin> set (doing_task_head s # new # ds) \<longrightarrow> m' a = q_links (malloc_task new t l s) a)"
    and ds': "set ds' = insert new (set ds)"
  shows "\<exists>s'. on_links f (malloc_task new t l s) = Ok s' \<and> holds s' ds' ws \<and> heads s' = heads s"
proof -
  obtain m' where m': "f (q_links (malloc_task new t l s)) = Ok m'" "ring m' (doing_task_head s) ds'"
    "\<forall>a. a \<notin> set (doing_task_head s # new # ds) \<longrightarrow> m' a = q_links (malloc_task new t l s) a" using add by blast
  have h1: "holds (malloc_task new t l s) ds ws" by (rule holds_malloc [OF h new])
  have heads: "heads (malloc_task new t l s) = heads s" "doing_task_head (malloc_task new t l s) = doing_task_head s"
    "waiting_task_head (malloc_task new t l s) = waiting_task_head s"
    by (simp_all add: malloc_task_def)
  have "ring m' (waiting_task_head s) ws"
    by (rule ring_other [OF _ m'(3)]) (use h h1 new heads in \<open>auto simp: holds_def\<close>)
  then have "holds ((malloc_task new t l s)\<lparr>q_links := m'\<rparr>) ds' ws"
    using m'(2) h h1 new ds' heads by (auto simp: holds_def malloc_task_def)
  then show ?thesis using on_links_Ok [of f, OF m'(1)] heads by auto
qed

lemma insert_front_holds:
  assumes h: "holds s ds ws" and new: "new \<notin> heads s" "new \<notin> set ds \<union> set ws" and t: "new_task args True junk = Ok t"
  shows "\<exists>s'. InsertDTaskFront new junk l args s = Ok (new, s') \<and> holds s' (new # ds) ws \<and> heads s' = heads s"
proof -
  have "ring (q_links (malloc_task new t l s)) (doing_task_head s) ds"
    using holds_malloc(1) [OF h new, of t l] by (simp add: holds_def malloc_task_def)
  from list_add_ring [OF this _ holds_malloc(2) [OF h new]] new
  have "\<exists>s'. on_links (list_add new (doing_task_head s)) (malloc_task new t l s) = Ok s' \<and> holds s' (new # ds) ws \<and> heads s' = heads s"
    by (intro insert_holds [OF h new]) auto
  then show ?thesis using t by (auto simp: InsertDTaskFront_def malloc_task_def)
qed

lemma insert_tail_holds:
  assumes h: "holds s ds ws" and new: "new \<notin> heads s" "new \<notin> set ds \<union> set ws" and t: "new_task args False junk = Ok t"
  shows "\<exists>s'. InsertDTaskTail new junk l args s = Ok (new, s') \<and> holds s' (ds @ [new]) ws \<and> heads s' = heads s"
proof -
  have "ring (q_links (malloc_task new t l s)) (doing_task_head s) ds"
    using holds_malloc(1) [OF h new, of t l] by (simp add: holds_def malloc_task_def)
  from list_add_tail_ring [OF this _ holds_malloc(2) [OF h new]] new
  have "\<exists>s'. on_links (list_add_tail new (doing_task_head s)) (malloc_task new t l s) = Ok s' \<and> holds s' (ds @ [new]) ws \<and> heads s' = heads s"
    by (intro insert_holds [OF h new]) auto
  then show ?thesis using t by (auto simp: InsertDTaskTail_def malloc_task_def)
qed

lemma move_holds:
  assumes h: "holds s ds ws"
  shows "a \<in> set ds \<Longrightarrow> \<exists>s'. DTask2Waiting a s = Ok s' \<and> holds s' (remove1 a ds) (a # ws) \<and> heads s' = heads s"
    and "a \<in> set ws \<Longrightarrow> \<exists>s'. WTask2Doing a s = Ok s' \<and> holds s' (a # ds) (remove1 a ws) \<and> heads s' = heads s"
proof -
  have r: "ring (q_links s) (doing_task_head s) ds" "ring (q_links s) (waiting_task_head s) ws"
    "set (doing_task_head s # ds) \<inter> set (waiting_task_head s # ws) = {}" and t: "\<forall>a \<in> set ds \<union> set ws. q_tasks s a \<noteq> None"
    using h by (simp_all add: holds_def)
  have d: "distinct ds" "distinct ws" using r by (simp_all add: ring_def)
  show "\<exists>s'. DTask2Waiting a s = Ok s' \<and> holds s' (remove1 a ds) (a # ws) \<and> heads s' = heads s" if a: "a \<in> set ds"
  proof -
    obtain m' where m': "list_move a (waiting_task_head s) (q_links s) = Ok m'" "ring m' (doing_task_head s) (remove1 a ds)"
      "ring m' (waiting_task_head s) (a # ws)"
      using list_move_rings [OF r(1,2) a r(3)] by blast
    have "a \<noteq> doing_task_head s" using a r(1) by (auto simp: ring_def)
    then have "holds (s\<lparr>q_links := m'\<rparr>) (remove1 a ds) (a # ws)" using m' r t a d by (auto simp: holds_def)
    then show ?thesis using m'(1) by (auto simp: DTask2Waiting_def on_links_def)
  qed
  show "\<exists>s'. WTask2Doing a s = Ok s' \<and> holds s' (a # ds) (remove1 a ws) \<and> heads s' = heads s" if a: "a \<in> set ws"
  proof -
    have "set (waiting_task_head s # ws) \<inter> set (doing_task_head s # ds) = {}" using r(3) by blast
    then obtain m' where m': "list_move a (doing_task_head s) (q_links s) = Ok m'" "ring m' (waiting_task_head s) (remove1 a ws)"
      "ring m' (doing_task_head s) (a # ds)"
      using list_move_rings [OF r(2,1) a] by blast
    have "a \<noteq> waiting_task_head s" using a r(2) by (auto simp: ring_def)
    then have "holds (s\<lparr>q_links := m'\<rparr>) (a # ds) (remove1 a ws)" using m' r t a d by (auto simp: holds_def)
    then show ?thesis using m'(1) by (auto simp: WTask2Doing_def on_links_def)
  qed
qed

lemma delete_holds:
  assumes h: "holds s ds ws"
  shows "a \<in> set ds \<Longrightarrow> \<exists>s'. DeleteDTask a s = Ok (None, s') \<and> holds s' (remove1 a ds) ws \<and> heads s' = heads s \<and>
      q_tasks s' = (q_tasks s)(a := None)"
    and "a \<in> set ws \<Longrightarrow> \<exists>s'. DeleteWTask a s = Ok (None, s') \<and> holds s' ds (remove1 a ws) \<and> heads s' = heads s"
proof -
  have r: "ring (q_links s) (doing_task_head s) ds" "ring (q_links s) (waiting_task_head s) ws"
    "set (doing_task_head s # ds) \<inter> set (waiting_task_head s # ws) = {}" and t: "\<forall>a \<in> set ds \<union> set ws. q_tasks s a \<noteq> None"
    using h by (simp_all add: holds_def)
  have d: "distinct (doing_task_head s # ds)" "distinct (waiting_task_head s # ws)" using r by (simp_all add: ring_def)
  have free: "ring m h xs \<Longrightarrow> a \<notin> set (h # xs) \<Longrightarrow> ring (m(a := None)) h xs" for m h xs a by (rule ring_frame) auto
  show "\<exists>s'. DeleteDTask a s = Ok (None, s') \<and> holds s' (remove1 a ds) ws \<and> heads s' = heads s \<and>
      q_tasks s' = (q_tasks s)(a := None)" if a: "a \<in> set ds"
  proof -
    obtain m' where m': "list_del a (q_links s) = Ok m'" "ring m' (doing_task_head s) (remove1 a ds)"
      "\<forall>x. x \<notin> set (doing_task_head s # ds) \<longrightarrow> m' x = q_links s x"
      using list_del_ring [OF r(1) a] by blast
    have "ring m' (waiting_task_head s) ws" by (rule ring_other [OF r(2) m'(3)]) (use r(3) in auto)
    then have "ring (m'(a := None)) (waiting_task_head s) ws" "ring (m'(a := None)) (doing_task_head s) (remove1 a ds)"
      using m'(2) a r(3) d(1) by (auto intro!: free)
    then have "holds (free_task a (s\<lparr>q_links := m'\<rparr>)) (remove1 a ds) ws"
      using r(3) t a d by (auto simp: holds_def free_task_def)
    then show ?thesis using m'(1) by (auto simp: DeleteDTask_def on_links_def free_task_def)
  qed
  show "\<exists>s'. DeleteWTask a s = Ok (None, s') \<and> holds s' ds (remove1 a ws) \<and> heads s' = heads s" if a: "a \<in> set ws"
  proof -
    obtain m' where m': "list_del a (q_links s) = Ok m'" "ring m' (waiting_task_head s) (remove1 a ws)"
      "\<forall>x. x \<notin> set (waiting_task_head s # ws) \<longrightarrow> m' x = q_links s x"
      using list_del_ring [OF r(2) a] by blast
    have "ring m' (doing_task_head s) ds" by (rule ring_other [OF r(1) m'(3)]) (use r(3) in auto)
    then have "ring (m'(a := None)) (doing_task_head s) ds" "ring (m'(a := None)) (waiting_task_head s) (remove1 a ws)"
      using m'(2) a r(3) d(2) by (auto intro!: free)
    then have "holds (free_task a (s\<lparr>q_links := m'\<rparr>)) ds (remove1 a ws)"
      using r(3) t a d by (auto simp: holds_def free_task_def)
    then show ?thesis using m'(1) by (auto simp: DeleteWTask_def on_links_def free_task_def)
  qed
qed

lemma perform_refines:
  assumes "holds s ds ws" "spec_op op (heads s) (ds, ws) = Some (ds', ws')"
  shows "\<exists>s'. perform op s = Ok s' \<and> holds s' ds' ws' \<and> heads s' = heads s"
proof (cases op)
  case (Insert_Front new junk l args)
  then obtain t where "new \<notin> heads s" "new \<notin> set ds \<union> set ws" "new_task args True junk = Ok t" "ds' = new # ds" "ws' = ws"
    using assms(2) by (auto split: if_splits)
  with insert_front_holds [OF assms(1) this(1-3), of l] show ?thesis using Insert_Front by auto
next
  case (Insert_Tail new junk l args)
  then obtain t where "new \<notin> heads s" "new \<notin> set ds \<union> set ws" "new_task args False junk = Ok t" "ds' = ds @ [new]" "ws' = ws"
    using assms(2) by (auto split: if_splits)
  with insert_tail_holds [OF assms(1) this(1-3), of l] show ?thesis using Insert_Tail by auto
next
  case (To_Waiting a)
  with move_holds(1) [OF assms(1), of a] assms(2) show ?thesis by (auto split: if_splits)
next
  case (To_Doing a)
  with move_holds(2) [OF assms(1), of a] assms(2) show ?thesis by (auto split: if_splits)
next
  case (Delete_Doing a)
  with delete_holds(1) [OF assms(1), of a] assms(2) show ?thesis by (auto split: if_splits)
next
  case (Delete_Waiting a)
  with delete_holds(2) [OF assms(1), of a] assms(2) show ?thesis by (auto split: if_splits)
qed

lemma perform_all_refines:
  "holds s ds ws \<Longrightarrow> spec_ops ops (heads s) (ds, ws) = Some (ds', ws') \<Longrightarrow>
   \<exists>s'. perform_all ops s = Ok s' \<and> holds s' ds' ws' \<and> heads s' = heads s"
proof (induction ops arbitrary: s ds ws)
  case (Cons op ops)
  from Cons.prems(2) obtain d w where o: "spec_op op (heads s) (ds, ws) = Some (d, w)" "spec_ops ops (heads s) (d, w) = Some (ds', ws')"
    by (cases "spec_op op (heads s) (ds, ws)") auto
  obtain s1 where s1: "perform op s = Ok s1" "holds s1 d w" "heads s1 = heads s"
    using perform_refines [OF Cons.prems(1) o(1)] by blast
  then show ?case using Cons.IH [OF s1(2)] o(2) by simp
qed auto

section \<open>Walking the doing queue\<close>

lemma queue_tests:
  assumes "holds s ds ws"
  shows "IsDEmpty s = Ok (ds = [])" "IsWEmpty s = Ok (ws = [])" "GetDHeadNode s = Ok (case ds of [] \<Rightarrow> None | d # _ \<Rightarrow> Some d)"
    "ds = us @ x # vs \<Longrightarrow> NextDTask (Some x) s = Ok (case vs of [] \<Rightarrow> None | v # _ \<Rightarrow> Some v)"
proof -
  have r: "ring (q_links s) (doing_task_head s) ds" "ring (q_links s) (waiting_task_head s) ws" using assms by (simp_all add: holds_def)
  show "IsDEmpty s = Ok (ds = [])" "IsWEmpty s = Ok (ws = [])"
    using list_tests(1) [OF r(1)] list_tests(1) [OF r(2)] by (simp_all add: IsDEmpty_def IsWEmpty_def)
  show "GetDHeadNode s = Ok (case ds of [] \<Rightarrow> None | d # _ \<Rightarrow> Some d)"
    using list_tests(1) [OF r(1)] ring_next [OF r(1)] by (cases ds) (auto simp: GetDHeadNode_def IsDEmpty_def)
  assume ds: "ds = us @ x # vs"
  show "NextDTask (Some x) s = Ok (case vs of [] \<Rightarrow> None | v # _ \<Rightarrow> Some v)"
    using list_is_last_ring [OF r(1) [unfolded ds]] ring_node [OF r(1) [unfolded ds]] by (cases vs) (auto simp: NextDTask_def)
qed

text \<open>The head and then next after next, until NULL.\<close>
fun walk_doing :: "nat \<Rightarrow> addr option \<Rightarrow> queues \<Rightarrow> addr list res" where
  "walk_doing n None s = Ok []"
| "walk_doing 0 (Some a) s = Fault OutOfFuel"
| "walk_doing (Suc n) (Some a) s = bindR (NextDTask (Some a) s) (\<lambda>b. bindR (walk_doing n b s) (\<lambda>r. Ok (a # r)))"

lemma walk_doing_rest:
  "holds s ds ws \<Longrightarrow> ds = us @ vs \<Longrightarrow> length vs \<le> n \<Longrightarrow>
   walk_doing n (case vs of [] \<Rightarrow> None | v # _ \<Rightarrow> Some v) s = Ok vs"
proof (induction vs arbitrary: us n)
  case (Cons v vs)
  obtain n' where n: "n = Suc n'" "length vs \<le> n'" using Cons.prems(3) by (cases n) auto
  have "walk_doing n' (case vs of [] \<Rightarrow> None | w # _ \<Rightarrow> Some w) s = Ok vs"
    by (rule Cons.IH [OF Cons.prems(1), of "us @ [v]"]) (use Cons.prems(2) n(2) in simp_all)
  then show ?case using queue_tests(4) [OF Cons.prems(1), of us v vs] Cons.prems(2) n(1) by simp
qed simp

lemma walk_doing_all:
  "holds s ds ws \<Longrightarrow> length ds \<le> n \<Longrightarrow> bindR (GetDHeadNode s) (\<lambda>a. walk_doing n a s) = Ok ds"
  using walk_doing_rest [of s ds ws "[]" ds n] queue_tests(3) [of s ds ws] by simp

section \<open>The state machine of a task\<close>

text \<open>An action that ends without a fault and leaves queues and tasks alone except for members of its own task
  that are not its state, its table and the table's length.\<close>
definition keeps_queues :: "'w action \<Rightarrow> bool" where
  "keeps_queues act \<longleftrightarrow> (\<forall>k a s w t. q_tasks s a = Some t \<longrightarrow>
     (\<exists>r t' w'. act k a s w = Ok (r, s\<lparr>q_tasks := (q_tasks s)(a \<mapsto> t')\<rparr>, w') \<and> t_cur_state t' = t_cur_state t \<and>
        t_task_sm_table t' = t_task_sm_table t \<and> t_sm_table_len t' = t_sm_table_len t))"

definition table_ok :: "task_node \<Rightarrow> bool" where
  "table_ok t \<longleftrightarrow> (case t_task_sm_table t of None \<Rightarrow> True | Some rows \<Rightarrow> unat (t_sm_table_len t) \<le> length rows)"

lemma FSMHandle_loop_keeps:
  assumes act: "keeps_queues act"
  shows "q_tasks s a = Some t \<Longrightarrow> t_task_sm_table t = Some rows \<Longrightarrow> n \<le> length rows \<Longrightarrow>
    \<exists>r t' w'. FSMHandle_loop act n i a s w = Ok (r, s\<lparr>q_tasks := (q_tasks s)(a \<mapsto> t')\<rparr>, w')"
proof (induction "n - i" arbitrary: i s w t)
  case 0
  then show ?case by (subst FSMHandle_loop.simps) (auto intro!: exI [of _ t] simp: fun_upd_idem)
next
  case (Suc d)
  then have i: "i < n" "i < length rows" by simp_all
  have row: "table_row t' i = Ok (rows ! i)" if "t_task_sm_table t' = Some rows" for t' using that i by (simp add: table_row_def)
  show ?case
  proof (cases "t_cur_state t = f_cur_state (rows ! i)")
    case False
    from Suc(1) [of "i + 1" s t w] Suc.prems Suc(2) i False row show ?thesis
      by (subst FSMHandle_loop.simps) (simp add: task_at_def)
  next
    case True
    obtain r t' w' where e: "act (f_eventActFun (rows ! i)) a s w = Ok (r, s\<lparr>q_tasks := (q_tasks s)(a \<mapsto> t')\<rparr>, w')"
      "t_task_sm_table t' = Some rows"
      using act [unfolded keeps_queues_def] Suc.prems(1,2) by metis
    show ?thesis
    proof (cases "r = 0")
      case False
      then show ?thesis using e Suc.prems i True row by (subst FSMHandle_loop.simps) (auto simp: task_at_def)
    next
      case r0: True
      let ?t = "t'\<lparr>t_cur_state := f_next_state (rows ! i)\<rparr>"
      let ?s = "s\<lparr>q_tasks := (q_tasks s)(a \<mapsto> ?t)\<rparr>"
      have "FSMHandle_loop act n i a s w = FSMHandle_loop act n (i + 1) a ?s w'"
        using e Suc.prems i True row r0 by (subst FSMHandle_loop.simps) (simp add: task_at_def set_cur_state_def)
      moreover have "\<exists>r t'' w''. FSMHandle_loop act n (i + 1) a ?s w' = Ok (r, ?s\<lparr>q_tasks := (q_tasks ?s)(a \<mapsto> t'')\<rparr>, w'')"
        by (rule Suc(1) [where i = "i + 1" and t = ?t]) (use Suc.prems Suc(2) i e in simp_all)
      ultimately show ?thesis by simp
    qed
  qed
qed

lemma FSMHandle_keeps:
  assumes "keeps_queues act" "q_tasks s a = Some t" "table_ok t"
  shows "\<exists>r t' w'. FSMHandle act a s w = Ok (r, s\<lparr>q_tasks := (q_tasks s)(a \<mapsto> t')\<rparr>, w')"
proof (cases "t_task_sm_table t")
  case None
  have "s\<lparr>q_tasks := (q_tasks s)(a \<mapsto> t)\<rparr> = s" using assms(2) by (simp add: fun_upd_idem)
  then show ?thesis using assms(2) None by (simp add: FSMHandle_def task_at_def) metis
next
  case (Some rows)
  then show ?thesis
    using FSMHandle_loop_keeps [OF assms(1,2) Some] assms(2,3) by (simp add: FSMHandle_def task_at_def table_ok_def)
qed

text \<open>Which actions run: one pass over the rows, each row tried once with the state reached so far; an action
  that fails ends the pass.\<close>
fun fsm_pass :: "(nat \<Rightarrow> int) \<Rightarrow> u8 \<Rightarrow> fsm_table list \<Rightarrow> int \<times> u8 \<times> nat list" where
  "fsm_pass res c [] = (0, c, [])"
| "fsm_pass res c (row # rows) =
     (if c = f_cur_state row then
        if res (f_eventActFun row) \<noteq> 0 then (- 1, c, [f_eventActFun row])
        else let (r, c', l) = fsm_pass res (f_next_state row) rows in (r, c', f_eventActFun row # l)
      else fsm_pass res c rows)"

text \<open>Actions that only note that they ran, with results given by \<open>res\<close>.\<close>
definition log_action :: "(nat \<Rightarrow> int) \<Rightarrow> nat list action" where
  "log_action res k a s w = Ok (res k, s, w @ [k])"

definition with_state :: "queues \<Rightarrow> addr \<Rightarrow> task_node \<Rightarrow> u8 \<Rightarrow> queues" where
  "with_state s a t c = s\<lparr>q_tasks := (q_tasks s)(a \<mapsto> t\<lparr>t_cur_state := c\<rparr>)\<rparr>"

lemma with_state_simps [simp]:
  "q_tasks (with_state s a t c) a = Some (t\<lparr>t_cur_state := c\<rparr>)"
  "with_state (with_state s a t c) a (t\<lparr>t_cur_state := c\<rparr>) c' = with_state s a t c'"
  "q_tasks s a = Some t \<Longrightarrow> with_state s a t (t_cur_state t) = s"
  by (simp_all add: with_state_def fun_upd_idem)

lemma FSMHandle_loop_pass:
  "q_tasks s a = Some t \<Longrightarrow> t_task_sm_table t = Some (us @ rows @ vs) \<Longrightarrow> length us = i \<Longrightarrow>
   FSMHandle_loop (log_action res) (i + length rows) i a s w =
     (case fsm_pass res (t_cur_state t) rows of (r, c, l) \<Rightarrow> Ok (r, with_state s a t c, w @ l))"
proof (induction rows arbitrary: us i s t w)
  case Nil
  then show ?case by (subst FSMHandle_loop.simps) simp
next
  case (Cons row rows)
  let ?t = "t\<lparr>t_cur_state := f_next_state row\<rparr>"
  have row: "table_row t i = Ok row" using Cons.prems by (simp add: table_row_def nth_append)
  have skip: "FSMHandle_loop (log_action res) (i + 1 + length rows) (i + 1) a s w =
      (case fsm_pass res (t_cur_state t) rows of (r, c, l) \<Rightarrow> Ok (r, with_state s a t c, w @ l))"
    by (rule Cons.IH [of s t "us @ [row]"]) (use Cons.prems in simp_all)
  have step: "FSMHandle_loop (log_action res) (i + 1 + length rows) (i + 1) a (with_state s a t (f_next_state row)) (w @ [f_eventActFun row]) =
      (case fsm_pass res (t_cur_state ?t) rows of (r, c, l) \<Rightarrow>
        Ok (r, with_state (with_state s a t (f_next_state row)) a ?t c, (w @ [f_eventActFun row]) @ l))"
    by (rule Cons.IH [of _ ?t "us @ [row]"]) (use Cons.prems in simp_all)
  have set: "set_cur_state a (f_next_state row) s = Ok (with_state s a t (f_next_state row))"
    using Cons.prems(1) by (simp add: set_cur_state_def task_at_def with_state_def)
  have same: "t_cur_state t = f_cur_state row \<Longrightarrow> with_state s a t (f_cur_state row) = s"
    using with_state_simps(3) [OF Cons.prems(1)] by simp
  show ?case
    using Cons.prems(1) row skip step set same
    by (subst FSMHandle_loop.simps) (simp add: task_at_def log_action_def split: prod.splits)
qed

lemma FSMHandle_pass:
  assumes "q_tasks s a = Some t" "t_task_sm_table t = Some rows" "unat (t_sm_table_len t) \<le> length rows"
  shows "FSMHandle (log_action res) a s w = (case fsm_pass res (t_cur_state t) (take (unat (t_sm_table_len t)) rows) of
    (r, c, l) \<Rightarrow> Ok (r, with_state s a t c, w @ l))"
proof -
  let ?n = "unat (t_sm_table_len t)"
  have "FSMHandle_loop (log_action res) (0 + length (take ?n rows)) 0 a s w =
      (case fsm_pass res (t_cur_state t) (take ?n rows) of (r, c, l) \<Rightarrow> Ok (r, with_state s a t c, w @ l))"
    by (rule FSMHandle_loop_pass [of s a t "[]" _ "drop ?n rows"]) (use assms in simp_all)
  then show ?thesis using assms by (simp add: FSMHandle_def task_at_def min.absorb2)
qed

text \<open>Rows listed in the order of the states all run; a row in front of the one that leads to it does not.\<close>
fun in_order :: "u8 \<Rightarrow> fsm_table list \<Rightarrow> bool" where
  "in_order c [] \<longleftrightarrow> True"
| "in_order c (row # rows) \<longleftrightarrow> f_cur_state row = c \<and> in_order (f_next_state row) rows"

lemma fsm_pass_in_order:
  "in_order c rows \<Longrightarrow> \<forall>row \<in> set rows. res (f_eventActFun row) = 0 \<Longrightarrow>
   fsm_pass res c rows = (0, last (c # map f_next_state rows), map f_eventActFun rows)"
  by (induction rows arbitrary: c) auto

lemma fsm_pass_backwards:
  assumes "a \<noteq> b" "b \<noteq> c" "a \<noteq> c" "res f = 0"
  shows "fsm_pass res a [\<lparr>f_cur_state = b, f_eventActFun = g, f_next_state = c\<rparr>, \<lparr>f_cur_state = a, f_eventActFun = f, f_next_state = b\<rparr>] =
    (0, b, [f])"
  using assms by simp

section \<open>The scheduler\<close>

text \<open>After \<open>DeleteDTask\<close> the pointer is NULL, so the inner loop runs one task.\<close>
lemma main_round_runs_head:
  assumes act: "keeps_queues act" and h: "holds s (d # ds) ws" and t: "\<forall>a \<in> set (d # ds). \<forall>t. q_tasks s a = Some t \<longrightarrow> table_ok t"
  shows "\<exists>s' w'. main_round 1 act tr s w = Ok (tr @ [d], s', w') \<and> holds s' ds ws \<and> heads s' = heads s \<and>
    (\<forall>a. a \<noteq> d \<longrightarrow> q_tasks s' a = q_tasks s a)"
proof -
  obtain td where td: "q_tasks s d = Some td" "table_ok td" using h t by (auto simp: holds_def)
  obtain r t' w' where f: "FSMHandle act d s w = Ok (r, s\<lparr>q_tasks := (q_tasks s)(d \<mapsto> t')\<rparr>, w')"
    using FSMHandle_keeps [OF act td] by blast
  let ?s = "s\<lparr>q_tasks := (q_tasks s)(d \<mapsto> t')\<rparr>"
  have h': "holds ?s (d # ds) ws" using h by (auto simp: holds_def)
  obtain s' where s': "DeleteDTask d ?s = Ok (None, s')" "holds s' (remove1 d (d # ds)) ws" "heads s' = heads ?s"
    "q_tasks s' = (q_tasks ?s)(d := None)"
    using delete_holds(1) [OF h', of d] by auto
  have "main_round 1 act tr s w = Ok (tr @ [d], s', w')"
    using queue_tests(1,3) [OF h] f s'(1) by (simp add: main_round_def NextDTask_def)
  then show ?thesis using s' by auto
qed

text \<open>Every queued task is run, in the order of the queue.\<close>
lemma main_rounds_run_all:
  assumes act: "keeps_queues act"
  shows "holds s ds ws \<Longrightarrow> \<forall>a \<in> set ds. \<forall>t. q_tasks s a = Some t \<longrightarrow> table_ok t \<Longrightarrow>
    \<exists>s' w'. main_rounds (length ds) act tr s w = Ok (tr @ ds, s', w') \<and> holds s' [] ws"
proof (induction ds arbitrary: tr s w)
  case (Cons d ds)
  obtain s1 w1 where s1: "main_round 1 act tr s w = Ok (tr @ [d], s1, w1)" "holds s1 ds ws" "\<forall>a. a \<noteq> d \<longrightarrow> q_tasks s1 a = q_tasks s a"
    using main_round_runs_head [OF act Cons.prems] by blast
  have "d \<notin> set ds" using Cons.prems(1) by (auto simp: holds_def ring_def)
  then have "\<forall>a \<in> set ds. \<forall>t. q_tasks s1 a = Some t \<longrightarrow> table_ok t" using Cons.prems(2) s1(3) by (metis list.set_intros(2))
  from Cons.IH [OF s1(2) this, of "tr @ [d]" w1] show ?case using s1(1) by auto
qed auto

section \<open>A queue to try\<close>

definition example_args :: task_args where
  "example_args = \<lparr>a_msg_id = 1, a_cs = 0, a_mqtt_data = None, a_mqtt_data_len = 0, a_ble_data = Some [7], a_ble_data_len = 1,
     a_lock_cmd = None, a_lock_cmd_size = 0,
     a_table = Some [\<lparr>f_cur_state = 0, f_eventActFun = 5, f_next_state = 1\<rparr>, \<lparr>f_cur_state = 1, f_eventActFun = 6, f_next_state = 2\<rparr>],
     a_table_len = 2, a_task_type = 14\<rparr>"

definition example_links :: list_head where
  "example_links = \<lparr>lh_next = 0, lh_prev = 0\<rparr>"

definition example_junk :: task_node where
  "example_junk = \<lparr>t_lock_id = [], t_task_type = 0, t_msg_id = 0, t_lock_cmd = None, t_lock_cmd_size = 0, t_ble_data = None,
     t_ble_data_len = 0, t_mqtt_data = None, t_mqtt_data_len = 0, t_cur_state = 0, t_task_sm_table = None, t_sm_table_len = 0\<rparr>"

definition empty_queues :: queues where
  "empty_queues = \<lparr>q_links = [1 \<mapsto> \<lparr>lh_next = 1, lh_prev = 1\<rparr>, 2 \<mapsto> \<lparr>lh_next = 2, lh_prev = 2\<rparr>], q_tasks = Map.empty,
     doing_task_head = 1, waiting_task_head = 2\<rparr>"

lemma empty_queues_hold: "holds empty_queues [] []" "heads empty_queues = {1, 2}"
  by (simp_all add: holds_def empty_queues_def ring_def link_def nxt_is_def prv_is_def)

lemma example_task: "\<exists>t. new_task example_args b example_junk = Ok t \<and> table_ok t"
  by (cases b) (simp_all add: new_task_def fill_task_def copy_block_def copy_table_def example_args_def example_junk_def table_ok_def
      block_read_def mem_slice_def Let_def)

lemma example_queue:
  "\<exists>s. perform_all [Insert_Tail 10 example_junk l example_args, Insert_Tail 11 example_junk l example_args] empty_queues = Ok s \<and>
     holds s [10, 11] [] \<and> (\<forall>a \<in> {10, 11}. \<forall>t. q_tasks s a = Some t \<longrightarrow> table_ok t)"
proof -
  obtain t where t: "new_task example_args False example_junk = Ok t" "table_ok t" using example_task [of False] by blast
  have "spec_ops [Insert_Tail 10 example_junk l example_args, Insert_Tail 11 example_junk l example_args] (heads empty_queues) ([], []) =
      Some ([10, 11], [])"
    using t(1) by (simp add: empty_queues_hold(2))
  from perform_all_refines [OF empty_queues_hold(1) this]
  obtain s where s: "perform_all [Insert_Tail 10 example_junk l example_args, Insert_Tail 11 example_junk l example_args] empty_queues = Ok s"
    "holds s [10, 11] []" by blast
  moreover have "q_tasks s = [10 \<mapsto> t, 11 \<mapsto> t]"
    using s(1) t(1) by (auto simp: InsertDTaskTail_def on_links_def bindR_eq_Ok malloc_task_def empty_queues_def)
  ultimately show ?thesis using t(2) by auto
qed

lemma log_action_keeps: "keeps_queues (log_action res)"
  unfolding keeps_queues_def
proof (intro allI impI)
  fix k a w t and s :: queues assume "q_tasks s a = Some t"
  then have "s = s\<lparr>q_tasks := (q_tasks s)(a \<mapsto> t)\<rparr>" by (simp add: fun_upd_idem)
  then show "\<exists>r t' w'. log_action res k a s w = Ok (r, s\<lparr>q_tasks := (q_tasks s)(a \<mapsto> t')\<rparr>, w') \<and> t_cur_state t' = t_cur_state t \<and>
      t_task_sm_table t' = t_task_sm_table t \<and> t_sm_table_len t' = t_sm_table_len t"
    unfolding log_action_def by blast
qed

lemma example_task_fields:
  "new_task example_args b example_junk = Ok t \<Longrightarrow> t_cur_state t = 0 \<and> t_sm_table_len t = 2 \<and> t_task_sm_table t = a_table example_args"
  by (cases b) (auto simp: new_task_def fill_task_def copy_block_def copy_table_def example_args_def example_junk_def block_read_def mem_slice_def Let_def)

end
