(* ===== verification/Lock_List.thy ===== *)
theory Lock_List
  imports Linked_List
begin

text \<open>
  Lock objects (\<open>ble/lock.c\<close>) and the list of known locks (\<open>bridge_main/lock_list.c\<close>).  A lock object holds two
  character arrays and pointers to blocks; the blocks are a map from addresses, so that sharing a block and
  freeing it twice are visible.  A lock of the list starts with its list link, so its address is that of the link.
  \<open>printLock\<close> and \<open>printLockList\<close> only print.  The list functions hold the list mutex, so each is one step;
  \<open>malloc\<close> and \<open>calloc\<close> succeed at the address \<open>new\<close>.
\<close>

section \<open>Lock objects\<close>

definition MAX_DEVICE_NAME :: nat where "MAX_DEVICE_NAME = 12 + 1"
definition MAX_DEVICE_ADDR :: nat where "MAX_DEVICE_ADDR = 17 + 1"

record lock_object =
  l_addr :: bytes
  l_addr_len :: i32
  l_name :: bytes
  l_name_len :: i32
  l_paired :: i32
  l_admin_connection :: i32
  l_guest_connection :: i32
  l_has_key :: i32
  l_key :: "addr option"
  l_key_len :: u64
  l_has_token :: i32
  l_token :: "addr option"
  l_token_len :: u64
  l_has_password :: i32
  l_password :: "addr option"
  l_password_size :: u64
  l_has_lock_cmd :: i32
  l_lock_cmd :: "addr option"
  l_lock_cmd_size :: u64
  l_connectionID :: i32

type_synonym blocks = "addr \<rightharpoonup> bytes"

definition free_block :: "addr option \<Rightarrow> blocks \<Rightarrow> blocks res" where
  "free_block p m = (case p of
     None \<Rightarrow> Ok m
   | Some a \<Rightarrow> if m a = None then Fault OutOfBounds else Ok (m(a := None)))"

definition initLock :: "lock_object \<Rightarrow> lock_object" where
  "initLock lock =
     \<lparr>l_addr = replicate MAX_DEVICE_ADDR 0, l_addr_len = 0, l_name = replicate MAX_DEVICE_NAME 0, l_name_len = 0,
      l_paired = 0, l_admin_connection = 0, l_guest_connection = 0, l_has_key = 0, l_key = None, l_key_len = 0,
      l_has_token = 0, l_token = None, l_token_len = 0, l_has_password = 0, l_password = None, l_password_size = 0,
      l_has_lock_cmd = 0, l_lock_cmd = None, l_lock_cmd_size = 0, l_connectionID = 0\<rparr>"

text \<open>\<open>memcpy\<close> of an \<open>int\<close> number of characters into an array at its start.\<close>
definition copy_chars :: "bytes \<Rightarrow> bytes \<Rightarrow> i32 \<Rightarrow> bytes res" where
  "copy_chars to src len =
     (if sint len < 0 then Fault OutOfBounds
      else bindR (mem_slice src 0 (nat (sint len))) (mem_write to 0))"

definition releaseLockKey :: "lock_object \<times> blocks \<Rightarrow> (lock_object \<times> blocks) res" where
  "releaseLockKey s = (case s of (lock, m) \<Rightarrow>
     if l_has_key lock \<noteq> 0 \<and> l_key lock \<noteq> None \<and> l_key_len lock \<noteq> 0
     then bindR (free_block (l_key lock) m) (\<lambda>m. Ok (lock\<lparr>l_has_key := 0, l_key_len := 0, l_key := None\<rparr>, m))
     else Ok (lock, m))"

definition releaseLockPassword :: "lock_object \<times> blocks \<Rightarrow> (lock_object \<times> blocks) res" where
  "releaseLockPassword s = (case s of (lock, m) \<Rightarrow>
     if l_has_password lock \<noteq> 0 \<and> l_password_size lock \<noteq> 0 \<and> l_password lock \<noteq> None
     then bindR (free_block (l_password lock) m)
       (\<lambda>m. Ok (lock\<lparr>l_has_password := 0, l_password_size := 0, l_password := None\<rparr>, m))
     else Ok (lock, m))"

definition releaseLockCmd :: "lock_object \<times> blocks \<Rightarrow> (lock_object \<times> blocks) res" where
  "releaseLockCmd s = (case s of (lock, m) \<Rightarrow>
     if l_has_lock_cmd lock \<noteq> 0 \<and> l_lock_cmd_size lock \<noteq> 0 \<and> l_lock_cmd lock \<noteq> None
     then bindR (free_block (l_lock_cmd lock) m)
       (\<lambda>m. Ok (lock\<lparr>l_has_lock_cmd := 0, l_lock_cmd_size := 0, l_lock_cmd := None\<rparr>, m))
     else Ok (lock, m))"

definition releaseLockToken :: "lock_object \<times> blocks \<Rightarrow> (lock_object \<times> blocks) res" where
  "releaseLockToken s = (case s of (lock, m) \<Rightarrow>
     if l_has_token lock \<noteq> 0 \<and> l_token_len lock \<noteq> 0 \<and> l_token lock \<noteq> None
     then bindR (free_block (l_token lock) m) (\<lambda>m. Ok (lock\<lparr>l_has_token := 0, l_token_len := 0, l_token := None\<rparr>, m))
     else Ok (lock, m))"

text \<open>\<open>calloc(len, 1)\<close> and \<open>memcpy\<close> of an \<open>int\<close> length, which \<open>size_t\<close> extends with its sign.\<close>
definition alloc_copy :: "addr \<Rightarrow> bytes \<Rightarrow> i32 \<Rightarrow> blocks \<Rightarrow> blocks res" where
  "alloc_copy new src len m =
     (if sint len < 0 then Fault OutOfBounds
      else bindR (mem_slice src 0 (nat (sint len))) (\<lambda>d. Ok (m(new \<mapsto> d))))"

definition setLockToken :: "addr \<Rightarrow> bytes \<Rightarrow> i32 \<Rightarrow> lock_object \<times> blocks \<Rightarrow> (lock_object \<times> blocks) res" where
  "setLockToken new token token_len s = bindR (releaseLockToken s) (\<lambda>(lock, m).
     bindR (alloc_copy new token token_len m) (\<lambda>m.
     Ok (lock\<lparr>l_has_token := 1, l_token_len := scast token_len, l_token := Some new\<rparr>, m)))"

definition setLockKey :: "addr \<Rightarrow> bytes \<Rightarrow> i32 \<Rightarrow> lock_object \<times> blocks \<Rightarrow> (lock_object \<times> blocks) res" where
  "setLockKey new key key_len s = bindR (releaseLockKey s) (\<lambda>(lock, m).
     bindR (alloc_copy new key key_len m) (\<lambda>m.
     Ok (lock\<lparr>l_has_key := 1, l_key_len := scast key_len, l_key := Some new\<rparr>, m)))"

definition setLockPassword :: "addr \<Rightarrow> bytes \<Rightarrow> i32 \<Rightarrow> lock_object \<times> blocks \<Rightarrow> (lock_object \<times> blocks) res" where
  "setLockPassword new password password_size s = bindR (releaseLockPassword s) (\<lambda>(lock, m).
     bindR (alloc_copy new password password_size m) (\<lambda>m.
     Ok (lock\<lparr>l_has_password := 1, l_password_size := scast password_size, l_password := Some new\<rparr>, m)))"

text \<open>The old command is not released.\<close>
definition setLockCmd :: "addr \<Rightarrow> bytes \<Rightarrow> u32 \<Rightarrow> lock_object \<times> blocks \<Rightarrow> (lock_object \<times> blocks) res" where
  "setLockCmd new lock_cmd lock_cmd_size s = (case s of (lock, m) \<Rightarrow>
     bindR (mem_slice lock_cmd 0 (unat lock_cmd_size)) (\<lambda>d.
     Ok (lock\<lparr>l_has_lock_cmd := 1, l_lock_cmd_size := ucast lock_cmd_size, l_lock_cmd := Some new\<rparr>, m(new \<mapsto> d))))"

text \<open>The caller's array \<open>out\<close> and length variable, left alone when there is no key.\<close>
definition fetch_block :: "addr option \<Rightarrow> u64 \<Rightarrow> blocks \<Rightarrow> bytes \<Rightarrow> bytes res" where
  "fetch_block p len m out = (case Option.bind p m of
     None \<Rightarrow> if len = 0 then Ok out else Fault OutOfBounds
   | Some d \<Rightarrow> bindR (mem_slice d 0 (unat len)) (mem_write out 0))"

definition getLockKey :: "lock_object \<times> blocks \<Rightarrow> bytes \<Rightarrow> i32 \<Rightarrow> (bytes \<times> i32) res" where
  "getLockKey s out n = (case s of (lock, m) \<Rightarrow>
     if l_has_key lock \<noteq> 0 then bindR (fetch_block (l_key lock) (l_key_len lock) m out) (\<lambda>d. Ok (d, ucast (l_key_len lock)))
     else Ok (out, n))"

definition getLockPassword :: "lock_object \<times> blocks \<Rightarrow> bytes \<Rightarrow> i32 \<Rightarrow> (bytes \<times> i32) res" where
  "getLockPassword s out n = (case s of (lock, m) \<Rightarrow>
     if l_has_password lock \<noteq> 0
     then bindR (fetch_block (l_password lock) (l_password_size lock) m out) (\<lambda>d. Ok (d, ucast (l_password_size lock)))
     else Ok (out, n))"

definition setLockName :: "bytes \<Rightarrow> i32 \<Rightarrow> lock_object \<Rightarrow> lock_object res" where
  "setLockName nm nlen lock = bindR (copy_chars (replicate MAX_DEVICE_NAME 0) nm nlen)
     (\<lambda>d. Ok (lock\<lparr>l_name_len := nlen, l_name := d\<rparr>))"

definition setLockAddr :: "bytes \<Rightarrow> i32 \<Rightarrow> lock_object \<Rightarrow> lock_object res" where
  "setLockAddr ad alen lock = bindR (copy_chars (replicate MAX_DEVICE_ADDR 0) ad alen)
     (\<lambda>d. Ok (lock\<lparr>l_addr_len := alen, l_addr := d\<rparr>))"

text \<open>The four blocks of \<open>from\<close> are not copied: the copy points to the same ones.\<close>
definition copyLock :: "lock_object \<Rightarrow> lock_object \<Rightarrow> blocks \<Rightarrow> (lock_object \<times> blocks) res" where
  "copyLock to src m = (let to = initLock to in
     bindR (copy_chars (l_addr to) (l_addr src) (l_addr_len src)) (\<lambda>a.
     bindR (copy_chars (l_name to) (l_name src) (l_name_len src)) (\<lambda>n.
     let to = to\<lparr>l_addr_len := l_addr_len src, l_name_len := l_name_len src, l_addr := a, l_name := n,
                 l_paired := l_paired src, l_admin_connection := l_admin_connection src,
                 l_guest_connection := l_guest_connection src, l_connectionID := l_connectionID src\<rparr> in
     bindR (if l_has_key src \<noteq> 0 \<and> l_key src \<noteq> None \<and> l_key_len src \<noteq> 0 then
              bindR (releaseLockKey (to, m)) (\<lambda>(to, m).
              Ok (to\<lparr>l_has_key := l_has_key src, l_key_len := l_key_len src, l_key := l_key src\<rparr>, m))
            else Ok (to, m)) (\<lambda>(to, m).
     bindR (if l_has_password src \<noteq> 0 \<and> l_password src \<noteq> None \<and> l_password_size src \<noteq> 0 then
              bindR (releaseLockPassword (to, m)) (\<lambda>(to, m).
              Ok (to\<lparr>l_has_password := l_has_password src, l_password_size := l_password_size src, l_password := l_password src\<rparr>, m))
            else Ok (to, m)) (\<lambda>(to, m).
     bindR (if l_has_lock_cmd src \<noteq> 0 \<and> l_lock_cmd src \<noteq> None \<and> l_lock_cmd_size src \<noteq> 0 then
              bindR (releaseLockCmd (to, m)) (\<lambda>(to, m).
              Ok (to\<lparr>l_has_lock_cmd := l_has_lock_cmd src, l_lock_cmd_size := l_lock_cmd_size src, l_lock_cmd := l_lock_cmd src\<rparr>, m))
            else Ok (to, m)) (\<lambda>(to, m).
     if l_has_token src \<noteq> 0 \<and> l_token src \<noteq> None \<and> l_token_len src \<noteq> 0 then
       bindR (releaseLockToken (to, m)) (\<lambda>(to, m).
       Ok (to\<lparr>l_has_token := l_has_token src, l_token_len := l_token_len src, l_token := l_token src\<rparr>, m))
     else Ok (to, m)))))))"

text \<open>\<open>releaseLock\<close> up to the free of the object itself.\<close>
definition releaseLock :: "lock_object \<times> blocks \<Rightarrow> blocks res" where
  "releaseLock s =
     bindR (releaseLockKey s) (\<lambda>s. bindR (releaseLockPassword s) (\<lambda>s. bindR (releaseLockCmd s) (\<lambda>s.
     bindR (releaseLockToken s) (\<lambda>(lock, m). Ok m))))"

text \<open>\<open>getLock\<close>: what \<open>*pp_lock\<close> points to is released, then it points to a block with some contents.\<close>
definition getLock :: "lock_object \<Rightarrow> lock_object option option \<times> blocks \<Rightarrow> (nat \<times> lock_object option option \<times> blocks) res" where
  "getLock fresh s = (case s of
     (None, m) \<Rightarrow> Ok (1, None, m)
   | (Some None, m) \<Rightarrow> Ok (0, Some (Some fresh), m)
   | (Some (Some lock), m) \<Rightarrow> bindR (releaseLock (lock, m)) (\<lambda>m. Ok (0, Some (Some fresh), m)))"

definition isLockPaired :: "lock_object \<Rightarrow> i32" where
  "isLockPaired lock = l_paired lock"

definition isLockAdmin :: "lock_object \<Rightarrow> i32" where
  "isLockAdmin lock = l_admin_connection lock"

definition setLockPaired :: "lock_object \<Rightarrow> lock_object" where
  "setLockPaired lock = lock\<lparr>l_paired := 1\<rparr>"

definition setLockAdminConnection :: "lock_object \<Rightarrow> i32 \<Rightarrow> lock_object" where
  "setLockAdminConnection lock admin_connection = lock\<lparr>l_admin_connection := admin_connection\<rparr>"

section \<open>The list of locks\<close>

record lock_list =
  ll_links :: list_store
  ll_locks :: "addr \<rightharpoonup> lock_object"
  ll_blocks :: blocks
  locks_head :: addr

definition lock_at :: "lock_list \<Rightarrow> addr \<Rightarrow> lock_object res" where
  "lock_at s a = (case ll_locks s a of None \<Rightarrow> Fault OutOfBounds | Some l \<Rightarrow> Ok l)"

definition isLocksListEmpty :: "lock_list \<Rightarrow> bool res" where
  "isLocksListEmpty s = list_empty (locks_head s) (ll_links s)"

text \<open>\<open>copyLock\<close> clears the link together with the rest of the new object.\<close>
definition insertLock :: "addr \<Rightarrow> lock_object \<Rightarrow> lock_object \<Rightarrow> lock_list \<Rightarrow> lock_list res" where
  "insertLock new junk lock s = bindR (copyLock junk lock (ll_blocks s)) (\<lambda>(new_lock, m).
     let links = (ll_links s)(new \<mapsto> \<lparr>lh_next = 0, lh_prev = 0\<rparr>) in
     bindR (list_add new (locks_head s) links) (\<lambda>links.
     Ok (s\<lparr>ll_links := links, ll_locks := (ll_locks s)(new \<mapsto> new_lock), ll_blocks := m\<rparr>)))"

text \<open>\<open>strncmp\<close> is 0: at most \<open>n\<close> characters are compared, up to a terminating zero.\<close>
fun strncmp_zero :: "nat \<Rightarrow> bytes \<Rightarrow> bytes \<Rightarrow> bool res" where
  "strncmp_zero 0 xs ys = Ok True"
| "strncmp_zero (Suc n) (x # xs) (y # ys) =
     (if x \<noteq> y then Ok False else if x = 0 then Ok True else strncmp_zero n xs ys)"
| "strncmp_zero (Suc n) xs ys = Fault OutOfBounds"

definition findLockByAddr :: "nat \<Rightarrow> bytes \<Rightarrow> lock_list \<Rightarrow> addr option res" where
  "findLockByAddr n addr s = list_for_each n (locks_head s) (ll_links s) (\<lambda>pos.
     bindR (lock_at s pos) (\<lambda>pnode.
     bindR (strncmp_zero (unat (scast (l_addr_len pnode) :: u64)) (l_addr pnode) addr) (\<lambda>e.
     Ok (if e then Some pos else None))))"

definition findLockByName :: "nat \<Rightarrow> bytes \<Rightarrow> lock_list \<Rightarrow> addr option res" where
  "findLockByName n name s = list_for_each n (locks_head s) (ll_links s) (\<lambda>pos.
     bindR (lock_at s pos) (\<lambda>pnode.
     bindR (strncmp_zero (unat (scast (l_name_len pnode) :: u64)) (l_name pnode) name) (\<lambda>e.
     Ok (if e then Some pos else None))))"

definition DeleteTask :: "addr \<Rightarrow> lock_list \<Rightarrow> (addr option \<times> lock_list) res" where
  "DeleteTask lock s = bindR (list_del lock (ll_links s)) (\<lambda>links.
     Ok (None, s\<lparr>ll_links := links(lock := None), ll_locks := (ll_locks s)(lock := None)\<rparr>))"

section \<open>Objects\<close>

definition lock_ok :: "lock_object \<Rightarrow> bool" where
  "lock_ok l \<longleftrightarrow> length (l_addr l) = MAX_DEVICE_ADDR \<and> length (l_name l) = MAX_DEVICE_NAME \<and>
     0 \<le> sint (l_addr_len l) \<and> sint (l_addr_len l) \<le> int MAX_DEVICE_ADDR \<and>
     0 \<le> sint (l_name_len l) \<and> sint (l_name_len l) \<le> int MAX_DEVICE_NAME"

lemma copy_chars_Ok:
  assumes "length src = length to" "0 \<le> sint len" "sint len \<le> int (length to)"
  shows "copy_chars to src len = Ok (take (nat (sint len)) src @ drop (nat (sint len)) to)"
  using assms by (simp add: copy_chars_def mem_slice_def mem_write_def)

text \<open>What \<open>copyLock\<close> leaves in the copy: a block only with its flag, pointer and size.\<close>
definition copied_lock :: "lock_object \<Rightarrow> lock_object" where
  "copied_lock src = (let
     k = (l_has_key src \<noteq> 0 \<and> l_key src \<noteq> None \<and> l_key_len src \<noteq> 0);
     p = (l_has_password src \<noteq> 0 \<and> l_password src \<noteq> None \<and> l_password_size src \<noteq> 0);
     c = (l_has_lock_cmd src \<noteq> 0 \<and> l_lock_cmd src \<noteq> None \<and> l_lock_cmd_size src \<noteq> 0);
     t = (l_has_token src \<noteq> 0 \<and> l_token src \<noteq> None \<and> l_token_len src \<noteq> 0) in
     \<lparr>l_addr = take (nat (sint (l_addr_len src))) (l_addr src) @ replicate (MAX_DEVICE_ADDR - nat (sint (l_addr_len src))) 0,
      l_addr_len = l_addr_len src,
      l_name = take (nat (sint (l_name_len src))) (l_name src) @ replicate (MAX_DEVICE_NAME - nat (sint (l_name_len src))) 0,
      l_name_len = l_name_len src, l_paired = l_paired src, l_admin_connection = l_admin_connection src,
      l_guest_connection = l_guest_connection src,
      l_has_key = (if k then l_has_key src else 0), l_key = (if k then l_key src else None), l_key_len = (if k then l_key_len src else 0),
      l_has_token = (if t then l_has_token src else 0), l_token = (if t then l_token src else None),
      l_token_len = (if t then l_token_len src else 0),
      l_has_password = (if p then l_has_password src else 0), l_password = (if p then l_password src else None),
      l_password_size = (if p then l_password_size src else 0),
      l_has_lock_cmd = (if c then l_has_lock_cmd src else 0), l_lock_cmd = (if c then l_lock_cmd src else None),
      l_lock_cmd_size = (if c then l_lock_cmd_size src else 0), l_connectionID = l_connectionID src\<rparr>)"

lemma copyLock_copies:
  assumes "lock_ok src"
  shows "copyLock to src m = Ok (copied_lock src, m)"
proof -
  have "copy_chars (replicate MAX_DEVICE_ADDR 0) (l_addr src) (l_addr_len src) =
      Ok (take (nat (sint (l_addr_len src))) (l_addr src) @ replicate (MAX_DEVICE_ADDR - nat (sint (l_addr_len src))) 0)"
    "copy_chars (replicate MAX_DEVICE_NAME 0) (l_name src) (l_name_len src) =
      Ok (take (nat (sint (l_name_len src))) (l_name src) @ replicate (MAX_DEVICE_NAME - nat (sint (l_name_len src))) 0)"
    using assms by (simp_all add: lock_ok_def copy_chars_Ok)
  then show ?thesis
    by (simp add: copyLock_def initLock_def copied_lock_def releaseLockKey_def releaseLockPassword_def releaseLockCmd_def
        releaseLockToken_def Let_def)
qed

lemma copied_lock_simps:
  "l_addr_len (copied_lock l) = l_addr_len l" "l_name_len (copied_lock l) = l_name_len l"
  "l_has_key l \<noteq> 0 \<Longrightarrow> l_key l \<noteq> None \<Longrightarrow> l_key_len l \<noteq> 0 \<Longrightarrow>
    l_has_key (copied_lock l) = l_has_key l \<and> l_key (copied_lock l) = l_key l \<and> l_key_len (copied_lock l) = l_key_len l"
  by (simp_all add: copied_lock_def Let_def)

lemma copied_lock_ok: "lock_ok l \<Longrightarrow> lock_ok (copied_lock l)"
  by (auto simp: lock_ok_def copied_lock_def Let_def min_def)

lemma copied_lock_take:
  assumes "lock_ok l"
  shows "take (nat (sint (l_addr_len l))) (l_addr (copied_lock l)) = take (nat (sint (l_addr_len l))) (l_addr l)"
    "take (nat (sint (l_name_len l))) (l_name (copied_lock l)) = take (nat (sint (l_name_len l))) (l_name l)"
  using assms by (auto simp: lock_ok_def copied_lock_def Let_def min_def)

text \<open>A key set is the key read.\<close>
lemma set_get_key:
  assumes key: "length key < 2 ^ 31" "length key \<le> length out" and r: "releaseLockKey (lock, m) = Ok (lock1, m1)"
  shows "\<exists>s'. setLockKey new key (word_of_nat (length key)) (lock, m) = Ok s' \<and>
    getLockKey s' out n = Ok (key @ drop (length key) out, word_of_nat (length key))"
proof -
  have len: "sint (word_of_nat (length key) :: i32) = int (length key)" "unat (word_of_nat (length key) :: i32) = length key"
    using small_int_word [OF key(1)] by simp_all
  have u: "unat (scast (word_of_nat (length key) :: i32) :: u64) = length key" by (rule small_word_ext [OF key(1)])
  have c: "(ucast (scast (word_of_nat (length key) :: i32) :: u64) :: i32) = word_of_nat (length key)"
    using key(1) len(2) by (simp add: word_unat_eq_iff unat_ucast_take_bit u take_bit_nat_eq_self)
  show ?thesis
    using r key len u c
    by (simp add: setLockKey_def getLockKey_def alloc_copy_def fetch_block_def mem_slice_def mem_write_def split: prod.splits)
qed

text \<open>Freed blocks stay freed while an object is released.\<close>
lemma free_block_mono: "free_block p m = Ok m' \<Longrightarrow> m a = None \<Longrightarrow> m' a = None"
  by (auto simp: free_block_def split: option.splits if_splits)

lemma release_copy_again:
  assumes key: "l_has_key src \<noteq> 0" "l_key src = Some a" "l_key_len src \<noteq> 0" and ok: "lock_ok src"
    and r: "releaseLock (src, m) = Ok m1"
  shows "\<exists>dup. copyLock to src m = Ok (dup, m) \<and> releaseLock (dup, m1) = Fault OutOfBounds"
proof -
  obtain s1 where s1: "releaseLockKey (src, m) = Ok s1" using r by (auto simp: releaseLock_def bindR_eq_Ok)
  then have "snd s1 a = None" using key by (auto simp: releaseLockKey_def free_block_def bindR_eq_Ok split: if_splits)
  then have "m1 a = None"
    using r s1 free_block_mono
    by (fastforce simp: releaseLock_def releaseLockPassword_def releaseLockCmd_def releaseLockToken_def bindR_eq_Ok split: if_splits prod.splits)
  then have "releaseLockKey (copied_lock src, m1) = Fault OutOfBounds"
    using copied_lock_simps(3) [of src] key by (simp add: releaseLockKey_def free_block_def)
  then show ?thesis using copyLock_copies [OF ok] by (simp add: releaseLock_def)
qed


section \<open>The list\<close>

definition holds_locks :: "lock_list \<Rightarrow> addr list \<Rightarrow> bool" where
  "holds_locks s xs \<longleftrightarrow> ring (ll_links s) (locks_head s) xs \<and> (\<forall>a \<in> set xs. \<exists>l. ll_locks s a = Some l \<and> lock_ok l)"

text \<open>The part of an array that a comparison of \<open>n\<close> characters sees.\<close>
definition c_prefix :: "nat \<Rightarrow> bytes \<Rightarrow> bytes" where
  "c_prefix n xs = takeWhile (\<lambda>c. c \<noteq> 0) (take n xs)"

lemma strncmp_zero_prefix:
  "n \<le> length xs \<Longrightarrow> n \<le> length ys \<Longrightarrow> strncmp_zero n xs ys = Ok (c_prefix n xs = c_prefix n ys)"
  by (induction n xs ys rule: strncmp_zero.induct) (auto simp: c_prefix_def)

text \<open>The same against a text with a terminating zero, which may be shorter than the array.\<close>
lemma strncmp_zero_text:
  "n \<le> length xs \<Longrightarrow> 0 \<in> set ys \<Longrightarrow> strncmp_zero n xs ys = Ok (c_prefix n xs = c_prefix n ys)"
  by (induction n xs ys rule: strncmp_zero.induct) (auto simp: c_prefix_def)

definition addr_matches :: "lock_list \<Rightarrow> bytes \<Rightarrow> addr \<Rightarrow> bool" where
  "addr_matches s addr a = (case ll_locks s a of None \<Rightarrow> False
     | Some l \<Rightarrow> c_prefix (nat (sint (l_addr_len l))) (l_addr l) = c_prefix (nat (sint (l_addr_len l))) addr)"

definition name_matches :: "lock_list \<Rightarrow> bytes \<Rightarrow> addr \<Rightarrow> bool" where
  "name_matches s name a = (case ll_locks s a of None \<Rightarrow> False
     | Some l \<Rightarrow> c_prefix (nat (sint (l_name_len l))) (l_name l) = c_prefix (nat (sint (l_name_len l))) name)"

lemma unat_ext_nonneg: "0 \<le> sint (w :: i32) \<Longrightarrow> unat (scast w :: u64) = nat (sint w)"
proof -
  assume w: "0 \<le> sint w"
  have b: "nat (sint w) < 2 ^ 31" using sint_lt [of w] w by simp
  have "word_of_nat (nat (sint w)) = (of_int (int (nat (sint w))) :: i32)" by (rule of_int_of_nat_eq [symmetric])
  also have "\<dots> = w" using w by (simp only: int_nat_eq if_True of_int_sint scast_id)
  finally have "word_of_nat (nat (sint w)) = w" .
  then show ?thesis using small_word_ext [OF b] by simp
qed

lemma first_result_find:
  assumes "\<forall>a \<in> set xs. body a = Ok (if P a then Some a else None)"
  shows "first_result body xs = Ok (find P xs)"
  using assms by (induction xs) auto

text \<open>A search gives the first lock of the list that matches.\<close>
lemma findLockByAddr_finds:
  assumes h: "holds_locks s xs" and n: "length xs \<le> n" and a: "length addr = MAX_DEVICE_ADDR"
  shows "findLockByAddr n addr s = Ok (find (addr_matches s addr) xs)"
proof -
  have "\<forall>p \<in> set xs. bindR (lock_at s p) (\<lambda>pnode.
     bindR (strncmp_zero (unat (scast (l_addr_len pnode) :: u64)) (l_addr pnode) addr) (\<lambda>e.
     Ok (if e then Some p else None))) = Ok (if addr_matches s addr p then Some p else None)"
    using h a by (auto simp: holds_locks_def lock_at_def lock_ok_def unat_ext_nonneg strncmp_zero_prefix addr_matches_def)
  then show ?thesis
    using h n first_result_find unfolding findLockByAddr_def holds_locks_def by (subst list_for_each_ring [of _ _ xs]) auto
qed

lemma findLockByName_finds:
  assumes h: "holds_locks s xs" and n: "length xs \<le> n" and a: "length name = MAX_DEVICE_NAME"
  shows "findLockByName n name s = Ok (find (name_matches s name) xs)"
proof -
  have "\<forall>p \<in> set xs. bindR (lock_at s p) (\<lambda>pnode.
     bindR (strncmp_zero (unat (scast (l_name_len pnode) :: u64)) (l_name pnode) name) (\<lambda>e.
     Ok (if e then Some p else None))) = Ok (if name_matches s name p then Some p else None)"
    using h a by (auto simp: holds_locks_def lock_at_def lock_ok_def unat_ext_nonneg strncmp_zero_prefix name_matches_def)
  then show ?thesis
    using h n first_result_find unfolding findLockByName_def holds_locks_def by (subst list_for_each_ring [of _ _ xs]) auto
qed

lemma findLockByName_text:
  assumes h: "holds_locks s xs" and n: "length xs \<le> n" and z: "0 \<in> set name"
  shows "findLockByName n name s = Ok (find (name_matches s name) xs)"
proof -
  have "\<forall>p \<in> set xs. bindR (lock_at s p) (\<lambda>pnode.
     bindR (strncmp_zero (unat (scast (l_name_len pnode) :: u64)) (l_name pnode) name) (\<lambda>e.
     Ok (if e then Some p else None))) = Ok (if name_matches s name p then Some p else None)"
    using h z by (auto simp: holds_locks_def lock_at_def lock_ok_def unat_ext_nonneg strncmp_zero_text name_matches_def)
  then show ?thesis
    using h n first_result_find unfolding findLockByName_def holds_locks_def by (subst list_for_each_ring [of _ _ xs]) auto
qed

lemma insertLock_inserts:
  assumes h: "holds_locks s xs" and new: "new \<notin> set (locks_head s # xs)" and ok: "lock_ok lock"
  shows "\<exists>s'. insertLock new junk lock s = Ok s' \<and> holds_locks s' (new # xs) \<and> locks_head s' = locks_head s \<and>
    ll_locks s' = (ll_locks s)(new \<mapsto> copied_lock lock) \<and> ll_blocks s' = ll_blocks s"
proof -
  let ?m = "(ll_links s)(new \<mapsto> \<lparr>lh_next = 0, lh_prev = 0\<rparr>)"
  have r: "ring ?m (locks_head s) xs" by (rule ring_frame [of "ll_links s"]) (use h new in \<open>auto simp: holds_locks_def\<close>)
  obtain m' where m': "list_add new (locks_head s) ?m = Ok m'" "ring m' (locks_head s) (new # xs)"
    using list_add_ring [OF r new] by auto
  then show ?thesis
    using h new copied_lock_ok [OF ok] copyLock_copies [OF ok]
    by (auto simp: insertLock_def holds_locks_def Let_def)
qed

lemma DeleteTask_deletes:
  assumes h: "holds_locks s xs" and a: "a \<in> set xs"
  shows "\<exists>s'. DeleteTask a s = Ok (None, s') \<and> holds_locks s' (remove1 a xs)"
proof -
  have r: "ring (ll_links s) (locks_head s) xs" using h by (simp add: holds_locks_def)
  obtain m' where m': "list_del a (ll_links s) = Ok m'" "ring m' (locks_head s) (remove1 a xs)"
    using list_del_ring [OF r a] by blast
  have d: "distinct (locks_head s # xs)" using r by (simp add: ring_def)
  have "ring (m'(a := None)) (locks_head s) (remove1 a xs)"
    by (rule ring_frame [OF m'(2)]) (use d a in auto)
  moreover have "\<forall>x \<in> set (remove1 a xs). \<exists>l. ((ll_locks s)(a := None)) x = Some l \<and> lock_ok l"
    using h d by (auto simp: holds_locks_def)
  ultimately show ?thesis using m'(1) by (simp add: DeleteTask_def holds_locks_def)
qed

text \<open>The lock inserted last is found under its own address; a lock without an address under every address.\<close>
text \<open>A copy field by field: the characters up to the length, zeros behind them, flags and numbers as they are, and of the four
  blocks flag, pointer and size together or not at all.  The pointers are shared with the original.\<close>
definition carried :: "i32 \<Rightarrow> addr option \<Rightarrow> u64 \<Rightarrow> i32 \<times> addr option \<times> u64" where
  "carried has p n = (if has \<noteq> 0 \<and> p \<noteq> None \<and> n \<noteq> 0 then (has, p, n) else (0, None, 0))"

definition copy_of :: "lock_object \<Rightarrow> lock_object \<Rightarrow> bool" where
  "copy_of l c \<longleftrightarrow>
     l_addr_len c = l_addr_len l \<and> l_addr c = take (nat (sint (l_addr_len l))) (l_addr l) @ replicate (18 - nat (sint (l_addr_len l))) 0 \<and>
     l_name_len c = l_name_len l \<and> l_name c = take (nat (sint (l_name_len l))) (l_name l) @ replicate (13 - nat (sint (l_name_len l))) 0 \<and>
     l_paired c = l_paired l \<and> l_admin_connection c = l_admin_connection l \<and> l_guest_connection c = l_guest_connection l \<and>
     l_connectionID c = l_connectionID l \<and>
     (l_has_key c, l_key c, l_key_len c) = carried (l_has_key l) (l_key l) (l_key_len l) \<and>
     (l_has_token c, l_token c, l_token_len c) = carried (l_has_token l) (l_token l) (l_token_len l) \<and>
     (l_has_password c, l_password c, l_password_size c) = carried (l_has_password l) (l_password l) (l_password_size l) \<and>
     (l_has_lock_cmd c, l_lock_cmd c, l_lock_cmd_size c) = carried (l_has_lock_cmd l) (l_lock_cmd l) (l_lock_cmd_size l)"

lemma copied_lock_copy: "copy_of l (copied_lock l)"
  by (simp add: copy_of_def copied_lock_def carried_def MAX_DEVICE_ADDR_def MAX_DEVICE_NAME_def Let_def)

lemma find_inserted:
  assumes h: "holds_locks s xs" and new: "new \<notin> set (locks_head s # xs)" and ok: "lock_ok lock" and n: "length xs < n"
  shows "\<exists>s' c. insertLock new junk lock s = Ok s' \<and> holds_locks s' (new # xs) \<and> ll_blocks s' = ll_blocks s \<and>
    ll_locks s' = (ll_locks s)(new \<mapsto> c) \<and> copy_of lock c \<and>
    (\<forall>addr. length addr = MAX_DEVICE_ADDR \<longrightarrow> findLockByAddr n addr s' = Ok (find (addr_matches s' addr) (new # xs))) \<and>
    (\<forall>name. length name = MAX_DEVICE_NAME \<longrightarrow> findLockByName n name s' = Ok (find (name_matches s' name) (new # xs))) \<and>
    findLockByAddr n (l_addr lock) s' = Ok (Some new) \<and> findLockByName n (l_name lock) s' = Ok (Some new) \<and>
    (l_addr_len lock = 0 \<longrightarrow> (\<forall>addr. length addr = MAX_DEVICE_ADDR \<longrightarrow> findLockByAddr n addr s' = Ok (Some new)))"
proof -
  obtain s' where s': "insertLock new junk lock s = Ok s'" "holds_locks s' (new # xs)"
    "ll_locks s' = (ll_locks s)(new \<mapsto> copied_lock lock)" "ll_blocks s' = ll_blocks s"
    using insertLock_inserts [OF h new ok] by blast
  have len: "length (new # xs) \<le> n" "length (l_addr lock) = MAX_DEVICE_ADDR" "length (l_name lock) = MAX_DEVICE_NAME"
    using n ok by (simp_all add: lock_ok_def)
  have m: "addr_matches s' (l_addr lock) new" "name_matches s' (l_name lock) new"
    "l_addr_len lock = 0 \<Longrightarrow> addr_matches s' addr new" for addr
    using s'(3) copied_lock_take [OF ok] by (simp_all add: addr_matches_def name_matches_def c_prefix_def copied_lock_simps)
  note f = findLockByAddr_finds [OF s'(2) len(1)] findLockByName_finds [OF s'(2) len(1)]
  show ?thesis
  proof (intro exI conjI)
    show "copy_of lock (copied_lock lock)" by (rule copied_lock_copy)
  qed (use s' f m len in auto)
qed

section \<open>A list to try\<close>

definition example_lock_object :: lock_object where
  "example_lock_object = (initLock undefined)\<lparr>l_addr := [65, 66] @ replicate 16 0, l_addr_len := 2, l_has_key := 1, l_key := Some 30, l_key_len := 1\<rparr>"

definition empty_lock_list :: lock_list where
  "empty_lock_list = \<lparr>ll_links = [1 \<mapsto> \<lparr>lh_next = 1, lh_prev = 1\<rparr>], ll_locks = Map.empty, ll_blocks = [30 \<mapsto> [7]], locks_head = 1\<rparr>"

lemma example_locks:
  "lock_ok example_lock_object" "holds_locks empty_lock_list []" "locks_head empty_lock_list = 1"
  "releaseLock (example_lock_object, [30 \<mapsto> [7]]) = Ok Map.empty"
  by (simp_all add: lock_ok_def example_lock_object_def initLock_def MAX_DEVICE_ADDR_def MAX_DEVICE_NAME_def holds_locks_def
      empty_lock_list_def ring_def link_def nxt_is_def prv_is_def releaseLock_def releaseLockKey_def releaseLockPassword_def
      releaseLockCmd_def releaseLockToken_def free_block_def)

end
