(* ===== verification/Discovery.thy ===== *)
theory Discovery
  imports Lock_List
begin

text \<open>
  Device discovery: the two callbacks of a scan in \<open>ble/ble_discover.c\<close> and the result array of \<open>bridge_main/bleData.c\<close>
  they fill.  A device is what the adapter reports, an address and perhaps a name, both texts of C without their final zero
  byte.  The regular expression \<open>^IGM\<close> is the test of the first three characters.

  \<open>blePutResults\<close> computes where an element goes on a pointer to \<open>ble_guest_result_t\<close>, though its number of bytes is already
  that of the elements before it: the element number \<open>n\<close> goes to the place of number \<open>n * S\<close>, where \<open>S\<close> is the size of that struct
  (40 bytes with pointers of 64 bits, 32 with pointers of 32).
\<close>

section \<open>Results\<close>

record ble_results =
  scan_result :: "lock_object option list"
  ble_result_len :: nat
  n_of_result :: nat

definition bleInitResults :: "nat \<Rightarrow> ble_results" where
  "bleInitResults n_results = \<lparr>scan_result = replicate n_results None, ble_result_len = n_results, n_of_result = 0\<rparr>"

definition result_place :: "nat \<Rightarrow> nat \<Rightarrow> nat" where
  "result_place S n = n * S"

definition blePutResults :: "nat \<Rightarrow> lock_object \<Rightarrow> ble_results \<Rightarrow> ble_results res" where
  "blePutResults S lock d =
     (let i = result_place S (n_of_result d) in
      if i < length (scan_result d)
      then Ok (d\<lparr>scan_result := (scan_result d)[i := Some lock], n_of_result := n_of_result d + 1\<rparr>)
      else Fault OutOfBounds)"

definition bleGetNumsOfResult :: "ble_results \<Rightarrow> nat" where
  "bleGetNumsOfResult d = n_of_result d"

definition bleGetNResult :: "nat \<Rightarrow> ble_results \<Rightarrow> nat \<Rightarrow> lock_object option res" where
  "bleGetNResult S d n =
     (let i = result_place S n in if i < length (scan_result d) then Ok (scan_result d ! i) else Fault OutOfBounds)"

section \<open>The callbacks\<close>

type_synonym device = "bytes \<times> bytes option"

definition matches_IGM :: "bytes \<Rightarrow> bool" where
  "matches_IGM name \<longleftrightarrow> take 3 name = [73, 71, 77]"

text \<open>The local \<open>nearby_lock\<close>: \<open>initLock\<close>, \<open>setLockName\<close> and \<open>setLockAddr\<close> with the lengths of the texts.\<close>
definition nearby_lock :: "lock_object \<Rightarrow> bytes \<Rightarrow> bytes \<Rightarrow> lock_object res" where
  "nearby_lock fresh addr name =
     bindR (setLockName name (word_of_nat (length name)) (initLock fresh)) (setLockAddr addr (word_of_nat (length addr)))"

definition ble_discovered_device :: "nat \<Rightarrow> lock_object \<Rightarrow> device \<Rightarrow> ble_results \<Rightarrow> ble_results res" where
  "ble_discovered_device S fresh dev d = (case dev of
     (addr, None) \<Rightarrow> Ok d
   | (addr, Some name) \<Rightarrow>
       if matches_IGM name then bindR (nearby_lock fresh addr name) (\<lambda>lock. blePutResults S lock d) else Ok d)"

text \<open>\<open>new\<close> is the address of the object that \<open>insertLock\<close> allots, if it comes to that; \<open>n\<close> bounds the search.\<close>
definition continueDiscoveredDevice :: "nat \<Rightarrow> lock_object \<Rightarrow> addr \<Rightarrow> device \<Rightarrow> lock_list \<Rightarrow> lock_list res" where
  "continueDiscoveredDevice n fresh new dev s = (case dev of
     (addr, None) \<Rightarrow> Ok s
   | (addr, Some name) \<Rightarrow>
       if matches_IGM name then
         bindR (findLockByName n (name @ [0]) s) (\<lambda>lock. case lock of
           Some l \<Rightarrow> Ok s
         | None \<Rightarrow> bindR (nearby_lock fresh addr name) (\<lambda>nearby. insertLock new fresh nearby s))
       else Ok s)"

fun scan :: "('d \<Rightarrow> 's \<Rightarrow> 's res) \<Rightarrow> 'd list \<Rightarrow> 's \<Rightarrow> 's res" where
  "scan callback [] s = Ok s"
| "scan callback (d # ds) s = bindR (callback d s) (scan callback ds)"

section \<open>One device\<close>

text \<open>The name and the address fit their arrays, and the name holds no zero byte.\<close>
definition device_fits :: "device \<Rightarrow> bool" where
  "device_fits dev \<longleftrightarrow> length (fst dev) \<le> MAX_DEVICE_ADDR \<and>
     (\<forall>name. snd dev = Some name \<longrightarrow> length name \<le> MAX_DEVICE_NAME \<and> 0 \<notin> set name)"

lemma nearby_lock_Ok:
  assumes "length name \<le> MAX_DEVICE_NAME" "length addr \<le> MAX_DEVICE_ADDR"
  shows "\<exists>l. nearby_lock fresh addr name = Ok l \<and> lock_ok l \<and> sint (l_name_len l) = int (length name) \<and>
    take (length name) (l_name l) = name \<and> sint (l_addr_len l) = int (length addr) \<and> take (length addr) (l_addr l) = addr"
proof -
  have "length name < 2 ^ 31" "length addr < 2 ^ 31" using assms by (simp_all add: MAX_DEVICE_NAME_def MAX_DEVICE_ADDR_def)
  from small_int_word(1) [OF this(1)] small_int_word(1) [OF this(2)]
  have n: "sint (word_of_nat (length name) :: i32) = int (length name)" "sint (word_of_nat (length addr) :: i32) = int (length addr)" .
  then show ?thesis
    using assms by (simp add: nearby_lock_def setLockName_def setLockAddr_def copy_chars_def mem_slice_def mem_write_def initLock_def lock_ok_def)
qed

text \<open>A name from the radio that is longer than the array in the local object is copied over what follows it.\<close>
lemma nearby_lock_overflow:
  assumes "MAX_DEVICE_NAME < length name" "length name < 2 ^ 31"
  shows "nearby_lock fresh addr name = Fault OutOfBounds"
  using assms small_int_word(1) [OF assms(2)]
  by (simp add: nearby_lock_def setLockName_def copy_chars_def mem_slice_def mem_write_def)

lemma long_name_overflows:
  assumes "matches_IGM name" "MAX_DEVICE_NAME < length name" "length name < 2 ^ 31"
  shows "findLockByName n (name @ [0]) s = Ok None \<Longrightarrow> continueDiscoveredDevice n fresh new (addr, Some name) s = Fault OutOfBounds"
    "ble_discovered_device S fresh (addr, Some name) d = Fault OutOfBounds"
  using assms nearby_lock_overflow [OF assms(2,3)] by (simp_all add: continueDiscoveredDevice_def ble_discovered_device_def)

section \<open>A scan into the array\<close>

lemma scan_first:
  assumes "device_fits (addr, Some name)" "matches_IGM name" "n_of_result d = 0" "0 < length (scan_result d)"
  shows "\<exists>lock. ble_discovered_device S fresh (addr, Some name) d = Ok (d\<lparr>scan_result := (scan_result d)[0 := Some lock], n_of_result := 1\<rparr>) \<and>
    nearby_lock fresh addr name = Ok lock"
proof -
  have "length name \<le> MAX_DEVICE_NAME" "length addr \<le> MAX_DEVICE_ADDR" using assms(1) by (simp_all add: device_fits_def)
  from nearby_lock_Ok [OF this, of fresh] obtain l where "nearby_lock fresh addr name = Ok l" by blast
  then show ?thesis using assms(2-4) by (simp add: ble_discovered_device_def blePutResults_def result_place_def)
qed

text \<open>With an array no longer than the struct has bytes the second lock found is written behind it.\<close>
lemma scan_second:
  assumes "device_fits (addr, Some name)" "matches_IGM name" "0 < n_of_result d" "length (scan_result d) \<le> S"
  shows "ble_discovered_device S fresh (addr, Some name) d = Fault OutOfBounds"
proof -
  have "length name \<le> MAX_DEVICE_NAME" "length addr \<le> MAX_DEVICE_ADDR" using assms(1) by (simp_all add: device_fits_def)
  from nearby_lock_Ok [OF this, of fresh] obtain l where l: "nearby_lock fresh addr name = Ok l" by blast
  have "S \<le> n_of_result d * S" using assms(3) by (cases "n_of_result d") simp_all
  then have "\<not> n_of_result d * S < length (scan_result d)" using assms(4) by linarith
  then show ?thesis using assms(2) l by (simp add: ble_discovered_device_def blePutResults_def result_place_def)
qed

section \<open>A scan into the list\<close>

text \<open>A name is known when a search for it finds a lock.\<close>
definition known :: "lock_list \<Rightarrow> addr list \<Rightarrow> bytes \<Rightarrow> bool" where
  "known s xs name \<longleftrightarrow> find (name_matches s (name @ [0])) xs \<noteq> None"

lemma known_ex: "known s xs name \<longleftrightarrow> (\<exists>a \<in> set xs. name_matches s (name @ [0]) a)"
  by (auto simp: known_def find_None_iff)

lemma device_listed:
  assumes h: "holds_locks s xs" and n: "length xs \<le> n" and new: "new \<notin> set (locks_head s # xs)" and fits: "device_fits dev"
  shows "\<exists>s' xs'. continueDiscoveredDevice n fresh new dev s = Ok s' \<and> holds_locks s' xs' \<and> locks_head s' = locks_head s \<and>
    (xs' = xs \<or> xs' = new # xs) \<and> (\<forall>name. known s xs name \<longrightarrow> known s' xs' name) \<and>
    (\<forall>name. snd dev = Some name \<and> matches_IGM name \<longrightarrow> known s' xs' name \<and> (known s xs name \<longrightarrow> s' = s \<and> xs' = xs))"
proof (cases "\<exists>addr name. dev = (addr, Some name) \<and> matches_IGM name \<and> \<not> known s xs name")
  case False
  have "continueDiscoveredDevice n fresh new dev s = Ok s"
    using False findLockByName_text [OF h n] by (cases dev) (auto simp: continueDiscoveredDevice_def known_def split: option.splits)
  then show ?thesis using False h by (cases dev) auto
next
  case True
  then obtain addr name where dev: "dev = (addr, Some name)" "matches_IGM name" "\<not> known s xs name" by blast
  have len: "length name \<le> MAX_DEVICE_NAME" "length addr \<le> MAX_DEVICE_ADDR" "0 \<notin> set name"
    using fits dev(1) by (simp_all add: device_fits_def)
  obtain l where l: "nearby_lock fresh addr name = Ok l" "lock_ok l" "sint (l_name_len l) = int (length name)" "take (length name) (l_name l) = name"
    using nearby_lock_Ok [OF len(1,2)] by blast
  obtain s' where s': "insertLock new fresh l s = Ok s'" "holds_locks s' (new # xs)" "locks_head s' = locks_head s"
    "ll_locks s' = (ll_locks s)(new \<mapsto> copied_lock l)"
    using insertLock_inserts [OF h new l(2)] by blast
  have run: "continueDiscoveredDevice n fresh new dev s = Ok s'"
    using findLockByName_text [OF h n, of "name @ [0]"] dev l(1) s'(1) by (simp add: continueDiscoveredDevice_def known_def)
  have "name_matches s' (name @ [0]) new"
    using s'(4) copied_lock_take(2) [OF l(2)] l(3,4) by (simp add: name_matches_def c_prefix_def copied_lock_simps)
  moreover have "name_matches s' nm a = name_matches s nm a" if "a \<in> set xs" for nm a
    using s'(4) new that by (auto simp: name_matches_def)
  ultimately show ?thesis
    using run s'(2,3) dev by (intro exI [of _ s'] exI [of _ "new # xs"]) (auto simp: known_ex)
qed

text \<open>After a scan every lock reported is in the list, and the same scan once more changes nothing.\<close>
lemma scan_lists:
  "holds_locks s xs \<Longrightarrow> distinct (map fst ds) \<Longrightarrow> set (map fst ds) \<inter> set (locks_head s # xs) = {} \<Longrightarrow> length xs + length ds \<le> n \<Longrightarrow>
   \<forall>d \<in> set ds. device_fits (snd d) \<Longrightarrow>
   \<exists>s' xs'. scan (\<lambda>(new, dev). continueDiscoveredDevice n fresh new dev) ds s = Ok s' \<and> holds_locks s' xs' \<and> locks_head s' = locks_head s \<and>
     length xs' \<le> length xs + length ds \<and> (\<forall>name. known s xs name \<longrightarrow> known s' xs' name) \<and>
     (\<forall>new addr name. (new, addr, Some name) \<in> set ds \<and> matches_IGM name \<longrightarrow> known s' xs' name)"
proof (induction ds arbitrary: s xs)
  case (Cons d ds)
  obtain new dev where d: "d = (new, dev)" by (cases d)
  have "length xs \<le> n" "new \<notin> set (locks_head s # xs)" "device_fits dev" using Cons.prems d by auto
  from device_listed [OF Cons.prems(1) this, of fresh] obtain s1 xs1 where s1:
    "continueDiscoveredDevice n fresh new dev s = Ok s1" "holds_locks s1 xs1" "locks_head s1 = locks_head s" "xs1 = xs \<or> xs1 = new # xs"
    "\<forall>name. known s xs name \<longrightarrow> known s1 xs1 name" "\<forall>name. snd dev = Some name \<and> matches_IGM name \<longrightarrow> known s1 xs1 name" by blast
  have "\<exists>s' xs'. scan (\<lambda>(new, dev). continueDiscoveredDevice n fresh new dev) ds s1 = Ok s' \<and> holds_locks s' xs' \<and>
      locks_head s' = locks_head s1 \<and> length xs' \<le> length xs1 + length ds \<and> (\<forall>name. known s1 xs1 name \<longrightarrow> known s' xs' name) \<and>
     (\<forall>new addr name. (new, addr, Some name) \<in> set ds \<and> matches_IGM name \<longrightarrow> known s' xs' name)"
  proof (rule Cons.IH [OF s1(2)])
    have "new \<notin> fst ` set ds" "fst ` set ds \<inter> insert (locks_head s) (set xs) = {}" using Cons.prems(2,3) d by auto
    then show "set (map fst ds) \<inter> set (locks_head s1 # xs1) = {}" unfolding set_map list.set s1(3) using s1(4) by (elim disjE) auto
  qed (use Cons.prems s1(4) d in auto)
  then obtain s' xs' where s': "scan (\<lambda>(new, dev). continueDiscoveredDevice n fresh new dev) ds s1 = Ok s'" "holds_locks s' xs'"
    "locks_head s' = locks_head s1" "length xs' \<le> length xs1 + length ds" "\<forall>name. known s1 xs1 name \<longrightarrow> known s' xs' name"
    "\<forall>new addr name. (new, addr, Some name) \<in> set ds \<and> matches_IGM name \<longrightarrow> known s' xs' name" by blast
  have "length xs1 \<le> Suc (length xs)" using s1(4) by auto
  then show ?case
    using s1 s' d by (intro exI [of _ s'] exI [of _ xs']) auto
qed auto

lemma scan_again:
  assumes h: "holds_locks s xs" and n: "length xs \<le> n"
    and all: "\<forall>new addr name. (new, addr, Some name) \<in> set ds \<and> matches_IGM name \<longrightarrow> known s xs name"
  shows "scan (\<lambda>(new, dev). continueDiscoveredDevice n fresh new dev) ds s = Ok s"
  using all
proof (induction ds)
  case (Cons d ds)
  obtain new addr nm where d: "d = (new, addr, nm)" by (cases d)
  have "continueDiscoveredDevice n fresh new (addr, nm) s = Ok s"
  proof (cases "\<exists>name. nm = Some name \<and> matches_IGM name")
    case True
    then obtain name where name: "nm = Some name" "matches_IGM name" by blast
    then have "known s xs name" using Cons.prems d by auto
    then obtain l where "find (name_matches s (name @ [0])) xs = Some l" by (auto simp: known_def)
    then show ?thesis using name findLockByName_text [OF h n, of "name @ [0]"] by (simp add: continueDiscoveredDevice_def)
  qed (auto simp: continueDiscoveredDevice_def split: option.splits)
  moreover have "scan (\<lambda>(new, dev). continueDiscoveredDevice n fresh new dev) ds s = Ok s"
    by (rule Cons.IH) (use Cons.prems in auto)
  ultimately show ?case by (simp add: d)
qed simp

lemma scan_list_found:
  assumes h: "holds_locks s xs" and new: "distinct (map fst ds)" "set (map fst ds) \<inter> set (locks_head s # xs) = {}"
    and n: "length xs + length ds \<le> n" and fits: "\<forall>d \<in> set ds. device_fits (snd d)"
  shows "\<exists>s' xs'. scan (\<lambda>(new, dev). continueDiscoveredDevice n fresh new dev) ds s = Ok s' \<and> holds_locks s' xs' \<and>
    (\<forall>new addr name. (new, addr, Some name) \<in> set ds \<and> matches_IGM name \<longrightarrow> (\<exists>a \<in> set xs'. findLockByName n (name @ [0]) s' = Ok (Some a))) \<and>
    (\<forall>es. (\<forall>new addr name. (new, addr, Some name) \<in> set es \<and> matches_IGM name \<longrightarrow> (\<exists>new' addr'. (new', addr', Some name) \<in> set ds)) \<longrightarrow>
      scan (\<lambda>(new, dev). continueDiscoveredDevice n fresh new dev) es s' = Ok s')"
proof -
  obtain s' xs' where s': "scan (\<lambda>(new, dev). continueDiscoveredDevice n fresh new dev) ds s = Ok s'" "holds_locks s' xs'"
    "length xs' \<le> length xs + length ds" "\<forall>new addr name. (new, addr, Some name) \<in> set ds \<and> matches_IGM name \<longrightarrow> known s' xs' name"
    using scan_lists [OF h new n fits] by blast
  have l: "length xs' \<le> n" using s'(3) n by simp
  have found: "\<exists>a \<in> set xs'. findLockByName n (name @ [0]) s' = Ok (Some a)" if k: "known s' xs' name" for name
  proof -
    obtain a where a: "find (name_matches s' (name @ [0])) xs' = Some a" using k by (auto simp: known_def)
    then have "a \<in> set xs'" by (auto simp: find_Some_iff)
    then show ?thesis using a findLockByName_text [OF s'(2) l, of "name @ [0]"] by auto
  qed
  have again: "scan (\<lambda>(new, dev). continueDiscoveredDevice n fresh new dev) es s' = Ok s'"
    if "\<forall>new addr name. (new, addr, Some name) \<in> set es \<and> matches_IGM name \<longrightarrow> (\<exists>new' addr'. (new', addr', Some name) \<in> set ds)" for es
    by (rule scan_again [OF s'(2) l]) (use that s'(4) in blast)
  show ?thesis using s'(1,2,4) found again by (intro exI [of _ s'] exI [of _ xs']) blast
qed

lemma scan_array:
  assumes one: "device_fits (addr1, Some name1)" "matches_IGM name1" and two: "device_fits (addr2, Some name2)" "matches_IGM name2"
    and S: "32 \<le> S" "0 < k" "k \<le> 30"
  shows "(\<exists>d. scan (ble_discovered_device S fresh) [(addr1, Some name1)] (bleInitResults k) = Ok d \<and> n_of_result d = 1) \<and>
    scan (ble_discovered_device S fresh) [(addr1, Some name1), (addr2, Some name2)] (bleInitResults k) = Fault OutOfBounds"
proof -
  have k: "n_of_result (bleInitResults k) = 0" "0 < length (scan_result (bleInitResults k))" using S(2) by (simp_all add: bleInitResults_def)
  obtain lock where first: "ble_discovered_device S fresh (addr1, Some name1) (bleInitResults k) =
      Ok ((bleInitResults k)\<lparr>scan_result := (scan_result (bleInitResults k))[0 := Some lock], n_of_result := 1\<rparr>)" (is "_ = Ok ?d")
    using scan_first [OF one k] by blast
  have "ble_discovered_device S fresh (addr2, Some name2) ?d = Fault OutOfBounds"
    by (rule scan_second [OF two]) (use S in \<open>simp_all add: bleInitResults_def\<close>)
  then show ?thesis using first by simp
qed

end
