(* ===== verification/Ble_Data.thy ===== *)
theory Ble_Data
  imports Prelude
begin

text \<open>
  The data of a Bluetooth task, \<open>bridge_main/bleData.c\<close>: a parameter and a result, both copied as bytes, and two numbers.
  \<open>S\<close> is \<open>sizeof(ble_guest_result_t)\<close>.  The array of results that a scan fills is in \<open>Discovery\<close>.
\<close>

record ble_data =
  ble_param :: block_ptr
  ble_param_len :: nat
  data_result :: block_ptr
  data_result_len :: nat
  data_n_of_result :: nat
  data_connection :: block_ptr
  data_lock_status :: i32
  data_battery_level :: i32

definition bleInitData :: "ble_data \<Rightarrow> ble_data" where
  "bleInitData d = \<lparr>ble_param = None, ble_param_len = 0, data_result = None, data_result_len = 0, data_n_of_result = 0,
     data_connection = None, data_lock_status = 0, data_battery_level = 0\<rparr>"

definition bleReleaseBleParam :: "ble_data \<Rightarrow> ble_data" where
  "bleReleaseBleParam d = (if ble_param d \<noteq> None then d\<lparr>ble_param_len := 0, ble_param := None\<rparr> else d)"

definition bleReleaseBleResult :: "ble_data \<Rightarrow> ble_data" where
  "bleReleaseBleResult d = (if data_result d \<noteq> None then d\<lparr>data_result_len := 0, data_result := None\<rparr> else d)"

text \<open>The parts are released, the object itself is not, and the pointer of the caller becomes NULL: the object that is left
  is the first component.\<close>
definition bleReleaseData :: "ble_data \<Rightarrow> ble_data \<times> ble_data option" where
  "bleReleaseData d = (bleReleaseBleParam (bleReleaseBleResult d), None)"

definition bleGetBleParamLen :: "ble_data \<Rightarrow> nat" where
  "bleGetBleParamLen d = ble_param_len d"

text \<open>The copy into a block of the caller.\<close>
definition bleGetBleParam :: "ble_data \<Rightarrow> bytes \<Rightarrow> bytes res" where
  "bleGetBleParam d out = bindR (block_read (ble_param d) (ble_param_len d)) (mem_write out 0)"

definition bleSetBleParam :: "bytes \<Rightarrow> nat \<Rightarrow> ble_data \<Rightarrow> ble_data res" where
  "bleSetBleParam p n d = bindR (mem_slice p 0 n) (\<lambda>b. Ok ((bleReleaseBleParam d)\<lparr>ble_param_len := n, ble_param := Some b\<rparr>))"

definition bleGetBleResultLen :: "ble_data \<Rightarrow> nat" where
  "bleGetBleResultLen d = data_result_len d"

definition bleGetBleResult :: "ble_data \<Rightarrow> bytes \<Rightarrow> bytes res" where
  "bleGetBleResult d out = bindR (block_read (data_result d) (data_result_len d)) (mem_write out 0)"

definition bleSetBleResult :: "nat \<Rightarrow> bytes \<Rightarrow> ble_data \<Rightarrow> ble_data res" where
  "bleSetBleResult S p d = bindR (mem_slice p 0 S) (\<lambda>b. Ok ((bleReleaseBleResult d)\<lparr>data_result := Some b, data_result_len := S\<rparr>))"

definition BleSetBatteryLRes :: "i32 \<Rightarrow> ble_data \<Rightarrow> ble_data" where
  "BleSetBatteryLRes n d = d\<lparr>data_battery_level := n\<rparr>"

definition BleSetStatusRes :: "i32 \<Rightarrow> ble_data \<Rightarrow> ble_data" where
  "BleSetStatusRes n d = d\<lparr>data_lock_status := n\<rparr>"

section \<open>What is set is what is got\<close>

lemma param_set_get:
  assumes "n \<le> length p" "n \<le> length out"
  shows "\<exists>d'. bleSetBleParam p n d = Ok d' \<and> bleGetBleParamLen d' = n \<and> bleGetBleParam d' out = Ok (take n p @ drop n out)"
  using assms
  by (auto simp: bleSetBleParam_def bleGetBleParam_def bleGetBleParamLen_def bleReleaseBleParam_def mem_slice_def mem_write_def
      block_read_def)

text \<open>Of a result only the first \<open>S\<close> bytes are kept; a shorter one is read past its end.\<close>
lemma result_set_get:
  "S \<le> length p \<Longrightarrow> S \<le> length out \<Longrightarrow>
     \<exists>d'. bleSetBleResult S p d = Ok d' \<and> bleGetBleResultLen d' = S \<and> bleGetBleResult d' out = Ok (take S p @ drop S out)"
  "length p < S \<Longrightarrow> bleSetBleResult S p d = Fault OutOfBounds"
  by (auto simp: bleSetBleResult_def bleGetBleResult_def bleGetBleResultLen_def bleReleaseBleResult_def mem_slice_def mem_write_def block_read_def)

text \<open>A released object holds nothing, and releasing it again is harmless.\<close>
lemma release_data:
  assumes "bleReleaseData d = (d', p)"
  shows "ble_param d' = None" "data_result d' = None" "bleReleaseData d' = (d', None)"
  using assms by (auto simp: bleReleaseData_def bleReleaseBleParam_def bleReleaseBleResult_def)

end
