(* ===== verification/Pairing_Task.thy ===== *)
theory Pairing_Task
  imports Pairing Task_Queue Lock_List Ble_Framing
begin

text \<open>
  The pairing task of the bridge, \<open>ble/ble_pairing.c\<close>: six actions that \<open>FSMHandle\<close> runs in the order of the table
  \<open>pairing_fsm_table\<close>, the receiver of notifications, and the result handed to the caller.  The link of gattlib is a
  parameter: whether it connects, whether notifications start, and what a write returns.  A notification reaches the task only
  while one of the two waiting actions runs the loop of GLib; the ones still to come are the list \<open>notifications\<close>.  Neither
  waiting action has a time limit: when the list is used up the call does not return, which is the outcome \<open>OutOfFuel\<close>.
\<close>

section \<open>The result and the parameter\<close>

record ble_pairing_result =
  pr_addr :: bytes
  pairing_successed :: bool
  has_admin_key :: bool
  pr_admin_key :: block_ptr
  admin_key_len :: nat
  pr_has_password :: bool
  pr_password :: block_ptr
  pr_password_size :: nat

definition bleInitPairingResult :: ble_pairing_result where
  "bleInitPairingResult =
     \<lparr>pr_addr = replicate MAX_DEVICE_ADDR 0, pairing_successed = False, has_admin_key = False, pr_admin_key = None,
      admin_key_len = 0, pr_has_password = False, pr_password = None, pr_password_size = 0\<rparr>"

definition bleSetPairingSuccess :: "bool \<Rightarrow> ble_pairing_result \<Rightarrow> ble_pairing_result" where
  "bleSetPairingSuccess s r = r\<lparr>pairing_successed := s\<rparr>"

definition bleReleaseResultAdminKey :: "ble_pairing_result \<Rightarrow> ble_pairing_result" where
  "bleReleaseResultAdminKey r =
     (if has_admin_key r \<and> pr_admin_key r \<noteq> None
      then r\<lparr>has_admin_key := False, admin_key_len := 0, pr_admin_key := None\<rparr> else r)"

definition bleReleaseResultPassword :: "ble_pairing_result \<Rightarrow> ble_pairing_result" where
  "bleReleaseResultPassword r =
     (if pr_has_password r \<and> pr_password r \<noteq> None
      then r\<lparr>pr_has_password := False, pr_password_size := 0, pr_password := None\<rparr> else r)"

text \<open>The members are freed first; the pointer of the caller becomes NULL.\<close>
definition bleReleasePairingResult :: "ble_pairing_result option \<Rightarrow> ble_pairing_result option" where
  "bleReleasePairingResult p =
     (let freed = map_option (\<lambda>r. bleReleaseResultAdminKey (bleReleaseResultPassword r)) p in None)"

definition bleSetPairingResultAdminKey ::
  "bool \<Rightarrow> block_ptr \<Rightarrow> nat \<Rightarrow> ble_pairing_result \<Rightarrow> ble_pairing_result res"
where
  "bleSetPairingResultAdminKey has p n r =
     (let r = (bleReleaseResultAdminKey r)\<lparr>has_admin_key := has\<rparr> in
      if has then bindR (block_read p n) (\<lambda>d. Ok (r\<lparr>admin_key_len := n, pr_admin_key := Some d\<rparr>))
      else Ok (r\<lparr>admin_key_len := 0, pr_admin_key := None\<rparr>))"

definition bleSetPairingResultPassword ::
  "bool \<Rightarrow> block_ptr \<Rightarrow> nat \<Rightarrow> ble_pairing_result \<Rightarrow> ble_pairing_result res"
where
  "bleSetPairingResultPassword has p n r =
     (let r = (bleReleaseResultPassword r)\<lparr>pr_has_password := has\<rparr> in
      if has then bindR (block_read p n) (\<lambda>d. Ok (r\<lparr>pr_password_size := n, pr_password := Some d\<rparr>))
      else Ok (r\<lparr>pr_password_size := 0, pr_password := None\<rparr>))"

text \<open>The block of the caller and \<open>*p_len\<close>, if there is a key.\<close>
definition bleGetPairingResultAdminKey :: "ble_pairing_result \<Rightarrow> bytes \<Rightarrow> nat \<Rightarrow> (bytes \<times> nat) res" where
  "bleGetPairingResultAdminKey r out n =
     (if has_admin_key r
      then bindR (block_read (pr_admin_key r) (admin_key_len r)) (\<lambda>d. bindR (mem_write out 0 d) (\<lambda>out. Ok (out, admin_key_len r)))
      else Ok (out, n))"

definition bleGetPairingResultPassword :: "ble_pairing_result \<Rightarrow> bytes \<Rightarrow> nat \<Rightarrow> (bytes \<times> nat) res" where
  "bleGetPairingResultPassword r out n =
     (if pr_has_password r
      then bindR (block_read (pr_password r) (pr_password_size r)) (\<lambda>d. bindR (mem_write out 0 d) (\<lambda>out. Ok (out, pr_password_size r)))
      else Ok (out, n))"

definition bleSetPairingResultAddr :: "bytes \<Rightarrow> u64 \<Rightarrow> ble_pairing_result \<Rightarrow> ble_pairing_result res" where
  "bleSetPairingResultAddr ad addr_len r =
     bindR (mem_slice ad 0 (if unat addr_len > MAX_DEVICE_ADDR then MAX_DEVICE_ADDR else unat addr_len)) (\<lambda>d.
     bindR (mem_write (replicate MAX_DEVICE_ADDR 0) 0 d) (\<lambda>a. Ok (r\<lparr>pr_addr := a\<rparr>)))"

definition blePairingResultErr :: "ble_pairing_result \<Rightarrow> ble_pairing_result res" where
  "blePairingResultErr r =
     (let r = bleSetPairingSuccess False (r\<lparr>pairing_successed := False\<rparr>) in
      bindR (bleSetPairingResultPassword False None 0 r) (bleSetPairingResultAdminKey False None 0))"

type_synonym ble_pairing_param = "lock_object option"

definition bleInitPairingParam :: ble_pairing_param where
  "bleInitPairingParam = None"

definition bleReleaseParingParam :: "ble_pairing_param \<Rightarrow> ble_pairing_param" where
  "bleReleaseParingParam p = None"

text \<open>The object is copied member by member: the blocks stay those of \<open>lock\<close>.\<close>
definition bleSetPairingParam :: "lock_object \<Rightarrow> ble_pairing_param \<Rightarrow> ble_pairing_param" where
  "bleSetPairingParam lock p = Some lock"

text \<open>\<open>bleSetBleResult\<close> copies \<open>sizeof(ble_guest_result_t)\<close> bytes whatever the task was: of a result of pairing, on a machine
  with pointers of 32 and one with pointers of 64 bits, the members up to the pointer to the key.\<close>
record ble_result_front =
  front_addr :: bytes
  front_successed :: bool
  front_has_key :: bool
  front_key :: block_ptr

definition bleSetBleResult_pairing :: "ble_pairing_result \<Rightarrow> ble_result_front" where
  "bleSetBleResult_pairing r =
     \<lparr>front_addr = pr_addr r, front_successed = pairing_successed r, front_has_key = has_admin_key r, front_key = pr_admin_key r\<rparr>"

section \<open>The task\<close>

datatype BLE_PAIRING_STATE = BLE_PAIRING_BEGIN | BLE_PAIRING_STEP1 | BLE_PAIRING_STEP2 | BLE_PAIRING_STEP3
  | BLE_PAIRING_STEP4 | BLE_PAIRING_COMMIT | BLE_WAITING_COMMIT | BLE_PAIRING_DONE

fun pairing_state_number :: "BLE_PAIRING_STATE \<Rightarrow> u8" where
  "pairing_state_number BLE_PAIRING_BEGIN = 0"
| "pairing_state_number BLE_PAIRING_STEP1 = 1"
| "pairing_state_number BLE_PAIRING_STEP2 = 2"
| "pairing_state_number BLE_PAIRING_STEP3 = 3"
| "pairing_state_number BLE_PAIRING_STEP4 = 5"
| "pairing_state_number BLE_PAIRING_COMMIT = 6"
| "pairing_state_number BLE_WAITING_COMMIT = 7"
| "pairing_state_number BLE_PAIRING_DONE = 8"

record pairing_connection =
  pc_linked :: bool
  pairing_step :: BLE_PAIRING_STATE
  pc_buffer :: step_buffer
  has_pairing_result :: bool
  pairing_result :: ble_pairing_result

record pairing_task =
  pt_conn :: pairing_connection
  pt_keys :: pairing_state
  pt_returned :: "ble_result_front option"
  pt_sent :: "bytes list"
  notifications :: "bytes list"

record pairing_host =
  ph_lock :: lock_object
  ph_connects :: bool
  ph_notifies :: bool
  ph_ends :: bool
  ph_gatt :: "bytes list \<Rightarrow> bytes \<Rightarrow> int"
  ph_make_key :: "(bytes \<times> bytes) option"
  ph_shared_secret :: "bytes \<Rightarrow> bytes \<Rightarrow> bytes option"
  ph_rand :: "nat \<Rightarrow> nat \<Rightarrow> nat"
  ph_time :: nat
  ph_now :: i32
  ph_junk :: "nat \<Rightarrow> u8"

text \<open>Both \<open>pairing_err_result_return\<close> and \<open>pairing_success_result_return\<close>.\<close>
definition pairing_result_return :: "pairing_task \<Rightarrow> pairing_task" where
  "pairing_result_return t = t\<lparr>pt_returned := Some (bleSetBleResult_pairing (pairing_result (pt_conn t)))\<rparr>"

text \<open>\<open>ph_ends\<close> says whether stopping the notifications and disconnecting both go well; every caller only logs a failure.\<close>
definition end_pairing_gatt :: "pairing_host \<Rightarrow> pairing_task \<Rightarrow> pairing_task" where
  "end_pairing_gatt h t = (if ph_ends h then t\<lparr>pt_conn := (pt_conn t)\<lparr>pc_linked := False\<rparr>\<rparr> else t)"

text \<open>The exits with an error: an empty result is returned and the link is closed.\<close>
definition error_result :: "pairing_task \<Rightarrow> pairing_task res" where
  "error_result t =
     (if has_pairing_result (pt_conn t)
      then bindR (blePairingResultErr (pairing_result (pt_conn t))) (\<lambda>r.
        Ok (pairing_result_return (t\<lparr>pt_conn := (pt_conn t)\<lparr>pairing_result := r\<rparr>\<rparr>)))
      else Ok t)"

definition error_exit :: "pairing_host \<Rightarrow> pairing_task \<Rightarrow> pairing_task res" where
  "error_exit h t = bindR (error_result t) (\<lambda>t. Ok (end_pairing_gatt h t))"

definition register_pairing_notfication :: "pairing_host \<Rightarrow> pairing_task \<Rightarrow> (int \<times> pairing_task) res" where
  "register_pairing_notfication h t =
     bindR (bleSetPairingResultAddr (l_addr (ph_lock h)) (scast (l_addr_len (ph_lock h))) bleInitPairingResult) (\<lambda>r.
     let t = t\<lparr>pt_conn := \<lparr>pc_linked = ph_connects h, pairing_step = BLE_PAIRING_BEGIN, pc_buffer = step_buffer_empty,
                           has_pairing_result = True, pairing_result = r\<rparr>\<rparr> in
     if \<not> ph_connects h then bindR (error_result t) (\<lambda>t. Ok (1, t))
     else if \<not> ph_notifies h then bindR (error_exit h t) (\<lambda>t. Ok (1, t))
     else Ok (0, t\<lparr>pt_conn := (pt_conn t)\<lparr>pairing_step := BLE_PAIRING_STEP1\<rparr>\<rparr>))"

text \<open>\<open>build_msg_payload\<close> and \<open>write_char_by_uuid_multi_atts\<close>; the result says whether both went well.\<close>
definition send_step :: "pairing_host \<Rightarrow> bytes \<Rightarrow> nat \<Rightarrow> pairing_task \<Rightarrow> (bool \<times> pairing_task) res" where
  "send_step h bs n t = bindR (build_msg_payload (ph_junk h) bs n) (\<lambda>(built, payload).
     if \<not> built then Ok (False, t)
     else let (ret, packets) = write_char_by_uuid_multi_atts (ph_gatt h) payload (pt_sent t) in
       Ok (ret = 0, t\<lparr>pt_sent := packets\<rparr>))"

text \<open>The exit with an error ends without a return statement: the number \<open>FSMHandle\<close> tests was never set.\<close>
definition write_pairing_step1 :: "pairing_host \<Rightarrow> pairing_task \<Rightarrow> (int \<times> pairing_task) res" where
  "write_pairing_step1 h t =
     (case PairingConnection_beginConnection (ph_make_key h) (ph_rand h) (ph_time h) (pt_keys t) of (ok, s) \<Rightarrow>
        let t = t\<lparr>pt_keys := s\<rparr> in
        if \<not> ok then Ok (1, t)
        else bindR (PairingConnection_genPairingStep1Native (pt_keys t)) (\<lambda>(step1Bytes_len, step1Bytes).
          case step1Bytes of
            None \<Rightarrow> Ok (1, t)
          | Some bs \<Rightarrow>
            bindR (send_step h bs (unat (scast step1Bytes_len :: u64)) t) (\<lambda>(sent, t).
            if \<not> sent then Fault Uninitialised
            else Ok (0, t\<lparr>pt_conn := (pt_conn t)\<lparr>pairing_step := BLE_PAIRING_STEP1\<rparr>\<rparr>))))"

text \<open>The message behind its head, as it is passed on: its length, and the pointer.\<close>
definition received_len :: "step_buffer \<Rightarrow> i32" where
  "received_len b = word_of_int (int (step_max_size b) - int (n_size_byte b))"

definition received_ptr :: "step_buffer \<Rightarrow> block_ptr" where
  "received_ptr b = map_option (drop (n_size_byte b)) (step_data b)"

definition write_pairing_step3 :: "pairing_host \<Rightarrow> pairing_task \<Rightarrow> (int \<times> pairing_task) res" where
  "write_pairing_step3 h t =
     (let b = pc_buffer (pt_conn t) in
      bindR (PairingConnection_genPairingStep3Native (ph_shared_secret h) (received_len b) (received_ptr b) (pt_keys t))
        (\<lambda>(step3Bytes_len, step3Bytes, s).
      let t = t\<lparr>pt_keys := s\<rparr> in
      if step3Bytes_len = 0 then bindR (error_exit h t) (\<lambda>t. Ok (1, t))
      else case step3Bytes of
          None \<Rightarrow> Fault OutOfBounds
        | Some bs \<Rightarrow>
          bindR (send_step h bs (unat (scast step3Bytes_len :: u64)) t) (\<lambda>(sent, t).
          if \<not> sent then bindR (error_exit h t) (\<lambda>t. Ok (1, t))
          else
            let c = pt_conn t;
                c = (if step_data (pc_buffer c) \<noteq> None then c\<lparr>pc_buffer := step_buffer_empty\<rparr> else c)
            in Ok (0, t\<lparr>pt_conn := c\<lparr>pairing_step := BLE_PAIRING_STEP3\<rparr>\<rparr>))))"

text \<open>\<open>time(NULL)\<close> is the parameter \<open>ph_now\<close>.\<close>
definition write_pairing_commit :: "pairing_host \<Rightarrow> pairing_task \<Rightarrow> (int \<times> pairing_task) res" where
  "write_pairing_commit h t =
     (let b = pc_buffer (pt_conn t) in
      bindR (PairingConnection_recPairingStep4Native (received_len b) (received_ptr b) (pt_keys t)) (\<lambda>(step4, s).
      let t = t\<lparr>pt_keys := s\<rparr> in
      case step4 of
        None \<Rightarrow> bindR (error_exit h t) (\<lambda>t. Ok (1, t))
      | Some step4 \<Rightarrow>
        bindR (if PairingStep4_has_success step4 \<and> PairingStep4_success step4 \<and> has_pairing_result (pt_conn t)
               then bleSetPairingResultPassword True (PairingStep4_password step4) (PairingStep4_password_size step4)
                      (pairing_result (pt_conn t))
               else Ok (pairing_result (pt_conn t))) (\<lambda>r.
        let t = t\<lparr>pt_conn := (pt_conn t)\<lparr>pairing_result := r\<rparr>\<rparr> in
        bindR (PairingConnection_genPairingCommitNative (ph_now h) (pt_keys t)) (\<lambda>(commitBytes_len, commitBytes, s).
        let t = t\<lparr>pt_keys := s\<rparr> in
        if commitBytes_len = 0 then bindR (error_exit h t) (\<lambda>t. Ok (1, t))
        else case commitBytes of
            None \<Rightarrow> Fault OutOfBounds
          | Some bs \<Rightarrow>
            bindR (send_step h bs (unat (scast commitBytes_len :: u64)) t) (\<lambda>(sent, t).
            if \<not> sent then bindR (error_exit h t) (\<lambda>t. Ok (1, t))
            else
              let t = t\<lparr>pt_conn := (pt_conn t)\<lparr>pairing_step := BLE_PAIRING_DONE\<rparr>\<rparr> in
              bindR (PairingConnection_getAdminKeyNative (pt_keys t)) (\<lambda>(key_len, admin_key).
              bindR (if key_len \<noteq> 0 \<and> has_pairing_result (pt_conn t)
                     then bleSetPairingResultAdminKey True (Some admin_key) (unat key_len) (pairing_result (pt_conn t))
                     else Ok (pairing_result (pt_conn t))) (\<lambda>r.
              let t = t\<lparr>pt_conn := (pt_conn t)\<lparr>pairing_result := bleSetPairingSuccess True r\<rparr>\<rparr> in
              Ok (0, end_pairing_gatt h (pairing_result_return t)))))))))"

section \<open>Notifications\<close>

text \<open>Both handlers: the packet is stored; a complete message sets the step and ends the loop.\<close>
definition handle_message :: "pairing_host \<Rightarrow> BLE_PAIRING_STATE \<Rightarrow> bytes \<Rightarrow> pairing_task \<Rightarrow> (bool \<times> pairing_task) res" where
  "handle_message h step data t =
     bindR (save_message_data_pairing (ph_junk h) data (pc_buffer (pt_conn t))) (\<lambda>b.
     let c = (pt_conn t)\<lparr>pc_buffer := b\<rparr> in
     if message_complete b then Ok (True, t\<lparr>pt_conn := c\<lparr>pairing_step := step\<rparr>\<rparr>)
     else Ok (False, t\<lparr>pt_conn := c\<rparr>))"

definition pairing_message_handler :: "pairing_host \<Rightarrow> bytes \<Rightarrow> pairing_task \<Rightarrow> (bool \<times> pairing_task) res" where
  "pairing_message_handler h data t =
     (case pairing_step (pt_conn t) of
        BLE_PAIRING_STEP1 \<Rightarrow> handle_message h BLE_PAIRING_STEP2 data t
      | BLE_PAIRING_STEP3 \<Rightarrow> handle_message h BLE_PAIRING_STEP4 data t
      | _ \<Rightarrow> Ok (False, t))"

text \<open>\<open>waiting_pairing_step2\<close> and \<open>waiting_pairing_step4\<close>: the loop of GLib.\<close>
fun waiting_loop :: "pairing_host \<Rightarrow> bytes list \<Rightarrow> pairing_task \<Rightarrow> (int \<times> pairing_task) res" where
  "waiting_loop h [] t = Fault OutOfFuel"
| "waiting_loop h (d # ds) t = bindR (pairing_message_handler h d t) (\<lambda>(quit, t).
     if quit then Ok (0, t\<lparr>notifications := ds\<rparr>) else waiting_loop h ds t)"

definition waiting_pairing_step :: "pairing_host \<Rightarrow> pairing_task \<Rightarrow> (int \<times> pairing_task) res" where
  "waiting_pairing_step h t = waiting_loop h (notifications t) t"

section \<open>The table\<close>

definition pairing_fsm_table :: "fsm_table list" where
  "pairing_fsm_table =
     [\<lparr>f_cur_state = pairing_state_number BLE_PAIRING_BEGIN, f_eventActFun = 0, f_next_state = pairing_state_number BLE_PAIRING_STEP1\<rparr>,
      \<lparr>f_cur_state = pairing_state_number BLE_PAIRING_STEP1, f_eventActFun = 1, f_next_state = pairing_state_number BLE_PAIRING_STEP2\<rparr>,
      \<lparr>f_cur_state = pairing_state_number BLE_PAIRING_STEP2, f_eventActFun = 2, f_next_state = pairing_state_number BLE_PAIRING_STEP3\<rparr>,
      \<lparr>f_cur_state = pairing_state_number BLE_PAIRING_STEP3, f_eventActFun = 3, f_next_state = pairing_state_number BLE_PAIRING_STEP4\<rparr>,
      \<lparr>f_cur_state = pairing_state_number BLE_PAIRING_STEP4, f_eventActFun = 4, f_next_state = pairing_state_number BLE_PAIRING_COMMIT\<rparr>,
      \<lparr>f_cur_state = pairing_state_number BLE_PAIRING_COMMIT, f_eventActFun = 5, f_next_state = pairing_state_number BLE_PAIRING_DONE\<rparr>]"

definition getPairingFsmTableLen :: nat where
  "getPairingFsmTableLen = 6"

definition pairing_action :: "pairing_host \<Rightarrow> nat \<Rightarrow> pairing_task \<Rightarrow> (int \<times> pairing_task) res" where
  "pairing_action h k t =
     (if k = 0 then register_pairing_notfication h t
      else if k = 1 then write_pairing_step1 h t
      else if k = 2 \<or> k = 4 then waiting_pairing_step h t
      else if k = 3 then write_pairing_step3 h t
      else write_pairing_commit h t)"

text \<open>The same for \<open>FSMHandle\<close>; the queues are left alone.\<close>
definition pairing_task_action :: "pairing_host \<Rightarrow> pairing_task action" where
  "pairing_task_action h k a s t = bindR (pairing_action h k t) (\<lambda>(ret, t). Ok (ret, s, t))"


section \<open>Sending and receiving\<close>

lemma scast_small: "n < 2 ^ 31 \<Longrightarrow> unat (scast (word_of_nat n :: i32) :: u64) = n"
proof -
  assume n: "n < 2 ^ 31"
  then have "sint (word_of_nat n :: i32) = int n" by (intro small_int_word(1)) simp
  then have "(scast (word_of_nat n :: i32) :: u64) = word_of_int (int n)" by (simp add: scast_eq)
  then show ?thesis using n by (simp add: unat_of_nat take_bit_nat_eq_self)
qed

text \<open>The packets of a frame: at most 20 bytes each, none empty, the first one with the head.\<close>
definition cut_frame :: "bytes \<Rightarrow> bytes list \<Rightarrow> bool" where
  "cut_frame m ps \<longleftrightarrow> concat ps = word_of_nat (length m) # m \<and> (\<forall>p \<in> set ps. p \<noteq> [] \<and> length p \<le> 20) \<and> ps \<noteq> []"

lemma send_step_packets:
  assumes "\<forall>sent p. ph_gatt h sent p = 0" "length bs \<le> 254"
  shows "\<exists>ps. send_step h bs (length bs) t = Ok (True, t\<lparr>pt_sent := pt_sent t @ ps\<rparr>) \<and> cut_frame bs ps"
proof -
  obtain ps where "write_atts_loop (ph_gatt h) (word_of_nat (length bs) # bs) 0 (pt_sent t) = (0, pt_sent t @ ps)"
    "concat ps = word_of_nat (length bs) # bs" "\<forall>p \<in> set ps. 0 < length p \<and> length p \<le> 20"
    using write_atts_all [OF assms(1), where buffer = "word_of_nat (length bs) # bs" and i = 0 and sent = "pt_sent t"] by auto
  then show ?thesis
    using build_short [OF assms(2), of "ph_junk h"]
    by (intro exI [of _ ps]) (auto simp: send_step_def write_char_by_uuid_multi_atts_def cut_frame_def)
qed

lemma packet_fits:
  assumes "length d \<le> length rest" "length pre + length rest = m" "0 < m"
  shows "save_message_data_pairing junk d \<lparr>step_max_size = m, step_cur_size = length pre, n_size_byte = n, step_data = Some (pre @ rest)\<rparr> =
    Ok \<lparr>step_max_size = m, step_cur_size = length pre + length d, n_size_byte = n, step_data = Some (pre @ d @ drop (length d) rest)\<rparr>"
  using assms by (simp add: save_message_data_pairing_def append_message_def mem_write_fill Let_def)

text \<open>The step that follows the one in which a message is awaited.\<close>
definition awaited :: "BLE_PAIRING_STATE \<Rightarrow> BLE_PAIRING_STATE option" where
  "awaited st = (case st of BLE_PAIRING_STEP1 \<Rightarrow> Some BLE_PAIRING_STEP2 | BLE_PAIRING_STEP3 \<Rightarrow> Some BLE_PAIRING_STEP4 | _ \<Rightarrow> None)"

lemma handler_awaited:
  "awaited (pairing_step (pt_conn t)) = Some nxt \<Longrightarrow> pairing_message_handler h d t = handle_message h nxt d t"
  by (cases "pairing_step (pt_conn t)") (simp_all add: awaited_def pairing_message_handler_def)

lemma waiting_rest:
  assumes "0 < m"
  shows "awaited (pairing_step (pt_conn t)) = Some nxt \<Longrightarrow>
    pc_buffer (pt_conn t) = \<lparr>step_max_size = m, step_cur_size = length pre, n_size_byte = n, step_data = Some (pre @ rest)\<rparr> \<Longrightarrow>
    length pre + length rest = m \<Longrightarrow> length (concat ps) = length rest \<Longrightarrow> ps \<noteq> [] \<Longrightarrow> \<forall>p \<in> set ps. p \<noteq> [] \<Longrightarrow>
    waiting_loop h (ps @ ds) t = Ok (0, t\<lparr>notifications := ds, pt_conn := (pt_conn t)\<lparr>pairing_step := nxt, pc_buffer :=
      \<lparr>step_max_size = m, step_cur_size = m, n_size_byte = n, step_data = Some (pre @ concat ps)\<rparr>\<rparr>\<rparr>)"
proof (induction ps arbitrary: pre rest t)
  case (Cons p ps)
  let ?b = "\<lparr>step_max_size = m, step_cur_size = length pre + length p, n_size_byte = n, step_data = Some (pre @ p @ drop (length p) rest)\<rparr>"
  have s: "save_message_data_pairing (ph_junk h) p (pc_buffer (pt_conn t)) = Ok ?b"
    unfolding Cons.prems(2) by (rule packet_fits) (use Cons.prems(3,4) assms in simp_all)
  note step = handler_awaited [OF Cons.prems(1), of h p]
  show ?case
  proof (cases "ps = []")
    case True
    then show ?thesis using Cons.prems(3,4) s step by (simp add: handle_message_def message_complete_def)
  next
    case False
    then obtain q qs where q: "ps = q # qs" by (cases ps) auto
    have "1 \<le> length (concat ps)" using Cons.prems(6) q by (simp add: Suc_le_eq)
    moreover have "length p + length (concat ps) = length rest" using Cons.prems(4) by simp
    ultimately have "length pre + length p < m" using Cons.prems(3) by linarith
    then have more: "\<not> message_complete ?b" by (simp add: message_complete_def)
    let ?t = "t\<lparr>pt_conn := (pt_conn t)\<lparr>pc_buffer := ?b\<rparr>\<rparr>"
    have "waiting_loop h (ps @ ds) ?t = Ok (0, ?t\<lparr>notifications := ds, pt_conn := (pt_conn ?t)\<lparr>pairing_step := nxt, pc_buffer :=
      \<lparr>step_max_size = m, step_cur_size = m, n_size_byte = n, step_data = Some ((pre @ p) @ concat ps)\<rparr>\<rparr>\<rparr>)"
      by (rule Cons.IH [where rest = "drop (length p) rest"]) (use Cons.prems False in simp_all)
    then show ?thesis using s step more by (simp add: handle_message_def)
  qed
qed simp

text \<open>The packets of a frame whose first one has three bytes and whose third byte is not the mark of the long form.\<close>
lemma waiting_frame:
  assumes "awaited (pairing_step (pt_conn t)) = Some nxt" "pc_buffer (pt_conn t) = step_buffer_empty"
    and ps: "concat (p # ps) = word_of_nat (length m) # m" "\<forall>q \<in> set (p # ps). q \<noteq> []"
    and p: "3 \<le> length p" "m ! 1 \<noteq> 0xff" "length m \<le> 254"
  shows "waiting_loop h ((p # ps) @ ds) t = Ok (0, t\<lparr>notifications := ds, pt_conn := (pt_conn t)\<lparr>pairing_step := nxt, pc_buffer :=
      \<lparr>step_max_size = length m + 1, step_cur_size = length m + 1, n_size_byte = 1, step_data = Some (word_of_nat (length m) # m)\<rparr>\<rparr>\<rparr>)"
proof -
  let ?f = "word_of_nat (length m) # m :: bytes"
  have "p ! i = ?f ! i" if "i < length p" for i
    unfolding ps(1) [symmetric] using that by (simp add: nth_append)
  from this [of 0] this [of 2] have at: "p ! 0 = word_of_nat (length m)" "p ! 2 = m ! 1"
    using p(1) by (cases p; simp add: numeral_2_eq_2)+
  have l: "length (concat (p # ps)) = length m + 1" by (simp only: ps(1)) simp
  have n: "unat (word_of_nat (length m) :: u8) = length m" using p(3) by (simp add: unat_of_nat take_bit_nat_eq_self)
  let ?o = "\<lparr>step_max_size = length m + 1, step_cur_size = length ([] :: bytes), n_size_byte = 1,
    step_data = Some ([] @ fresh_block (ph_junk h) (length m + 1))\<rparr>"
  have o: "open_message (ph_junk h) p step_buffer_empty = ?o"
    using at p(2) n by (simp add: open_message_def step_buffer_empty_def)
  have "save_message_data_pairing (ph_junk h) p step_buffer_empty = save_message_data_pairing (ph_junk h) p ?o"
    using p(1) o by (cases p) (simp_all add: save_message_data_pairing_def step_buffer_empty_def)
  then have "waiting_loop h ((p # ps) @ ds) t = waiting_loop h ((p # ps) @ ds) (t\<lparr>pt_conn := (pt_conn t)\<lparr>pc_buffer := ?o\<rparr>\<rparr>)"
    using assms(1,2) by (simp add: handler_awaited handle_message_def Let_def cong: if_cong)
  also have "\<dots> = Ok (0, t\<lparr>notifications := ds, pt_conn := (pt_conn t)\<lparr>pairing_step := nxt, pc_buffer :=
      \<lparr>step_max_size = length m + 1, step_cur_size = length m + 1, n_size_byte = 1, step_data = Some ([] @ concat (p # ps))\<rparr>\<rparr>\<rparr>)"
    using assms(1) ps(2) l
    by (subst waiting_rest [where nxt = nxt and pre = "[]" and rest = "fresh_block (ph_junk h) (length m + 1)" and n = 1]) simp_all
  finally show ?thesis by (simp only: ps(1) append_Nil)
qed


text \<open>Packets that do not fill the block leave the task waiting.\<close>
lemma waiting_short:
  assumes "0 < m"
  shows "awaited (pairing_step (pt_conn t)) = Some nxt \<Longrightarrow>
    pc_buffer (pt_conn t) = \<lparr>step_max_size = m, step_cur_size = length pre, n_size_byte = n, step_data = Some (pre @ rest)\<rparr> \<Longrightarrow>
    length pre + length rest = m \<Longrightarrow> length (concat ps) < length rest \<Longrightarrow> waiting_loop h ps t = Fault OutOfFuel"
proof (induction ps arbitrary: pre rest t)
  case (Cons p ps)
  let ?b = "\<lparr>step_max_size = m, step_cur_size = length pre + length p, n_size_byte = n, step_data = Some (pre @ p @ drop (length p) rest)\<rparr>"
  have s: "save_message_data_pairing (ph_junk h) p (pc_buffer (pt_conn t)) = Ok ?b"
    unfolding Cons.prems(2) by (rule packet_fits) (use Cons.prems(3,4) assms in simp_all)
  have "\<not> message_complete ?b" using Cons.prems(3,4) by (simp add: message_complete_def)
  moreover have "waiting_loop h ps (t\<lparr>pt_conn := (pt_conn t)\<lparr>pc_buffer := ?b\<rparr>\<rparr>) = Fault OutOfFuel"
    by (rule Cons.IH [where pre = "pre @ p" and rest = "drop (length p) rest"]) (use Cons.prems in simp_all)
  ultimately show ?case using s handler_awaited [OF Cons.prems(1), of h p] by (simp add: handle_message_def)
qed simp

text \<open>A frame whose third byte is the mark of the long form announces more than it has.\<close>
lemma waiting_misread:
  assumes "awaited (pairing_step (pt_conn t)) = Some nxt" "pc_buffer (pt_conn t) = step_buffer_empty"
    and ps: "concat (p # ps) = word_of_nat (length m) # m" and p: "3 \<le> length p" "m ! 1 = 0xff" "0 < length m" "length m \<le> 254"
  shows "waiting_loop h (p # ps) t = Fault OutOfFuel"
proof -
  let ?f = "word_of_nat (length m) # m :: bytes"
  have "p ! i = ?f ! i" if "i < length p" for i
    unfolding ps [symmetric] using that by (simp add: nth_append)
  from this [of 0] this [of 2] have at: "p ! 0 = word_of_nat (length m)" "p ! 2 = 0xff"
    using p(1,2) by (cases p; simp add: numeral_2_eq_2)+
  have l: "length (concat (p # ps)) = length m + 1" by (simp only: ps) simp
  have n: "unat (word_of_nat (length m) :: u8) = length m" using p(4) by (simp add: unat_of_nat take_bit_nat_eq_self)
  let ?m = "length m * 254 + unat (p ! 1) + 3"
  let ?o = "\<lparr>step_max_size = ?m, step_cur_size = length ([] :: bytes), n_size_byte = 3, step_data = Some ([] @ fresh_block (ph_junk h) ?m)\<rparr>"
  have o: "open_message (ph_junk h) p step_buffer_empty = ?o"
    using at n by (simp add: open_message_def step_buffer_empty_def)
  have "save_message_data_pairing (ph_junk h) p step_buffer_empty = save_message_data_pairing (ph_junk h) p ?o"
    using p(1) o by (cases p) (simp_all add: save_message_data_pairing_def step_buffer_empty_def)
  then have "waiting_loop h (p # ps) t = waiting_loop h (p # ps) (t\<lparr>pt_conn := (pt_conn t)\<lparr>pc_buffer := ?o\<rparr>\<rparr>)"
    using assms(1,2) by (simp add: handler_awaited handle_message_def Let_def cong: if_cong)
  also have "\<dots> = Fault OutOfFuel"
    using l p(3) assms(1) by (intro waiting_short [where nxt = nxt and m = ?m and pre = "[]" and n = 3 and rest = "fresh_block (ph_junk h) ?m"]) simp_all
  finally show ?thesis .
qed

section \<open>The actions when all goes well\<close>

lemma addr_copied:
  assumes "length ad = MAX_DEVICE_ADDR"
  shows "\<exists>a. bleSetPairingResultAddr ad n r = Ok (r\<lparr>pr_addr := a\<rparr>) \<and> length a = MAX_DEVICE_ADDR"
  using assms by (auto simp: bleSetPairingResultAddr_def mem_slice_def mem_write_def)

lemma register_links:
  assumes "lock_ok (ph_lock h)" "ph_connects h" "ph_notifies h"
  shows "\<exists>a. register_pairing_notfication h t = Ok (0, t\<lparr>pt_conn := \<lparr>pc_linked = True, pairing_step = BLE_PAIRING_STEP1,
    pc_buffer = step_buffer_empty, has_pairing_result = True, pairing_result = bleInitPairingResult\<lparr>pr_addr := a\<rparr>\<rparr>\<rparr>)"
proof -
  have "length (l_addr (ph_lock h)) = MAX_DEVICE_ADDR" using assms(1) by (simp add: lock_ok_def)
  from addr_copied [OF this, of "scast (l_addr_len (ph_lock h))" bleInitPairingResult] show ?thesis
    using assms(2,3) by (auto simp: register_pairing_notfication_def)
qed

lemma step1_sent:
  assumes "PairingConnection_beginConnection (ph_make_key h) (ph_rand h) (ph_time h) (pt_keys t) = (True, s)"
    and "PairingConnection_genPairingStep1Native s = Ok (word_of_nat (length m), Some m)" "length m \<le> 254"
    and "\<forall>sent p. ph_gatt h sent p = 0"
  shows "\<exists>ps. write_pairing_step1 h t = Ok (0, t\<lparr>pt_keys := s, pt_sent := pt_sent t @ ps,
    pt_conn := (pt_conn t)\<lparr>pairing_step := BLE_PAIRING_STEP1\<rparr>\<rparr>) \<and> cut_frame m ps"
  using send_step_packets [OF assms(4,3), of "t\<lparr>pt_keys := s\<rparr>"] assms(1-3) scast_small [of "length m"]
  by (auto simp: write_pairing_step1_def)

text \<open>The buffer after a frame of the message \<open>m\<close>.\<close>
definition full_buffer :: "bytes \<Rightarrow> step_buffer" where
  "full_buffer m = \<lparr>step_max_size = length m + 1, step_cur_size = length m + 1, n_size_byte = 1, step_data = Some (word_of_nat (length m) # m)\<rparr>"

lemma full_buffer_read: "received_len (full_buffer m) = word_of_nat (length m)" "received_ptr (full_buffer m) = Some m"
  by (simp_all add: received_len_def received_ptr_def full_buffer_def)

lemma step3_sent:
  assumes "pc_buffer (pt_conn t) = full_buffer m"
    and "PairingConnection_genPairingStep3Native (ph_shared_secret h) (word_of_nat (length m)) (Some m) (pt_keys t) =
      Ok (word_of_nat (length c), Some c, s)" "c \<noteq> []" "length c \<le> 254"
    and "\<forall>sent p. ph_gatt h sent p = 0"
  shows "\<exists>ps. write_pairing_step3 h t = Ok (0, t\<lparr>pt_keys := s, pt_sent := pt_sent t @ ps,
    pt_conn := (pt_conn t)\<lparr>pc_buffer := step_buffer_empty, pairing_step := BLE_PAIRING_STEP3\<rparr>\<rparr>) \<and> cut_frame c ps"
proof -
  have "unat (word_of_nat (length c) :: i32) = length c" using assms(4) by (intro small_int_word(2)) simp
  then have "(word_of_nat (length c) :: i32) \<noteq> 0" using assms(3) by force
  moreover obtain ps where "send_step h c (length c) (t\<lparr>pt_keys := s\<rparr>) = Ok (True, t\<lparr>pt_keys := s, pt_sent := pt_sent t @ ps\<rparr>)" "cut_frame c ps"
    using send_step_packets [OF assms(5,4), of "t\<lparr>pt_keys := s\<rparr>"] by auto
  moreover have "step_data (full_buffer m) \<noteq> None" by (simp add: full_buffer_def)
  ultimately show ?thesis
    using assms(1,2,4) scast_small [of "length c"]
    by (intro exI [of _ ps]) (simp add: write_pairing_step3_def full_buffer_read Let_def)
qed

lemma commit_sent:
  assumes "pc_buffer (pt_conn t) = full_buffer m"
    and rec: "PairingConnection_recPairingStep4Native (word_of_nat (length m)) (Some m) (pt_keys t) = Ok (Some s4, s)"
    and s4: "PairingStep4_has_success s4" "PairingStep4_success s4" "PairingStep4_password s4 = Some pw" "PairingStep4_password_size s4 = length pw"
    and gen: "PairingConnection_genPairingCommitNative (ph_now h) s = Ok (word_of_nat (length c), Some c, s')" "c \<noteq> []" "length c \<le> 254"
    and key: "PairingConnection_getAdminKeyNative s' = Ok (16, k)" "length k = 16"
    and "\<forall>sent p. ph_gatt h sent p = 0" "has_pairing_result (pt_conn t)"
  shows "\<exists>ps t'. write_pairing_commit h t = Ok (0, t') \<and> pt_sent t' = pt_sent t @ ps \<and> cut_frame c ps \<and> notifications t' = notifications t \<and>
    pt_keys t' = s' \<and> (ph_ends h \<longrightarrow> \<not> pc_linked (pt_conn t')) \<and> pairing_step (pt_conn t') = BLE_PAIRING_DONE \<and>
    pr_password (pairing_result (pt_conn t')) = Some pw \<and>
    pt_returned t' = Some \<lparr>front_addr = pr_addr (pairing_result (pt_conn t)), front_successed = True, front_has_key = True, front_key = Some k\<rparr>"
proof -
  have "unat (word_of_nat (length c) :: i32) = length c" using gen(3) by (intro small_int_word(2)) simp
  then have nz: "(word_of_nat (length c) :: i32) \<noteq> 0" using gen(2) by force
  let ?r = "(bleReleaseResultPassword (pairing_result (pt_conn t)))\<lparr>pr_has_password := True, pr_password_size := length pw, pr_password := Some pw\<rparr>"
  let ?t = "t\<lparr>pt_conn := (pt_conn t)\<lparr>pairing_result := ?r\<rparr>, pt_keys := s'\<rparr>"
  have pw: "bleSetPairingResultPassword True (Some pw) (length pw) (pairing_result (pt_conn t)) = Ok ?r"
    by (simp add: bleSetPairingResultPassword_def block_read_def mem_slice_def)
  obtain ps where ps: "send_step h c (length c) ?t = Ok (True, ?t\<lparr>pt_sent := pt_sent ?t @ ps\<rparr>)" "cut_frame c ps"
    using send_step_packets [OF assms(12) gen(3)] by blast
  have rel: "pr_addr (bleReleaseResultPassword r) = pr_addr r" "pr_addr (bleReleaseResultAdminKey r) = pr_addr r"
    "pr_password (bleReleaseResultAdminKey r) = pr_password r" for r
    by (simp_all add: bleReleaseResultPassword_def bleReleaseResultAdminKey_def)
  show ?thesis
    using assms(1,13) rec s4 gen(1,3) nz pw ps key scast_small [of "length c"]
    by (intro exI [of _ ps]) (simp add: write_pairing_commit_def full_buffer_read Let_def bleSetPairingResultAdminKey_def block_read_def mem_slice_def
        end_pairing_gatt_def pairing_result_return_def bleSetBleResult_pairing_def bleSetPairingSuccess_def rel)
qed

section \<open>The pass over the table\<close>

fun run_rows :: "(nat \<Rightarrow> 'w \<Rightarrow> (int \<times> 'w) res) \<Rightarrow> fsm_table list \<Rightarrow> 'w \<Rightarrow> (int \<times> 'w) res" where
  "run_rows f [] w = Ok (0, w)"
| "run_rows f (row # rows) w = bindR (f (f_eventActFun row) w) (\<lambda>(r, w). if r \<noteq> 0 then Ok (- 1, w) else run_rows f rows w)"

lemma FSMHandle_loop_rows:
  assumes act: "\<And>k a s w. act k a s w = bindR (f k w) (\<lambda>(r, w). Ok (r, s, w))"
  shows "q_tasks s a = Some t \<Longrightarrow> t_task_sm_table t = Some (us @ rows) \<Longrightarrow> length us = i \<Longrightarrow> in_order (t_cur_state t) rows \<Longrightarrow>
    run_rows f rows w = Ok (0, w') \<Longrightarrow> \<exists>s'. FSMHandle_loop act (i + length rows) i a s w = Ok (0, s', w')"
proof (induction rows arbitrary: us i s t w)
  case Nil
  then show ?case by (subst FSMHandle_loop.simps) simp
next
  case (Cons row rows)
  let ?t = "t\<lparr>t_cur_state := f_next_state row\<rparr>"
  have row: "table_row t i = Ok row" using Cons.prems by (simp add: table_row_def nth_append)
  obtain w1 where w1: "f (f_eventActFun row) w = Ok (0, w1)" "run_rows f rows w1 = Ok (0, w')"
    using Cons.prems(5) by (auto simp: bindR_eq_Ok split: if_splits)
  obtain s' where "FSMHandle_loop act (i + 1 + length rows) (i + 1) a (with_state s a t (f_next_state row)) w1 = Ok (0, s', w')"
    using Cons.IH [of "with_state s a t (f_next_state row)" ?t "us @ [row]" "i + 1" w1] Cons.prems w1(2) by (auto simp: with_state_def)
  then show ?case
    using Cons.prems(1,4) row w1(1)
    by (subst FSMHandle_loop.simps) (simp add: act task_at_def set_cur_state_def with_state_def)
qed

text \<open>A pass whose actions do not all return does not return either.\<close>
lemma FSMHandle_loop_fault:
  assumes act: "\<And>k a s w. act k a s w = bindR (f k w) (\<lambda>(r, w). Ok (r, s, w))"
  shows "q_tasks s a = Some t \<Longrightarrow> t_task_sm_table t = Some (us @ rows) \<Longrightarrow> length us = i \<Longrightarrow> in_order (t_cur_state t) rows \<Longrightarrow>
    run_rows f rows w = Fault e \<Longrightarrow> FSMHandle_loop act (i + length rows) i a s w = Fault e"
proof (induction rows arbitrary: us i s t w)
  case (Cons row rows)
  let ?t = "t\<lparr>t_cur_state := f_next_state row\<rparr>"
  have row: "table_row t i = Ok row" using Cons.prems by (simp add: table_row_def nth_append)
  show ?case
  proof (cases "f (f_eventActFun row) w")
    case (Fault e')
    then show ?thesis using Cons.prems(1,4,5) row by (subst FSMHandle_loop.simps) (simp add: act task_at_def)
  next
    case (Ok p)
    then obtain w1 where w1: "f (f_eventActFun row) w = Ok (0, w1)" "run_rows f rows w1 = Fault e"
      using Cons.prems(5) by (cases p) (simp split: if_splits)
    have "FSMHandle_loop act (i + 1 + length rows) (i + 1) a (with_state s a t (f_next_state row)) w1 = Fault e"
      by (rule Cons.IH [of "with_state s a t (f_next_state row)" ?t "us @ [row]" "i + 1" w1]) (use Cons.prems w1(2) in \<open>simp_all add: with_state_def\<close>)
    then show ?thesis
      using Cons.prems(1,4) row w1(1)
      by (subst FSMHandle_loop.simps) (simp add: act task_at_def set_cur_state_def with_state_def)
  qed
qed simp

lemma pairing_pass:
  assumes "q_tasks s a = Some t" "t_task_sm_table t = Some pairing_fsm_table" "t_sm_table_len t = 6" "t_cur_state t = 0"
    and "run_rows (pairing_action h) pairing_fsm_table w = Ok (0, w')"
  shows "\<exists>s'. FSMHandle (pairing_task_action h) a s w = Ok (0, s', w')"
proof -
  have o: "in_order (t_cur_state t) pairing_fsm_table" by (simp add: assms(4) pairing_fsm_table_def)
  have n: "length pairing_fsm_table = 6" by (simp add: pairing_fsm_table_def)
  have "\<exists>s'. FSMHandle_loop (pairing_task_action h) (0 + length pairing_fsm_table) 0 a s w = Ok (0, s', w')"
    by (rule FSMHandle_loop_rows [where us = "[]" and f = "pairing_action h", OF _ assms(1) _ _ o assms(5)])
      (simp_all add: assms(2) pairing_task_action_def)
  then show ?thesis using assms(1-3) n by (simp add: FSMHandle_def task_at_def)
qed

lemma pairing_pass_fault:
  assumes "q_tasks s a = Some t" "t_task_sm_table t = Some pairing_fsm_table" "t_sm_table_len t = 6" "t_cur_state t = 0"
    and "run_rows (pairing_action h) pairing_fsm_table w = Fault e"
  shows "FSMHandle (pairing_task_action h) a s w = Fault e"
proof -
  have o: "in_order (t_cur_state t) pairing_fsm_table" by (simp add: assms(4) pairing_fsm_table_def)
  have n: "length pairing_fsm_table = 6" by (simp add: pairing_fsm_table_def)
  have "FSMHandle_loop (pairing_task_action h) (0 + length pairing_fsm_table) 0 a s w = Fault e"
    by (rule FSMHandle_loop_fault [where us = "[]" and f = "pairing_action h", OF _ assms(1) _ _ o assms(5)])
      (simp_all add: assms(2) pairing_task_action_def)
  then show ?thesis using assms(1-3) n by (simp add: FSMHandle_def task_at_def)
qed

end
