(* ===== verification/Wifi_Receiver.thy ===== *)
theory Wifi_Receiver
  imports Ble_Framing
begin

text \<open>
  How the WiFi service collects a message from the packets a client writes: the receiver \<open>RecvData\<close> of
  \<open>wifi_service/pairing.c\<close>.  A pointer to a receiver is an option, \<open>None\<close> is NULL; a pointer to such a pointer is an
  option of an option.  A call of \<open>malloc\<close> succeeds and gives a block whose contents are the parameter \<open>junk\<close>.
\<close>

section \<open>The code\<close>

datatype RCEV_STATUS = NONE | GOT_PREV_DATA | FINISHED_SUCCESS | FINISHED_ERROR

record RecvData =
  rd_data :: block_ptr
  rd_data_len :: u32
  rd_recv_len :: u32
  rd_n_size_byte :: u32
  rd_pkg_len :: u32
  rd_status :: RCEV_STATUS

text \<open>The result is the length returned, \<open>*n_size_byte\<close> and \<open>*pkg_len\<close>.\<close>
definition getDataLength :: "bytes \<Rightarrow> (u32 \<times> u32 \<times> u32) res" where
  "getDataLength data = bindR (mem_byte data 0) (\<lambda>d0.
     if d0 = 0xff then
       bindR (mem_byte data 1) (\<lambda>d1. bindR (mem_byte data 2) (\<lambda>d2.
         let n_size_byte = 3; temp_result = (push_bit 8 (ucast d1) OR ucast d2) + n_size_byte in
         Ok (temp_result, n_size_byte, temp_result - n_size_byte)))
     else let n_size_byte = 1 in Ok (ucast d0 + n_size_byte, n_size_byte, ucast d0))"

definition freeRecvAllocData :: "RecvData option \<Rightarrow> nat \<times> RecvData option" where
  "freeRecvAllocData p = (case p of
     None \<Rightarrow> (1, p)
   | Some r \<Rightarrow>
       if rd_data r = None then (1, p)
       else (0, Some (r\<lparr>rd_data := None, rd_data_len := 0, rd_recv_len := 0, rd_n_size_byte := 0, rd_pkg_len := 0\<rparr>)))"

definition allocRecvData :: "(nat \<Rightarrow> u8) \<Rightarrow> RecvData option \<Rightarrow> u64 \<Rightarrow> nat \<times> RecvData option" where
  "allocRecvData junk p data_len = (case p of
     None \<Rightarrow> (1, p)
   | Some r \<Rightarrow>
       if rd_data r \<noteq> None then (1, p)
       else (0, Some (r\<lparr>rd_data_len := ucast data_len, rd_recv_len := 0, rd_data := Some (fresh_block junk (unat data_len))\<rparr>)))"

definition setRecvDataStatus :: "RecvData option \<Rightarrow> RCEV_STATUS \<Rightarrow> nat \<times> RecvData option" where
  "setRecvDataStatus p status = (case p of None \<Rightarrow> (1, p) | Some r \<Rightarrow> (0, Some (r\<lparr>rd_status := status\<rparr>)))"

definition isRecvDataAlloc :: "RecvData \<Rightarrow> bool" where
  "isRecvDataAlloc r \<longleftrightarrow> rd_data r = None"

definition isRecvFullPkg :: "RecvData \<Rightarrow> bool" where
  "isRecvFullPkg r \<longleftrightarrow> rd_recv_len r = rd_data_len r"

definition copyData :: "RecvData option \<Rightarrow> bytes \<Rightarrow> u16 \<Rightarrow> (nat \<times> RecvData option) res" where
  "copyData p data data_length = (case p of
     None \<Rightarrow> Ok (1, p)
   | Some r \<Rightarrow>
       (case rd_data r of
          None \<Rightarrow> Ok (2, p)
        | Some d \<Rightarrow>
            if rd_data_len r < rd_recv_len r + ucast data_length then Ok (3, p)
            else bindR (mem_slice data 0 (unat data_length)) (\<lambda>src.
              bindR (mem_write d (unat (rd_recv_len r)) src) (\<lambda>d.
                Ok (0, Some (r\<lparr>rd_data := Some d, rd_recv_len := rd_recv_len r + ucast data_length\<rparr>))))))"

definition resetRecvData :: "RecvData option \<Rightarrow> RecvData option" where
  "resetRecvData p = (case p of
     None \<Rightarrow> p
   | Some r \<Rightarrow>
       let p = (if rd_data r \<noteq> None then snd (freeRecvAllocData p) else p) in
       snd (setRecvDataStatus p NONE))"

text \<open>The test \<open>recv_pairing_data && isRecvFullPkg(recv_pairing_data)\<close>.\<close>
definition full_pkg :: "RecvData option \<Rightarrow> bool" where
  "full_pkg p = (case p of None \<Rightarrow> False | Some r \<Rightarrow> isRecvFullPkg r)"

definition recvData :: "(nat \<Rightarrow> u8) \<Rightarrow> RecvData option \<Rightarrow> bytes \<Rightarrow> u16 \<Rightarrow> RecvData option res" where
  "recvData junk p data data_length = (case p of
     None \<Rightarrow> Ok p
   | Some r \<Rightarrow>
       (case rd_status r of
          NONE \<Rightarrow>
            bindR (getDataLength data) (\<lambda>(pkg_len, n, pkg).
            let (err, p) = allocRecvData junk (Some (r\<lparr>rd_n_size_byte := n, rd_pkg_len := pkg\<rparr>)) (ucast pkg_len) in
            if err \<noteq> 0 then Ok p
            else bindR (copyData p data data_length) (\<lambda>(err, p).
              if err \<noteq> 0 then Ok p
              else if full_pkg p then Ok (snd (setRecvDataStatus p FINISHED_SUCCESS))
              else Ok (snd (setRecvDataStatus p GOT_PREV_DATA))))
        | GOT_PREV_DATA \<Rightarrow>
            bindR (copyData p data data_length) (\<lambda>(err, p).
              if full_pkg p then Ok (snd (setRecvDataStatus p FINISHED_SUCCESS)) else Ok p)
        | FINISHED_SUCCESS \<Rightarrow> Ok p
        | FINISHED_ERROR \<Rightarrow> Ok p))"

definition initRecvData :: "RecvData option \<Rightarrow> nat \<times> RecvData option" where
  "initRecvData p = (case p of
     None \<Rightarrow> (1, p)
   | Some r \<Rightarrow> (0, Some \<lparr>rd_data = None, rd_data_len = 0, rd_recv_len = 0, rd_n_size_byte = 0, rd_pkg_len = 0, rd_status = NONE\<rparr>))"

text \<open>The block from \<open>malloc\<close> has the contents \<open>fresh\<close>.\<close>
definition getRecvData :: "RecvData \<Rightarrow> RecvData option option \<Rightarrow> nat \<times> RecvData option option" where
  "getRecvData fresh pp = (case pp of
     None \<Rightarrow> (1, pp) | Some (Some r) \<Rightarrow> (1, pp) | Some None \<Rightarrow> (0, Some (Some fresh)))"

definition freeRecvData :: "RecvData option option \<Rightarrow> nat \<times> RecvData option option" where
  "freeRecvData pp = (case pp of
     None \<Rightarrow> (1, pp) | Some None \<Rightarrow> (1, pp) | Some (Some r) \<Rightarrow> (0, Some None))"

text \<open>The second component is \<open>*return_size\<close> if it was written; \<open>room\<close> says whether \<open>return_size\<close> is not NULL.\<close>
definition getRecvPkgLen :: "RecvData option \<Rightarrow> bool \<Rightarrow> nat \<times> u64 option" where
  "getRecvPkgLen p room = (case p of
     None \<Rightarrow> (1, None)
   | Some r \<Rightarrow> if rd_data r = None then (1, None) else if \<not> room then (1, None) else (0, Some (ucast (rd_pkg_len r))))"

definition getPkgFromRecvData :: "RecvData option \<Rightarrow> block_ptr \<Rightarrow> (nat \<times> block_ptr) res" where
  "getPkgFromRecvData p step_pkg_data = (case p of
     None \<Rightarrow> Ok (1, step_pkg_data)
   | Some r \<Rightarrow>
       (case rd_data r of
          None \<Rightarrow> Ok (1, step_pkg_data)
        | Some d \<Rightarrow>
            (case step_pkg_data of
               None \<Rightarrow> Ok (1, step_pkg_data)
             | Some to \<Rightarrow>
                 bindR (mem_slice d (unat (rd_n_size_byte r)) (unat (rd_pkg_len r))) (\<lambda>src.
                 bindR (mem_write to 0 src) (\<lambda>to. Ok (0, Some to))))))"

section \<open>Frames\<close>

text \<open>The frame of a message as the receiver reads it.\<close>
definition frame_head :: "nat \<Rightarrow> bytes" where
  "frame_head n = (if n < 255 then [word_of_nat n] else [0xff, word_of_nat (n div 256), word_of_nat n])"

definition wifi_frame :: "bytes \<Rightarrow> bytes" where
  "wifi_frame m = frame_head (length m) @ m"

text \<open>The packets of a client, written one after the other.\<close>
fun recv_all :: "(nat \<Rightarrow> u8) \<Rightarrow> bytes list \<Rightarrow> RecvData option \<Rightarrow> RecvData option res" where
  "recv_all junk [] p = Ok p"
| "recv_all junk (d # ds) p = bindR (recvData junk p d (word_of_nat (length d))) (recv_all junk ds)"

definition recv_empty :: RecvData where
  "recv_empty = \<lparr>rd_data = None, rd_data_len = 0, rd_recv_len = 0, rd_n_size_byte = 0, rd_pkg_len = 0, rd_status = NONE\<rparr>"

lemma fresh_receiver: "snd (initRecvData (Some r)) = Some recv_empty"
  by (simp add: initRecvData_def recv_empty_def)

text \<open>Of the frame \<open>f\<close> with a head of \<open>h\<close> bytes the first \<open>k\<close> bytes have arrived.\<close>
definition holds_front :: "nat \<Rightarrow> bytes \<Rightarrow> nat \<Rightarrow> RecvData \<Rightarrow> bool" where
  "holds_front h f k r \<longleftrightarrow> k \<le> length f \<and>
     (\<exists>d. rd_data r = Some d \<and> length d = length f \<and> take k d = take k f) \<and>
     rd_data_len r = word_of_nat (length f) \<and> rd_recv_len r = word_of_nat k \<and>
     rd_n_size_byte r = word_of_nat h \<and> rd_pkg_len r = word_of_nat (length f - h) \<and>
     rd_status r = (if k = length f then FINISHED_SUCCESS else GOT_PREV_DATA)"

lemma unat_small_32: "n < 2 ^ 17 \<Longrightarrow> unat (word_of_nat n :: u32) = n"
  by (simp add: unat_of_nat take_bit_nat_eq_self)

lemma unat_len_16: "n < 2 ^ 16 \<Longrightarrow> unat (word_of_nat n :: u16) = n"
  by (simp add: unat_of_nat take_bit_nat_eq_self)

lemma word_eq_32: "a < 2 ^ 17 \<Longrightarrow> b < 2 ^ 17 \<Longrightarrow> (word_of_nat a :: u32) = word_of_nat b \<longleftrightarrow> a = b"
  by (metis unat_small_32)

lemma ucast_len: "n < 2 ^ 16 \<Longrightarrow> (ucast (word_of_nat n :: u16) :: u32) = word_of_nat n"
  by (simp add: word_unat_eq_iff unat_ucast_take_bit unat_len_16 unat_small_32 take_bit_nat_eq_self)

section \<open>Collecting a frame\<close>

lemma two_bytes:
  assumes "n < 2 ^ 16"
  shows "push_bit 8 (ucast (word_of_nat (n div 256) :: u8)) OR ucast (word_of_nat n :: u8) = (word_of_nat n :: u32)"
proof (rule bit_word_eqI)
  fix k assume k: "k < LENGTH(32)"
  have d: "n div 256 = drop_bit 8 n" by (simp add: drop_bit_eq_div)
  have high: "\<not> bit n k" if "16 \<le> k"
    using assms that take_bit_nat_eq_self [of n 16] by (metis bit_take_bit_iff not_less)
  show "bit (push_bit 8 (ucast (word_of_nat (n div 256) :: u8)) OR ucast (word_of_nat n :: u8) :: u32) k =
      bit (word_of_nat n :: u32) k"
    using k high unfolding d by (cases "k < 8"; cases "k < 16") (auto simp: bit_simps)
qed

lemma wifi_frame_length: "length (wifi_frame m) = length (frame_head (length m)) + length m"
  by (simp add: wifi_frame_def)

lemma head_length: "length (frame_head n) = (if n < 255 then 1 else 3)"
  by (simp add: frame_head_def)

lemma front_nth: "d @ r = f \<Longrightarrow> i < length d \<Longrightarrow> d ! i = f ! i"
  by (auto simp: nth_append)

lemma getDataLength_frame:
  assumes m: "length m < 2 ^ 16" and d: "d @ r = wifi_frame m" "length (frame_head (length m)) \<le> length d"
  shows "getDataLength d = Ok (word_of_nat (length (wifi_frame m)), word_of_nat (length (frame_head (length m))), word_of_nat (length m))"
proof (cases "length m < 255")
  case True
  have "d ! 0 = word_of_nat (length m)"
    using front_nth [OF d(1), of 0] d(2) True by (cases d) (auto simp: wifi_frame_def frame_head_def)
  moreover have "(word_of_nat (length m) :: u8) \<noteq> 0xff"
    using True by (simp add: word_unat_eq_iff unat_of_nat take_bit_nat_eq_self)
  moreover have "(ucast (word_of_nat (length m) :: u8) :: u32) = word_of_nat (length m)"
    using True by (simp add: word_unat_eq_iff unat_ucast_take_bit unat_of_nat take_bit_nat_eq_self)
  ultimately show ?thesis
    using d(2) True by (cases d) (simp_all add: getDataLength_def mem_byte_def head_length wifi_frame_length add.commute)
next
  case False
  have l: "3 \<le> length d" using d(2) False by (simp add: head_length)
  have "d ! 0 = 0xff" "d ! 1 = word_of_nat (length m div 256)" "d ! 2 = word_of_nat (length m)"
    using front_nth [OF d(1), of 0] front_nth [OF d(1), of 1] front_nth [OF d(1), of 2] l False
    by (simp_all only: wifi_frame_def frame_head_def if_False) simp_all
  moreover have "d \<noteq> []" using l by auto
  ultimately show ?thesis
    using d(2) False two_bytes [OF m]
    by (simp add: getDataLength_def mem_byte_def head_length wifi_frame_length add.commute)
qed

lemma copyData_front:
  assumes f: "length f < 2 ^ 17" and k: "k + length d \<le> length f" and d: "take (length d) (drop k f) = d"
    and r: "rd_data r = Some b" "length b = length f" "take k b = take k f"
      "rd_data_len r = word_of_nat (length f)" "rd_recv_len r = word_of_nat k" and short: "length d < 2 ^ 16"
  shows "\<exists>b'. copyData (Some r) d (word_of_nat (length d)) =
      Ok (0, Some (r\<lparr>rd_data := Some b', rd_recv_len := word_of_nat (k + length d)\<rparr>)) \<and>
    length b' = length f \<and> take (k + length d) b' = take (k + length d) f"
proof -
  let ?b = "take k b @ d @ drop (k + length d) b"
  have "(word_of_nat k + word_of_nat (length d) :: u32) = word_of_nat (k + length d)" by simp
  then have guard: "\<not> rd_data_len r < rd_recv_len r + ucast (word_of_nat (length d) :: u16)"
    using r f k short by (simp add: ucast_len word_less_nat_alt unat_small_32 del: of_nat_add)
  have w: "mem_write b (unat (rd_recv_len r)) d = Ok ?b"
    using r k f by (simp add: mem_write_def unat_small_32)
  have s: "mem_slice d 0 (unat (word_of_nat (length d) :: u16)) = Ok d"
    using short by (simp add: mem_slice_def unat_len_16)
  have "take (k + length d) ?b = take k f @ d" using r k by simp
  also have "\<dots> = take (k + length d) f" using d by (simp add: take_add)
  finally show ?thesis
    using guard w s r short k by (intro exI [of _ ?b]) (simp add: copyData_def ucast_len)
qed

lemma full_iff:
  assumes "length f < 2 ^ 17" "k \<le> length f" "rd_data_len r = word_of_nat (length f)" "rd_recv_len r = word_of_nat k"
  shows "full_pkg (Some r) \<longleftrightarrow> k = length f"
  using assms word_eq_32 [of k "length f"] by (auto simp: full_pkg_def isRecvFullPkg_def)

text \<open>The first packet allots the block and fills its front; a later packet continues it.\<close>
lemma recvData_first:
  assumes m: "length m < 2 ^ 16" and d: "d @ r = wifi_frame m" "length (frame_head (length m)) \<le> length d" "length d < 2 ^ 16"
  shows "\<exists>r'. recvData junk (Some recv_empty) d (word_of_nat (length d)) = Ok (Some r') \<and>
    holds_front (length (frame_head (length m))) (wifi_frame m) (length d) r'"
proof -
  let ?f = "wifi_frame m" and ?h = "length (frame_head (length m))"
  have f: "length ?f < 2 ^ 17" using m by (simp add: wifi_frame_length head_length)
  have l: "length ?f - ?h = length m" by (simp add: wifi_frame_length)
  let ?r = "recv_empty\<lparr>rd_n_size_byte := word_of_nat ?h, rd_pkg_len := word_of_nat (length m),
    rd_data_len := word_of_nat (length ?f), rd_recv_len := 0, rd_data := Some (fresh_block junk (length ?f))\<rparr>"
  have u: "unat (ucast (word_of_nat (length ?f) :: u32) :: u64) = length ?f"
    "(ucast (ucast (word_of_nat (length ?f) :: u32) :: u64) :: u32) = word_of_nat (length ?f)"
    using f by (simp_all add: word_unat_eq_iff unat_ucast_take_bit unat_small_32 take_bit_nat_eq_self)
  have a: "allocRecvData junk (Some (recv_empty\<lparr>rd_n_size_byte := word_of_nat ?h, rd_pkg_len := word_of_nat (length m)\<rparr>))
      (ucast (word_of_nat (length ?f) :: u32)) = (0, Some ?r)"
    using u by (simp add: allocRecvData_def recv_empty_def)
  have dl: "length d \<le> length ?f" "take (length d) ?f = d" by (simp_all flip: d(1))
  obtain b' where c: "copyData (Some ?r) d (word_of_nat (length d)) = Ok (0, Some (?r\<lparr>rd_data := Some b', rd_recv_len := word_of_nat (length d)\<rparr>))"
    "length b' = length ?f" "take (length d) b' = take (length d) ?f"
    using copyData_front [OF f, of 0 d ?r "fresh_block junk (length ?f)"] dl d(3) by auto
  let ?r2 = "?r\<lparr>rd_data := Some b', rd_recv_len := word_of_nat (length d)\<rparr>"
  have full: "full_pkg (Some ?r2) \<longleftrightarrow> length d = length ?f" by (rule full_iff [OF f dl(1)]) simp_all
  have s: "rd_status recv_empty = NONE" by (simp add: recv_empty_def)
  show ?thesis
    using getDataLength_frame [OF m d(1,2)] a c full dl l
    by (intro exI [of _ "?r2\<lparr>rd_status := if length d = length ?f then FINISHED_SUCCESS else GOT_PREV_DATA\<rparr>"])
      (simp add: recvData_def s setRecvDataStatus_def holds_front_def)
qed

lemma recvData_next:
  assumes f: "length f < 2 ^ 17" and r: "holds_front h f k r" and k: "k < length f"
    and d: "k + length d \<le> length f" "take (length d) (drop k f) = d" "length d < 2 ^ 16"
  shows "\<exists>r'. recvData junk (Some r) d (word_of_nat (length d)) = Ok (Some r') \<and> holds_front h f (k + length d) r'"
proof -
  obtain b where b: "rd_data r = Some b" "length b = length f" "take k b = take k f"
    using r by (auto simp: holds_front_def)
  obtain b' where c: "copyData (Some r) d (word_of_nat (length d)) = Ok (0, Some (r\<lparr>rd_data := Some b', rd_recv_len := word_of_nat (k + length d)\<rparr>))"
    "length b' = length f" "take (k + length d) b' = take (k + length d) f"
    using copyData_front [OF f d(1,2) b _ _ d(3)] r by (auto simp: holds_front_def)
  let ?r = "r\<lparr>rd_data := Some b', rd_recv_len := word_of_nat (k + length d)\<rparr>"
  have full: "full_pkg (Some ?r) \<longleftrightarrow> k + length d = length f"
    by (rule full_iff [OF f d(1)]) (use r in \<open>simp_all add: holds_front_def\<close>)
  have s: "rd_status r = GOT_PREV_DATA" using r k by (simp add: holds_front_def)
  show ?thesis
    using c full r d(1)
    by (intro exI [of _ "if k + length d = length f then ?r\<lparr>rd_status := FINISHED_SUCCESS\<rparr> else ?r"])
      (auto simp: recvData_def s setRecvDataStatus_def holds_front_def simp del: of_nat_add)
qed

lemma recvData_finished:
  "rd_status r = FINISHED_SUCCESS \<Longrightarrow> recvData junk (Some r) d n = Ok (Some r)"
  by (simp add: recvData_def)

lemma recv_all_rest:
  assumes f: "length f < 2 ^ 17"
  shows "holds_front h f k r \<Longrightarrow> drop k f = concat ds \<Longrightarrow> \<forall>d \<in> set ds. length d < 2 ^ 16 \<Longrightarrow>
    \<exists>r'. recv_all junk ds (Some r) = Ok (Some r') \<and> holds_front h f (length f) r'"
proof (induction ds arbitrary: k r)
  case Nil
  then have "k = length f" by (auto simp: holds_front_def)
  then show ?case using Nil by simp
next
  case (Cons d ds)
  have k: "k \<le> length f" using Cons.prems by (simp add: holds_front_def)
  show ?case
  proof (cases "k = length f")
    case True
    then have "\<forall>x \<in> set (d # ds). x = []" using Cons.prems(2) by simp
    moreover have "recvData junk (Some r) d (word_of_nat (length d)) = Ok (Some r)"
      using Cons.prems(1) True by (simp add: recvData_finished holds_front_def)
    ultimately show ?thesis using Cons.IH [OF Cons.prems(1)] Cons.prems True by simp
  next
    case False
    have "length d + length (concat ds) = length f - k" using Cons.prems(2) by (metis concat.simps(2) length_append length_drop)
    then have d: "k + length d \<le> length f" "take (length d) (drop k f) = d" "length d < 2 ^ 16"
      using Cons.prems k by auto
    obtain r' where r': "recvData junk (Some r) d (word_of_nat (length d)) = Ok (Some r')" "holds_front h f (k + length d) r'"
      using recvData_next [OF f Cons.prems(1) _ d] False k by auto
    have "drop (k + length d) f = concat ds"
      using Cons.prems(2) by (metis append_eq_conv_conj concat.simps(2) drop_drop add.commute)
    then show ?thesis using Cons.IH [OF r'(2)] r'(1) Cons.prems(3) by simp
  qed
qed

text \<open>A frame cut in any way is collected, if the first packet holds its head.\<close>
lemma frame_collected:
  assumes m: "length m < 2 ^ 16" and ds: "concat (d # ds) = wifi_frame m" "length (frame_head (length m)) \<le> length d"
    and short: "\<forall>x \<in> set (d # ds). length x < 2 ^ 16"
  shows "\<exists>r. recv_all junk (d # ds) (Some recv_empty) = Ok (Some r) \<and>
    holds_front (length (frame_head (length m))) (wifi_frame m) (length (wifi_frame m)) r"
proof -
  have d: "d @ concat ds = wifi_frame m" using ds(1) by simp
  obtain r where r: "recvData junk (Some recv_empty) d (word_of_nat (length d)) = Ok (Some r)"
    "holds_front (length (frame_head (length m))) (wifi_frame m) (length d) r"
    using recvData_first [OF m d ds(2)] short by auto
  have f: "length (wifi_frame m) < 2 ^ 17" using m by (simp add: wifi_frame_length head_length)
  have "drop (length d) (wifi_frame m) = concat ds" by (simp flip: d)
  then show ?thesis using recv_all_rest [OF f r(2)] r(1) short by simp
qed

text \<open>What a finished receiver hands over.\<close>
lemma collected_message:
  assumes m: "length m < 2 ^ 16" and r: "holds_front (length (frame_head (length m))) (wifi_frame m) (length (wifi_frame m)) r"
  shows "isRecvFullPkg r" "getRecvPkgLen (Some r) True = (0, Some (word_of_nat (length m)))"
    "length room = length m \<Longrightarrow> getPkgFromRecvData (Some r) (Some room) = Ok (0, Some m)"
    "resetRecvData (Some r) = Some recv_empty"
proof -
  obtain b where b: "rd_data r = Some b" "length b = length (wifi_frame m)" "b = wifi_frame m"
    using r by (auto simp: holds_front_def)
  have l: "length (wifi_frame m) - length (frame_head (length m)) = length m" by (simp add: wifi_frame_length)
  have u: "unat (word_of_nat (length (frame_head (length m))) :: u32) = length (frame_head (length m))"
    "unat (word_of_nat (length m) :: u32) = length m"
    using m by (simp_all add: unat_small_32 head_length)
  show "isRecvFullPkg r" using r by (simp add: isRecvFullPkg_def holds_front_def)
  have "(ucast (word_of_nat (length m) :: u32) :: u64) = word_of_nat (length m)"
    using m by (simp add: word_unat_eq_iff unat_ucast_take_bit unat_small_32 unat_of_nat take_bit_nat_eq_self)
  then show "getRecvPkgLen (Some r) True = (0, Some (word_of_nat (length m)))"
    using r b l by (simp add: getRecvPkgLen_def holds_front_def)
  show "getPkgFromRecvData (Some r) (Some room) = Ok (0, Some m)" if "length room = length m"
    using r b u l that
    by (simp add: getPkgFromRecvData_def holds_front_def mem_slice_def mem_write_def wifi_frame_def)
  show "resetRecvData (Some r) = Some recv_empty"
    using b by (simp add: resetRecvData_def freeRecvAllocData_def setRecvDataStatus_def recv_empty_def)
qed

section \<open>Any packets\<close>

text \<open>The sizes of a receiver fit its block; a receiver that waits for a first packet holds nothing, or
  is stuck with a block no packet can fill.\<close>
definition recv_ok :: "RecvData \<Rightarrow> bool" where
  "recv_ok r \<longleftrightarrow>
     (case rd_data r of None \<Rightarrow> rd_status r = NONE
      | Some d \<Rightarrow> length d = unat (rd_data_len r) \<and> rd_recv_len r \<le> rd_data_len r \<and> rd_data_len r \<le> 65538 \<and>
          (rd_status r \<noteq> NONE \<longrightarrow> unat (rd_n_size_byte r) + unat (rd_pkg_len r) = length d) \<and>
          (rd_status r = NONE \<longrightarrow> rd_recv_len r = 0 \<and> 0 < rd_data_len r))"

text \<open>A packet the receiver can read the length of.\<close>
definition packet_readable :: "bytes \<Rightarrow> bool" where
  "packet_readable d \<longleftrightarrow> d \<noteq> [] \<and> (d ! 0 = 0xff \<longrightarrow> 3 \<le> length d) \<and> length d < 2 ^ 16"

lemma getDataLength_readable:
  assumes "packet_readable d"
  shows "\<exists>t n p. getDataLength d = Ok (t, n, p) \<and> unat n + unat p = unat t \<and> 0 < unat t \<and> unat t \<le> 65538"
proof (cases "d ! 0 = 0xff")
  case True
  let ?w = "push_bit 8 (ucast (d ! 1)) OR ucast (d ! 2) :: u32"
  have b: "unat (d ! 1) < 256" "unat (d ! 2) < 256" using unsigned_less [of "d ! 1"] unsigned_less [of "d ! 2"] by simp_all
  let ?n = "unat (d ! 1) * 256 + unat (d ! 2)"
  have "?n div 256 = unat (d ! 1)" "(word_of_nat ?n :: u8) = d ! 2"
    using b by (simp_all add: word_unat_eq_iff unat_of_nat take_bit_eq_mod del: of_nat_add of_nat_mult)
  then have "?w = word_of_nat ?n"
    using two_bytes [of ?n] b by (simp del: of_nat_add of_nat_mult)
  then have w: "unat ?w < 65536" using b by (simp add: unat_small_32 del: of_nat_add of_nat_mult)
  have "unat (?w + 3) = unat ?w + 3" using w by (simp add: unat_word_ariths)
  then show ?thesis using assms True w
    by (simp add: getDataLength_def mem_byte_def packet_readable_def)
next
  case False
  let ?w = "ucast (d ! 0) :: u32"
  have b: "unat (d ! 0) < 256" using unsigned_less [of "d ! 0"] by simp
  then have w: "unat ?w < 256" by (simp add: unat_ucast_take_bit take_bit_nat_eq_self)
  have "unat (?w + 1) = unat ?w + 1" using w by (simp add: unat_word_ariths)
  then show ?thesis using assms False w
    by (simp add: getDataLength_def mem_byte_def packet_readable_def)
qed


lemma copyData_ok:
  assumes r: "recv_ok r" "rd_data r = Some b" and d: "length d < 2 ^ 16"
  shows "copyData (Some r) d (word_of_nat (length d)) = Ok (3, Some r) \<or>
    (\<exists>b'. length b' = length b \<and> rd_recv_len r + word_of_nat (length d) \<le> rd_data_len r \<and>
      copyData (Some r) d (word_of_nat (length d)) = Ok (0, Some (r\<lparr>rd_data := Some b', rd_recv_len := rd_recv_len r + word_of_nat (length d)\<rparr>)))"
proof (cases "rd_data_len r < rd_recv_len r + word_of_nat (length d)")
  case True
  then show ?thesis using r d by (simp add: copyData_def ucast_len)
next
  case False
  have b: "length b = unat (rd_data_len r)" "rd_recv_len r \<le> rd_data_len r" "rd_data_len r \<le> 65538"
    using r by (auto simp: recv_ok_def)
  then have l: "unat (rd_recv_len r) \<le> 65538" by (simp add: word_le_nat_alt)
  then have u: "unat (rd_recv_len r + word_of_nat (length d)) = unat (rd_recv_len r) + length d"
    using d by (simp add: unat_word_ariths unat_small_32)
  then have "unat (rd_recv_len r) + length d \<le> length b"
    using False b(1) by (simp add: not_less word_le_nat_alt)
  then show ?thesis
    using False r d b
    by (intro disjI2 exI [of _ "take (unat (rd_recv_len r)) b @ d @ drop (unat (rd_recv_len r) + length d) b"])
      (simp add: copyData_def ucast_len mem_slice_def unat_len_16 mem_write_def)
qed

text \<open>Whatever the packets, the receiver stays in its block and keeps its sizes.\<close>
lemma recvData_ok:
  assumes r: "recv_ok r" and d: "packet_readable d"
  shows "\<exists>r'. recvData junk (Some r) d (word_of_nat (length d)) = Ok (Some r') \<and> recv_ok r'"
proof (cases "rd_status r")
  case NONE
  obtain t n p where t: "getDataLength d = Ok (t, n, p)" "unat n + unat p = unat t" "0 < unat t" "unat t \<le> 65538"
    using getDataLength_readable [OF d] by auto
  have short: "length d < 2 ^ 16" using d by (simp add: packet_readable_def)
  show ?thesis
  proof (cases "rd_data r")
    case (Some b)
    then show ?thesis using NONE t r by (auto simp: recvData_def allocRecvData_def recv_ok_def)
  next
    case None
    let ?r = "r\<lparr>rd_n_size_byte := n, rd_pkg_len := p, rd_data_len := t, rd_recv_len := 0, rd_data := Some (fresh_block junk (unat t))\<rparr>"
    have u: "unat (ucast t :: u64) = unat t" "(ucast (ucast t :: u64) :: u32) = t"
      using t(4) by (simp_all add: word_unat_eq_iff unat_ucast_take_bit take_bit_nat_eq_self)
    have ok: "recv_ok ?r" using t NONE by (simp add: recv_ok_def word_le_nat_alt word_less_nat_alt)
    have a: "allocRecvData junk (Some (r\<lparr>rd_n_size_byte := n, rd_pkg_len := p\<rparr>)) (ucast t) = (0, Some ?r)"
      using None u by (simp add: allocRecvData_def)
    have bd: "rd_data ?r = Some (fresh_block junk (unat t))" by simp
    from copyData_ok [OF ok bd short] show ?thesis
    proof (elim disjE exE conjE)
      assume "copyData (Some ?r) d (word_of_nat (length d)) = Ok (3, Some ?r)"
      then show ?thesis using NONE t a ok by (simp add: recvData_def)
    next
      fix b' assume c: "length b' = length (fresh_block junk (unat t))" "rd_recv_len ?r + word_of_nat (length d) \<le> rd_data_len ?r"
        "copyData (Some ?r) d (word_of_nat (length d)) = Ok (0, Some (?r\<lparr>rd_data := Some b', rd_recv_len := rd_recv_len ?r + word_of_nat (length d)\<rparr>))"
      then show ?thesis using NONE t a ok by (auto simp: recvData_def setRecvDataStatus_def recv_ok_def word_le_nat_alt)
    qed
  qed
next
  case GOT_PREV_DATA
  have short: "length d < 2 ^ 16" using d by (simp add: packet_readable_def)
  obtain b where b: "rd_data r = Some b" using r GOT_PREV_DATA by (auto simp: recv_ok_def split: option.splits)
  from copyData_ok [OF r b short] show ?thesis
  proof (elim disjE exE conjE)
    assume "copyData (Some r) d (word_of_nat (length d)) = Ok (3, Some r)"
    then show ?thesis using GOT_PREV_DATA r b by (auto simp: recvData_def setRecvDataStatus_def recv_ok_def)
  next
    fix b' assume "length b' = length b" "rd_recv_len r + word_of_nat (length d) \<le> rd_data_len r"
      "copyData (Some r) d (word_of_nat (length d)) = Ok (0, Some (r\<lparr>rd_data := Some b', rd_recv_len := rd_recv_len r + word_of_nat (length d)\<rparr>))"
    then show ?thesis using GOT_PREV_DATA r b by (auto simp: recvData_def setRecvDataStatus_def recv_ok_def)
  qed
qed (use r in \<open>simp_all add: recvData_def\<close>)

lemma recv_empty_ok: "recv_ok recv_empty"
  by (simp add: recv_ok_def recv_empty_def)

lemma recv_all_ok:
  "recv_ok r \<Longrightarrow> \<forall>d \<in> set ds. packet_readable d \<Longrightarrow> \<exists>r'. recv_all junk ds (Some r) = Ok (Some r') \<and> recv_ok r'"
proof (induction ds arbitrary: r)
  case (Cons d ds)
  obtain r' where "recvData junk (Some r) d (word_of_nat (length d)) = Ok (Some r')" "recv_ok r'"
    using recvData_ok Cons.prems by (metis list.set_intros(1))
  then show ?case using Cons.IH [of r'] Cons.prems(2) by simp
qed simp

text \<open>A full receiver hands its message over without leaving the block.\<close>
lemma full_message:
  assumes "recv_ok r" "isRecvFullPkg r" "rd_data r \<noteq> None"
  shows "rd_status r \<noteq> NONE \<and> (\<exists>m. length m = unat (rd_pkg_len r) \<and>
    (\<forall>room. length room = unat (rd_pkg_len r) \<longrightarrow> getPkgFromRecvData (Some r) (Some room) = Ok (0, Some m)))"
proof -
  obtain d where d: "rd_data r = Some d" using assms(3) by blast
  have s: "rd_status r \<noteq> NONE" using assms d by (auto simp: recv_ok_def isRecvFullPkg_def)
  then have l: "unat (rd_n_size_byte r) + unat (rd_pkg_len r) = length d" using assms d by (simp add: recv_ok_def)
  then show ?thesis
    using s d by (intro conjI exI [of _ "drop (unat (rd_n_size_byte r)) d"])
      (auto simp: getPkgFromRecvData_def mem_slice_def mem_write_def)
qed

section \<open>What goes wrong\<close>

text \<open>A packet of one byte that starts the long form, and a packet of none, are read past their end.\<close>
lemma short_head_read: "recvData junk (Some recv_empty) [0xff] 1 = Fault OutOfBounds"
  "recvData junk (Some recv_empty) [] 0 = Fault OutOfBounds"
  by (simp_all add: recvData_def recv_empty_def getDataLength_def mem_byte_def)

text \<open>A first packet longer than the length it announces is refused with the block already allotted;
  from then on no packet changes what has arrived, and the receiver is never full.\<close>
definition recv_stuck :: "RecvData \<Rightarrow> bool" where
  "recv_stuck r \<longleftrightarrow> rd_status r = NONE \<and> rd_data r \<noteq> None \<and> rd_recv_len r = 0 \<and> 0 < rd_data_len r"

lemma oversize_first_sticks:
  assumes "packet_readable d" "getDataLength d = Ok (t, n, p)" "unat t < length d"
  shows "\<exists>r. recvData junk (Some recv_empty) d (word_of_nat (length d)) = Ok (Some r) \<and> recv_stuck r"
proof -
  have t: "0 < unat t" "unat t \<le> 65538" using getDataLength_readable [OF assms(1)] assms(2) by auto
  have u: "(ucast (ucast t :: u64) :: u32) = t"
    using t by (simp add: word_unat_eq_iff unat_ucast_take_bit take_bit_nat_eq_self)
  have "length d < 2 ^ 16" using assms(1) by (simp add: packet_readable_def)
  then have "t < ucast (word_of_nat (length d) :: u16)"
    using assms(3) by (simp add: ucast_len word_less_nat_alt unat_small_32)
  then show ?thesis
    using assms(2) t(1) by (simp add: recvData_def recv_empty_def allocRecvData_def copyData_def u recv_stuck_def word_less_nat_alt)
qed

lemma stuck_forever:
  assumes "recv_stuck r" "packet_readable d"
  shows "\<exists>r'. recvData junk (Some r) d (word_of_nat (length d)) = Ok (Some r') \<and> recv_stuck r' \<and> \<not> isRecvFullPkg r'"
  using getDataLength_readable [OF assms(2)] assms(1)
  by (auto simp: recvData_def recv_stuck_def allocRecvData_def isRecvFullPkg_def)

section \<open>A process that reads packets\<close>

text \<open>The packets of a frame: none is empty, and the first holds the head.\<close>
definition packets_of :: "bytes \<Rightarrow> bytes list \<Rightarrow> bool" where
  "packets_of m ds \<longleftrightarrow> concat ds = wifi_frame m \<and> length m < 2 ^ 16 \<and> (\<forall>d \<in> set ds. d \<noteq> [] \<and> length d < 2 ^ 16) \<and>
     length (frame_head (length m)) \<le> length (hd ds)"

definition holds_message :: "bytes \<Rightarrow> RecvData \<Rightarrow> bool" where
  "holds_message m r \<longleftrightarrow> length m < 2 ^ 16 \<and>
     holds_front (length (frame_head (length m))) (wifi_frame m) (length (wifi_frame m)) r"

lemma front_full:
  assumes "length f < 2 ^ 17" "holds_front h f k r"
  shows "isRecvFullPkg r \<longleftrightarrow> k = length f"
  using full_iff [OF assms(1), of k r] assms(2) by (auto simp: holds_front_def full_pkg_def)

text \<open>Both processes of the WiFi service hand every packet to the receiver and act when it is full.  What they do then is
  the parameter \<open>complete\<close>; \<open>write_packet\<close> is the call for one packet.\<close>
locale packet_reader =
  fixes junk :: "nat \<Rightarrow> u8"
    and receiver :: "'w \<Rightarrow> RecvData option"
    and with_receiver :: "RecvData \<Rightarrow> 'w \<Rightarrow> 'w"
    and complete :: "'f \<Rightarrow> 'w \<Rightarrow> ('f \<times> 'w) res"
    and write_packet :: "bytes \<Rightarrow> 'f \<Rightarrow> 'w \<Rightarrow> ('f \<times> 'w) res"
    and write_all :: "bytes list \<Rightarrow> 'f \<Rightarrow> 'w \<Rightarrow> ('f \<times> 'w) res"
  assumes receiver_set: "receiver (with_receiver r w) = Some r"
    and receiver_twice: "with_receiver r (with_receiver r' w) = with_receiver r w"
    and packet_written: "recvData junk (receiver w) v (word_of_nat (length v)) = Ok (Some r) \<Longrightarrow> v \<noteq> [] \<Longrightarrow>
      write_packet v fsm w = (if isRecvFullPkg r then complete fsm (with_receiver r w) else Ok (fsm, with_receiver r w))"
    and write_none: "write_all [] fsm w = Ok (fsm, w)"
    and write_more: "write_all (v # vs) fsm w = bindR (write_packet v fsm w) (\<lambda>(fsm, w). write_all vs fsm w)"
begin

lemma write_one: "write_all [d] fsm w = write_packet d fsm w"
  by (cases "write_packet d fsm w") (auto simp: write_more write_none)

lemma write_rest:
  assumes f: "length f < 2 ^ 17"
  shows "holds_front h f k r \<Longrightarrow> k < length f \<Longrightarrow> drop k f = concat ds \<Longrightarrow> \<forall>d \<in> set ds. d \<noteq> [] \<and> length d < 2 ^ 16 \<Longrightarrow>
    \<exists>r'. write_all ds fsm (with_receiver r w) = complete fsm (with_receiver r' w) \<and> holds_front h f (length f) r'"
proof (induction ds arbitrary: k r)
  case (Cons d ds)
  have l: "length f - k = length d + length (concat ds)" using arg_cong [OF Cons.prems(3), of length] by simp
  have d: "k + length d \<le> length f" "take (length d) (drop k f) = d" "length d < 2 ^ 16" "d \<noteq> []"
    using Cons.prems(2,4) l by (auto simp: Cons.prems(3))
  obtain r1 where r1: "recvData junk (Some r) d (word_of_nat (length d)) = Ok (Some r1)" "holds_front h f (k + length d) r1"
    using recvData_next [OF f Cons.prems(1,2) d(1,2,3)] by blast
  have rest: "drop (k + length d) f = concat ds"
    using arg_cong [OF Cons.prems(3), of "drop (length d)"] by (simp add: add.commute)
  note step = packet_written [of "with_receiver r w" d r1 fsm, unfolded receiver_set receiver_twice, OF r1(1) d(4)]
  show ?case
  proof (cases "k + length d = length f")
    case True
    then have "ds = []" using rest Cons.prems(4) by (cases ds) auto
    then show ?thesis
      using step r1(2) True front_full [OF f r1(2)] by (intro exI [of _ r1]) (simp add: write_one)
  next
    case False
    then show ?thesis
      using step Cons.IH [OF r1(2) _ rest] Cons.prems(4) d(1) front_full [OF f r1(2)] by (simp add: write_more)
  qed
qed auto

theorem message_arrives:
  assumes "packets_of m ds" "receiver w = Some recv_empty"
  shows "\<exists>r. write_all ds fsm w = complete fsm (with_receiver r w) \<and> holds_message m r"
proof -
  have m: "length m < 2 ^ 16" using assms(1) by (simp add: packets_of_def)
  have f: "length (wifi_frame m) < 2 ^ 17" using m by (simp add: wifi_frame_length head_length)
  obtain d ds' where ds: "ds = d # ds'"
    using assms(1) by (cases ds) (auto simp: packets_of_def wifi_frame_def frame_head_def split: if_splits)
  have d: "d @ concat ds' = wifi_frame m" "length (frame_head (length m)) \<le> length d" "length d < 2 ^ 16" "d \<noteq> []"
    "\<forall>d \<in> set ds'. d \<noteq> [] \<and> length d < 2 ^ 16"
    using assms(1) by (simp_all add: packets_of_def ds)
  obtain r1 where r1: "recvData junk (Some recv_empty) d (word_of_nat (length d)) = Ok (Some r1)"
    "holds_front (length (frame_head (length m))) (wifi_frame m) (length d) r1"
    using recvData_first [OF m d(1-3)] by blast
  note step = packet_written [of w d r1 fsm, unfolded assms(2), OF r1(1) d(4)]
  have rest: "drop (length d) (wifi_frame m) = concat ds'" by (simp flip: d(1))
  show ?thesis
  proof (cases "length d = length (wifi_frame m)")
    case True
    then have "ds' = []" using rest d(5) by (cases ds') auto
    then show ?thesis
      using step r1(2) True front_full [OF f r1(2)] m by (intro exI [of _ r1]) (simp add: ds holds_message_def write_one)
  next
    case False
    then have "length d < length (wifi_frame m)" using r1(2) by (simp add: holds_front_def)
    from write_rest [OF f r1(2) this rest d(5), of fsm w] show ?thesis
      using step False front_full [OF f r1(2)] m by (simp add: ds holds_message_def write_more)
  qed
qed

text \<open>Once a message has been collected, every further packet is dropped, and the same message is handled again.\<close>
lemma finished_again:
  assumes "receiver w = Some r" "rd_status r = FINISHED_SUCCESS" "isRecvFullPkg r" "with_receiver r w = w" "v \<noteq> []"
  shows "write_packet v fsm w = complete fsm w"
  using packet_written [of w v r fsm] assms recvData_finished by simp

end

end
