(* ===== verification/Pairing_Server.thy ===== *)
theory Pairing_Server
  imports Pairing Wifi_Receiver
begin

text \<open>
  The other side of pairing: \<open>wifi_service/pairing.c\<close> lets the bridge itself be paired, and answers the messages
  \<open>lock/connection/pairing_connection.c\<close> sends.  The static variables of the file are one record.  Parameters: the
  curve operations as in theory \<open>Pairing\<close>; \<open>rand\<close> and the clock; \<open>drbg entropy nonce reseed n\<close>, the \<open>n\<close> bytes of a
  fresh HMAC generator of cifra; \<open>junk\<close>, the contents of an array before it is written.  A variable written through a
  pointer is a result of its own, \<open>None\<close> if it was not written.
\<close>

section \<open>The code\<close>

abbreviation (input) IG_ERROR_NONE :: nat where "IG_ERROR_NONE \<equiv> 0"
abbreviation (input) IG_ERROR_GENERIC_FAIL :: nat where "IG_ERROR_GENERIC_FAIL \<equiv> 1"
abbreviation (input) IG_ERROR_DATA_TOO_SHORT :: nat where "IG_ERROR_DATA_TOO_SHORT \<equiv> 3"
abbreviation (input) IG_ERROR_INVALID_MESSAGE :: nat where "IG_ERROR_INVALID_MESSAGE \<equiv> 4"
abbreviation (input) IG_ERROR_INTERNAL_ERROR :: nat where "IG_ERROR_INTERNAL_ERROR \<equiv> 6"
abbreviation (input) IG_KEY_EXCHANGE_PUBLIC_LENGTH :: nat where "IG_KEY_EXCHANGE_PUBLIC_LENGTH \<equiv> 64"
abbreviation (input) IG_KEY_LENGTH :: nat where "IG_KEY_LENGTH \<equiv> 16"
abbreviation (input) IG_PIN_KEY_LENGTH :: nat where "IG_PIN_KEY_LENGTH \<equiv> 16"
abbreviation (input) IG_PASSWORD_LENGTH :: nat where "IG_PASSWORD_LENGTH \<equiv> 8"
abbreviation (input) IG_MASTER_PIN_MIN_LENGTH :: nat where "IG_MASTER_PIN_MIN_LENGTH \<equiv> 4"
abbreviation (input) IG_MASTER_PIN_DEFAULT_LENGTH :: nat where "IG_MASTER_PIN_DEFAULT_LENGTH \<equiv> 8"
abbreviation (input) IG_MASTER_PIN_MAX_LENGTH :: nat where "IG_MASTER_PIN_MAX_LENGTH \<equiv> 10"
abbreviation (input) kDstArrayLen :: nat where "kDstArrayLen \<equiv> 256"

record server_state =
  server_pairing_admin_key :: bytes
  server_pairing_private_key :: bytes
  server_pairing_public_key :: bytes
  server_nonce :: bytes
  client_nonce :: bytes
  client_pairing_public_key :: bytes
  pairing_pin_key :: bytes
  pairing_password :: bytes
  pairing_master_pin_length :: u32
  pairing_master_pin :: bytes
  pairing_gmt_offset :: i32
  pairing_dst_len :: u32
  pairing_dst :: bytes

definition server_init :: server_state where
  "server_init = \<lparr>server_pairing_admin_key = replicate 16 0, server_pairing_private_key = replicate 32 0,
     server_pairing_public_key = replicate 64 0, server_nonce = replicate 12 0, client_nonce = replicate 12 0,
     client_pairing_public_key = replicate 64 0, pairing_pin_key = replicate 16 0, pairing_password = replicate 8 0,
     pairing_master_pin_length = 0, pairing_master_pin = replicate 10 0, pairing_gmt_offset = 0,
     pairing_dst_len = 0, pairing_dst = replicate 256 0\<rparr>"

subsection \<open>Step 2\<close>

definition ig_pairing_step2_size :: "u32 res" where
  "ig_pairing_step2_size =
     bindR (ig_PairingStep2_set_nonce False (Some [0, 0, 0, 0, 0, 0, 0, 0, 0, 0, 0, 1]) kNonceLength ig_PairingStep2_init) (\<lambda>step2.
     bindR (ig_PairingStep2_set_public_key False (Some (replicate 64 0)) IG_KEY_EXCHANGE_PUBLIC_LENGTH step2) (\<lambda>step2.
       Ok (ig_PairingStep2_get_max_payload_in_bytes step2)))"

definition server_gen_pairing_step2 ::
  "(bytes \<Rightarrow> bytes \<Rightarrow> bytes option) \<Rightarrow> (bytes \<times> bytes) option \<Rightarrow> (nat \<Rightarrow> nat \<Rightarrow> nat) \<Rightarrow> nat \<Rightarrow>
   bytes \<Rightarrow> u32 \<Rightarrow> bytes \<Rightarrow> u32 \<Rightarrow> server_state \<Rightarrow> (nat \<times> bytes \<times> u32 option \<times> server_state) res"
where
  "server_gen_pairing_step2 shared_secret make_key rand t step1_bytes step1_len step2_bytes step2_len s =
     bindR (mem_slice step1_bytes 0 (unat step1_len)) (\<lambda>bs.
     bindR (ig_PairingStep1_decode bs ig_PairingStep1_init 0) (\<lambda>(step1_err, step1).
     if step1_err \<noteq> 0 \<or> \<not> ig_PairingStep1_is_valid step1 then Ok (IG_ERROR_INVALID_MESSAGE, step2_bytes, None, s)
     else if ig_PairingStep1_get_public_key_size step1 \<noteq> IG_KEY_EXCHANGE_PUBLIC_LENGTH
     then Ok (IG_ERROR_INVALID_MESSAGE, step2_bytes, None, s)
     else if PairingStep1_public_key_size step1 \<noteq> kPublicKeyLength then Ok (IG_ERROR_INVALID_MESSAGE, step2_bytes, None, s)
     else
       bindR (block_read (PairingStep1_public_key step1) (PairingStep1_public_key_size step1)) (\<lambda>key.
       bindR (mem_write (client_pairing_public_key s) 0 key) (\<lambda>key.
       let s = s\<lparr>client_pairing_public_key := key, server_nonce := generateRandomNonce rand t kNonceLength\<rparr> in
       bindR (ig_PairingStep2_set_nonce False (Some (server_nonce s)) kNonceLength ig_PairingStep2_init) (\<lambda>step2.
       case make_key of
         None \<Rightarrow> Ok (IG_ERROR_GENERIC_FAIL, step2_bytes, None, s)
       | Some (pub, priv) \<Rightarrow>
         let s = s\<lparr>server_pairing_public_key := pub, server_pairing_private_key := priv\<rparr> in
         bindR (ig_PairingStep2_set_public_key False (Some (server_pairing_public_key s)) kPublicKeyLength step2) (\<lambda>step2.
         let step2_size = ig_PairingStep2_get_max_payload_in_bytes step2 in
         if step2_len < step2_size then Ok (IG_ERROR_DATA_TOO_SHORT, step2_bytes, None, s)
         else bindR (ig_PairingStep2_encode step2 step2_bytes step2_len) (\<lambda>(err, step2_bytes, written).
         if err \<noteq> 0 then Ok (IG_ERROR_GENERIC_FAIL, step2_bytes, None, s)
         else
           let bytes_written = Some (word_of_nat (case written of Some n \<Rightarrow> n | None \<Rightarrow> 0)) in
           case shared_secret (client_pairing_public_key s) (server_pairing_private_key s) of
             None \<Rightarrow> Ok (1, step2_bytes, bytes_written, s)
           | Some secret \<Rightarrow>
             bindR (mem_slice secret 0 IG_KEY_LENGTH) (\<lambda>key.
             bindR (mem_write (server_pairing_admin_key s) 0 key) (\<lambda>key.
               Ok (IG_ERROR_NONE, step2_bytes, bytes_written, s\<lparr>server_pairing_admin_key := key\<rparr>))))))))))"

subsection \<open>Nonces and random vectors\<close>

definition incrementServerNonce :: "server_state \<Rightarrow> server_state" where
  "incrementServerNonce s = s\<lparr>server_nonce := incrementNonce_loop (server_nonce s) (kNonceLength - 1)\<rparr>"

definition incrementClientNonce :: "server_state \<Rightarrow> server_state" where
  "incrementClientNonce s = s\<lparr>client_nonce := incrementNonce_loop (client_nonce s) (kNonceLength - 1)\<rparr>"

definition ig_decrypt_data_size :: "u32 \<Rightarrow> u32" where
  "ig_decrypt_data_size data_len = data_len - 8"

text \<open>The result is the number returned, \<open>data_out\<close> and \<open>*bytes_written\<close>.\<close>
definition decryptClientData :: "bytes \<Rightarrow> u32 \<Rightarrow> bytes \<Rightarrow> u32 \<Rightarrow> server_state \<Rightarrow> (nat \<times> bytes \<times> u32) res" where
  "decryptClientData data_in data_in_len data_out data_out_len s =
     bindR (decryptData data_in data_in_len data_out data_out_len (server_pairing_admin_key s) 16
              (server_nonce s) 12) (\<lambda>(bytes_written, data_out).
       if bytes_written = - 1 then Ok (1, data_out, bytes_written) else Ok (0, data_out, bytes_written))"

text \<open>Entropy, nonce and reseed data are the first 16, the next 8 and the next 16 numbers of \<open>rand\<close>.\<close>
definition genRandomVector ::
  "(bytes \<Rightarrow> bytes \<Rightarrow> bytes \<Rightarrow> nat \<Rightarrow> bytes) \<Rightarrow> (nat \<Rightarrow> nat \<Rightarrow> nat) \<Rightarrow> nat \<Rightarrow> nat \<Rightarrow> bytes"
where
  "genRandomVector drbg rand t vector_len =
     (let entropy = map (\<lambda>i. word_of_nat (rand t i mod 256)) [0..<16];
          nonce = map (\<lambda>i. word_of_nat (rand t i mod 256)) [16..<24];
          reseed = map (\<lambda>i. word_of_nat (rand t i mod 256)) [24..<40]
      in drbg entropy nonce reseed vector_len)"

subsection \<open>Step 4\<close>

text \<open>A function below that draws random bytes takes them as the argument \<open>random\<close>.\<close>
definition setPairingPinKey :: "bytes \<Rightarrow> IgPairingStep3 \<Rightarrow> server_state \<Rightarrow> server_state res" where
  "setPairingPinKey random step3 s =
     bindR (if PairingStep3_has_pin_key step3
            then block_read (PairingStep3_pin_key step3) (ig_PairingStep3_get_pin_key_size step3)
            else Ok random) (\<lambda>d.
     bindR (mem_write (pairing_pin_key s) 0 d) (\<lambda>d. Ok (s\<lparr>pairing_pin_key := d\<rparr>)))"

definition setPairingPassword :: "bytes \<Rightarrow> IgPairingStep3 \<Rightarrow> server_state \<Rightarrow> server_state res" where
  "setPairingPassword random step3 s =
     bindR (if PairingStep3_has_password step3
            then block_read (PairingStep3_password step3) (ig_PairingStep3_get_password_size step3)
            else Ok random) (\<lambda>d.
     bindR (mem_write (pairing_password s) 0 d) (\<lambda>d. Ok (s\<lparr>pairing_password := d\<rparr>)))"

definition setMasterPin :: "bytes \<Rightarrow> IgPairingStep3 \<Rightarrow> server_state \<Rightarrow> server_state res" where
  "setMasterPin random step3 s =
     (let size = ig_PairingStep3_get_master_pin_size step3 in
      if PairingStep3_has_master_pin step3 \<and> size \<ge> IG_MASTER_PIN_MIN_LENGTH \<and> size \<le> IG_MASTER_PIN_MAX_LENGTH
      then bindR (block_read (PairingStep3_master_pin step3) size) (\<lambda>d.
           bindR (mem_write (pairing_master_pin s) 0 d) (\<lambda>d.
             Ok (s\<lparr>pairing_master_pin_length := word_of_nat size, pairing_master_pin := d\<rparr>)))
      else bindR (mem_write (pairing_master_pin s) 0 (map (\<lambda>b. b mod 10 + 0x30) random)) (\<lambda>d.
             Ok (s\<lparr>pairing_master_pin_length := word_of_nat IG_MASTER_PIN_DEFAULT_LENGTH, pairing_master_pin := d\<rparr>)))"

definition setClientNonce :: "IgPairingStep3 \<Rightarrow> server_state \<Rightarrow> server_state res" where
  "setClientNonce step3 s =
     bindR (block_read (PairingStep3_nonce step3) (PairingStep3_nonce_size step3)) (\<lambda>d.
     bindR (mem_write (client_nonce s) 0 d) (\<lambda>d. Ok (s\<lparr>client_nonce := d\<rparr>)))"

definition setGmtOffset :: "IgPairingStep3 \<Rightarrow> server_state \<Rightarrow> server_state" where
  "setGmtOffset step3 s =
     s\<lparr>pairing_gmt_offset := if PairingStep3_has_gmt_offset step3 then PairingStep3_gmt_offset step3 else 0\<rparr>"

definition setDstTimes :: "IgPairingStep3 \<Rightarrow> server_state \<Rightarrow> (nat \<times> server_state) res" where
  "setDstTimes step3 s =
     (if PairingStep3_has_dst_times step3 then
        if ig_PairingStep3_get_dst_times_size step3 \<le> kDstArrayLen then
          bindR (block_read (PairingStep3_dst_times step3) (ig_PairingStep3_get_dst_times_size step3)) (\<lambda>d.
          bindR (mem_write (pairing_dst s) 0 d) (\<lambda>dst.
            Ok (0, s\<lparr>pairing_dst_len := word_of_nat (ig_PairingStep3_get_dst_times_size step3), pairing_dst := dst\<rparr>)))
        else Ok (IG_ERROR_INTERNAL_ERROR, s)
      else Ok (0, s\<lparr>pairing_dst_len := 0\<rparr>))"

definition setIgStep4 :: "server_state \<Rightarrow> IgPairingStep4 res" where
  "setIgStep4 s =
     (let step4 = ig_PairingStep4_set_success True ig_PairingStep4_init in
      bindR (ig_PairingStep4_set_pin_key False (Some (pairing_pin_key s)) IG_PIN_KEY_LENGTH step4) (\<lambda>step4.
      bindR (ig_PairingStep4_set_password False (Some (pairing_password s)) IG_PASSWORD_LENGTH step4) (\<lambda>step4.
      bindR (ig_PairingStep4_set_master_pin False (Some (pairing_master_pin s)) (unat (pairing_master_pin_length s)) step4) (\<lambda>step4.
        Ok (ig_PairingStep4_set_gmt_offset (pairing_gmt_offset s) step4)))))"

definition ig_pairing_step4_size :: "server_state \<Rightarrow> u32 res" where
  "ig_pairing_step4_size s =
     (let step4 = ig_PairingStep4_set_success True ig_PairingStep4_init in
      bindR (ig_PairingStep4_set_pin_key False (Some (pairing_pin_key s)) IG_PIN_KEY_LENGTH step4) (\<lambda>step4.
      bindR (ig_PairingStep4_set_password False (Some (pairing_password s)) IG_PASSWORD_LENGTH step4) (\<lambda>step4.
      bindR (ig_PairingStep4_set_master_pin False (Some (pairing_master_pin s)) IG_MASTER_PIN_MAX_LENGTH step4) (\<lambda>step4.
        Ok (ig_PairingStep4_get_max_payload_in_bytes step4)))))"

text \<open>The checks of \<open>ig_pairing_step4\<close> on the message it received.\<close>
definition step3_acceptable :: "IgPairingStep3 \<Rightarrow> bool" where
  "step3_acceptable step3 \<longleftrightarrow> \<not> (\<not> ig_PairingStep3_is_valid step3 \<or>
     PairingStep3_has_nonce step3 \<and> ig_PairingStep3_get_nonce_size step3 \<noteq> kNonceLength \<or>
     PairingStep3_has_pin_key step3 \<and> ig_PairingStep3_get_pin_key_size step3 \<noteq> IG_PIN_KEY_LENGTH \<or>
     PairingStep3_has_password step3 \<and> ig_PairingStep3_get_password_size step3 \<noteq> IG_PASSWORD_LENGTH \<or>
     PairingStep3_has_master_pin step3 \<and> ig_PairingStep3_get_master_pin_size step3 > IG_MASTER_PIN_MAX_LENGTH \<or>
     PairingStep3_has_master_pin step3 \<and> ig_PairingStep3_get_master_pin_size step3 < IG_MASTER_PIN_MIN_LENGTH)"

text \<open>The calls of the setters, in the order of the code; \<open>clock i\<close> is the time the \<open>i\<close>-th one reads.\<close>
definition take_step3 ::
  "(bytes \<Rightarrow> bytes \<Rightarrow> bytes \<Rightarrow> nat \<Rightarrow> bytes) \<Rightarrow> (nat \<Rightarrow> nat \<Rightarrow> nat) \<Rightarrow> (nat \<Rightarrow> nat) \<Rightarrow> IgPairingStep3 \<Rightarrow> server_state \<Rightarrow> server_state res"
where
  "take_step3 drbg rand clock step3 s =
     bindR (setPairingPinKey (genRandomVector drbg rand (clock 0) IG_PIN_KEY_LENGTH) step3 s) (\<lambda>s.
     bindR (setPairingPassword (genRandomVector drbg rand (clock 1) IG_PASSWORD_LENGTH) step3 s) (\<lambda>s.
     bindR (setMasterPin (genRandomVector drbg rand (clock 2) IG_MASTER_PIN_DEFAULT_LENGTH) step3 s) (\<lambda>s.
     bindR (setClientNonce step3 s) (\<lambda>s.
     bindR (setDstTimes step3 (setGmtOffset step3 s)) (\<lambda>(ret, s). Ok s)))))"

text \<open>The size of the array on the stack wraps below 8 bytes; an array of 2 GB or more is past the end of the stack.\<close>
definition ig_pairing_step4 ::
  "(nat \<Rightarrow> u8) \<Rightarrow> (bytes \<Rightarrow> bytes \<Rightarrow> bytes \<Rightarrow> nat \<Rightarrow> bytes) \<Rightarrow> (nat \<Rightarrow> nat \<Rightarrow> nat) \<Rightarrow> (nat \<Rightarrow> nat) \<Rightarrow>
   bytes \<Rightarrow> u32 \<Rightarrow> bytes \<Rightarrow> u32 \<Rightarrow> server_state \<Rightarrow> (nat \<times> bytes \<times> u32 option \<times> server_state) res"
where
  "ig_pairing_step4 junk drbg rand clock encrypt_step3_bytes encrypt_step3_bytes_len
     encrypt_step4_bytes encrypt_step4_bytes_len s =
     (let decrypted_data_in_len = ig_decrypt_data_size encrypt_step3_bytes_len in
      if sint decrypted_data_in_len < 0 then Fault OutOfBounds
      else bindR (decryptClientData encrypt_step3_bytes encrypt_step3_bytes_len
               (fresh_block junk (unat decrypted_data_in_len)) decrypted_data_in_len s)
        (\<lambda>(decrypt_result, decrypted_data_in, decrypted_bytes_written).
      if decrypt_result \<noteq> 0 then Ok (1, encrypt_step4_bytes, None, s)
      else
        let s = incrementServerNonce s in
        bindR (mem_slice decrypted_data_in 0 (unat decrypted_bytes_written)) (\<lambda>bs.
        bindR (ig_PairingStep3_decode bs ig_PairingStep3_init 0) (\<lambda>(ret, step3).
        if \<not> step3_acceptable step3 then Ok (IG_ERROR_INVALID_MESSAGE, encrypt_step4_bytes, None, s)
        else
          bindR (take_step3 drbg rand clock step3 s) (\<lambda>s.
          bindR (setIgStep4 s) (\<lambda>step4.
          let step4_size = ig_PairingStep4_get_max_payload_in_bytes step4 in
          if encrypt_step4_bytes_len < step4_size then Ok (IG_ERROR_DATA_TOO_SHORT, encrypt_step4_bytes, None, s)
          else
            bindR (ig_PairingStep4_encode step4 (fresh_block junk (unat step4_size)) step4_size)
              (\<lambda>(err, step4_serialized, written).
            if err \<noteq> 0 then Ok (IG_ERROR_GENERIC_FAIL, encrypt_step4_bytes, None, s)
            else
              let step4_written_bytes = (case written of Some n \<Rightarrow> n | None \<Rightarrow> 0) in
              bindR (encryptData step4_serialized (word_of_nat step4_written_bytes) encrypt_step4_bytes
                       encrypt_step4_bytes_len (server_pairing_admin_key s) 16 (client_nonce s) 12)
                (\<lambda>(encrypted_bytes_written, encrypt_step4_bytes).
                Ok (IG_ERROR_NONE, encrypt_step4_bytes, Some encrypted_bytes_written, s)))))))))"

subsection \<open>Commit\<close>

record IgPairingResult =
  r_admin_key :: bytes
  r_pin_key :: bytes
  r_password :: bytes
  r_master_pin_length :: u32
  r_master_pin :: bytes
  r_current_time :: i32
  r_gmt_offset :: i32
  r_dst_length :: u32
  r_dst :: bytes

text \<open>The member \<open>dst\<close> points to the static array; the model holds what it points to.\<close>
definition ig_commit_pairing ::
  "(nat \<Rightarrow> u8) \<Rightarrow> bytes \<Rightarrow> u32 \<Rightarrow> IgPairingResult \<Rightarrow> server_state \<Rightarrow> (nat \<times> IgPairingResult \<times> server_state) res"
where
  "ig_commit_pairing junk encrypt_commit_Bytes encrypt_commit_Bytes_len out s =
     (let decrypted_data_in_len = ig_decrypt_data_size encrypt_commit_Bytes_len in
      if sint decrypted_data_in_len < 0 then Fault OutOfBounds
      else bindR (decryptClientData encrypt_commit_Bytes encrypt_commit_Bytes_len
               (fresh_block junk (unat decrypted_data_in_len)) decrypted_data_in_len s)
        (\<lambda>(decrypt_result, decrypted_data_in, decrypted_bytes_written).
      if decrypt_result \<noteq> 0 then Ok (1, out, s)
      else
        let s = s\<lparr>server_nonce := incrementNonce (server_nonce s)\<rparr> in
        bindR (mem_slice decrypted_data_in 0 (unat decrypted_data_in_len)) (\<lambda>bs.
        bindR (ig_PairingCommit_decode bs ig_PairingCommit_init 0) (\<lambda>(ret, pairing_commit).
        if \<not> ig_PairingCommit_is_valid pairing_commit then Ok (IG_ERROR_INVALID_MESSAGE, out, s)
        else
          bindR (mem_write (r_admin_key out) 0 (server_pairing_admin_key s)) (\<lambda>admin_key.
          bindR (mem_write (r_pin_key out) 0 (pairing_pin_key s)) (\<lambda>pin_key.
          bindR (mem_write (r_password out) 0 (pairing_password s)) (\<lambda>password.
          bindR (mem_slice (pairing_master_pin s) 0 (unat (pairing_master_pin_length s))) (\<lambda>pin.
          bindR (mem_write (r_master_pin out) 0 pin) (\<lambda>master_pin.
            Ok (IG_ERROR_NONE,
                \<lparr>r_admin_key = admin_key, r_pin_key = pin_key, r_password = password,
                 r_master_pin_length = pairing_master_pin_length s, r_master_pin = master_pin,
                 r_current_time = PairingCommit_current_time pairing_commit, r_gmt_offset = pairing_gmt_offset s,
                 r_dst_length = pairing_dst_len s, r_dst = pairing_dst s\<rparr>, s))))))))))"

section \<open>The invariant\<close>

definition server_ok :: "server_state \<Rightarrow> bool" where
  "server_ok s \<longleftrightarrow> length (server_pairing_admin_key s) = 16 \<and> length (server_pairing_private_key s) = 32 \<and>
     length (server_pairing_public_key s) = 64 \<and> length (server_nonce s) = 12 \<and> length (client_nonce s) = 12 \<and>
     length (client_pairing_public_key s) = 64 \<and> length (pairing_pin_key s) = 16 \<and> length (pairing_password s) = 8 \<and>
     length (pairing_master_pin s) = 10 \<and> pairing_master_pin_length s \<le> 10 \<and> length (pairing_dst s) = 256 \<and>
     pairing_dst_len s \<le> 256"

lemma server_ok_init: "server_ok server_init"
  by (simp add: server_ok_def server_init_def)

section \<open>Step 2\<close>

definition pairing_step2 :: "bytes \<Rightarrow> bytes \<Rightarrow> IgPairingStep2" where
  "pairing_step2 pub nonce = \<lparr>PairingStep2_has_public_key = True, PairingStep2_public_key = Some pub,
     PairingStep2_public_key_size = length pub, PairingStep2_has_nonce = True, PairingStep2_nonce = Some nonce,
     PairingStep2_nonce_size = length nonce\<rparr>"

lemma codec_any_block:
  assumes "codec_roundtrip enc dec mp fresh ok" "ok r" "unat (mp r) \<le> unat len" "unat len \<le> length buf"
  shows "\<exists>buf' n. enc r buf len = Ok (0, buf', Some n) \<and> n \<le> unat (mp r) \<and> length buf' = length buf \<and>
    dec (take n buf') fresh 0 = Ok (0, r)"
  using assms unfolding codec_roundtrip_def by blast

lemma step2_size: "ig_pairing_step2_size = Ok 103"
  by (simp add: ig_pairing_step2_size_def ig_PairingStep2_set_nonce_def ig_PairingStep2_set_public_key_def
      ig_PairingStep2_init_def ig_PairingStep2_get_max_payload_in_bytes_def Let_def)

text \<open>The state after step 2.\<close>
definition after_step2 :: "bytes \<Rightarrow> bytes \<Rightarrow> bytes \<Rightarrow> bytes \<Rightarrow> bytes \<Rightarrow> server_state \<Rightarrow> server_state" where
  "after_step2 C N pub priv z s =
     s\<lparr>client_pairing_public_key := C, server_nonce := N, server_pairing_public_key := pub,
       server_pairing_private_key := priv, server_pairing_admin_key := take 16 z\<rparr>"

text \<open>The bytes of the answer: head of the map, number of the message, the key, the nonce.\<close>
definition step2_message :: "bytes \<Rightarrow> bytes \<Rightarrow> bytes" where
  "step2_message pub nonce = [0xa3, 0x00, 0x02, 0x0b, 0x58, 0x40] @ pub @ [0x0c, 0x4c] @ nonce"

lemma step2_encoding:
  assumes "length pub = 64" "length N = 12" "84 \<le> unat len" "unat len \<le> length buf"
  shows "ig_PairingStep2_encode (pairing_step2 pub N) buf len = Ok (0, step2_message pub N @ drop 84 buf, Some 84)"
proof -
  have items: "present_items (ig_PairingStep2_fields (pairing_step2 pub N)) = Some [(11, WBytes pub), (12, WBytes N)]"
    using assms by (simp add: ig_PairingStep2_fields_def pairing_step2_def block_read_def mem_slice_def)
  have "be_put 1 64 = [64]" by (simp only: One_nat_def be_put.simps) simp
  have bytes: "message_bytes [(0, WUint 2), (11, WBytes pub), (12, WBytes N)] = step2_message pub N"
    using assms \<open>be_put 1 64 = [64]\<close> by (simp add: message_bytes_def item_bytes_def number_bytes_def step2_message_def)
  have "ig_encode 3 2 (ig_PairingStep2_fields (pairing_step2 pub N)) buf len = Ok (0, step2_message pub N @ drop 84 buf, Some 84)"
    using ig_encode_writes(1) [OF items _ _ assms(4), of 3 2] assms unfolding bytes by (simp add: step2_message_def)
  then show ?thesis
    by (simp add: ig_PairingStep2_encode_def ig_PairingStep2_is_valid_def ig_PairingStep2_fields_size_def) (simp add: pairing_step2_def)
qed

lemma step2_decoding:
  assumes "length pub = 64" "length N = 12"
  shows "ig_PairingStep2_decode (step2_message pub N) ig_PairingStep2_init 0 = Ok (0, pairing_step2 pub N)"
proof -
  have "ig_PairingStep2_ok (pairing_step2 pub N)"
    using assms by (simp add: ig_PairingStep2_ok_def ig_PairingStep2_is_valid_def pairing_step2_def str_ok_def)
  from codec_any_block [OF PairingStep2_codec.roundtrip_codec this, of 103 "replicate 103 0"]
  show ?thesis
    using assms step2_encoding [OF assms, of 103 "replicate 103 0"]
    by (auto simp: ig_PairingStep2_get_max_payload_in_bytes_def pairing_step2_def step2_message_def)
qed

lemma server_step2_answers:
  assumes ok: "server_ok s" and p: "length p < 2 ^ 31"
    and dec: "ig_PairingStep1_decode p ig_PairingStep1_init 0 = Ok (0, pairing_step1 C)" "length C = 64"
    and keys: "length pub = 64" "length priv = 32"
    and secret: "shared_secret C priv = Some z" "length z = 32"
    and room: "103 \<le> unat len" "unat len \<le> length buf"
    and N_def: "N = generateRandomNonce rand t 12"
  shows "server_gen_pairing_step2 shared_secret (Some (pub, priv)) rand t p (word_of_nat (length p)) buf len s =
      Ok (0, step2_message pub N @ drop 84 buf, Some 84, after_step2 C N pub priv z s)"
proof -
  have N: "length N = 12" by (simp add: N_def)
  let ?o = "pairing_step2 pub N"
  have mp: "ig_PairingStep2_get_max_payload_in_bytes ?o = 103"
    using N keys by (simp add: ig_PairingStep2_get_max_payload_in_bytes_def pairing_step2_def)
  have e: "ig_PairingStep2_encode ?o buf len = Ok (0, step2_message pub N @ drop 84 buf, Some 84)"
    using step2_encoding [OF keys(1) N _ room(2)] room(1) by simp
  have u: "unat (word_of_nat (length p) :: u32) = length p" using p by (simp add: unat_of_nat take_bit_nat_eq_self)
  have setters: "ig_PairingStep2_set_nonce False (Some N) 12 ig_PairingStep2_init =
      Ok (ig_PairingStep2_init\<lparr>PairingStep2_has_nonce := True, PairingStep2_nonce := Some N, PairingStep2_nonce_size := 12\<rparr>)"
    "ig_PairingStep2_set_public_key False (Some pub) 64
       (ig_PairingStep2_init\<lparr>PairingStep2_has_nonce := True, PairingStep2_nonce := Some N, PairingStep2_nonce_size := 12\<rparr>) = Ok ?o"
    using N keys by (simp_all add: ig_PairingStep2_set_nonce_def ig_PairingStep2_set_public_key_def
        ig_PairingStep2_init_def pairing_step2_def Let_def)
  have valid: "ig_PairingStep1_is_valid (pairing_step1 C)" "ig_PairingStep1_get_public_key_size (pairing_step1 C) = 64"
    "PairingStep1_public_key_size (pairing_step1 C) = 64" "PairingStep1_public_key (pairing_step1 C) = Some C"
    using dec(2) by (simp_all add: ig_PairingStep1_is_valid_def ig_PairingStep1_get_public_key_size_def pairing_step1_def)
  have guard: "\<not> len < (103 :: u32)" using room(1) by (simp add: word_less_nat_alt)
  have w: "mem_write (client_pairing_public_key s) 0 C = Ok C" "mem_write (server_pairing_admin_key s) 0 (take 16 z) = Ok (take 16 z)"
    using ok dec(2) secret(2) by (simp_all add: server_ok_def mem_write_def)
  show ?thesis
    using setters guard w secret dec valid e
    by (simp add: server_gen_pairing_step2_def mem_slice_def u mp after_step2_def flip: N_def)
qed

lemma after_step2_ok:
  "server_ok s \<Longrightarrow> length C = 64 \<Longrightarrow> length N = 12 \<Longrightarrow> length pub = 64 \<Longrightarrow> length priv = 32 \<Longrightarrow> length z = 32 \<Longrightarrow>
   server_ok (after_step2 C N pub priv z s)"
  by (simp add: server_ok_def after_step2_def)

section \<open>Step 4\<close>

text \<open>The generator gives as many bytes as it is asked for.\<close>
definition drbg_ok :: "(bytes \<Rightarrow> bytes \<Rightarrow> bytes \<Rightarrow> nat \<Rightarrow> bytes) \<Rightarrow> bool" where
  "drbg_ok drbg \<longleftrightarrow> (\<forall>e n r k. length (drbg e n r k) = k)"

lemma genRandomVector_length: "drbg_ok drbg \<Longrightarrow> length (genRandomVector drbg rand t n) = n"
  by (simp add: genRandomVector_def drbg_ok_def Let_def)

text \<open>What the server holds after step 3: the values the client chose, random ones in place of those it
  left out.\<close>
definition chosen_by :: "IgPairingStep3 \<Rightarrow> server_state \<Rightarrow> bool" where
  "chosen_by step3 s \<longleftrightarrow>
     PairingStep3_nonce step3 = Some (client_nonce s) \<and>
     (PairingStep3_has_pin_key step3 \<longrightarrow> PairingStep3_pin_key step3 = Some (pairing_pin_key s)) \<and>
     (PairingStep3_has_password step3 \<longrightarrow> PairingStep3_password step3 = Some (pairing_password s)) \<and>
     (PairingStep3_has_master_pin step3 \<longrightarrow>
       PairingStep3_master_pin step3 = Some (take (unat (pairing_master_pin_length s)) (pairing_master_pin s))) \<and>
     (\<not> PairingStep3_has_master_pin step3 \<longrightarrow> pairing_master_pin_length s = 8 \<and>
       (\<forall>b \<in> set (take 8 (pairing_master_pin s)). 0x30 \<le> b \<and> b \<le> 0x39)) \<and>
     pairing_gmt_offset s = (if PairingStep3_has_gmt_offset step3 then PairingStep3_gmt_offset step3 else 0)"

text \<open>The secrets of the session are not touched.\<close>
definition same_session :: "server_state \<Rightarrow> server_state \<Rightarrow> bool" where
  "same_session s s' \<longleftrightarrow> server_pairing_admin_key s' = server_pairing_admin_key s \<and> server_nonce s' = server_nonce s"

lemma write_front: "length d = length b \<Longrightarrow> mem_write b 0 d = Ok d"
  by (simp add: mem_write_def)

lemma digit_range: "0x30 \<le> (b :: u8) mod 10 + 0x30" "b mod 10 + 0x30 \<le> 0x39"
proof -
  have "unat (b mod 10) < 10" by (simp add: unat_mod)
  then have "unat (b mod 10 + 0x30) = unat (b mod 10) + 48" by (simp add: unat_word_ariths)
  with \<open>unat (b mod 10) < 10\<close> show "0x30 \<le> b mod 10 + 0x30" "b mod 10 + 0x30 \<le> 0x39"
    by (simp_all add: word_le_nat_alt)
qed

lemma setPairingPinKey_Ok:
  assumes "server_ok s" "ig_PairingStep3_ok step3" "step3_acceptable step3" "length random = 16"
  shows "\<exists>d. length d = 16 \<and> (PairingStep3_has_pin_key step3 \<longrightarrow> PairingStep3_pin_key step3 = Some d) \<and>
    setPairingPinKey random step3 s = Ok (s\<lparr>pairing_pin_key := d\<rparr>)"
proof -
  let ?d = "if PairingStep3_has_pin_key step3 then the (PairingStep3_pin_key step3) else random"
  show ?thesis
    using assms by (intro exI [of _ ?d])
      (auto simp: setPairingPinKey_def server_ok_def ig_PairingStep3_ok_def step3_acceptable_def str_ok_def
        ig_PairingStep3_get_pin_key_size_def write_front split: option.splits)
qed

lemma setPairingPassword_Ok:
  assumes "server_ok s" "ig_PairingStep3_ok step3" "step3_acceptable step3" "length random = 8"
  shows "\<exists>d. length d = 8 \<and> (PairingStep3_has_password step3 \<longrightarrow> PairingStep3_password step3 = Some d) \<and>
    setPairingPassword random step3 s = Ok (s\<lparr>pairing_password := d\<rparr>)"
proof -
  let ?d = "if PairingStep3_has_password step3 then the (PairingStep3_password step3) else random"
  show ?thesis
    using assms by (intro exI [of _ ?d])
      (auto simp: setPairingPassword_def server_ok_def ig_PairingStep3_ok_def step3_acceptable_def str_ok_def
        ig_PairingStep3_get_password_size_def write_front split: option.splits)
qed

lemma setClientNonce_Ok:
  assumes "server_ok s" "ig_PairingStep3_ok step3" "step3_acceptable step3"
  shows "\<exists>d. length d = 12 \<and> PairingStep3_nonce step3 = Some d \<and> setClientNonce step3 s = Ok (s\<lparr>client_nonce := d\<rparr>)"
  using assms
  by (auto simp: setClientNonce_def server_ok_def ig_PairingStep3_ok_def step3_acceptable_def str_ok_def
      ig_PairingStep3_is_valid_def ig_PairingStep3_get_nonce_size_def write_front split: option.splits)

text \<open>A pin of 4 to 10 bytes is taken from the client, otherwise 8 random digits are.\<close>
lemma setMasterPin_Ok:
  assumes "server_ok s" "ig_PairingStep3_ok step3" "step3_acceptable step3" "length random = 8"
  shows "\<exists>n d. length d = 10 \<and> n \<le> 10 \<and> 4 \<le> unat n \<and>
    (PairingStep3_has_master_pin step3 \<longrightarrow> PairingStep3_master_pin step3 = Some (take (unat n) d)) \<and>
    (\<not> PairingStep3_has_master_pin step3 \<longrightarrow> n = 8 \<and> (\<forall>b \<in> set (take 8 d). 0x30 \<le> b \<and> b \<le> 0x39)) \<and>
    setMasterPin random step3 s = Ok (s\<lparr>pairing_master_pin_length := n, pairing_master_pin := d\<rparr>)"
proof (cases "PairingStep3_has_master_pin step3")
  case True
  then obtain p where p: "PairingStep3_master_pin step3 = Some p" "PairingStep3_master_pin_size step3 = length p"
    "4 \<le> length p" "length p \<le> 10"
    using assms by (auto simp: ig_PairingStep3_ok_def step3_acceptable_def str_ok_def
        ig_PairingStep3_get_master_pin_size_def not_less split: option.splits)
  have n: "unat (word_of_nat (length p) :: u32) = length p" "(word_of_nat (length p) :: u32) \<le> 10"
    using p by (simp_all add: unat_of_nat take_bit_nat_eq_self word_le_nat_alt)
  show ?thesis
    using assms p n True
    by (intro exI [of _ "word_of_nat (length p)"] exI [of _ "p @ drop (length p) (pairing_master_pin s)"])
      (simp add: setMasterPin_def server_ok_def ig_PairingStep3_get_master_pin_size_def mem_write_def Let_def)
next
  case False
  let ?d = "map (\<lambda>b. b mod 10 + 0x30) random"
  show ?thesis
    using assms False digit_range
    by (intro exI [of _ 8] exI [of _ "?d @ drop 8 (pairing_master_pin s)"])
      (simp add: setMasterPin_def server_ok_def mem_write_def Let_def word_le_nat_alt)
qed

lemma setDstTimes_Ok:
  assumes "server_ok s" "ig_PairingStep3_ok step3"
  shows "\<exists>r n d. length d = 256 \<and> n \<le> 256 \<and> setDstTimes step3 s = Ok (r, s\<lparr>pairing_dst_len := n, pairing_dst := d\<rparr>)"
proof (cases "PairingStep3_has_dst_times step3 \<and> PairingStep3_dst_times_size step3 \<le> 256")
  case True
  then obtain p where p: "PairingStep3_dst_times step3 = Some p" "PairingStep3_dst_times_size step3 = length p" "length p \<le> 256"
    using assms by (auto simp: ig_PairingStep3_ok_def str_ok_def split: option.splits)
  have n: "(word_of_nat (length p) :: u32) \<le> 256"
    using p by (simp add: unat_of_nat take_bit_nat_eq_self word_le_nat_alt)
  show ?thesis
    using assms p n True
    by (intro exI [of _ 0] exI [of _ "word_of_nat (length p)"] exI [of _ "p @ drop (length p) (pairing_dst s)"])
      (simp add: setDstTimes_def server_ok_def ig_PairingStep3_get_dst_times_size_def mem_write_def)
next
  case False
  show ?thesis
  proof (cases "PairingStep3_has_dst_times step3")
    case True
    then show ?thesis using assms False
      by (intro exI [of _ 6] exI [of _ "pairing_dst_len s"] exI [of _ "pairing_dst s"])
        (simp add: setDstTimes_def server_ok_def ig_PairingStep3_get_dst_times_size_def)
  next
    case False
    then show ?thesis using assms
      by (intro exI [of _ 0] exI [of _ 0] exI [of _ "pairing_dst s"]) (simp add: setDstTimes_def server_ok_def)
  qed
qed

lemma take_step3_Ok:
  assumes s: "server_ok s" and step3: "ig_PairingStep3_ok step3" "step3_acceptable step3" and drbg: "drbg_ok drbg"
  shows "\<exists>s'. take_step3 drbg rand clock step3 s = Ok s' \<and> server_ok s' \<and> 4 \<le> unat (pairing_master_pin_length s') \<and>
    chosen_by step3 s' \<and> same_session s s'"
proof -
  let ?r = "\<lambda>i n. genRandomVector drbg rand (clock i) n"
  have len: "length (?r i n) = n" for i n by (rule genRandomVector_length [OF drbg])
  obtain k where k: "length k = 16" "PairingStep3_has_pin_key step3 \<longrightarrow> PairingStep3_pin_key step3 = Some k"
    "setPairingPinKey (?r 0 16) step3 s = Ok (s\<lparr>pairing_pin_key := k\<rparr>)"
    using setPairingPinKey_Ok [OF s step3 len] by blast
  let ?s1 = "s\<lparr>pairing_pin_key := k\<rparr>"
  have s1: "server_ok ?s1" using s k by (simp add: server_ok_def)
  obtain pw where pw: "length pw = 8" "PairingStep3_has_password step3 \<longrightarrow> PairingStep3_password step3 = Some pw"
    "setPairingPassword (?r 1 8) step3 ?s1 = Ok (?s1\<lparr>pairing_password := pw\<rparr>)"
    using setPairingPassword_Ok [OF s1 step3 len] by blast
  let ?s2 = "?s1\<lparr>pairing_password := pw\<rparr>"
  have s2: "server_ok ?s2" using s1 pw by (simp add: server_ok_def)
  obtain n pin where pin: "length pin = 10" "n \<le> 10" "4 \<le> unat n"
    "PairingStep3_has_master_pin step3 \<longrightarrow> PairingStep3_master_pin step3 = Some (take (unat n) pin)"
    "\<not> PairingStep3_has_master_pin step3 \<longrightarrow> n = 8 \<and> (\<forall>b \<in> set (take 8 pin). 0x30 \<le> b \<and> b \<le> 0x39)"
    "setMasterPin (?r 2 8) step3 ?s2 = Ok (?s2\<lparr>pairing_master_pin_length := n, pairing_master_pin := pin\<rparr>)"
    using setMasterPin_Ok [OF s2 step3 len] by blast
  let ?s3 = "?s2\<lparr>pairing_master_pin_length := n, pairing_master_pin := pin\<rparr>"
  have s3: "server_ok ?s3" using s2 pin by (simp add: server_ok_def)
  obtain N where N: "length N = 12" "PairingStep3_nonce step3 = Some N" "setClientNonce step3 ?s3 = Ok (?s3\<lparr>client_nonce := N\<rparr>)"
    using setClientNonce_Ok [OF s3 step3] by blast
  let ?s4 = "setGmtOffset step3 (?s3\<lparr>client_nonce := N\<rparr>)"
  have s4: "server_ok ?s4" using s3 N by (simp add: server_ok_def setGmtOffset_def)
  obtain r m dst where d: "length dst = 256" "m \<le> 256" "setDstTimes step3 ?s4 = Ok (r, ?s4\<lparr>pairing_dst_len := m, pairing_dst := dst\<rparr>)"
    using setDstTimes_Ok [OF s4 step3(1)] by blast
  let ?s5 = "?s4\<lparr>pairing_dst_len := m, pairing_dst := dst\<rparr>"
  have "take_step3 drbg rand clock step3 s = Ok ?s5"
    unfolding take_step3_def k(3) bindR.simps pw(3) pin(6) N(3) d(3) by simp
  moreover have "server_ok ?s5" using s4 d by (simp add: server_ok_def)
  moreover have "chosen_by step3 ?s5 \<and> same_session s ?s5 \<and> 4 \<le> unat (pairing_master_pin_length ?s5)"
    using k(2) pw(2) pin(3-5) N(2) by (simp add: chosen_by_def same_session_def setGmtOffset_def)
  ultimately show ?thesis by blast
qed

text \<open>The message \<open>setIgStep4\<close> builds.\<close>
definition step4_of :: "server_state \<Rightarrow> IgPairingStep4" where
  "step4_of s = \<lparr>PairingStep4_has_success = True, PairingStep4_success = True,
     PairingStep4_has_master_pin = True,
     PairingStep4_master_pin = Some (take (unat (pairing_master_pin_length s)) (pairing_master_pin s)),
     PairingStep4_master_pin_size = unat (pairing_master_pin_length s),
     PairingStep4_has_pin_key = True, PairingStep4_pin_key = Some (pairing_pin_key s), PairingStep4_pin_key_size = 16,
     PairingStep4_has_gmt_offset = True, PairingStep4_gmt_offset = pairing_gmt_offset s,
     PairingStep4_has_password = True, PairingStep4_password = Some (pairing_password s), PairingStep4_password_size = 8\<rparr>"

definition server_ready :: "server_state \<Rightarrow> bool" where
  "server_ready s \<longleftrightarrow> server_ok s \<and> 4 \<le> unat (pairing_master_pin_length s)"

lemma server_ready_pin: "server_ready s \<Longrightarrow> unat (pairing_master_pin_length s) \<le> 10"
  by (simp add: server_ready_def server_ok_def word_le_nat_alt)

lemma setIgStep4_Ok:
  assumes "server_ready s"
  shows "setIgStep4 s = Ok (step4_of s)" "ig_PairingStep4_ok (step4_of s)"
    "ig_PairingStep4_get_max_payload_in_bytes (step4_of s) = word_of_nat (66 + unat (pairing_master_pin_length s))"
proof -
  have pin: "unat (pairing_master_pin_length s) \<le> 10" "0 < unat (pairing_master_pin_length s)"
    using assms server_ready_pin [OF assms] by (simp_all add: server_ready_def)
  have len: "length (pairing_pin_key s) = 16" "length (pairing_password s) = 8" "length (pairing_master_pin s) = 10"
    using assms by (simp_all add: server_ready_def server_ok_def)
  have read: "block_read (Some (pairing_master_pin s)) (unat (pairing_master_pin_length s)) =
      Ok (take (unat (pairing_master_pin_length s)) (pairing_master_pin s))"
    using pin len by (simp add: block_read_def mem_slice_def)
  show "setIgStep4 s = Ok (step4_of s)"
    using pin len read
    by (simp add: setIgStep4_def ig_PairingStep4_setters ig_PairingStep4_set_pin_key_def ig_PairingStep4_set_password_def
        ig_PairingStep4_set_master_pin_def ig_PairingStep4_init_def step4_of_def Let_def)
  show "ig_PairingStep4_ok (step4_of s)"
    using pin len by (simp add: ig_PairingStep4_ok_def ig_PairingStep4_is_valid_def step4_of_def str_ok_def num_ok_def flag_ok_def)
  show "ig_PairingStep4_get_max_payload_in_bytes (step4_of s) = word_of_nat (66 + unat (pairing_master_pin_length s))"
    by (simp add: ig_PairingStep4_get_max_payload_in_bytes_def step4_of_def add.commute)
qed

lemma step4_size: "server_ok s \<Longrightarrow> ig_pairing_step4_size s = Ok 76"
  by (simp add: ig_pairing_step4_size_def server_ok_def ig_PairingStep4_set_pin_key_def ig_PairingStep4_set_password_def
      ig_PairingStep4_set_master_pin_def ig_PairingStep4_set_success_def ig_PairingStep4_init_def
      ig_PairingStep4_get_max_payload_in_bytes_def Let_def)

text \<open>The message is shorter than the size the code allots for it, by more than the tag.\<close>
lemma step4_encodes:
  assumes s: "server_ready s"
  defines "m \<equiv> ig_PairingStep4_get_max_payload_in_bytes (step4_of s)"
  shows "\<exists>buf n. ig_PairingStep4_encode (step4_of s) (fresh_block junk (unat m)) m = Ok (0, buf, Some n) \<and> n \<le> 68 \<and>
    n \<le> length buf \<and> ig_PairingStep4_decode (take n buf) ig_PairingStep4_init 0 = Ok (0, step4_of s)"
proof -
  have pin: "unat (pairing_master_pin_length s) \<le> 10" by (rule server_ready_pin [OF s])
  have small: "length (number_bytes (word_of_nat (unat (pairing_master_pin_length s))) MtBytes) = 1"
    using pin by (simp add: number_bytes_length word_less_nat_alt unat_ucast_take_bit take_bit_nat_eq_self)
  have gmt: "length (item_bytes (WInt (scast (pairing_gmt_offset s)))) \<le> 5" by (rule item_bytes_i32)
  have bound: "2 + length (number_bytes 4 MtUnsigned) + fields_bound (ig_PairingStep4_fields (step4_of s)) \<le> 68"
    using pin small gmt
    by (simp add: ig_PairingStep4_fields_def step4_of_def number_bytes_length)
  obtain buf n where e: "ig_PairingStep4_encode (step4_of s) (fresh_block junk (unat m)) m = Ok (0, buf, Some n)"
    "n \<le> 2 + length (number_bytes 4 MtUnsigned) + fields_bound (ig_PairingStep4_fields (step4_of s))"
    "length buf = unat m" "ig_PairingStep4_decode (take n buf) ig_PairingStep4_init 0 = Ok (0, step4_of s)"
    using PairingStep4_codec.roundtrip_tight [OF setIgStep4_Ok(2) [OF s], of m "fresh_block junk (unat m)" 0]
    by (auto simp: m_def)
  moreover have "n \<le> unat m"
    using e(2) PairingStep4_codec.bound [OF setIgStep4_Ok(2) [OF s]] unfolding m_def by linarith
  ultimately show ?thesis using bound by auto
qed

lemma decryptClientData_unseals:
  assumes s: "server_ok s" and c: "8 \<le> length c" "length c \<le> 4096"
  defines "n \<equiv> ig_decrypt_data_size (word_of_nat (length c))"
  shows "decryptClientData c (word_of_nat (length c)) (fresh_block junk (unat n)) n s =
    Ok (case unseal (server_pairing_admin_key s) (server_nonce s) c of
          Some msg \<Rightarrow> (0, msg, word_of_nat (length c - 8))
        | None \<Rightarrow> (1, replicate (length c - 8) 0, - 1))"
    "unat n = length c - 8" "\<not> sint n < 0"
proof -
  let ?k = "server_pairing_admin_key s" and ?N = "server_nonce s"
  have k: "good_key ?k" "length ?k = 16" "length ?N = 12" using s by (simp_all add: server_ok_def good_key_def)
  have n: "n = word_of_nat (length c - 8)" using c by (simp add: n_def ig_decrypt_data_size_def of_nat_diff)
  show u: "unat n = length c - 8" unfolding n using c by (intro small_int_word(2)) simp
  have "sint n = int (length c - 8)" unfolding n using c by (intro small_int_word(1)) simp
  then show "\<not> sint n < 0" by simp
  have "unat (word_of_nat (length c) :: u32) = length c" using c by (intro small_int_word(2)) simp
  from decryptData_unseals [OF k(1,3) this c, of n "fresh_block junk (unat n)"]
  have dec: "decryptData c (word_of_nat (length c)) (fresh_block junk (unat n)) n ?k 16 ?N 12 =
      Ok (case unseal ?k ?N c of Some msg \<Rightarrow> (word_of_nat (length c - 8), msg) | None \<Rightarrow> (- 1, replicate (length c - 8) 0))"
    using k u by (simp split: option.splits)
  have "sint (word_of_nat (length c - 8) :: i32) = int (length c - 8)" using c by (intro small_int_word(1)) simp
  then have "(word_of_nat (length c - 8) :: i32) \<noteq> - 1" by force
  then show "decryptClientData c (word_of_nat (length c)) (fresh_block junk (unat n)) n s =
    Ok (case unseal ?k ?N c of Some msg \<Rightarrow> (0, msg, word_of_nat (length c - 8)) | None \<Rightarrow> (1, replicate (length c - 8) 0, - 1))"
    by (simp add: decryptClientData_def dec split: option.splits)
qed

text \<open>A message that was not sealed with the key and nonce of the server changes nothing.\<close>
lemma step4_refuses:
  assumes s: "server_ok s" and c: "8 \<le> length c" "length c \<le> 4096"
    and bad: "unseal (server_pairing_admin_key s) (server_nonce s) c = None"
  shows "ig_pairing_step4 junk drbg rand clock c (word_of_nat (length c)) out len s = Ok (1, out, None, s)"
    "ig_commit_pairing junk c (word_of_nat (length c)) res s = Ok (1, res, s)"
  using decryptClientData_unseals(1) [OF s c, of junk] decryptClientData_unseals(3) [OF s c] bad
  by (simp_all add: ig_pairing_step4_def ig_commit_pairing_def)

text \<open>A message shorter than its tag.\<close>
lemma short_message_overflows:
  assumes "length c < 8"
  shows "ig_pairing_step4 junk drbg rand clock c (word_of_nat (length c)) out len s = Fault OutOfBounds"
    "ig_commit_pairing junk c (word_of_nat (length c)) res s = Fault OutOfBounds"
proof -
  have "length c = 0 \<or> length c = 1 \<or> length c = 2 \<or> length c = 3 \<or> length c = 4 \<or>
      length c = 5 \<or> length c = 6 \<or> length c = 7"
    using assms by linarith
  then have "sint (ig_decrypt_data_size (word_of_nat (length c))) < 0"
    by (elim disjE) (simp_all add: ig_decrypt_data_size_def)
  then show "ig_pairing_step4 junk drbg rand clock c (word_of_nat (length c)) out len s = Fault OutOfBounds"
    "ig_commit_pairing junk c (word_of_nat (length c)) res s = Fault OutOfBounds"
    by (simp_all add: ig_pairing_step4_def ig_commit_pairing_def)
qed

lemma increment_eq: "incrementServerNonce s = s\<lparr>server_nonce := incrementNonce (server_nonce s)\<rparr>"
  by (simp add: incrementServerNonce_def incrementNonce_def)

lemma increment_ok: "server_ok s \<Longrightarrow> server_ok (s\<lparr>server_nonce := incrementNonce (server_nonce s)\<rparr>)"
  by (simp add: server_ok_def)

lemma server_step4_answers:
  assumes s: "server_ok s" and p: "length p \<le> 4088"
    and dec: "ig_PairingStep3_decode p ig_PairingStep3_init 0 = Ok (err, step3)"
    and step3: "ig_PairingStep3_ok step3" "step3_acceptable step3" and drbg: "drbg_ok drbg"
    and room: "76 \<le> unat len" "unat len \<le> length out"
  defines "c \<equiv> seal (server_pairing_admin_key s) (server_nonce s) p"
  shows "\<exists>q s'. ig_pairing_step4 junk drbg rand clock c (word_of_nat (length c)) out len s =
      Ok (0, seal (server_pairing_admin_key s') (client_nonce s') q @ drop (length q + 8) out, Some (word_of_nat (length q + 8)), s') \<and>
    length q \<le> 68 \<and> ig_PairingStep4_decode q ig_PairingStep4_init 0 = Ok (0, step4_of s') \<and>
    server_ready s' \<and> chosen_by step3 s' \<and> server_pairing_admin_key s' = server_pairing_admin_key s \<and>
    server_nonce s' = incrementNonce (server_nonce s)"
proof -
  have k: "good_key (server_pairing_admin_key s)" "length (server_pairing_admin_key s) = 16" "length (server_nonce s) = 12"
    using s by (simp_all add: server_ok_def good_key_def)
  have c: "8 \<le> length c" "length c \<le> 4096" "length c - 8 = length p" "unseal (server_pairing_admin_key s) (server_nonce s) c = Some p"
    using k p by (simp_all add: c_def)
  let ?n = "ig_decrypt_data_size (word_of_nat (length c))"
  have d: "decryptClientData c (word_of_nat (length c)) (fresh_block junk (unat ?n)) ?n s = Ok (0, p, word_of_nat (length p))"
    using decryptClientData_unseals(1) [OF s c(1,2), of junk] c(3,4) by simp
  have lp: "unat (word_of_nat (length p) :: u32) = length p" using p by (intro small_int_word(2)) simp
  let ?s1 = "s\<lparr>server_nonce := incrementNonce (server_nonce s)\<rparr>"
  obtain s' where s': "take_step3 drbg rand clock step3 ?s1 = Ok s'" "server_ready s'" "chosen_by step3 s'" "same_session ?s1 s'"
    using take_step3_Ok [OF increment_ok [OF s] step3 drbg] unfolding server_ready_def by blast
  let ?m = "ig_PairingStep4_get_max_payload_in_bytes (step4_of s')"
  obtain buf n where e: "ig_PairingStep4_encode (step4_of s') (fresh_block junk (unat ?m)) ?m = Ok (0, buf, Some n)"
    "n \<le> 68" "n \<le> length buf" "ig_PairingStep4_decode (take n buf) ig_PairingStep4_init 0 = Ok (0, step4_of s')"
    using step4_encodes [OF s'(2), of junk] by blast
  let ?q = "take n buf"
  have m: "unat ?m \<le> 76"
    using server_ready_pin [OF s'(2)] unfolding setIgStep4_Ok(3) [OF s'(2)] by (subst small_int_word(2)) simp_all
  have guard: "\<not> len < ?m" using m room(1) by (simp add: word_less_nat_alt)
  have k': "good_key (server_pairing_admin_key s')" "length (server_pairing_admin_key s') = 16" "length (client_nonce s') = 12"
    using s'(2) by (simp_all add: server_ready_def server_ok_def good_key_def)
  have q: "length ?q = n" using e(3) by simp
  have "unat (word_of_nat n :: u32) = length ?q" using e(2) q by (subst small_int_word(2)) simp_all
  then have enc: "encryptData buf (word_of_nat n) out len (server_pairing_admin_key s') 16 (client_nonce s') 12 =
      Ok (word_of_nat (length ?q + 8), seal (server_pairing_admin_key s') (client_nonce s') ?q @ drop (length ?q + 8) out)"
    using encryptData_seals [OF k'(1,3), of "word_of_nat n" ?q buf len out] e(2) q room k'(2) by simp
  have "ig_pairing_step4 junk drbg rand clock c (word_of_nat (length c)) out len s =
      Ok (0, seal (server_pairing_admin_key s') (client_nonce s') ?q @ drop (length ?q + 8) out, Some (word_of_nat (length ?q + 8)), s')"
    unfolding ig_pairing_step4_def Let_def d increment_eq
    using decryptClientData_unseals(3) [OF s c(1,2)] step3(2) dec s'(1) guard e(1) enc setIgStep4_Ok(1) [OF s'(2)]
    by (simp add: mem_slice_def lp del: of_nat_add)
  then show ?thesis
    using e(2,4) s'(2-4) q by (intro exI [of _ ?q] exI [of _ s']) (simp add: same_session_def)
qed

section \<open>Commit\<close>

definition result_room :: "IgPairingResult \<Rightarrow> bool" where
  "result_room r \<longleftrightarrow> length (r_admin_key r) = 16 \<and> length (r_pin_key r) = 16 \<and> length (r_password r) = 8 \<and> length (r_master_pin r) = 10"

lemma server_commit_accepts:
  assumes s: "server_ready s" and p: "length p \<le> 4088"
    and dec: "ig_PairingCommit_decode p ig_PairingCommit_init 0 = Ok (err, ig_PairingCommit_set_current_time t ig_PairingCommit_init)"
    and out: "result_room out"
  defines "c \<equiv> seal (server_pairing_admin_key s) (server_nonce s) p"
  shows "\<exists>r. ig_commit_pairing junk c (word_of_nat (length c)) out s =
      Ok (0, r, s\<lparr>server_nonce := incrementNonce (server_nonce s)\<rparr>) \<and>
    r_admin_key r = server_pairing_admin_key s \<and> r_pin_key r = pairing_pin_key s \<and> r_password r = pairing_password s \<and>
    r_master_pin_length r = pairing_master_pin_length s \<and>
    take (unat (r_master_pin_length r)) (r_master_pin r) = take (unat (pairing_master_pin_length s)) (pairing_master_pin s) \<and>
    r_current_time r = t \<and> r_gmt_offset r = pairing_gmt_offset s"
proof -
  have ok: "server_ok s" using s by (simp add: server_ready_def)
  have k: "good_key (server_pairing_admin_key s)" "length (server_nonce s) = 12" using ok by (simp_all add: server_ok_def good_key_def)
  have c: "8 \<le> length c" "length c \<le> 4096" "length c - 8 = length p" "unseal (server_pairing_admin_key s) (server_nonce s) c = Some p"
    using k p by (simp_all add: c_def)
  let ?n = "ig_decrypt_data_size (word_of_nat (length c))"
  have d: "decryptClientData c (word_of_nat (length c)) (fresh_block junk (unat ?n)) ?n s = Ok (0, p, word_of_nat (length p))"
    "unat ?n = length p"
    using decryptClientData_unseals(1) [OF ok c(1,2), of junk] decryptClientData_unseals(2) [OF ok c(1,2)] c(3,4) by simp_all
  have stack: "\<not> sint ?n < 0" by (rule decryptClientData_unseals(3) [OF ok c(1,2)])
  have valid: "ig_PairingCommit_is_valid (ig_PairingCommit_set_current_time t ig_PairingCommit_init)"
    "PairingCommit_current_time (ig_PairingCommit_set_current_time t ig_PairingCommit_init) = t"
    by (simp_all add: ig_PairingCommit_is_valid_def ig_PairingCommit_set_current_time_def)
  let ?k = "unat (pairing_master_pin_length s)"
  have pin: "?k \<le> 10" by (rule server_ready_pin [OF s])
  have len: "length (server_pairing_admin_key s) = 16" "length (pairing_pin_key s) = 16" "length (pairing_password s) = 8"
    "length (pairing_master_pin s) = 10" using ok by (simp_all add: server_ok_def)
  have w: "mem_write (r_admin_key out) 0 (server_pairing_admin_key s) = Ok (server_pairing_admin_key s)"
    "mem_write (r_pin_key out) 0 (pairing_pin_key s) = Ok (pairing_pin_key s)"
    "mem_write (r_password out) 0 (pairing_password s) = Ok (pairing_password s)"
    "mem_slice (pairing_master_pin s) 0 ?k = Ok (take ?k (pairing_master_pin s))"
    "mem_write (r_master_pin out) 0 (take ?k (pairing_master_pin s)) = Ok (take ?k (pairing_master_pin s) @ drop ?k (r_master_pin out))"
    using out len pin by (simp_all add: result_room_def mem_write_def mem_slice_def)
  show ?thesis
    unfolding ig_commit_pairing_def Let_def d(1)
    using stack dec valid w len pin by (simp add: d(2) mem_slice_def)
qed

section \<open>A whole pairing\<close>

lemma nonce_message:
  assumes "length N = 12"
  shows "ig_PairingStep3_ok (pairing_step3 N)" "step3_acceptable (pairing_step3 N)" "chosen_by (pairing_step3 N) s \<Longrightarrow> client_nonce s = N"
  using assms by (auto simp: ig_PairingStep3_ok_def ig_PairingStep3_is_valid_def pairing_step3_def ig_PairingStep3_init_def
      str_ok_def num_ok_def step3_acceptable_def ig_PairingStep3_get_nonce_size_def chosen_by_def)

text \<open>The client after it has read step 2.\<close>
definition client_after_step2 :: "bytes \<Rightarrow> bytes \<Rightarrow> bytes \<Rightarrow> pairing_state \<Rightarrow> pairing_state" where
  "client_after_step2 pub N z s = s\<lparr>otherPublicKey := pub, sharedKey := take 16 z, p_txNonce := incrementNonce N\<rparr>"

lemma client_after_step2_ok:
  "pairing_ok s \<Longrightarrow> length pub = 64 \<Longrightarrow> length N = 12 \<Longrightarrow> length z = 32 \<Longrightarrow> pairing_ok (client_after_step2 pub N z s)"
  by (simp add: pairing_ok_def client_after_step2_def)

lemma client_reads_step2:
  assumes client: "pairing_ok s" and keys: "length pub = 64" and N: "length N = 12"
    and secret: "shared_secret pub (privateKey s) = Some z" "length z = 32"
  shows "\<exists>p. PairingConnection_genPairingStep3Native shared_secret 84 (Some (step2_message pub N)) s =
      Ok (word_of_nat (length (seal (take 16 z) N p)), Some (seal (take 16 z) N p), client_after_step2 pub N z s) \<and>
    length p \<le> 66 \<and> ig_PairingStep3_decode p ig_PairingStep3_init 0 = Ok (0, pairing_step3 (p_rxNonce s))"
proof -
  let ?m = "step2_message pub N"
  have m: "?m \<noteq> []" "length ?m < 2 ^ 31" "word_of_nat (length ?m) = (84 :: u32)" using keys N by (simp_all add: step2_message_def)
  have "good_key (take 16 z)" using secret(2) by (simp add: good_key_def)
  then show ?thesis
    using step3_answers [where shared_secret = shared_secret, OF client m(1,2) step2_decoding [OF keys N], of N pub z]
      keys secret N unfolding m(3) by (auto simp: pairing_step2_def client_after_step2_def)
qed

lemma client_finishes:
  assumes client: "pairing_ok s" and q: "length q \<le> 68" "ig_PairingStep4_decode q ig_PairingStep4_init 0 = Ok (0, step4_of v)"
    and v: "server_ready v"
  defines "c \<equiv> seal (sharedKey s) (p_rxNonce s) q" and "s' \<equiv> s\<lparr>p_rxNonce := incrementNonce (p_rxNonce s)\<rparr>"
  shows "PairingConnection_recPairingStep4Native (word_of_nat (length c)) (Some c) s = Ok (Some (step4_of v), s')"
    "\<exists>p. PairingConnection_genPairingCommitNative now s' =
        Ok (word_of_nat (length (seal (sharedKey s) (p_txNonce s) p)), Some (seal (sharedKey s) (p_txNonce s) p),
          s'\<lparr>p_txNonce := incrementNonce (p_txNonce s)\<rparr>) \<and> length p \<le> 19 \<and>
      ig_PairingCommit_decode p ig_PairingCommit_init 0 = Ok (0, ig_PairingCommit_set_current_time now ig_PairingCommit_init)"
proof -
  have k: "good_key (sharedKey s)" "length (p_rxNonce s) = 12" "length (p_txNonce s) = 12"
    using client by (simp_all add: pairing_ok_def good_key_def)
  then have l: "8 \<le> length c" "length c \<le> 4096" using q(1) by (simp_all add: c_def)
  show "PairingConnection_recPairingStep4Native (word_of_nat (length c)) (Some c) s = Ok (Some (step4_of v), s')"
    using step4_receives [OF client l] q(2) k copy_step4 [OF setIgStep4_Ok(2) [OF v]] by (simp add: c_def s'_def step4_of_def)
  have "pairing_ok s'" using client by (simp add: pairing_ok_def s'_def)
  then show "\<exists>p. PairingConnection_genPairingCommitNative now s' =
        Ok (word_of_nat (length (seal (sharedKey s) (p_txNonce s) p)), Some (seal (sharedKey s) (p_txNonce s) p),
          s'\<lparr>p_txNonce := incrementNonce (p_txNonce s)\<rparr>) \<and> length p \<le> 19 \<and>
      ig_PairingCommit_decode p ig_PairingCommit_init 0 = Ok (0, ig_PairingCommit_set_current_time now ig_PairingCommit_init)"
    using commit_seals [of s' now] k by (simp add: s'_def)
qed

text \<open>The five messages of a pairing between \<open>pairing_connection.c\<close> and \<open>pairing.c\<close>: if the curve gives both the
  same secret, every step succeeds and both end with the same key, password, pin key and master pin.\<close>
lemma pairing_run:
  assumes client: "pairing_ok s0" and server: "server_ok v0"
    and keys: "length pub = 64" "length priv = 32"
    and secret: "shared_secret (publicKey s0) priv = Some z" "shared_secret pub (privateKey s0) = Some z" "length z = 32"
    and drbg: "drbg_ok drbg" and out: "result_room out"
  shows "\<exists>p1 b2 n2 v1 c3 s1 b4 n4 v2 s4 s2 c5 s3 r v3.
    PairingConnection_genPairingStep1Native s0 = Ok (word_of_nat (length p1), Some p1) \<and>
    server_gen_pairing_step2 shared_secret (Some (pub, priv)) rand t p1 (word_of_nat (length p1)) (replicate 103 0) 103 v0 =
      Ok (0, b2, Some (word_of_nat n2), v1) \<and>
    PairingConnection_genPairingStep3Native shared_secret (word_of_nat n2) (Some (take n2 b2)) s0 =
      Ok (word_of_nat (length c3), Some c3, s1) \<and>
    ig_pairing_step4 junk drbg rand clock c3 (word_of_nat (length c3)) (fresh_block junk 76) 76 v1 =
      Ok (0, b4, Some (word_of_nat n4), v2) \<and>
    PairingConnection_recPairingStep4Native (word_of_nat n4) (Some (take n4 b4)) s1 = Ok (Some s4, s2) \<and>
    PairingConnection_genPairingCommitNative now s2 = Ok (word_of_nat (length c5), Some c5, s3) \<and>
    ig_commit_pairing junk c5 (word_of_nat (length c5)) out v2 = Ok (0, r, v3) \<and>
    PairingConnection_getAdminKeyNative s3 = Ok (16, r_admin_key r) \<and> r_admin_key r = take 16 z \<and>
    PairingStep4_pin_key s4 = Some (r_pin_key r) \<and> PairingStep4_password s4 = Some (r_password r) \<and>
    PairingStep4_master_pin s4 = Some (take (unat (r_master_pin_length r)) (r_master_pin r)) \<and>
    r_current_time r = now"
proof -
  have pk: "length (publicKey s0) = 64" "length (p_rxNonce s0) = 12" using client by (simp_all add: pairing_ok_def)
  obtain p1 where p1: "PairingConnection_genPairingStep1Native s0 = Ok (word_of_nat (length p1), Some p1)" "length p1 \<le> 84"
    "ig_PairingStep1_decode p1 ig_PairingStep1_init 0 = Ok (0, pairing_step1 (publicKey s0))"
    using step1_carries_key [OF pk(1)] by blast
  define N where "N = generateRandomNonce rand t 12"
  have lN: "length N = 12" by (simp add: N_def)
  let ?k = "take 16 z" and ?v1 = "after_step2 (publicKey s0) N pub priv z v0" and ?s1 = "client_after_step2 pub N z s0"
    and ?b2 = "step2_message pub N @ drop 84 (replicate 103 0)"
  have v1: "server_ok ?v1" by (rule after_step2_ok [OF server pk(1) lN keys secret(3)])
  have at1: "server_pairing_admin_key ?v1 = ?k" "server_nonce ?v1 = N" by (simp_all add: after_step2_def)
  have at2: "sharedKey ?s1 = ?k" "p_rxNonce ?s1 = p_rxNonce s0" "p_txNonce ?s1 = incrementNonce N" by (simp_all add: client_after_step2_def)
  have k: "good_key ?k" using secret(3) by (simp add: good_key_def)
  have l1: "length p1 < 2 ^ 31" "(103 :: nat) \<le> unat (103 :: u32)" "unat (103 :: u32) \<le> length (replicate 103 (0 :: u8))"
    using p1(2) by simp_all
  have e2: "server_gen_pairing_step2 shared_secret (Some (pub, priv)) rand t p1 (word_of_nat (length p1))
      (replicate 103 0) 103 v0 = Ok (0, ?b2, Some (word_of_nat 84), ?v1)"
    using server_step2_answers [where shared_secret = shared_secret, OF server l1(1) p1(3) pk(1) keys secret(1,3) l1(2,3) N_def] by simp
  obtain p3 where p3: "PairingConnection_genPairingStep3Native shared_secret 84 (Some (step2_message pub N)) s0 =
      Ok (word_of_nat (length (seal ?k N p3)), Some (seal ?k N p3), ?s1)" "length p3 \<le> 66"
    "ig_PairingStep3_decode p3 ig_PairingStep3_init 0 = Ok (0, pairing_step3 (p_rxNonce s0))"
    using client_reads_step2 [where shared_secret = shared_secret, OF client keys(1) lN secret(2,3)] by blast
  have l3: "length p3 \<le> 4088" "(76 :: nat) \<le> unat (76 :: u32)" "unat (76 :: u32) \<le> length (fresh_block junk 76)" using p3(2) by simp_all
  obtain q v2 where v2: "ig_pairing_step4 junk drbg rand clock (seal ?k N p3) (word_of_nat (length (seal ?k N p3))) (fresh_block junk 76) 76 ?v1 =
      Ok (0, seal ?k (p_rxNonce s0) q @ drop (length q + 8) (fresh_block junk 76), Some (word_of_nat (length q + 8)), v2)"
    "length q \<le> 68" "ig_PairingStep4_decode q ig_PairingStep4_init 0 = Ok (0, step4_of v2)" "server_ready v2"
    "server_pairing_admin_key v2 = ?k" "server_nonce v2 = incrementNonce N"
    using server_step4_answers [OF v1 l3(1) p3(3) nonce_message(1,2) [OF pk(2)] drbg l3(2,3), of junk rand clock]
      nonce_message(3) [OF pk(2)] unfolding at1 by metis
  let ?c4 = "seal ?k (p_rxNonce s0) q" and ?b4 = "seal ?k (p_rxNonce s0) q @ drop (length q + 8) (fresh_block junk 76)"
  have c4: "length ?c4 = length q + 8" "take (length q + 8) ?b4 = ?c4" using k pk(2) by simp_all
  note last = client_finishes [OF client_after_step2_ok [OF client keys(1) lN secret(3)] v2(2-4), unfolded at2]
  let ?s2 = "?s1\<lparr>p_rxNonce := incrementNonce (p_rxNonce s0)\<rparr>"
  obtain p5 where p5: "PairingConnection_genPairingCommitNative now ?s2 =
      Ok (word_of_nat (length (seal ?k (incrementNonce N) p5)), Some (seal ?k (incrementNonce N) p5), ?s2\<lparr>p_txNonce := incrementNonce (incrementNonce N)\<rparr>)"
    "length p5 \<le> 19" "ig_PairingCommit_decode p5 ig_PairingCommit_init 0 = Ok (0, ig_PairingCommit_set_current_time now ig_PairingCommit_init)"
    using last(2) [of now] by blast
  have l5: "length p5 \<le> 4088" using p5(2) by simp
  obtain r where r: "ig_commit_pairing junk (seal ?k (incrementNonce N) p5) (word_of_nat (length (seal ?k (incrementNonce N) p5))) out v2 =
      Ok (0, r, v2\<lparr>server_nonce := incrementNonce (server_nonce v2)\<rparr>)"
    "r_admin_key r = ?k" "r_pin_key r = pairing_pin_key v2" "r_password r = pairing_password v2"
    "take (unat (r_master_pin_length r)) (r_master_pin r) = take (unat (pairing_master_pin_length v2)) (pairing_master_pin v2)"
    "r_current_time r = now"
    using server_commit_accepts [OF v2(4) l5 p5(3) out, of junk] unfolding v2(5,6) by metis
  have key: "PairingConnection_getAdminKeyNative (?s2\<lparr>p_txNonce := incrementNonce (incrementNonce N)\<rparr>) = Ok (16, r_admin_key r)"
    using secret(3) at2 by (simp add: r(2) PairingConnection_getAdminKeyNative_def mem_slice_def)
  have e3: "PairingConnection_genPairingStep3Native shared_secret (word_of_nat 84) (Some (take 84 ?b2)) s0 =
      Ok (word_of_nat (length (seal ?k N p3)), Some (seal ?k N p3), ?s1)"
    using p3(1) keys(1) lN by (simp add: step2_message_def)
  have e4: "PairingConnection_recPairingStep4Native (word_of_nat (length q + 8)) (Some (take (length q + 8) ?b4)) ?s1 = Ok (Some (step4_of v2), ?s2)"
    using last(1) unfolding c4 .
  show ?thesis
    by (intro exI conjI) (rule p1(1) e2 e3 v2(1) e4 p5(1) r(1) key r(2,6) | simp add: r(3-5) step4_of_def)+
qed

end
