(* ===== verification/Wifi_Records.thy ===== *)
theory Wifi_Records
  imports Ig_Interface Ble_Framing
begin

text \<open>
  Two CBOR objects of the WiFi service that are not generated: the session secrets the pairing process hands
  over (\<open>wifi_service/crypt.c\<close>) and the WiFi settings a client sends (\<open>wifi_service/SetWifiInfoRequest.c\<close>).  Their
  writers and readers have the shape of the message files, so they are given by \<open>ig_encode\<close> and \<open>ig_decode\<close>; a length
  is a word of 32 bits like there.  A pointer to an object is an option.  A call of \<open>malloc\<close> succeeds.
\<close>

section \<open>Messages of another number\<close>

text \<open>A message whose number is not the one the reader expects is refused at its first pair.\<close>
lemma ig_decode_other_id:
  assumes cases: "map_of cases 0 = Some (CMsgId want)" and other: "got \<noteq> want" and small: "length items < 2 ^ 29"
  shows "ig_decode cases (message_bytes ((0, WUint got) # items) @ rest) obj index = Ok (IgSerializerErrorInvalidMsgIdValue, obj)"
proof -
  let ?kvs = "(0, WUint got) # items"
  let ?head = "number_bytes (word_of_nat (length ?kvs)) MtMap"
  let ?bs = "?head @ item_bytes (WUint 0) @ item_bytes (WUint got) @ kv_bytes items @ rest"
  let ?r = "word_of_nat (2 * Suc (length items)) :: u32"
  have bs: "message_bytes ?kvs @ rest = ?bs" by (simp add: message_bytes_def)
  have sz: "?kvs \<noteq> []" "length ?kvs < 2 ^ 30" "length items < 2 ^ 30" using small by simp_all
  obtain c where c: "ig_open (message_bytes ?kvs @ rest) index = Ok (0, Some c)" "stands (length ?head) ?kvs c"
    using open_map [OF sz(1,2)] by blast
  have at: "c = item_at (WUint 0) (length ?head) ?r" using c(2) by simp
  let ?c1 = "item_at (WUint got) (length (?head @ item_bytes (WUint 0))) (word_of_nat (Suc (2 * length items)))"
  have "2 * Suc (length items) < 2 ^ 32 - 1" using small by simp
  then have "?r \<noteq> 0" by (rule count_words(2)) simp
  then have go: "\<not> cbor_value_at_end c" by (simp add: at cbor_value_at_end_def del: of_nat_Suc of_nat_mult)
  have tag: "cbor_value_get_int64 ?bs c = Ok 0"
    using get_int64_uint_item [of ?head 0 "item_bytes (WUint got) @ kv_bytes items @ rest" ?r] by (simp add: at)
  have adv: "cbor_value_advance_fixed ?bs c = Ok (0, ?c1)"
    using advance_key [OF sz(3), of ?head 0 "WUint got" "kv_bytes items @ rest"] by (simp add: at)
  have val: "cbor_value_get_int64 ?bs ?c1 = Ok got"
    using get_int64_uint_item [of "?head @ item_bytes (WUint 0)" got "kv_bytes items @ rest" "word_of_nat (Suc (2 * length items))"]
    by simp
  have types: "v_type c = CborIntegerType" "v_type ?c1 = CborIntegerType" by (simp_all add: at)
  obtain after where "dropWhile (\<lambda>(k', _). k' \<noteq> 0) cases = (0, CMsgId want) # after"
    using map_of_dropWhile [OF cases] by blast
  then have "ig_switch 0 cases ?bs ?c1 obj = Ok (Return IgSerializerErrorInvalidMsgIdValue obj)"
    using val other types by (simp add: ig_switch_def)
  moreover obtain m where "decode_fuel ?bs = Suc m" by (simp add: decode_fuel_def)
  ultimately have "ig_decode_loop (decode_fuel ?bs) cases ?bs 0 c obj = Ok (IgSerializerErrorInvalidMsgIdValue, obj)"
    using go tag adv types by simp
  then show ?thesis using c(1) by (simp add: ig_decode_def bs)
qed

section \<open>Session secrets\<close>

record Crypt =
  Crypt_has_server_pairing_admin_key :: bool
  Crypt_server_pairing_admin_key :: block_ptr
  Crypt_server_pairing_admin_key_len :: nat
  Crypt_has_client_nonce :: bool
  Crypt_client_nonce :: block_ptr
  Crypt_client_nonce_len :: nat
  Crypt_has_server_nonce :: bool
  Crypt_server_nonce :: block_ptr
  Crypt_server_nonce_len :: nat

definition Crypt_zero :: Crypt where
  "Crypt_zero =
     \<lparr>Crypt_has_server_pairing_admin_key = False, Crypt_server_pairing_admin_key = None, Crypt_server_pairing_admin_key_len = 0,
      Crypt_has_client_nonce = False, Crypt_client_nonce = None, Crypt_client_nonce_len = 0,
      Crypt_has_server_nonce = False, Crypt_server_nonce = None, Crypt_server_nonce_len = 0\<rparr>"

definition initCrypt :: "Crypt option \<Rightarrow> nat \<times> Crypt option" where
  "initCrypt obj = (case obj of None \<Rightarrow> (1, obj) | Some c \<Rightarrow> (0, Some Crypt_zero))"

text \<open>\<open>fresh\<close> is what the block from \<open>malloc\<close> holds.\<close>
definition getCrypt :: "Crypt \<Rightarrow> Crypt option \<Rightarrow> nat \<times> Crypt option" where
  "getCrypt fresh obj = (case obj of Some c \<Rightarrow> (1, obj) | None \<Rightarrow> (0, Some fresh))"

definition setCryptAdminKey :: "Crypt option \<Rightarrow> block_ptr \<Rightarrow> nat \<Rightarrow> (nat \<times> Crypt option) res" where
  "setCryptAdminKey data admin_key admin_key_len =
     (case data of None \<Rightarrow> Ok (1, data)
      | Some c \<Rightarrow>
          if admin_key = None then Ok (1, data)
          else bindR (block_read admin_key admin_key_len) (\<lambda>d.
            Ok (0, Some (c\<lparr>Crypt_server_pairing_admin_key := Some d, Crypt_has_server_pairing_admin_key := True,
                           Crypt_server_pairing_admin_key_len := admin_key_len\<rparr>))))"

definition setCryptClientNonce :: "Crypt option \<Rightarrow> block_ptr \<Rightarrow> nat \<Rightarrow> (nat \<times> Crypt option) res" where
  "setCryptClientNonce data nonce nonce_len =
     (case data of None \<Rightarrow> Ok (1, data)
      | Some c \<Rightarrow>
          if nonce = None then Ok (1, data)
          else bindR (block_read nonce nonce_len) (\<lambda>d.
            Ok (0, Some (c\<lparr>Crypt_client_nonce := Some d, Crypt_has_client_nonce := True, Crypt_client_nonce_len := nonce_len\<rparr>))))"

definition setCryptServerNonce :: "Crypt option \<Rightarrow> block_ptr \<Rightarrow> nat \<Rightarrow> (nat \<times> Crypt option) res" where
  "setCryptServerNonce data nonce nonce_len =
     (case data of None \<Rightarrow> Ok (1, data)
      | Some c \<Rightarrow>
          if nonce = None then Ok (1, data)
          else bindR (block_read nonce nonce_len) (\<lambda>d.
            Ok (0, Some (c\<lparr>Crypt_server_nonce := Some d, Crypt_has_server_nonce := True, Crypt_server_nonce_len := nonce_len\<rparr>))))"

definition isCryptInvalid :: "Crypt option \<Rightarrow> bool" where
  "isCryptInvalid obj = (case obj of
     None \<Rightarrow> True
   | Some c \<Rightarrow> \<not> Crypt_has_client_nonce c \<or> \<not> Crypt_has_server_nonce c \<or> \<not> Crypt_has_server_pairing_admin_key c)"

definition Crypt_fields :: "Crypt \<Rightarrow> enc_field list" where
  "Crypt_fields obj =
     [(True, 11, ABytes (Crypt_server_pairing_admin_key obj) (Crypt_server_pairing_admin_key_len obj)),
      (True, 12, ABytes (Crypt_server_nonce obj) (Crypt_server_nonce_len obj)),
      (True, 13, ABytes (Crypt_client_nonce obj) (Crypt_client_nonce_len obj))]"

definition Crypt_fields_size :: u64 where
  "Crypt_fields_size = 1 + 1 + 1 + 1"

definition encodeCrypt :: "Crypt \<Rightarrow> bytes \<Rightarrow> u32 \<Rightarrow> (nat \<times> bytes \<times> nat option) res" where
  "encodeCrypt obj retval len =
     (if isCryptInvalid (Some obj) then Ok (1, retval, None)
      else ig_encode Crypt_fields_size 51 (Crypt_fields obj) retval len)"

text \<open>A setter as the reader calls it, with a block of its own and without a look at the result.\<close>
definition crypt_store ::
  "(Crypt option \<Rightarrow> block_ptr \<Rightarrow> nat \<Rightarrow> (nat \<times> Crypt option) res) \<Rightarrow> block_ptr \<Rightarrow> nat \<Rightarrow> Crypt \<Rightarrow> Crypt"
where
  "crypt_store setter p n obj = (case setter (Some obj) p n of Ok (ret, Some obj') \<Rightarrow> obj' | _ \<Rightarrow> obj)"

definition Crypt_cases :: "(i64 \<times> Crypt case_body) list" where
  "Crypt_cases =
     [(0, CMsgId 51),
      (11, CBytes (crypt_store setCryptAdminKey)),
      (12, CBytes (crypt_store setCryptServerNonce)),
      (13, CBytes (crypt_store setCryptClientNonce)),
      (13, CBreak)]"

definition decodeCrypt :: "bytes \<Rightarrow> Crypt \<Rightarrow> nat \<Rightarrow> (nat \<times> Crypt) res" where
  "decodeCrypt buf retval index = ig_decode Crypt_cases buf retval index"

text \<open>All three members are set, each shorter than 256 bytes.\<close>
definition Crypt_ok :: "Crypt \<Rightarrow> bool" where
  "Crypt_ok obj \<longleftrightarrow>
     str_ok (Crypt_has_server_pairing_admin_key obj) (Crypt_server_pairing_admin_key obj) (Crypt_server_pairing_admin_key_len obj) \<and>
     str_ok (Crypt_has_client_nonce obj) (Crypt_client_nonce obj) (Crypt_client_nonce_len obj) \<and>
     str_ok (Crypt_has_server_nonce obj) (Crypt_server_nonce obj) (Crypt_server_nonce_len obj) \<and>
     \<not> isCryptInvalid (Some obj) \<and> Crypt_server_pairing_admin_key_len obj < 256 \<and>
     Crypt_client_nonce_len obj < 256 \<and> Crypt_server_nonce_len obj < 256"

lemma crypt_setters:
  "length d = n \<Longrightarrow> crypt_store setCryptAdminKey (Some d) n c =
     c\<lparr>Crypt_server_pairing_admin_key := Some d, Crypt_has_server_pairing_admin_key := True, Crypt_server_pairing_admin_key_len := n\<rparr>"
  "length d = n \<Longrightarrow> crypt_store setCryptServerNonce (Some d) n c =
     c\<lparr>Crypt_server_nonce := Some d, Crypt_has_server_nonce := True, Crypt_server_nonce_len := n\<rparr>"
  "length d = n \<Longrightarrow> crypt_store setCryptClientNonce (Some d) n c =
     c\<lparr>Crypt_client_nonce := Some d, Crypt_has_client_nonce := True, Crypt_client_nonce_len := n\<rparr>"
  by (auto simp: crypt_store_def setCryptAdminKey_def setCryptServerNonce_def setCryptClientNonce_def)

lemma Crypt_parts:
  assumes "Crypt_ok obj"
  obtains k s c where "obj = \<lparr>Crypt_has_server_pairing_admin_key = True, Crypt_server_pairing_admin_key = Some k,
      Crypt_server_pairing_admin_key_len = length k, Crypt_has_client_nonce = True, Crypt_client_nonce = Some c,
      Crypt_client_nonce_len = length c, Crypt_has_server_nonce = True, Crypt_server_nonce = Some s, Crypt_server_nonce_len = length s\<rparr>"
    "length k < 256" "length s < 256" "length c < 256"
proof -
  show ?thesis
    using assms that by (cases obj) (auto simp: Crypt_ok_def isCryptInvalid_def str_ok_def split: option.splits)
qed

lemma short_string_head: "n < 256 \<Longrightarrow> length (number_bytes (word_of_nat n) MtBytes) \<le> 2"
  by (simp add: number_bytes_length word_le_nat_alt word_less_nat_alt unat_of_nat take_bit_nat_eq_self)

interpretation Crypt_codec: ig_fields Crypt_ok 51 "\<lambda>obj. Crypt_fields_size" Crypt_fields "\<lambda>obj. 1024" Crypt_zero Crypt_cases
proof
  show "length (Crypt_fields r) < 23" for r by (simp add: Crypt_fields_def)
  show "Crypt_fields_size = word_of_nat (Suc (count_present (Crypt_fields r)))" for r
    by (simp add: Crypt_fields_def Crypt_fields_size_def)
  show "blocks_ok (Crypt_fields r)" if "Crypt_ok r" for r
    using that by (auto simp: Crypt_fields_def Crypt_ok_def simp del: arg_block_ok.simps intro: str_ok_block)
  show "map_of Crypt_cases 0 = Some (CMsgId 51)" by (simp add: Crypt_cases_def)
  show "store_fields Crypt_cases (Crypt_fields r) Crypt_zero = Some r" if "Crypt_ok r" for r
    using that by (rule Crypt_parts) (simp add: Crypt_fields_def Crypt_cases_def Crypt_zero_def block_bytes_def crypt_setters)
  show "2 + length (number_bytes 51 MtUnsigned) + fields_bound (Crypt_fields r) \<le> unat (1024 :: u32)" if "Crypt_ok r" for r
    using that
  proof (rule Crypt_parts)
    fix k s c
    assume r: "r = \<lparr>Crypt_has_server_pairing_admin_key = True, Crypt_server_pairing_admin_key = Some k,
      Crypt_server_pairing_admin_key_len = length k, Crypt_has_client_nonce = True, Crypt_client_nonce = Some c,
      Crypt_client_nonce_len = length c, Crypt_has_server_nonce = True, Crypt_server_nonce = Some s, Crypt_server_nonce_len = length s\<rparr>"
      and len: "length k < 256" "length s < 256" "length c < 256"
    show ?thesis
      using short_string_head [OF len(1)] short_string_head [OF len(2)] short_string_head [OF len(3)] len
      by (simp add: r Crypt_fields_def number_bytes_literal)
  qed
qed

lemma crypt_roundtrip:
  assumes "Crypt_ok c" "1024 \<le> unat len" "unat len \<le> length buf"
  shows "\<exists>buf' n. encodeCrypt c buf len = Ok (0, buf', Some n) \<and> length buf' = length buf \<and> n \<le> 1024 \<and>
    decodeCrypt (take n buf') Crypt_zero index = Ok (0, c)"
proof -
  have "\<not> isCryptInvalid (Some c)" using assms(1) by (simp add: Crypt_ok_def)
  moreover have "2 + length (number_bytes 51 MtUnsigned) + fields_bound (Crypt_fields c) \<le> 1024"
    using Crypt_codec.bound [OF assms(1)] by simp
  ultimately show ?thesis
    using Crypt_codec.fields_roundtrip [OF assms(1) _ assms(3), of index] assms(2)
    by (auto simp: encodeCrypt_def decodeCrypt_def)
qed

section \<open>WiFi settings\<close>

record SetWIFIInfoRequest =
  Wifi_has_ssid :: bool
  Wifi_ssid :: block_ptr
  Wifi_ssid_len :: nat
  Wifi_has_password :: bool
  Wifi_password :: block_ptr
  Wifi_password_len :: nat
  Wifi_has_token :: bool
  Wifi_token :: block_ptr
  Wifi_token_len :: nat

definition Wifi_zero :: SetWIFIInfoRequest where
  "Wifi_zero =
     \<lparr>Wifi_has_ssid = False, Wifi_ssid = None, Wifi_ssid_len = 0, Wifi_has_password = False, Wifi_password = None,
      Wifi_password_len = 0, Wifi_has_token = False, Wifi_token = None, Wifi_token_len = 0\<rparr>"

definition getWifiInfoRequest :: "SetWIFIInfoRequest \<Rightarrow> SetWIFIInfoRequest option option \<Rightarrow> nat \<times> SetWIFIInfoRequest option option" where
  "getWifiInfoRequest fresh pp_wifi_info = (case pp_wifi_info of None \<Rightarrow> (1, None) | Some p \<Rightarrow> (0, Some (Some fresh)))"

definition initWifiInfoRequest :: "SetWIFIInfoRequest \<Rightarrow> SetWIFIInfoRequest" where
  "initWifiInfoRequest wifi_info = Wifi_zero"

definition deinitWifiInfoRequest :: "SetWIFIInfoRequest \<Rightarrow> SetWIFIInfoRequest" where
  "deinitWifiInfoRequest w = (let
     w = (if Wifi_has_ssid w then w\<lparr>Wifi_has_ssid := False, Wifi_ssid := None, Wifi_ssid_len := 0\<rparr> else w);
     w = (if Wifi_has_token w then w\<lparr>Wifi_has_token := False, Wifi_token := None, Wifi_token_len := 0\<rparr> else w);
     w = (if Wifi_has_password w then w\<lparr>Wifi_has_password := False, Wifi_password := None, Wifi_password_len := 0\<rparr> else w)
   in w)"

text \<open>\<open>malloc(len)\<close>, \<open>memset\<close> over the size of a pointer, \<open>memcpy\<close> of the data.\<close>
definition wifi_block :: "(nat \<Rightarrow> u8) \<Rightarrow> block_ptr \<Rightarrow> nat \<Rightarrow> bytes res" where
  "wifi_block junk p len =
     bindR (mem_write (fresh_block junk len) 0 (replicate 8 0)) (\<lambda>b.
     bindR (block_read p len) (\<lambda>d. mem_write b 0 d))"

definition setWifiInfoRequestSSID ::
  "(nat \<Rightarrow> u8) \<Rightarrow> SetWIFIInfoRequest option \<Rightarrow> block_ptr \<Rightarrow> nat \<Rightarrow> (nat \<times> SetWIFIInfoRequest option) res"
where
  "setWifiInfoRequestSSID junk obj ssid ssid_len =
     (case obj of None \<Rightarrow> Ok (1, obj)
      | Some w \<Rightarrow> bindR (wifi_block junk ssid ssid_len) (\<lambda>b.
          Ok (0, Some (w\<lparr>Wifi_ssid := Some b, Wifi_has_ssid := True, Wifi_ssid_len := ssid_len\<rparr>))))"

definition setWifiInfoRequestToken ::
  "(nat \<Rightarrow> u8) \<Rightarrow> SetWIFIInfoRequest option \<Rightarrow> block_ptr \<Rightarrow> nat \<Rightarrow> (nat \<times> SetWIFIInfoRequest option) res"
where
  "setWifiInfoRequestToken junk obj token token_len =
     (case obj of None \<Rightarrow> Ok (1, obj)
      | Some w \<Rightarrow> bindR (wifi_block junk token token_len) (\<lambda>b.
          Ok (0, Some (w\<lparr>Wifi_token := Some b, Wifi_has_token := True, Wifi_token_len := token_len\<rparr>))))"

definition setWifiInfoRequestPassword ::
  "(nat \<Rightarrow> u8) \<Rightarrow> SetWIFIInfoRequest option \<Rightarrow> block_ptr \<Rightarrow> nat \<Rightarrow> (nat \<times> SetWIFIInfoRequest option) res"
where
  "setWifiInfoRequestPassword junk obj password password_len =
     (case obj of None \<Rightarrow> Ok (1, obj)
      | Some w \<Rightarrow> bindR (wifi_block junk password password_len) (\<lambda>b.
          Ok (0, Some (w\<lparr>Wifi_password := Some b, Wifi_has_password := True, Wifi_password_len := password_len\<rparr>))))"

definition isWifiInfoRequestInvalid :: "SetWIFIInfoRequest option \<Rightarrow> bool" where
  "isWifiInfoRequestInvalid obj = (case obj of None \<Rightarrow> True | Some w \<Rightarrow> \<not> Wifi_has_password w \<and> \<not> Wifi_has_ssid w)"

definition Wifi_fields :: "SetWIFIInfoRequest \<Rightarrow> enc_field list" where
  "Wifi_fields obj =
     [(True, 11, ABytes (Wifi_ssid obj) (Wifi_ssid_len obj)),
      (True, 12, ABytes (Wifi_password obj) (Wifi_password_len obj)),
      (True, 13, ABytes (Wifi_token obj) (Wifi_token_len obj))]"

definition Wifi_fields_size :: u64 where
  "Wifi_fields_size = 1 + 1 + 1 + 1"

definition encodeWifiInfoRequest :: "SetWIFIInfoRequest option \<Rightarrow> bytes \<Rightarrow> u32 \<Rightarrow> (nat \<times> bytes \<times> nat option) res" where
  "encodeWifiInfoRequest obj retval len =
     (case obj of None \<Rightarrow> Ok (1, retval, None)
      | Some w \<Rightarrow> if isWifiInfoRequestInvalid obj then Ok (1, retval, None)
                  else ig_encode Wifi_fields_size 51 (Wifi_fields w) retval len)"

text \<open>A setter of this object may leave its block.  The reader carries the object as an outcome, so that a
  fault stays; which way the reader takes does not depend on the object.\<close>
definition wifi_store ::
  "(SetWIFIInfoRequest option \<Rightarrow> block_ptr \<Rightarrow> nat \<Rightarrow> (nat \<times> SetWIFIInfoRequest option) res) \<Rightarrow> block_ptr \<Rightarrow> nat \<Rightarrow>
   SetWIFIInfoRequest res \<Rightarrow> SetWIFIInfoRequest res"
where
  "wifi_store setter p n r = bindR r (\<lambda>w. bindR (setter (Some w) p n) (\<lambda>(ret, obj).
     Ok (case obj of None \<Rightarrow> w | Some w' \<Rightarrow> w')))"

definition Wifi_cases :: "(nat \<Rightarrow> u8) \<Rightarrow> (i64 \<times> SetWIFIInfoRequest res case_body) list" where
  "Wifi_cases junk =
     [(0, CMsgId 0x51),
      (11, CBytes (wifi_store (setWifiInfoRequestSSID junk))),
      (12, CBytes (wifi_store (setWifiInfoRequestPassword junk))),
      (13, CBytes (wifi_store (setWifiInfoRequestToken junk)))]"

definition decodeWifiInfoRequest ::
  "(nat \<Rightarrow> u8) \<Rightarrow> bytes \<Rightarrow> SetWIFIInfoRequest \<Rightarrow> nat \<Rightarrow> (nat \<times> SetWIFIInfoRequest) res"
where
  "decodeWifiInfoRequest junk buf retval index =
     bindR (ig_decode (Wifi_cases junk) buf (Ok retval) index) (\<lambda>(err, r). bindR r (\<lambda>w. Ok (err, w)))"

definition Wifi_ok :: "SetWIFIInfoRequest \<Rightarrow> bool" where
  "Wifi_ok w \<longleftrightarrow> str_ok (Wifi_has_ssid w) (Wifi_ssid w) (Wifi_ssid_len w) \<and>
     str_ok (Wifi_has_password w) (Wifi_password w) (Wifi_password_len w) \<and>
     str_ok (Wifi_has_token w) (Wifi_token w) (Wifi_token_len w) \<and> \<not> isWifiInfoRequestInvalid (Some w)"

interpretation Wifi_writer: ig_writer Wifi_ok 51 "\<lambda>obj. Wifi_fields_size" Wifi_fields
proof
  show "length (Wifi_fields r) < 23" for r by (simp add: Wifi_fields_def)
  show "Wifi_fields_size = word_of_nat (Suc (count_present (Wifi_fields r)))" for r
    by (simp add: Wifi_fields_def Wifi_fields_size_def)
  show "blocks_ok (Wifi_fields r)" if "Wifi_ok r" for r
    using that by (auto simp: Wifi_fields_def Wifi_ok_def simp del: arg_block_ok.simps intro: str_ok_block)
qed

text \<open>What the encoder of the file writes, its decoder refuses: they disagree on the message number.\<close>
lemma wifi_own_message_refused:
  assumes "Wifi_ok w" "2 + length (number_bytes 51 MtUnsigned) + fields_bound (Wifi_fields w) \<le> unat len" "unat len \<le> length buf"
  shows "\<exists>buf' n. encodeWifiInfoRequest (Some w) buf len = Ok (0, buf', Some n) \<and>
    (\<forall>obj index. decodeWifiInfoRequest junk (take n buf') obj index = Ok (2003, obj))"
proof -
  obtain items where i: "length items < 23"
    "ig_encode Wifi_fields_size 51 (Wifi_fields w) buf len =
       Ok (0, message_bytes ((0, WUint 51) # items) @ drop (length (message_bytes ((0, WUint 51) # items))) buf,
         Some (length (message_bytes ((0, WUint 51) # items))))"
    using Wifi_writer.writes [OF assms(1,3,2)] by metis
  have idc: "map_of (Wifi_cases junk) 0 = Some (CMsgId 0x51)" by (simp add: Wifi_cases_def)
  have small: "length items < 2 ^ 29" using i(1) by simp
  have "ig_decode (Wifi_cases junk) (message_bytes ((0, WUint 51) # items) @ []) (Ok obj) index = Ok (2003, Ok obj)"
    for obj index by (rule ig_decode_other_id [OF idc _ small]) simp
  moreover have "\<not> isWifiInfoRequestInvalid (Some w)" using assms(1) by (simp add: Wifi_ok_def)
  ultimately show ?thesis using i(2) by (simp add: encodeWifiInfoRequest_def decodeWifiInfoRequest_def)
qed

text \<open>The message a client has to send.\<close>
definition wifi_message :: "bytes \<Rightarrow> bytes \<Rightarrow> bytes \<Rightarrow> bytes" where
  "wifi_message ssid password token =
     message_bytes [(0, WUint 0x51), (11, WBytes ssid), (12, WBytes password), (13, WBytes token)]"

definition wifi_settings :: "bytes \<Rightarrow> bytes \<Rightarrow> bytes \<Rightarrow> SetWIFIInfoRequest" where
  "wifi_settings ssid password token =
     \<lparr>Wifi_has_ssid = True, Wifi_ssid = Some ssid, Wifi_ssid_len = length ssid, Wifi_has_password = True,
      Wifi_password = Some password, Wifi_password_len = length password, Wifi_has_token = True,
      Wifi_token = Some token, Wifi_token_len = length token\<rparr>"

lemma wifi_block_eq:
  "wifi_block junk (Some d) (length d) = (if 8 \<le> length d then Ok d else Fault OutOfBounds)"
  by (simp add: wifi_block_def mem_write_def)

lemma decode_wifi_message:
  assumes "length ssid < 2 ^ 64" "length password < 2 ^ 64" "length token < 2 ^ 64"
  shows "decodeWifiInfoRequest junk (wifi_message ssid password token) obj index =
    (if 8 \<le> length ssid \<and> 8 \<le> length password \<and> 8 \<le> length token
     then Ok (0, wifi_settings ssid password token) else Fault OutOfBounds)"
proof -
  let ?kvs = "[(0, WUint 0x51), (11, WBytes ssid), (12, WBytes password), (13, WBytes token)] :: (u64 \<times> wire_item) list"
  let ?r = "if 8 \<le> length ssid \<and> 8 \<le> length password \<and> 8 \<le> length token
     then Ok (wifi_settings ssid password token) else Fault OutOfBounds"
  have "store_items (Wifi_cases junk) ?kvs (Ok obj) = Some ?r"
    by (cases obj) (simp add: Wifi_cases_def wifi_store_def setWifiInfoRequestSSID_def setWifiInfoRequestPassword_def
        setWifiInfoRequestToken_def wifi_block_eq wifi_settings_def)
  from ig_decode_stores [OF this, of "[]" index] assms
  have "ig_decode (Wifi_cases junk) (wifi_message ssid password token) (Ok obj) index = Ok (0, ?r)"
    by (simp add: wifi_message_def item_ok_def)
  then show ?thesis by (simp add: decodeWifiInfoRequest_def)
qed

end
