(* ===== verification/Fsm.thy ===== *)
theory Fsm
  imports Prelude
begin

text \<open>
  The state machines of the WiFi service, \<open>wifi_service/fsm1.c\<close>: a table of transitions filled item by item at the
  index of its event, and \<open>handleEvent\<close>, which searches the table, runs the action and moves on if the action
  returns 0.  A pointer to a pointer is an option of an option: NULL itself, pointing to NULL, pointing to an
  object.  The table comes from \<open>malloc\<close> and is not cleared: an item that was not filled is \<open>None\<close>, and reading it
  reads memory that was never set.  The actions are a parameter \<open>act\<close>, called with their number; what they reach through their
  argument is the world \<open>w\<close>.
\<close>

section \<open>State\<close>

record FSMTransform =
  ft_event :: u8
  ft_cur_state :: u8
  event_act_func :: "nat option"
  ft_next_state :: u8

record FSM =
  fsm_trans_table :: "FSMTransform option list option"
  fsm_cur_state :: u8
  max_state_num :: u8

definition ERROR_EVENT :: u8 where
  "ERROR_EVENT = 255"

section \<open>Operations\<close>

definition transState :: "u8 \<Rightarrow> FSM \<Rightarrow> FSM" where
  "transState state fsm = fsm\<lparr>fsm_cur_state := state\<rparr>"

definition freeFSM :: "FSM option option \<Rightarrow> nat \<times> FSM option option" where
  "freeFSM p_fsm = (case p_fsm of
     None \<Rightarrow> (1, p_fsm) | Some None \<Rightarrow> (1, p_fsm) | Some (Some fsm) \<Rightarrow> (0, Some None))"

definition getFSM :: "FSM option option \<Rightarrow> nat \<times> FSM option option" where
  "getFSM p_fsm = (case p_fsm of
     None \<Rightarrow> (1, p_fsm)
   | Some (Some fsm) \<Rightarrow> (1, p_fsm)
   | Some None \<Rightarrow> (0, Some (Some \<lparr>fsm_trans_table = None, fsm_cur_state = 0, max_state_num = 0\<rparr>)))"

definition initFSMCurState :: "u8 \<Rightarrow> FSM option \<Rightarrow> nat \<times> FSM option" where
  "initFSMCurState cur_state fsm = (case fsm of None \<Rightarrow> (1, fsm) | Some f \<Rightarrow> (0, Some (f\<lparr>fsm_cur_state := cur_state\<rparr>)))"

definition getFSMTransTable :: "u8 \<Rightarrow> FSM option \<Rightarrow> nat \<times> FSM option" where
  "getFSMTransTable max_trans_num fsm = (case fsm of
     None \<Rightarrow> (1, fsm)
   | Some f \<Rightarrow>
       if fsm_trans_table f \<noteq> None then (1, fsm)
       else (0, Some (f\<lparr>fsm_trans_table := Some (replicate (unat max_trans_num) None), max_state_num := max_trans_num\<rparr>)))"

definition freeFSMTransTable :: "FSM option \<Rightarrow> nat \<times> FSM option" where
  "freeFSMTransTable fsm = (case fsm of
     None \<Rightarrow> (1, fsm)
   | Some f \<Rightarrow> if fsm_trans_table f = None then (1, fsm) else (0, Some (f\<lparr>fsm_trans_table := None\<rparr>)))"

definition fillFSMTransItem :: "FSMTransform option \<Rightarrow> FSM option \<Rightarrow> (nat \<times> FSM option) res" where
  "fillFSMTransItem trans_item fsm = (case fsm of
     None \<Rightarrow> Ok (1, fsm)
   | Some f \<Rightarrow>
       (case fsm_trans_table f of
          None \<Rightarrow> Ok (1, fsm)
        | Some t \<Rightarrow>
            (case trans_item of
               None \<Rightarrow> Ok (1, fsm)
             | Some item \<Rightarrow>
                 if unat (ft_event item) < length t
                 then Ok (0, Some (f\<lparr>fsm_trans_table := Some (t[unat (ft_event item) := Some item])\<rparr>))
                 else Fault OutOfBounds)))"

definition fillTransItem :: "u8 \<Rightarrow> u8 \<Rightarrow> nat option \<Rightarrow> u8 \<Rightarrow> FSMTransform option \<Rightarrow> nat \<times> FSMTransform option" where
  "fillTransItem ev cur act_func nxt trans_item = (case trans_item of
     None \<Rightarrow> (1, trans_item)
   | Some item \<Rightarrow> (0, Some (item\<lparr>ft_cur_state := cur, ft_next_state := nxt, event_act_func := act_func, ft_event := ev\<rparr>)))"

type_synonym 'w fsm_action = "nat \<Rightarrow> FSM \<Rightarrow> 'w \<Rightarrow> (int \<times> FSM \<times> 'w) res"

text \<open>The search loop at item \<open>i\<close>: the first item with the event and the current state.\<close>
function find_item :: "nat \<Rightarrow> u8 \<Rightarrow> u8 \<Rightarrow> nat \<Rightarrow> FSMTransform option list option \<Rightarrow> FSMTransform option res" where
  "find_item i ev cur n table =
     (if i < n then
        (case table of
           None \<Rightarrow> Fault OutOfBounds
         | Some t \<Rightarrow>
             if length t \<le> i then Fault OutOfBounds
             else (case t ! i of
                     None \<Rightarrow> Fault Uninitialised
                   | Some item \<Rightarrow>
                       if ev = ft_event item \<and> cur = ft_cur_state item then Ok (Some item)
                       else find_item (i + 1) ev cur n table))
      else Ok None)"
  by pat_completeness auto
termination by (relation "measure (\<lambda>(i, ev, cur, n, table). n - i)") auto

declare find_item.simps [simp del]

definition handleEvent :: "'w fsm_action \<Rightarrow> u8 \<Rightarrow> FSM \<Rightarrow> 'w \<Rightarrow> (int \<times> FSM \<times> 'w) res" where
  "handleEvent act ev fsm w =
     (if ev = ERROR_EVENT then Ok (1, fsm, w)
      else bindR (find_item 0 ev (fsm_cur_state fsm) (unat (max_state_num fsm)) (fsm_trans_table fsm)) (\<lambda>found.
        case found of
          None \<Rightarrow> Ok (1, fsm, w)
        | Some item \<Rightarrow>
            (case event_act_func item of
               None \<Rightarrow> Ok (1, fsm, w)
             | Some k \<Rightarrow>
                 bindR (act k fsm w) (\<lambda>(ret, fsm, w).
                   Ok (ret, if ret = 0 then transState (ft_next_state item) fsm else fsm, w)))))"

section \<open>Tables\<close>

text \<open>A table under construction: it has its size, and an item stands at the index of its event.\<close>
definition items_ok :: "FSM \<Rightarrow> bool" where
  "items_ok f \<longleftrightarrow> (case fsm_trans_table f of
     None \<Rightarrow> True
   | Some t \<Rightarrow> length t = unat (max_state_num f) \<and> (\<forall>i item. i < length t \<longrightarrow> t ! i = Some item \<longrightarrow> unat (ft_event item) = i))"

text \<open>The item of an event, if it is filled and its state fits.\<close>
definition item_for :: "u8 \<Rightarrow> FSM \<Rightarrow> FSMTransform option" where
  "item_for ev f = (case fsm_trans_table f of
     None \<Rightarrow> None
   | Some t \<Rightarrow> if unat ev < length t then t ! unat ev else None)"

fun fill_items :: "FSMTransform list \<Rightarrow> FSM \<Rightarrow> FSM res" where
  "fill_items [] f = Ok f"
| "fill_items (item # items) f = bindR (fillFSMTransItem (Some item) (Some f)) (\<lambda>(r, f').
     case f' of None \<Rightarrow> Ok f | Some f \<Rightarrow> fill_items items f)"

lemma getFSMTransTable_items: "getFSMTransTable n (Some f) = (0, Some f') \<Longrightarrow> items_ok f' \<and> max_state_num f' = n \<and> fsm_trans_table f' \<noteq> None"
  by (auto simp: getFSMTransTable_def items_ok_def split: if_splits)

lemma fill_keeps:
  assumes "items_ok f" "fsm_trans_table f \<noteq> None"
  shows "unat (ft_event item) < unat (max_state_num f) \<Longrightarrow>
      \<exists>f'. fillFSMTransItem (Some item) (Some f) = Ok (0, Some f') \<and> items_ok f' \<and> fsm_trans_table f' \<noteq> None \<and>
        max_state_num f' = max_state_num f \<and> fsm_cur_state f' = fsm_cur_state f \<and>
        (\<forall>ev. item_for ev f' = (if ev = ft_event item then Some item else item_for ev f))"
    and "unat (max_state_num f) \<le> unat (ft_event item) \<Longrightarrow> fillFSMTransItem (Some item) (Some f) = Fault OutOfBounds"
proof -
  obtain t where t: "fsm_trans_table f = Some t" "length t = unat (max_state_num f)"
    "\<forall>i item. i < length t \<longrightarrow> t ! i = Some item \<longrightarrow> unat (ft_event item) = i"
    using assms by (auto simp: items_ok_def)
  show "unat (max_state_num f) \<le> unat (ft_event item) \<Longrightarrow> fillFSMTransItem (Some item) (Some f) = Fault OutOfBounds"
    using t by (simp add: fillFSMTransItem_def)
  assume e: "unat (ft_event item) < unat (max_state_num f)"
  let ?f = "f\<lparr>fsm_trans_table := Some (t[unat (ft_event item) := Some item])\<rparr>"
  have "items_ok ?f" using t e by (auto simp: items_ok_def nth_list_update)
  moreover have "\<forall>ev. item_for ev ?f = (if ev = ft_event item then Some item else item_for ev f)"
    using t e by (auto simp: item_for_def nth_list_update word_unat_eq_iff)
  ultimately show "\<exists>f'. fillFSMTransItem (Some item) (Some f) = Ok (0, Some f') \<and> items_ok f' \<and> fsm_trans_table f' \<noteq> None \<and>
        max_state_num f' = max_state_num f \<and> fsm_cur_state f' = fsm_cur_state f \<and>
        (\<forall>ev. item_for ev f' = (if ev = ft_event item then Some item else item_for ev f))"
    using t e by (intro exI [of _ ?f]) (auto simp: fillFSMTransItem_def)
qed

text \<open>The last item filled for an event is the one that counts.\<close>
definition last_item :: "u8 \<Rightarrow> FSMTransform list \<Rightarrow> FSMTransform option" where
  "last_item ev items = find (\<lambda>item. ft_event item = ev) (rev items)"

lemma find_snoc: "find P (xs @ [x]) = (case find P xs of Some y \<Rightarrow> Some y | None \<Rightarrow> if P x then Some x else None)"
  by (induction xs) auto

lemma last_item_Cons:
  "last_item ev (item # items) = (case last_item ev items of Some x \<Rightarrow> Some x | None \<Rightarrow> if ft_event item = ev then Some item else None)"
  by (simp add: last_item_def find_snoc)

lemma fill_items_table:
  "items_ok f \<Longrightarrow> fsm_trans_table f \<noteq> None \<Longrightarrow> \<forall>item \<in> set items. unat (ft_event item) < unat (max_state_num f) \<Longrightarrow>
   \<exists>f'. fill_items items f = Ok f' \<and> items_ok f' \<and> fsm_trans_table f' \<noteq> None \<and> max_state_num f' = max_state_num f \<and>
     fsm_cur_state f' = fsm_cur_state f \<and>
     (\<forall>ev. item_for ev f' = (case last_item ev items of Some x \<Rightarrow> Some x | None \<Rightarrow> item_for ev f))"
proof (induction items arbitrary: f)
  case (Cons item items)
  obtain f1 where f1: "fillFSMTransItem (Some item) (Some f) = Ok (0, Some f1)" "items_ok f1" "fsm_trans_table f1 \<noteq> None"
    "max_state_num f1 = max_state_num f" "fsm_cur_state f1 = fsm_cur_state f"
    "\<forall>ev. item_for ev f1 = (if ev = ft_event item then Some item else item_for ev f)"
    using fill_keeps(1) [OF Cons.prems(1,2), of item] Cons.prems(3) by auto
  obtain f' where "fill_items items f1 = Ok f'" "items_ok f'" "fsm_trans_table f' \<noteq> None" "max_state_num f' = max_state_num f1"
     "fsm_cur_state f' = fsm_cur_state f1"
     "\<forall>ev. item_for ev f' = (case last_item ev items of Some x \<Rightarrow> Some x | None \<Rightarrow> item_for ev f1)"
    using Cons.IH [OF f1(2,3)] Cons.prems(3) f1(4) by auto
  then show ?case using f1 by (auto simp: last_item_Cons split: option.splits)
qed (simp add: last_item_def)

section \<open>Events\<close>

lemma find_item_from:
  assumes t: "fsm_trans_table f = Some t" "items_ok f" and filled: "\<forall>j < length t. t ! j \<noteq> None"
  shows "i \<le> length t \<Longrightarrow> find_item i ev cur (unat (max_state_num f)) (Some t) =
    Ok (case item_for ev f of Some item \<Rightarrow> if i \<le> unat ev \<and> cur = ft_cur_state item then Some item else None | None \<Rightarrow> None)"
proof (induction "length t - i" arbitrary: i)
  case 0
  then have "i = length t" by simp
  then show ?case using t by (subst find_item.simps) (auto simp: items_ok_def item_for_def split: option.splits)
next
  case (Suc d)
  then have i: "i < length t" by simp
  obtain item where item: "t ! i = Some item" using filled i by blast
  have n: "length t = unat (max_state_num f)" and at: "unat (ft_event item) = i" using t i item by (auto simp: items_ok_def)
  have IH: "find_item (i + 1) ev cur (unat (max_state_num f)) (Some t) =
    Ok (case item_for ev f of Some item \<Rightarrow> if i + 1 \<le> unat ev \<and> cur = ft_cur_state item then Some item else None | None \<Rightarrow> None)"
    by (rule Suc(1)) (use Suc(2) i in simp_all)
  have same: "ev = ft_event item \<longleftrightarrow> unat ev = i" using at by (simp add: word_unat_eq_iff)
  show ?case
  proof (cases "unat ev = i")
    case True
    then have "item_for ev f = Some item" using t(1) i item by (simp add: item_for_def)
    then show ?thesis using i n item same True IH by (subst find_item.simps) auto
  next
    case False
    then show ?thesis using i n item same IH by (subst find_item.simps) (auto split: option.splits)
  qed
qed

text \<open>On a table filled in every place an event runs the action of its item if the state fits, and the state
  changes only when the action returns 0; every other event is answered with 1 and changes nothing.\<close>
lemma handleEvent_full:
  assumes t: "fsm_trans_table f = Some t" "items_ok f" and filled: "\<forall>j < length t. t ! j \<noteq> None"
  shows "handleEvent act ev f w =
    (case item_for ev f of
       Some item \<Rightarrow>
         if ev \<noteq> ERROR_EVENT \<and> fsm_cur_state f = ft_cur_state item then
           (case event_act_func item of
              None \<Rightarrow> Ok (1, f, w)
            | Some k \<Rightarrow> bindR (act k f w) (\<lambda>(ret, f', w').
                Ok (ret, if ret = 0 then transState (ft_next_state item) f' else f', w')))
         else Ok (1, f, w)
     | None \<Rightarrow> Ok (1, f, w))"
  using find_item_from [OF assms, of 0 ev "fsm_cur_state f"] t(1)
  by (auto simp: handleEvent_def Let_def split: option.splits prod.splits)

text \<open>A place not filled in front of the item is read.\<close>
lemma handleEvent_unfilled:
  assumes "fsm_trans_table f = Some t" "items_ok f" "0 < length t" "t ! 0 = None" "ev \<noteq> ERROR_EVENT"
  shows "handleEvent act ev f w = Fault Uninitialised"
  using assms by (simp add: handleEvent_def items_ok_def) (subst find_item.simps, simp)

text \<open>A machine built from items that cover all events: it answers by the last item of each event.\<close>
lemma built_machine:
  assumes g: "getFSMTransTable n (Some f0) = (0, Some f)"
    and items: "\<forall>item \<in> set items. unat (ft_event item) < unat n" "\<forall>ev. unat ev < unat n \<longrightarrow> last_item ev items \<noteq> None"
  shows "\<exists>f'. fill_items items f = Ok f' \<and> fsm_cur_state f' = fsm_cur_state f \<and>
    (\<forall>act ev w st. handleEvent act ev (transState st f') w =
      (case last_item ev items of
         Some item \<Rightarrow>
           if ev \<noteq> ERROR_EVENT \<and> st = ft_cur_state item then
             (case event_act_func item of
                None \<Rightarrow> Ok (1, transState st f', w)
              | Some k \<Rightarrow> bindR (act k (transState st f') w) (\<lambda>(ret, f'', w').
                  Ok (ret, if ret = 0 then transState (ft_next_state item) f'' else f'', w')))
           else Ok (1, transState st f', w)
       | None \<Rightarrow> Ok (1, transState st f', w)))"
proof -
  have f: "items_ok f" "max_state_num f = n" "fsm_trans_table f \<noteq> None" using getFSMTransTable_items [OF g] by auto
  obtain f' where f': "fill_items items f = Ok f'" "items_ok f'" "fsm_trans_table f' \<noteq> None" "max_state_num f' = n"
    "fsm_cur_state f' = fsm_cur_state f" "\<forall>ev. item_for ev f' = (case last_item ev items of Some x \<Rightarrow> Some x | None \<Rightarrow> item_for ev f)"
    using fill_items_table [OF f(1,3), of items] items(1) unfolding f(2) by blast
  obtain t where t: "fsm_trans_table f' = Some t" "length t = unat n" using f'(2-4) by (auto simp: items_ok_def)
  have filled: "\<forall>j < length t. t ! j \<noteq> None"
  proof (intro allI impI)
    fix j assume j: "j < length t"
    have "unat n < 256" using unsigned_less [of n] by simp
    then have e: "unat (word_of_nat j :: u8) = j" using j t(2) by (simp add: unat_of_nat)
    then have "last_item (word_of_nat j) items \<noteq> None" using items(2) j t(2) by simp
    then have "item_for (word_of_nat j) f' \<noteq> None" using f'(6) by (auto split: option.splits)
    then show "t ! j \<noteq> None" using t e j by (simp add: item_for_def)
  qed
  have none: "last_item ev items = None \<Longrightarrow> item_for ev f' = None" for ev
  proof -
    assume "last_item ev items = None"
    then have "\<not> unat ev < unat n" using items(2) by blast
    then show "item_for ev f' = None" using t by (simp add: item_for_def)
  qed
  have s: "fsm_trans_table (transState st f') = Some t" "items_ok (transState st f')" "item_for ev (transState st f') = item_for ev f'"
    "fsm_cur_state (transState st f') = st" for st ev
    using t f'(2) by (simp_all add: transState_def items_ok_def item_for_def)
  have "handleEvent act ev (transState st f') w =
      (case last_item ev items of
         Some item \<Rightarrow>
           if ev \<noteq> ERROR_EVENT \<and> st = ft_cur_state item then
             (case event_act_func item of
                None \<Rightarrow> Ok (1, transState st f', w)
              | Some k \<Rightarrow> bindR (act k (transState st f') w) (\<lambda>(ret, f'', w').
                  Ok (ret, if ret = 0 then transState (ft_next_state item) f'' else f'', w')))
           else Ok (1, transState st f', w)
       | None \<Rightarrow> Ok (1, transState st f', w))" for act :: "'a fsm_action" and ev w st
    unfolding handleEvent_full [OF s(1,2) filled, where act = act and ev = ev and w = w] s(3,4)
    using f'(6) none [of ev] by (auto split: option.splits)
  then show ?thesis using f'(1,5) by blast
qed

section \<open>A machine to try\<close>

definition example_items :: "FSMTransform list" where
  "example_items =
     [\<lparr>ft_event = 0, ft_cur_state = 0, event_act_func = Some 7, ft_next_state = 1\<rparr>,
      \<lparr>ft_event = 1, ft_cur_state = 1, event_act_func = None, ft_next_state = 2\<rparr>]"

definition example_table :: FSM where
  "example_table = \<lparr>fsm_trans_table = Some (replicate 2 None), fsm_cur_state = 0, max_state_num = 2\<rparr>"

lemma example_items_cover:
  "getFSMTransTable 2 (Some \<lparr>fsm_trans_table = None, fsm_cur_state = 0, max_state_num = 0\<rparr>) = (0, Some example_table)"
  "\<forall>item \<in> set example_items. unat (ft_event item) < unat (2 :: u8)"
  "\<forall>ev. unat ev < unat (2 :: u8) \<longrightarrow> last_item ev example_items \<noteq> None"
proof -
  show "getFSMTransTable 2 (Some \<lparr>fsm_trans_table = None, fsm_cur_state = 0, max_state_num = 0\<rparr>) = (0, Some example_table)"
    by (simp add: getFSMTransTable_def example_table_def)
  show "\<forall>item \<in> set example_items. unat (ft_event item) < unat (2 :: u8)" by (simp add: example_items_def)
  show "\<forall>ev. unat ev < unat (2 :: u8) \<longrightarrow> last_item ev example_items \<noteq> None"
  proof (intro allI impI)
    fix ev :: u8 assume "unat ev < unat (2 :: u8)"
    then have "unat ev = 0 \<or> unat ev = 1" by auto
    then have "ev = 0 \<or> ev = 1" by (auto simp: word_unat_eq_iff)
    then show "last_item ev example_items \<noteq> None" by (auto simp: last_item_def example_items_def)
  qed
qed

end
