(* ===== verification/Wifi_Service.thy ===== *)
theory Wifi_Service
  imports Pairing_Server Wifi_Records Fsm
begin

text \<open>
  The pairing process of the WiFi service, \<open>wifi_service/server.c\<close>: what happens when a client writes a packet to
  the characteristic.  \<open>chr_write_value\<close> feeds the receiver; when a message is complete it chooses the event from the
  state of the machine, and the actions answer it.  The machine is the one of theory \<open>Fsm\<close>, the answers come
  from \<open>Pairing_Server\<close>.  D-Bus, the socket and the log are outside: a value written to the characteristic is appended to
  \<open>values_sent\<close>, what goes to the socket to \<open>handed\<close>.  What the code takes from its surroundings is the record \<open>service_env\<close>.

  Two things depend on the machine the code is compiled for.  \<open>handleReplyStep2\<close> looks at encoded bytes through a
  pointer to a struct: the member \<open>has_nonce\<close> it reads is the byte at \<open>nonce_flag_offset\<close> (24 with pointers of 64 bits, 12
  with pointers of 32).  The table of the machine comes from \<open>malloc\<close>, so an item that is not filled has the contents
  \<open>junk_item\<close>.
\<close>

section \<open>State\<close>

record service_env =
  host_shared_secret :: "bytes \<Rightarrow> bytes \<Rightarrow> bytes option"
  host_make_key :: "(bytes \<times> bytes) option"
  host_rand :: "nat \<Rightarrow> nat \<Rightarrow> nat"
  host_time :: nat
  host_drbg :: "bytes \<Rightarrow> bytes \<Rightarrow> bytes \<Rightarrow> nat \<Rightarrow> bytes"
  host_clock :: "nat \<Rightarrow> nat"
  host_junk :: "nat \<Rightarrow> u8"
  host_fresh_crypt :: Crypt
  host_connects :: bool
  host_writes :: bool
  nonce_flag_offset :: nat

record service =
  srv :: server_state
  recv_pairing_data :: "RecvData option"
  chr_event :: u8
  values_sent :: "bytes list"
  write_socket :: int
  set_wifi_crypt :: "Crypt option"
  handed :: "bytes list"

abbreviation (input) C_WRITE_STEP1 :: u8 where "C_WRITE_STEP1 \<equiv> 1"
abbreviation (input) S_REPLY_STEP2 :: u8 where "S_REPLY_STEP2 \<equiv> 2"
abbreviation (input) C_WRITE_STEP3 :: u8 where "C_WRITE_STEP3 \<equiv> 3"
abbreviation (input) S_REPLY_STEP4 :: u8 where "S_REPLY_STEP4 \<equiv> 4"
abbreviation (input) C_WRITE_COMMIT :: u8 where "C_WRITE_COMMIT \<equiv> 5"
abbreviation (input) S_PAIRING_COMPLETE :: u8 where "S_PAIRING_COMPLETE \<equiv> 6"
abbreviation (input) PAIRING_BEGIN :: u8 where "PAIRING_BEGIN \<equiv> 0"
abbreviation (input) PAIRING_STEP1 :: u8 where "PAIRING_STEP1 \<equiv> 1"
abbreviation (input) PAIRING_STEP2 :: u8 where "PAIRING_STEP2 \<equiv> 2"
abbreviation (input) PAIRING_STEP3 :: u8 where "PAIRING_STEP3 \<equiv> 3"
abbreviation (input) PAIRING_STEP4 :: u8 where "PAIRING_STEP4 \<equiv> 4"
abbreviation (input) PAIRING_COMPLETE :: u8 where "PAIRING_COMPLETE \<equiv> 6"
abbreviation (input) SET_WIFI_BEGIN :: u8 where "SET_WIFI_BEGIN \<equiv> 8"

section \<open>Actions\<close>

definition chr_write :: "bytes \<Rightarrow> service \<Rightarrow> service" where
  "chr_write v w = w\<lparr>values_sent := values_sent w @ [v]\<rparr>"

definition handleWriteStep1 :: "service \<Rightarrow> (int \<times> service) res" where
  "handleWriteStep1 w = Ok (0, w)"

definition handleWriteStep3 :: "service \<Rightarrow> (int \<times> service) res" where
  "handleWriteStep3 w = Ok (0, w)"

definition handleWriteCommit :: "service \<Rightarrow> (int \<times> service) res" where
  "handleWriteCommit w = Ok (0, w)"

text \<open>The receiver's message in a block of its size; \<open>None\<close> stands for the early returns with 1.\<close>
definition received_message :: "service \<Rightarrow> bytes option res" where
  "received_message w =
     (if recv_pairing_data w = None then Ok None
      else case getRecvPkgLen (recv_pairing_data w) True of
        (err, n) \<Rightarrow>
          if err \<noteq> 0 then Ok None
          else
            let len = (case n of Some n \<Rightarrow> unat n | None \<Rightarrow> 0) in
            bindR (getPkgFromRecvData (recv_pairing_data w) (Some (replicate len 0))) (\<lambda>(err, p).
              Ok (if err \<noteq> 0 then None else p)))"

text \<open>\<open>ig_PairingStep2_is_valid\<close> on bytes that are not a struct: the first member and \<open>has_nonce\<close>.  The language gives
  a \<open>bool\<close> no other representation than 0 and 1; the model takes every other byte for true, as a compiled test of
  the byte against zero does.  Under the letter of the standard the first byte, the head of the map, is already undefined.\<close>
definition bytes_is_valid :: "nat \<Rightarrow> bytes \<Rightarrow> bool res" where
  "bytes_is_valid off bs =
     bindR (mem_byte bs 0) (\<lambda>a. if a = 0 then Ok False else bindR (mem_byte bs off) (\<lambda>b. Ok (b \<noteq> 0)))"

definition handleReplyStep2 :: "service_env \<Rightarrow> service \<Rightarrow> (int \<times> service) res" where
  "handleReplyStep2 env w =
     bindR (received_message w) (\<lambda>m. case m of
       None \<Rightarrow> Ok (1, w)
     | Some step1_payload_bytes \<Rightarrow>
       bindR ig_pairing_step2_size (\<lambda>step2_size.
       if step2_size = 0 then Ok (1, w)
       else
         bindR (server_gen_pairing_step2 (host_shared_secret env) (host_make_key env) (host_rand env) (host_time env)
                  step1_payload_bytes (word_of_nat (length step1_payload_bytes))
                  (replicate (unat step2_size) 0) step2_size (srv w)) (\<lambda>(err, step2_bytes, written, s).
         let w = w\<lparr>srv := s\<rparr> in
         if err \<noteq> 0 then Ok (1, w)
         else
           bindR (bytes_is_valid (nonce_flag_offset env) step2_bytes) (\<lambda>valid.
           if \<not> valid then Ok (1, w)
           else
             bindR (build_msg_payload (host_junk env) step2_bytes (case written of Some n \<Rightarrow> unat n | None \<Rightarrow> 0)) (\<lambda>(built, payload).
             if \<not> built then Ok (1, w)
             else
               let w = chr_write payload w in
               Ok (0, w\<lparr>recv_pairing_data := resetRecvData (recv_pairing_data w)\<rparr>))))))"

text \<open>The number \<open>ig_pairing_step4\<close> returns is not looked at; \<open>encrypt_step4_writen_len\<close> starts at 0.\<close>
definition handleReplyStep4 :: "service_env \<Rightarrow> service \<Rightarrow> (int \<times> service) res" where
  "handleReplyStep4 env w =
     bindR (received_message w) (\<lambda>m. case m of
       None \<Rightarrow> Ok (1, w)
     | Some step3_payload_bytes \<Rightarrow>
       bindR (ig_pairing_step4_size (srv w)) (\<lambda>encrypt_step4_bytes_len.
       bindR (ig_pairing_step4 (host_junk env) (host_drbg env) (host_rand env) (host_clock env)
                step3_payload_bytes (word_of_nat (length step3_payload_bytes))
                (fresh_block (host_junk env) (unat encrypt_step4_bytes_len)) encrypt_step4_bytes_len (srv w))
         (\<lambda>(ret, encrypt_step4_bytes, written, s).
       let w = w\<lparr>srv := s\<rparr>; encrypt_step4_writen_len = (case written of Some n \<Rightarrow> n | None \<Rightarrow> 0) in
       if encrypt_step4_writen_len = - 1 then Ok (1, w)
       else
         bindR (build_msg_payload (host_junk env) encrypt_step4_bytes (unat encrypt_step4_writen_len)) (\<lambda>(built, payload).
         if \<not> built then Ok (1, w)
         else
           let w = chr_write payload w in
           Ok (0, w\<lparr>recv_pairing_data := resetRecvData (recv_pairing_data w)\<rparr>)))))"

text \<open>\<open>makeCrypt\<close> of \<open>pairing.c\<close>: the number returned and \<open>*p_reval\<close>.\<close>
definition makeCrypt :: "Crypt \<Rightarrow> Crypt option \<Rightarrow> server_state \<Rightarrow> (nat \<times> Crypt option) res" where
  "makeCrypt fresh reval s =
     (if reval \<noteq> None then Ok (1, reval)
      else let (err, reval) = getCrypt fresh reval in
      if err \<noteq> 0 then Ok (1, reval)
      else let (err, reval) = initCrypt reval in
      if err \<noteq> 0 then Ok (1, reval)
      else bindR (setCryptAdminKey reval (Some (server_pairing_admin_key s)) IG_KEY_LENGTH) (\<lambda>(err, reval).
        if err \<noteq> 0 then Ok (1, reval)
        else bindR (setCryptServerNonce reval (Some (server_nonce s)) kNonceLength) (\<lambda>(err, reval).
        if err \<noteq> 0 then Ok (1, reval)
        else bindR (setCryptClientNonce reval (Some (client_nonce s)) kNonceLength) (\<lambda>(err, reval).
        if err \<noteq> 0 then Ok (1, reval)
        else if isCryptInvalid reval then Ok (1, reval)
        else Ok (0, reval)))))"

definition sendCrypt :: "bool \<Rightarrow> int \<Rightarrow> bytes \<Rightarrow> nat \<Rightarrow> service \<Rightarrow> (nat \<times> service) res" where
  "sendCrypt writes write_fd data data_len w =
     (if write_fd < 0 \<or> data_len = 0 then Ok (1, w)
      else bindR (mem_slice data 0 data_len) (\<lambda>d.
        if \<not> writes then Ok (1, w) else Ok (0, w\<lparr>handed := handed w @ [d]\<rparr>)))"

definition handlePairingComplete :: "service_env \<Rightarrow> service \<Rightarrow> (int \<times> service) res" where
  "handlePairingComplete env w =
     (let w = w\<lparr>set_wifi_crypt := None\<rparr> in
      bindR (makeCrypt (host_fresh_crypt env) (set_wifi_crypt w) (srv w)) (\<lambda>(err, c).
      let w = w\<lparr>set_wifi_crypt := c\<rparr> in
      if err \<noteq> 0 then Ok (1, w)
      else case c of
        None \<Rightarrow> Ok (1, w)
      | Some crypt \<Rightarrow>
        bindR (encodeCrypt crypt (replicate 1024 0) 1024) (\<lambda>(err, data, written).
        if err \<noteq> 0 then Ok (1, w)
        else if \<not> host_connects env then Ok (1, w)
        else bindR (sendCrypt (host_writes env) (write_socket w) data (case written of Some n \<Rightarrow> n | None \<Rightarrow> 0) w) (\<lambda>(err, w).
          if err \<noteq> 0 then Ok (1, w) else Ok (0, w)))))"

section \<open>The machine\<close>

text \<open>The action functions by number.\<close>
definition service_act :: "service_env \<Rightarrow> service fsm_action" where
  "service_act env k fsm w =
     bindR (if k = 1 then handleWriteStep1 w
            else if k = 2 then handleReplyStep2 env w
            else if k = 3 then handleWriteStep3 w
            else if k = 4 then handleReplyStep4 env w
            else if k = 5 then handleWriteCommit w
            else handlePairingComplete env w) (\<lambda>(ret, w). Ok (ret, fsm, w))"

text \<open>The items \<open>initPairingFsm\<close> fills in, in its order.\<close>
definition pairing_items :: "FSMTransform list" where
  "pairing_items =
     [\<lparr>ft_event = C_WRITE_STEP1, ft_cur_state = PAIRING_BEGIN, event_act_func = Some 1, ft_next_state = PAIRING_STEP1\<rparr>,
      \<lparr>ft_event = S_REPLY_STEP2, ft_cur_state = PAIRING_STEP1, event_act_func = Some 2, ft_next_state = PAIRING_STEP2\<rparr>,
      \<lparr>ft_event = C_WRITE_STEP3, ft_cur_state = PAIRING_STEP2, event_act_func = Some 3, ft_next_state = PAIRING_STEP3\<rparr>,
      \<lparr>ft_event = S_REPLY_STEP4, ft_cur_state = PAIRING_STEP3, event_act_func = Some 4, ft_next_state = PAIRING_STEP4\<rparr>,
      \<lparr>ft_event = C_WRITE_COMMIT, ft_cur_state = PAIRING_STEP4, event_act_func = Some 5, ft_next_state = PAIRING_COMPLETE\<rparr>,
      \<lparr>ft_event = S_PAIRING_COMPLETE, ft_cur_state = PAIRING_COMPLETE, event_act_func = Some 6, ft_next_state = PAIRING_BEGIN\<rparr>,
      \<lparr>ft_event = S_PAIRING_COMPLETE, ft_cur_state = PAIRING_COMPLETE, event_act_func = Some 6, ft_next_state = SET_WIFI_BEGIN\<rparr>]"

text \<open>Memory from \<open>malloc\<close> has some contents.  No statement of the code is translated here: the items that no call fills (item
  0 of the table, whose items count from 1) get one arbitrary value, a parameter, so that the search of \<open>handleEvent\<close> can read
  them; the theorems say where they need its event to be 0, as in memory fresh from the system.\<close>
definition settle :: "FSMTransform \<Rightarrow> FSM \<Rightarrow> FSM" where
  "settle junk_item f = f\<lparr>fsm_trans_table :=
     map_option (map (\<lambda>x. case x of None \<Rightarrow> Some junk_item | Some item \<Rightarrow> Some item)) (fsm_trans_table f)\<rparr>"

definition initPairingFsm :: "FSMTransform \<Rightarrow> FSM \<Rightarrow> FSM res" where
  "initPairingFsm junk_item fsm =
     (case getFSMTransTable 7 (Some fsm) of
        (0, Some fsm) \<Rightarrow>
          bindR (fill_items pairing_items fsm) (\<lambda>fsm.
            case initFSMCurState PAIRING_BEGIN (Some (settle junk_item fsm)) of
              (_, Some fsm) \<Rightarrow> Ok fsm
            | (_, None) \<Rightarrow> Ok fsm)
      | _ \<Rightarrow> Ok fsm)"

definition decideEvent :: "FSM \<Rightarrow> service \<Rightarrow> service" where
  "decideEvent fsm w =
     (if fsm_cur_state fsm = PAIRING_BEGIN then w\<lparr>chr_event := C_WRITE_STEP1\<rparr>
      else if fsm_cur_state fsm = PAIRING_STEP2 then w\<lparr>chr_event := C_WRITE_STEP3\<rparr>
      else if fsm_cur_state fsm = PAIRING_STEP4 then w\<lparr>chr_event := C_WRITE_COMMIT\<rparr>
      else w)"

text \<open>The event of the client, then the event \<open>reply\<close> of the server, whatever the first one gave.\<close>
definition two_events :: "service_env \<Rightarrow> u8 \<Rightarrow> FSM \<Rightarrow> service \<Rightarrow> (FSM \<times> service) res" where
  "two_events env reply fsm w =
     bindR (handleEvent (service_act env) (chr_event w) fsm w) (\<lambda>(handle_res, fsm, w).
     let w = w\<lparr>chr_event := reply\<rparr> in
     bindR (handleEvent (service_act env) (chr_event w) fsm w) (\<lambda>(handle_res, fsm, w). Ok (fsm, w)))"

definition handleClientEvent :: "service_env \<Rightarrow> FSM \<Rightarrow> service \<Rightarrow> (FSM \<times> service) res" where
  "handleClientEvent env fsm w =
     (if chr_event w = C_WRITE_STEP1 then two_events env S_REPLY_STEP2 fsm w
      else if chr_event w = C_WRITE_STEP3 then two_events env S_REPLY_STEP4 fsm w
      else if chr_event w = C_WRITE_COMMIT then two_events env S_PAIRING_COMPLETE fsm w
      else Ok (fsm, w))"

definition chr_write_value :: "service_env \<Rightarrow> bytes \<Rightarrow> FSM \<Rightarrow> service \<Rightarrow> (FSM \<times> service) res" where
  "chr_write_value env v fsm w =
     (if v = [] then Ok (fsm, w)
      else
        bindR (recvData (host_junk env) (recv_pairing_data w) v (word_of_nat (length v))) (\<lambda>p.
        let w = w\<lparr>recv_pairing_data := p\<rparr> in
        case p of
          None \<Rightarrow> Fault OutOfBounds
        | Some r \<Rightarrow>
            if isRecvFullPkg r then handleClientEvent env fsm (decideEvent fsm w) else Ok (fsm, w)))"

text \<open>The packets of one message, in the surroundings of that message.\<close>
fun write_packets :: "service_env \<Rightarrow> bytes list \<Rightarrow> FSM \<Rightarrow> service \<Rightarrow> (FSM \<times> service) res" where
  "write_packets env [] fsm w = Ok (fsm, w)"
| "write_packets env (v # vs) fsm w = bindR (chr_write_value env v fsm w) (\<lambda>(fsm, w). write_packets env vs fsm w)"

section \<open>The machine as it is built\<close>

text \<open>The table after \<open>initPairingFsm\<close>: the item at 0 is never filled, and of the two items for the last event the second
  replaces the first.\<close>
definition pairing_table :: "FSMTransform \<Rightarrow> FSMTransform option list" where
  "pairing_table junk_item =
     [Some junk_item,
      Some \<lparr>ft_event = C_WRITE_STEP1, ft_cur_state = PAIRING_BEGIN, event_act_func = Some 1, ft_next_state = PAIRING_STEP1\<rparr>,
      Some \<lparr>ft_event = S_REPLY_STEP2, ft_cur_state = PAIRING_STEP1, event_act_func = Some 2, ft_next_state = PAIRING_STEP2\<rparr>,
      Some \<lparr>ft_event = C_WRITE_STEP3, ft_cur_state = PAIRING_STEP2, event_act_func = Some 3, ft_next_state = PAIRING_STEP3\<rparr>,
      Some \<lparr>ft_event = S_REPLY_STEP4, ft_cur_state = PAIRING_STEP3, event_act_func = Some 4, ft_next_state = PAIRING_STEP4\<rparr>,
      Some \<lparr>ft_event = C_WRITE_COMMIT, ft_cur_state = PAIRING_STEP4, event_act_func = Some 5, ft_next_state = PAIRING_COMPLETE\<rparr>,
      Some \<lparr>ft_event = S_PAIRING_COMPLETE, ft_cur_state = PAIRING_COMPLETE, event_act_func = Some 6, ft_next_state = SET_WIFI_BEGIN\<rparr>]"

definition pairing_fsm :: "FSMTransform \<Rightarrow> u8 \<Rightarrow> FSM" where
  "pairing_fsm junk_item st = \<lparr>fsm_trans_table = Some (pairing_table junk_item), fsm_cur_state = st, max_state_num = 7\<rparr>"

definition fsm_empty :: FSM where
  "fsm_empty = \<lparr>fsm_trans_table = None, fsm_cur_state = 0, max_state_num = 0\<rparr>"

lemma initPairingFsm_builds: "initPairingFsm junk_item fsm_empty = Ok (pairing_fsm junk_item PAIRING_BEGIN)"
  by (simp add: initPairingFsm_def fsm_empty_def getFSMTransTable_def pairing_items_def fillFSMTransItem_def
      settle_def initFSMCurState_def pairing_fsm_def pairing_table_def) (simp add: eval_nat_numeral)

lemma pairing_fsm_sel [simp]:
  "fsm_cur_state (pairing_fsm junk_item st) = st" "transState st' (pairing_fsm junk_item st) = pairing_fsm junk_item st'"
  by (simp_all add: pairing_fsm_def transState_def)

lemma pairing_table_ok:
  assumes "ft_event junk_item = 0"
  shows "items_ok (pairing_fsm junk_item st)" "\<forall>j < length (pairing_table junk_item). pairing_table junk_item ! j \<noteq> None"
  using assms by (auto simp: items_ok_def pairing_fsm_def pairing_table_def nth_Cons' split: if_splits)

text \<open>The action of an event, and the state it leads to, from the states it is filled for.\<close>
lemma pairing_event:
  assumes "ft_event junk_item = 0" "pairing_table junk_item ! unat ev =
    Some \<lparr>ft_event = ev, ft_cur_state = cur, event_act_func = Some k, ft_next_state = nxt\<rparr>" "unat ev < 7" "ev \<noteq> 0"
  shows "handleEvent act ev (pairing_fsm junk_item st) w =
    (if st = cur then bindR (act k (pairing_fsm junk_item st) w) (\<lambda>(ret, f', w'). Ok (ret, if ret = 0 then transState nxt f' else f', w'))
     else Ok (1, pairing_fsm junk_item st, w))"
proof -
  have "fsm_trans_table (pairing_fsm junk_item st) = Some (pairing_table junk_item)" by (simp add: pairing_fsm_def)
  note e = handleEvent_full [OF this pairing_table_ok [OF assms(1)], of act ev w]
  have "ev \<noteq> ERROR_EVENT" using assms(3) by (auto simp: ERROR_EVENT_def)
  moreover have "item_for ev (pairing_fsm junk_item st) =
      Some \<lparr>ft_event = ev, ft_cur_state = cur, event_act_func = Some k, ft_next_state = nxt\<rparr>"
    using assms(2,3) by (simp add: item_for_def pairing_fsm_def pairing_table_def)
  ultimately show ?thesis unfolding e by (simp cong: if_cong)
qed

text \<open>What the two events of one message come to: the actions of the client's event do nothing.\<close>
lemma message_events:
  assumes j: "ft_event junk_item = 0"
  shows "handleClientEvent env (pairing_fsm junk_item PAIRING_BEGIN) (decideEvent (pairing_fsm junk_item PAIRING_BEGIN) w) =
      bindR (handleReplyStep2 env (w\<lparr>chr_event := S_REPLY_STEP2\<rparr>)) (\<lambda>(ret, w').
        Ok (pairing_fsm junk_item (if ret = 0 then PAIRING_STEP2 else PAIRING_STEP1), w'))"
    "handleClientEvent env (pairing_fsm junk_item PAIRING_STEP2) (decideEvent (pairing_fsm junk_item PAIRING_STEP2) w) =
      bindR (handleReplyStep4 env (w\<lparr>chr_event := S_REPLY_STEP4\<rparr>)) (\<lambda>(ret, w').
        Ok (pairing_fsm junk_item (if ret = 0 then PAIRING_STEP4 else PAIRING_STEP3), w'))"
    "handleClientEvent env (pairing_fsm junk_item PAIRING_STEP4) (decideEvent (pairing_fsm junk_item PAIRING_STEP4) w) =
      bindR (handlePairingComplete env (w\<lparr>chr_event := S_PAIRING_COMPLETE\<rparr>)) (\<lambda>(ret, w').
        Ok (pairing_fsm junk_item (if ret = 0 then SET_WIFI_BEGIN else PAIRING_COMPLETE), w'))"
  by (simp_all add: decideEvent_def handleClientEvent_def two_events_def pairing_event [OF j] pairing_table_def
      service_act_def handleWriteStep1_def handleWriteStep3_def handleWriteCommit_def bindR_assoc split_def if_distrib [of "pairing_fsm junk_item"] cong: if_cong)

text \<open>In every other state nothing happens when a reply was the last event.\<close>
lemma no_event:
  assumes "st \<notin> {PAIRING_BEGIN, PAIRING_STEP2, PAIRING_STEP4}" "chr_event w \<notin> {C_WRITE_STEP1, C_WRITE_STEP3, C_WRITE_COMMIT}"
  shows "handleClientEvent env (pairing_fsm junk_item st) (decideEvent (pairing_fsm junk_item st) w) = Ok (pairing_fsm junk_item st, w)"
  using assms by (simp add: decideEvent_def handleClientEvent_def)

section \<open>A message arrives\<close>

interpretation service_reader: packet_reader "host_junk env" recv_pairing_data "\<lambda>r w. w\<lparr>recv_pairing_data := Some r\<rparr>"
    "\<lambda>fsm w. handleClientEvent env fsm (decideEvent fsm w)" "chr_write_value env" "write_packets env" for env
  by unfold_locales (simp_all add: chr_write_value_def Let_def)

lemmas message_arrives = service_reader.message_arrives

lemma received_message_holds:
  assumes "holds_message m r" "recv_pairing_data w = Some r"
  shows "received_message w = Ok (Some m)" "resetRecvData (Some r) = Some recv_empty"
proof -
  have m: "length m < 2 ^ 16" and r: "holds_front (length (frame_head (length m))) (wifi_frame m) (length (wifi_frame m)) r"
    using assms(1) by (simp_all add: holds_message_def)
  have "unat (word_of_nat (length m) :: u64) = length m" using m by (simp add: unat_of_nat take_bit_nat_eq_self)
  then show "received_message w = Ok (Some m)" "resetRecvData (Some r) = Some recv_empty"
    using collected_message [OF m r] assms(2) by (simp_all add: received_message_def)
qed


section \<open>The three messages of a client\<close>

lemma build_front:
  assumes "n \<le> 254" "n \<le> length buf"
  shows "build_msg_payload junk buf n = Ok (True, word_of_nat n # take n buf)"
  using assms by (simp add: build_msg_payload_def resolve_payload_len_def mem_write_def mem_slice_def Let_def)

text \<open>Step 1 is answered with the key and the nonce of the server if the byte of the answer that is taken for \<open>has_nonce\<close>
  is not 0: it is a byte of the public key.\<close>
lemma reply_step2:
  assumes r: "holds_message p r" "recv_pairing_data w = Some r" and ok: "server_ok (srv w)"
    and dec: "ig_PairingStep1_decode p ig_PairingStep1_init 0 = Ok (0, pairing_step1 C)" "length C = 64"
    and keys: "host_make_key env = Some (pub, priv)" "length pub = 64" "length priv = 32"
    and secret: "host_shared_secret env C priv = Some z" "length z = 32"
    and N: "N = generateRandomNonce (host_rand env) (host_time env) 12"
    and off: "6 \<le> nonce_flag_offset env" "nonce_flag_offset env < 70"
  shows "handleReplyStep2 env w =
    Ok (if pub ! (nonce_flag_offset env - 6) \<noteq> 0
        then (0, w\<lparr>srv := after_step2 C N pub priv z (srv w), values_sent := values_sent w @ [84 # step2_message pub N],
                   recv_pairing_data := Some recv_empty\<rparr>)
        else (1, w\<lparr>srv := after_step2 C N pub priv z (srv w)\<rparr>))"
proof -
  have p: "length p < 2 ^ 31" using r(1) by (simp add: holds_message_def)
  have "(103 :: nat) \<le> unat (103 :: u32)" "unat (103 :: u32) \<le> length (replicate 103 (0 :: u8))" by simp_all
  note s = server_step2_answers [where shared_secret = "host_shared_secret env", OF ok p dec keys(2,3) secret this N]
  have "length N = 12" using N by simp
  then have m: "length (step2_message pub N) = 84" "step2_message pub N ! 0 = 0xa3"
    using keys by (simp_all add: step2_message_def)
  define hd where "hd = [0xa3, 0x00, 0x02, 0x0b, 0x58, 0x40 :: u8]"
  have "length hd = 6" "step2_message pub N = hd @ pub @ [0x0c, 0x4c] @ N" by (simp_all add: hd_def step2_message_def)
  then have key_byte: "step2_message pub N ! nonce_flag_offset env = pub ! (nonce_flag_offset env - 6)"
    using keys off by (simp add: nth_append less_diff_conv2)
  have f: "mem_byte (step2_message pub N @ drop 84 (replicate 103 0)) 0 = Ok 0xa3"
    "mem_byte (step2_message pub N @ drop 84 (replicate 103 0)) (nonce_flag_offset env) = Ok (pub ! (nonce_flag_offset env - 6))"
    using m off key_byte by (simp_all add: mem_byte_def nth_append)
  have "build_msg_payload (host_junk env) (step2_message pub N @ drop 84 (replicate 103 0)) 84 = Ok (True, 84 # step2_message pub N)"
    using m by (subst build_front) simp_all
  then show ?thesis
    using received_message_holds [OF r] r(2) s f keys(1)
    by (simp add: handleReplyStep2_def step2_size bytes_is_valid_def chr_write_def Let_def)
qed

text \<open>What \<open>ig_pairing_step4\<close> writes is sent as a frame.\<close>
lemma reply_step4:
  assumes r: "holds_message c r" "recv_pairing_data w = Some r" and ok: "server_ok (srv w)"
    and a: "ig_pairing_step4 (host_junk env) (host_drbg env) (host_rand env) (host_clock env) c (word_of_nat (length c))
        (fresh_block (host_junk env) 76) 76 (srv w) = Ok (ret, m @ rest, Some (word_of_nat (length m)), s')" "length m \<le> 76"
  shows "handleReplyStep4 env w =
      Ok (0, w\<lparr>srv := s', values_sent := values_sent w @ [word_of_nat (length m) # m], recv_pairing_data := Some recv_empty\<rparr>)"
proof -
  have u: "unat (word_of_nat (length m) :: u32) = length m" using a(2) by (intro small_int_word(2)) simp
  have "build_msg_payload (host_junk env) (m @ rest) (length m) = Ok (True, word_of_nat (length m) # m)"
    using a(2) by (subst build_front) simp_all
  moreover have "(word_of_nat (length m) :: u32) \<noteq> - 1"
  proof
    assume "(word_of_nat (length m) :: u32) = - 1"
    then have "unat (word_of_nat (length m) :: u32) = unat (- 1 :: u32)" by (simp only:)
    then show False using u a(2) by (simp add: unsigned_minus_1_eq_mask mask_eq_exp_minus_1)
  qed
  ultimately show ?thesis
    using received_message_holds [OF r] r(2) a(1) u
    by (simp add: handleReplyStep4_def step4_size [OF ok] chr_write_def Let_def)
qed

text \<open>A step 3 that does not authenticate is answered all the same, with an empty frame.\<close>
lemma reply_step4_refused:
  assumes r: "holds_message c r" "recv_pairing_data w = Some r" and ok: "server_ok (srv w)" and c: "8 \<le> length c" "length c \<le> 4096"
    and bad: "unseal (server_pairing_admin_key (srv w)) (server_nonce (srv w)) c = None"
  shows "handleReplyStep4 env w = Ok (0, w\<lparr>values_sent := values_sent w @ [[0]], recv_pairing_data := Some recv_empty\<rparr>)"
proof -
  have "build_msg_payload (host_junk env) (fresh_block (host_junk env) 76) 0 = Ok (True, [0])" by (subst build_front) simp_all
  then show ?thesis
    using received_message_holds [OF r] r(2) step4_refuses(1) [OF ok c bad]
    by (simp add: handleReplyStep4_def step4_size [OF ok] chr_write_def Let_def)
qed

definition server_crypt :: "server_state \<Rightarrow> Crypt" where
  "server_crypt s = \<lparr>Crypt_has_server_pairing_admin_key = True, Crypt_server_pairing_admin_key = Some (server_pairing_admin_key s),
     Crypt_server_pairing_admin_key_len = 16, Crypt_has_client_nonce = True, Crypt_client_nonce = Some (client_nonce s),
     Crypt_client_nonce_len = 12, Crypt_has_server_nonce = True, Crypt_server_nonce = Some (server_nonce s), Crypt_server_nonce_len = 12\<rparr>"

lemma makeCrypt_server:
  assumes "server_ok s"
  shows "makeCrypt fresh None s = Ok (0, Some (server_crypt s))" "Crypt_ok (server_crypt s)"
proof -
  have l: "length (server_pairing_admin_key s) = 16" "length (server_nonce s) = 12" "length (client_nonce s) = 12"
    using assms by (simp_all add: server_ok_def)
  then show "makeCrypt fresh None s = Ok (0, Some (server_crypt s))"
    by (simp add: makeCrypt_def getCrypt_def initCrypt_def Crypt_zero_def setCryptAdminKey_def setCryptServerNonce_def
        setCryptClientNonce_def isCryptInvalid_def server_crypt_def block_read_def mem_slice_def)
  show "Crypt_ok (server_crypt s)"
    using l by (simp add: Crypt_ok_def server_crypt_def str_ok_def isCryptInvalid_def)
qed

lemma empty_crypt: "decodeCrypt [] obj index \<noteq> Ok (0, c)"
  by (simp add: decodeCrypt_def ig_decode_def ig_open_def cbor_parser_init_def preparse_value_def)

text \<open>The record of the session goes to the socket; the message in the receiver is not looked at.\<close>
lemma pairing_complete:
  assumes ok: "server_ok (srv w)" and env: "host_connects env" "host_writes env" "0 \<le> write_socket w"
  shows "\<exists>d. handlePairingComplete env w =
      Ok (0, w\<lparr>set_wifi_crypt := Some (server_crypt (srv w)), handed := handed w @ [d]\<rparr>) \<and>
    decodeCrypt d Crypt_zero 0 = Ok (0, server_crypt (srv w))"
proof -
  have "(1024 :: nat) \<le> unat (1024 :: u32)" "unat (1024 :: u32) \<le> length (replicate 1024 (0 :: u8))" by simp_all
  from crypt_roundtrip [OF makeCrypt_server(2) [OF ok] this, of 0] obtain buf n where
    e: "encodeCrypt (server_crypt (srv w)) (replicate 1024 0) 1024 = Ok (0, buf, Some n)" "length buf = 1024" "n \<le> 1024"
      "decodeCrypt (take n buf) Crypt_zero 0 = Ok (0, server_crypt (srv w))" by auto
  have "n \<noteq> 0" using e(4) empty_crypt by (cases n) auto
  then show ?thesis
    using e env makeCrypt_server(1) [OF ok]
    by (intro exI [of _ "take n buf"]) (simp add: handlePairingComplete_def sendCrypt_def mem_slice_def Let_def)
qed


section \<open>The service against a client\<close>

text \<open>A frame that arrives in one of the three states that wait for one runs its action on the message.\<close>
lemma frame_runs_action:
  assumes j: "ft_event junk_item = 0" and ds: "packets_of m ds" and w: "recv_pairing_data w = Some recv_empty"
  shows "\<exists>r. holds_message m r \<and> write_packets env ds (pairing_fsm junk_item PAIRING_BEGIN) w =
      bindR (handleReplyStep2 env (w\<lparr>recv_pairing_data := Some r, chr_event := S_REPLY_STEP2\<rparr>)) (\<lambda>(ret, w').
        Ok (pairing_fsm junk_item (if ret = 0 then PAIRING_STEP2 else PAIRING_STEP1), w'))"
    "\<exists>r. holds_message m r \<and> write_packets env ds (pairing_fsm junk_item PAIRING_STEP2) w =
      bindR (handleReplyStep4 env (w\<lparr>recv_pairing_data := Some r, chr_event := S_REPLY_STEP4\<rparr>)) (\<lambda>(ret, w').
        Ok (pairing_fsm junk_item (if ret = 0 then PAIRING_STEP4 else PAIRING_STEP3), w'))"
    "\<exists>r. holds_message m r \<and> write_packets env ds (pairing_fsm junk_item PAIRING_STEP4) w =
      bindR (handlePairingComplete env (w\<lparr>recv_pairing_data := Some r, chr_event := S_PAIRING_COMPLETE\<rparr>)) (\<lambda>(ret, w').
        Ok (pairing_fsm junk_item (if ret = 0 then SET_WIFI_BEGIN else PAIRING_COMPLETE), w'))"
proof -
  obtain r where "holds_message m r"
    "write_packets env ds (pairing_fsm junk_item PAIRING_BEGIN) w =
      handleClientEvent env (pairing_fsm junk_item PAIRING_BEGIN) (decideEvent (pairing_fsm junk_item PAIRING_BEGIN) (w\<lparr>recv_pairing_data := Some r\<rparr>))"
    using message_arrives [OF ds w] by blast
  then show "\<exists>r. holds_message m r \<and> write_packets env ds (pairing_fsm junk_item PAIRING_BEGIN) w =
      bindR (handleReplyStep2 env (w\<lparr>recv_pairing_data := Some r, chr_event := S_REPLY_STEP2\<rparr>)) (\<lambda>(ret, w').
        Ok (pairing_fsm junk_item (if ret = 0 then PAIRING_STEP2 else PAIRING_STEP1), w'))"
    by (intro exI [of _ r]) (simp only: message_events(1) [OF j] simp_thms)
  obtain r where "holds_message m r"
    "write_packets env ds (pairing_fsm junk_item PAIRING_STEP2) w =
      handleClientEvent env (pairing_fsm junk_item PAIRING_STEP2) (decideEvent (pairing_fsm junk_item PAIRING_STEP2) (w\<lparr>recv_pairing_data := Some r\<rparr>))"
    using message_arrives [OF ds w] by blast
  then show "\<exists>r. holds_message m r \<and> write_packets env ds (pairing_fsm junk_item PAIRING_STEP2) w =
      bindR (handleReplyStep4 env (w\<lparr>recv_pairing_data := Some r, chr_event := S_REPLY_STEP4\<rparr>)) (\<lambda>(ret, w').
        Ok (pairing_fsm junk_item (if ret = 0 then PAIRING_STEP4 else PAIRING_STEP3), w'))"
    by (intro exI [of _ r]) (simp only: message_events(2) [OF j] simp_thms)
  obtain r where "holds_message m r"
    "write_packets env ds (pairing_fsm junk_item PAIRING_STEP4) w =
      handleClientEvent env (pairing_fsm junk_item PAIRING_STEP4) (decideEvent (pairing_fsm junk_item PAIRING_STEP4) (w\<lparr>recv_pairing_data := Some r\<rparr>))"
    using message_arrives [OF ds w] by blast
  then show "\<exists>r. holds_message m r \<and> write_packets env ds (pairing_fsm junk_item PAIRING_STEP4) w =
      bindR (handlePairingComplete env (w\<lparr>recv_pairing_data := Some r, chr_event := S_PAIRING_COMPLETE\<rparr>)) (\<lambda>(ret, w').
        Ok (pairing_fsm junk_item (if ret = 0 then SET_WIFI_BEGIN else PAIRING_COMPLETE), w'))"
    by (intro exI [of _ r]) (simp only: message_events(3) [OF j] simp_thms)
qed

text \<open>Whatever the last frame holds, the record of the session is handed over, and the receiver keeps the frame.\<close>
lemma any_commit_completes:
  assumes j: "ft_event junk_item = 0" and ds: "packets_of m ds" and w: "recv_pairing_data w = Some recv_empty"
    and ok: "server_ok (srv w)" and env: "host_connects env" "host_writes env" "0 \<le> write_socket w"
  shows "\<exists>w' d r. write_packets env ds (pairing_fsm junk_item PAIRING_STEP4) w = Ok (pairing_fsm junk_item SET_WIFI_BEGIN, w') \<and>
    handed w' = handed w @ [d] \<and> decodeCrypt d Crypt_zero 0 = Ok (0, server_crypt (srv w)) \<and>
    values_sent w' = values_sent w \<and> srv w' = srv w \<and> recv_pairing_data w' = Some r \<and> rd_status r = FINISHED_SUCCESS \<and> chr_event w' = S_PAIRING_COMPLETE"
proof -
  obtain r where r: "holds_message m r" "write_packets env ds (pairing_fsm junk_item PAIRING_STEP4) w =
      bindR (handlePairingComplete env (w\<lparr>recv_pairing_data := Some r, chr_event := S_PAIRING_COMPLETE\<rparr>)) (\<lambda>(ret, w').
        Ok (pairing_fsm junk_item (if ret = 0 then SET_WIFI_BEGIN else PAIRING_COMPLETE), w'))"
    using frame_runs_action(3) [OF j ds w, of env] by blast
  have "rd_status r = FINISHED_SUCCESS" using r(1) by (simp add: holds_message_def holds_front_def)
  then show ?thesis
    using pairing_complete [of "w\<lparr>recv_pairing_data := Some r, chr_event := S_PAIRING_COMPLETE\<rparr>" env] ok env r(2) by auto
qed

text \<open>Once the machine is in a state that waits for nothing and the receiver is full, no packet has any effect.\<close>
lemma same_receiver: "recv_pairing_data w = Some r \<Longrightarrow> w\<lparr>recv_pairing_data := Some r\<rparr> = w"
  by (cases w) simp

lemma service_deaf:
  assumes "st \<notin> {PAIRING_BEGIN, PAIRING_STEP2, PAIRING_STEP4}" "chr_event w \<notin> {C_WRITE_STEP1, C_WRITE_STEP3, C_WRITE_COMMIT}"
    and "recv_pairing_data w = Some r" "rd_status r = FINISHED_SUCCESS"
  shows "write_packets env vs (pairing_fsm junk_item st) w = Ok (pairing_fsm junk_item st, w)"
proof (induction vs)
  case (Cons v vs)
  have "chr_write_value env v (pairing_fsm junk_item st) w = Ok (pairing_fsm junk_item st, w)"
    using recvData_finished [OF assms(4)] no_event [OF assms(1,2)] assms(3)
    by (simp add: chr_write_value_def same_receiver [OF assms(3)])
  then show ?case using Cons by simp
qed simp


lemma step1_arrives:
  assumes j: "ft_event junk_item = 0" and ds: "packets_of p ds" and w: "recv_pairing_data w = Some recv_empty"
    and ok: "server_ok (srv w)" and dec: "ig_PairingStep1_decode p ig_PairingStep1_init 0 = Ok (0, pairing_step1 C)" "length C = 64"
    and keys: "host_make_key env = Some (pub, priv)" "length pub = 64" "length priv = 32"
    and secret: "host_shared_secret env C priv = Some z" "length z = 32"
    and N: "N = generateRandomNonce (host_rand env) (host_time env) 12"
    and off: "6 \<le> nonce_flag_offset env" "nonce_flag_offset env < 70" "pub ! (nonce_flag_offset env - 6) \<noteq> 0"
  shows "write_packets env ds (pairing_fsm junk_item PAIRING_BEGIN) w =
    Ok (pairing_fsm junk_item PAIRING_STEP2, w\<lparr>srv := after_step2 C N pub priv z (srv w), recv_pairing_data := Some recv_empty,
          chr_event := S_REPLY_STEP2, values_sent := values_sent w @ [84 # step2_message pub N]\<rparr>)"
proof -
  obtain r where r: "holds_message p r" "write_packets env ds (pairing_fsm junk_item PAIRING_BEGIN) w =
      bindR (handleReplyStep2 env (w\<lparr>recv_pairing_data := Some r, chr_event := S_REPLY_STEP2\<rparr>)) (\<lambda>(ret, w').
        Ok (pairing_fsm junk_item (if ret = 0 then PAIRING_STEP2 else PAIRING_STEP1), w'))"
    using frame_runs_action(1) [OF j ds w, of env] by blast
  have "handleReplyStep2 env (w\<lparr>recv_pairing_data := Some r, chr_event := S_REPLY_STEP2\<rparr>) =
      Ok (0, w\<lparr>srv := after_step2 C N pub priv z (srv w), recv_pairing_data := Some recv_empty,
          chr_event := S_REPLY_STEP2, values_sent := values_sent w @ [84 # step2_message pub N]\<rparr>)"
    using reply_step2 [OF r(1) _ _ dec keys secret N off(1,2), of "w\<lparr>recv_pairing_data := Some r, chr_event := S_REPLY_STEP2\<rparr>"]
      ok off(3) by simp
  then show ?thesis using r(2) by simp
qed

text \<open>The other case of the test: the answer is not sent, and the machine is left in a state that waits for nothing.\<close>
lemma step1_dropped:
  assumes j: "ft_event junk_item = 0" and ds: "packets_of p ds" and w: "recv_pairing_data w = Some recv_empty"
    and ok: "server_ok (srv w)" and dec: "ig_PairingStep1_decode p ig_PairingStep1_init 0 = Ok (0, pairing_step1 C)" "length C = 64"
    and keys: "host_make_key env = Some (pub, priv)" "length pub = 64" "length priv = 32"
    and secret: "host_shared_secret env C priv = Some z" "length z = 32"
    and off: "6 \<le> nonce_flag_offset env" "nonce_flag_offset env < 70" "pub ! (nonce_flag_offset env - 6) = 0"
  shows "\<exists>w'. write_packets env ds (pairing_fsm junk_item PAIRING_BEGIN) w = Ok (pairing_fsm junk_item PAIRING_STEP1, w') \<and>
    values_sent w' = values_sent w \<and>
    (\<forall>env' vs. write_packets env' vs (pairing_fsm junk_item PAIRING_STEP1) w' = Ok (pairing_fsm junk_item PAIRING_STEP1, w'))"
proof -
  obtain r where r: "holds_message p r" "write_packets env ds (pairing_fsm junk_item PAIRING_BEGIN) w =
      bindR (handleReplyStep2 env (w\<lparr>recv_pairing_data := Some r, chr_event := S_REPLY_STEP2\<rparr>)) (\<lambda>(ret, w').
        Ok (pairing_fsm junk_item (if ret = 0 then PAIRING_STEP2 else PAIRING_STEP1), w'))"
    using frame_runs_action(1) [OF j ds w, of env] by blast
  let ?w = "w\<lparr>recv_pairing_data := Some r, chr_event := S_REPLY_STEP2,
    srv := after_step2 C (generateRandomNonce (host_rand env) (host_time env) 12) pub priv z (srv w)\<rparr>"
  have "handleReplyStep2 env (w\<lparr>recv_pairing_data := Some r, chr_event := S_REPLY_STEP2\<rparr>) = Ok (1, ?w)"
    using reply_step2 [OF r(1) _ _ dec keys secret refl off(1,2), of "w\<lparr>recv_pairing_data := Some r, chr_event := S_REPLY_STEP2\<rparr>"]
      ok off(3) by simp
  moreover have "rd_status r = FINISHED_SUCCESS" using r(1) by (simp add: holds_message_def holds_front_def)
  then have "write_packets env' vs (pairing_fsm junk_item PAIRING_STEP1) ?w = Ok (pairing_fsm junk_item PAIRING_STEP1, ?w)" for env' vs
    by (intro service_deaf) simp_all
  ultimately show ?thesis using r(2) by (intro exI [of _ ?w]) simp
qed

text \<open>Step 3 is answered with step 4, sealed.  The answer does not depend on how the frame was cut.\<close>
lemma step3_arrives:
  assumes j: "ft_event junk_item = 0" and ok: "server_ok s" and p: "length p \<le> 4088"
    and dec: "ig_PairingStep3_decode p ig_PairingStep3_init 0 = Ok (err, step3)"
    and step3: "ig_PairingStep3_ok step3" "step3_acceptable step3" and drbg: "drbg_ok (host_drbg env)"
  defines "c \<equiv> seal (server_pairing_admin_key s) (server_nonce s) p"
  shows "\<exists>q s'. (\<forall>ds w. packets_of c ds \<and> recv_pairing_data w = Some recv_empty \<and> srv w = s \<longrightarrow>
      write_packets env ds (pairing_fsm junk_item PAIRING_STEP2) w =
      Ok (pairing_fsm junk_item PAIRING_STEP4, w\<lparr>srv := s', recv_pairing_data := Some recv_empty, chr_event := S_REPLY_STEP4,
        values_sent := values_sent w @ [word_of_nat (length q + 8) # seal (server_pairing_admin_key s') (client_nonce s') q]\<rparr>)) \<and>
    length q \<le> 68 \<and> ig_PairingStep4_decode q ig_PairingStep4_init 0 = Ok (0, step4_of s') \<and>
    server_ready s' \<and> chosen_by step3 s' \<and> server_pairing_admin_key s' = server_pairing_admin_key s \<and>
    server_nonce s' = incrementNonce (server_nonce s)"
proof -
  let ?out = "fresh_block (host_junk env) 76"
  have room: "(76 :: nat) \<le> unat (76 :: u32)" "unat (76 :: u32) \<le> length ?out" by simp_all
  obtain q s' where a: "ig_pairing_step4 (host_junk env) (host_drbg env) (host_rand env) (host_clock env) c (word_of_nat (length c)) ?out 76 s =
      Ok (0, seal (server_pairing_admin_key s') (client_nonce s') q @ drop (length q + 8) ?out, Some (word_of_nat (length q + 8)), s')"
    "length q \<le> 68" "ig_PairingStep4_decode q ig_PairingStep4_init 0 = Ok (0, step4_of s')"
    "server_ready s'" "chosen_by step3 s'" "server_pairing_admin_key s' = server_pairing_admin_key s"
    "server_nonce s' = incrementNonce (server_nonce s)"
    using server_step4_answers [OF ok p dec step3 drbg room, where junk = "host_junk env" and rand = "host_rand env" and clock = "host_clock env"]
    unfolding c_def by metis
  let ?m = "seal (server_pairing_admin_key s') (client_nonce s') q"
  have l: "length ?m = length q + 8" "length ?m \<le> 76"
    using a(2,4) by (simp_all add: server_ready_def server_ok_def good_key_def)
  have "write_packets env ds (pairing_fsm junk_item PAIRING_STEP2) w =
      Ok (pairing_fsm junk_item PAIRING_STEP4, w\<lparr>srv := s', recv_pairing_data := Some recv_empty, chr_event := S_REPLY_STEP4,
        values_sent := values_sent w @ [word_of_nat (length q + 8) # ?m]\<rparr>)"
    if ds: "packets_of c ds" and w: "recv_pairing_data w = Some recv_empty" "srv w = s" for ds w
  proof -
    obtain r where r: "holds_message c r" "write_packets env ds (pairing_fsm junk_item PAIRING_STEP2) w =
      bindR (handleReplyStep4 env (w\<lparr>recv_pairing_data := Some r, chr_event := S_REPLY_STEP4\<rparr>)) (\<lambda>(ret, w').
        Ok (pairing_fsm junk_item (if ret = 0 then PAIRING_STEP4 else PAIRING_STEP3), w'))"
      using frame_runs_action(2) [OF j ds w(1), of env] by blast
    let ?w = "w\<lparr>recv_pairing_data := Some r, chr_event := S_REPLY_STEP4\<rparr>"
    have "handleReplyStep4 env ?w = Ok (0, ?w\<lparr>srv := s', values_sent := values_sent ?w @ [word_of_nat (length ?m) # ?m],
        recv_pairing_data := Some recv_empty\<rparr>)"
      by (rule reply_step4 [OF r(1) _ _ _ l(2)]) (use w(2) ok a(1) l(1) in simp_all)
    then show ?thesis using r(2) l(1) by simp
  qed
  then show ?thesis using a(2-7) by (intro exI [of _ q] exI [of _ s']) simp
qed

text \<open>A step 3 that was not sealed by the client is answered by an empty frame and still takes the machine to where it
  waits for the commit.\<close>
lemma forged_step3_passes:
  assumes j: "ft_event junk_item = 0" and ds: "packets_of c ds" and w: "recv_pairing_data w = Some recv_empty"
    and ok: "server_ok (srv w)" and c: "8 \<le> length c" "length c \<le> 4096"
    and bad: "unseal (server_pairing_admin_key (srv w)) (server_nonce (srv w)) c = None"
  shows "write_packets env ds (pairing_fsm junk_item PAIRING_STEP2) w =
      Ok (pairing_fsm junk_item PAIRING_STEP4, w\<lparr>recv_pairing_data := Some recv_empty, chr_event := S_REPLY_STEP4,
        values_sent := values_sent w @ [[0]]\<rparr>)"
proof -
  obtain r where r: "holds_message c r" "write_packets env ds (pairing_fsm junk_item PAIRING_STEP2) w =
      bindR (handleReplyStep4 env (w\<lparr>recv_pairing_data := Some r, chr_event := S_REPLY_STEP4\<rparr>)) (\<lambda>(ret, w').
        Ok (pairing_fsm junk_item (if ret = 0 then PAIRING_STEP4 else PAIRING_STEP3), w'))"
    using frame_runs_action(2) [OF j ds w, of env] by blast
  then show ?thesis
    using reply_step4_refused [OF r(1) _ _ c, of "w\<lparr>recv_pairing_data := Some r, chr_event := S_REPLY_STEP4\<rparr>"] ok bad by simp
qed


text \<open>The messages of the client of \<open>pairing_connection.c\<close>, cut anywhere, take the service through a whole pairing: it
  answers twice, both ends hold the same key, and the record handed over has that key.  Both nonces in the record stand
  one step behind those of the client.\<close>
lemma service_pairing_run:
  assumes j: "ft_event junk_item = 0" and client: "pairing_ok s0" and w: "recv_pairing_data w0 = Some recv_empty" "server_ok (srv w0)"
    and keys: "host_make_key e1 = Some (pub, priv)" "length pub = 64" "length priv = 32"
    and secret: "host_shared_secret e1 (publicKey s0) priv = Some z" "shared_secret pub (privateKey s0) = Some z" "length z = 32"
    and off: "6 \<le> nonce_flag_offset e1" "nonce_flag_offset e1 < 70" "pub ! (nonce_flag_offset e1 - 6) \<noteq> 0"
    and drbg: "drbg_ok (host_drbg e3)" and link: "host_connects e5" "host_writes e5" "0 \<le> write_socket w0"
  shows "\<exists>p1 m2 c3 s1 m4 s4 s2 c5 s3 v.
    PairingConnection_genPairingStep1Native s0 = Ok (word_of_nat (length p1), Some p1) \<and> length p1 \<le> 84 \<and>
    PairingConnection_genPairingStep3Native shared_secret (word_of_nat (length m2)) (Some m2) s0 = Ok (word_of_nat (length c3), Some c3, s1) \<and> length c3 \<le> 74 \<and>
    PairingConnection_recPairingStep4Native (word_of_nat (length m4)) (Some m4) s1 = Ok (Some s4, s2) \<and>
    PairingConnection_genPairingCommitNative now s2 = Ok (word_of_nat (length c5), Some c5, s3) \<and> length c5 \<le> 27 \<and>
    (\<forall>ds1 ds3 ds5. packets_of p1 ds1 \<and> packets_of c3 ds3 \<and> packets_of c5 ds5 \<longrightarrow>
      (\<exists>w1 w2 w3 d. write_packets e1 ds1 (pairing_fsm junk_item PAIRING_BEGIN) w0 = Ok (pairing_fsm junk_item PAIRING_STEP2, w1) \<and>
        write_packets e3 ds3 (pairing_fsm junk_item PAIRING_STEP2) w1 = Ok (pairing_fsm junk_item PAIRING_STEP4, w2) \<and>
        write_packets e5 ds5 (pairing_fsm junk_item PAIRING_STEP4) w2 = Ok (pairing_fsm junk_item SET_WIFI_BEGIN, w3) \<and>
        values_sent w3 = values_sent w0 @ [word_of_nat (length m2) # m2, word_of_nat (length m4) # m4] \<and>
        handed w3 = handed w0 @ [d] \<and> decodeCrypt d Crypt_zero 0 = Ok (0, server_crypt v))) \<and>
    PairingConnection_getAdminKeyNative s3 = Ok (16, server_pairing_admin_key v) \<and> server_pairing_admin_key v = take 16 z \<and>
    PairingStep4_pin_key s4 = Some (pairing_pin_key v) \<and>
    p_txNonce s3 = incrementNonce (server_nonce v) \<and> p_rxNonce s3 = incrementNonce (client_nonce v) \<and>
    length m2 = 84 \<and> m2 ! 1 = 0 \<and> 8 \<le> length m4 \<and> length m4 \<le> 76 \<and> 8 \<le> length c3 \<and> 8 \<le> length c5 \<and> s4 = step4_of v \<and> length (pairing_password v) = 8"
proof -
  have pk: "length (publicKey s0) = 64" "length (p_rxNonce s0) = 12" using client by (simp_all add: pairing_ok_def)
  obtain p1 where p1: "PairingConnection_genPairingStep1Native s0 = Ok (word_of_nat (length p1), Some p1)"
    "length p1 \<le> 84" "ig_PairingStep1_decode p1 ig_PairingStep1_init 0 = Ok (0, pairing_step1 (publicKey s0))"
    using step1_carries_key [OF pk(1)] by blast
  define N where "N = generateRandomNonce (host_rand e1) (host_time e1) 12"
  have lN: "length N = 12" by (simp add: N_def)
  let ?m2 = "step2_message pub N" and ?k = "take 16 z" and ?v1 = "after_step2 (publicKey s0) N pub priv z (srv w0)"
  let ?w1 = "w0\<lparr>srv := ?v1, recv_pairing_data := Some recv_empty, chr_event := S_REPLY_STEP2, values_sent := values_sent w0 @ [84 # ?m2]\<rparr>"
  have w1: "packets_of p1 ds \<Longrightarrow> write_packets e1 ds (pairing_fsm junk_item PAIRING_BEGIN) w0 = Ok (pairing_fsm junk_item PAIRING_STEP2, ?w1)" for ds
    by (rule step1_arrives [OF j _ w p1(3) pk(1) keys secret(1,3) N_def off])
  have m2: "length ?m2 = 84" using keys(2) lN by (simp add: step2_message_def)
  let ?s1 = "client_after_step2 pub N z s0"
  obtain p3 where p3: "PairingConnection_genPairingStep3Native shared_secret 84 (Some ?m2) s0 =
      Ok (word_of_nat (length (seal ?k N p3)), Some (seal ?k N p3), ?s1)" "length p3 \<le> 66"
    "ig_PairingStep3_decode p3 ig_PairingStep3_init 0 = Ok (0, pairing_step3 (p_rxNonce s0))"
    using client_reads_step2 [where shared_secret = shared_secret, OF client keys(2) lN secret(2,3)] by blast
  have v1: "server_ok ?v1" by (rule after_step2_ok [OF w(2) pk(1) lN keys(2,3) secret(3)])
  have at1: "server_pairing_admin_key ?v1 = ?k" "server_nonce ?v1 = N" by (simp_all add: after_step2_def)
  have at2: "sharedKey ?s1 = ?k" "p_rxNonce ?s1 = p_rxNonce s0" "p_txNonce ?s1 = incrementNonce N" by (simp_all add: client_after_step2_def)
  have l3: "length p3 \<le> 4088" using p3(2) by simp
  obtain q v where v: "\<And>ds w. packets_of (seal ?k N p3) ds \<Longrightarrow> recv_pairing_data w = Some recv_empty \<Longrightarrow> srv w = ?v1 \<Longrightarrow>
      write_packets e3 ds (pairing_fsm junk_item PAIRING_STEP2) w =
      Ok (pairing_fsm junk_item PAIRING_STEP4, w\<lparr>srv := v, recv_pairing_data := Some recv_empty, chr_event := S_REPLY_STEP4,
        values_sent := values_sent w @ [word_of_nat (length q + 8) # seal (server_pairing_admin_key v) (client_nonce v) q]\<rparr>)"
    "length q \<le> 68" "ig_PairingStep4_decode q ig_PairingStep4_init 0 = Ok (0, step4_of v)" "server_ready v"
    "client_nonce v = p_rxNonce s0" "server_pairing_admin_key v = ?k" "server_nonce v = incrementNonce N"
    using step3_arrives [OF j v1 l3 p3(3) nonce_message(1,2) [OF pk(2)] drbg] nonce_message(3) [OF pk(2)] unfolding at1 by metis
  let ?m4 = "seal ?k (p_rxNonce s0) q" and ?s2 = "?s1\<lparr>p_rxNonce := incrementNonce (p_rxNonce s0)\<rparr>"
  have l4: "length ?m4 = length q + 8" using pk(2) secret(3) by (simp add: good_key_def)
  note last = client_finishes [OF client_after_step2_ok [OF client keys(2) lN secret(3)] v(2-4), unfolded at2]
  obtain p5 where p5: "PairingConnection_genPairingCommitNative now ?s2 =
      Ok (word_of_nat (length (seal ?k (incrementNonce N) p5)), Some (seal ?k (incrementNonce N) p5), ?s2\<lparr>p_txNonce := incrementNonce (incrementNonce N)\<rparr>)"
    "length p5 \<le> 19" using last(2) [of now] by blast
  let ?c5 = "seal ?k (incrementNonce N) p5" and ?s3 = "?s2\<lparr>p_txNonce := incrementNonce (incrementNonce N)\<rparr>"
  have run: "\<exists>w1 w2 w3 d. write_packets e1 ds1 (pairing_fsm junk_item PAIRING_BEGIN) w0 = Ok (pairing_fsm junk_item PAIRING_STEP2, w1) \<and>
        write_packets e3 ds3 (pairing_fsm junk_item PAIRING_STEP2) w1 = Ok (pairing_fsm junk_item PAIRING_STEP4, w2) \<and>
        write_packets e5 ds5 (pairing_fsm junk_item PAIRING_STEP4) w2 = Ok (pairing_fsm junk_item SET_WIFI_BEGIN, w3) \<and>
        values_sent w3 = values_sent w0 @ [word_of_nat (length ?m2) # ?m2, word_of_nat (length ?m4) # ?m4] \<and>
        handed w3 = handed w0 @ [d] \<and> decodeCrypt d Crypt_zero 0 = Ok (0, server_crypt v)"
    if ds: "packets_of p1 ds1" "packets_of (seal ?k N p3) ds3" "packets_of ?c5 ds5" for ds1 ds3 ds5
  proof -
    let ?w2 = "?w1\<lparr>srv := v, recv_pairing_data := Some recv_empty, chr_event := S_REPLY_STEP4,
      values_sent := values_sent ?w1 @ [word_of_nat (length q + 8) # ?m4]\<rparr>"
    have w2: "write_packets e3 ds3 (pairing_fsm junk_item PAIRING_STEP2) ?w1 = Ok (pairing_fsm junk_item PAIRING_STEP4, ?w2)"
      using v(1) [OF ds(2), of ?w1] by (simp add: v(5,6))
    have "recv_pairing_data ?w2 = Some recv_empty" "server_ok (srv ?w2)" "0 \<le> write_socket ?w2"
      using v(4) link(3) by (simp_all add: server_ready_def)
    from any_commit_completes [OF j ds(3) this(1,2) link(1,2) this(3)] show ?thesis
      using w1 [OF ds(1)] w2 m2 l4 by fastforce
  qed
  have lens: "length (seal ?k N p3) \<le> 74" "length ?c5 \<le> 27" using p3(2) p5(2) secret(3) lN by (simp_all add: good_key_def)
  have key: "PairingConnection_getAdminKeyNative ?s3 = Ok (16, server_pairing_admin_key v)"
    using secret(3) at2 by (simp add: v(6) PairingConnection_getAdminKeyNative_def mem_slice_def)
  have e3: "PairingConnection_genPairingStep3Native shared_secret (word_of_nat (length ?m2)) (Some ?m2) s0 =
      Ok (word_of_nat (length (seal ?k N p3)), Some (seal ?k N p3), ?s1)" using p3(1) m2 by simp
  have ends: "p_txNonce ?s3 = incrementNonce (server_nonce v)" "p_rxNonce ?s3 = incrementNonce (client_nonce v)"
    "PairingStep4_pin_key (step4_of v) = Some (pairing_pin_key v)" using v(5,7) by (simp_all add: step4_of_def)
  have more: "?m2 ! 1 = 0" "8 \<le> length ?m4" "length ?m4 \<le> 76" "8 \<le> length (seal ?k N p3)" "8 \<le> length ?c5" "length (pairing_password v) = 8"
    using l4 v(2,4) secret(3) lN by (simp_all add: step2_message_def server_ready_def server_ok_def good_key_def)
  show ?thesis
    using p1(1,2) e3 last(1) p5(1) lens run key v(6) ends m2 more by blast
qed

text \<open>The service does not ask who it pairs with: after step 2 a message that was not sealed by the client and any frame
  behind it complete the pairing.  The record is handed over, and from then on nothing is answered.\<close>
lemma forged_messages_complete:
  assumes j: "ft_event junk_item = 0" and w: "recv_pairing_data w = Some recv_empty" "server_ok (srv w)"
    and c: "packets_of c ds3" "8 \<le> length c" "length c \<le> 4096" "unseal (server_pairing_admin_key (srv w)) (server_nonce (srv w)) c = None"
    and m: "packets_of m ds5" and link: "host_connects e5" "host_writes e5" "0 \<le> write_socket w"
  shows "\<exists>w1 w2 d. write_packets e3 ds3 (pairing_fsm junk_item PAIRING_STEP2) w = Ok (pairing_fsm junk_item PAIRING_STEP4, w1) \<and>
    write_packets e5 ds5 (pairing_fsm junk_item PAIRING_STEP4) w1 = Ok (pairing_fsm junk_item SET_WIFI_BEGIN, w2) \<and>
    srv w2 = srv w \<and> values_sent w2 = values_sent w @ [[0]] \<and> handed w2 = handed w @ [d] \<and> decodeCrypt d Crypt_zero 0 = Ok (0, server_crypt (srv w)) \<and>
    (\<forall>env vs. write_packets env vs (pairing_fsm junk_item SET_WIFI_BEGIN) w2 = Ok (pairing_fsm junk_item SET_WIFI_BEGIN, w2))"
proof -
  let ?w1 = "w\<lparr>recv_pairing_data := Some recv_empty, chr_event := S_REPLY_STEP4, values_sent := values_sent w @ [[0]]\<rparr>"
  have w1: "write_packets e3 ds3 (pairing_fsm junk_item PAIRING_STEP2) w = Ok (pairing_fsm junk_item PAIRING_STEP4, ?w1)"
    by (rule forged_step3_passes [OF j c(1) w c(2-4)])
  have "recv_pairing_data ?w1 = Some recv_empty" "server_ok (srv ?w1)" "0 \<le> write_socket ?w1" using w(2) link(3) by simp_all
  from any_commit_completes [OF j m this(1,2) link(1,2) this(3)] obtain w2 d r where
    w2: "write_packets e5 ds5 (pairing_fsm junk_item PAIRING_STEP4) ?w1 = Ok (pairing_fsm junk_item SET_WIFI_BEGIN, w2)"
    "handed w2 = handed ?w1 @ [d]" "decodeCrypt d Crypt_zero 0 = Ok (0, server_crypt (srv ?w1))" "values_sent w2 = values_sent ?w1 \<and> srv w2 = srv ?w1"
    "recv_pairing_data w2 = Some r" "rd_status r = FINISHED_SUCCESS" "chr_event w2 = S_PAIRING_COMPLETE" by blast
  have "write_packets env vs (pairing_fsm junk_item SET_WIFI_BEGIN) w2 = Ok (pairing_fsm junk_item SET_WIFI_BEGIN, w2)" for env vs
    by (rule service_deaf [OF _ _ w2(5,6)]) (simp_all add: w2(7))
  then show ?thesis using w1 w2(1-4) by (intro exI [of _ ?w1] exI [of _ w2] exI [of _ d]) simp
qed

section \<open>A service to try\<close>

definition example_host :: "bytes \<Rightarrow> service_env" where
  "example_host pub =
     \<lparr>host_shared_secret = (\<lambda>p q. Some (replicate 32 5)), host_make_key = Some (pub, replicate 32 2), host_rand = (\<lambda>t i. i),
      host_time = 0, host_drbg = (\<lambda>e n r k. replicate k 0), host_clock = (\<lambda>i. i), host_junk = (\<lambda>i. 9), host_fresh_crypt = Crypt_zero,
      host_connects = True, host_writes = True, nonce_flag_offset = 24\<rparr>"

definition example_service :: service where
  "example_service =
     \<lparr>srv = server_init, recv_pairing_data = Some recv_empty, chr_event = 0, values_sent = [], write_socket = 3,
      set_wifi_crypt = None, handed = []\<rparr>"

definition example_item :: FSMTransform where
  "example_item = \<lparr>ft_event = 0, ft_cur_state = 0, event_act_func = None, ft_next_state = 0\<rparr>"

lemmas example_service_defs = example_host_def example_service_def example_item_def server_ok_init pairing_ok_init

text \<open>A short message fits one packet.\<close>
lemma one_packet: "length m < 2 ^ 15 \<Longrightarrow> packets_of m [wifi_frame m]"
  by (auto simp: packets_of_def wifi_frame_length head_length) (simp add: wifi_frame_def frame_head_def split: if_splits)

lemma drbg_ok_zeros: "drbg_ok (\<lambda>e n r k. replicate k 0)"
  by (simp add: drbg_ok_def)

end
