(* ===== verification/Pairing_Run.thy ===== *)
theory Pairing_Run
  imports Pairing_Task Wifi_Service
begin

text \<open>
  The two programs together: the task of \<open>ble/ble_pairing.c\<close>, run by \<open>FSMHandle\<close> from its table, and the process of
  \<open>wifi_service/server.c\<close> fed the packets that the task writes.  What the service puts on its characteristic reaches the task as
  notifications, cut into packets in any way that leaves three bytes in the first one.
\<close>

definition notified :: "bytes \<Rightarrow> bytes list \<Rightarrow> bool" where
  "notified m ds \<longleftrightarrow> concat ds = word_of_nat (length m) # m \<and> (\<forall>d \<in> set ds. d \<noteq> []) \<and> ds \<noteq> [] \<and> 3 \<le> length (hd ds)"

lemma cut_frame_packets:
  assumes "cut_frame m ps" "length m \<le> 254"
  shows "packets_of m ps"
proof -
  have "\<forall>p \<in> set ps. p \<noteq> [] \<and> length p < 2 ^ 16" using assms(1) by (force simp: cut_frame_def)
  moreover have "1 \<le> length (hd ps)" using assms(1) by (cases ps) (auto simp: cut_frame_def Suc_le_eq)
  ultimately show ?thesis
    using assms by (simp add: cut_frame_def packets_of_def wifi_frame_def frame_head_def)
qed

text \<open>The two waiting actions on the packets of a frame.\<close>
lemma waiting_notified:
  assumes "awaited (pairing_step (pt_conn t)) = Some nxt" "pc_buffer (pt_conn t) = step_buffer_empty"
    and "notified m ds" "m ! 1 \<noteq> 0xff" "length m \<le> 254" "notifications t = ds @ later"
  shows "waiting_pairing_step h t = Ok (0, t\<lparr>notifications := later, pt_conn := (pt_conn t)\<lparr>pairing_step := nxt, pc_buffer := full_buffer m\<rparr>\<rparr>)"
proof -
  obtain p ps where "ds = p # ps" using assms(3) by (cases ds) (auto simp: notified_def)
  with waiting_frame [OF assms(1,2), where p = p and ps = ps and m = m and ds = later] assms(3-6) show ?thesis
    by (simp add: waiting_pairing_step_def notified_def full_buffer_def)
qed

lemma actions_pass:
  assumes "register_pairing_notfication h t = Ok (0, t1)" "write_pairing_step1 h t1 = Ok (0, t2)" "waiting_pairing_step h t2 = Ok (0, t3)"
    and "write_pairing_step3 h t3 = Ok (0, t4)" "waiting_pairing_step h t4 = Ok (0, t5)" "write_pairing_commit h t5 = Ok (0, t6)"
  shows "run_rows (pairing_action h) pairing_fsm_table t = Ok (0, t6)"
  using assms by (simp add: pairing_fsm_table_def pairing_action_def)

lemma actions_stuck:
  assumes "register_pairing_notfication h t = Ok (0, t1)" "write_pairing_step1 h t1 = Ok (0, t2)" "waiting_pairing_step h t2 = Ok (0, t3)"
    and "write_pairing_step3 h t3 = Ok (0, t4)" "waiting_pairing_step h t4 = Fault e"
  shows "run_rows (pairing_action h) pairing_fsm_table t = Fault e"
  using assms by (simp add: pairing_fsm_table_def pairing_action_def)

text \<open>The first four actions, for a peer that answers step 1 with \<open>m2\<close>.\<close>
lemma pairing_rows_front:
  assumes host: "lock_ok (ph_lock h)" "ph_connects h" "ph_notifies h" "\<forall>sent p. ph_gatt h sent p = 0"
    and s0: "PairingConnection_beginConnection (ph_make_key h) (ph_rand h) (ph_time h) (pt_keys t) = (True, s0)"
    and p1: "PairingConnection_genPairingStep1Native s0 = Ok (word_of_nat (length p1), Some p1)" "length p1 \<le> 254"
    and c3: "PairingConnection_genPairingStep3Native (ph_shared_secret h) (word_of_nat (length m2)) (Some m2) s0 =
      Ok (word_of_nat (length c3), Some c3, s1)" "c3 \<noteq> []" "length c3 \<le> 254"
    and m2: "notified m2 ds2" "m2 ! 1 \<noteq> 0xff" "length m2 \<le> 254" and n: "notifications t = ds2 @ later"
  shows "\<exists>t1 t2 t3 t4 ps1 ps3. register_pairing_notfication h t = Ok (0, t1) \<and> write_pairing_step1 h t1 = Ok (0, t2) \<and>
    waiting_pairing_step h t2 = Ok (0, t3) \<and> write_pairing_step3 h t3 = Ok (0, t4) \<and> cut_frame p1 ps1 \<and> cut_frame c3 ps3 \<and>
    pairing_step (pt_conn t4) = BLE_PAIRING_STEP3 \<and> pc_buffer (pt_conn t4) = step_buffer_empty \<and> pt_keys t4 = s1 \<and>
    has_pairing_result (pt_conn t4) \<and> pt_sent t4 = pt_sent t @ ps1 @ ps3 \<and> notifications t4 = later"
proof -
  obtain ad where t1: "register_pairing_notfication h t = Ok (0, t\<lparr>pt_conn := \<lparr>pc_linked = True, pairing_step = BLE_PAIRING_STEP1,
      pc_buffer = step_buffer_empty, has_pairing_result = True, pairing_result = bleInitPairingResult\<lparr>pr_addr := ad\<rparr>\<rparr>\<rparr>)" (is "_ = Ok (0, ?t1)")
    using register_links [OF host(1-3)] by blast
  obtain ps1 where t2: "write_pairing_step1 h ?t1 = Ok (0, ?t1\<lparr>pt_keys := s0, pt_sent := pt_sent ?t1 @ ps1,
      pt_conn := (pt_conn ?t1)\<lparr>pairing_step := BLE_PAIRING_STEP1\<rparr>\<rparr>)" (is "_ = Ok (0, ?t2)") and cut1: "cut_frame p1 ps1"
    using step1_sent [OF _ p1 host(4), of ?t1] s0 by auto
  have t3: "waiting_pairing_step h ?t2 = Ok (0, ?t2\<lparr>notifications := later,
      pt_conn := (pt_conn ?t2)\<lparr>pairing_step := BLE_PAIRING_STEP2, pc_buffer := full_buffer m2\<rparr>\<rparr>)" (is "_ = Ok (0, ?t3)")
    by (rule waiting_notified [OF _ _ m2]) (simp_all add: awaited_def n)
  obtain ps3 where t4: "write_pairing_step3 h ?t3 = Ok (0, ?t3\<lparr>pt_keys := s1, pt_sent := pt_sent ?t3 @ ps3,
      pt_conn := (pt_conn ?t3)\<lparr>pc_buffer := step_buffer_empty, pairing_step := BLE_PAIRING_STEP3\<rparr>\<rparr>)" (is "_ = Ok (0, ?t4)")
    and cut3: "cut_frame c3 ps3"
    using step3_sent [OF _ _ c3(2,3) host(4), of ?t3 m2 s1] c3(1) by auto
  show ?thesis by (intro exI conjI, rule t1, rule t2, rule t3, rule t4, rule cut1, rule cut3) simp_all
qed

text \<open>The six actions one after the other, for a peer whose answers are \<open>m2\<close> and \<open>m4\<close>.\<close>
lemma pairing_rows_run:
  assumes host: "lock_ok (ph_lock h)" "ph_connects h" "ph_notifies h" "\<forall>sent p. ph_gatt h sent p = 0"
    and s0: "PairingConnection_beginConnection (ph_make_key h) (ph_rand h) (ph_time h) (pt_keys t) = (True, s0)"
    and p1: "PairingConnection_genPairingStep1Native s0 = Ok (word_of_nat (length p1), Some p1)" "length p1 \<le> 254"
    and c3: "PairingConnection_genPairingStep3Native (ph_shared_secret h) (word_of_nat (length m2)) (Some m2) s0 =
      Ok (word_of_nat (length c3), Some c3, s1)" "c3 \<noteq> []" "length c3 \<le> 254"
    and s4: "PairingConnection_recPairingStep4Native (word_of_nat (length m4)) (Some m4) s1 = Ok (Some s4, s2)"
      "PairingStep4_has_success s4" "PairingStep4_success s4" "PairingStep4_password s4 = Some pw" "PairingStep4_password_size s4 = length pw"
    and c5: "PairingConnection_genPairingCommitNative (ph_now h) s2 = Ok (word_of_nat (length c5), Some c5, s3)" "c5 \<noteq> []" "length c5 \<le> 254"
    and key: "PairingConnection_getAdminKeyNative s3 = Ok (16, k)" "length k = 16"
    and m2: "notified m2 ds2" "m2 ! 1 \<noteq> 0xff" "length m2 \<le> 254" and m4: "notified m4 ds4" "m4 ! 1 \<noteq> 0xff" "length m4 \<le> 254"
    and n: "notifications t = ds2 @ ds4 @ later"
  shows "\<exists>t' ps1 ps3 ps5 ad. run_rows (pairing_action h) pairing_fsm_table t = Ok (0, t') \<and>
    pt_sent t' = pt_sent t @ ps1 @ ps3 @ ps5 \<and> cut_frame p1 ps1 \<and> cut_frame c3 ps3 \<and> cut_frame c5 ps5 \<and>
    notifications t' = later \<and> pt_keys t' = s3 \<and> (ph_ends h \<longrightarrow> \<not> pc_linked (pt_conn t')) \<and>
    pairing_step (pt_conn t') = BLE_PAIRING_DONE \<and> pr_password (pairing_result (pt_conn t')) = Some pw \<and>
    pt_returned t' = Some \<lparr>front_addr = ad, front_successed = True, front_has_key = True, front_key = Some k\<rparr>"
proof -
  obtain t1 t2 t3 t4 ps1 ps3 where front: "register_pairing_notfication h t = Ok (0, t1)" "write_pairing_step1 h t1 = Ok (0, t2)"
    "waiting_pairing_step h t2 = Ok (0, t3)" "write_pairing_step3 h t3 = Ok (0, t4)" and cut: "cut_frame p1 ps1" "cut_frame c3 ps3"
    and at4: "pairing_step (pt_conn t4) = BLE_PAIRING_STEP3" "pc_buffer (pt_conn t4) = step_buffer_empty" "pt_keys t4 = s1"
      "has_pairing_result (pt_conn t4)" "pt_sent t4 = pt_sent t @ ps1 @ ps3" "notifications t4 = ds4 @ later"
    using pairing_rows_front [OF host s0 p1 c3 m2 n] by blast
  have "waiting_pairing_step h t4 = Ok (0, t4\<lparr>notifications := later,
      pt_conn := (pt_conn t4)\<lparr>pairing_step := BLE_PAIRING_STEP4, pc_buffer := full_buffer m4\<rparr>\<rparr>)"
    by (rule waiting_notified [OF _ at4(2) m4 at4(6)]) (simp add: awaited_def at4(1))
  then obtain t5 where t5: "waiting_pairing_step h t4 = Ok (0, t5)"
    and at5: "pc_buffer (pt_conn t5) = full_buffer m4" "pt_keys t5 = s1" "has_pairing_result (pt_conn t5)"
    "pt_sent t5 = pt_sent t @ ps1 @ ps3" "notifications t5 = later"
    using at4 by (elim that) simp_all
  note last = commit_sent [OF at5(1) s4(1) [folded at5(2)] s4(2-5) c5 key host(4) at5(3)]
  obtain ps5 t' ad where t6: "write_pairing_commit h t5 = Ok (0, t')" "pt_sent t' = (pt_sent t @ ps1 @ ps3) @ ps5" "cut_frame c5 ps5"
    "notifications t' = later" "pt_keys t' = s3" "ph_ends h \<longrightarrow> \<not> pc_linked (pt_conn t')" "pairing_step (pt_conn t') = BLE_PAIRING_DONE"
    "pr_password (pairing_result (pt_conn t')) = Some pw"
    "pt_returned t' = Some \<lparr>front_addr = ad, front_successed = True, front_has_key = True, front_key = Some k\<rparr>"
    using last [unfolded at5(4,5)] by blast
  have "run_rows (pairing_action h) pairing_fsm_table t = Ok (0, t')" by (rule actions_pass [OF front t5 t6(1)])
  then show ?thesis using t6(2-9) cut by (intro exI [of _ t'] exI [of _ ps1] exI [of _ ps3] exI [of _ ps5] exI [of _ ad]) simp
qed

text \<open>An answer \<open>m4\<close> whose second byte is \<open>0xff\<close>: its frame is taken for the long form, and the task waits for ever.\<close>
lemma pairing_rows_stuck:
  assumes host: "lock_ok (ph_lock h)" "ph_connects h" "ph_notifies h" "\<forall>sent p. ph_gatt h sent p = 0"
    and s0: "PairingConnection_beginConnection (ph_make_key h) (ph_rand h) (ph_time h) (pt_keys t) = (True, s0)"
    and p1: "PairingConnection_genPairingStep1Native s0 = Ok (word_of_nat (length p1), Some p1)" "length p1 \<le> 254"
    and c3: "PairingConnection_genPairingStep3Native (ph_shared_secret h) (word_of_nat (length m2)) (Some m2) s0 =
      Ok (word_of_nat (length c3), Some c3, s1)" "c3 \<noteq> []" "length c3 \<le> 254"
    and m2: "notified m2 ds2" "m2 ! 1 \<noteq> 0xff" "length m2 \<le> 254"
    and m4: "notified m4 ds4" "m4 ! 1 = 0xff" "length m4 \<le> 254" "m4 \<noteq> []" and n: "notifications t = ds2 @ ds4"
  shows "run_rows (pairing_action h) pairing_fsm_table t = Fault OutOfFuel"
proof -
  obtain t1 t2 t3 t4 where front: "register_pairing_notfication h t = Ok (0, t1)" "write_pairing_step1 h t1 = Ok (0, t2)"
    "waiting_pairing_step h t2 = Ok (0, t3)" "write_pairing_step3 h t3 = Ok (0, t4)"
    and at4: "pairing_step (pt_conn t4) = BLE_PAIRING_STEP3" "pc_buffer (pt_conn t4) = step_buffer_empty" "notifications t4 = ds4"
    using pairing_rows_front [OF host s0 p1 c3 m2 n] by blast
  obtain p ps where ds: "ds4 = p # ps" using m4(1) by (cases ds4) (auto simp: notified_def)
  have "waiting_loop h (p # ps) t4 = Fault OutOfFuel"
    by (rule waiting_misread [OF _ at4(2), where m = m4]) (use m4 ds in \<open>simp_all add: notified_def awaited_def at4(1)\<close>)
  then have "waiting_pairing_step h t4 = Fault OutOfFuel" by (simp add: waiting_pairing_step_def at4(3) ds)
  then show ?thesis by (rule actions_stuck [OF front])
qed

section \<open>The task and the service\<close>

text \<open>What is asked of the two programs: the task is new, both sides can make their keys and agree on the secret, the links work.\<close>
lemma task_pairs_with_service:
  assumes host: "lock_ok (ph_lock h)" "ph_connects h" "ph_notifies h" "\<forall>sent p. ph_gatt h sent p = 0"
    and client: "pairing_ok k0" "ph_make_key h = Some (cpub, cpriv)" "length cpub = 64" "length cpriv = 32"
    and task: "q_tasks q a = Some tn" "t_task_sm_table tn = Some pairing_fsm_table" "t_sm_table_len tn = 6" "t_cur_state tn = 0"
    and j: "ft_event junk_item = 0" and w: "recv_pairing_data w0 = Some recv_empty" "server_ok (srv w0)"
    and keys: "host_make_key e1 = Some (pub, priv)" "length pub = 64" "length priv = 32"
    and secret: "host_shared_secret e1 cpub priv = Some z" "ph_shared_secret h pub cpriv = Some z" "length z = 32"
    and off: "6 \<le> nonce_flag_offset e1" "nonce_flag_offset e1 < 70" "pub ! (nonce_flag_offset e1 - 6) \<noteq> 0"
    and drbg: "drbg_ok (host_drbg e3)" and link: "host_connects e5" "host_writes e5" "0 \<le> write_socket w0"
  shows "\<exists>m2 m4 v. length m2 = 84 \<and> 8 \<le> length m4 \<and> length m4 \<le> 76 \<and> server_pairing_admin_key v = take 16 z \<and>
    (\<forall>(t :: pairing_task) ds2 ds4. pt_keys t = k0 \<and> notified m2 ds2 \<and> notified m4 ds4 \<and> notifications t = ds2 @ ds4 \<longrightarrow>
      (if m4 ! 1 = 0xff then FSMHandle (pairing_task_action h) a q t = Fault OutOfFuel
       else \<exists>q' t' ps1 ps3 ps5 w1 w2 w3 d ad.
        FSMHandle (pairing_task_action h) a q t = Ok (0, q', t') \<and> pt_sent t' = pt_sent t @ ps1 @ ps3 @ ps5 \<and>
        write_packets e1 ps1 (pairing_fsm junk_item PAIRING_BEGIN) w0 = Ok (pairing_fsm junk_item PAIRING_STEP2, w1) \<and>
        write_packets e3 ps3 (pairing_fsm junk_item PAIRING_STEP2) w1 = Ok (pairing_fsm junk_item PAIRING_STEP4, w2) \<and>
        write_packets e5 ps5 (pairing_fsm junk_item PAIRING_STEP4) w2 = Ok (pairing_fsm junk_item SET_WIFI_BEGIN, w3) \<and>
        values_sent w3 = values_sent w0 @ [word_of_nat (length m2) # m2, word_of_nat (length m4) # m4] \<and>
        handed w3 = handed w0 @ [d] \<and> decodeCrypt d Crypt_zero 0 = Ok (0, server_crypt v) \<and>
        pt_returned t' = Some \<lparr>front_addr = ad, front_successed = True, front_has_key = True, front_key = Some (server_pairing_admin_key v)\<rparr> \<and>
        pr_password (pairing_result (pt_conn t')) = Some (pairing_password v) \<and> (ph_ends h \<longrightarrow> \<not> pc_linked (pt_conn t'))))"
    (is "\<exists>m2 m4 v. _ \<and> _ \<and> _ \<and> _ \<and> (\<forall>t ds2 ds4. _ \<longrightarrow> ?outcome m2 m4 v t)")
proof -
  define s0 where "s0 = k0\<lparr>publicKey := cpub, privateKey := cpriv, p_rxNonce := generateRandomNonce (ph_rand h) (ph_time h) kNonceLength\<rparr>"
  have b: "PairingConnection_beginConnection (ph_make_key h) (ph_rand h) (ph_time h) k0 = (True, s0)"
    by (simp add: PairingConnection_beginConnection_def client(2) s0_def)
  have ok: "pairing_ok s0" by (rule pairing_begin_ok [OF client(1) _ b]) (use client in simp)
  have at0: "publicKey s0 = cpub" "privateKey s0 = cpriv" by (simp_all add: s0_def)
  obtain p1 m2 c3 s1 m4 s4 s2 c5 s3 v where
    p1: "PairingConnection_genPairingStep1Native s0 = Ok (word_of_nat (length p1), Some p1)" "length p1 \<le> 84"
    and c3: "PairingConnection_genPairingStep3Native (ph_shared_secret h) (word_of_nat (length m2)) (Some m2) s0 =
      Ok (word_of_nat (length c3), Some c3, s1)" "length c3 \<le> 74"
    and r4: "PairingConnection_recPairingStep4Native (word_of_nat (length m4)) (Some m4) s1 = Ok (Some s4, s2)"
    and c5: "PairingConnection_genPairingCommitNative (ph_now h) s2 = Ok (word_of_nat (length c5), Some c5, s3)" "length c5 \<le> 27"
    and run: "\<forall>ds1 ds3 ds5. packets_of p1 ds1 \<and> packets_of c3 ds3 \<and> packets_of c5 ds5 \<longrightarrow>
      (\<exists>w1 w2 w3 d. write_packets e1 ds1 (pairing_fsm junk_item PAIRING_BEGIN) w0 = Ok (pairing_fsm junk_item PAIRING_STEP2, w1) \<and>
        write_packets e3 ds3 (pairing_fsm junk_item PAIRING_STEP2) w1 = Ok (pairing_fsm junk_item PAIRING_STEP4, w2) \<and>
        write_packets e5 ds5 (pairing_fsm junk_item PAIRING_STEP4) w2 = Ok (pairing_fsm junk_item SET_WIFI_BEGIN, w3) \<and>
        values_sent w3 = values_sent w0 @ [word_of_nat (length m2) # m2, word_of_nat (length m4) # m4] \<and>
        handed w3 = handed w0 @ [d] \<and> decodeCrypt d Crypt_zero 0 = Ok (0, server_crypt v))"
    and key: "PairingConnection_getAdminKeyNative s3 = Ok (16, server_pairing_admin_key v)" "server_pairing_admin_key v = take 16 z"
    and at: "length m2 = 84" "m2 ! 1 = 0" "8 \<le> length m4" "length m4 \<le> 76" "8 \<le> length c3" "8 \<le> length c5" "s4 = step4_of v" "length (pairing_password v) = 8"
    using service_pairing_run [where shared_secret = "ph_shared_secret h" and now = "ph_now h", OF j ok w keys, unfolded at0, OF secret off drbg link]
    by (elim exE conjE) (rule that)
  have ne: "c3 \<noteq> []" "c5 \<noteq> []" using at(5,6) by auto
  have m4: "m4 \<noteq> []" using at(3) by auto
  have small: "length p1 \<le> 254" "length c3 \<le> 254" "length c5 \<le> 254" "length m2 \<le> 254" "length m4 \<le> 254" using p1(2) c3(2) c5(2) at by auto
  have m2: "m2 ! 1 \<noteq> 0xff" using at(2) by simp
  have s4: "PairingStep4_has_success s4" "PairingStep4_success s4" "PairingStep4_password s4 = Some (pairing_password v)"
    "PairingStep4_password_size s4 = length (pairing_password v)" using at(7,8) by (simp_all add: step4_of_def)
  have k16: "length (server_pairing_admin_key v) = 16" using key(2) secret(3) by simp
  show ?thesis
  proof (rule exI [of _ m2], rule exI [of _ m4], rule exI [of _ v], intro conjI allI impI)
    fix t :: pairing_task and ds2 ds4 assume "pt_keys t = k0 \<and> notified m2 ds2 \<and> notified m4 ds4 \<and> notifications t = ds2 @ ds4"
    then have t: "pt_keys t = k0" "notified m2 ds2" "notified m4 ds4" "notifications t = ds2 @ ds4" by simp_all
    have b: "PairingConnection_beginConnection (ph_make_key h) (ph_rand h) (ph_time h) (pt_keys t) = (True, s0)" by (simp add: t(1) b)
    note pass = host b p1(1) small(1) c3(1) ne(1) small(2)
    show "?outcome m2 m4 v t"
    proof (cases "m4 ! 1 = 0xff")
      case True
      have "run_rows (pairing_action h) pairing_fsm_table t = Fault OutOfFuel"
        by (rule pairing_rows_stuck [OF pass t(2) m2 small(4) t(3) True small(5) m4 t(4)])
      then show ?thesis using True pairing_pass_fault [OF task] by simp
    next
      case False
      have n: "notifications t = ds2 @ ds4 @ []" by (simp add: t(4))
      obtain t' ps1 ps3 ps5 ad where t': "run_rows (pairing_action h) pairing_fsm_table t = Ok (0, t')"
        "pt_sent t' = pt_sent t @ ps1 @ ps3 @ ps5" and cut: "cut_frame p1 ps1" "cut_frame c3 ps3" "cut_frame c5 ps5"
        and ends: "ph_ends h \<longrightarrow> \<not> pc_linked (pt_conn t')" "pr_password (pairing_result (pt_conn t')) = Some (pairing_password v)"
        "pt_returned t' = Some \<lparr>front_addr = ad, front_successed = True, front_has_key = True, front_key = Some (server_pairing_admin_key v)\<rparr>"
        using pairing_rows_run [OF pass r4 s4 c5(1) ne(2) small(3) key(1) k16 t(2) m2 small(4) t(3) False small(5) n] by blast
      obtain q' where "FSMHandle (pairing_task_action h) a q t = Ok (0, q', t')" using pairing_pass [OF task t'(1)] by blast
      moreover have "packets_of p1 ps1 \<and> packets_of c3 ps3 \<and> packets_of c5 ps5" using cut small by (simp add: cut_frame_packets)
      with run obtain w1 w2 w3 d where
        "write_packets e1 ps1 (pairing_fsm junk_item PAIRING_BEGIN) w0 = Ok (pairing_fsm junk_item PAIRING_STEP2, w1)"
        "write_packets e3 ps3 (pairing_fsm junk_item PAIRING_STEP2) w1 = Ok (pairing_fsm junk_item PAIRING_STEP4, w2)"
        "write_packets e5 ps5 (pairing_fsm junk_item PAIRING_STEP4) w2 = Ok (pairing_fsm junk_item SET_WIFI_BEGIN, w3)"
        "values_sent w3 = values_sent w0 @ [word_of_nat (length m2) # m2, word_of_nat (length m4) # m4]"
        "handed w3 = handed w0 @ [d]" "decodeCrypt d Crypt_zero 0 = Ok (0, server_crypt v)" by blast
      ultimately show ?thesis
        unfolding if_not_P [OF False] using t'(2) ends by (intro exI conjI) assumption+
    qed
  qed (use at key m4 in simp_all)
qed

section \<open>A task to try\<close>

definition example_phone_lock :: lock_object where
  "example_phone_lock =
     \<lparr>l_addr = replicate MAX_DEVICE_ADDR 65, l_addr_len = 17, l_name = replicate MAX_DEVICE_NAME 0, l_name_len = 0,
      l_paired = 0, l_admin_connection = 0, l_guest_connection = 0, l_has_key = 0, l_key = None, l_key_len = 0,
      l_has_token = 0, l_token = None, l_token_len = 0, l_has_password = 0, l_password = None, l_password_size = 0,
      l_has_lock_cmd = 0, l_lock_cmd = None, l_lock_cmd_size = 0, l_connectionID = 0\<rparr>"

definition example_phone :: "bytes \<Rightarrow> pairing_host" where
  "example_phone pub =
     \<lparr>ph_lock = example_phone_lock, ph_connects = True, ph_notifies = True, ph_ends = True, ph_gatt = (\<lambda>sent p. 0),
      ph_make_key = Some (pub, replicate 32 3), ph_shared_secret = (\<lambda>p q. Some (replicate 32 5)), ph_rand = (\<lambda>t i. i),
      ph_time = 0, ph_now = 7, ph_junk = (\<lambda>i. 9)\<rparr>"

definition example_pairing_task :: "bytes list \<Rightarrow> pairing_task" where
  "example_pairing_task ds =
     \<lparr>pt_conn = \<lparr>pc_linked = False, pairing_step = BLE_PAIRING_BEGIN, pc_buffer = step_buffer_empty, has_pairing_result = False,
                 pairing_result = bleInitPairingResult\<rparr>,
      pt_keys = pairing_init, pt_returned = None, pt_sent = [], notifications = ds\<rparr>"

definition example_pairing_node :: task_node where
  "example_pairing_node = example_junk\<lparr>t_cur_state := 0, t_task_sm_table := Some pairing_fsm_table, t_sm_table_len := 6\<rparr>"

definition example_pairing_queue :: queues where
  "example_pairing_queue = empty_queues\<lparr>q_tasks := [3 \<mapsto> example_pairing_node]\<rparr>"

lemmas example_task_defs = example_phone_lock_def example_phone_def example_pairing_task_def example_pairing_node_def example_pairing_queue_def

lemma one_notification: "2 \<le> length m \<Longrightarrow> notified m [word_of_nat (length m) # m]"
  by (simp add: notified_def)

end
