(* ===== verification/Wifi_Settings.thy ===== *)
theory Wifi_Settings
  imports Wifi_Service
begin

text \<open>
  The settings process of the WiFi service, \<open>wifi_service/wifi_server.c\<close>.  Its characteristic collects a message with the
  receiver of \<open>pairing.c\<close> and runs \<open>handleSetWifiRequest\<close>, which decodes name and password of a network and hands them to
  \<open>nmcli\<close> through \<open>system\<close>; then the process ends.  Beside it a thread takes the record of key and nonces from the pairing
  process.  The commands given to \<open>system\<close> are the list \<open>commands\<close>; what they do is outside, as are BlueZ and the sockets.

  The strings of the request are blocks without a final zero byte, and the code prints them with \<open>%s\<close>: unless a block holds a
  zero byte of its own, this reads behind it.
\<close>

section \<open>The request\<close>

record settings =
  set_recv :: "RecvData option"
  set_event :: u8
  commands :: "bytes list"
  exited :: bool

abbreviation (input) C_WRITE_WIFI_REQUEST :: u8 where "C_WRITE_WIFI_REQUEST \<equiv> 8"
abbreviation (input) S_REPLY_WIFI_RESPONSE :: u8 where "S_REPLY_WIFI_RESPONSE \<equiv> 9"
abbreviation (input) SET_WIFI_REQUEST :: u8 where "SET_WIFI_REQUEST \<equiv> 9"
abbreviation (input) SET_WIFI_COMPLETE :: u8 where "SET_WIFI_COMPLETE \<equiv> 10"

definition ascii :: "string \<Rightarrow> bytes" where
  "ascii = map of_char"

definition run_command :: "bytes \<Rightarrow> settings \<Rightarrow> settings" where
  "run_command c w = w\<lparr>commands := commands w @ [c]\<rparr>"

definition leds :: "string \<Rightarrow> bytes list" where
  "leds g = map ascii
     [''echo none > /sys/class/leds/r/trigger'', ''echo none > /sys/class/leds/g/trigger'',
      ''echo none > /sys/class/leds/b/trigger'', ''echo '' @ g @ '' > /sys/class/leds/g/trigger'']"

text \<open>A string read with \<open>%s\<close>, from a pointer that may never have been set.\<close>
definition read_text :: "block_ptr \<Rightarrow> bytes res" where
  "read_text p = (case p of None \<Rightarrow> Fault Uninitialised
     | Some b \<Rightarrow> if 0 \<in> set b then Ok (takeWhile (\<lambda>c. c \<noteq> 0) b) else Fault OutOfBounds)"

text \<open>\<open>snprintf(to, n + 1, "%s", p)\<close> into an array of 256 bytes; without the flag it stays empty.\<close>
definition copy_text :: "bool \<Rightarrow> block_ptr \<Rightarrow> nat \<Rightarrow> bytes res" where
  "copy_text has p n =
     (if \<not> has then Ok []
      else bindR (read_text p) (\<lambda>s. if length (take n s) + 1 \<le> 256 then Ok (take n s) else Fault OutOfBounds))"

text \<open>The command, cut to the 1023 bytes the array has room for.\<close>
definition nmcli_command :: "bytes \<Rightarrow> bytes \<Rightarrow> bytes" where
  "nmcli_command ssid passwd =
     take 1023 (ascii ''nmcli dev wifi connect '' @ [34] @ ssid @ [34] @ ascii '' password '' @ [34] @ passwd @ [34] @ ascii '' ifname wlan0'')"

text \<open>The message of the receiver; \<open>None\<close> stands for the early returns with 1.\<close>
definition request_message :: "settings \<Rightarrow> bytes option res" where
  "request_message w =
     (if set_recv w = None then Ok None
      else case getRecvPkgLen (set_recv w) True of
        (err, n) \<Rightarrow>
          if err \<noteq> 0 then Ok None
          else
            let len = (case n of Some n \<Rightarrow> unat n | None \<Rightarrow> 0) in
            bindR (getPkgFromRecvData (set_recv w) (Some (replicate len 0))) (\<lambda>(err, p).
              Ok (if err \<noteq> 0 then None else p)))"

text \<open>The bytes are taken as they are (the call of \<open>decryptData\<close> is commented out).  The local \<open>request\<close> is not initialised:
  a member that is not in the message has never been set.  The object all zero stands for it: reading a pointer of it is
  \<open>Fault Uninitialised\<close>, and a flag never set counts as clear, since with the flag set by chance the copy would need the
  pointer the log line has read before.  \<open>exit(0)\<close> does not return: the flag \<open>exited\<close> marks the state the process ends in,
  and number and machine handed on beside a set flag mean nothing.\<close>
definition handleSetWifiRequest :: "(nat \<Rightarrow> u8) \<Rightarrow> settings \<Rightarrow> (int \<times> settings) res" where
  "handleSetWifiRequest junk w =
     bindR (request_message w) (\<lambda>m. case m of
       None \<Rightarrow> Ok (1, w)
     | Some decrypted_data \<Rightarrow>
       if 70000 < length decrypted_data then Fault OutOfBounds
       else
         let w = w\<lparr>commands := commands w @ leds ''timer''\<rparr> in
         bindR (decodeWifiInfoRequest junk decrypted_data Wifi_zero 0) (\<lambda>(decode_res, request).
         if decode_res \<noteq> 0 then Ok (1, w)
         else
           bindR (read_text (Wifi_ssid request)) (\<lambda>_.
           bindR (read_text (Wifi_password request)) (\<lambda>_.
           bindR (read_text (Wifi_token request)) (\<lambda>_.
           bindR (copy_text (Wifi_has_ssid request) (Wifi_ssid request) (Wifi_ssid_len request)) (\<lambda>ssid.
           bindR (copy_text (Wifi_has_password request) (Wifi_password request) (Wifi_password_len request)) (\<lambda>passwd.
           let w = run_command (nmcli_command ssid passwd) w;
               w = w\<lparr>commands := commands w @ leds ''default-on''\<rparr>
           in Ok (0, w\<lparr>exited := True\<rparr>))))))))"

definition handleReplyWifiResponse :: "settings \<Rightarrow> (int \<times> settings) res" where
  "handleReplyWifiResponse w = Ok (0, w)"

section \<open>The machine\<close>

definition settings_act :: "(nat \<Rightarrow> u8) \<Rightarrow> settings fsm_action" where
  "settings_act junk k fsm w =
     bindR (if k = 1 then handleSetWifiRequest junk w else handleReplyWifiResponse w) (\<lambda>(ret, w). Ok (ret, fsm, w))"

definition settings_items :: "FSMTransform list" where
  "settings_items =
     [\<lparr>ft_event = C_WRITE_WIFI_REQUEST, ft_cur_state = SET_WIFI_BEGIN, event_act_func = Some 1, ft_next_state = SET_WIFI_REQUEST\<rparr>,
      \<lparr>ft_event = S_REPLY_WIFI_RESPONSE, ft_cur_state = SET_WIFI_REQUEST, event_act_func = Some 2, ft_next_state = SET_WIFI_COMPLETE\<rparr>]"

definition initWifiRequestFsm :: "FSMTransform \<Rightarrow> FSM \<Rightarrow> FSM res" where
  "initWifiRequestFsm junk_item fsm =
     (case getFSMTransTable 10 (Some fsm) of
        (0, Some fsm) \<Rightarrow>
          bindR (fill_items settings_items fsm) (\<lambda>fsm.
            case initFSMCurState SET_WIFI_BEGIN (Some (settle junk_item fsm)) of
              (_, Some fsm) \<Rightarrow> Ok fsm
            | (_, None) \<Rightarrow> Ok fsm)
      | _ \<Rightarrow> Ok fsm)"

definition decideWifiEvent :: "FSM \<Rightarrow> settings \<Rightarrow> settings" where
  "decideWifiEvent fsm w = (if fsm_cur_state fsm = SET_WIFI_BEGIN then w\<lparr>set_event := C_WRITE_WIFI_REQUEST\<rparr> else w)"

definition handleWifiClientEvent :: "(nat \<Rightarrow> u8) \<Rightarrow> FSM \<Rightarrow> settings \<Rightarrow> (FSM \<times> settings) res" where
  "handleWifiClientEvent junk fsm w =
     (if set_event w = C_WRITE_WIFI_REQUEST
      then bindR (handleEvent (settings_act junk) (set_event w) fsm w) (\<lambda>(handle_res, fsm, w). Ok (fsm, w))
      else Ok (fsm, w))"

definition wifi_chr_write_value :: "(nat \<Rightarrow> u8) \<Rightarrow> bytes \<Rightarrow> FSM \<Rightarrow> settings \<Rightarrow> (FSM \<times> settings) res" where
  "wifi_chr_write_value junk v fsm w =
     (if v = [] then Ok (fsm, w)
      else
        bindR (recvData junk (set_recv w) v (word_of_nat (length v))) (\<lambda>p.
        let w = w\<lparr>set_recv := p\<rparr> in
        case p of
          None \<Rightarrow> Fault OutOfBounds
        | Some r \<Rightarrow>
            if isRecvFullPkg r then handleWifiClientEvent junk fsm (decideWifiEvent fsm w) else Ok (fsm, w)))"

text \<open>The packets of a client.  After \<open>exit\<close> there is no process left to take them: the theorems below stop there.\<close>
fun write_settings :: "(nat \<Rightarrow> u8) \<Rightarrow> bytes list \<Rightarrow> FSM \<Rightarrow> settings \<Rightarrow> (FSM \<times> settings) res" where
  "write_settings junk [] fsm w = Ok (fsm, w)"
| "write_settings junk (v # vs) fsm w = bindR (wifi_chr_write_value junk v fsm w) (\<lambda>(fsm, w). write_settings junk vs fsm w)"

interpretation settings_reader: packet_reader junk set_recv "\<lambda>r w. w\<lparr>set_recv := Some r\<rparr>"
    "\<lambda>fsm w. handleWifiClientEvent junk fsm (decideWifiEvent fsm w)" "wifi_chr_write_value junk" "write_settings junk" for junk
  by unfold_locales (simp_all add: wifi_chr_write_value_def Let_def)

section \<open>The record from the pairing process\<close>

record crypt_thread =
  crypt_locked :: bool
  seted_wifi_crypt :: bool
  thread_crypt :: Crypt

text \<open>One chunk of data from a client of the socket.  The lock is not released when the record does not decode; taking it
  again then waits for ever, which is \<open>OutOfFuel\<close>.  A chunk that fills the buffer of 1024 bytes is dropped.\<close>
definition take_crypt :: "bytes \<Rightarrow> crypt_thread \<Rightarrow> crypt_thread res" where
  "take_crypt buf t =
     (if 1024 \<le> length buf then Ok t
      else if crypt_locked t then Fault OutOfFuel
      else
        let t = t\<lparr>crypt_locked := True\<rparr> in
        bindR (decodeCrypt buf (thread_crypt t) 0) (\<lambda>(err, c).
        let t = t\<lparr>thread_crypt := c\<rparr> in
        if err \<noteq> 0 then Ok t
        else Ok (t\<lparr>seted_wifi_crypt := True, crypt_locked := False\<rparr>)))"

text \<open>An action that no item of the machine names.\<close>
definition handlePairingCrypt :: "crypt_thread \<Rightarrow> int" where
  "handlePairingCrypt t = (if \<not> seted_wifi_crypt t then 1 else 0)"

section \<open>What a client can do\<close>

definition settings_fsm :: "FSMTransform \<Rightarrow> u8 \<Rightarrow> FSM" where
  "settings_fsm junk_item st =
     \<lparr>fsm_trans_table = Some (replicate 8 (Some junk_item) @ map Some settings_items), fsm_cur_state = st, max_state_num = 10\<rparr>"

lemma initWifiRequestFsm_builds: "initWifiRequestFsm junk_item fsm_empty = Ok (settings_fsm junk_item SET_WIFI_BEGIN)"
  by (simp add: initWifiRequestFsm_def fsm_empty_def getFSMTransTable_def settings_items_def fillFSMTransItem_def
      settle_def initFSMCurState_def settings_fsm_def) (simp add: eval_nat_numeral)

lemma find_item_skip:
  "i + k \<le> n \<Longrightarrow> length us = i \<Longrightarrow> ev \<noteq> ft_event item \<Longrightarrow>
   find_item i ev cur n (Some (us @ replicate k (Some item) @ ts)) = find_item (i + k) ev cur n (Some (us @ replicate k (Some item) @ ts))"
proof (induction k arbitrary: i us)
  case (Suc k)
  have "find_item i ev cur n (Some (us @ replicate (Suc k) (Some item) @ ts)) =
    find_item (i + 1) ev cur n (Some ((us @ [Some item]) @ replicate k (Some item) @ ts))"
    using Suc.prems by (subst find_item.simps) (simp add: nth_append)
  then show ?case using Suc.IH [of "i + 1" "us @ [Some item]"] Suc.prems by simp
qed simp

lemma request_event:
  assumes "ft_event junk_item \<noteq> C_WRITE_WIFI_REQUEST"
  shows "handleEvent act C_WRITE_WIFI_REQUEST (settings_fsm junk_item SET_WIFI_BEGIN) w =
    bindR (act 1 (settings_fsm junk_item SET_WIFI_BEGIN) w) (\<lambda>(ret, f, w'). Ok (ret, if ret = 0 then transState SET_WIFI_REQUEST f else f, w'))"
proof -
  let ?t = "replicate 8 (Some junk_item) @ map Some settings_items"
  have "find_item 0 8 8 10 (Some ?t) = find_item 8 8 8 10 (Some ?t)"
    using find_item_skip [of 0 8 10 "[]" 8 junk_item 8 "map Some settings_items"] assms by simp
  also have "\<dots> = Ok (Some \<lparr>ft_event = 8, ft_cur_state = 8, event_act_func = Some 1, ft_next_state = 9\<rparr>)"
    by (subst find_item.simps) (simp add: settings_items_def nth_append)
  finally show ?thesis by (simp add: handleEvent_def settings_fsm_def ERROR_EVENT_def cong: if_cong)
qed

lemma request_holds:
  assumes "holds_message m r" "set_recv w = Some r"
  shows "request_message w = Ok (Some m)"
proof -
  have m: "length m < 2 ^ 16" and r: "holds_front (length (frame_head (length m))) (wifi_frame m) (length (wifi_frame m)) r"
    using assms(1) by (simp_all add: holds_message_def)
  have "unat (word_of_nat (length m) :: u64) = length m" using m by (simp add: unat_of_nat take_bit_nat_eq_self)
  then show ?thesis using collected_message [OF m r] assms(2) by (simp add: request_message_def)
qed

lemma request_small: "holds_message m r \<Longrightarrow> \<not> 70000 < length m"
  by (simp add: holds_message_def)

lemma full_request:
  assumes j: "ft_event junk_item \<noteq> C_WRITE_WIFI_REQUEST"
  shows "handleWifiClientEvent junk (settings_fsm junk_item SET_WIFI_BEGIN) (decideWifiEvent (settings_fsm junk_item SET_WIFI_BEGIN) w) =
    bindR (handleSetWifiRequest junk (w\<lparr>set_event := C_WRITE_WIFI_REQUEST\<rparr>)) (\<lambda>(ret, w').
      Ok (settings_fsm junk_item (if ret = 0 then SET_WIFI_REQUEST else SET_WIFI_BEGIN), w'))"
proof -
  have "fsm_cur_state (settings_fsm junk_item SET_WIFI_BEGIN) = SET_WIFI_BEGIN"
    "transState SET_WIFI_REQUEST (settings_fsm junk_item SET_WIFI_BEGIN) = settings_fsm junk_item SET_WIFI_REQUEST"
    by (simp_all add: settings_fsm_def transState_def)
  then show ?thesis
    by (simp add: decideWifiEvent_def handleWifiClientEvent_def request_event [OF j] settings_act_def bindR_assoc split_def
        if_distrib [of "settings_fsm junk_item"] cong: if_cong)
qed

text \<open>What the packets of a request come to.\<close>
lemma request_read:
  assumes j: "ft_event junk_item \<noteq> C_WRITE_WIFI_REQUEST" and ds: "packets_of m ds" and w: "set_recv w = Some recv_empty"
  obtains r where "holds_message m r" "write_settings junk ds (settings_fsm junk_item SET_WIFI_BEGIN) w =
      bindR (handleSetWifiRequest junk (w\<lparr>set_recv := Some r, set_event := C_WRITE_WIFI_REQUEST\<rparr>)) (\<lambda>(ret, w').
        Ok (settings_fsm junk_item (if ret = 0 then SET_WIFI_REQUEST else SET_WIFI_BEGIN), w'))"
  using settings_reader.message_arrives [OF ds w, of junk "settings_fsm junk_item SET_WIFI_BEGIN"] unfolding full_request [OF j] by blast

text \<open>The strings of a request the code can read: no shorter than a pointer, with a zero byte, and short enough for its arrays.\<close>
definition readable :: "bytes \<Rightarrow> bytes \<Rightarrow> bytes \<Rightarrow> bool" where
  "readable ssid password token \<longleftrightarrow>
     8 \<le> length ssid \<and> 8 \<le> length password \<and> 8 \<le> length token \<and> 0 \<in> set ssid \<and> 0 \<in> set password \<and> 0 \<in> set token \<and>
     length (takeWhile (\<lambda>c. c \<noteq> 0) ssid) \<le> 255 \<and> length (takeWhile (\<lambda>c. c \<noteq> 0) password) \<le> 255"

text \<open>Anybody who can write to the characteristic has a command run with the name and the password as they are; any other
  request of the right form makes the code leave its blocks.\<close>
lemma request_outcome:
  assumes j: "ft_event junk_item \<noteq> C_WRITE_WIFI_REQUEST" and ds: "packets_of (wifi_message ssid password token) ds"
    and w: "set_recv w = Some recv_empty"
    and small: "length ssid < 2 ^ 64" "length password < 2 ^ 64" "length token < 2 ^ 64"
  shows "if readable ssid password token
    then \<exists>w'. write_settings junk ds (settings_fsm junk_item SET_WIFI_BEGIN) w = Ok (settings_fsm junk_item SET_WIFI_REQUEST, w') \<and>
      commands w' = commands w @ leds ''timer'' @ [nmcli_command (takeWhile (\<lambda>c. c \<noteq> 0) ssid) (takeWhile (\<lambda>c. c \<noteq> 0) password)] @
        leds ''default-on'' \<and> exited w'
    else write_settings junk ds (settings_fsm junk_item SET_WIFI_BEGIN) w = Fault OutOfBounds"
proof -
  obtain r where r: "holds_message (wifi_message ssid password token) r" "write_settings junk ds (settings_fsm junk_item SET_WIFI_BEGIN) w =
      bindR (handleSetWifiRequest junk (w\<lparr>set_recv := Some r, set_event := C_WRITE_WIFI_REQUEST\<rparr>)) (\<lambda>(ret, w').
        Ok (settings_fsm junk_item (if ret = 0 then SET_WIFI_REQUEST else SET_WIFI_BEGIN), w'))"
    by (rule request_read [OF j ds w])
  note m = request_holds [OF r(1)] request_small [OF r(1)]
  note d = decode_wifi_message [OF small, of junk Wifi_zero 0]
  show ?thesis
  proof (cases "8 \<le> length ssid \<and> 8 \<le> length password \<and> 8 \<le> length token")
    case False
    then have "decodeWifiInfoRequest junk (wifi_message ssid password token) Wifi_zero 0 = Fault OutOfBounds"
      using d by simp
    then have "handleSetWifiRequest junk (w\<lparr>set_recv := Some r, set_event := C_WRITE_WIFI_REQUEST\<rparr>) = Fault OutOfBounds"
      using m by (simp add: handleSetWifiRequest_def Let_def)
    moreover have "\<not> readable ssid password token" using False by (auto simp: readable_def)
    ultimately show ?thesis using r(2) by simp
  next
    case True
    then have d: "decodeWifiInfoRequest junk (wifi_message ssid password token) Wifi_zero 0 = Ok (0, wifi_settings ssid password token)"
      using d by simp
    have "handleSetWifiRequest junk (w\<lparr>set_recv := Some r, set_event := C_WRITE_WIFI_REQUEST\<rparr>) =
        (if readable ssid password token
         then Ok (0, w\<lparr>set_recv := Some r, set_event := C_WRITE_WIFI_REQUEST,
           commands := commands w @ leds ''timer'' @ [nmcli_command (takeWhile (\<lambda>c. c \<noteq> 0) ssid) (takeWhile (\<lambda>c. c \<noteq> 0) password)] @
             leds ''default-on'', exited := True\<rparr>)
         else Fault OutOfBounds)"
      using m d True
      by (simp add: handleSetWifiRequest_def wifi_settings_def run_command_def Let_def read_text_def copy_text_def readable_def length_takeWhile_le)
    then show ?thesis using r(2) by simp
  qed
qed

text \<open>A request that does not decode is never let go of: every later packet has it decoded once more.\<close>
lemma request_refused:
  assumes j: "ft_event junk_item \<noteq> C_WRITE_WIFI_REQUEST" and ds: "packets_of m ds" and w: "set_recv w = Some recv_empty"
    and bad: "decodeWifiInfoRequest junk m Wifi_zero 0 = Ok (e, r0)" "e \<noteq> 0"
  shows "\<exists>w1. write_settings junk ds (settings_fsm junk_item SET_WIFI_BEGIN) w = Ok (settings_fsm junk_item SET_WIFI_BEGIN, w1) \<and>
    commands w1 = commands w @ leds ''timer'' \<and> exited w1 = exited w \<and>
    (\<forall>vs. [] \<notin> set vs \<longrightarrow> write_settings junk vs (settings_fsm junk_item SET_WIFI_BEGIN) w1 =
      Ok (settings_fsm junk_item SET_WIFI_BEGIN, w1\<lparr>commands := commands w1 @ concat (map (\<lambda>_. leds ''timer'') vs)\<rparr>))"
proof -
  obtain r where r: "holds_message m r" "write_settings junk ds (settings_fsm junk_item SET_WIFI_BEGIN) w =
      bindR (handleSetWifiRequest junk (w\<lparr>set_recv := Some r, set_event := C_WRITE_WIFI_REQUEST\<rparr>)) (\<lambda>(ret, w').
        Ok (settings_fsm junk_item (if ret = 0 then SET_WIFI_REQUEST else SET_WIFI_BEGIN), w'))"
    by (rule request_read [OF j ds w])
  have again: "handleSetWifiRequest junk u = Ok (1, u\<lparr>commands := commands u @ leds ''timer''\<rparr>)" if "set_recv u = Some r" for u
    using request_holds [OF r(1) that] request_small [OF r(1)] bad by (simp add: handleSetWifiRequest_def Let_def)
  let ?w1 = "w\<lparr>set_recv := Some r, set_event := C_WRITE_WIFI_REQUEST, commands := commands w @ leds ''timer''\<rparr>"
  have full: "rd_status r = FINISHED_SUCCESS" "isRecvFullPkg r"
    using r(1) collected_message(1) [of m r] by (auto simp: holds_message_def holds_front_def)
  have stuck: "[] \<notin> set vs \<Longrightarrow> set_recv u = Some r \<Longrightarrow> set_event u = C_WRITE_WIFI_REQUEST \<Longrightarrow>
    write_settings junk vs (settings_fsm junk_item SET_WIFI_BEGIN) u =
      Ok (settings_fsm junk_item SET_WIFI_BEGIN, u\<lparr>commands := commands u @ concat (map (\<lambda>_. leds ''timer'') vs)\<rparr>)" for vs u
  proof (induction vs arbitrary: u)
    case (Cons v vs)
    have u: "u\<lparr>set_recv := Some r\<rparr> = u" "u\<lparr>set_event := C_WRITE_WIFI_REQUEST\<rparr> = u" and v: "v \<noteq> []"
      using Cons.prems by auto
    have "wifi_chr_write_value junk v (settings_fsm junk_item SET_WIFI_BEGIN) u =
        Ok (settings_fsm junk_item SET_WIFI_BEGIN, u\<lparr>commands := commands u @ leds ''timer''\<rparr>)"
      unfolding settings_reader.finished_again [OF Cons.prems(2) full u(1) v] full_request [OF j] u(2)
      by (simp add: again [OF Cons.prems(2)])
    then show ?case using Cons.IH [of "u\<lparr>commands := commands u @ leds ''timer''\<rparr>"] Cons.prems by simp
  qed simp
  show ?thesis using r(2) again stuck [of _ ?w1] by (intro exI [of _ ?w1]) simp
qed

text \<open>The thread: a good record is taken, a bad one leaves the lock taken and the next one waits for ever.\<close>
lemma take_crypt_good:
  assumes "decodeCrypt d (thread_crypt t) 0 = Ok (0, c)" "length d < 1024" "\<not> crypt_locked t"
  shows "take_crypt d t = Ok \<lparr>crypt_locked = False, seted_wifi_crypt = True, thread_crypt = c\<rparr>"
  using assms by (simp add: take_crypt_def)

lemma take_crypt_bad:
  assumes "decodeCrypt d (thread_crypt t) 0 = Ok (e, c)" "e \<noteq> 0" "length d < 1024" "\<not> crypt_locked t"
  shows "\<exists>t'. take_crypt d t = Ok t' \<and> seted_wifi_crypt t' = seted_wifi_crypt t \<and> (\<forall>d'. length d' < 1024 \<longrightarrow> take_crypt d' t' = Fault OutOfFuel)"
  using assms by (simp add: take_crypt_def)

definition example_settings :: settings where
  "example_settings = \<lparr>set_recv = Some recv_empty, set_event = 0, commands = [], exited = False\<rparr>"

end
