(* ===== verification/Base64.thy ===== *)
theory Base64
  imports Prelude
begin

text \<open>
  Base64 texts of \<open>mqtt/base64.c\<close>.  Characters are their codes; the arrays indexed by characters take
  \<open>char\<close> as the signed type it is for the compilers of the project.  The two static pointers become the
  state: the decoding table is absent, built or freed.  What a fresh block holds is the parameter
  \<open>junk\<close>, the caller's length variable is part of the result, and a call of \<open>malloc\<close> is taken to succeed.  The loop
  counters, \<open>int\<close> in the source, are natural numbers, so the definitions speak of texts below 2 GB.
\<close>

section \<open>Tables\<close>

definition encoding_table :: bytes where
  "encoding_table =
     [65, 66, 67, 68, 69, 70, 71, 72, 73, 74, 75, 76, 77, 78, 79, 80,
      81, 82, 83, 84, 85, 86, 87, 88, 89, 90, 97, 98, 99, 100, 101, 102,
      103, 104, 105, 106, 107, 108, 109, 110, 111, 112, 113, 114, 115, 116, 117, 118,
      119, 120, 121, 122, 48, 49, 50, 51, 52, 53, 54, 55, 56, 57, 43, 47]"

definition mod_table :: "nat list" where
  "mod_table = [0, 2, 1]"

abbreviation pad_char :: u8 where
  "pad_char \<equiv> 61"

datatype decoding_table = NoTable | Table bytes | Freed

text \<open>The loop from \<open>i\<close> on.\<close>
function build_table_loop :: "nat \<Rightarrow> bytes \<Rightarrow> bytes" where
  "build_table_loop i t =
     (if i < 64 then build_table_loop (i + 1) (t[unat (encoding_table ! i) := word_of_nat i]) else t)"
  by pat_completeness auto
termination by (relation "measure (\<lambda>(i, t). 64 - i)") auto

declare build_table_loop.simps [simp del]

definition build_decoding_table :: "(nat \<Rightarrow> u8) \<Rightarrow> decoding_table" where
  "build_decoding_table junk = Table (build_table_loop 0 (map junk [0..<256]))"

definition base64_cleanup :: "decoding_table \<Rightarrow> decoding_table res" where
  "base64_cleanup t = (case t of NoTable \<Rightarrow> Ok NoTable | Table b \<Rightarrow> Ok Freed | Freed \<Rightarrow> Fault OutOfBounds)"

section \<open>Encoding\<close>

definition next_octet :: "bytes \<Rightarrow> nat \<Rightarrow> u32 \<times> nat" where
  "next_octet data i = (if i < length data then (ucast (data ! i), i + 1) else (0, i))"

definition encoded_char :: "u32 \<Rightarrow> nat \<Rightarrow> u8" where
  "encoded_char triple k = encoding_table ! unat ((drop_bit (k * 6) triple) AND 0x3F)"

function encode_loop :: "bytes \<Rightarrow> nat \<Rightarrow> nat \<Rightarrow> bytes \<Rightarrow> bytes res" where
  "encode_loop data i j enc =
     (if i < length data then
        let (octet_a, i1) = next_octet data i;
            (octet_b, i2) = next_octet data i1;
            (octet_c, i3) = next_octet data i2;
            triple = push_bit 16 octet_a + push_bit 8 octet_b + octet_c in
        bindR (mem_write enc j [encoded_char triple 3, encoded_char triple 2, encoded_char triple 1, encoded_char triple 0])
          (encode_loop data i3 (j + 4))
      else Ok enc)"
  by pat_completeness auto
termination
  by (relation "measure (\<lambda>(data, i, j, enc). length data - i)") (auto simp: next_octet_def split: if_splits)

declare encode_loop.simps [simp del]

fun put_padding :: "nat \<Rightarrow> bytes \<Rightarrow> bytes res" where
  "put_padding 0 enc = Ok enc"
| "put_padding (Suc n) enc = bindR (put_padding n enc) (\<lambda>enc.
     if n + 1 \<le> length enc then mem_write enc (length enc - 1 - n) [pad_char] else Fault OutOfBounds)"

definition base64_encode :: "(nat \<Rightarrow> u8) \<Rightarrow> bytes \<Rightarrow> (nat \<times> bytes) res" where
  "base64_encode junk data = (let output_length = 4 * ((length data + 2) div 3) in
     bindR (encode_loop data 0 0 (map junk [0..<output_length])) (\<lambda>enc.
     bindR (put_padding (mod_table ! (length data mod 3)) enc) (\<lambda>enc. Ok (output_length, enc))))"

section \<open>Decoding\<close>

text \<open>A character of the text: the sign of an 8-bit code makes the index negative.\<close>
definition sextet :: "bytes \<Rightarrow> bytes \<Rightarrow> nat \<Rightarrow> u32 res" where
  "sextet table data i = bindR (mem_byte data i) (\<lambda>c.
     if c = pad_char then Ok 0
     else if sint c < 0 then Fault OutOfBounds
     else bindR (mem_byte table (nat (sint c))) (\<lambda>v. Ok (scast v)))"

definition put_if :: "nat \<Rightarrow> u8 \<Rightarrow> nat \<Rightarrow> bytes \<Rightarrow> (nat \<times> bytes) res" where
  "put_if output_length v j dec =
     (if j < output_length then bindR (mem_write dec j [v]) (\<lambda>dec. Ok (j + 1, dec)) else Ok (j, dec))"

function decode_loop :: "bytes \<Rightarrow> bytes \<Rightarrow> nat \<Rightarrow> nat \<Rightarrow> nat \<Rightarrow> bytes \<Rightarrow> bytes res" where
  "decode_loop table data output_length i j dec =
     (if i < length data then
        bindR (sextet table data i) (\<lambda>sextet_a.
        bindR (sextet table data (i + 1)) (\<lambda>sextet_b.
        bindR (sextet table data (i + 2)) (\<lambda>sextet_c.
        bindR (sextet table data (i + 3)) (\<lambda>sextet_d.
        let triple = push_bit 18 sextet_a + push_bit 12 sextet_b + push_bit 6 sextet_c + sextet_d in
        bindR (put_if output_length (ucast (drop_bit 16 triple AND 0xFF)) j dec) (\<lambda>(j, dec).
        bindR (put_if output_length (ucast (drop_bit 8 triple AND 0xFF)) j dec) (\<lambda>(j, dec).
        bindR (put_if output_length (ucast (triple AND 0xFF)) j dec) (\<lambda>(j, dec).
        decode_loop table data output_length (i + 4) j dec)))))))
      else Ok dec)"
  by pat_completeness auto
termination by (relation "measure (\<lambda>(table, data, n, i, j, dec). length data - i)") auto

declare decode_loop.simps [simp del]

text \<open>\<open>None\<close> is NULL.  A text of no characters is read in front of its first one.\<close>
definition base64_decode ::
  "(nat \<Rightarrow> u8) \<Rightarrow> (nat \<Rightarrow> u8) \<Rightarrow> decoding_table \<Rightarrow> bytes \<Rightarrow> (decoding_table \<times> (nat \<times> bytes) option) res"
where
  "base64_decode junk_table junk t data =
     (let t = (if t = NoTable then build_decoding_table junk_table else t) in
      if length data mod 4 \<noteq> 0 then Ok (t, None)
      else if data = [] then Fault OutOfBounds
      else
        let n = length data div 4 * 3;
            n = (if data ! (length data - 1) = pad_char then n - 1 else n);
            n = (if data ! (length data - 2) = pad_char then n - 1 else n) in
        (case t of
           Table table \<Rightarrow> bindR (decode_loop table data n 0 0 (map junk [0..<n])) (\<lambda>dec. Ok (t, Some (n, dec)))
         | _ \<Rightarrow> Fault OutOfBounds))"

section \<open>The text of RFC 4648\<close>

definition b64_char :: "nat \<Rightarrow> u8" where
  "b64_char v = encoding_table ! v"

text \<open>Groups of three bytes as numbers; a shorter last group is filled up with \<open>=\<close>.\<close>
fun b64 :: "bytes \<Rightarrow> bytes" where
  "b64 [] = []"
| "b64 [a] = (let n = unat a in [b64_char (n div 4), b64_char (n mod 4 * 16), pad_char, pad_char])"
| "b64 [a, b] = (let n = unat a * 256 + unat b in
     [b64_char (n div 1024), b64_char (n div 16 mod 64), b64_char (n mod 16 * 4), pad_char])"
| "b64 (a # b # c # xs) = (let n = unat a * 65536 + unat b * 256 + unat c in
     [b64_char (n div 262144), b64_char (n div 4096 mod 64), b64_char (n div 64 mod 64), b64_char (n mod 64)] @ b64 xs)"

section \<open>The tables\<close>

lemma encoding_table_facts:
  "length encoding_table = 64" "distinct encoding_table" "\<forall>c \<in> set encoding_table. c \<noteq> pad_char \<and> unat c < 128"
  by code_simp+

lemma b64_char_facts:
  assumes "v < 64"
  shows "b64_char v \<noteq> pad_char" "unat (b64_char v) < 128"
proof -
  have "b64_char v \<in> set encoding_table" using assms encoding_table_facts(1) by (simp add: b64_char_def)
  with encoding_table_facts(3) show "b64_char v \<noteq> pad_char" "unat (b64_char v) < 128" by blast+
qed

lemma b64_char_inj: "v < 64 \<Longrightarrow> w < 64 \<Longrightarrow> b64_char v = b64_char w \<longleftrightarrow> v = w"
  using encoding_table_facts by (simp add: b64_char_def nth_eq_iff_index_eq)

lemma build_table_loop_entries:
  assumes "length t = 256" "i \<le> 64" "v < 64"
  shows "length (build_table_loop i t) = 256 \<and>
    build_table_loop i t ! unat (b64_char v) = (if i \<le> v then word_of_nat v else t ! unat (b64_char v))"
  using assms(1,2)
proof (induction "64 - i" arbitrary: i t)
  case 0
  then show ?case using assms(3) by (subst (1 2) build_table_loop.simps) simp
next
  case (Suc d)
  then have i: "i < 64" by simp
  let ?t = "t[unat (b64_char i) := word_of_nat i]"
  have e: "build_table_loop i t = build_table_loop (i + 1) ?t"
    using i by (subst build_table_loop.simps) (simp add: b64_char_def)
  have ne: "i \<noteq> v \<Longrightarrow> unat (b64_char i) \<noteq> unat (b64_char v)"
    using b64_char_inj [OF i assms(3)] by (simp add: word_unat_eq_iff)
  have "unat (b64_char i) < 256" using b64_char_facts(2) [OF i] by simp
  moreover have "length (build_table_loop (i + 1) ?t) = 256 \<and>
    build_table_loop (i + 1) ?t ! unat (b64_char v) = (if i + 1 \<le> v then word_of_nat v else ?t ! unat (b64_char v))"
    using Suc i by simp
  ultimately show ?case unfolding e using ne Suc.prems(1) by (cases "i = v") (auto simp: nth_list_update)
qed

definition built_table :: "decoding_table \<Rightarrow> bool" where
  "built_table t \<longleftrightarrow> (\<exists>b. t = Table b \<and> length b = 256 \<and> (\<forall>v < 64. b ! unat (b64_char v) = word_of_nat v))"

lemma build_decoding_table_built: "built_table (build_decoding_table junk)"
  using build_table_loop_entries [of "map junk [0..<256]" 0 0] build_table_loop_entries [of "map junk [0..<256]" 0]
  by (simp add: built_table_def build_decoding_table_def)

section \<open>Bit fields\<close>

lemma bits_of_word:
  "unat (drop_bit n (w :: 'a::len word) AND mask k) = unat w div 2 ^ n mod 2 ^ k"
proof -
  have "unat (drop_bit n w AND mask k) = take_bit k (unat (drop_bit n w))"
    by (simp only: take_bit_eq_mask [symmetric] unsigned_take_bit_eq)
  also have "\<dots> = take_bit k (drop_bit n (unat w))" by (simp only: unat_drop_bit_eq)
  finally show ?thesis by (simp only: take_bit_eq_mod drop_bit_eq_div)
qed

lemma encoded_char_eq: "encoded_char w k = b64_char (unat w div 64 ^ k mod 64)"
proof -
  have "(0x3F :: u32) = mask 6" by (simp add: mask_eq_exp_minus_1)
  moreover have "(2 :: nat) ^ (k * 6) = 64 ^ k" by (simp add: mult.commute [of k] power_mult)
  ultimately show ?thesis using bits_of_word [of "k * 6" w 6] by (simp add: encoded_char_def b64_char_def)
qed

section \<open>Encoding writes the text\<close>

text \<open>What the loop writes before the padding: missing octets count as zero.\<close>
fun b64_raw :: "bytes \<Rightarrow> bytes" where
  "b64_raw [] = []"
| "b64_raw [a] = (let n = unat a * 65536 in
     [b64_char (n div 262144), b64_char (n div 4096 mod 64), b64_char (n div 64 mod 64), b64_char (n mod 64)])"
| "b64_raw [a, b] = (let n = unat a * 65536 + unat b * 256 in
     [b64_char (n div 262144), b64_char (n div 4096 mod 64), b64_char (n div 64 mod 64), b64_char (n mod 64)])"
| "b64_raw (a # b # c # xs) = (let n = unat a * 65536 + unat b * 256 + unat c in
     [b64_char (n div 262144), b64_char (n div 4096 mod 64), b64_char (n div 64 mod 64), b64_char (n mod 64)] @ b64_raw xs)"

lemma unat_u8 [simp]: "unat (a :: u8) < 256"
  using unsigned_less [of a] by simp

lemma triple_eq:
  fixes a b c :: u8
  defines "w \<equiv> push_bit 16 (ucast a :: u32) + push_bit 8 (ucast b) + ucast c"
  shows "unat w = unat a * 65536 + unat b * 256 + unat c"
proof -
  have w: "w = word_of_nat (unat a * 65536 + unat b * 256 + unat c)"
    by (simp add: w_def push_bit_eq_mult)
  have "unat a * 65536 + unat b * 256 + unat c < 2 ^ 32"
    using unat_u8 [of a] unat_u8 [of b] unat_u8 [of c] by (simp, linarith)
  then show ?thesis unfolding w unat_of_nat by simp
qed

lemma group_chars:
  fixes a b c :: u8
  defines "w \<equiv> push_bit 16 (ucast a :: u32) + push_bit 8 (ucast b) + ucast c"
    and "n \<equiv> unat a * 65536 + unat b * 256 + unat c"
  shows "[encoded_char w 3, encoded_char w 2, encoded_char w 1, encoded_char w 0] =
    [b64_char (n div 262144), b64_char (n div 4096 mod 64), b64_char (n div 64 mod 64), b64_char (n mod 64)]"
proof -
  have "n < 64 * 262144" using unat_u8 [of a] unat_u8 [of b] unat_u8 [of c] unfolding n_def by linarith
  then have "n div 262144 < 64" by (rule less_mult_imp_div_less)
  then show ?thesis
    using triple_eq [of a b c, folded w_def n_def] by (simp add: encoded_char_eq)
qed

lemma b64_raw_length: "length (b64_raw xs) = 4 * ((length xs + 2) div 3)"
proof (induction xs rule: b64_raw.induct)
  case (4 a b c xs)
  have "(length (a # b # c # xs) + 2) div 3 = Suc ((length xs + 2) div 3)" by simp
  with 4 show ?case by (simp add: Let_def del: One_nat_def)
qed (simp_all add: Let_def)

lemma mem_write_at: "length pre = j \<Longrightarrow> length d \<le> length rest \<Longrightarrow> mem_write (pre @ rest) j d = Ok ((pre @ d) @ drop (length d) rest)"
  by (simp add: mem_write_def)

lemma encode_loop_end [simp]: "length data \<le> i \<Longrightarrow> encode_loop data i j enc = Ok enc"
  by (subst encode_loop.simps) simp

definition char_group :: "u8 \<Rightarrow> u8 \<Rightarrow> u8 \<Rightarrow> bytes" where
  "char_group a b c = (let n = unat a * 65536 + unat b * 256 + unat c in
     [b64_char (n div 262144), b64_char (n div 4096 mod 64), b64_char (n div 64 mod 64), b64_char (n mod 64)])"

lemma char_group_length [simp]: "length (char_group a b c) = 4"
  by (simp add: char_group_def Let_def)

lemma b64_raw_groups:
  "b64_raw [a] = char_group a 0 0" "b64_raw [a, b] = char_group a b 0" "b64_raw (a # b # c # xs) = char_group a b c @ b64_raw xs"
  by (simp_all add: char_group_def Let_def)

lemma encode_loop_step:
  assumes i: "i < length data" and out: "length out = j" "4 \<le> length rest"
    and o: "next_octet data i = (ucast a, i1)" "next_octet data i1 = (ucast b, i2)" "next_octet data i2 = (ucast c, i3)"
  shows "encode_loop data i j (out @ rest) = encode_loop data i3 (j + 4) ((out @ char_group a b c) @ drop 4 rest)"
proof -
  let ?w = "push_bit 16 (ucast a :: u32) + push_bit 8 (ucast b) + ucast c"
  have g: "[encoded_char ?w 3, encoded_char ?w 2, encoded_char ?w 1, encoded_char ?w 0] = char_group a b c"
    using group_chars [of a b c] by (simp only: char_group_def Let_def)
  have m: "mem_write (out @ rest) j (char_group a b c) = Ok ((out @ char_group a b c) @ drop 4 rest)"
    using mem_write_at [of out j "char_group a b c" rest] out by simp
  show ?thesis
    by (subst encode_loop.simps) (simp only: i if_True o case_prod_conv Let_def g m bindR.simps)
qed

lemma encode_loop_raw:
  "length pre = i \<Longrightarrow> length out = j \<Longrightarrow> length rest = 4 * ((length xs + 2) div 3) \<Longrightarrow>
   encode_loop (pre @ xs) i j (out @ rest) = Ok (out @ b64_raw xs)"
proof (induction xs arbitrary: pre i out j rest rule: b64_raw.induct)
  case 1
  then show ?case by simp
next
  case (2 a)
  then have r: "length rest = 4" by simp
  have "next_octet (pre @ [a]) i = (ucast a, i + 1)" "next_octet (pre @ [a]) (i + 1) = (ucast (0 :: u8), i + 1)"
    using 2(1) by (simp_all add: next_octet_def nth_append)
  from encode_loop_step [OF _ 2(2) _ this this(2)] r 2(1) show ?case by (simp add: b64_raw_groups del: b64_raw.simps)
next
  case (3 a b)
  then have r: "length rest = 4" by simp
  have "next_octet (pre @ [a, b]) i = (ucast a, i + 1)" "next_octet (pre @ [a, b]) (i + 1) = (ucast b, i + 2)"
    "next_octet (pre @ [a, b]) (i + 2) = (ucast (0 :: u8), i + 2)"
    using 3(1) by (simp_all add: next_octet_def nth_append)
  from encode_loop_step [OF _ 3(2) _ this] r 3(1) show ?case by (simp add: b64_raw_groups del: b64_raw.simps)
next
  case (4 a b c xs)
  have "(length (a # b # c # xs) + 2) div 3 = Suc ((length xs + 2) div 3)" by simp
  then have r: "length rest = 4 + 4 * ((length xs + 2) div 3)" using 4(4) by simp
  have o: "next_octet (pre @ a # b # c # xs) i = (ucast a, i + 1)" "next_octet (pre @ a # b # c # xs) (i + 1) = (ucast b, i + 2)"
    "next_octet (pre @ a # b # c # xs) (i + 2) = (ucast c, i + 3)"
    using 4(2) by (simp_all add: next_octet_def nth_append numeral_eq_Suc)
  have "encode_loop (pre @ a # b # c # xs) i j (out @ rest) =
      encode_loop ((pre @ [a, b, c]) @ xs) (i + 3) (j + 4) ((out @ char_group a b c) @ drop 4 rest)"
    using encode_loop_step [OF _ 4(3) _ o] 4(2) r by simp
  also have "\<dots> = Ok ((out @ char_group a b c) @ b64_raw xs)"
    by (rule 4(1)) (use 4(2,3) r in simp_all)
  finally show ?case by (simp add: b64_raw_groups del: b64_raw.simps)
qed

text \<open>The padding overwrites the last characters.\<close>
lemma put_padding_eq:
  "n \<le> length enc \<Longrightarrow> put_padding n enc = Ok (take (length enc - n) enc @ replicate n pad_char)"
proof (induction n)
  case (Suc n)
  let ?p = "take (length enc - Suc n) enc"
  have "take (length enc - n) enc = ?p @ [enc ! (length enc - Suc n)]"
    using Suc.prems take_Suc_conv_app_nth [of "length enc - Suc n" enc] by (simp add: Suc_diff_Suc)
  then have "put_padding n enc = Ok (?p @ (enc ! (length enc - Suc n)) # replicate n pad_char)" using Suc by simp
  moreover have "length ?p = length enc - 1 - n" using Suc.prems by simp
  ultimately show ?case using Suc.prems mem_write_at [of ?p "length enc - 1 - n" "[pad_char]" "(enc ! (length enc - Suc n)) # replicate n pad_char"]
    by simp
qed simp

definition n_padding :: "bytes \<Rightarrow> nat" where
  "n_padding xs = mod_table ! (length xs mod 3)"

lemma n_padding_simps [simp]:
  "n_padding [] = 0" "n_padding [a] = 2" "n_padding [a, b] = 1" "n_padding (a # b # c # xs) = n_padding xs"
proof -
  have "length (a # b # c # xs) mod 3 = length xs mod 3" by simp
  then show "n_padding (a # b # c # xs) = n_padding xs" by (simp only: n_padding_def)
qed (simp_all add: n_padding_def mod_table_def)

lemma n_padding_bound: "n_padding xs \<le> length (b64_raw xs)"
  by (induction xs rule: b64_raw.induct) (simp_all add: Let_def)

lemma b64_padded: "take (length (b64_raw xs) - n_padding xs) (b64_raw xs) @ replicate (n_padding xs) pad_char = b64 xs"
proof (induction xs rule: b64_raw.induct)
  case (2 a)
  have "unat a * 65536 div 4096 mod 64 = unat a mod 4 * 16" using mod_mult_mult2 [of "unat a" 16 4] by (simp add: mult.commute)
  then show ?case by (simp add: Let_def numeral_2_eq_2)
next
  case (3 a b)
  let ?n = "unat a * 256 + unat b"
  have e: "unat a * 65536 + unat b * 256 = ?n * 256" by simp
  have "?n * 256 div 262144 = ?n div 1024" "?n * 256 div 4096 mod 64 = ?n div 16 mod 64"
    using div_mult_mult2 [of 256 ?n 1024] div_mult_mult2 [of 256 ?n 16] by simp_all
  moreover have "?n * 256 div 64 mod 64 = ?n mod 16 * 4"
    using div_mult_mult2 [of 64 "?n * 4" 1] mod_mult_mult2 [of ?n 4 16] by (simp add: algebra_simps)
  ultimately show ?case by (simp only: b64_raw.simps e Let_def) (simp add: Let_def)
next
  case (4 a b c xs)
  have e: "length (b64_raw (a # b # c # xs)) - n_padding (a # b # c # xs) = 4 + (length (b64_raw xs) - n_padding xs)"
    using n_padding_bound [of xs] by (simp add: Let_def)
  have "take (length (b64_raw (a # b # c # xs)) - n_padding (a # b # c # xs)) (b64_raw (a # b # c # xs)) =
      char_group a b c @ take (length (b64_raw xs) - n_padding xs) (b64_raw xs)"
    unfolding e unfolding b64_raw_groups(3) by simp
  then show ?case using 4 by (simp add: char_group_def Let_def)
qed simp

theorem base64_encode_eq: "base64_encode junk xs = Ok (4 * ((length xs + 2) div 3), b64 xs)"
proof -
  have "encode_loop ([] @ xs) 0 0 ([] @ map junk [0..<4 * ((length xs + 2) div 3)]) = Ok ([] @ b64_raw xs)"
    by (rule encode_loop_raw) simp_all
  then show ?thesis
    using put_padding_eq [OF n_padding_bound, of xs] b64_padded [of xs]
    by (simp add: base64_encode_def n_padding_def [symmetric] Let_def)
qed

section \<open>Decoding reads it back\<close>

lemma signed_facts:
  "list_all (\<lambda>c. sint c = int (unat c)) encoding_table"
  "list_all (\<lambda>v. scast (word_of_nat v :: u8) = (word_of_nat v :: u32)) [0..<64]"
  by code_simp+

lemma sextet_char:
  assumes "length table = 256" "\<forall>v < 64. table ! unat (b64_char v) = word_of_nat v" "i < length data" "data ! i = b64_char v" "v < 64"
  shows "sextet table data i = Ok (word_of_nat v)"
proof -
  have "sint (b64_char v) = int (unat (b64_char v))"
    using signed_facts(1) assms(5) encoding_table_facts(1) by (simp add: list_all_length b64_char_def)
  moreover have "scast (word_of_nat v :: u8) = (word_of_nat v :: u32)"
    using signed_facts(2) assms(5) by (simp add: list_all_iff)
  ultimately show ?thesis
    using assms b64_char_facts [OF assms(5)] by (simp add: sextet_def mem_byte_def)
qed

lemma sextet_pad: "i < length data \<Longrightarrow> data ! i = pad_char \<Longrightarrow> sextet table data i = Ok 0"
  by (simp add: sextet_def mem_byte_def)

lemma put_if_at:
  assumes "length out = j" "n = length out + length rest"
  shows "put_if n v j (out @ rest) = Ok (if rest = [] then (j, out) else (j + 1, (out @ [v]) @ tl rest))"
  using assms by (cases rest) (simp_all add: put_if_def mem_write_at [of out j "[v]"])

lemma sextets_value:
  assumes "v1 < 64" "v2 < 64" "v3 < 64" "v4 < 64"
  defines "w \<equiv> push_bit 18 (word_of_nat v1 :: u32) + push_bit 12 (word_of_nat v2) + push_bit 6 (word_of_nat v3) + word_of_nat v4"
  shows "unat w = v1 * 262144 + v2 * 4096 + v3 * 64 + v4"
proof -
  have w: "w = word_of_nat (v1 * 262144 + v2 * 4096 + v3 * 64 + v4)" by (simp add: w_def push_bit_eq_mult)
  have "v1 * 262144 + v2 * 4096 + v3 * 64 + v4 < 2 ^ 32" using assms(1-4) by simp
  then show ?thesis unfolding w unat_of_nat by simp
qed

lemma byte_of_word:
  "(ucast (drop_bit k (w :: u32) AND 0xFF) :: u8) = word_of_nat (unat w div 2 ^ k)"
proof -
  have "(0xFF :: u32) = mask 8" by (simp add: mask_eq_exp_minus_1)
  then have "unat (drop_bit k w AND 0xFF) = unat w div 2 ^ k mod 2 ^ 8" using bits_of_word [of k w 8] by simp
  then have "unat (ucast (drop_bit k w AND 0xFF) :: u8) = unat w div 2 ^ k mod 256"
    by (simp add: unat_ucast_take_bit take_bit_eq_mod)
  then show ?thesis by (simp add: word_unat_eq_iff unat_of_nat)
qed

definition group_bytes :: "nat \<Rightarrow> bytes" where
  "group_bytes n = [word_of_nat (n div 65536), word_of_nat (n div 256), word_of_nat n]"

lemma decode_loop_step:
  assumes s: "i < length data" "sextet table data i = Ok (word_of_nat v1)" "sextet table data (i + 1) = Ok (word_of_nat v2)"
      "sextet table data (i + 2) = Ok (word_of_nat v3)" "sextet table data (i + 3) = Ok (word_of_nat v4)"
    and v: "v1 < 64" "v2 < 64" "v3 < 64" "v4 < 64" and out: "length out = j" "n = length out + length rest"
  shows "\<exists>j'. j' = j + min 3 (length rest) \<and> decode_loop table data n i j (out @ rest) =
    decode_loop table data n (i + 4) j'
      ((out @ take (length rest) (group_bytes (v1 * 262144 + v2 * 4096 + v3 * 64 + v4))) @ drop 3 rest)"
proof -
  let ?N = "v1 * 262144 + v2 * 4096 + v3 * 64 + v4"
  let ?w = "push_bit 18 (word_of_nat v1 :: u32) + push_bit 12 (word_of_nat v2) + push_bit 6 (word_of_nat v3) + word_of_nat v4"
  have "(ucast (drop_bit 16 ?w AND 0xFF) :: u8) = word_of_nat (?N div 65536)"
    "(ucast (drop_bit 8 ?w AND 0xFF) :: u8) = word_of_nat (?N div 256)"
    "(ucast (?w AND 0xFF) :: u8) = word_of_nat ?N"
    using byte_of_word [of 16 ?w] byte_of_word [of 8 ?w] byte_of_word [of 0 ?w] sextets_value [OF v] by simp_all
  note bytes = this
  consider "rest = []" | r1 where "rest = [r1]" | r1 r2 where "rest = [r1, r2]" | r1 r2 r3 rs where "rest = r1 # r2 # r3 # rs"
    by (metis neq_Nil_conv)
  then have "bindR (put_if n (word_of_nat (?N div 65536)) j (out @ rest)) (\<lambda>(j, dec).
        bindR (put_if n (word_of_nat (?N div 256)) j dec) (\<lambda>(j, dec).
        bindR (put_if n (word_of_nat ?N) j dec) (\<lambda>(j, dec). f j dec))) =
      f (j + min 3 (length rest)) ((out @ take (length rest) (group_bytes ?N)) @ drop 3 rest)" for f :: "nat \<Rightarrow> bytes \<Rightarrow> bytes res"
    using out by cases (simp_all add: put_if_at put_if_at [where rest = "[]", simplified] group_bytes_def put_if_def mem_write_def)
  then show ?thesis
    using s(1) by (subst decode_loop.simps) (simp only: s bindR.simps if_True Let_def bytes ex_simps simp_thms)
qed

lemma decode_loop_end [simp]: "length data \<le> i \<Longrightarrow> decode_loop table data n i j dec = Ok dec"
  by (subst decode_loop.simps) simp

lemma sextet_at:
  assumes "length table = 256" "\<forall>v < 64. table ! unat (b64_char v) = word_of_nat v" "length pre = i" "k < length g"
  shows "v < 64 \<Longrightarrow> g ! k = b64_char v \<Longrightarrow> sextet table (pre @ g @ more) (i + k) = Ok (word_of_nat v)"
    "g ! k = pad_char \<Longrightarrow> sextet table (pre @ g @ more) (i + k) = Ok (word_of_nat 0)"
  using assms sextet_char [OF assms(1,2), of "i + k" "pre @ g @ more" v] sextet_pad [of "i + k" "pre @ g @ more"]
  by (simp_all add: nth_append)

lemma sextets_of:
  fixes n :: nat
  shows "n div 262144 * 262144 + n div 4096 mod 64 * 4096 + n div 64 mod 64 * 64 + n mod 64 = n"
proof -
  have e: "n div 4096 = n div 64 div 64" "n div 262144 = n div 64 div 64 div 64" by (simp_all add: div_mult2_eq [symmetric])
  have "n = n div 64 * 64 + n mod 64" "n div 64 = n div 64 div 64 * 64 + n div 64 mod 64"
    "n div 64 div 64 = n div 64 div 64 div 64 * 64 + n div 64 div 64 mod 64" by (simp_all only: div_mult_mod_eq)
  then show ?thesis unfolding e by linarith
qed

lemma u8_of_nat: "m mod 256 = unat b \<Longrightarrow> (word_of_nat m :: u8) = b"
  by (simp add: word_unat_eq_iff unat_of_nat)

lemma group_bytes_of:
  fixes a b c :: u8
  shows "group_bytes (unat a * 65536 + unat b * 256 + unat c) = [a, b, c]"
proof -
  let ?n = "unat a * 65536 + unat b * 256 + unat c"
  have c: "unat c < 256" "unat b < 256" by simp_all
  have e: "?n = unat c + 256 * (unat a * 256 + unat b)" by simp
  have d: "?n div 256 = unat a * 256 + unat b" unfolding e using c by (subst div_mult_self2) simp_all
  moreover have "?n div 65536 = unat a"
    using div_mult2_eq [of ?n 256 256] c unfolding d by simp
  moreover have "?n mod 256 = unat c mod 256" unfolding e by (rule mod_mult_self2)
  moreover have "(unat a * 256 + unat b) mod 256 = unat b" "unat a mod 256 = unat a" "unat c mod 256 = unat c"
    using c by simp_all
  ultimately have "(word_of_nat (?n div 65536) :: u8) = a" "(word_of_nat (?n div 256) :: u8) = b" "(word_of_nat ?n :: u8) = c"
    by (metis u8_of_nat)+
  then show ?thesis by (simp only: group_bytes_def)
qed

lemma decode_loop_b64:
  assumes t: "length table = 256" "\<forall>v < 64. table ! unat (b64_char v) = word_of_nat v"
  shows "length pre = i \<Longrightarrow> length out = j \<Longrightarrow> length rest = length xs \<Longrightarrow>
    decode_loop table (pre @ b64 xs) (j + length xs) i j (out @ rest) = Ok (out @ xs)"
proof (induction xs arbitrary: pre i out j rest rule: b64.induct)
  case 1
  then show ?case by simp
next
  case (2 a)
  let ?n = "unat a"
  let ?g = "[b64_char (?n div 4), b64_char (?n mod 4 * 16), pad_char, pad_char]"
  have b: "?n div 4 < 64" "?n mod 4 * 16 < 64" using unat_u8 [of a] by (simp_all add: less_mult_imp_div_less)
  have s: "sextet table (pre @ ?g @ []) i = Ok (word_of_nat (?n div 4))"
    "sextet table (pre @ ?g @ []) (i + 1) = Ok (word_of_nat (?n mod 4 * 16))"
    "sextet table (pre @ ?g @ []) (i + 2) = Ok (word_of_nat 0)" "sextet table (pre @ ?g @ []) (i + 3) = Ok (word_of_nat 0)"
    using sextet_at(1) [OF t 2(1), of 0 ?g "?n div 4" "[]"] sextet_at(1) [OF t 2(1), of 1 ?g "?n mod 4 * 16" "[]"]
      sextet_at(2) [OF t 2(1), of 2 ?g "[]"] sextet_at(2) [OF t 2(1), of 3 ?g "[]"] b by simp_all
  have N: "?n div 4 * 262144 + ?n mod 4 * 16 * 4096 + 0 * 64 + 0 = unat a * 65536 + unat (0 :: u8) * 256 + unat (0 :: u8)"
    using div_mult_mod_eq [of ?n 4] unfolding unat_0 by linarith
  obtain j' where "decode_loop table (pre @ ?g @ []) (j + 1) i j (out @ rest) =
      decode_loop table (pre @ ?g @ []) (j + 1) (i + 4) j' ((out @ take (length rest) [a, 0, 0]) @ drop 3 rest)"
    using decode_loop_step [OF _ s b _ _ 2(2), of "j + 1" rest] 2(1-3) unfolding N group_bytes_of by auto
  then show ?case using 2(1,3) by (simp add: Let_def)
next
  case (3 a b)
  let ?n = "unat a * 256 + unat b"
  let ?g = "[b64_char (?n div 1024), b64_char (?n div 16 mod 64), b64_char (?n mod 16 * 4), pad_char]"
  have "?n < 64 * 1024" using unat_u8 [of a] unat_u8 [of b] by linarith
  then have b: "?n div 1024 < 64" "?n div 16 mod 64 < 64" "?n mod 16 * 4 < 64" by (simp_all add: less_mult_imp_div_less)
  have s: "sextet table (pre @ ?g @ []) i = Ok (word_of_nat (?n div 1024))"
    "sextet table (pre @ ?g @ []) (i + 1) = Ok (word_of_nat (?n div 16 mod 64))"
    "sextet table (pre @ ?g @ []) (i + 2) = Ok (word_of_nat (?n mod 16 * 4))" "sextet table (pre @ ?g @ []) (i + 3) = Ok (word_of_nat 0)"
    using sextet_at(1) [OF t 3(1), of 0 ?g "?n div 1024" "[]"] sextet_at(1) [OF t 3(1), of 1 ?g "?n div 16 mod 64" "[]"]
      sextet_at(1) [OF t 3(1), of 2 ?g "?n mod 16 * 4" "[]"] sextet_at(2) [OF t 3(1), of 3 ?g "[]"] b by simp_all
  have N: "?n div 1024 * 262144 + ?n div 16 mod 64 * 4096 + ?n mod 16 * 4 * 64 + 0 = unat a * 65536 + unat b * 256 + unat (0 :: u8)"
  proof -
    have "?n = ?n div 16 * 16 + ?n mod 16" "?n div 16 = ?n div 16 div 64 * 64 + ?n div 16 mod 64" by (simp_all only: div_mult_mod_eq)
    moreover have "?n div 16 div 64 = ?n div 1024" by (simp only: div_mult2_eq [symmetric]) simp
    ultimately have "?n div 1024 * 64 + ?n div 16 mod 64 = ?n div 16" "?n div 16 * 16 + ?n mod 16 = ?n" by linarith+
    then show ?thesis unfolding unat_0 by linarith
  qed
  obtain j' where "decode_loop table (pre @ ?g @ []) (j + 2) i j (out @ rest) =
      decode_loop table (pre @ ?g @ []) (j + 2) (i + 4) j' ((out @ take (length rest) [a, b, 0]) @ drop 3 rest)"
    using decode_loop_step [OF _ s b _ 3(2), of "j + 2" rest] 3(1-3) unfolding N group_bytes_of by auto
  then show ?case using 3(1,3) by (simp add: Let_def numeral_2_eq_2)
next
  case (4 a b c xs)
  let ?n = "unat a * 65536 + unat b * 256 + unat c"
  let ?g = "[b64_char (?n div 262144), b64_char (?n div 4096 mod 64), b64_char (?n div 64 mod 64), b64_char (?n mod 64)]"
  have "?n < 64 * 262144" using unat_u8 [of a] unat_u8 [of b] unat_u8 [of c] by linarith
  then have b: "?n div 262144 < 64" "?n div 4096 mod 64 < 64" "?n div 64 mod 64 < 64" "?n mod 64 < 64"
    by (simp_all add: less_mult_imp_div_less)
  have s: "sextet table (pre @ ?g @ b64 xs) i = Ok (word_of_nat (?n div 262144))"
    "sextet table (pre @ ?g @ b64 xs) (i + 1) = Ok (word_of_nat (?n div 4096 mod 64))"
    "sextet table (pre @ ?g @ b64 xs) (i + 2) = Ok (word_of_nat (?n div 64 mod 64))"
    "sextet table (pre @ ?g @ b64 xs) (i + 3) = Ok (word_of_nat (?n mod 64))"
    using sextet_at(1) [OF t 4(2), of 0 ?g _ "b64 xs"] sextet_at(1) [OF t 4(2), of 1 ?g _ "b64 xs"]
      sextet_at(1) [OF t 4(2), of 2 ?g _ "b64 xs"] sextet_at(1) [OF t 4(2), of 3 ?g _ "b64 xs"] b by simp_all
  have r: "take (length rest) [a, b, c] = [a, b, c]" using 4(4) by simp
  have "decode_loop table (pre @ ?g @ b64 xs) (j + length (a # b # c # xs)) i j (out @ rest) =
      decode_loop table (pre @ ?g @ b64 xs) (j + length (a # b # c # xs)) (i + 4) (j + 3) ((out @ [a, b, c]) @ drop 3 rest)"
    using decode_loop_step [OF _ s b 4(3), of "j + length (a # b # c # xs)" rest] 4(2-4)
    unfolding sextets_of group_bytes_of r by (auto simp: numeral_3_eq_3)
  moreover have "decode_loop table ((pre @ ?g) @ b64 xs) ((j + 3) + length xs) (i + 4) (j + 3) ((out @ [a, b, c]) @ drop 3 rest) =
      Ok ((out @ [a, b, c]) @ xs)"
    by (rule 4(1)) (use 4(2-4) in simp_all)
  moreover have "(j + 3) + length xs = j + length (a # b # c # xs)" by simp
  ultimately show ?case by (simp add: Let_def del: list.size(4))
qed

lemma char_group_chars: "\<forall>c \<in> set (char_group x y z). c \<noteq> pad_char"
proof -
  let ?n = "unat x * 65536 + unat y * 256 + unat z"
  have "?n < 64 * 262144" using unat_u8 [of x] unat_u8 [of y] unat_u8 [of z] by linarith
  then have "?n div 262144 < 64" by (rule less_mult_imp_div_less)
  then show ?thesis using b64_char_facts(1) by (simp add: char_group_def Let_def)
qed

lemma b64_raw_chars: "\<forall>c \<in> set (b64_raw xs). c \<noteq> pad_char"
proof (induction xs rule: b64_raw.induct)
  case (4 a b c xs)
  then show ?case using char_group_chars [of a b c] unfolding b64_raw_groups by auto
next
  case (2 a)
  show ?case unfolding b64_raw_groups by (rule char_group_chars)
next
  case (3 a b)
  show ?case unfolding b64_raw_groups by (rule char_group_chars)
qed simp

lemma n_padding_cases: "n_padding xs \<le> 2" "length xs + n_padding xs = length (b64_raw xs) div 4 * 3"
proof -
  show "n_padding xs \<le> 2" by (induction xs rule: b64_raw.induct) simp_all
  show "length xs + n_padding xs = length (b64_raw xs) div 4 * 3"
  proof (induction xs rule: b64_raw.induct)
    case (4 a b c xs)
    have "length (b64_raw (a # b # c # xs)) div 4 = Suc (length (b64_raw xs) div 4)" by (simp add: Let_def)
    with 4 show ?case by simp
  qed (simp_all add: Let_def)
qed

lemma b64_end:
  assumes "xs \<noteq> []" "k \<in> {1, 2}"
  shows "b64 xs ! (length (b64 xs) - k) = pad_char \<longleftrightarrow> k \<le> n_padding xs"
proof -
  let ?r = "b64_raw xs" and ?p = "n_padding xs"
  have four: "4 \<le> length ?r" using assms(1) by (cases xs rule: b64_raw.cases) (simp_all add: Let_def)
  have len: "length (b64 xs) = length ?r"
    using arg_cong [OF b64_padded [of xs], of length] n_padding_bound [of xs] by simp
  have k: "length ?r - k < length ?r" using assms(2) four by auto
  show ?thesis
  proof (cases "k \<le> ?p")
    case True
    then have "b64 xs ! (length ?r - k) = pad_char"
      using four assms(2) n_padding_bound [of xs] unfolding b64_padded [of xs, symmetric] by (auto simp: nth_append)
    then show ?thesis using True len by simp
  next
    case False
    then have "b64 xs ! (length ?r - k) = ?r ! (length ?r - k)"
      using four k assms(2) unfolding b64_padded [of xs, symmetric] by (auto simp: nth_append)
    moreover have "?r ! (length ?r - k) \<noteq> pad_char" using b64_raw_chars nth_mem [OF k] by blast
    ultimately show ?thesis using False len by simp
  qed
qed

lemma b64_length: "length (b64 xs) = 4 * ((length xs + 2) div 3)"
  using arg_cong [OF b64_padded [of xs], of length] n_padding_bound [of xs] b64_raw_length [of xs] by simp

theorem base64_decode_b64:
  assumes xs: "xs \<noteq> []" and t: "t = NoTable \<or> built_table t"
  shows "\<exists>t'. built_table t' \<and> base64_decode junk_table junk t (b64 xs) = Ok (t', Some (length xs, xs))"
proof -
  let ?t = "if t = NoTable then build_decoding_table junk_table else t"
  have b: "built_table ?t" using t build_decoding_table_built by auto
  then obtain table where table: "?t = Table table" "length table = 256" "\<forall>v < 64. table ! unat (b64_char v) = word_of_nat v"
    by (auto simp: built_table_def)
  have len: "length (b64 xs) = length (b64_raw xs)" by (simp add: b64_length b64_raw_length)
  have e: "b64 xs ! (length (b64 xs) - 1) = pad_char \<longleftrightarrow> 1 \<le> n_padding xs" "b64 xs ! (length (b64 xs) - 2) = pad_char \<longleftrightarrow> 2 \<le> n_padding xs"
    using b64_end [OF xs] by simp_all
  have ne: "b64 xs \<noteq> []" using xs b64_length [of xs] by (cases xs rule: b64_raw.cases) (simp_all add: Let_def)
  have n: "length (b64 xs) div 4 * 3 = length xs + n_padding xs" using n_padding_cases(2) [of xs] len by simp
  have dec: "decode_loop table ([] @ b64 xs) (0 + length xs) 0 0 ([] @ map junk [0..<length xs]) = Ok ([] @ xs)"
    by (rule decode_loop_b64 [OF table(2,3)]) simp_all
  have size: "(if b64 xs ! (length (b64 xs) - 2) = pad_char
      then (if b64 xs ! (length (b64 xs) - 1) = pad_char then length (b64 xs) div 4 * 3 - 1 else length (b64 xs) div 4 * 3) - 1
      else (if b64 xs ! (length (b64 xs) - 1) = pad_char then length (b64 xs) div 4 * 3 - 1 else length (b64 xs) div 4 * 3)) = length xs"
    unfolding e n using n_padding_cases(1) [of xs] by auto
  have m: "length (b64 xs) mod 4 = 0" by (simp add: b64_length)
  have "base64_decode junk_table junk t (b64 xs) = Ok (?t, Some (length xs, xs))"
    unfolding base64_decode_def Let_def size using m ne dec by (simp add: table(1))
  then show ?thesis using b by blast
qed

text \<open>A text whose length is no multiple of four is refused; the empty text is read in front of its start;
  after \<open>base64_cleanup\<close> the freed table is still used.\<close>
lemma base64_decode_refuses: "length data mod 4 \<noteq> 0 \<Longrightarrow> \<exists>t'. base64_decode junk_table junk t data = Ok (t', None)"
  by (simp add: base64_decode_def Let_def)

lemma base64_decode_empty: "base64_decode junk_table junk t [] = Fault OutOfBounds"
  by (simp add: base64_decode_def Let_def)

lemma base64_decode_after_cleanup:
  "built_table t \<Longrightarrow> data \<noteq> [] \<Longrightarrow> length data mod 4 = 0 \<Longrightarrow>
   bindR (base64_cleanup t) (\<lambda>t. base64_decode junk_table junk t data) = Fault OutOfBounds"
  by (auto simp: built_table_def base64_cleanup_def base64_decode_def Let_def)

end
