(* ===== verification/Spec2Isabelle.thy ===== *)
theory Spec2Isabelle
  imports Messages_Handshake Messages_Lock Messages_Pin Messages_Card Messages_Settings
    Messages_Bridge Messages_Log Cbor_Safety Message_Faults Connection_Spec Pairing Lock_Command Task_Queue Discovery Ble_Data Pairing_Run Wifi_Settings Base64
begin

text \<open>
  Verification of the igloohome bridge (\<open>src/bridge\<close>): a gateway that takes commands from a server, queues
  them as tasks, opens an encrypted Bluetooth session to a lock for each one, exchanges CBOR messages with it
  and reports the outcome.  Every path below is relative to \<open>src/bridge\<close>.

  \<^bold>\<open>How the program is put together.\<close>  \<open>main\<close> in \<open>bridge_main/ign.c\<close> takes task nodes from a doing queue
  (\<open>bridge_main/task_queue.c\<close> on the lists of \<open>bridge_main/list.h\<close>) and runs each through the table of its state
  machine with \<open>FSMHandle\<close>.  For a lock command the table has one row, \<open>guest_connection_and_do_cmd\<close> of
  \<open>ble/ble_guest.c\<close>: it takes a slot of the connection table (\<open>lock/connection/connection_common.c\<close>), runs the
  handshake of \<open>lock/connection/guest_connection.c\<close>, sends the command and waits for the response.  Each message is
  an object of \<open>lock/messages/*.c\<close>, written and read by the CBOR library in \<open>lock/external/cbor\<close>, sealed by
  \<open>lock/connection/encryption.c\<close> with AES-CCM from \<open>lock/cifra\<close>, and cut into packets by
  \<open>ble/ble_operation.c\<close>.  \<open>HandleLockCMD\<close> and \<open>saveTaskData\<close> turn the result into what is reported.  A lock is paired
  by the six rows of \<open>ble/ble_pairing.c\<close>, which run the steps of \<open>lock/connection/pairing_connection.c\<close>.  The WiFi service
  beside it (\<open>wifi_service\<close>) is the lock side of a pairing: \<open>server.c\<close> takes packets written to its characteristic,
  \<open>pairing.c\<close> collects and answers them, the table driven machines of \<open>fsm1.c\<close> keep the order, and the key and nonces go to
  a second process in a record of \<open>crypt.c\<close>.

  \<^bold>\<open>Theories, from the bottom up.\<close>
  \<^item> \<open>Prelude\<close>: machine integers, memory blocks, the result type \<open>res\<close>.  A C function returns \<open>Ok\<close>, or \<open>Fault\<close>
    with the reason it left defined behaviour: a failing assert, an access outside a block, a read of memory
    that was never set.  \<open>safe\<close> says a call stays in memory and keeps a postcondition.
  \<^item> \<open>Cbor_Encoder\<close> (\<open>cborencoder.c\<close>), \<open>Cbor_Parser\<close> (\<open>cborparser.c\<close>), \<open>Cbor_Items\<close> (what is written is
    what is read, item by item), \<open>Cbor_Safety\<close> (the decoders on arbitrary bytes), \<open>Message_Faults\<close> (values of the
    wrong kind, objects after \<open>deinit\<close>).
  \<^item> \<open>Ig_Message\<close> (the statements the message files share: guarded writes, top-level map, decode loop, switch with
    fall-through), \<open>Ig_Codec\<close> (their lemmas for every list of fields), \<open>Ig_Interface\<close> (the locale \<open>ig_message\<close>:
    what one file supplies and what the program may rely on, over \<open>ig_fields\<close> and \<open>ig_writer\<close>, which hold also for the
    records of the WiFi service), and the 94 files themselves in \<open>Messages_*\<close>: one
    record, its setters, encoder and decoder per file, and one interpretation of the locale per file.
  \<^item> \<open>Aes\<close> (\<open>aes.c\<close>, \<open>bitops.h\<close>), \<open>Block_Modes\<close> (\<open>modes.c\<close>, \<open>blockwise.c\<close>, \<open>cbcmac.c\<close>, with the locale
    \<open>block_cipher\<close> interpreted at AES), \<open>Ccm\<close> (\<open>ccm.c\<close> and the mode written as plain functions),
    \<open>Encryption\<close> (\<open>encryption.c\<close>).
  \<^item> \<open>Connection\<close> (the static table of 32 slots), \<open>Connection_Spec\<close> (its specification, which it refines over any history), \<open>Handshake\<close> (\<open>admin_connection.c\<close>, \<open>guest_connection.c\<close>),
    \<open>Pairing\<close> (\<open>pairing_connection.c\<close>; the curve of micro-ecc is a parameter).
  \<^item> \<open>Ble_Framing\<close> (\<open>ble_operation.c\<close> and the receivers), \<open>Guest_Session\<close> (\<open>ble_guest.c\<close>: a session as a fold over
    the events of the GLib loop).
  \<^item> \<open>Linked_List\<close> (\<open>list.h\<close> on a store of links), \<open>Task_Queue\<close> (\<open>task_queue.c\<close>, \<open>FSMHandle\<close> and the loop of
    \<open>main\<close>), \<open>Lock_List\<close> (\<open>lock.c\<close>, \<open>lock_list.c\<close>), \<open>Discovery\<close> (\<open>ble_discover.c\<close>: the callbacks of a scan),
    \<open>Ble_Data\<close> (\<open>bleData.c\<close>), \<open>Lock_Command\<close> (\<open>HandleLockCMD\<close>, \<open>saveTaskData\<close>).
  \<^item> \<open>Pairing_Task\<close> (\<open>ble/ble_pairing.c\<close>: results, receiver, six actions and their table).
  \<^item> \<open>Fsm\<close> (\<open>fsm1.c\<close>), \<open>Wifi_Receiver\<close> and \<open>Pairing_Server\<close> (\<open>pairing.c\<close>: the packets of a client, the answers),
    \<open>Wifi_Records\<close> (\<open>crypt.c\<close>, \<open>SetWifiInfoRequest.c\<close>), \<open>Wifi_Service\<close> (\<open>server.c\<close>: machine and actions),
    \<open>Wifi_Settings\<close> (\<open>wifi_server.c\<close>: the machine that takes the settings of a network); all of \<open>wifi_service\<close>.  The
    locale \<open>packet_reader\<close> holds what the two processes share: packets are collected, a complete message is acted on.
  \<^item> \<open>Pairing_Run\<close>: the pairing task and the WiFi service run against each other.
  \<^item> \<open>Base64\<close> (\<open>mqtt/base64.c\<close>).

  \<^bold>\<open>Conventions.\<close>  A struct is a record with the members of the source, an owned pointer a \<open>block_ptr\<close> (\<open>None\<close> is
  NULL), an integer a word of its width or, where the code's own tests keep it small, a number.  A call of code
  that is not in the repository (gattlib, GLib, the random generator, the clock, micro-ecc) is a parameter.  Output
  to the log is left out, except where it reads memory it should not.

  \<^bold>\<open>What the lemmas show.\<close>  Messages: every valid object survives encoding and decoding within the size bound the
  file promises; errors of the encoder are reported; the decoders on hostile bytes stay in the buffer and
  end, but for one kind of message, which is characterised; values of the wrong kind are stored elsewhere or stop the program.
  Ciphers: AES decryption inverts encryption, the stream operations of CCM equal the mode on whole messages, what
  is sealed opens and what fails to authenticate is cleared.  Sessions: both handshakes agree on nonces, a
  receiver accepts only what was sealed under its key and nonce, a nonce counts up and repeats only after \<open>2 ^ 96\<close> steps; a command is sent only after
  the handshake is confirmed, and reported as done only if the session of that very command was confirmed under the key of its
  lock.  The connection table refines its specification over every history of calls.  Tasks: the two queues refine two
  sequences, every task inserted runs once and in order.  Pairing: the client and the server of a pairing agree on the
  key, first message by message, then packet by packet through the service's machine, last with the task that drives the
  client; and what the service does not check lets forged messages complete a pairing, and the settings process, which
  checks nothing at all, runs a command with the strings of any client.  A scan lists every lock it reports, once.

  \<^bold>\<open>Bounds on loops.\<close>  A loop over an index is a \<open>function\<close> with a measure.  Four loops of the code have no
  counter; they take a number of rounds and give \<open>Fault OutOfFuel\<close> when it is used up, and for each it is proved
  how many rounds are enough: \<open>ig_decode_loop\<close> and \<open>advance_recursive\<close> (the length of the buffer, \<open>Cbor_Safety\<close>;
  nesting is limited by the library), \<open>list_for_each_loop\<close> (the length of the ring), \<open>run_tasks\<close> and
  \<open>walk_doing\<close> (the number of tasks queued).  The
  loop of GLib in \<open>Pairing_Task\<close> goes through the notifications to come and gives the same mark when none is left, which
  stands for waiting for ever; a pairing is shown to end without it.  The
  loops of \<open>blockwise.c\<close> give the same mark for a block size of 0, which asserts exclude.

  \<^bold>\<open>Not modelled.\<close>  MQTT, nanopb, cJSON, HTTPS, mbedtls, gattlib and micro-ecc (third-party code and the glue
  that calls it); advertising, D-Bus registration and the accept loop of the sockets in \<open>wifi_service\<close> (I/O);
  \<open>serializer.c\<close> there (not part of the build) and \<open>ble_advdata.c\<close> (vendored);
  \<open>ja-bridge\<close>, \<open>demo\<close> and \<open>lg_bridge\<close> (examples and an older copy of the same sources); threads and mutexes: each queue
  operation holds its mutex from start to end and is one step.
\<close>

section \<open>Properties\<close>

text \<open>C1. For each of the 15 message files of this group (the messages of pairing, of the admin and guest
  handshakes and of unpairing): every object that init and the setters build and is_valid accepts,
  with the strings set neither empty nor of 2^24 bytes or more, is encoded without error into any
  block of get_max_payload_in_bytes bytes, the size reported is within that bound, and decoding
  the reported bytes into a fresh object gives the object back.\<close>
theorem handshake_codecs:
  "codec_roundtrip ig_PairingStep1_encode ig_PairingStep1_decode ig_PairingStep1_get_max_payload_in_bytes
     ig_PairingStep1_init ig_PairingStep1_ok \<and>
   codec_roundtrip ig_PairingStep2_encode ig_PairingStep2_decode ig_PairingStep2_get_max_payload_in_bytes
     ig_PairingStep2_init ig_PairingStep2_ok \<and>
   codec_roundtrip ig_PairingStep3_encode ig_PairingStep3_decode ig_PairingStep3_get_max_payload_in_bytes
     ig_PairingStep3_init ig_PairingStep3_ok \<and>
   codec_roundtrip ig_PairingStep4_encode ig_PairingStep4_decode ig_PairingStep4_get_max_payload_in_bytes
     ig_PairingStep4_init ig_PairingStep4_ok \<and>
   codec_roundtrip ig_PairingCommit_encode ig_PairingCommit_decode ig_PairingCommit_get_max_payload_in_bytes
     ig_PairingCommit_init ig_PairingCommit_ok \<and>
   codec_roundtrip ig_AdminConnectionStep1_encode ig_AdminConnectionStep1_decode ig_AdminConnectionStep1_get_max_payload_in_bytes
     ig_AdminConnectionStep1_init ig_AdminConnectionStep1_ok \<and>
   codec_roundtrip ig_AdminConnectionStep2_encode ig_AdminConnectionStep2_decode ig_AdminConnectionStep2_get_max_payload_in_bytes
     ig_AdminConnectionStep2_init ig_AdminConnectionStep2_ok \<and>
   codec_roundtrip ig_AdminConnectionStep3_encode ig_AdminConnectionStep3_decode ig_AdminConnectionStep3_get_max_payload_in_bytes
     ig_AdminConnectionStep3_init ig_AdminConnectionStep3_ok \<and>
   codec_roundtrip ig_GuestConnectionStep1_encode ig_GuestConnectionStep1_decode ig_GuestConnectionStep1_get_max_payload_in_bytes
     ig_GuestConnectionStep1_init ig_GuestConnectionStep1_ok \<and>
   codec_roundtrip ig_GuestConnectionStep2_encode ig_GuestConnectionStep2_decode ig_GuestConnectionStep2_get_max_payload_in_bytes
     ig_GuestConnectionStep2_init ig_GuestConnectionStep2_ok \<and>
   codec_roundtrip ig_GuestConnectionStep3_encode ig_GuestConnectionStep3_decode ig_GuestConnectionStep3_get_max_payload_in_bytes
     ig_GuestConnectionStep3_init ig_GuestConnectionStep3_ok \<and>
   codec_roundtrip ig_GuestConnectionStep4_encode ig_GuestConnectionStep4_decode ig_GuestConnectionStep4_get_max_payload_in_bytes
     ig_GuestConnectionStep4_init ig_GuestConnectionStep4_ok \<and>
   codec_roundtrip ig_GuestToken_encode ig_GuestToken_decode ig_GuestToken_get_max_payload_in_bytes
     ig_GuestToken_init ig_GuestToken_ok \<and>
   codec_roundtrip ig_UnpairRequest_encode ig_UnpairRequest_decode ig_UnpairRequest_get_max_payload_in_bytes
     ig_UnpairRequest_init ig_UnpairRequest_ok \<and>
   codec_roundtrip ig_UnpairResponse_encode ig_UnpairResponse_decode ig_UnpairResponse_get_max_payload_in_bytes
     ig_UnpairResponse_init ig_UnpairResponse_ok"
  by (intro conjI PairingStep1_codec.roundtrip_codec
      PairingStep2_codec.roundtrip_codec
      PairingStep3_codec.roundtrip_codec
      PairingStep4_codec.roundtrip_codec
      PairingCommit_codec.roundtrip_codec
      AdminConnectionStep1_codec.roundtrip_codec
      AdminConnectionStep2_codec.roundtrip_codec
      AdminConnectionStep3_codec.roundtrip_codec
      GuestConnectionStep1_codec.roundtrip_codec
      GuestConnectionStep2_codec.roundtrip_codec
      GuestConnectionStep3_codec.roundtrip_codec
      GuestConnectionStep4_codec.roundtrip_codec
      GuestToken_codec.roundtrip_codec
      UnpairRequest_codec.roundtrip_codec
      UnpairResponse_codec.roundtrip_codec)

text \<open>C2. For each of the 27 message files of this group (lock, unlock, status and relock messages;
  messages that manage PIN codes): every object that init and the setters build and is_valid
  accepts, with the strings set neither empty nor of 2^24 bytes or more, is encoded without error
  into any block of get_max_payload_in_bytes bytes, the size reported is within that bound, and
  decoding the reported bytes into a fresh object gives the object back.\<close>
theorem command_codecs:
  "codec_roundtrip ig_LockRequest_encode ig_LockRequest_decode ig_LockRequest_get_max_payload_in_bytes
     ig_LockRequest_init ig_LockRequest_ok \<and>
   codec_roundtrip ig_LockResponse_encode ig_LockResponse_decode ig_LockResponse_get_max_payload_in_bytes
     ig_LockResponse_init ig_LockResponse_ok \<and>
   codec_roundtrip ig_UnlockRequest_encode ig_UnlockRequest_decode ig_UnlockRequest_get_max_payload_in_bytes
     ig_UnlockRequest_init ig_UnlockRequest_ok \<and>
   codec_roundtrip ig_UnlockResponse_encode ig_UnlockResponse_decode ig_UnlockResponse_get_max_payload_in_bytes
     ig_UnlockResponse_init ig_UnlockResponse_ok \<and>
   codec_roundtrip ig_GetLockStatusRequest_encode ig_GetLockStatusRequest_decode ig_GetLockStatusRequest_get_max_payload_in_bytes
     ig_GetLockStatusRequest_init ig_GetLockStatusRequest_ok \<and>
   codec_roundtrip ig_GetLockStatusResponse_encode ig_GetLockStatusResponse_decode ig_GetLockStatusResponse_get_max_payload_in_bytes
     ig_GetLockStatusResponse_init ig_GetLockStatusResponse_ok \<and>
   codec_roundtrip ig_GetStatusRequest_encode ig_GetStatusRequest_decode ig_GetStatusRequest_get_max_payload_in_bytes
     ig_GetStatusRequest_init ig_GetStatusRequest_ok \<and>
   codec_roundtrip ig_GetStatusResponse_encode ig_GetStatusResponse_decode ig_GetStatusResponse_get_max_payload_in_bytes
     ig_GetStatusResponse_init ig_GetStatusResponse_ok \<and>
   codec_roundtrip ig_StatusNotification_encode ig_StatusNotification_decode ig_StatusNotification_get_max_payload_in_bytes
     ig_StatusNotification_init ig_StatusNotification_ok \<and>
   codec_roundtrip ig_EnableAutoUnlockRequest_encode ig_EnableAutoUnlockRequest_decode ig_EnableAutoUnlockRequest_get_max_payload_in_bytes
     ig_EnableAutoUnlockRequest_init ig_EnableAutoUnlockRequest_ok \<and>
   codec_roundtrip ig_EnableAutoUnlockResponse_encode ig_EnableAutoUnlockResponse_decode ig_EnableAutoUnlockResponse_get_max_payload_in_bytes
     ig_EnableAutoUnlockResponse_init ig_EnableAutoUnlockResponse_ok \<and>
   codec_roundtrip ig_SetAutorelockRequest_encode ig_SetAutorelockRequest_decode ig_SetAutorelockRequest_get_max_payload_in_bytes
     ig_SetAutorelockRequest_init ig_SetAutorelockRequest_ok \<and>
   codec_roundtrip ig_SetAutorelockResponse_encode ig_SetAutorelockResponse_decode ig_SetAutorelockResponse_get_max_payload_in_bytes
     ig_SetAutorelockResponse_init ig_SetAutorelockResponse_ok \<and>
   codec_roundtrip ig_SetRelockAlarmRequest_encode ig_SetRelockAlarmRequest_decode ig_SetRelockAlarmRequest_get_max_payload_in_bytes
     ig_SetRelockAlarmRequest_init ig_SetRelockAlarmRequest_ok \<and>
   codec_roundtrip ig_SetRelockAlarmResponse_encode ig_SetRelockAlarmResponse_decode ig_SetRelockAlarmResponse_get_max_payload_in_bytes
     ig_SetRelockAlarmResponse_init ig_SetRelockAlarmResponse_ok \<and>
   codec_roundtrip ig_CreatePinRequest_encode ig_CreatePinRequest_decode ig_CreatePinRequest_get_max_payload_in_bytes
     ig_CreatePinRequest_init ig_CreatePinRequest_ok \<and>
   codec_roundtrip ig_CreatePinResponse_encode ig_CreatePinResponse_decode ig_CreatePinResponse_get_max_payload_in_bytes
     ig_CreatePinResponse_init ig_CreatePinResponse_ok \<and>
   codec_roundtrip ig_DeletePinRequest_encode ig_DeletePinRequest_decode ig_DeletePinRequest_get_max_payload_in_bytes
     ig_DeletePinRequest_init ig_DeletePinRequest_ok \<and>
   codec_roundtrip ig_DeletePinResponse_encode ig_DeletePinResponse_decode ig_DeletePinResponse_get_max_payload_in_bytes
     ig_DeletePinResponse_init ig_DeletePinResponse_ok \<and>
   codec_roundtrip ig_EditPinRequest_encode ig_EditPinRequest_decode ig_EditPinRequest_get_max_payload_in_bytes
     ig_EditPinRequest_init ig_EditPinRequest_ok \<and>
   codec_roundtrip ig_EditPinResponse_encode ig_EditPinResponse_decode ig_EditPinResponse_get_max_payload_in_bytes
     ig_EditPinResponse_init ig_EditPinResponse_ok \<and>
   codec_roundtrip ig_SetMasterPinRequest_encode ig_SetMasterPinRequest_decode ig_SetMasterPinRequest_get_max_payload_in_bytes
     ig_SetMasterPinRequest_init ig_SetMasterPinRequest_ok \<and>
   codec_roundtrip ig_SetMasterPinResponse_encode ig_SetMasterPinResponse_decode ig_SetMasterPinResponse_get_max_payload_in_bytes
     ig_SetMasterPinResponse_init ig_SetMasterPinResponse_ok \<and>
   codec_roundtrip ig_SetMaxIncorrectPinRequest_encode ig_SetMaxIncorrectPinRequest_decode ig_SetMaxIncorrectPinRequest_get_max_payload_in_bytes
     ig_SetMaxIncorrectPinRequest_init ig_SetMaxIncorrectPinRequest_ok \<and>
   codec_roundtrip ig_SetMaxIncorrectPinResponse_encode ig_SetMaxIncorrectPinResponse_decode ig_SetMaxIncorrectPinResponse_get_max_payload_in_bytes
     ig_SetMaxIncorrectPinResponse_init ig_SetMaxIncorrectPinResponse_ok \<and>
   codec_roundtrip ig_SetPinKeyRequest_encode ig_SetPinKeyRequest_decode ig_SetPinKeyRequest_get_max_payload_in_bytes
     ig_SetPinKeyRequest_init ig_SetPinKeyRequest_ok \<and>
   codec_roundtrip ig_SetPinKeyResponse_encode ig_SetPinKeyResponse_decode ig_SetPinKeyResponse_get_max_payload_in_bytes
     ig_SetPinKeyResponse_init ig_SetPinKeyResponse_ok"
  by (intro conjI LockRequest_codec.roundtrip_codec
      LockResponse_codec.roundtrip_codec
      UnlockRequest_codec.roundtrip_codec
      UnlockResponse_codec.roundtrip_codec
      GetLockStatusRequest_codec.roundtrip_codec
      GetLockStatusResponse_codec.roundtrip_codec
      GetStatusRequest_codec.roundtrip_codec
      GetStatusResponse_codec.roundtrip_codec
      StatusNotification_codec.roundtrip_codec
      EnableAutoUnlockRequest_codec.roundtrip_codec
      EnableAutoUnlockResponse_codec.roundtrip_codec
      SetAutorelockRequest_codec.roundtrip_codec
      SetAutorelockResponse_codec.roundtrip_codec
      SetRelockAlarmRequest_codec.roundtrip_codec
      SetRelockAlarmResponse_codec.roundtrip_codec
      CreatePinRequest_codec.roundtrip_codec
      CreatePinResponse_codec.roundtrip_codec
      DeletePinRequest_codec.roundtrip_codec
      DeletePinResponse_codec.roundtrip_codec
      EditPinRequest_codec.roundtrip_codec
      EditPinResponse_codec.roundtrip_codec
      SetMasterPinRequest_codec.roundtrip_codec
      SetMasterPinResponse_codec.roundtrip_codec
      SetMaxIncorrectPinRequest_codec.roundtrip_codec
      SetMaxIncorrectPinResponse_codec.roundtrip_codec
      SetPinKeyRequest_codec.roundtrip_codec
      SetPinKeyResponse_codec.roundtrip_codec)

text \<open>C3. For each of the 52 message files of this group (messages that manage cards and fingerprints;
  messages for time, sound, light, battery and firmware; messages between the bridge, its locks
  and its networks; log entries and guest-key lists): every object that init and the setters build
  and is_valid accepts, with the strings set neither empty nor of 2^24 bytes or more, is encoded
  without error into any block of get_max_payload_in_bytes bytes, the size reported is within that
  bound, and decoding the reported bytes into a fresh object gives the object back.\<close>
theorem other_codecs:
  "codec_roundtrip ig_AddCardRequest_encode ig_AddCardRequest_decode ig_AddCardRequest_get_max_payload_in_bytes
     ig_AddCardRequest_init ig_AddCardRequest_ok \<and>
   codec_roundtrip ig_AddCardResponse_encode ig_AddCardResponse_decode ig_AddCardResponse_get_max_payload_in_bytes
     ig_AddCardResponse_init ig_AddCardResponse_ok \<and>
   codec_roundtrip ig_DeleteCardRequest_encode ig_DeleteCardRequest_decode ig_DeleteCardRequest_get_max_payload_in_bytes
     ig_DeleteCardRequest_init ig_DeleteCardRequest_ok \<and>
   codec_roundtrip ig_DeleteCardResponse_encode ig_DeleteCardResponse_decode ig_DeleteCardResponse_get_max_payload_in_bytes
     ig_DeleteCardResponse_init ig_DeleteCardResponse_ok \<and>
   codec_roundtrip ig_DeleteCardUidRequest_encode ig_DeleteCardUidRequest_decode ig_DeleteCardUidRequest_get_max_payload_in_bytes
     ig_DeleteCardUidRequest_init ig_DeleteCardUidRequest_ok \<and>
   codec_roundtrip ig_DeleteCardUidResponse_encode ig_DeleteCardUidResponse_decode ig_DeleteCardUidResponse_get_max_payload_in_bytes
     ig_DeleteCardUidResponse_init ig_DeleteCardUidResponse_ok \<and>
   codec_roundtrip ig_CardAddedNotification_encode ig_CardAddedNotification_decode ig_CardAddedNotification_get_max_payload_in_bytes
     ig_CardAddedNotification_init ig_CardAddedNotification_ok \<and>
   codec_roundtrip ig_CardDeletedNotification_encode ig_CardDeletedNotification_decode ig_CardDeletedNotification_get_max_payload_in_bytes
     ig_CardDeletedNotification_init ig_CardDeletedNotification_ok \<and>
   codec_roundtrip ig_AddFingerprintRequest_encode ig_AddFingerprintRequest_decode ig_AddFingerprintRequest_get_max_payload_in_bytes
     ig_AddFingerprintRequest_init ig_AddFingerprintRequest_ok \<and>
   codec_roundtrip ig_AddFingerprintResponse_encode ig_AddFingerprintResponse_decode ig_AddFingerprintResponse_get_max_payload_in_bytes
     ig_AddFingerprintResponse_init ig_AddFingerprintResponse_ok \<and>
   codec_roundtrip ig_DeleteFingerprintRequest_encode ig_DeleteFingerprintRequest_decode ig_DeleteFingerprintRequest_get_max_payload_in_bytes
     ig_DeleteFingerprintRequest_init ig_DeleteFingerprintRequest_ok \<and>
   codec_roundtrip ig_DeleteFingerprintResponse_encode ig_DeleteFingerprintResponse_decode ig_DeleteFingerprintResponse_get_max_payload_in_bytes
     ig_DeleteFingerprintResponse_init ig_DeleteFingerprintResponse_ok \<and>
   codec_roundtrip ig_DeleteFingerprintUidRequest_encode ig_DeleteFingerprintUidRequest_decode ig_DeleteFingerprintUidRequest_get_max_payload_in_bytes
     ig_DeleteFingerprintUidRequest_init ig_DeleteFingerprintUidRequest_ok \<and>
   codec_roundtrip ig_DeleteFingerprintUidResponse_encode ig_DeleteFingerprintUidResponse_decode ig_DeleteFingerprintUidResponse_get_max_payload_in_bytes
     ig_DeleteFingerprintUidResponse_init ig_DeleteFingerprintUidResponse_ok \<and>
   codec_roundtrip ig_FingerprintAddedNotification_encode ig_FingerprintAddedNotification_decode ig_FingerprintAddedNotification_get_max_payload_in_bytes
     ig_FingerprintAddedNotification_init ig_FingerprintAddedNotification_ok \<and>
   codec_roundtrip ig_FingerprintDeletedNotification_encode ig_FingerprintDeletedNotification_decode ig_FingerprintDeletedNotification_get_max_payload_in_bytes
     ig_FingerprintDeletedNotification_init ig_FingerprintDeletedNotification_ok \<and>
   codec_roundtrip ig_SetTimeRequest_encode ig_SetTimeRequest_decode ig_SetTimeRequest_get_max_payload_in_bytes
     ig_SetTimeRequest_init ig_SetTimeRequest_ok \<and>
   codec_roundtrip ig_SetTimeResponse_encode ig_SetTimeResponse_decode ig_SetTimeResponse_get_max_payload_in_bytes
     ig_SetTimeResponse_init ig_SetTimeResponse_ok \<and>
   codec_roundtrip ig_GetTimeRequest_encode ig_GetTimeRequest_decode ig_GetTimeRequest_get_max_payload_in_bytes
     ig_GetTimeRequest_init ig_GetTimeRequest_ok \<and>
   codec_roundtrip ig_GetTimeResponse_encode ig_GetTimeResponse_decode ig_GetTimeResponse_get_max_payload_in_bytes
     ig_GetTimeResponse_init ig_GetTimeResponse_ok \<and>
   codec_roundtrip ig_SetVolumeRequest_encode ig_SetVolumeRequest_decode ig_SetVolumeRequest_get_max_payload_in_bytes
     ig_SetVolumeRequest_init ig_SetVolumeRequest_ok \<and>
   codec_roundtrip ig_SetVolumeResponse_encode ig_SetVolumeResponse_decode ig_SetVolumeResponse_get_max_payload_in_bytes
     ig_SetVolumeResponse_init ig_SetVolumeResponse_ok \<and>
   codec_roundtrip ig_SetBrightnessRequest_encode ig_SetBrightnessRequest_decode ig_SetBrightnessRequest_get_max_payload_in_bytes
     ig_SetBrightnessRequest_init ig_SetBrightnessRequest_ok \<and>
   codec_roundtrip ig_SetBrightnessResponse_encode ig_SetBrightnessResponse_decode ig_SetBrightnessResponse_get_max_payload_in_bytes
     ig_SetBrightnessResponse_init ig_SetBrightnessResponse_ok \<and>
   codec_roundtrip ig_SetDaylightSavingRequest_encode ig_SetDaylightSavingRequest_decode ig_SetDaylightSavingRequest_get_max_payload_in_bytes
     ig_SetDaylightSavingRequest_init ig_SetDaylightSavingRequest_ok \<and>
   codec_roundtrip ig_SetDaylightSavingResponse_encode ig_SetDaylightSavingResponse_decode ig_SetDaylightSavingResponse_get_max_payload_in_bytes
     ig_SetDaylightSavingResponse_init ig_SetDaylightSavingResponse_ok \<and>
   codec_roundtrip ig_DaylightSavingRange_encode ig_DaylightSavingRange_decode ig_DaylightSavingRange_get_max_payload_in_bytes
     ig_DaylightSavingRange_init ig_DaylightSavingRange_ok \<and>
   codec_roundtrip ig_GetBatteryLevelRequest_encode ig_GetBatteryLevelRequest_decode ig_GetBatteryLevelRequest_get_max_payload_in_bytes
     ig_GetBatteryLevelRequest_init ig_GetBatteryLevelRequest_ok \<and>
   codec_roundtrip ig_GetBatteryLevelResponse_encode ig_GetBatteryLevelResponse_decode ig_GetBatteryLevelResponse_get_max_payload_in_bytes
     ig_GetBatteryLevelResponse_init ig_GetBatteryLevelResponse_ok \<and>
   codec_roundtrip ig_EnableDfuRequest_encode ig_EnableDfuRequest_decode ig_EnableDfuRequest_get_max_payload_in_bytes
     ig_EnableDfuRequest_init ig_EnableDfuRequest_ok \<and>
   codec_roundtrip ig_EnableDfuResponse_encode ig_EnableDfuResponse_decode ig_EnableDfuResponse_get_max_payload_in_bytes
     ig_EnableDfuResponse_init ig_EnableDfuResponse_ok \<and>
   codec_roundtrip ig_GetFirmwareVersionRequest_encode ig_GetFirmwareVersionRequest_decode ig_GetFirmwareVersionRequest_get_max_payload_in_bytes
     ig_GetFirmwareVersionRequest_init ig_GetFirmwareVersionRequest_ok \<and>
   codec_roundtrip ig_GetFirmwareVersionResponse_encode ig_GetFirmwareVersionResponse_decode ig_GetFirmwareVersionResponse_get_max_payload_in_bytes
     ig_GetFirmwareVersionResponse_init ig_GetFirmwareVersionResponse_ok \<and>
   codec_roundtrip ig_AddLockRequest_encode ig_AddLockRequest_decode ig_AddLockRequest_get_max_payload_in_bytes
     ig_AddLockRequest_init ig_AddLockRequest_ok \<and>
   codec_roundtrip ig_AddLockResponse_encode ig_AddLockResponse_decode ig_AddLockResponse_get_max_payload_in_bytes
     ig_AddLockResponse_init ig_AddLockResponse_ok \<and>
   codec_roundtrip ig_DeleteLockRequest_encode ig_DeleteLockRequest_decode ig_DeleteLockRequest_get_max_payload_in_bytes
     ig_DeleteLockRequest_init ig_DeleteLockRequest_ok \<and>
   codec_roundtrip ig_DeleteLockResponse_encode ig_DeleteLockResponse_decode ig_DeleteLockResponse_get_max_payload_in_bytes
     ig_DeleteLockResponse_init ig_DeleteLockResponse_ok \<and>
   codec_roundtrip ig_SetBridgeConfigurationRequest_encode ig_SetBridgeConfigurationRequest_decode ig_SetBridgeConfigurationRequest_get_max_payload_in_bytes
     ig_SetBridgeConfigurationRequest_init ig_SetBridgeConfigurationRequest_ok \<and>
   codec_roundtrip ig_SetBridgeConfigurationResponse_encode ig_SetBridgeConfigurationResponse_decode ig_SetBridgeConfigurationResponse_get_max_payload_in_bytes
     ig_SetBridgeConfigurationResponse_init ig_SetBridgeConfigurationResponse_ok \<and>
   codec_roundtrip ig_SetNbConfigurationRequest_encode ig_SetNbConfigurationRequest_decode ig_SetNbConfigurationRequest_get_max_payload_in_bytes
     ig_SetNbConfigurationRequest_init ig_SetNbConfigurationRequest_ok \<and>
   codec_roundtrip ig_SetNbConfigurationResponse_encode ig_SetNbConfigurationResponse_decode ig_SetNbConfigurationResponse_get_max_payload_in_bytes
     ig_SetNbConfigurationResponse_init ig_SetNbConfigurationResponse_ok \<and>
   codec_roundtrip ig_BridgeStatusNotification_encode ig_BridgeStatusNotification_decode ig_BridgeStatusNotification_get_max_payload_in_bytes
     ig_BridgeStatusNotification_init ig_BridgeStatusNotification_ok \<and>
   codec_roundtrip ig_NbStatusNotification_encode ig_NbStatusNotification_decode ig_NbStatusNotification_get_max_payload_in_bytes
     ig_NbStatusNotification_init ig_NbStatusNotification_ok \<and>
   codec_roundtrip ig_GetLogsRequest_encode ig_GetLogsRequest_decode ig_GetLogsRequest_get_max_payload_in_bytes
     ig_GetLogsRequest_init ig_GetLogsRequest_ok \<and>
   codec_roundtrip ig_GetLogsResponse_encode ig_GetLogsResponse_decode ig_GetLogsResponse_get_max_payload_in_bytes
     ig_GetLogsResponse_init ig_GetLogsResponse_ok \<and>
   codec_roundtrip ig_LogEntry_encode ig_LogEntry_decode ig_LogEntry_get_max_payload_in_bytes
     ig_LogEntry_init ig_LogEntry_ok \<and>
   codec_roundtrip ig_BlacklistGuestKeyRequest_encode ig_BlacklistGuestKeyRequest_decode ig_BlacklistGuestKeyRequest_get_max_payload_in_bytes
     ig_BlacklistGuestKeyRequest_init ig_BlacklistGuestKeyRequest_ok \<and>
   codec_roundtrip ig_BlacklistGuestKeyResponse_encode ig_BlacklistGuestKeyResponse_decode ig_BlacklistGuestKeyResponse_get_max_payload_in_bytes
     ig_BlacklistGuestKeyResponse_init ig_BlacklistGuestKeyResponse_ok \<and>
   codec_roundtrip ig_UnblacklistGuestKeyRequest_encode ig_UnblacklistGuestKeyRequest_decode ig_UnblacklistGuestKeyRequest_get_max_payload_in_bytes
     ig_UnblacklistGuestKeyRequest_init ig_UnblacklistGuestKeyRequest_ok \<and>
   codec_roundtrip ig_UnblacklistGuestKeyResponse_encode ig_UnblacklistGuestKeyResponse_decode ig_UnblacklistGuestKeyResponse_get_max_payload_in_bytes
     ig_UnblacklistGuestKeyResponse_init ig_UnblacklistGuestKeyResponse_ok \<and>
   codec_roundtrip ig_GuestKeyBlacklist_encode ig_GuestKeyBlacklist_decode ig_GuestKeyBlacklist_get_max_payload_in_bytes
     ig_GuestKeyBlacklist_init ig_GuestKeyBlacklist_ok \<and>
   codec_roundtrip ig_GuestCardEkey_encode ig_GuestCardEkey_decode ig_GuestCardEkey_get_max_payload_in_bytes
     ig_GuestCardEkey_init ig_GuestCardEkey_ok"
  by (intro conjI AddCardRequest_codec.roundtrip_codec
      AddCardResponse_codec.roundtrip_codec
      DeleteCardRequest_codec.roundtrip_codec
      DeleteCardResponse_codec.roundtrip_codec
      DeleteCardUidRequest_codec.roundtrip_codec
      DeleteCardUidResponse_codec.roundtrip_codec
      CardAddedNotification_codec.roundtrip_codec
      CardDeletedNotification_codec.roundtrip_codec
      AddFingerprintRequest_codec.roundtrip_codec
      AddFingerprintResponse_codec.roundtrip_codec
      DeleteFingerprintRequest_codec.roundtrip_codec
      DeleteFingerprintResponse_codec.roundtrip_codec
      DeleteFingerprintUidRequest_codec.roundtrip_codec
      DeleteFingerprintUidResponse_codec.roundtrip_codec
      FingerprintAddedNotification_codec.roundtrip_codec
      FingerprintDeletedNotification_codec.roundtrip_codec
      SetTimeRequest_codec.roundtrip_codec
      SetTimeResponse_codec.roundtrip_codec
      GetTimeRequest_codec.roundtrip_codec
      GetTimeResponse_codec.roundtrip_codec
      SetVolumeRequest_codec.roundtrip_codec
      SetVolumeResponse_codec.roundtrip_codec
      SetBrightnessRequest_codec.roundtrip_codec
      SetBrightnessResponse_codec.roundtrip_codec
      SetDaylightSavingRequest_codec.roundtrip_codec
      SetDaylightSavingResponse_codec.roundtrip_codec
      DaylightSavingRange_codec.roundtrip_codec
      GetBatteryLevelRequest_codec.roundtrip_codec
      GetBatteryLevelResponse_codec.roundtrip_codec
      EnableDfuRequest_codec.roundtrip_codec
      EnableDfuResponse_codec.roundtrip_codec
      GetFirmwareVersionRequest_codec.roundtrip_codec
      GetFirmwareVersionResponse_codec.roundtrip_codec
      AddLockRequest_codec.roundtrip_codec
      AddLockResponse_codec.roundtrip_codec
      DeleteLockRequest_codec.roundtrip_codec
      DeleteLockResponse_codec.roundtrip_codec
      SetBridgeConfigurationRequest_codec.roundtrip_codec
      SetBridgeConfigurationResponse_codec.roundtrip_codec
      SetNbConfigurationRequest_codec.roundtrip_codec
      SetNbConfigurationResponse_codec.roundtrip_codec
      BridgeStatusNotification_codec.roundtrip_codec
      NbStatusNotification_codec.roundtrip_codec
      GetLogsRequest_codec.roundtrip_codec
      GetLogsResponse_codec.roundtrip_codec
      LogEntry_codec.roundtrip_codec
      BlacklistGuestKeyRequest_codec.roundtrip_codec
      BlacklistGuestKeyResponse_codec.roundtrip_codec
      UnblacklistGuestKeyRequest_codec.roundtrip_codec
      UnblacklistGuestKeyResponse_codec.roundtrip_codec
      GuestKeyBlacklist_codec.roundtrip_codec
      GuestCardEkey_codec.roundtrip_codec)


text \<open>C5. A lock command publishes at most one report, and only when it returns 0; and it returns 0 only
  for a known command and a lock whose own session was confirmed: in the session HandleLockCMD
  began for this lock on this table, driven by a beginning of its events, the program stood in
  step 4, and the next notification completed a message that is the seal, under the first 16 bytes
  of the key of this lock and the receive nonce of its slot, of a text that decodes to a
  confirmation with success set. So nothing is reported for a lock that did not prove that it
  knows the key. The witness is a run with events that returns 0.\<close>
theorem command_reports_confirmed:
  assumes "conns_ok conns"
    and "HandleLockCMD env events lock cmd request conns = Ok (ret, reports, conns')"
  shows "length reports \<le> 1 \<and> ret \<in> {0, - 1} \<and> (reports \<noteq> [] \<longrightarrow> ret = 0) \<and>
    (ret = 0 \<longrightarrow> (\<exists>task key s1. task_of_command cmd = Some task \<and> lock_key lock = Some key \<and> 16 \<le> length key \<and>
       write_guest_step1 env (new_session task (bleSetGuestParam lock) (request_of_command cmd request) conns) = Ok (0, s1) \<and>
       confirmed_run env events (take 16 key) s1))"
  by (rule command_reports [OF assms])

theorem command_reports_confirmed_witness:
  "\<exists>ps conns key s1. HandleLockCMD example_env (map Notification ps) example_lock 2 NoRequest connections_init = Ok (0, [], conns) \<and>
    lock_key example_lock = Some key \<and> confirmed_run example_env (map Notification ps) (take 16 key) s1"
proof -
  obtain ps conns where h: "HandleLockCMD example_env (map Notification ps) example_lock 2 NoRequest connections_init = Ok (0, [], conns)"
    using example_success by blast
  show ?thesis using command_reports_confirmed [OF conns_ok_init h] h by blast
qed

text \<open>C6. In a reachable session the step never goes back, and the step that sends the command is entered
  only by a notification that completes the step 4 message while the session is in step 4 and
  whose confirmation recConnStep4Native accepts.\<close>
theorem command_needs_confirmation:
  assumes "guest_reach env s"
    and "\<not> loop_quit s"
    and "handle_guest_event env e s = Ok s'"
  shows "step_rank (guest_step (guest_conn s)) \<le> step_rank (guest_step (guest_conn s')) \<and>
    (guest_step (guest_conn s) \<noteq> BLE_GUEST_CMD_RESULT \<and> guest_step (guest_conn s') = BLE_GUEST_CMD_RESULT \<longrightarrow>
      (\<exists>data s1. e = Notification data \<and> guest_step (guest_conn s) = BLE_GUEST_STEP4 \<and>
         save_packet env data s = Ok s1 \<and> confirmed s1))"
  using event_ok [OF reach_ok [OF assms(1)] assms(2,3)] by blast

theorem command_needs_confirmation_witness:
  "\<exists>s. guest_reach example_env s \<and>
    step_rank (guest_step (guest_conn s)) \<le> step_rank (guest_step (guest_conn (stop_main_loop_func s)))"
proof -
  obtain s where "write_guest_step1 example_env (new_session TASK_BLE_GUEST_LOCK example_lock NoRequest connections_init) = Ok (0, s)"
    using example_started by blast
  then have r: "guest_reach example_env s" "\<not> loop_quit s"
    using started [OF conns_ok_init] step1_runs by blast+
  have "handle_guest_event example_env Timeout s = Ok (stop_main_loop_func s)" by (simp add: handle_guest_event_def)
  with command_needs_confirmation [OF r] r show ?thesis by blast
qed

text \<open>C7. When the receive nonce of one end is the transmit nonce of the other and the keys agree, any
  list of messages of 1 to 4088 bytes sent by encryptNative is received by decryptNative complete
  and in order, and the ends are in step again afterwards.\<close>
theorem session_in_order:
  assumes "in_step i A j B"
    and "\<forall>m \<in> set ms. m \<noteq> [] \<and> length m \<le> 4088"
  shows "\<exists>cs A' B'. send_all i ms A = Ok (cs, A') \<and> receive_all j cs B = Ok (ms, B') \<and> in_step i A' j B'"
  by (rule session_complete [OF assms])

theorem session_in_order_witness:
  "\<exists>cs A' B'. send_all 1 [[1, 2], [3]] connections_init = Ok (cs, A') \<and> receive_all 2 cs connections_init = Ok ([[1, 2], [3]], B') \<and>
   in_step 1 A' 2 B'"
proof (rule session_in_order)
  show "in_step 1 connections_init 2 connections_init"
    using conns_ok_init by (simp add: in_step_def connections_init_def)
qed simp

text \<open>C8. The two linked lists of the task queue implement two sequences: any run of insertions at the
  front and the tail, moves between the lists and deletions that is allowed on the sequences
  succeeds on the memory, and the two rings then hold exactly the resulting sequences, disjoint
  and with all their tasks allocated.\<close>
theorem task_queue_refines:
  assumes "holds s ds ws"
    and "spec_ops ops (heads s) (ds, ws) = Some (ds', ws')"
  shows "\<exists>s'. perform_all ops s = Ok s' \<and> holds s' ds' ws' \<and> heads s' = heads s"
  by (rule perform_all_refines [OF assms])

theorem task_queue_refines_witness:
  "\<exists>s'. perform_all [Insert_Tail 10 example_junk example_links example_args, Insert_Front 11 example_junk example_links example_args, To_Waiting 10,
      Delete_Doing 11] empty_queues = Ok s' \<and> holds s' [] [10] \<and> heads s' = heads empty_queues"
proof -
  obtain t u where "new_task example_args False example_junk = Ok t" "new_task example_args True example_junk = Ok u"
    using example_task by blast
  then have "spec_ops [Insert_Tail 10 example_junk example_links example_args, Insert_Front 11 example_junk example_links example_args, To_Waiting 10,
      Delete_Doing 11] (heads empty_queues) ([], []) = Some ([], [10])"
    by (simp add: empty_queues_hold(2))
  then show ?thesis by (rule task_queue_refines [OF empty_queues_hold(1)])
qed

text \<open>C9. With AES, cf_ccm_encrypt, which runs buffered CBC-MAC and CTR streams, computes the cipher text
  and the tag of CCM in the form of RFC 3610.\<close>
theorem ccm_encrypt_refines_reference:
  assumes "aes_ok ctx"
    and "ccm_args L header nonce ntag plain"
  shows "cf_ccm_encrypt cf_aes ctx plain L header nonce ntag = Ok (ccm_cipher (aes_block ctx) L nonce plain, ccm_tag (aes_block ctx) L header nonce ntag plain)"
  by (rule aes.encrypt_reference [OF assms])

theorem ccm_encrypt_refines_reference_witness:
  "cf_ccm_encrypt cf_aes \<lparr>rounds = 10, ks = replicate 60 3\<rparr> [1, 2, 3] 3 [] (replicate 12 9) 8 =
    Ok (ccm_cipher (aes_block \<lparr>rounds = 10, ks = replicate 60 3\<rparr>) 3 (replicate 12 9) [1, 2, 3],
        ccm_tag (aes_block \<lparr>rounds = 10, ks = replicate 60 3\<rparr>) 3 [] (replicate 12 9) 8 [1, 2, 3])"
  by (rule ccm_encrypt_refines_reference) (simp_all add: aes_ok_def ccm_args_def)

text \<open>C10. cf_ccm_decrypt succeeds with a plain text exactly when cipher text and tag are what
  cf_ccm_encrypt produces for that plain text under the same key, nonce and header; if there is no
  such plain text it returns 1 and the buffer of the plain text holds zeros.\<close>
theorem ccm_decrypt_accepts:
  assumes "aes_ok ctx"
    and "ccm_args L header nonce (length tag) cipher"
  shows "(cf_ccm_decrypt cf_aes ctx cipher L header nonce tag = Ok (0, plain) \<longleftrightarrow>
     cf_ccm_encrypt cf_aes ctx plain L header nonce (length tag) = Ok (cipher, tag)) \<and>
   ((\<exists>p. cf_ccm_encrypt cf_aes ctx p L header nonce (length tag) = Ok (cipher, tag)) \<or>
     cf_ccm_decrypt cf_aes ctx cipher L header nonce tag = Ok (1, replicate (length cipher) 0))"
  using aes.decrypt_accepts [OF assms] aes.decrypt_reference [OF assms] by (auto simp: Let_def split: if_splits)

theorem ccm_decrypt_accepts_witness:
  "cf_ccm_decrypt cf_aes \<lparr>rounds = 10, ks = replicate 60 3\<rparr> [1, 2, 3] 3 [] (replicate 12 9) (replicate 8 4) = Ok (0, [5, 6, 7]) \<longleftrightarrow>
   cf_ccm_encrypt cf_aes \<lparr>rounds = 10, ks = replicate 60 3\<rparr> [5, 6, 7] 3 [] (replicate 12 9) 8 = Ok ([1, 2, 3], replicate 8 4)"
  using ccm_decrypt_accepts [of "\<lparr>rounds = 10, ks = replicate 60 3\<rparr>" 3 "[]" "replicate 12 9" "replicate 8 4" "[1, 2, 3]" "[5, 6, 7]"]
  by (simp add: aes_ok_def ccm_args_def)

text \<open>C11. cf_aes_decrypt undoes cf_aes_encrypt on every block of 16 bytes, for every context of 10, 12 or
  14 rounds.\<close>
theorem aes_inverse:
  assumes "length b = 16"
    and "rounds ctx = 10 \<or> rounds ctx = 12 \<or> rounds ctx = 14"
  shows "bindR (cf_aes_encrypt ctx b) (cf_aes_decrypt ctx) = Ok b"
  by (rule aes_decrypt_inverse [OF assms])

theorem aes_inverse_witness:
  "bindR (cf_aes_encrypt \<lparr>rounds = 12, ks = replicate 60 3\<rparr> (replicate 16 1)) (cf_aes_decrypt \<lparr>rounds = 12, ks = replicate 60 3\<rparr>) = Ok (replicate 16 1)"
  using aes_inverse [of "replicate 16 1" "\<lparr>rounds = 12, ks = replicate 60 3\<rparr>"] by simp

text \<open>C12. For 8 to 4096 bytes received, decryptNative hands out a message exactly when it is not empty and
  the bytes are the seal of it under the key and the current receive nonce of the slot: nothing
  forged, altered, replayed or out of order is accepted. (Outside these lengths nothing is handed
  out: shorter ones leave memory, longer ones are refused, and the empty message counts as a
  failure.)\<close>
theorem receive_authentic:
  assumes "conns_ok conns"
    and "k < 32"
    and "8 \<le> length c"
    and "length c \<le> 4096"
  shows "(\<exists>n conns'. decryptNative (int k) c (word_of_nat (length c)) conns = Ok (n, Some msg, conns')) \<longleftrightarrow>
   msg \<noteq> [] \<and> c = seal (conn_key (conns ! k)) (rxNonce (conns ! k)) msg"
  by (rule receive_iff [OF assms])

theorem receive_authentic_witness:
  "(\<exists>n conns'. decryptNative (int 4) (replicate 9 0) (word_of_nat (length (replicate 9 (0 :: u8)))) connections_init = Ok (n, Some [1], conns')) \<longleftrightarrow>
   [1] \<noteq> ([] :: bytes) \<and> replicate 9 0 = seal (conn_key (connections_init ! 4)) (rxNonce (connections_init ! 4)) [1]"
  by (rule receive_authentic) (simp_all add: conns_ok_init)

text \<open>C13. Step 2 of the admin connection: given a step 1 message with a nonce N of 12 bytes, the answer is
  a seal under the slot key and N of the step 2 message carrying the receive nonce of the slot, N
  is used once, and with a peer that holds the same key, expects the next nonce and sends from the
  nonce it got, both directions are in step.\<close>
theorem admin_handshake:
  assumes "conns_ok A"
    and "i < 32"
    and "length bs < 2 ^ 31"
    and "ig_AdminConnectionStep1_decode bs ig_AdminConnectionStep1_init 0 = Ok (0, s1)"
    and "AdminConnectionStep1_has_nonce s1"
    and "AdminConnectionStep1_nonce s1 = Some N"
    and "AdminConnectionStep1_nonce_size s1 = 12"
    and "length N = 12"
    and "conns_ok B"
    and "j < 32"
    and "conn_key (B ! j) = conn_key (A ! i)"
    and "rxNonce (B ! j) = incrementNonce N"
    and "txNonce (B ! j) = rxNonce (A ! i)"
  shows "(\<exists>p. AdminConnection_genConnStep2Native (int i) (Some bs) (word_of_nat (length bs)) A =
      Ok (word_of_nat (length p + 8), Some (seal (conn_key (A ! i)) N p), A[i := (A ! i)\<lparr>txNonce := incrementNonce N\<rparr>]) \<and>
     ig_AdminConnectionStep2_decode p ig_AdminConnectionStep2_init 0 = Ok (0, admin_step2 (rxNonce (A ! i)))) \<and>
   in_step i (A[i := (A ! i)\<lparr>txNonce := incrementNonce N\<rparr>]) j B \<and> in_step j B i (A[i := (A ! i)\<lparr>txNonce := incrementNonce N\<rparr>])"
  using admin_answers [OF assms(1,2,3,4,5,6,7,8)] handshake_in_step [OF assms(1,9,2,10,8,11,12,13)] by blast

theorem admin_handshake_witness:
  "\<exists>p. AdminConnection_genConnStep2Native (int 0) (Some ([0xa2, 0x00, 0x06, 0x0b, 0x4c] @ [7, 7, 7, 7, 7, 7, 7, 7, 7, 7, 7, 7])) 17 connections_init =
      Ok (word_of_nat (length p + 8), Some (seal (replicate 16 0) [7, 7, 7, 7, 7, 7, 7, 7, 7, 7, 7, 7] p), connections_init[0 := (connections_init ! 0)\<lparr>txNonce := incrementNonce [7, 7, 7, 7, 7, 7, 7, 7, 7, 7, 7, 7]\<rparr>])"
proof -
  let ?N = "[7, 7, 7, 7, 7, 7, 7, 7, 7, 7, 7, 7] :: bytes"
  let ?bs = "[0xa2, 0x00, 0x06, 0x0b, 0x4c] @ ?N"
  let ?s1 = "\<lparr>AdminConnectionStep1_has_nonce = True, AdminConnectionStep1_nonce = Some ?N, AdminConnectionStep1_nonce_size = 12\<rparr>"
  let ?B = "connections_init[0 := (connections_init ! 0)\<lparr>rxNonce := incrementNonce ?N\<rparr>]"
  have d: "ig_AdminConnectionStep1_decode ?bs ig_AdminConnectionStep1_init 0 = Ok (0, ?s1)" by code_simp
  have B: "conns_ok ?B" using conns_ok_init conns_ok_nth [OF conns_ok_init, of 0] by simp
  have l: "length ?bs < 2 ^ 31" "0 < (32 :: nat)" "length ?N = 12" by simp_all
  have f: "conn_key (?B ! 0) = conn_key (connections_init ! 0)" "rxNonce (?B ! 0) = incrementNonce ?N"
    "txNonce (?B ! 0) = rxNonce (connections_init ! 0)" "conn_key (connections_init ! 0) = replicate 16 0"
    by (simp_all add: connections_init_def)
  have s: "AdminConnectionStep1_has_nonce ?s1" "AdminConnectionStep1_nonce ?s1 = Some ?N" "AdminConnectionStep1_nonce_size ?s1 = 12"
    by simp_all
  from admin_handshake [OF conns_ok_init l(2) l(1) d s l(3) B l(2) f(1-3)]
  show ?thesis by (auto simp: f(4))
qed

text \<open>C14. Step 3 of the guest connection: given a step 2 message with a nonce N of 12 bytes, the answer is
  a seal under the slot key and N of the step 3 message carrying the receive nonce of the slot,
  and the transmit nonce is N plus one.\<close>
theorem guest_handshake:
  assumes "conns_ok conns"
    and "k < 32"
    and "length bs < 2 ^ 31"
    and "ig_GuestConnectionStep2_decode bs ig_GuestConnectionStep2_init 0 = Ok (0, s2)"
    and "GuestConnectionStep2_has_nonce s2"
    and "GuestConnectionStep2_nonce s2 = Some N"
    and "GuestConnectionStep2_nonce_size s2 = 12"
    and "length N = 12"
  shows "\<exists>p. GuestConnection_genConnStep3Native (int k) (Some bs) (word_of_nat (length bs)) conns =
      Ok (word_of_nat (length p + 8), Some (seal (conn_key (conns ! k)) N p), conns[k := (conns ! k)\<lparr>txNonce := incrementNonce N\<rparr>]) \<and>
    ig_GuestConnectionStep3_decode p ig_GuestConnectionStep3_init 0 = Ok (0, guest_step3 (rxNonce (conns ! k)))"
  by (rule guest_answers [OF assms])

theorem guest_handshake_witness:
  "\<exists>p. GuestConnection_genConnStep3Native (int 0) (Some ([0xa2, 0x00, 0x0a, 0x0b, 0x4c] @ [7, 7, 7, 7, 7, 7, 7, 7, 7, 7, 7, 7])) 17 connections_init =
      Ok (word_of_nat (length p + 8), Some (seal (replicate 16 0) [7, 7, 7, 7, 7, 7, 7, 7, 7, 7, 7, 7] p), connections_init[0 := (connections_init ! 0)\<lparr>txNonce := incrementNonce [7, 7, 7, 7, 7, 7, 7, 7, 7, 7, 7, 7]\<rparr>])"
proof -
  let ?N = "[7, 7, 7, 7, 7, 7, 7, 7, 7, 7, 7, 7] :: bytes"
  let ?bs = "[0xa2, 0x00, 0x0a, 0x0b, 0x4c] @ ?N"
  let ?s2 = "\<lparr>GuestConnectionStep2_has_nonce = True, GuestConnectionStep2_nonce = Some ?N, GuestConnectionStep2_nonce_size = 12\<rparr>"
  have d: "ig_GuestConnectionStep2_decode ?bs ig_GuestConnectionStep2_init 0 = Ok (0, ?s2)" by code_simp
  have l: "length ?bs < 2 ^ 31" "0 < (32 :: nat)" "length ?N = 12" by simp_all
  have f: "conn_key (connections_init ! 0) = replicate 16 0" by (simp add: connections_init_def)
  have s: "GuestConnectionStep2_has_nonce ?s2" "GuestConnectionStep2_nonce ?s2 = Some ?N" "GuestConnectionStep2_nonce_size ?s2 = 12"
    by simp_all
  from guest_handshake [OF conns_ok_init l(2) l(1) d s l(3)] show ?thesis by (auto simp: f)
qed

text \<open>C15. The last step of both handshakes: the confirmation is accepted exactly when it is sealed under
  the slot key and receive nonce and decodes to a message with success set; the receive nonce
  moves even when it is rejected. This is for messages of 8 to 4096 bytes; the number the decoder
  returns is not looked at, so a message that sets success and then fails to decode counts too.\<close>
theorem confirmation_checked:
  assumes "conns_ok conns"
    and "k < 32"
    and "8 \<le> length c"
    and "length c \<le> 4096"
  shows "AdminConnection_recConnStep3Native (int k) (Some c) (word_of_nat (length c)) conns =
    (case unseal (conn_key (conns ! k)) (rxNonce (conns ! k)) c of
       None \<Rightarrow> Ok (False, conns[k := (conns ! k)\<lparr>rxNonce := incrementNonce (rxNonce (conns ! k))\<rparr>])
     | Some p \<Rightarrow> bindR (ig_AdminConnectionStep3_decode p ig_AdminConnectionStep3_init 0) (\<lambda>(err, s3).
         Ok (AdminConnectionStep3_has_success s3 \<and> AdminConnectionStep3_success s3,
             conns[k := (conns ! k)\<lparr>rxNonce := incrementNonce (rxNonce (conns ! k))\<rparr>]))) \<and>
   GuestConnection_recConnStep4Native (int k) (Some c) (word_of_nat (length c)) conns =
    (case unseal (conn_key (conns ! k)) (rxNonce (conns ! k)) c of
       None \<Rightarrow> Ok (False, conns[k := (conns ! k)\<lparr>rxNonce := incrementNonce (rxNonce (conns ! k))\<rparr>])
     | Some p \<Rightarrow> bindR (ig_GuestConnectionStep4_decode p ig_GuestConnectionStep4_init 0) (\<lambda>(err, s4).
         Ok (GuestConnectionStep4_has_success s4 \<and> GuestConnectionStep4_success s4,
             conns[k := (conns ! k)\<lparr>rxNonce := incrementNonce (rxNonce (conns ! k))\<rparr>])))"
  using admin_confirms [OF assms] guest_confirms [OF assms] by blast

theorem confirmation_checked_witness:
  "\<exists>ok conns. AdminConnection_recConnStep3Native (int 0) (Some (seal (conn_key (connections_init ! 0)) (rxNonce (connections_init ! 0)) [0xa2, 0x00, 0x08, 0x0b, 0xf5]))
      (word_of_nat (length (seal (conn_key (connections_init ! 0)) (rxNonce (connections_init ! 0)) [0xa2, 0x00, 0x08, 0x0b, 0xf5])))
      connections_init = Ok (True, conns)"
proof -
  let ?p = "[0xa2, 0x00, 0x08, 0x0b, 0xf5] :: bytes"
  let ?k = "conn_key (connections_init ! 0)" and ?n = "rxNonce (connections_init ! 0)"
  have key: "good_key ?k" "length ?n = 12" by (simp_all add: connections_init_def good_key_def)
  have d: "ig_AdminConnectionStep3_decode ?p ig_AdminConnectionStep3_init 0 =
    Ok (0, \<lparr>AdminConnectionStep3_has_success = True, AdminConnectionStep3_success = True\<rparr>)" by code_simp
  have l: "8 \<le> length (seal ?k ?n ?p)" "length (seal ?k ?n ?p) \<le> 4096" using key by simp_all
  have k: "0 < (32 :: nat)" by simp
  from confirmation_checked [OF conns_ok_init k l] key show ?thesis by (simp add: d del: of_nat_add)
qed

text \<open>C16. A whole pairing between the client of pairing_connection.c and the process of
  wifi_service/server.c: the frames of the three messages of the client, cut into packets anywhere
  behind the head, take the machine from PAIRING_BEGIN to SET_WIFI_BEGIN; the service writes two
  answers, which the client accepts; both ends hold the same key, and the record handed to the
  WiFi process has that key. Both nonces of the record are one step behind those of the client.
  One byte of the public key of the service, which the code reads as the flag has_nonce of a
  struct, must not be 0. The item of the machine that no call fills (fresh memory) is taken to
  have event 0.\<close>
theorem service_pairs_client:
  assumes "ft_event junk_item = 0"
    and "pairing_ok s0"
    and "recv_pairing_data w0 = Some recv_empty"
    and "server_ok (srv w0)"
    and "host_make_key e1 = Some (pub, priv)"
    and "length pub = 64"
    and "length priv = 32"
    and "host_shared_secret e1 (publicKey s0) priv = Some z"
    and "shared_secret pub (privateKey s0) = Some z"
    and "length z = 32"
    and "6 \<le> nonce_flag_offset e1"
    and "nonce_flag_offset e1 < 70"
    and "pub ! (nonce_flag_offset e1 - 6) \<noteq> 0"
    and "drbg_ok (host_drbg e3)"
    and "host_connects e5"
    and "host_writes e5"
    and "0 \<le> write_socket w0"
  shows "initPairingFsm junk_item fsm_empty = Ok (pairing_fsm junk_item PAIRING_BEGIN) \<and>
   (\<exists>p1 m2 c3 s1 m4 s4 s2 c5 s3 v.
    PairingConnection_genPairingStep1Native s0 = Ok (word_of_nat (length p1), Some p1) \<and> length p1 \<le> 84 \<and>
    PairingConnection_genPairingStep3Native shared_secret (word_of_nat (length m2)) (Some m2) s0 = Ok (word_of_nat (length c3), Some c3, s1) \<and> length c3 \<le> 74 \<and>
    PairingConnection_recPairingStep4Native (word_of_nat (length m4)) (Some m4) s1 = Ok (Some s4, s2) \<and>
    PairingConnection_genPairingCommitNative now s2 = Ok (word_of_nat (length c5), Some c5, s3) \<and> length c5 \<le> 27 \<and>
    (\<forall>ds1 ds3 ds5. packets_of p1 ds1 \<and> packets_of c3 ds3 \<and> packets_of c5 ds5 \<longrightarrow>
      (\<exists>w1 w2 w3 d. write_packets e1 ds1 (pairing_fsm junk_item PAIRING_BEGIN) w0 = Ok (pairing_fsm junk_item PAIRING_STEP2, w1) \<and>
        write_packets e3 ds3 (pairing_fsm junk_item PAIRING_STEP2) w1 = Ok (pairing_fsm junk_item PAIRING_STEP4, w2) \<and>
        write_packets e5 ds5 (pairing_fsm junk_item PAIRING_STEP4) w2 = Ok (pairing_fsm junk_item SET_WIFI_BEGIN, w3) \<and>
        values_sent w3 = values_sent w0 @ [word_of_nat (length m2) # m2, word_of_nat (length m4) # m4] \<and>
        handed w3 = handed w0 @ [d] \<and> decodeCrypt d Crypt_zero 0 = Ok (0, server_crypt v))) \<and>
    PairingConnection_getAdminKeyNative s3 = Ok (16, server_pairing_admin_key v) \<and> server_pairing_admin_key v = take 16 z \<and>
    PairingStep4_pin_key s4 = Some (pairing_pin_key v) \<and>
    p_txNonce s3 = incrementNonce (server_nonce v) \<and> p_rxNonce s3 = incrementNonce (client_nonce v) \<and>
    length m2 = 84 \<and> m2 ! 1 = 0 \<and> 8 \<le> length m4 \<and> length m4 \<le> 76 \<and> 8 \<le> length c3 \<and> 8 \<le> length c5 \<and> s4 = step4_of v \<and> length (pairing_password v) = 8)"
  by (rule conjI [OF initPairingFsm_builds service_pairing_run [where shared_secret = shared_secret, OF assms]])

theorem service_pairs_client_witness:
  "\<exists>p1 c3 c5 w1 w2 w3. PairingConnection_genPairingStep1Native pairing_init = Ok (word_of_nat (length p1), Some p1) \<and>
    write_packets (example_host (replicate 64 1)) [wifi_frame p1] (pairing_fsm example_item PAIRING_BEGIN) example_service =
      Ok (pairing_fsm example_item PAIRING_STEP2, w1) \<and>
    write_packets (example_host (replicate 64 1)) [wifi_frame c3] (pairing_fsm example_item PAIRING_STEP2) w1 =
      Ok (pairing_fsm example_item PAIRING_STEP4, w2) \<and>
    write_packets (example_host (replicate 64 1)) [wifi_frame c5] (pairing_fsm example_item PAIRING_STEP4) w2 =
      Ok (pairing_fsm example_item SET_WIFI_BEGIN, w3) \<and> length (values_sent w3) = 2 \<and> length (handed w3) = 1"
proof -
  let ?e = "example_host (replicate 64 1)" and ?f = "\<lambda>pub priv :: bytes. Some (replicate 32 (5 :: u8))"
  have h: "ft_event example_item = 0" "pairing_ok pairing_init" "recv_pairing_data example_service = Some recv_empty" "server_ok (srv example_service)"
    "host_make_key ?e = Some (replicate 64 1, replicate 32 2)" "length (replicate 64 1 :: bytes) = 64" "length (replicate 32 2 :: bytes) = 32"
    "host_shared_secret ?e (publicKey pairing_init) (replicate 32 2) = Some (replicate 32 5)"
    "?f (replicate 64 1) (privateKey pairing_init) = Some (replicate 32 5)" "length (replicate 32 5 :: bytes) = 32"
    "6 \<le> nonce_flag_offset ?e" "nonce_flag_offset ?e < 70" "(replicate 64 1 :: bytes) ! (nonce_flag_offset ?e - 6) \<noteq> 0"
    "drbg_ok (host_drbg ?e)" "host_connects ?e" "host_writes ?e" "0 \<le> write_socket example_service"
    by (simp_all add: example_service_defs drbg_ok_zeros)
  have at_start: "values_sent example_service = []" "handed example_service = []" by (simp_all add: example_service_def)
  from service_pairs_client [where shared_secret = ?f and now = 0, OF h] obtain p1 c3 c5 m2 m4 v where
    p: "PairingConnection_genPairingStep1Native pairing_init = Ok (word_of_nat (length p1), Some p1)" "length p1 \<le> 84" "length c3 \<le> 74" "length c5 \<le> 27"
    and run: "\<forall>ds1 ds3 ds5. packets_of p1 ds1 \<and> packets_of c3 ds3 \<and> packets_of c5 ds5 \<longrightarrow>
      (\<exists>w1 w2 w3 d. write_packets ?e ds1 (pairing_fsm example_item PAIRING_BEGIN) example_service = Ok (pairing_fsm example_item PAIRING_STEP2, w1) \<and>
        write_packets ?e ds3 (pairing_fsm example_item PAIRING_STEP2) w1 = Ok (pairing_fsm example_item PAIRING_STEP4, w2) \<and>
        write_packets ?e ds5 (pairing_fsm example_item PAIRING_STEP4) w2 = Ok (pairing_fsm example_item SET_WIFI_BEGIN, w3) \<and>
        values_sent w3 = values_sent example_service @ [word_of_nat (length m2) # m2, word_of_nat (length m4) # m4] \<and>
        handed w3 = handed example_service @ [d] \<and> decodeCrypt d Crypt_zero 0 = Ok (0, server_crypt v))"
    by (elim conjE exE) (erule (4) that)
  have "packets_of p1 [wifi_frame p1]" "packets_of c3 [wifi_frame c3]" "packets_of c5 [wifi_frame c5]"
    using p(2-4) by (auto intro!: one_packet)
  with run obtain w1 w2 w3 d where w:
    "write_packets ?e [wifi_frame p1] (pairing_fsm example_item PAIRING_BEGIN) example_service = Ok (pairing_fsm example_item PAIRING_STEP2, w1)"
    "write_packets ?e [wifi_frame c3] (pairing_fsm example_item PAIRING_STEP2) w1 = Ok (pairing_fsm example_item PAIRING_STEP4, w2)"
    "write_packets ?e [wifi_frame c5] (pairing_fsm example_item PAIRING_STEP4) w2 = Ok (pairing_fsm example_item SET_WIFI_BEGIN, w3)"
    "values_sent w3 = values_sent example_service @ [word_of_nat (length m2) # m2, word_of_nat (length m4) # m4]"
    "handed w3 = handed example_service @ [d]" by blast
  have "length (values_sent w3) = 2" "length (handed w3) = 1" using w(4,5) at_start by simp_all
  then show ?thesis using p(1) w(1-3) by blast
qed

text \<open>C17. The pairing task of ble/ble_pairing.c, run by FSMHandle over its six rows, against the process
  of wifi_service/server.c: there are answers m2 and m4 of the service such that, whenever their
  frames reach the task as notifications cut anywhere behind the third byte, the task returns 0
  and the packets it wrote take the service through the whole pairing; the service sent exactly
  those two frames, the result handed to the caller holds the key that is in the record the
  service hands over, the result of the connection its password, and the link is closed if
  disconnecting goes well (ph_ends). The exception, one message in 256: if the second byte of the
  sealed m4 is 0xff its frame is taken for the long form and the task waits for ever. The links
  work, both ends compute the same curve secret, the byte of the public key read as a flag is not
  0, and the unfilled item of the machine has event 0.\<close>
theorem pairing_task_with_service:
  assumes "lock_ok (ph_lock h)"
    and "ph_connects h"
    and "ph_notifies h"
    and "\<forall>sent p. ph_gatt h sent p = 0"
    and "pairing_ok k0"
    and "ph_make_key h = Some (cpub, cpriv)"
    and "length cpub = 64"
    and "length cpriv = 32"
    and "q_tasks q a = Some tn"
    and "t_task_sm_table tn = Some pairing_fsm_table"
    and "t_sm_table_len tn = 6"
    and "t_cur_state tn = 0"
    and "ft_event junk_item = 0"
    and "recv_pairing_data w0 = Some recv_empty"
    and "server_ok (srv w0)"
    and "host_make_key e1 = Some (pub, priv)"
    and "length pub = 64"
    and "length priv = 32"
    and "host_shared_secret e1 cpub priv = Some z"
    and "ph_shared_secret h pub cpriv = Some z"
    and "length z = 32"
    and "6 \<le> nonce_flag_offset e1"
    and "nonce_flag_offset e1 < 70"
    and "pub ! (nonce_flag_offset e1 - 6) \<noteq> 0"
    and "drbg_ok (host_drbg e3)"
    and "host_connects e5"
    and "host_writes e5"
    and "0 \<le> write_socket w0"
  shows "\<exists>m2 m4 v. length m2 = 84 \<and> 8 \<le> length m4 \<and> length m4 \<le> 76 \<and> server_pairing_admin_key v = take 16 z \<and>
    (\<forall>(t :: pairing_task) ds2 ds4. pt_keys t = k0 \<and> notified m2 ds2 \<and> notified m4 ds4 \<and> notifications t = ds2 @ ds4 \<longrightarrow>
      (if m4 ! 1 = 0xff then FSMHandle (pairing_task_action h) a q t = Fault OutOfFuel
       else \<exists>q' t' ps1 ps3 ps5 w1 w2 w3 d ad.
        FSMHandle (pairing_task_action h) a q t = Ok (0, q', t') \<and> pt_sent t' = pt_sent t @ ps1 @ ps3 @ ps5 \<and>
        write_packets e1 ps1 (pairing_fsm junk_item PAIRING_BEGIN) w0 = Ok (pairing_fsm junk_item PAIRING_STEP2, w1) \<and>
        write_packets e3 ps3 (pairing_fsm junk_item PAIRING_STEP2) w1 = Ok (pairing_fsm junk_item PAIRING_STEP4, w2) \<and>
        write_packets e5 ps5 (pairing_fsm junk_item PAIRING_STEP4) w2 = Ok (pairing_fsm junk_item SET_WIFI_BEGIN, w3) \<and>
        values_sent w3 = values_sent w0 @ [word_of_nat (length m2) # m2, word_of_nat (length m4) # m4] \<and>
        handed w3 = handed w0 @ [d] \<and> decodeCrypt d Crypt_zero 0 = Ok (0, server_crypt v) \<and>
        pt_returned t' = Some \<lparr>front_addr = ad, front_successed = True, front_has_key = True, front_key = Some (server_pairing_admin_key v)\<rparr> \<and>
        pr_password (pairing_result (pt_conn t')) = Some (pairing_password v) \<and> (ph_ends h \<longrightarrow> \<not> pc_linked (pt_conn t'))))"
  by (rule task_pairs_with_service [OF assms])

theorem pairing_task_with_service_witness:
  "\<exists>m2 m4. length m2 = 84 \<and>
    (let outcome = FSMHandle (pairing_task_action (example_phone (replicate 64 4))) 3 example_pairing_queue
        (example_pairing_task [84 # m2, word_of_nat (length m4) # m4])
     in if m4 ! 1 = 0xff then outcome = Fault OutOfFuel
        else \<exists>q' t'. outcome = Ok (0, q', t') \<and> pt_returned t' \<noteq> None \<and> \<not> pc_linked (pt_conn t'))"
proof -
  let ?e = "example_host (replicate 64 1)" and ?h = "example_phone (replicate 64 4)"
  have h: "lock_ok (ph_lock ?h)" "ph_connects ?h" "ph_notifies ?h" "\<forall>sent p. ph_gatt ?h sent p = 0" "pairing_ok pairing_init"
    "ph_make_key ?h = Some (replicate 64 4, replicate 32 3)" "length (replicate 64 4 :: bytes) = 64" "length (replicate 32 3 :: bytes) = 32"
    "q_tasks example_pairing_queue 3 = Some example_pairing_node" "t_task_sm_table example_pairing_node = Some pairing_fsm_table"
    "t_sm_table_len example_pairing_node = 6" "t_cur_state example_pairing_node = 0"
    by (simp_all add: example_task_defs lock_ok_def MAX_DEVICE_ADDR_def pairing_ok_init)
  have w: "ft_event example_item = 0" "recv_pairing_data example_service = Some recv_empty" "server_ok (srv example_service)"
    "host_make_key ?e = Some (replicate 64 1, replicate 32 2)" "length (replicate 64 1 :: bytes) = 64" "length (replicate 32 2 :: bytes) = 32"
    "host_shared_secret ?e (replicate 64 4) (replicate 32 2) = Some (replicate 32 5)"
    "ph_shared_secret ?h (replicate 64 1) (replicate 32 3) = Some (replicate 32 5)" "length (replicate 32 5 :: bytes) = 32"
    "6 \<le> nonce_flag_offset ?e" "nonce_flag_offset ?e < 70" "(replicate 64 1 :: bytes) ! (nonce_flag_offset ?e - 6) \<noteq> 0"
    "drbg_ok (host_drbg ?e)" "host_connects ?e" "host_writes ?e" "0 \<le> write_socket example_service"
    by (simp_all add: example_service_defs drbg_ok_zeros example_task_defs)
  let ?t = "\<lambda>m2 m4. example_pairing_task [84 # m2, word_of_nat (length m4) # m4]"
  let ?out = "\<lambda>m2 m4. FSMHandle (pairing_task_action ?h) 3 example_pairing_queue (?t m2 m4)"
  from pairing_task_with_service [OF h w] obtain m2 m4 where m: "length m2 = 84" "8 \<le> length m4"
    and run: "pt_keys (?t m2 m4) = pairing_init \<Longrightarrow> notified m2 [84 # m2] \<Longrightarrow> notified m4 [word_of_nat (length m4) # m4] \<Longrightarrow>
      notifications (?t m2 m4) = [84 # m2] @ [word_of_nat (length m4) # m4] \<Longrightarrow>
      if m4 ! 1 = 0xff then ?out m2 m4 = Fault OutOfFuel
      else \<exists>q' t'. ?out m2 m4 = Ok (0, q', t') \<and> pt_returned t' \<noteq> None \<and> (ph_ends ?h \<longrightarrow> \<not> pc_linked (pt_conn t'))"
    by (elim exE conjE) (rule that, assumption, assumption, (drule spec)+, drule mp, (intro conjI; assumption), auto split: if_splits)
  have n: "notified m2 [84 # m2]" "notified m4 [word_of_nat (length m4) # m4]"
    using one_notification [of m2] one_notification [of m4] m by simp_all
  have at: "pt_keys (?t m2 m4) = pairing_init" "notifications (?t m2 m4) = [84 # m2] @ [word_of_nat (length m4) # m4]"
    by (simp_all add: example_pairing_task_def)
  have "ph_ends ?h" by (simp add: example_task_defs)
  with run [OF at(1) n at(2)] have "if m4 ! 1 = 0xff then ?out m2 m4 = Fault OutOfFuel
      else \<exists>q' t'. ?out m2 m4 = Ok (0, q', t') \<and> pt_returned t' \<noteq> None \<and> \<not> pc_linked (pt_conn t')" by (simp only: simp_thms)
  with m(1) show ?thesis unfolding Let_def by blast
qed

text \<open>C18. The five messages of a pairing between pairing_connection.c (the client) and
  wifi_service/pairing.c (the lock side), commit included: if the curve gives both sides the same
  secret, every step succeeds, and both end with the same key, password, pin key and master pin;
  the lock side has the time of the client.\<close>
theorem pairing_messages_agree:
  assumes "pairing_ok s0"
    and "server_ok v0"
    and "length pub = 64"
    and "length priv = 32"
    and "shared_secret (publicKey s0) priv = Some z"
    and "shared_secret pub (privateKey s0) = Some z"
    and "length z = 32"
    and "drbg_ok drbg"
    and "result_room out"
  shows "\<exists>p1 b2 n2 v1 c3 s1 b4 n4 v2 s4 s2 c5 s3 r v3.
    PairingConnection_genPairingStep1Native s0 = Ok (word_of_nat (length p1), Some p1) \<and>
    server_gen_pairing_step2 shared_secret (Some (pub, priv)) rand t p1 (word_of_nat (length p1)) (replicate 103 0) 103 v0 =
      Ok (0, b2, Some (word_of_nat n2), v1) \<and>
    PairingConnection_genPairingStep3Native shared_secret (word_of_nat n2) (Some (take n2 b2)) s0 =
      Ok (word_of_nat (length c3), Some c3, s1) \<and>
    ig_pairing_step4 junk drbg rand clock c3 (word_of_nat (length c3)) (fresh_block junk 76) 76 v1 =
      Ok (0, b4, Some (word_of_nat n4), v2) \<and>
    PairingConnection_recPairingStep4Native (word_of_nat n4) (Some (take n4 b4)) s1 = Ok (Some s4, s2) \<and>
    PairingConnection_genPairingCommitNative now s2 = Ok (word_of_nat (length c5), Some c5, s3) \<and>
    ig_commit_pairing junk c5 (word_of_nat (length c5)) out v2 = Ok (0, r, v3) \<and>
    PairingConnection_getAdminKeyNative s3 = Ok (16, r_admin_key r) \<and> r_admin_key r = take 16 z \<and>
    PairingStep4_pin_key s4 = Some (r_pin_key r) \<and> PairingStep4_password s4 = Some (r_password r) \<and>
    PairingStep4_master_pin s4 = Some (take (unat (r_master_pin_length r)) (r_master_pin r)) \<and>
    r_current_time r = now"
  by (rule pairing_run [where shared_secret = shared_secret, OF assms])

theorem pairing_messages_agree_witness:
  "\<exists>c5 s2 s3 v2 r v3. PairingConnection_genPairingCommitNative 7 s2 = Ok (word_of_nat (length c5), Some c5, s3) \<and>
    ig_commit_pairing (\<lambda>i. 9) c5 (word_of_nat (length c5)) \<lparr>r_admin_key = replicate 16 0, r_pin_key = replicate 16 0, r_password = replicate 8 0,
      r_master_pin_length = 0, r_master_pin = replicate 10 0, r_current_time = 0, r_gmt_offset = 0, r_dst_length = 0, r_dst = []\<rparr> v2 = Ok (0, r, v3) \<and>
    PairingConnection_getAdminKeyNative s3 = Ok (16, replicate 16 5) \<and> r_current_time r = 7"
proof -
  let ?f = "\<lambda>p q :: bytes. Some (replicate 32 (5 :: u8))" and ?out = "\<lparr>r_admin_key = replicate 16 0, r_pin_key = replicate 16 0,
    r_password = replicate 8 0, r_master_pin_length = 0, r_master_pin = replicate 10 0, r_current_time = 0, r_gmt_offset = 0, r_dst_length = 0, r_dst = []\<rparr>"
  have h: "length (replicate 64 1 :: bytes) = 64" "length (replicate 32 2 :: bytes) = 32" "?f (publicKey pairing_init) (replicate 32 2) = Some (replicate 32 5)"
    "?f (replicate 64 1) (privateKey pairing_init) = Some (replicate 32 5)" "length (replicate 32 5 :: bytes) = 32" "result_room ?out"
    by (simp_all add: result_room_def)
  from pairing_messages_agree [where shared_secret = ?f, OF pairing_ok_init server_ok_init h(1-5) drbg_ok_zeros h(6),
    of "\<lambda>t i. i" 0 "\<lambda>i. 9" "\<lambda>i. i" 7]
  show ?thesis by (elim exE conjE) (intro exI conjI; (assumption | simp))
qed

text \<open>C19. A session of the LOCK task in step 4 whose lock has a password of 1 to 96 bytes, on a working
  link, receiving the packets of a confirmation of at most 246 bytes sealed under its slot: if the
  second byte of the sealed message is not 0xff it sends, in packets of at most 20 bytes, the
  frame of a message sealed under its slot key and transmit nonce that decodes to the lock request
  with that password, and then waits for the response with an empty buffer. (With 0xff there, one
  seal in 256, the receiver takes the frame for the long form and goes on waiting:
  frames_misread.)\<close>
theorem lock_command_sent:
  assumes "session_ok s"
    and "guest_step (guest_conn s) = BLE_GUEST_STEP4"
    and "guest_result (ble_result s) = 0"
    and "\<not> loop_quit s"
    and "guest_buffer (guest_conn s) = step_buffer_empty"
    and "task_type s = TASK_BLE_GUEST_LOCK"
    and "lock_password (guest_lock (guest_conn s)) = Some pw"
    and "lock_password_size (guest_lock (guest_conn s)) = length pw"
    and "0 < length pw"
    and "length pw \<le> 96"
    and "\<forall>sent p. env_gatt env sent p = 0"
    and "conn_id s = int k"
    and "ig_GuestConnectionStep4_decode p ig_GuestConnectionStep4_init 0 = Ok (0, s4)"
    and "GuestConnectionStep4_has_success s4"
    and "GuestConnectionStep4_success s4"
    and "length p \<le> 246"
    and "c = seal (conn_key (conn_table s ! k)) (rxNonce (conn_table s ! k)) p"
    and "c ! 1 \<noteq> 0xff"
    and "write_char_by_uuid_multi_atts (\<lambda>_ _. 0) (word_of_nat (length c) # c) [] = (0, ps)"
  shows "\<exists>m qs s'. run_guest_loop env (map Notification ps) s = Ok s' \<and>
    guest_step (guest_conn s') = BLE_GUEST_CMD_RESULT \<and> guest_buffer (guest_conn s') = step_buffer_empty \<and> \<not> loop_quit s' \<and>
    sent_packets_of s' = sent_packets_of s @ qs \<and> (\<forall>q \<in> set qs. length q \<le> 20) \<and>
    (let sealed = seal (conn_key (conn_table s ! k)) (txNonce (conn_table s ! k)) m in concat qs = word_of_nat (length sealed) # sealed) \<and>
    ig_LockRequest_decode m ig_LockRequest_init 0 =
      Ok (0, lock_request (word_of_nat (env_rand env (env_time env) 0 mod 2147483647)) pw)"
  using confirmation_sends_command [OF assms] by blast

theorem lock_command_sent_witness:
  "\<exists>p s4 ps s'. ig_GuestConnectionStep4_decode p ig_GuestConnectionStep4_init 0 = Ok (0, s4) \<and> GuestConnectionStep4_success s4 \<and>
    concat ps = (let c = seal (conn_key (connections_init ! 0)) (rxNonce (connections_init ! 0)) p in word_of_nat (length c) # c) \<and>
    run_guest_loop example_env (map Notification ps) (example_session BLE_GUEST_STEP4) = Ok s' \<and>
    guest_step (guest_conn s') = BLE_GUEST_CMD_RESULT"
proof -
  let ?s = "example_session BLE_GUEST_STEP4" and ?k = "conn_key (connections_init ! 0)" and ?n = "rxNonce (connections_init ! 0)"
  obtain p s4 where p: "ig_GuestConnectionStep4_decode p ig_GuestConnectionStep4_init 0 = Ok (0, s4)"
    "GuestConnectionStep4_has_success s4" "GuestConnectionStep4_success s4" "length p \<le> 246" "seal ?k ?n p ! 1 \<noteq> 0xff"
    by (rule example_confirmation)
  let ?c = "seal ?k ?n p"
  obtain ps where ps: "write_char_by_uuid_multi_atts (\<lambda>_ _. 0) (word_of_nat (length ?c) # ?c) [] = (0, ps)"
    using frame_packets by blast
  have lock: "lock_password (guest_lock (guest_conn ?s)) = Some [4, 5, 6, 7]"
    "lock_password_size (guest_lock (guest_conn ?s)) = length [4, 5, 6, 7 :: u8]" "0 < length [4, 5, 6, 7 :: u8]" "length [4, 5, 6, 7 :: u8] \<le> 96"
    by (simp_all add: example_session_simps example_lock_def)
  have st: "session_ok ?s" "conn_id ?s = int 0" "?c = seal (conn_key (conn_table ?s ! 0)) (rxNonce (conn_table ?s ! 0)) p"
    using example_session_ok [of BLE_GUEST_STEP4] by (simp_all add: example_session_simps example_lock_def)
  have "concat ps = word_of_nat (length ?c) # ?c" using packets_concat [OF ps] .
  then show ?thesis
    using lock_command_sent [OF st(1) example_session_simps(1,6,5,3,4) lock example_link st(2) p(1-4) st(3) p(5) ps] p(1,3)
    by (intro exI [of _ p] exI [of _ s4] exI [of _ ps]) (auto simp: Let_def)
qed

text \<open>C20. A session of the LOCK task that waits for its response and receives the packets of a response of
  1 to 246 bytes sealed under its slot does end, if the second byte of the sealed message is not
  0xff (with 0xff there, and for longer responses, it is not received and the session ends by the
  timeout: frames_misread): the decoded response is handed on, the slot is released and the loop
  is left before the timeout, with result number 0 whatever result the lock reports.\<close>
theorem response_ends_session:
  assumes "session_ok s"
    and "guest_step (guest_conn s) = BLE_GUEST_CMD_RESULT"
    and "\<not> loop_quit s"
    and "guest_buffer (guest_conn s) = step_buffer_empty"
    and "task_type s = TASK_BLE_GUEST_LOCK"
    and "conn_id s = int k"
    and "ig_LockResponse_decode p ig_LockResponse_init 0 = Ok (0, r)"
    and "p \<noteq> []"
    and "length p \<le> 246"
    and "c = seal (conn_key (conn_table s ! k)) (rxNonce (conn_table s ! k)) p"
    and "c ! 1 \<noteq> 0xff"
    and "write_char_by_uuid_multi_atts (\<lambda>_ _. 0) (word_of_nat (length c) # c) [] = (0, ps)"
  shows "\<exists>s'. run_guest_loop env (map Notification ps) s = Ok s' \<and> loop_quit s' \<and>
    guest_cmd_response (ble_result s') = Some (LockAnswer r) \<and> guest_result (ble_result s') = 0 \<and>
    \<not> active (conn_table s' ! k) \<and> receive_err (guest_conn s') = receive_err (guest_conn s)"
  by (rule response_delivered [OF assms])

theorem response_ends_session_witness:
  "\<exists>p r ps s'. ig_LockResponse_decode p ig_LockResponse_init 0 = Ok (0, r) \<and> LockResponse_result r = 5 \<and>
    run_guest_loop example_env (map Notification ps) (example_session BLE_GUEST_CMD_RESULT) = Ok s' \<and> loop_quit s' \<and>
    guest_result (ble_result s') = 0"
proof -
  let ?s = "example_session BLE_GUEST_CMD_RESULT" and ?k = "conn_key (connections_init ! 0)" and ?n = "rxNonce (connections_init ! 0)"
  obtain p r where p: "ig_LockResponse_decode p ig_LockResponse_init 0 = Ok (0, r)" "LockResponse_result r = 5"
    "p \<noteq> []" "length p \<le> 246" "seal ?k ?n p ! 1 \<noteq> 0xff"
    by (rule example_response)
  let ?c = "seal ?k ?n p"
  obtain ps where ps: "write_char_by_uuid_multi_atts (\<lambda>_ _. 0) (word_of_nat (length ?c) # ?c) [] = (0, ps)"
    using frame_packets by blast
  have st: "session_ok ?s" "conn_id ?s = int 0" "?c = seal (conn_key (conn_table ?s ! 0)) (rxNonce (conn_table ?s ! 0)) p"
    using example_session_ok [of BLE_GUEST_CMD_RESULT] by (simp_all add: example_session_simps example_lock_def)
  show ?thesis
    using response_ends_session [OF st(1) example_session_simps(1,5,3,4) st(2) p(1,3,4) st(3) p(5) ps, of example_env] p(1,2)
    by blast
qed

text \<open>C21. Every session the guest code reaches, from step 1 over any sequence of notifications and the
  timeout, has a well-formed connection table, a receive buffer whose fill stays within its block,
  a connection number below 32, only packets of at most 20 bytes sent, and a step the handlers
  know (step 3 only after a failed step, with the error flag set and the loop told to stop).\<close>
theorem guest_session_invariant:
  assumes "guest_reach env s"
  shows "session_ok s"
  by (rule reach_ok [OF assms])

theorem guest_session_invariant_witness:
  "\<exists>s. guest_reach example_env s \<and> session_ok s"
  using example_started guest_session_invariant started [OF conns_ok_init] by meson

text \<open>C22. The connection table over whole histories. Any sequence of beginConnection, endConnection,
  encryptNative and decryptNative, on any table and with arguments inside the bounds of op_ok (no
  handle 32, keys with the 16 bytes announced, messages of at most 4096 bytes, sealed ones of 8 to
  4096), runs without leaving memory and gives the answers and the table of a specification
  written without the search loop and the byte arithmetic: begin takes the lowest free slot with
  the key given and a new receive nonce, each call touches only its own slot (end also clears the
  receive nonce of slot 0), a message sent is the seal under key and transmit counter of the slot,
  one received is handed out exactly if it is the seal under key and receive counter, which then
  goes up, and end frees the slot. So the transmit nonce of a slot counts the messages sent over
  it modulo 2^96, whatever else happens in between.\<close>
theorem table_history:
  assumes "conns_ok conns"
    and "\<forall>op \<in> set ops. op_ok op"
  shows "\<exists>answers conns'. run_ops rand ops conns = Ok (answers, conns') \<and>
    table_specs rand ops (table_of conns) = (answers, table_of conns') \<and> conns_ok conns' \<and>
    (\<forall>k < 32. be_get (txNonce (conns' ! k)) = (be_get (txNonce (conns ! k)) + length (filter (sends_over k) ops)) mod 2 ^ 96)"
  by (rule table_history_holds [OF assms])

theorem table_history_witness:
  "\<exists>answers conns'. run_ops (\<lambda>t i. i) [Begin 5 kConnectionTypeGuest (replicate 16 7) 16, Send 0 [1, 2], Send 0 [1, 2], End 0] connections_init = Ok (answers, conns') \<and>
    length answers = 4 \<and> be_get (txNonce (conns' ! 0)) = 2"
proof -
  let ?ops = "[Begin 5 kConnectionTypeGuest (replicate 16 7) 16, Send 0 [1, 2], Send 0 [1, 2], End 0]"
  have ok: "\<forall>op \<in> set ?ops. op_ok op" by simp
  obtain answers conns' where r: "run_ops (\<lambda>t i. i) ?ops connections_init = Ok (answers, conns')"
    "table_specs (\<lambda>t i. i) ?ops (table_of connections_init) = (answers, table_of conns')"
    "\<forall>k < 32. be_get (txNonce (conns' ! k)) = (be_get (txNonce (connections_init ! k)) + length (filter (sends_over k) ?ops)) mod 2 ^ 96"
    using table_history [OF conns_ok_init ok, of "\<lambda>t i. i"] by blast
  have "length answers = length ?ops" using table_specs_answers [of "\<lambda>t i. i" ?ops "table_of connections_init", unfolded r(2) fst_conv] .
  then have "length answers = 4" by simp
  moreover have "be_get (txNonce (conns' ! 0)) = 2"
  proof -
    have "be_get (txNonce (conns' ! 0)) = (be_get (txNonce (connections_init ! 0)) + length (filter (sends_over 0) ?ops)) mod 2 ^ 96"
      by (rule r(3) [rule_format]) simp
    moreover have "txNonce (connections_init ! 0) = replicate 12 0" by (simp add: connections_init_def)
    moreover have "be_get (replicate 12 0) = 0" by code_simp
    moreover have "length (filter (sends_over 0) ?ops) = 2" by (simp add: sends_over_def)
    ultimately show ?thesis by simp
  qed
  ultimately show ?thesis using r(1) by blast
qed

text \<open>C23. A message of 2 to 254 bytes whose second byte is not 0xff, framed by build_msg_payload and cut
  by write_char_by_uuid_multi_atts into packets of at most 20 bytes, is collected by
  save_message_data: after the last packet, and after no packet before it, the message is
  complete, and the bytes read are the message.\<close>
theorem framing_roundtrip:
  assumes "2 \<le> length msg"
    and "length msg \<le> 254"
    and "msg ! 1 \<noteq> 0xff"
    and "\<forall>sent p. gatt sent p = 0"
  shows "\<exists>payload ps b. build_msg_payload junk msg (length msg) = Ok (True, payload) \<and>
    write_char_by_uuid_multi_atts gatt payload [] = (0, ps) \<and> (\<forall>p \<in> set ps. length p \<le> 20) \<and>
    save_all junk' ps step_buffer_empty = Ok b \<and> message_complete b \<and> message_bytes_of b = Some msg \<and>
    (\<forall>qs rs. ps = qs @ rs \<and> qs \<noteq> [] \<and> rs \<noteq> [] \<longrightarrow>
       (\<exists>b'. save_all junk' qs step_buffer_empty = Ok b' \<and> \<not> message_complete b'))"
  by (rule short_frames_arrive [OF assms])

theorem framing_roundtrip_witness:
  "\<exists>payload ps b. build_msg_payload (\<lambda>i. 9) (replicate 30 1) 30 = Ok (True, payload) \<and>
    write_char_by_uuid_multi_atts (\<lambda>sent p. 0) payload [] = (0, ps) \<and>
    save_all (\<lambda>i. 8) ps step_buffer_empty = Ok b \<and> message_bytes_of b = Some (replicate 30 1)"
  using framing_roundtrip [of "replicate 30 1" "\<lambda>sent p. 0" "\<lambda>i. 9" "\<lambda>i. 8"] by auto

text \<open>C24. The loop of main runs every task of the doing queue: as long as the actions of the tasks leave
  the queues alone and every task has a table of the length it names, as many rounds as there are
  tasks run them all, each once, in the order of the queue, and leave the doing queue empty and
  the waiting queue as it was.\<close>
theorem tasks_run_in_order:
  assumes "keeps_queues act"
    and "holds s ds ws"
    and "\<forall>a \<in> set ds. \<forall>t. q_tasks s a = Some t \<longrightarrow> table_ok t"
  shows "\<exists>s' w'. main_rounds (length ds) act tr s w = Ok (tr @ ds, s', w') \<and> holds s' [] ws"
  by (rule main_rounds_run_all [OF assms])

theorem tasks_run_in_order_witness:
  "\<exists>s s' w'. perform_all [Insert_Tail 10 example_junk example_links example_args, Insert_Tail 11 example_junk example_links example_args] empty_queues = Ok s \<and>
      main_rounds (length [10, 11 :: addr]) (log_action (\<lambda>k. 0)) [] s [] = Ok ([] @ [10, 11], s', w')"
proof -
  obtain s where s: "perform_all [Insert_Tail 10 example_junk example_links example_args, Insert_Tail 11 example_junk example_links example_args] empty_queues = Ok s"
    "holds s [10, 11] []" "\<forall>a \<in> set [10, 11]. \<forall>t. q_tasks s a = Some t \<longrightarrow> table_ok t" using example_queue by fastforce
  from tasks_run_in_order [OF log_action_keeps s(2,3)] s(1) show ?thesis by blast
qed

text \<open>C25. The frame of a message of at most 65535 bytes, cut into packets of any size as long as the first
  one holds the head, is collected by the receiver of wifi_service/pairing.c: it is full,
  announces the length of the message, gives the message back, and is empty again after a reset.
  For messages of at most 254 bytes build_msg_payload writes this frame.\<close>
theorem wifi_frames_collected:
  assumes "length m < 2 ^ 16"
    and "concat (d # ds) = wifi_frame m"
    and "length (frame_head (length m)) \<le> length d"
    and "\<forall>x \<in> set (d # ds). length x < 2 ^ 16"
  shows "(\<exists>r. recv_all junk (d # ds) (Some recv_empty) = Ok (Some r) \<and> isRecvFullPkg r \<and>
      getRecvPkgLen (Some r) True = (0, Some (word_of_nat (length m))) \<and>
      (\<forall>room. length room = length m \<longrightarrow> getPkgFromRecvData (Some r) (Some room) = Ok (0, Some m)) \<and>
      resetRecvData (Some r) = Some recv_empty) \<and>
    (length m \<le> 254 \<longrightarrow> build_msg_payload junk' m (length m) = Ok (True, wifi_frame m))"
proof -
  obtain r where r: "recv_all junk (d # ds) (Some recv_empty) = Ok (Some r)"
    "holds_front (length (frame_head (length m))) (wifi_frame m) (length (wifi_frame m)) r"
    using frame_collected [OF assms] by blast
  then show ?thesis
    using collected_message [OF assms(1) r(2)] build_short [of m] by (auto simp: wifi_frame_def frame_head_def)
qed

theorem wifi_frames_collected_witness:
  "\<exists>r. recv_all (\<lambda>i. 9) [[3, 10], [20], [30]] (Some recv_empty) = Ok (Some r) \<and> isRecvFullPkg r \<and>
    getPkgFromRecvData (Some r) (Some [0, 0, 0]) = Ok (0, Some [10, 20, 30])"
proof -
  have "length [10, 20, 30 :: u8] < 2 ^ 16" "concat [[3, 10], [20], [30]] = wifi_frame [10, 20, 30]"
    "length (frame_head (length [10, 20, 30 :: u8])) \<le> length [3, 10 :: u8]" "\<forall>x \<in> set [[3, 10], [20], [30 :: u8]]. length x < 2 ^ 16"
    by (simp_all add: wifi_frame_def frame_head_def)
  from wifi_frames_collected [OF this, of "\<lambda>i. 9" "\<lambda>i. 9"] show ?thesis by auto
qed

text \<open>C26. The receiver of wifi_service/pairing.c keeps its shape (a block of the announced size, never
  more received than announced, head and message filling the block) under every sequence of
  packets that are not empty and, if they begin with 0xff, have three bytes; it starts in that
  shape, and whenever it says full its message is read without leaving the block.\<close>
theorem receiver_well_formed:
  assumes "recv_ok r"
    and "\<forall>d \<in> set ds. packet_readable d"
  shows "recv_ok recv_empty \<and> (\<exists>r'. recv_all junk ds (Some r) = Ok (Some r') \<and> recv_ok r' \<and>
      (isRecvFullPkg r' \<and> rd_data r' \<noteq> None \<longrightarrow> (\<exists>m. length m = unat (rd_pkg_len r') \<and>
         (\<forall>room. length room = unat (rd_pkg_len r') \<longrightarrow> getPkgFromRecvData (Some r') (Some room) = Ok (0, Some m)))))"
proof -
  obtain r' where "recv_all junk ds (Some r) = Ok (Some r')" "recv_ok r'" using recv_all_ok [OF assms] by blast
  then show ?thesis using recv_empty_ok full_message [of r'] by blast
qed

theorem receiver_well_formed_witness:
  "\<exists>r'. recv_all (\<lambda>i. 9) [[5, 1], [0xff, 0, 9, 3]] (Some recv_empty) = Ok (Some r') \<and> recv_ok r'"
proof -
  have "\<forall>d \<in> set [[5, 1], [0xff, 0, 9, 3 :: u8]]. packet_readable d" by (simp add: packet_readable_def)
  from receiver_well_formed [OF recv_empty_ok this, of "\<lambda>i. 9"] show ?thesis by blast
qed

text \<open>C27. FSMHandle makes one pass over the state table of a task: each row is tried once, with the state
  reached so far, and a failing action ends the pass with -1. When the rows stand in the order of
  the states all actions run and the task ends in the last state; a row in front of the one that
  leads to it does not run, and the pass still returns 0. Stated for actions that log that they
  ran; the last clause is a table of two rows.\<close>
theorem task_machine_pass:
  assumes "q_tasks s a = Some t"
    and "t_task_sm_table t = Some rows"
    and "unat (t_sm_table_len t) \<le> length rows"
  shows "FSMHandle (log_action res) a s w =
     (case fsm_pass res (t_cur_state t) (take (unat (t_sm_table_len t)) rows) of (r, c, l) \<Rightarrow> Ok (r, with_state s a t c, w @ l)) \<and>
   (in_order st rs \<and> (\<forall>row \<in> set rs. res (f_eventActFun row) = 0) \<longrightarrow>
     fsm_pass res st rs = (0, last (st # map f_next_state rs), map f_eventActFun rs)) \<and>
   fsm_pass (\<lambda>k. 0) 0 [\<lparr>f_cur_state = 1, f_eventActFun = 6, f_next_state = 2\<rparr>, \<lparr>f_cur_state = 0, f_eventActFun = 5, f_next_state = 1\<rparr>] =
     (0, 1, [5])"
proof (intro conjI impI)
  show "FSMHandle (log_action res) a s w =
     (case fsm_pass res (t_cur_state t) (take (unat (t_sm_table_len t)) rows) of (r, c, l) \<Rightarrow> Ok (r, with_state s a t c, w @ l))"
    by (rule FSMHandle_pass [OF assms])
  show "fsm_pass res st rs = (0, last (st # map f_next_state rs), map f_eventActFun rs)"
    if "in_order st rs \<and> (\<forall>row \<in> set rs. res (f_eventActFun row) = 0)"
    using that by (intro fsm_pass_in_order) auto
qed (simp add: fsm_pass_backwards)

theorem task_machine_pass_witness:
  "\<exists>t. new_task example_args False example_junk = Ok t \<and>
    FSMHandle (log_action (\<lambda>k. 0)) 10 (empty_queues\<lparr>q_tasks := [10 \<mapsto> t]\<rparr>) [] =
      Ok (0, with_state (empty_queues\<lparr>q_tasks := [10 \<mapsto> t]\<rparr>) 10 t 2, [5, 6])"
proof -
  obtain t where t: "new_task example_args False example_junk = Ok t" using example_task by blast
  have e: "t_cur_state t = 0" "t_sm_table_len t = 2" "t_task_sm_table t = a_table example_args" using example_task_fields [OF t] by auto
  have "unat (t_sm_table_len t) \<le> length (the (a_table example_args))" by (simp add: e example_args_def)
  from task_machine_pass [of "empty_queues\<lparr>q_tasks := [10 \<mapsto> t]\<rparr>" 10 t "the (a_table example_args)" "\<lambda>k. 0" "[]", OF _ _ this]
  show ?thesis using t e by (simp add: example_args_def)
qed

text \<open>C28. insertLock puts a copy of the lock in front of the list and leaves every other entry and every
  block as it was: the copy has the characters of address and name up to their lengths with zeros
  behind, the same numbers and flags, and of key, token, password and command flag, pointer and
  size together, or nothing if one of them is missing. Both searches then return the first lock of
  the list whose stored characters agree with what is looked for, so they find the new one; a lock
  stored with an address length of 0 is found under every address.\<close>
theorem inserted_lock_found:
  assumes "holds_locks s xs"
    and "new \<notin> set (locks_head s # xs)"
    and "lock_ok lock"
    and "length xs < n"
  shows "\<exists>s' c. insertLock new junk lock s = Ok s' \<and> holds_locks s' (new # xs) \<and> ll_blocks s' = ll_blocks s \<and>
    ll_locks s' = (ll_locks s)(new \<mapsto> c) \<and> copy_of lock c \<and>
    (\<forall>addr. length addr = MAX_DEVICE_ADDR \<longrightarrow> findLockByAddr n addr s' = Ok (find (addr_matches s' addr) (new # xs))) \<and>
    (\<forall>name. length name = MAX_DEVICE_NAME \<longrightarrow> findLockByName n name s' = Ok (find (name_matches s' name) (new # xs))) \<and>
    findLockByAddr n (l_addr lock) s' = Ok (Some new) \<and> findLockByName n (l_name lock) s' = Ok (Some new) \<and>
    (l_addr_len lock = 0 \<longrightarrow> (\<forall>addr. length addr = MAX_DEVICE_ADDR \<longrightarrow> findLockByAddr n addr s' = Ok (Some new)))"
  by (rule find_inserted [OF assms])

theorem inserted_lock_found_witness:
  "\<exists>s' c. insertLock 20 (initLock example_lock_object) example_lock_object empty_lock_list = Ok s' \<and> holds_locks s' [20] \<and>
    ll_locks s' 20 = Some c \<and> l_key c = Some 30 \<and> findLockByAddr 1 (l_addr example_lock_object) s' = Ok (Some 20)"
proof -
  have "20 \<notin> set (locks_head empty_lock_list # [])" "length ([] :: addr list) < 1" by (simp_all add: example_locks(3))
  from inserted_lock_found [OF example_locks(2) this(1) example_locks(1) this(2)]
  obtain s' c where s': "insertLock 20 (initLock example_lock_object) example_lock_object empty_lock_list = Ok s'" "holds_locks s' [20]"
    "ll_locks s' = (ll_locks empty_lock_list)(20 \<mapsto> c)" "copy_of example_lock_object c"
    "findLockByAddr 1 (l_addr example_lock_object) s' = Ok (Some 20)" by metis
  moreover have "l_key c = Some 30" using s'(4) by (simp add: copy_of_def carried_def example_lock_object_def)
  ultimately show ?thesis by (intro exI [of _ s'] exI [of _ c]) simp
qed

text \<open>C29. A machine of the WiFi service whose table was filled with items for all its events: an event
  runs the action of the last item filled for it if the current state fits, the state moves on
  exactly when the action returns 0, and every other event, the error event included, is answered
  with 1 and changes nothing. (The two machines of the programs leave item 0 unfilled; for them
  the answers are proved with the item as found in memory.)\<close>
theorem fsm_answers:
  assumes "getFSMTransTable n (Some f0) = (0, Some f)"
    and "\<forall>item \<in> set items. unat (ft_event item) < unat n"
    and "\<forall>ev. unat ev < unat n \<longrightarrow> last_item ev items \<noteq> None"
  shows "\<exists>f'. fill_items items f = Ok f' \<and> fsm_cur_state f' = fsm_cur_state f \<and>
    (\<forall>act ev w st. handleEvent act ev (transState st f') w =
      (case last_item ev items of
         Some item \<Rightarrow>
           if ev \<noteq> ERROR_EVENT \<and> st = ft_cur_state item then
             (case event_act_func item of
                None \<Rightarrow> Ok (1, transState st f', w)
              | Some k \<Rightarrow> bindR (act k (transState st f') w) (\<lambda>(ret, f'', w').
                  Ok (ret, if ret = 0 then transState (ft_next_state item) f'' else f'', w')))
           else Ok (1, transState st f', w)
       | None \<Rightarrow> Ok (1, transState st f', w)))"
  by (rule built_machine [OF assms])

theorem fsm_answers_witness:
  "\<exists>f'. fill_items example_items example_table = Ok f' \<and>
    handleEvent (\<lambda>k f w. Ok (0, f, w @ [k])) 0 (transState 0 f') [] = Ok (0, transState 1 (transState 0 f'), [7])"
proof -
  have "last_item 0 example_items = Some \<lparr>ft_event = 0, ft_cur_state = 0, event_act_func = Some 7, ft_next_state = 1\<rparr>"
    by (simp add: last_item_def example_items_def)
  then show ?thesis using fsm_answers [OF example_items_cover, where 'a = "nat list"] by (auto simp: ERROR_EVENT_def)
qed

text \<open>C30. base64_encode writes, without leaving its block, the text of RFC 4648 of every byte string, and
  base64_decode, with the table not yet built or built before, gives the bytes and their number
  back from the text of every string that is not empty.\<close>
theorem base64_roundtrip:
  "base64_encode junk_enc xs = Ok (4 * ((length xs + 2) div 3), b64 xs) \<and>
    (xs \<noteq> [] \<and> (t = NoTable \<or> built_table t) \<longrightarrow>
       (\<exists>t'. built_table t' \<and> base64_decode junk_table junk_dec t (b64 xs) = Ok (t', Some (length xs, xs))))"
  using base64_encode_eq base64_decode_b64 by blast

theorem base64_roundtrip_witness:
  "\<exists>t'. base64_decode (\<lambda>i. 9) (\<lambda>i. 9) NoTable (b64 [104, 105]) = Ok (t', Some (2, [104, 105]))"
  using base64_roundtrip [where xs = "[104, 105]" and t = NoTable and junk_table = "\<lambda>i. 9" and junk_dec = "\<lambda>i. 9"] by (auto simp: numeral_2_eq_2)

text \<open>C31. incrementNonce adds one to the 12-byte big-endian number modulo 2^96, so after n increments the
  number is the start plus n, and any two nonces less than 2^96 increments apart differ.\<close>
theorem nonce_counts:
  assumes "length v = 12"
  shows "be_get ((incrementNonce ^^ n) v) = (be_get v + n) mod 2 ^ 96 \<and>
   (\<forall>a b. a < b \<and> b < 2 ^ 96 \<longrightarrow> (incrementNonce ^^ a) v \<noteq> (incrementNonce ^^ b) v)"
  using be_get_incrementNonce_pow [OF assms] nonces_distinct [OF assms] by blast

theorem nonce_counts_witness:
  "be_get ((incrementNonce ^^ 1) (replicate 12 255)) = (be_get (replicate 12 255) + 1) mod 2 ^ 96 \<and>
   (incrementNonce ^^ 3) (replicate 12 255) \<noteq> (incrementNonce ^^ 4) (replicate 12 255)"
proof -
  have l: "length (replicate 12 255 :: bytes) = 12" by simp
  have "(3 :: nat) < 4 \<and> (4 :: nat) < 2 ^ 96" by simp
  then show ?thesis using nonce_counts [OF l, of 1] by blast
qed

text \<open>C32. Every message encoder refuses an object that is_valid rejects with error 2007 and leaves the
  buffer alone, and for a well-formed object and a block of the given length it either writes the
  message within the length or returns CborErrorOutOfMemory (8000), never running past the block.\<close>
theorem encoders_report_errors:
  "encoder_reports ig_PairingStep1_encode ig_PairingStep1_is_valid ig_PairingStep1_ok \<and>
   encoder_reports ig_PairingStep2_encode ig_PairingStep2_is_valid ig_PairingStep2_ok \<and>
   encoder_reports ig_PairingStep3_encode ig_PairingStep3_is_valid ig_PairingStep3_ok \<and>
   encoder_reports ig_PairingStep4_encode ig_PairingStep4_is_valid ig_PairingStep4_ok \<and>
   encoder_reports ig_PairingCommit_encode ig_PairingCommit_is_valid ig_PairingCommit_ok \<and>
   encoder_reports ig_AdminConnectionStep1_encode ig_AdminConnectionStep1_is_valid ig_AdminConnectionStep1_ok \<and>
   encoder_reports ig_AdminConnectionStep2_encode ig_AdminConnectionStep2_is_valid ig_AdminConnectionStep2_ok \<and>
   encoder_reports ig_AdminConnectionStep3_encode ig_AdminConnectionStep3_is_valid ig_AdminConnectionStep3_ok \<and>
   encoder_reports ig_GuestConnectionStep1_encode ig_GuestConnectionStep1_is_valid ig_GuestConnectionStep1_ok \<and>
   encoder_reports ig_GuestConnectionStep2_encode ig_GuestConnectionStep2_is_valid ig_GuestConnectionStep2_ok \<and>
   encoder_reports ig_GuestConnectionStep3_encode ig_GuestConnectionStep3_is_valid ig_GuestConnectionStep3_ok \<and>
   encoder_reports ig_GuestConnectionStep4_encode ig_GuestConnectionStep4_is_valid ig_GuestConnectionStep4_ok \<and>
   encoder_reports ig_GuestToken_encode ig_GuestToken_is_valid ig_GuestToken_ok \<and>
   encoder_reports ig_UnpairRequest_encode ig_UnpairRequest_is_valid ig_UnpairRequest_ok \<and>
   encoder_reports ig_UnpairResponse_encode ig_UnpairResponse_is_valid ig_UnpairResponse_ok \<and>
   encoder_reports ig_LockRequest_encode ig_LockRequest_is_valid ig_LockRequest_ok \<and>
   encoder_reports ig_LockResponse_encode ig_LockResponse_is_valid ig_LockResponse_ok \<and>
   encoder_reports ig_UnlockRequest_encode ig_UnlockRequest_is_valid ig_UnlockRequest_ok \<and>
   encoder_reports ig_UnlockResponse_encode ig_UnlockResponse_is_valid ig_UnlockResponse_ok \<and>
   encoder_reports ig_GetLockStatusRequest_encode ig_GetLockStatusRequest_is_valid ig_GetLockStatusRequest_ok \<and>
   encoder_reports ig_GetLockStatusResponse_encode ig_GetLockStatusResponse_is_valid ig_GetLockStatusResponse_ok \<and>
   encoder_reports ig_GetStatusRequest_encode ig_GetStatusRequest_is_valid ig_GetStatusRequest_ok \<and>
   encoder_reports ig_GetStatusResponse_encode ig_GetStatusResponse_is_valid ig_GetStatusResponse_ok \<and>
   encoder_reports ig_StatusNotification_encode ig_StatusNotification_is_valid ig_StatusNotification_ok \<and>
   encoder_reports ig_EnableAutoUnlockRequest_encode ig_EnableAutoUnlockRequest_is_valid ig_EnableAutoUnlockRequest_ok \<and>
   encoder_reports ig_EnableAutoUnlockResponse_encode ig_EnableAutoUnlockResponse_is_valid ig_EnableAutoUnlockResponse_ok \<and>
   encoder_reports ig_SetAutorelockRequest_encode ig_SetAutorelockRequest_is_valid ig_SetAutorelockRequest_ok \<and>
   encoder_reports ig_SetAutorelockResponse_encode ig_SetAutorelockResponse_is_valid ig_SetAutorelockResponse_ok \<and>
   encoder_reports ig_SetRelockAlarmRequest_encode ig_SetRelockAlarmRequest_is_valid ig_SetRelockAlarmRequest_ok \<and>
   encoder_reports ig_SetRelockAlarmResponse_encode ig_SetRelockAlarmResponse_is_valid ig_SetRelockAlarmResponse_ok \<and>
   encoder_reports ig_CreatePinRequest_encode ig_CreatePinRequest_is_valid ig_CreatePinRequest_ok \<and>
   encoder_reports ig_CreatePinResponse_encode ig_CreatePinResponse_is_valid ig_CreatePinResponse_ok \<and>
   encoder_reports ig_DeletePinRequest_encode ig_DeletePinRequest_is_valid ig_DeletePinRequest_ok \<and>
   encoder_reports ig_DeletePinResponse_encode ig_DeletePinResponse_is_valid ig_DeletePinResponse_ok \<and>
   encoder_reports ig_EditPinRequest_encode ig_EditPinRequest_is_valid ig_EditPinRequest_ok \<and>
   encoder_reports ig_EditPinResponse_encode ig_EditPinResponse_is_valid ig_EditPinResponse_ok \<and>
   encoder_reports ig_SetMasterPinRequest_encode ig_SetMasterPinRequest_is_valid ig_SetMasterPinRequest_ok \<and>
   encoder_reports ig_SetMasterPinResponse_encode ig_SetMasterPinResponse_is_valid ig_SetMasterPinResponse_ok \<and>
   encoder_reports ig_SetMaxIncorrectPinRequest_encode ig_SetMaxIncorrectPinRequest_is_valid ig_SetMaxIncorrectPinRequest_ok \<and>
   encoder_reports ig_SetMaxIncorrectPinResponse_encode ig_SetMaxIncorrectPinResponse_is_valid ig_SetMaxIncorrectPinResponse_ok \<and>
   encoder_reports ig_SetPinKeyRequest_encode ig_SetPinKeyRequest_is_valid ig_SetPinKeyRequest_ok \<and>
   encoder_reports ig_SetPinKeyResponse_encode ig_SetPinKeyResponse_is_valid ig_SetPinKeyResponse_ok \<and>
   encoder_reports ig_AddCardRequest_encode ig_AddCardRequest_is_valid ig_AddCardRequest_ok \<and>
   encoder_reports ig_AddCardResponse_encode ig_AddCardResponse_is_valid ig_AddCardResponse_ok \<and>
   encoder_reports ig_DeleteCardRequest_encode ig_DeleteCardRequest_is_valid ig_DeleteCardRequest_ok \<and>
   encoder_reports ig_DeleteCardResponse_encode ig_DeleteCardResponse_is_valid ig_DeleteCardResponse_ok \<and>
   encoder_reports ig_DeleteCardUidRequest_encode ig_DeleteCardUidRequest_is_valid ig_DeleteCardUidRequest_ok \<and>
   encoder_reports ig_DeleteCardUidResponse_encode ig_DeleteCardUidResponse_is_valid ig_DeleteCardUidResponse_ok \<and>
   encoder_reports ig_CardAddedNotification_encode ig_CardAddedNotification_is_valid ig_CardAddedNotification_ok \<and>
   encoder_reports ig_CardDeletedNotification_encode ig_CardDeletedNotification_is_valid ig_CardDeletedNotification_ok \<and>
   encoder_reports ig_AddFingerprintRequest_encode ig_AddFingerprintRequest_is_valid ig_AddFingerprintRequest_ok \<and>
   encoder_reports ig_AddFingerprintResponse_encode ig_AddFingerprintResponse_is_valid ig_AddFingerprintResponse_ok \<and>
   encoder_reports ig_DeleteFingerprintRequest_encode ig_DeleteFingerprintRequest_is_valid ig_DeleteFingerprintRequest_ok \<and>
   encoder_reports ig_DeleteFingerprintResponse_encode ig_DeleteFingerprintResponse_is_valid ig_DeleteFingerprintResponse_ok \<and>
   encoder_reports ig_DeleteFingerprintUidRequest_encode ig_DeleteFingerprintUidRequest_is_valid ig_DeleteFingerprintUidRequest_ok \<and>
   encoder_reports ig_DeleteFingerprintUidResponse_encode ig_DeleteFingerprintUidResponse_is_valid ig_DeleteFingerprintUidResponse_ok \<and>
   encoder_reports ig_FingerprintAddedNotification_encode ig_FingerprintAddedNotification_is_valid ig_FingerprintAddedNotification_ok \<and>
   encoder_reports ig_FingerprintDeletedNotification_encode ig_FingerprintDeletedNotification_is_valid ig_FingerprintDeletedNotification_ok \<and>
   encoder_reports ig_SetTimeRequest_encode ig_SetTimeRequest_is_valid ig_SetTimeRequest_ok \<and>
   encoder_reports ig_SetTimeResponse_encode ig_SetTimeResponse_is_valid ig_SetTimeResponse_ok \<and>
   encoder_reports ig_GetTimeRequest_encode ig_GetTimeRequest_is_valid ig_GetTimeRequest_ok \<and>
   encoder_reports ig_GetTimeResponse_encode ig_GetTimeResponse_is_valid ig_GetTimeResponse_ok \<and>
   encoder_reports ig_SetVolumeRequest_encode ig_SetVolumeRequest_is_valid ig_SetVolumeRequest_ok \<and>
   encoder_reports ig_SetVolumeResponse_encode ig_SetVolumeResponse_is_valid ig_SetVolumeResponse_ok \<and>
   encoder_reports ig_SetBrightnessRequest_encode ig_SetBrightnessRequest_is_valid ig_SetBrightnessRequest_ok \<and>
   encoder_reports ig_SetBrightnessResponse_encode ig_SetBrightnessResponse_is_valid ig_SetBrightnessResponse_ok \<and>
   encoder_reports ig_SetDaylightSavingRequest_encode ig_SetDaylightSavingRequest_is_valid ig_SetDaylightSavingRequest_ok \<and>
   encoder_reports ig_SetDaylightSavingResponse_encode ig_SetDaylightSavingResponse_is_valid ig_SetDaylightSavingResponse_ok \<and>
   encoder_reports ig_DaylightSavingRange_encode ig_DaylightSavingRange_is_valid ig_DaylightSavingRange_ok \<and>
   encoder_reports ig_GetBatteryLevelRequest_encode ig_GetBatteryLevelRequest_is_valid ig_GetBatteryLevelRequest_ok \<and>
   encoder_reports ig_GetBatteryLevelResponse_encode ig_GetBatteryLevelResponse_is_valid ig_GetBatteryLevelResponse_ok \<and>
   encoder_reports ig_EnableDfuRequest_encode ig_EnableDfuRequest_is_valid ig_EnableDfuRequest_ok \<and>
   encoder_reports ig_EnableDfuResponse_encode ig_EnableDfuResponse_is_valid ig_EnableDfuResponse_ok \<and>
   encoder_reports ig_GetFirmwareVersionRequest_encode ig_GetFirmwareVersionRequest_is_valid ig_GetFirmwareVersionRequest_ok \<and>
   encoder_reports ig_GetFirmwareVersionResponse_encode ig_GetFirmwareVersionResponse_is_valid ig_GetFirmwareVersionResponse_ok \<and>
   encoder_reports ig_AddLockRequest_encode ig_AddLockRequest_is_valid ig_AddLockRequest_ok \<and>
   encoder_reports ig_AddLockResponse_encode ig_AddLockResponse_is_valid ig_AddLockResponse_ok \<and>
   encoder_reports ig_DeleteLockRequest_encode ig_DeleteLockRequest_is_valid ig_DeleteLockRequest_ok \<and>
   encoder_reports ig_DeleteLockResponse_encode ig_DeleteLockResponse_is_valid ig_DeleteLockResponse_ok \<and>
   encoder_reports ig_SetBridgeConfigurationRequest_encode ig_SetBridgeConfigurationRequest_is_valid ig_SetBridgeConfigurationRequest_ok \<and>
   encoder_reports ig_SetBridgeConfigurationResponse_encode ig_SetBridgeConfigurationResponse_is_valid ig_SetBridgeConfigurationResponse_ok \<and>
   encoder_reports ig_SetNbConfigurationRequest_encode ig_SetNbConfigurationRequest_is_valid ig_SetNbConfigurationRequest_ok \<and>
   encoder_reports ig_SetNbConfigurationResponse_encode ig_SetNbConfigurationResponse_is_valid ig_SetNbConfigurationResponse_ok \<and>
   encoder_reports ig_BridgeStatusNotification_encode ig_BridgeStatusNotification_is_valid ig_BridgeStatusNotification_ok \<and>
   encoder_reports ig_NbStatusNotification_encode ig_NbStatusNotification_is_valid ig_NbStatusNotification_ok \<and>
   encoder_reports ig_GetLogsRequest_encode ig_GetLogsRequest_is_valid ig_GetLogsRequest_ok \<and>
   encoder_reports ig_GetLogsResponse_encode ig_GetLogsResponse_is_valid ig_GetLogsResponse_ok \<and>
   encoder_reports ig_LogEntry_encode ig_LogEntry_is_valid ig_LogEntry_ok \<and>
   encoder_reports ig_BlacklistGuestKeyRequest_encode ig_BlacklistGuestKeyRequest_is_valid ig_BlacklistGuestKeyRequest_ok \<and>
   encoder_reports ig_BlacklistGuestKeyResponse_encode ig_BlacklistGuestKeyResponse_is_valid ig_BlacklistGuestKeyResponse_ok \<and>
   encoder_reports ig_UnblacklistGuestKeyRequest_encode ig_UnblacklistGuestKeyRequest_is_valid ig_UnblacklistGuestKeyRequest_ok \<and>
   encoder_reports ig_UnblacklistGuestKeyResponse_encode ig_UnblacklistGuestKeyResponse_is_valid ig_UnblacklistGuestKeyResponse_ok \<and>
   encoder_reports ig_GuestKeyBlacklist_encode ig_GuestKeyBlacklist_is_valid ig_GuestKeyBlacklist_ok \<and>
   encoder_reports ig_GuestCardEkey_encode ig_GuestCardEkey_is_valid ig_GuestCardEkey_ok"
  by (intro conjI PairingStep1_codec.reports
      PairingStep2_codec.reports
      PairingStep3_codec.reports
      PairingStep4_codec.reports
      PairingCommit_codec.reports
      AdminConnectionStep1_codec.reports
      AdminConnectionStep2_codec.reports
      AdminConnectionStep3_codec.reports
      GuestConnectionStep1_codec.reports
      GuestConnectionStep2_codec.reports
      GuestConnectionStep3_codec.reports
      GuestConnectionStep4_codec.reports
      GuestToken_codec.reports
      UnpairRequest_codec.reports
      UnpairResponse_codec.reports
      LockRequest_codec.reports
      LockResponse_codec.reports
      UnlockRequest_codec.reports
      UnlockResponse_codec.reports
      GetLockStatusRequest_codec.reports
      GetLockStatusResponse_codec.reports
      GetStatusRequest_codec.reports
      GetStatusResponse_codec.reports
      StatusNotification_codec.reports
      EnableAutoUnlockRequest_codec.reports
      EnableAutoUnlockResponse_codec.reports
      SetAutorelockRequest_codec.reports
      SetAutorelockResponse_codec.reports
      SetRelockAlarmRequest_codec.reports
      SetRelockAlarmResponse_codec.reports
      CreatePinRequest_codec.reports
      CreatePinResponse_codec.reports
      DeletePinRequest_codec.reports
      DeletePinResponse_codec.reports
      EditPinRequest_codec.reports
      EditPinResponse_codec.reports
      SetMasterPinRequest_codec.reports
      SetMasterPinResponse_codec.reports
      SetMaxIncorrectPinRequest_codec.reports
      SetMaxIncorrectPinResponse_codec.reports
      SetPinKeyRequest_codec.reports
      SetPinKeyResponse_codec.reports
      AddCardRequest_codec.reports
      AddCardResponse_codec.reports
      DeleteCardRequest_codec.reports
      DeleteCardResponse_codec.reports
      DeleteCardUidRequest_codec.reports
      DeleteCardUidResponse_codec.reports
      CardAddedNotification_codec.reports
      CardDeletedNotification_codec.reports
      AddFingerprintRequest_codec.reports
      AddFingerprintResponse_codec.reports
      DeleteFingerprintRequest_codec.reports
      DeleteFingerprintResponse_codec.reports
      DeleteFingerprintUidRequest_codec.reports
      DeleteFingerprintUidResponse_codec.reports
      FingerprintAddedNotification_codec.reports
      FingerprintDeletedNotification_codec.reports
      SetTimeRequest_codec.reports
      SetTimeResponse_codec.reports
      GetTimeRequest_codec.reports
      GetTimeResponse_codec.reports
      SetVolumeRequest_codec.reports
      SetVolumeResponse_codec.reports
      SetBrightnessRequest_codec.reports
      SetBrightnessResponse_codec.reports
      SetDaylightSavingRequest_codec.reports
      SetDaylightSavingResponse_codec.reports
      DaylightSavingRange_codec.reports
      GetBatteryLevelRequest_codec.reports
      GetBatteryLevelResponse_codec.reports
      EnableDfuRequest_codec.reports
      EnableDfuResponse_codec.reports
      GetFirmwareVersionRequest_codec.reports
      GetFirmwareVersionResponse_codec.reports
      AddLockRequest_codec.reports
      AddLockResponse_codec.reports
      DeleteLockRequest_codec.reports
      DeleteLockResponse_codec.reports
      SetBridgeConfigurationRequest_codec.reports
      SetBridgeConfigurationResponse_codec.reports
      SetNbConfigurationRequest_codec.reports
      SetNbConfigurationResponse_codec.reports
      BridgeStatusNotification_codec.reports
      NbStatusNotification_codec.reports
      GetLogsRequest_codec.reports
      GetLogsResponse_codec.reports
      LogEntry_codec.reports
      BlacklistGuestKeyRequest_codec.reports
      BlacklistGuestKeyResponse_codec.reports
      UnblacklistGuestKeyRequest_codec.reports
      UnblacklistGuestKeyResponse_codec.reports
      GuestKeyBlacklist_codec.reports
      GuestCardEkey_codec.reports)

text \<open>C33. Walking the doing queue from GetDHeadNode over NextDTask ends with NULL after as many steps as
  there are tasks and visits them all in order; the loop list_for_each over a ring ends likewise
  and gives the first result of its body.\<close>
theorem queue_walk_ends:
  assumes "holds s ds ws"
    and "length ds \<le> n"
  shows "bindR (GetDHeadNode s) (\<lambda>a. walk_doing n a s) = Ok ds \<and>
   list_for_each n (doing_task_head s) (q_links s) body = first_result body ds"
  using walk_doing_all [OF assms] list_for_each_ring [of "q_links s" "doing_task_head s" ds n body] assms by (simp add: holds_def)

theorem queue_walk_ends_witness:
  "\<exists>s. perform_all [Insert_Tail 10 example_junk example_links example_args, Insert_Tail 11 example_junk example_links example_args] empty_queues = Ok s \<and>
    bindR (GetDHeadNode s) (\<lambda>a. walk_doing 2 a s) = Ok [10, 11]"
proof -
  obtain s where s: "perform_all [Insert_Tail 10 example_junk example_links example_args, Insert_Tail 11 example_junk example_links example_args] empty_queues = Ok s"
    "holds s [10, 11] []" using example_queue by blast
  have "length [10, 11 :: addr] \<le> 2" by simp
  from queue_walk_ends [OF s(2) this] s(1) show ?thesis by blast
qed

text \<open>C34. The frames the receiver gets wrong, whatever the fresh blocks of both sides hold. A message of
  more than 254 bytes is never received: tested after every packet, as the receivers do, what is
  complete first, if anything, is not the message sent, or the packets leave the block. It can be
  complete too early: of 273 bytes the first packet makes a message of 19 bytes if the byte of the
  header that is never written is not 0xff. A message of 2 to 254 bytes whose second byte is 0xff
  stays incomplete after every packet, so the receiver waits for ever.\<close>
theorem frames_misread:
  assumes "254 < length msg \<or> 2 \<le> length msg \<and> msg ! 1 = 0xff"
    and "\<forall>sent p. gatt sent p = 0"
  shows "\<exists>payload p ps. build_msg_payload junk msg (length msg) = Ok (True, payload) \<and>
    write_char_by_uuid_multi_atts gatt payload [] = (0, p # ps) \<and>
    (\<forall>qs rs b. ps = qs @ rs \<and> save_all junk' (p # qs) step_buffer_empty = Ok b \<and> message_complete b \<longrightarrow>
       message_bytes_of b \<noteq> Some msg) \<and>
    (length msg \<le> 254 \<longrightarrow> (\<forall>qs rs. ps = qs @ rs \<longrightarrow>
       (\<exists>b. save_all junk' (p # qs) step_buffer_empty = Ok b \<and> \<not> message_complete b))) \<and>
    (length msg = 273 \<and> junk 2 \<noteq> 0xff \<longrightarrow> (\<exists>b. save_all junk' [p] step_buffer_empty = Ok b \<and> message_complete b \<and>
       message_bytes_of b = Some ([254, junk 2] @ take 17 msg)))"
  by (rule other_frames_misread [OF assms])

theorem frames_misread_witness:
  "(\<exists>payload p ps. build_msg_payload (\<lambda>i. 9) (replicate 273 1) 273 = Ok (True, payload) \<and>
      write_char_by_uuid_multi_atts (\<lambda>sent p. 0) payload [] = (0, p # ps) \<and>
      (\<exists>b. save_all (\<lambda>i. 8) [p] step_buffer_empty = Ok b \<and> message_complete b \<and> message_bytes_of b = Some ([254, 9] @ replicate 17 1))) \<and>
    (\<exists>payload p ps. build_msg_payload (\<lambda>i. 9) [1, 0xff] 2 = Ok (True, payload) \<and>
      write_char_by_uuid_multi_atts (\<lambda>sent p. 0) payload [] = (0, p # ps) \<and>
      (\<exists>b. save_all (\<lambda>i. 8) (p # ps) step_buffer_empty = Ok b \<and> \<not> message_complete b))"
proof (rule conjI)
  have m: "254 < length (replicate 273 (1 :: u8)) \<or> 2 \<le> length (replicate 273 (1 :: u8)) \<and> replicate 273 (1 :: u8) ! 1 = 0xff"
    "\<forall>sent p. (\<lambda>(sent :: bytes list) (p :: bytes). 0 :: int) sent p = 0" by simp_all
  have l: "length (replicate 273 (1 :: u8)) = 273" "(9 :: u8) \<noteq> 0xff" "take 17 (replicate 273 (1 :: u8)) = replicate 17 1" by simp_all
  from frames_misread [OF m, of "\<lambda>i. 9" "\<lambda>i. 8"]
  show "\<exists>payload p ps. build_msg_payload (\<lambda>i. 9) (replicate 273 1) 273 = Ok (True, payload) \<and>
      write_char_by_uuid_multi_atts (\<lambda>sent p. 0) payload [] = (0, p # ps) \<and>
      (\<exists>b. save_all (\<lambda>i. 8) [p] step_buffer_empty = Ok b \<and> message_complete b \<and> message_bytes_of b = Some ([254, 9] @ replicate 17 1))"
    unfolding l using l(2) by blast
  have f: "254 < length [1, 0xff :: u8] \<or> 2 \<le> length [1, 0xff :: u8] \<and> [1, 0xff :: u8] ! 1 = 0xff" by simp
  have s: "length [1, 0xff :: u8] = 2" "(2 :: nat) \<le> 254" by simp_all
  from frames_misread [OF f m(2), of "\<lambda>i. 9" "\<lambda>i. 8"]
  show "\<exists>payload p ps. build_msg_payload (\<lambda>i. 9) [1, 0xff] 2 = Ok (True, payload) \<and>
      write_char_by_uuid_multi_atts (\<lambda>sent p. 0) payload [] = (0, p # ps) \<and>
      (\<exists>b. save_all (\<lambda>i. 8) (p # ps) step_buffer_empty = Ok b \<and> \<not> message_complete b)"
    unfolding s(1) using s(2) append_Nil2 by metis
qed

text \<open>C35. What the process of wifi_service/server.c does not check: after step 2 a message that does not
  authenticate is answered with an empty frame, and any frame at all behind it completes the
  pairing; the record of key and nonces is handed to the WiFi process, nothing in the state of the
  lock side has changed, and from then on no packet has any effect. This is for messages of 8 to
  4096 bytes, an unfilled item with event 0, and a socket that takes the record.\<close>
theorem service_accepts_forged:
  assumes "ft_event junk_item = 0"
    and "recv_pairing_data w = Some recv_empty"
    and "server_ok (srv w)"
    and "packets_of c ds3"
    and "8 \<le> length c"
    and "length c \<le> 4096"
    and "unseal (server_pairing_admin_key (srv w)) (server_nonce (srv w)) c = None"
    and "packets_of m ds5"
    and "host_connects e5"
    and "host_writes e5"
    and "0 \<le> write_socket w"
  shows "\<exists>w1 w2 d. write_packets e3 ds3 (pairing_fsm junk_item PAIRING_STEP2) w = Ok (pairing_fsm junk_item PAIRING_STEP4, w1) \<and>
    write_packets e5 ds5 (pairing_fsm junk_item PAIRING_STEP4) w1 = Ok (pairing_fsm junk_item SET_WIFI_BEGIN, w2) \<and>
    srv w2 = srv w \<and> values_sent w2 = values_sent w @ [[0]] \<and>
    handed w2 = handed w @ [d] \<and> decodeCrypt d Crypt_zero 0 = Ok (0, server_crypt (srv w)) \<and>
    (\<forall>env vs. write_packets env vs (pairing_fsm junk_item SET_WIFI_BEGIN) w2 = Ok (pairing_fsm junk_item SET_WIFI_BEGIN, w2))"
  by (rule forged_messages_complete [OF assms])

theorem service_accepts_forged_witness:
  "\<exists>c w1 w2. write_packets (example_host []) [wifi_frame c] (pairing_fsm example_item PAIRING_STEP2) example_service =
      Ok (pairing_fsm example_item PAIRING_STEP4, w1) \<and>
    write_packets (example_host []) [[0]] (pairing_fsm example_item PAIRING_STEP4) w1 = Ok (pairing_fsm example_item SET_WIFI_BEGIN, w2) \<and>
    values_sent w2 = [[0]] \<and> length (handed w2) = 1"
proof -
  let ?k = "server_pairing_admin_key server_init" and ?n = "server_nonce server_init"
  let ?t = "seal_tag ?k ?n (seal_cipher ?k ?n [])"
  have other: "length a = 8 \<Longrightarrow> a \<noteq> ?t \<Longrightarrow> unseal ?k ?n a = None" for a by (simp add: unseal_def)
  obtain c :: bytes where l: "length c = 8" "c \<noteq> ?t"
  proof (cases "?t = replicate 8 0")
    case True
    then show ?thesis using that [of "replicate 8 1"] by simp
  next
    case False
    then show ?thesis using that [of "replicate 8 0"] by simp
  qed
  have c: "8 \<le> length c" "length c \<le> 4096" "unseal ?k ?n c = None" "length c < 2 ^ 15" using l other by simp_all
  have h: "ft_event example_item = 0" "recv_pairing_data example_service = Some recv_empty" "server_ok (srv example_service)"
    "packets_of [] [[0]]" "host_connects (example_host [])" "host_writes (example_host [])" "0 \<le> write_socket example_service"
    using one_packet [of "[]"] by (simp_all add: example_service_defs wifi_frame_def frame_head_def)
  have s: "srv example_service = server_init" "values_sent example_service = []" "handed example_service = []" by (simp_all add: example_service_def)
  from service_accepts_forged [OF h(1-3) one_packet [OF c(4)] c(1,2) _ h(4-7), of "example_host []"] c(3)
  show ?thesis unfolding s by fastforce
qed

text \<open>C36. The settings process of wifi_service/wifi_server.c. A client that never paired, with no key at
  all, writes the packets of a settings message: name and password go, as they are and with no
  quoting, into the nmcli command that system() runs, and the process ends; this is so exactly if
  every string has at least 8 bytes and a zero byte and name and password fit their arrays,
  otherwise the code reads or writes outside its blocks. A message that does not decode is never
  let go of: every later packet, whatever it holds, has the same message decoded and refused
  again; every message of encodeWifiInfoRequest is one, because it has the number 51 and
  decodeWifiInfoRequest expects 0x51.\<close>
theorem settings_process:
  assumes "ft_event junk_item \<noteq> C_WRITE_WIFI_REQUEST"
    and "packets_of (wifi_message ssid password token) ds"
    and "set_recv w = Some recv_empty"
    and "length ssid < 2 ^ 64"
    and "length password < 2 ^ 64"
    and "length token < 2 ^ 64"
  shows "initWifiRequestFsm junk_item fsm_empty = Ok (settings_fsm junk_item SET_WIFI_BEGIN) \<and>
   (if readable ssid password token
    then \<exists>w'. write_settings junk ds (settings_fsm junk_item SET_WIFI_BEGIN) w = Ok (settings_fsm junk_item SET_WIFI_REQUEST, w') \<and>
      commands w' = commands w @ leds ''timer'' @ [nmcli_command (takeWhile (\<lambda>c. c \<noteq> 0) ssid) (takeWhile (\<lambda>c. c \<noteq> 0) password)] @
        leds ''default-on'' \<and> exited w'
    else write_settings junk ds (settings_fsm junk_item SET_WIFI_BEGIN) w = Fault OutOfBounds) \<and>
   (\<forall>m ms e r0. packets_of m ms \<and> decodeWifiInfoRequest junk m Wifi_zero 0 = Ok (e, r0) \<and> e \<noteq> 0 \<longrightarrow>
     (\<exists>w1. write_settings junk ms (settings_fsm junk_item SET_WIFI_BEGIN) w = Ok (settings_fsm junk_item SET_WIFI_BEGIN, w1) \<and>
       commands w1 = commands w @ leds ''timer'' \<and> exited w1 = exited w \<and>
       (\<forall>vs. [] \<notin> set vs \<longrightarrow> write_settings junk vs (settings_fsm junk_item SET_WIFI_BEGIN) w1 =
         Ok (settings_fsm junk_item SET_WIFI_BEGIN, w1\<lparr>commands := commands w1 @ concat (map (\<lambda>_. leds ''timer'') vs)\<rparr>)))) \<and>
   (\<forall>v buf len. Wifi_ok v \<and> 2 + length (number_bytes 51 MtUnsigned) + fields_bound (Wifi_fields v) \<le> unat len \<and> unat len \<le> length buf \<longrightarrow>
     (\<exists>buf' n. encodeWifiInfoRequest (Some v) buf len = Ok (0, buf', Some n) \<and>
       (\<forall>obj index. decodeWifiInfoRequest junk (take n buf') obj index = Ok (2003, obj))))"
  using initWifiRequestFsm_builds request_outcome [OF assms] request_refused [OF assms(1) _ assms(3)] wifi_own_message_refused by blast

theorem settings_process_witness:
  "\<exists>w'. write_settings (\<lambda>i. 9) [wifi_frame (wifi_message [34, 59, 114, 101, 98, 111, 111, 116, 59, 34, 0] (replicate 8 0) (replicate 8 0))]
      (settings_fsm example_item SET_WIFI_BEGIN) example_settings = Ok (settings_fsm example_item SET_WIFI_REQUEST, w') \<and>
    nmcli_command [34, 59, 114, 101, 98, 111, 111, 116, 59, 34] [] \<in> set (commands w') \<and> exited w'"
proof -
  let ?s = "[34, 59, 114, 101, 98, 111, 111, 116, 59, 34, 0] :: bytes" and ?z = "replicate 8 0 :: bytes"
  have "length (wifi_message ?s ?z ?z) < 2 ^ 15" by code_simp
  from one_packet [OF this] have h: "ft_event example_item \<noteq> C_WRITE_WIFI_REQUEST" "packets_of (wifi_message ?s ?z ?z) [wifi_frame (wifi_message ?s ?z ?z)]"
    "set_recv example_settings = Some recv_empty" "length ?s < 2 ^ 64" "length ?z < 2 ^ 64" "length ?z < 2 ^ 64"
    by (simp_all add: example_item_def example_settings_def)
  have t: "readable ?s ?z ?z" "takeWhile (\<lambda>c. c \<noteq> 0) ?s = [34, 59, 114, 101, 98, 111, 111, 116, 59, 34]" "takeWhile (\<lambda>c. c \<noteq> 0) ?z = []"
    by (simp_all add: readable_def)
  from settings_process [OF h, of "\<lambda>i. 9", THEN conjunct2, THEN conjunct1, unfolded t(2,3) if_P [OF t(1)]] show ?thesis by auto
qed

text \<open>C37. The process of wifi_service/server.c checks the bytes of its own answer to step 1 through a
  pointer to a struct: if the byte of its public key that it takes for has_nonce is 0, one key in
  256, a correct step 1 is not answered, and the machine is left in PAIRING_STEP1 with a full
  receiver, where no packet has any effect. (The unfilled item of the machine has event 0.)\<close>
theorem service_drops_step1:
  assumes "ft_event junk_item = 0"
    and "packets_of p ds"
    and "recv_pairing_data w = Some recv_empty"
    and "server_ok (srv w)"
    and "ig_PairingStep1_decode p ig_PairingStep1_init 0 = Ok (0, pairing_step1 C)"
    and "length C = 64"
    and "host_make_key env = Some (pub, priv)"
    and "length pub = 64"
    and "length priv = 32"
    and "host_shared_secret env C priv = Some z"
    and "length z = 32"
    and "6 \<le> nonce_flag_offset env"
    and "nonce_flag_offset env < 70"
    and "pub ! (nonce_flag_offset env - 6) = 0"
  shows "\<exists>w'. write_packets env ds (pairing_fsm junk_item PAIRING_BEGIN) w = Ok (pairing_fsm junk_item PAIRING_STEP1, w') \<and>
    values_sent w' = values_sent w \<and>
    (\<forall>env' vs. write_packets env' vs (pairing_fsm junk_item PAIRING_STEP1) w' = Ok (pairing_fsm junk_item PAIRING_STEP1, w'))"
  by (rule step1_dropped [OF assms])

theorem service_drops_step1_witness:
  "\<exists>w'. write_packets (example_host (replicate 64 0)) [wifi_frame ([0xa2, 0x00, 0x01, 0x0b, 0x58, 0x40] @ replicate 64 1)]
      (pairing_fsm example_item PAIRING_BEGIN) example_service = Ok (pairing_fsm example_item PAIRING_STEP1, w') \<and> values_sent w' = []"
proof -
  let ?p = "[0xa2, 0x00, 0x01, 0x0b, 0x58, 0x40] @ replicate 64 1 :: bytes" and ?e = "example_host (replicate 64 0)"
  have d: "ig_PairingStep1_decode ?p ig_PairingStep1_init 0 = Ok (0, pairing_step1 (replicate 64 1))" by code_simp
  have h: "ft_event example_item = 0" "packets_of ?p [wifi_frame ?p]" "recv_pairing_data example_service = Some recv_empty"
    "server_ok (srv example_service)" "length (replicate 64 1 :: bytes) = 64"
    "host_make_key ?e = Some (replicate 64 0, replicate 32 2)" "length (replicate 64 0 :: bytes) = 64" "length (replicate 32 2 :: bytes) = 32"
    "host_shared_secret ?e (replicate 64 1) (replicate 32 2) = Some (replicate 32 5)" "length (replicate 32 5 :: bytes) = 32"
    "6 \<le> nonce_flag_offset ?e" "nonce_flag_offset ?e < 70" "(replicate 64 0 :: bytes) ! (nonce_flag_offset ?e - 6) = 0"
    by (rule one_packet | simp add: example_service_defs)+
  show ?thesis
    using service_drops_step1 [OF h(1-4) d h(5-13)] by (auto simp: example_service_def)
qed



text \<open>C39. Four defects of the connection table: beginConnection marks the slot active before it tests the
  key length, so 32 calls with a key of another length fill the table and even a good key is
  refused; the index tests let 32 pass, so endConnection, encryptNative and decryptNative access
  memory behind the table; a received message of fewer than 8 bytes makes decryptNative declare an
  array of negative length; and endConnection of a slot other than 0 clears the receive nonce of
  slot 0 and leaves key and nonce of the ended slot in memory.\<close>
theorem table_defects:
  assumes "keyLen \<noteq> 16"
    and "conns_ok conns"
  shows "(\<exists>full. begin_times 32 rand t type jKey keyLen connections_init = Ok full \<and>
      beginConnection rand t' type' key' 16 full = Ok (- 1, full)) \<and>
   getConnection 32 = Some 32 \<and> endConnection 32 conns = Fault OutOfBounds \<and>
   encryptNative 32 msg n conns = Fault OutOfBounds \<and> decryptNative 32 c n conns = Fault OutOfBounds \<and>
   (\<forall>k d. k < 32 \<and> length d < 8 \<longrightarrow> decryptNative (int k) d (word_of_nat (length d)) conns = Fault OutOfBounds) \<and>
   (\<forall>k. 0 < k \<and> k < 32 \<longrightarrow> (\<exists>conns'. endConnection (int k) conns = Ok conns' \<and> \<not> active (conns' ! k) \<and>
      rxNonce (conns' ! k) = rxNonce (conns ! k) \<and> conn_key (conns' ! k) = conn_key (conns ! k) \<and> rxNonce (conns' ! 0) = replicate 12 0))"
  using bad_begins_exhaust [OF assms(1)] index_32 [OF assms(2)] short_message [OF assms(2)] end_leaves_nonce [OF assms(2)] by blast

theorem table_defects_witness:
  "endConnection 32 connections_init = Fault OutOfBounds \<and>
   (\<exists>full. begin_times 32 (\<lambda>s i. i) 0 kConnectionTypeAdmin [] 15 connections_init = Ok full \<and>
      beginConnection (\<lambda>s i. i) 1 kConnectionTypeAdmin (replicate 16 1) 16 full = Ok (- 1, full))"
proof -
  have "(15 :: int) \<noteq> 16" by simp
  from table_defects [OF this conns_ok_init] show ?thesis by blast
qed

text \<open>C40. What the message code makes of values of the wrong kind, in each of the 94 decoders: a number
  under the key of a byte string whose case stands above the case of an unsigned field is stored
  in that field, and the rest of the message is read with success as if nothing had happened (in
  LockRequest a number sent as password becomes the timestamp); a negative number for an unsigned
  field fails the assert of cbor_value_get_uint64, whatever follows it. And deinit of a
  LockRequest releases the password but keeps flag and size: the object stays valid, and encoding
  it into any block with room reads through NULL.\<close>
theorem codec_defects:
  "misreads ig_PairingStep1_cases ig_PairingStep1_decode \<and>
   misreads ig_PairingStep2_cases ig_PairingStep2_decode \<and>
   misreads ig_PairingStep3_cases ig_PairingStep3_decode \<and>
   misreads ig_PairingStep4_cases ig_PairingStep4_decode \<and>
   misreads ig_PairingCommit_cases ig_PairingCommit_decode \<and>
   misreads ig_AdminConnectionStep1_cases ig_AdminConnectionStep1_decode \<and>
   misreads ig_AdminConnectionStep2_cases ig_AdminConnectionStep2_decode \<and>
   misreads ig_AdminConnectionStep3_cases ig_AdminConnectionStep3_decode \<and>
   misreads ig_GuestConnectionStep1_cases ig_GuestConnectionStep1_decode \<and>
   misreads ig_GuestConnectionStep2_cases ig_GuestConnectionStep2_decode \<and>
   misreads ig_GuestConnectionStep3_cases ig_GuestConnectionStep3_decode \<and>
   misreads ig_GuestConnectionStep4_cases ig_GuestConnectionStep4_decode \<and>
   misreads ig_GuestToken_cases ig_GuestToken_decode \<and>
   misreads ig_UnpairRequest_cases ig_UnpairRequest_decode \<and>
   misreads ig_UnpairResponse_cases ig_UnpairResponse_decode \<and>
   misreads ig_LockRequest_cases ig_LockRequest_decode \<and>
   misreads ig_LockResponse_cases ig_LockResponse_decode \<and>
   misreads ig_UnlockRequest_cases ig_UnlockRequest_decode \<and>
   misreads ig_UnlockResponse_cases ig_UnlockResponse_decode \<and>
   misreads ig_GetLockStatusRequest_cases ig_GetLockStatusRequest_decode \<and>
   misreads ig_GetLockStatusResponse_cases ig_GetLockStatusResponse_decode \<and>
   misreads ig_GetStatusRequest_cases ig_GetStatusRequest_decode \<and>
   misreads ig_GetStatusResponse_cases ig_GetStatusResponse_decode \<and>
   misreads ig_StatusNotification_cases ig_StatusNotification_decode \<and>
   misreads ig_EnableAutoUnlockRequest_cases ig_EnableAutoUnlockRequest_decode \<and>
   misreads ig_EnableAutoUnlockResponse_cases ig_EnableAutoUnlockResponse_decode \<and>
   misreads ig_SetAutorelockRequest_cases ig_SetAutorelockRequest_decode \<and>
   misreads ig_SetAutorelockResponse_cases ig_SetAutorelockResponse_decode \<and>
   misreads ig_SetRelockAlarmRequest_cases ig_SetRelockAlarmRequest_decode \<and>
   misreads ig_SetRelockAlarmResponse_cases ig_SetRelockAlarmResponse_decode \<and>
   misreads ig_CreatePinRequest_cases ig_CreatePinRequest_decode \<and>
   misreads ig_CreatePinResponse_cases ig_CreatePinResponse_decode \<and>
   misreads ig_DeletePinRequest_cases ig_DeletePinRequest_decode \<and>
   misreads ig_DeletePinResponse_cases ig_DeletePinResponse_decode \<and>
   misreads ig_EditPinRequest_cases ig_EditPinRequest_decode \<and>
   misreads ig_EditPinResponse_cases ig_EditPinResponse_decode \<and>
   misreads ig_SetMasterPinRequest_cases ig_SetMasterPinRequest_decode \<and>
   misreads ig_SetMasterPinResponse_cases ig_SetMasterPinResponse_decode \<and>
   misreads ig_SetMaxIncorrectPinRequest_cases ig_SetMaxIncorrectPinRequest_decode \<and>
   misreads ig_SetMaxIncorrectPinResponse_cases ig_SetMaxIncorrectPinResponse_decode \<and>
   misreads ig_SetPinKeyRequest_cases ig_SetPinKeyRequest_decode \<and>
   misreads ig_SetPinKeyResponse_cases ig_SetPinKeyResponse_decode \<and>
   misreads ig_AddCardRequest_cases ig_AddCardRequest_decode \<and>
   misreads ig_AddCardResponse_cases ig_AddCardResponse_decode \<and>
   misreads ig_DeleteCardRequest_cases ig_DeleteCardRequest_decode \<and>
   misreads ig_DeleteCardResponse_cases ig_DeleteCardResponse_decode \<and>
   misreads ig_DeleteCardUidRequest_cases ig_DeleteCardUidRequest_decode \<and>
   misreads ig_DeleteCardUidResponse_cases ig_DeleteCardUidResponse_decode \<and>
   misreads ig_CardAddedNotification_cases ig_CardAddedNotification_decode \<and>
   misreads ig_CardDeletedNotification_cases ig_CardDeletedNotification_decode \<and>
   misreads ig_AddFingerprintRequest_cases ig_AddFingerprintRequest_decode \<and>
   misreads ig_AddFingerprintResponse_cases ig_AddFingerprintResponse_decode \<and>
   misreads ig_DeleteFingerprintRequest_cases ig_DeleteFingerprintRequest_decode \<and>
   misreads ig_DeleteFingerprintResponse_cases ig_DeleteFingerprintResponse_decode \<and>
   misreads ig_DeleteFingerprintUidRequest_cases ig_DeleteFingerprintUidRequest_decode \<and>
   misreads ig_DeleteFingerprintUidResponse_cases ig_DeleteFingerprintUidResponse_decode \<and>
   misreads ig_FingerprintAddedNotification_cases ig_FingerprintAddedNotification_decode \<and>
   misreads ig_FingerprintDeletedNotification_cases ig_FingerprintDeletedNotification_decode \<and>
   misreads ig_SetTimeRequest_cases ig_SetTimeRequest_decode \<and>
   misreads ig_SetTimeResponse_cases ig_SetTimeResponse_decode \<and>
   misreads ig_GetTimeRequest_cases ig_GetTimeRequest_decode \<and>
   misreads ig_GetTimeResponse_cases ig_GetTimeResponse_decode \<and>
   misreads ig_SetVolumeRequest_cases ig_SetVolumeRequest_decode \<and>
   misreads ig_SetVolumeResponse_cases ig_SetVolumeResponse_decode \<and>
   misreads ig_SetBrightnessRequest_cases ig_SetBrightnessRequest_decode \<and>
   misreads ig_SetBrightnessResponse_cases ig_SetBrightnessResponse_decode \<and>
   misreads ig_SetDaylightSavingRequest_cases ig_SetDaylightSavingRequest_decode \<and>
   misreads ig_SetDaylightSavingResponse_cases ig_SetDaylightSavingResponse_decode \<and>
   misreads ig_DaylightSavingRange_cases ig_DaylightSavingRange_decode \<and>
   misreads ig_GetBatteryLevelRequest_cases ig_GetBatteryLevelRequest_decode \<and>
   misreads ig_GetBatteryLevelResponse_cases ig_GetBatteryLevelResponse_decode \<and>
   misreads ig_EnableDfuRequest_cases ig_EnableDfuRequest_decode \<and>
   misreads ig_EnableDfuResponse_cases ig_EnableDfuResponse_decode \<and>
   misreads ig_GetFirmwareVersionRequest_cases ig_GetFirmwareVersionRequest_decode \<and>
   misreads ig_GetFirmwareVersionResponse_cases ig_GetFirmwareVersionResponse_decode \<and>
   misreads ig_AddLockRequest_cases ig_AddLockRequest_decode \<and>
   misreads ig_AddLockResponse_cases ig_AddLockResponse_decode \<and>
   misreads ig_DeleteLockRequest_cases ig_DeleteLockRequest_decode \<and>
   misreads ig_DeleteLockResponse_cases ig_DeleteLockResponse_decode \<and>
   misreads ig_SetBridgeConfigurationRequest_cases ig_SetBridgeConfigurationRequest_decode \<and>
   misreads ig_SetBridgeConfigurationResponse_cases ig_SetBridgeConfigurationResponse_decode \<and>
   misreads ig_SetNbConfigurationRequest_cases ig_SetNbConfigurationRequest_decode \<and>
   misreads ig_SetNbConfigurationResponse_cases ig_SetNbConfigurationResponse_decode \<and>
   misreads ig_BridgeStatusNotification_cases ig_BridgeStatusNotification_decode \<and>
   misreads ig_NbStatusNotification_cases ig_NbStatusNotification_decode \<and>
   misreads ig_GetLogsRequest_cases ig_GetLogsRequest_decode \<and>
   misreads ig_GetLogsResponse_cases ig_GetLogsResponse_decode \<and>
   misreads ig_LogEntry_cases ig_LogEntry_decode \<and>
   misreads ig_BlacklistGuestKeyRequest_cases ig_BlacklistGuestKeyRequest_decode \<and>
   misreads ig_BlacklistGuestKeyResponse_cases ig_BlacklistGuestKeyResponse_decode \<and>
   misreads ig_UnblacklistGuestKeyRequest_cases ig_UnblacklistGuestKeyRequest_decode \<and>
   misreads ig_UnblacklistGuestKeyResponse_cases ig_UnblacklistGuestKeyResponse_decode \<and>
   misreads ig_GuestKeyBlacklist_cases ig_GuestKeyBlacklist_decode \<and>
   misreads ig_GuestCardEkey_cases ig_GuestCardEkey_decode \<and>
   ig_LockRequest_decode (message_bytes [(11, WUint v)] @ rest) ig_LockRequest_init i = Ok (0, ig_LockRequest_set_timestamp (ucast v) ig_LockRequest_init) \<and>
   (\<forall>obj buf len. ig_LockRequest_ok obj \<and> unat (ig_LockRequest_get_max_payload_in_bytes obj) \<le> unat len \<and> unat len \<le> length buf \<longrightarrow>
     ig_LockRequest_is_valid (ig_LockRequest_deinit obj) \<and> ig_LockRequest_encode (ig_LockRequest_deinit obj) buf len = Fault OutOfBounds)"
proof (intro conjI)
  have m: "misreads ig_LockRequest_cases ig_LockRequest_decode" by (rule decoder_misreads [OF ig_LockRequest_decode_def])
  have d: "dropWhile (\<lambda>(k', _). k' \<noteq> 11) ig_LockRequest_cases = (11, CBytes (ig_LockRequest_set_password_nocopy False)) #
      (12, CUint (\<lambda>v. ig_LockRequest_set_timestamp (ucast v))) # [(100, CUint (\<lambda>v. ig_LockRequest_set_operation_id (ucast v)))]"
    by (simp add: ig_LockRequest_cases_def)
  show "ig_LockRequest_decode (message_bytes [(11, WUint v)] @ rest) ig_LockRequest_init i = Ok (0, ig_LockRequest_set_timestamp (ucast v) ig_LockRequest_init)"
    using number_falls_through [OF d, of "[]" v ig_LockRequest_init] by (simp add: ig_LockRequest_decode_def)
  show "\<forall>obj buf len. ig_LockRequest_ok obj \<and> unat (ig_LockRequest_get_max_payload_in_bytes obj) \<le> unat len \<and> unat len \<le> length buf \<longrightarrow>
     ig_LockRequest_is_valid (ig_LockRequest_deinit obj) \<and> ig_LockRequest_encode (ig_LockRequest_deinit obj) buf len = Fault OutOfBounds"
    using LockRequest_released by blast
qed (rule decoder_misreads, rule ig_PairingStep1_decode_def
      ig_PairingStep2_decode_def
      ig_PairingStep3_decode_def
      ig_PairingStep4_decode_def
      ig_PairingCommit_decode_def
      ig_AdminConnectionStep1_decode_def
      ig_AdminConnectionStep2_decode_def
      ig_AdminConnectionStep3_decode_def
      ig_GuestConnectionStep1_decode_def
      ig_GuestConnectionStep2_decode_def
      ig_GuestConnectionStep3_decode_def
      ig_GuestConnectionStep4_decode_def
      ig_GuestToken_decode_def
      ig_UnpairRequest_decode_def
      ig_UnpairResponse_decode_def
      ig_LockRequest_decode_def
      ig_LockResponse_decode_def
      ig_UnlockRequest_decode_def
      ig_UnlockResponse_decode_def
      ig_GetLockStatusRequest_decode_def
      ig_GetLockStatusResponse_decode_def
      ig_GetStatusRequest_decode_def
      ig_GetStatusResponse_decode_def
      ig_StatusNotification_decode_def
      ig_EnableAutoUnlockRequest_decode_def
      ig_EnableAutoUnlockResponse_decode_def
      ig_SetAutorelockRequest_decode_def
      ig_SetAutorelockResponse_decode_def
      ig_SetRelockAlarmRequest_decode_def
      ig_SetRelockAlarmResponse_decode_def
      ig_CreatePinRequest_decode_def
      ig_CreatePinResponse_decode_def
      ig_DeletePinRequest_decode_def
      ig_DeletePinResponse_decode_def
      ig_EditPinRequest_decode_def
      ig_EditPinResponse_decode_def
      ig_SetMasterPinRequest_decode_def
      ig_SetMasterPinResponse_decode_def
      ig_SetMaxIncorrectPinRequest_decode_def
      ig_SetMaxIncorrectPinResponse_decode_def
      ig_SetPinKeyRequest_decode_def
      ig_SetPinKeyResponse_decode_def
      ig_AddCardRequest_decode_def
      ig_AddCardResponse_decode_def
      ig_DeleteCardRequest_decode_def
      ig_DeleteCardResponse_decode_def
      ig_DeleteCardUidRequest_decode_def
      ig_DeleteCardUidResponse_decode_def
      ig_CardAddedNotification_decode_def
      ig_CardDeletedNotification_decode_def
      ig_AddFingerprintRequest_decode_def
      ig_AddFingerprintResponse_decode_def
      ig_DeleteFingerprintRequest_decode_def
      ig_DeleteFingerprintResponse_decode_def
      ig_DeleteFingerprintUidRequest_decode_def
      ig_DeleteFingerprintUidResponse_decode_def
      ig_FingerprintAddedNotification_decode_def
      ig_FingerprintDeletedNotification_decode_def
      ig_SetTimeRequest_decode_def
      ig_SetTimeResponse_decode_def
      ig_GetTimeRequest_decode_def
      ig_GetTimeResponse_decode_def
      ig_SetVolumeRequest_decode_def
      ig_SetVolumeResponse_decode_def
      ig_SetBrightnessRequest_decode_def
      ig_SetBrightnessResponse_decode_def
      ig_SetDaylightSavingRequest_decode_def
      ig_SetDaylightSavingResponse_decode_def
      ig_DaylightSavingRange_decode_def
      ig_GetBatteryLevelRequest_decode_def
      ig_GetBatteryLevelResponse_decode_def
      ig_EnableDfuRequest_decode_def
      ig_EnableDfuResponse_decode_def
      ig_GetFirmwareVersionRequest_decode_def
      ig_GetFirmwareVersionResponse_decode_def
      ig_AddLockRequest_decode_def
      ig_AddLockResponse_decode_def
      ig_DeleteLockRequest_decode_def
      ig_DeleteLockResponse_decode_def
      ig_SetBridgeConfigurationRequest_decode_def
      ig_SetBridgeConfigurationResponse_decode_def
      ig_SetNbConfigurationRequest_decode_def
      ig_SetNbConfigurationResponse_decode_def
      ig_BridgeStatusNotification_decode_def
      ig_NbStatusNotification_decode_def
      ig_GetLogsRequest_decode_def
      ig_GetLogsResponse_decode_def
      ig_LogEntry_decode_def
      ig_BlacklistGuestKeyRequest_decode_def
      ig_BlacklistGuestKeyResponse_decode_def
      ig_UnblacklistGuestKeyRequest_decode_def
      ig_UnblacklistGuestKeyResponse_decode_def
      ig_GuestKeyBlacklist_decode_def
      ig_GuestCardEkey_decode_def)+

theorem codec_defects_witness:
  "ig_UnlockRequest_decode [0xa1, 0x0c, 0x20] ig_UnlockRequest_init 0 = Fault AssertFailed \<and>
   ig_LockRequest_encode (ig_LockRequest_deinit (lock_request 7 [1, 2])) (replicate 34 0) 34 = Fault OutOfBounds"
proof -
  note p = codec_defects [of 0 "[]" 0]
  have m: "misreads ig_UnlockRequest_cases ig_UnlockRequest_decode" using p by blast
  have d: "dropWhile (\<lambda>(k', _). k' \<noteq> 12) ig_UnlockRequest_cases = (12, CUint (\<lambda>v. ig_UnlockRequest_set_timestamp (ucast v))) #
      tl (dropWhile (\<lambda>(k', _). k' \<noteq> 12) ig_UnlockRequest_cases)" "(- 1 :: i64) <s 0" "Suc (length ([] :: kv list)) < 2 ^ 30"
    by (simp_all add: ig_UnlockRequest_cases_def)
  from m d have "ig_UnlockRequest_decode (message_bytes ((12, WInt (- 1)) # []) @ []) ig_UnlockRequest_init 0 = Fault AssertFailed"
    unfolding misreads_def by blast
  moreover have "message_bytes ((12, WInt (- 1)) # []) = [0xa1, 0x0c, 0x20]" by code_simp
  moreover have "message_bytes ((12, WInt (- 1)) # []) @ [] = message_bytes ((12, WInt (- 1)) # [])" by simp
  ultimately have stops: "ig_UnlockRequest_decode [0xa1, 0x0c, 0x20] ig_UnlockRequest_init 0 = Fault AssertFailed" by metis
  have released: "\<forall>obj buf len. ig_LockRequest_ok obj \<and> unat (ig_LockRequest_get_max_payload_in_bytes obj) \<le> unat len \<and> unat len \<le> length buf \<longrightarrow>
     ig_LockRequest_is_valid (ig_LockRequest_deinit obj) \<and> ig_LockRequest_encode (ig_LockRequest_deinit obj) buf len = Fault OutOfBounds"
    using p by (elim conjE)
  have "ig_LockRequest_ok (lock_request 7 [1, 2])"
    by (simp add: ig_LockRequest_ok_def ig_LockRequest_is_valid_def lock_request_def str_ok_def num_ok_def)
  moreover have "unat (ig_LockRequest_get_max_payload_in_bytes (lock_request 7 [1, 2])) \<le> unat (34 :: u32)"
    "unat (34 :: u32) \<le> length (replicate 34 0 :: bytes)"
    by (simp_all add: ig_LockRequest_get_max_payload_in_bytes_def lock_request_def)
  ultimately have "ig_LockRequest_encode (ig_LockRequest_deinit (lock_request 7 [1, 2])) (replicate 34 0) 34 = Fault OutOfBounds"
    using released by blast
  with stops show ?thesis ..
qed

end
